(* ===== verification/Go_Prelude.thy ===== *)
theory Go_Prelude
  imports
    "HOL-Library.AList"
    "HOL-Library.Multiset"
    "HOL-Library.Word"
    "HOL-Library.List_Lexorder"
    "HOL-Library.Char_ord"
begin

text \<open>
  The part of the Go language and of its standard library that several components of the
  repository share, and the generic lemmas about it.

  \<^item> A Go \<^verbatim>\<open>map\<close> is an association list with distinct keys (\<open>gomap\<close>): \<open>gm_get\<close>, \<open>gm_set\<close>,
    \<open>gm_del\<close> and \<open>gm_len\<close> are the index expression, the assignment, \<^verbatim>\<open>delete\<close> and \<^verbatim>\<open>len\<close>.
    Go leaves the iteration order of a map unspecified: an operation that ranges over a map
    takes the order the run time picked as an argument \<open>ord\<close>, a function that permutes
    the entries (\<open>is_order\<close>), and its lemmas hold for every such function.
  \<^item> \<^verbatim>\<open>sort.Slice\<close>, \<^verbatim>\<open>sort.SliceStable\<close> and \<^verbatim>\<open>sort.Strings\<close> take a comparator; \<open>sort_by\<close> is the stable sort, and
    the locale \<open>weak_order_on\<close> is the contract the comparator has to meet.
  \<^item> \<^verbatim>\<open>time.Time\<close> counts nanoseconds from Go's zero time, \<^verbatim>\<open>time.Duration\<close> is a signed
    64-bit count of nanoseconds (\<open>wrap64\<close> is its wrap-around).
\<close>

section \<open>Collections of facts\<close>

named_theorems gomap_simps \<open>lookup, update, delete and length of Go maps\<close>
named_theorems sort_facts \<open>what the sorting routines return\<close>

section \<open>Machine integers, time\<close>

type_synonym u64 = "64 word"
type_synonym gtime = int
type_synonym duration = int
type_synonym byte = "8 word"

definition max_int64 :: int where
  "max_int64 = 2 ^ 63 - 1"

definition min_int64 :: int where
  "min_int64 = - (2 ^ 63)"

definition wrap64 :: "int \<Rightarrow> int" where
  "wrap64 x = (x + 2 ^ 63) mod 2 ^ 64 - 2 ^ 63"

lemma wrap64_range: "min_int64 \<le> wrap64 x \<and> wrap64 x \<le> max_int64"
  by (simp add: wrap64_def min_int64_def max_int64_def)

lemma wrap64_le: "0 \<le> x \<Longrightarrow> wrap64 x \<le> x"
  using zmod_le_nonneg_dividend [of "x + 2 ^ 63" "2 ^ 64"] by (simp add: wrap64_def)

lemma wrap64_id: "min_int64 \<le> x \<Longrightarrow> x \<le> max_int64 \<Longrightarrow> wrap64 x = x"
  by (simp add: wrap64_def min_int64_def max_int64_def)

definition time_is_zero :: "gtime \<Rightarrow> bool" where
  "time_is_zero t = (t = 0)"

text \<open>\<^verbatim>\<open>t.Sub(u)\<close> saturates at the ends of the \<^verbatim>\<open>Duration\<close> range.\<close>

definition time_sub :: "gtime \<Rightarrow> gtime \<Rightarrow> duration" where
  "time_sub t u = max min_int64 (min max_int64 (t - u))"

text \<open>\<^verbatim>\<open>time.Unix(sec, 0)\<close>: the seconds are shifted to year 1 in 64-bit arithmetic.\<close>

definition time_unix :: "int \<Rightarrow> gtime" where
  "time_unix sec = wrap64 (sec + 62135596800) * 1000000000"

definition millisecond :: duration where
  "millisecond = 1000000"

definition second :: duration where
  "second = 1000000000"

text \<open>Integer division of Go truncates towards zero.\<close>

definition go_div :: "int \<Rightarrow> int \<Rightarrow> int" where
  "go_div a b = sgn a * sgn b * (\<bar>a\<bar> div \<bar>b\<bar>)"

lemma go_div_nonneg: "0 \<le> a \<Longrightarrow> 0 < b \<Longrightarrow> go_div a b = a div b"
  by (cases "a = 0") (auto simp: go_div_def)

section \<open>Go maps\<close>

type_synonym ('k, 'v) gomap = "('k \<times> 'v) list"

definition gm_ok :: "('k, 'v) gomap \<Rightarrow> bool" where
  "gm_ok m = distinct (map fst m)"

definition gm_get :: "('k, 'v) gomap \<Rightarrow> 'k \<Rightarrow> 'v option" where
  "gm_get m k = map_of m k"

definition gm_set :: "('k, 'v) gomap \<Rightarrow> 'k \<Rightarrow> 'v \<Rightarrow> ('k, 'v) gomap" where
  "gm_set m k v = AList.update k v m"

definition gm_del :: "('k, 'v) gomap \<Rightarrow> 'k \<Rightarrow> ('k, 'v) gomap" where
  "gm_del m k = AList.delete k m"

definition gm_len :: "('k, 'v) gomap \<Rightarrow> nat" where
  "gm_len m = length m"

text \<open>The zero value an index expression yields for a missing key.\<close>

definition gm_get0 :: "'v \<Rightarrow> ('k, 'v) gomap \<Rightarrow> 'k \<Rightarrow> 'v" where
  "gm_get0 z m k = (case gm_get m k of None \<Rightarrow> z | Some v \<Rightarrow> v)"

lemma gm_get_nil [simp, gomap_simps]: "gm_get [] k = None"
  by (simp add: gm_get_def)

lemma gm_get_set [simp, gomap_simps]:
  "gm_get (gm_set m k v) k' = (if k' = k then Some v else gm_get m k')"
  by (simp add: gm_get_def gm_set_def update_conv')

lemma gm_get_del [simp, gomap_simps]:
  "gm_get (gm_del m k) k' = (if k' = k then None else gm_get m k')"
  by (simp add: gm_get_def gm_del_def delete_conv')

lemma gm_ok_nil [simp, intro]: "gm_ok []"
  by (simp add: gm_ok_def)

lemma gm_ok_set [simp, intro]: "gm_ok m \<Longrightarrow> gm_ok (gm_set m k v)"
  by (simp add: gm_ok_def gm_set_def distinct_update)

lemma gm_ok_del [simp, intro]: "gm_ok m \<Longrightarrow> gm_ok (gm_del m k)"
  by (simp add: gm_ok_def gm_del_def distinct_delete)

lemma gm_keys_set: "fst ` set (gm_set m k v) = insert k (fst ` set m)"
  by (simp add: gm_set_def dom_update)

lemma gm_get_dom: "(\<exists>v. gm_get m k = Some v) \<longleftrightarrow> k \<in> fst ` set m"
  by (metis gm_get_def map_of_eq_None_iff not_None_eq)

lemma gm_get_None_iff: "gm_get m k = None \<longleftrightarrow> k \<notin> fst ` set m"
  by (simp add: gm_get_def map_of_eq_None_iff)

lemma gm_get_in: "gm_ok m \<Longrightarrow> gm_get m k = Some v \<longleftrightarrow> (k, v) \<in> set m"
  by (simp add: gm_ok_def gm_get_def)

lemma gm_get_mem: "gm_get m k = Some v \<Longrightarrow> (k, v) \<in> set m"
  by (simp add: gm_get_def map_of_SomeD)

lemma gm_len_card: "gm_ok m \<Longrightarrow> gm_len m = card (fst ` set m)"
  by (metis distinct_card gm_len_def gm_ok_def length_map list.set_map)

lemma gm_len_set [gomap_simps]:
  "gm_ok m \<Longrightarrow> gm_len (gm_set m k v) = (if gm_get m k = None then Suc (gm_len m) else gm_len m)"
  by (simp add: gm_len_card gm_keys_set gm_get_None_iff card_insert_if)

lemma gm_keys_del: "fst ` set (gm_del m k) = fst ` set m - {k}"
proof -
  have "set (map fst (AList.delete k m)) = set (map fst m) - {k}"
    by (simp only: delete_keys set_removeAll)
  then show ?thesis by (simp add: gm_del_def)
qed

lemma gm_len_del [gomap_simps]:
  "gm_ok m \<Longrightarrow> gm_len (gm_del m k) = (if gm_get m k = None then gm_len m else gm_len m - 1)"
  by (simp add: gm_len_card gm_keys_del gm_get_None_iff card_Diff_singleton_if)

text \<open>The iteration order picked by the run time.\<close>

definition is_order :: "('a list \<Rightarrow> 'a list) \<Rightarrow> bool" where
  "is_order ord \<longleftrightarrow> (\<forall>xs. mset (ord xs) = mset xs)"

lemma is_order_id [simp, intro]: "is_order (\<lambda>xs. xs)"
  by (simp add: is_order_def)

lemma is_order_rev [simp, intro]: "is_order rev"
  by (simp add: is_order_def)

lemma is_order_mset: "is_order ord \<Longrightarrow> mset (ord xs) = mset xs"
  by (simp add: is_order_def)

lemma is_order_set: "is_order ord \<Longrightarrow> set (ord xs) = set xs"
  by (metis is_order_mset set_mset_mset)

lemma is_order_length: "is_order ord \<Longrightarrow> length (ord xs) = length xs"
  by (metis is_order_mset size_mset)

section \<open>Sorting\<close>

fun insert_by :: "('a \<Rightarrow> 'a \<Rightarrow> bool) \<Rightarrow> 'a \<Rightarrow> 'a list \<Rightarrow> 'a list" where
  "insert_by lt x [] = [x]"
| "insert_by lt x (y # ys) = (if lt y x then y # insert_by lt x ys else x # y # ys)"

fun sort_by :: "('a \<Rightarrow> 'a \<Rightarrow> bool) \<Rightarrow> 'a list \<Rightarrow> 'a list" where
  "sort_by lt [] = []"
| "sort_by lt (x # xs) = insert_by lt x (sort_by lt xs)"

lemma mset_insert_by [simp, sort_facts]: "mset (insert_by lt x xs) = add_mset x (mset xs)"
  by (induction xs) auto

lemma mset_sort_by [simp, sort_facts]: "mset (sort_by lt xs) = mset xs"
  by (induction xs) auto

lemma set_insert_by [simp]: "set (insert_by lt x xs) = insert x (set xs)"
  by (induction xs) auto

lemma set_sort_by [simp]: "set (sort_by lt xs) = set xs"
  by (induction xs) auto

lemma sort_by_Nil [simp]: "sort_by lt xs = [] \<longleftrightarrow> xs = []"
  using set_sort_by [of lt xs] by (metis set_empty)

lemma length_sort_by [simp]: "length (sort_by lt xs) = length xs"
  by (metis mset_sort_by size_mset)

text \<open>
  The contract of a comparator on the values \<open>ok\<close> describes: a strict weak order.
  Go's sorting routines, \<^verbatim>\<open>container/heap\<close> and \<^verbatim>\<open>sort.Search\<close> promise nothing for a
  comparator that does not meet it.
\<close>

locale weak_order_on =
  fixes lt :: "'a \<Rightarrow> 'a \<Rightarrow> bool"
    and ok :: "'a \<Rightarrow> bool"
  assumes lt_irrefl: "ok x \<Longrightarrow> \<not> lt x x"
    and lt_trans: "ok x \<Longrightarrow> ok y \<Longrightarrow> ok z \<Longrightarrow> lt x y \<Longrightarrow> lt y z \<Longrightarrow> lt x z"
    and lt_cotrans: "ok x \<Longrightarrow> ok y \<Longrightarrow> ok z \<Longrightarrow> lt x z \<Longrightarrow> lt x y \<or> lt y z"
begin

lemma lt_asym: "ok x \<Longrightarrow> ok y \<Longrightarrow> lt x y \<Longrightarrow> \<not> lt y x"
  using lt_irrefl lt_trans by blast

lemma notlt_trans:
  "ok x \<Longrightarrow> ok y \<Longrightarrow> ok z \<Longrightarrow> \<not> lt y x \<Longrightarrow> \<not> lt z y \<Longrightarrow> \<not> lt z x"
  using lt_cotrans by blast

lemma sorted_insert_by:
  assumes "ok x" and "list_all ok xs" and "sorted_wrt (\<lambda>a b. \<not> lt b a) xs"
  shows "sorted_wrt (\<lambda>a b. \<not> lt b a) (insert_by lt x xs)"
  using assms
proof (induction xs)
  case Nil
  then show ?case by simp
next
  case (Cons y ys)
  then have oks: "ok y" "\<And>z. z \<in> set ys \<Longrightarrow> ok z"
    by (auto simp: list_all_iff)
  show ?case
  proof (cases "lt y x")
    case True
    with Cons oks show ?thesis by (auto dest: lt_asym)
  next
    case False
    have "\<not> lt z x" if "z \<in> set ys" for z
      using notlt_trans [of x y z] False Cons.prems oks that by auto
    with False Cons.prems show ?thesis by auto
  qed
qed

lemma sorted_sort_by:
  "list_all ok xs \<Longrightarrow> sorted_wrt (\<lambda>a b. \<not> lt b a) (sort_by lt xs)"
proof (induction xs)
  case Nil
  then show ?case by simp
next
  case (Cons x xs)
  have "list_all ok (sort_by lt xs)"
    using Cons.prems by (simp add: list_all_iff)
  with Cons show ?case by (simp add: sorted_insert_by)
qed

lemma sort_by_head_least:
  assumes "list_all ok xs" and "sort_by lt xs = y # ys" and "x \<in> set xs"
  shows "\<not> lt x y"
proof -
  have "x = y \<or> x \<in> set ys"
    using assms(2,3) set_sort_by [of lt xs] by auto
  moreover have "ok y"
    using assms(1,2) set_sort_by [of lt xs] by (auto simp: list_all_iff)
  ultimately show ?thesis
    using sorted_sort_by [OF assms(1)] assms(2) lt_irrefl by auto
qed

end

text \<open>
  A comparator that also separates distinct values sorts every arrangement of the same
  values into the same list: what comes out does not depend on what order a map was
  ranged over.
\<close>

locale total_order_on = weak_order_on +
  assumes lt_total: "ok x \<Longrightarrow> ok y \<Longrightarrow> lt x y \<or> x = y \<or> lt y x"
begin

lemma sorted_unique:
  "mset xs = mset ys \<Longrightarrow> list_all ok xs \<Longrightarrow>
   sorted_wrt (\<lambda>a b. \<not> lt b a) xs \<Longrightarrow> sorted_wrt (\<lambda>a b. \<not> lt b a) ys \<Longrightarrow> xs = ys"
proof (induction xs arbitrary: ys)
  case Nil
  then show ?case by simp
next
  case (Cons x xs)
  then obtain y ys' where ys: "ys = y # ys'" by (cases ys) auto
  have sets: "set (x # xs) = set (y # ys')" using Cons.prems(1) ys by (metis set_mset_mset)
  then have oks: "ok x" "ok y" using Cons.prems(2) by (auto simp: list_all_iff)
  have "y = x \<or> y \<in> set xs" "x = y \<or> x \<in> set ys'" using sets by auto
  then have "\<not> lt y x" "\<not> lt x y" using Cons.prems(3,4) ys oks lt_irrefl by auto
  then have "x = y" using lt_total oks by blast
  then show ?case using Cons ys by auto
qed

lemma sort_by_perm:
  assumes "mset xs = mset ys" and "list_all ok xs"
  shows "sort_by lt xs = sort_by lt ys"
proof (rule sorted_unique)
  have "list_all ok ys" using assms by (metis list_all_iff set_mset_mset)
  then show "sorted_wrt (\<lambda>a b. \<not> lt b a) (sort_by lt ys)" by (rule sorted_sort_by)
qed (use assms sorted_sort_by in \<open>auto simp: list_all_iff\<close>)

end

interpretation word_lt: total_order_on "(<) :: u64 \<Rightarrow> u64 \<Rightarrow> bool" "\<lambda>_. True"
  by unfold_locales auto

lemma sorted_sort_by_word: "sorted (sort_by (<) (xs :: u64 list))"
  using word_lt.sorted_sort_by [of xs] by (simp add: list_all_iff not_less)

lemma distinct_sort_by [simp]: "distinct (sort_by lt xs) \<longleftrightarrow> distinct xs"
  using mset_sort_by [of lt xs] by (rule mset_eq_imp_distinct_iff)

lemma sort_perm: "mset xs = mset ys \<Longrightarrow> sort xs = sort ys"
  by (metis sorted_list_of_multiset_mset)

lemma is_order_mset_map: "is_order ord \<Longrightarrow> mset (map f (ord xs)) = mset (map f xs)"
  by (simp add: is_order_mset)

end
