(* ===== verification/Go_Strings.thy ===== *)
theory Go_Strings
  imports Go_Prelude
begin

text \<open>
  Go's string routines the sources call. A Go string is a sequence of bytes, so a
  \<open>string\<close> here holds one \<open>char\<close> per byte of the UTF-8 text.

  \<^item> \<open>TrimSpace\<close> is \<^verbatim>\<open>strings.TrimSpace\<close>: it drops the encodings of the Unicode
    white-space code points at both ends.
  \<^item> \<open>ToLower\<close> is \<^verbatim>\<open>strings.ToLower\<close> as far as comparing its result with ASCII words goes:
    ASCII letters, and the two code points outside ASCII whose lower case is an ASCII
    letter, are mapped; other bytes stay outside ASCII.
  \<^item> \<open>ParseUint\<close> is \<^verbatim>\<open>strconv.ParseUint(s, base, 64)\<close>, \<open>SetString\<close> is
    \<^verbatim>\<open>(*big.Int).SetString(s, base)\<close>, \<open>show_nat\<close> and \<open>show_int\<close> are the \<^verbatim>\<open>%d\<close> and \<^verbatim>\<open>%x\<close>
    verbs. The lemmas at the end are the round trips between printing and parsing.
\<close>

section \<open>White space and case\<close>

definition go_spaces :: "string list" where
  "go_spaces =
    [[CHR 0x09], [CHR 0x0A], [CHR 0x0B], [CHR 0x0C], [CHR 0x0D], [CHR 0x20],
     [CHR 0xC2, CHR 0x85], [CHR 0xC2, CHR 0xA0], [CHR 0xE1, CHR 0x9A, CHR 0x80],
     [CHR 0xE2, CHR 0x80, CHR 0x80], [CHR 0xE2, CHR 0x80, CHR 0x81],
     [CHR 0xE2, CHR 0x80, CHR 0x82], [CHR 0xE2, CHR 0x80, CHR 0x83],
     [CHR 0xE2, CHR 0x80, CHR 0x84], [CHR 0xE2, CHR 0x80, CHR 0x85],
     [CHR 0xE2, CHR 0x80, CHR 0x86], [CHR 0xE2, CHR 0x80, CHR 0x87],
     [CHR 0xE2, CHR 0x80, CHR 0x88], [CHR 0xE2, CHR 0x80, CHR 0x89],
     [CHR 0xE2, CHR 0x80, CHR 0x8A], [CHR 0xE2, CHR 0x80, CHR 0xA8],
     [CHR 0xE2, CHR 0x80, CHR 0xA9], [CHR 0xE2, CHR 0x80, CHR 0xAF],
     [CHR 0xE2, CHR 0x81, CHR 0x9F], [CHR 0xE3, CHR 0x80, CHR 0x80]]"

fun strip_one :: "string list \<Rightarrow> string \<Rightarrow> string option" where
  "strip_one [] s = None"
| "strip_one (p # ps) s =
     (if p \<noteq> [] \<and> take (length p) s = p then Some (drop (length p) s) else strip_one ps s)"

lemma strip_one_shorter: "strip_one ps s = Some r \<Longrightarrow> length r < length s"
proof (induction ps)
  case (Cons p ps)
  show ?case
  proof (cases "p \<noteq> [] \<and> take (length p) s = p")
    case True
    then have "0 < length p" and "length p \<le> length s"
      by (auto, metis length_take min.cobounded1)
    then have "length s - length p < length s" by linarith
    with True Cons.prems show ?thesis by auto
  next
    case False
    with Cons show ?thesis by (simp split: if_splits)
  qed
qed simp

function trim_by :: "string list \<Rightarrow> string \<Rightarrow> string" where
  "trim_by ps s = (case strip_one ps s of None \<Rightarrow> s | Some r \<Rightarrow> trim_by ps r)"
  by pat_completeness auto
termination
  by (relation "measure (\<lambda>(ps, s). length s)") (auto dest: strip_one_shorter)

declare trim_by.simps [simp del]

definition TrimSpace :: "string \<Rightarrow> string" where
  "TrimSpace s = rev (trim_by (map rev go_spaces) (rev (trim_by go_spaces s)))"

definition HasPrefix :: "string \<Rightarrow> string \<Rightarrow> bool" where
  "HasPrefix s p = (take (length p) s = p)"

definition lower_char :: "char \<Rightarrow> char" where
  "lower_char c = (let n = of_char c :: nat in if 65 \<le> n \<and> n \<le> 90 then char_of (n + 32) else c)"

fun ToLower :: "string \<Rightarrow> string" where
  "ToLower [] = []"
| "ToLower [a] = [lower_char a]"
| "ToLower [a, b] =
     (if a = CHR 0xC4 \<and> b = CHR 0xB0 then ''i'' else lower_char a # ToLower [b])"
| "ToLower (a # b # c # s) =
     (if a = CHR 0xC4 \<and> b = CHR 0xB0 then CHR ''i'' # ToLower (c # s)
      else if a = CHR 0xE2 \<and> b = CHR 0x84 \<and> c = CHR 0xAA then CHR ''k'' # ToLower s
      else lower_char a # ToLower (b # c # s))"

text \<open>\<^verbatim>\<open>strings.Join\<close> and \<^verbatim>\<open>strings.Split\<close> with a one-byte separator.\<close>

fun Join :: "string list \<Rightarrow> string \<Rightarrow> string" where
  "Join [] sep = []"
| "Join [s] sep = s"
| "Join (s # t # ss) sep = s @ sep @ Join (t # ss) sep"

fun Split1 :: "char \<Rightarrow> string \<Rightarrow> string list" where
  "Split1 c [] = [[]]"
| "Split1 c (x # xs) =
     (if x = c then [] # Split1 c xs
      else case Split1 c xs of [] \<Rightarrow> [[x]] | p # ps \<Rightarrow> (x # p) # ps)"

section \<open>Well-formed text\<close>

text \<open>\<^verbatim>\<open>utf8.ValidString\<close>: one well-formed code point after another.\<close>

definition utf8_cont :: "nat \<Rightarrow> nat \<Rightarrow> char \<Rightarrow> bool" where
  "utf8_cont lo hi c \<longleftrightarrow> lo \<le> of_char c \<and> (of_char c :: nat) \<le> hi"

definition utf8_lead :: "nat \<Rightarrow> (nat \<times> nat) list option" where
  "utf8_lead n =
     (if n < 0x80 then Some []
      else if 0xC2 \<le> n \<and> n \<le> 0xDF then Some [(0x80, 0xBF)]
      else if n = 0xE0 then Some [(0xA0, 0xBF), (0x80, 0xBF)]
      else if n = 0xED then Some [(0x80, 0x9F), (0x80, 0xBF)]
      else if 0xE1 \<le> n \<and> n \<le> 0xEF then Some [(0x80, 0xBF), (0x80, 0xBF)]
      else if n = 0xF0 then Some [(0x90, 0xBF), (0x80, 0xBF), (0x80, 0xBF)]
      else if 0xF1 \<le> n \<and> n \<le> 0xF3 then Some [(0x80, 0xBF), (0x80, 0xBF), (0x80, 0xBF)]
      else if n = 0xF4 then Some [(0x80, 0x8F), (0x80, 0xBF), (0x80, 0xBF)]
      else None)"

fun utf8_from :: "(nat \<times> nat) list \<Rightarrow> string \<Rightarrow> bool" where
  "utf8_from [] [] = True"
| "utf8_from (_ # _) [] = False"
| "utf8_from [] (c # s) = (case utf8_lead (of_char c) of None \<Rightarrow> False | Some rs \<Rightarrow> utf8_from rs s)"
| "utf8_from ((lo, hi) # rs) (c # s) = (utf8_cont lo hi c \<and> utf8_from rs s)"

definition utf8_valid :: "string \<Rightarrow> bool" where
  "utf8_valid s = utf8_from [] s"

section \<open>Numbers\<close>

definition digit_val :: "char \<Rightarrow> nat option" where
  "digit_val c =
     (let n = of_char c :: nat in
      if 48 \<le> n \<and> n \<le> 57 then Some (n - 48)
      else if 97 \<le> n \<and> n \<le> 122 then Some (n - 87)
      else if 65 \<le> n \<and> n \<le> 90 then Some (n - 55)
      else None)"

fun digits_value :: "nat \<Rightarrow> nat \<Rightarrow> string \<Rightarrow> nat option" where
  "digits_value base acc [] = Some acc"
| "digits_value base acc (c # cs) =
     (case digit_val c of
        None \<Rightarrow> None
      | Some d \<Rightarrow> if d < base then digits_value base (acc * base + d) cs else None)"

definition ParseUint :: "nat \<Rightarrow> string \<Rightarrow> u64 option" where
  "ParseUint base s =
     (if s = [] then None
      else case digits_value base 0 s of
             None \<Rightarrow> None
           | Some n \<Rightarrow> if n < 2 ^ 64 then Some (of_nat n) else None)"

definition SetString :: "nat \<Rightarrow> string \<Rightarrow> int option" where
  "SetString base s =
     (let (neg, ds) = (case s of [] \<Rightarrow> (False, [])
                       | c # cs \<Rightarrow> if c = CHR ''-'' then (True, cs)
                                   else if c = CHR ''+'' then (False, cs) else (False, s))
      in if ds = [] then None
         else case digits_value base 0 ds of
                None \<Rightarrow> None
              | Some n \<Rightarrow> Some (if neg then - int n else int n))"

definition digit_char :: "nat \<Rightarrow> char" where
  "digit_char d = (if d < 10 then char_of (48 + d) else char_of (87 + d))"

function show_nat :: "nat \<Rightarrow> nat \<Rightarrow> string" where
  "show_nat base n =
     (if base < 2 \<or> n < base then [digit_char n]
      else show_nat base (n div base) @ [digit_char (n mod base)])"
  by pat_completeness auto
termination
  by (relation "measure snd") auto

declare show_nat.simps [simp del]

definition show_int :: "nat \<Rightarrow> int \<Rightarrow> string" where
  "show_int base i = (if i < 0 then CHR ''-'' # show_nat base (nat (- i)) else show_nat base (nat i))"

section \<open>Round trips\<close>

lemma digit_val_char: "d < 16 \<Longrightarrow> digit_val (digit_char d) = Some d"
  by (auto simp: digit_val_def digit_char_def Let_def)

lemma digits_value_append:
  "digits_value base acc (s @ t) =
     (case digits_value base acc s of None \<Rightarrow> None | Some a \<Rightarrow> digits_value base a t)"
  by (induction s arbitrary: acc) (auto split: option.splits)

lemma digits_value_show_nat:
  assumes "2 \<le> base" and "base \<le> 16"
  shows "digits_value base 0 (show_nat base n) = Some n"
  using assms
proof (induction base n rule: show_nat.induct)
  case (1 base n)
  show ?case
  proof (cases "n < base")
    case True
    with 1 show ?thesis by (subst show_nat.simps) (simp add: digit_val_char)
  next
    case False
    with 1 have "digits_value base 0 (show_nat base (n div base)) = Some (n div base)"
      by simp
    moreover have small: "n mod base < base" using "1.prems" by simp
    moreover have "digit_val (digit_char (n mod base)) = Some (n mod base)"
      using small "1.prems" by (intro digit_val_char) linarith
    ultimately show ?thesis
      using False "1.prems"
      by (subst show_nat.simps) (simp add: digits_value_append)
  qed
qed

lemma show_nat_nonempty [simp]: "show_nat base n \<noteq> []"
  by (subst show_nat.simps) simp

text \<open>The characters a printed number is made of.\<close>

definition is_hex_char :: "char \<Rightarrow> bool" where
  "is_hex_char c = (c \<in> set ''0123456789abcdef'')"

lemma digit_char_hex: "d < 16 \<Longrightarrow> is_hex_char (digit_char d)"
proof -
  assume "d < 16"
  moreover have "list_all (\<lambda>d. is_hex_char (digit_char d)) [0..<16]"
    by code_simp
  ultimately show ?thesis by (simp add: list_all_iff)
qed

lemma show_nat_hex:
  "2 \<le> base \<Longrightarrow> base \<le> 16 \<Longrightarrow> c \<in> set (show_nat base n) \<Longrightarrow> is_hex_char c"
proof (induction base n rule: show_nat.induct)
  case (1 base n)
  show ?case
  proof (cases "n < base")
    case True
    with 1 have "c = digit_char n" by (simp add: show_nat.simps [of base n])
    with True 1 show ?thesis by (simp add: digit_char_hex)
  next
    case False
    have "n mod base < base" using "1.prems" by simp
    then have "n mod base < 16" using "1.prems" by linarith
    moreover have "c \<in> set (show_nat base (n div base)) \<or> c = digit_char (n mod base)"
      using "1.prems" False by (auto simp: show_nat.simps [of base n])
    ultimately show ?thesis
      using 1 False by (auto intro: digit_char_hex)
  qed
qed

lemma SetString_show_int:
  assumes "2 \<le> base" and "base \<le> 16"
  shows "SetString base (show_int base i) = Some i"
proof -
  obtain c cs where s: "show_nat base (nat \<bar>i\<bar>) = c # cs"
    by (meson show_nat_nonempty list.exhaust)
  then have "is_hex_char c"
    using show_nat_hex [OF assms, of c "nat \<bar>i\<bar>"] by simp
  then have "c \<noteq> CHR ''-''" and "c \<noteq> CHR ''+''"
    by (auto simp: is_hex_char_def)
  moreover have "digits_value base 0 (c # cs) = Some (nat \<bar>i\<bar>)"
    using digits_value_show_nat [OF assms, of "nat \<bar>i\<bar>"] s by simp
  ultimately show ?thesis
    using s by (cases "i < 0") (auto simp: SetString_def show_int_def)
qed

lemma ParseUint_show_nat:
  assumes "2 \<le> base" and "base \<le> 16" and "n < 2 ^ 64"
  shows "ParseUint base (show_nat base n) = Some (of_nat n)"
  using digits_value_show_nat [OF assms(1,2), of n] assms(3)
  by (simp add: ParseUint_def)

subsection \<open>Trimming leaves text without white space at its ends alone\<close>

lemma strip_one_None:
  "(\<And>p. p \<in> set ps \<Longrightarrow> p \<noteq> [] \<and> hd p \<noteq> c) \<Longrightarrow> strip_one ps (c # cs) = None"
proof (induction ps)
  case (Cons p ps)
  have "take (length p) (c # cs) \<noteq> p"
    using Cons.prems [of p] by (cases p) auto
  then show ?case using Cons by simp
qed simp

lemma trim_by_id:
  "(\<And>p. p \<in> set ps \<Longrightarrow> p \<noteq> [] \<and> hd p \<noteq> c) \<Longrightarrow> trim_by ps (c # cs) = c # cs"
  by (subst trim_by.simps) (simp add: strip_one_None)

definition plain_char :: "char \<Rightarrow> bool" where
  "plain_char c = (32 < (of_char c :: nat) \<and> (of_char c :: nat) < 128)"

lemma go_spaces_head: "plain_char c \<Longrightarrow> p \<in> set go_spaces \<Longrightarrow> p \<noteq> [] \<and> hd p \<noteq> c"
  by (auto simp: go_spaces_def plain_char_def)

lemma go_spaces_last:
  "plain_char c \<Longrightarrow> p \<in> set (map rev go_spaces) \<Longrightarrow> p \<noteq> [] \<and> hd p \<noteq> c"
  by (auto simp: go_spaces_def plain_char_def)

lemma TrimSpace_plain:
  assumes "s \<noteq> []" and "plain_char (hd s)" and "plain_char (last s)"
  shows "TrimSpace s = s"
proof -
  have "trim_by go_spaces s = s"
    using assms(1,2) trim_by_id [of go_spaces "hd s" "tl s"] go_spaces_head
    by (metis list.collapse)
  moreover have "trim_by (map rev go_spaces) (rev s) = rev s"
    using assms(1,3) trim_by_id [of "map rev go_spaces" "hd (rev s)" "tl (rev s)"] go_spaces_last
    by (metis hd_rev list.collapse rev_is_Nil_conv)
  ultimately show ?thesis by (simp add: TrimSpace_def)
qed

lemma TrimSpace_Nil [simp]: "TrimSpace [] = []"
  by (simp add: TrimSpace_def trim_by.simps go_spaces_def)

lemma is_hex_plain: "is_hex_char c \<Longrightarrow> plain_char c"
  by (auto simp: is_hex_char_def plain_char_def)

end
