(* ===== verification/Tx_Model.thy ===== *)
theory Tx_Model
  imports Go_Strings
begin

text \<open>
  The data of the transaction-pool builder, \<^verbatim>\<open>txpool-builder/v2/internal/model/model.go\<close>, and
  the leaf helpers of \<^verbatim>\<open>internal/service\<close> every stage of a build calls: parsing of numbers
  (\<open>parseUintString\<close>, \<open>parseBigIntString\<close>), the order in which transactions compete
  (\<open>compareTx\<close>) and the decision records of the trace (\<open>rejectDecision\<close>, \<open>acceptDecision\<close>,
  \<open>countReasons\<close>). A \<^verbatim>\<open>*big.Int\<close> is an \<open>int option\<close>, \<open>None\<close> the nil pointer. Field
  names carry the record's initials.

  The lemmas show that \<open>compareTx\<close> is a total comparison that ties only on equal keys, so
  that it meets the comparator contract (\<open>tx_cmp\<close>), and that numbers survive being printed
  and parsed again.
\<close>

section \<open>Reason codes and records\<close>

datatype ReasonCode =
  NoReason | ReasonConfigError | ReasonRPCUnavailable | ReasonRPCSchemaError
  | ReasonRPCUnsupportedMethod | ReasonChainIDMismatch | ReasonSyncingNode | ReasonHeadDrift
  | ReasonSnapshotTooLarge | ReasonDecodeError | ReasonMissingField | ReasonInvalidHex
  | ReasonInvalidNonce | ReasonInvalidGas | ReasonInvalidFeeModel | ReasonReplacementConflict
  | ReasonNonceGap | ReasonExceedsBlockGas | ReasonCapacityExcluded | ReasonPolicyRejected
  | ReasonArtifactWriteFailed | ReasonTraceWriteFailed | ReasonTimeout | ReasonInvariantFailure

fun reason_string :: "ReasonCode \<Rightarrow> string" where
  "reason_string NoReason = ''''"
| "reason_string ReasonConfigError = ''CONFIG_ERROR''"
| "reason_string ReasonRPCUnavailable = ''RPC_UNAVAILABLE''"
| "reason_string ReasonRPCSchemaError = ''RPC_SCHEMA_ERROR''"
| "reason_string ReasonRPCUnsupportedMethod = ''RPC_UNSUPPORTED_METHOD''"
| "reason_string ReasonChainIDMismatch = ''CHAIN_ID_MISMATCH''"
| "reason_string ReasonSyncingNode = ''SYNCING_NODE''"
| "reason_string ReasonHeadDrift = ''HEAD_DRIFT''"
| "reason_string ReasonSnapshotTooLarge = ''SNAPSHOT_TOO_LARGE''"
| "reason_string ReasonDecodeError = ''DECODE_ERROR''"
| "reason_string ReasonMissingField = ''MISSING_FIELD''"
| "reason_string ReasonInvalidHex = ''INVALID_HEX''"
| "reason_string ReasonInvalidNonce = ''INVALID_NONCE''"
| "reason_string ReasonInvalidGas = ''INVALID_GAS''"
| "reason_string ReasonInvalidFeeModel = ''INVALID_FEE_MODEL''"
| "reason_string ReasonReplacementConflict = ''REPLACEMENT_CONFLICT''"
| "reason_string ReasonNonceGap = ''NONCE_GAP''"
| "reason_string ReasonExceedsBlockGas = ''EXCEEDS_BLOCK_GAS''"
| "reason_string ReasonCapacityExcluded = ''CAPACITY_EXCLUDED''"
| "reason_string ReasonPolicyRejected = ''POLICY_REJECTED''"
| "reason_string ReasonArtifactWriteFailed = ''ARTIFACT_WRITE_FAILED''"
| "reason_string ReasonTraceWriteFailed = ''TRACE_WRITE_FAILED''"
| "reason_string ReasonTimeout = ''TIMEOUT''"
| "reason_string ReasonInvariantFailure = ''INVARIANT_FAILURE''"

record Transaction =
  tx_Hash :: string
  tx_From :: string
  tx_To :: string
  tx_Nonce :: u64
  tx_TxType :: byte
  tx_GasLimit :: u64
  tx_MaxFeePerGas :: "int option"
  tx_MaxPriorityFeePerGas :: "int option"
  tx_GasPrice :: "int option"
  tx_Value :: "int option"
  tx_InputLen :: nat
  tx_EffectiveFee :: "int option"
  tx_Score :: "int option"
  tx_Eligible :: bool
  tx_ReasonCode :: ReasonCode
  tx_ReasonDetail :: string

definition zero_tx :: Transaction where
  "zero_tx = \<lparr> tx_Hash = [], tx_From = [], tx_To = [], tx_Nonce = 0, tx_TxType = 0,
     tx_GasLimit = 0, tx_MaxFeePerGas = None, tx_MaxPriorityFeePerGas = None,
     tx_GasPrice = None, tx_Value = None, tx_InputLen = 0, tx_EffectiveFee = None,
     tx_Score = None, tx_Eligible = False, tx_ReasonCode = NoReason, tx_ReasonDetail = [] \<rparr>"

record TxDecision =
  td_TxHash :: string
  td_From :: string
  td_Nonce :: u64
  td_Accepted :: bool
  td_PrimaryReason :: ReasonCode
  td_ReasonDetail :: string
  td_Stage :: string
  td_GasLimit :: u64
  td_Score :: string

record TxSnapshot =
  sn_SchemaVersion :: int
  sn_SnapshotID :: string
  sn_CapturedAt :: gtime
  sn_PolicyVersion :: string
  sn_BinaryVersion :: string
  sn_ChainID :: string
  sn_BaseFee :: string
  sn_GasLimit :: u64
  sn_MempoolDigest :: string
  sn_FreshUntil :: gtime
  sn_RefreshMS :: int
  sn_PendingBySender :: "(string, Transaction list) gomap"
  sn_QueuedBySender :: "(string, Transaction list) gomap"
  sn_SourceLabel :: string
  sn_HeadBefore :: string
  sn_HeadAfter :: string
  sn_HeadDrift :: bool

record Candidate =
  ca_SchemaVersion :: int
  ca_CandidateID :: string
  ca_SnapshotID :: string
  ca_PolicyVersion :: string
  ca_BinaryVersion :: string
  ca_ConfigDigest :: string
  ca_SourceEndpointLabel :: string
  ca_ChainID :: string
  ca_SelectedTxs :: "Transaction list"
  ca_SelectedOrder :: "string list"
  ca_TxCount :: nat
  ca_TotalGas :: u64
  ca_EstimatedRevenue :: string
  ca_RejectedCount :: nat
  ca_ReasonSummary :: "(string, nat) gomap"
  ca_SelectionStopReason :: string
  ca_CreatedAt :: gtime
  ca_TraceID :: string
  ca_IsExecutableBlock :: bool
  ca_BuildDurationMS :: int

record Trace =
  tr_SchemaVersion :: int
  tr_TraceID :: string
  tr_SnapshotID :: string
  tr_CandidateID :: string
  tr_PolicyVersion :: string
  tr_BinaryVersion :: string
  tr_ConfigDigest :: string
  tr_SourceEndpointLabel :: string
  tr_ChainID :: string
  tr_ReasonCodeSummary :: "(string, nat) gomap"
  tr_Accepted :: "TxDecision list"
  tr_Rejected :: "TxDecision list"
  tr_RankingOrder :: "string list"
  tr_SelectionOrder :: "string list"
  tr_SelectionStopReason :: string
  tr_CreatedAt :: gtime
  tr_ReplayMode :: bool

section \<open>Parsing numbers\<close>

definition parseBigIntString :: "string \<Rightarrow> int option" where
  "parseBigIntString s0 =
     (let s = TrimSpace s0 in
      if s = [] then None
      else if HasPrefix s ''0x'' \<or> HasPrefix s ''0X'' then SetString 16 (drop 2 s)
      else SetString 10 s)"

definition parseUintString :: "string \<Rightarrow> u64 option" where
  "parseUintString s0 =
     (let s = TrimSpace s0 in
      if s = [] then None
      else if HasPrefix s ''0x'' \<or> HasPrefix s ''0X'' then ParseUint 16 (drop 2 s)
      else ParseUint 10 s)"

definition hexNumber :: "int option \<Rightarrow> string" where
  "hexNumber n = (case n of None \<Rightarrow> ''0x0'' | Some i \<Rightarrow> ''0x'' @ show_int 16 i)"

definition bigString :: "int option \<Rightarrow> string" where
  "bigString v = (case v of None \<Rightarrow> [] | Some i \<Rightarrow> show_int 10 i)"

definition bigToString :: "int option \<Rightarrow> string" where
  "bigToString v = (case v of None \<Rightarrow> [] | Some i \<Rightarrow> show_int 10 i)"

definition inputLen :: "string \<Rightarrow> nat" where
  "inputLen input0 =
     (let input = TrimSpace input0 in
      if input = [] then 0
      else if HasPrefix input ''0x'' \<or> HasPrefix input ''0X'' then length (drop 2 input) div 2
      else length input div 2)"

fun firstNonEmpty :: "string list \<Rightarrow> string" where
  "firstNonEmpty [] = []"
| "firstNonEmpty (v # vs) = (if TrimSpace v \<noteq> [] then TrimSpace v else firstNonEmpty vs)"

definition minBig :: "int option \<Rightarrow> int option \<Rightarrow> int option" where
  "minBig a b =
     (case a of None \<Rightarrow> b
      | Some x \<Rightarrow> (case b of None \<Rightarrow> a | Some y \<Rightarrow> if x \<le> y then a else b))"

section \<open>The order of transactions\<close>

definition big_cmp :: "int \<Rightarrow> int \<Rightarrow> int" where
  "big_cmp x y = (if x < y then - 1 else if y < x then 1 else 0)"

definition compareTx :: "Transaction \<Rightarrow> Transaction \<Rightarrow> int" where
  "compareTx a b =
     (let tie = (if tx_GasLimit a \<noteq> tx_GasLimit b
                 then (if tx_GasLimit a < tx_GasLimit b then - 1 else 1)
                 else if tx_Hash a < tx_Hash b then - 1
                 else if tx_Hash b < tx_Hash a then 1
                 else 0)
      in case tx_Score a of
           Some x \<Rightarrow> (case tx_Score b of
                        Some y \<Rightarrow> (let cmp = big_cmp x y in if cmp \<noteq> 0 then - cmp else tie)
                      | None \<Rightarrow> - 1)
         | None \<Rightarrow> (case tx_Score b of Some y \<Rightarrow> 1 | None \<Rightarrow> tie))"

definition tx_less :: "Transaction \<Rightarrow> Transaction \<Rightarrow> bool" where
  "tx_less a b = (compareTx a b < 0)"

section \<open>Decision records\<close>

definition rejectDecision :: "Transaction \<Rightarrow> ReasonCode \<Rightarrow> string \<Rightarrow> string \<Rightarrow> TxDecision" where
  "rejectDecision tx code detail stage =
     \<lparr> td_TxHash = tx_Hash tx, td_From = tx_From tx, td_Nonce = tx_Nonce tx,
       td_Accepted = False, td_PrimaryReason = code, td_ReasonDetail = detail,
       td_Stage = stage, td_GasLimit = tx_GasLimit tx, td_Score = bigToString (tx_Score tx) \<rparr>"

definition acceptDecision :: "Transaction \<Rightarrow> string \<Rightarrow> TxDecision" where
  "acceptDecision tx stage =
     \<lparr> td_TxHash = tx_Hash tx, td_From = tx_From tx, td_Nonce = tx_Nonce tx,
       td_Accepted = True, td_PrimaryReason = NoReason, td_ReasonDetail = [],
       td_Stage = stage, td_GasLimit = tx_GasLimit tx, td_Score = bigToString (tx_Score tx) \<rparr>"

fun count_reasons_from :: "(string, nat) gomap \<Rightarrow> TxDecision list \<Rightarrow> (string, nat) gomap" where
  "count_reasons_from counts [] = counts"
| "count_reasons_from counts (d # ds) =
     (let key0 = reason_string (td_PrimaryReason d);
          key = (if key0 = [] then ''unknown'' else key0)
      in count_reasons_from (gm_set counts key (gm_get0 0 counts key + 1)) ds)"

definition countReasons :: "TxDecision list \<Rightarrow> (string, nat) gomap" where
  "countReasons ds = count_reasons_from [] ds"

definition hashesOf :: "Transaction list \<Rightarrow> string list" where
  "hashesOf txs = map tx_Hash txs"

section \<open>Facts about the comparison\<close>

text \<open>
  The key that \<open>compareTx\<close> compares lexicographically: unscored transactions after scored
  ones, then the score downwards, the gas limit upwards, the hash upwards.
\<close>

definition tx_key :: "Transaction \<Rightarrow> nat \<times> int \<times> nat \<times> string" where
  "tx_key a = (case tx_Score a of Some x \<Rightarrow> (0, - x, unat (tx_GasLimit a), tx_Hash a)
                              | None \<Rightarrow> (1, 0, unat (tx_GasLimit a), tx_Hash a))"

definition key_less :: "nat \<times> int \<times> nat \<times> string \<Rightarrow> nat \<times> int \<times> nat \<times> string \<Rightarrow> bool" where
  "key_less k l = (case (k, l) of ((a, b, c, d), (a', b', c', d')) \<Rightarrow>
     a < a' \<or> a = a' \<and> (b < b' \<or> b = b' \<and> (c < c' \<or> c = c' \<and> d < d')))"

text \<open>The tie-break of two transactions whose scores do not decide.\<close>

definition tx_tie :: "Transaction \<Rightarrow> Transaction \<Rightarrow> int" where
  "tx_tie a b = (if tx_GasLimit a \<noteq> tx_GasLimit b
                 then (if tx_GasLimit a < tx_GasLimit b then - 1 else 1)
                 else if tx_Hash a < tx_Hash b then - 1
                 else if tx_Hash b < tx_Hash a then 1
                 else 0)"

lemma tx_tie_neg:
  "tx_tie a b < 0 \<longleftrightarrow> unat (tx_GasLimit a) < unat (tx_GasLimit b)
     \<or> unat (tx_GasLimit a) = unat (tx_GasLimit b) \<and> tx_Hash a < tx_Hash b"
  by (simp add: tx_tie_def word_less_nat_alt word_unat_eq_iff)

lemma tx_tie_range: "tx_tie a b = - 1 \<or> tx_tie a b = 0 \<or> tx_tie a b = 1"
  by (simp add: tx_tie_def)

lemma tx_tie_anti: "tx_tie b a = - tx_tie a b"
  unfolding tx_tie_def
  by (cases "tx_GasLimit a" "tx_GasLimit b" rule: linorder_cases;
      cases "tx_Hash a" "tx_Hash b" rule: linorder_cases) (auto dest: less_asym)

lemma compareTx_tie:
  "compareTx a b =
     (case tx_Score a of
        Some x \<Rightarrow> (case tx_Score b of
                     Some y \<Rightarrow> if x < y then 1 else if y < x then - 1 else tx_tie a b
                   | None \<Rightarrow> - 1)
      | None \<Rightarrow> (case tx_Score b of Some y \<Rightarrow> 1 | None \<Rightarrow> tx_tie a b))"
  unfolding compareTx_def tx_tie_def [symmetric] Let_def big_cmp_def
  by (simp split: option.split)

lemma tx_less_key: "tx_less a b \<longleftrightarrow> key_less (tx_key a) (tx_key b)"
  unfolding tx_less_def compareTx_tie tx_key_def key_less_def
  by (cases "tx_Score a"; cases "tx_Score b") (auto simp: tx_tie_neg)

lemma compareTx_anti: "compareTx b a = - compareTx a b"
  unfolding compareTx_tie by (simp add: tx_tie_anti [of b a] split: option.split)

lemma compareTx_range: "compareTx a b = - 1 \<or> compareTx a b = 0 \<or> compareTx a b = 1"
  unfolding compareTx_tie using tx_tie_range [of a b] by (simp split: option.split)

lemma compareTx_cases:
  "compareTx a b = (if tx_less a b then - 1 else if tx_less b a then 1 else 0)"
  using compareTx_range [of a b] compareTx_anti [of b a] unfolding tx_less_def by auto

lemma key_less_irrefl: "\<not> key_less k k"
  by (auto simp: key_less_def split: prod.splits)

lemma key_less_trans: "key_less j k \<Longrightarrow> key_less k l \<Longrightarrow> key_less j l"
  by (auto simp: key_less_def split: prod.splits)

lemma key_less_total: "key_less k l \<or> k = l \<or> key_less l k"
  by (cases k; cases l) (auto simp: key_less_def not_less_iff_gr_or_eq)

lemma tx_less_total: "tx_less a b \<or> tx_key a = tx_key b \<or> tx_less b a"
  unfolding tx_less_key by (rule key_less_total)

interpretation tx_cmp: weak_order_on tx_less "\<lambda>_. True"
proof unfold_locales
  show "\<not> tx_less x x" for x
    by (simp add: tx_less_key key_less_irrefl)
  show "tx_less x z" if "tx_less x y" "tx_less y z" for x y z
    using that key_less_trans unfolding tx_less_key by blast
  show "tx_less x y \<or> tx_less y z" if "tx_less x z" for x y z
    using that key_less_trans [of "tx_key y" "tx_key x" "tx_key z"]
      key_less_total [of "tx_key x" "tx_key y"]
    unfolding tx_less_key by auto
qed

section \<open>Facts about parsing\<close>

lemma HasPrefix_hex [simp]: "HasPrefix (CHR ''0'' # CHR ''x'' # s) ''0x''"
  by (simp add: HasPrefix_def)

lemma show_int_last:
  assumes "2 \<le> base" and "base \<le> 16"
  shows "is_hex_char (last (show_int base i))"
proof -
  have "is_hex_char (last (show_nat base n))" for n
    using show_nat_hex [OF assms, of _ n] last_in_set [of "show_nat base n"] by simp
  then show ?thesis by (simp add: show_int_def)
qed

lemma show_int_nonempty [simp]: "show_int base i \<noteq> []"
  by (simp add: show_int_def)

lemma show_int_hd:
  assumes "2 \<le> base" and "base \<le> 16"
  shows "hd (show_int base i) = CHR ''-'' \<or> is_hex_char (hd (show_int base i))"
proof -
  have "is_hex_char (hd (show_nat base n))" for n
    using show_nat_hex [OF assms, of _ n] hd_in_set [of "show_nat base n"] by simp
  then show ?thesis by (simp add: show_int_def)
qed

lemma TrimSpace_show_int:
  assumes "2 \<le> base" and "base \<le> 16"
  shows "TrimSpace (show_int base i) = show_int base i"
    and "TrimSpace (''0x'' @ show_int base i) = ''0x'' @ show_int base i"
proof -
  have m: "plain_char (CHR ''-'')" "plain_char (CHR ''0'')"
    by (simp_all add: plain_char_def)
  have "plain_char (last (show_int base i))"
    using show_int_last [OF assms] is_hex_plain by blast
  moreover have "plain_char (hd (show_int base i))"
    using show_int_hd [OF assms, of i] is_hex_plain m by metis
  ultimately show "TrimSpace (show_int base i) = show_int base i"
    and "TrimSpace (''0x'' @ show_int base i) = ''0x'' @ show_int base i"
    using m by (auto intro!: TrimSpace_plain)
qed

lemma show_nat10_no_x: "CHR ''x'' \<notin> set (show_nat 10 n)" "CHR ''X'' \<notin> set (show_nat 10 n)"
  using show_nat_hex [of 10 _ n] by (auto simp: is_hex_char_def)

lemma show_int10_no_prefix:
  "\<not> HasPrefix (show_int 10 i) ''0x''" "\<not> HasPrefix (show_int 10 i) ''0X''"
proof -
  have "CHR ''x'' \<notin> set (show_int 10 i)" "CHR ''X'' \<notin> set (show_int 10 i)"
    using show_nat10_no_x by (auto simp: show_int_def)
  then show "\<not> HasPrefix (show_int 10 i) ''0x''" "\<not> HasPrefix (show_int 10 i) ''0X''"
    unfolding HasPrefix_def
    by (metis in_set_takeD list.set_intros(1,2))+
qed

lemma parse_hexNumber: "parseBigIntString (hexNumber (Some i)) = Some i"
  using TrimSpace_show_int(2) [of 16 i] SetString_show_int [of 16 i]
  by (simp add: parseBigIntString_def hexNumber_def Let_def)

lemma parse_bigString: "parseBigIntString (bigString (Some i)) = Some i"
  using TrimSpace_show_int(1) [of 10 i] SetString_show_int [of 10 i] show_int10_no_prefix [of i]
  by (simp add: parseBigIntString_def bigString_def Let_def)

section \<open>Facts about the reason counts\<close>

lemma gm_ok_count_reasons: "gm_ok counts \<Longrightarrow> gm_ok (count_reasons_from counts ds)"
  by (induction counts ds rule: count_reasons_from.induct) (auto simp: Let_def)

definition reason_key :: "TxDecision \<Rightarrow> string" where
  "reason_key d = (if reason_string (td_PrimaryReason d) = [] then ''unknown''
                   else reason_string (td_PrimaryReason d))"

lemma count_reasons_from_get:
  "gm_get0 0 (count_reasons_from counts ds) key =
     gm_get0 0 counts key + length (filter (\<lambda>d. reason_key d = key) ds)"
  by (induction counts ds rule: count_reasons_from.induct)
    (auto simp: Let_def gm_get0_def reason_key_def split: option.splits)


text \<open>Evaluates the parsers on literals.\<close>

lemmas parse_eval = parseUintString_def parseBigIntString_def TrimSpace_plain plain_char_def
  ParseUint_def SetString_def digit_val_def HasPrefix_def

section \<open>Properties\<close>

text \<open>
  \<open>compareTx\<close> is the three-way comparison of the lexicographic order on \<open>tx_key\<close> (scored before
  unscored, higher score, then lower gas limit, then smaller hash), a total order on keys: so the
  answer never depends on which of two transactions is asked about first, and it is 0 only
  when score, gas limit and hash agree.
\<close>

theorem compareTx_lexicographic:
  "compareTx a b = (if key_less (tx_key a) (tx_key b) then - 1
                    else if tx_key a = tx_key b then 0 else 1)"
  using key_less_total [of "tx_key a" "tx_key b"] key_less_irrefl [of "tx_key b"]
    key_less_trans [of "tx_key a" "tx_key b" "tx_key a"]
  unfolding compareTx_cases tx_less_key by (auto simp: key_less_irrefl)

text \<open>
  Fees survive their textual forms: parsing the hexadecimal quantity or the decimal text
  printed for a number, of any size and sign, gives that number back.
\<close>

theorem fee_text_roundtrip:
  "parseBigIntString (hexNumber (Some i)) = Some i \<and> parseBigIntString (bigString (Some i)) = Some i"
  using parse_hexNumber parse_bigString by blast

end
