(* ===== verification/Go_Heap.thy ===== *)
theory Go_Heap
  imports Go_Prelude
begin

text \<open>
  Go's \<^verbatim>\<open>container/heap\<close> over a slice, as the transaction builder uses it: \<open>heap_up\<close>,
  \<open>heap_down\<close>, \<open>heap_push\<close> and \<open>heap_pop\<close> are the sift loops and the two operations on the
  slice, index arithmetic included. Popping an empty heap indexes the slice at \<open>- 1\<close>
  and panics (\<open>None\<close>).

  The lemmas of the locale \<open>weak_order_on\<close> show that, for a comparator that meets its contract,
  both operations keep the heap order and that a pop returns a least element;
  \<open>prio_queue\<close> is that contract as its clients rely on it.
\<close>

definition swap_at :: "'a list \<Rightarrow> nat \<Rightarrow> nat \<Rightarrow> 'a list" where
  "swap_at xs i j = xs[i := xs ! j, j := xs ! i]"

definition hparent :: "nat \<Rightarrow> nat" where
  "hparent j = (j - 1) div 2"

function heap_up :: "('a \<Rightarrow> 'a \<Rightarrow> bool) \<Rightarrow> 'a list \<Rightarrow> nat \<Rightarrow> 'a list" where
  "heap_up lt xs j =
     (let i = hparent j in
      if i = j \<or> \<not> lt (xs ! j) (xs ! i) then xs else heap_up lt (swap_at xs i j) i)"
  by pat_completeness auto
termination
  by (relation "measure (\<lambda>(lt, xs, j). j)") (auto simp: hparent_def)

function heap_down :: "('a \<Rightarrow> 'a \<Rightarrow> bool) \<Rightarrow> 'a list \<Rightarrow> nat \<Rightarrow> nat \<Rightarrow> 'a list" where
  "heap_down lt xs i n =
     (let j1 = 2 * i + 1 in
      if n \<le> j1 then xs
      else let j = (if j1 + 1 < n \<and> lt (xs ! (j1 + 1)) (xs ! j1) then j1 + 1 else j1) in
           if \<not> lt (xs ! j) (xs ! i) then xs else heap_down lt (swap_at xs i j) j n)"
  by pat_completeness auto
termination
  by (relation "measure (\<lambda>(lt, xs, i, n). n - i)") (auto split: if_splits)

declare heap_up.simps [simp del] heap_down.simps [simp del]

definition heap_push :: "('a \<Rightarrow> 'a \<Rightarrow> bool) \<Rightarrow> 'a list \<Rightarrow> 'a \<Rightarrow> 'a list" where
  "heap_push lt h x = heap_up lt (h @ [x]) (length h)"

definition heap_pop :: "('a \<Rightarrow> 'a \<Rightarrow> bool) \<Rightarrow> 'a list \<Rightarrow> ('a \<times> 'a list) option" where
  "heap_pop lt h =
     (if h = [] then None
      else let n = length h - 1; h' = heap_down lt (swap_at h 0 n) 0 n
           in Some (h' ! n, take n h'))"

lemma hparent_less: "0 < j \<Longrightarrow> hparent j < j"
  by (auto simp: hparent_def)

lemma hparent_0 [simp]: "hparent 0 = 0"
  by (simp add: hparent_def)

lemma hparent_eq_self [simp]: "hparent j = j \<longleftrightarrow> j = 0"
  by (auto simp: hparent_def)

section \<open>Elements are moved, never lost\<close>

lemma length_swap_at [simp]: "length (swap_at xs i j) = length xs"
  by (simp add: swap_at_def)

lemma nth_swap_at:
  "i < length xs \<Longrightarrow> j < length xs \<Longrightarrow>
     swap_at xs i j ! k = (if k = j then xs ! i else if k = i then xs ! j else xs ! k)"
  by (simp add: swap_at_def nth_list_update)

lemma mset_swap_at:
  "i < length xs \<Longrightarrow> j < length xs \<Longrightarrow> mset (swap_at xs i j) = mset xs"
  unfolding swap_at_def by (rule mset_swap)

lemma length_heap_up [simp]: "length (heap_up lt xs j) = length xs"
  by (induction lt xs j rule: heap_up.induct) (subst heap_up.simps, simp add: Let_def)

lemma length_heap_down [simp]: "length (heap_down lt xs i n) = length xs"
  by (induction lt xs i n rule: heap_down.induct) (subst heap_down.simps, simp add: Let_def)

lemma mset_heap_up: "j < length xs \<Longrightarrow> mset (heap_up lt xs j) = mset xs"
proof (induction lt xs j rule: heap_up.induct)
  case (1 lt xs j)
  then have "hparent j < length xs" by (auto simp: hparent_def)
  with 1 show ?case
    by (subst heap_up.simps) (simp add: Let_def mset_swap_at)
qed

lemma mset_heap_down: "n \<le> length xs \<Longrightarrow> mset (heap_down lt xs i n) = mset xs"
proof (induction lt xs i n rule: heap_down.induct)
  case (1 lt xs i n)
  show ?case
  proof (cases "n \<le> 2 * i + 1")
    case True
    then show ?thesis by (subst heap_down.simps) simp
  next
    case False
    with 1 show ?thesis
      by (subst heap_down.simps) (simp add: Let_def mset_swap_at)
  qed
qed

text \<open>Sifting below \<open>n\<close> leaves the slots from \<open>n\<close> on alone.\<close>

lemma heap_down_frame:
  "n \<le> length xs \<Longrightarrow> n \<le> k \<Longrightarrow> heap_down lt xs i n ! k = xs ! k"
proof (induction lt xs i n rule: heap_down.induct)
  case (1 lt xs i n)
  show ?case
  proof (cases "n \<le> 2 * i + 1")
    case True
    then show ?thesis by (subst heap_down.simps) simp
  next
    case False
    with 1 show ?thesis
      by (subst heap_down.simps) (simp add: Let_def nth_swap_at)
  qed
qed

lemma mset_heap_push: "mset (heap_push lt h x) = add_mset x (mset h)"
  by (simp add: heap_push_def mset_heap_up)

lemma length_heap_push [simp]: "length (heap_push lt h x) = Suc (length h)"
  by (simp add: heap_push_def)

lemma heap_pop_Some:
  assumes "h \<noteq> []"
  shows "\<exists>h'. heap_pop lt h = Some (hd h, h') \<and> mset h = add_mset (hd h) (mset h')"
proof -
  let ?n = "length h - 1"
  let ?s = "swap_at h 0 ?n"
  let ?d = "heap_down lt ?s 0 ?n"
  have n: "?n < length h" "0 < length h" using assms by auto
  have last: "?d ! ?n = hd h"
    using n assms by (simp add: heap_down_frame nth_swap_at hd_conv_nth)
  have "?d = take ?n ?d @ [?d ! ?n]"
    using n by (metis length_heap_down length_swap_at One_nat_def Suc_pred take_Suc_conv_app_nth
        take_all_iff order_refl)
  then have "mset ?d = add_mset (hd h) (mset (take ?n ?d))"
    using last by (metis add_mset_add_single mset.simps mset_append)
  moreover have "mset ?d = mset h"
    using n by (simp add: mset_heap_down mset_swap_at)
  ultimately show ?thesis
    using assms last by (simp add: heap_pop_def Let_def)
qed

section \<open>Heap order\<close>

definition is_heap :: "('a \<Rightarrow> 'a \<Rightarrow> bool) \<Rightarrow> 'a list \<Rightarrow> bool" where
  "is_heap lt xs \<longleftrightarrow> (\<forall>j < length xs. 0 < j \<longrightarrow> \<not> lt (xs ! j) (xs ! (hparent j)))"

lemma is_heap_take:
  "n \<le> length xs \<Longrightarrow>
     is_heap lt (take n xs) \<longleftrightarrow> (\<forall>j < n. 0 < j \<longrightarrow> \<not> lt (xs ! j) (xs ! hparent j))"
proof -
  assume n: "n \<le> length xs"
  have "take n xs ! hparent j = xs ! hparent j" if "j < n" "0 < j" for j
    using hparent_less [OF that(2)] that(1) by (intro nth_take) linarith
  then show ?thesis unfolding is_heap_def using n by auto
qed

text \<open>
  The order with one slot \<open>k\<close> out of place: everywhere except between \<open>k\<close> and its parent
  (sifting up), or between \<open>k\<close> and its children among the first \<open>n\<close> slots (sifting
  down); in both cases the children of \<open>k\<close> are not below the parent of \<open>k\<close>.
\<close>

definition heap_but_up :: "('a \<Rightarrow> 'a \<Rightarrow> bool) \<Rightarrow> 'a list \<Rightarrow> nat \<Rightarrow> bool" where
  "heap_but_up lt xs k \<longleftrightarrow>
     (\<forall>j < length xs. 0 < j \<longrightarrow> j \<noteq> k \<longrightarrow> \<not> lt (xs ! j) (xs ! (hparent j))) \<and>
     (\<forall>j < length xs. 0 < j \<longrightarrow> hparent j = k \<longrightarrow> 0 < k \<longrightarrow> \<not> lt (xs ! j) (xs ! (hparent k)))"

definition heap_but_down :: "('a \<Rightarrow> 'a \<Rightarrow> bool) \<Rightarrow> 'a list \<Rightarrow> nat \<Rightarrow> nat \<Rightarrow> bool" where
  "heap_but_down lt xs k n \<longleftrightarrow>
     (\<forall>j < n. 0 < j \<longrightarrow> hparent j \<noteq> k \<longrightarrow> \<not> lt (xs ! j) (xs ! (hparent j))) \<and>
     (\<forall>j < n. 0 < j \<longrightarrow> hparent j = k \<longrightarrow> 0 < k \<longrightarrow> \<not> lt (xs ! j) (xs ! (hparent k)))"

context weak_order_on
begin

lemma heap_up_step:
  assumes k: "k < length xs" "0 < k" and oks: "\<And>j. j < length xs \<Longrightarrow> ok (xs ! j)"
    and inv: "heap_but_up lt xs k" and lt: "lt (xs ! k) (xs ! (hparent k))"
  shows "heap_but_up lt (swap_at xs (hparent k) k) (hparent k)"
proof -
  let ?i = "hparent k"
  let ?ys = "swap_at xs ?i k"
  have i: "?i < k" using k by (simp add: hparent_less)
  have nth: "?ys ! j = (if j = k then xs ! ?i else if j = ?i then xs ! k else xs ! j)" for j
    using i k by (simp add: nth_swap_at)
  have oki: "ok (xs ! ?i)" "ok (xs ! k)" using oks i k by auto
  have A: "\<not> lt (xs ! j) (xs ! (hparent j))" if "j < length xs" "0 < j" "j \<noteq> k" for j
    using inv that by (auto simp: heap_but_up_def)
  have B: "\<not> lt (xs ! j) (xs ! ?i)" if "j < length xs" "0 < j" "hparent j = k" for j
    using inv that k by (auto simp: heap_but_up_def)
  have "\<not> lt (?ys ! j) (?ys ! (hparent j))" if j: "j < length xs" "0 < j" "j \<noteq> ?i" for j
  proof -
    have okj: "ok (xs ! j)" using oks j by auto
    consider "j = k" | "j \<noteq> k" "hparent j = k" | "j \<noteq> k" "hparent j = ?i"
      | "j \<noteq> k" "hparent j \<noteq> k" "hparent j \<noteq> ?i" by blast
    then show ?thesis
    proof cases
      case 1
      then show ?thesis using lt oki i lt_asym by (simp add: nth)
    next
      case 2
      then show ?thesis using B j by (simp add: nth)
    next
      case 3
      then have "\<not> lt (xs ! j) (xs ! ?i)" using A [of j] j by simp
      then have "\<not> lt (xs ! j) (xs ! k)" using lt lt_trans okj oki by blast
      then show ?thesis using 3 j i by (simp add: nth)
    next
      case 4
      then show ?thesis using A j by (simp add: nth)
    qed
  qed
  moreover have "\<not> lt (?ys ! j) (?ys ! (hparent ?i))"
    if j: "j < length xs" "0 < j" "hparent j = ?i" "0 < ?i" for j
  proof -
    have p: "hparent ?i < ?i" "hparent ?i < length xs"
      using hparent_less [OF that(4)] i k by auto
    have top: "\<not> lt (xs ! ?i) (xs ! (hparent ?i))" using A [of ?i] that i k by auto
    show ?thesis
    proof (cases "j = k")
      case True
      then show ?thesis using top p i by (simp add: nth)
    next
      case False
      then have "\<not> lt (xs ! j) (xs ! ?i)" using A [of j] j by simp
      then have "\<not> lt (xs ! j) (xs ! (hparent ?i))"
        using notlt_trans [of "xs ! (hparent ?i)" "xs ! ?i" "xs ! j"] top oks p oki j by blast
      moreover have "j \<noteq> ?i" using j hparent_less [of j] by auto
      ultimately show ?thesis using False p i by (simp add: nth)
    qed
  qed
  ultimately show ?thesis by (auto simp: heap_but_up_def)
qed

lemma heap_up_heap:
  assumes "k < length xs" and "\<And>j. j < length xs \<Longrightarrow> ok (xs ! j)" and "heap_but_up lt xs k"
  shows "is_heap lt (heap_up lt xs k)"
  using assms
proof (induction k arbitrary: xs rule: less_induct)
  case (less k)
  let ?i = "hparent k"
  show ?case
  proof (cases "?i = k \<or> \<not> lt (xs ! k) (xs ! ?i)")
    case True
    then have "is_heap lt xs"
      using less.prems(3) by (auto simp: heap_but_up_def is_heap_def)
    then show ?thesis using True by (subst heap_up.simps) (simp add: Let_def)
  next
    case False
    then have k: "0 < k" "?i < k" by (auto intro: hparent_less)
    have "heap_but_up lt (swap_at xs ?i k) ?i"
      using heap_up_step less.prems False k by blast
    moreover have "ok (swap_at xs ?i k ! j)" if "j < length (swap_at xs ?i k)" for j
      using that less.prems k by (simp add: nth_swap_at)
    ultimately have "is_heap lt (heap_up lt (swap_at xs ?i k) ?i)"
      using less.IH [of ?i "swap_at xs ?i k"] less.prems(1) k by simp
    then show ?thesis using False by (subst heap_up.simps) (simp add: Let_def)
  qed
qed

lemma heap_down_step:
  assumes n: "n \<le> length xs" "j < n" "hparent j = k" "0 < j"
    and oks: "\<And>m. m < n \<Longrightarrow> ok (xs ! m)" and inv: "heap_but_down lt xs k n"
    and lt: "lt (xs ! j) (xs ! k)"
    and least: "\<And>m. m < n \<Longrightarrow> 0 < m \<Longrightarrow> hparent m = k \<Longrightarrow> \<not> lt (xs ! m) (xs ! j)"
  shows "heap_but_down lt (swap_at xs k j) j n"
proof -
  let ?ys = "swap_at xs k j"
  have k: "k < j" using hparent_less [of j] n by simp
  have nth: "?ys ! m = (if m = j then xs ! k else if m = k then xs ! j else xs ! m)" for m
    using k n by (simp add: nth_swap_at)
  have A: "\<not> lt (xs ! m) (xs ! hparent m)" if "m < n" "0 < m" "hparent m \<noteq> k" for m
    using inv that by (auto simp: heap_but_down_def)
  have "\<not> lt (?ys ! m) (?ys ! hparent m)" if m: "m < n" "0 < m" "hparent m \<noteq> j" for m
  proof -
    consider "m = j" | "m = k" | "m \<noteq> j" "m \<noteq> k" "hparent m = k"
      | "m \<noteq> j" "m \<noteq> k" "hparent m \<noteq> k" by blast
    then show ?thesis
    proof cases
      case 1
      moreover have "\<not> lt (xs ! k) (xs ! j)"
        using lt_asym [of "xs ! j" "xs ! k"] lt oks [of j] oks [of k] k n by auto
      ultimately show ?thesis using n k by (simp add: nth)
    next
      case 2
      then have "\<not> lt (xs ! j) (xs ! hparent k)"
        using inv n m by (auto simp: heap_but_down_def)
      moreover have "hparent k \<noteq> k" "k \<noteq> j" using 2 m k by auto
      ultimately show ?thesis using 2 m by (simp add: nth)
    next
      case 3
      then show ?thesis using least m k by (simp add: nth)
    next
      case 4
      then show ?thesis using A m by (simp add: nth)
    qed
  qed
  moreover have "\<not> lt (?ys ! m) (?ys ! hparent j)"
    if m: "m < n" "0 < m" "hparent m = j" for m
  proof -
    have "j < m" using hparent_less m by blast
    then show ?thesis using A [of m] m k n by (simp add: nth)
  qed
  ultimately show ?thesis by (auto simp: heap_but_down_def)
qed

lemma heap_down_heap:
  assumes "n \<le> length xs" and "\<And>m. m < n \<Longrightarrow> ok (xs ! m)" and "heap_but_down lt xs k n"
  shows "is_heap lt (take n (heap_down lt xs k n))"
  using assms
proof (induction "n - k" arbitrary: xs k rule: less_induct)
  case less
  define j where "j = (if 2 * k + 2 < n \<and> lt (xs ! (2 * k + 2)) (xs ! (2 * k + 1))
                       then 2 * k + 2 else 2 * k + 1)"
  have unf: "heap_down lt xs k n =
      (if n \<le> 2 * k + 1 \<or> \<not> lt (xs ! j) (xs ! k) then xs else heap_down lt (swap_at xs k j) j n)"
    by (subst heap_down.simps) (simp add: Let_def j_def)
  have kids: "m = 2 * k + 1 \<or> m = 2 * k + 2" if "0 < m" "hparent m = k" for m
    using that unfolding hparent_def by presburger
  show ?case
  proof (cases "n \<le> 2 * k + 1")
    case True
    then have "\<not> (0 < m \<and> hparent m = k)" if "m < n" for m
      using kids [of m] that by auto
    then show ?thesis
      using less.prems True unf by (auto simp: heap_but_down_def is_heap_take)
  next
    case False
    then have j: "j < n" "0 < j" "hparent j = k" "k < j"
      by (auto simp: j_def hparent_def)
    have least: "\<not> lt (xs ! m) (xs ! j)" if m: "m < n" "0 < m" "hparent m = k" for m
    proof (cases "m = j")
      case True
      then show ?thesis using less.prems(2) [of j] j(1) lt_irrefl by simp
    next
      case other: False
      consider "j = 2 * k + 2" "m = 2 * k + 1" "lt (xs ! j) (xs ! m)"
        | "j = 2 * k + 1" "m = 2 * k + 2" "\<not> lt (xs ! m) (xs ! j)"
        using kids [OF m(2,3)] other m(1) unfolding j_def by (auto split: if_splits)
      then show ?thesis
        using lt_asym [of "xs ! j" "xs ! m"] less.prems(2) [of j] less.prems(2) [of m] j(1) m(1)
        by cases auto
    qed
    show ?thesis
    proof (cases "lt (xs ! j) (xs ! k)")
      case True
      have "heap_but_down lt (swap_at xs k j) j n"
        using heap_down_step [of n xs j k] less.prems j True least by blast
      moreover have "ok (swap_at xs k j ! m)" if "m < n" for m
        using that less.prems j by (simp add: nth_swap_at)
      moreover have "n - j < n - k" using j by linarith
      ultimately have "is_heap lt (take n (heap_down lt (swap_at xs k j) j n))"
        using less.hyps less.prems(1) by simp
      then show ?thesis using unf False True by simp
    next
      case stop: False
      have "\<not> lt (xs ! m) (xs ! k)" if "m < n" "0 < m" "hparent m = k" for m
        using least [OF that] stop notlt_trans [of "xs ! k" "xs ! j" "xs ! m"] less.prems(2) j that
        by auto
      then show ?thesis
        using unf stop less.prems by (auto simp: heap_but_down_def is_heap_take)
    qed
  qed
qed

lemma heap_push_heap:
  assumes "is_heap lt h" and "list_all ok h" and "ok x"
  shows "is_heap lt (heap_push lt h x)"
proof -
  have "\<not> lt ((h @ [x]) ! j) ((h @ [x]) ! hparent j)" if "j < length h" "0 < j" for j
    using assms(1) that hparent_less [of j] by (simp add: is_heap_def nth_append)
  moreover have "hparent j \<noteq> length h" if "j < Suc (length h)" "0 < j" for j
    using hparent_less [of j] that by linarith
  ultimately have "heap_but_up lt (h @ [x]) (length h)"
    by (auto simp: heap_but_up_def less_Suc_eq)
  moreover have "ok ((h @ [x]) ! j)" if "j < length (h @ [x])" for j
    using that assms by (auto simp: nth_append list_all_length less_Suc_eq)
  ultimately show ?thesis
    unfolding heap_push_def by (intro heap_up_heap) auto
qed

lemma heap_root_least:
  assumes "is_heap lt h" and "list_all ok h" and "j < length h"
  shows "\<not> lt (h ! j) (h ! 0)"
  using assms(3)
proof (induction j rule: less_induct)
  case (less j)
  have oks: "ok (h ! i)" if "i < length h" for i
    using assms(2) that by (simp add: list_all_length)
  show ?case
  proof (cases "j = 0")
    case True
    then show ?thesis using oks less.prems lt_irrefl by simp
  next
    case False
    then have p: "hparent j < j" by (simp add: hparent_less)
    have "\<not> lt (h ! j) (h ! hparent j)"
      using assms(1) less.prems False by (simp add: is_heap_def)
    moreover have "\<not> lt (h ! hparent j) (h ! 0)"
      using less.IH [OF p] p less.prems by simp
    ultimately show ?thesis
      using notlt_trans [of "h ! 0" "h ! hparent j" "h ! j"] oks [of 0] oks [of j]
        oks [of "hparent j"] p less.prems by (cases "h = []") auto
  qed
qed

lemma heap_pop_heap:
  assumes "is_heap lt h" and "list_all ok h" and "heap_pop lt h = Some (x, h')"
  shows "is_heap lt h'"
proof -
  define n where "n = length h - 1"
  have h: "h \<noteq> []" "n < length h" using assms(3) by (cases "h = []"; simp add: heap_pop_def n_def)+
  have nth: "swap_at h 0 n ! m = (if m = n then h ! 0 else if m = 0 then h ! n else h ! m)" for m
    using h by (simp add: nth_swap_at)
  have "heap_but_down lt (swap_at h 0 n) 0 n"
    unfolding heap_but_down_def
  proof (intro conjI allI impI)
    fix j assume j: "j < n" "0 < j" "hparent j \<noteq> 0"
    then have "hparent j < j" by (simp add: hparent_less)
    with j show "\<not> lt (swap_at h 0 n ! j) (swap_at h 0 n ! hparent j)"
      using assms(1) h(2) by (simp add: nth is_heap_def)
  qed simp
  moreover have "ok (swap_at h 0 n ! m)" if "m < n" for m
    using that assms(2) h by (auto simp: nth list_all_length)
  ultimately have "is_heap lt (take n (heap_down lt (swap_at h 0 n) 0 n))"
    using h by (intro heap_down_heap) auto
  then show ?thesis using assms(3) h by (auto simp: heap_pop_def Let_def n_def)
qed

end

section \<open>The priority queue a client relies on\<close>

locale prio_queue =
  fixes lt :: "'a \<Rightarrow> 'a \<Rightarrow> bool"
    and ok :: "'a \<Rightarrow> bool"
    and push :: "'q \<Rightarrow> 'a \<Rightarrow> 'q"
    and pop :: "'q \<Rightarrow> ('a \<times> 'q) option"
    and elems :: "'q \<Rightarrow> 'a multiset"
    and invar :: "'q \<Rightarrow> bool"
  assumes push_invar: "invar q \<Longrightarrow> ok x \<Longrightarrow> invar (push q x)"
    and push_elems: "elems (push q x) = add_mset x (elems q)"
    and pop_None: "pop q = None \<longleftrightarrow> elems q = {#}"
    and pop_invar: "invar q \<Longrightarrow> pop q = Some (x, q') \<Longrightarrow> invar q'"
    and pop_elems: "pop q = Some (x, q') \<Longrightarrow> elems q = add_mset x (elems q')"
    and pop_least: "invar q \<Longrightarrow> pop q = Some (x, q') \<Longrightarrow> y \<in># elems q \<Longrightarrow> \<not> lt y x"
begin

lemma foldl_push_elems: "elems (foldl push q xs) = elems q + mset xs"
  by (induction xs arbitrary: q) (simp_all add: push_elems)

lemma foldl_push_invar: "invar q \<Longrightarrow> list_all ok xs \<Longrightarrow> invar (foldl push q xs)"
  by (induction xs arbitrary: q) (simp_all add: push_invar)

text \<open>What is popped is never better than what was popped before it, unless pushed in between.\<close>

lemma pop_pop_ordered:
  assumes "invar q" and "pop q = Some (x, q')" and "pop q' = Some (y, q'')"
  shows "\<not> lt y x"
proof -
  have "y \<in># elems q'" using pop_elems [OF assms(3)] by simp
  then have "y \<in># elems q" using pop_elems [OF assms(2)] by simp
  then show ?thesis using pop_least [OF assms(1,2)] by blast
qed

end

text \<open>\<^verbatim>\<open>container/heap\<close> is such a priority queue for every comparator that meets its contract.\<close>

sublocale weak_order_on \<subseteq> pq: prio_queue lt ok "heap_push lt" "heap_pop lt" mset
  "\<lambda>h. is_heap lt h \<and> list_all ok h"
proof unfold_locales
  fix q q' :: "'a list" and x y :: 'a
  show "is_heap lt (heap_push lt q x) \<and> list_all ok (heap_push lt q x)"
    if "is_heap lt q \<and> list_all ok q" "ok x"
  proof -
    have "set (heap_push lt q x) = insert x (set q)"
      by (metis mset_heap_push set_mset_add_mset_insert set_mset_mset)
    then show ?thesis using that heap_push_heap by (auto simp: list_all_iff)
  qed
  show "mset (heap_push lt q x) = add_mset x (mset q)"
    by (rule mset_heap_push)
  show "heap_pop lt q = None \<longleftrightarrow> mset q = {#}"
    by (simp add: heap_pop_def Let_def)
  have elems: "mset q = add_mset x (mset q') \<and> x = hd q \<and> q \<noteq> []"
    if "heap_pop lt q = Some (x, q')" for x q'
    using that heap_pop_Some [of q lt] by (cases "q = []") (auto simp: heap_pop_def)
  then show "mset q = add_mset x (mset q')" if "heap_pop lt q = Some (x, q')"
    using that by blast
  show "is_heap lt q' \<and> list_all ok q'"
    if "is_heap lt q \<and> list_all ok q" "heap_pop lt q = Some (x, q')"
  proof -
    have "set q' \<subseteq> set q"
      using elems [OF that(2)] by (metis set_mset_add_mset_insert set_mset_mset subset_insertI)
    then show ?thesis using that heap_pop_heap by (auto simp: list_all_iff)
  qed
  show "\<not> lt y x"
    if inv: "is_heap lt q \<and> list_all ok q" and pop: "heap_pop lt q = Some (x, q')"
      and y: "y \<in># mset q"
  proof -
    obtain j where "j < length q" "q ! j = y"
      using y by (auto simp: in_set_conv_nth)
    moreover have "x = q ! 0"
      using elems [OF pop] by (simp add: hd_conv_nth)
    ultimately show ?thesis using heap_root_least inv by blast
  qed
qed

end
