(* ===== verification/Tx_Select.thy ===== *)
theory Tx_Select
  imports Tx_Model Go_Heap
begin

text \<open>
  Building one candidate from one snapshot: \<^verbatim>\<open>build_chains.go\<close> (the per-sender chains, with the
  queued pool merged in on request), \<^verbatim>\<open>build_select.go\<close> (the greedy selection over a heap of
  chain heads).

  The specification of the selection is the relation \<open>greedy_run\<close>: a log of (sender,
  index, taken) entries in which every entry is a best head of the chains still open, and is
  taken exactly when its gas fits into what is left. \<open>select_refines\<close> is the
  refinement: what \<open>selectTransactions\<close> returns is the projection of a complete such run.
\<close>

section \<open>Chains\<close>

definition cloneChains ::
  "(string, Transaction list) gomap \<Rightarrow> (string, Transaction list) gomap" where
  "cloneChains src = filter (\<lambda>(sender, txs). txs \<noteq> []) src"

definition merge_queued_tx :: "(u64, Transaction) gomap \<Rightarrow> Transaction \<Rightarrow> (u64, Transaction) gomap" where
  "merge_queued_tx byNonce tx =
     (case gm_get byNonce (tx_Nonce tx) of
        None \<Rightarrow> gm_set byNonce (tx_Nonce tx) tx
      | Some prev \<Rightarrow> if compareTx tx prev < 0 then gm_set byNonce (tx_Nonce tx) tx else byNonce)"

definition merge_by_nonce :: "Transaction list \<Rightarrow> Transaction list \<Rightarrow> (u64, Transaction) gomap" where
  "merge_by_nonce existing queued =
     foldl merge_queued_tx (foldl (\<lambda>m tx. gm_set m (tx_Nonce tx) tx) [] existing) queued"

definition mergeSenderChain ::
  "((u64 \<times> Transaction) list \<Rightarrow> (u64 \<times> Transaction) list) \<Rightarrow>
     Transaction list \<Rightarrow> Transaction list \<Rightarrow> Transaction list" where
  "mergeSenderChain ord existing queued =
     (let byNonce = merge_by_nonce existing queued;
          nonces = sort_by (<) (map fst (ord byNonce))
      in map (gm_get0 zero_tx byNonce) nonces)"

definition buildChains ::
  "((string \<times> Transaction list) list \<Rightarrow> (string \<times> Transaction list) list) \<Rightarrow>
   ((u64 \<times> Transaction) list \<Rightarrow> (u64 \<times> Transaction) list) \<Rightarrow>
     TxSnapshot \<Rightarrow> bool \<Rightarrow> (string, Transaction list) gomap" where
  "buildChains ordS ordN snapshot includeQueued =
     (let chs = cloneChains (sn_PendingBySender snapshot) in
      if includeQueued
      then foldl (\<lambda>cs (sender, queued).
                    gm_set cs sender (mergeSenderChain ordN (gm_get0 [] cs sender) queued))
             chs (ordS (sn_QueuedBySender snapshot))
      else chs)"

section \<open>Selection\<close>

record headCandidate =
  hc_Sender :: string
  hc_Index :: nat
  hc_Tx :: Transaction

definition candidateHeap_Less :: "headCandidate \<Rightarrow> headCandidate \<Rightarrow> bool" where
  "candidateHeap_Less a b = (compareTx (hc_Tx a) (hc_Tx b) < 0)"

record sel_state =
  sl_heap :: "headCandidate list"
  sl_selected :: "Transaction list"
  sl_accepted :: "TxDecision list"
  sl_rejected :: "TxDecision list"
  sl_ranking :: "string list"
  sl_remaining :: u64

definition select_step ::
  "(string, Transaction list) gomap \<Rightarrow> sel_state \<Rightarrow> headCandidate \<Rightarrow> headCandidate list \<Rightarrow> sel_state"
  where
  "select_step chs st cand h =
     (let tx = hc_Tx cand;
          st1 = st\<lparr> sl_heap := h, sl_ranking := sl_ranking st @ [tx_Hash tx] \<rparr>
      in if tx_GasLimit tx > sl_remaining st
         then st1\<lparr> sl_rejected := sl_rejected st @
                 [rejectDecision tx ReasonCapacityExcluded ''insufficient remaining gas'' ''selection''] \<rparr>
         else let st2 = st1\<lparr> sl_selected := sl_selected st @ [tx],
                            sl_accepted := sl_accepted st @ [acceptDecision tx ''selection''],
                            sl_remaining := sl_remaining st - tx_GasLimit tx \<rparr>;
                  nextIndex = hc_Index cand + 1;
                  chain = gm_get0 [] chs (hc_Sender cand)
              in if nextIndex < length chain
                 then st2\<lparr> sl_heap := heap_push candidateHeap_Less h
                             \<lparr> hc_Sender = hc_Sender cand, hc_Index = nextIndex,
                               hc_Tx = chain ! nextIndex \<rparr> \<rparr>
                 else st2)"

text \<open>The work left in the heap: every pop takes some of it away, a push returns less.\<close>

definition sel_work :: "(string, Transaction list) gomap \<Rightarrow> headCandidate list \<Rightarrow> nat" where
  "sel_work chs h =
     sum_list (map (\<lambda>c. Suc (length (gm_get0 [] chs (hc_Sender c)) - hc_Index c)) h)"

lemma sel_work_mset:
  "sel_work chs h =
     (\<Sum>c\<in>#mset h. Suc (length (gm_get0 [] chs (hc_Sender c)) - hc_Index c))"
  by (simp add: sel_work_def sum_mset_sum_list flip: mset_map)

lemma sel_work_push:
  "sel_work chs (heap_push lt h c) =
     Suc (length (gm_get0 [] chs (hc_Sender c)) - hc_Index c) + sel_work chs h"
  by (simp add: sel_work_mset mset_heap_push)

lemma sel_work_pop:
  assumes "heap_pop lt h = Some (c, h')"
  shows "sel_work chs h =
           Suc (length (gm_get0 [] chs (hc_Sender c)) - hc_Index c) + sel_work chs h'"
proof -
  have "h \<noteq> []" using assms by (auto simp: heap_pop_def)
  then have "mset h = add_mset c (mset h')"
    using heap_pop_Some [of h lt] assms by auto
  then show ?thesis by (simp add: sel_work_mset)
qed

lemma select_step_work:
  assumes "heap_pop lt (sl_heap st) = Some (c, h')"
  shows "sel_work chs (sl_heap (select_step chs st c h')) < sel_work chs (sl_heap st)"
  using sel_work_pop [OF assms, of chs]
  by (auto simp: select_step_def Let_def sel_work_push)

function select_loop ::
  "(string, Transaction list) gomap \<Rightarrow> int \<Rightarrow> sel_state \<Rightarrow> sel_state" where
  "select_loop chs maxTx st =
     (if sl_heap st \<noteq> [] \<and> int (length (sl_selected st)) < maxTx
      then case heap_pop candidateHeap_Less (sl_heap st) of
             None \<Rightarrow> st
           | Some (cand, h) \<Rightarrow> select_loop chs maxTx (select_step chs st cand h)
      else st)"
  by pat_completeness auto
termination
  by (relation "measure (\<lambda>(chs, maxTx, st). sel_work chs (sl_heap st))")
    (auto simp: select_step_work)

declare select_loop.simps [simp del]

definition stop_reason :: "int \<Rightarrow> sel_state \<Rightarrow> string" where
  "stop_reason maxTx st =
     (if int (length (sl_selected st)) \<ge> maxTx then ''max_transactions''
      else if sl_selected st = [] \<and> sl_rejected st = [] then ''empty_pool''
      else if sl_remaining st = 0 then ''gas_exhausted''
      else ''exhausted'')"

fun push_heads ::
  "(string, Transaction list) gomap \<Rightarrow> headCandidate list \<Rightarrow> string list \<Rightarrow> headCandidate list" where
  "push_heads chs h [] = h"
| "push_heads chs h (sender # senders) =
     (case gm_get0 [] chs sender of
        [] \<Rightarrow> push_heads chs h senders
      | tx # _ \<Rightarrow> push_heads chs
          (heap_push candidateHeap_Less h \<lparr> hc_Sender = sender, hc_Index = 0, hc_Tx = tx \<rparr>) senders)"

definition select_start ::
  "((string \<times> Transaction list) list \<Rightarrow> (string \<times> Transaction list) list) \<Rightarrow>
     (string, Transaction list) gomap \<Rightarrow> u64 \<Rightarrow> sel_state" where
  "select_start ord chs maxGas =
     (let limit = (if maxGas = 0 then - 1 else maxGas);
          senders = sort (map fst (ord chs))
      in \<lparr> sl_heap = push_heads chs [] senders, sl_selected = [], sl_accepted = [],
           sl_rejected = [], sl_ranking = [], sl_remaining = limit \<rparr>)"

text \<open>
  \<^verbatim>\<open>make([]T, 0, n)\<close> panics for a negative \<open>n\<close> and when the \<open>n\<close> elements do not fit into the
  address space the run time allocates from (\<open>maxAlloc\<close>, \<open>2 ^ 48\<close> bytes on 64-bit Linux). The two
  sizes are those of the structures of \<^verbatim>\<open>model.go\<close> on a 64-bit machine: 16 bytes for a string, 8
  for a pointer or a 64-bit number, fields aligned to their size.
\<close>

definition make_ok :: "nat \<Rightarrow> int \<Rightarrow> bool" where
  "make_ok bytes n = (0 \<le> n \<and> int bytes * n \<le> 2 ^ 48)"

definition sizeof_Transaction :: nat where
  "sizeof_Transaction = 168"

definition sizeof_TxDecision :: nat where
  "sizeof_TxDecision = 120"

text \<open>A \<open>maxTx\<close> one of the two result slices cannot be made for is a panic (\<open>None\<close>).\<close>

definition selectTransactions ::
  "((string \<times> Transaction list) list \<Rightarrow> (string \<times> Transaction list) list) \<Rightarrow>
     (string, Transaction list) gomap \<Rightarrow> u64 \<Rightarrow> int \<Rightarrow>
     (Transaction list \<times> TxDecision list \<times> TxDecision list \<times> string list \<times> string) option" where
  "selectTransactions ord chs maxGas maxTx =
     (if \<not> make_ok sizeof_Transaction maxTx \<or> \<not> make_ok sizeof_TxDecision maxTx then None
      else let st = select_loop chs maxTx (select_start ord chs maxGas)
           in Some (sl_selected st, sl_accepted st, sl_rejected st, sl_ranking st,
                    stop_reason maxTx st))"

text \<open>The counts both slices can be made for.\<close>

definition count_ok :: "int \<Rightarrow> bool" where
  "count_ok maxTx = (0 \<le> maxTx \<and> 168 * maxTx \<le> 2 ^ 48)"

lemma make_ok_count: "make_ok sizeof_Transaction n \<and> make_ok sizeof_TxDecision n \<longleftrightarrow> count_ok n"
  by (auto simp: make_ok_def sizeof_Transaction_def sizeof_TxDecision_def count_ok_def)

lemma selectTransactions_count:
  "selectTransactions ord chs maxGas maxTx =
     (if count_ok maxTx
      then let st = select_loop chs maxTx (select_start ord chs maxGas)
           in Some (sl_selected st, sl_accepted st, sl_rejected st, sl_ranking st, stop_reason maxTx st)
      else None)"
  using make_ok_count [of maxTx] by (auto simp: selectTransactions_def Let_def)

section \<open>Specification: greedy runs\<close>

type_synonym pick = "string \<times> nat \<times> bool"

definition chain_tx :: "(string, Transaction list) gomap \<Rightarrow> string \<Rightarrow> nat \<Rightarrow> Transaction" where
  "chain_tx chs s i = gm_get0 [] chs s ! i"

definition next_index :: "pick list \<Rightarrow> string \<Rightarrow> nat" where
  "next_index log s = length (filter (\<lambda>(s', i, taken). s' = s \<and> taken) log)"

definition blocked :: "pick list \<Rightarrow> string \<Rightarrow> bool" where
  "blocked log s = list_ex (\<lambda>(s', i, taken). s' = s \<and> \<not> taken) log"

definition frontier :: "(string, Transaction list) gomap \<Rightarrow> pick list \<Rightarrow> (string \<times> nat) set" where
  "frontier chs log =
     {(s, i). i = next_index log s \<and> i < length (gm_get0 [] chs s) \<and> \<not> blocked log s}"

definition log_taken :: "(string, Transaction list) gomap \<Rightarrow> pick list \<Rightarrow> Transaction list" where
  "log_taken chs log =
     map (\<lambda>(s, i, _). chain_tx chs s i) (filter (\<lambda>(_, _, taken). taken) log)"

definition gas_used :: "Transaction list \<Rightarrow> nat" where
  "gas_used txs = sum_list (map (unat \<circ> tx_GasLimit) txs)"

inductive greedy_run :: "(string, Transaction list) gomap \<Rightarrow> nat \<Rightarrow> int \<Rightarrow> pick list \<Rightarrow> bool"
  for chs limit maxTx where
  greedy_start: "greedy_run chs limit maxTx []"
| greedy_pick: "greedy_run chs limit maxTx (log @ [(s, i, taken)])"
  if "greedy_run chs limit maxTx log"
    and "int (length (log_taken chs log)) < maxTx"
    and "(s, i) \<in> frontier chs log"
    and "\<And>s' i'. (s', i') \<in> frontier chs log \<Longrightarrow>
           \<not> tx_less (chain_tx chs s' i') (chain_tx chs s i)"
    and "taken \<longleftrightarrow> gas_used (log_taken chs log) + unat (tx_GasLimit (chain_tx chs s i)) \<le> limit"

inductive_cases greedy_run_snocE: "greedy_run chs limit maxTx (log @ [p])"

text \<open>A run is complete when it may not be extended: the count is reached or no head is left.\<close>

definition greedy_complete ::
  "(string, Transaction list) gomap \<Rightarrow> int \<Rightarrow> pick list \<Rightarrow> bool" where
  "greedy_complete chs maxTx log \<longleftrightarrow>
     int (length (log_taken chs log)) \<ge> maxTx \<or> frontier chs log = {}"

section \<open>The heap contract for chain heads\<close>

interpretation head_cmp: weak_order_on candidateHeap_Less "\<lambda>_. True"
proof unfold_locales
  show "\<not> candidateHeap_Less x x" for x
    using tx_cmp.lt_irrefl by (simp add: candidateHeap_Less_def tx_less_def)
  show "candidateHeap_Less x z" if "candidateHeap_Less x y" "candidateHeap_Less y z" for x y z
    using that tx_cmp.lt_trans unfolding candidateHeap_Less_def tx_less_def by blast
  show "candidateHeap_Less x y \<or> candidateHeap_Less y z" if "candidateHeap_Less x z" for x y z
    using that tx_cmp.lt_cotrans unfolding candidateHeap_Less_def tx_less_def by blast
qed

lemma candidateHeap_Less_tx: "candidateHeap_Less a b = tx_less (hc_Tx a) (hc_Tx b)"
  by (simp add: candidateHeap_Less_def tx_less_def)

section \<open>The loop implements a greedy run\<close>

definition log_refused :: "(string, Transaction list) gomap \<Rightarrow> pick list \<Rightarrow> Transaction list" where
  "log_refused chs log =
     map (\<lambda>(s, i, _). chain_tx chs s i) (filter (\<lambda>(_, _, taken). \<not> taken) log)"

definition log_ranking :: "(string, Transaction list) gomap \<Rightarrow> pick list \<Rightarrow> string list" where
  "log_ranking chs log = map (\<lambda>(s, i, _). tx_Hash (chain_tx chs s i)) log"

abbreviation refuse :: "Transaction \<Rightarrow> TxDecision" where
  "refuse tx \<equiv>
     rejectDecision tx ReasonCapacityExcluded ''insufficient remaining gas'' ''selection''"

definition head_of :: "(string, Transaction list) gomap \<Rightarrow> string \<times> nat \<Rightarrow> headCandidate" where
  "head_of chs p = \<lparr> hc_Sender = fst p, hc_Index = snd p, hc_Tx = chain_tx chs (fst p) (snd p) \<rparr>"

definition sel_inv ::
  "(string, Transaction list) gomap \<Rightarrow> nat \<Rightarrow> int \<Rightarrow> sel_state \<Rightarrow> pick list \<Rightarrow> bool" where
  "sel_inv chs limit maxTx st log \<longleftrightarrow>
     greedy_run chs limit maxTx log \<and>
     sl_selected st = log_taken chs log \<and>
     sl_accepted st = map (\<lambda>tx. acceptDecision tx ''selection'') (log_taken chs log) \<and>
     sl_rejected st = map refuse (log_refused chs log) \<and>
     sl_ranking st = log_ranking chs log \<and>
     gas_used (log_taken chs log) + unat (sl_remaining st) = limit \<and>
     is_heap candidateHeap_Less (sl_heap st) \<and>
     distinct (sl_heap st) \<and>
     set (sl_heap st) = head_of chs ` frontier chs log"

lemma inj_head_of: "inj (head_of chs)"
  by (auto simp: inj_def head_of_def prod_eq_iff)

lemma log_taken_snoc [simp]:
  "log_taken chs (log @ [(s, i, taken)]) =
     log_taken chs log @ (if taken then [chain_tx chs s i] else [])"
  by (simp add: log_taken_def)

lemma log_refused_snoc [simp]:
  "log_refused chs (log @ [(s, i, taken)]) =
     log_refused chs log @ (if taken then [] else [chain_tx chs s i])"
  by (simp add: log_refused_def)

lemma log_ranking_snoc [simp]:
  "log_ranking chs (log @ [(s, i, taken)]) = log_ranking chs log @ [tx_Hash (chain_tx chs s i)]"
  by (simp add: log_ranking_def)

lemma next_index_snoc:
  "next_index (log @ [(s', i, taken)]) s = next_index log s + (if s' = s \<and> taken then 1 else 0)"
  by (simp add: next_index_def)

lemma blocked_snoc:
  "blocked (log @ [(s', i, taken)]) s \<longleftrightarrow> blocked log s \<or> s' = s \<and> \<not> taken"
  by (auto simp: blocked_def)

lemma gas_used_append [simp]: "gas_used (xs @ ys) = gas_used xs + gas_used ys"
  by (simp add: gas_used_def)

lemma frontier_refuse:
  "(s, i) \<in> frontier chs log \<Longrightarrow>
     frontier chs (log @ [(s, i, False)]) = frontier chs log - {(s, i)}"
  by (auto simp: frontier_def next_index_snoc blocked_snoc)

lemma frontier_take:
  "(s, i) \<in> frontier chs log \<Longrightarrow>
     frontier chs (log @ [(s, i, True)]) =
       (frontier chs log - {(s, i)}) \<union>
       (if i + 1 < length (gm_get0 [] chs s) then {(s, i + 1)} else {})"
  by (auto simp: frontier_def next_index_snoc blocked_snoc split: if_splits)

lemma frontier_index: "(s, i) \<in> frontier chs log \<Longrightarrow> (s, j) \<in> frontier chs log \<Longrightarrow> i = j"
  by (simp add: frontier_def)

lemma set_heap_push [simp]: "set (heap_push lt h x) = insert x (set h)"
  by (metis mset_heap_push set_mset_add_mset_insert set_mset_mset)

lemma distinct_heap_push: "distinct (heap_push lt h x) \<longleftrightarrow> distinct h \<and> x \<notin> set h"
proof -
  have "mset (heap_push lt h x) = mset (x # h)" by (simp add: mset_heap_push)
  then have "distinct (heap_push lt h x) \<longleftrightarrow> distinct (x # h)" by (rule mset_eq_imp_distinct_iff)
  then show ?thesis by auto
qed

lemma select_step_refuse:
  "tx_GasLimit (hc_Tx c) > sl_remaining st \<Longrightarrow>
     select_step chs st c h =
       st\<lparr> sl_heap := h, sl_ranking := sl_ranking st @ [tx_Hash (hc_Tx c)],
           sl_rejected := sl_rejected st @ [refuse (hc_Tx c)] \<rparr>"
  by (simp add: select_step_def Let_def)

lemma select_step_take:
  "\<not> tx_GasLimit (hc_Tx c) > sl_remaining st \<Longrightarrow>
     select_step chs st c h =
       st\<lparr> sl_heap := (if hc_Index c + 1 < length (gm_get0 [] chs (hc_Sender c))
                        then heap_push candidateHeap_Less h
                               (head_of chs (hc_Sender c, hc_Index c + 1)) else h),
           sl_ranking := sl_ranking st @ [tx_Hash (hc_Tx c)],
           sl_selected := sl_selected st @ [hc_Tx c],
           sl_accepted := sl_accepted st @ [acceptDecision (hc_Tx c) ''selection''],
           sl_remaining := sl_remaining st - tx_GasLimit (hc_Tx c) \<rparr>"
  by (simp add: select_step_def Let_def head_of_def chain_tx_def)

lemma select_step_inv:
  assumes inv: "sel_inv chs limit maxTx st log"
    and room: "int (length (sl_selected st)) < maxTx"
    and pop: "heap_pop candidateHeap_Less (sl_heap st) = Some (cand, h)"
  shows "\<exists>log'. sel_inv chs limit maxTx (select_step chs st cand h) log'"
proof -
  note I = inv [unfolded sel_inv_def]
  have heap: "is_heap candidateHeap_Less (sl_heap st) \<and> list_all (\<lambda>_. True) (sl_heap st)"
    using I by (simp add: list_all_iff)
  have ms: "mset (sl_heap st) = add_mset cand (mset h)"
    using head_cmp.pq.pop_elems [OF pop] .
  then have "mset (sl_heap st) = mset (cand # h)" by simp
  then have dist: "distinct (cand # h)"
    using I mset_eq_imp_distinct_iff by blast
  have "set (sl_heap st) = insert cand (set h)"
    using ms by (metis set_mset_add_mset_insert set_mset_mset)
  then have seth: "set h = head_of chs ` frontier chs log - {cand}"
    using I dist by auto
  have "cand \<in> set (sl_heap st)" using ms by (metis set_mset_mset union_single_eq_member)
  then obtain s i where si: "(s, i) \<in> frontier chs log" "cand = head_of chs (s, i)"
    using I by auto
  let ?tx = "chain_tx chs s i"
  have tx: "hc_Tx cand = ?tx" "hc_Sender cand = s" "hc_Index cand = i"
    using si by (simp_all add: head_of_def)
  have least: "\<not> tx_less (chain_tx chs s' i') ?tx" if "(s', i') \<in> frontier chs log" for s' i'
  proof -
    have "head_of chs (s', i') \<in># mset (sl_heap st)" using I that by auto
    then have "\<not> candidateHeap_Less (head_of chs (s', i')) cand"
      using head_cmp.pq.pop_least [OF heap pop] by blast
    then show ?thesis using tx by (simp add: candidateHeap_Less_tx head_of_def)
  qed
  have heaph: "is_heap candidateHeap_Less h"
    using head_cmp.pq.pop_invar [OF heap pop] by simp
  have minus: "head_of chs ` frontier chs log - {cand} = head_of chs ` (frontier chs log - {(s, i)})"
    using si by (simp add: image_set_diff [OF inj_head_of])
  let ?taken = "\<not> tx_GasLimit ?tx > sl_remaining st"
  have fits: "?taken \<longleftrightarrow> gas_used (log_taken chs log) + unat (tx_GasLimit ?tx) \<le> limit"
    using I by (auto simp: word_less_nat_alt)
  have run: "greedy_run chs limit maxTx (log @ [(s, i, ?taken)])"
    using I room si(1) least fits by (intro greedy_pick) auto
  show ?thesis
  proof (cases ?taken)
    case False
    then have "sel_inv chs limit maxTx (select_step chs st cand h) (log @ [(s, i, False)])"
      using run I tx heaph dist seth minus si(1)
      by (simp add: sel_inv_def select_step_refuse frontier_refuse)
    then show ?thesis by blast
  next
    case True
    have rem: "unat (sl_remaining st - tx_GasLimit ?tx) = unat (sl_remaining st) - unat (tx_GasLimit ?tx)"
      using True by (simp add: unat_sub)
    have new: "(s, i + 1) \<notin> frontier chs log" using frontier_index [OF si(1), of "i + 1"] by auto
    then have fresh: "head_of chs (s, i + 1) \<notin> set h"
      using seth inj_head_of by (auto dest: injD)
    have gas: "gas_used (log_taken chs log @ [?tx]) + unat (sl_remaining st - tx_GasLimit ?tx) = limit"
      using I rem True by (simp add: gas_used_def word_le_nat_alt not_less)
    have heap': "is_heap candidateHeap_Less (heap_push candidateHeap_Less h x)" for x
      using head_cmp.pq.push_invar [of h x] heaph by (simp add: list_all_iff)
    have step: "select_step chs st cand h =
        st\<lparr> sl_heap := (if i + 1 < length (gm_get0 [] chs s)
                        then heap_push candidateHeap_Less h (head_of chs (s, i + 1)) else h),
            sl_ranking := sl_ranking st @ [tx_Hash ?tx], sl_selected := sl_selected st @ [?tx],
            sl_accepted := sl_accepted st @ [acceptDecision ?tx ''selection''],
            sl_remaining := sl_remaining st - tx_GasLimit ?tx \<rparr>"
      using select_step_take [of st cand chs h] True tx by simp
    have hp: "is_heap candidateHeap_Less (sl_heap (select_step chs st cand h))"
      using heaph heap' by (simp add: step)
    have ds: "distinct (sl_heap (select_step chs st cand h))"
      using dist fresh by (simp add: step distinct_heap_push)
    have st: "set (sl_heap (select_step chs st cand h)) = head_of chs ` frontier chs (log @ [(s, i, True)])"
      using seth minus by (simp add: step frontier_take [OF si(1)])
    have "sel_inv chs limit maxTx (select_step chs st cand h) (log @ [(s, i, True)])"
      unfolding sel_inv_def
      using run True I gas hp ds st by (simp add: step)
    then show ?thesis by blast
  qed
qed

lemma select_loop_inv:
  assumes "sel_inv chs limit maxTx st log"
  shows "\<exists>log'. sel_inv chs limit maxTx (select_loop chs maxTx st) log' \<and>
           (sl_heap (select_loop chs maxTx st) = [] \<or>
            maxTx \<le> int (length (sl_selected (select_loop chs maxTx st))))"
  using assms
proof (induction chs maxTx st arbitrary: log rule: select_loop.induct)
  case (1 chs maxTx st)
  show ?case
  proof (cases "sl_heap st \<noteq> [] \<and> int (length (sl_selected st)) < maxTx")
    case False
    then show ?thesis using "1.prems" by (auto simp: select_loop.simps [of chs maxTx st])
  next
    case True
    then obtain cand h where pop: "heap_pop candidateHeap_Less (sl_heap st) = Some (cand, h)"
      using heap_pop_Some [of "sl_heap st"] by blast
    then obtain log' where "sel_inv chs limit maxTx (select_step chs st cand h) log'"
      using select_step_inv "1.prems" True by blast
    then show ?thesis
      using "1.IH" [OF True pop refl] pop True by (simp add: select_loop.simps [of chs maxTx st])
  qed
qed

lemma push_heads_inv:
  "distinct senders \<Longrightarrow> distinct h \<Longrightarrow> (\<And>c. c \<in> set h \<Longrightarrow> hc_Sender c \<notin> set senders) \<Longrightarrow>
   is_heap candidateHeap_Less h \<Longrightarrow>
     is_heap candidateHeap_Less (push_heads chs h senders) \<and>
     distinct (push_heads chs h senders) \<and>
     set (push_heads chs h senders) =
       set h \<union> head_of chs ` {(s, 0) | s. s \<in> set senders \<and> gm_get0 [] chs s \<noteq> []}"
proof (induction chs h senders rule: push_heads.induct)
  case (1 chs h)
  then show ?case by simp
next
  case (2 chs h sender senders)
  show ?case
  proof (cases "gm_get0 [] chs sender")
    case Nil
    moreover have "{(s, 0::nat) | s. s \<in> set (sender # senders) \<and> gm_get0 [] chs s \<noteq> []}
        = {(s, 0) | s. s \<in> set senders \<and> gm_get0 [] chs s \<noteq> []}"
      using Nil by auto
    ultimately show ?thesis using 2 by auto
  next
    case (Cons tx txs)
    let ?c = "\<lparr> hc_Sender = sender, hc_Index = 0, hc_Tx = tx \<rparr>"
    have c: "?c = head_of chs (sender, 0)"
      using Cons by (simp add: head_of_def chain_tx_def)
    have fresh: "?c \<notin> set h" using "2.prems"(3) by force
    have sub: "hc_Sender c \<notin> set senders" if "c = ?c \<or> c \<in> set h" for c
      using that "2.prems"(1,3) by auto
    have "is_heap candidateHeap_Less (heap_push candidateHeap_Less h ?c)"
      using head_cmp.pq.push_invar [of h ?c] "2.prems"(4) by (simp add: list_all_iff)
    then have "is_heap candidateHeap_Less (push_heads chs (heap_push candidateHeap_Less h ?c) senders) \<and>
        distinct (push_heads chs (heap_push candidateHeap_Less h ?c) senders) \<and>
        set (push_heads chs (heap_push candidateHeap_Less h ?c) senders) =
          insert ?c (set h) \<union> head_of chs ` {(s, 0) | s. s \<in> set senders \<and> gm_get0 [] chs s \<noteq> []}"
      using "2.IH"(2) [OF Cons] "2.prems"(1,2) fresh sub
      by (simp add: distinct_heap_push)
    moreover have "{(s, 0::nat) | s. s \<in> set (sender # senders) \<and> gm_get0 [] chs s \<noteq> []}
        = insert (sender, 0) {(s, 0) | s. s \<in> set senders \<and> gm_get0 [] chs s \<noteq> []}"
      using Cons by auto
    ultimately show ?thesis using Cons c by simp
  qed
qed

definition gas_limit_of :: "u64 \<Rightarrow> nat" where
  "gas_limit_of maxGas = (if maxGas = 0 then 2 ^ 64 - 1 else unat maxGas)"

lemma select_start_inv:
  assumes "is_order ord" and "gm_ok chs"
  shows "sel_inv chs (gas_limit_of maxGas) maxTx (select_start ord chs maxGas) []"
proof -
  let ?senders = "sort (map fst (ord chs))"
  have "distinct (map fst (ord chs)) = distinct (map fst chs)"
    using is_order_mset [OF assms(1), of chs] by (intro mset_eq_imp_distinct_iff) simp
  then have d: "distinct ?senders" using assms(2) by (simp add: gm_ok_def)
  have "set ?senders = fst ` set chs" using is_order_set [OF assms(1), of chs] by simp
  then have mem: "s \<in> set ?senders" if "gm_get0 [] chs s \<noteq> []" for s
    using that gm_get_dom [of chs s] by (auto simp: gm_get0_def split: option.splits)
  have front: "frontier chs [] = {(s, 0) | s. s \<in> set ?senders \<and> gm_get0 [] chs s \<noteq> []}"
    using mem by (auto simp: frontier_def next_index_def blocked_def)
  have "unat (- 1 :: u64) = 2 ^ 64 - 1"
    by (simp add: unsigned_minus_1_eq_mask mask_eq_exp_minus_1)
  then have lim: "unat (if maxGas = 0 then - 1 else maxGas) = gas_limit_of maxGas"
    by (simp add: gas_limit_of_def)
  show ?thesis
    using push_heads_inv [OF d, of "[]" chs] front lim
    by (simp add: sel_inv_def select_start_def Let_def greedy_start log_taken_def log_refused_def
        log_ranking_def gas_used_def is_heap_def)
qed

lemma select_loop_final:
  assumes "is_order ord" and "gm_ok chs" and "0 \<le> maxTx"
  shows "\<exists>log. greedy_run chs (gas_limit_of maxGas) maxTx log \<and> greedy_complete chs maxTx log \<and>
      (let st = select_loop chs maxTx (select_start ord chs maxGas) in
       sl_selected st = log_taken chs log \<and>
       sl_accepted st = map (\<lambda>tx. acceptDecision tx ''selection'') (log_taken chs log) \<and>
       sl_rejected st = map refuse (log_refused chs log) \<and> sl_ranking st = log_ranking chs log)"
proof -
  let ?st = "select_loop chs maxTx (select_start ord chs maxGas)"
  obtain log where log: "sel_inv chs (gas_limit_of maxGas) maxTx ?st log"
      "sl_heap ?st = [] \<or> maxTx \<le> int (length (sl_selected ?st))"
    using select_loop_inv [OF select_start_inv [OF assms(1,2)]] by blast
  then have "greedy_complete chs maxTx log"
    by (auto simp: sel_inv_def greedy_complete_def)
  then show ?thesis
    using log assms(3) by (auto simp: Let_def sel_inv_def)
qed

lemma select_final:
  assumes "is_order ord" and "gm_ok chs" and "0 \<le> maxTx"
    and "selectTransactions ord chs maxGas maxTx = Some (selected, accepted, rejected, ranking, stop)"
  shows "\<exists>log. greedy_run chs (gas_limit_of maxGas) maxTx log \<and> greedy_complete chs maxTx log \<and>
      selected = log_taken chs log \<and>
      accepted = map (\<lambda>tx. acceptDecision tx ''selection'') (log_taken chs log) \<and>
      rejected = map refuse (log_refused chs log) \<and> ranking = log_ranking chs log"
  using select_loop_final [OF assms(1-3), of maxGas] assms(4)
  by (auto simp: selectTransactions_count Let_def split: if_splits)


section \<open>What every greedy run guarantees\<close>

lemma greedy_run_bounds:
  "greedy_run chs limit maxTx log \<Longrightarrow> 0 \<le> maxTx \<Longrightarrow>
     gas_used (log_taken chs log) \<le> limit \<and> int (length (log_taken chs log)) \<le> maxTx"
  by (induction rule: greedy_run.induct) (auto simp: log_taken_def gas_used_def)

lemma greedy_run_indices:
  assumes "greedy_run chs limit maxTx log"
  shows "map (fst \<circ> snd) (filter (\<lambda>(s', i, taken). s' = s \<and> taken) log) = [0..<next_index log s]"
    and "next_index log s \<le> length (gm_get0 [] chs s)"
    and "\<forall>(s', i, taken) \<in> set log. i < length (gm_get0 [] chs s')"
proof -
  have "map (fst \<circ> snd) (filter (\<lambda>(s', i, taken). s' = s \<and> taken) log) = [0..<next_index log s] \<and>
      next_index log s \<le> length (gm_get0 [] chs s) \<and>
      (\<forall>(s', i, taken) \<in> set log. i < length (gm_get0 [] chs s'))"
    using assms
  proof (induction rule: greedy_run.induct)
    case greedy_start
    then show ?case by (simp add: next_index_def)
  next
    case (greedy_pick log s' i taken)
    then show ?case by (auto simp: next_index_snoc frontier_def)
  qed
  then show "map (fst \<circ> snd) (filter (\<lambda>(s', i, taken). s' = s \<and> taken) log) = [0..<next_index log s]"
    and "next_index log s \<le> length (gm_get0 [] chs s)"
    and "\<forall>(s', i, taken) \<in> set log. i < length (gm_get0 [] chs s')" by auto
qed

text \<open>Each chain holds the transactions of its own sender.\<close>

definition chains_by_sender :: "(string, Transaction list) gomap \<Rightarrow> bool" where
  "chains_by_sender chs \<longleftrightarrow> (\<forall>(s, txs) \<in> set chs. \<forall>tx \<in> set txs. tx_From tx = s)"

lemma chain_tx_From:
  assumes "chains_by_sender chs" and "i < length (gm_get0 [] chs s)"
  shows "tx_From (chain_tx chs s i) = s"
proof -
  obtain txs where "gm_get chs s = Some txs" "gm_get0 [] chs s = txs"
    using assms(2) by (cases "gm_get chs s") (auto simp: gm_get0_def)
  then show ?thesis
    using assms gm_get_mem [of chs s txs] nth_mem [of i txs]
    by (fastforce simp: chains_by_sender_def chain_tx_def)
qed

lemma greedy_run_prefix:
  assumes run: "greedy_run chs limit maxTx log" and own: "chains_by_sender chs"
  shows "filter (\<lambda>tx. tx_From tx = s) (log_taken chs log) = take (next_index log s) (gm_get0 [] chs s)"
proof -
  have "filter (\<lambda>tx. tx_From tx = s) (log_taken chs log)
      = map (\<lambda>(s, i, _). chain_tx chs s i)
          (filter (\<lambda>p. tx_From ((\<lambda>(s, i, _). chain_tx chs s i) p) = s) (filter (\<lambda>(_, _, taken). taken) log))"
    by (simp add: log_taken_def filter_map comp_def)
  also have "filter (\<lambda>p. tx_From ((\<lambda>(s, i, _). chain_tx chs s i) p) = s) (filter (\<lambda>(_, _, taken). taken) log)
      = filter (\<lambda>(s', i, taken). s' = s \<and> taken) log"
    using greedy_run_indices(3) [OF run] chain_tx_From [OF own]
    by (auto intro!: filter_cong)
  also have "map (\<lambda>(s, i, _). chain_tx chs s i) (filter (\<lambda>(s', i, taken). s' = s \<and> taken) log)
      = map (chain_tx chs s) (map (fst \<circ> snd) (filter (\<lambda>(s', i, taken). s' = s \<and> taken) log))"
    by auto
  also have "\<dots> = take (next_index log s) (gm_get0 [] chs s)"
    using greedy_run_indices(1,2) [OF run, of s]
    by (auto intro!: nth_equalityI simp: chain_tx_def)
  finally show ?thesis .
qed

lemma select_result:
  assumes "is_order ord" and "gm_ok chs" and "0 \<le> maxTx"
  shows "\<exists>log stop. greedy_run chs (gas_limit_of maxGas) maxTx log \<and>
     greedy_complete chs maxTx log \<and>
     selectTransactions ord chs maxGas maxTx =
       (if 168 * maxTx \<le> 2 ^ 48
        then Some (log_taken chs log, map (\<lambda>tx. acceptDecision tx ''selection'') (log_taken chs log),
                   map refuse (log_refused chs log), log_ranking chs log, stop)
        else None)"
proof -
  let ?st = "select_loop chs maxTx (select_start ord chs maxGas)"
  obtain log where "greedy_run chs (gas_limit_of maxGas) maxTx log" "greedy_complete chs maxTx log"
      "sl_selected ?st = log_taken chs log"
      "sl_accepted ?st = map (\<lambda>tx. acceptDecision tx ''selection'') (log_taken chs log)"
      "sl_rejected ?st = map refuse (log_refused chs log)" "sl_ranking ?st = log_ranking chs log"
    using select_loop_final [OF assms, of maxGas] unfolding Let_def by blast
  then show ?thesis
    using assms(3) by (auto simp: selectTransactions_count count_ok_def Let_def)
qed

section \<open>Properties\<close>

definition demo_tx :: "string \<Rightarrow> string \<Rightarrow> u64 \<Rightarrow> u64 \<Rightarrow> int \<Rightarrow> Transaction" where
  "demo_tx hash sender nonce gas score =
     zero_tx\<lparr> tx_Hash := hash, tx_From := sender, tx_Nonce := nonce, tx_GasLimit := gas,
             tx_Score := Some score \<rparr>"

definition demo_chains :: "(string, Transaction list) gomap" where
  "demo_chains =
     [(''a'', [demo_tx ''a0'' ''a'' 7 50 10, demo_tx ''a1'' ''a'' 8 60 90]),
      (''b'', [demo_tx ''b0'' ''b'' 3 50 20, demo_tx ''b1'' ''b'' 4 10 5])]"

text \<open>
  C1: the selection loop always terminates with an answer, and that answer is the projection of
  a complete greedy run: at every step the best head of the chains that are still open was taken
  if its gas fitted, and refused (closing its sender's chain) if it did not; the run
  stopped only because the count was reached or no head was left. The one panic is the one of
  a count the run time cannot make the result slices for (about 1.6 million million).
\<close>

theorem select_refines_greedy:
  assumes "is_order ord" and "gm_ok chs" and "0 \<le> maxTx"
  shows "\<exists>log stop. greedy_run chs (gas_limit_of maxGas) maxTx log \<and>
     greedy_complete chs maxTx log \<and>
     selectTransactions ord chs maxGas maxTx =
       (if 168 * maxTx \<le> 2 ^ 48
        then Some (log_taken chs log, map (\<lambda>tx. acceptDecision tx ''selection'') (log_taken chs log),
                   map refuse (log_refused chs log), log_ranking chs log, stop)
        else None)"
  by (rule select_result [OF assms])

theorem select_refines_greedy_witness:
  "\<exists>log stop. greedy_run demo_chains (gas_limit_of 120) 10 log \<and>
     greedy_complete demo_chains 10 log \<and>
     selectTransactions rev demo_chains 120 10 =
       Some (log_taken demo_chains log,
             map (\<lambda>tx. acceptDecision tx ''selection'') (log_taken demo_chains log),
             map refuse (log_refused demo_chains log), log_ranking demo_chains log, stop)"
  using select_refines_greedy [of rev demo_chains 10 120] by (simp add: demo_chains_def gm_ok_def)

text \<open>
  What is selected fits: the gas of the selected transactions, summed without wrap-around,
  is at most the gas limit (the whole 64-bit range when no limit is configured), and at most
  \<open>maxTx\<close> transactions are selected.
\<close>

theorem select_within_limits:
  assumes "is_order ord" and "gm_ok chs" and "0 \<le> maxTx"
    and "selectTransactions ord chs maxGas maxTx = Some (selected, accepted, rejected, ranking, stop)"
  shows "gas_used selected \<le> gas_limit_of maxGas \<and> int (length selected) \<le> maxTx"
  using select_final [OF assms] greedy_run_bounds assms(3) by blast

theorem select_within_limits_witness:
  "\<exists>selected accepted rejected ranking stop.
     selectTransactions rev demo_chains 120 10 = Some (selected, accepted, rejected, ranking, stop) \<and>
     gas_used selected \<le> gas_limit_of 120 \<and> int (length selected) \<le> 10"
proof -
  have ok: "is_order rev" "gm_ok demo_chains" "(0::int) \<le> 10" by (simp_all add: demo_chains_def gm_ok_def)
  obtain sel acc rej rank stop where
    "selectTransactions rev demo_chains 120 10 = Some (sel, acc, rej, rank, stop)"
    by (simp add: selectTransactions_count count_ok_def Let_def)
  then show ?thesis using select_within_limits [OF ok] by blast
qed

text \<open>
  the transactions selected of one sender are a prefix of that sender's chain, in
  chain order: no transaction is ever selected without its predecessors.
\<close>

theorem select_sender_prefix:
  assumes "is_order ord" and "gm_ok chs" and "0 \<le> maxTx" and "chains_by_sender chs"
    and "selectTransactions ord chs maxGas maxTx = Some (selected, accepted, rejected, ranking, stop)"
  shows "\<exists>n \<le> length (gm_get0 [] chs s).
           filter (\<lambda>tx. tx_From tx = s) selected = take n (gm_get0 [] chs s)"
proof -
  obtain log where "greedy_run chs (gas_limit_of maxGas) maxTx log" "selected = log_taken chs log"
    using select_final [OF assms(1-3,5)] by blast
  then show ?thesis
    using greedy_run_prefix [OF _ assms(4)] greedy_run_indices(2) by blast
qed

theorem select_sender_prefix_witness:
  "\<exists>selected accepted rejected ranking stop.
     selectTransactions rev demo_chains 120 10 = Some (selected, accepted, rejected, ranking, stop) \<and>
     (\<exists>n \<le> length (gm_get0 [] demo_chains ''b'').
        filter (\<lambda>tx. tx_From tx = ''b'') selected = take n (gm_get0 [] demo_chains ''b''))"
proof -
  have ok: "is_order rev" "gm_ok demo_chains" "(0::int) \<le> 10" "chains_by_sender demo_chains"
    by (simp_all add: demo_chains_def gm_ok_def chains_by_sender_def demo_tx_def)
  obtain sel acc rej rank stop where
    "selectTransactions rev demo_chains 120 10 = Some (sel, acc, rej, rank, stop)"
    by (simp add: selectTransactions_count count_ok_def Let_def)
  then show ?thesis using select_sender_prefix [OF ok] by blast
qed

text \<open>
  The selection does not depend on the order in which the run time iterates over the map of
  chains: the same chains give the same transactions, decisions, ranking and stop reason.
\<close>

theorem select_order_independent:
  assumes "is_order ord" and "is_order ord'"
  shows "selectTransactions ord chs maxGas maxTx = selectTransactions ord' chs maxGas maxTx"
proof -
  have "sort (map fst (ord chs)) = sort (map fst (ord' chs))"
    using assms by (intro sort_perm) (simp add: is_order_mset)
  then show ?thesis by (simp add: selectTransactions_count select_start_def Let_def)
qed

theorem select_order_independent_witness:
  "selectTransactions rev demo_chains 120 10 = selectTransactions (\<lambda>xs. xs) demo_chains 120 10"
  by (rule select_order_independent) simp_all

end
