(* ===== verification/Tx_Snapshot.thy ===== *)
theory Tx_Snapshot
  imports Tx_Model
begin

text \<open>
  Capturing one snapshot of the pool: \<^verbatim>\<open>snapshot_decode.go\<close> (one raw transaction),
  \<^verbatim>\<open>snapshot_normalize.go\<close> (one pool), the sorting helpers of \<^verbatim>\<open>snapshot_util.go\<close>.

  JSON decoding is a parameter: \<open>unmarshalTx\<close> is \<^verbatim>\<open>json.Unmarshal\<close> into a
  \<^verbatim>\<open>rawTransaction\<close>, \<open>Inl\<close> its error. Every map that is ranged over comes with the order the
  run time picked.

  The lemmas show that a normalised chain has consecutive nonces, that its transactions are
  the best of their nonce and within the block gas limit, that normalising never
  indexes an empty group, and that the result does not depend on map iteration order.
\<close>

section \<open>Decoding one transaction\<close>

record rawTransaction =
  rt_Hash :: string
  rt_From :: string
  rt_To :: string
  rt_Gas :: string
  rt_GasPrice :: string
  rt_MaxFeePerGas :: string
  rt_MaxPriorityFeePerGas :: string
  rt_Value :: string
  rt_Type :: string
  rt_Input :: string

definition resolveFeeFields ::
  "Transaction \<Rightarrow> rawTransaction \<Rightarrow> int option \<Rightarrow> string + Transaction" where
  "resolveFeeFields tx txraw baseFee =
     (if rt_MaxFeePerGas txraw \<noteq> [] \<or> rt_MaxPriorityFeePerGas txraw \<noteq> [] then
        (case baseFee of
           None \<Rightarrow> Inl ''dynamic fee tx requires base fee''
         | Some base \<Rightarrow>
           (case parseBigIntString (rt_MaxFeePerGas txraw) of
              None \<Rightarrow> Inl ''invalid maxFeePerGas''
            | Some maxFee \<Rightarrow>
              (case parseBigIntString (rt_MaxPriorityFeePerGas txraw) of
                 None \<Rightarrow> Inl ''invalid maxPriorityFeePerGas''
               | Some maxTip \<Rightarrow>
                 if maxFee < base then Inl ''maxFeePerGas below base fee''
                 else let priorityCap = maxFee - base;
                          effectiveTip = the (minBig (Some maxTip) (Some priorityCap))
                      in Inr (tx\<lparr> tx_MaxFeePerGas := Some maxFee,
                                 tx_MaxPriorityFeePerGas := Some maxTip,
                                 tx_EffectiveFee := Some effectiveTip,
                                 tx_Score := Some (effectiveTip * uint (tx_GasLimit tx)) \<rparr>))))
      else if rt_GasPrice txraw \<noteq> [] then
        (case parseBigIntString (rt_GasPrice txraw) of
           None \<Rightarrow> Inl ''invalid gasPrice''
         | Some gasPrice \<Rightarrow>
             Inr (tx\<lparr> tx_GasPrice := Some gasPrice, tx_EffectiveFee := Some gasPrice,
                     tx_Score := Some (gasPrice * uint (tx_GasLimit tx)) \<rparr>))
      else Inl ''missing fee fields'')"

datatype decode_result = DecodeErr string | DecodeTx Transaction | DecodeReject TxDecision

definition tx_from_raw :: "string \<Rightarrow> u64 \<Rightarrow> u64 \<Rightarrow> rawTransaction \<Rightarrow> Transaction" where
  "tx_from_raw sender nonce gasLimit txraw =
     (let txType = (case parseUintString (rt_Type txraw) of None \<Rightarrow> 0 | Some t \<Rightarrow> t);
          tx = zero_tx\<lparr> tx_Hash := rt_Hash txraw,
                 tx_From := firstNonEmpty [rt_From txraw, sender],
                 tx_To := rt_To txraw, tx_Nonce := nonce,
                 tx_TxType := ucast txType, tx_GasLimit := gasLimit,
                 tx_InputLen := inputLen (rt_Input txraw) \<rparr>
      in case parseBigIntString (rt_Value txraw) of
           Some value \<Rightarrow> tx\<lparr> tx_Value := Some value \<rparr> | None \<Rightarrow> tx)"

definition decodeTx ::
  "('r \<Rightarrow> string + rawTransaction) \<Rightarrow> string \<Rightarrow> string \<Rightarrow> 'r \<Rightarrow> int option \<Rightarrow> u64 \<Rightarrow> string
     \<Rightarrow> decode_result" where
  "decodeTx unmarshalTx sender nonceKey raw baseFee blockGasLimit stage =
     (case unmarshalTx raw of
        Inl err \<Rightarrow> DecodeErr err
      | Inr txraw \<Rightarrow>
        (case parseUintString nonceKey of
           None \<Rightarrow> DecodeReject (rejectDecision (zero_tx\<lparr> tx_From := sender \<rparr>)
                     ReasonInvalidNonce ''invalid nonce key'' stage)
         | Some nonce \<Rightarrow>
           if rt_Hash txraw = []
           then DecodeReject (rejectDecision (zero_tx\<lparr> tx_From := sender, tx_Nonce := nonce \<rparr>)
                     ReasonMissingField ''missing tx hash'' stage)
           else
             (let rejectGas = DecodeReject (rejectDecision
                    (zero_tx\<lparr> tx_Hash := rt_Hash txraw, tx_From := sender, tx_Nonce := nonce \<rparr>)
                    ReasonInvalidGas ''invalid gas'' stage)
              in case parseUintString (rt_Gas txraw) of
                   None \<Rightarrow> rejectGas
                 | Some gasLimit \<Rightarrow>
                   if gasLimit = 0 then rejectGas
                   else if blockGasLimit > 0 \<and> gasLimit > blockGasLimit
                   then DecodeReject (rejectDecision
                          (zero_tx\<lparr> tx_Hash := rt_Hash txraw, tx_From := sender,
                                   tx_Nonce := nonce, tx_GasLimit := gasLimit \<rparr>)
                          ReasonExceedsBlockGas ''tx gas exceeds block gas limit'' stage)
                   else
                     let tx = tx_from_raw sender nonce gasLimit txraw
                     in case resolveFeeFields tx txraw baseFee of
                          Inl err \<Rightarrow> DecodeReject (rejectDecision tx ReasonInvalidFeeModel err stage)
                        | Inr tx' \<Rightarrow> DecodeTx tx')))"

section \<open>Normalising a sender\<close>

definition nonce_key_less :: "string \<Rightarrow> string \<Rightarrow> bool" where
  "nonce_key_less ki kj =
     (case (parseUintString ki, parseUintString kj) of
        (Some ni, Some nj) \<Rightarrow> if ni \<noteq> nj then ni < nj else ki < kj
      | (Some ni, None) \<Rightarrow> True
      | (None, Some nj) \<Rightarrow> False
      | (None, None) \<Rightarrow> ki < kj)"

definition sortedNonceKeys :: "((string \<times> 'r) list \<Rightarrow> (string \<times> 'r) list) \<Rightarrow> (string, 'r) gomap \<Rightarrow> string list" where
  "sortedNonceKeys ord nonces = sort_by nonce_key_less (map fst (ord nonces))"

definition sortedPoolSenders ::
  "((string \<times> (string, 'r) gomap) list \<Rightarrow> (string \<times> (string, 'r) gomap) list) \<Rightarrow>
     (string, (string, 'r) gomap) gomap \<Rightarrow> string list" where
  "sortedPoolSenders ord pool = sort (map fst (ord pool))"

text \<open>The loop over the sorted nonces; \<open>None\<close> is the panic of \<^verbatim>\<open>list[0]\<close> on an empty group.\<close>

fun norm_loop ::
  "(u64, Transaction list) gomap \<Rightarrow> u64 \<Rightarrow> string \<Rightarrow> u64 list \<Rightarrow> u64 option \<Rightarrow>
     Transaction list \<Rightarrow> TxDecision list \<Rightarrow> (Transaction list \<times> TxDecision list) option" where
  "norm_loop groups blockGasLimit stage [] prev selected decisions = Some (selected, decisions)"
| "norm_loop groups blockGasLimit stage (nonce # nonces) prev selected decisions =
     (case sort_by tx_less (gm_get0 [] groups nonce) of
        [] \<Rightarrow> None
      | best # rest \<Rightarrow>
        (let decisions1 = decisions @ map (\<lambda>tx. rejectDecision tx ReasonReplacementConflict
                            ''same sender and nonce; lower score'' stage) rest
         in if (case prev of None \<Rightarrow> False | Some p \<Rightarrow> nonce > p + 1)
            then Some (selected, decisions1 @
                   [rejectDecision best ReasonNonceGap ''nonce gap in sender chain'' stage])
            else if blockGasLimit > 0 \<and> tx_GasLimit best > blockGasLimit
            then Some (selected, decisions1 @
                   [rejectDecision best ReasonExceedsBlockGas ''tx gas exceeds block gas limit'' stage])
            else norm_loop groups blockGasLimit stage nonces (Some nonce) (selected @ [best]) decisions1))"

definition normalizeSenderChain ::
  "((u64 \<times> Transaction list) list \<Rightarrow> (u64 \<times> Transaction list) list) \<Rightarrow>
     (u64, Transaction list) gomap \<Rightarrow> u64 \<Rightarrow> string \<Rightarrow>
     (Transaction list \<times> TxDecision list) option" where
  "normalizeSenderChain ord groups blockGasLimit stage =
     norm_loop groups blockGasLimit stage (sort_by (<) (map fst (ord groups))) None [] []"

section \<open>Normalising a pool\<close>

fun decode_nonces ::
  "('r \<Rightarrow> string + rawTransaction) \<Rightarrow> string \<Rightarrow> (string, 'r) gomap \<Rightarrow> 'r \<Rightarrow> int option \<Rightarrow> u64 \<Rightarrow>
     string \<Rightarrow> string list \<Rightarrow> (u64, Transaction list) gomap \<Rightarrow> TxDecision list \<Rightarrow>
     string + ((u64, Transaction list) gomap \<times> TxDecision list)" where
  "decode_nonces um sender nonces z baseFee blockGasLimit stage [] groups decisions =
     Inr (groups, decisions)"
| "decode_nonces um sender nonces z baseFee blockGasLimit stage (key # keys) groups decisions =
     (case decodeTx um sender key (gm_get0 z nonces key) baseFee blockGasLimit stage of
        DecodeErr err \<Rightarrow> Inl err
      | DecodeReject d \<Rightarrow>
          decode_nonces um sender nonces z baseFee blockGasLimit stage keys groups (decisions @ [d])
      | DecodeTx tx \<Rightarrow>
          decode_nonces um sender nonces z baseFee blockGasLimit stage keys
            (gm_set groups (tx_Nonce tx) (gm_get0 [] groups (tx_Nonce tx) @ [tx])) decisions)"

text \<open>The map iteration orders of one call.\<close>

record 'r pool_orders =
  po_senders :: "(string \<times> (string, 'r) gomap) list \<Rightarrow> (string \<times> (string, 'r) gomap) list"
  po_nonces :: "(string \<times> 'r) list \<Rightarrow> (string \<times> 'r) list"
  po_groups :: "(u64 \<times> Transaction list) list \<Rightarrow> (u64 \<times> Transaction list) list"

definition pool_orders_ok :: "'r pool_orders \<Rightarrow> bool" where
  "pool_orders_ok po \<longleftrightarrow> is_order (po_senders po) \<and> is_order (po_nonces po) \<and> is_order (po_groups po)"

fun norm_senders ::
  "'r pool_orders \<Rightarrow> ('r \<Rightarrow> string + rawTransaction) \<Rightarrow> 'r \<Rightarrow> (string, (string, 'r) gomap) gomap \<Rightarrow>
     int option \<Rightarrow> u64 \<Rightarrow> string \<Rightarrow> string list \<Rightarrow>
     (string, Transaction list) gomap \<Rightarrow> TxDecision list \<Rightarrow>
     (string + ((string, Transaction list) gomap \<times> TxDecision list)) option" where
  "norm_senders po um z pool baseFee blockGasLimit stage [] out decisions =
     Some (Inr (out, decisions))"
| "norm_senders po um z pool baseFee blockGasLimit stage (sender # senders) out decisions =
     (let nonces = gm_get0 [] pool sender in
      case decode_nonces um sender nonces z baseFee blockGasLimit stage
             (sortedNonceKeys (po_nonces po) nonces) [] decisions of
        Inl err \<Rightarrow> Some (Inl err)
      | Inr (groups, decisions1) \<Rightarrow>
        (case normalizeSenderChain (po_groups po) groups blockGasLimit stage of
           None \<Rightarrow> None
         | Some (chain, chainDecisions) \<Rightarrow>
             norm_senders po um z pool baseFee blockGasLimit stage senders
               (gm_set out sender chain) (decisions1 @ chainDecisions)))"

definition normalizePool ::
  "'r pool_orders \<Rightarrow> ('r \<Rightarrow> string + rawTransaction) \<Rightarrow> 'r \<Rightarrow> (string, (string, 'r) gomap) gomap \<Rightarrow>
     int option \<Rightarrow> u64 \<Rightarrow> string \<Rightarrow>
     (string + ((string, Transaction list) gomap \<times> TxDecision list)) option" where
  "normalizePool po um z pool baseFee blockGasLimit stage =
     norm_senders po um z pool baseFee blockGasLimit stage
       (sortedPoolSenders (po_senders po) pool) [] []"

section \<open>What decoding guarantees\<close>

lemma resolveFeeFields_frame:
  assumes "resolveFeeFields tx txraw baseFee = Inr tx'"
  shows "tx_Hash tx' = tx_Hash tx \<and> tx_From tx' = tx_From tx \<and> tx_Nonce tx' = tx_Nonce tx \<and>
         tx_GasLimit tx' = tx_GasLimit tx"
  using assms by (auto simp: resolveFeeFields_def Let_def split: if_splits option.splits)

lemma resolveFeeFields_score:
  assumes "resolveFeeFields tx txraw baseFee = Inr tx'"
  shows "\<exists>fee. tx_EffectiveFee tx' = Some fee \<and> tx_Score tx' = Some (fee * uint (tx_GasLimit tx))"
  using assms by (auto simp: resolveFeeFields_def Let_def split: if_splits option.splits)

lemma resolveFeeFields_dynamic:
  assumes "resolveFeeFields tx txraw (Some base) = Inr tx'" and "rt_MaxFeePerGas txraw \<noteq> []"
  shows "\<exists>maxFee maxTip fee. tx_MaxFeePerGas tx' = Some maxFee \<and>
           tx_MaxPriorityFeePerGas tx' = Some maxTip \<and> tx_EffectiveFee tx' = Some fee \<and>
           fee = min maxTip (maxFee - base) \<and> base + fee \<le> maxFee"
  using assms
  by (auto simp: resolveFeeFields_def Let_def minBig_def split: if_splits option.splits)

lemma tx_from_raw_simps [simp]:
  "tx_Nonce (tx_from_raw sender nonce gas txraw) = nonce"
  "tx_Hash (tx_from_raw sender nonce gas txraw) = rt_Hash txraw"
  "tx_GasLimit (tx_from_raw sender nonce gas txraw) = gas"
  by (simp_all add: tx_from_raw_def Let_def split: option.split)

lemma decodeTx_DecodeTx:
  assumes "decodeTx um sender key raw baseFee blockGasLimit stage = DecodeTx tx"
  shows "parseUintString key = Some (tx_Nonce tx) \<and> tx_Hash tx \<noteq> [] \<and> 0 < tx_GasLimit tx \<and>
         (0 < blockGasLimit \<longrightarrow> tx_GasLimit tx \<le> blockGasLimit) \<and> tx_Score tx \<noteq> None"
proof -
  obtain txraw nonce gas where um: "um raw = Inr txraw"
      and nonce: "parseUintString key = Some nonce" and hash: "rt_Hash txraw \<noteq> []"
      and gas: "gas \<noteq> 0" "\<not> (0 < blockGasLimit \<and> blockGasLimit < gas)"
      and fee: "resolveFeeFields (tx_from_raw sender nonce gas txraw) txraw baseFee = Inr tx"
    using assms unfolding decodeTx_def Let_def
    by (simp split: sum.splits option.splits if_splits)
  from resolveFeeFields_frame [OF fee] resolveFeeFields_score [OF fee] show ?thesis
    using nonce hash gas by (auto simp: word_neq_0_conv not_less)
qed

section \<open>What normalising a sender guarantees\<close>

definition groups_ok :: "(u64, Transaction list) gomap \<Rightarrow> bool" where
  "groups_ok groups \<longleftrightarrow> gm_ok groups \<and>
     (\<forall>(nonce, txs) \<in> set groups. txs \<noteq> [] \<and> (\<forall>tx \<in> set txs. tx_Nonce tx = nonce))"

definition consecutive :: "Transaction list \<Rightarrow> bool" where
  "consecutive txs =
     successively (\<lambda>a b. tx_Nonce a < tx_Nonce b \<and> tx_Nonce b = tx_Nonce a + 1) txs"

text \<open>A chain that may be executed in order, made of the best transaction of each nonce.\<close>

definition chain_ok :: "(u64, Transaction list) gomap \<Rightarrow> u64 \<Rightarrow> Transaction list \<Rightarrow> bool" where
  "chain_ok groups blockGasLimit chain \<longleftrightarrow>
     consecutive chain \<and>
     (\<forall>tx \<in> set chain.
        (0 < blockGasLimit \<longrightarrow> tx_GasLimit tx \<le> blockGasLimit) \<and>
        tx \<in> set (gm_get0 [] groups (tx_Nonce tx)) \<and>
        (\<forall>other \<in> set (gm_get0 [] groups (tx_Nonce tx)). \<not> tx_less other tx))"

lemma word_succ_unique:
  assumes "p < (n :: u64)" and "\<not> n > p + 1"
  shows "n = p + 1"
proof -
  have "p + 1 \<le> n" using assms(1) by (rule inc_le)
  then show ?thesis using assms(2) by (simp add: not_less order.antisym)
qed

lemma groups_ok_get:
  "groups_ok groups \<Longrightarrow> n \<in> fst ` set groups \<Longrightarrow>
     gm_get0 [] groups n \<noteq> [] \<and> (\<forall>tx \<in> set (gm_get0 [] groups n). tx_Nonce tx = n)"
proof -
  assume ok: "groups_ok groups" and "n \<in> fst ` set groups"
  then obtain txs where g: "gm_get groups n = Some txs" using gm_get_dom [of groups n] by blast
  then have "(n, txs) \<in> set groups" by (rule gm_get_mem)
  then show ?thesis using ok g by (auto simp: groups_ok_def gm_get0_def)
qed

lemma norm_loop_ok:
  assumes "groups_ok groups" and "sorted_wrt (<) nonces" and "set nonces \<subseteq> fst ` set groups"
    and "chain_ok groups bg selected"
    and "prev = (if selected = [] then None else Some (tx_Nonce (last selected)))"
    and "\<And>n. n \<in> set nonces \<Longrightarrow> selected \<noteq> [] \<Longrightarrow> tx_Nonce (last selected) < n"
  shows "\<exists>chain decs. norm_loop groups bg stage nonces prev selected decisions = Some (chain, decs)
           \<and> chain_ok groups bg chain"
  using assms
proof (induction nonces arbitrary: prev selected decisions)
  case Nil
  then show ?case by simp
next
  case (Cons n ns)
  have grp: "gm_get0 [] groups n \<noteq> []" "\<And>tx. tx \<in> set (gm_get0 [] groups n) \<Longrightarrow> tx_Nonce tx = n"
    using groups_ok_get [OF Cons.prems(1), of n] Cons.prems(3) by auto
  then obtain best rest where srt: "sort_by tx_less (gm_get0 [] groups n) = best # rest"
    by (metis length_0_conv length_sort_by list.exhaust)
  then have mem: "best \<in> set (gm_get0 [] groups n)"
    by (metis list.set_intros(1) set_sort_by)
  then have nb: "tx_Nonce best = n" using grp by blast
  have least: "\<not> tx_less other best" if "other \<in> set (gm_get0 [] groups n)" for other
    using tx_cmp.sort_by_head_least [OF _ srt that] by (simp add: list_all_iff)
  show ?case
  proof (cases "(case prev of None \<Rightarrow> False | Some p \<Rightarrow> n > p + 1) \<or> (bg > 0 \<and> tx_GasLimit best > bg)")
    case True
    then show ?thesis using srt Cons.prems(4) by (auto simp: Let_def)
  next
    case False
    have "tx_Nonce (last selected) < n \<and> n = tx_Nonce (last selected) + 1" if "selected \<noteq> []"
      using that False Cons.prems(5,6) word_succ_unique by auto
    then have "consecutive (selected @ [best])"
      using Cons.prems(4) nb by (auto simp: chain_ok_def consecutive_def successively_append_iff)
    then have ok: "chain_ok groups bg (selected @ [best])"
      using Cons.prems(4) False mem least nb by (auto simp: chain_ok_def not_less)
    have "\<exists>chain decs. norm_loop groups bg stage ns (Some n) (selected @ [best])
        (decisions @ map (\<lambda>tx. rejectDecision tx ReasonReplacementConflict
            ''same sender and nonce; lower score'' stage) rest) = Some (chain, decs)
        \<and> chain_ok groups bg chain"
      using Cons.prems nb by (intro Cons.IH ok) auto
    then show ?thesis using srt False by (auto simp: Let_def)
  qed
qed

lemma strict_sorted_sort_by:
  "distinct xs \<Longrightarrow> sorted_wrt (<) (sort_by (<) (xs :: u64 list))"
  using sorted_sort_by_word by (simp add: strict_sorted_iff)

lemma normalizeSenderChain_ok:
  assumes "groups_ok groups" and "is_order ord"
  shows "\<exists>chain decs. normalizeSenderChain ord groups bg stage = Some (chain, decs)
           \<and> chain_ok groups bg chain"
proof -
  have "distinct (map fst (ord groups))"
    using assms(1) mset_eq_imp_distinct_iff [OF is_order_mset_map [OF assms(2)], of fst groups]
    by (simp add: groups_ok_def gm_ok_def)
  then show ?thesis
    unfolding normalizeSenderChain_def
    using assms is_order_set [OF assms(2), of groups]
    by (intro norm_loop_ok strict_sorted_sort_by)
      (auto simp: chain_ok_def consecutive_def)
qed

section \<open>What normalising a pool guarantees\<close>

lemma groups_ok_add:
  assumes "groups_ok groups"
  shows "groups_ok (gm_set groups (tx_Nonce tx) (gm_get0 [] groups (tx_Nonce tx) @ [tx]))"
proof -
  let ?n = "tx_Nonce tx"
  let ?v = "gm_get0 [] groups ?n @ [tx]"
  have ok: "gm_ok (gm_set groups ?n ?v)" using assms by (simp add: groups_ok_def)
  have old: "tx_Nonce t = ?n" if "t \<in> set (gm_get0 [] groups ?n)" for t
  proof -
    have "gm_get groups ?n \<noteq> None" using that by (cases "gm_get groups ?n") (simp_all add: gm_get0_def)
    then have "?n \<in> fst ` set groups" unfolding gm_get_None_iff by simp
    then show ?thesis using that groups_ok_get [OF assms] by blast
  qed
  have "txs \<noteq> [] \<and> (\<forall>t \<in> set txs. tx_Nonce t = k)" if "(k, txs) \<in> set (gm_set groups ?n ?v)" for k txs
  proof (cases "k = ?n")
    case True
    then have "txs = ?v" using that gm_get_in [OF ok, of k txs] by simp
    then show ?thesis using old True by auto
  next
    case False
    then have "gm_get groups k = Some txs" using that gm_get_in [OF ok, of k txs] by simp
    then have "(k, txs) \<in> set groups" by (rule gm_get_mem)
    then show ?thesis using assms by (auto simp: groups_ok_def)
  qed
  then show ?thesis unfolding groups_ok_def case_prod_beta using ok by (metis prod.collapse)
qed

lemma decode_nonces_groups:
  "groups_ok groups \<Longrightarrow>
   decode_nonces um sender nonces z baseFee bg stage keys groups decisions = Inr (groups', decisions')
     \<Longrightarrow> groups_ok groups'"
proof (induction keys arbitrary: groups decisions)
  case (Cons key keys)
  show ?case
  proof (cases "decodeTx um sender key (gm_get0 z nonces key) baseFee bg stage")
    case (DecodeTx tx)
    then show ?thesis
      using Cons.IH [OF groups_ok_add [OF Cons.prems(1)]] Cons.prems(2) by simp
  qed (use Cons in auto)
qed simp

lemma groups_ok_nil [simp]: "groups_ok []"
  by (simp add: groups_ok_def)

text \<open>A chain as the rest of the program sees it: consecutive nonces, gas within the block.\<close>

definition sender_chain_ok :: "u64 \<Rightarrow> Transaction list \<Rightarrow> bool" where
  "sender_chain_ok blockGasLimit chain \<longleftrightarrow>
     consecutive chain \<and>
     (\<forall>tx \<in> set chain. 0 < blockGasLimit \<longrightarrow> tx_GasLimit tx \<le> blockGasLimit)"

lemma norm_senders_ok:
  assumes "pool_orders_ok po" and "gm_ok out"
    and "\<And>s c. gm_get out s = Some c \<Longrightarrow> sender_chain_ok bg c"
  shows "\<exists>r. norm_senders po um z pool baseFee bg stage senders out decisions = Some r \<and>
           (\<forall>out' decs. r = Inr (out', decs) \<longrightarrow>
              gm_ok out' \<and> (\<forall>s c. gm_get out' s = Some c \<longrightarrow> sender_chain_ok bg c))"
  using assms(2,3)
proof (induction senders arbitrary: out decisions)
  case Nil
  then show ?case by simp
next
  case (Cons sender senders)
  let ?dec = "decode_nonces um sender (gm_get0 [] pool sender) z baseFee bg stage
     (sortedNonceKeys (po_nonces po) (gm_get0 [] pool sender)) [] decisions"
  show ?case
  proof (cases ?dec)
    case (Inl err)
    then show ?thesis by (simp add: Let_def)
  next
    case (Inr gd)
    obtain groups decs where gd: "gd = (groups, decs)" by (cases gd)
    then have "groups_ok groups" 
      using Inr by (auto intro: decode_nonces_groups [OF groups_ok_nil])
    then obtain chain cdecs where
        ch: "normalizeSenderChain (po_groups po) groups bg stage = Some (chain, cdecs)"
        and ok: "chain_ok groups bg chain"
      using normalizeSenderChain_ok assms(1) unfolding pool_orders_ok_def by blast
    have "sender_chain_ok bg chain" using ok by (auto simp: chain_ok_def sender_chain_ok_def)
    then have "\<And>s c. gm_get (gm_set out sender chain) s = Some c \<Longrightarrow> sender_chain_ok bg c"
      using Cons.prems(2) by (auto split: if_splits)
    then show ?thesis
      using Cons.IH [of "gm_set out sender chain" "decs @ cdecs"] Cons.prems(1) Inr gd ch
      by (simp add: Let_def)
  qed
qed

section \<open>Independence of map iteration order\<close>

definition nonce_key :: "string \<Rightarrow> nat \<times> nat \<times> string" where
  "nonce_key k = (case parseUintString k of Some n \<Rightarrow> (0, unat n, k) | None \<Rightarrow> (1, 0, k))"

definition key3_less :: "nat \<times> nat \<times> string \<Rightarrow> nat \<times> nat \<times> string \<Rightarrow> bool" where
  "key3_less x y = (case (x, y) of ((a, b, c), (a', b', c')) \<Rightarrow>
     a < a' \<or> a = a' \<and> (b < b' \<or> b = b' \<and> c < c'))"

lemma nonce_key_less_key3: "nonce_key_less j k \<longleftrightarrow> key3_less (nonce_key j) (nonce_key k)"
  by (auto simp: nonce_key_less_def nonce_key_def key3_less_def word_less_nat_alt word_unat_eq_iff
      split: option.split)

lemma nonce_key_inj: "nonce_key j = nonce_key k \<longleftrightarrow> j = k"
  by (auto simp: nonce_key_def split: option.splits)

interpretation nonce_key_order: total_order_on nonce_key_less "\<lambda>_. True"
proof unfold_locales
  have irr: "\<not> key3_less x x" for x by (auto simp: key3_less_def split: prod.splits)
  have tr: "key3_less x y \<Longrightarrow> key3_less y z \<Longrightarrow> key3_less x z" for x y z
    by (auto simp: key3_less_def split: prod.splits)
  have tot: "key3_less x y \<or> x = y \<or> key3_less y x" for x y
    by (cases x; cases y) (auto simp: key3_less_def not_less_iff_gr_or_eq)
  show "\<not> nonce_key_less x x" for x by (simp add: nonce_key_less_key3 irr)
  show "nonce_key_less x z" if "nonce_key_less x y" "nonce_key_less y z" for x y z
    using that tr unfolding nonce_key_less_key3 by blast
  show "nonce_key_less x y \<or> nonce_key_less y z" if "nonce_key_less x z" for x y z
    using that tr [of "nonce_key y" "nonce_key x" "nonce_key z"] tot [of "nonce_key x" "nonce_key y"]
    unfolding nonce_key_less_key3 by auto
  show "nonce_key_less x y \<or> x = y \<or> nonce_key_less y x" for x y
    using tot [of "nonce_key x" "nonce_key y"] nonce_key_inj unfolding nonce_key_less_key3 by blast
qed

lemma sortedNonceKeys_perm:
  "is_order ord \<Longrightarrow> is_order ord' \<Longrightarrow> sortedNonceKeys ord nonces = sortedNonceKeys ord' nonces"
  unfolding sortedNonceKeys_def
  by (rule nonce_key_order.sort_by_perm) (simp_all add: is_order_mset list_all_iff)

lemma normalizeSenderChain_perm:
  "is_order ord \<Longrightarrow> is_order ord' \<Longrightarrow>
     normalizeSenderChain ord groups bg stage = normalizeSenderChain ord' groups bg stage"
proof -
  assume "is_order ord" "is_order ord'"
  then have "sort_by (<) (map fst (ord groups)) = sort_by (<) (map fst (ord' groups))"
    by (intro word_lt.sort_by_perm) (simp_all add: is_order_mset list_all_iff)
  then show ?thesis by (simp add: normalizeSenderChain_def)
qed

lemma sortedPoolSenders_perm:
  "is_order ord \<Longrightarrow> is_order ord' \<Longrightarrow> sortedPoolSenders ord pool = sortedPoolSenders ord' pool"
  unfolding sortedPoolSenders_def by (rule sort_perm) (simp add: is_order_mset)

lemma norm_senders_perm:
  assumes "pool_orders_ok po" and "pool_orders_ok po'"
  shows "norm_senders po um z pool baseFee bg stage senders out decisions =
         norm_senders po' um z pool baseFee bg stage senders out decisions"
proof (induction senders arbitrary: out decisions)
  case (Cons sender senders)
  have "sortedNonceKeys (po_nonces po) ns = sortedNonceKeys (po_nonces po') ns" for ns
    using assms sortedNonceKeys_perm unfolding pool_orders_ok_def by blast
  moreover have "normalizeSenderChain (po_groups po) g bg stage =
      normalizeSenderChain (po_groups po') g bg stage" for g
    using assms normalizeSenderChain_perm unfolding pool_orders_ok_def by blast
  ultimately show ?case using Cons by (simp add: Let_def split: sum.split option.split prod.split)
qed simp


section \<open>Properties\<close>

definition demo_raw :: "string \<Rightarrow> rawTransaction" where
  "demo_raw h = \<lparr> rt_Hash = h, rt_From = ''alice'', rt_To = ''bob'', rt_Gas = ''0x5208'',
     rt_GasPrice = ''7'', rt_MaxFeePerGas = [], rt_MaxPriorityFeePerGas = [], rt_Value = ''0x1'',
     rt_Type = ''0x0'', rt_Input = ''0x'' \<rparr>"

definition demo_um :: "string \<Rightarrow> string + rawTransaction" where
  "demo_um h = Inr (demo_raw h)"

definition demo_pool :: "(string, (string, string) gomap) gomap" where
  "demo_pool = [(''alice'', [(''11'', ''h11''), (''9'', ''h9''), (''10'', ''h10'')])]"

definition demo_orders :: "string pool_orders" where
  "demo_orders = \<lparr> po_senders = rev, po_nonces = rev, po_groups = (\<lambda>xs. xs) \<rparr>"

text \<open>
  C21: normalising a pool never panics, whatever the pool holds; unless a transaction could not be
  unmarshalled, every sender's chain it returns has consecutive nonces without wrap-around
  and no transaction above the block gas limit.
\<close>

theorem normalizePool_chains_ok:
  assumes "pool_orders_ok po"
  shows "\<exists>r. normalizePool po um z pool baseFee bg stage = Some r \<and>
    (case r of Inl err \<Rightarrow> True
     | Inr (out, decs) \<Rightarrow> gm_ok out \<and> (\<forall>s c. gm_get out s = Some c \<longrightarrow> sender_chain_ok bg c))"
  using norm_senders_ok [OF assms gm_ok_nil, of bg um z pool baseFee stage
      "sortedPoolSenders (po_senders po) pool" "[]"]
  unfolding normalizePool_def by (fastforce split: sum.split)

theorem normalizePool_chains_ok_witness:
  "\<exists>r. normalizePool demo_orders demo_um [] demo_pool (Some 3) 30000000 ''pending'' = Some r \<and>
    (case r of Inl err \<Rightarrow> True
     | Inr (out, decs) \<Rightarrow> gm_ok out \<and> (\<forall>s c. gm_get out s = Some c \<longrightarrow> sender_chain_ok 30000000 c))"
  by (rule normalizePool_chains_ok) (simp add: pool_orders_ok_def demo_orders_def)

text \<open>
  two captures of the same pool agree: the chains and the decisions, in their order, do not
  depend on how the run time iterates over any of the maps.
\<close>

theorem normalizePool_order_independent:
  assumes "pool_orders_ok po" and "pool_orders_ok po'"
  shows "normalizePool po um z pool baseFee bg stage = normalizePool po' um z pool baseFee bg stage"
proof -
  have "sortedPoolSenders (po_senders po) pool = sortedPoolSenders (po_senders po') pool"
    using assms sortedPoolSenders_perm unfolding pool_orders_ok_def by blast
  then show ?thesis
    unfolding normalizePool_def using norm_senders_perm [OF assms] by simp
qed

theorem normalizePool_order_independent_witness:
  "normalizePool demo_orders demo_um [] demo_pool (Some 3) 30000000 ''pending'' =
   normalizePool (demo_orders\<lparr> po_nonces := (\<lambda>xs. xs) \<rparr>) demo_um [] demo_pool (Some 3) 30000000 ''pending''"
  by (rule normalizePool_order_independent) (simp_all add: pool_orders_ok_def demo_orders_def)

text \<open>
  a transaction that decoding accepts is well formed: its nonce is the one its key denotes,
  it has a hash, its gas is positive and within the block, and its score is its effective
  fee times its gas.
\<close>

theorem decodeTx_accepts_well_formed:
  assumes "decodeTx um sender key raw baseFee bg stage = DecodeTx tx"
  shows "parseUintString key = Some (tx_Nonce tx) \<and> tx_Hash tx \<noteq> [] \<and> 0 < tx_GasLimit tx \<and>
     (0 < bg \<longrightarrow> tx_GasLimit tx \<le> bg) \<and>
     (\<exists>fee. tx_EffectiveFee tx = Some fee \<and> tx_Score tx = Some (fee * uint (tx_GasLimit tx)))"
proof -
  obtain txraw nonce gas where
    fee: "resolveFeeFields (tx_from_raw sender nonce gas txraw) txraw baseFee = Inr tx"
    using assms unfolding decodeTx_def Let_def
    by (auto split: sum.splits option.splits if_splits)
  then show ?thesis
    using decodeTx_DecodeTx [OF assms] resolveFeeFields_score [OF fee] resolveFeeFields_frame [OF fee]
    by auto
qed

theorem decodeTx_accepts_well_formed_witness:
  "\<exists>tx. decodeTx demo_um ''alice'' ''9'' ''h9'' None 30000000 ''pending'' = DecodeTx tx \<and>
     parseUintString ''9'' = Some (tx_Nonce tx) \<and> tx_Hash tx \<noteq> [] \<and> 0 < tx_GasLimit tx \<and>
     (0 < (30000000 :: u64) \<longrightarrow> tx_GasLimit tx \<le> 30000000) \<and>
     (\<exists>fee. tx_EffectiveFee tx = Some fee \<and> tx_Score tx = Some (fee * uint (tx_GasLimit tx)))"
proof -
  have "parseUintString ''9'' = Some 9" "parseUintString ''0x5208'' = Some 21000"
      "parseBigIntString ''7'' = Some 7"
    by (simp_all add: parse_eval)
  then obtain tx where tx: "decodeTx demo_um ''alice'' ''9'' ''h9'' None 30000000 ''pending'' = DecodeTx tx"
    by (simp add: decodeTx_def demo_um_def demo_raw_def resolveFeeFields_def)
  show ?thesis using tx decodeTx_accepts_well_formed [OF tx] by (intro exI [of _ tx] conjI) blast+
qed

end
