(* ===== verification/Tx_Config.thy ===== *)
theory Tx_Config
  imports Tx_Model
begin

text \<open>
  The configuration of the transaction-pool builder: \<^verbatim>\<open>txpool-builder/v2/internal/config/config.go\<close>.
  \<open>Validate\<close> is the whole check in the order of its cases. The readers of environment variables
  take the value of the variable (\<open>[]\<close> when unset, as \<^verbatim>\<open>os.Getenv\<close> returns) and, where a
  package of Go parses it, that parser as an argument.
\<close>

record TxConfig =
  cf_ListenAddr :: string
  cf_RPCURL :: string
  cf_OutputDir :: string
  cf_PolicyVersion :: string
  cf_ChainID :: "int option"
  cf_RefreshInterval :: duration
  cf_RequestTimeout :: duration
  cf_AdmissionTimeout :: duration
  cf_QueueSize :: int
  cf_WorkerCount :: int
  cf_MaxRetainedJobs :: int
  cf_MaxRetainedSnap :: int
  cf_MaxArtifactBytes :: int
  cf_MaxTraceBytes :: int
  cf_MaxSnapshotBytes :: int
  cf_MaxSnapshotAge :: duration
  cf_MaxRPCPerRequest :: int
  cf_MaxRetryAttempts :: int
  cf_IncludeQueued :: bool
  cf_AllowHeadDrift :: bool
  cf_Strict :: bool
  cf_NoWrite :: bool
  cf_DryRunConfig :: bool
  cf_PrintConfig :: bool
  cf_Version :: bool
  cf_MaxGas :: u64
  cf_MaxTransactions :: int
  cf_LowPriorityAllowed :: bool

definition Validate :: "TxConfig \<Rightarrow> string option" where
  "Validate cfg =
     (if cf_ListenAddr cfg = [] then Some ''listen address is required''
      else if cf_RPCURL cfg = [] then Some ''rpc url is required''
      else if cf_OutputDir cfg = [] then Some ''output dir is required''
      else if cf_PolicyVersion cfg = [] then Some ''policy version is required''
      else if (case cf_ChainID cfg of None \<Rightarrow> True | Some c \<Rightarrow> c \<le> 0) then Some ''chain id is required''
      else if cf_RefreshInterval cfg \<le> 0 then Some ''refresh interval must be positive''
      else if cf_RequestTimeout cfg \<le> 0 then Some ''request timeout must be positive''
      else if cf_AdmissionTimeout cfg \<le> 0 then Some ''admission timeout must be positive''
      else if cf_QueueSize cfg \<le> 0 then Some ''queue size must be positive''
      else if cf_WorkerCount cfg \<le> 0 then Some ''workers must be positive''
      else if cf_MaxRetainedJobs cfg \<le> 0 then Some ''max retained jobs must be positive''
      else if cf_MaxRetainedSnap cfg \<le> 0 then Some ''max retained snapshots must be positive''
      else if cf_MaxArtifactBytes cfg \<le> 0 then Some ''max artifact bytes must be positive''
      else if cf_MaxTraceBytes cfg \<le> 0 then Some ''max trace bytes must be positive''
      else if cf_MaxSnapshotBytes cfg \<le> 0 then Some ''max snapshot bytes must be positive''
      else if cf_MaxSnapshotAge cfg \<le> 0 then Some ''max snapshot age must be positive''
      else if cf_MaxRPCPerRequest cfg \<le> 0 then Some ''max rpc per request must be positive''
      else if cf_MaxRetryAttempts cfg < 0 then Some ''max retry attempts cannot be negative''
      else if cf_MaxTransactions cfg \<le> 0 then Some ''max transactions must be positive''
      else if cf_MaxGas cfg > 0 \<and> cf_MaxTransactions cfg = 0
        then Some ''max transactions must be positive when max gas is set''
      else None)"

text \<open>Unlike its namesake in the service package this one does not trim what it returns.\<close>

fun cfg_firstNonEmpty :: "string list \<Rightarrow> string" where
  "cfg_firstNonEmpty [] = []"
| "cfg_firstNonEmpty (v # vs) = (if TrimSpace v \<noteq> [] then v else cfg_firstNonEmpty vs)"

definition cfg_parseBigInt :: "string \<Rightarrow> int option" where
  "cfg_parseBigInt s0 =
     (let s = TrimSpace s0 in
      if s = [] then None
      else if HasPrefix s ''0x'' \<or> HasPrefix s ''0X'' then SetString 16 (drop 2 s)
      else SetString 10 s)"

definition durationEnv :: "(string \<Rightarrow> duration option) \<Rightarrow> string \<Rightarrow> duration \<Rightarrow> duration" where
  "durationEnv parseDuration v fallback =
     (if v \<noteq> [] then (case parseDuration v of Some d \<Rightarrow> d | None \<Rightarrow> fallback) else fallback)"

text \<open>
  \<^verbatim>\<open>strconv.Atoi\<close> and \<^verbatim>\<open>strconv.ParseInt(v, 10, 64)\<close>: an optional sign, decimal digits, in range.
\<close>

definition ParseInt64 :: "string \<Rightarrow> int option" where
  "ParseInt64 v =
     (case SetString 10 v of
        None \<Rightarrow> None
      | Some n \<Rightarrow> if min_int64 \<le> n \<and> n \<le> max_int64 then Some n else None)"

definition intEnv :: "string \<Rightarrow> int \<Rightarrow> int" where
  "intEnv v fallback =
     (if v \<noteq> [] then (case ParseInt64 v of Some n \<Rightarrow> n | None \<Rightarrow> fallback) else fallback)"

definition int64Env :: "string \<Rightarrow> int \<Rightarrow> int" where
  "int64Env v fallback =
     (if v \<noteq> [] then (case ParseInt64 v of Some n \<Rightarrow> n | None \<Rightarrow> fallback) else fallback)"

definition uint64Env :: "string \<Rightarrow> u64 \<Rightarrow> u64" where
  "uint64Env v fallback =
     (if v \<noteq> [] then (case ParseUint 10 v of Some n \<Rightarrow> n | None \<Rightarrow> fallback) else fallback)"

definition boolEnv :: "string \<Rightarrow> bool \<Rightarrow> bool" where
  "boolEnv v fallback =
     (if v \<noteq> [] then
        (let w = ToLower (TrimSpace v) in
         if w \<in> {''1'', ''true'', ''yes'', ''on''} then True
         else if w \<in> {''0'', ''false'', ''no'', ''off''} then False
         else fallback)
      else fallback)"

text \<open>The fingerprint of a configuration: the hex digest of its JSON text.\<close>

definition Digest :: "(string \<Rightarrow> string) \<Rightarrow> (TxConfig \<Rightarrow> string) \<Rightarrow> TxConfig \<Rightarrow> string" where
  "Digest sha256hex marshal cfg = sha256hex (marshal cfg)"

section \<open>Loading\<close>

text \<open>
  The parsed command line, one field per flag, \<open>default_flags\<close> its value when no flag is given
  (\<open>workers\<close> depends on the number of processors). \<open>getenv\<close> is \<^verbatim>\<open>os.Getenv\<close>.
\<close>

record TxFlags =
  fg_listen :: string
  fg_rpc_url :: string
  fg_output_dir :: string
  fg_policy_version :: string
  fg_chain_id :: string
  fg_refresh_interval :: duration
  fg_request_timeout :: duration
  fg_admission_timeout :: duration
  fg_queue_size :: int
  fg_workers :: int
  fg_max_retained_jobs :: int
  fg_max_retained_snapshots :: int
  fg_max_artifact_bytes :: int
  fg_max_trace_bytes :: int
  fg_max_snapshot_bytes :: int
  fg_max_snapshot_age :: duration
  fg_max_rpc_per_request :: int
  fg_max_retry_attempts :: int
  fg_max_gas :: u64
  fg_max_transactions :: int
  fg_include_queued :: bool
  fg_allow_head_drift :: bool
  fg_strict :: bool
  fg_no_write :: bool
  fg_print_config :: bool
  fg_dry_run_config :: bool
  fg_version :: bool

definition default_flags :: "int \<Rightarrow> TxFlags" where
  "default_flags numCPU = \<lparr> fg_listen = '':8080'', fg_rpc_url = [], fg_output_dir = ''./out'',
     fg_policy_version = ''v2'', fg_chain_id = [], fg_refresh_interval = 5 * second,
     fg_request_timeout = 30 * second, fg_admission_timeout = 250 * millisecond,
     fg_queue_size = 1024, fg_workers = max 2 (go_div numCPU 2), fg_max_retained_jobs = 1024,
     fg_max_retained_snapshots = 4, fg_max_artifact_bytes = 8 * 2 ^ 20, fg_max_trace_bytes = 2 * 2 ^ 20,
     fg_max_snapshot_bytes = 32 * 2 ^ 20, fg_max_snapshot_age = 15 * second,
     fg_max_rpc_per_request = 1, fg_max_retry_attempts = 2, fg_max_gas = 0, fg_max_transactions = 64,
     fg_include_queued = False, fg_allow_head_drift = False, fg_strict = True, fg_no_write = False,
     fg_print_config = False, fg_dry_run_config = False, fg_version = False \<rparr>"

definition Load ::
  "(string \<Rightarrow> duration option) \<Rightarrow> (string \<Rightarrow> string) \<Rightarrow> TxFlags \<Rightarrow> string + TxConfig" where
  "Load parseDuration getenv fg =
     (let denv = (\<lambda>key. durationEnv parseDuration (getenv (''TXPOOL_BUILDER_'' @ key)));
          ienv = (\<lambda>key. intEnv (getenv (''TXPOOL_BUILDER_'' @ key)));
          lenv = (\<lambda>key. int64Env (getenv (''TXPOOL_BUILDER_'' @ key)));
          benv = (\<lambda>key. boolEnv (getenv (''TXPOOL_BUILDER_'' @ key)));
          chainIDEnv = cfg_firstNonEmpty [fg_chain_id fg, getenv ''TXPOOL_BUILDER_CHAIN_ID''];
          cfg = \<lparr>
            cf_ListenAddr = cfg_firstNonEmpty [fg_listen fg, getenv ''TXPOOL_BUILDER_LISTEN''],
            cf_RPCURL = cfg_firstNonEmpty [fg_rpc_url fg, getenv ''TXPOOL_BUILDER_RPC_URL'',
                                           getenv ''GETH_RPC_URL''],
            cf_OutputDir = cfg_firstNonEmpty [fg_output_dir fg, getenv ''TXPOOL_BUILDER_OUTPUT_DIR'',
                                              ''./out''],
            cf_PolicyVersion = cfg_firstNonEmpty [fg_policy_version fg,
                                 getenv ''TXPOOL_BUILDER_POLICY_VERSION'', ''v2''],
            cf_ChainID = (if chainIDEnv \<noteq> [] then cfg_parseBigInt chainIDEnv else None),
            cf_RefreshInterval = denv ''REFRESH_INTERVAL'' (fg_refresh_interval fg),
            cf_RequestTimeout = denv ''REQUEST_TIMEOUT'' (fg_request_timeout fg),
            cf_AdmissionTimeout = denv ''ADMISSION_TIMEOUT'' (fg_admission_timeout fg),
            cf_QueueSize = ienv ''QUEUE_SIZE'' (fg_queue_size fg),
            cf_WorkerCount = ienv ''WORKERS'' (fg_workers fg),
            cf_MaxRetainedJobs = ienv ''MAX_RETAINED_JOBS'' (fg_max_retained_jobs fg),
            cf_MaxRetainedSnap = ienv ''MAX_RETAINED_SNAPSHOTS'' (fg_max_retained_snapshots fg),
            cf_MaxArtifactBytes = lenv ''MAX_ARTIFACT_BYTES'' (fg_max_artifact_bytes fg),
            cf_MaxTraceBytes = lenv ''MAX_TRACE_BYTES'' (fg_max_trace_bytes fg),
            cf_MaxSnapshotBytes = lenv ''MAX_SNAPSHOT_BYTES'' (fg_max_snapshot_bytes fg),
            cf_MaxSnapshotAge = denv ''MAX_SNAPSHOT_AGE'' (fg_max_snapshot_age fg),
            cf_MaxRPCPerRequest = ienv ''MAX_RPC_PER_REQUEST'' (fg_max_rpc_per_request fg),
            cf_MaxRetryAttempts = ienv ''MAX_RETRY_ATTEMPTS'' (fg_max_retry_attempts fg),
            cf_IncludeQueued = benv ''INCLUDE_QUEUED'' (fg_include_queued fg),
            cf_AllowHeadDrift = benv ''ALLOW_HEAD_DRIFT'' (fg_allow_head_drift fg),
            cf_Strict = benv ''STRICT'' (fg_strict fg),
            cf_NoWrite = benv ''NO_WRITE'' (fg_no_write fg),
            cf_DryRunConfig = benv ''DRY_RUN_CONFIG'' (fg_dry_run_config fg),
            cf_PrintConfig = benv ''PRINT_CONFIG'' (fg_print_config fg),
            cf_Version = benv ''VERSION'' (fg_version fg),
            cf_MaxGas = uint64Env (getenv ''TXPOOL_BUILDER_MAX_GAS'') (fg_max_gas fg),
            cf_MaxTransactions = ienv ''MAX_TRANSACTIONS'' (fg_max_transactions fg),
            cf_LowPriorityAllowed = False \<rparr>
      in case Validate cfg of Some err \<Rightarrow> Inl err | None \<Rightarrow> Inr cfg)"

section \<open>What a validated configuration guarantees\<close>

text \<open>What the service relies on: no slice or channel is made with a negative size.\<close>

definition cfg_ok :: "TxConfig \<Rightarrow> bool" where
  "cfg_ok cfg \<longleftrightarrow> 0 < cf_QueueSize cfg \<and> 0 < cf_WorkerCount cfg \<and> 0 < cf_MaxRetainedJobs cfg \<and>
     0 < cf_MaxRetainedSnap cfg \<and> 0 < cf_MaxTransactions cfg \<and> 0 < cf_MaxSnapshotAge cfg \<and>
     0 < cf_RefreshInterval cfg \<and> (\<exists>c > 0. cf_ChainID cfg = Some c)"

lemma Validate_cfg_ok: "Validate cfg = None \<Longrightarrow> cfg_ok cfg"
  by (simp add: Validate_def cfg_ok_def not_le split: if_splits option.splits)


lemma Load_cfg_ok: "Load parseDuration getenv fg = Inr cfg \<Longrightarrow> cfg_ok cfg"
  unfolding Load_def Let_def by (auto intro: Validate_cfg_ok split: option.splits)

end
