(* ===== verification/Tx_Service.thy ===== *)
theory Tx_Service
  imports Tx_Select Tx_Snapshot Tx_Config
begin

text \<open>
  The build service of \<^verbatim>\<open>txpool-builder/v2/internal/service\<close>: admission (\<^verbatim>\<open>queue.go\<close>), the worker
  (\<^verbatim>\<open>build_process.go\<close>, \<^verbatim>\<open>build_candidate.go\<close>), the retained state (\<^verbatim>\<open>service.go\<close>).

  The record \<open>TxService\<close> is the mutable part of \<^verbatim>\<open>Service\<close>; the buffered channel \<^verbatim>\<open>queue\<close> is a
  list of at most \<open>cf_QueueSize\<close> envelopes. Every critical section is one function, so
  \<open>submit_admit\<close> and \<open>submit_enqueue\<close> are the two halves of \<open>Submit\<close> between which other
  goroutines may run, and \<open>process_begin\<close>, \<open>process_end\<close> those of \<open>processJob\<close>.
  \<open>clk i\<close> is the \<open>i\<close>-th reading of the clock in a call. SHA-256 (as a hex digest), JSON
  encoding and the file system are parameters.
\<close>

section \<open>State\<close>

record BuildRequest =
  br_RequestID :: string
  br_IdempotencyKey :: string
  br_PriorityClass :: string
  br_PolicyVersion :: string

datatype JobState = JobReceived | JobQueued | JobRunning | JobCompleted | JobFailed | JobShed | JobDelayed

record BuildResponse =
  rs_RequestID :: string
  rs_JobID :: string
  rs_State :: JobState
  rs_ReasonCode :: ReasonCode
  rs_ReasonDetail :: string
  rs_RetryAfterMS :: int
  rs_SnapshotID :: string
  rs_ResultURI :: string
  rs_TraceURI :: string

record JobRecord =
  jb_JobID :: string
  jb_RequestID :: string
  jb_IdempotencyKey :: string
  jb_PriorityClass :: string
  jb_PolicyVersion :: string
  jb_State :: JobState
  jb_SnapshotID :: string
  jb_ReasonCode :: ReasonCode
  jb_ReasonDetail :: string
  jb_CreatedAt :: gtime
  jb_StartedAt :: gtime
  jb_CompletedAt :: gtime
  jb_RetryAfterMS :: int

record TxResult =
  re_JobID :: string
  re_RequestID :: string
  re_SnapshotID :: string
  re_ArtifactURI :: string
  re_TraceURI :: string
  re_Candidate :: Candidate
  re_Trace :: Trace
  re_State :: JobState
  re_ReasonCode :: ReasonCode
  re_ReasonDetail :: string
  re_CreatedAt :: gtime
  re_CompletedAt :: gtime

record idempotencyRecord =
  id_JobID :: string
  id_RequestID :: string
  id_CreatedAt :: gtime
  id_ExpiresAt :: gtime

record snapshotRecord =
  sr_Snapshot :: TxSnapshot
  sr_Decisions :: "TxDecision list"
  sr_CreatedAt :: gtime
  sr_Path :: string

record jobEnvelope =
  je_Request :: BuildRequest
  je_JobID :: string

record TxService =
  sv_cfg :: TxConfig
  sv_queue :: "jobEnvelope list"
  sv_jobs :: "(string, JobRecord) gomap"
  sv_results :: "(string, TxResult) gomap"
  sv_idempotency :: "(string, idempotencyRecord) gomap"
  sv_snapshots :: "snapshotRecord list"
  sv_current :: "TxSnapshot option"
  sv_buildsCompleted :: int
  sv_buildsFailed :: int
  sv_shedCount :: int

definition New_TxService :: "TxConfig \<Rightarrow> TxService" where
  "New_TxService cfg = \<lparr> sv_cfg = cfg, sv_queue = [], sv_jobs = [], sv_results = [],
     sv_idempotency = [], sv_snapshots = [], sv_current = None,
     sv_buildsCompleted = 0, sv_buildsFailed = 0, sv_shedCount = 0 \<rparr>"

section \<open>Identifiers, priorities, freshness\<close>

definition deterministicID :: "(string \<Rightarrow> string) \<Rightarrow> string list \<Rightarrow> string" where
  "deterministicID sha256hex parts = take 24 (sha256hex (concat (map (\<lambda>p. p @ [CHR 0x00]) parts)))"

definition normalizePriorityClass :: "string \<Rightarrow> string" where
  "normalizePriorityClass cls =
     (let c = ToLower (TrimSpace cls) in
      if c = ''high'' then ''high'' else if c = ''low'' then ''low'' else ''normal'')"

definition snapshotFreshEnough :: "gtime \<Rightarrow> TxSnapshot option \<Rightarrow> duration \<Rightarrow> bool" where
  "snapshotFreshEnough now snap maxAge =
     (case snap of
        None \<Rightarrow> False
      | Some s \<Rightarrow> sn_SnapshotID s \<noteq> [] \<and> time_sub now (sn_CapturedAt s) \<le> maxAge)"

section \<open>Retained state\<close>

definition snapshotRecordByID :: "TxService \<Rightarrow> string \<Rightarrow> snapshotRecord option" where
  "snapshotRecordByID s snapshotID =
     (if snapshotID = [] then None
      else find (\<lambda>r. sn_SnapshotID (sr_Snapshot r) = snapshotID) (rev (sv_snapshots s)))"

definition snapshotByID :: "TxService \<Rightarrow> string \<Rightarrow> TxSnapshot option" where
  "snapshotByID s snapshotID =
     (if snapshotID = [] then None
      else case sv_current s of
             Some c \<Rightarrow> if sn_SnapshotID c = snapshotID then Some c
                       else map_option sr_Snapshot
                              (find (\<lambda>r. sn_SnapshotID (sr_Snapshot r) = snapshotID) (rev (sv_snapshots s)))
           | None \<Rightarrow> map_option sr_Snapshot
                       (find (\<lambda>r. sn_SnapshotID (sr_Snapshot r) = snapshotID) (rev (sv_snapshots s))))"

definition recordSnapshot ::
  "gtime \<Rightarrow> TxSnapshot \<Rightarrow> TxDecision list \<Rightarrow> string \<Rightarrow> TxService \<Rightarrow> TxService" where
  "recordSnapshot now snap decisions path s =
     (let snaps = sv_snapshots s @ [\<lparr> sr_Snapshot = snap, sr_Decisions = decisions,
                                      sr_CreatedAt = now, sr_Path = path \<rparr>];
          s1 = s\<lparr> sv_current := Some snap, sv_snapshots := snaps \<rparr>
      in if int (length snaps) \<le> cf_MaxRetainedSnap (sv_cfg s) then s1
         else s1\<lparr> sv_snapshots :=
                drop (nat (int (length snaps) - cf_MaxRetainedSnap (sv_cfg s))) snaps \<rparr>)"

definition recordResult :: "TxResult option \<Rightarrow> TxService \<Rightarrow> TxService" where
  "recordResult res s =
     (case res of None \<Rightarrow> s
      | Some r \<Rightarrow> s\<lparr> sv_results := gm_set (sv_results s) (re_JobID r) r \<rparr>)"

definition failJob :: "gtime \<Rightarrow> string \<Rightarrow> ReasonCode \<Rightarrow> string \<Rightarrow> TxService \<Rightarrow> TxService" where
  "failJob now jobID code detail s =
     (case gm_get (sv_jobs s) jobID of
        None \<Rightarrow> s
      | Some job \<Rightarrow> s\<lparr> sv_jobs := gm_set (sv_jobs s) jobID
          (job\<lparr> jb_State := JobFailed, jb_ReasonCode := code, jb_ReasonDetail := detail,
               jb_CompletedAt := now \<rparr>) \<rparr>)"

definition completeJob :: "gtime \<Rightarrow> string \<Rightarrow> TxService \<Rightarrow> TxService" where
  "completeJob now jobID s =
     (case gm_get (sv_jobs s) jobID of
        None \<Rightarrow> s
      | Some job \<Rightarrow> s\<lparr> sv_jobs := gm_set (sv_jobs s) jobID
          (job\<lparr> jb_State := JobCompleted, jb_CompletedAt := now, jb_ReasonCode := NoReason,
               jb_ReasonDetail := [] \<rparr>) \<rparr>)"

definition job_time_less :: "JobRecord \<Rightarrow> JobRecord \<Rightarrow> bool" where
  "job_time_less a b =
     (if jb_CompletedAt a = jb_CompletedAt b then jb_CreatedAt a < jb_CreatedAt b
      else jb_CompletedAt a < jb_CompletedAt b)"

definition sortJobsByTime :: "JobRecord list \<Rightarrow> JobRecord list" where
  "sortJobsByTime jobs = sort_by job_time_less jobs"

definition pruneIdempotencyLocked :: "gtime \<Rightarrow> TxService \<Rightarrow> TxService" where
  "pruneIdempotencyLocked now s =
     s\<lparr> sv_idempotency := filter (\<lambda>(key, r). \<not> now > id_ExpiresAt r) (sv_idempotency s) \<rparr>"

definition job_finished :: "JobRecord \<Rightarrow> bool" where
  "job_finished j = (jb_State j = JobCompleted \<or> jb_State j = JobFailed \<or> jb_State j = JobShed)"

fun prune_jobs :: "JobRecord list \<Rightarrow> TxService \<Rightarrow> TxService" where
  "prune_jobs [] s = s"
| "prune_jobs (old # completed) s =
     (if int (gm_len (sv_jobs s)) > cf_MaxRetainedJobs (sv_cfg s)
      then prune_jobs completed
             (s\<lparr> sv_jobs := gm_del (sv_jobs s) (jb_JobID old),
                sv_results := gm_del (sv_results s) (jb_JobID old),
                sv_idempotency := gm_del (sv_idempotency s) (jb_IdempotencyKey old) \<rparr>)
      else s)"

definition tx_pruneLocked ::
  "((string \<times> JobRecord) list \<Rightarrow> (string \<times> JobRecord) list) \<Rightarrow> gtime \<Rightarrow> TxService \<Rightarrow> TxService" where
  "tx_pruneLocked ord now s =
     (if cf_MaxRetainedJobs (sv_cfg s) \<le> 0 then s
      else if int (gm_len (sv_jobs s)) \<le> cf_MaxRetainedJobs (sv_cfg s)
      then pruneIdempotencyLocked now s
      else let completed = filter job_finished (map snd (ord (sv_jobs s)))
           in if completed = [] then pruneIdempotencyLocked now s
              else pruneIdempotencyLocked now (prune_jobs (sortJobsByTime completed) s))"

section \<open>Admission\<close>

datatype submit_result = SubmitErr int string | SubmitResp int BuildResponse

definition known_response :: "string \<Rightarrow> TxService \<Rightarrow> JobRecord \<Rightarrow> BuildResponse" where
  "known_response reqID s job =
     \<lparr> rs_RequestID = reqID, rs_JobID = jb_JobID job, rs_State = jb_State job,
       rs_ReasonCode = jb_ReasonCode job, rs_ReasonDetail = jb_ReasonDetail job,
       rs_RetryAfterMS = jb_RetryAfterMS job, rs_SnapshotID = jb_SnapshotID job,
       rs_ResultURI = (case gm_get (sv_results s) (jb_JobID job) of
                         None \<Rightarrow> [] | Some r \<Rightarrow> re_ArtifactURI r),
       rs_TraceURI = (case gm_get (sv_results s) (jb_JobID job) of
                        None \<Rightarrow> [] | Some r \<Rightarrow> re_TraceURI r) \<rparr>"

definition norm_request :: "TxService \<Rightarrow> BuildRequest \<Rightarrow> BuildRequest" where
  "norm_request s req =
     (let req1 = req\<lparr> br_PriorityClass := normalizePriorityClass (br_PriorityClass req) \<rparr>
      in if br_PolicyVersion req1 = [] then req1\<lparr> br_PolicyVersion := cf_PolicyVersion (sv_cfg s) \<rparr>
         else req1)"

definition request_id :: "(string \<Rightarrow> string) \<Rightarrow> BuildRequest \<Rightarrow> string" where
  "request_id sha256hex req = deterministicID sha256hex
     [''request'', br_IdempotencyKey req, br_PriorityClass req, br_PolicyVersion req]"

text \<open>The duplicate found under the lock: an unexpired key whose job is still retained.\<close>

definition known_job :: "gtime \<Rightarrow> TxService \<Rightarrow> string \<Rightarrow> JobRecord option" where
  "known_job now s key =
     (case gm_get (sv_idempotency s) key of
        None \<Rightarrow> None
      | Some r \<Rightarrow> if now < id_ExpiresAt r then gm_get (sv_jobs s) (id_JobID r) else None)"

text \<open>The critical section of \<^verbatim>\<open>Submit\<close>: either an answer, or an admitted job still to be queued.\<close>

definition submit_admit ::
  "(string \<Rightarrow> string) \<Rightarrow> ((string \<times> JobRecord) list \<Rightarrow> (string \<times> JobRecord) list) \<Rightarrow>
     (nat \<Rightarrow> gtime) \<Rightarrow> BuildRequest \<Rightarrow> TxService \<Rightarrow> (submit_result + JobRecord) \<times> TxService" where
  "submit_admit sha256hex ord clk req s =
     (let reqID = request_id sha256hex req in
      case known_job (clk 0) s (br_IdempotencyKey req) of
        Some job \<Rightarrow> (Inl (SubmitResp 202 (known_response reqID s job)), s)
      | None \<Rightarrow>
        (case sv_current s of
           None \<Rightarrow> (Inl (SubmitErr 503 ''no fresh snapshot available''), s)
         | Some snapshot \<Rightarrow>
           if \<not> snapshotFreshEnough (clk 1) (sv_current s) (cf_MaxSnapshotAge (sv_cfg s))
           then (Inl (SubmitErr 503 ''snapshot too old''), s)
           else if int (length (sv_queue s)) \<ge> cf_QueueSize (sv_cfg s)
           then (Inl (SubmitErr 429 ''queue full''), s\<lparr> sv_shedCount := sv_shedCount s + 1 \<rparr>)
           else
             let jobID = deterministicID sha256hex
                   [''job'', reqID, br_IdempotencyKey req, br_PriorityClass req, sn_SnapshotID snapshot];
                 job = \<lparr> jb_JobID = jobID, jb_RequestID = reqID,
                         jb_IdempotencyKey = br_IdempotencyKey req,
                         jb_PriorityClass = br_PriorityClass req,
                         jb_PolicyVersion = br_PolicyVersion req, jb_State = JobQueued,
                         jb_SnapshotID = sn_SnapshotID snapshot, jb_ReasonCode = NoReason,
                         jb_ReasonDetail = [], jb_CreatedAt = clk 2, jb_StartedAt = 0,
                         jb_CompletedAt = 0, jb_RetryAfterMS = 0 \<rparr>;
                 s1 = s\<lparr> sv_jobs := gm_set (sv_jobs s) jobID job,
                        sv_idempotency := gm_set (sv_idempotency s) (br_IdempotencyKey req)
                          \<lparr> id_JobID = jobID, id_RequestID = reqID, id_CreatedAt = clk 3,
                            id_ExpiresAt = clk 4 + 1800 * second \<rparr> \<rparr>
             in (Inr job, tx_pruneLocked ord (clk 5) s1)))"

text \<open>The send that never blocks: the envelope is queued, or the job is shed.\<close>

definition submit_enqueue ::
  "gtime \<Rightarrow> BuildRequest \<Rightarrow> JobRecord \<Rightarrow> TxService \<Rightarrow> submit_result \<times> TxService" where
  "submit_enqueue now req job s =
     (let resp = \<lparr> rs_RequestID = jb_RequestID job, rs_JobID = jb_JobID job, rs_State = JobQueued,
                   rs_ReasonCode = NoReason, rs_ReasonDetail = [], rs_RetryAfterMS = 0,
                   rs_SnapshotID = jb_SnapshotID job, rs_ResultURI = [], rs_TraceURI = [] \<rparr>
      in if int (length (sv_queue s)) < cf_QueueSize (sv_cfg s)
         then (SubmitResp 202 resp,
               s\<lparr> sv_queue := sv_queue s @ [\<lparr> je_Request = req, je_JobID = jb_JobID job \<rparr>] \<rparr>)
         else
           let s1 = s\<lparr> sv_shedCount := sv_shedCount s + 1 \<rparr>;
               s2 = (case gm_get (sv_jobs s1) (jb_JobID job) of
                       None \<Rightarrow> s1
                     | Some j \<Rightarrow> s1\<lparr> sv_jobs := gm_set (sv_jobs s1) (jb_JobID job)
                         (j\<lparr> jb_State := JobShed, jb_ReasonCode := ReasonCapacityExcluded,
                            jb_ReasonDetail := ''queue full'', jb_CompletedAt := now \<rparr>) \<rparr>)
           in (SubmitResp 429 (resp\<lparr> rs_State := JobShed, rs_ReasonCode := ReasonCapacityExcluded,
                                    rs_ReasonDetail := ''queue full'' \<rparr>), s2))"

definition tx_Submit ::
  "(string \<Rightarrow> string) \<Rightarrow> ((string \<times> JobRecord) list \<Rightarrow> (string \<times> JobRecord) list) \<Rightarrow>
     (nat \<Rightarrow> gtime) \<Rightarrow> BuildRequest \<Rightarrow> TxService \<Rightarrow> submit_result \<times> TxService" where
  "tx_Submit sha256hex ord clk req0 s =
     (if TrimSpace (br_IdempotencyKey req0) = []
      then (SubmitErr 400 ''idempotency_key is required'', s)
      else let req = norm_request s req0 in
           case submit_admit sha256hex ord clk req s of
             (Inl r, s1) \<Rightarrow> (r, s1)
           | (Inr job, s1) \<Rightarrow> submit_enqueue (clk 6) req job s1)"

section \<open>The worker\<close>

definition sum_gas :: "Transaction list \<Rightarrow> u64" where
  "sum_gas txs = foldl (\<lambda>acc tx. acc + tx_GasLimit tx) 0 txs"

definition sum_revenue :: "Transaction list \<Rightarrow> int" where
  "sum_revenue txs =
     foldl (\<lambda>acc tx. case tx_Score tx of None \<Rightarrow> acc | Some x \<Rightarrow> acc + x) 0 txs"

text \<open>What building a candidate takes from outside the model.\<close>

record build_env =
  be_sha :: "string \<Rightarrow> string"
  be_marshalCfg :: "TxConfig \<Rightarrow> string"
  be_ordSenders :: "(string \<times> Transaction list) list \<Rightarrow> (string \<times> Transaction list) list"
  be_ordNonces :: "(u64 \<times> Transaction) list \<Rightarrow> (u64 \<times> Transaction) list"
  be_ordChains :: "(string \<times> Transaction list) list \<Rightarrow> (string \<times> Transaction list) list"
  be_ordJobs :: "(string \<times> JobRecord) list \<Rightarrow> (string \<times> JobRecord) list"
  be_persist :: "TxConfig \<Rightarrow> Candidate \<Rightarrow> Trace \<Rightarrow> TxSnapshot \<Rightarrow> string + (string \<times> string)"

definition build_env_ok :: "build_env \<Rightarrow> bool" where
  "build_env_ok be \<longleftrightarrow> is_order (be_ordSenders be) \<and> is_order (be_ordNonces be) \<and>
     is_order (be_ordChains be) \<and> is_order (be_ordJobs be)"

definition tx_BinaryVersion :: string where
  "tx_BinaryVersion = ''v2-dev''"

definition buildCandidate ::
  "build_env \<Rightarrow> TxConfig \<Rightarrow> BuildRequest \<Rightarrow> TxSnapshot \<Rightarrow> TxDecision list \<Rightarrow> gtime \<Rightarrow> (nat \<Rightarrow> gtime) \<Rightarrow>
     (Candidate \<times> Trace) option" where
  "buildCandidate be cfg req snapshot snapshotDecisions startedAt clk =
     (let cfgDigest = Digest (be_sha be) (be_marshalCfg be) cfg;
          chs = buildChains (be_ordSenders be) (be_ordNonces be) snapshot (cf_IncludeQueued cfg)
      in case selectTransactions (be_ordChains be) chs (cf_MaxGas cfg) (cf_MaxTransactions cfg) of
           None \<Rightarrow> None
         | Some (selected, accepted, rejected, rankingOrder, stopReason) \<Rightarrow>
           (let allRejected = snapshotDecisions @ rejected;
                summary = countReasons allRejected;
                selectedHashes = hashesOf selected;
                candidateID = deterministicID (be_sha be)
                  [''candidate'', sn_SnapshotID snapshot, br_IdempotencyKey req, cfgDigest,
                   Join selectedHashes '','' ];
                traceID = deterministicID (be_sha be)
                  [''trace'', sn_SnapshotID snapshot, candidateID, cfgDigest];
                trace = \<lparr> tr_SchemaVersion = 1, tr_TraceID = traceID,
                  tr_SnapshotID = sn_SnapshotID snapshot, tr_CandidateID = candidateID,
                  tr_PolicyVersion = cf_PolicyVersion cfg, tr_BinaryVersion = tx_BinaryVersion,
                  tr_ConfigDigest = cfgDigest, tr_SourceEndpointLabel = sn_SourceLabel snapshot,
                  tr_ChainID = sn_ChainID snapshot, tr_ReasonCodeSummary = summary,
                  tr_Accepted = accepted, tr_Rejected = allRejected,
                  tr_RankingOrder = rankingOrder, tr_SelectionOrder = selectedHashes,
                  tr_SelectionStopReason = stopReason, tr_CreatedAt = clk 0,
                  tr_ReplayMode = False \<rparr>;
                candidate = \<lparr> ca_SchemaVersion = 1, ca_CandidateID = candidateID,
                  ca_SnapshotID = sn_SnapshotID snapshot, ca_PolicyVersion = cf_PolicyVersion cfg,
                  ca_BinaryVersion = tx_BinaryVersion, ca_ConfigDigest = cfgDigest,
                  ca_SourceEndpointLabel = sn_SourceLabel snapshot, ca_ChainID = sn_ChainID snapshot,
                  ca_SelectedTxs = selected, ca_SelectedOrder = selectedHashes,
                  ca_TxCount = length selected, ca_TotalGas = sum_gas selected,
                  ca_EstimatedRevenue = show_int 10 (sum_revenue selected),
                  ca_RejectedCount = length allRejected, ca_ReasonSummary = summary,
                  ca_SelectionStopReason = stopReason, ca_CreatedAt = clk 1,
                  ca_TraceID = traceID, ca_IsExecutableBlock = False,
                  ca_BuildDurationMS = go_div (time_sub (clk 2) startedAt) millisecond \<rparr>
            in Some (candidate, trace)))"

definition process_begin :: "gtime \<Rightarrow> jobEnvelope \<Rightarrow> TxService \<Rightarrow> JobRecord option \<times> TxService" where
  "process_begin startedAt env s =
     (case gm_get (sv_jobs s) (je_JobID env) of
        None \<Rightarrow> (None, s)
      | Some job \<Rightarrow>
          let job' = job\<lparr> jb_State := JobRunning, jb_StartedAt := startedAt \<rparr>
          in (Some job', s\<lparr> sv_jobs := gm_set (sv_jobs s) (je_JobID env) job' \<rparr>))"

text \<open>
  The rest of a job: its snapshot, the candidate, the artifacts, the result. \<open>None\<close> is the
  panic of the selection.
\<close>

definition process_end ::
  "build_env \<Rightarrow> (nat \<Rightarrow> gtime) \<Rightarrow> gtime \<Rightarrow> jobEnvelope \<Rightarrow> JobRecord \<Rightarrow> TxService \<Rightarrow> TxService option" where
  "process_end be clk startedAt env job s =
     (case snapshotRecordByID s (jb_SnapshotID job) of
        None \<Rightarrow>
          (let s1 = failJob (clk 0) (jb_JobID job) ReasonSnapshotTooLarge ''snapshot no longer retained'' s
           in Some (s1\<lparr> sv_buildsFailed := sv_buildsFailed s1 + 1 \<rparr>))
      | Some snapRecord \<Rightarrow>
        (case buildCandidate be (sv_cfg s) (je_Request env) (sr_Snapshot snapRecord)
                (sr_Decisions snapRecord) startedAt (\<lambda>i. clk (i + 1)) of
           None \<Rightarrow> None
         | Some (candidate, trace) \<Rightarrow>
           (case (if cf_NoWrite (sv_cfg s) then Inr ([], [])
                  else be_persist be (sv_cfg s) candidate trace (sr_Snapshot snapRecord)) of
              Inl err \<Rightarrow>
                (let s1 = failJob (clk 4) (jb_JobID job) ReasonArtifactWriteFailed err s
                 in Some (s1\<lparr> sv_buildsFailed := sv_buildsFailed s1 + 1 \<rparr>))
            | Inr (artifactURI, traceURI) \<Rightarrow>
                (let result = \<lparr> re_JobID = jb_JobID job, re_RequestID = jb_RequestID job,
                       re_SnapshotID = sn_SnapshotID (sr_Snapshot snapRecord),
                       re_ArtifactURI = artifactURI, re_TraceURI = traceURI,
                       re_Candidate = candidate, re_Trace = trace, re_State = JobCompleted,
                       re_ReasonCode = NoReason, re_ReasonDetail = [],
                       re_CreatedAt = jb_CreatedAt job, re_CompletedAt = clk 5 \<rparr>;
                     s1 = completeJob (clk 6) (jb_JobID job) (recordResult (Some result) s)
                 in Some (s1\<lparr> sv_buildsCompleted := sv_buildsCompleted s1 + 1 \<rparr>)))))"

definition processJob ::
  "build_env \<Rightarrow> (nat \<Rightarrow> gtime) \<Rightarrow> gtime \<Rightarrow> jobEnvelope \<Rightarrow> TxService \<Rightarrow> TxService option" where
  "processJob be clk startedAt env s =
     (case process_begin startedAt env s of
        (None, s1) \<Rightarrow> Some s1
      | (Some job, s1) \<Rightarrow> process_end be clk startedAt env job s1)"

section \<open>Status\<close>

record TxStatus =
  st_Healthy :: bool
  st_Mode :: string
  st_QueueDepth :: int
  st_WorkerCount :: int
  st_SnapshotID :: string
  st_SnapshotAgeMS :: int
  st_LastRefreshMS :: int
  st_BuildsCompleted :: int
  st_BuildsFailed :: int
  st_ShedCount :: int
  st_UpdatedAt :: gtime

definition tx_Status :: "(nat \<Rightarrow> gtime) \<Rightarrow> TxService \<Rightarrow> TxStatus" where
  "tx_Status clk s =
     (let st0 = \<lparr> st_Healthy = sv_current s \<noteq> None, st_Mode = ''normal'',
                  st_QueueDepth = int (length (sv_queue s)),
                  st_WorkerCount = cf_WorkerCount (sv_cfg s), st_SnapshotID = [],
                  st_SnapshotAgeMS = 0, st_LastRefreshMS = 0,
                  st_BuildsCompleted = sv_buildsCompleted s, st_BuildsFailed = sv_buildsFailed s,
                  st_ShedCount = sv_shedCount s, st_UpdatedAt = clk 0 \<rparr>;
          st1 = (case sv_current s of
                   None \<Rightarrow> st0
                 | Some snap \<Rightarrow>
                     let age = go_div (time_sub (clk 1) (sn_CapturedAt snap)) millisecond;
                         st = st0\<lparr> st_SnapshotID := sn_SnapshotID snap, st_SnapshotAgeMS := age,
                                  st_LastRefreshMS := sn_RefreshMS snap \<rparr>
                     in if age > go_div (cf_MaxSnapshotAge (sv_cfg s)) millisecond
                        then st\<lparr> st_Mode := ''degraded'' \<rparr> else st)
      in if st_QueueDepth st1 \<ge> cf_QueueSize (sv_cfg s) then st1\<lparr> st_Mode := ''degraded'' \<rparr> else st1)"

text \<open>The status code the readiness probe answers with.\<close>

definition handleReady :: "(nat \<Rightarrow> gtime) \<Rightarrow> TxService \<Rightarrow> int \<times> TxStatus" where
  "handleReady clk s =
     (let st = tx_Status clk s in
      if st_SnapshotID st = [] \<or> st_QueueDepth st \<ge> cf_QueueSize (sv_cfg s) then (503, st)
      else if st_SnapshotAgeMS st > go_div (cf_MaxSnapshotAge (sv_cfg s)) millisecond then (503, st)
      else (200, st))"

end
