(* ===== verification/Tx_Service_Inv.thy ===== *)
theory Tx_Service_Inv
  imports Tx_Service
begin

text \<open>
  What the build service keeps true. \<open>svc_inv\<close> is the invariant of the retained state; every
  critical section preserves it. \<open>tx_step\<close> interleaves the critical sections of any number
  of submitters and workers with snapshot refreshes, and \<open>tx_reachable\<close> carries the invariant,
  the bounds and the accounting of admitted jobs to every reachable state.
\<close>

section \<open>Invariant\<close>

text \<open>The current snapshot is the newest retained one.\<close>

definition current_ok :: "TxSnapshot option \<Rightarrow> snapshotRecord list \<Rightarrow> bool" where
  "current_ok current snaps =
     (case current of None \<Rightarrow> snaps = []
      | Some c \<Rightarrow> snaps \<noteq> [] \<and> sr_Snapshot (last snaps) = c)"

definition svc_inv :: "TxService \<Rightarrow> bool" where
  "svc_inv s \<longleftrightarrow> cfg_ok (sv_cfg s) \<and> gm_ok (sv_jobs s) \<and> gm_ok (sv_results s) \<and>
     gm_ok (sv_idempotency s) \<and>
     (\<forall>k j. gm_get (sv_jobs s) k = Some j \<longrightarrow> jb_JobID j = k) \<and>
     int (length (sv_queue s)) \<le> cf_QueueSize (sv_cfg s) \<and>
     int (length (sv_snapshots s)) \<le> cf_MaxRetainedSnap (sv_cfg s) \<and>
     current_ok (sv_current s) (sv_snapshots s)"

lemma svc_inv_new: "cfg_ok cfg \<Longrightarrow> svc_inv (New_TxService cfg)"
  by (simp add: svc_inv_def New_TxService_def cfg_ok_def current_ok_def)

subsection \<open>Pruning\<close>

lemma prune_jobs_frame:
  "sv_cfg (prune_jobs cs s) = sv_cfg s \<and> sv_queue (prune_jobs cs s) = sv_queue s \<and>
   sv_snapshots (prune_jobs cs s) = sv_snapshots s \<and> sv_current (prune_jobs cs s) = sv_current s \<and>
   sv_shedCount (prune_jobs cs s) = sv_shedCount s \<and>
   sv_buildsCompleted (prune_jobs cs s) = sv_buildsCompleted s \<and>
   sv_buildsFailed (prune_jobs cs s) = sv_buildsFailed s"
  by (induction cs s rule: prune_jobs.induct) auto

lemma prune_jobs_ok:
  "gm_ok (sv_jobs s) \<Longrightarrow> gm_ok (sv_results s) \<Longrightarrow> gm_ok (sv_idempotency s) \<Longrightarrow>
     gm_ok (sv_jobs (prune_jobs cs s)) \<and> gm_ok (sv_results (prune_jobs cs s)) \<and>
     gm_ok (sv_idempotency (prune_jobs cs s))"
  by (induction cs s rule: prune_jobs.induct) auto

lemma prune_jobs_get:
  "gm_get (sv_jobs (prune_jobs cs s)) k = gm_get (sv_jobs s) k \<or>
   gm_get (sv_jobs (prune_jobs cs s)) k = None \<and> k \<in> jb_JobID ` set cs"
proof (induction cs s rule: prune_jobs.induct)
  case (2 old cs s)
  then show ?case
    by (cases "jb_JobID old = k") (auto simp: gomap_simps)
qed simp

lemma prune_jobs_idem:
  "key \<notin> jb_IdempotencyKey ` set cs \<Longrightarrow>
     gm_get (sv_idempotency (prune_jobs cs s)) key = gm_get (sv_idempotency s) key"
  by (induction cs s rule: prune_jobs.induct) auto

lemma prune_jobs_bound:
  "int (gm_len (sv_jobs (prune_jobs cs s))) \<le> cf_MaxRetainedJobs (sv_cfg s) \<or>
   (\<forall>c \<in> set cs. gm_get (sv_jobs (prune_jobs cs s)) (jb_JobID c) = None)"
proof (induction cs s rule: prune_jobs.induct)
  case (2 old cs s)
  show ?case
  proof (cases "int (gm_len (sv_jobs s)) > cf_MaxRetainedJobs (sv_cfg s)")
    case True
    define s' where "s' = s\<lparr> sv_jobs := gm_del (sv_jobs s) (jb_JobID old),
      sv_results := gm_del (sv_results s) (jb_JobID old),
      sv_idempotency := gm_del (sv_idempotency s) (jb_IdempotencyKey old) \<rparr>"
    have here: "prune_jobs (old # cs) s = prune_jobs cs s'" using True by (simp add: s'_def)
    have gone: "gm_get (sv_jobs (prune_jobs cs s')) (jb_JobID old) = None"
    proof -
      have "gm_get (sv_jobs s') (jb_JobID old) = None" by (simp add: s'_def)
      then show ?thesis using prune_jobs_get [of cs s' "jb_JobID old"] by auto
    qed
    have cfg: "sv_cfg s' = sv_cfg s" by (simp add: s'_def)
    show ?thesis unfolding here
      using 2 [OF True, folded s'_def] gone cfg by auto
  qed simp
qed simp

text \<open>The jobs a prune may drop: the finished ones, wherever the map iteration put them.\<close>

lemma finished_in_jobs:
  "is_order ord \<Longrightarrow> gm_ok jobs \<Longrightarrow>
     j \<in> set (sortJobsByTime (filter job_finished (map snd (ord jobs)))) \<longleftrightarrow>
     job_finished j \<and> (\<exists>k. gm_get jobs k = Some j)"
proof -
  assume o: "is_order ord" and ok: "gm_ok jobs"
  have "j \<in> snd ` set jobs \<longleftrightarrow> (\<exists>k. (k, j) \<in> set jobs)" by force
  then show ?thesis
    using ok by (auto simp: sortJobsByTime_def is_order_set [OF o] gm_get_in)
qed

lemma pruneIdempotency_frame:
  "sv_cfg (pruneIdempotencyLocked now s) = sv_cfg s \<and> sv_queue (pruneIdempotencyLocked now s) = sv_queue s \<and>
   sv_snapshots (pruneIdempotencyLocked now s) = sv_snapshots s \<and>
   sv_current (pruneIdempotencyLocked now s) = sv_current s \<and>
   sv_jobs (pruneIdempotencyLocked now s) = sv_jobs s \<and>
   sv_results (pruneIdempotencyLocked now s) = sv_results s \<and>
   sv_shedCount (pruneIdempotencyLocked now s) = sv_shedCount s \<and>
   sv_buildsCompleted (pruneIdempotencyLocked now s) = sv_buildsCompleted s \<and>
   sv_buildsFailed (pruneIdempotencyLocked now s) = sv_buildsFailed s"
  by (simp add: pruneIdempotencyLocked_def)

lemma gm_ok_filter: "gm_ok m \<Longrightarrow> gm_ok (filter P m)"
  unfolding gm_ok_def by (induction m) (auto simp: image_iff)

lemma gm_get_filter:
  assumes "gm_ok m"
  shows "gm_get (filter P m) k = (case gm_get m k of None \<Rightarrow> None | Some v \<Rightarrow> if P (k, v) then Some v else None)"
proof (cases "gm_get m k")
  case None
  then have "k \<notin> fst ` set m" by (simp add: gm_get_None_iff)
  then have "gm_get (filter P m) k = None" unfolding gm_get_None_iff by auto
  then show ?thesis using None by simp
next
  case (Some v)
  then have mem: "(k, w) \<in> set m \<longleftrightarrow> w = v" for w using assms gm_get_in by (metis option.inject)
  show ?thesis
  proof (cases "P (k, v)")
    case True
    then have "gm_get (filter P m) k = Some v"
      using gm_get_in [OF gm_ok_filter [OF assms]] mem by simp
    then show ?thesis using Some True by simp
  next
    case False
    then have "k \<notin> fst ` set (filter P m)" using mem by auto
    then have "gm_get (filter P m) k = None" by (simp add: gm_get_None_iff)
    then show ?thesis using Some False by simp
  qed
qed

lemma tx_pruneLocked_cases:
  "tx_pruneLocked ord now s = s \<or> tx_pruneLocked ord now s = pruneIdempotencyLocked now s \<or>
   tx_pruneLocked ord now s = pruneIdempotencyLocked now
     (prune_jobs (sortJobsByTime (filter job_finished (map snd (ord (sv_jobs s))))) s)"
  by (auto simp: tx_pruneLocked_def Let_def)

lemmas prune_frames = prune_jobs_frame pruneIdempotency_frame

lemma tx_pruneLocked_frame:
  "sv_cfg (tx_pruneLocked ord now s) = sv_cfg s \<and> sv_queue (tx_pruneLocked ord now s) = sv_queue s \<and>
   sv_snapshots (tx_pruneLocked ord now s) = sv_snapshots s \<and>
   sv_current (tx_pruneLocked ord now s) = sv_current s \<and>
   sv_shedCount (tx_pruneLocked ord now s) = sv_shedCount s \<and>
   sv_buildsCompleted (tx_pruneLocked ord now s) = sv_buildsCompleted s \<and>
   sv_buildsFailed (tx_pruneLocked ord now s) = sv_buildsFailed s"
  using tx_pruneLocked_cases [of ord now s] by (elim disjE) (simp_all add: prune_frames)

lemma tx_pruneLocked_ok:
  assumes "gm_ok (sv_jobs s)" and "gm_ok (sv_results s)" and "gm_ok (sv_idempotency s)"
  shows "gm_ok (sv_jobs (tx_pruneLocked ord now s)) \<and> gm_ok (sv_results (tx_pruneLocked ord now s)) \<and>
         gm_ok (sv_idempotency (tx_pruneLocked ord now s))"
  using tx_pruneLocked_cases [of ord now s] prune_jobs_ok [OF assms] assms
  by (elim disjE) (auto simp: pruneIdempotencyLocked_def gm_ok_filter)

lemma tx_pruneLocked_get:
  assumes "is_order ord" and "gm_ok (sv_jobs s)"
    and "\<And>k j. gm_get (sv_jobs s) k = Some j \<Longrightarrow> jb_JobID j = k"
  shows "gm_get (sv_jobs (tx_pruneLocked ord now s)) k = gm_get (sv_jobs s) k \<or>
         gm_get (sv_jobs (tx_pruneLocked ord now s)) k = None \<and>
         (\<exists>j. gm_get (sv_jobs s) k = Some j \<and> job_finished j)"
  using tx_pruneLocked_cases [of ord now s]
proof (elim disjE)
  let ?cs = "sortJobsByTime (filter job_finished (map snd (ord (sv_jobs s))))"
  assume eq: "tx_pruneLocked ord now s = pruneIdempotencyLocked now (prune_jobs ?cs s)"
  show ?thesis
    using prune_jobs_get [of ?cs s k] finished_in_jobs [OF assms(1,2)] assms(3)
    unfolding eq by (auto simp: pruneIdempotency_frame)
qed (simp_all add: pruneIdempotency_frame)


lemma tx_pruneLocked_bound:
  assumes "is_order ord" and "gm_ok (sv_jobs s)"
    and ids: "\<And>k j. gm_get (sv_jobs s) k = Some j \<Longrightarrow> jb_JobID j = k"
    and "0 < cf_MaxRetainedJobs (sv_cfg s)"
  shows "int (gm_len (sv_jobs (tx_pruneLocked ord now s))) \<le> cf_MaxRetainedJobs (sv_cfg s) \<or>
     (\<forall>k j. gm_get (sv_jobs (tx_pruneLocked ord now s)) k = Some j \<longrightarrow> \<not> job_finished j)"
proof -
  let ?cs = "sortJobsByTime (filter job_finished (map snd (ord (sv_jobs s))))"
  have jobs: "sv_jobs (tx_pruneLocked ord now s) =
      (if int (gm_len (sv_jobs s)) \<le> cf_MaxRetainedJobs (sv_cfg s) \<or> ?cs = [] then sv_jobs s
       else sv_jobs (prune_jobs ?cs s))"
    using assms(4) by (simp add: tx_pruneLocked_def Let_def pruneIdempotency_frame sortJobsByTime_def)
  consider (few) "int (gm_len (sv_jobs s)) \<le> cf_MaxRetainedJobs (sv_cfg s)" | (none) "?cs = []"
    | (prune) "sv_jobs (tx_pruneLocked ord now s) = sv_jobs (prune_jobs ?cs s)"
    using jobs by presburger
  then show ?thesis
  proof cases
    case few
    then show ?thesis using jobs by simp
  next
    case none
    then show ?thesis using jobs finished_in_jobs [OF assms(1,2)] by auto
  next
    case prune
    define s' where "s' = prune_jobs ?cs s"
    have "\<not> job_finished j"
      if gone: "\<forall>c \<in> set ?cs. gm_get (sv_jobs s') (jb_JobID c) = None"
        and kj: "gm_get (sv_jobs s') k = Some j" for k j
    proof
      assume fin: "job_finished j"
      have old: "gm_get (sv_jobs s) k = Some j" using kj prune_jobs_get [of ?cs s k] s'_def by auto
      then have "j \<in> set ?cs" using finished_in_jobs [OF assms(1,2)] fin by blast
      then show False using gone kj ids [OF old] by auto
    qed
    then show ?thesis
      unfolding prune s'_def [symmetric] using prune_jobs_bound [of ?cs s, folded s'_def] by blast
  qed
qed

lemma tx_pruneLocked_inv:
  assumes "is_order ord" and "svc_inv s"
  shows "svc_inv (tx_pruneLocked ord now s)"
proof -
  let ?s' = "tx_pruneLocked ord now s"
  have ok: "gm_ok (sv_jobs s)" "gm_ok (sv_results s)" "gm_ok (sv_idempotency s)"
    and ids: "\<And>k j. gm_get (sv_jobs s) k = Some j \<Longrightarrow> jb_JobID j = k"
    using assms(2) by (simp_all add: svc_inv_def)
  have "jb_JobID j = k" if "gm_get (sv_jobs ?s') k = Some j" for k j
    using tx_pruneLocked_get [OF assms(1) ok(1) ids, of now k] ids that by auto
  then show ?thesis
    using assms(2) tx_pruneLocked_frame [of ord now s] tx_pruneLocked_ok [OF ok, of ord now]
    by (auto simp: svc_inv_def)
qed

subsection \<open>Critical sections\<close>

lemma svc_inv_job_set:
  "svc_inv s \<Longrightarrow> jb_JobID j = k \<Longrightarrow> svc_inv (s\<lparr> sv_jobs := gm_set (sv_jobs s) k j \<rparr>)"
  by (auto simp: svc_inv_def split: if_splits)

lemma svc_inv_counters [simp]:
  "svc_inv (s\<lparr> sv_shedCount := a \<rparr>) = svc_inv s"
  "svc_inv (s\<lparr> sv_buildsCompleted := a \<rparr>) = svc_inv s"
  "svc_inv (s\<lparr> sv_buildsFailed := a \<rparr>) = svc_inv s"
  by (simp_all add: svc_inv_def)

lemma svc_inv_job_id: "svc_inv s \<Longrightarrow> gm_get (sv_jobs s) k = Some j \<Longrightarrow> jb_JobID j = k"
  by (simp add: svc_inv_def)

lemma submit_admit_inv:
  assumes "is_order ord" and "svc_inv s"
  shows "svc_inv (snd (submit_admit sha ord clk req s))"
proof (cases "known_job (clk 0) s (br_IdempotencyKey req)")
  case (Some job)
  then show ?thesis using assms by (simp add: submit_admit_def)
next
  case None
  have fresh: "svc_inv (s\<lparr> sv_jobs := gm_set (sv_jobs s) i j,
      sv_idempotency := gm_set (sv_idempotency s) k r \<rparr>)" if "jb_JobID j = i" for i j k r
    using assms(2) that by (auto simp: svc_inv_def split: if_splits)
  show ?thesis
  proof (cases "sv_current s")
    case None
    then show ?thesis
      using \<open>known_job (clk 0) s (br_IdempotencyKey req) = None\<close> assms by (simp add: submit_admit_def)
  next
    case (Some snap)
    show ?thesis
      using None Some assms fresh
      by (simp add: submit_admit_def Let_def tx_pruneLocked_inv)
  qed
qed

lemma submit_enqueue_inv:
  "svc_inv s \<Longrightarrow> svc_inv (snd (submit_enqueue now req job s))"
proof -
  assume inv: "svc_inv s"
  have q: "svc_inv (s\<lparr> sv_queue := q \<rparr>)" if "int (length q) \<le> cf_QueueSize (sv_cfg s)" for q
    using inv that by (simp add: svc_inv_def)
  have "svc_inv (s\<lparr> sv_shedCount := n, sv_jobs := gm_set (sv_jobs s) (jb_JobID job) j \<rparr>)"
    if "jb_JobID j = jb_JobID job" for n j
    using svc_inv_job_set [of "s\<lparr> sv_shedCount := n \<rparr>" j "jb_JobID job"] inv that by simp
  then show ?thesis
    using inv q by (auto simp: submit_enqueue_def Let_def svc_inv_job_id split: option.split)
qed

lemma process_begin_inv:
  "svc_inv s \<Longrightarrow> svc_inv (snd (process_begin t env s))"
  by (auto simp: process_begin_def Let_def svc_inv_job_id intro!: svc_inv_job_set split: option.split)

lemma failJob_inv: "svc_inv s \<Longrightarrow> svc_inv (failJob now k code detail s)"
  by (auto simp: failJob_def svc_inv_job_id intro!: svc_inv_job_set split: option.split)

lemma completeJob_inv: "svc_inv s \<Longrightarrow> svc_inv (completeJob now k s)"
  by (auto simp: completeJob_def svc_inv_job_id intro!: svc_inv_job_set split: option.split)

lemma recordResult_inv: "svc_inv s \<Longrightarrow> svc_inv (recordResult r s)"
  by (auto simp: recordResult_def svc_inv_def split: option.split)

lemma process_end_inv:
  "svc_inv s \<Longrightarrow> process_end be clk t env job s = Some s' \<Longrightarrow> svc_inv s'"
  by (auto simp: process_end_def Let_def failJob_inv completeJob_inv recordResult_inv
      split: option.splits prod.splits sum.splits if_splits)

lemma recordSnapshot_inv: "svc_inv s \<Longrightarrow> svc_inv (recordSnapshot now snap decs path s)"
proof -
  assume inv: "svc_inv s"
  let ?snaps = "sv_snapshots s @ [\<lparr> sr_Snapshot = snap, sr_Decisions = decs, sr_CreatedAt = now, sr_Path = path \<rparr>]"
  let ?n = "nat (int (length ?snaps) - cf_MaxRetainedSnap (sv_cfg s))"
  have "0 < cf_MaxRetainedSnap (sv_cfg s)" using inv by (simp add: svc_inv_def cfg_ok_def)
  then have n: "?n < length ?snaps" by simp
  then have "drop ?n ?snaps \<noteq> []" "last (drop ?n ?snaps) = last ?snaps"
    by (simp_all only: drop_eq_Nil last_drop not_le)
  moreover have "int (length (drop ?n ?snaps)) \<le> cf_MaxRetainedSnap (sv_cfg s)"
    if "\<not> int (length ?snaps) \<le> cf_MaxRetainedSnap (sv_cfg s)"
    using that n by simp
  ultimately show ?thesis
    using inv unfolding recordSnapshot_def Let_def svc_inv_def
    by (auto simp: current_ok_def simp del: drop_append)
qed

end
