(* ===== verification/Tx_Interleave.thy ===== *)
theory Tx_Interleave
  imports Tx_Service_Inv
begin

text \<open>
  Any number of submitters, the workers and the snapshot refresher of the build service,
  interleaved. A step is one critical section of \<^verbatim>\<open>Submit\<close>, \<^verbatim>\<open>worker\<close>/\<^verbatim>\<open>processJob\<close> or
  \<^verbatim>\<open>recordSnapshot\<close>; \<open>ts_pending\<close> and \<open>ts_running\<close> are the goroutines between two of their
  sections. The three counters at the end are ghosts: they only appear in the accounting.
\<close>

section \<open>When the worker ends\<close>

lemma gm_ok_cloneChains: "gm_ok m \<Longrightarrow> gm_ok (cloneChains m)"
  by (simp add: cloneChains_def gm_ok_filter)

lemma buildCandidate_None:
  "buildCandidate be cfg req snap decs startedAt clk = None \<longleftrightarrow> \<not> count_ok (cf_MaxTransactions cfg)"
  by (simp add: buildCandidate_def selectTransactions_count Let_def)

text \<open>The one panic of a worker: the slices of the selection cannot be made.\<close>

lemma process_end_None:
  "process_end be clk t env job s = None \<longleftrightarrow>
     snapshotRecordByID s (jb_SnapshotID job) \<noteq> None \<and> \<not> count_ok (cf_MaxTransactions (sv_cfg s))"
proof (cases "snapshotRecordByID s (jb_SnapshotID job)")
  case (Some r)
  then show ?thesis
    using buildCandidate_None [of be "sv_cfg s" "je_Request env" "sr_Snapshot r" "sr_Decisions r" t
        "\<lambda>i. clk (i + 1)"]
    by (auto simp: process_end_def Let_def split: option.split sum.split)
qed (simp add: process_end_def Let_def)

definition job_state :: "TxService \<Rightarrow> string \<Rightarrow> JobState option" where
  "job_state s k = map_option jb_State (gm_get (sv_jobs s) k)"

text \<open>What the second half of a job leaves: one counter moved, the job finished, no other touched.\<close>

lemma process_end_result:
  assumes "process_end be clk t env job s = Some s'"
  shows "sv_queue s' = sv_queue s \<and> sv_cfg s' = sv_cfg s \<and> sv_shedCount s' = sv_shedCount s \<and>
    sv_buildsCompleted s' + sv_buildsFailed s' = sv_buildsCompleted s + sv_buildsFailed s + 1 \<and>
    (\<forall>k. k \<noteq> jb_JobID job \<longrightarrow> gm_get (sv_jobs s') k = gm_get (sv_jobs s) k) \<and>
    (job_state s' (jb_JobID job) = (if job_state s (jb_JobID job) = None then None
       else Some (if sv_buildsCompleted s' = sv_buildsCompleted s then JobFailed else JobCompleted)))"
  using assms
  by (auto simp: process_end_def Let_def failJob_def completeJob_def recordResult_def job_state_def
      split: option.splits sum.splits prod.splits if_splits)

section \<open>Steps\<close>

record tx_sys =
  ts_svc :: TxService
  ts_pending :: "(BuildRequest \<times> JobRecord) list"
  ts_running :: "(jobEnvelope \<times> JobRecord \<times> gtime) list"
  ts_admitted :: nat
  ts_refused :: nat
  ts_dropped :: nat

definition tx_init :: "TxConfig \<Rightarrow> tx_sys" where
  "tx_init cfg = \<lparr> ts_svc = New_TxService cfg, ts_pending = [], ts_running = [],
     ts_admitted = 0, ts_refused = 0, ts_dropped = 0 \<rparr>"

fun capacity_refused :: "submit_result \<Rightarrow> nat" where
  "capacity_refused (SubmitErr code msg) = (if code = 429 then 1 else 0)"
| "capacity_refused (SubmitResp code resp) = 0"

inductive tx_step :: "(string \<Rightarrow> string) \<Rightarrow> tx_sys \<Rightarrow> tx_sys \<Rightarrow> bool" for sha where
  ts_answer: "tx_step sha S (S\<lparr> ts_svc := s', ts_refused := ts_refused S + capacity_refused r \<rparr>)"
  if "is_order ord" and "submit_admit sha ord clk req (ts_svc S) = (Inl r, s')"
| ts_admit: "tx_step sha S (S\<lparr> ts_svc := s', ts_pending := (req, job) # ts_pending S,
                               ts_admitted := ts_admitted S + 1 \<rparr>)"
  if "is_order ord" and "submit_admit sha ord clk req (ts_svc S) = (Inr job, s')"
| ts_enqueue: "tx_step sha S (S\<lparr> ts_svc := s', ts_pending := xs @ ys \<rparr>)"
  if "ts_pending S = xs @ (req, job) # ys" and "submit_enqueue now req job (ts_svc S) = (r, s')"
| ts_dequeue: "tx_step sha S (S\<lparr> ts_svc := s', ts_running := (env, job, now) # ts_running S \<rparr>)"
  if "sv_queue (ts_svc S) = env # q"
    and "int (length (ts_running S)) < cf_WorkerCount (sv_cfg (ts_svc S))"
    and "process_begin now env ((ts_svc S)\<lparr> sv_queue := q \<rparr>) = (Some job, s')"
| ts_drop: "tx_step sha S (S\<lparr> ts_svc := s', ts_dropped := ts_dropped S + 1 \<rparr>)"
  if "sv_queue (ts_svc S) = env # q"
    and "int (length (ts_running S)) < cf_WorkerCount (sv_cfg (ts_svc S))"
    and "process_begin now env ((ts_svc S)\<lparr> sv_queue := q \<rparr>) = (None, s')"
| ts_finish: "tx_step sha S (S\<lparr> ts_svc := s', ts_running := xs @ ys \<rparr>)"
  if "ts_running S = xs @ (env, job, now) # ys"
    and "process_end be clk now env job (ts_svc S) = Some s'"
| ts_refresh: "tx_step sha S (S\<lparr> ts_svc := recordSnapshot now snap decs path (ts_svc S) \<rparr>)"

inductive tx_reachable :: "(string \<Rightarrow> string) \<Rightarrow> TxConfig \<Rightarrow> tx_sys \<Rightarrow> bool" for sha cfg where
  tx_reach_init: "tx_reachable sha cfg (tx_init cfg)"
| tx_reach_step: "tx_reachable sha cfg S \<Longrightarrow> tx_step sha S S' \<Longrightarrow> tx_reachable sha cfg S'"

section \<open>Invariant of the interleaving\<close>

text \<open>The job identifiers somebody still has to take further.\<close>

definition owned :: "tx_sys \<Rightarrow> string set" where
  "owned S = (jb_JobID \<circ> snd) ` set (ts_pending S) \<union> je_JobID ` set (sv_queue (ts_svc S)) \<union>
     (\<lambda>(env, job, t). je_JobID env) ` set (ts_running S)"

definition live :: "TxService \<Rightarrow> string \<Rightarrow> bool" where
  "live s k \<longleftrightarrow> (\<exists>j. gm_get (sv_jobs s) k = Some j \<and> \<not> job_finished j)"

definition in_flight :: "tx_sys \<Rightarrow> nat" where
  "in_flight S = length (ts_pending S) + length (sv_queue (ts_svc S)) + length (ts_running S)"

definition tx_sys_inv :: "TxConfig \<Rightarrow> tx_sys \<Rightarrow> bool" where
  "tx_sys_inv cfg S \<longleftrightarrow> svc_inv (ts_svc S) \<and> sv_cfg (ts_svc S) = cfg \<and>
     int (length (ts_running S)) \<le> cf_WorkerCount cfg \<and>
     (\<forall>(env, job, t) \<in> set (ts_running S). jb_JobID job = je_JobID env) \<and>
     (\<forall>k. live (ts_svc S) k \<longrightarrow> k \<in> owned S) \<and>
     int (ts_admitted S) + int (ts_refused S) =
       sv_shedCount (ts_svc S) + sv_buildsCompleted (ts_svc S) + sv_buildsFailed (ts_svc S) +
       int (ts_dropped S) + int (in_flight S)"

lemma submit_admit_Inl:
  assumes "submit_admit sha ord clk req s = (Inl r, s')"
  shows "sv_jobs s' = sv_jobs s \<and> sv_cfg s' = sv_cfg s \<and> sv_queue s' = sv_queue s \<and>
    sv_buildsCompleted s' = sv_buildsCompleted s \<and> sv_buildsFailed s' = sv_buildsFailed s \<and>
    sv_shedCount s' = sv_shedCount s + int (capacity_refused r)"
  using assms by (auto simp: submit_admit_def Let_def split: option.splits if_splits)

text \<open>The record a successful admission creates.\<close>

definition admitted_job ::
  "(string \<Rightarrow> string) \<Rightarrow> (nat \<Rightarrow> gtime) \<Rightarrow> BuildRequest \<Rightarrow> TxSnapshot \<Rightarrow> JobRecord" where
  "admitted_job sha clk req snap =
     (let reqID = request_id sha req in
      \<lparr> jb_JobID = deterministicID sha
          [''job'', reqID, br_IdempotencyKey req, br_PriorityClass req, sn_SnapshotID snap],
        jb_RequestID = reqID, jb_IdempotencyKey = br_IdempotencyKey req,
        jb_PriorityClass = br_PriorityClass req, jb_PolicyVersion = br_PolicyVersion req,
        jb_State = JobQueued, jb_SnapshotID = sn_SnapshotID snap, jb_ReasonCode = NoReason,
        jb_ReasonDetail = [], jb_CreatedAt = clk 2, jb_StartedAt = 0, jb_CompletedAt = 0,
        jb_RetryAfterMS = 0 \<rparr>)"

lemma submit_admit_Inr:
  assumes "submit_admit sha ord clk req s = (Inr job, s')"
  shows "\<exists>snap r. sv_current s = Some snap \<and> job = admitted_job sha clk req snap \<and>
    snapshotFreshEnough (clk 1) (Some snap) (cf_MaxSnapshotAge (sv_cfg s)) \<and>
    int (length (sv_queue s)) < cf_QueueSize (sv_cfg s) \<and>
    id_JobID r = jb_JobID job \<and> id_ExpiresAt r = clk 4 + 1800 * second \<and>
    s' = tx_pruneLocked ord (clk 5) (s\<lparr> sv_jobs := gm_set (sv_jobs s) (jb_JobID job) job,
           sv_idempotency := gm_set (sv_idempotency s) (br_IdempotencyKey req) r \<rparr>)"
proof -
  have known: "known_job (clk 0) s (br_IdempotencyKey req) = None"
    using assms by (auto simp: submit_admit_def Let_def split: option.splits)
  then obtain snap where cur: "sv_current s = Some snap"
    using assms by (auto simp: submit_admit_def Let_def split: option.splits)
  let ?job = "admitted_job sha clk req snap"
  let ?r = "\<lparr> id_JobID = jb_JobID ?job, id_RequestID = request_id sha req, id_CreatedAt = clk 3,
              id_ExpiresAt = clk 4 + 1800 * second \<rparr>"
  show ?thesis
    using assms known cur
    by (intro exI [of _ snap] exI [of _ ?r])
      (auto simp: submit_admit_def admitted_job_def Let_def not_le split: if_splits)
qed

lemma submit_admit_live:
  assumes "is_order ord" and "svc_inv s" and "submit_admit sha ord clk req s = (Inr job, s')"
  shows "live s' k \<Longrightarrow> live s k \<or> k = jb_JobID job"
    and "live s' (jb_JobID job)"
proof -
  obtain r s1 where s1: "s1 = s\<lparr> sv_jobs := gm_set (sv_jobs s) (jb_JobID job) job,
      sv_idempotency := gm_set (sv_idempotency s) (br_IdempotencyKey req) r \<rparr>"
    and s': "s' = tx_pruneLocked ord (clk 5) s1" and st: "\<not> job_finished job"
    using submit_admit_Inr [OF assms(3)]
    by (auto simp: admitted_job_def Let_def job_finished_def)
  have ok: "gm_ok (sv_jobs s1)" using assms(2) by (simp add: s1 svc_inv_def)
  have ids: "\<And>k j. gm_get (sv_jobs s1) k = Some j \<Longrightarrow> jb_JobID j = k"
    using assms(2) by (auto simp: s1 svc_inv_def split: if_splits)
  note get = tx_pruneLocked_get [OF assms(1) ok ids, of "clk 5", folded s']
  show "live s k \<or> k = jb_JobID job" if "live s' k"
  proof -
    have "gm_get (sv_jobs s') k = gm_get (sv_jobs s1) k"
      using that get [of k] by (auto simp: live_def)
    then show ?thesis using that by (auto simp: live_def s1 split: if_splits)
  qed
  have "gm_get (sv_jobs s1) (jb_JobID job) = Some job" by (simp add: s1)
  then show "live s' (jb_JobID job)"
    using get [of "jb_JobID job"] st by (auto simp: live_def)
qed

lemma submit_admit_Inr_frame:
  "submit_admit sha ord clk req s = (Inr job, s') \<Longrightarrow>
     sv_cfg s' = sv_cfg s \<and> sv_queue s' = sv_queue s \<and> sv_shedCount s' = sv_shedCount s \<and>
     sv_buildsCompleted s' = sv_buildsCompleted s \<and> sv_buildsFailed s' = sv_buildsFailed s"
  by (drule submit_admit_Inr) (auto simp: tx_pruneLocked_frame)

lemma submit_enqueue_result:
  assumes "submit_enqueue now req job s = (r, s')"
  shows "sv_cfg s' = sv_cfg s \<and> sv_buildsCompleted s' = sv_buildsCompleted s \<and>
    sv_buildsFailed s' = sv_buildsFailed s \<and>
    (sv_queue s' = sv_queue s @ [\<lparr> je_Request = req, je_JobID = jb_JobID job \<rparr>] \<and>
       sv_shedCount s' = sv_shedCount s \<and> sv_jobs s' = sv_jobs s \<or>
     sv_queue s' = sv_queue s \<and> sv_shedCount s' = sv_shedCount s + 1 \<and> \<not> live s' (jb_JobID job) \<and>
       (\<forall>k. k \<noteq> jb_JobID job \<longrightarrow> gm_get (sv_jobs s') k = gm_get (sv_jobs s) k))"
  using assms
  by (auto simp: submit_enqueue_def Let_def live_def job_finished_def split: if_splits option.splits)


lemma process_begin_result:
  assumes "process_begin now env s = (jo, s')"
  shows "sv_cfg s' = sv_cfg s \<and> sv_queue s' = sv_queue s \<and> sv_shedCount s' = sv_shedCount s \<and>
    sv_buildsCompleted s' = sv_buildsCompleted s \<and> sv_buildsFailed s' = sv_buildsFailed s \<and>
    (case jo of None \<Rightarrow> s' = s \<and> \<not> live s (je_JobID env)
     | Some job \<Rightarrow> (\<exists>j. gm_get (sv_jobs s) (je_JobID env) = Some j \<and> jb_JobID job = jb_JobID j) \<and>
         (\<forall>k. k \<noteq> je_JobID env \<longrightarrow> gm_get (sv_jobs s') k = gm_get (sv_jobs s) k))"
  using assms by (auto simp: process_begin_def live_def Let_def split: option.splits)

lemma recordSnapshot_frame:
  "sv_cfg (recordSnapshot now snap decs path s) = sv_cfg s \<and>
   sv_queue (recordSnapshot now snap decs path s) = sv_queue s \<and>
   sv_jobs (recordSnapshot now snap decs path s) = sv_jobs s \<and>
   sv_shedCount (recordSnapshot now snap decs path s) = sv_shedCount s \<and>
   sv_buildsCompleted (recordSnapshot now snap decs path s) = sv_buildsCompleted s \<and>
   sv_buildsFailed (recordSnapshot now snap decs path s) = sv_buildsFailed s"
  by (simp add: recordSnapshot_def Let_def)

lemma live_cong: "gm_get (sv_jobs s) k = gm_get (sv_jobs s') k \<Longrightarrow> live s k = live s' k"
  by (simp add: live_def)

lemma tx_sys_inv_init: "cfg_ok cfg \<Longrightarrow> tx_sys_inv cfg (tx_init cfg)"
  using svc_inv_new [of cfg]
  by (simp add: tx_sys_inv_def tx_init_def New_TxService_def live_def in_flight_def cfg_ok_def)

lemma tx_step_svc_inv:
  assumes "tx_step sha S S'" and "svc_inv (ts_svc S)"
  shows "svc_inv (ts_svc S')"
  using assms
proof (cases rule: tx_step.cases)
  case (ts_answer ord clk req r s')
  then show ?thesis using submit_admit_inv [of ord "ts_svc S" sha clk req] assms(2) by simp
next
  case (ts_admit ord clk req job s')
  then show ?thesis using submit_admit_inv [of ord "ts_svc S" sha clk req] assms(2) by simp
next
  case (ts_enqueue xs req job ys now r s')
  then show ?thesis using submit_enqueue_inv [of "ts_svc S" now req job] assms(2) by simp
next
  case (ts_dequeue env q now job s')
  then have "svc_inv (ts_svc S\<lparr> sv_queue := q \<rparr>)" using assms(2) by (simp add: svc_inv_def)
  then show ?thesis using ts_dequeue process_begin_inv [of _ now env] by fastforce
next
  case (ts_drop env q now s')
  then have "svc_inv (ts_svc S\<lparr> sv_queue := q \<rparr>)" using assms(2) by (simp add: svc_inv_def)
  then show ?thesis using ts_drop process_begin_inv [of _ now env] by fastforce
next
  case (ts_finish xs env job now ys be clk s')
  then show ?thesis using process_end_inv assms(2) by simp
next
  case (ts_refresh now snap decs path)
  then show ?thesis using recordSnapshot_inv assms(2) by simp
qed

lemma process_end_live:
  assumes "process_end be clk t env job s = Some s'"
  shows "live s' k \<longleftrightarrow> live s k \<and> k \<noteq> jb_JobID job"
proof -
  have st: "job_state s' (jb_JobID job) = None \<or> job_state s' (jb_JobID job) = Some JobFailed \<or>
      job_state s' (jb_JobID job) = Some JobCompleted"
    and other: "k \<noteq> jb_JobID job \<Longrightarrow> gm_get (sv_jobs s') k = gm_get (sv_jobs s) k"
    using process_end_result [OF assms] by auto
  show ?thesis
  proof (cases "k = jb_JobID job")
    case True
    then show ?thesis using st by (auto simp: live_def job_state_def job_finished_def)
  qed (use other in \<open>simp add: live_def\<close>)
qed

lemma tx_step_owned:
  assumes step: "tx_step sha S S'" and inv: "tx_sys_inv cfg S" and k: "live (ts_svc S') k"
  shows "k \<in> owned S'"
proof -
  have svc: "svc_inv (ts_svc S)" and own: "\<And>k. live (ts_svc S) k \<Longrightarrow> k \<in> owned S"
    using inv by (simp_all add: tx_sys_inv_def)
  from step show ?thesis
  proof (cases rule: tx_step.cases)
    case (ts_answer ord clk req r s')
    then show ?thesis
      using own [of k] k submit_admit_Inl [OF ts_answer(3)] by (auto simp: live_def owned_def)
  next
    case (ts_admit ord clk req job s')
    then show ?thesis
      using submit_admit_live(1) [OF ts_admit(2) svc ts_admit(3), of k] own [of k] k
        submit_admit_Inr_frame [OF ts_admit(3)] by (auto simp: owned_def)
  next
    case (ts_enqueue xs req job ys now r s')
    note res = submit_enqueue_result [OF ts_enqueue(3)]
    then have "k = jb_JobID job \<or> live (ts_svc S) k" using k ts_enqueue(1) by (auto simp: live_def)
    then show ?thesis using own [of k] k res by (auto simp: owned_def ts_enqueue(1,2))
  next
    case (ts_dequeue env q now job s')
    note res = process_begin_result [OF ts_dequeue(4), simplified]
    then have "k = je_JobID env \<or> live (ts_svc S) k" using k ts_dequeue(1) by (auto simp: live_def)
    then show ?thesis using own [of k] res by (auto simp: owned_def ts_dequeue(1,2))
  next
    case (ts_drop env q now s')
    note res = process_begin_result [OF ts_drop(4), simplified]
    then have "k \<noteq> je_JobID env" "live (ts_svc S) k" using k ts_drop(1) by (auto simp: live_def)
    then show ?thesis using own [of k] res by (auto simp: owned_def ts_drop(1,2))
  next
    case (ts_finish xs env job now ys be clk s')
    have "jb_JobID job = je_JobID env" using inv ts_finish(2) by (auto simp: tx_sys_inv_def)
    then have "k \<noteq> je_JobID env" "live (ts_svc S) k"
      using process_end_live [OF ts_finish(3), of k] k ts_finish(1) by auto
    moreover have "sv_queue s' = sv_queue (ts_svc S)"
      using process_end_result [OF ts_finish(3)] by auto
    ultimately show ?thesis using own [of k] by (auto simp: owned_def ts_finish(1,2))
  next
    case (ts_refresh now snap decs path)
    then show ?thesis
      using own [of k] k recordSnapshot_frame [of now snap decs path "ts_svc S"]
      by (auto simp: live_def owned_def)
  qed
qed

lemma tx_step_count:
  assumes step: "tx_step sha S S'" and inv: "tx_sys_inv cfg S"
  shows "sv_cfg (ts_svc S') = cfg \<and> int (length (ts_running S')) \<le> cf_WorkerCount cfg \<and>
     (\<forall>(env, job, t) \<in> set (ts_running S'). jb_JobID job = je_JobID env) \<and>
     int (ts_admitted S') + int (ts_refused S') =
       sv_shedCount (ts_svc S') + sv_buildsCompleted (ts_svc S') + sv_buildsFailed (ts_svc S') +
       int (ts_dropped S') + int (in_flight S')"
proof -
  note I = inv [unfolded tx_sys_inv_def in_flight_def]
  have svc: "svc_inv (ts_svc S)" using inv by (simp add: tx_sys_inv_def)
  from step show ?thesis
  proof (cases rule: tx_step.cases)
    case (ts_answer ord clk req r s')
    then show ?thesis using I submit_admit_Inl [OF ts_answer(3)] by (simp add: in_flight_def)
  next
    case (ts_admit ord clk req job s')
    then show ?thesis using I submit_admit_Inr_frame [OF ts_admit(3)] by (simp add: in_flight_def)
  next
    case (ts_enqueue xs req job ys now r s')
    then show ?thesis using I submit_enqueue_result [OF ts_enqueue(3)] by (auto simp: in_flight_def)
  next
    case (ts_dequeue env q now job s')
    note res = process_begin_result [OF ts_dequeue(4), simplified]
    then have "jb_JobID job = je_JobID env" using svc_inv_job_id [OF svc] by auto
    then show ?thesis using I res ts_dequeue by (auto simp: in_flight_def)
  next
    case (ts_drop env q now s')
    then show ?thesis
      using I process_begin_result [OF ts_drop(4), simplified] by (auto simp: in_flight_def)
  next
    case (ts_finish xs env job now ys be clk s')
    then have "sv_queue s' = sv_queue (ts_svc S) \<and> sv_cfg s' = sv_cfg (ts_svc S) \<and>
        sv_shedCount s' = sv_shedCount (ts_svc S) \<and> sv_buildsCompleted s' + sv_buildsFailed s' =
          sv_buildsCompleted (ts_svc S) + sv_buildsFailed (ts_svc S) + 1"
      using process_end_result [OF ts_finish(3)] by auto
    then show ?thesis using I ts_finish(2) by (auto simp: in_flight_def ts_finish(1))
  next
    case (ts_refresh now snap decs path)
    then show ?thesis
      using I recordSnapshot_frame [of now snap decs path "ts_svc S"] by (simp add: in_flight_def)
  qed
qed

lemma tx_step_inv:
  assumes "tx_step sha S S'" and "tx_sys_inv cfg S"
  shows "tx_sys_inv cfg S'"
  using tx_step_count [OF assms] tx_step_owned [OF assms]
    tx_step_svc_inv [OF assms(1)] assms(2)
  by (simp add: tx_sys_inv_def)

lemma tx_reachable_inv: "tx_reachable sha cfg S \<Longrightarrow> cfg_ok cfg \<Longrightarrow> tx_sys_inv cfg S"
  by (induction rule: tx_reachable.induct) (auto intro: tx_sys_inv_init tx_step_inv)

end
