(* ===== verification/Tx_Properties.thy ===== *)
theory Tx_Properties
  imports Tx_Interleave
begin

text \<open>
  The properties of the build service as a whole: admission, idempotency, retention, the worker,
  and every interleaving of them. The lemmas they rest on are in \<open>Tx_Service_Inv\<close> and
  \<open>Tx_Interleave\<close>.
\<close>

section \<open>A configuration and a service for the witnesses\<close>

definition demo_cfg :: TxConfig where
  "demo_cfg = \<lparr> cf_ListenAddr = '':8080'', cf_RPCURL = ''http://node'', cf_OutputDir = ''out'',
     cf_PolicyVersion = ''v2'', cf_ChainID = Some 1, cf_RefreshInterval = 2 * second,
     cf_RequestTimeout = 2 * second, cf_AdmissionTimeout = second, cf_QueueSize = 2, cf_WorkerCount = 1,
     cf_MaxRetainedJobs = 1, cf_MaxRetainedSnap = 2, cf_MaxArtifactBytes = 1000, cf_MaxTraceBytes = 1000,
     cf_MaxSnapshotBytes = 1000, cf_MaxSnapshotAge = 15 * second, cf_MaxRPCPerRequest = 8,
     cf_MaxRetryAttempts = 1, cf_IncludeQueued = False, cf_AllowHeadDrift = False, cf_Strict = False,
     cf_NoWrite = True, cf_DryRunConfig = False, cf_PrintConfig = False, cf_Version = False,
     cf_MaxGas = 120, cf_MaxTransactions = 10, cf_LowPriorityAllowed = True \<rparr>"

lemma demo_cfg_ok: "cfg_ok demo_cfg"
  by (simp add: cfg_ok_def demo_cfg_def second_def)


definition demo_snap :: TxSnapshot where
  "demo_snap = \<lparr> sn_SchemaVersion = 1, sn_SnapshotID = ''snap'', sn_CapturedAt = 100 * second,
     sn_PolicyVersion = ''v2'', sn_BinaryVersion = tx_BinaryVersion, sn_ChainID = ''1'',
     sn_BaseFee = ''7'', sn_GasLimit = 30000000, sn_MempoolDigest = [], sn_FreshUntil = 115 * second,
     sn_RefreshMS = 3, sn_PendingBySender = demo_chains, sn_QueuedBySender = [],
     sn_SourceLabel = ''node'', sn_HeadBefore = ''0x1'', sn_HeadAfter = ''0x1'', sn_HeadDrift = False \<rparr>"

definition demo_svc :: TxService where
  "demo_svc = recordSnapshot (100 * second) demo_snap [] [] (New_TxService demo_cfg)"

definition demo_clk :: "nat \<Rightarrow> gtime" where
  "demo_clk i = 101 * second + int i"

definition demo_req :: BuildRequest where
  "demo_req = \<lparr> br_RequestID = [], br_IdempotencyKey = ''k1'', br_PriorityClass = '' HIGH'',
     br_PolicyVersion = [] \<rparr>"

definition demo_sha :: "string \<Rightarrow> string" where
  "demo_sha s = s @ s"

lemma demo_svc_inv: "svc_inv demo_svc"
  unfolding demo_svc_def by (intro recordSnapshot_inv svc_inv_new demo_cfg_ok)

section \<open>Retention\<close>

text \<open>
  pruning keeps every job that is not finished, alters no job it keeps, and afterwards
  either the retention bound holds or nothing is left that could be dropped.
\<close>

theorem prune_keeps_live_jobs:
  assumes "is_order ord" and "svc_inv s"
  shows "(\<forall>k j. gm_get (sv_jobs s) k = Some j \<and> \<not> job_finished j \<longrightarrow>
            gm_get (sv_jobs (tx_pruneLocked ord now s)) k = Some j) \<and>
    (\<forall>k j. gm_get (sv_jobs (tx_pruneLocked ord now s)) k = Some j \<longrightarrow> gm_get (sv_jobs s) k = Some j) \<and>
    (int (gm_len (sv_jobs (tx_pruneLocked ord now s))) \<le> cf_MaxRetainedJobs (sv_cfg s) \<or>
     (\<forall>k j. gm_get (sv_jobs (tx_pruneLocked ord now s)) k = Some j \<longrightarrow> \<not> job_finished j))"
proof (intro conjI)
  have ok: "gm_ok (sv_jobs s)" and ids: "\<And>k j. gm_get (sv_jobs s) k = Some j \<Longrightarrow> jb_JobID j = k"
    using assms(2) by (simp_all add: svc_inv_def)
  note get = tx_pruneLocked_get [OF assms(1) ok ids, of now]
  show "\<forall>k j. gm_get (sv_jobs s) k = Some j \<and> \<not> job_finished j \<longrightarrow>
      gm_get (sv_jobs (tx_pruneLocked ord now s)) k = Some j"
    using get by (metis option.inject)
  show kept: "\<forall>k j. gm_get (sv_jobs (tx_pruneLocked ord now s)) k = Some j \<longrightarrow> gm_get (sv_jobs s) k = Some j"
    using get by (metis option.distinct(1))
  show "int (gm_len (sv_jobs (tx_pruneLocked ord now s))) \<le> cf_MaxRetainedJobs (sv_cfg s) \<or>
     (\<forall>k j. gm_get (sv_jobs (tx_pruneLocked ord now s)) k = Some j \<longrightarrow> \<not> job_finished j)"
    using tx_pruneLocked_bound [OF assms(1) ok ids] assms(2) by (simp add: svc_inv_def cfg_ok_def)
qed

definition demo_job :: JobRecord where
  "demo_job = admitted_job demo_sha demo_clk demo_req demo_snap"

definition demo_queued :: TxService where
  "demo_queued = demo_svc\<lparr> sv_jobs := gm_set (sv_jobs demo_svc) (jb_JobID demo_job) demo_job \<rparr>"

lemma demo_queued_inv: "svc_inv demo_queued"
  unfolding demo_queued_def by (rule svc_inv_job_set [OF demo_svc_inv refl])

theorem prune_keeps_live_jobs_witness:
  "gm_get (sv_jobs (tx_pruneLocked rev 0 demo_queued)) (jb_JobID demo_job) = Some demo_job"
proof -
  have "gm_get (sv_jobs demo_queued) (jb_JobID demo_job) = Some demo_job" by (simp add: demo_queued_def)
  moreover have "\<not> job_finished demo_job"
    by (simp add: demo_job_def admitted_job_def job_finished_def Let_def)
  ultimately show ?thesis using prune_keeps_live_jobs [OF is_order_rev demo_queued_inv, of 0] by blast
qed

lemma recordSnapshot_snapshots:
  assumes "0 < cf_MaxRetainedSnap (sv_cfg s)"
  shows "sv_snapshots (recordSnapshot now snap decs path s) =
     (let snaps = sv_snapshots s @ [\<lparr> sr_Snapshot = snap, sr_Decisions = decs, sr_CreatedAt = now, sr_Path = path \<rparr>]
      in drop (length snaps - nat (cf_MaxRetainedSnap (sv_cfg s))) snaps)"
proof -
  have "nat (int n - cf_MaxRetainedSnap (sv_cfg s)) = n - nat (cf_MaxRetainedSnap (sv_cfg s))" for n
    using assms by arith
  moreover have "n - nat (cf_MaxRetainedSnap (sv_cfg s)) = 0"
    if "int n \<le> cf_MaxRetainedSnap (sv_cfg s)" for n using that by arith
  ultimately show ?thesis
    unfolding recordSnapshot_def Let_def by (simp only: if_split) (simp del: drop_append)
qed

text \<open>A refresh as the list of retained snapshots sees it.\<close>

type_synonym refresh = "gtime \<times> TxSnapshot \<times> TxDecision list \<times> string"

definition refresh_all :: "refresh list \<Rightarrow> TxService \<Rightarrow> TxService" where
  "refresh_all rs s = foldl (\<lambda>s (now, snap, decs, path). recordSnapshot now snap decs path s) s rs"

definition refresh_record :: "refresh \<Rightarrow> snapshotRecord" where
  "refresh_record r = (case r of (now, snap, decs, path) \<Rightarrow>
     \<lparr> sr_Snapshot = snap, sr_Decisions = decs, sr_CreatedAt = now, sr_Path = path \<rparr>)"

lemma refresh_all_snoc:
  "refresh_all (rs @ [(now, snap, decs, path)]) s = recordSnapshot now snap decs path (refresh_all rs s)"
  by (simp add: refresh_all_def)

lemma refresh_all_cfg: "sv_cfg (refresh_all rs s) = sv_cfg s"
  by (induction rs rule: rev_induct)
    (auto simp: refresh_all_snoc recordSnapshot_frame refresh_all_def split: prod.split)

lemma drop_drop_last:
  "drop (length (drop (length zs - m) zs @ [x]) - m) (drop (length zs - m) zs @ [x]) =
     drop (Suc (length zs) - m) (zs @ [x])"
  by (cases "length zs < m") (auto simp: Suc_diff_le)

lemma refresh_all_snapshots:
  assumes "length (sv_snapshots s) \<le> nat (cf_MaxRetainedSnap (sv_cfg s))"
    and "0 < cf_MaxRetainedSnap (sv_cfg s)"
  shows "sv_snapshots (refresh_all rs s) =
     (let snaps = sv_snapshots s @ map refresh_record rs
      in drop (length snaps - nat (cf_MaxRetainedSnap (sv_cfg s))) snaps)"
proof (induction rs rule: rev_induct)
  case Nil
  then show ?case using assms by (simp add: refresh_all_def)
next
  case (snoc r rs)
  obtain now snap decs path where r: "r = (now, snap, decs, path)" by (cases r)
  let ?m = "nat (cf_MaxRetainedSnap (sv_cfg s))"
  let ?zs = "sv_snapshots s @ map refresh_record rs"
  have "sv_snapshots (refresh_all (rs @ [r]) s) =
      (let snaps = drop (length ?zs - ?m) ?zs @ [refresh_record r] in drop (length snaps - ?m) snaps)"
    using recordSnapshot_snapshots [of "refresh_all rs s" now snap decs path] assms(2)
    unfolding r refresh_all_snoc refresh_all_cfg snoc
    by (simp add: refresh_record_def Let_def)
  also have "\<dots> = drop (Suc (length ?zs) - ?m) (?zs @ [refresh_record r])"
    unfolding Let_def by (rule drop_drop_last)
  finally show ?case by simp
qed


lemma find_rev_last:
  assumes "xs \<noteq> []" and "P (last xs)" and "\<And>y. y \<in> set ys \<Longrightarrow> \<not> P y"
  shows "find P (rev (xs @ ys)) = Some (last xs)"
proof -
  have "find P (zs @ rev xs) = Some (last xs)" if "\<And>z. z \<in> set zs \<Longrightarrow> \<not> P z" for zs
    using that
  proof (induction zs)
    case Nil
    show ?case using assms(1,2) by (cases xs rule: rev_cases) simp_all
  qed simp
  from this [of "rev ys"] show ?thesis using assms(3) by simp
qed

text \<open>
  a job admitted against the current snapshot still finds that snapshot as long as fewer
  than \<open>MaxRetainedSnap\<close> refreshes with other identifiers have happened since.
\<close>

theorem snapshot_retained:
  assumes "svc_inv s" and "sv_current s = Some snap" and "sn_SnapshotID snap \<noteq> []"
    and "int (length rs) < cf_MaxRetainedSnap (sv_cfg s)"
    and "\<forall>(now, snap', decs, path) \<in> set rs. sn_SnapshotID snap' \<noteq> sn_SnapshotID snap"
  shows "\<exists>r. snapshotRecordByID (refresh_all rs s) (sn_SnapshotID snap) = Some r \<and> sr_Snapshot r = snap"
proof -
  let ?m = "nat (cf_MaxRetainedSnap (sv_cfg s))" and ?xs = "sv_snapshots s"
  have cur: "?xs \<noteq> []" "sr_Snapshot (last ?xs) = snap"
    and len: "length ?xs \<le> ?m" and pos: "0 < cf_MaxRetainedSnap (sv_cfg s)"
    using assms(1,2) by (auto simp: svc_inv_def current_ok_def cfg_ok_def)
  let ?d = "length ?xs + length rs - ?m"
  have d: "?d < length ?xs" using assms(4) len cur(1) by (cases "sv_snapshots s") auto
  then have eq: "sv_snapshots (refresh_all rs s) = drop ?d ?xs @ map refresh_record rs"
    using refresh_all_snapshots [OF len pos, of rs] by (simp add: Let_def)
  have rs: "sn_SnapshotID (sr_Snapshot y) \<noteq> sn_SnapshotID snap" if "y \<in> set (map refresh_record rs)" for y
    using that assms(5) by (auto simp: refresh_record_def)
  have "find (\<lambda>r. sn_SnapshotID (sr_Snapshot r) = sn_SnapshotID snap) (rev (sv_snapshots (refresh_all rs s)))
      = Some (last (drop ?d ?xs))"
    unfolding eq using d cur rs by (intro find_rev_last) auto
  then show ?thesis using assms(3) d cur by (simp add: snapshotRecordByID_def)
qed

theorem snapshot_retained_witness:
  "\<exists>r. snapshotRecordByID (refresh_all [(102, demo_snap\<lparr> sn_SnapshotID := ''next'' \<rparr>, [], [])] demo_svc)
         (sn_SnapshotID demo_snap) = Some r \<and> sr_Snapshot r = demo_snap"
proof -
  have "sv_current demo_svc = Some demo_snap" "sv_cfg demo_svc = demo_cfg"
    by (simp_all add: demo_svc_def recordSnapshot_def Let_def New_TxService_def)
  then show ?thesis
    by (intro snapshot_retained [OF demo_svc_inv]) (simp_all add: demo_snap_def demo_cfg_def)
qed

section \<open>Admission\<close>

lemma norm_request_key: "br_IdempotencyKey (norm_request s req) = br_IdempotencyKey req"
  by (simp add: norm_request_def Let_def)

lemma tx_Submit_admitted:
  assumes "is_order ord" and "svc_inv s" and "TrimSpace (br_IdempotencyKey req) \<noteq> []"
    and "known_job (clk 0) s (br_IdempotencyKey req) = None"
    and "sv_current s = Some snap"
    and "snapshotFreshEnough (clk 1) (sv_current s) (cf_MaxSnapshotAge (sv_cfg s))"
    and "int (length (sv_queue s)) < cf_QueueSize (sv_cfg s)"
  shows "\<exists>job s1 s' resp. submit_admit sha ord clk (norm_request s req) s = (Inr job, s1) \<and>
    tx_Submit sha ord clk req s = (SubmitResp 202 resp, s') \<and>
    s' = s1\<lparr> sv_queue := sv_queue s @ [\<lparr> je_Request = norm_request s req, je_JobID = jb_JobID job \<rparr>] \<rparr> \<and>
    rs_JobID resp = jb_JobID job \<and> rs_State resp = JobQueued"
proof -
  obtain job s1 where adm: "submit_admit sha ord clk (norm_request s req) s = (Inr job, s1)"
    using assms(4-7) by (auto simp: submit_admit_def Let_def norm_request_key)
  have "sv_queue s1 = sv_queue s" "sv_cfg s1 = sv_cfg s"
    using submit_admit_Inr_frame [OF adm] by simp_all
  then show ?thesis
    using adm assms(3,7) by (auto simp: tx_Submit_def submit_enqueue_def Let_def)
qed

text \<open>The key a submission registered survives its own prune, unless a finished job shares it.\<close>

lemma tx_pruneLocked_idem:
  assumes "is_order ord" and "gm_ok (sv_jobs s)" and "gm_ok (sv_idempotency s)"
    and "gm_get (sv_idempotency s) key = Some r" and "now \<le> id_ExpiresAt r"
    and "\<And>k j. gm_get (sv_jobs s) k = Some j \<Longrightarrow> job_finished j \<Longrightarrow> jb_IdempotencyKey j \<noteq> key"
  shows "gm_get (sv_idempotency (tx_pruneLocked ord now s)) key = Some r"
proof -
  let ?cs = "sortJobsByTime (filter job_finished (map snd (ord (sv_jobs s))))"
  have "key \<notin> jb_IdempotencyKey ` set ?cs" using finished_in_jobs [OF assms(1,2)] assms(6) by blast
  then have pr: "gm_get (sv_idempotency (prune_jobs ?cs s)) key = Some r"
    using prune_jobs_idem assms(4) by simp
  have keep: "gm_get (sv_idempotency (pruneIdempotencyLocked now s')) key = Some r"
    if "gm_get (sv_idempotency s') key = Some r" "gm_ok (sv_idempotency s')" for s'
    using that assms(5) by (simp add: pruneIdempotencyLocked_def gm_get_filter)
  have ok: "gm_ok (sv_idempotency (prune_jobs cs s'))" if "gm_ok (sv_idempotency s')" for cs s'
    using that by (induction cs s' rule: prune_jobs.induct) auto
  from tx_pruneLocked_cases [of ord now s] show ?thesis
    using assms(3,4) keep [of s] keep [OF pr ok [OF assms(3)]] by (elim disjE) simp_all
qed

text \<open>The answer to an admitted request, before and after its envelope is queued or shed.\<close>

definition queued_answer :: "JobRecord \<Rightarrow> BuildResponse" where
  "queued_answer job = \<lparr> rs_RequestID = jb_RequestID job, rs_JobID = jb_JobID job, rs_State = JobQueued,
     rs_ReasonCode = NoReason, rs_ReasonDetail = [], rs_RetryAfterMS = 0,
     rs_SnapshotID = jb_SnapshotID job, rs_ResultURI = [], rs_TraceURI = [] \<rparr>"

definition shed_answer :: "JobRecord \<Rightarrow> BuildResponse" where
  "shed_answer job = (queued_answer job)\<lparr> rs_State := JobShed, rs_ReasonCode := ReasonCapacityExcluded,
     rs_ReasonDetail := ''queue full'' \<rparr>"

text \<open>
  What an admission leaves: the job and the record of its key are retained, nothing that is
  not finished was dropped, no job was altered, and the rest of the service is as it was. The
  key's record survives the admission's own prune unless a finished job shares the key.
\<close>

definition admitted_state ::
  "gtime \<Rightarrow> gtime \<Rightarrow> string \<Rightarrow> JobRecord \<Rightarrow> TxService \<Rightarrow> TxService \<Rightarrow> bool" where
  "admitted_state expires now key job s s' \<longleftrightarrow>
     gm_get (sv_jobs s') (jb_JobID job) = Some job \<and>
     (\<forall>k. k \<noteq> jb_JobID job \<longrightarrow>
        (gm_get (sv_jobs s') k = gm_get (sv_jobs s) k \<or>
         gm_get (sv_jobs s') k = None \<and> \<not> live s k)) \<and>
     (now \<le> expires \<and> (\<forall>k j. gm_get (sv_jobs s) k = Some j \<and> job_finished j \<longrightarrow> jb_IdempotencyKey j \<noteq> key) \<longrightarrow>
        (\<exists>r. gm_get (sv_idempotency s') key = Some r \<and> id_JobID r = jb_JobID job \<and>
             id_RequestID r = jb_RequestID job \<and> id_ExpiresAt r = expires)) \<and>
     sv_cfg s' = sv_cfg s \<and> sv_snapshots s' = sv_snapshots s \<and> sv_current s' = sv_current s \<and>
     sv_shedCount s' = sv_shedCount s \<and> sv_buildsCompleted s' = sv_buildsCompleted s \<and>
     sv_buildsFailed s' = sv_buildsFailed s"

lemma submit_admit_admitted:
  assumes "is_order ord" and "svc_inv s" and "known_job (clk 0) s (br_IdempotencyKey req) = None"
    and "sv_current s = Some snap"
    and "snapshotFreshEnough (clk 1) (sv_current s) (cf_MaxSnapshotAge (sv_cfg s))"
    and "int (length (sv_queue s)) < cf_QueueSize (sv_cfg s)"
  shows "\<exists>s1. submit_admit sha ord clk req s = (Inr (admitted_job sha clk req snap), s1) \<and>
     admitted_state (clk 4 + 1800 * second) (clk 5) (br_IdempotencyKey req) (admitted_job sha clk req snap) s s1 \<and>
     sv_queue s1 = sv_queue s"
proof -
  let ?job = "admitted_job sha clk req snap" and ?key = "br_IdempotencyKey req"
  define r where "r = \<lparr> id_JobID = jb_JobID ?job, id_RequestID = request_id sha req, id_CreatedAt = clk 3,
    id_ExpiresAt = clk 4 + 1800 * second \<rparr>"
  define s0 where "s0 = s\<lparr> sv_jobs := gm_set (sv_jobs s) (jb_JobID ?job) ?job,
    sv_idempotency := gm_set (sv_idempotency s) ?key r \<rparr>"
  let ?s1 = "tx_pruneLocked ord (clk 5) s0"
  have adm: "submit_admit sha ord clk req s = (Inr ?job, ?s1)"
    using assms(3-6) by (simp add: submit_admit_def admitted_job_def r_def s0_def Let_def)
  have nf: "\<not> job_finished ?job" by (simp add: admitted_job_def job_finished_def Let_def)
  have ok: "gm_ok (sv_jobs s0)" "gm_ok (sv_idempotency s0)" using assms(2) by (simp_all add: s0_def svc_inv_def)
  have ids: "\<And>k j. gm_get (sv_jobs s0) k = Some j \<Longrightarrow> jb_JobID j = k"
    using assms(2) by (auto simp: s0_def svc_inv_def split: if_splits)
  note get = tx_pruneLocked_get [OF assms(1) ok(1) ids, of "clk 5"]
  have job: "gm_get (sv_jobs ?s1) (jb_JobID ?job) = Some ?job"
    using get [of "jb_JobID ?job"] nf by (auto simp: s0_def)
  have others: "gm_get (sv_jobs ?s1) k = gm_get (sv_jobs s) k \<or> gm_get (sv_jobs ?s1) k = None \<and> \<not> live s k"
    if "k \<noteq> jb_JobID ?job" for k
    using get [of k] that by (auto simp: s0_def live_def)
  have key: "gm_get (sv_idempotency ?s1) ?key = Some r"
    if "clk 5 \<le> clk 4 + 1800 * second"
      and "\<forall>k j. gm_get (sv_jobs s) k = Some j \<and> job_finished j \<longrightarrow> jb_IdempotencyKey j \<noteq> ?key"
    using that nf by (intro tx_pruneLocked_idem [OF assms(1) ok]) (auto simp: s0_def r_def split: if_splits)
  have "id_RequestID r = jb_RequestID ?job" by (simp add: r_def admitted_job_def Let_def)
  then have "admitted_state (clk 4 + 1800 * second) (clk 5) ?key ?job s ?s1"
    using job others key tx_pruneLocked_frame [of ord "clk 5" s0]
    unfolding admitted_state_def by (auto simp: s0_def r_def)
  then show ?thesis using adm tx_pruneLocked_frame [of ord "clk 5" s0] by (simp add: s0_def)
qed

text \<open>The second half of a submission, on whatever state the others have left by then.\<close>

lemma submit_enqueue_answer:
  "if int (length (sv_queue s)) < cf_QueueSize (sv_cfg s)
   then submit_enqueue now req job s = (SubmitResp 202 (queued_answer job),
          s\<lparr> sv_queue := sv_queue s @ [\<lparr> je_Request = req, je_JobID = jb_JobID job \<rparr>] \<rparr>)
   else \<exists>s'. submit_enqueue now req job s = (SubmitResp 429 (shed_answer job), s') \<and>
          sv_shedCount s' = sv_shedCount s + 1 \<and> sv_queue s' = sv_queue s \<and>
          sv_idempotency s' = sv_idempotency s \<and>
          (\<forall>k. gm_get (sv_jobs s') k = (if k \<noteq> jb_JobID job then gm_get (sv_jobs s) k
             else map_option (\<lambda>j. j\<lparr> jb_State := JobShed, jb_ReasonCode := ReasonCapacityExcluded,
               jb_ReasonDetail := ''queue full'', jb_CompletedAt := now \<rparr>) (gm_get (sv_jobs s) k)))"
  by (auto simp: submit_enqueue_def queued_answer_def shed_answer_def Let_def split: option.split)


lemma demo_current: "sv_current demo_svc = Some demo_snap" "sv_cfg demo_svc = demo_cfg"
    "sv_queue demo_svc = []" "sv_jobs demo_svc = []" "sv_idempotency demo_svc = []"
  by (simp_all add: demo_svc_def recordSnapshot_def Let_def New_TxService_def)

lemma demo_fresh: "snapshotFreshEnough (demo_clk 1) (sv_current demo_svc) (cf_MaxSnapshotAge (sv_cfg demo_svc))"
  by (simp add: demo_current snapshotFreshEnough_def demo_snap_def demo_cfg_def demo_clk_def
      time_sub_def second_def max_int64_def min_int64_def)

lemma demo_key: "TrimSpace (br_IdempotencyKey demo_req) \<noteq> []"
  by (simp add: demo_req_def TrimSpace_plain plain_char_def)


text \<open>
  One critical section of the service in which every clock reading is before \<open>T\<close>: the admission half of any
  submission, its second half, the two halves of a worker's job, a refresh. Every \<open>tx_step\<close> is one.
\<close>

inductive tx_section :: "(string \<Rightarrow> string) \<Rightarrow> gtime \<Rightarrow> TxService \<Rightarrow> TxService \<Rightarrow> bool" for sha T where
  sec_admit: "tx_section sha T s s'"
  if "is_order ord" and "\<forall>i \<le> 5. clk i < T" and "submit_admit sha ord clk req s = (r, s')"
| sec_enqueue: "tx_section sha T s s'" if "submit_enqueue now req job s = (r, s')"
| sec_take: "tx_section sha T s s'"
  if "sv_queue s = env # q" and "process_begin now env (s\<lparr> sv_queue := q \<rparr>) = (jo, s')"
| sec_finish: "tx_section sha T s s'" if "process_end be clk now env job s = Some s'"
| sec_refresh: "tx_section sha T s (recordSnapshot now snap decs path s)"

lemma tx_step_section:
  assumes "tx_step sha S S'"
  shows "\<exists>T. tx_section sha T (ts_svc S) (ts_svc S')"
proof -
  have adm: "\<exists>T. tx_section sha T (ts_svc S) s'"
    if "is_order ord" "submit_admit sha ord clk req (ts_svc S) = (r, s')" for ord clk req r s'
  proof -
    have "\<forall>i \<le> 5. clk i < Max (clk ` {..5::nat}) + 1"
      by (auto simp: zle_add1_eq_le intro!: Max_ge)
    then show ?thesis using sec_admit that by blast
  qed
  from assms show ?thesis
    by (cases rule: tx_step.cases) (auto intro: adm tx_section.intros)
qed

text \<open>The key names a retained job, no other retained job carries it, and it expires at \<open>T\<close>.\<close>

definition key_registered :: "gtime \<Rightarrow> string \<Rightarrow> string \<Rightarrow> TxService \<Rightarrow> bool" where
  "key_registered T key jobID s \<longleftrightarrow>
     (\<exists>r. gm_get (sv_idempotency s) key = Some r \<and> id_JobID r = jobID \<and> id_ExpiresAt r = T) \<and>
     gm_get (sv_jobs s) jobID \<noteq> None \<and>
     (\<forall>k j. gm_get (sv_jobs s) k = Some j \<and> jb_IdempotencyKey j = key \<longrightarrow> k = jobID)"

lemma key_registered_answer:
  assumes "svc_inv s" and "key_registered T (br_IdempotencyKey req) jobID s"
    and "TrimSpace (br_IdempotencyKey req) \<noteq> []" and "clk 0 < T"
  shows "\<exists>resp. tx_Submit sha ord clk req s = (SubmitResp 202 resp, s) \<and> rs_JobID resp = jobID"
  using assms svc_inv_job_id [OF assms(1)]
  by (auto simp: key_registered_def tx_Submit_def submit_admit_def known_job_def norm_request_key
      known_response_def Let_def)

text \<open>A prune that keeps the job keeps its key.\<close>

lemma prune_jobs_keeps_key:
  assumes "\<And>c. c \<in> set cs \<Longrightarrow> jb_IdempotencyKey c = key \<Longrightarrow> jb_JobID c = jobID"
    and "gm_get (sv_jobs (prune_jobs cs s)) jobID \<noteq> None"
  shows "gm_get (sv_idempotency (prune_jobs cs s)) key = gm_get (sv_idempotency s) key"
  using assms
proof (induction cs s rule: prune_jobs.induct)
  case (2 old cs s)
  show ?case
  proof (cases "int (gm_len (sv_jobs s)) > cf_MaxRetainedJobs (sv_cfg s)")
    case True
    let ?s' = "s\<lparr> sv_jobs := gm_del (sv_jobs s) (jb_JobID old),
      sv_results := gm_del (sv_results s) (jb_JobID old),
      sv_idempotency := gm_del (sv_idempotency s) (jb_IdempotencyKey old) \<rparr>"
    have kept: "gm_get (sv_jobs (prune_jobs cs ?s')) jobID \<noteq> None" using "2.prems"(2) True by simp
    then have "gm_get (sv_jobs ?s') jobID \<noteq> None" using prune_jobs_get [of cs ?s' jobID] by auto
    then have "jb_IdempotencyKey old \<noteq> key" using "2.prems"(1) [of old] by auto
    then show ?thesis using "2.IH" [OF True] "2.prems"(1) kept True by simp
  qed simp
qed simp

lemma tx_pruneLocked_registered:
  assumes "is_order ord" and "gm_ok (sv_jobs s)" and "gm_ok (sv_idempotency s)"
    and ids: "\<And>k j. gm_get (sv_jobs s) k = Some j \<Longrightarrow> jb_JobID j = k"
    and "key_registered T key jobID s" and "now \<le> T"
    and "gm_get (sv_jobs (tx_pruneLocked ord now s)) jobID \<noteq> None"
  shows "key_registered T key jobID (tx_pruneLocked ord now s)"
proof -
  let ?cs = "sortJobsByTime (filter job_finished (map snd (ord (sv_jobs s))))"
  obtain r where r: "gm_get (sv_idempotency s) key = Some r" "id_JobID r = jobID" "id_ExpiresAt r = T"
    and uniq: "\<And>k j. gm_get (sv_jobs s) k = Some j \<Longrightarrow> jb_IdempotencyKey j = key \<Longrightarrow> k = jobID"
    using assms(5) by (auto simp: key_registered_def)
  have keep: "gm_get (sv_idempotency (pruneIdempotencyLocked now s')) key = Some r"
    if "gm_get (sv_idempotency s') key = Some r" "gm_ok (sv_idempotency s')" for s'
    using that assms(6) r(3) by (simp add: pruneIdempotencyLocked_def gm_get_filter)
  have ok: "gm_ok (sv_idempotency (prune_jobs cs s'))" if "gm_ok (sv_idempotency s')" for cs s'
    using that by (induction cs s' rule: prune_jobs.induct) auto
  have cs: "jb_JobID c = jobID" if "c \<in> set ?cs" "jb_IdempotencyKey c = key" for c
    using that finished_in_jobs [OF assms(1,2)] uniq ids by blast
  have "gm_get (sv_idempotency (tx_pruneLocked ord now s)) key = Some r"
    using tx_pruneLocked_cases [of ord now s]
  proof (elim disjE)
    assume eq: "tx_pruneLocked ord now s = pruneIdempotencyLocked now (prune_jobs ?cs s)"
    then have "gm_get (sv_jobs (prune_jobs ?cs s)) jobID \<noteq> None"
      using assms(7) by (simp add: pruneIdempotency_frame)
    from prune_jobs_keeps_key [OF cs this] show ?thesis
      unfolding eq by (intro keep ok assms(3)) (simp_all add: r(1))
  qed (simp_all add: keep r(1) assms(3))
  moreover have "k = jobID"
    if "gm_get (sv_jobs (tx_pruneLocked ord now s)) k = Some j" "jb_IdempotencyKey j = key" for k j
    using tx_pruneLocked_get [OF assms(1,2) ids, of now k] uniq that by (metis option.distinct(1))
  ultimately show ?thesis using assms(7) r by (auto simp: key_registered_def)
qed

lemma key_registered_frame:
  assumes "key_registered T key jobID s" and "sv_idempotency s' = sv_idempotency s"
    and "gm_get (sv_jobs s') jobID \<noteq> None"
    and "\<And>k j. gm_get (sv_jobs s') k = Some j \<Longrightarrow>
      \<exists>j'. gm_get (sv_jobs s) k = Some j' \<and> jb_IdempotencyKey j' = jb_IdempotencyKey j"
  shows "key_registered T key jobID s'"
  using assms unfolding key_registered_def by metis

lemma submit_admit_registered:
  assumes "is_order ord" and "\<forall>i \<le> 5. clk i < T" and "submit_admit sha ord clk req s = (r, s')"
    and "svc_inv s" and "key_registered T key jobID s" and "gm_get (sv_jobs s') jobID \<noteq> None"
  shows "key_registered T key jobID s'"
proof (cases r)
  case (Inl a)
  then have "sv_jobs s' = sv_jobs s" "sv_idempotency s' = sv_idempotency s"
    using assms(3) by (auto simp: submit_admit_def Let_def split: option.splits if_splits)
  then show ?thesis using assms(5) by (simp add: key_registered_def)
next
  case (Inr job)
  then have adm: "submit_admit sha ord clk req s = (Inr job, s')" using assms(3) by simp
  have clk: "clk 0 < T" "clk 5 \<le> T" using assms(2) by (simp_all add: less_imp_le)
  obtain rc where new: "jb_IdempotencyKey job = br_IdempotencyKey req"
    and s': "s' = tx_pruneLocked ord (clk 5) (s\<lparr> sv_jobs := gm_set (sv_jobs s) (jb_JobID job) job,
        sv_idempotency := gm_set (sv_idempotency s) (br_IdempotencyKey req) rc \<rparr>)" (is "_ = tx_pruneLocked _ _ ?s0")
    using submit_admit_Inr [OF adm] by (auto simp: admitted_job_def Let_def)
  have other: "br_IdempotencyKey req \<noteq> key"
    using adm assms(5) clk(1)
    by (auto simp: submit_admit_def known_job_def key_registered_def Let_def split: option.splits)
  have ok: "gm_ok (sv_jobs ?s0)" "gm_ok (sv_idempotency ?s0)" using assms(4) by (simp_all add: svc_inv_def)
  have ids: "\<And>k j. gm_get (sv_jobs ?s0) k = Some j \<Longrightarrow> jb_JobID j = k"
    using assms(4) by (auto simp: svc_inv_def split: if_splits)
  have reg: "key_registered T key jobID ?s0"
    using assms(5) other new by (auto simp: key_registered_def split: if_splits)
  show ?thesis
    unfolding s' using tx_pruneLocked_registered [OF assms(1) ok ids reg clk(2)] assms(6) s' by simp
qed

lemma tx_section_registered:
  assumes "tx_section sha T s s'" and "svc_inv s" and "key_registered T key jobID s"
    and "gm_get (sv_jobs s') jobID \<noteq> None"
  shows "svc_inv s' \<and> key_registered T key jobID s'"
  using assms(1)
proof (cases rule: tx_section.cases)
  case (sec_admit ord clk req r)
  then show ?thesis
    using submit_admit_inv [of ord s sha clk req] submit_admit_registered assms(2-4) by force
next
  case (sec_enqueue now req job r)
  then have "svc_inv s'" using submit_enqueue_inv [OF assms(2), of now req job] by simp
  moreover have "key_registered T key jobID s'"
    using sec_enqueue
    by (intro key_registered_frame [OF assms(3) _ assms(4)])
      (auto simp: submit_enqueue_def Let_def split: if_splits option.splits)
  ultimately show ?thesis ..
next
  case (sec_take env q now jo)
  have "svc_inv (s\<lparr> sv_queue := q \<rparr>)" using assms(2) sec_take(1) by (simp add: svc_inv_def)
  then have "svc_inv s'" using process_begin_inv [of _ now env] sec_take(2) by fastforce
  moreover have "key_registered T key jobID s'"
    using sec_take
    by (intro key_registered_frame [OF assms(3) _ assms(4)])
      (auto simp: process_begin_def Let_def split: if_splits option.splits)
  ultimately show ?thesis ..
next
  case (sec_finish be clk now env job)
  have "key_registered T key jobID s'"
    using sec_finish
    by (intro key_registered_frame [OF assms(3) _ assms(4)])
      (auto simp: process_end_def failJob_def completeJob_def recordResult_def Let_def
        split: if_splits option.splits sum.splits prod.splits)
  then show ?thesis using process_end_inv [OF assms(2) sec_finish] by simp
next
  case (sec_refresh now snap decs path)
  then show ?thesis
    using recordSnapshot_inv [OF assms(2)] assms(3) by (simp add: key_registered_def recordSnapshot_def Let_def)
qed

text \<open>
  C22: submission is idempotent while the job is retained and its key has not expired. Once a
  request has been admitted whose key no retained job carries, every later submission with that key, however it
  differs otherwise, is answered 202 with the same job and changes nothing: after any
  sequence of critical sections of other submissions, of this one's second half, of workers and of refreshes
  that read the clock before the expiry (30 minutes after the admission) and keep the job.
  A job may be dropped once it is finished, and a retained job of an earlier use of the key
  takes the new registration with it when it is dropped; hence the two conditions.
\<close>

theorem submit_idempotent:
  assumes "is_order ord" and "svc_inv s" and "submit_admit sha ord clk req s = (Inr job, s1)"
    and "\<forall>k j. gm_get (sv_jobs s) k = Some j \<longrightarrow> jb_IdempotencyKey j \<noteq> br_IdempotencyKey req"
    and "clk 5 \<le> clk 4 + 1800 * second"
    and "(\<lambda>a b. tx_section sha (clk 4 + 1800 * second) a b \<and> gm_get (sv_jobs b) (jb_JobID job) \<noteq> None)\<^sup>*\<^sup>* s1 s2"
    and "br_IdempotencyKey req' = br_IdempotencyKey req" and "TrimSpace (br_IdempotencyKey req) \<noteq> []"
    and "clk' 0 < clk 4 + 1800 * second"
  shows "\<exists>resp. tx_Submit sha ord' clk' req' s2 = (SubmitResp 202 resp, s2) \<and> rs_JobID resp = jb_JobID job"
proof -
  let ?T = "clk 4 + 1800 * second" and ?key = "br_IdempotencyKey req"
  obtain r where new: "jb_IdempotencyKey job = ?key" "id_JobID r = jb_JobID job" "id_ExpiresAt r = ?T"
    and s1: "s1 = tx_pruneLocked ord (clk 5) (s\<lparr> sv_jobs := gm_set (sv_jobs s) (jb_JobID job) job,
        sv_idempotency := gm_set (sv_idempotency s) ?key r \<rparr>)" (is "_ = tx_pruneLocked _ _ ?s0")
    using submit_admit_Inr [OF assms(3)] by (auto simp: admitted_job_def Let_def)
  have ok: "gm_ok (sv_jobs ?s0)" "gm_ok (sv_idempotency ?s0)" using assms(2) by (simp_all add: svc_inv_def)
  have ids: "\<And>k j. gm_get (sv_jobs ?s0) k = Some j \<Longrightarrow> jb_JobID j = k"
    using assms(2) by (auto simp: svc_inv_def split: if_splits)
  have "key_registered ?T ?key (jb_JobID job) ?s0"
    using assms(4) new by (auto simp: key_registered_def split: if_splits)
  moreover have "gm_get (sv_jobs s1) (jb_JobID job) \<noteq> None"
    using submit_admit_live(2) [OF assms(1-3)] by (auto simp: live_def)
  ultimately have "key_registered ?T ?key (jb_JobID job) s1"
    using tx_pruneLocked_registered [OF assms(1) ok ids _ assms(5)] s1 by simp
  moreover have "svc_inv s1" using submit_admit_inv [OF assms(1,2), of sha clk req] assms(3) by simp
  ultimately have start: "svc_inv s1 \<and> key_registered ?T ?key (jb_JobID job) s1" by simp
  have "svc_inv s2 \<and> key_registered ?T ?key (jb_JobID job) s2"
    using assms(6) by (induction rule: rtranclp_induct) (use start in \<open>auto dest: tx_section_registered\<close>)
  then show ?thesis using key_registered_answer [of s2 ?T req'] assms(7-9) by simp
qed

theorem submit_idempotent_witness:
  "\<exists>job s1 s2 resp. submit_admit demo_sha rev demo_clk demo_req demo_svc = (Inr job, s1) \<and>
     submit_enqueue 7 demo_req job s1 = (SubmitResp 202 (queued_answer job), s2) \<and>
     tx_Submit demo_sha (\<lambda>xs. xs) (\<lambda>i. 200 * second) (demo_req\<lparr> br_PriorityClass := ''low'' \<rparr>) s2 =
       (SubmitResp 202 resp, s2) \<and> rs_JobID resp = jb_JobID job"
proof -
  have new: "known_job (demo_clk 0) demo_svc (br_IdempotencyKey demo_req) = None"
    by (simp add: known_job_def demo_current)
  let ?job = "admitted_job demo_sha demo_clk demo_req demo_snap"
  obtain s1 where adm: "submit_admit demo_sha rev demo_clk demo_req demo_svc = (Inr ?job, s1)"
      and st: "admitted_state (demo_clk 4 + 1800 * second) (demo_clk 5) (br_IdempotencyKey demo_req) ?job demo_svc s1"
      "sv_queue s1 = []"
    using submit_admit_admitted [OF is_order_rev demo_svc_inv new demo_current(1) demo_fresh, of demo_sha]
    by (auto simp: demo_current demo_cfg_def)
  have cfg: "sv_cfg s1 = demo_cfg" using st(1) by (simp add: admitted_state_def demo_current)
  define s2 where "s2 = s1\<lparr> sv_queue := [\<lparr> je_Request = demo_req, je_JobID = jb_JobID ?job \<rparr>] \<rparr>"
  have enq: "submit_enqueue 7 demo_req ?job s1 = (SubmitResp 202 (queued_answer ?job), s2)"
    using submit_enqueue_answer [of s1 7 demo_req ?job] st(2) cfg by (simp add: demo_cfg_def s2_def)
  have "gm_get (sv_jobs s2) (jb_JobID ?job) \<noteq> None" using st(1) by (simp add: admitted_state_def s2_def)
  then have "(\<lambda>a b. tx_section demo_sha (demo_clk 4 + 1800 * second) a b \<and>
      gm_get (sv_jobs b) (jb_JobID ?job) \<noteq> None)\<^sup>*\<^sup>* s1 s2"
    using sec_enqueue [OF enq] by (intro r_into_rtranclp) simp
  note run = this
  have "\<exists>resp. tx_Submit demo_sha (\<lambda>xs. xs) (\<lambda>i. 200 * second) (demo_req\<lparr> br_PriorityClass := ''low'' \<rparr>) s2 =
      (SubmitResp 202 resp, s2) \<and> rs_JobID resp = jb_JobID ?job"
    by (rule submit_idempotent [OF is_order_rev demo_svc_inv adm _ _ run])
      (simp_all add: demo_current demo_key, simp_all add: demo_clk_def second_def)
  then show ?thesis using adm enq by blast
qed

section \<open>The worker\<close>

lemma gm_ok_buildChains:
  assumes "gm_ok (sn_PendingBySender snap)"
  shows "gm_ok (buildChains ordS ordN snap incl)"
proof -
  have "gm_ok (foldl (\<lambda>cs (sender, queued).
      gm_set cs sender (mergeSenderChain ordN (gm_get0 [] cs sender) queued)) cs xs)" if "gm_ok cs" for cs :: "(string, Transaction list) gomap" and xs
    using that by (induction xs arbitrary: cs) auto
  then show ?thesis
    using gm_ok_cloneChains [OF assms] by (simp add: buildChains_def Let_def)
qed

lemma sum_gas_gas_used:
  assumes "gas_used txs < 2 ^ 64"
  shows "unat (sum_gas txs) = gas_used txs"
proof -
  have gen: "foldl (\<lambda>acc tx. acc + tx_GasLimit tx) a txs = a + of_nat (gas_used txs)" for a :: u64
    by (induction txs arbitrary: a) (simp_all add: gas_used_def)
  show ?thesis using gen [of 0] assms by (simp add: sum_gas_def unsigned_of_nat take_bit_nat_eq_self)
qed

lemma gas_limit_of_less: "gas_limit_of g < 2 ^ 64"
proof -
  have "unat g < 2 ^ LENGTH(64)" by (rule unsigned_less)
  then show ?thesis by (simp add: gas_limit_of_def)
qed

lemma sum_revenue_scores:
  "sum_revenue txs = (\<Sum>tx\<leftarrow>txs. case tx_Score tx of None \<Rightarrow> 0 | Some x \<Rightarrow> x)"
proof -
  have "foldl (\<lambda>acc tx. case tx_Score tx of None \<Rightarrow> acc | Some x \<Rightarrow> acc + x) a txs =
      a + (\<Sum>tx\<leftarrow>txs. case tx_Score tx of None \<Rightarrow> 0 | Some x \<Rightarrow> x)" for a :: int
    by (induction txs arbitrary: a) (auto split: option.split)
  from this [of 0] show ?thesis by (simp add: sum_revenue_def)
qed

text \<open>
  C25: what building a candidate gives under a validated configuration. If the run time can make
  the slices of the selection, there is a candidate and a trace, the projection of a complete greedy run over the
  chains of the snapshot: \<open>SelectedTxs\<close> is what the run took, in that order; the decisions are the acceptances of it
  and, after the snapshot's own decisions, the refusals. The totals are true: \<open>TotalGas\<close> is the sum of the
  selected gas limits with no wrap-around and within the configured limit, \<open>EstimatedRevenue\<close> is the decimal form of the
  sum of the selected scores, \<open>TxCount\<close> is within the configured count. Trace and candidate name each other and the same
  snapshot. If the slices cannot be made, the build panics; \<open>Validate\<close> does not exclude this.
\<close>

theorem buildCandidate_totals:
  assumes "cfg_ok cfg" and "build_env_ok be" and "gm_ok (sn_PendingBySender snap)"
  shows "let chs = buildChains (be_ordSenders be) (be_ordNonces be) snap (cf_IncludeQueued cfg) in
    if 168 * cf_MaxTransactions cfg \<le> 2 ^ 48
    then \<exists>c t log. buildCandidate be cfg req snap decs startedAt clk = Some (c, t) \<and>
      greedy_run chs (gas_limit_of (cf_MaxGas cfg)) (cf_MaxTransactions cfg) log \<and>
      greedy_complete chs (cf_MaxTransactions cfg) log \<and> ca_SelectedTxs c = log_taken chs log \<and>
      tr_Accepted t = map (\<lambda>tx. acceptDecision tx ''selection'') (ca_SelectedTxs c) \<and>
      tr_Rejected t = decs @ map refuse (log_refused chs log) \<and> tr_RankingOrder t = log_ranking chs log \<and>
      unat (ca_TotalGas c) = gas_used (ca_SelectedTxs c) \<and>
      gas_used (ca_SelectedTxs c) \<le> gas_limit_of (cf_MaxGas cfg) \<and>
      ca_EstimatedRevenue c =
        show_int 10 (\<Sum>tx\<leftarrow>ca_SelectedTxs c. case tx_Score tx of None \<Rightarrow> 0 | Some x \<Rightarrow> x) \<and>
      ca_TxCount c = length (ca_SelectedTxs c) \<and> int (ca_TxCount c) \<le> cf_MaxTransactions cfg \<and>
      ca_SelectedOrder c = map tx_Hash (ca_SelectedTxs c) \<and> tr_SelectionOrder t = ca_SelectedOrder c \<and>
      tr_TraceID t = ca_TraceID c \<and> tr_CandidateID t = ca_CandidateID c \<and>
      ca_RejectedCount c = length (tr_Rejected t) \<and>
      ca_SnapshotID c = sn_SnapshotID snap \<and> tr_SnapshotID t = sn_SnapshotID snap
    else buildCandidate be cfg req snap decs startedAt clk = None"
proof -
  let ?chs = "buildChains (be_ordSenders be) (be_ordNonces be) snap (cf_IncludeQueued cfg)"
  have pos: "0 \<le> cf_MaxTransactions cfg" using assms(1) by (simp add: cfg_ok_def)
  have ord: "is_order (be_ordChains be)" using assms(2) by (simp add: build_env_ok_def)
  obtain log stop where log: "greedy_run ?chs (gas_limit_of (cf_MaxGas cfg)) (cf_MaxTransactions cfg) log"
      "greedy_complete ?chs (cf_MaxTransactions cfg) log"
    and res: "168 * cf_MaxTransactions cfg \<le> 2 ^ 48 \<Longrightarrow>
      selectTransactions (be_ordChains be) ?chs (cf_MaxGas cfg) (cf_MaxTransactions cfg) =
       Some (log_taken ?chs log, map (\<lambda>tx. acceptDecision tx ''selection'') (log_taken ?chs log),
             map refuse (log_refused ?chs log), log_ranking ?chs log, stop)"
    using select_result [OF ord gm_ok_buildChains [OF assms(3)] pos] by metis
  have lim: "gas_used (log_taken ?chs log) \<le> gas_limit_of (cf_MaxGas cfg)"
      "int (length (log_taken ?chs log)) \<le> cf_MaxTransactions cfg"
    using greedy_run_bounds [OF log(1)] pos by blast+
  then have "unat (sum_gas (log_taken ?chs log)) = gas_used (log_taken ?chs log)"
    using sum_gas_gas_used gas_limit_of_less le_less_trans by blast
  then show ?thesis
    using log lim res pos buildCandidate_None [of be cfg req snap decs startedAt clk]
    by (auto simp: buildCandidate_def Let_def hashesOf_def sum_revenue_scores count_ok_def)
qed

definition demo_env :: build_env where
  "demo_env = \<lparr> be_sha = demo_sha, be_marshalCfg = cf_RPCURL, be_ordSenders = rev, be_ordNonces = rev,
     be_ordChains = rev, be_ordJobs = rev, be_persist = (\<lambda>cfg c t s. Inr (''a'', ''t'')) \<rparr>"

lemma demo_env_ok: "build_env_ok demo_env"
  by (simp add: build_env_ok_def demo_env_def)

theorem buildCandidate_totals_witness:
  "\<exists>c t log. buildCandidate demo_env demo_cfg demo_req demo_snap [] 0 demo_clk = Some (c, t) \<and>
    greedy_run demo_chains 120 10 log \<and> greedy_complete demo_chains 10 log \<and>
    ca_SelectedTxs c = log_taken demo_chains log \<and>
    unat (ca_TotalGas c) = gas_used (ca_SelectedTxs c) \<and> gas_used (ca_SelectedTxs c) \<le> 120 \<and>
    ca_EstimatedRevenue c =
      show_int 10 (\<Sum>tx\<leftarrow>ca_SelectedTxs c. case tx_Score tx of None \<Rightarrow> 0 | Some x \<Rightarrow> x)"
proof -
  have chs: "buildChains (be_ordSenders demo_env) (be_ordNonces demo_env) demo_snap (cf_IncludeQueued demo_cfg) = demo_chains"
    by (simp add: buildChains_def cloneChains_def demo_snap_def demo_cfg_def demo_chains_def)
  have "gm_ok (sn_PendingBySender demo_snap)" by (simp add: demo_snap_def demo_chains_def gm_ok_def)
  from buildCandidate_totals [OF demo_cfg_ok demo_env_ok this, of demo_req "[]" 0 demo_clk]
  have "\<exists>c t log. buildCandidate demo_env demo_cfg demo_req demo_snap [] 0 demo_clk = Some (c, t) \<and>
      greedy_run demo_chains (gas_limit_of 120) 10 log \<and> greedy_complete demo_chains 10 log \<and>
      ca_SelectedTxs c = log_taken demo_chains log \<and>
      unat (ca_TotalGas c) = gas_used (ca_SelectedTxs c) \<and> gas_used (ca_SelectedTxs c) \<le> gas_limit_of 120 \<and>
      ca_EstimatedRevenue c =
        show_int 10 (\<Sum>tx\<leftarrow>ca_SelectedTxs c. case tx_Score tx of None \<Rightarrow> 0 | Some x \<Rightarrow> x)"
    unfolding chs Let_def by (simp add: demo_cfg_def) blast
  moreover have "gas_limit_of 120 = 120" by (simp add: gas_limit_of_def)
  ultimately show ?thesis by simp
qed


lemma snapshotRecordByID_id:
  "snapshotRecordByID s k = Some r \<Longrightarrow> sn_SnapshotID (sr_Snapshot r) = k"
  by (auto simp: snapshotRecordByID_def find_Some_iff split: if_splits)

lemma process_end_completed:
  assumes "process_end be clk t env job s = Some s'"
    and "sv_buildsCompleted s' \<noteq> sv_buildsCompleted s"
  shows "\<exists>r. gm_get (sv_results s') (jb_JobID job) = Some r \<and> re_SnapshotID r = jb_SnapshotID job \<and>
           re_State r = JobCompleted"
proof (cases "snapshotRecordByID s (jb_SnapshotID job)")
  case None
  then show ?thesis using assms by (auto simp: process_end_def failJob_def Let_def split: option.splits)
next
  case (Some r)
  then show ?thesis
    using assms snapshotRecordByID_id [OF Some]
    by (auto simp: process_end_def failJob_def completeJob_def recordResult_def Let_def
        split: option.splits sum.splits prod.splits if_splits)
qed

text \<open>
  C26: a worker that takes a retained job ends, and panics in one case only: the job's snapshot is
  retained and the configured count is one the run time cannot make the slices of the selection for. Otherwise
  the job is finished, exactly one of the two build counters moved by one and says which way it
  ended, a job whose snapshot is gone fails, and a completed job has a retained result built from the
  snapshot it was admitted against.
\<close>

theorem processJob_finishes:
  assumes "svc_inv s" and "gm_get (sv_jobs s) (je_JobID env) = Some job"
  shows "if snapshotRecordByID s (jb_SnapshotID job) \<noteq> None \<and> 2 ^ 48 < 168 * cf_MaxTransactions (sv_cfg s)
   then processJob be clk t env s = None
   else \<exists>s'. processJob be clk t env s = Some s' \<and> svc_inv s' \<and>
    (job_state s' (je_JobID env) = Some JobFailed \<and>
       sv_buildsFailed s' = sv_buildsFailed s + 1 \<and> sv_buildsCompleted s' = sv_buildsCompleted s \<or>
     job_state s' (je_JobID env) = Some JobCompleted \<and> snapshotRecordByID s (jb_SnapshotID job) \<noteq> None \<and>
       sv_buildsCompleted s' = sv_buildsCompleted s + 1 \<and> sv_buildsFailed s' = sv_buildsFailed s \<and>
       (\<exists>r. gm_get (sv_results s') (je_JobID env) = Some r \<and> re_SnapshotID r = jb_SnapshotID job))"
proof -
  let ?job = "job\<lparr> jb_State := JobRunning, jb_StartedAt := t \<rparr>"
  define s1 where "s1 = s\<lparr> sv_jobs := gm_set (sv_jobs s) (je_JobID env) ?job \<rparr>"
  have begun: "process_begin t env s = (Some ?job, s1)"
    using assms(2) by (simp add: process_begin_def s1_def Let_def)
  have inv1: "svc_inv s1" using process_begin_inv [OF assms(1), of t env] begun by simp
  have id: "jb_JobID ?job = je_JobID env" using svc_inv_job_id [OF assms] by simp
  have present: "job_state s1 (je_JobID env) \<noteq> None" by (simp add: s1_def job_state_def)
  have same: "sv_buildsCompleted s1 = sv_buildsCompleted s" "sv_buildsFailed s1 = sv_buildsFailed s"
      "snapshotRecordByID s1 (jb_SnapshotID ?job) = snapshotRecordByID s (jb_SnapshotID job)"
      "sv_cfg s1 = sv_cfg s"
    by (simp_all add: s1_def snapshotRecordByID_def)
  have run: "processJob be clk t env s = process_end be clk t env ?job s1"
    using begun by (simp add: processJob_def)
  have pos: "0 \<le> cf_MaxTransactions (sv_cfg s)" using assms(1) by (simp add: svc_inv_def cfg_ok_def)
  show ?thesis
  proof (cases "process_end be clk t env ?job s1")
    case None
    then have "snapshotRecordByID s (jb_SnapshotID job) \<noteq> None \<and> 2 ^ 48 < 168 * cf_MaxTransactions (sv_cfg s)"
      using process_end_None [of be clk t env ?job s1] same pos unfolding count_ok_def by auto
    then show ?thesis using run None by simp
  next
    case (Some s')
    then have ok: "\<not> (snapshotRecordByID s (jb_SnapshotID job) \<noteq> None \<and> 2 ^ 48 < 168 * cf_MaxTransactions (sv_cfg s))"
      using process_end_None [of be clk t env ?job s1] same unfolding count_ok_def by auto
    note res = process_end_result [OF Some]
    have st: "job_state s' (je_JobID env) =
        Some (if sv_buildsCompleted s' = sv_buildsCompleted s1 then JobFailed else JobCompleted)"
      using res present unfolding id by auto
    have up: "sv_buildsCompleted s' = sv_buildsCompleted s1 \<or>
        sv_buildsCompleted s' = sv_buildsCompleted s1 + 1 \<and> snapshotRecordByID s1 (jb_SnapshotID ?job) \<noteq> None"
      using Some by (auto simp: process_end_def failJob_def completeJob_def recordResult_def Let_def
          split: option.splits sum.splits prod.splits if_splits)
    have cnt: "sv_buildsCompleted s' + sv_buildsFailed s' = sv_buildsCompleted s1 + sv_buildsFailed s1 + 1"
      using res by blast
    have fin: "\<exists>s''. processJob be clk t env s = Some s'' \<and> svc_inv s'' \<and>
      (job_state s'' (je_JobID env) = Some JobFailed \<and>
         sv_buildsFailed s'' = sv_buildsFailed s + 1 \<and> sv_buildsCompleted s'' = sv_buildsCompleted s \<or>
       job_state s'' (je_JobID env) = Some JobCompleted \<and> snapshotRecordByID s (jb_SnapshotID job) \<noteq> None \<and>
         sv_buildsCompleted s'' = sv_buildsCompleted s + 1 \<and> sv_buildsFailed s'' = sv_buildsFailed s \<and>
         (\<exists>r. gm_get (sv_results s'') (je_JobID env) = Some r \<and> re_SnapshotID r = jb_SnapshotID job))"
      using run Some process_end_inv [OF inv1 Some] st up cnt same process_end_completed [OF Some] id
      by (cases "sv_buildsCompleted s' = sv_buildsCompleted s1") auto
    show ?thesis unfolding if_not_P [OF ok] by (rule fin)
  qed
qed

theorem processJob_finishes_witness:
  "let env = \<lparr> je_Request = demo_req, je_JobID = jb_JobID demo_job \<rparr> in
   \<exists>s'. processJob demo_env demo_clk 7 env demo_queued = Some s' \<and> svc_inv s' \<and>
    (job_state s' (je_JobID env) = Some JobFailed \<and>
       sv_buildsFailed s' = sv_buildsFailed demo_queued + 1 \<and>
       sv_buildsCompleted s' = sv_buildsCompleted demo_queued \<or>
     job_state s' (je_JobID env) = Some JobCompleted \<and>
       snapshotRecordByID demo_queued (jb_SnapshotID demo_job) \<noteq> None \<and>
       sv_buildsCompleted s' = sv_buildsCompleted demo_queued + 1 \<and>
       sv_buildsFailed s' = sv_buildsFailed demo_queued \<and>
       (\<exists>r. gm_get (sv_results s') (je_JobID env) = Some r \<and> re_SnapshotID r = jb_SnapshotID demo_job))"
  using processJob_finishes [OF demo_queued_inv, of "\<lparr> je_Request = demo_req, je_JobID = jb_JobID demo_job \<rparr>"
      demo_job demo_env demo_clk 7]
  by (simp add: demo_queued_def demo_current demo_cfg_def)

section \<open>Every interleaving\<close>

text \<open>
  C3: however submitters, workers and refreshes interleave, the queue, the retained snapshots and
  the busy workers stay within their configured bounds, and the counters account for
  every request: admitted plus refused equals shed plus completed plus failed plus dropped plus
  what is still in flight.
\<close>

theorem reachable_bounds_and_accounting:
  assumes "tx_reachable sha cfg S" and "Validate cfg = None"
  shows "int (length (sv_queue (ts_svc S))) \<le> cf_QueueSize cfg \<and>
    int (length (sv_snapshots (ts_svc S))) \<le> cf_MaxRetainedSnap cfg \<and>
    int (length (ts_running S)) \<le> cf_WorkerCount cfg \<and>
    int (ts_admitted S) + int (ts_refused S) =
      sv_shedCount (ts_svc S) + sv_buildsCompleted (ts_svc S) + sv_buildsFailed (ts_svc S) +
      int (ts_dropped S) + int (in_flight S)"
  using tx_reachable_inv [OF assms(1) Validate_cfg_ok [OF assms(2)]]
  by (auto simp: tx_sys_inv_def svc_inv_def)

lemma demo_Validate: "Validate demo_cfg = None"
  by (simp add: Validate_def demo_cfg_def second_def)

definition demo_sys :: tx_sys where
  "demo_sys = (tx_init demo_cfg)\<lparr> ts_svc := demo_svc \<rparr>"

lemma demo_reachable: "tx_reachable demo_sha demo_cfg demo_sys"
  using tx_reach_step [OF tx_reach_init ts_refresh [of demo_sha "tx_init demo_cfg" "100 * second" demo_snap "[]" "[]"]]
  by (simp add: demo_sys_def demo_svc_def tx_init_def)

theorem reachable_bounds_and_accounting_witness:
  "int (length (sv_queue (ts_svc demo_sys))) \<le> cf_QueueSize demo_cfg \<and>
   int (length (sv_snapshots (ts_svc demo_sys))) \<le> cf_MaxRetainedSnap demo_cfg \<and>
   int (length (ts_running demo_sys)) \<le> cf_WorkerCount demo_cfg \<and>
   int (ts_admitted demo_sys) + int (ts_refused demo_sys) =
     sv_shedCount (ts_svc demo_sys) + sv_buildsCompleted (ts_svc demo_sys) + sv_buildsFailed (ts_svc demo_sys) +
     int (ts_dropped demo_sys) + int (in_flight demo_sys)"
  by (rule reachable_bounds_and_accounting [OF demo_reachable demo_Validate])

text \<open>
  C11: no job is ever stranded: in every reachable state a job that is not finished is held by a
  submitter about to queue it, sits in the queue, or is being processed; and the job a
  worker holds can always be finished, but for the one panic of the worker: a retained snapshot and
  a configured count the slices of the selection cannot be made for.
\<close>

theorem reachable_no_stranded_job:
  assumes "tx_reachable sha cfg S" and "Validate cfg = None"
  shows "(\<forall>k. live (ts_svc S) k \<longrightarrow> k \<in> owned S) \<and>
    (\<forall>(env, job, t) \<in> set (ts_running S). \<forall>be clk.
       if snapshotRecordByID (ts_svc S) (jb_SnapshotID job) \<noteq> None \<and> 2 ^ 48 < 168 * cf_MaxTransactions cfg
       then process_end be clk t env job (ts_svc S) = None
       else \<exists>s'. process_end be clk t env job (ts_svc S) = Some s' \<and> \<not> live s' (je_JobID env))"
proof -
  have inv: "tx_sys_inv cfg S" using tx_reachable_inv [OF assms(1) Validate_cfg_ok [OF assms(2)]] .
  then have svc: "svc_inv (ts_svc S)" and cfg: "sv_cfg (ts_svc S) = cfg" by (simp_all add: tx_sys_inv_def)
  have pos: "0 \<le> cf_MaxTransactions cfg" using svc cfg by (auto simp: svc_inv_def cfg_ok_def)
  have "if snapshotRecordByID (ts_svc S) (jb_SnapshotID job) \<noteq> None \<and> 2 ^ 48 < 168 * cf_MaxTransactions cfg
     then process_end be clk t env job (ts_svc S) = None
     else \<exists>s'. process_end be clk t env job (ts_svc S) = Some s' \<and> \<not> live s' (je_JobID env)"
    if "(env, job, t) \<in> set (ts_running S)" for env job t be clk
  proof -
    have "jb_JobID job = je_JobID env" using inv that by (auto simp: tx_sys_inv_def)
    then show ?thesis
      using process_end_None [of be clk t env job "ts_svc S"] cfg pos
        process_end_live [of be clk t env job "ts_svc S"]
      by (auto simp: count_ok_def not_less)
  qed
  then show ?thesis using inv by (auto simp: tx_sys_inv_def)
qed

theorem reachable_no_stranded_job_witness:
  "\<exists>S k. tx_reachable demo_sha demo_cfg S \<and> live (ts_svc S) k \<and> k \<in> owned S"
proof -
  have new: "known_job (demo_clk 0) demo_svc (br_IdempotencyKey demo_req) = None"
    by (simp add: known_job_def demo_current)
  have room: "int (length (sv_queue demo_svc)) < cf_QueueSize (sv_cfg demo_svc)"
    by (simp add: demo_current demo_cfg_def)
  obtain req job s1 where adm: "submit_admit demo_sha rev demo_clk req demo_svc = (Inr job, s1)"
    using tx_Submit_admitted [where clk = demo_clk,
        OF is_order_rev demo_svc_inv demo_key new demo_current(1) demo_fresh room, of demo_sha]
    by blast
  define S where "S = demo_sys\<lparr> ts_svc := s1, ts_pending := (req, job) # ts_pending demo_sys,
    ts_admitted := ts_admitted demo_sys + 1 \<rparr>"
  have "submit_admit demo_sha rev demo_clk req (ts_svc demo_sys) = (Inr job, s1)"
    using adm by (simp add: demo_sys_def)
  then have reach: "tx_reachable demo_sha demo_cfg S"
    unfolding S_def by (intro tx_reach_step [OF demo_reachable] ts_admit [OF is_order_rev])
  have "live (ts_svc S) (jb_JobID job)"
    using submit_admit_live(2) [OF is_order_rev demo_svc_inv adm] by (simp add: S_def)
  then show ?thesis using reach reachable_no_stranded_job [OF reach demo_Validate] by blast
qed

end
