(* ===== verification/Tx_Refresh.thy ===== *)
theory Tx_Refresh
  imports Tx_Properties
begin

text \<open>
  Capturing an epoch: the RPC helpers of \<^verbatim>\<open>rpc/rpc.go\<close>, \<^verbatim>\<open>snapshot_refresh.go\<close>, the fingerprint of
  \<^verbatim>\<open>snapshot_util.go\<close>, and the files of \<^verbatim>\<open>persistence.go\<close>.

  The RPC client and the JSON decoder are parameters. \<open>rpc_caller\<close> has one field per result
  type of \<^verbatim>\<open>CallContext\<close>; its first argument is the position of the call in the capture, since
  two calls of the same method may answer differently.
\<close>

section \<open>RPC helpers\<close>

record BlockHeader =
  bh_Number :: string
  bh_GasLimit :: string
  bh_BaseFeePerGas :: string

record rpc_caller =
  rc_string :: "nat \<Rightarrow> string \<Rightarrow> string + string"
  rc_raw :: "nat \<Rightarrow> string \<Rightarrow> string + string"
  rc_header :: "nat \<Rightarrow> string \<Rightarrow> string \<Rightarrow> string + BlockHeader"

definition rpc_parseBigIntString :: "string \<Rightarrow> string + int" where
  "rpc_parseBigIntString s0 =
     (let s = TrimSpace s0 in
      if s = [] then Inl ''empty hex number''
      else if HasPrefix s ''0x'' \<or> HasPrefix s ''0X''
      then (case SetString 16 (drop 2 s) of
              None \<Rightarrow> Inl (''invalid hex number: '' @ s) | Some n \<Rightarrow> Inr n)
      else (case SetString 10 s of
              None \<Rightarrow> Inl (''invalid number: '' @ s) | Some n \<Rightarrow> Inr n))"

definition EndpointLabel :: "(string \<Rightarrow> string) \<Rightarrow> string \<Rightarrow> string" where
  "EndpointLabel sha256hex url = take 16 (sha256hex url)"

definition ChainID :: "rpc_caller \<Rightarrow> nat \<Rightarrow> string + int" where
  "ChainID c i = (case rc_string c i ''eth_chainId'' of
                    Inl err \<Rightarrow> Inl err | Inr raw \<Rightarrow> rpc_parseBigIntString raw)"

definition BlockNumber :: "rpc_caller \<Rightarrow> nat \<Rightarrow> string + int" where
  "BlockNumber c i = (case rc_string c i ''eth_blockNumber'' of
                        Inl err \<Rightarrow> Inl err | Inr raw \<Rightarrow> rpc_parseBigIntString raw)"

definition Syncing :: "rpc_caller \<Rightarrow> nat \<Rightarrow> string + bool" where
  "Syncing c i =
     (case rc_raw c i ''eth_syncing'' of
        Inl err \<Rightarrow> Inl err
      | Inr raw \<Rightarrow> if raw = [] \<or> raw = ''false'' then Inr False
                   else if raw = ''true'' then Inr True else Inr True)"

definition BlockHeaderByNumber :: "rpc_caller \<Rightarrow> nat \<Rightarrow> string \<Rightarrow> string + BlockHeader" where
  "BlockHeaderByNumber c i number = rc_header c i ''eth_getBlockByNumber'' number"

definition TxPoolContent :: "rpc_caller \<Rightarrow> nat \<Rightarrow> string + string" where
  "TxPoolContent c i = rc_raw c i ''txpool_content''"

section \<open>Decoding\<close>

record rawPool =
  rp_Pending :: "(string, (string, string) gomap) gomap"
  rp_Queued :: "(string, (string, string) gomap) gomap"

text \<open>What the JSON decoder makes of the pool; a missing map is nil (\<open>None\<close>).\<close>

type_synonym pool_json =
  "(string, (string, string) gomap) gomap option \<times> (string, (string, string) gomap) gomap option"

definition decodePool :: "(string \<Rightarrow> string + pool_json) \<Rightarrow> string \<Rightarrow> string + rawPool" where
  "decodePool unmarshalPool raw =
     (case unmarshalPool raw of
        Inl err \<Rightarrow> Inl err
      | Inr (pending, queued) \<Rightarrow>
          Inr \<lparr> rp_Pending = (case pending of None \<Rightarrow> [] | Some m \<Rightarrow> m),
                rp_Queued = (case queued of None \<Rightarrow> [] | Some m \<Rightarrow> m) \<rparr>)"

definition parseHeader :: "BlockHeader \<Rightarrow> string + (int option \<times> u64)" where
  "parseHeader header =
     (let baseFee = parseBigIntString (bh_BaseFeePerGas header) in
      if bh_BaseFeePerGas header \<noteq> [] \<and> baseFee = None then Inl ''invalid base fee''
      else case parseUintString (bh_GasLimit header) of
             None \<Rightarrow> Inl ''invalid gas limit''
           | Some gasLimit \<Rightarrow> Inr (baseFee, gasLimit))"

section \<open>Fingerprint\<close>

record snapshotFingerprint =
  fp_SchemaVersion :: int
  fp_SourceLabel :: string
  fp_HeadBefore :: string
  fp_HeadAfter :: string
  fp_HeadDrift :: bool
  fp_ChainID :: string
  fp_BaseFee :: string
  fp_GasLimit :: u64
  fp_MempoolDigest :: string
  fp_FreshUntil :: gtime
  fp_RefreshMS :: int
  fp_PendingBySender :: "(string, Transaction list) gomap"
  fp_QueuedBySender :: "(string, Transaction list) gomap"

definition snapshotFingerprintFrom :: "TxSnapshot \<Rightarrow> snapshotFingerprint" where
  "snapshotFingerprintFrom s =
     \<lparr> fp_SchemaVersion = sn_SchemaVersion s, fp_SourceLabel = sn_SourceLabel s,
       fp_HeadBefore = sn_HeadBefore s, fp_HeadAfter = sn_HeadAfter s, fp_HeadDrift = sn_HeadDrift s,
       fp_ChainID = sn_ChainID s, fp_BaseFee = sn_BaseFee s, fp_GasLimit = sn_GasLimit s,
       fp_MempoolDigest = sn_MempoolDigest s, fp_FreshUntil = sn_FreshUntil s,
       fp_RefreshMS = sn_RefreshMS s, fp_PendingBySender = sn_PendingBySender s,
       fp_QueuedBySender = sn_QueuedBySender s \<rparr>"

definition digestBytes :: "(string \<Rightarrow> string) \<Rightarrow> string \<Rightarrow> string" where
  "digestBytes sha256hex raw = sha256hex raw"

definition digestCanonical :: "(string \<Rightarrow> string) \<Rightarrow> ('v \<Rightarrow> string) \<Rightarrow> 'v \<Rightarrow> string" where
  "digestCanonical sha256hex marshal v = sha256hex (marshal v)"

section \<open>Refresh\<close>

datatype refresh_error =
    StartupError ReasonCode string string string
  | PersistError string

abbreviation snapshot_error :: "ReasonCode \<Rightarrow> string \<Rightarrow> string \<Rightarrow> refresh_error" where
  "snapshot_error code detail err \<equiv> StartupError code ''snapshot'' detail err"

text \<open>What a capture takes from outside the model.\<close>

record refresh_env =
  rv_rpc :: rpc_caller
  rv_sha :: "string \<Rightarrow> string"
  rv_unmarshalPool :: "string \<Rightarrow> string + pool_json"
  rv_unmarshalTx :: "string \<Rightarrow> string + rawTransaction"
  rv_marshalFingerprint :: "snapshotFingerprint \<Rightarrow> string"
  rv_orders :: "string pool_orders"
  rv_persistSnapshot :: "TxConfig \<Rightarrow> TxSnapshot \<Rightarrow> string option"

text \<open>The checks before the pool is decoded: the head before and after, the header and the raw pool.\<close>

definition fetch_pool ::
  "refresh_env \<Rightarrow> TxConfig \<Rightarrow> int \<Rightarrow> refresh_error + (int \<times> int \<times> int \<times> BlockHeader \<times> string)" where
  "fetch_pool rv cfg cfgChain =
     (let c = rv_rpc rv in
      case ChainID c 0 of
        Inl err \<Rightarrow> Inl (snapshot_error ReasonRPCUnavailable ''failed to fetch chain id'' err)
      | Inr chainID \<Rightarrow>
        if chainID \<noteq> cfgChain
        then Inl (snapshot_error ReasonChainIDMismatch
                    (''expected '' @ show_int 10 cfgChain @ '' got '' @ show_int 10 chainID) [])
        else case Syncing c 1 of
          Inl err \<Rightarrow> Inl (snapshot_error ReasonRPCUnavailable ''failed to fetch syncing status'' err)
        | Inr syncing \<Rightarrow>
          if syncing then Inl (snapshot_error ReasonSyncingNode ''node is syncing'' [])
          else case BlockNumber c 2 of
            Inl err \<Rightarrow> Inl (snapshot_error ReasonRPCUnavailable ''failed to fetch block number'' err)
          | Inr headBefore \<Rightarrow>
            case BlockHeaderByNumber c 3 (hexNumber (Some headBefore)) of
              Inl err \<Rightarrow> Inl (snapshot_error ReasonRPCUnavailable ''failed to fetch block header'' err)
            | Inr header \<Rightarrow>
              case TxPoolContent c 4 of
                Inl err \<Rightarrow> Inl (snapshot_error ReasonRPCUnsupportedMethod ''txpool_content failed'' err)
              | Inr raw \<Rightarrow>
                if cf_MaxSnapshotBytes cfg > 0 \<and> int (length raw) > cf_MaxSnapshotBytes cfg
                then Inl (snapshot_error ReasonSnapshotTooLarge ''raw snapshot exceeds configured maximum'' [])
                else case BlockNumber c 5 of
                  Inl err \<Rightarrow> Inl (snapshot_error ReasonRPCUnavailable
                              ''failed to fetch post-snapshot block number'' err)
                | Inr headAfter \<Rightarrow>
                  if headBefore \<noteq> headAfter \<and> cf_Strict cfg \<and> \<not> cf_AllowHeadDrift cfg
                  then Inl (snapshot_error ReasonHeadDrift ''head changed during snapshot fetch'' [])
                  else Inr (chainID, headBefore, headAfter, header, raw))"

text \<open>Normalising both pools; \<open>None\<close> is a panic.\<close>

definition normalize_pools ::
  "refresh_env \<Rightarrow> TxConfig \<Rightarrow> rawPool \<Rightarrow> int option \<Rightarrow> u64 \<Rightarrow>
     (refresh_error + ((string, Transaction list) gomap \<times> (string, Transaction list) gomap
        \<times> TxDecision list)) option" where
  "normalize_pools rv cfg pool baseFee gasLimit =
     (case normalizePool (rv_orders rv) (rv_unmarshalTx rv) [] (rp_Pending pool) baseFee gasLimit ''pending'' of
        None \<Rightarrow> None
      | Some (Inl err) \<Rightarrow>
          Some (Inl (snapshot_error ReasonRPCSchemaError ''failed to normalize pending pool'' err))
      | Some (Inr (pending, pendingDecisions)) \<Rightarrow>
        if cf_IncludeQueued cfg then
          (case normalizePool (rv_orders rv) (rv_unmarshalTx rv) [] (rp_Queued pool) baseFee gasLimit ''queued'' of
             None \<Rightarrow> None
           | Some (Inl err) \<Rightarrow>
               Some (Inl (snapshot_error ReasonRPCSchemaError ''failed to normalize queued pool'' err))
           | Some (Inr (queued, queuedDecisions)) \<Rightarrow>
               Some (Inr (pending, queued, pendingDecisions @ queuedDecisions)))
        else Some (Inr (pending, [], pendingDecisions @ [])))"

definition refreshSnapshot ::
  "refresh_env \<Rightarrow> (nat \<Rightarrow> gtime) \<Rightarrow> TxService \<Rightarrow> (refresh_error option \<times> TxService) option" where
  "refreshSnapshot rv clk s =
     (let cfg = sv_cfg s in
      case cf_ChainID cfg of
        None \<Rightarrow> None
      | Some cfgChain \<Rightarrow>
      case fetch_pool rv cfg cfgChain of
        Inl e \<Rightarrow> Some (Some e, s)
      | Inr (chainID, headBefore, headAfter, header, raw) \<Rightarrow>
      case decodePool (rv_unmarshalPool rv) raw of
        Inl err \<Rightarrow> Some (Some (snapshot_error ReasonRPCSchemaError ''failed to decode txpool_content'' err), s)
      | Inr pool \<Rightarrow>
      case parseHeader header of
        Inl err \<Rightarrow> Some (Some (snapshot_error ReasonRPCSchemaError ''invalid block header'' err), s)
      | Inr (baseFee, gasLimit) \<Rightarrow>
      case normalize_pools rv cfg pool baseFee gasLimit of
        None \<Rightarrow> None
      | Some (Inl e) \<Rightarrow> Some (Some e, s)
      | Some (Inr (pending, queued, decisions)) \<Rightarrow>
        let snapshot0 = \<lparr> sn_SchemaVersion = 1, sn_SnapshotID = [], sn_CapturedAt = clk 2,
              sn_PolicyVersion = cf_PolicyVersion cfg, sn_BinaryVersion = tx_BinaryVersion,
              sn_ChainID = show_int 10 chainID, sn_BaseFee = bigString baseFee, sn_GasLimit = gasLimit,
              sn_MempoolDigest = digestBytes (rv_sha rv) raw,
              sn_FreshUntil = clk 1 + cf_MaxSnapshotAge cfg,
              sn_RefreshMS = go_div (time_sub (clk 3) (clk 0)) millisecond,
              sn_PendingBySender = pending, sn_QueuedBySender = queued,
              sn_SourceLabel = EndpointLabel (rv_sha rv) (cf_RPCURL cfg),
              sn_HeadBefore = show_int 10 headBefore, sn_HeadAfter = show_int 10 headAfter,
              sn_HeadDrift = (headBefore \<noteq> headAfter) \<rparr>;
            snapshot = snapshot0\<lparr> sn_SnapshotID := digestCanonical (rv_sha rv) (rv_marshalFingerprint rv)
                                   (snapshotFingerprintFrom snapshot0) \<rparr>;
            s1 = recordSnapshot (clk 4) snapshot decisions [] s
        in if cf_NoWrite cfg then Some (None, s1)
           else case rv_persistSnapshot rv cfg snapshot of
                  None \<Rightarrow> Some (None, s1)
                | Some err \<Rightarrow> Some (Some (PersistError err), s1))"

section \<open>Files\<close>

text \<open>
  A directory listing as \<^verbatim>\<open>os.ReadDir\<close> and \<^verbatim>\<open>entry.Info\<close> give it: path and modification time of the
  entries whose information could be read. The result lists the paths that are removed.
\<close>

definition pruneDir :: "(string \<times> gtime) list \<Rightarrow> int \<Rightarrow> string list" where
  "pruneDir items maxRetained =
     (if maxRetained \<le> 0 then []
      else if int (length items) \<le> maxRetained then []
      else map fst (take (nat (int (length items) - maxRetained)) (sort_by (\<lambda>a b. snd a < snd b) items)))"

text \<open>
  The steps of an atomic write: marshalling, the size bound, the temporary file, the rename. A
  file system is the map from paths to contents. \<open>fs_ops\<close> says which calls fail: a failing
  write may leave any part of the temporary file behind, a failing removal leaves all of it.
\<close>

record fs_ops =
  fo_mkdir :: "string option"
  fo_write :: "(string \<times> string option) option"
  fo_rename :: "string option"
  fo_remove :: "string option"

definition writeJSONAtomic ::
  "fs_ops \<Rightarrow> string + string \<Rightarrow> string \<Rightarrow> int \<Rightarrow> (string, string) gomap \<Rightarrow>
     string option \<times> (string, string) gomap" where
  "writeJSONAtomic fo marshalled path maxBytes fs =
     (case marshalled of
        Inl err \<Rightarrow> (Some err, fs)
      | Inr b \<Rightarrow>
        if maxBytes > 0 \<and> int (length b) > maxBytes
        then (Some (''artifact exceeds max bytes: '' @ show_nat 10 (length b) @ '' > '' @ show_int 10 maxBytes), fs)
        else case fo_mkdir fo of
          Some err \<Rightarrow> (Some err, fs)
        | None \<Rightarrow>
          let tmp = path @ ''.tmp'' in
          case fo_write fo of
            Some (err, part) \<Rightarrow> (Some err, case part of None \<Rightarrow> fs | Some p \<Rightarrow> gm_set fs tmp p)
          | None \<Rightarrow>
            let fs1 = gm_set fs tmp b in
            case fo_rename fo of
              Some err \<Rightarrow> (Some err, if fo_remove fo = None then gm_del fs1 tmp else fs1)
            | None \<Rightarrow> (None, gm_set (gm_del fs1 tmp) path b))"

section \<open>What a refresh guarantees\<close>

lemma normalizePool_ok:
  assumes "pool_orders_ok po"
  shows "normalizePool po um z pool baseFee bg stage \<noteq> None" 
    and "normalizePool po um z pool baseFee bg stage = Some (Inr (out, decs)) \<Longrightarrow>
      gm_ok out \<and> (\<forall>s c. gm_get out s = Some c \<longrightarrow> sender_chain_ok bg c)"
  using norm_senders_ok [OF assms gm_ok_nil, of bg um z pool baseFee stage
      "sortedPoolSenders (po_senders po) pool" "[]"]
  unfolding normalizePool_def by auto

text \<open>Both pools of a snapshot: distinct senders, executable chains.\<close>

definition pools_ok :: "u64 \<Rightarrow> (string, Transaction list) gomap \<Rightarrow> bool" where
  "pools_ok gasLimit m \<longleftrightarrow> gm_ok m \<and> (\<forall>s c. gm_get m s = Some c \<longrightarrow> sender_chain_ok gasLimit c)"

lemma normalize_pools_ok:
  assumes "pool_orders_ok (rv_orders rv)"
  shows "\<exists>r. normalize_pools rv cfg pool baseFee gasLimit = Some r \<and>
    (\<forall>pending queued decs. r = Inr (pending, queued, decs) \<longrightarrow>
       pools_ok gasLimit pending \<and> pools_ok gasLimit queued)"
proof -
  note total = normalizePool_ok(1) [OF assms, of "rv_unmarshalTx rv" "[]"]
  note sound = normalizePool_ok(2) [OF assms, of "rv_unmarshalTx rv" "[]"]
  obtain r1 where r1: "normalizePool (rv_orders rv) (rv_unmarshalTx rv) [] (rp_Pending pool) baseFee
      gasLimit ''pending'' = Some r1" using total by blast
  obtain r2 where r2: "normalizePool (rv_orders rv) (rv_unmarshalTx rv) [] (rp_Queued pool) baseFee
      gasLimit ''queued'' = Some r2" using total by blast
  show ?thesis
    using r1 r2 sound [of "rp_Pending pool"] sound [of "rp_Queued pool"]
    by (auto simp: normalize_pools_def pools_ok_def split: sum.split)
qed

text \<open>The errors of the capture are start-up errors, and what it captures is of the configured chain.\<close>

lemma fetch_pool_Inr: "fetch_pool rv cfg want = Inr (chainID, hb, ha, head, raw) \<Longrightarrow> chainID = want"
  by (auto simp: fetch_pool_def Let_def split: sum.splits if_splits)

lemma fetch_pool_Inl: "fetch_pool rv cfg want = Inl e \<Longrightarrow> \<exists>a b c d. e = StartupError a b c d"
  by (auto simp: fetch_pool_def Let_def split: sum.splits if_splits)

lemma normalize_pools_Inl: "normalize_pools rv cfg pool baseFee gasLimit = Some (Inl e) \<Longrightarrow> \<exists>a b c d. e = StartupError a b c d"
  by (auto simp: normalize_pools_def split: sum.splits if_splits option.splits)

lemma recordSnapshot_current: "sv_current (recordSnapshot now snap decs path s) = Some snap"
  by (simp add: recordSnapshot_def Let_def)

section \<open>Properties\<close>

text \<open>What is published: the current snapshot is the new one, of the configured chain, with both pools sound.\<close>

definition publishes :: "gtime \<Rightarrow> TxService \<Rightarrow> TxSnapshot \<Rightarrow> TxService \<Rightarrow> bool" where
  "publishes now s snap s' \<longleftrightarrow>
     (\<exists>decisions. s' = recordSnapshot now snap decisions [] s) \<and> sv_current s' = Some snap \<and>
     sn_ChainID snap = show_int 10 (the (cf_ChainID (sv_cfg s))) \<and>
     pools_ok (sn_GasLimit snap) (sn_PendingBySender snap) \<and>
     pools_ok (sn_GasLimit snap) (sn_QueuedBySender snap)"

text \<open>
  C27: a refresh never panics under a validated configuration and keeps the service invariant. An error of
  the capture (node, chain, head, sizes, decoding) leaves the service unchanged. Otherwise the refresh publishes, as the
  current snapshot and the newest retained one, a snapshot of the configured chain whose senders are
  distinct, whose chains have consecutive nonces and respect the block gas limit; this is
  so when it reports success, and also when the one error it reports is that the snapshot's file could not be
  written, which leaves the snapshot published.
\<close>

theorem refreshSnapshot_publishes_sound:
  assumes "svc_inv s" and "pool_orders_ok (rv_orders rv)"
  shows "\<exists>err s'. refreshSnapshot rv clk s = Some (err, s') \<and> svc_inv s' \<and>
    (case err of
       None \<Rightarrow> \<exists>snap. publishes (clk 4) s snap s' \<and>
         (cf_NoWrite (sv_cfg s) \<or> rv_persistSnapshot rv (sv_cfg s) snap = None)
     | Some (PersistError e) \<Rightarrow> \<exists>snap. publishes (clk 4) s snap s' \<and>
         \<not> cf_NoWrite (sv_cfg s) \<and> rv_persistSnapshot rv (sv_cfg s) snap = Some e
     | Some e \<Rightarrow> s' = s)"
proof -
  obtain cfgChain where ch: "cf_ChainID (sv_cfg s) = Some cfgChain"
    using assms(1) by (auto simp: svc_inv_def cfg_ok_def)
  show ?thesis
  proof (cases "fetch_pool rv (sv_cfg s) cfgChain")
    case (Inl e)
    then show ?thesis
      using assms(1) ch fetch_pool_Inl [OF Inl] by (auto simp: refreshSnapshot_def Let_def)
  next
    case (Inr f)
    obtain chainID hb ha hd raw where f: "f = (chainID, hb, ha, hd, raw)" by (cases f)
    note fetched = Inr [unfolded f]
    show ?thesis
    proof (cases "decodePool (rv_unmarshalPool rv) raw")
      case (Inl e)
      then show ?thesis using assms(1) ch fetched by (simp add: refreshSnapshot_def Let_def)
    next
      case pool: (Inr pool)
      show ?thesis
      proof (cases "parseHeader hd")
        case (Inl e)
        then show ?thesis using assms(1) ch fetched pool by (simp add: refreshSnapshot_def Let_def)
      next
        case (Inr h)
        obtain baseFee gasLimit where h: "h = (baseFee, gasLimit)" by (cases h)
        obtain r where r: "normalize_pools rv (sv_cfg s) pool baseFee gasLimit = Some r"
            "\<And>pending queued decs. r = Inr (pending, queued, decs) \<Longrightarrow>
               pools_ok gasLimit pending \<and> pools_ok gasLimit queued"
          using normalize_pools_ok [OF assms(2)] by blast
        show ?thesis
        proof (cases r)
          case e: (Inl e)
          then show ?thesis
            using assms(1) ch fetched pool Inr h r normalize_pools_Inl [OF r(1) [unfolded e]]
            by (auto simp: refreshSnapshot_def Let_def)
        next
          case out: (Inr out)
          obtain pending queued decs where o: "out = (pending, queued, decs)" by (cases out)
          show ?thesis
            using ch fetched pool Inr h r fetch_pool_Inr [OF fetched] recordSnapshot_inv [OF assms(1)] out o
            by (auto simp: refreshSnapshot_def publishes_def recordSnapshot_current Let_def split: option.split)
        qed
      qed
    qed
  qed
qed

definition demo_refresh_env :: refresh_env where
  "demo_refresh_env = \<lparr>
     rv_rpc = \<lparr> rc_string = (\<lambda>i m. Inr (if m = ''eth_chainId'' then ''0x1'' else ''0x10'')),
                rc_raw = (\<lambda>i m. Inr (if m = ''eth_syncing'' then ''false'' else ''pool'')),
                rc_header = (\<lambda>i m n. Inr \<lparr> bh_Number = n, bh_GasLimit = ''0x1c9c380'',
                                            bh_BaseFeePerGas = ''0x7'' \<rparr>) \<rparr>,
     rv_sha = demo_sha, rv_unmarshalPool = (\<lambda>raw. Inr (Some demo_pool, None)),
     rv_unmarshalTx = demo_um, rv_marshalFingerprint = fp_MempoolDigest,
     rv_orders = demo_orders, rv_persistSnapshot = (\<lambda>cfg s. None) \<rparr>"

theorem refreshSnapshot_publishes_sound_witness:
  "\<exists>err s'. refreshSnapshot demo_refresh_env demo_clk demo_svc = Some (err, s') \<and> svc_inv s' \<and>
    (case err of
       None \<Rightarrow> \<exists>snap. publishes (demo_clk 4) demo_svc snap s'
     | Some (PersistError e) \<Rightarrow> False
     | Some e \<Rightarrow> s' = demo_svc)"
  using refreshSnapshot_publishes_sound [OF demo_svc_inv, of demo_refresh_env demo_clk]
  by (fastforce simp: demo_refresh_env_def pool_orders_ok_def demo_orders_def demo_current demo_cfg_def
      split: option.splits refresh_error.splits)

text \<open>
  An artifact is written completely or not at all: whichever call fails, and however the
  temporary file is left, no file but the temporary one changes unless the write succeeded,
  and then the artifact holds exactly the marshalled bytes, within the size bound.
\<close>

theorem writeJSONAtomic_all_or_nothing:
  "case writeJSONAtomic fo marshalled path maxBytes fs of
     (None, fs') \<Rightarrow> (\<exists>b. marshalled = Inr b \<and> gm_get fs' path = Some b \<and>
        (0 < maxBytes \<longrightarrow> int (length b) \<le> maxBytes)) \<and>
        (\<forall>p. p \<noteq> path \<and> p \<noteq> path @ ''.tmp'' \<longrightarrow> gm_get fs' p = gm_get fs p)
   | (Some err, fs') \<Rightarrow> \<forall>p. p \<noteq> path @ ''.tmp'' \<longrightarrow> gm_get fs' p = gm_get fs p"
  by (auto simp: writeJSONAtomic_def Let_def split: sum.split option.split)

theorem writeJSONAtomic_all_or_nothing_witness:
  "case writeJSONAtomic \<lparr> fo_mkdir = None, fo_write = None, fo_rename = None, fo_remove = None \<rparr>
          (Inr ''{}'') ''a.json'' 10 [(''b.json'', ''old'')] of
     (None, fs') \<Rightarrow> (\<exists>b. (Inr ''{}'' :: string + string) = Inr b \<and> gm_get fs' ''a.json'' = Some b \<and>
        (0 < (10::int) \<longrightarrow> int (length b) \<le> 10)) \<and>
        (\<forall>p. p \<noteq> ''a.json'' \<and> p \<noteq> ''a.json'' @ ''.tmp'' \<longrightarrow>
           gm_get fs' p = gm_get [(''b.json'', ''old'')] p)
   | (Some err, fs') \<Rightarrow> \<forall>p. p \<noteq> ''a.json'' @ ''.tmp'' \<longrightarrow>
           gm_get fs' p = gm_get [(''b.json'', ''old'')] p"
  by (rule writeJSONAtomic_all_or_nothing)

end
