(* ===== verification/Tx_Http.thy ===== *)
theory Tx_Http
  imports Tx_Refresh
begin

text \<open>
  The HTTP surface of the build service, \<^verbatim>\<open>txpool-builder/v2/internal/service/http.go\<close>. A handler
  is a function from the request and the service to a status, a payload and the new
  service; encoding the payload as JSON is not modelled. The body of a build request is
  what \<^verbatim>\<open>json.Decoder\<close> made of it, \<open>Inl\<close> its error.
\<close>

datatype http_method = GET | POST | OtherMethod string

record http_request =
  hr_Method :: http_method
  hr_Path :: string
  hr_Body :: "string + BuildRequest"

datatype http_payload =
    PHealth bool string
  | PStatus TxStatus
  | PError string string
  | PBuild BuildResponse
  | PJob JobRecord
  | PResult TxResult
  | PNotFound

definition TrimPrefix :: "string \<Rightarrow> string \<Rightarrow> string" where
  "TrimPrefix s p = (if HasPrefix s p then drop (length p) s else s)"

definition handleHealth :: "int \<times> http_payload" where
  "handleHealth = (200, PHealth True ''running'')"

definition handleStatus :: "(nat \<Rightarrow> gtime) \<Rightarrow> TxService \<Rightarrow> int \<times> http_payload" where
  "handleStatus clk s = (200, PStatus (tx_Status clk s))"

definition handleBuild ::
  "(string \<Rightarrow> string) \<Rightarrow> ((string \<times> JobRecord) list \<Rightarrow> (string \<times> JobRecord) list) \<Rightarrow>
     (nat \<Rightarrow> gtime) \<Rightarrow> string + BuildRequest \<Rightarrow> TxService \<Rightarrow> (int \<times> http_payload) \<times> TxService" where
  "handleBuild sha256hex ord clk body s =
     (case body of
        Inl err \<Rightarrow> ((400, PError ''invalid request body'' err), s)
      | Inr req \<Rightarrow>
        (case tx_Submit sha256hex ord clk req s of
           (SubmitErr code err, s1) \<Rightarrow> ((code, PError err []), s1)
         | (SubmitResp code resp, s1) \<Rightarrow> ((code, PBuild resp), s1)))"

definition handleJob :: "string \<Rightarrow> TxService \<Rightarrow> int \<times> http_payload" where
  "handleJob path s =
     (case gm_get (sv_jobs s) (TrimPrefix path ''/jobs/'') of
        None \<Rightarrow> (404, PError ''job not found'' [])
      | Some j \<Rightarrow> (200, PJob j))"

definition handleResult :: "string \<Rightarrow> TxService \<Rightarrow> int \<times> http_payload" where
  "handleResult path s =
     (case gm_get (sv_results s) (TrimPrefix path ''/results/'') of
        None \<Rightarrow> (404, PError ''result not found'' [])
      | Some r \<Rightarrow> (200, PResult r))"

definition ServeHTTP ::
  "(string \<Rightarrow> string) \<Rightarrow> ((string \<times> JobRecord) list \<Rightarrow> (string \<times> JobRecord) list) \<Rightarrow>
     (nat \<Rightarrow> gtime) \<Rightarrow> http_request \<Rightarrow> TxService \<Rightarrow> (int \<times> http_payload) \<times> TxService" where
  "ServeHTTP sha256hex ord clk r s =
     (if hr_Method r = GET \<and> hr_Path r = ''/health'' then (handleHealth, s)
      else if hr_Method r = GET \<and> hr_Path r = ''/ready''
        then (case handleReady clk s of (code, st) \<Rightarrow> ((code, PStatus st), s))
      else if hr_Method r = GET \<and> hr_Path r = ''/status'' then (handleStatus clk s, s)
      else if hr_Method r = POST \<and> hr_Path r = ''/build''
        then handleBuild sha256hex ord clk (hr_Body r) s
      else if hr_Method r = GET \<and> HasPrefix (hr_Path r) ''/jobs/'' then (handleJob (hr_Path r) s, s)
      else if hr_Method r = GET \<and> HasPrefix (hr_Path r) ''/results/'' then (handleResult (hr_Path r) s, s)
      else ((404, PNotFound), s))"

lemma tx_Submit_inv:
  assumes "is_order ord" and "svc_inv s"
  shows "svc_inv (snd (tx_Submit sha ord clk req s))"
proof -
  let ?r = "submit_admit sha ord clk (norm_request s req) s"
  have "svc_inv (snd ?r)" using submit_admit_inv [OF assms] .
  then have "svc_inv (snd (case ?r of (Inl r, s1) \<Rightarrow> (r, s1)
      | (Inr job, s1) \<Rightarrow> submit_enqueue (clk 6) (norm_request s req) job s1))"
    by (auto simp: submit_enqueue_inv split: prod.split sum.split)
  then show ?thesis using assms(2) by (simp add: tx_Submit_def Let_def)
qed

text \<open>No request breaks the service, and only a build request changes it.\<close>

lemma ServeHTTP_inv:
  assumes "is_order ord" and "svc_inv s"
  shows "svc_inv (snd (ServeHTTP sha ord clk r s))"
    and "hr_Method r \<noteq> POST \<or> hr_Path r \<noteq> ''/build'' \<Longrightarrow> snd (ServeHTTP sha ord clk r s) = s"
proof -
  have "svc_inv (snd (handleBuild sha ord clk body s))" for body
    using tx_Submit_inv [OF assms, of sha clk]
    by (auto simp: handleBuild_def assms(2) split: sum.split prod.split submit_result.split)
      (metis snd_conv)+
  then show "svc_inv (snd (ServeHTTP sha ord clk r s))"
    using assms(2) by (simp add: ServeHTTP_def split: prod.split)
  show "snd (ServeHTTP sha ord clk r s) = s" if "hr_Method r \<noteq> POST \<or> hr_Path r \<noteq> ''/build''"
    using that by (auto simp: ServeHTTP_def split: prod.split)
qed

lemma HasPrefix_append [simp]: "HasPrefix (p @ s) p"
  by (simp add: HasPrefix_def)

lemma handleJob_id: "handleJob (''/jobs/'' @ k) s =
   (case gm_get (sv_jobs s) k of None \<Rightarrow> (404, PError ''job not found'' []) | Some j \<Rightarrow> (200, PJob j))"
  by (simp add: handleJob_def TrimPrefix_def HasPrefix_append [of "''/jobs/''", simplified])

section \<open>Properties\<close>

text \<open>
  What the build endpoint promised can be looked up: after a build request was answered 202
  for a new key, asking for the job under the answered identifier returns it, still unfinished.
\<close>

theorem build_then_job:
  assumes "is_order ord" and "svc_inv s" and "TrimSpace (br_IdempotencyKey req) \<noteq> []"
    and "known_job (clk 0) s (br_IdempotencyKey req) = None"
    and "ServeHTTP sha ord clk \<lparr> hr_Method = POST, hr_Path = ''/build'', hr_Body = Inr req \<rparr> s =
           ((202, PBuild resp), s')"
  shows "\<exists>j. ServeHTTP sha ord' clk'
      \<lparr> hr_Method = GET, hr_Path = ''/jobs/'' @ rs_JobID resp, hr_Body = Inl err \<rparr> s' = ((200, PJob j), s') \<and>
    jb_JobID j = rs_JobID resp \<and> \<not> job_finished j"
proof -
  have sub: "tx_Submit sha ord clk req s = (SubmitResp 202 resp, s')"
    using assms(5) by (auto simp: ServeHTTP_def handleBuild_def split: prod.splits submit_result.splits)
  obtain snap where cur: "sv_current s = Some snap"
      and fresh: "snapshotFreshEnough (clk 1) (sv_current s) (cf_MaxSnapshotAge (sv_cfg s))"
      and room: "int (length (sv_queue s)) < cf_QueueSize (sv_cfg s)"
    using sub assms(3,4)
    by (auto simp: tx_Submit_def submit_admit_def norm_request_key Let_def
        split: option.splits if_splits)
  obtain job s1 where adm: "submit_admit sha ord clk (norm_request s req) s = (Inr job, s1)"
      and s': "sv_jobs s' = sv_jobs s1" and id: "rs_JobID resp = jb_JobID job"
    using tx_Submit_admitted [where clk = clk, OF assms(1-4) cur fresh room, of sha] sub by auto
  obtain j where j: "gm_get (sv_jobs s') (rs_JobID resp) = Some j" "\<not> job_finished j"
    using submit_admit_live(2) [OF assms(1,2) adm] s' id by (auto simp: live_def)
  have "svc_inv s'" using tx_Submit_inv [OF assms(1,2), of sha clk req] sub by simp
  then have "jb_JobID j = rs_JobID resp" using svc_inv_job_id j(1) by blast
  then show ?thesis
    using j by (simp add: ServeHTTP_def HasPrefix_def handleJob_def TrimPrefix_def)
qed

theorem build_then_job_witness:
  "\<exists>resp s' j. ServeHTTP demo_sha rev demo_clk \<lparr> hr_Method = POST, hr_Path = ''/build'', hr_Body = Inr demo_req \<rparr>
      demo_svc = ((202, PBuild resp), s') \<and>
    ServeHTTP demo_sha rev demo_clk \<lparr> hr_Method = GET, hr_Path = ''/jobs/'' @ rs_JobID resp, hr_Body = Inl [] \<rparr> s' =
      ((200, PJob j), s') \<and> jb_JobID j = rs_JobID resp \<and> \<not> job_finished j"
proof -
  have new: "known_job (demo_clk 0) demo_svc (br_IdempotencyKey demo_req) = None"
    by (simp add: known_job_def demo_current)
  have room: "int (length (sv_queue demo_svc)) < cf_QueueSize (sv_cfg demo_svc)"
    by (simp add: demo_current demo_cfg_def)
  obtain resp s' where "tx_Submit demo_sha rev demo_clk demo_req demo_svc = (SubmitResp 202 resp, s')"
    using tx_Submit_admitted [where clk = demo_clk,
        OF is_order_rev demo_svc_inv demo_key new demo_current(1) demo_fresh room, of demo_sha]
    by blast
  then have build: "ServeHTTP demo_sha rev demo_clk
      \<lparr> hr_Method = POST, hr_Path = ''/build'', hr_Body = Inr demo_req \<rparr> demo_svc = ((202, PBuild resp), s')"
    by (simp add: ServeHTTP_def handleBuild_def)
  show ?thesis
    using build build_then_job [OF is_order_rev demo_svc_inv demo_key new build, of rev demo_clk "[]"]
    by blast
qed

end
