(* ===== verification/Tx_Findings.thy ===== *)
theory Tx_Findings
  imports Tx_Http
begin

text \<open>
  Places where the transaction-pool builder does something its comments, documents or
  tests do not say, each shown on a concrete input of the model.
\<close>

text \<open>
  With the queued pool included, a merged chain may have a nonce gap: the pending transaction 1
  and the queued transaction 5 of one sender form one chain, and both are selectable.
\<close>

lemma merge_keeps_nonce_gap:
  "mergeSenderChain rev [demo_tx ''p'' ''a'' 1 10 5] [demo_tx ''q'' ''a'' 5 10 5] =
     [demo_tx ''p'' ''a'' 1 10 5, demo_tx ''q'' ''a'' 5 10 5] \<and>
   \<not> consecutive [demo_tx ''p'' ''a'' 1 10 5, demo_tx ''q'' ''a'' 5 10 5]"
  by (simp add: mergeSenderChain_def merge_by_nonce_def merge_queued_tx_def gm_set_def gm_del_def
      gm_get_def gm_get0_def demo_tx_def zero_tx_def consecutive_def Let_def)

text \<open>
  The fingerprint that identifies a snapshot contains the time the capture ended and how long it
  took: two captures that differ in nothing but their duration get different fingerprints.
\<close>

lemma fingerprint_depends_on_timing:
  "snapshotFingerprintFrom demo_snap \<noteq> snapshotFingerprintFrom (demo_snap\<lparr> sn_RefreshMS := 4 \<rparr>) \<and>
   snapshotFingerprintFrom demo_snap \<noteq> snapshotFingerprintFrom (demo_snap\<lparr> sn_FreshUntil := 116 * second \<rparr>)"
  by (simp add: snapshotFingerprintFrom_def demo_snap_def second_def)

text \<open>
  Pruning a finished job forgets the idempotency key it was submitted under even when that
  key has been registered again by a job that is still queued.
\<close>

definition finding_jobs :: TxService where
  "finding_jobs =
     (let old = (demo_job\<lparr> jb_JobID := ''old'', jb_State := JobCompleted, jb_CompletedAt := 5 \<rparr>);
          new = (demo_job\<lparr> jb_JobID := ''new'' \<rparr>)
      in demo_svc\<lparr> sv_jobs := [(''new'', new), (''old'', old)],
           sv_idempotency := [(''k1'', \<lparr> id_JobID = ''new'', id_RequestID = [], id_CreatedAt = 0,
                                         id_ExpiresAt = 9999 * second \<rparr>)] \<rparr>)"

lemma prune_forgets_live_key:
  "known_job 7 finding_jobs ''k1'' \<noteq> None \<and>
   live (tx_pruneLocked rev 7 finding_jobs) ''new'' \<and>
   known_job 7 (tx_pruneLocked rev 7 finding_jobs) ''k1'' = None"
  by (simp add: finding_jobs_def tx_pruneLocked_def demo_current demo_cfg_def gm_len_def
      job_finished_def demo_job_def admitted_job_def sortJobsByTime_def pruneIdempotencyLocked_def
      known_job_def live_def gm_del_def gm_get_def demo_req_def second_def Let_def)

text \<open>Negative quantities parse, with and without the hexadecimal prefix.\<close>

lemma negative_fee_parses:
  "parseBigIntString ''0x-5'' = Some (- 5) \<and> parseBigIntString ''-5'' = Some (- 5)"
  by (simp add: parse_eval)

text \<open>
  After a nonce gap the rest of a sender's transactions gets no decision: of the nonces 1, 3
  and 4 the first is kept, the second rejected, the third neither kept nor rejected.
\<close>

lemma gap_leaves_undecided:
  "normalizeSenderChain (\<lambda>xs. xs)
     [(1, [demo_tx ''t1'' ''a'' 1 10 5]), (3, [demo_tx ''t3'' ''a'' 3 10 5]), (4, [demo_tx ''t4'' ''a'' 4 10 5])]
     0 ''pending'' =
   Some ([demo_tx ''t1'' ''a'' 1 10 5],
         [rejectDecision (demo_tx ''t3'' ''a'' 3 10 5) ReasonNonceGap ''nonce gap in sender chain'' ''pending''])"
  by (simp add: normalizeSenderChain_def gm_get0_def gm_get_def)

text \<open>
  The environment variables for the listen address, the output directory and the policy version
  are never read: the flag that comes first in each list has a non-empty default.
\<close>

lemma listen_env_ignored:
  "Load parseDuration getenv (default_flags n) = Inr cfg \<Longrightarrow>
     cf_ListenAddr cfg = '':8080'' \<and> cf_OutputDir cfg = ''./out'' \<and> cf_PolicyVersion cfg = ''v2''"
  by (auto simp: Load_def default_flags_def Let_def TrimSpace_plain plain_char_def split: option.splits)

text \<open>
  \<open>Validate\<close> bounds the number of transactions from below only: a count the run time cannot make the
  result slices for is accepted, and then every build panics.
\<close>

lemma validate_accepts_unusable_count:
  "Validate (demo_cfg\<lparr> cf_MaxTransactions := 2 ^ 41 \<rparr>) = None \<and>
   buildCandidate be (demo_cfg\<lparr> cf_MaxTransactions := 2 ^ 41 \<rparr>) req snap decs t clk = None"
  by (simp add: Validate_def demo_cfg_def second_def buildCandidate_None count_ok_def)

text \<open>
  A request shed by a full queue after its admission keeps its key: until the key expires, a retry is
  answered 202 with the shed job and is never queued.
\<close>

lemma shed_key_answers_shed:
  assumes "known_job (clk 0) s (br_IdempotencyKey req) = Some j" and "jb_State j = JobShed"
    and "TrimSpace (br_IdempotencyKey req) \<noteq> []"
  shows "\<exists>resp. tx_Submit sha ord clk req s = (SubmitResp 202 resp, s) \<and> rs_State resp = JobShed"
  using assms by (simp add: tx_Submit_def submit_admit_def known_response_def norm_request_key Let_def)

end
