(* ===== verification/Tx_Files.thy ===== *)
theory Tx_Files
  imports Tx_Refresh
begin

text \<open>
  The two writers of \<^verbatim>\<open>service/persistence.go\<close> that build on \<open>writeJSONAtomic\<close> and \<open>pruneDir\<close>. \<^verbatim>\<open>filepath.Join\<close>, the encoders,
  the listing of a directory and the failures of the single calls are parameters. The lemmas show that both artifacts
  of a build are there, with their contents, when the writer reports success, and that the candidate may stay behind without its trace when it
  does not.
\<close>

type_synonym files = "(string, string) gomap"

record persist_env =
  pe_join :: "string list \<Rightarrow> string"
  pe_mkdir :: "string option"
  pe_ops1 :: fs_ops
  pe_ops2 :: fs_ops
  pe_list :: "string \<Rightarrow> files \<Rightarrow> string + (string \<times> gtime) list"
  pe_marshalSnapshot :: "TxSnapshot \<Rightarrow> string + string"
  pe_marshalCandidate :: "Candidate \<Rightarrow> string + string"
  pe_marshalTrace :: "Trace \<Rightarrow> string + string"

text \<open>\<^verbatim>\<open>os.RemoveAll\<close>: the path and everything below it. A failing removal is not looked at.\<close>

definition below :: "string \<Rightarrow> string \<Rightarrow> bool" where
  "below root path \<longleftrightarrow> path = root \<or> HasPrefix path (root @ ''/'')"

definition remove_all :: "files \<Rightarrow> string \<Rightarrow> files" where
  "remove_all fs root = filter (\<lambda>(path, _). \<not> below root path) fs"

definition prune_files :: "persist_env \<Rightarrow> string \<Rightarrow> int \<Rightarrow> files \<Rightarrow> string option \<times> files" where
  "prune_files pe root maxRetained fs =
     (if maxRetained \<le> 0 then (None, fs)
      else case pe_list pe root fs of
             Inl err \<Rightarrow> (Some err, fs)
           | Inr items \<Rightarrow> (None, foldl remove_all fs (pruneDir items maxRetained)))"

definition persistSnapshot :: "persist_env \<Rightarrow> TxConfig \<Rightarrow> TxSnapshot option \<Rightarrow> files \<Rightarrow> string option \<times> files" where
  "persistSnapshot pe cfg snapshot fs =
     (case snapshot of
        None \<Rightarrow> (None, fs)
      | Some snap \<Rightarrow>
          (let root = pe_join pe [cf_OutputDir cfg, ''snapshots''] in
           case pe_mkdir pe of
             Some err \<Rightarrow> (Some err, fs)
           | None \<Rightarrow>
               (case writeJSONAtomic (pe_ops1 pe) (pe_marshalSnapshot pe snap) (pe_join pe [root, sn_SnapshotID snap @ ''.json''])
                       (cf_MaxSnapshotBytes cfg) fs of
                  (Some err, fs) \<Rightarrow> (Some err, fs)
                | (None, fs) \<Rightarrow> prune_files pe root (cf_MaxRetainedSnap cfg) fs)))"

definition persistBuildArtifacts ::
  "persist_env \<Rightarrow> TxConfig \<Rightarrow> Candidate \<Rightarrow> Trace \<Rightarrow> TxSnapshot option \<Rightarrow> files \<Rightarrow> (string + (string \<times> string)) \<times> files" where
  "persistBuildArtifacts pe cfg candidate trace snapshot fs =
     (if snapshot = None then (Inl ''snapshot is nil'', fs)
      else let root = pe_join pe [cf_OutputDir cfg, ''results'', ca_CandidateID candidate] in
        case pe_mkdir pe of
          Some err \<Rightarrow> (Inl err, fs)
        | None \<Rightarrow>
            (let candidatePath = pe_join pe [root, ''candidate.json'']; tracePath = pe_join pe [root, ''trace.json''] in
             case writeJSONAtomic (pe_ops1 pe) (pe_marshalCandidate pe candidate) candidatePath (cf_MaxArtifactBytes cfg) fs of
               (Some err, fs) \<Rightarrow> (Inl err, fs)
             | (None, fs) \<Rightarrow>
                 (case writeJSONAtomic (pe_ops2 pe) (pe_marshalTrace pe trace) tracePath (cf_MaxTraceBytes cfg) fs of
                    (Some err, fs) \<Rightarrow> (Inl err, fs)
                  | (None, fs) \<Rightarrow>
                      (Inr (candidatePath, tracePath),
                       snd (prune_files pe (pe_join pe [cf_OutputDir cfg, ''results'']) (cf_MaxRetainedJobs cfg) fs)))))"

section \<open>What is left on disk\<close>

lemma gm_get_remove_all: "gm_get (remove_all fs root) path = (if below root path then None else gm_get fs path)"
  unfolding remove_all_def gm_get_def by (induction fs) auto

lemma gm_get_remove_list:
  "gm_get (foldl remove_all fs roots) path = (if \<exists>r \<in> set roots. below r path then None else gm_get fs path)"
  by (induction roots arbitrary: fs) (auto simp: gm_get_remove_all)

lemma write_done:
  assumes "writeJSONAtomic fo (Inr b) path maxBytes fs = (None, fs')"
  shows "gm_get fs' path = Some b \<and> (maxBytes > 0 \<longrightarrow> int (length b) \<le> maxBytes) \<and>
    (\<forall>p. p \<noteq> path \<and> p \<noteq> path @ ''.tmp'' \<longrightarrow> gm_get fs' p = gm_get fs p)"
  using assms by (auto simp: writeJSONAtomic_def Let_def split: option.splits if_splits)

lemma write_done_Inr: "writeJSONAtomic fo m path maxBytes fs = (None, fs') \<Longrightarrow> \<exists>b. m = Inr b"
  by (cases m) (simp_all add: writeJSONAtomic_def)

text \<open>
  Both artifacts of a build that was reported as written are on disk, each within its bound, unless the pruning that follows
  took the build's own directory.
\<close>

lemma artifacts_written_together:
  assumes "persistBuildArtifacts pe cfg candidate trace snapshot fs = (Inr (cp, tp), fs')"
    and "tp \<noteq> cp" and "tp @ ''.tmp'' \<noteq> cp"
  shows "\<exists>cb tb fs2. pe_marshalCandidate pe candidate = Inr cb \<and> pe_marshalTrace pe trace = Inr tb \<and>
    (cf_MaxArtifactBytes cfg > 0 \<longrightarrow> int (length cb) \<le> cf_MaxArtifactBytes cfg) \<and>
    (cf_MaxTraceBytes cfg > 0 \<longrightarrow> int (length tb) \<le> cf_MaxTraceBytes cfg) \<and>
    gm_get fs2 cp = Some cb \<and> gm_get fs2 tp = Some tb \<and>
    fs' = snd (prune_files pe (pe_join pe [cf_OutputDir cfg, ''results'']) (cf_MaxRetainedJobs cfg) fs2)"
proof -
  let ?m1 = "pe_marshalCandidate pe candidate" and ?m2 = "pe_marshalTrace pe trace"
  obtain fs1 fs2 where w1: "writeJSONAtomic (pe_ops1 pe) ?m1 cp (cf_MaxArtifactBytes cfg) fs = (None, fs1)"
      and w2: "writeJSONAtomic (pe_ops2 pe) ?m2 tp (cf_MaxTraceBytes cfg) fs1 = (None, fs2)"
      and p: "fs' = snd (prune_files pe (pe_join pe [cf_OutputDir cfg, ''results'']) (cf_MaxRetainedJobs cfg) fs2)"
    using assms(1) by (auto simp: persistBuildArtifacts_def Let_def split: option.splits prod.splits if_splits)
  obtain cb tb where b: "?m1 = Inr cb" "?m2 = Inr tb" using write_done_Inr [OF w1] write_done_Inr [OF w2] by blast
  note d1 = write_done [OF w1 [unfolded b]] and d2 = write_done [OF w2 [unfolded b]]
  have "gm_get fs2 cp = Some cb" using d1 d2 assms(2,3) by metis
  then show ?thesis using b d1 d2 p by blast
qed

text \<open>Pruning only takes entries of the listing, the oldest ones first, and leaves the number retained.\<close>

lemma prune_keeps_newest:
  assumes "pe_list pe root fs = Inr items" and "0 < maxRetained" and "path \<notin> set (pruneDir items maxRetained)"
    and "\<And>r. r \<in> set (pruneDir items maxRetained) \<Longrightarrow> \<not> below r path"
  shows "gm_get (snd (prune_files pe root maxRetained fs)) path = gm_get fs path \<and>
    length (pruneDir items maxRetained) = length items - nat maxRetained"
proof -
  have "length (pruneDir items maxRetained) = length items - nat maxRetained"
    using assms(2) by (auto simp: pruneDir_def nat_diff_distrib)
  then show ?thesis using assms by (auto simp: prune_files_def gm_get_remove_list)
qed

text \<open>
  When the trace cannot be written the candidate stays on disk without it, although the two are said to be written together.
\<close>

lemma candidate_without_trace:
  assumes "pe_mkdir pe = None" and "pe_marshalCandidate pe candidate = Inr cb" and "pe_marshalTrace pe trace = Inl e"
    and "writeJSONAtomic (pe_ops1 pe) (Inr cb) (pe_join pe [pe_join pe [cf_OutputDir cfg, ''results'', ca_CandidateID candidate], ''candidate.json''])
      (cf_MaxArtifactBytes cfg) fs = (None, fs1)"
  shows "persistBuildArtifacts pe cfg candidate trace (Some snap) fs = (Inl e, fs1) \<and>
    gm_get fs1 (pe_join pe [pe_join pe [cf_OutputDir cfg, ''results'', ca_CandidateID candidate], ''candidate.json'']) = Some cb"
  using assms write_done [OF assms(4)] by (simp add: persistBuildArtifacts_def writeJSONAtomic_def [of "pe_ops2 pe"] Let_def)

end
