(* ===== verification/Go_Float.thy ===== *)
theory Go_Float
  imports Complex_Main Go_Prelude
begin

text \<open>
  \<^verbatim>\<open>float64\<close>: IEEE 754 double precision as Go uses it, with NaN, the infinities and signed
  zeros. A finite non-zero value is the rational number it denotes; every operation rounds
  its exact result to the nearest representable number, ties to even. Comparisons are exact, and
  false as soon as one side is NaN.
\<close>

datatype f64 = FNaN | FInf bool | FZero bool | FFin rat

section \<open>Rounding\<close>

text \<open>The nearest integer to a non-negative rational, ties to even.\<close>

definition round_even :: "rat \<Rightarrow> int" where
  "round_even q =
     (let n = \<lfloor>q\<rfloor>; r = q - of_int n in
      if r < 1 / 2 then n else if r > 1 / 2 then n + 1 else if even n then n else n + 1)"

text \<open>
  The exponent of the last place of a positive rational: \<open>2 ^ 52 \<le> q / 2 ^ e < 2 ^ 53\<close>, but at
  least -1074 (the subnormal range). The two searches stop at the ends of the range.
\<close>

fun scale_up :: "nat \<Rightarrow> rat \<Rightarrow> int \<Rightarrow> int" where
  "scale_up 0 q e = e"
| "scale_up (Suc n) q e = (if q \<ge> 2 ^ 53 then scale_up n (q / 2) (e + 1) else e)"

fun scale_down :: "nat \<Rightarrow> rat \<Rightarrow> int \<Rightarrow> int" where
  "scale_down 0 q e = e"
| "scale_down (Suc n) q e = (if q < 2 ^ 52 then scale_down n (q * 2) (e - 1) else e)"

definition pow2 :: "int \<Rightarrow> rat" where
  "pow2 e = (if e \<ge> 0 then 2 ^ nat e else 1 / 2 ^ nat (- e))"

definition ulp_exp :: "rat \<Rightarrow> int" where
  "ulp_exp q = (if q \<ge> 2 ^ 53 then scale_up 1100 q 0 else scale_down 1074 q 0)"

definition max_finite :: rat where
  "max_finite = (2 ^ 53 - 1) * 2 ^ 971"

text \<open>Rounding a non-negative magnitude; \<open>neg\<close> is the sign of the result.\<close>

definition f_round_mag :: "bool \<Rightarrow> rat \<Rightarrow> f64" where
  "f_round_mag neg q =
     (let e = ulp_exp q; v = of_int (round_even (q / pow2 e)) * pow2 e in
      if v = 0 then FZero neg
      else if v > max_finite then FInf neg
      else FFin (if neg then - v else v))"

definition f_round :: "bool \<Rightarrow> rat \<Rightarrow> f64" where
  "f_round neg_zero q =
     (if q = 0 then FZero neg_zero else f_round_mag (q < 0) \<bar>q\<bar>)"

section \<open>Operations\<close>

fun f_val :: "f64 \<Rightarrow> rat" where
  "f_val (FFin q) = q"
| "f_val _ = 0"

fun f_negative :: "f64 \<Rightarrow> bool" where
  "f_negative (FFin q) = (q < 0)"
| "f_negative (FZero s) = s"
| "f_negative (FInf s) = s"
| "f_negative FNaN = False"

fun is_nan :: "f64 \<Rightarrow> bool" where
  "is_nan FNaN = True"
| "is_nan _ = False"

fun is_inf :: "f64 \<Rightarrow> bool" where
  "is_inf (FInf s) = True"
| "is_inf _ = False"

definition f_is_zero :: "f64 \<Rightarrow> bool" where
  "f_is_zero a = (\<not> is_nan a \<and> \<not> is_inf a \<and> f_val a = 0)"

fun f_neg :: "f64 \<Rightarrow> f64" where
  "f_neg FNaN = FNaN"
| "f_neg (FInf s) = FInf (\<not> s)"
| "f_neg (FZero s) = FZero (\<not> s)"
| "f_neg (FFin q) = FFin (- q)"

definition f_add :: "f64 \<Rightarrow> f64 \<Rightarrow> f64" where
  "f_add a b =
     (if is_nan a \<or> is_nan b then FNaN
      else if is_inf a then (if is_inf b \<and> f_negative a \<noteq> f_negative b then FNaN else a)
      else if is_inf b then b
      else f_round (f_negative a \<and> f_negative b) (f_val a + f_val b))"

definition f_sub :: "f64 \<Rightarrow> f64 \<Rightarrow> f64" where
  "f_sub a b = f_add a (f_neg b)"

definition f_mul :: "f64 \<Rightarrow> f64 \<Rightarrow> f64" where
  "f_mul a b =
     (let s = (f_negative a \<noteq> f_negative b) in
      if is_nan a \<or> is_nan b then FNaN
      else if is_inf a \<or> is_inf b
      then (if f_is_zero a \<or> f_is_zero b then FNaN else FInf s)
      else f_round s (f_val a * f_val b))"

definition f_div :: "f64 \<Rightarrow> f64 \<Rightarrow> f64" where
  "f_div a b =
     (let s = (f_negative a \<noteq> f_negative b) in
      if is_nan a \<or> is_nan b then FNaN
      else if is_inf a then (if is_inf b then FNaN else FInf s)
      else if is_inf b then FZero s
      else if f_is_zero b then (if f_is_zero a then FNaN else FInf s)
      else f_round s (f_val a / f_val b))"

definition f_lt :: "f64 \<Rightarrow> f64 \<Rightarrow> bool" where
  "f_lt a b =
     (if is_nan a \<or> is_nan b then False
      else if is_inf a \<or> is_inf b
      then (is_inf a \<and> f_negative a \<and> \<not> (is_inf b \<and> f_negative b) \<or>
            is_inf b \<and> \<not> f_negative b \<and> \<not> (is_inf a \<and> \<not> f_negative a))
      else f_val a < f_val b)"

definition f_eq :: "f64 \<Rightarrow> f64 \<Rightarrow> bool" where
  "f_eq a b =
     (\<not> is_nan a \<and> \<not> is_nan b \<and>
      (if is_inf a \<or> is_inf b then a = b else f_val a = f_val b))"

definition f_le :: "f64 \<Rightarrow> f64 \<Rightarrow> bool" where
  "f_le a b = (f_lt a b \<or> f_eq a b)"

definition f_of_int :: "int \<Rightarrow> f64" where
  "f_of_int i = f_round False (of_int i)"

text \<open>A decimal constant \<open>n / d\<close> of the source.\<close>

definition f_const :: "int \<Rightarrow> int \<Rightarrow> f64" where
  "f_const n d = f_round False (of_int n / of_int d)"

section \<open>Order\<close>

text \<open>
  Position of a number on the extended line: a rank, and the value among the finite ones. Zeros
  of both signs share their position.
\<close>

definition f_pos :: "f64 \<Rightarrow> int \<times> rat" where
  "f_pos a = (if is_inf a then (if f_negative a then - 1 else 1, 0) else (0, f_val a))"

lemma f_lt_pos:
  "\<not> is_nan a \<Longrightarrow> \<not> is_nan b \<Longrightarrow>
     f_lt a b \<longleftrightarrow> fst (f_pos a) < fst (f_pos b) \<or> fst (f_pos a) = fst (f_pos b) \<and> snd (f_pos a) < snd (f_pos b)"
  by (cases a; cases b) (auto simp: f_lt_def f_pos_def)

lemma f_eq_pos: "\<not> is_nan a \<Longrightarrow> \<not> is_nan b \<Longrightarrow> f_eq a b \<longleftrightarrow> f_pos a = f_pos b"
  by (cases a; cases b) (auto simp: f_eq_def f_pos_def)

lemma f_lt_irrefl [simp]: "\<not> f_lt a a"
  by (cases a) (auto simp: f_lt_def)

lemma f_lt_trans: "f_lt a b \<Longrightarrow> f_lt b c \<Longrightarrow> f_lt a c"
  by (cases a; cases b; cases c) (auto simp: f_lt_def)

lemma f_lt_total: "\<not> is_nan a \<Longrightarrow> \<not> is_nan b \<Longrightarrow> f_lt a b \<or> f_eq a b \<or> f_lt b a"
  by (auto simp: f_lt_pos f_eq_pos prod_eq_iff)

lemma f_nan_compare [simp]: "\<not> f_lt FNaN a" "\<not> f_lt a FNaN" "\<not> f_eq FNaN a" "\<not> f_eq a FNaN"
  by (simp_all add: f_lt_def f_eq_def)

lemma f_eq_refl [simp]: "f_eq a a \<longleftrightarrow> \<not> is_nan a"
  by (cases a) (auto simp: f_eq_def)

lemma f_eq_sym: "f_eq a b \<longleftrightarrow> f_eq b a"
  by (auto simp: f_eq_def)

section \<open>clamp\<close>

definition clamp :: "f64 \<Rightarrow> f64 \<Rightarrow> f64 \<Rightarrow> f64" where
  "clamp v lo hi = (if f_lt v lo then lo else if f_lt hi v then hi else v)"

lemma clamp_nan [simp]: "clamp FNaN lo hi = FNaN"
  by (simp add: clamp_def)

lemma clamp_range:
  assumes "\<not> is_nan v" and "\<not> f_lt hi lo" and "\<not> is_nan lo" and "\<not> is_nan hi"
  shows "\<not> f_lt (clamp v lo hi) lo \<and> \<not> f_lt hi (clamp v lo hi) \<and> \<not> is_nan (clamp v lo hi)"
  using assms by (simp add: clamp_def)

section \<open>Conversions\<close>

text \<open>
  \<^verbatim>\<open>int64(f)\<close> and \<^verbatim>\<open>time.Duration(f)\<close> drop the fraction. Go leaves the result open when it does not
  fit; this is what its amd64 compiler yields.
\<close>

definition trunc_rat :: "rat \<Rightarrow> int" where
  "trunc_rat q = (if q < 0 then - \<lfloor>- q\<rfloor> else \<lfloor>q\<rfloor>)"

definition f_to_int64 :: "f64 \<Rightarrow> int" where
  "f_to_int64 a = (case a of
       FZero _ \<Rightarrow> 0
     | FFin q \<Rightarrow> (if min_int64 \<le> trunc_rat q \<and> trunc_rat q \<le> max_int64 then trunc_rat q else min_int64)
     | _ \<Rightarrow> min_int64)"

text \<open>\<^verbatim>\<open>math.Round\<close>: to the nearest integer, halves away from zero.\<close>

definition f_math_round :: "f64 \<Rightarrow> f64" where
  "f_math_round a = (case a of
       FFin q \<Rightarrow> (let n = \<lfloor>\<bar>q\<bar> + 1 / 2\<rfloor> in
         if n = 0 then FZero (q < 0) else FFin (if q < 0 then - of_int n else of_int n))
     | _ \<Rightarrow> a)"

definition f_math_min :: "f64 \<Rightarrow> f64 \<Rightarrow> f64" where
  "f_math_min a b =
     (if a = FInf True \<or> b = FInf True then FInf True
      else if is_nan a \<or> is_nan b then FNaN
      else if f_is_zero a \<and> f_is_zero b then (if f_negative a then a else b)
      else if f_lt a b then a else b)"

section \<open>Numbers that are not negative\<close>

definition f_nonneg :: "f64 \<Rightarrow> bool" where
  "f_nonneg a \<longleftrightarrow> \<not> is_nan a \<and> \<not> f_lt a (FZero False)"

definition f_unit :: "f64 \<Rightarrow> bool" where
  "f_unit a \<longleftrightarrow> \<not> is_nan a \<and> \<not> f_lt a (FZero False) \<and> \<not> f_lt (FFin 1) a"

lemma round_even_nonneg: "0 \<le> q \<Longrightarrow> 0 \<le> round_even q"
  by (simp add: round_even_def Let_def)

lemma pow2_pos [simp]: "0 < pow2 e"
  by (simp add: pow2_def)

lemma f_nonneg_cases: "f_nonneg a \<longleftrightarrow> (\<exists>s. a = FZero s) \<or> a = FInf False \<or> (\<exists>q. a = FFin q \<and> 0 \<le> q)"
  by (cases a) (auto simp: f_nonneg_def f_lt_def)

lemma f_round_nonneg: "0 \<le> q \<Longrightarrow> f_nonneg (f_round s q)"
proof -
  assume q: "0 \<le> q"
  have "0 \<le> (of_int (round_even (q / pow2 (ulp_exp q))) :: rat) * pow2 (ulp_exp q)"
    using q round_even_nonneg [of "q / pow2 (ulp_exp q)"] by (simp add: less_imp_le)
  then show ?thesis using q
    by (auto simp: f_round_def f_round_mag_def Let_def f_nonneg_cases)
qed

lemma f_nonneg_val: "f_nonneg a \<Longrightarrow> 0 \<le> f_val a" "f_nonneg a \<Longrightarrow> is_nan a \<longleftrightarrow> False" "f_nonneg a \<Longrightarrow> is_inf a \<Longrightarrow> a = FInf False"
  by (auto simp: f_nonneg_cases)

lemma f_unit_nonneg: "f_unit a \<Longrightarrow> f_nonneg a" "f_unit a \<Longrightarrow> \<not> is_inf a"
  by (cases a; auto simp: f_unit_def f_nonneg_def f_lt_def)+

lemma f_add_nonneg:
  assumes "f_nonneg a" and "f_nonneg b"
  shows "f_nonneg (f_add a b)"
proof (cases "is_inf a \<or> is_inf b")
  case True
  then show ?thesis using assms by (auto simp: f_add_def f_nonneg_val dest!: f_nonneg_val(3))
next
  case False
  then show ?thesis using assms f_nonneg_val by (simp add: f_add_def f_round_nonneg)
qed

lemma f_mul_nonneg: "f_nonneg a \<Longrightarrow> f_nonneg b \<Longrightarrow> \<not> is_inf a \<Longrightarrow> \<not> is_inf b \<Longrightarrow> f_nonneg (f_mul a b)"
  by (simp add: f_mul_def Let_def f_nonneg_val f_round_nonneg)

lemma f_div_nonneg:
  assumes "f_nonneg a" and "0 < q"
  shows "f_nonneg (f_div a (FFin q))"
proof (cases "is_inf a")
  case True
  then have "a = FInf False" using assms(1) f_nonneg_val(3) by blast
  then show ?thesis using assms(2) by (simp add: f_div_def f_nonneg_cases)
next
  case False
  then show ?thesis using assms f_nonneg_val by (simp add: f_div_def Let_def f_is_zero_def f_round_nonneg)
qed

text \<open>Clamping to the unit interval lands there unless the number is NaN.\<close>

lemma clamp_unit: "\<not> is_nan v \<Longrightarrow> f_unit (clamp v (FZero False) (FFin 1))"
  by (cases v) (auto simp: clamp_def f_unit_def f_lt_def)

lemma clamp_nonneg:
  assumes "\<not> is_nan v" and "0 \<le> hi"
  shows "f_nonneg (clamp v (FZero False) (FFin hi)) \<and> \<not> is_inf (clamp v (FZero False) (FFin hi))"
  using assms by (cases v) (auto simp: clamp_def f_nonneg_def f_lt_def)

lemma one_minus_unit: "f_unit p \<Longrightarrow> \<not> is_nan (f_sub (FFin 1) p)"
  by (cases p) (auto simp: f_unit_def f_sub_def f_add_def f_round_def f_round_mag_def Let_def f_lt_def)

section \<open>Rounding stays close\<close>

lemma pow2_Suc: "pow2 (e + 1) = 2 * pow2 e"
proof (cases "e \<ge> 0")
  case True
  then show ?thesis by (simp add: pow2_def nat_add_distrib)
next
  case False
  then obtain n where n: "e = - int (Suc n)" by (metis negD not_le)
  then show ?thesis by (cases n) (simp_all add: pow2_def nat_add_distrib)
qed

lemma scale_up_le: "1 \<le> q \<Longrightarrow> pow2 (scale_up n q e) \<le> q * pow2 e"
proof (induction n arbitrary: q e)
  case 0
  then show ?case using pow2_pos [of e] by simp
next
  case (Suc n)
  show ?case
  proof (cases "q \<ge> 2 ^ 53")
    case True
    then have "pow2 (scale_up n (q / 2) (e + 1)) \<le> q / 2 * pow2 (e + 1)" by (intro Suc.IH) simp
    then show ?thesis using True by (simp add: pow2_Suc)
  next
    case False
    then show ?thesis using Suc.prems pow2_pos [of e] by simp
  qed
qed

lemma scale_down_le: "scale_down n q e \<le> e"
proof (induction n arbitrary: q e)
  case (Suc n)
  then show ?case using Suc.IH [of "q * 2" "e - 1"] by simp
qed simp

lemma pow2_le_1: "e \<le> 0 \<Longrightarrow> pow2 e \<le> 1"
  by (simp add: pow2_def)

lemma pow2_ulp: "1 \<le> q \<Longrightarrow> pow2 (ulp_exp q) \<le> q"
proof (cases "q \<ge> 2 ^ 53")
  case True
  assume "1 \<le> q"
  then show ?thesis using True scale_up_le [of q 1100 0] by (simp add: ulp_exp_def pow2_def)
next
  case False
  assume q: "1 \<le> q"
  have "pow2 (ulp_exp q) \<le> 1" using False scale_down_le [of 1074 q 0] by (simp add: ulp_exp_def pow2_le_1)
  then show ?thesis using q by simp
qed

lemma round_even_bounds: "of_int (round_even q) \<le> q + 1" "\<lfloor>q\<rfloor> \<le> round_even q"
  by (simp_all add: round_even_def Let_def) linarith+

text \<open>A number of at least 1 and far from the largest one rounds to a positive finite number.\<close>

lemma f_round_pos:
  assumes "1 \<le> q" and "2 * q \<le> max_finite"
  shows "\<exists>r > 0. f_round s q = FFin r"
proof -
  let ?u = "pow2 (ulp_exp q)"
  let ?v = "of_int (round_even (q / ?u)) * ?u"
  have u: "0 < ?u" "?u \<le> q" using pow2_ulp [OF assms(1)] by simp_all
  then have "1 \<le> q / ?u" by simp
  then have "1 \<le> round_even (q / ?u)" using round_even_bounds(2) [of "q / ?u"] by (simp add: order_trans [OF _ round_even_bounds(2)])
  then have pos: "0 < ?v" using u(1) by simp
  have "?v \<le> (q / ?u + 1) * ?u" using round_even_bounds(1) [of "q / ?u"] u(1) by (simp add: mult_right_mono)
  then have "?v \<le> q + ?u" using u(1) by (simp add: algebra_simps)
  then have "?v \<le> max_finite" using u(2) assms(2) by linarith
  then show ?thesis using pos assms(1) by (auto simp: f_round_def f_round_mag_def Let_def)
qed

lemma f_round_small_finite:
  assumes "0 \<le> q" and "q \<le> 1"
  shows "\<not> is_inf (f_round s q)"
proof -
  let ?u = "pow2 (ulp_exp q)"
  let ?v = "of_int (round_even (q / ?u)) * ?u"
  have u: "0 < ?u" "?u \<le> 1"
    using assms(2) scale_down_le [of 1074 q 0] by (simp_all add: ulp_exp_def pow2_le_1)
  have "?v \<le> (q / ?u + 1) * ?u" using round_even_bounds(1) [of "q / ?u"] u(1) by (simp add: mult_right_mono)
  then have "?v \<le> q + ?u" using u(1) by (simp add: algebra_simps)
  moreover have "2 \<le> max_finite" by (simp add: max_finite_def)
  ultimately have "\<not> ?v > max_finite" using u(2) assms(2) by linarith
  then show ?thesis using assms(1) by (simp add: f_round_def f_round_mag_def Let_def)
qed

lemma f_round_not_nan [simp]: "\<not> is_nan (f_round s q)"
  by (simp add: f_round_def f_round_mag_def Let_def)

lemma f_of_int_not_nan [simp]: "\<not> is_nan (f_of_int n)"
  by (simp add: f_of_int_def)

lemma f_of_int_pos: "1 \<le> n \<Longrightarrow> n \<le> max_int64 \<Longrightarrow> \<exists>r > 0. f_of_int n = FFin r"
  unfolding f_of_int_def by (rule f_round_pos) (simp_all add: max_finite_def max_int64_def)

lemma f_div_pos_not_nan: "\<not> is_nan a \<Longrightarrow> 0 < q \<Longrightarrow> \<not> is_nan (f_div a (FFin q))"
  by (simp add: f_div_def Let_def f_is_zero_def)

lemma f_div_not_nan:
  assumes "\<not> is_nan a" and "\<not> is_nan b" and "\<not> is_inf b" and "\<not> f_is_zero a"
  shows "\<not> is_nan (f_div a b)"
  using assms by (simp add: f_div_def Let_def)

end
