(* ===== verification/Relay_Model.thy ===== *)
theory Relay_Model
  imports Go_Float Go_Strings
begin

text \<open>
  The data of relay v3 (\<^verbatim>\<open>mev/relay/v3/internal/model/model.go\<close>) and the life cycle of a bundle
  (\<^verbatim>\<open>lifecycle/state.go\<close>).

  The lemmas show that the transition table is a graph whose only way to go on for ever is
  the retry loop: every other transition strictly advances \<open>phase\<close>, every
  state can still reach \<open>StateCompleted\<close>, and nothing leaves it.
\<close>

section \<open>Data\<close>

record BundleRequest =
  bq_Txs :: "string list"
  bq_BlockNumber :: string
  bq_MinTimestamp :: int
  bq_MaxTimestamp :: int
  bq_Replacement :: "string option"

record JSONRPCRequest =
  jr_JSONRPC :: string
  jr_ID :: int
  jr_Method :: string
  jr_Params :: "BundleRequest list"

datatype BundleState =
  StateReceived | StateValidated | StateQueued | StateSimulating | StateSimulated | StateScored
  | StateRetryPending | StateDeadLetter | StateForwarded | StateRejected | StatePersisted
  | StateCompleted

fun state_string :: "BundleState \<Rightarrow> string" where
  "state_string StateReceived = ''received''"
| "state_string StateValidated = ''validated''"
| "state_string StateQueued = ''queued''"
| "state_string StateSimulating = ''simulating''"
| "state_string StateSimulated = ''simulated''"
| "state_string StateScored = ''scored''"
| "state_string StateRetryPending = ''retry_pending''"
| "state_string StateDeadLetter = ''dead_letter''"
| "state_string StateForwarded = ''forwarded''"
| "state_string StateRejected = ''rejected''"
| "state_string StatePersisted = ''persisted''"
| "state_string StateCompleted = ''completed''"

record BundleRecord =
  bd_ID :: string
  bd_BundleHash :: string
  bd_Request :: BundleRequest
  bd_ClientID :: string
  bd_RegionID :: string
  bd_ShardID :: string
  bd_LeaseID :: string
  bd_LeaseEpoch :: u64
  bd_FenceToken :: u64
  bd_State :: BundleState
  bd_RetryCount :: int
  bd_Score :: f64
  bd_ProfitEth :: f64
  bd_Reason :: string
  bd_Terminal :: string
  bd_Version :: int
  bd_Sequence :: u64
  bd_CreatedAt :: gtime
  bd_UpdatedAt :: gtime
  bd_QueuedAt :: gtime
  bd_CompletedAt :: gtime
  bd_DeadlineAt :: gtime
  bd_ExpectedValue :: f64
  bd_ExpectedCost :: f64
  bd_ExpectedServiceMS :: int
  bd_Priority :: f64

record EventRecord =
  ev_Time :: gtime
  ev_BundleID :: string
  ev_BundleHash :: string
  ev_From :: BundleState
  ev_To :: BundleState
  ev_Reason :: string
  ev_Version :: int
  ev_Sequence :: u64
  ev_ClientID :: string
  ev_RegionID :: string
  ev_ShardID :: string
  ev_LeaseID :: string
  ev_LeaseEpoch :: u64
  ev_FenceToken :: u64

record CheckpointRecord =
  cp_BatchID :: string
  cp_BundleID :: string
  cp_ShardID :: string
  cp_ObjectKey :: string
  cp_Epoch :: u64
  cp_Root :: string
  cp_EventCount :: nat
  cp_LastOffset :: u64
  cp_RegionID :: string
  cp_SignedBy :: string
  cp_Signature :: string
  cp_Time :: gtime
  cp_Version :: int

section \<open>Life cycle\<close>

definition IsTerminal :: "BundleState \<Rightarrow> bool" where
  "IsTerminal s = (s \<in> {StateForwarded, StateRejected, StateDeadLetter, StateCompleted})"

fun allowedTransitions :: "BundleState \<Rightarrow> BundleState list" where
  "allowedTransitions StateReceived = [StateValidated, StateDeadLetter, StateRejected]"
| "allowedTransitions StateValidated = [StateQueued, StateDeadLetter, StateRejected]"
| "allowedTransitions StateQueued = [StateSimulating, StateDeadLetter, StateRejected]"
| "allowedTransitions StateSimulating = [StateSimulated, StateRetryPending, StateRejected, StateDeadLetter]"
| "allowedTransitions StateSimulated = [StateScored, StateDeadLetter, StateRejected]"
| "allowedTransitions StateScored = [StateForwarded, StateDeadLetter, StateRejected]"
| "allowedTransitions StateRetryPending = [StateQueued, StateDeadLetter]"
| "allowedTransitions StateForwarded = [StatePersisted]"
| "allowedTransitions StateRejected = [StatePersisted]"
| "allowedTransitions StateDeadLetter = [StatePersisted]"
| "allowedTransitions StatePersisted = [StateCompleted]"
| "allowedTransitions StateCompleted = []"

definition AllowedNext :: "(BundleState list \<Rightarrow> BundleState list) \<Rightarrow> BundleState \<Rightarrow> BundleState list" where
  "AllowedNext ord from = ord (allowedTransitions from)"

definition CanTransition :: "BundleState \<Rightarrow> BundleState \<Rightarrow> bool" where
  "CanTransition from to = (if from = to then False else to \<in> set (allowedTransitions from))"

definition ValidateTransition :: "BundleState \<Rightarrow> BundleState \<Rightarrow> string option" where
  "ValidateTransition from to =
     (if \<not> CanTransition from to
      then Some (''illegal transition '' @ state_string from @ '' -> '' @ state_string to)
      else None)"

section \<open>Shape of the life cycle\<close>

text \<open>How far a bundle has come; the retry loop is the one place where it goes back.\<close>

fun phase :: "BundleState \<Rightarrow> nat" where
  "phase StateReceived = 0"
| "phase StateValidated = 1"
| "phase StateQueued = 2"
| "phase StateSimulating = 3"
| "phase StateRetryPending = 4"
| "phase StateSimulated = 4"
| "phase StateScored = 5"
| "phase StateForwarded = 6"
| "phase StateRejected = 6"
| "phase StateDeadLetter = 6"
| "phase StatePersisted = 7"
| "phase StateCompleted = 8"

lemma CanTransition_advances:
  "CanTransition from to \<Longrightarrow> phase from < phase to \<or> from = StateRetryPending \<and> to = StateQueued"
  by (cases "from") (auto simp: CanTransition_def split: if_splits)

lemma CanTransition_from_completed [simp]: "\<not> CanTransition StateCompleted to"
  by (simp add: CanTransition_def)

lemma CanTransition_bounded: "phase s \<le> 8"
  by (cases s) auto

lemma CanTransition_direct:
  "CanTransition StateReceived StateRejected" "CanTransition StateValidated StateRejected"
  "CanTransition StateQueued StateRejected" "CanTransition StateSimulating StateRejected"
  "CanTransition StateSimulated StateRejected" "CanTransition StateScored StateRejected"
  "CanTransition StateRetryPending StateDeadLetter" "CanTransition StateForwarded StatePersisted"
  "CanTransition StateRejected StatePersisted" "CanTransition StateDeadLetter StatePersisted"
  "CanTransition StatePersisted StateCompleted"
  by (simp_all add: CanTransition_def)

text \<open>The number of retries on a path of states.\<close>

fun retries_on :: "BundleState list \<Rightarrow> nat" where
  "retries_on (a # b # ss) = (if a = StateRetryPending then 1 else 0) + retries_on (b # ss)"
| "retries_on _ = 0"

lemma path_length_bound:
  "successively CanTransition (s # ss) \<Longrightarrow> length ss + phase s \<le> 8 + 3 * retries_on (s # ss)"
proof (induction ss arbitrary: s)
  case Nil
  then show ?case by (simp add: CanTransition_bounded)
next
  case (Cons t ss)
  then have step: "CanTransition s t" and rest: "successively CanTransition (t # ss)" by auto
  have IH: "length ss + phase t \<le> 8 + 3 * retries_on (t # ss)" by (rule Cons.IH [OF rest])
  show ?case
    using CanTransition_advances [OF step] IH by auto
qed

section \<open>Properties\<close>

text \<open>
  No bundle lives for ever without retries: a path through the life cycle that retries \<open>r\<close>
  times has at most \<open>8 + 3 * r\<close> transitions, whatever it starts from.
\<close>

theorem lifecycle_path_bound:
  assumes "successively CanTransition (s # ss)"
  shows "length ss \<le> 8 + 3 * retries_on (s # ss)"
  using path_length_bound [OF assms] by simp

theorem lifecycle_path_bound_witness:
  "length [StateSimulating, StateRetryPending, StateQueued, StateRejected, StatePersisted] \<le>
     8 + 3 * retries_on [StateQueued, StateSimulating, StateRetryPending, StateQueued, StateRejected, StatePersisted]"
  by (rule lifecycle_path_bound) (simp add: CanTransition_def)

text \<open>
  From every state a bundle can still be completed, and a completed bundle never changes
  state again.
\<close>

theorem lifecycle_completes:
  "CanTransition\<^sup>*\<^sup>* s StateCompleted \<and> \<not> CanTransition StateCompleted t"
proof -
  note step = converse_rtranclp_into_rtranclp [of CanTransition]
  have p: "CanTransition\<^sup>*\<^sup>* StatePersisted StateCompleted"
    using CanTransition_direct by (blast intro: step)
  have t: "CanTransition\<^sup>*\<^sup>* StateRejected StateCompleted" "CanTransition\<^sup>*\<^sup>* StateDeadLetter StateCompleted"
      "CanTransition\<^sup>*\<^sup>* StateForwarded StateCompleted"
    using CanTransition_direct p by (blast intro: step)+
  have "CanTransition\<^sup>*\<^sup>* s StateCompleted"
    using CanTransition_direct p t by (cases s) (blast intro: step)+
  then show ?thesis by simp
qed

end
