(* ===== verification/Relay_Config.thy ===== *)
theory Relay_Config
  imports Relay_Model
begin

text \<open>
  The configuration of relay v3, \<^verbatim>\<open>mev/relay/v3/internal/config/config.go\<close>. The environment is the
  function \<open>lookup\<close> (\<^verbatim>\<open>os.LookupEnv\<close>); \<^verbatim>\<open>time.ParseDuration\<close> and \<^verbatim>\<open>strconv.ParseFloat\<close> are parameters.
\<close>

record RelayConfig =
  rc_HTTPAddr :: string
  rc_DataDir :: string
  rc_RegionID :: string
  rc_NetworkID :: string
  rc_ShardID :: string
  rc_ShardSet :: "string list"
  rc_BackendKind :: string
  rc_StateKind :: string
  rc_ValkeyURL :: string
  rc_BrokerTopic :: string
  rc_BrokerKind :: string
  rc_BrokerURL :: string
  rc_BrokerBuffer :: int
  rc_CheckpointKind :: string
  rc_CheckpointEndpoint :: string
  rc_CheckpointAccessKey :: string
  rc_CheckpointSecretKey :: string
  rc_CheckpointBucket :: string
  rc_CheckpointUseSSL :: bool
  rc_QueueDepth :: int
  rc_WorkerCount :: int
  rc_MaxRetries :: int
  rc_RetryBackoff :: duration
  rc_LeaseTTL :: duration
  rc_LeaseRenewInterval :: duration
  rc_RequestTimeout :: duration
  rc_MaxPayloadBytes :: int
  rc_MaxInFlightPerClient :: int
  rc_HistoryLimit :: int
  rc_StateRetention :: duration
  rc_WALMaxEntries :: int
  rc_AuditFlushEvery :: int
  rc_MaxQueueAge :: duration
  rc_MinNetValue :: f64
  rc_MinDeadlineSlack :: duration
  rc_ValuePerTx :: f64
  rc_CostPerTx :: f64
  rc_CostPerMS :: f64
  rc_OTELServiceName :: string
  rc_OTELExporterEndpoint :: string
  rc_OTELExporterInsecure :: bool
  rc_OTELSampleRatio :: f64
  rc_APIAuthToken :: string

definition env :: "(string \<Rightarrow> string option) \<Rightarrow> string \<Rightarrow> string \<Rightarrow> string" where
  "env lookup key fallback = (case lookup key of Some v \<Rightarrow> v | None \<Rightarrow> fallback)"

text \<open>\<^verbatim>\<open>strconv.Atoi\<close>: an optional sign and decimal digits, within 64 bits.\<close>

definition Atoi :: "string \<Rightarrow> int option" where
  "Atoi s = (let (neg, ds) = (case s of
         CHR ''-'' # ds \<Rightarrow> (True, ds) | CHR ''+'' # ds \<Rightarrow> (False, ds) | _ \<Rightarrow> (False, s)) in
       if ds = [] then None
       else case digits_value 10 0 ds of
           None \<Rightarrow> None
         | Some n \<Rightarrow> (let v = (if neg then - int n else int n) in
             if min_int64 \<le> v \<and> v \<le> max_int64 then Some v else None))"

definition envInt :: "(string \<Rightarrow> string option) \<Rightarrow> string \<Rightarrow> int \<Rightarrow> int" where
  "envInt lookup key fallback = (case lookup key of
       Some v \<Rightarrow> (case Atoi v of Some n \<Rightarrow> (if n \<ge> 0 then n else fallback) | None \<Rightarrow> fallback)
     | None \<Rightarrow> fallback)"

definition envDuration ::
  "(string \<Rightarrow> string option) \<Rightarrow> (string \<Rightarrow> duration option) \<Rightarrow> string \<Rightarrow> duration \<Rightarrow> duration" where
  "envDuration lookup parseDuration key fallback = (case lookup key of
       Some v \<Rightarrow> (case parseDuration v of Some d \<Rightarrow> d | None \<Rightarrow> fallback)
     | None \<Rightarrow> fallback)"

definition envFloat :: "(string \<Rightarrow> string option) \<Rightarrow> (string \<Rightarrow> f64 option) \<Rightarrow> string \<Rightarrow> f64 \<Rightarrow> f64" where
  "envFloat lookup parseFloat key fallback = (case lookup key of
       Some v \<Rightarrow> (case parseFloat v of Some f \<Rightarrow> f | None \<Rightarrow> fallback)
     | None \<Rightarrow> fallback)"

definition envBool :: "(string \<Rightarrow> string option) \<Rightarrow> string \<Rightarrow> bool \<Rightarrow> bool" where
  "envBool lookup key fallback = (case lookup key of
       Some v \<Rightarrow> (let w = ToLower (TrimSpace v) in
         if w \<in> set [''1'', ''true'', ''yes'', ''on''] then True
         else if w \<in> set [''0'', ''false'', ''no'', ''off''] then False else fallback)
     | None \<Rightarrow> fallback)"

definition splitCSV :: "string \<Rightarrow> string list" where
  "splitCSV v = filter (\<lambda>part. part \<noteq> []) (map TrimSpace (Split1 (CHR '','') v))"

definition relay_Load ::
  "(string \<Rightarrow> string option) \<Rightarrow> (string \<Rightarrow> duration option) \<Rightarrow> (string \<Rightarrow> f64 option) \<Rightarrow> RelayConfig" where
  "relay_Load lookup parseDuration parseFloat =
     (let shardID = env lookup ''SHARD_ID'' ''shard-0'';
          shardSet0 = splitCSV (env lookup ''SHARD_SET'' shardID);
          shardSet = (if shardSet0 = [] then [shardID] else shardSet0)
      in \<lparr>
       rc_HTTPAddr = env lookup ''HTTP_ADDR'' '':8090'',
       rc_DataDir = env lookup ''DATA_DIR'' ''data'',
       rc_RegionID = env lookup ''REGION_ID'' ''local'',
       rc_NetworkID = env lookup ''NETWORK_ID'' ''mainnet'',
       rc_ShardID = shardID,
       rc_ShardSet = shardSet,
       rc_BackendKind = env lookup ''BACKEND_KIND'' ''local'',
       rc_StateKind = env lookup ''STATE_KIND'' ''valkey'',
       rc_ValkeyURL = env lookup ''VALKEY_URL'' ''redis://valkey:6379'',
       rc_BrokerTopic = env lookup ''BROKER_TOPIC'' ''mevrelay.v3.events'',
       rc_BrokerKind = env lookup ''BROKER_KIND'' ''nats'',
       rc_BrokerURL = env lookup ''BROKER_URL'' ''nats://nats:4222'',
       rc_BrokerBuffer = envInt lookup ''BROKER_BUFFER'' 256,
       rc_CheckpointKind = env lookup ''CHECKPOINT_KIND'' ''minio'',
       rc_CheckpointEndpoint = env lookup ''CHECKPOINT_ENDPOINT'' ''minio:9000'',
       rc_CheckpointAccessKey = env lookup ''CHECKPOINT_ACCESS_KEY'' ''minioadmin'',
       rc_CheckpointSecretKey = env lookup ''CHECKPOINT_SECRET_KEY'' ''minioadmin'',
       rc_CheckpointBucket = env lookup ''CHECKPOINT_BUCKET'' ''mevrelay-checkpoints'',
       rc_CheckpointUseSSL = envBool lookup ''CHECKPOINT_USE_SSL'' False,
       rc_QueueDepth = envInt lookup ''QUEUE_DEPTH'' 1024,
       rc_WorkerCount = envInt lookup ''WORKER_COUNT'' 4,
       rc_MaxRetries = envInt lookup ''MAX_RETRIES'' 3,
       rc_RetryBackoff = envDuration lookup parseDuration ''RETRY_BACKOFF'' (500 * millisecond),
       rc_LeaseTTL = envDuration lookup parseDuration ''LEASE_TTL'' (5 * second),
       rc_LeaseRenewInterval = envDuration lookup parseDuration ''LEASE_RENEW_INTERVAL'' second,
       rc_RequestTimeout = envDuration lookup parseDuration ''REQUEST_TIMEOUT'' (2 * second),
       rc_MaxPayloadBytes = envInt lookup ''MAX_PAYLOAD_BYTES'' 262144,
       rc_MaxInFlightPerClient = envInt lookup ''MAX_INFLIGHT_PER_CLIENT'' 20,
       rc_HistoryLimit = envInt lookup ''HISTORY_LIMIT'' 256,
       rc_StateRetention = envDuration lookup parseDuration ''STATE_RETENTION'' (24 * 3600 * second),
       rc_WALMaxEntries = envInt lookup ''WAL_MAX_ENTRIES'' 2048,
       rc_AuditFlushEvery = envInt lookup ''AUDIT_FLUSH_EVERY'' 128,
       rc_MaxQueueAge = envDuration lookup parseDuration ''MAX_QUEUE_AGE'' (3 * second),
       rc_MinNetValue = envFloat lookup parseFloat ''MIN_NET_VALUE'' (FZero False),
       rc_MinDeadlineSlack = envDuration lookup parseDuration ''MIN_DEADLINE_SLACK'' (500 * millisecond),
       rc_ValuePerTx = envFloat lookup parseFloat ''VALUE_PER_TX'' (FFin 1),
       rc_CostPerTx = envFloat lookup parseFloat ''COST_PER_TX'' (FFin (1 / 4)),
       rc_CostPerMS = envFloat lookup parseFloat ''COST_PER_MS'' (f_const 1 100),
       rc_OTELServiceName = env lookup ''OTEL_SERVICE_NAME'' ''mevrelayv3'',
       rc_OTELExporterEndpoint = env lookup ''OTEL_EXPORTER_OTLP_ENDPOINT'' ''otel-collector:4317'',
       rc_OTELExporterInsecure = envBool lookup ''OTEL_EXPORTER_OTLP_INSECURE'' True,
       rc_OTELSampleRatio = envFloat lookup parseFloat ''OTEL_SAMPLE_RATIO'' (FFin (1 / 4)),
       rc_APIAuthToken = env lookup ''API_AUTH_TOKEN'' [] \<rparr>)"

text \<open>
  Whatever the environment holds, the integer settings are never negative and the shard set is
  never empty.
\<close>

lemma relay_Load_sane:
  "0 \<le> rc_QueueDepth (relay_Load lookup pd pf) \<and> 0 \<le> rc_MaxRetries (relay_Load lookup pd pf) \<and>
   0 \<le> rc_MaxInFlightPerClient (relay_Load lookup pd pf) \<and> 0 \<le> rc_HistoryLimit (relay_Load lookup pd pf) \<and>
   rc_ShardSet (relay_Load lookup pd pf) \<noteq> []"
proof -
  have "0 \<le> d \<Longrightarrow> 0 \<le> envInt lookup key d" for key d
    by (auto simp: envInt_def split: option.splits)
  then show ?thesis by (simp add: relay_Load_def Let_def)
qed

end
