(* ===== verification/Relay_Metrics.thy ===== *)
theory Relay_Metrics
  imports Relay_Model
begin

text \<open>
  The counters and gauges of \<^verbatim>\<open>mev/relay/v3/internal/telemetry/metrics.go\<close>. Every counter is an atomic
  64-bit word that wraps around; a float gauge stores the bits of its number, which is
  represented by the number.
\<close>

record Metrics =
  mt_submitted :: u64
  mt_accepted :: u64
  mt_rejected :: u64
  mt_forwarded :: u64
  mt_deadLetters :: u64
  mt_retryPending :: u64
  mt_retryScheduled :: u64
  mt_duplicates :: u64
  mt_queueOverflow :: u64
  mt_inflightLimit :: u64
  mt_backendErrors :: u64
  mt_stateErrors :: u64
  mt_walErrors :: u64
  mt_brokerErrors :: u64
  mt_terminalErrors :: u64
  mt_staleAuthority :: u64
  mt_wrongShard :: u64
  mt_checkpointErrors :: u64
  mt_policyAdjustments :: u64
  mt_queueDepth :: u64
  mt_queueCap :: u64
  mt_queueOldestAgeMS :: u64
  mt_queueNetValue :: f64
  mt_retryDebt :: f64
  mt_healthState :: "32 word"
  mt_recoveryState :: "32 word"
  mt_rolloutState :: "32 word"
  mt_policyRevision :: u64
  mt_policyPressure :: f64
  mt_policyConfidence :: f64
  mt_backendLatencyMS :: u64
  mt_stateLatencyMS :: u64
  mt_brokerLatencyMS :: u64
  mt_walLatencyMS :: u64
  mt_checkpointLatencyMS :: u64

definition New_Metrics :: Metrics where
  "New_Metrics = \<lparr>
     mt_submitted = 0, mt_accepted = 0, mt_rejected = 0, mt_forwarded = 0,
     mt_deadLetters = 0, mt_retryPending = 0, mt_retryScheduled = 0, mt_duplicates = 0,
     mt_queueOverflow = 0, mt_inflightLimit = 0, mt_backendErrors = 0, mt_stateErrors = 0,
     mt_walErrors = 0, mt_brokerErrors = 0, mt_terminalErrors = 0, mt_staleAuthority = 0,
     mt_wrongShard = 0, mt_checkpointErrors = 0, mt_policyAdjustments = 0, mt_queueDepth = 0,
     mt_queueCap = 0, mt_queueOldestAgeMS = 0, mt_queueNetValue = FZero False, mt_retryDebt = FZero False,
     mt_healthState = 0, mt_recoveryState = 0, mt_rolloutState = 0, mt_policyRevision = 0,
     mt_policyPressure = FZero False, mt_policyConfidence = FZero False, mt_backendLatencyMS = 0, mt_stateLatencyMS = 0,
     mt_brokerLatencyMS = 0, mt_walLatencyMS = 0, mt_checkpointLatencyMS = 0 \<rparr>"

record MetricsSnapshot =
  sn_Submitted :: u64
  sn_Accepted :: u64
  sn_Rejected :: u64
  sn_Forwarded :: u64
  sn_DeadLetters :: u64
  sn_RetryPending :: u64
  sn_RetryScheduled :: u64
  sn_Duplicates :: u64
  sn_QueueOverflow :: u64
  sn_InflightLimit :: u64
  sn_BackendErrors :: u64
  sn_StateErrors :: u64
  sn_WALErrors :: u64
  sn_BrokerErrors :: u64
  sn_TerminalErrors :: u64
  sn_StaleAuthority :: u64
  sn_WrongShard :: u64
  sn_CheckpointErrors :: u64
  sn_PolicyAdjustments :: u64
  sn_QueueDepth :: u64
  sn_QueueCap :: u64
  sn_QueueOldestAgeMS :: u64
  sn_QueueNetValue :: f64
  sn_RetryDebt :: f64
  sn_HealthStateCode :: "32 word"
  sn_HealthState :: string
  sn_RecoveryStateCode :: "32 word"
  sn_RecoveryState :: string
  sn_RolloutStateCode :: "32 word"
  sn_RolloutState :: string
  sn_PolicyRevision :: u64
  sn_PolicyPressure :: f64
  sn_PolicyConfidence :: f64
  sn_BackendLatencyMS :: u64
  sn_StateLatencyMS :: u64
  sn_BrokerLatencyMS :: u64
  sn_WALLatencyMS :: u64
  sn_CheckpointLatencyMS :: u64

section \<open>Counters\<close>

definition IncSubmitted :: "Metrics \<Rightarrow> Metrics" where
  "IncSubmitted m = m\<lparr> mt_submitted := mt_submitted m + 1 \<rparr>"

definition IncAccepted :: "Metrics \<Rightarrow> Metrics" where
  "IncAccepted m = m\<lparr> mt_accepted := mt_accepted m + 1 \<rparr>"

definition IncRejected :: "Metrics \<Rightarrow> Metrics" where
  "IncRejected m = m\<lparr> mt_rejected := mt_rejected m + 1 \<rparr>"

definition IncForwarded :: "Metrics \<Rightarrow> Metrics" where
  "IncForwarded m = m\<lparr> mt_forwarded := mt_forwarded m + 1 \<rparr>"

definition IncDeadLetter :: "Metrics \<Rightarrow> Metrics" where
  "IncDeadLetter m = m\<lparr> mt_deadLetters := mt_deadLetters m + 1 \<rparr>"

definition IncRetryPending :: "Metrics \<Rightarrow> Metrics" where
  "IncRetryPending m = m\<lparr> mt_retryPending := mt_retryPending m + 1 \<rparr>"

definition IncRetryScheduled :: "Metrics \<Rightarrow> Metrics" where
  "IncRetryScheduled m = m\<lparr> mt_retryScheduled := mt_retryScheduled m + 1 \<rparr>"

definition IncDuplicate :: "Metrics \<Rightarrow> Metrics" where
  "IncDuplicate m = m\<lparr> mt_duplicates := mt_duplicates m + 1 \<rparr>"

definition IncQueueOverflow :: "Metrics \<Rightarrow> Metrics" where
  "IncQueueOverflow m = m\<lparr> mt_queueOverflow := mt_queueOverflow m + 1 \<rparr>"

definition IncInflightLimit :: "Metrics \<Rightarrow> Metrics" where
  "IncInflightLimit m = m\<lparr> mt_inflightLimit := mt_inflightLimit m + 1 \<rparr>"

definition IncBackendError :: "Metrics \<Rightarrow> Metrics" where
  "IncBackendError m = m\<lparr> mt_backendErrors := mt_backendErrors m + 1 \<rparr>"

definition IncStateError :: "Metrics \<Rightarrow> Metrics" where
  "IncStateError m = m\<lparr> mt_stateErrors := mt_stateErrors m + 1 \<rparr>"

definition IncWALError :: "Metrics \<Rightarrow> Metrics" where
  "IncWALError m = m\<lparr> mt_walErrors := mt_walErrors m + 1 \<rparr>"

definition IncBrokerError :: "Metrics \<Rightarrow> Metrics" where
  "IncBrokerError m = m\<lparr> mt_brokerErrors := mt_brokerErrors m + 1 \<rparr>"

definition IncTerminalError :: "Metrics \<Rightarrow> Metrics" where
  "IncTerminalError m = m\<lparr> mt_terminalErrors := mt_terminalErrors m + 1 \<rparr>"

definition IncStaleAuthority :: "Metrics \<Rightarrow> Metrics" where
  "IncStaleAuthority m = m\<lparr> mt_staleAuthority := mt_staleAuthority m + 1 \<rparr>"

definition IncWrongShard :: "Metrics \<Rightarrow> Metrics" where
  "IncWrongShard m = m\<lparr> mt_wrongShard := mt_wrongShard m + 1 \<rparr>"

definition IncCheckpointError :: "Metrics \<Rightarrow> Metrics" where
  "IncCheckpointError m = m\<lparr> mt_checkpointErrors := mt_checkpointErrors m + 1 \<rparr>"

definition IncPolicyAdjustment :: "Metrics \<Rightarrow> Metrics" where
  "IncPolicyAdjustment m = m\<lparr> mt_policyAdjustments := mt_policyAdjustments m + 1 \<rparr>"

section \<open>Gauges\<close>

definition stateCode :: "string \<Rightarrow> 32 word" where
  "stateCode s =
     (if s = ''idle'' then 1 else if s = ''replaying'' then 2 else if s = ''validating'' then 3
      else if s = ''quarantined'' then 4 else if s = ''rejoined'' then 5 else if s = ''ready'' then 11
      else if s = ''draining'' then 12 else if s = ''cutover'' then 13 else if s = ''rollback'' then 14
      else if s = ''blocked'' then 15 else 0)"

definition stateCodeName :: "32 word \<Rightarrow> string" where
  "stateCodeName c =
     (if c = 1 then ''idle'' else if c = 2 then ''replaying'' else if c = 3 then ''validating''
      else if c = 4 then ''quarantined'' else if c = 5 then ''rejoined'' else if c = 11 then ''ready''
      else if c = 12 then ''draining'' else if c = 13 then ''cutover'' else if c = 14 then ''rollback''
      else if c = 15 then ''blocked'' else ''unknown'')"

definition SetHealthState :: "32 word \<Rightarrow> Metrics \<Rightarrow> Metrics" where
  "SetHealthState c m = m\<lparr> mt_healthState := c \<rparr>"

definition SetRecoveryState :: "string \<Rightarrow> Metrics \<Rightarrow> Metrics" where
  "SetRecoveryState s m = m\<lparr> mt_recoveryState := stateCode s \<rparr>"

definition SetRolloutState :: "string \<Rightarrow> Metrics \<Rightarrow> Metrics" where
  "SetRolloutState s m = m\<lparr> mt_rolloutState := stateCode s \<rparr>"

definition SetPolicy :: "u64 \<Rightarrow> f64 \<Rightarrow> f64 \<Rightarrow> Metrics \<Rightarrow> Metrics" where
  "SetPolicy revision pressure confidence m =
     m\<lparr> mt_policyRevision := revision, mt_policyPressure := pressure, mt_policyConfidence := confidence \<rparr>"

definition SetQueue :: "u64 \<Rightarrow> u64 \<Rightarrow> u64 \<Rightarrow> f64 \<Rightarrow> f64 \<Rightarrow> Metrics \<Rightarrow> Metrics" where
  "SetQueue depth cap oldestAgeMS netValue retryDebt m =
     m\<lparr> mt_queueDepth := depth, mt_queueCap := cap, mt_queueOldestAgeMS := oldestAgeMS,
        mt_queueNetValue := netValue, mt_retryDebt := retryDebt \<rparr>"

text \<open>\<^verbatim>\<open>uint64(d.Milliseconds())\<close>: a negative duration wraps around.\<close>

definition millis_u64 :: "duration \<Rightarrow> u64" where
  "millis_u64 d = word_of_int (go_div d millisecond)"

definition ObserveBackendLatency :: "duration \<Rightarrow> Metrics \<Rightarrow> Metrics" where
  "ObserveBackendLatency d m = m\<lparr> mt_backendLatencyMS := millis_u64 d \<rparr>"

definition ObserveStateLatency :: "duration \<Rightarrow> Metrics \<Rightarrow> Metrics" where
  "ObserveStateLatency d m = m\<lparr> mt_stateLatencyMS := millis_u64 d \<rparr>"

definition ObserveBrokerLatency :: "duration \<Rightarrow> Metrics \<Rightarrow> Metrics" where
  "ObserveBrokerLatency d m = m\<lparr> mt_brokerLatencyMS := millis_u64 d \<rparr>"

definition ObserveWALLatency :: "duration \<Rightarrow> Metrics \<Rightarrow> Metrics" where
  "ObserveWALLatency d m = m\<lparr> mt_walLatencyMS := millis_u64 d \<rparr>"

definition ObserveCheckpointLatency :: "duration \<Rightarrow> Metrics \<Rightarrow> Metrics" where
  "ObserveCheckpointLatency d m = m\<lparr> mt_checkpointLatencyMS := millis_u64 d \<rparr>"

section \<open>Snapshot\<close>

definition health_code_name :: "32 word \<Rightarrow> string" where
  "health_code_name c =
     (if c = 1 then ''healthy'' else if c = 2 then ''degraded'' else if c = 3 then ''draining''
      else if c = 4 then ''unsafe'' else ''unknown'')"

definition name_among :: "string list \<Rightarrow> 32 word \<Rightarrow> string" where
  "name_among names c = (if stateCodeName c \<in> set names then stateCodeName c else ''unknown'')"

definition mt_Snapshot :: "Metrics \<Rightarrow> MetricsSnapshot" where
  "mt_Snapshot m = \<lparr>
     sn_Submitted = mt_submitted m,
     sn_Accepted = mt_accepted m,
     sn_Rejected = mt_rejected m,
     sn_Forwarded = mt_forwarded m,
     sn_DeadLetters = mt_deadLetters m,
     sn_RetryPending = mt_retryPending m,
     sn_RetryScheduled = mt_retryScheduled m,
     sn_Duplicates = mt_duplicates m,
     sn_QueueOverflow = mt_queueOverflow m,
     sn_InflightLimit = mt_inflightLimit m,
     sn_BackendErrors = mt_backendErrors m,
     sn_StateErrors = mt_stateErrors m,
     sn_WALErrors = mt_walErrors m,
     sn_BrokerErrors = mt_brokerErrors m,
     sn_TerminalErrors = mt_terminalErrors m,
     sn_StaleAuthority = mt_staleAuthority m,
     sn_WrongShard = mt_wrongShard m,
     sn_CheckpointErrors = mt_checkpointErrors m,
     sn_PolicyAdjustments = mt_policyAdjustments m,
     sn_QueueDepth = mt_queueDepth m,
     sn_QueueCap = mt_queueCap m,
     sn_QueueOldestAgeMS = mt_queueOldestAgeMS m,
     sn_QueueNetValue = mt_queueNetValue m,
     sn_RetryDebt = mt_retryDebt m,
     sn_HealthStateCode = mt_healthState m,
     sn_HealthState = health_code_name (mt_healthState m),
     sn_RecoveryStateCode = mt_recoveryState m,
     sn_RecoveryState = name_among [''idle'', ''replaying'', ''validating'', ''quarantined'', ''rejoined''] (mt_recoveryState m),
     sn_RolloutStateCode = mt_rolloutState m,
     sn_RolloutState = name_among [''ready'', ''draining'', ''cutover'', ''rollback'', ''blocked''] (mt_rolloutState m),
     sn_PolicyRevision = mt_policyRevision m,
     sn_PolicyPressure = mt_policyPressure m,
     sn_PolicyConfidence = mt_policyConfidence m,
     sn_BackendLatencyMS = mt_backendLatencyMS m,
     sn_StateLatencyMS = mt_stateLatencyMS m,
     sn_BrokerLatencyMS = mt_brokerLatencyMS m,
     sn_WALLatencyMS = mt_walLatencyMS m,
     sn_CheckpointLatencyMS = mt_checkpointLatencyMS m \<rparr>"

section \<open>State names\<close>

text \<open>A state that was set is the one a snapshot names.\<close>

lemma recovery_state_roundtrip:
  "s \<in> {''idle'', ''replaying'', ''validating'', ''quarantined'', ''rejoined''} \<Longrightarrow>
   sn_RecoveryState (mt_Snapshot (SetRecoveryState s m)) = s"
  by (auto simp: mt_Snapshot_def SetRecoveryState_def name_among_def stateCode_def stateCodeName_def)

lemma rollout_state_roundtrip:
  "s \<in> {''ready'', ''draining'', ''cutover'', ''rollback'', ''blocked''} \<Longrightarrow>
   sn_RolloutState (mt_Snapshot (SetRolloutState s m)) = s"
  by (auto simp: mt_Snapshot_def SetRolloutState_def name_among_def stateCode_def stateCodeName_def)

end
