(* ===== verification/Relay_Scheduler.thy ===== *)
theory Relay_Scheduler
  imports Relay_Model "HOL-Library.Product_Lexorder"
begin

text \<open>
  The bounded priority queue of \<^verbatim>\<open>mev/relay/v3/internal/scheduler/scheduler.go\<close>. \<open>qu_tokens\<close> is
  the number of values waiting in the channel \<^verbatim>\<open>notify\<close>, whose capacity is the queue's: \<open>Push\<close> sends
  one under the lock, a popper receives one and then takes the lock and the first item. A
  send on a full channel would block with the lock held: that is the outcome \<open>PushBlocked\<close>.

  The lemmas show that \<open>betterThan\<close> orders items without NaN priorities, that the binary
  search of \<open>Push\<close> is insertion into the sorted list, that only the worst item is ever
  evicted, and, over every interleaving of pushes and pops, that \<open>Push\<close> never blocks.
\<close>

section \<open>Items\<close>

record Item =
  it_ID :: string
  it_Priority :: f64
  it_DeadlineAt :: gtime
  it_EnqueuedAt :: gtime
  it_ExpectedValue :: f64
  it_ExpectedCost :: f64
  it_ExpectedServiceMS :: int
  it_Reason :: string

definition betterThan :: "Item \<Rightarrow> Item \<Rightarrow> bool" where
  "betterThan a b =
     (if \<not> f_eq (it_Priority a) (it_Priority b) then f_lt (it_Priority b) (it_Priority a)
      else if it_DeadlineAt a \<noteq> it_DeadlineAt b then
        (if time_is_zero (it_DeadlineAt a) then False
         else if time_is_zero (it_DeadlineAt b) then True
         else it_DeadlineAt a < it_DeadlineAt b)
      else if it_EnqueuedAt a \<noteq> it_EnqueuedAt b then it_EnqueuedAt a < it_EnqueuedAt b
      else it_ID a < it_ID b)"

section \<open>Queue\<close>

datatype sched_error = ErrQueueClosed | ErrQueueDisabled | ErrQueueOverflow | ErrStaleWork

record Queue =
  qu_items :: "Item list"
  qu_cap :: int
  qu_closed :: bool
  qu_tokens :: nat

definition New_Queue :: "int \<Rightarrow> Queue" where
  "New_Queue capacity =
     \<lparr> qu_items = [], qu_cap = (if capacity \<le> 0 then 1 else capacity), qu_closed = False, qu_tokens = 0 \<rparr>"

text \<open>\<^verbatim>\<open>sort.Search\<close>: the least index at which the predicate holds, by halving.\<close>

function sort_search :: "(nat \<Rightarrow> bool) \<Rightarrow> nat \<Rightarrow> nat \<Rightarrow> nat" where
  "sort_search f i j =
     (if i < j then
        (let h = (i + j) div 2 in if \<not> f h then sort_search f (h + 1) j else sort_search f i h)
      else i)"
  by pat_completeness auto
termination
  by (relation "measure (\<lambda>(f, i, j). j - i)") auto

declare sort_search.simps [simp del]

datatype push_result =
    PushErr sched_error
  | Pushed "Item option"
  | PushBlocked

definition q_Push :: "gtime \<Rightarrow> Item \<Rightarrow> Queue \<Rightarrow> push_result \<times> Queue" where
  "q_Push now item q =
     (if qu_closed q then (PushErr ErrQueueClosed, q)
      else if time_is_zero (it_DeadlineAt item) \<or> now > it_DeadlineAt item then (PushErr ErrStaleWork, q)
      else if qu_cap q = 0 then (PushErr ErrQueueDisabled, q)
      else
        let prevLen = length (qu_items q);
            full = (int (length (qu_items q)) \<ge> qu_cap q);
            worst = last (qu_items q)
        in if full \<and> \<not> betterThan item worst then (PushErr ErrQueueOverflow, q)
           else
             let evicted = (if full then Some worst else None);
                 items1 = (if full then butlast (qu_items q) else qu_items q);
                 idx = sort_search (\<lambda>i. \<not> betterThan (items1 ! i) item) 0 (length items1);
                 items2 = take idx items1 @ item # drop idx items1
             in if length items2 > prevLen
                then (if int (qu_tokens q) < qu_cap q
                      then (Pushed evicted, q\<lparr> qu_items := items2, qu_tokens := qu_tokens q + 1 \<rparr>)
                      else (PushBlocked, q\<lparr> qu_items := items2 \<rparr>))
                else (Pushed evicted, q\<lparr> qu_items := items2 \<rparr>))"

text \<open>
  The two halves of \<^verbatim>\<open>Pop\<close>: receiving from \<^verbatim>\<open>notify\<close> (\<open>None\<close>: nothing to receive yet;
  \<open>Some False\<close>: closed and drained), and taking the first item under the lock.
\<close>

definition pop_receive :: "Queue \<Rightarrow> (bool \<times> Queue) option" where
  "pop_receive q =
     (if qu_tokens q > 0 then Some (True, q\<lparr> qu_tokens := qu_tokens q - 1 \<rparr>)
      else if qu_closed q then Some (False, q) else None)"

definition pop_take :: "Queue \<Rightarrow> Item option \<times> Queue" where
  "pop_take q = (case qu_items q of [] \<Rightarrow> (None, q) | item # rest \<Rightarrow> (Some item, q\<lparr> qu_items := rest \<rparr>))"

definition q_Len :: "Queue \<Rightarrow> nat" where
  "q_Len q = length (qu_items q)"

definition q_OldestAge :: "gtime \<Rightarrow> Queue \<Rightarrow> duration" where
  "q_OldestAge now q =
     (if qu_items q = [] then 0
      else let oldest = it_EnqueuedAt (last (qu_items q)) in
           if time_is_zero oldest then 0 else time_sub now oldest)"

definition q_Close :: "Queue \<Rightarrow> Queue" where
  "q_Close q = (if qu_closed q then q else q\<lparr> qu_closed := True \<rparr>)"

section \<open>The order of items\<close>

text \<open>What \<open>betterThan\<close> compares: a missing deadline counts as later than any other.\<close>

definition item_key :: "Item \<Rightarrow> (int \<times> rat) \<times> (nat \<times> int) \<times> int \<times> string" where
  "item_key a = ((- fst (f_pos (it_Priority a)), - snd (f_pos (it_Priority a))),
     (if time_is_zero (it_DeadlineAt a) then 1 else 0, it_DeadlineAt a), it_EnqueuedAt a, it_ID a)"

definition item_ok :: "Item \<Rightarrow> bool" where
  "item_ok a = (\<not> is_nan (it_Priority a))"

lemma lex_less:
  fixes a1 a2 :: int and b1 b2 :: rat and c1 c2 :: nat and d1 d2 e1 e2 :: int and g1 g2 :: string
  shows "((a1, b1), (c1, d1), e1, g1) < ((a2, b2), (c2, d2), e2, g2) \<longleftrightarrow>
     a1 < a2 \<or> a1 = a2 \<and> (b1 < b2 \<or> b1 = b2 \<and> (c1 < c2 \<or> c1 = c2 \<and> (d1 < d2 \<or> d1 = d2 \<and>
       (e1 < e2 \<or> e1 = e2 \<and> g1 < g2))))"
  by (auto simp: order.strict_iff_order)

lemma betterThan_key:
  assumes "item_ok a" and "item_ok b"
  shows "betterThan a b \<longleftrightarrow> item_key a < item_key b"
proof -
  have "f_eq (it_Priority a) (it_Priority b) \<longleftrightarrow> f_pos (it_Priority a) = f_pos (it_Priority b)"
    "f_lt (it_Priority b) (it_Priority a) \<longleftrightarrow>
       fst (f_pos (it_Priority b)) < fst (f_pos (it_Priority a)) \<or>
       fst (f_pos (it_Priority b)) = fst (f_pos (it_Priority a)) \<and>
       snd (f_pos (it_Priority b)) < snd (f_pos (it_Priority a))"
    using assms f_eq_pos f_lt_pos by (auto simp: item_ok_def)
  moreover obtain ia ra ib rb where "f_pos (it_Priority a) = (ia, ra)" "f_pos (it_Priority b) = (ib, rb)"
    by (metis surj_pair)
  ultimately show ?thesis
    unfolding betterThan_def item_key_def time_is_zero_def lex_less
    by (cases "it_DeadlineAt a = 0"; cases "it_DeadlineAt b = 0") auto
qed

lemma linorder_cotrans: "(x :: 'a :: linorder) < z \<Longrightarrow> x < y \<or> y < z"
  by (meson le_less_trans not_le)

interpretation item_order: weak_order_on betterThan item_ok
proof unfold_locales
  show "\<not> betterThan x x" if "item_ok x" for x
    unfolding betterThan_key [OF that that] by (rule less_irrefl)
  show "betterThan x z" if "item_ok x" "item_ok y" "item_ok z" "betterThan x y" "betterThan y z" for x y z
    using that(4,5) unfolding betterThan_key [OF that(1,2)] betterThan_key [OF that(2,3)]
      betterThan_key [OF that(1,3)] by (rule less_trans)
  show "betterThan x y \<or> betterThan y z"
    if "item_ok x" "item_ok y" "item_ok z" "betterThan x z" for x y z
    using that(4) unfolding betterThan_key [OF that(1,2)] betterThan_key [OF that(2,3)]
      betterThan_key [OF that(1,3)] by (rule linorder_cotrans)
qed

section \<open>Binary search\<close>

lemma sort_search_unfold:
  "\<not> i < j \<Longrightarrow> sort_search f i j = i"
  "i < j \<Longrightarrow> \<not> f ((i + j) div 2) \<Longrightarrow> sort_search f i j = sort_search f ((i + j) div 2 + 1) j"
  "i < j \<Longrightarrow> f ((i + j) div 2) \<Longrightarrow> sort_search f i j = sort_search f i ((i + j) div 2)"
  by (subst sort_search.simps, simp add: Let_def)+

definition mono_on_range :: "(nat \<Rightarrow> bool) \<Rightarrow> nat \<Rightarrow> nat \<Rightarrow> bool" where
  "mono_on_range f i j \<longleftrightarrow> (\<forall>k l. i \<le> k \<and> k \<le> l \<and> l < j \<and> f k \<longrightarrow> f l)"

definition is_least_index :: "(nat \<Rightarrow> bool) \<Rightarrow> nat \<Rightarrow> nat \<Rightarrow> nat \<Rightarrow> bool" where
  "is_least_index f i j n \<longleftrightarrow>
     i \<le> n \<and> n \<le> j \<and> (\<forall>k. i \<le> k \<and> k < n \<longrightarrow> \<not> f k) \<and> (\<forall>k. n \<le> k \<and> k < j \<longrightarrow> f k)"

lemma mono_on_range_sub: "mono_on_range f i j \<Longrightarrow> i \<le> i' \<Longrightarrow> j' \<le> j \<Longrightarrow> mono_on_range f i' j'"
  unfolding mono_on_range_def by (meson le_trans less_le_trans)

lemma sort_search_least:
  "i \<le> j \<Longrightarrow> mono_on_range f i j \<Longrightarrow> is_least_index f i j (sort_search f i j)"
proof (induction f i j rule: sort_search.induct)
  case (1 f i j)
  let ?h = "(i + j) div 2"
  consider "\<not> i < j" | "i < j" "\<not> f ?h" | "i < j" "f ?h" by blast
  then show ?case
  proof cases
    case 1
    then show ?thesis using "1.prems"(1) by (auto simp: sort_search_unfold is_least_index_def)
  next
    case 2
    have h: "i \<le> ?h" "?h < j" using 2(1) by auto
    have "is_least_index f (?h + 1) j (sort_search f (?h + 1) j)"
      using mono_on_range_sub [OF "1.prems"(2), of "?h + 1" j] h by (intro "1.IH"(1) [OF 2(1) refl 2(2)]) auto
    moreover have "\<not> f k" if "i \<le> k" "k < ?h + 1" for k
      using "1.prems"(2) h 2(2) that unfolding mono_on_range_def by (metis Suc_eq_plus1 less_Suc_eq_le)
    ultimately show ?thesis
      unfolding sort_search_unfold(2) [of i j f, OF 2] is_least_index_def using h by (meson le_trans not_le le_add1)
  next
    case 3
    have h: "i \<le> ?h" "?h < j" using 3(1) by auto
    have "is_least_index f i ?h (sort_search f i ?h)"
      using mono_on_range_sub [OF "1.prems"(2), of i ?h] h 3(2) by (intro "1.IH"(2) [OF 3(1) refl]) auto
    moreover have "f k" if "?h \<le> k" "k < j" for k
      using "1.prems"(2) h 3(2) that unfolding mono_on_range_def by blast
    ultimately show ?thesis
      unfolding sort_search_unfold(3) [of i j f, OF 3] is_least_index_def using h by (meson le_trans not_le less_imp_le)
  qed
qed

text \<open>In a sorted list the search finds the place where \<open>insert_by\<close> inserts.\<close>

abbreviation items_sorted :: "Item list \<Rightarrow> bool" where
  "items_sorted xs \<equiv> sorted_wrt (\<lambda>a b. \<not> betterThan b a) xs"

lemma insert_by_split:
  assumes "n \<le> length xs" and "\<And>k. k < n \<Longrightarrow> lt (xs ! k) x" and "n < length xs \<Longrightarrow> \<not> lt (xs ! n) x"
  shows "insert_by lt x xs = take n xs @ x # drop n xs"
  using assms
proof (induction xs arbitrary: n)
  case (Cons y ys)
  show ?case
  proof (cases n)
    case 0
    then show ?thesis using Cons.prems(3) by simp
  next
    case (Suc m)
    have "lt y x" using Cons.prems(2) [of 0] Suc by simp
    moreover have "insert_by lt x ys = take m ys @ x # drop m ys"
      using Cons.prems Suc by (intro Cons.IH) fastforce+
    ultimately show ?thesis using Suc by simp
  qed
qed simp

lemma search_inserts:
  assumes "items_sorted xs" and "list_all item_ok xs" and "item_ok x"
  shows "(let idx = sort_search (\<lambda>i. \<not> betterThan (xs ! i) x) 0 (length xs)
          in take idx xs @ x # drop idx xs) = insert_by betterThan x xs"
proof -
  let ?f = "\<lambda>i. \<not> betterThan (xs ! i) x"
  let ?n = "sort_search ?f 0 (length xs)"
  have "mono_on_range ?f 0 (length xs)"
    unfolding mono_on_range_def
  proof (intro allI impI)
    fix k l assume kl: "0 \<le> k \<and> k \<le> l \<and> l < length xs \<and> ?f k"
    have ok: "item_ok (xs ! k)" "item_ok (xs ! l)" using assms(2) kl by (simp_all add: list_all_length)
    have "\<not> betterThan (xs ! l) (xs ! k)"
      using assms(1) kl item_order.lt_irrefl [OF ok(1)] by (cases "k = l") (simp_all add: sorted_wrt_iff_nth_less)
    then show "?f l" using item_order.notlt_trans [OF assms(3) ok] kl by blast
  qed
  from sort_search_least [OF le0 this] have least: "is_least_index ?f 0 (length xs) ?n" .
  have n: "?n \<le> length xs" "\<And>k. k < ?n \<Longrightarrow> betterThan (xs ! k) x" "?n < length xs \<Longrightarrow> \<not> betterThan (xs ! ?n) x"
    using least unfolding is_least_index_def by (blast intro: order_refl)+
  show ?thesis unfolding Let_def using insert_by_split [of ?n xs betterThan x] n by simp
qed

section \<open>Push and pop\<close>

definition queue_ok :: "Queue \<Rightarrow> bool" where
  "queue_ok q \<longleftrightarrow> 0 < qu_cap q \<and> int (length (qu_items q)) \<le> qu_cap q \<and>
     list_all item_ok (qu_items q) \<and> items_sorted (qu_items q)"

lemma length_insert_by [simp]: "length (insert_by lt x xs) = Suc (length xs)"
  by (induction xs) auto

lemma sorted_wrt_butlast: "sorted_wrt P xs \<Longrightarrow> sorted_wrt P (butlast xs)"
  by (cases xs rule: rev_cases) (simp_all add: sorted_wrt_append)

lemma sorted_last_worst:
  assumes "items_sorted xs" and "x \<in> set (butlast xs)"
  shows "\<not> betterThan (last xs) x"
  using assms by (cases xs rule: rev_cases) (auto simp: sorted_wrt_append)

text \<open>The effect of an accepted push, with the search replaced by insertion.\<close>

lemma q_Push_accepted:
  assumes "queue_ok q" and "item_ok item" and "\<not> qu_closed q"
    and "it_DeadlineAt item \<noteq> 0" and "now \<le> it_DeadlineAt item"
    and "qu_tokens q \<le> length (qu_items q)"
  shows "q_Push now item q =
    (if int (length (qu_items q)) < qu_cap q
     then (Pushed None, q\<lparr> qu_items := insert_by betterThan item (qu_items q), qu_tokens := qu_tokens q + 1 \<rparr>)
     else if betterThan item (last (qu_items q))
     then (Pushed (Some (last (qu_items q))),
           q\<lparr> qu_items := insert_by betterThan item (butlast (qu_items q)) \<rparr>)
     else (PushErr ErrQueueOverflow, q))"
proof -
  have Q: "0 < qu_cap q" "list_all item_ok (qu_items q)" "items_sorted (qu_items q)"
    using assms(1) by (simp_all add: queue_ok_def)
  have ins: "take (sort_search (\<lambda>i. \<not> betterThan (qu_items q ! i) item) 0 (length (qu_items q))) (qu_items q) @
      item # drop (sort_search (\<lambda>i. \<not> betterThan (qu_items q ! i) item) 0 (length (qu_items q))) (qu_items q) =
      insert_by betterThan item (qu_items q)"
    using search_inserts [OF Q(3,2) assms(2)] by (simp only: Let_def)
  have okb: "list_all item_ok (butlast (qu_items q))" using Q(2) by (auto simp: list_all_iff dest: in_set_butlastD)
  let ?b = "butlast (qu_items q)"
  have insb: "take (sort_search (\<lambda>i. \<not> betterThan (?b ! i) item) 0 (length ?b)) ?b @
      item # drop (sort_search (\<lambda>i. \<not> betterThan (?b ! i) item) 0 (length ?b)) ?b = insert_by betterThan item ?b"
    using search_inserts [OF sorted_wrt_butlast [OF Q(3)] okb assms(2)] by (simp only: Let_def)
  have ne: "qu_items q \<noteq> []" if "\<not> int (length (qu_items q)) < qu_cap q" using that Q(1) by auto
  have open_guards: "\<not> (time_is_zero (it_DeadlineAt item) \<or> now > it_DeadlineAt item)" "qu_cap q \<noteq> 0"
    using assms(4,5) Q(1) by (simp_all add: time_is_zero_def)
  show ?thesis
  proof (cases "int (length (qu_items q)) < qu_cap q")
    case True
    then have "\<not> int (length (qu_items q)) \<ge> qu_cap q" "int (qu_tokens q) < qu_cap q" using assms(6) by simp_all
    then show ?thesis
      using assms(3) open_guards True unfolding q_Push_def Let_def
      by (simp only: if_False simp_thms if_True ins length_insert_by lessI)
  next
    case False
    then have "int (length (qu_items q)) \<ge> qu_cap q" by simp
    moreover have "\<not> length (qu_items q) < Suc (length ?b)" using ne [OF False] by (simp add: Suc_pred)
    ultimately show ?thesis
      using assms(3) open_guards False unfolding q_Push_def Let_def
      by (cases "betterThan item (last (qu_items q))")
        (simp_all only: if_False simp_thms if_True insb length_insert_by)
  qed
qed

fun opt_list :: "'a option \<Rightarrow> 'a list" where
  "opt_list None = []"
| "opt_list (Some x) = [x]"

text \<open>A rejected item leaves the queue as it was.\<close>

lemma q_Push_err: "q_Push now item q = (PushErr e, q') \<Longrightarrow> q' = q"
  by (auto simp: q_Push_def Let_def split: if_splits)

lemma queue_ok_New: "queue_ok (New_Queue capacity)"
  by (simp add: queue_ok_def New_Queue_def)

lemma q_Push_pushed:
  assumes "q_Push now item q = (r, q')" and "\<And>e. r \<noteq> PushErr e"
  shows "\<not> qu_closed q \<and> it_DeadlineAt item \<noteq> 0 \<and> now \<le> it_DeadlineAt item"
  using assms by (auto simp: q_Push_def time_is_zero_def split: if_splits)

text \<open>
  What a push that is not refused does: the contents gain the item and lose the evicted one,
  which is no better than any item that stays.
\<close>

lemma q_Push_spec:
  assumes "queue_ok q" and "item_ok item" and "qu_tokens q \<le> length (qu_items q)"
    and "q_Push now item q = (r, q')" and "\<And>e. r \<noteq> PushErr e"
  obtains ev where "r = Pushed ev" and "queue_ok q'"
    and "mset (qu_items q') + mset (opt_list ev) = mset (qu_items q) + {#item#}"
    and "qu_tokens q' + length (qu_items q) = qu_tokens q + length (qu_items q')"
    and "\<And>w x. ev = Some w \<Longrightarrow> x \<in> set (qu_items q') \<Longrightarrow> \<not> betterThan w x"
    and "qu_cap q' = qu_cap q" and "qu_closed q' = qu_closed q"
proof -
  have g: "\<not> qu_closed q" "it_DeadlineAt item \<noteq> 0" "now \<le> it_DeadlineAt item"
    using q_Push_pushed [OF assms(4,5)] by simp_all
  note res = assms(4) [unfolded q_Push_accepted [OF assms(1,2) g assms(3)]]
  have Q: "0 < qu_cap q" "int (length (qu_items q)) \<le> qu_cap q" "list_all item_ok (qu_items q)"
    "items_sorted (qu_items q)" using assms(1) by (simp_all add: queue_ok_def)
  consider "int (length (qu_items q)) < qu_cap q"
    | "\<not> int (length (qu_items q)) < qu_cap q" "betterThan item (last (qu_items q))"
    using res assms(5) by (auto split: if_splits)
  then show thesis
  proof cases
    case 1
    then have r: "r = Pushed None"
      "q' = q\<lparr> qu_items := insert_by betterThan item (qu_items q), qu_tokens := qu_tokens q + 1 \<rparr>"
      using res by simp_all
    have "queue_ok q'"
      using 1 Q assms(2) item_order.sorted_insert_by [OF assms(2) Q(3,4)]
      by (simp add: queue_ok_def r list_all_iff)
    then show thesis by (rule that [OF r(1)]) (simp_all add: r)
  next
    case 2
    let ?w = "last (qu_items q)" and ?b = "butlast (qu_items q)"
    have ne: "qu_items q \<noteq> []" using 2(1) Q(1) by auto
    have split: "qu_items q = ?b @ [?w]" using ne by simp
    have r: "r = Pushed (Some ?w)" "q' = q\<lparr> qu_items := insert_by betterThan item ?b \<rparr>"
      using res 2 by simp_all
    have okb: "list_all item_ok ?b" "item_ok ?w"
      using Q(3) ne by (auto simp: list_all_iff dest: in_set_butlastD)
    have "queue_ok q'"
      using Q(1,2) okb assms(2) ne item_order.sorted_insert_by [OF assms(2) okb(1) sorted_wrt_butlast [OF Q(4)]]
      by (simp add: queue_ok_def r list_all_iff)
    moreover have "mset (qu_items q) = mset ?b + {#?w#}" by (subst split) simp
    moreover have "\<not> betterThan ?w x" if "x \<in> set (qu_items q')" for x
      using that sorted_last_worst [OF Q(4)] item_order.lt_asym [OF assms(2) okb(2) 2(2)] by (auto simp: r)
    ultimately show thesis using ne by (intro that [OF r(1)]) (simp_all add: r)
  qed
qed

lemma push_evicts_full:
  assumes "queue_ok q" and "q_Push now item q = (Pushed (Some w), q')"
  shows "int (length (qu_items q)) = qu_cap q"
  using assms by (auto simp: q_Push_def queue_ok_def Let_def split: if_splits)

lemma push_overflow:
  assumes "queue_ok q" and "item_ok item" and "qu_tokens q \<le> length (qu_items q)"
    and "q_Push now item q = (PushErr ErrQueueOverflow, q')"
  shows "q' = q \<and> int (length (qu_items q)) = qu_cap q \<and> (\<forall>x\<in>set (qu_items q). \<not> betterThan item x)"
proof -
  have full: "int (length (qu_items q)) = qu_cap q" "\<not> betterThan item (last (qu_items q))"
    using assms(1,4) by (auto simp: q_Push_def queue_ok_def Let_def split: if_splits)
  then have ne: "qu_items q \<noteq> []" using assms(1) by (auto simp: queue_ok_def)
  have "\<not> betterThan item x" if x: "x \<in> set (qu_items q)" for x
  proof (cases "x \<in> set (butlast (qu_items q))")
    case True
    have ok: "item_ok x" "item_ok (last (qu_items q))" "items_sorted (qu_items q)"
      using assms(1) x ne by (auto simp: queue_ok_def list_all_iff)
    show ?thesis
      using item_order.notlt_trans [OF ok(1,2) assms(2)] sorted_last_worst [OF ok(3) True] full(2) by blast
  next
    case False
    then have "x = last (qu_items q)" using x ne by (metis append_butlast_last_id rotate1.simps(2) set_ConsD set_rotate1)
    then show ?thesis using full(2) by simp
  qed
  then show ?thesis using full(1) q_Push_err [OF assms(4)] by blast
qed

section \<open>Pushers and poppers in any order\<close>

text \<open>
  The queue with the number of poppers that have received a value from \<^verbatim>\<open>notify\<close> and not yet
  taken the lock. One operation is one critical section or one channel receive, so a list of
  operations is an interleaving of any number of goroutines.
\<close>

record PopSystem =
  sy_queue :: Queue
  sy_woken :: nat

datatype qop = QPush gtime Item | QReceive | QTake | QClose

definition pop_receive_step :: "PopSystem \<Rightarrow> PopSystem" where
  "pop_receive_step s = (case pop_receive (sy_queue s) of
       Some (True, q) \<Rightarrow> s\<lparr> sy_queue := q, sy_woken := sy_woken s + 1 \<rparr>
     | _ \<Rightarrow> s)"

definition q_step :: "qop \<Rightarrow> PopSystem \<Rightarrow> PopSystem" where
  "q_step op s = (case op of
       QPush now item \<Rightarrow> s\<lparr> sy_queue := snd (q_Push now item (sy_queue s)) \<rparr>
     | QReceive \<Rightarrow> pop_receive_step s
     | QTake \<Rightarrow> (if sy_woken s = 0 then s
                  else s\<lparr> sy_queue := snd (pop_take (sy_queue s)), sy_woken := sy_woken s - 1 \<rparr>)
     | QClose \<Rightarrow> s\<lparr> sy_queue := q_Close (sy_queue s) \<rparr>)"

definition q_in :: "qop \<Rightarrow> PopSystem \<Rightarrow> Item multiset" where
  "q_in op s = (case op of
       QPush now item \<Rightarrow> (case q_Push now item (sy_queue s) of (PushErr _, _) \<Rightarrow> {#} | _ \<Rightarrow> {#item#})
     | _ \<Rightarrow> {#})"

definition q_out :: "qop \<Rightarrow> PopSystem \<Rightarrow> Item multiset" where
  "q_out op s = (case op of
       QPush now item \<Rightarrow> (case q_Push now item (sy_queue s) of (Pushed ev, _) \<Rightarrow> mset (opt_list ev) | _ \<Rightarrow> {#})
     | QTake \<Rightarrow> (if sy_woken s = 0 then {#} else mset (opt_list (fst (pop_take (sy_queue s)))))
     | _ \<Rightarrow> {#})"

definition qop_ok :: "qop \<Rightarrow> bool" where
  "qop_ok op = (case op of QPush _ item \<Rightarrow> item_ok item | _ \<Rightarrow> True)"

definition pop_inv :: "PopSystem \<Rightarrow> bool" where
  "pop_inv s \<longleftrightarrow> queue_ok (sy_queue s) \<and>
     qu_tokens (sy_queue s) + sy_woken s = length (qu_items (sy_queue s))"

text \<open>
  A buffer that neither loses nor invents what it is given: the contract its users, the
  submit path and the workers, rely on.
\<close>

locale conserving_buffer =
  fixes step :: "'o \<Rightarrow> 's \<Rightarrow> 's"
    and ins outs :: "'o \<Rightarrow> 's \<Rightarrow> 'a multiset"
    and contents :: "'s \<Rightarrow> 'a multiset"
    and okop :: "'o \<Rightarrow> bool"
    and inv :: "'s \<Rightarrow> bool"
  assumes step_inv: "inv s \<Longrightarrow> okop op \<Longrightarrow> inv (step op s)"
    and step_conserves: "inv s \<Longrightarrow> okop op \<Longrightarrow> contents (step op s) + outs op s = contents s + ins op s"
begin

primrec total :: "('o \<Rightarrow> 's \<Rightarrow> 'a multiset) \<Rightarrow> 'o list \<Rightarrow> 's \<Rightarrow> 'a multiset" where
  "total f [] s = {#}"
| "total f (op # ops) s = f op s + total f ops (step op s)"

lemma run_inv: "inv s \<Longrightarrow> list_all okop ops \<Longrightarrow> inv (fold step ops s)"
  by (induction ops arbitrary: s) (simp_all add: step_inv)

lemma run_conserves:
  "inv s \<Longrightarrow> list_all okop ops \<Longrightarrow>
   contents (fold step ops s) + total outs ops s = contents s + total ins ops s"
proof (induction ops arbitrary: s)
  case (Cons op ops)
  then have "contents (fold step ops (step op s)) + total outs ops (step op s) + outs op s =
      contents (step op s) + outs op s + total ins ops (step op s)"
    by (simp add: step_inv ac_simps)
  also have "\<dots> = contents s + ins op s + total ins ops (step op s)"
    using Cons.prems step_conserves [of s op] by simp
  finally show ?case by (simp add: ac_simps)
qed simp

end

lemma pop_receive_inv: "pop_inv s \<Longrightarrow> pop_inv (pop_receive_step s)"
  by (auto simp: pop_receive_step_def pop_receive_def pop_inv_def queue_ok_def)

lemma pop_take_spec:
  assumes "queue_ok q" and "qu_items q \<noteq> []"
  obtains x where "fst (pop_take q) = Some x" and "queue_ok (snd (pop_take q))"
    and "mset (qu_items (snd (pop_take q))) + {#x#} = mset (qu_items q)"
    and "length (qu_items q) = Suc (length (qu_items (snd (pop_take q))))"
    and "qu_tokens (snd (pop_take q)) = qu_tokens q"
    and "\<And>y. y \<in> set (qu_items (snd (pop_take q))) \<Longrightarrow> \<not> betterThan y x"
  using assms by (cases "qu_items q") (auto simp: pop_take_def queue_ok_def)

lemma push_step_inv:
  assumes "pop_inv s" and "item_ok item"
  shows "pop_inv (s\<lparr> sy_queue := snd (q_Push now item (sy_queue s)) \<rparr>)"
proof -
  obtain r q' where rq: "q_Push now item (sy_queue s) = (r, q')" by (cases "q_Push now item (sy_queue s)")
  have tok: "qu_tokens (sy_queue s) \<le> length (qu_items (sy_queue s))" "queue_ok (sy_queue s)"
    using assms(1) by (simp_all add: pop_inv_def)
  show ?thesis
  proof (cases "\<exists>e. r = PushErr e")
    case True
    then show ?thesis using rq q_Push_err [of now item "sy_queue s"] assms(1) by auto
  next
    case False
    then have "queue_ok q' \<and> qu_tokens q' + length (qu_items (sy_queue s)) =
        qu_tokens (sy_queue s) + length (qu_items q')"
      using q_Push_spec [OF tok(2) assms(2) tok(1) rq] by metis
    then show ?thesis using assms(1) rq by (simp add: pop_inv_def)
  qed
qed

lemma push_step_conserves:
  assumes "pop_inv s" and "item_ok item"
  shows "mset (qu_items (snd (q_Push now item (sy_queue s)))) + q_out (QPush now item) s =
    mset (qu_items (sy_queue s)) + q_in (QPush now item) s"
proof -
  obtain r q' where rq: "q_Push now item (sy_queue s) = (r, q')" by (cases "q_Push now item (sy_queue s)")
  have tok: "qu_tokens (sy_queue s) \<le> length (qu_items (sy_queue s))" "queue_ok (sy_queue s)"
    using assms(1) by (simp_all add: pop_inv_def)
  show ?thesis
  proof (cases "\<exists>e. r = PushErr e")
    case True
    then show ?thesis using rq q_Push_err [of now item "sy_queue s"] by (auto simp: q_in_def q_out_def)
  next
    case False
    then obtain ev where "r = Pushed ev"
        "mset (qu_items q') + mset (opt_list ev) = mset (qu_items (sy_queue s)) + {#item#}"
      using q_Push_spec [OF tok(2) assms(2) tok(1) rq] by metis
    then show ?thesis using rq by (simp add: q_in_def q_out_def)
  qed
qed

lemma take_step:
  assumes "pop_inv s" and "sy_woken s \<noteq> 0"
  shows "pop_inv (s\<lparr> sy_queue := snd (pop_take (sy_queue s)), sy_woken := sy_woken s - 1 \<rparr>)"
    and "mset (qu_items (snd (pop_take (sy_queue s)))) + q_out QTake s = mset (qu_items (sy_queue s))"
proof -
  have q: "queue_ok (sy_queue s)" "qu_items (sy_queue s) \<noteq> []"
    using assms by (auto simp: pop_inv_def)
  obtain x where x: "fst (pop_take (sy_queue s)) = Some x" "queue_ok (snd (pop_take (sy_queue s)))"
    "mset (qu_items (snd (pop_take (sy_queue s)))) + {#x#} = mset (qu_items (sy_queue s))"
    "length (qu_items (sy_queue s)) = Suc (length (qu_items (snd (pop_take (sy_queue s)))))"
    "qu_tokens (snd (pop_take (sy_queue s))) = qu_tokens (sy_queue s)"
    using pop_take_spec [OF q] by metis
  show "pop_inv (s\<lparr> sy_queue := snd (pop_take (sy_queue s)), sy_woken := sy_woken s - 1 \<rparr>)"
    using assms x by (simp add: pop_inv_def)
  show "mset (qu_items (snd (pop_take (sy_queue s)))) + q_out QTake s = mset (qu_items (sy_queue s))"
    using assms x by (simp add: q_out_def)
qed

interpretation workq: conserving_buffer q_step q_in q_out "\<lambda>s. mset (qu_items (sy_queue s))" qop_ok pop_inv
proof unfold_locales
  fix s op assume inv: "pop_inv s" and ok: "qop_ok op"
  show "pop_inv (q_step op s)"
  proof (cases op)
    case QClose
    then show ?thesis using inv by (simp add: q_step_def q_Close_def pop_inv_def queue_ok_def)
  qed (use inv ok push_step_inv pop_receive_inv take_step(1) in \<open>auto simp: q_step_def qop_ok_def\<close>)
  show "mset (qu_items (sy_queue (q_step op s))) + q_out op s = mset (qu_items (sy_queue s)) + q_in op s"
  proof (cases op)
    case (QPush now item)
    then show ?thesis using push_step_conserves [OF inv] ok by (simp add: q_step_def qop_ok_def)
  next
    case QReceive
    then show ?thesis
      by (auto simp: q_step_def q_out_def q_in_def pop_receive_step_def pop_receive_def split: option.splits)
  next
    case QTake
    then show ?thesis using take_step(2) [OF inv] by (simp add: q_step_def q_in_def) (simp add: q_out_def)
  next
    case QClose
    then show ?thesis by (simp add: q_step_def q_out_def q_in_def q_Close_def)
  qed
qed

section \<open>Properties\<close>

definition pop_init :: "int \<Rightarrow> PopSystem" where
  "pop_init capacity = \<lparr> sy_queue = New_Queue capacity, sy_woken = 0 \<rparr>"

lemma pop_init_inv: "pop_inv (pop_init capacity)"
  by (simp add: pop_init_def pop_inv_def queue_ok_New) (simp add: New_Queue_def)

lemma pop_reach_inv: "list_all qop_ok ops \<Longrightarrow> pop_inv (fold q_step ops (pop_init capacity))"
  by (rule workq.run_inv [OF pop_init_inv])

lemma push_not_blocked:
  assumes "pop_inv s" and "item_ok item"
  shows "fst (q_Push now item (sy_queue s)) \<noteq> PushBlocked"
proof
  assume b: "fst (q_Push now item (sy_queue s)) = PushBlocked"
  have tok: "qu_tokens (sy_queue s) \<le> length (qu_items (sy_queue s))" "queue_ok (sy_queue s)"
    using assms(1) by (simp_all add: pop_inv_def)
  have "q_Push now item (sy_queue s) = (PushBlocked, snd (q_Push now item (sy_queue s)))"
    using b by (metis prod.collapse)
  from q_Push_spec [OF tok(2) assms(2) tok(1) this] show False by auto
qed

definition demo_item :: "string \<Rightarrow> rat \<Rightarrow> Item" where
  "demo_item i p = \<lparr> it_ID = i, it_Priority = FFin p, it_DeadlineAt = 100, it_EnqueuedAt = 1,
     it_ExpectedValue = FFin p, it_ExpectedCost = FFin 1, it_ExpectedServiceMS = 1, it_Reason = [] \<rparr>"

text \<open>
  C7: (scheduler.go \<^verbatim>\<open>Push\<close>/\<^verbatim>\<open>Pop\<close>) in every state any interleaving of pushes, channel receives,
  takes and \<^verbatim>\<open>Close\<close> reaches from a new queue, the values waiting in \<^verbatim>\<open>notify\<close> and the poppers already
  woken are together exactly as many as the queued items. So the send of \<^verbatim>\<open>Push\<close>, made with the lock
  held, never blocks, and a popper that was woken always finds an item.\<close>

theorem queue_never_blocks:
  assumes "list_all qop_ok ops" and "item_ok item" and "s = fold q_step ops (pop_init capacity)"
  shows "qu_tokens (sy_queue s) + sy_woken s = length (qu_items (sy_queue s)) \<and>
    int (length (qu_items (sy_queue s))) \<le> qu_cap (sy_queue s) \<and>
    fst (q_Push now item (sy_queue s)) \<noteq> PushBlocked \<and>
    (sy_woken s \<noteq> 0 \<longrightarrow> fst (pop_take (sy_queue s)) \<noteq> None)"
proof -
  have inv: "pop_inv s" unfolding assms(3) by (rule pop_reach_inv [OF assms(1)])
  moreover have "sy_woken s \<noteq> 0 \<longrightarrow> fst (pop_take (sy_queue s)) \<noteq> None"
    using inv by (auto simp: pop_inv_def pop_take_def split: list.splits)
  ultimately show ?thesis
    using push_not_blocked [OF inv assms(2)] by (simp add: pop_inv_def queue_ok_def)
qed

definition demo_qops :: "qop list" where
  "demo_qops = [QPush 2 (demo_item ''a'' 1), QPush 3 (demo_item ''b'' 2), QReceive]"

lemma demo_qops_ok: "list_all qop_ok demo_qops"
  by (simp add: demo_qops_def qop_ok_def item_ok_def demo_item_def)

lemma demo_q_run:
  "fold q_step demo_qops (pop_init 1) = \<lparr> sy_queue = \<lparr> qu_items = [demo_item ''b'' 2], qu_cap = 1,
     qu_closed = False, qu_tokens = 0 \<rparr>, sy_woken = 1 \<rparr>"
  by (simp add: demo_qops_def q_step_def q_Push_def pop_receive_step_def pop_receive_def pop_init_def New_Queue_def
      demo_item_def time_is_zero_def sort_search_unfold(1) betterThan_def Let_def f_eq_def f_lt_def)

theorem queue_never_blocks_witness:
  "sy_woken (fold q_step demo_qops (pop_init 1)) = 1 \<and>
   fst (q_Push 4 (demo_item ''c'' 3) (sy_queue (fold q_step demo_qops (pop_init 1)))) \<noteq> PushBlocked \<and>
   fst (pop_take (sy_queue (fold q_step demo_qops (pop_init 1)))) \<noteq> None"
  using queue_never_blocks [OF demo_qops_ok _ refl, of "demo_item ''c'' 3" 1 4] demo_q_run
  by (simp add: item_ok_def demo_item_def)

text \<open>
  C23: (scheduler.go \<^verbatim>\<open>Push\<close>/\<^verbatim>\<open>Pop\<close>) no accepted work is lost or duplicated. Over any interleaving, the
  items \<^verbatim>\<open>Push\<close> accepted are, as a multiset, exactly those still queued plus those popped plus
  those returned to a pusher as evicted.\<close>

theorem queue_conserves_work:
  assumes "list_all qop_ok ops"
  shows "mset (qu_items (sy_queue (fold q_step ops (pop_init capacity)))) + workq.total q_out ops (pop_init capacity)
    = workq.total q_in ops (pop_init capacity)"
  using workq.run_conserves [OF pop_init_inv assms, of capacity]
  by (simp add: pop_init_def New_Queue_def)

theorem queue_conserves_work_witness:
  "mset (qu_items (sy_queue (fold q_step demo_qops (pop_init 1)))) + workq.total q_out demo_qops (pop_init 1)
    = workq.total q_in demo_qops (pop_init 1)"
  by (rule queue_conserves_work [OF demo_qops_ok])

text \<open>
  (scheduler.go \<^verbatim>\<open>Push\<close>/\<^verbatim>\<open>Pop\<close>) a push is refused for overflow only when the queue is full and no
  queued item is worse than the offered one; a push that is accepted keeps the queue ordered and
  within its capacity, evicts only from a full queue and only an item no better than
  any that stays; and the item taken by a popper is one of the best queued.\<close>

theorem queue_priority:
  assumes "list_all qop_ok ops" and "item_ok item" and "q = sy_queue (fold q_step ops (pop_init capacity))"
    and "q_Push now item q = (r, q')"
  shows "(r = PushErr ErrQueueOverflow \<longrightarrow> q' = q \<and> int (length (qu_items q)) = qu_cap q \<and>
            (\<forall>x\<in>set (qu_items q). \<not> betterThan item x)) \<and>
    (\<forall>ev. r = Pushed ev \<longrightarrow> items_sorted (qu_items q') \<and> int (length (qu_items q')) \<le> qu_cap q' \<and>
            mset (qu_items q') + mset (opt_list ev) = mset (qu_items q) + {#item#}) \<and>
    (\<forall>w. r = Pushed (Some w) \<longrightarrow> int (length (qu_items q)) = qu_cap q \<and>
            (\<forall>x\<in>set (qu_items q'). \<not> betterThan w x)) \<and>
    (\<forall>b. fst (pop_take q) = Some b \<longrightarrow> (\<forall>x\<in>set (qu_items q). \<not> betterThan x b))"
  (is "?A \<and> ?B \<and> ?C \<and> ?D")
proof -
  have inv: "pop_inv (fold q_step ops (pop_init capacity))" by (rule pop_reach_inv [OF assms(1)])
  then have ok: "queue_ok q" "qu_tokens q \<le> length (qu_items q)" by (simp_all add: assms(3) pop_inv_def)
  have A: ?A
    using push_overflow [OF ok(1) assms(2) ok(2)] assms(4) by blast
  have BC: "items_sorted (qu_items q') \<and> int (length (qu_items q')) \<le> qu_cap q' \<and>
      mset (qu_items q') + mset (opt_list ev) = mset (qu_items q) + {#item#} \<and>
      (\<forall>w. ev = Some w \<longrightarrow> int (length (qu_items q)) = qu_cap q \<and> (\<forall>x\<in>set (qu_items q'). \<not> betterThan w x))"
    if r: "r = Pushed ev" for ev
  proof -
    have noerr: "\<And>e. r \<noteq> PushErr e" using r by simp
    obtain ev' where ev': "r = Pushed ev'" "queue_ok q'"
      "mset (qu_items q') + mset (opt_list ev') = mset (qu_items q) + {#item#}"
      "\<And>w x. ev' = Some w \<Longrightarrow> x \<in> set (qu_items q') \<Longrightarrow> \<not> betterThan w x"
      using q_Push_spec [OF ok(1) assms(2) ok(2) assms(4) noerr] by metis
    moreover have "int (length (qu_items q)) = qu_cap q" if "ev' = Some w" for w
      using push_evicts_full [OF ok(1)] assms(4) that ev'(1) by metis
    ultimately show ?thesis using r by (auto simp: queue_ok_def)
  qed
  have D: ?D
    using ok(1) item_order.lt_irrefl by (auto simp: pop_take_def queue_ok_def split: list.splits)
  show ?thesis using A BC D by blast
qed

theorem queue_priority_witness:
  "\<exists>q'. q_Push 4 (demo_item ''c'' 3) (sy_queue (fold q_step demo_qops (pop_init 1))) =
       (Pushed (Some (demo_item ''b'' 2)), q') \<and>
     items_sorted (qu_items q') \<and> mset (qu_items q') + {#demo_item ''b'' 2#} =
       mset (qu_items (sy_queue (fold q_step demo_qops (pop_init 1)))) + {#demo_item ''c'' 3#}"
proof -
  let ?q = "sy_queue (fold q_step demo_qops (pop_init 1))"
  obtain q' where q': "q_Push 4 (demo_item ''c'' 3) ?q = (Pushed (Some (demo_item ''b'' 2)), q')"
    by (simp add: demo_q_run q_Push_def demo_item_def time_is_zero_def betterThan_def Let_def f_eq_def f_lt_def)
  have "item_ok (demo_item ''c'' 3)" by (simp add: item_ok_def demo_item_def)
  from queue_priority [OF demo_qops_ok this refl q'] q' show ?thesis by auto
qed

text \<open>
  \<^verbatim>\<open>OldestAge\<close> reads the enqueue time of the last item, which is the lowest-priority one: with a
  high-priority item enqueued earlier it reports less than the age of the oldest item.
\<close>

lemma oldest_age_is_not_oldest:
  "q_OldestAge 10 \<lparr> qu_items = [demo_item ''old'' 2, (demo_item ''new'' 1)\<lparr> it_EnqueuedAt := 9 \<rparr>], qu_cap = 2,
     qu_closed = False, qu_tokens = 2 \<rparr> = 1 \<and>
   time_sub 10 (it_EnqueuedAt (demo_item ''old'' 2)) = 9"
  by (simp add: q_OldestAge_def demo_item_def time_is_zero_def time_sub_def min_int64_def max_int64_def)

end
