(* ===== verification/Relay_Graph.thy ===== *)
theory Relay_Graph
  imports Relay_Model
begin

text \<open>
  Routing, authority and reachability of \<^verbatim>\<open>mev/relay/v3/internal/graph/graph.go\<close>. SHA-256 is a
  parameter that returns the bytes of the digest.

  \<open>Route\<close> is rendezvous hashing: the specification \<open>best_shard\<close> names the one shard of highest
  score, ties to the smaller name, and the lemmas show that the loop finds it, so that
  adding or removing another shard never moves a key. \<open>Reachable\<close> is shown to be
  reachability in the graph.
\<close>

section \<open>Routing\<close>

record Routing =
  ro_shards :: "string list"

fun new_routing_loop :: "string list \<Rightarrow> string list \<Rightarrow> string list \<Rightarrow> string list" where
  "new_routing_loop seen out [] = out"
| "new_routing_loop seen out (shard # shards) =
     (if shard = [] then new_routing_loop seen out shards
      else if shard \<in> set seen then new_routing_loop seen out shards
      else new_routing_loop (shard # seen) (out @ [shard]) shards)"

definition NewRouting :: "string list \<Rightarrow> Routing" where
  "NewRouting shards = \<lparr> ro_shards = sort (new_routing_loop [] [] shards) \<rparr>"

text \<open>\<^verbatim>\<open>binary.BigEndian.Uint64\<close> of the first eight bytes.\<close>

definition be_uint64 :: "string \<Rightarrow> u64" where
  "be_uint64 bs = foldl (\<lambda>acc c. acc * 256 + of_nat (of_char c)) 0 (take 8 bs)"

definition shard_score :: "(string \<Rightarrow> string) \<Rightarrow> string \<Rightarrow> string \<Rightarrow> u64" where
  "shard_score sha256 key shard = be_uint64 (sha256 (key @ '':'' @ shard))"

fun route_loop :: "(string \<Rightarrow> u64) \<Rightarrow> string \<Rightarrow> u64 \<Rightarrow> string list \<Rightarrow> string" where
  "route_loop score bestShard bestScore [] = bestShard"
| "route_loop score bestShard bestScore (shard # shards) =
     (if bestShard = [] \<or> score shard > bestScore
      then route_loop score shard (score shard) shards
      else route_loop score bestShard bestScore shards)"

definition Route :: "(string \<Rightarrow> string) \<Rightarrow> Routing \<Rightarrow> string \<Rightarrow> string" where
  "Route sha256 r key =
     (if ro_shards r = [] then [] else route_loop (shard_score sha256 key) [] 0 (ro_shards r))"

section \<open>Authority\<close>

record Authority =
  au_ShardID :: string
  au_LeaseID :: string
  au_Epoch :: u64
  au_FenceToken :: u64
  au_IssuedAt :: gtime
  au_ExpiresAt :: gtime

text \<open>Every operation reads the clock itself when it is handed the zero time.\<close>

definition now_or :: "gtime \<Rightarrow> gtime \<Rightarrow> gtime" where
  "now_or clock now = (if time_is_zero now then clock else now)"

definition NewAuthority ::
  "gtime \<Rightarrow> string \<Rightarrow> string \<Rightarrow> u64 \<Rightarrow> duration \<Rightarrow> gtime \<Rightarrow> Authority" where
  "NewAuthority clock shardID leaseID epoch ttl now =
     (let now = now_or clock now in
      \<lparr> au_ShardID = shardID, au_LeaseID = leaseID, au_Epoch = epoch, au_FenceToken = epoch,
        au_IssuedAt = now, au_ExpiresAt = now + ttl \<rparr>)"

definition Valid :: "gtime \<Rightarrow> Authority \<Rightarrow> gtime \<Rightarrow> bool" where
  "Valid clock a now =
     (if au_ShardID a = [] \<or> au_LeaseID a = [] then False else now_or clock now < au_ExpiresAt a)"

definition Renew :: "gtime \<Rightarrow> Authority \<Rightarrow> duration \<Rightarrow> gtime \<Rightarrow> Authority" where
  "Renew clock a ttl now =
     (let now = now_or clock now in a\<lparr> au_IssuedAt := now, au_ExpiresAt := now + ttl \<rparr>)"

definition NextEpoch :: "gtime \<Rightarrow> Authority \<Rightarrow> gtime \<Rightarrow> duration \<Rightarrow> Authority" where
  "NextEpoch clock a now ttl =
     (let now = now_or clock now in
      a\<lparr> au_Epoch := au_Epoch a + 1, au_FenceToken := au_Epoch a + 1,
         au_IssuedAt := now, au_ExpiresAt := now + ttl \<rparr>)"

definition AuthorityKey :: "string \<Rightarrow> u64 \<Rightarrow> u64 \<Rightarrow> string" where
  "AuthorityKey shardID epoch fence =
     shardID @ '':'' @ show_nat 10 (unat epoch) @ '':'' @ show_nat 10 (unat fence)"

section \<open>Reachability\<close>

type_synonym Digraph = "(string, string list) gomap"

text \<open>The scan of one node's successors: \<open>None\<close> when the target is met.\<close>

fun reach_scan :: "string \<Rightarrow> string list \<Rightarrow> string list \<Rightarrow> string list \<Rightarrow> (string list \<times> string list) option" where
  "reach_scan target seen queue [] = Some (seen, queue)"
| "reach_scan target seen queue (nxt # rest) =
     (if nxt = target then None
      else if nxt \<in> set seen then reach_scan target seen queue rest
      else reach_scan target (nxt # seen) (queue @ [nxt]) rest)"

definition graph_targets :: "Digraph \<Rightarrow> string set" where
  "graph_targets g = (\<Union>(u, vs) \<in> set g. set vs)"

lemma finite_graph_targets [simp]: "finite (graph_targets g)"
  by (auto simp: graph_targets_def)

lemma succ_targets: "set (gm_get0 [] g u) \<subseteq> graph_targets g"
proof (cases "gm_get g u")
  case (Some vs)
  then show ?thesis using gm_get_mem [OF Some] by (auto simp: gm_get0_def graph_targets_def)
qed (simp add: gm_get0_def)

text \<open>What a scan adds: nodes that were new, each once, to both lists.\<close>

lemma reach_scan_Some:
  assumes "reach_scan target seen queue ns = Some (seen', queue')"
  shows "target \<notin> set ns \<and> set seen' = set seen \<union> set ns \<and>
    (\<exists>new. queue' = queue @ new \<and> distinct new \<and> set new \<inter> set seen = {} \<and> set new \<subseteq> set ns \<and>
       set seen' = set seen \<union> set new)"
  using assms
proof (induction target seen queue ns rule: reach_scan.induct)
  case (2 target seen queue nxt rest)
  show ?case
  proof (cases "nxt = target \<or> nxt \<in> set seen")
    case True
    then show ?thesis using 2 by (auto split: if_splits)
  next
    case False
    then obtain new where "target \<notin> set rest" "set seen' = set (nxt # seen) \<union> set rest"
      "queue' = (queue @ [nxt]) @ new" "distinct new" "set new \<inter> set (nxt # seen) = {}"
      "set new \<subseteq> set rest" "set seen' = set (nxt # seen) \<union> set new"
      using 2 by auto
    then show ?thesis using False by (auto intro!: exI [of _ "nxt # new"])
  qed
qed auto

definition reach_work :: "Digraph \<Rightarrow> string list \<Rightarrow> string list \<Rightarrow> nat" where
  "reach_work g seen queue = 2 * card (graph_targets g - set seen) + length queue"

lemma reach_scan_work:
  assumes "reach_scan target seen q (gm_get0 [] g cur) = Some (seen', q')"
  shows "reach_work g seen' q' < reach_work g seen (cur # q)"
proof -
  obtain new where new: "q' = q @ new" "distinct new" "set new \<inter> set seen = {}"
      "set new \<subseteq> set (gm_get0 [] g cur)" "set seen' = set seen \<union> set new"
    using reach_scan_Some [OF assms] by auto
  have "set new \<subseteq> graph_targets g - set seen" using new succ_targets [of g cur] by blast
  then have "card (graph_targets g - set seen) = card (graph_targets g - set seen - set new) + length new"
    using new(2) card_Diff_subset [of "set new" "graph_targets g - set seen"]
      card_mono [of "graph_targets g - set seen" "set new"] by (simp add: distinct_card)
  moreover have "graph_targets g - set seen' = graph_targets g - set seen - set new" using new(5) by blast
  ultimately show ?thesis using new(1) by (simp add: reach_work_def)
qed

function reach_loop :: "Digraph \<Rightarrow> string \<Rightarrow> string list \<Rightarrow> string list \<Rightarrow> bool" where
  "reach_loop g target seen [] = False"
| "reach_loop g target seen (cur # queue) =
     (case reach_scan target seen queue (gm_get0 [] g cur) of
        None \<Rightarrow> True
      | Some (seen', queue') \<Rightarrow> reach_loop g target seen' queue')"
  by pat_completeness auto
termination
  by (relation "measure (\<lambda>(g, target, seen, queue). reach_work g seen queue)") (auto simp: reach_scan_work)

definition Reachable :: "Digraph \<Rightarrow> string \<Rightarrow> string \<Rightarrow> bool" where
  "Reachable g start target = (if start = target then True else reach_loop g target [start] [start])"

section \<open>Routing is rendezvous hashing\<close>

definition best_shard :: "(string \<Rightarrow> u64) \<Rightarrow> string set \<Rightarrow> string \<Rightarrow> bool" where
  "best_shard score shards s \<longleftrightarrow>
     s \<in> shards \<and> (\<forall>t \<in> shards. score t < score s \<or> score t = score s \<and> s \<le> t)"

lemma best_shard_unique: "best_shard score shards s \<Longrightarrow> best_shard score shards t \<Longrightarrow> s = t"
  by (force simp: best_shard_def)

lemma new_routing_loop_set:
  "distinct out \<Longrightarrow> set out \<subseteq> set seen \<Longrightarrow> [] \<notin> set out \<Longrightarrow>
     distinct (new_routing_loop seen out shards) \<and> [] \<notin> set (new_routing_loop seen out shards) \<and>
     set (new_routing_loop seen out shards) = set out \<union> (set shards - set seen - {[]})"
proof (induction seen out shards rule: new_routing_loop.induct)
  case (2 seen out shard shards)
  show ?case
  proof (cases "shard = [] \<or> shard \<in> set seen")
    case True
    then show ?thesis using 2 by auto
  next
    case False
    then have "shard \<notin> set out" using "2.prems" by blast
    then have "distinct (out @ [shard])" "set (out @ [shard]) \<subseteq> set (shard # seen)" "[] \<notin> set (out @ [shard])"
      using "2.prems" False by auto
    then show ?thesis using "2.IH"(3) False by auto
  qed
qed simp

lemma NewRouting_shards:
  "sorted (ro_shards (NewRouting shards)) \<and> distinct (ro_shards (NewRouting shards)) \<and>
   set (ro_shards (NewRouting shards)) = set shards - {[]}"
  using new_routing_loop_set [of "[]" "[]" shards] by (simp add: NewRouting_def)

lemma route_loop_best:
  assumes "sorted shards" and "[] \<notin> set shards"
    and "b \<noteq> []" and "\<And>t. t \<in> set shards \<Longrightarrow> b \<le> t"
  shows "best_shard score (insert b (set shards)) (route_loop score b (score b) shards)"
  using assms
proof (induction shards arbitrary: b)
  case Nil
  then show ?case by (simp add: best_shard_def)
next
  case (Cons x xs)
  show ?case
  proof (cases "score x > score b")
    case True
    have "best_shard score (insert x (set xs)) (route_loop score x (score x) xs)"
      using Cons by auto
    then show ?thesis
      using True by (fastforce simp: best_shard_def)
  next
    case False
    have le: "b \<le> x" using Cons.prems(4) by simp
    have "best_shard score (insert b (set xs)) (route_loop score b (score b) xs)"
      using Cons by auto
    then show ?thesis
      using False le Cons.prems(3) unfolding best_shard_def
      by (auto simp: not_less order.order_iff_strict intro: order_trans)
  qed
qed

lemma Route_best:
  assumes "\<exists>s \<in> set shards. s \<noteq> []"
  shows "best_shard (shard_score sha key) (set shards - {[]}) (Route sha (NewRouting shards) key)"
proof -
  have R: "sorted (ro_shards (NewRouting shards))" "set (ro_shards (NewRouting shards)) = set shards - {[]}"
    using NewRouting_shards by blast+
  then obtain x xs where xs: "ro_shards (NewRouting shards) = x # xs"
    using assms by (cases "ro_shards (NewRouting shards)") auto
  then have x: "x \<noteq> []" "[] \<notin> set xs" "insert x (set xs) = set shards - {[]}" "sorted xs"
    using R by auto
  have "Route sha (NewRouting shards) key = route_loop (shard_score sha key) x (shard_score sha key x) xs"
    using xs by (simp add: Route_def)
  then show ?thesis
    using route_loop_best [OF x(4,2,1), of "shard_score sha key"] R(1) xs x(3) by simp
qed

section \<open>Reachable is reachability\<close>

definition edges :: "Digraph \<Rightarrow> (string \<times> string) set" where
  "edges g = {(u, v). v \<in> set (gm_get0 [] g u)}"

lemma reach_scan_None: "reach_scan target seen queue ns = None \<longleftrightarrow> target \<in> set ns"
  by (induction target seen queue ns rule: reach_scan.induct) auto

lemma closed_rtrancl:
  assumes "(u, v) \<in> (edges g)\<^sup>*" and "u \<in> S" and "\<And>x y. x \<in> S \<Longrightarrow> (x, y) \<in> edges g \<Longrightarrow> y \<in> S"
  shows "v \<in> S"
  using assms(1,2) by (induction rule: rtrancl_induct) (auto intro: assms(3))

lemma reach_loop_correct:
  assumes "start \<in> set seen" and "target \<notin> set seen" and "set queue \<subseteq> set seen"
    and "\<And>x. x \<in> set seen \<Longrightarrow> (start, x) \<in> (edges g)\<^sup>*"
    and "\<And>x y. x \<in> set seen \<Longrightarrow> x \<notin> set queue \<Longrightarrow> (x, y) \<in> edges g \<Longrightarrow> y \<in> set seen"
  shows "reach_loop g target seen queue \<longleftrightarrow> (start, target) \<in> (edges g)\<^sup>*"
  using assms
proof (induction g target seen queue rule: reach_loop.induct)
  case (1 g target seen)
  have "(start, target) \<notin> (edges g)\<^sup>*"
    using closed_rtrancl [of start target g "set seen"] 1 by auto
  then show ?case by simp
next
  case (2 g target seen cur queue)
  have cur: "(start, cur) \<in> (edges g)\<^sup>*" using "2.prems"(3,4) by simp
  show ?case
  proof (cases "reach_scan target seen queue (gm_get0 [] g cur)")
    case None
    then have "(cur, target) \<in> edges g" by (simp add: reach_scan_None edges_def)
    then show ?thesis using None cur by simp
  next
    case (Some r)
    obtain seen' queue' where r: "r = (seen', queue')" by (cases r)
    note scan = reach_scan_Some [OF Some [unfolded r]]
    have seen': "set seen' = set seen \<union> set (gm_get0 [] g cur)" "target \<notin> set seen'"
      using scan "2.prems"(2) by auto
    have q: "set queue' = set queue \<union> (set seen' - set seen)" "set queue' \<subseteq> set seen'"
      using scan "2.prems"(3) by auto
    have reach: "(start, x) \<in> (edges g)\<^sup>*" if "x \<in> set seen'" for x
    proof (cases "x \<in> set seen")
      case False
      then have "(cur, x) \<in> edges g" using that seen'(1) by (simp add: edges_def)
      then show ?thesis using cur by simp
    qed (use "2.prems"(4) in blast)
    have closed: "y \<in> set seen'"
      if "x \<in> set seen'" "x \<notin> set queue'" "(x, y) \<in> edges g" for x y
    proof (cases "x = cur")
      case True
      then show ?thesis using that(3) seen'(1) by (simp add: edges_def)
    next
      case False
      have "x \<in> set seen" "x \<notin> set (cur # queue)" using that(1,2) q(1) False by auto
      then show ?thesis using "2.prems"(5) that(3) seen'(1) by blast
    qed
    have "reach_loop g target seen' queue' \<longleftrightarrow> (start, target) \<in> (edges g)\<^sup>*"
      using "2.IH" [OF Some r [symmetric]] "2.prems"(1) seen' q(2) reach closed by blast
    then show ?thesis using Some r by simp
  qed
qed


section \<open>Properties\<close>

text \<open>
  A key is routed to the shard of highest score, the smaller name on a tie, among the
  distinct non-empty names configured, in whatever order and multiplicity they were given.
\<close>

theorem route_is_rendezvous:
  assumes "\<exists>s \<in> set shards. s \<noteq> []"
  shows "best_shard (shard_score sha256 key) (set shards - {[]}) (Route sha256 (NewRouting shards) key)"
  using assms by (rule Route_best)

theorem route_is_rendezvous_witness:
  "best_shard (shard_score (\<lambda>s. rev s) ''k'') (set [''b'', [], ''a'', ''b''] - {[]})
     (Route (\<lambda>s. rev s) (NewRouting [''b'', [], ''a'', ''b'']) ''k'')"
  by (rule route_is_rendezvous) simp

text \<open>
  Taking a shard out of the set moves only the keys that were routed to it: every other
  key keeps its shard.
\<close>

theorem route_minimal_disruption:
  assumes "Route sha256 (NewRouting shards) key \<noteq> x"
    and "Route sha256 (NewRouting shards) key \<noteq> []"
  shows "Route sha256 (NewRouting (removeAll x shards)) key = Route sha256 (NewRouting shards) key"
proof -
  let ?r = "Route sha256 (NewRouting shards) key" and ?score = "shard_score sha256 key"
  have "set shards - {[]} \<noteq> {}"
    using assms(2) NewRouting_shards [of shards] by (cases "ro_shards (NewRouting shards)") (auto simp: Route_def)
  then have best: "best_shard ?score (set shards - {[]}) ?r" by (intro Route_best) auto
  then have "best_shard ?score (set (removeAll x shards) - {[]}) ?r"
    using assms(1) by (auto simp: best_shard_def)
  moreover from this have "\<exists>s \<in> set (removeAll x shards). s \<noteq> []" by (auto simp: best_shard_def)
  ultimately show ?thesis using Route_best best_shard_unique by blast
qed

theorem route_minimal_disruption_witness:
  "Route (\<lambda>s. rev s) (NewRouting (removeAll ''a'' [''a'', ''b''])) ''k'' =
   Route (\<lambda>s. rev s) (NewRouting [''a'', ''b'']) ''k''"
proof (rule route_minimal_disruption)
  have r: "Route (\<lambda>s. rev s) (NewRouting [''a'', ''b'']) ''k'' = ''b''"
    by (simp add: Route_def NewRouting_def shard_score_def be_uint64_def)
  show "Route (\<lambda>s. rev s) (NewRouting [''a'', ''b'']) ''k'' \<noteq> ''a''"
    "Route (\<lambda>s. rev s) (NewRouting [''a'', ''b'']) ''k'' \<noteq> []" unfolding r by simp_all
qed

text \<open>
  the breadth-first search of \<open>Reachable\<close> terminates on every graph, cyclic ones and ones
  with undeclared nodes included, and answers exactly whether there is a path.
\<close>

theorem Reachable_iff_path: "Reachable g start target \<longleftrightarrow> (start, target) \<in> (edges g)\<^sup>*"
proof (cases "start = target")
  case False
  then show ?thesis
    using reach_loop_correct [of start "[start]" target "[start]" g] by (simp add: Reachable_def)
qed (simp add: Reachable_def)

end
