(* ===== verification/Relay_Store.thy ===== *)
theory Relay_Store
  imports Relay_Graph
begin

text \<open>
  The state store of relay v3: the errors of \<^verbatim>\<open>internal/state/state.go\<close> and the in-memory
  implementation \<^verbatim>\<open>internal/state/memory/memory.go\<close>. Every method holds the store's lock, so each
  is one atomic function. \<open>clk\<close> gives the clock readings of a call, \<open>ord\<close> the order in which a map
  is ranged over. Methods that return \<^verbatim>\<open>(value, error)\<close> return \<open>Inl\<close> the error.
\<close>

section \<open>State\<close>

datatype store_error =
  ErrStateClosed | ErrDuplicateBundle | ErrBundleNotFound | ErrStateMismatch | ErrClientInflight
  | ErrStateCapacity | ErrStaleAuthority | ErrIllegalTransition string

record MemStore =
  ms_records :: "(string, BundleRecord) gomap"
  ms_hashIndex :: "(string, string) gomap"
  ms_events :: "(string, EventRecord list) gomap"
  ms_checkpoints :: "(string, CheckpointRecord) gomap"
  ms_inflight :: "(string, int) gomap"
  ms_retries :: "(string, gtime) gomap"
  ms_authority :: "(string, Authority) gomap"
  ms_limit :: int
  ms_closed :: bool

definition New_MemStore :: MemStore where
  "New_MemStore = \<lparr> ms_records = [], ms_hashIndex = [], ms_events = [], ms_checkpoints = [],
     ms_inflight = [], ms_retries = [], ms_authority = [], ms_limit = 256, ms_closed = False \<rparr>"

definition zero_request :: BundleRequest where
  "zero_request = \<lparr> bq_Txs = [], bq_BlockNumber = [], bq_MinTimestamp = 0, bq_MaxTimestamp = 0,
     bq_Replacement = None \<rparr>"

text \<open>
  The zero record that accompanies an error. Its \<^verbatim>\<open>State\<close>, the empty string in Go, is never read; it
  is represented by \<open>StateReceived\<close>.
\<close>

definition zero_bundle :: BundleRecord where
  "zero_bundle = \<lparr> bd_ID = [], bd_BundleHash = [], bd_Request = zero_request, bd_ClientID = [],
     bd_RegionID = [], bd_ShardID = [], bd_LeaseID = [], bd_LeaseEpoch = 0, bd_FenceToken = 0,
     bd_State = StateReceived, bd_RetryCount = 0, bd_Score = FZero False, bd_ProfitEth = FZero False,
     bd_Reason = [], bd_Terminal = [], bd_Version = 0, bd_Sequence = 0, bd_CreatedAt = 0,
     bd_UpdatedAt = 0, bd_QueuedAt = 0, bd_CompletedAt = 0, bd_DeadlineAt = 0,
     bd_ExpectedValue = FZero False, bd_ExpectedCost = FZero False, bd_ExpectedServiceMS = 0,
     bd_Priority = FZero False \<rparr>"

section \<open>Authority and pruning\<close>

definition validateAuthorityLocked :: "gtime \<Rightarrow> MemStore \<Rightarrow> BundleRecord \<Rightarrow> store_error option" where
  "validateAuthorityLocked now s rec =
     (if bd_ShardID rec = [] then None
      else case gm_get (ms_authority s) (bd_ShardID rec) of
             None \<Rightarrow> Some ErrStaleAuthority
           | Some auth \<Rightarrow>
             if \<not> Valid now auth now then Some ErrStaleAuthority
             else if bd_LeaseID rec \<noteq> [] \<and> bd_LeaseID rec \<noteq> au_LeaseID auth then Some ErrStaleAuthority
             else if bd_LeaseEpoch rec \<noteq> 0 \<and> bd_LeaseEpoch rec \<noteq> au_Epoch auth then Some ErrStaleAuthority
             else if bd_FenceToken rec \<noteq> 0 \<and> bd_FenceToken rec \<noteq> au_FenceToken auth then Some ErrStaleAuthority
             else None)"

text \<open>The scan for the oldest entry, shared by the three prunes.\<close>

fun oldest_loop :: "string \<Rightarrow> gtime \<Rightarrow> (string \<times> gtime) list \<Rightarrow> string" where
  "oldest_loop oldestID oldestTime [] = oldestID"
| "oldest_loop oldestID oldestTime ((bid, t) # rest) =
     (if oldestID = [] \<or> t < oldestTime then oldest_loop bid t rest
      else oldest_loop oldestID oldestTime rest)"

definition ms_pruneLocked ::
  "((string \<times> BundleRecord) list \<Rightarrow> (string \<times> BundleRecord) list) \<Rightarrow> MemStore \<Rightarrow> MemStore" where
  "ms_pruneLocked ord s =
     (if int (gm_len (ms_records s)) \<le> ms_limit s then s
      else let oldestID = oldest_loop [] 0 (map (\<lambda>(bid, rec). (bid, bd_CreatedAt rec)) (ord (ms_records s)))
           in if oldestID = [] then s
              else s\<lparr> ms_hashIndex := gm_del (ms_hashIndex s)
                        (bd_BundleHash (gm_get0 zero_bundle (ms_records s) oldestID)),
                     ms_records := gm_del (ms_records s) oldestID,
                     ms_events := gm_del (ms_events s) oldestID \<rparr>)"

definition pruneRetriesLocked ::
  "((string \<times> gtime) list \<Rightarrow> (string \<times> gtime) list) \<Rightarrow> MemStore \<Rightarrow> MemStore" where
  "pruneRetriesLocked ord s =
     (if int (gm_len (ms_retries s)) \<le> ms_limit s then s
      else s\<lparr> ms_retries := gm_del (ms_retries s) (oldest_loop [] 0 (ord (ms_retries s))) \<rparr>)"

definition pruneCheckpointsLocked ::
  "((string \<times> CheckpointRecord) list \<Rightarrow> (string \<times> CheckpointRecord) list) \<Rightarrow> MemStore \<Rightarrow> MemStore" where
  "pruneCheckpointsLocked ord s =
     (if int (gm_len (ms_checkpoints s)) \<le> ms_limit s then s
      else s\<lparr> ms_checkpoints := gm_del (ms_checkpoints s)
               (oldest_loop [] 0 (map (\<lambda>(bid, cp). (bid, cp_Time cp)) (ord (ms_checkpoints s)))) \<rparr>)"

section \<open>Bundles\<close>

definition CreateBundle ::
  "((string \<times> BundleRecord) list \<Rightarrow> (string \<times> BundleRecord) list) \<Rightarrow> gtime \<Rightarrow> BundleRecord \<Rightarrow> MemStore \<Rightarrow>
     ((store_error \<times> BundleRecord) + BundleRecord) \<times> MemStore" where
  "CreateBundle ord now rec s =
     (if ms_closed s then (Inl (ErrStateClosed, zero_bundle), s)
      else case gm_get (ms_hashIndex s) (bd_BundleHash rec) of
             Some existing \<Rightarrow> (Inl (ErrDuplicateBundle, gm_get0 zero_bundle (ms_records s) existing), s)
           | None \<Rightarrow>
             (case validateAuthorityLocked now s rec of
                Some err \<Rightarrow> (Inl (err, zero_bundle), s)
              | None \<Rightarrow>
                (Inr rec, ms_pruneLocked ord
                   (s\<lparr> ms_records := gm_set (ms_records s) (bd_ID rec) rec,
                      ms_hashIndex := gm_set (ms_hashIndex s) (bd_BundleHash rec) (bd_ID rec) \<rparr>))))"

definition GetBundle :: "string \<Rightarrow> MemStore \<Rightarrow> BundleRecord option" where
  "GetBundle bid s = gm_get (ms_records s) bid"

definition last_n :: "nat \<Rightarrow> 'a list \<Rightarrow> 'a list" where
  "last_n n xs = drop (length xs - n) xs"

definition list_limit :: "MemStore \<Rightarrow> int \<Rightarrow> nat" where
  "list_limit s limit = nat (if limit \<le> 0 \<or> limit > ms_limit s then ms_limit s else limit)"

definition ListBundles ::
  "((string \<times> BundleRecord) list \<Rightarrow> (string \<times> BundleRecord) list) \<Rightarrow> int \<Rightarrow> MemStore \<Rightarrow> BundleRecord list" where
  "ListBundles ord limit s =
     last_n (list_limit s limit)
       (sort_by (\<lambda>a b. bd_CreatedAt a < bd_CreatedAt b) (map snd (ord (ms_records s))))"

definition transition_record :: "gtime \<Rightarrow> BundleState \<Rightarrow> string \<Rightarrow> BundleRecord \<Rightarrow> BundleRecord" where
  "transition_record now to reason rec =
     (let rec1 = rec\<lparr> bd_State := to, bd_Reason := reason, bd_Version := bd_Version rec + 1,
                     bd_Sequence := bd_Sequence rec + 1, bd_UpdatedAt := now \<rparr>;
          rec2 = (if to = StateQueued then rec1\<lparr> bd_QueuedAt := bd_UpdatedAt rec1 \<rparr>
                  else if to = StateCompleted then rec1\<lparr> bd_CompletedAt := bd_UpdatedAt rec1 \<rparr>
                  else rec1)
      in if to \<in> {StateForwarded, StateRejected, StateDeadLetter}
         then rec2\<lparr> bd_Terminal := state_string to \<rparr> else rec2)"

text \<open>The guard shared by the methods that change an existing record.\<close>

definition guarded_record :: "gtime \<Rightarrow> string \<Rightarrow> MemStore \<Rightarrow> store_error + BundleRecord" where
  "guarded_record now bid s =
     (case gm_get (ms_records s) bid of
        None \<Rightarrow> Inl ErrBundleNotFound
      | Some rec \<Rightarrow> (case validateAuthorityLocked now s rec of
                       Some err \<Rightarrow> Inl err | None \<Rightarrow> Inr rec))"

definition put_record :: "string \<Rightarrow> BundleRecord \<Rightarrow> MemStore \<Rightarrow> MemStore" where
  "put_record bid rec s = s\<lparr> ms_records := gm_set (ms_records s) bid rec \<rparr>"

definition TransitionBundle ::
  "(nat \<Rightarrow> gtime) \<Rightarrow> string \<Rightarrow> BundleState \<Rightarrow> BundleState \<Rightarrow> string \<Rightarrow> MemStore \<Rightarrow>
     (store_error + BundleRecord) \<times> MemStore" where
  "TransitionBundle clk bid from to reason s =
     (case ValidateTransition from to of
        Some err \<Rightarrow> (Inl (ErrIllegalTransition err), s)
      | None \<Rightarrow>
        (case gm_get (ms_records s) bid of
           None \<Rightarrow> (Inl ErrBundleNotFound, s)
         | Some rec \<Rightarrow>
           if bd_State rec \<noteq> from then (Inl ErrStateMismatch, s)
           else case validateAuthorityLocked (clk 0) s rec of
                  Some err \<Rightarrow> (Inl err, s)
                | None \<Rightarrow> let rec' = transition_record (clk 1) to reason rec
                          in (Inr rec', put_record bid rec' s)))"

definition UpdateRetryCount ::
  "(nat \<Rightarrow> gtime) \<Rightarrow> string \<Rightarrow> int \<Rightarrow> MemStore \<Rightarrow> (store_error + BundleRecord) \<times> MemStore" where
  "UpdateRetryCount clk bid retryCount s =
     (case guarded_record (clk 0) bid s of
        Inl err \<Rightarrow> (Inl err, s)
      | Inr rec \<Rightarrow> let rec' = rec\<lparr> bd_RetryCount := retryCount, bd_Version := bd_Version rec + 1,
                                   bd_UpdatedAt := clk 1 \<rparr>
                   in (Inr rec', put_record bid rec' s))"

definition UpdateResult ::
  "(nat \<Rightarrow> gtime) \<Rightarrow> string \<Rightarrow> f64 \<Rightarrow> f64 \<Rightarrow> string \<Rightarrow> MemStore \<Rightarrow> (store_error + BundleRecord) \<times> MemStore" where
  "UpdateResult clk bid score profit reason s =
     (case guarded_record (clk 0) bid s of
        Inl err \<Rightarrow> (Inl err, s)
      | Inr rec \<Rightarrow> let rec' = rec\<lparr> bd_Score := score, bd_ProfitEth := profit, bd_Reason := reason,
                                   bd_Version := bd_Version rec + 1, bd_UpdatedAt := clk 1 \<rparr>
                   in (Inr rec', put_record bid rec' s))"

section \<open>In-flight counters\<close>

definition ReserveInflight :: "string \<Rightarrow> int \<Rightarrow> MemStore \<Rightarrow> (store_error + int) \<times> MemStore" where
  "ReserveInflight clientID limit s =
     (let cur = gm_get0 0 (ms_inflight s) clientID in
      if cur \<ge> limit then (Inl ErrClientInflight, s)
      else if cur = 0 \<and> int (gm_len (ms_inflight s)) \<ge> ms_limit s then (Inl ErrStateCapacity, s)
      else (Inr (cur + 1), s\<lparr> ms_inflight := gm_set (ms_inflight s) clientID (cur + 1) \<rparr>))"

definition ReleaseInflight :: "string \<Rightarrow> MemStore \<Rightarrow> int \<times> MemStore" where
  "ReleaseInflight clientID s =
     (let cur = gm_get0 0 (ms_inflight s) clientID in
      if cur > 0
      then (cur - 1, if cur - 1 = 0 then s\<lparr> ms_inflight := gm_del (ms_inflight s) clientID \<rparr>
                     else s\<lparr> ms_inflight := gm_set (ms_inflight s) clientID (cur - 1) \<rparr>)
      else (cur, s))"

definition GetInflight :: "string \<Rightarrow> MemStore \<Rightarrow> int" where
  "GetInflight clientID s = gm_get0 0 (ms_inflight s) clientID"

section \<open>Retries\<close>

definition ScheduleRetry ::
  "((string \<times> gtime) list \<Rightarrow> (string \<times> gtime) list) \<Rightarrow> string \<Rightarrow> gtime \<Rightarrow> MemStore \<Rightarrow>
     store_error option \<times> MemStore" where
  "ScheduleRetry ord bid due s =
     (if ms_closed s then (Some ErrStateClosed, s)
      else (None, pruneRetriesLocked ord (s\<lparr> ms_retries := gm_set (ms_retries s) bid due \<rparr>)))"

fun claim_loop ::
  "gtime \<Rightarrow> int \<Rightarrow> (string \<times> gtime) list \<Rightarrow> string list \<Rightarrow> (string, gtime) gomap \<Rightarrow>
     string list \<times> (string, gtime) gomap" where
  "claim_loop now limit [] out retries = (out, retries)"
| "claim_loop now limit ((bid, due) # rest) out retries =
     (if int (length out) \<ge> limit then (out, retries)
      else if \<not> due > now then claim_loop now limit rest (out @ [bid]) (gm_del retries bid)
      else claim_loop now limit rest out retries)"

definition ClaimDueRetries ::
  "((string \<times> gtime) list \<Rightarrow> (string \<times> gtime) list) \<Rightarrow> gtime \<Rightarrow> int \<Rightarrow> MemStore \<Rightarrow>
     (store_error + string list) \<times> MemStore" where
  "ClaimDueRetries ord now limit s =
     (if ms_closed s then (Inl ErrStateClosed, s)
      else case claim_loop now limit (ord (ms_retries s)) [] (ms_retries s) of
             (out, retries) \<Rightarrow> (Inr out, s\<lparr> ms_retries := retries \<rparr>))"

section \<open>Events, checkpoints, authority\<close>

definition AppendEvent :: "EventRecord \<Rightarrow> MemStore \<Rightarrow> MemStore" where
  "AppendEvent ev s =
     (let evs = gm_get0 [] (ms_events s) (ev_BundleID ev) @ [ev];
          evs' = (if int (length evs) > ms_limit s
                  then drop (nat (int (length evs) - ms_limit s)) evs else evs)
      in s\<lparr> ms_events := gm_set (ms_events s) (ev_BundleID ev) evs' \<rparr>)"

definition ListEvents :: "string \<Rightarrow> int \<Rightarrow> MemStore \<Rightarrow> EventRecord list" where
  "ListEvents bundleID limit s = last_n (list_limit s limit) (gm_get0 [] (ms_events s) bundleID)"

definition PutCheckpoint ::
  "((string \<times> CheckpointRecord) list \<Rightarrow> (string \<times> CheckpointRecord) list) \<Rightarrow> CheckpointRecord \<Rightarrow>
     MemStore \<Rightarrow> MemStore" where
  "PutCheckpoint ord cp s =
     pruneCheckpointsLocked ord (s\<lparr> ms_checkpoints := gm_set (ms_checkpoints s) (cp_BatchID cp) cp \<rparr>)"

definition ListCheckpoints ::
  "((string \<times> CheckpointRecord) list \<Rightarrow> (string \<times> CheckpointRecord) list) \<Rightarrow> int \<Rightarrow> MemStore \<Rightarrow>
     CheckpointRecord list" where
  "ListCheckpoints ord limit s =
     last_n (list_limit s limit)
       (sort_by (\<lambda>a b. cp_Time a < cp_Time b) (map snd (ord (ms_checkpoints s))))"

definition DeleteEvents :: "string \<Rightarrow> MemStore \<Rightarrow> MemStore" where
  "DeleteEvents bundleID s = s\<lparr> ms_events := gm_del (ms_events s) bundleID \<rparr>"

definition SetAuthority :: "Authority \<Rightarrow> MemStore \<Rightarrow> store_error option \<times> MemStore" where
  "SetAuthority auth s =
     (if au_ShardID auth = [] then (Some ErrStateMismatch, s)
      else (None, s\<lparr> ms_authority := gm_set (ms_authority s) (au_ShardID auth) auth \<rparr>))"

definition GetAuthority :: "string \<Rightarrow> MemStore \<Rightarrow> Authority option" where
  "GetAuthority shardID s = gm_get (ms_authority s) shardID"

definition ms_Health :: "MemStore \<Rightarrow> store_error option" where
  "ms_Health s = (if ms_closed s then Some ErrStateClosed else None)"

definition ms_Close :: "MemStore \<Rightarrow> MemStore" where
  "ms_Close s = s\<lparr> ms_closed := True \<rparr>"

end
