(* ===== verification/Relay_Control.thy ===== *)
theory Relay_Control
  imports Relay_Config Relay_Metrics Relay_Scheduler Relay_Store
begin

text \<open>
  The small deciders of relay v3: the errors and their HTTP status (\<^verbatim>\<open>relay/errors.go\<close>), request
  validation (\<^verbatim>\<open>validation.go\<close>), the names derived from a request (\<^verbatim>\<open>routing.go\<close>) and the recovery and
  rollout controllers, whose methods hold the controller's lock and are one function each.
  SHA-256 is a parameter that returns the bytes of the digest.
\<close>

section \<open>Errors\<close>

datatype relay_error =
    ErrInvalidJSONRPC | ErrInvalidMethod | ErrMissingParams | ErrMissingTxs | ErrMissingAuthorization
  | ErrInvalidAuthorization | ErrWrongShard | RErrQueueClosed | RErrQueueDisabled | RErrQueueOverflow
  | RErrStaleWork | ErrClientInflightLimit | RErrStateCapacity | ErrInsufficientDeadline | ErrStaleDeadline
  | ErrNegativeNetValue | RErrStaleAuthority | ErrLowControlConfidence | ErrQuarantined | ErrRolloutBlocked
  | StoreErr store_error | SchedErr sched_error | ErrDeadlineExceeded | OtherErr string

fun statusForError :: "relay_error option \<Rightarrow> int" where
  "statusForError None = 200"
| "statusForError (Some ErrWrongShard) = 409"
| "statusForError (Some (StoreErr ErrDuplicateBundle)) = 409"
| "statusForError (Some ErrMissingAuthorization) = 401"
| "statusForError (Some ErrInvalidAuthorization) = 401"
| "statusForError (Some ErrInvalidJSONRPC) = 400"
| "statusForError (Some ErrInvalidMethod) = 400"
| "statusForError (Some ErrMissingParams) = 400"
| "statusForError (Some ErrMissingTxs) = 400"
| "statusForError (Some RErrStaleWork) = 422"
| "statusForError (Some ErrStaleDeadline) = 422"
| "statusForError (Some ErrInsufficientDeadline) = 422"
| "statusForError (Some ErrNegativeNetValue) = 422"
| "statusForError (Some RErrQueueOverflow) = 503"
| "statusForError (Some RErrQueueDisabled) = 503"
| "statusForError (Some RErrQueueClosed) = 503"
| "statusForError (Some (SchedErr ErrQueueOverflow)) = 503"
| "statusForError (Some (SchedErr ErrQueueDisabled)) = 503"
| "statusForError (Some (SchedErr ErrQueueClosed)) = 503"
| "statusForError (Some ErrLowControlConfidence) = 503"
| "statusForError (Some ErrRolloutBlocked) = 503"
| "statusForError (Some ErrClientInflightLimit) = 429"
| "statusForError (Some (StoreErr ErrClientInflight)) = 429"
| "statusForError (Some (StoreErr ErrStateCapacity)) = 429"
| "statusForError (Some RErrStaleAuthority) = 412"
| "statusForError (Some (StoreErr ErrStaleAuthority)) = 412"
| "statusForError (Some ErrQuarantined) = 503"
| "statusForError (Some (StoreErr ErrStateClosed)) = 503"
| "statusForError (Some ErrDeadlineExceeded) = 504"
| "statusForError (Some _) = 400"

section \<open>Validation\<close>

definition validateBundleRequest :: "JSONRPCRequest \<Rightarrow> relay_error option" where
  "validateBundleRequest req =
     (if jr_JSONRPC req \<noteq> ''2.0'' then Some ErrInvalidJSONRPC
      else if jr_Method req \<noteq> ''eth_sendBundle'' then Some ErrInvalidMethod
      else case jr_Params req of
          [] \<Rightarrow> Some ErrMissingParams
        | p # _ \<Rightarrow> (if bq_Txs p = [] then Some ErrMissingTxs else None))"

section \<open>Names\<close>

definition hex_byte :: "char \<Rightarrow> string" where
  "hex_byte c = [digit_char (of_char c div 16), digit_char (of_char c mod 16)]"

definition EncodeToString :: "string \<Rightarrow> string" where
  "EncodeToString bs = concat (map hex_byte bs)"

definition bundleHash :: "(string \<Rightarrow> string) \<Rightarrow> BundleRequest \<Rightarrow> string" where
  "bundleHash sha req =
     EncodeToString (sha (concat (map (\<lambda>tx. tx @ [CHR 0x00]) (bq_Txs req)) @ bq_BlockNumber req @
       '':'' @ show_int 10 (bq_MinTimestamp req) @ '':'' @ show_int 10 (bq_MaxTimestamp req) @
       (case bq_Replacement req of None \<Rightarrow> [] | Some r \<Rightarrow> r)))"

definition bundleID :: "string \<Rightarrow> int \<Rightarrow> string" where
  "bundleID hash rid = hash @ '':'' @ show_int 10 rid"

definition bundleKey :: "(string \<Rightarrow> string) \<Rightarrow> BundleRequest \<Rightarrow> string \<Rightarrow> string" where
  "bundleKey sha req networkID = Join [bundleHash sha req, networkID, bq_BlockNumber req] '':''"

definition checkpointID :: "string \<Rightarrow> u64 \<Rightarrow> string" where
  "checkpointID bid sequence = bid @ '':'' @ show_nat 10 (unat sequence)"

definition checkpointObjectKey :: "string \<Rightarrow> string \<Rightarrow> u64 \<Rightarrow> string" where
  "checkpointObjectKey shardID bid sequence =
     (if shardID = [] then ''checkpoints/'' @ bid @ ''/'' @ checkpointID bid sequence @ ''.json''
      else ''checkpoints/'' @ shardID @ ''/'' @ checkpointID bid sequence @ ''.json'')"

section \<open>Recovery controller\<close>

datatype RecoveryStage = RecoveryIdle | RecoveryReplaying | RecoveryValidating | RecoveryQuarantined | RecoveryRejoined

fun recovery_string :: "RecoveryStage \<Rightarrow> string" where
  "recovery_string RecoveryIdle = ''idle''"
| "recovery_string RecoveryReplaying = ''replaying''"
| "recovery_string RecoveryValidating = ''validating''"
| "recovery_string RecoveryQuarantined = ''quarantined''"
| "recovery_string RecoveryRejoined = ''rejoined''"

record RecoverySnapshot =
  re_Stage :: RecoveryStage
  re_LastReplay :: gtime
  re_LastValidated :: gtime
  re_LastUpdated :: gtime
  re_LastReason :: string
  re_ReplayCount :: u64
  re_Quarantined :: bool
  re_RejoinedCount :: u64
  re_ValidationPass :: bool

definition NewRecoveryController :: RecoverySnapshot where
  "NewRecoveryController = \<lparr> re_Stage = RecoveryIdle, re_LastReplay = 0, re_LastValidated = 0, re_LastUpdated = 0,
     re_LastReason = [], re_ReplayCount = 0, re_Quarantined = False, re_RejoinedCount = 0, re_ValidationPass = True \<rparr>"

definition BeginReplay :: "gtime \<Rightarrow> string \<Rightarrow> RecoverySnapshot \<Rightarrow> RecoverySnapshot" where
  "BeginReplay now reason c = c\<lparr> re_Stage := RecoveryReplaying, re_LastReplay := now, re_LastUpdated := now,
     re_LastReason := reason, re_ReplayCount := re_ReplayCount c + 1, re_Quarantined := False, re_ValidationPass := False \<rparr>"

definition BeginValidation :: "gtime \<Rightarrow> string \<Rightarrow> RecoverySnapshot \<Rightarrow> RecoverySnapshot" where
  "BeginValidation now reason c = c\<lparr> re_Stage := RecoveryValidating, re_LastUpdated := now, re_LastReason := reason \<rparr>"

definition recovery_Validate :: "gtime \<Rightarrow> string \<Rightarrow> RecoverySnapshot \<Rightarrow> RecoverySnapshot" where
  "recovery_Validate now reason c = c\<lparr> re_Stage := RecoveryRejoined, re_LastValidated := now, re_LastUpdated := now,
     re_LastReason := reason, re_ValidationPass := True, re_Quarantined := False, re_RejoinedCount := re_RejoinedCount c + 1 \<rparr>"

definition Quarantine :: "gtime \<Rightarrow> string \<Rightarrow> RecoverySnapshot \<Rightarrow> RecoverySnapshot" where
  "Quarantine now reason c = c\<lparr> re_Stage := RecoveryQuarantined, re_LastUpdated := now, re_LastReason := reason,
     re_Quarantined := True, re_ValidationPass := False \<rparr>"

definition recovery_AllowWrites :: "RecoverySnapshot \<Rightarrow> bool" where
  "recovery_AllowWrites c \<longleftrightarrow> \<not> re_Quarantined c \<and> re_Stage c \<noteq> RecoveryReplaying \<and> re_Stage c \<noteq> RecoveryValidating"

definition recovery_Ready :: "RecoverySnapshot \<Rightarrow> bool" where
  "recovery_Ready c \<longleftrightarrow> re_Stage c = RecoveryIdle \<or> re_Stage c = RecoveryRejoined"

section \<open>Rollout controller\<close>

datatype RolloutStage = RolloutReady | RolloutDraining | RolloutCutover | RolloutRollback | RolloutBlocked

fun rollout_string :: "RolloutStage \<Rightarrow> string" where
  "rollout_string RolloutReady = ''ready''"
| "rollout_string RolloutDraining = ''draining''"
| "rollout_string RolloutCutover = ''cutover''"
| "rollout_string RolloutRollback = ''rollback''"
| "rollout_string RolloutBlocked = ''blocked''"

record RolloutSnapshot =
  rl_Stage :: RolloutStage
  rl_Version :: string
  rl_Reason :: string
  rl_StartedAt :: gtime
  rl_UpdatedAt :: gtime
  rl_CompletedAt :: gtime

definition NewRolloutController :: "string \<Rightarrow> RolloutSnapshot" where
  "NewRolloutController version = \<lparr> rl_Stage = RolloutReady, rl_Version = version, rl_Reason = [],
     rl_StartedAt = 0, rl_UpdatedAt = 0, rl_CompletedAt = 0 \<rparr>"

definition rollout_started :: "gtime \<Rightarrow> RolloutSnapshot \<Rightarrow> RolloutSnapshot" where
  "rollout_started now c = (if time_is_zero (rl_StartedAt c) then c\<lparr> rl_StartedAt := now \<rparr> else c)"

definition BeginDrain :: "gtime \<Rightarrow> string \<Rightarrow> RolloutSnapshot \<Rightarrow> RolloutSnapshot" where
  "BeginDrain now reason c =
     rollout_started now (c\<lparr> rl_Stage := RolloutDraining, rl_Reason := reason, rl_UpdatedAt := now \<rparr>)"

definition BeginCutover :: "gtime \<Rightarrow> string \<Rightarrow> string \<Rightarrow> RolloutSnapshot \<Rightarrow> RolloutSnapshot" where
  "BeginCutover now version reason c =
     rollout_started now (c\<lparr> rl_Stage := RolloutCutover, rl_Version := version, rl_Reason := reason, rl_UpdatedAt := now \<rparr>)"

definition CompleteCutover :: "gtime \<Rightarrow> string \<Rightarrow> string \<Rightarrow> RolloutSnapshot \<Rightarrow> RolloutSnapshot" where
  "CompleteCutover now version reason c = c\<lparr> rl_Stage := RolloutReady, rl_Version := version, rl_Reason := reason,
     rl_UpdatedAt := now, rl_CompletedAt := now \<rparr>"

definition Rollback :: "gtime \<Rightarrow> string \<Rightarrow> RolloutSnapshot \<Rightarrow> RolloutSnapshot" where
  "Rollback now reason c =
     rollout_started now (c\<lparr> rl_Stage := RolloutRollback, rl_Reason := reason, rl_UpdatedAt := now \<rparr>)"

definition rollout_Block :: "gtime \<Rightarrow> string \<Rightarrow> RolloutSnapshot \<Rightarrow> RolloutSnapshot" where
  "rollout_Block now reason c = c\<lparr> rl_Stage := RolloutBlocked, rl_Reason := reason, rl_UpdatedAt := now \<rparr>"

definition rollout_AllowWrites :: "RolloutSnapshot \<Rightarrow> bool" where
  "rollout_AllowWrites c \<longleftrightarrow> rl_Stage c = RolloutReady"

definition rollout_Ready :: "RolloutSnapshot \<Rightarrow> bool" where
  "rollout_Ready c \<longleftrightarrow> rl_Stage c = RolloutReady"

end
