(* ===== verification/Relay_Policy.thy ===== *)
theory Relay_Policy
  imports Relay_Control
begin

text \<open>
  The adaptive policy (\<^verbatim>\<open>relay/policy.go\<close>), its in-memory store (\<^verbatim>\<open>policy_store.go\<close>), the report it
  reads (the type of \<^verbatim>\<open>health.go\<close>) and the admission score (\<^verbatim>\<open>admission.go\<close>). A field kept as the bits of
  a float is the float; only the policy loop writes the fields. \<^verbatim>\<open>math.Log1p\<close> is a parameter.

  The lemmas show that adapting keeps pressure and confidence in the unit interval, with the
  one case where it does not (a request timeout below a millisecond), and what an accepted
  admission guarantees.
\<close>

section \<open>Reports\<close>

datatype HealthState = HealthStateHealthy | HealthStateDegraded | HealthStateDraining | HealthStateUnsafe

record HealthReport =
  hr_State :: HealthState
  hr_Ready :: bool
  hr_Reasons :: "string list"
  hr_PolicyRevision :: u64
  hr_PolicyPressure :: f64
  hr_PolicyConfidence :: f64
  hr_PolicyFloor :: f64
  hr_PolicyMinNet :: f64
  hr_PolicyMinSlackMS :: int
  hr_PolicyMaxAgeMS :: int
  hr_PolicyBackoffMS :: int
  hr_RecoveryState :: string
  hr_RecoveryReason :: string
  hr_RolloutState :: string
  hr_RolloutReason :: string
  hr_RolloutVersion :: string
  hr_QueueDepth :: int
  hr_QueueCap :: int
  hr_QueueOldestAgeMS :: int
  hr_QueueNetValue :: f64
  hr_QueueStaleCount :: int
  hr_RetryPending :: int
  hr_AuthorityShard :: string
  hr_AuthorityEpoch :: u64
  hr_AuthorityFresh :: bool
  hr_RegionID :: string

section \<open>Policy\<close>

record PolicySnapshot =
  ps_Revision :: u64
  ps_Pressure :: f64
  ps_Confidence :: f64
  ps_MinNetValue :: f64
  ps_MinDeadlineSlack :: duration
  ps_MaxQueueAge :: duration
  ps_RetryBackoff :: duration
  ps_QueuePressurePct :: int
  ps_ConfidenceFloor :: f64

record ControlPolicy =
  pc_baseMinNetValue :: f64
  pc_baseMinDeadlineSlack :: duration
  pc_baseMaxQueueAge :: duration
  pc_baseRetryBackoff :: duration
  pc_baseQueuePressurePct :: int
  pc_baseConfidenceFloor :: f64
  pc_minNetValue :: f64
  pc_minSlackMS :: int
  pc_maxQueueAgeMS :: int
  pc_retryBackoffMS :: int
  pc_queuePressurePct :: int
  pc_confidenceFloor :: f64
  pc_revision :: u64
  pc_pressure :: f64
  pc_confidence :: f64

abbreviation f_zero :: f64 where "f_zero \<equiv> FZero False"
abbreviation f_one :: f64 where "f_one \<equiv> FFin 1"

definition ms_of :: "duration \<Rightarrow> int" where
  "ms_of d = go_div d millisecond"

definition of_ms :: "int \<Rightarrow> duration" where
  "of_ms n = wrap64 (n * millisecond)"

definition ApplySnapshot :: "PolicySnapshot \<Rightarrow> ControlPolicy \<Rightarrow> ControlPolicy" where
  "ApplySnapshot snap p0 =
     (let p1 = (if ps_Revision snap > 0 then p0\<lparr> pc_revision := ps_Revision snap \<rparr> else p0);
          p2 = p1\<lparr> pc_pressure := clamp (ps_Pressure snap) f_zero f_one,
                   pc_confidence := clamp (ps_Confidence snap) f_zero f_one \<rparr>;
          p3 = (if f_le f_zero (ps_MinNetValue snap) then p2\<lparr> pc_minNetValue := ps_MinNetValue snap \<rparr> else p2);
          p4 = (if ps_MinDeadlineSlack snap > 0 then p3\<lparr> pc_minSlackMS := ms_of (ps_MinDeadlineSlack snap) \<rparr> else p3);
          p5 = (if ps_MaxQueueAge snap > 0 then p4\<lparr> pc_maxQueueAgeMS := ms_of (ps_MaxQueueAge snap) \<rparr> else p4);
          p6 = (if ps_RetryBackoff snap > 0 then p5\<lparr> pc_retryBackoffMS := ms_of (ps_RetryBackoff snap) \<rparr> else p5);
          p7 = (if ps_QueuePressurePct snap > 0 then p6\<lparr> pc_queuePressurePct := ps_QueuePressurePct snap \<rparr> else p6)
      in if f_lt f_zero (ps_ConfidenceFloor snap) then p7\<lparr> pc_confidenceFloor := ps_ConfidenceFloor snap \<rparr> else p7)"

definition NewControlPolicy :: "RelayConfig \<Rightarrow> ControlPolicy" where
  "NewControlPolicy cfg = \<lparr>
     pc_baseMinNetValue = rc_MinNetValue cfg, pc_baseMinDeadlineSlack = rc_MinDeadlineSlack cfg,
     pc_baseMaxQueueAge = rc_MaxQueueAge cfg, pc_baseRetryBackoff = rc_RetryBackoff cfg,
     pc_baseQueuePressurePct = 80, pc_baseConfidenceFloor = f_const 55 100,
     pc_minNetValue = rc_MinNetValue cfg, pc_minSlackMS = ms_of (rc_MinDeadlineSlack cfg),
     pc_maxQueueAgeMS = ms_of (rc_MaxQueueAge cfg), pc_retryBackoffMS = ms_of (rc_RetryBackoff cfg),
     pc_queuePressurePct = 80, pc_confidenceFloor = f_const 55 100,
     pc_revision = 1, pc_pressure = f_zero, pc_confidence = f_one \<rparr>"

definition pol_MaxQueueAge :: "ControlPolicy \<Rightarrow> duration" where
  "pol_MaxQueueAge p = of_ms (pc_maxQueueAgeMS p)"

definition pol_RetryBackoff :: "ControlPolicy \<Rightarrow> duration" where
  "pol_RetryBackoff p = of_ms (pc_retryBackoffMS p)"

definition pol_Snapshot :: "ControlPolicy \<Rightarrow> PolicySnapshot" where
  "pol_Snapshot p = \<lparr>
     ps_Revision = pc_revision p, ps_Pressure = pc_pressure p, ps_Confidence = pc_confidence p,
     ps_MinNetValue = pc_minNetValue p, ps_MinDeadlineSlack = of_ms (pc_minSlackMS p),
     ps_MaxQueueAge = of_ms (pc_maxQueueAgeMS p), ps_RetryBackoff = of_ms (pc_retryBackoffMS p),
     ps_QueuePressurePct = pc_queuePressurePct p, ps_ConfidenceFloor = pc_confidenceFloor p \<rparr>"

definition maxUint64 :: "u64 list \<Rightarrow> u64" where
  "maxUint64 vs = foldl (\<lambda>m x. if x > m then x else m) 0 vs"

definition add_if :: "bool \<Rightarrow> f64 \<Rightarrow> f64 \<Rightarrow> f64" where
  "add_if c d p = (if c then f_add p d else p)"

definition estimatePressure :: "RelayConfig \<Rightarrow> MetricsSnapshot \<Rightarrow> HealthReport \<Rightarrow> f64" where
  "estimatePressure cfg snap report =
     (let p1 = add_if (hr_QueueCap report > 0)
                 (f_mul (f_const 35 100) (clamp (f_div (f_of_int (hr_QueueDepth report)) (f_of_int (hr_QueueCap report)))
                    f_zero f_one)) f_zero;
          p2 = add_if (hr_QueueOldestAgeMS report > 0 \<and> rc_MaxQueueAge cfg > 0)
                 (f_div (f_mul (f_const 25 100) (clamp (f_div (f_of_int (hr_QueueOldestAgeMS report))
                    (f_of_int (ms_of (rc_MaxQueueAge cfg)))) f_zero (FFin 2))) (FFin 2)) p1;
          p3 = add_if (f_lt f_zero (sn_RetryDebt snap))
                 (f_mul (f_const 15 100) (clamp (f_div (sn_RetryDebt snap) (f_of_int (max 1 (rc_HistoryLimit cfg))))
                    f_zero f_one)) p2;
          maxLatency = maxUint64 [sn_BackendLatencyMS snap, sn_StateLatencyMS snap, sn_BrokerLatencyMS snap,
                    sn_WALLatencyMS snap, sn_CheckpointLatencyMS snap];
          p4 = add_if (rc_RequestTimeout cfg > 0)
                 (f_div (f_mul (f_const 15 100) (clamp (f_div (f_of_int (uint maxLatency))
                    (f_of_int (ms_of (rc_RequestTimeout cfg)))) f_zero (FFin 2))) (FFin 2)) p3;
          p5 = add_if (f_le (hr_QueueNetValue report) f_zero \<and> hr_QueueDepth report > 0) (f_const 5 100) p4;
          p6 = add_if (hr_RetryPending report > 0) (f_const 5 100) p5;
          p7 = add_if (hr_State report = HealthStateDegraded) (f_const 5 100) p6;
          p8 = add_if (hr_State report = HealthStateUnsafe) (f_const 10 100) p7
      in clamp p8 f_zero f_one)"

definition smoothFloat :: "f64 \<Rightarrow> f64 \<Rightarrow> f64 \<Rightarrow> f64" where
  "smoothFloat current target alpha =
     (let a1 = (if f_le alpha f_zero then f_const 35 100 else alpha);
          a2 = (if f_lt f_one a1 then f_one else a1)
      in f_add current (f_mul (f_sub target current) a2))"

definition smoothDuration :: "duration \<Rightarrow> duration \<Rightarrow> f64 \<Rightarrow> duration" where
  "smoothDuration current target alpha =
     (let val = smoothFloat (f_of_int current) (f_of_int target) alpha
      in f_to_int64 (if f_lt val f_zero then f_zero else val))"

definition smoothInt :: "int \<Rightarrow> int \<Rightarrow> f64 \<Rightarrow> int" where
  "smoothInt current target alpha =
     f_to_int64 (f_math_round (smoothFloat (f_of_int current) (f_of_int target) alpha))"

text \<open>The pressure and confidence \<^verbatim>\<open>Adapt\<close> stores, before it derives the targets from them.\<close>

definition adapt_levels :: "RelayConfig \<Rightarrow> MetricsSnapshot \<Rightarrow> HealthReport \<Rightarrow> f64 \<times> f64" where
  "adapt_levels cfg snap report =
     (let pr0 = estimatePressure cfg snap report;
          co0 = clamp (f_sub f_one pr0) f_zero f_one;
          bump = (\<lambda>c d p. if c then clamp (f_add p d) f_zero f_one else p);
          pr1 = bump (\<not> hr_AuthorityFresh report) (f_const 25 100) pr0;
          co1 = (if \<not> hr_AuthorityFresh report then f_zero else co0);
          pr2 = bump (hr_State report = HealthStateDegraded) (f_const 10 100) pr1;
          pr3 = bump (hr_State report = HealthStateUnsafe) (f_const 25 100) pr2;
          co2 = (if hr_State report = HealthStateUnsafe then f_math_min co1 (f_const 20 100) else co1);
          pr4 = bump (hr_QueueStaleCount report > 0) (f_const 15 100) pr3;
          pr5 = bump (hr_QueueDepth report > 0 \<and> f_le (hr_QueueNetValue report) f_zero) (f_const 5 100) pr4
      in (pr5, co2))"

text \<open>The six settings \<^verbatim>\<open>Adapt\<close> moves towards their targets for a pressure.\<close>

definition adapt_targets :: "RelayConfig \<Rightarrow> f64 \<Rightarrow> ControlPolicy \<Rightarrow> f64 \<times> int \<times> int \<times> int \<times> int \<times> f64" where
  "adapt_targets cfg pressure p =
     (let alpha = f_const 35 100;
          targetMinNet = f_add (pc_baseMinNetValue p) (f_mul pressure (f_add (rc_CostPerTx cfg)
             (f_mul (rc_CostPerMS cfg) (f_of_int (ms_of (rc_RequestTimeout cfg))))));
          targetSlack = wrap64 (pc_baseMinDeadlineSlack p +
             f_to_int64 (f_div (f_mul pressure (f_of_int (rc_RequestTimeout cfg))) (FFin 2)));
          targetAge = max second (f_to_int64 (f_mul (f_of_int (pc_baseMaxQueueAge p))
             (f_sub f_one (f_mul pressure (f_const 60 100)))));
          targetBackoff0 = max (100 * millisecond) (f_to_int64 (f_mul (f_of_int (pc_baseRetryBackoff p)) (f_add f_one pressure)));
          maxBackoff = wrap64 (pc_baseRetryBackoff p * 5);
          targetBackoff = min targetBackoff0 maxBackoff;
          targetPct = min (pc_baseQueuePressurePct p) (max 60 (wrap64 (pc_baseQueuePressurePct p -
             f_to_int64 (f_math_round (f_mul pressure (FFin 20))))));
          floor0 = f_add (pc_baseConfidenceFloor p) (f_mul pressure (f_const 30 100));
          floor1 = (if f_lt (f_const 95 100) floor0 then f_const 95 100 else floor0);
          targetFloor = (if f_lt floor1 (f_const 30 100) then f_const 30 100 else floor1)
      in (smoothFloat (pc_minNetValue p) targetMinNet alpha,
          ms_of (smoothDuration (of_ms (pc_minSlackMS p)) targetSlack alpha),
          ms_of (smoothDuration (of_ms (pc_maxQueueAgeMS p)) targetAge alpha),
          ms_of (smoothDuration (of_ms (pc_retryBackoffMS p)) targetBackoff alpha),
          smoothInt (pc_queuePressurePct p) targetPct alpha,
          smoothFloat (pc_confidenceFloor p) targetFloor alpha))"

definition Adapt :: "RelayConfig \<Rightarrow> MetricsSnapshot \<Rightarrow> HealthReport \<Rightarrow> ControlPolicy \<Rightarrow> PolicySnapshot \<times> ControlPolicy" where
  "Adapt cfg snap report p =
     (let (pressure, confidence) = adapt_levels cfg snap report;
          (minNet, minSlackMS, maxAgeMS, backoffMS, pct, floor) = adapt_targets cfg pressure p;
          changed = (pc_minNetValue p \<noteq> minNet \<or> pc_minSlackMS p \<noteq> minSlackMS \<or> pc_maxQueueAgeMS p \<noteq> maxAgeMS \<or>
             pc_retryBackoffMS p \<noteq> backoffMS \<or> pc_queuePressurePct p \<noteq> pct \<or> pc_confidenceFloor p \<noteq> floor);
          p1 = (if changed then p\<lparr> pc_minNetValue := minNet, pc_minSlackMS := minSlackMS,
                  pc_maxQueueAgeMS := maxAgeMS, pc_retryBackoffMS := backoffMS,
                  pc_queuePressurePct := pct, pc_confidenceFloor := floor, pc_revision := pc_revision p + 1 \<rparr>
                else p);
          p2 = p1\<lparr> pc_pressure := pressure, pc_confidence := confidence \<rparr>
      in (pol_Snapshot p2, p2))"

section \<open>Policy store\<close>

record policyMemoryStore =
  pm_closed :: bool
  pm_data :: "(string, PolicySnapshot) gomap"

definition newPolicyMemoryStore :: policyMemoryStore where
  "newPolicyMemoryStore = \<lparr> pm_closed = False, pm_data = [] \<rparr>"

definition policy_Load :: "string \<Rightarrow> policyMemoryStore \<Rightarrow> string + PolicySnapshot option" where
  "policy_Load shardID s = (if pm_closed s then Inl ''policy store closed'' else Inr (gm_get (pm_data s) shardID))"

definition policy_Save :: "string \<Rightarrow> PolicySnapshot \<Rightarrow> policyMemoryStore \<Rightarrow> string option \<times> policyMemoryStore" where
  "policy_Save shardID snap s =
     (if pm_closed s then (Some ''policy store closed'', s)
      else (None, s\<lparr> pm_data := gm_set (pm_data s) shardID snap \<rparr>))"

definition policy_Health :: "policyMemoryStore \<Rightarrow> string option" where
  "policy_Health s = (if pm_closed s then Some ''policy store closed'' else None)"

definition policy_Close :: "policyMemoryStore \<Rightarrow> policyMemoryStore" where
  "policy_Close s = s\<lparr> pm_closed := True \<rparr>"

section \<open>Admission\<close>

record admissionDecision =
  ad_accepted :: bool
  ad_reason :: string
  ad_deadline :: gtime
  ad_value :: f64
  ad_cost :: f64
  ad_serviceMS :: int
  ad_priority :: f64

definition estimateServiceMS :: "string \<Rightarrow> nat \<Rightarrow> int" where
  "estimateServiceMS kind0 txCount =
     (let kind = ToLower kind0;
          (base, step) = (if kind = ''local'' then (50, 10) else if kind = ''anvil'' then (100, 20)
                          else if kind = ''sepolia'' then (150, 25) else (100, 20))
      in wrap64 (base + int txCount * step))"

text \<open>\<open>now1\<close> and \<open>now2\<close> are the clock readings of \<^verbatim>\<open>time.Now\<close> and of \<^verbatim>\<open>time.Until\<close>.\<close>

definition scoreAdmission ::
  "(f64 \<Rightarrow> f64) \<Rightarrow> gtime \<Rightarrow> gtime \<Rightarrow> RelayConfig \<Rightarrow> PolicySnapshot \<Rightarrow> BundleRequest \<Rightarrow> admissionDecision" where
  "scoreAdmission log1p now1 now2 cfg policy req =
     (let t = time_unix (bq_MaxTimestamp req);
          deadline = (if bq_MaxTimestamp req > 0 \<and> \<not> time_is_zero t then t else now1 + rc_RequestTimeout cfg);
          slack = time_sub deadline now2
      in if slack \<le> 0
         then \<lparr> ad_accepted = False, ad_reason = ''stale deadline'', ad_deadline = deadline, ad_value = f_zero,
                ad_cost = f_zero, ad_serviceMS = 0, ad_priority = f_zero \<rparr>
         else
           let txCount = length (bq_Txs req);
               freshness = clamp (f_div (f_of_int slack) (f_of_int (rc_RequestTimeout cfg))) f_zero f_one;
               val = f_mul (f_mul (rc_ValuePerTx cfg) (f_add f_one (log1p (f_of_int (int txCount))))) freshness;
               serviceMS = estimateServiceMS (rc_BackendKind cfg) txCount;
               cost = f_add (f_mul (f_of_int serviceMS) (rc_CostPerMS cfg)) (f_mul (f_of_int (int txCount)) (rc_CostPerTx cfg));
               net = f_sub val cost;
               priority = (if serviceMS > 0 then f_add (f_div net (f_of_int serviceMS)) freshness else f_zero);
               d = \<lparr> ad_accepted = False, ad_reason = [], ad_deadline = deadline, ad_value = val, ad_cost = cost,
                     ad_serviceMS = serviceMS, ad_priority = priority \<rparr>
           in if f_lt (ps_Confidence policy) (ps_ConfidenceFloor policy)
              then d\<lparr> ad_reason := ''control confidence below floor'' \<rparr>
              else if slack \<le> ps_MinDeadlineSlack policy then d\<lparr> ad_reason := ''insufficient slack'' \<rparr>
              else if wrap64 (serviceMS * millisecond) > slack then d\<lparr> ad_reason := ''insufficient slack'' \<rparr>
              else if f_lt net (ps_MinNetValue policy) then d\<lparr> ad_reason := ''negative net value'' \<rparr>
              else d\<lparr> ad_accepted := True \<rparr>)"

section \<open>Pressure and confidence\<close>

lemma f_const_nonneg: "0 \<le> n \<Longrightarrow> 0 < d \<Longrightarrow> f_nonneg (f_const n d)"
  by (simp add: f_const_def f_round_nonneg)

lemma f_const_finite: "0 \<le> n \<Longrightarrow> 0 < d \<Longrightarrow> n \<le> d \<Longrightarrow> \<not> is_inf (f_const n d)"
  by (simp add: f_const_def f_round_small_finite)

lemma add_if_nonneg: "f_nonneg p \<Longrightarrow> (c \<Longrightarrow> f_nonneg d) \<Longrightarrow> f_nonneg (add_if c d p)"
  by (simp add: add_if_def f_add_nonneg)

lemma share_nonneg:
  assumes "0 \<le> n" and "0 < d" and "n \<le> d" and "\<not> is_nan v" and "0 \<le> hi"
  shows "f_nonneg (f_mul (f_const n d) (clamp v f_zero (FFin hi)))"
  using assms clamp_nonneg [of v hi] by (intro f_mul_nonneg f_const_nonneg f_const_finite) auto

text \<open>What the inputs of \<^verbatim>\<open>Adapt\<close> satisfy: Go integers, and a timeout that is off or at least a millisecond.\<close>

definition adapt_inputs_ok :: "RelayConfig \<Rightarrow> HealthReport \<Rightarrow> bool" where
  "adapt_inputs_ok cfg report \<longleftrightarrow> hr_QueueCap report \<le> max_int64 \<and> rc_MaxQueueAge cfg \<le> max_int64 \<and>
     rc_RequestTimeout cfg \<le> max_int64 \<and> rc_HistoryLimit cfg \<le> max_int64 \<and> hr_QueueOldestAgeMS report \<le> max_int64 \<and>
     (rc_RequestTimeout cfg \<le> 0 \<or> rc_RequestTimeout cfg \<ge> millisecond)"

lemma int_ratio_not_nan: "1 \<le> n \<Longrightarrow> n \<le> max_int64 \<Longrightarrow> \<not> is_nan a \<Longrightarrow> \<not> is_nan (f_div a (f_of_int n))"
  using f_of_int_pos f_div_pos_not_nan by metis

lemma ms_of_range: "0 \<le> d \<Longrightarrow> d \<le> max_int64 \<Longrightarrow> 0 \<le> ms_of d \<and> ms_of d \<le> max_int64"
  using zdiv_mono2 [of d 1 1000000] by (simp add: ms_of_def millisecond_def go_div_nonneg pos_imp_zdiv_nonneg_iff)

lemma ms_of_pos: "millisecond \<le> d \<Longrightarrow> 1 \<le> ms_of d"
  by (simp add: ms_of_def millisecond_def go_div_nonneg)

lemma age_ratio_not_nan:
  assumes "0 < age" and "age \<le> max_int64" and "0 \<le> n" and "n \<le> max_int64"
  shows "\<not> is_nan (f_div (f_of_int age) (f_of_int n))"
proof -
  obtain r where r: "f_of_int age = FFin r" "0 < r" using f_of_int_pos [of age] assms(1,2) by auto
  have "\<not> is_inf (f_of_int n)"
    using f_of_int_pos [of n] assms(3,4) by (cases "n = 0") (auto simp: f_of_int_def f_round_def)
  then show ?thesis using r by (intro f_div_not_nan) (simp_all add: f_is_zero_def)
qed

lemma clamp_unit_nonneg: "f_nonneg v \<Longrightarrow> f_unit (clamp v f_zero f_one)"
  by (rule clamp_unit) (simp add: f_nonneg_def)

lemma f_math_min_unit: "f_unit a \<Longrightarrow> f_nonneg b \<Longrightarrow> f_unit (f_math_min a b)"
  by (cases a; cases b) (auto simp: f_math_min_def f_unit_def f_nonneg_def f_lt_def f_is_zero_def)

lemma estimatePressure_unit:
  assumes ok: "adapt_inputs_ok cfg report"
  shows "f_unit (estimatePressure cfg snap report)"
proof -
  have queue: "f_nonneg (f_mul (f_const 35 100) (clamp (f_div (f_of_int (hr_QueueDepth report)) (f_of_int (hr_QueueCap report))) f_zero f_one))"
    if "hr_QueueCap report > 0"
    using that ok by (intro share_nonneg int_ratio_not_nan) (simp_all add: adapt_inputs_ok_def)
  have age: "f_nonneg (f_div (f_mul (f_const 25 100) (clamp (f_div (f_of_int (hr_QueueOldestAgeMS report))
      (f_of_int (ms_of (rc_MaxQueueAge cfg)))) f_zero (FFin 2))) (FFin 2))"
    if "hr_QueueOldestAgeMS report > 0 \<and> rc_MaxQueueAge cfg > 0"
    using that ok ms_of_range [of "rc_MaxQueueAge cfg"]
    by (intro f_div_nonneg share_nonneg age_ratio_not_nan) (simp_all add: adapt_inputs_ok_def)
  have debt: "f_nonneg (f_mul (f_const 15 100) (clamp (f_div (sn_RetryDebt snap) (f_of_int (max 1 (rc_HistoryLimit cfg)))) f_zero f_one))"
    if "f_lt f_zero (sn_RetryDebt snap)"
  proof -
    have "\<not> is_nan (sn_RetryDebt snap)" using that by (cases "sn_RetryDebt snap") auto
    then show ?thesis
      using ok by (intro share_nonneg int_ratio_not_nan) (simp_all add: adapt_inputs_ok_def max_int64_def)
  qed
  have lat: "f_nonneg (f_div (f_mul (f_const 15 100) (clamp (f_div (f_of_int (uint l)) (f_of_int (ms_of (rc_RequestTimeout cfg))))
      f_zero (FFin 2))) (FFin 2))" if "rc_RequestTimeout cfg > 0" for l :: u64
    using that ok ms_of_range [of "rc_RequestTimeout cfg"] ms_of_pos [of "rc_RequestTimeout cfg"]
    by (intro f_div_nonneg share_nonneg int_ratio_not_nan) (simp_all add: adapt_inputs_ok_def)
  have zero: "f_nonneg f_zero" by (simp add: f_nonneg_def)
  show ?thesis
    unfolding estimatePressure_def Let_def
    by (rule clamp_unit_nonneg) (intro add_if_nonneg queue age debt lat zero f_const_nonneg; simp)
qed

lemma bump_unit: "f_unit p \<Longrightarrow> f_nonneg d \<Longrightarrow> f_unit (if c then clamp (f_add p d) f_zero f_one else p)"
  by (simp add: clamp_unit_nonneg f_add_nonneg f_unit_nonneg)

lemma adapt_levels_unit:
  assumes "adapt_inputs_ok cfg report" and "adapt_levels cfg snap report = (pressure, confidence)"
  shows "f_unit pressure" and "f_unit confidence"
proof -
  note pr = estimatePressure_unit [OF assms(1), of snap]
  have "f_unit (clamp (f_sub f_one (estimatePressure cfg snap report)) f_zero f_one)"
    using one_minus_unit [OF pr] by (rule clamp_unit)
  moreover have "f_unit f_zero" by (simp add: f_unit_def f_lt_def)
  ultimately show "f_unit confidence"
    using assms(2) by (auto simp: adapt_levels_def Let_def f_math_min_unit f_const_nonneg)
  have "pressure = fst (adapt_levels cfg snap report)" using assms(2) by simp
  then show "f_unit pressure"
    unfolding adapt_levels_def Let_def fst_conv
    by (simp only:) (intro bump_unit pr f_const_nonneg; simp)
qed

text \<open>
  (policy.go \<^verbatim>\<open>Adapt\<close>) whatever load the report and the metrics show, the policy never stores a
  pressure or a confidence outside the unit interval, and its snapshot carries the stored ones; a
  lease that is not fresh drives the confidence to zero. The request timeout has to be off or at
  least one millisecond.
\<close>

theorem adapt_keeps_unit_interval:
  assumes "adapt_inputs_ok cfg report" and "Adapt cfg snap report p = (view, p')"
  shows "f_unit (pc_pressure p') \<and> f_unit (pc_confidence p') \<and>
    ps_Pressure view = pc_pressure p' \<and> ps_Confidence view = pc_confidence p' \<and>
    (\<not> hr_AuthorityFresh report \<longrightarrow> f_eq (pc_confidence p') f_zero) \<and>
    (pc_revision p' = pc_revision p \<longrightarrow> pol_Snapshot p' = (pol_Snapshot p)\<lparr> ps_Pressure := pc_pressure p', ps_Confidence := pc_confidence p' \<rparr>)"
proof -
  obtain pressure confidence where l: "adapt_levels cfg snap report = (pressure, confidence)"
    by (cases "adapt_levels cfg snap report")
  obtain t1 t2 t3 t4 t5 t6 where t: "adapt_targets cfg pressure p = (t1, t2, t3, t4, t5, t6)"
    by (cases "adapt_targets cfg pressure p")
  have st: "pc_pressure p' = pressure" "pc_confidence p' = confidence" "view = pol_Snapshot p'"
    using assms(2) by (auto simp: Adapt_def l t Let_def)
  have same: "pol_Snapshot p' = (pol_Snapshot p)\<lparr> ps_Pressure := pc_pressure p', ps_Confidence := pc_confidence p' \<rparr>"
    if "pc_revision p' = pc_revision p"
    using assms(2) that by (auto simp: Adapt_def l t Let_def pol_Snapshot_def split: if_splits)
  have "f_eq confidence f_zero" if "\<not> hr_AuthorityFresh report"
    using l that f_const_nonneg [of 20 100]
    by (auto simp: adapt_levels_def Let_def f_math_min_def f_nonneg_cases f_eq_def f_lt_def f_is_zero_def split: if_splits)
  then show ?thesis
    using adapt_levels_unit [OF assms(1) l] same by (simp add: st pol_Snapshot_def)
qed

text \<open>A configuration and a report the witnesses use: the default settings on a quiet relay.\<close>

definition demo_cfg :: RelayConfig where
  "demo_cfg = relay_Load (\<lambda>_. None) (\<lambda>_. None) (\<lambda>_. None)"

definition demo_report :: HealthReport where
  "demo_report = \<lparr> hr_State = HealthStateHealthy, hr_Ready = True, hr_Reasons = [], hr_PolicyRevision = 1,
     hr_PolicyPressure = f_zero, hr_PolicyConfidence = f_one, hr_PolicyFloor = f_zero, hr_PolicyMinNet = f_zero,
     hr_PolicyMinSlackMS = 500, hr_PolicyMaxAgeMS = 3000, hr_PolicyBackoffMS = 500, hr_RecoveryState = ''idle'',
     hr_RecoveryReason = [], hr_RolloutState = ''ready'', hr_RolloutReason = [], hr_RolloutVersion = ''v3'',
     hr_QueueDepth = 3, hr_QueueCap = 1024, hr_QueueOldestAgeMS = 20, hr_QueueNetValue = f_one,
     hr_QueueStaleCount = 0, hr_RetryPending = 0, hr_AuthorityShard = ''shard-0'', hr_AuthorityEpoch = 1,
     hr_AuthorityFresh = False, hr_RegionID = ''local'' \<rparr>"

theorem adapt_keeps_unit_interval_witness:
  "\<exists>view p'. Adapt demo_cfg (mt_Snapshot New_Metrics) demo_report (NewControlPolicy demo_cfg) = (view, p') \<and>
     f_unit (pc_pressure p') \<and> f_unit (pc_confidence p') \<and> f_eq (pc_confidence p') f_zero"
proof -
  obtain view p' where a: "Adapt demo_cfg (mt_Snapshot New_Metrics) demo_report (NewControlPolicy demo_cfg) = (view, p')"
    by (cases "Adapt demo_cfg (mt_Snapshot New_Metrics) demo_report (NewControlPolicy demo_cfg)")
  have "adapt_inputs_ok demo_cfg demo_report"
    by (simp add: adapt_inputs_ok_def demo_cfg_def demo_report_def relay_Load_def Let_def envDuration_def envInt_def
        max_int64_def second_def millisecond_def)
  from adapt_keeps_unit_interval [OF this a] a show ?thesis by (auto simp: demo_report_def)
qed

text \<open>
  With a request timeout below a millisecond and no latency recorded the pressure is 0/0: it and the
  confidence become NaN, and the comparison that is to refuse work at low confidence is false.
\<close>

lemma tiny_timeout_pressure_is_nan:
  assumes "0 < rc_RequestTimeout cfg" and "rc_RequestTimeout cfg < millisecond"
    and "maxUint64 [sn_BackendLatencyMS snap, sn_StateLatencyMS snap, sn_BrokerLatencyMS snap,
           sn_WALLatencyMS snap, sn_CheckpointLatencyMS snap] = 0"
  shows "estimatePressure cfg snap report = FNaN"
proof -
  have "f_div (f_of_int 0) (f_of_int (ms_of (rc_RequestTimeout cfg))) = FNaN"
    using assms(1,2) by (simp add: ms_of_def go_div_nonneg millisecond_def f_of_int_def f_round_def f_div_def f_is_zero_def)
  moreover have "f_mul a FNaN = FNaN" "f_div FNaN a = FNaN" "f_add a FNaN = FNaN" "f_add FNaN a = FNaN" for a
    by (simp_all add: f_mul_def f_div_def f_add_def)
  moreover have "add_if c d FNaN = FNaN" for c d by (simp add: add_if_def f_add_def)
  ultimately show ?thesis
    using assms by (simp add: estimatePressure_def Let_def add_if_def)
qed

section \<open>What an admission guarantees\<close>

lemma scoreAdmission_accepted:
  assumes "ad_accepted (scoreAdmission log1p now1 now2 cfg policy req)"
  shows "let d = scoreAdmission log1p now1 now2 cfg policy req in
    ps_MinDeadlineSlack policy < time_sub (ad_deadline d) now2 \<and> 0 < time_sub (ad_deadline d) now2 \<and>
    wrap64 (ad_serviceMS d * millisecond) \<le> time_sub (ad_deadline d) now2 \<and>
    \<not> f_lt (ps_Confidence policy) (ps_ConfidenceFloor policy) \<and>
    \<not> f_lt (f_sub (ad_value d) (ad_cost d)) (ps_MinNetValue policy)"
  using assms by (auto simp: scoreAdmission_def Let_def split: if_splits)

end
