(* ===== verification/Relay_Backends.thy ===== *)
theory Relay_Backends
  imports Relay_Model
begin

text \<open>
  The in-memory broker (\<^verbatim>\<open>mev/relay/v3/internal/broker/memory/memory.go\<close>), the in-memory checkpoint
  store (\<^verbatim>\<open>checkpoint/memory/memory.go\<close>) and the local simulation backend (\<^verbatim>\<open>backend/local/local.go\<close>).
  A channel is a queue of messages with the broker's buffer size; channels are numbered in the
  order they were made.

  The lemmas show that a published message reaches every subscriber of its topic with room in its
  buffer, once and in order, and nobody else, and that a stored checkpoint is read back.
\<close>

section \<open>Broker\<close>

record Message =
  mg_Topic :: string
  mg_Key :: string
  mg_Sequence :: u64
  mg_Timestamp :: gtime
  mg_Headers :: "(string, string) gomap"
  mg_Payload :: string

record MemBroker =
  br_topics :: "(string, nat list) gomap"
  br_chans :: "(nat, Message list) gomap"
  br_next :: nat
  br_closed :: bool
  br_buffer :: int

record Consumer =
  co_topic :: string
  co_ch :: nat
  co_closed :: bool

definition New_MemBroker :: "int \<Rightarrow> MemBroker" where
  "New_MemBroker buffer = \<lparr> br_topics = [], br_chans = [], br_next = 0, br_closed = False,
     br_buffer = (if buffer \<le> 0 then 64 else buffer) \<rparr>"

text \<open>The non-blocking send: dropped when the channel is full.\<close>

definition try_send :: "Message \<Rightarrow> nat \<Rightarrow> MemBroker \<Rightarrow> MemBroker" where
  "try_send msg ch b =
     (let q = gm_get0 [] (br_chans b) ch in
      if int (length q) < br_buffer b then b\<lparr> br_chans := gm_set (br_chans b) ch (q @ [msg]) \<rparr> else b)"

definition Publish :: "Message \<Rightarrow> MemBroker \<Rightarrow> string option \<times> MemBroker" where
  "Publish msg b =
     (if br_closed b then (Some ''broker closed'', b)
      else (None, foldl (\<lambda>b ch. try_send msg ch b) b (gm_get0 [] (br_topics b) (mg_Topic msg))))"

definition Subscribe :: "string \<Rightarrow> MemBroker \<Rightarrow> Consumer \<times> MemBroker" where
  "Subscribe topic0 b =
     (let topic = (if topic0 = [] then ''default'' else topic0); ch = br_next b
      in (\<lparr> co_topic = topic, co_ch = ch, co_closed = False \<rparr>,
          b\<lparr> br_topics := gm_set (br_topics b) topic (gm_get0 [] (br_topics b) topic @ [ch]),
             br_chans := gm_set (br_chans b) ch [], br_next := br_next b + 1 \<rparr>))"

definition broker_Ping :: "MemBroker \<Rightarrow> string option" where
  "broker_Ping b = (if br_closed b then Some ''broker closed'' else None)"

definition broker_Close :: "MemBroker \<Rightarrow> MemBroker" where
  "broker_Close b = b\<lparr> br_closed := True \<rparr>"

text \<open>
  \<^verbatim>\<open>Receive\<close>: \<open>None\<close> while there is nothing to receive. Of a closed consumer with messages left Go may
  pick either ready case; this is the closed one when \<open>pickClosed\<close>.
\<close>

datatype receive_result = Received Message | ConsumerClosed

definition Receive :: "bool \<Rightarrow> Consumer \<Rightarrow> MemBroker \<Rightarrow> (receive_result \<times> MemBroker) option" where
  "Receive pickClosed c b =
     (case gm_get0 [] (br_chans b) (co_ch c) of
        [] \<Rightarrow> (if co_closed c then Some (ConsumerClosed, b) else None)
      | m # rest \<Rightarrow> (if co_closed c \<and> pickClosed then Some (ConsumerClosed, b)
                    else Some (Received m, b\<lparr> br_chans := gm_set (br_chans b) (co_ch c) rest \<rparr>)))"

text \<open>\<^verbatim>\<open>Close\<close> of a consumer; closing it twice panics (\<open>None\<close>).\<close>

definition consumer_Close :: "Consumer \<Rightarrow> MemBroker \<Rightarrow> (Consumer \<times> MemBroker) option" where
  "consumer_Close c b =
     (if co_closed c then None
      else Some (c\<lparr> co_closed := True \<rparr>,
        b\<lparr> br_topics := gm_set (br_topics b) (co_topic c)
             (filter (\<lambda>ch. ch \<noteq> co_ch c) (gm_get0 [] (br_topics b) (co_topic c))) \<rparr>))"

section \<open>Checkpoint store\<close>

record CheckpointStore =
  cs_blobs :: "(string, string) gomap"
  cs_closed :: bool

definition New_CheckpointStore :: CheckpointStore where
  "New_CheckpointStore = \<lparr> cs_blobs = [], cs_closed = False \<rparr>"

definition cs_Put :: "CheckpointRecord \<Rightarrow> string \<Rightarrow> CheckpointStore \<Rightarrow> (string + string) \<times> CheckpointStore" where
  "cs_Put cp body s =
     (if cs_closed s then (Inl ''checkpoint store closed'', s)
      else let key = (if cp_ObjectKey cp = [] then cp_BatchID cp @ ''.json'' else cp_ObjectKey cp)
           in (Inr key, s\<lparr> cs_blobs := gm_set (cs_blobs s) key body \<rparr>))"

definition cs_Get :: "string \<Rightarrow> CheckpointStore \<Rightarrow> string + string" where
  "cs_Get key s = (case gm_get (cs_blobs s) key of None \<Rightarrow> Inl ''checkpoint not found'' | Some body \<Rightarrow> Inr body)"

definition cs_Health :: "CheckpointStore \<Rightarrow> string option" where
  "cs_Health s = (if cs_closed s then Some ''checkpoint store closed'' else None)"

definition cs_Close :: "CheckpointStore \<Rightarrow> CheckpointStore" where
  "cs_Close s = s\<lparr> cs_closed := True \<rparr>"

section \<open>Local backend\<close>

record SimResult =
  si_Score :: f64
  si_ProfitEth :: f64
  si_Success :: bool
  si_Reason :: string

definition local_Simulate :: "BundleRecord \<Rightarrow> SimResult" where
  "local_Simulate rec =
     \<lparr> si_Score = FFin 1, si_ProfitEth = f_sub (bd_ExpectedValue rec) (bd_ExpectedCost rec),
        si_Success = f_lt (FZero False) (f_sub (bd_ExpectedValue rec) (bd_ExpectedCost rec)),
        si_Reason = ''local simulation'' \<rparr>"

section \<open>Delivery\<close>

lemma try_send_other: "ch' \<noteq> ch \<Longrightarrow> gm_get0 [] (br_chans (try_send msg ch b)) ch' = gm_get0 [] (br_chans b) ch'"
  by (simp add: try_send_def Let_def gm_get0_def)

lemma try_send_same:
  "gm_get0 [] (br_chans (try_send msg ch b)) ch =
     (let q = gm_get0 [] (br_chans b) ch in if int (length q) < br_buffer b then q @ [msg] else q)"
  by (simp add: try_send_def Let_def gm_get0_def)

lemma try_send_frame [simp]: "br_buffer (try_send msg ch b) = br_buffer b" "br_topics (try_send msg ch b) = br_topics b"
    "br_closed (try_send msg ch b) = br_closed b" "br_next (try_send msg ch b) = br_next b"
  by (simp_all add: try_send_def Let_def)

lemma send_all:
  "distinct chs \<Longrightarrow> gm_get0 [] (br_chans (foldl (\<lambda>b ch. try_send msg ch b) b chs)) ch =
     (let q = gm_get0 [] (br_chans b) ch in
      if ch \<in> set chs \<and> int (length q) < br_buffer b then q @ [msg] else q)"
proof (induction chs arbitrary: b)
  case (Cons a chs)
  then show ?case by (cases "ch = a") (simp_all add: try_send_same try_send_other Let_def)
qed simp

text \<open>Publishing appends to the buffers of the topic's subscribers that have room, and to no other.\<close>

lemma Publish_delivers:
  assumes "\<not> br_closed b" and "distinct (gm_get0 [] (br_topics b) (mg_Topic msg))"
  shows "gm_get0 [] (br_chans (snd (Publish msg b))) ch =
    (let q = gm_get0 [] (br_chans b) ch in
     if ch \<in> set (gm_get0 [] (br_topics b) (mg_Topic msg)) \<and> int (length q) < br_buffer b then q @ [msg] else q)"
  using assms by (simp add: Publish_def send_all)

lemma cs_roundtrip: "cs_Put cp body s = (Inr key, s') \<Longrightarrow> cs_Get key s' = Inr body"
  by (auto simp: cs_Put_def cs_Get_def Let_def split: if_splits)

end
