(* ===== verification/Relay_Wal.thy ===== *)
theory Relay_Wal
  imports Relay_Store
begin

text \<open>
  The write-ahead log of \<^verbatim>\<open>mev/relay/v3/internal/eventlog/wal.go\<close>. The file is its bytes
  (\<open>wl_disk\<close>), the \<^verbatim>\<open>bufio.Writer\<close> its pending bytes and its sticky error. The JSON encoder and
  decoder of the standard library are the parameters \<open>enc\<close> and \<open>dec\<close>; \<open>codec_ok\<close> says what the
  log relies on: decoding a stream of encoded entries gives them back. The outcome of the
  \<open>n\<close>-th file operation is \<open>io n\<close>: \<open>None\<close>, or an error and how many bytes a failing write
  still wrote.

  The lemmas show what the file and buffer hold after any number of appends, that compaction
  keeps the newest entries, and that an appended checkpoint is on disk when the append returns.
\<close>

section \<open>Data\<close>

record WalEntry =
  we_Kind :: string
  we_Time :: gtime
  we_Data :: string

type_synonym io_oracle = "nat \<Rightarrow> (nat \<times> string) option"

datatype dec_result = DecEOF | DecErr string | DecOk WalEntry string

record Bufio =
  bu_buf :: string
  bu_err :: "string option"

record WAL =
  wl_path :: string
  wl_open :: bool
  wl_disk :: string
  wl_writer :: "Bufio option"
  wl_flushEvery :: int
  wl_maxEntries :: int
  wl_writes :: int
  wl_io :: nat

text \<open>The size given to \<^verbatim>\<open>bufio.NewWriterSize\<close>: \<^verbatim>\<open>1<<20\<close>.\<close>

definition bufio_size :: nat where
  "bufio_size = 1048576"

definition new_writer :: Bufio where
  "new_writer = \<lparr> bu_buf = [], bu_err = None \<rparr>"

section \<open>Files and buffers\<close>

text \<open>A file operation other than a write succeeds or fails; it counts as one operation.\<close>

definition file_op :: "io_oracle \<Rightarrow> WAL \<Rightarrow> (string + unit) \<times> WAL" where
  "file_op io w = (case io (wl_io w) of
       None \<Rightarrow> (Inr (), w\<lparr> wl_io := wl_io w + 1 \<rparr>)
     | Some (n, e) \<Rightarrow> (Inl e, w\<lparr> wl_io := wl_io w + 1 \<rparr>))"

text \<open>A write to a file opened with \<^verbatim>\<open>O_APPEND\<close> goes to its end.\<close>

definition file_write :: "io_oracle \<Rightarrow> string \<Rightarrow> WAL \<Rightarrow> nat \<times> string option \<times> WAL" where
  "file_write io p w = (case io (wl_io w) of
       None \<Rightarrow> (length p, None, w\<lparr> wl_disk := wl_disk w @ p, wl_io := wl_io w + 1 \<rparr>)
     | Some (n, e) \<Rightarrow> (let k = min n (length p) in
         (k, Some e, w\<lparr> wl_disk := wl_disk w @ take k p, wl_io := wl_io w + 1 \<rparr>)))"

text \<open>\<^verbatim>\<open>(*bufio.Writer).Flush\<close>: a failed write keeps the unwritten bytes and the error sticks.\<close>

definition bufio_flush :: "io_oracle \<Rightarrow> Bufio \<Rightarrow> WAL \<Rightarrow> (string + unit) \<times> Bufio \<times> WAL" where
  "bufio_flush io b w = (case bu_err b of
       Some e \<Rightarrow> (Inl e, b, w)
     | None \<Rightarrow>
         if bu_buf b = [] then (Inr (), b, w)
         else (case file_write io (bu_buf b) w of
             (n, None, w1) \<Rightarrow> (Inr (), b\<lparr> bu_buf := [] \<rparr>, w1)
           | (n, Some e, w1) \<Rightarrow> (Inl e, \<lparr> bu_buf = drop n (bu_buf b), bu_err = Some e \<rparr>, w1)))"

text \<open>
  \<^verbatim>\<open>(*bufio.Writer).Write\<close>: fill the buffer and flush while the rest does not fit; what does not
  fit an empty buffer is written directly. One flush empties the buffer, so the loop of the
  library runs at most twice.
\<close>

definition bufio_put_empty :: "io_oracle \<Rightarrow> string \<Rightarrow> Bufio \<Rightarrow> WAL \<Rightarrow> (string + unit) \<times> Bufio \<times> WAL" where
  "bufio_put_empty io p b w =
     (if length p \<le> bufio_size then (Inr (), b\<lparr> bu_buf := p \<rparr>, w)
      else (case file_write io p w of
          (n, None, w1) \<Rightarrow> (Inr (), b, w1)
        | (n, Some e, w1) \<Rightarrow> (Inl e, b\<lparr> bu_err := Some e \<rparr>, w1)))"

definition bufio_write :: "io_oracle \<Rightarrow> string \<Rightarrow> Bufio \<Rightarrow> WAL \<Rightarrow> (string + unit) \<times> Bufio \<times> WAL" where
  "bufio_write io p b w = (case bu_err b of
       Some e \<Rightarrow> (Inl e, b, w)
     | None \<Rightarrow>
         if length p \<le> bufio_size - length (bu_buf b) then (Inr (), b\<lparr> bu_buf := bu_buf b @ p \<rparr>, w)
         else if bu_buf b = [] then bufio_put_empty io p b w
         else (let k = bufio_size - length (bu_buf b) in
           case bufio_flush io (b\<lparr> bu_buf := bu_buf b @ take k p \<rparr>) w of
             (Inl e, b1, w1) \<Rightarrow> (Inl e, b1, w1)
           | (Inr _, b1, w1) \<Rightarrow> bufio_put_empty io (drop k p) b1 w1))"

text \<open>The same calls on the log's own writer, which is absent once the log is closed.\<close>

definition wal_flush :: "io_oracle \<Rightarrow> WAL \<Rightarrow> (string + unit) \<times> WAL" where
  "wal_flush io w = (case wl_writer w of
       None \<Rightarrow> (Inr (), w)
     | Some b \<Rightarrow> (case bufio_flush io b w of (r, b1, w1) \<Rightarrow> (r, w1\<lparr> wl_writer := Some b1 \<rparr>)))"

definition wal_encode :: "io_oracle \<Rightarrow> (WalEntry \<Rightarrow> string) \<Rightarrow> WalEntry \<Rightarrow> WAL \<Rightarrow> (string + unit) \<times> WAL" where
  "wal_encode io enc e w = (case wl_writer w of
       None \<Rightarrow> (Inl ''wal closed'', w)
     | Some b \<Rightarrow> (case bufio_write io (enc e) b w of (r, b1, w1) \<Rightarrow> (r, w1\<lparr> wl_writer := Some b1 \<rparr>)))"

definition seq :: "(WAL \<Rightarrow> (string + 'a) \<times> WAL) \<Rightarrow> ('a \<Rightarrow> WAL \<Rightarrow> (string + 'b) \<times> WAL) \<Rightarrow> WAL \<Rightarrow> (string + 'b) \<times> WAL" where
  "seq m f w = (case m w of (Inl e, w1) \<Rightarrow> (Inl e, w1) | (Inr x, w1) \<Rightarrow> f x w1)"

section \<open>Reading\<close>

text \<open>
  \<^verbatim>\<open>readEntries\<close>: decode until the end of the input, keeping the last \<open>limit\<close> entries. The fuel is
  the number of bytes: a decoder consumes at least one to return an entry.
\<close>

definition push_last :: "int \<Rightarrow> WalEntry list \<Rightarrow> WalEntry \<Rightarrow> WalEntry list" where
  "push_last limit out e = (if int (length out) < limit then out @ [e] else tl out @ [e])"

fun read_loop :: "nat \<Rightarrow> (string \<Rightarrow> dec_result) \<Rightarrow> int \<Rightarrow> WalEntry list \<Rightarrow> string \<Rightarrow> string + WalEntry list" where
  "read_loop fuel dec limit out s = (case dec s of
       DecEOF \<Rightarrow> Inr out
     | DecErr e \<Rightarrow> Inl e
     | DecOk e rest \<Rightarrow> (case fuel of
           0 \<Rightarrow> Inl ''decoder does not advance''
         | Suc n \<Rightarrow> read_loop n dec limit (push_last limit out e) rest))"

declare read_loop.simps [simp del]

definition readEntries :: "(string \<Rightarrow> dec_result) \<Rightarrow> string \<Rightarrow> int \<Rightarrow> string + WalEntry list" where
  "readEntries dec disk limit = read_loop (length disk) dec (if limit \<le> 0 then 256 else limit) [] disk"

section \<open>The log\<close>

definition wal_Open :: "string \<Rightarrow> int \<Rightarrow> int \<Rightarrow> string \<Rightarrow> string option \<Rightarrow> string option \<Rightarrow> string + WAL" where
  "wal_Open path flushEvery maxEntries disk mkdirErr openErr = (case mkdirErr of
       Some e \<Rightarrow> Inl e
     | None \<Rightarrow> (case openErr of
         Some e \<Rightarrow> Inl e
       | None \<Rightarrow> Inr \<lparr> wl_path = path, wl_open = True, wl_disk = disk, wl_writer = Some new_writer,
           wl_flushEvery = (if flushEvery \<le> 0 then 128 else flushEvery),
           wl_maxEntries = (if maxEntries \<le> 0 then 2048 else maxEntries), wl_writes = 0, wl_io = 0 \<rparr>))"

fun encode_all :: "io_oracle \<Rightarrow> (WalEntry \<Rightarrow> string) \<Rightarrow> WalEntry list \<Rightarrow> WAL \<Rightarrow> (string + unit) \<times> WAL" where
  "encode_all io enc [] w = (Inr (), w)"
| "encode_all io enc (e # es) w = seq (wal_encode io enc e) (\<lambda>_. encode_all io enc es) w"

definition compactLocked ::
  "io_oracle \<Rightarrow> (WalEntry \<Rightarrow> string) \<Rightarrow> (string \<Rightarrow> dec_result) \<Rightarrow> WAL \<Rightarrow> (string + unit) \<times> WAL" where
  "compactLocked io enc dec w =
     (if \<not> wl_open w then (Inl ''wal closed'', w)
      else seq (wal_flush io) (\<lambda>_. seq (file_op io)
        (\<lambda>_ w1. case readEntries dec (wl_disk w1) (wl_maxEntries w1) of
           Inl e \<Rightarrow> (Inl e, w1)
         | Inr entries \<Rightarrow> seq (file_op io) (\<lambda>_ w2.
             seq (file_op io) (\<lambda>_ w3.
               seq (encode_all io enc entries) (\<lambda>_. seq (wal_flush io) (\<lambda>_. seq (file_op io)
                 (\<lambda>_ w4. (Inr (), w4\<lparr> wl_writes := int (length entries) \<rparr>))))
               (w3\<lparr> wl_writer := Some new_writer \<rparr>))
             (w2\<lparr> wl_disk := [] \<rparr>)) w1)) w)"

definition AppendEncoded ::
  "io_oracle \<Rightarrow> (WalEntry \<Rightarrow> string) \<Rightarrow> (string \<Rightarrow> dec_result) \<Rightarrow> gtime \<Rightarrow> string \<Rightarrow> string \<Rightarrow> WAL \<Rightarrow>
   (string + unit) \<times> WAL" where
  "AppendEncoded io enc dec now kind body w =
     (if \<not> wl_open w then (Inl ''wal closed'', w)
      else seq (wal_encode io enc \<lparr> we_Kind = kind, we_Time = now, we_Data = body \<rparr>)
        (\<lambda>_ w1. let w2 = w1\<lparr> wl_writes := wl_writes w1 + 1 \<rparr> in
           seq (\<lambda>w3. if kind = ''checkpoint'' \<or> wl_writes w3 mod wl_flushEvery w3 = 0
                     then seq (wal_flush io) (\<lambda>_. file_op io) w3 else (Inr (), w3))
             (\<lambda>_ w4. if wl_maxEntries w4 > 0 \<and> wl_writes w4 > wrap64 (wl_maxEntries w4 * 2)
                     then compactLocked io enc dec w4 else (Inr (), w4)) w2) w)"

definition ReadAll :: "io_oracle \<Rightarrow> (string \<Rightarrow> dec_result) \<Rightarrow> int \<Rightarrow> WAL \<Rightarrow> (string + WalEntry list) \<times> WAL" where
  "ReadAll io dec limit w =
     (if wl_path w = [] then (Inl ''wal closed'', w)
      else seq (wal_flush io) (\<lambda>_. seq (file_op io)
        (\<lambda>_ w1. (readEntries dec (wl_disk w1) (if limit \<le> 0 then 256 else limit), w1))) w)"

definition wal_Health :: "io_oracle \<Rightarrow> WAL \<Rightarrow> (string + unit) \<times> WAL" where
  "wal_Health io w = (if \<not> wl_open w then (Inl ''wal closed'', w) else file_op io w)"

definition wal_Close :: "io_oracle \<Rightarrow> WAL \<Rightarrow> (string + unit) \<times> WAL" where
  "wal_Close io w =
     (if \<not> wl_open w then (Inr (), w)
      else (case wal_flush io w of
          (Inl e, w1) \<Rightarrow> (Inl e, snd (file_op io w1))
        | (Inr _, w1) \<Rightarrow> (case file_op io w1 of
            (r, w2) \<Rightarrow> (r, w2\<lparr> wl_open := False, wl_writer := None, wl_path := [] \<rparr>))))"

section \<open>What the log holds\<close>

definition no_faults :: io_oracle where
  "no_faults = (\<lambda>_. None)"

definition codec_ok :: "(WalEntry \<Rightarrow> string) \<Rightarrow> (string \<Rightarrow> dec_result) \<Rightarrow> (WalEntry \<Rightarrow> bool) \<Rightarrow> bool" where
  "codec_ok enc dec ok \<longleftrightarrow> dec [] = DecEOF \<and> (\<forall>e s. ok e \<longrightarrow> dec (enc e @ s) = DecOk e s)"

abbreviation stream :: "(WalEntry \<Rightarrow> string) \<Rightarrow> WalEntry list \<Rightarrow> string" where
  "stream enc es \<equiv> concat (map enc es)"

lemma codec_nonempty: "codec_ok enc dec ok \<Longrightarrow> ok e \<Longrightarrow> enc e \<noteq> []"
  unfolding codec_ok_def by (metis append_Nil2 dec_result.distinct(3))

lemma stream_length:
  "codec_ok enc dec ok \<Longrightarrow> list_all ok es \<Longrightarrow> length es \<le> length (stream enc es)"
proof (induction es)
  case (Cons e es)
  then have "enc e \<noteq> []" using codec_nonempty by auto
  then have "1 \<le> length (enc e)" by (cases "enc e") simp_all
  moreover have "length es \<le> length (stream enc es)" using Cons by simp
  ultimately show ?case by (simp del: length_concat)
qed simp

lemma push_last_fold:
  "0 < limit \<Longrightarrow> int (length out) \<le> limit \<Longrightarrow> foldl (push_last limit) out es = last_n (nat limit) (out @ es)"
proof (induction es arbitrary: out)
  case Nil
  then show ?case by (simp add: last_n_def)
next
  case (Cons e es)
  have len: "int (length (push_last limit out e)) \<le> limit" using Cons.prems by (auto simp: push_last_def)
  have "last_n (nat limit) (push_last limit out e @ es) = last_n (nat limit) (out @ e # es)"
  proof (cases "int (length out) < limit")
    case False
    then have "length out = nat limit" "out \<noteq> []" using Cons.prems by auto
    then show ?thesis using False by (cases out) (simp_all add: push_last_def last_n_def Suc_diff_le)
  qed (simp add: push_last_def)
  then show ?case using Cons.IH [OF Cons.prems(1) len] by simp
qed

lemma read_loop_stream:
  assumes "codec_ok enc dec ok" and "list_all ok es" and "length es \<le> fuel"
  shows "read_loop fuel dec limit out (stream enc es) = Inr (foldl (push_last limit) out es)"
  using assms(2,3)
proof (induction es arbitrary: fuel out)
  case Nil
  then show ?case using assms(1) by (simp add: read_loop.simps codec_ok_def)
next
  case (Cons e es)
  then obtain n where n: "fuel = Suc n" "length es \<le> n" by (cases fuel) auto
  have "dec (stream enc (e # es)) = DecOk e (stream enc es)"
    using assms(1) Cons.prems by (simp add: codec_ok_def)
  then show ?case using Cons.IH [OF _ n(2)] Cons.prems n(1) by (simp add: read_loop.simps [of "Suc n"])
qed

lemma readEntries_stream:
  assumes "codec_ok enc dec ok" and "list_all ok es" and "0 < limit"
  shows "readEntries dec (stream enc es) limit = Inr (last_n (nat limit) es)"
  using read_loop_stream [OF assms(1,2) stream_length [OF assms(1,2)]] push_last_fold [OF assms(3), of "[]"] assms(3)
  by (simp add: readEntries_def)

text \<open>File and buffer together hold the entries \<open>cs\<close>.\<close>

definition wal_rep :: "(WalEntry \<Rightarrow> string) \<Rightarrow> (WalEntry \<Rightarrow> bool) \<Rightarrow> WAL \<Rightarrow> WalEntry list \<Rightarrow> bool" where
  "wal_rep enc ok w cs \<longleftrightarrow> wl_open w \<and> wl_path w \<noteq> [] \<and> list_all ok cs \<and> 0 < wl_maxEntries w \<and>
     (\<exists>b. wl_writer w = Some b \<and> bu_err b = None \<and> length (bu_buf b) \<le> bufio_size \<and>
          wl_disk w @ bu_buf b = stream enc cs)"

text \<open>What the file operations leave alone.\<close>

definition wal_frame :: "WAL \<Rightarrow> WAL \<Rightarrow> bool" where
  "wal_frame w w' \<longleftrightarrow> wl_open w' = wl_open w \<and> wl_path w' = wl_path w \<and> wl_flushEvery w' = wl_flushEvery w \<and>
     wl_maxEntries w' = wl_maxEntries w \<and> wl_writes w' = wl_writes w"

lemma bufio_put_empty_ok:
  assumes "bu_err b = None" and "bu_buf b = []"
  shows "\<exists>b' d n. bufio_put_empty no_faults p b w = (Inr (), b', w\<lparr> wl_disk := d, wl_io := n \<rparr>) \<and>
    bu_err b' = None \<and> length (bu_buf b') \<le> bufio_size \<and> d @ bu_buf b' = wl_disk w @ p"
proof (cases "length p \<le> bufio_size")
  case True
  then show ?thesis using assms
    by (intro exI [of _ "b\<lparr> bu_buf := p \<rparr>"] exI [of _ "wl_disk w"] exI [of _ "wl_io w"])
      (simp add: bufio_put_empty_def)
next
  case False
  then show ?thesis using assms
    by (intro exI [of _ b] exI [of _ "wl_disk w @ p"] exI [of _ "Suc (wl_io w)"])
      (simp add: bufio_put_empty_def file_write_def no_faults_def)
qed

lemma bufio_flush_ok:
  assumes "bu_err b = None"
  shows "\<exists>n. bufio_flush no_faults b w = (Inr (), b\<lparr> bu_buf := [] \<rparr>, w\<lparr> wl_disk := wl_disk w @ bu_buf b, wl_io := n \<rparr>)"
  using assms by (cases "bu_buf b = []") (auto simp: bufio_flush_def file_write_def no_faults_def intro: exI [of _ "wl_io w"])

lemma bufio_write_ok:
  assumes "bu_err b = None" and "length (bu_buf b) \<le> bufio_size"
  shows "\<exists>b' d n. bufio_write no_faults p b w = (Inr (), b', w\<lparr> wl_disk := d, wl_io := n \<rparr>) \<and>
    bu_err b' = None \<and> length (bu_buf b') \<le> bufio_size \<and> d @ bu_buf b' = wl_disk w @ bu_buf b @ p"
proof -
  let ?k = "bufio_size - length (bu_buf b)"
  consider (fits) "length p \<le> ?k" | (empty) "\<not> length p \<le> ?k" "bu_buf b = []"
    | (flush) "\<not> length p \<le> ?k" "bu_buf b \<noteq> []" by blast
  then show ?thesis
  proof cases
    case fits
    then show ?thesis using assms
      by (intro exI [of _ "b\<lparr> bu_buf := bu_buf b @ p \<rparr>"] exI [of _ "wl_disk w"] exI [of _ "wl_io w"])
        (simp add: bufio_write_def)
  next
    case empty
    then show ?thesis using bufio_put_empty_ok [OF assms(1) empty(2), of p w] assms(1) by (simp add: bufio_write_def)
  next
    case flush
    let ?b = "b\<lparr> bu_buf := bu_buf b @ take ?k p \<rparr>"
    obtain n where fl: "bufio_flush no_faults ?b w =
        (Inr (), ?b\<lparr> bu_buf := [] \<rparr>, w\<lparr> wl_disk := wl_disk w @ bu_buf ?b, wl_io := n \<rparr>)"
      using bufio_flush_ok [of ?b w] assms(1) by auto
    have eq: "bufio_write no_faults p b w =
        bufio_put_empty no_faults (drop ?k p) (?b\<lparr> bu_buf := [] \<rparr>) (w\<lparr> wl_disk := wl_disk w @ bu_buf ?b, wl_io := n \<rparr>)"
      using flush assms(1) fl by (simp add: bufio_write_def Let_def)
    show ?thesis
      using bufio_put_empty_ok [of "?b\<lparr> bu_buf := [] \<rparr>" "drop ?k p" "w\<lparr> wl_disk := wl_disk w @ bu_buf ?b, wl_io := n \<rparr>"]
        assms(1) unfolding eq by simp
  qed
qed

lemma wal_encode_rep:
  assumes "wal_rep enc ok w cs" and "ok e"
  shows "\<exists>w'. wal_encode no_faults enc e w = (Inr (), w') \<and> wal_rep enc ok w' (cs @ [e]) \<and> wal_frame w w'"
proof -
  obtain b where b: "wl_writer w = Some b" "bu_err b = None" "length (bu_buf b) \<le> bufio_size"
    "wl_disk w @ bu_buf b = stream enc cs" using assms(1) by (auto simp: wal_rep_def)
  obtain b' d n where r: "bufio_write no_faults (enc e) b w = (Inr (), b', w\<lparr> wl_disk := d, wl_io := n \<rparr>)"
    "bu_err b' = None" "length (bu_buf b') \<le> bufio_size" "d @ bu_buf b' = wl_disk w @ bu_buf b @ enc e"
    using bufio_write_ok [OF b(2,3)] by blast
  have "d @ bu_buf b' = stream enc (cs @ [e])"
    using r(4) b(4) by (metis append.assoc append_Nil2 concat.simps concat_append list.map map_append)
  then show ?thesis
    using assms b(1) r by (simp add: wal_encode_def wal_rep_def wal_frame_def)
qed

definition wal_flushed :: "(WalEntry \<Rightarrow> string) \<Rightarrow> WAL \<Rightarrow> WalEntry list \<Rightarrow> bool" where
  "wal_flushed enc w cs \<longleftrightarrow> wl_disk w = stream enc cs"

lemma wal_flush_rep:
  assumes "wal_rep enc ok w cs"
  shows "\<exists>w'. wal_flush no_faults w = (Inr (), w') \<and> wal_rep enc ok w' cs \<and> wal_frame w w' \<and> wal_flushed enc w' cs"
proof -
  obtain b where b: "wl_writer w = Some b" "bu_err b = None" "wl_disk w @ bu_buf b = stream enc cs"
    using assms by (auto simp: wal_rep_def)
  obtain n where "bufio_flush no_faults b w = (Inr (), b\<lparr> bu_buf := [] \<rparr>, w\<lparr> wl_disk := wl_disk w @ bu_buf b, wl_io := n \<rparr>)"
    using bufio_flush_ok [OF b(2)] by blast
  then show ?thesis
    using assms b by (simp add: wal_flush_def wal_rep_def wal_frame_def wal_flushed_def)
qed

lemma file_op_rep:
  assumes "wal_rep enc ok w cs"
  shows "\<exists>w'. file_op no_faults w = (Inr (), w') \<and> wal_rep enc ok w' cs \<and> wal_frame w w' \<and> wl_disk w' = wl_disk w"
  using assms by (auto simp: file_op_def no_faults_def wal_rep_def wal_frame_def)

lemma wal_frame_trans: "wal_frame a b \<Longrightarrow> wal_frame b c \<Longrightarrow> wal_frame a c"
  by (simp add: wal_frame_def)

lemma seq_ok: "m w = (Inr x, w') \<Longrightarrow> seq m f w = f x w'"
  by (simp add: seq_def)

lemma encode_all_rep:
  assumes "wal_rep enc ok w cs" and "list_all ok es"
  shows "\<exists>w'. encode_all no_faults enc es w = (Inr (), w') \<and> wal_rep enc ok w' (cs @ es) \<and> wal_frame w w'"
  using assms
proof (induction es arbitrary: w cs)
  case Nil
  then show ?case by (simp add: wal_frame_def)
next
  case (Cons e es)
  obtain w1 where w1: "wal_encode no_faults enc e w = (Inr (), w1)" "wal_rep enc ok w1 (cs @ [e])" "wal_frame w w1"
    using wal_encode_rep [OF Cons.prems(1)] Cons.prems(2) by auto
  obtain w2 where "encode_all no_faults enc es w1 = (Inr (), w2)" "wal_rep enc ok w2 ((cs @ [e]) @ es)" "wal_frame w1 w2"
    using Cons.IH [OF w1(2)] Cons.prems(2) by auto
  then show ?case using w1 wal_frame_trans by (auto simp: seq_def)
qed

lemma list_all_last_n: "list_all P xs \<Longrightarrow> list_all P (last_n n xs)"
  by (auto simp: last_n_def list_all_iff dest: in_set_dropD)

text \<open>Compaction keeps the newest \<open>maxEntries\<close> entries, all of them on disk.\<close>

lemma compact_rep:
  assumes "codec_ok enc dec ok" and "wal_rep enc ok w cs"
  shows "\<exists>w'. compactLocked no_faults enc dec w = (Inr (), w') \<and>
    wal_rep enc ok w' (last_n (nat (wl_maxEntries w)) cs) \<and>
    wal_flushed enc w' (last_n (nat (wl_maxEntries w)) cs) \<and>
    wal_frame (w\<lparr> wl_writes := int (length (last_n (nat (wl_maxEntries w)) cs)) \<rparr>) w'"
proof -
  let ?es = "last_n (nat (wl_maxEntries w)) cs"
  have cs: "list_all ok cs" "wl_open w" "0 < wl_maxEntries w" using assms(2) by (simp_all add: wal_rep_def)
  obtain w1 where w1: "wal_flush no_faults w = (Inr (), w1)" "wal_rep enc ok w1 cs" "wal_frame w w1" "wal_flushed enc w1 cs"
    using wal_flush_rep [OF assms(2)] by blast
  obtain w2 where w2: "file_op no_faults w1 = (Inr (), w2)" "wal_rep enc ok w2 cs" "wal_frame w1 w2" "wl_disk w2 = wl_disk w1"
    using file_op_rep [OF w1(2)] by blast
  have rd: "readEntries dec (wl_disk w2) (wl_maxEntries w2) = Inr ?es"
    using readEntries_stream [OF assms(1) cs(1,3)] w1(3,4) w2(3,4) by (simp add: wal_flushed_def wal_frame_def)
  obtain w3 where w3: "file_op no_faults w2 = (Inr (), w3)" "wal_rep enc ok w3 cs" "wal_frame w2 w3"
    using file_op_rep [OF w2(2)] by blast
  define w4 where "w4 = w3\<lparr> wl_disk := [], wl_io := Suc (wl_io w3), wl_writer := Some new_writer \<rparr>"
  have op4: "file_op no_faults (w3\<lparr> wl_disk := [] \<rparr>) = (Inr (), w3\<lparr> wl_disk := [], wl_io := Suc (wl_io w3) \<rparr>)"
    by (simp add: file_op_def no_faults_def)
  have w4: "wal_rep enc ok w4 []" "wal_frame w3 w4"
    using w3(2) by (simp_all add: w4_def wal_rep_def new_writer_def wal_frame_def)
  obtain w5 where w5: "encode_all no_faults enc ?es w4 = (Inr (), w5)" "wal_rep enc ok w5 ?es" "wal_frame w4 w5"
    using encode_all_rep [OF w4(1) list_all_last_n [OF cs(1)]] by auto
  obtain w6 where w6: "wal_flush no_faults w5 = (Inr (), w6)" "wal_rep enc ok w6 ?es" "wal_frame w5 w6" "wal_flushed enc w6 ?es"
    using wal_flush_rep [OF w5(2)] by blast
  obtain w7 where w7: "file_op no_faults w6 = (Inr (), w7)" "wal_rep enc ok w7 ?es" "wal_frame w6 w7" "wl_disk w7 = wl_disk w6"
    using file_op_rep [OF w6(2)] by blast
  have "compactLocked no_faults enc dec w = (Inr (), w7\<lparr> wl_writes := int (length ?es) \<rparr>)"
    using cs(2) w1(1) w2(1) rd w3(1) op4 w5(1) w6(1) w7(1)
    by (simp add: compactLocked_def seq_def w4_def)
  moreover have "wal_frame w w7"
    using wal_frame_trans w1(3) w2(3) w3(3) w4(2) w5(3) w6(3) w7(3) by meson
  ultimately show ?thesis
    using w7(2,4) w6(4) by (simp add: wal_rep_def wal_flushed_def wal_frame_def)
qed

lemma flush_sync_rep:
  assumes "wal_rep enc ok w cs"
  shows "\<exists>w'. (if c then seq (wal_flush no_faults) (\<lambda>_. file_op no_faults) w else (Inr (), w)) = (Inr (), w') \<and>
    wal_rep enc ok w' cs \<and> wal_frame w w' \<and> (c \<longrightarrow> wal_flushed enc w' cs)"
proof (cases c)
  case True
  obtain w1 where w1: "wal_flush no_faults w = (Inr (), w1)" "wal_rep enc ok w1 cs" "wal_frame w w1" "wal_flushed enc w1 cs"
    using wal_flush_rep [OF assms] by blast
  obtain w2 where "file_op no_faults w1 = (Inr (), w2)" "wal_rep enc ok w2 cs" "wal_frame w1 w2" "wl_disk w2 = wl_disk w1"
    using file_op_rep [OF w1(2)] by blast
  then show ?thesis using True w1 wal_frame_trans by (auto simp: seq_def wal_flushed_def)
next
  case False
  then show ?thesis using assms by (simp add: wal_frame_def)
qed

text \<open>The configuration never changes; the counter is bounded by twice the number kept.\<close>

definition wal_cfg :: "WAL \<Rightarrow> WAL \<Rightarrow> bool" where
  "wal_cfg w w' \<longleftrightarrow> wl_maxEntries w' = wl_maxEntries w \<and> wl_flushEvery w' = wl_flushEvery w"

lemma wal_rep_writes [simp]: "wal_rep enc ok (w\<lparr> wl_writes := n \<rparr>) cs \<longleftrightarrow> wal_rep enc ok w cs"
  by (simp add: wal_rep_def)

lemma append_rep:
  assumes "codec_ok enc dec ok" and "wal_rep enc ok w cs" and "ok \<lparr> we_Kind = kind, we_Time = now, we_Data = body \<rparr>"
  shows "\<exists>w' cs'. AppendEncoded no_faults enc dec now kind body w = (Inr (), w') \<and> wal_rep enc ok w' cs' \<and> wal_cfg w w' \<and>
    (kind = ''checkpoint'' \<longrightarrow> wal_flushed enc w' cs') \<and>
    (let e = \<lparr> we_Kind = kind, we_Time = now, we_Data = body \<rparr> in
       cs' = cs @ [e] \<and> wl_writes w' = wl_writes w + 1 \<and> wl_writes w' \<le> 2 * wl_maxEntries w \<or>
       cs' = last_n (nat (wl_maxEntries w)) (cs @ [e]) \<and> wl_writes w' = int (length cs'))"
proof -
  let ?e = "\<lparr> we_Kind = kind, we_Time = now, we_Data = body \<rparr>"
  have op: "wl_open w" "0 < wl_maxEntries w" using assms(2) by (simp_all add: wal_rep_def)
  obtain w1 where w1: "wal_encode no_faults enc ?e w = (Inr (), w1)" "wal_rep enc ok w1 (cs @ [?e])" "wal_frame w w1"
    using wal_encode_rep [OF assms(2,3)] by blast
  define w2 where "w2 = w1\<lparr> wl_writes := wl_writes w1 + 1 \<rparr>"
  define fl where "fl = (\<lambda>w3. if kind = ''checkpoint'' \<or> wl_writes w3 mod wl_flushEvery w3 = 0
    then seq (wal_flush no_faults) (\<lambda>_. file_op no_faults) w3 else (Inr (), w3))"
  have rep2: "wal_rep enc ok w2 (cs @ [?e])" using w1(2) by (simp add: w2_def)
  obtain w3 where w3: "fl w2 = (Inr (), w3)" "wal_rep enc ok w3 (cs @ [?e])" "wal_frame w2 w3"
    "kind = ''checkpoint'' \<longrightarrow> wal_flushed enc w3 (cs @ [?e])"
    using flush_sync_rep [OF rep2, of "kind = ''checkpoint'' \<or> wl_writes w2 mod wl_flushEvery w2 = 0"]
    by (auto simp: fl_def)
  have eq: "AppendEncoded no_faults enc dec now kind body w =
      (if wl_maxEntries w3 > 0 \<and> wl_writes w3 > wrap64 (wl_maxEntries w3 * 2) then compactLocked no_faults enc dec w3 else (Inr (), w3))"
    using op(1) w1(1) w3(1) by (simp add: AppendEncoded_def seq_def Let_def w2_def fl_def)
  have fr: "wl_maxEntries w3 = wl_maxEntries w" "wl_flushEvery w3 = wl_flushEvery w" "wl_writes w3 = wl_writes w + 1"
    using w3(3) w1(3) by (simp_all add: wal_frame_def w2_def)
  show ?thesis
  proof (cases "wl_writes w3 > wrap64 (wl_maxEntries w3 * 2)")
    case True
    then show ?thesis
      using compact_rep [OF assms(1) w3(2)] eq op(2) fr by (auto simp: wal_frame_def wal_cfg_def Let_def)
  next
    case False
    then have "wl_writes w3 \<le> 2 * wl_maxEntries w" using wrap64_le [of "wl_maxEntries w * 2"] op(2) fr(1) by simp
    then show ?thesis using False eq w3(2,4) fr by (auto simp: wal_cfg_def Let_def)
  qed
qed

section \<open>Histories\<close>

type_synonym wal_call = "gtime \<times> string \<times> string"

fun call_entry :: "wal_call \<Rightarrow> WalEntry" where
  "call_entry (now, kind, body) = \<lparr> we_Kind = kind, we_Time = now, we_Data = body \<rparr>"

fun append_all ::
  "io_oracle \<Rightarrow> (WalEntry \<Rightarrow> string) \<Rightarrow> (string \<Rightarrow> dec_result) \<Rightarrow> wal_call list \<Rightarrow> WAL \<Rightarrow> (string + unit) \<times> WAL" where
  "append_all io enc dec [] w = (Inr (), w)"
| "append_all io enc dec ((now, kind, body) # cs) w =
     seq (AppendEncoded io enc dec now kind body) (\<lambda>_. append_all io enc dec cs) w"

text \<open>
  The log holds a suffix of the whole history \<open>hs\<close>, at least its newest \<open>maxEntries\<close>; it held
  \<open>k\<close> entries when it was opened.
\<close>

definition wal_holds ::
  "(WalEntry \<Rightarrow> string) \<Rightarrow> (WalEntry \<Rightarrow> bool) \<Rightarrow> nat \<Rightarrow> WAL \<Rightarrow> WalEntry list \<Rightarrow> WalEntry list \<Rightarrow> bool" where
  "wal_holds enc ok k w hs cs \<longleftrightarrow> wal_rep enc ok w cs \<and> (\<exists>n. cs = last_n n hs) \<and>
     min (length hs) (nat (wl_maxEntries w)) \<le> length cs \<and>
     int (length cs) \<le> wl_writes w + int k \<and> wl_writes w \<le> 2 * wl_maxEntries w"

lemma length_last_n [simp]: "length (last_n n xs) = min n (length xs)"
  by (simp add: last_n_def)

lemma last_n_last_n: "last_n m (last_n n xs) = last_n (min m n) xs"
  by (cases "n \<le> length xs") (auto simp: last_n_def min_def intro: arg_cong [where f = "\<lambda>i. drop i xs"])

lemma last_n_snoc: "last_n n xs @ [x] = last_n (Suc (min n (length xs))) (xs @ [x])"
  by (auto simp: last_n_def min_def)

lemma append_holds:
  assumes "codec_ok enc dec ok" and "wal_holds enc ok k w hs cs" and "ok (call_entry (now, kind, body))"
  shows "\<exists>w' cs'. AppendEncoded no_faults enc dec now kind body w = (Inr (), w') \<and>
    wal_holds enc ok k w' (hs @ [call_entry (now, kind, body)]) cs' \<and> wal_cfg w w' \<and>
    (kind = ''checkpoint'' \<longrightarrow> wal_flushed enc w' cs')"
proof -
  let ?e = "\<lparr> we_Kind = kind, we_Time = now, we_Data = body \<rparr>"
  obtain n where rep: "wal_rep enc ok w cs" and n: "cs = last_n n hs"
    and len: "min (length hs) (nat (wl_maxEntries w)) \<le> length cs"
    and k: "int (length cs) \<le> wl_writes w + int k" "0 < wl_maxEntries w"
    using assms(2) by (auto simp: wal_holds_def wal_rep_def)
  have okE: "ok ?e" using assms(3) by simp
  obtain w' cs' where w': "AppendEncoded no_faults enc dec now kind body w = (Inr (), w')" "wal_rep enc ok w' cs'"
      "wal_cfg w w'" "kind = ''checkpoint'' \<longrightarrow> wal_flushed enc w' cs'"
    and cs': "cs' = cs @ [?e] \<and> wl_writes w' = wl_writes w + 1 \<and> wl_writes w' \<le> 2 * wl_maxEntries w \<or>
       cs' = last_n (nat (wl_maxEntries w)) (cs @ [?e]) \<and> wl_writes w' = int (length cs')"
    using append_rep [OF assms(1) rep okE] unfolding Let_def by blast
  have suf: "cs @ [?e] = last_n (Suc (min n (length hs))) (hs @ [?e])"
    unfolding n by (rule last_n_snoc)
  have "wal_holds enc ok k w' (hs @ [?e]) cs'"
    using cs'
  proof
    assume c: "cs' = cs @ [?e] \<and> wl_writes w' = wl_writes w + 1 \<and> wl_writes w' \<le> 2 * wl_maxEntries w"
    have "length cs' = Suc (length cs)" using c by simp
    moreover have "\<exists>n. cs' = last_n n (hs @ [?e])" using suf c by metis
    ultimately show ?thesis
      using w'(2,3) len k c unfolding wal_holds_def wal_cfg_def by simp
  next
    assume c: "cs' = last_n (nat (wl_maxEntries w)) (cs @ [?e]) \<and> wl_writes w' = int (length cs')"
    then have "cs' = last_n (min (nat (wl_maxEntries w)) (Suc (min n (length hs)))) (hs @ [?e])"
      unfolding suf last_n_last_n by simp
    moreover have "min (length (hs @ [?e])) (nat (wl_maxEntries w)) \<le> length cs'"
      using c len by simp
    moreover have "wl_writes w' \<le> 2 * wl_maxEntries w" using c k(2) by simp
    moreover have "int (length cs') \<le> wl_writes w' + int k" using c by simp
    ultimately show ?thesis
      using w'(2,3) unfolding wal_holds_def wal_cfg_def by metis
  qed
  then show ?thesis using w' by (intro exI) simp
qed

lemma append_all_holds:
  assumes "codec_ok enc dec ok" and "wal_holds enc ok k w hs cs" and "list_all (\<lambda>c. ok (call_entry c)) calls"
  shows "\<exists>w' cs'. append_all no_faults enc dec calls w = (Inr (), w') \<and>
    wal_holds enc ok k w' (hs @ map call_entry calls) cs' \<and> wal_cfg w w' \<and>
    (calls \<noteq> [] \<and> we_Kind (call_entry (last calls)) = ''checkpoint'' \<longrightarrow> wal_flushed enc w' cs')"
  using assms(2,3)
proof (induction calls arbitrary: w hs cs)
  case Nil
  then show ?case by (auto simp: wal_cfg_def)
next
  case (Cons c calls)
  obtain now kind body where c: "c = (now, kind, body)" by (cases c)
  obtain w1 cs1 where w1: "AppendEncoded no_faults enc dec now kind body w = (Inr (), w1)"
    "wal_holds enc ok k w1 (hs @ [call_entry c]) cs1" "wal_cfg w w1" "kind = ''checkpoint'' \<longrightarrow> wal_flushed enc w1 cs1"
    using append_holds [OF assms(1) Cons.prems(1), of now kind body] Cons.prems(2) c by auto
  obtain w2 cs2 where w2: "append_all no_faults enc dec calls w1 = (Inr (), w2)"
    "wal_holds enc ok k w2 ((hs @ [call_entry c]) @ map call_entry calls) cs2" "wal_cfg w1 w2"
    "calls \<noteq> [] \<and> we_Kind (call_entry (last calls)) = ''checkpoint'' \<longrightarrow> wal_flushed enc w2 cs2"
    using Cons.IH [OF w1(2)] Cons.prems(2) by auto
  have all: "append_all no_faults enc dec (c # calls) w = (Inr (), w2)" using c w1(1) w2(1) by (simp add: seq_def)
  have cfg: "wal_cfg w w2" using w1(3) w2(3) by (simp add: wal_cfg_def)
  show ?case
  proof (cases "calls = []")
    case True
    then have "w2 = w1" using w2(1) by simp
    then show ?thesis using all cfg True w1 c by (intro exI [of _ w1] exI [of _ cs1]) simp
  next
    case False
    then show ?thesis using all cfg w2 by (intro exI [of _ w2] exI [of _ cs2]) simp
  qed
qed

lemma open_holds:
  assumes "wal_Open path flushEvery maxEntries (stream enc cs) None None = Inr w" and "path \<noteq> []" and "list_all ok cs"
  shows "wal_holds enc ok (length cs) w cs cs"
  using assms by (auto simp: wal_Open_def wal_holds_def wal_rep_def new_writer_def last_n_def split: if_splits intro: exI [of _ "length cs"])

lemma ReadAll_holds:
  assumes "codec_ok enc dec ok" and "wal_holds enc ok k w hs cs" and "0 < limit" and "limit \<le> wl_maxEntries w"
  shows "fst (ReadAll no_faults dec limit w) = Inr (last_n (nat limit) hs)"
proof -
  obtain n where rep: "wal_rep enc ok w cs" and n: "cs = last_n n hs"
    and len: "min (length hs) (nat (wl_maxEntries w)) \<le> length cs"
    using assms(2) by (auto simp: wal_holds_def)
  have path: "wl_path w \<noteq> []" "list_all ok cs" using rep by (simp_all add: wal_rep_def)
  obtain w1 where w1: "wal_flush no_faults w = (Inr (), w1)" "wal_rep enc ok w1 cs" "wal_flushed enc w1 cs"
    using wal_flush_rep [OF rep] by blast
  obtain w2 where w2: "file_op no_faults w1 = (Inr (), w2)" "wl_disk w2 = wl_disk w1"
    using file_op_rep [OF w1(2)] by blast
  have "fst (ReadAll no_faults dec limit w) = Inr (last_n (nat limit) cs)"
    using path(1) w1(1,3) w2 readEntries_stream [OF assms(1) path(2) assms(3)] assms(3)
    by (simp add: ReadAll_def seq_def wal_flushed_def)
  moreover have "last_n (nat limit) cs = last_n (nat limit) hs"
  proof (cases "nat limit \<le> n")
    case True
    then show ?thesis unfolding n last_n_last_n by simp
  next
    case False
    then have "n < nat (wl_maxEntries w)" using assms(4) by simp
    then have "length hs \<le> n" using len unfolding n by auto
    then show ?thesis unfolding n last_n_last_n using False by (simp add: last_n_def)
  qed
  ultimately show ?thesis by simp
qed

text \<open>
  C8: (wal.go) with working files and a decoder that reads back what the encoder wrote, every
  append on an opened log succeeds; reading back at most \<open>maxEntries\<close> entries returns exactly the
  newest ones ever appended, whatever buffering, flushing and compaction happened in between;
  the file never holds more than twice \<open>maxEntries\<close> entries beyond what it was opened with; and when
  the last append was a checkpoint, all that the log holds is already in the file.
\<close>

theorem wal_reads_back:
  assumes "codec_ok enc dec ok" and "path \<noteq> []"
    and "wal_Open path flushEvery maxEntries (stream enc old) None None = Inr w0"
    and "list_all ok old" and "list_all (\<lambda>c. ok (call_entry c)) calls"
    and "0 < limit" and "limit \<le> wl_maxEntries w0"
  shows "\<exists>w cs. append_all no_faults enc dec calls w0 = (Inr (), w) \<and>
    fst (ReadAll no_faults dec limit w) = Inr (last_n (nat limit) (old @ map call_entry calls)) \<and>
    int (length cs) \<le> 2 * wl_maxEntries w0 + int (length old) \<and>
    (calls \<noteq> [] \<and> we_Kind (call_entry (last calls)) = ''checkpoint'' \<longrightarrow>
       wl_disk w = stream enc cs \<and> last_n (nat limit) cs = last_n (nat limit) (old @ map call_entry calls))"
proof -
  obtain w cs where w: "append_all no_faults enc dec calls w0 = (Inr (), w)"
    "wal_holds enc ok (length old) w (old @ map call_entry calls) cs" "wal_cfg w0 w"
    "calls \<noteq> [] \<and> we_Kind (call_entry (last calls)) = ''checkpoint'' \<longrightarrow> wal_flushed enc w cs"
    using append_all_holds [OF assms(1) open_holds [OF assms(3,2,4)] assms(5)] by blast
  have lim: "limit \<le> wl_maxEntries w" using w(3) assms(7) by (simp add: wal_cfg_def)
  have "int (length cs) \<le> 2 * wl_maxEntries w0 + int (length old)"
    using w(2,3) by (simp add: wal_holds_def wal_cfg_def)
  moreover have "wal_holds enc ok (length old) w cs cs"
    using w(2) by (auto simp: wal_holds_def last_n_def intro: exI [of _ "length cs"])
  ultimately show ?thesis
    using w(1,4) ReadAll_holds [OF assms(1) w(2) assms(6) lim] ReadAll_holds [OF assms(1) _ assms(6) lim]
    unfolding wal_flushed_def by (intro exI [of _ w] exI [of _ cs]) auto
qed

definition demo_enc :: "WalEntry \<Rightarrow> string" where
  "demo_enc e = (if we_Kind e = ''checkpoint'' then ''c'' else ''e'')"

definition demo_wal_ok :: "WalEntry \<Rightarrow> bool" where
  "demo_wal_ok e \<longleftrightarrow> e = call_entry (1, ''checkpoint'', []) \<or> e = call_entry (1, ''event'', [])"

fun demo_dec :: "string \<Rightarrow> dec_result" where
  "demo_dec [] = DecEOF"
| "demo_dec (c # s) = DecOk (call_entry (1, if c = CHR ''c'' then ''checkpoint'' else ''event'', [])) s"

lemma demo_codec: "codec_ok demo_enc demo_dec demo_wal_ok"
  by (auto simp: codec_ok_def demo_enc_def demo_wal_ok_def)

theorem wal_reads_back_witness:
  "\<exists>w0 w. wal_Open ''wal'' 2 1 [] None None = Inr w0 \<and>
     append_all no_faults demo_enc demo_dec [(1, ''event'', []), (1, ''event'', []), (1, ''checkpoint'', [])] w0 = (Inr (), w) \<and>
     fst (ReadAll no_faults demo_dec 1 w) = Inr [call_entry (1, ''checkpoint'', [])]"
proof -
  obtain w0 where w0: "wal_Open ''wal'' 2 1 (stream demo_enc []) None None = Inr w0" by (simp add: wal_Open_def)
  then have m: "1 \<le> wl_maxEntries w0" by (auto simp: wal_Open_def)
  show ?thesis
    using wal_reads_back [OF demo_codec _ w0, of "[(1, ''event'', []), (1, ''event'', []), (1, ''checkpoint'', [])]" 1] m w0
    by (auto simp: demo_wal_ok_def last_n_def)
qed

text \<open>
  Compaction truncates the file before it writes the kept entries back: when that write
  fails, the log on disk is gone although \<^verbatim>\<open>compactLocked\<close> reports an error.
\<close>

lemma failed_compaction_empties_log:
  "\<exists>w. compactLocked (\<lambda>n. if n = 3 then Some (0, ''disk full'') else None) demo_enc demo_dec
      \<lparr> wl_path = ''wal'', wl_open = True, wl_disk = ''eec'', wl_writer = Some new_writer, wl_flushEvery = 1,
        wl_maxEntries = 5, wl_writes = 3, wl_io = 0 \<rparr> = (Inl ''disk full'', w) \<and> wl_disk w = []"
  by (simp add: compactLocked_def seq_def wal_flush_def bufio_flush_def new_writer_def file_op_def readEntries_def
      read_loop.simps push_last_def wal_encode_def bufio_write_def demo_enc_def bufio_size_def file_write_def)

end
