(* ===== verification/Relay_Merkle.thy ===== *)
theory Relay_Merkle
  imports Relay_Model
begin

text \<open>
  The commitment of \<^verbatim>\<open>mev/relay/v3/internal/commitment/merkle.go\<close>: a binary tree of SHA-256 digests
  whose odd nodes are paired with themselves. SHA-256 is the parameter \<open>sha\<close>; all that is used
  of it is that its digests have 32 bytes. The main lemma extracts from two different
  leaf lists of the same length and the same root two different inputs with the same digest.
\<close>

section \<open>The tree\<close>

fun merkle_next :: "(string \<Rightarrow> string) \<Rightarrow> string list \<Rightarrow> string list" where
  "merkle_next sha [] = []"
| "merkle_next sha [a] = [sha (a @ a)]"
| "merkle_next sha (a # b # rest) = sha (a @ b) # merkle_next sha rest"

lemma length_merkle_next [simp]: "length (merkle_next sha xs) = (length xs + 1) div 2"
  by (induction sha xs rule: merkle_next.induct) auto

function merkle_loop :: "(string \<Rightarrow> string) \<Rightarrow> string list \<Rightarrow> string list" where
  "merkle_loop sha layer = (if length layer > 1 then merkle_loop sha (merkle_next sha layer) else layer)"
  by pat_completeness auto
termination
  by (relation "measure (\<lambda>(sha, layer). length layer)") auto

declare merkle_loop.simps [simp del]

definition Root :: "(string \<Rightarrow> string) \<Rightarrow> string list \<Rightarrow> string" where
  "Root sha leaves =
     (if leaves = [] then replicate 32 (CHR 0x00) else hd (merkle_loop sha (map sha leaves)))"

section \<open>Binding\<close>

text \<open>Everything that is hashed on the way from a layer to the root.\<close>

fun pair_inputs :: "string list \<Rightarrow> string list" where
  "pair_inputs [] = []"
| "pair_inputs [a] = [a @ a]"
| "pair_inputs (a # b # rest) = (a @ b) # pair_inputs rest"

function layer_inputs :: "(string \<Rightarrow> string) \<Rightarrow> string list \<Rightarrow> string list" where
  "layer_inputs sha layer =
     (if length layer > 1 then pair_inputs layer @ layer_inputs sha (merkle_next sha layer) else [])"
  by pat_completeness auto
termination
  by (relation "measure (\<lambda>(sha, layer). length layer)") auto

declare layer_inputs.simps [simp del]

definition root_inputs :: "(string \<Rightarrow> string) \<Rightarrow> string list \<Rightarrow> string list" where
  "root_inputs sha leaves = leaves @ layer_inputs sha (map sha leaves)"

definition collides :: "(string \<Rightarrow> string) \<Rightarrow> string list \<Rightarrow> string list \<Rightarrow> bool" where
  "collides sha xs ys \<longleftrightarrow> (\<exists>x\<in>set xs. \<exists>y\<in>set ys. x \<noteq> y \<and> sha x = sha y)"

lemma collides_append [intro]:
  "collides sha xs ys \<Longrightarrow> collides sha (xs @ xs') (ys @ ys')"
  "collides sha xs ys \<Longrightarrow> collides sha (xs' @ xs) (ys' @ ys)"
  unfolding collides_def by auto

lemma length_pair_inputs [simp]: "length (pair_inputs xs) = (length xs + 1) div 2"
  by (induction xs rule: pair_inputs.induct) auto

lemma merkle_next_map: "merkle_next sha xs = map sha (pair_inputs xs)"
  by (induction xs rule: pair_inputs.induct) auto

lemma map_eq_or_collides: "map sha xs = map sha ys \<Longrightarrow> xs = ys \<or> collides sha xs ys"
proof (induction xs arbitrary: ys)
  case (Cons x xs)
  then obtain y ys' where ys: "ys = y # ys'" "sha x = sha y" "map sha xs = map sha ys'" by (cases ys) auto
  then show ?case using Cons.IH [OF ys(3)] by (auto simp: collides_def)
qed simp

abbreviation digests :: "string list \<Rightarrow> bool" where
  "digests xs \<equiv> list_all (\<lambda>d. length d = 32) xs"

lemma pair_inputs_inj:
  "length xs = length ys \<Longrightarrow> digests xs \<Longrightarrow> digests ys \<Longrightarrow> pair_inputs xs = pair_inputs ys \<Longrightarrow> xs = ys"
proof (induction xs arbitrary: ys rule: pair_inputs.induct)
  case (2 a)
  then show ?case by (cases ys) auto
next
  case (3 a b rest)
  then obtain c d rest' where ys: "ys = c # d # rest'" by (cases ys rule: pair_inputs.cases) auto
  then show ?case using 3 by auto
qed simp

lemma layer_binding:
  assumes "\<And>x. length (sha x) = 32"
  shows "length xs = length ys \<Longrightarrow> digests xs \<Longrightarrow> digests ys \<Longrightarrow> merkle_loop sha xs = merkle_loop sha ys \<Longrightarrow>
    xs = ys \<or> collides sha (layer_inputs sha xs) (layer_inputs sha ys)"
proof (induction "length xs" arbitrary: xs ys rule: less_induct)
  case less
  show ?case
  proof (cases "length xs > 1")
    case False
    then show ?thesis using less.prems by (simp add: merkle_loop.simps)
  next
    case True
    let ?nx = "merkle_next sha xs" and ?ny = "merkle_next sha ys"
    have loops: "merkle_loop sha ?nx = merkle_loop sha ?ny"
      using less.prems(1,4) True by (simp add: merkle_loop.simps [of sha xs] merkle_loop.simps [of sha ys])
    have inputs: "layer_inputs sha xs = pair_inputs xs @ layer_inputs sha ?nx"
      "layer_inputs sha ys = pair_inputs ys @ layer_inputs sha ?ny"
      using True less.prems(1) by (simp_all add: layer_inputs.simps [of sha xs] layer_inputs.simps [of sha ys])
    have "?nx = ?ny \<or> collides sha (layer_inputs sha ?nx) (layer_inputs sha ?ny)"
      using True less.prems(1) assms loops by (intro less.hyps) (simp_all add: merkle_next_map list_all_iff)
    then show ?thesis
    proof
      assume "?nx = ?ny"
      then have "pair_inputs xs = pair_inputs ys \<or> collides sha (pair_inputs xs) (pair_inputs ys)"
        unfolding merkle_next_map by (rule map_eq_or_collides)
      then show ?thesis
        using pair_inputs_inj [OF less.prems(1-3)] by (auto simp: inputs)
    next
      assume "collides sha (layer_inputs sha ?nx) (layer_inputs sha ?ny)"
      then show ?thesis by (auto simp: inputs)
    qed
  qed
qed

lemma length_merkle_loop: "xs \<noteq> [] \<Longrightarrow> length (merkle_loop sha xs) = 1"
proof (induction sha xs rule: merkle_loop.induct)
  case (1 sha xs)
  show ?case
  proof (cases "length xs > 1")
    case True
    then have "merkle_next sha xs \<noteq> []" by (cases xs rule: pair_inputs.cases) simp_all
    then show ?thesis using 1(1) True by (simp add: merkle_loop.simps [of sha xs])
  next
    case False
    then show ?thesis using 1(2) by (cases xs) (simp_all add: merkle_loop.simps [of sha])
  qed
qed

text \<open>
  C29: (merkle.go) the root of a checkpoint together with its event count binds the events. If two
  lists of as many leaves have the same root, they are the same list, or two different inputs
  that were hashed while computing the two roots have the same digest.
\<close>

theorem root_binds_leaves:
  assumes "\<And>x. length (sha x) = 32" and "length xs = length ys" and "Root sha xs = Root sha ys"
  shows "xs = ys \<or> collides sha (root_inputs sha xs) (root_inputs sha ys)"
proof (cases "xs = []")
  case False
  let ?lx = "map sha xs" and ?ly = "map sha ys"
  have ne: "?lx \<noteq> []" "?ly \<noteq> []" "ys \<noteq> []" using False assms(2) by auto
  have "merkle_loop sha ?lx = [Root sha xs]" "merkle_loop sha ?ly = [Root sha ys]"
    using length_merkle_loop [OF ne(1), of sha] length_merkle_loop [OF ne(2), of sha] False ne(3)
    by (auto simp: Root_def length_Suc_conv)
  then have "merkle_loop sha ?lx = merkle_loop sha ?ly" using assms(3) by simp
  then have "?lx = ?ly \<or> collides sha (layer_inputs sha ?lx) (layer_inputs sha ?ly)"
    using assms(1,2) by (intro layer_binding) (simp_all add: list_all_iff)
  then show ?thesis
    using map_eq_or_collides [of sha xs ys] by (auto simp: root_inputs_def)
qed (use assms(2) in simp)

definition demo_sha :: "string \<Rightarrow> string" where
  "demo_sha x = take 32 (x @ replicate 32 (CHR ''x''))"

theorem root_binds_leaves_witness:
  "Root demo_sha [''a''] = Root demo_sha [''ax''] \<and>
   collides demo_sha (root_inputs demo_sha [''a'']) (root_inputs demo_sha [''ax''])"
proof -
  have len: "\<And>x. length (demo_sha x) = 32" by (simp add: demo_sha_def)
  have eq: "demo_sha ''a'' = demo_sha ''ax''" by (simp add: demo_sha_def numeral_eq_Suc)
  then have root: "Root demo_sha [''a''] = Root demo_sha [''ax'']" by (simp add: Root_def merkle_loop.simps)
  show ?thesis using root_binds_leaves [OF len, of "[''a'']" "[''ax'']"] root by simp
qed

text \<open>
  Without the count the root binds nothing: repeating the last of an odd number of leaves does
  not change it.
\<close>

lemma repeated_last_leaf: "Root sha [a, b, c] = Root sha [a, b, c, c]"
  by (simp add: Root_def merkle_loop.simps)

end
