(* ===== verification/Relay_Store_Inv.thy ===== *)
theory Relay_Store_Inv
  imports Relay_Store
begin

text \<open>
  What the state store promises. The interface is the locale \<open>bundle_store\<close>: whatever operation
  runs, each bundle makes a \<open>record_step\<close> (it is created, dropped, or changed along the life
  cycle with its identity kept and its version growing). From this the locale derives the
  history of a bundle over any sequence of operations. The in-memory store is an instance,
  with \<open>mem_op\<close> the calls of its methods; its invariant \<open>store_inv\<close> ties the hash index
  to the records and keeps the maps the store prunes or guards within its limit.
\<close>

section \<open>The interface\<close>

definition record_step :: "BundleRecord option \<Rightarrow> BundleRecord option \<Rightarrow> bool" where
  "record_step old new =
     (case (old, new) of
        (None, None) \<Rightarrow> True
      | (None, Some r) \<Rightarrow> True
      | (Some r, None) \<Rightarrow> True
      | (Some r, Some r') \<Rightarrow>
          bd_ID r' = bd_ID r \<and> bd_BundleHash r' = bd_BundleHash r \<and> bd_ClientID r' = bd_ClientID r \<and>
          bd_Request r' = bd_Request r \<and>
          (r' = r \<or> bd_Version r < bd_Version r' \<and>
             (bd_State r' = bd_State r \<or> CanTransition (bd_State r) (bd_State r'))))"

lemma record_step_refl [simp]: "record_step r r"
  by (cases r) (simp_all add: record_step_def)

lemma record_step_Some:
  "record_step (Some r) (Some r') \<longleftrightarrow>
     bd_ID r' = bd_ID r \<and> bd_BundleHash r' = bd_BundleHash r \<and> bd_ClientID r' = bd_ClientID r \<and>
     bd_Request r' = bd_Request r \<and>
     (r' = r \<or> bd_Version r < bd_Version r' \<and>
        (bd_State r' = bd_State r \<or> CanTransition (bd_State r) (bd_State r')))"
  by (simp add: record_step_def)

lemma record_step_None [simp]: "record_step None r" "record_step r None"
  by (cases r; simp add: record_step_def)+

locale bundle_store =
  fixes inv :: "'s \<Rightarrow> bool" and ok :: "'op \<Rightarrow> 's \<Rightarrow> bool"
    and lookup :: "string \<Rightarrow> 's \<Rightarrow> BundleRecord option" and run :: "'op \<Rightarrow> 's \<Rightarrow> 's"
  assumes run_inv: "inv s \<Longrightarrow> ok op s \<Longrightarrow> inv (run op s)"
    and run_step: "inv s \<Longrightarrow> ok op s \<Longrightarrow> record_step (lookup bid s) (lookup bid (run op s))"
begin

fun run_all :: "'op list \<Rightarrow> 's \<Rightarrow> 's" where
  "run_all [] s = s"
| "run_all (op # ops) s = run_all ops (run op s)"

fun ok_all :: "'op list \<Rightarrow> 's \<Rightarrow> bool" where
  "ok_all [] s = True"
| "ok_all (op # ops) s = (ok op s \<and> ok_all ops (run op s))"

text \<open>The bundle is there before and after every operation of the sequence.\<close>

fun always_present :: "string \<Rightarrow> 'op list \<Rightarrow> 's \<Rightarrow> bool" where
  "always_present bid [] s = (lookup bid s \<noteq> None)"
| "always_present bid (op # ops) s = (lookup bid s \<noteq> None \<and> always_present bid ops (run op s))"

lemma run_all_inv: "inv s \<Longrightarrow> ok_all ops s \<Longrightarrow> inv (run_all ops s)"
  by (induction ops s rule: run_all.induct) (auto intro: run_inv)

lemma history:
  assumes "inv s" and "ok_all ops s" and "always_present bid ops s"
    and "lookup bid s = Some r" and "lookup bid (run_all ops s) = Some r'"
  shows "CanTransition\<^sup>*\<^sup>* (bd_State r) (bd_State r') \<and> bd_Version r \<le> bd_Version r' \<and>
         bd_BundleHash r' = bd_BundleHash r \<and> bd_ClientID r' = bd_ClientID r"
  using assms
proof (induction ops s arbitrary: r rule: run_all.induct)
  case (1 s)
  then show ?case by simp
next
  case (2 op ops s)
  obtain r1 where r1: "lookup bid (run op s) = Some r1"
    using "2.prems"(3) by (cases ops) auto
  have step: "record_step (Some r) (Some r1)" using run_step [of s op bid] "2.prems" r1 by simp
  have "CanTransition\<^sup>*\<^sup>* (bd_State r1) (bd_State r') \<and> bd_Version r1 \<le> bd_Version r' \<and>
      bd_BundleHash r' = bd_BundleHash r1 \<and> bd_ClientID r' = bd_ClientID r1"
    using 2 r1 run_inv by auto
  moreover have "CanTransition\<^sup>*\<^sup>* (bd_State r) (bd_State r1)" "bd_Version r \<le> bd_Version r1"
      "bd_BundleHash r1 = bd_BundleHash r" "bd_ClientID r1 = bd_ClientID r"
    using step by (auto simp: record_step_Some)
  ultimately show ?case by auto
qed

end

section \<open>Invariant of the in-memory store\<close>

definition index_ok :: "(string, string) gomap \<Rightarrow> (string, BundleRecord) gomap \<Rightarrow> bool" where
  "index_ok idx recs \<longleftrightarrow> gm_ok idx \<and> gm_ok recs \<and>
     (\<forall>bid r. gm_get recs bid = Some r \<longrightarrow> bd_ID r = bid \<and> bid \<noteq> [] \<and> gm_get idx (bd_BundleHash r) = Some bid) \<and>
     (\<forall>h bid. gm_get idx h = Some bid \<longrightarrow> (\<exists>r. gm_get recs bid = Some r \<and> bd_BundleHash r = h))"

lemma index_ok_rec:
  "index_ok idx recs \<Longrightarrow> gm_get recs bid = Some r \<Longrightarrow>
     bd_ID r = bid \<and> bid \<noteq> [] \<and> gm_get idx (bd_BundleHash r) = Some bid"
  by (simp add: index_ok_def)

lemma index_ok_idx:
  "index_ok idx recs \<Longrightarrow> gm_get idx h = Some bid \<Longrightarrow> \<exists>r. gm_get recs bid = Some r \<and> bd_BundleHash r = h"
  by (simp add: index_ok_def)

definition bounded :: "int \<Rightarrow> ('k, 'v) gomap \<Rightarrow> bool" where
  "bounded limit m \<longleftrightarrow> gm_ok m \<and> int (gm_len m) \<le> limit"

definition store_inv :: "MemStore \<Rightarrow> bool" where
  "store_inv s \<longleftrightarrow> 0 < ms_limit s \<and> index_ok (ms_hashIndex s) (ms_records s) \<and>
     bounded (ms_limit s) (ms_records s) \<and> bounded (ms_limit s) (ms_retries s) \<and>
     bounded (ms_limit s) (ms_checkpoints s) \<and> bounded (ms_limit s) (ms_inflight s) \<and>
     (\<forall>c n. gm_get (ms_inflight s) c = Some n \<longrightarrow> 1 \<le> n) \<and>
     (\<forall>b evs. gm_get (ms_events s) b = Some evs \<longrightarrow> int (length evs) \<le> ms_limit s)"

lemma store_inv_new: "store_inv New_MemStore"
  by (simp add: store_inv_def New_MemStore_def index_ok_def bounded_def gm_len_def)

lemma oldest_loop_mem:
  "(oldestID \<noteq> [] \<and> xs = [] \<longrightarrow> oldest_loop oldestID t xs = oldestID) \<and>
   (oldest_loop oldestID t xs \<in> insert oldestID (fst ` set xs)) \<and>
   (oldestID = [] \<and> xs \<noteq> [] \<longrightarrow> oldest_loop oldestID t xs \<in> fst ` set xs)"
proof (induction oldestID t xs rule: oldest_loop.induct)
  case (2 oldestID oldestTime bid t rest)
  then show ?case by (auto split: if_splits)
qed simp

lemma oldest_in_keys:
  "xs \<noteq> [] \<Longrightarrow> oldest_loop [] t xs \<in> fst ` set xs"
  using oldest_loop_mem [of "[]" xs t] by blast

lemma bounded_prune:
  assumes "gm_ok m" and "int (gm_len m) \<le> limit + 1" and "k \<in> fst ` set m"
  shows "bounded limit (gm_del m k)"
proof -
  have "0 < card (fst ` set m)" using assms(3) by (auto simp: card_gt_0_iff)
  then show ?thesis
    using assms gm_len_card [OF assms(1)] gm_len_card [OF gm_ok_del [OF assms(1), of k]]
    by (simp add: bounded_def gm_keys_del card_Diff_singleton)
qed

lemma gm_len_pos: "int (gm_len m) > l \<Longrightarrow> 0 \<le> l \<Longrightarrow> m \<noteq> []"
  by (auto simp: gm_len_def)

lemma bounded_set_len: "bounded limit m \<Longrightarrow> gm_ok (gm_set m k v) \<and> int (gm_len (gm_set m k v)) \<le> limit + 1"
  by (simp add: bounded_def gm_len_set)

lemma is_order_Nil: "is_order ord \<Longrightarrow> ord xs = [] \<longleftrightarrow> xs = []"
  using is_order_length [of ord xs] by (metis length_0_conv)


section \<open>Operations of the in-memory store\<close>

text \<open>One call of one method, with the clock readings and iteration orders of that call.\<close>

datatype mem_op =
    OpCreate "(string \<times> BundleRecord) list \<Rightarrow> (string \<times> BundleRecord) list" gtime BundleRecord
  | OpTransition "nat \<Rightarrow> gtime" string BundleState BundleState string
  | OpUpdateRetryCount "nat \<Rightarrow> gtime" string int
  | OpUpdateResult "nat \<Rightarrow> gtime" string f64 f64 string
  | OpReserve string int
  | OpRelease string
  | OpScheduleRetry "(string \<times> gtime) list \<Rightarrow> (string \<times> gtime) list" string gtime
  | OpClaim "(string \<times> gtime) list \<Rightarrow> (string \<times> gtime) list" gtime int
  | OpAppendEvent EventRecord
  | OpPutCheckpoint "(string \<times> CheckpointRecord) list \<Rightarrow> (string \<times> CheckpointRecord) list" CheckpointRecord
  | OpDeleteEvents string
  | OpSetAuthority Authority
  | OpClose

fun run_mem :: "mem_op \<Rightarrow> MemStore \<Rightarrow> MemStore" where
  "run_mem (OpCreate ord now rec) s = snd (CreateBundle ord now rec s)"
| "run_mem (OpTransition clk bid from to reason) s = snd (TransitionBundle clk bid from to reason s)"
| "run_mem (OpUpdateRetryCount clk bid n) s = snd (UpdateRetryCount clk bid n s)"
| "run_mem (OpUpdateResult clk bid score profit reason) s = snd (UpdateResult clk bid score profit reason s)"
| "run_mem (OpReserve c limit) s = snd (ReserveInflight c limit s)"
| "run_mem (OpRelease c) s = snd (ReleaseInflight c s)"
| "run_mem (OpScheduleRetry ord bid due) s = snd (ScheduleRetry ord bid due s)"
| "run_mem (OpClaim ord now limit) s = snd (ClaimDueRetries ord now limit s)"
| "run_mem (OpAppendEvent ev) s = AppendEvent ev s"
| "run_mem (OpPutCheckpoint ord cp) s = PutCheckpoint ord cp s"
| "run_mem (OpDeleteEvents bid) s = DeleteEvents bid s"
| "run_mem (OpSetAuthority auth) s = snd (SetAuthority auth s)"
| "run_mem OpClose s = ms_Close s"

text \<open>
  What the callers keep to: iteration orders are orders, and a bundle is only created under a
  non-empty identifier that is not in use under another hash (identifiers contain their hash).
\<close>

fun ok_mem :: "mem_op \<Rightarrow> MemStore \<Rightarrow> bool" where
  "ok_mem (OpCreate ord now rec) s =
     (is_order ord \<and> bd_ID rec \<noteq> [] \<and>
      (case gm_get (ms_records s) (bd_ID rec) of None \<Rightarrow> True | Some r \<Rightarrow> bd_BundleHash r = bd_BundleHash rec))"
| "ok_mem (OpScheduleRetry ord bid due) s = is_order ord"
| "ok_mem (OpClaim ord now limit) s = is_order ord"
| "ok_mem (OpPutCheckpoint ord cp) s = is_order ord"
| "ok_mem _ s = True"

lemma index_ok_create:
  assumes "index_ok idx recs" and "gm_get idx (bd_BundleHash rec) = None" and "bd_ID rec \<noteq> []"
    and "gm_get recs (bd_ID rec) = None"
  shows "index_ok (gm_set idx (bd_BundleHash rec) (bd_ID rec)) (gm_set recs (bd_ID rec) rec)"
proof -
  have ok: "gm_ok idx" "gm_ok recs" using assms(1) by (simp_all add: index_ok_def)
  have "bd_BundleHash r \<noteq> bd_BundleHash rec" if "gm_get recs bid = Some r" for bid r
    using index_ok_rec [OF assms(1) that] assms(2) by auto
  moreover have "bid \<noteq> bd_ID rec" if "gm_get idx h = Some bid" for h bid
    using index_ok_idx [OF assms(1) that] assms(4) by auto
  ultimately show ?thesis
    using ok assms(3) index_ok_rec [OF assms(1)] index_ok_idx [OF assms(1)]
    unfolding index_ok_def by (simp split: if_splits)
qed

lemma index_ok_prune:
  assumes "index_ok idx recs" and "gm_get recs k = Some r"
  shows "index_ok (gm_del idx (bd_BundleHash r)) (gm_del recs k)"
proof -
  have "bd_BundleHash r' \<noteq> bd_BundleHash r" if "gm_get recs k' = Some r'" "k' \<noteq> k" for k' r'
  proof
    assume "bd_BundleHash r' = bd_BundleHash r"
    then have "gm_get idx (bd_BundleHash r) = Some k'" "gm_get idx (bd_BundleHash r) = Some k"
      using index_ok_rec [OF assms(1) that(1)] index_ok_rec [OF assms] by simp_all
    then show False using that(2) by simp
  qed
  then show ?thesis using assms by (fastforce simp: index_ok_def split: if_splits)
qed

lemma index_ok_put:
  assumes "index_ok idx recs" and "gm_get recs bid = Some r"
    and "bd_ID r' = bd_ID r" and "bd_BundleHash r' = bd_BundleHash r"
  shows "index_ok idx (gm_set recs bid r')"
  using assms by (fastforce simp: index_ok_def split: if_splits)

lemma bounded_put: "bounded l m \<Longrightarrow> gm_get m k \<noteq> None \<Longrightarrow> bounded l (gm_set m k v)"
  by (auto simp: bounded_def gm_len_set)

lemma put_record_inv:
  assumes "store_inv s" and "gm_get (ms_records s) bid = Some r"
    and "bd_ID r' = bd_ID r" and "bd_BundleHash r' = bd_BundleHash r"
  shows "store_inv (put_record bid r' s)"
  using assms index_ok_put [OF _ assms(2-4)] bounded_put [of "ms_limit s" "ms_records s" bid r']
  by (simp add: store_inv_def put_record_def)

lemma transition_record_id [simp]:
  "bd_ID (transition_record now to reason r) = bd_ID r"
  "bd_BundleHash (transition_record now to reason r) = bd_BundleHash r"
  "bd_ClientID (transition_record now to reason r) = bd_ClientID r"
  "bd_Request (transition_record now to reason r) = bd_Request r"
  "bd_State (transition_record now to reason r) = to"
  "bd_Version (transition_record now to reason r) = bd_Version r + 1"
  "bd_ShardID (transition_record now to reason r) = bd_ShardID r"
  "bd_Sequence (transition_record now to reason r) = bd_Sequence r + 1"
  by (simp_all add: transition_record_def Let_def)

lemma ValidateTransition_None: "ValidateTransition from to = None \<longleftrightarrow> CanTransition from to"
  by (simp add: ValidateTransition_def)

lemma TransitionBundle_cases:
  "(\<exists>err. TransitionBundle clk bid from to reason s = (Inl err, s)) \<or>
   (\<exists>r. gm_get (ms_records s) bid = Some r \<and> bd_State r = from \<and> CanTransition from to \<and>
      validateAuthorityLocked (clk 0) s r = None \<and>
      TransitionBundle clk bid from to reason s =
        (Inr (transition_record (clk 1) to reason r), put_record bid (transition_record (clk 1) to reason r) s))"
  by (auto simp: TransitionBundle_def ValidateTransition_None Let_def split: option.split)

lemma guarded_record_Inr:
  "guarded_record now bid s = Inr r \<Longrightarrow>
     gm_get (ms_records s) bid = Some r \<and> validateAuthorityLocked now s r = None"
  by (auto simp: guarded_record_def split: option.splits)

lemma ms_pruneLocked_inv:
  assumes "is_order ord" and "0 < ms_limit s" and "index_ok (ms_hashIndex s) (ms_records s)"
    and "int (gm_len (ms_records s)) \<le> ms_limit s + 1"
    and "bounded (ms_limit s) (ms_retries s)" and "bounded (ms_limit s) (ms_checkpoints s)"
    and "bounded (ms_limit s) (ms_inflight s)"
    and "\<forall>c n. gm_get (ms_inflight s) c = Some n \<longrightarrow> 1 \<le> n"
    and "\<forall>b evs. gm_get (ms_events s) b = Some evs \<longrightarrow> int (length evs) \<le> ms_limit s"
  shows "store_inv (ms_pruneLocked ord s)"
proof (cases "int (gm_len (ms_records s)) \<le> ms_limit s")
  case True
  then show ?thesis
    using assms by (simp add: ms_pruneLocked_def store_inv_def bounded_def index_ok_def)
next
  case False
  let ?xs = "map (\<lambda>(bid, rec). (bid, bd_CreatedAt rec)) (ord (ms_records s))"
  define k where "k = oldest_loop [] 0 ?xs"
  have "ms_records s \<noteq> []" using False assms(2) by (auto simp: gm_len_def)
  then have "k \<in> fst ` set ?xs"
    unfolding k_def by (intro oldest_in_keys) (simp add: is_order_Nil [OF assms(1)])
  then have k: "k \<in> fst ` set (ms_records s)" using is_order_set [OF assms(1), of "ms_records s"] by force
  then obtain r where r: "gm_get (ms_records s) k = Some r" using gm_get_dom by metis
  then have ne: "k \<noteq> []" using assms(3) by (auto simp: index_ok_def)
  have pr: "ms_pruneLocked ord s = s\<lparr> ms_hashIndex := gm_del (ms_hashIndex s) (bd_BundleHash r),
      ms_records := gm_del (ms_records s) k, ms_events := gm_del (ms_events s) k \<rparr>"
    using False ne r by (simp add: ms_pruneLocked_def k_def [symmetric] gm_get0_def)
  have "gm_ok (ms_records s)" using assms(3) by (simp add: index_ok_def)
  then show ?thesis
    using assms index_ok_prune [OF assms(3) r] bounded_prune [OF _ assms(4) k]
    by (simp add: pr store_inv_def)
qed

lemma CreateBundle_inv:
  assumes "store_inv s" and "ok_mem (OpCreate ord now rec) s"
  shows "store_inv (snd (CreateBundle ord now rec s))"
proof (cases "\<exists>e. CreateBundle ord now rec s = (Inl e, s)")
  case True
  then show ?thesis using assms(1) by auto
next
  case False
  then have new: "gm_get (ms_hashIndex s) (bd_BundleHash rec) = None"
    and eq: "snd (CreateBundle ord now rec s) = ms_pruneLocked ord
      (s\<lparr> ms_records := gm_set (ms_records s) (bd_ID rec) rec,
         ms_hashIndex := gm_set (ms_hashIndex s) (bd_BundleHash rec) (bd_ID rec) \<rparr>)"
    by (auto simp: CreateBundle_def split: if_splits option.splits)
  have none: "gm_get (ms_records s) (bd_ID rec) = None"
  proof (cases "gm_get (ms_records s) (bd_ID rec)")
    case (Some r)
    then have "bd_BundleHash r = bd_BundleHash rec" using assms(2) by simp
    moreover have "index_ok (ms_hashIndex s) (ms_records s)" using assms(1) by (simp add: store_inv_def)
    ultimately show ?thesis using index_ok_rec [OF _ Some] new by auto
  qed simp
  have "is_order ord" "bd_ID rec \<noteq> []" using assms(2) by simp_all
  then show ?thesis
    unfolding eq using assms(1) index_ok_create [OF _ new _ none] bounded_set_len [of "ms_limit s" "ms_records s"]
    by (intro ms_pruneLocked_inv) (simp_all add: store_inv_def)
qed


lemma TransitionBundle_inv: "store_inv s \<Longrightarrow> store_inv (snd (TransitionBundle clk bid from to reason s))"
  using TransitionBundle_cases [of clk bid "from" to reason s]
    put_record_inv [of s bid _ "transition_record (clk 1) to reason _"] by fastforce

lemma UpdateRetryCount_inv: "store_inv s \<Longrightarrow> store_inv (snd (UpdateRetryCount clk bid n s))"
  by (auto simp: UpdateRetryCount_def Let_def dest!: guarded_record_Inr split: sum.split intro: put_record_inv)

lemma UpdateResult_inv: "store_inv s \<Longrightarrow> store_inv (snd (UpdateResult clk bid score profit reason s))"
  by (auto simp: UpdateResult_def Let_def dest!: guarded_record_Inr split: sum.split intro: put_record_inv)

lemma store_inv_inflight:
  "store_inv s \<Longrightarrow> bounded (ms_limit s) m \<Longrightarrow> (\<And>c n. gm_get m c = Some n \<Longrightarrow> 1 \<le> n) \<Longrightarrow>
     store_inv (s\<lparr> ms_inflight := m \<rparr>)"
  by (simp add: store_inv_def)

lemma bounded_inflight: "store_inv s \<Longrightarrow> bounded (ms_limit s) (ms_inflight s)"
  by (simp add: store_inv_def)

lemma inflight_pos: "store_inv s \<Longrightarrow> gm_get (ms_inflight s) c = Some n \<Longrightarrow> 1 \<le> n"
  by (simp add: store_inv_def)

lemma bounded_del: "bounded l m \<Longrightarrow> bounded l (gm_del m k)"
  by (auto simp: bounded_def gm_len_del)

lemma inflight_nonneg: "store_inv s \<Longrightarrow> 0 \<le> gm_get0 0 (ms_inflight s) c"
  using inflight_pos [of s c] by (cases "gm_get (ms_inflight s) c") (auto simp: gm_get0_def)

lemma ReserveInflight_inv: "store_inv s \<Longrightarrow> store_inv (snd (ReserveInflight c limit s))"
proof -
  assume inv: "store_inv s"
  let ?cur = "gm_get0 0 (ms_inflight s) c"
  have "bounded (ms_limit s) (gm_set (ms_inflight s) c (?cur + 1))"
    if "\<not> (?cur = 0 \<and> int (gm_len (ms_inflight s)) \<ge> ms_limit s)"
  proof (cases "gm_get (ms_inflight s) c")
    case None
    then show ?thesis using that bounded_inflight [OF inv] by (simp add: gm_get0_def bounded_def gm_len_set)
  next
    case (Some n)
    then show ?thesis using bounded_put [OF bounded_inflight [OF inv], of c] by simp
  qed
  then show ?thesis
    using inv inflight_nonneg [OF inv, of c] inflight_pos [OF inv]
    by (auto simp: ReserveInflight_def Let_def intro!: store_inv_inflight split: if_splits)
qed

lemma ReleaseInflight_inv: "store_inv s \<Longrightarrow> store_inv (snd (ReleaseInflight c s))"
proof -
  assume inv: "store_inv s"
  let ?cur = "gm_get0 0 (ms_inflight s) c"
  have "gm_get (ms_inflight s) c \<noteq> None" if "?cur > 0"
    using that by (cases "gm_get (ms_inflight s) c") (simp_all add: gm_get0_def)
  then show ?thesis
    using inv bounded_put [OF bounded_inflight [OF inv], of c "?cur - 1"]
      bounded_del [OF bounded_inflight [OF inv], of c] inflight_pos [OF inv]
    by (auto simp: ReleaseInflight_def Let_def intro!: store_inv_inflight split: if_splits)
qed

lemma ScheduleRetry_inv:
  assumes "is_order ord" and "store_inv s"
  shows "store_inv (snd (ScheduleRetry ord bid due s))"
proof -
  let ?m = "gm_set (ms_retries s) bid due"
  let ?k = "oldest_loop [] 0 (ord ?m)"
  have m: "gm_ok ?m" "int (gm_len ?m) \<le> ms_limit s + 1"
    using bounded_set_len [of "ms_limit s" "ms_retries s" bid due] assms(2) by (simp_all add: store_inv_def)
  have "ord ?m \<noteq> []" using is_order_Nil [OF assms(1), of ?m] gm_keys_set [of "ms_retries s" bid due] by auto
  then have "?k \<in> fst ` set ?m"
    using oldest_in_keys [of "ord ?m" 0] is_order_set [OF assms(1), of ?m] by simp
  then show ?thesis
    using assms(2) m bounded_prune [OF m]
    by (simp add: ScheduleRetry_def pruneRetriesLocked_def store_inv_def bounded_def)
qed

definition due_keys :: "gtime \<Rightarrow> (string \<times> gtime) list \<Rightarrow> string set" where
  "due_keys now xs = fst ` {e \<in> set xs. snd e \<le> now}"

lemma due_keys_simps [simp]:
  "due_keys now [] = {}"
  "due_keys now ((k, t) # xs) = (if t \<le> now then insert k (due_keys now xs) else due_keys now xs)"
  by (force simp: due_keys_def)+

lemma due_keys_subset: "due_keys now xs \<subseteq> fst ` set xs"
  by (auto simp: due_keys_def)

lemma claim_loop_result:
  assumes "claim_loop now limit xs out m = (out', m')"
  shows "\<exists>new. out' = out @ new \<and> m' = foldl gm_del m new \<and> set new \<subseteq> due_keys now xs \<and>
    (int (length out) \<le> limit \<longrightarrow> int (length out') \<le> limit) \<and>
    (int (length out') < limit \<longrightarrow> due_keys now xs \<subseteq> set new) \<and>
    (distinct (map fst xs) \<longrightarrow> distinct new)"
  using assms
proof (induction now limit xs out m rule: claim_loop.induct)
  case (2 now limit bid due rest out m)
  show ?case
  proof (cases "int (length out) \<ge> limit")
    case True
    then show ?thesis using 2 by simp
  next
    case False
    show ?thesis
    proof (cases "due > now")
      case True
      then show ?thesis using "2.IH"(2) "2.prems" False by auto
    next
      case hit: False
      then obtain new where new: "out' = (out @ [bid]) @ new" "m' = foldl gm_del (gm_del m bid) new"
        "set new \<subseteq> due_keys now rest"
        "int (length (out @ [bid])) \<le> limit \<longrightarrow> int (length out') \<le> limit"
        "int (length out') < limit \<longrightarrow> due_keys now rest \<subseteq> set new"
        "distinct (map fst rest) \<longrightarrow> distinct new"
        using "2.IH"(1) "2.prems" False by auto
      then have "set new \<subseteq> fst ` set rest" using due_keys_subset [of now rest] by blast
      then show ?thesis using new hit False by (intro exI [of _ "bid # new"]) auto
    qed
  qed
qed auto

lemma gm_get_foldl_del: "gm_get (foldl gm_del m ks) k = (if k \<in> set ks then None else gm_get m k)"
  by (induction ks arbitrary: m) auto

lemma bounded_foldl_del: "bounded l m \<Longrightarrow> bounded l (foldl gm_del m ks)"
  by (induction ks arbitrary: m) (auto simp: bounded_del)

lemma ClaimDueRetries_inv: "store_inv s \<Longrightarrow> store_inv (snd (ClaimDueRetries ord now limit s))"
proof -
  assume inv: "store_inv s"
  obtain out m where c: "claim_loop now limit (ord (ms_retries s)) [] (ms_retries s) = (out, m)"
    by (cases "claim_loop now limit (ord (ms_retries s)) [] (ms_retries s)")
  then have "bounded (ms_limit s) m"
    using claim_loop_result [OF c] bounded_foldl_del inv by (auto simp: store_inv_def)
  then show ?thesis using inv c by (simp add: ClaimDueRetries_def store_inv_def)
qed

lemma AppendEvent_inv: "store_inv s \<Longrightarrow> store_inv (AppendEvent ev s)"
  by (auto simp: AppendEvent_def store_inv_def Let_def split: if_splits)

lemma PutCheckpoint_inv:
  assumes "is_order ord" and "store_inv s"
  shows "store_inv (PutCheckpoint ord cp s)"
proof -
  let ?m = "gm_set (ms_checkpoints s) (cp_BatchID cp) cp"
  let ?xs = "map (\<lambda>(bid, cp). (bid, cp_Time cp)) (ord ?m)"
  have m: "gm_ok ?m" "int (gm_len ?m) \<le> ms_limit s + 1"
    using bounded_set_len [of "ms_limit s" "ms_checkpoints s" "cp_BatchID cp" cp] assms(2)
    by (simp_all add: store_inv_def)
  have "?xs \<noteq> []"
    using is_order_Nil [OF assms(1), of ?m] gm_keys_set [of "ms_checkpoints s" "cp_BatchID cp" cp] by auto
  then have "oldest_loop [] 0 ?xs \<in> fst ` set ?m"
    using oldest_in_keys [of ?xs 0] is_order_set [OF assms(1), of ?m] by force
  then show ?thesis
    using assms(2) m bounded_prune [OF m]
    by (simp add: PutCheckpoint_def pruneCheckpointsLocked_def store_inv_def bounded_def)
qed

lemma run_mem_inv: "store_inv s \<Longrightarrow> ok_mem op s \<Longrightarrow> store_inv (run_mem op s)"
proof (cases op)
  case (OpCreate ord now rec)
  assume "store_inv s" "ok_mem op s"
  then show ?thesis using CreateBundle_inv OpCreate by simp
qed (simp_all add: TransitionBundle_inv UpdateRetryCount_inv UpdateResult_inv ReserveInflight_inv
    ReleaseInflight_inv ScheduleRetry_inv ClaimDueRetries_inv AppendEvent_inv PutCheckpoint_inv,
    simp_all add: store_inv_def DeleteEvents_def SetAuthority_def ms_Close_def)


section \<open>The in-memory store keeps the contract\<close>

lemma ms_pruneLocked_lookup:
  "gm_get (ms_records (ms_pruneLocked ord s)) bid = gm_get (ms_records s) bid \<or>
   gm_get (ms_records (ms_pruneLocked ord s)) bid = None"
  by (simp add: ms_pruneLocked_def Let_def)

lemma put_record_step:
  "record_step (gm_get (ms_records s) bid) (Some r) \<Longrightarrow>
     record_step (GetBundle k s) (GetBundle k (put_record bid r s))"
  by (simp add: GetBundle_def put_record_def)

lemma CreateBundle_step:
  assumes "store_inv s" and "ok_mem (OpCreate ord now rec) s"
  shows "record_step (GetBundle k s) (GetBundle k (snd (CreateBundle ord now rec s)))"
proof (cases "\<exists>e. CreateBundle ord now rec s = (Inl e, s)")
  case False
  then have new: "gm_get (ms_hashIndex s) (bd_BundleHash rec) = None"
    and eq: "snd (CreateBundle ord now rec s) = ms_pruneLocked ord
      (s\<lparr> ms_records := gm_set (ms_records s) (bd_ID rec) rec,
         ms_hashIndex := gm_set (ms_hashIndex s) (bd_BundleHash rec) (bd_ID rec) \<rparr>)" (is "_ = ms_pruneLocked ord ?s")
    by (auto simp: CreateBundle_def split: if_splits option.splits)
  have "gm_get (ms_records s) (bd_ID rec) = None"
  proof (cases "gm_get (ms_records s) (bd_ID rec)")
    case (Some r)
    then have "bd_BundleHash r = bd_BundleHash rec" using assms(2) by simp
    moreover have "index_ok (ms_hashIndex s) (ms_records s)" using assms(1) by (simp add: store_inv_def)
    ultimately show ?thesis using index_ok_rec [OF _ Some] new by auto
  qed simp
  then show ?thesis
    using ms_pruneLocked_lookup [of ord ?s k] unfolding eq GetBundle_def by auto
qed auto

lemma TransitionBundle_step:
  "record_step (GetBundle k s) (GetBundle k (snd (TransitionBundle clk bid from to reason s)))"
  using TransitionBundle_cases [of clk bid "from" to reason s]
proof (elim disjE exE conjE)
  fix r
  assume "gm_get (ms_records s) bid = Some r" "bd_State r = from" "CanTransition from to"
    "TransitionBundle clk bid from to reason s = (Inr (transition_record (clk 1) to reason r),
       put_record bid (transition_record (clk 1) to reason r) s)"
  then show ?thesis using put_record_step by (simp add: record_step_Some)
qed simp

lemma UpdateRetryCount_step:
  "record_step (GetBundle k s) (GetBundle k (snd (UpdateRetryCount clk bid n s)))"
  by (auto simp: UpdateRetryCount_def Let_def record_step_Some dest!: guarded_record_Inr
      split: sum.split intro!: put_record_step)

lemma UpdateResult_step:
  "record_step (GetBundle k s) (GetBundle k (snd (UpdateResult clk bid score profit reason s)))"
  by (auto simp: UpdateResult_def Let_def record_step_Some dest!: guarded_record_Inr
      split: sum.split intro!: put_record_step)

lemmas other_ops_defs = ReserveInflight_def ReleaseInflight_def ScheduleRetry_def pruneRetriesLocked_def
  ClaimDueRetries_def AppendEvent_def PutCheckpoint_def pruneCheckpointsLocked_def DeleteEvents_def
  SetAuthority_def ms_Close_def

lemma run_mem_step:
  assumes "store_inv s" and "ok_mem op s"
  shows "record_step (GetBundle k s) (GetBundle k (run_mem op s))"
proof (cases op)
  case (OpCreate ord now rec)
  then show ?thesis using CreateBundle_step assms by simp
qed (simp_all add: TransitionBundle_step UpdateRetryCount_step UpdateResult_step,
    simp_all add: GetBundle_def other_ops_defs Let_def split: prod.split)

interpretation mem: bundle_store store_inv ok_mem GetBundle run_mem
  by unfold_locales (auto intro: run_mem_inv run_mem_step)

section \<open>Properties\<close>

definition demo_auth :: Authority where
  "demo_auth = \<lparr> au_ShardID = ''shard-0'', au_LeaseID = ''lease'', au_Epoch = 1, au_FenceToken = 1,
     au_IssuedAt = 0, au_ExpiresAt = 100 \<rparr>"

definition demo_bundle :: BundleRecord where
  "demo_bundle = zero_bundle\<lparr> bd_ID := ''h:1'', bd_BundleHash := ''h'', bd_ClientID := ''c'',
     bd_ShardID := ''shard-0'', bd_LeaseID := ''lease'', bd_LeaseEpoch := 1, bd_FenceToken := 1,
     bd_Version := 1, bd_CreatedAt := 1 \<rparr>"

definition demo_ops :: "mem_op list" where
  "demo_ops = [OpSetAuthority demo_auth, OpCreate rev 5 demo_bundle,
     OpTransition (\<lambda>i. 6) ''h:1'' StateReceived StateValidated ''validated'',
     OpTransition (\<lambda>i. 7) ''h:1'' StateReceived StateRejected ''late'']"

text \<open>The bounds alone, which need nothing from the callers but proper iteration orders and non-empty identifiers.\<close>

definition bounds_inv :: "MemStore \<Rightarrow> bool" where
  "bounds_inv s \<longleftrightarrow> 0 < ms_limit s \<and> bounded (ms_limit s) (ms_records s) \<and> gm_get (ms_records s) [] = None \<and>
     bounded (ms_limit s) (ms_retries s) \<and> bounded (ms_limit s) (ms_checkpoints s) \<and> bounded (ms_limit s) (ms_inflight s) \<and>
     (\<forall>c n. gm_get (ms_inflight s) c = Some n \<longrightarrow> 1 \<le> n) \<and>
     (\<forall>b evs. gm_get (ms_events s) b = Some evs \<longrightarrow> int (length evs) \<le> ms_limit s)"

fun call_ok :: "mem_op \<Rightarrow> bool" where
  "call_ok (OpCreate ord now rec) = (is_order ord \<and> bd_ID rec \<noteq> [])"
| "call_ok (OpScheduleRetry ord bid due) = is_order ord"
| "call_ok (OpClaim ord now limit) = is_order ord"
| "call_ok (OpPutCheckpoint ord cp) = is_order ord"
| "call_ok _ = True"

text \<open>The store without its records and their index.\<close>

definition bare :: "MemStore \<Rightarrow> MemStore" where
  "bare s = s\<lparr> ms_records := [], ms_hashIndex := [] \<rparr>"

lemma bounds_inv_bare:
  "bounds_inv s \<longleftrightarrow> store_inv (bare s) \<and> bounded (ms_limit s) (ms_records s) \<and> gm_get (ms_records s) [] = None"
  by (auto simp: bounds_inv_def bare_def store_inv_def index_ok_def bounded_def gm_len_def)

fun touches_records :: "mem_op \<Rightarrow> bool" where
  "touches_records (OpCreate ord now rec) = True"
| "touches_records (OpTransition clk bid from to reason) = True"
| "touches_records (OpUpdateRetryCount clk bid n) = True"
| "touches_records (OpUpdateResult clk bid score profit reason) = True"
| "touches_records _ = False"

lemma run_mem_bare:
  "\<not> touches_records op \<Longrightarrow> run_mem op (bare s) = bare (run_mem op s) \<and> ms_records (run_mem op s) = ms_records s"
  by (cases op) (simp_all add: bare_def other_ops_defs Let_def split: prod.split)

lemma run_mem_limit [simp]: "ms_limit (run_mem op s) = ms_limit s"
proof (cases op)
  case (OpTransition clk bid "from" to reason)
  then show ?thesis using TransitionBundle_cases [of clk bid "from" to reason s] by (auto simp: put_record_def)
qed (auto simp: CreateBundle_def ms_pruneLocked_def UpdateRetryCount_def UpdateResult_def put_record_def other_ops_defs Let_def
    split: option.split sum.split prod.split)

lemma run_all_limit: "ms_limit (mem.run_all ops s) = ms_limit s"
  by (induction ops s rule: mem.run_all.induct) simp_all

lemma put_record_bounds:
  "bounds_inv s \<Longrightarrow> gm_get (ms_records s) bid = Some r \<Longrightarrow> bounds_inv (put_record bid r' s)"
  using bounded_put [of "ms_limit s" "ms_records s" bid r'] by (auto simp: bounds_inv_def put_record_def)

lemma ms_pruneLocked_bounds:
  assumes "is_order ord" and "0 < ms_limit s" and "gm_ok (ms_records s)" and "int (gm_len (ms_records s)) \<le> ms_limit s + 1"
    and "gm_get (ms_records s) [] = None"
  shows "bounded (ms_limit s) (ms_records (ms_pruneLocked ord s)) \<and> gm_get (ms_records (ms_pruneLocked ord s)) [] = None"
proof (cases "int (gm_len (ms_records s)) \<le> ms_limit s")
  case True
  then show ?thesis using assms by (simp add: ms_pruneLocked_def bounded_def)
next
  case False
  let ?xs = "map (\<lambda>(bid, rec). (bid, bd_CreatedAt rec)) (ord (ms_records s))"
  define k where "k = oldest_loop [] 0 ?xs"
  have "ms_records s \<noteq> []" using False assms(2) by (auto simp: gm_len_def)
  then have "k \<in> fst ` set ?xs"
    unfolding k_def by (intro oldest_in_keys) (simp add: is_order_Nil [OF assms(1)])
  then have k: "k \<in> fst ` set (ms_records s)" using is_order_set [OF assms(1), of "ms_records s"] by force
  then have "k \<noteq> []" using assms(5) gm_get_None_iff by metis
  then have "ms_records (ms_pruneLocked ord s) = gm_del (ms_records s) k"
    using False by (simp add: ms_pruneLocked_def k_def [symmetric])
  then show ?thesis using bounded_prune [OF assms(3,4) k] assms(5) by simp
qed

lemma CreateBundle_bounds:
  assumes "bounds_inv s" and "is_order ord" and "bd_ID rec \<noteq> []"
  shows "bounds_inv (snd (CreateBundle ord now rec s))"
proof (cases "\<exists>e. CreateBundle ord now rec s = (Inl e, s)")
  case True
  then show ?thesis using assms(1) by auto
next
  case False
  let ?s = "s\<lparr> ms_records := gm_set (ms_records s) (bd_ID rec) rec,
    ms_hashIndex := gm_set (ms_hashIndex s) (bd_BundleHash rec) (bd_ID rec) \<rparr>"
  have eq: "snd (CreateBundle ord now rec s) = ms_pruneLocked ord ?s"
    using False by (auto simp: CreateBundle_def split: if_splits option.splits)
  have "bounded (ms_limit ?s) (ms_records (ms_pruneLocked ord ?s)) \<and> gm_get (ms_records (ms_pruneLocked ord ?s)) [] = None"
    using assms bounded_set_len [of "ms_limit s" "ms_records s" "bd_ID rec" rec]
    by (intro ms_pruneLocked_bounds) (auto simp: bounds_inv_def)
  then show ?thesis
    unfolding eq using assms(1) by (auto simp: bounds_inv_def ms_pruneLocked_def Let_def split: if_splits)
qed

lemma run_mem_bounds:
  assumes "bounds_inv s" and "call_ok op"
  shows "bounds_inv (run_mem op s)"
proof (cases "touches_records op")
  case False
  have "store_inv (bare (run_mem op s))"
    using run_mem_inv [of "bare s" op] run_mem_bare [OF False, of s] assms False
    by (cases op) (simp_all add: bounds_inv_bare)
  then show ?thesis using assms(1) run_mem_bare [OF False, of s] by (simp add: bounds_inv_bare)
next
  case True
  then show ?thesis
  proof (cases op)
    case (OpTransition clk bid "from" to reason)
    then show ?thesis
      using TransitionBundle_cases [of clk bid "from" to reason s] put_record_bounds [OF assms(1)] assms(1) by fastforce
  qed (use assms in \<open>auto simp: CreateBundle_bounds UpdateRetryCount_def UpdateResult_def Let_def
      dest!: guarded_record_Inr split: sum.split intro: put_record_bounds\<close>)
qed

lemma run_all_bounds: "bounds_inv s \<Longrightarrow> list_all call_ok ops \<Longrightarrow> bounds_inv (mem.run_all ops s)"
  by (induction ops s rule: mem.run_all.induct) (auto intro: run_mem_bounds)

text \<open>
  C28: whatever calls the callers make, in whatever order, the maps of the in-memory store that it prunes or guards stay within its limit
  of 256 entries: the records, the retries, the checkpoints and the in-flight counters; every counter that is kept is positive, and no bundle's
  trail of events is longer than the limit. This asks of the callers only that identifiers are not empty. If
  besides no identifier is created again under another hash, the hash index and the records stay in one-to-one
  correspondence. (The number of trails and of authorities is not bounded: \<open>events_unbounded\<close>, \<open>authorities_unbounded\<close>; the second condition is needed:
  \<open>reused_id_breaks_index\<close>.)
\<close>

theorem store_invariant:
  assumes "list_all call_ok ops"
  shows "let s = mem.run_all ops New_MemStore in
    int (gm_len (ms_records s)) \<le> 256 \<and> int (gm_len (ms_retries s)) \<le> 256 \<and>
    int (gm_len (ms_checkpoints s)) \<le> 256 \<and> int (gm_len (ms_inflight s)) \<le> 256 \<and>
    (\<forall>c n. gm_get (ms_inflight s) c = Some n \<longrightarrow> 1 \<le> n) \<and>
    (\<forall>b evs. gm_get (ms_events s) b = Some evs \<longrightarrow> length evs \<le> 256) \<and>
    (mem.ok_all ops New_MemStore \<longrightarrow>
       (\<forall>bid r. gm_get (ms_records s) bid = Some r \<longrightarrow> bd_ID r = bid) \<and>
       (\<forall>h bid. gm_get (ms_hashIndex s) h = Some bid \<longleftrightarrow>
          (\<exists>r. gm_get (ms_records s) bid = Some r \<and> bd_BundleHash r = h)))"
proof -
  define s where "s = mem.run_all ops New_MemStore"
  have start: "bounds_inv New_MemStore" "ms_limit New_MemStore = 256"
    by (simp_all add: bounds_inv_def bounded_def New_MemStore_def gm_len_def)
  have lim: "ms_limit s = 256" and bounds: "bounds_inv s"
    using run_all_limit [of ops New_MemStore] run_all_bounds [OF start(1) assms(1)] start(2) by (simp_all add: s_def)
  have "(\<forall>bid r. gm_get (ms_records s) bid = Some r \<longrightarrow> bd_ID r = bid) \<and>
      (\<forall>h bid. gm_get (ms_hashIndex s) h = Some bid \<longleftrightarrow> (\<exists>r. gm_get (ms_records s) bid = Some r \<and> bd_BundleHash r = h))"
    if "mem.ok_all ops New_MemStore"
  proof -
    have "index_ok (ms_hashIndex s) (ms_records s)"
      using mem.run_all_inv [OF store_inv_new that] by (simp add: s_def store_inv_def)
    then show ?thesis unfolding index_ok_def by blast
  qed
  then show ?thesis using bounds lim by (simp add: bounds_inv_def bounded_def Let_def flip: s_def)
qed

lemma demo_ok: "mem.ok_all demo_ops New_MemStore"
  by (simp add: demo_ops_def SetAuthority_def demo_auth_def New_MemStore_def demo_bundle_def)

theorem store_invariant_witness:
  "int (gm_len (ms_records (mem.run_all demo_ops New_MemStore))) \<le> 256 \<and>
   (\<forall>h bid. gm_get (ms_hashIndex (mem.run_all demo_ops New_MemStore)) h = Some bid \<longleftrightarrow>
      (\<exists>r. gm_get (ms_records (mem.run_all demo_ops New_MemStore)) bid = Some r \<and> bd_BundleHash r = h))"
proof -
  have "list_all call_ok demo_ops" by (simp add: demo_ops_def demo_bundle_def)
  then show ?thesis using store_invariant [of demo_ops] demo_ok unfolding Let_def by blast
qed

text \<open>
  What is not bounded: an event of a bundle that is not in the store opens a trail of its own, and nothing prunes trails of
  bundles that are gone; an authority stays for ever.
\<close>

lemma append_events_len:
  assumes "distinct ids" and "gm_ok (ms_events s)" and "\<forall>i \<in> set ids. gm_get (ms_events s) i = None"
  shows "gm_len (ms_events (mem.run_all (map (\<lambda>i. OpAppendEvent (ev\<lparr> ev_BundleID := i \<rparr>)) ids) s)) = gm_len (ms_events s) + length ids"
  using assms
proof (induction ids arbitrary: s)
  case (Cons i ids)
  let ?s = "AppendEvent (ev\<lparr> ev_BundleID := i \<rparr>) s"
  have "gm_ok (ms_events ?s)" "\<forall>j \<in> set ids. gm_get (ms_events ?s) j = None" "gm_len (ms_events ?s) = Suc (gm_len (ms_events s))"
    using Cons.prems by (auto simp: AppendEvent_def Let_def gm_len_set)
  then show ?case using Cons.IH [of ?s] Cons.prems(1) by simp
qed simp

lemma set_authorities_len:
  assumes "distinct ids" and "[] \<notin> set ids" and "gm_ok (ms_authority s)" and "\<forall>i \<in> set ids. gm_get (ms_authority s) i = None"
  shows "gm_len (ms_authority (mem.run_all (map (\<lambda>i. OpSetAuthority (a\<lparr> au_ShardID := i \<rparr>)) ids) s)) = gm_len (ms_authority s) + length ids"
  using assms
proof (induction ids arbitrary: s)
  case (Cons i ids)
  let ?s = "snd (SetAuthority (a\<lparr> au_ShardID := i \<rparr>) s)"
  have "gm_ok (ms_authority ?s)" "\<forall>j \<in> set ids. gm_get (ms_authority ?s) j = None"
      "gm_len (ms_authority ?s) = Suc (gm_len (ms_authority s))"
    using Cons.prems by (auto simp: SetAuthority_def gm_len_set)
  then show ?case using Cons.IH [of ?s] Cons.prems(1,2) by simp
qed simp

lemma events_unbounded:
  "distinct ids \<Longrightarrow>
     gm_len (ms_events (mem.run_all (map (\<lambda>i. OpAppendEvent (ev\<lparr> ev_BundleID := i \<rparr>)) ids) New_MemStore)) = length ids"
  using append_events_len [of ids New_MemStore ev] by (simp add: New_MemStore_def gm_len_def)

lemma authorities_unbounded:
  "distinct ids \<Longrightarrow> [] \<notin> set ids \<Longrightarrow>
     gm_len (ms_authority (mem.run_all (map (\<lambda>i. OpSetAuthority (a\<lparr> au_ShardID := i \<rparr>)) ids) New_MemStore)) = length ids"
  using set_authorities_len [of ids New_MemStore a] by (simp add: New_MemStore_def gm_len_def)

text \<open>An identifier created again under another hash leaves the old hash pointing at a record that is not its own.\<close>

lemma reused_id_breaks_index:
  "let s = mem.run_all [OpCreate rev 5 (zero_bundle\<lparr> bd_ID := ''x'', bd_BundleHash := ''h1'' \<rparr>),
      OpCreate rev 6 (zero_bundle\<lparr> bd_ID := ''x'', bd_BundleHash := ''h2'' \<rparr>)] New_MemStore in
   gm_get (ms_hashIndex s) ''h1'' = Some ''x'' \<and> map_option bd_BundleHash (gm_get (ms_records s) ''x'') = Some ''h2''"
  by (simp add: CreateBundle_def New_MemStore_def zero_bundle_def validateAuthorityLocked_def ms_pruneLocked_def gm_set_def
      gm_get_def gm_len_def Let_def)


definition demo_store :: MemStore where
  "demo_store = mem.run_all (take 2 demo_ops) New_MemStore"

lemma demo_store_inv: "store_inv demo_store"
  unfolding demo_store_def
  by (intro mem.run_all_inv store_inv_new)
    (simp add: demo_ops_def SetAuthority_def demo_auth_def New_MemStore_def demo_bundle_def)

lemma demo_store_records: "ms_records demo_store = [(''h:1'', demo_bundle)] \<and>
    ms_authority demo_store = [(''shard-0'', demo_auth)]"
  by (simp add: demo_store_def demo_ops_def SetAuthority_def demo_auth_def New_MemStore_def demo_bundle_def
      zero_bundle_def CreateBundle_def validateAuthorityLocked_def Valid_def now_or_def time_is_zero_def
      ms_pruneLocked_def gm_set_def gm_len_def gm_get_def)



text \<open>A record whose authority has moved on: no valid lease, an expired one, or another lease, epoch or token.\<close>

definition fenced :: "gtime \<Rightarrow> MemStore \<Rightarrow> BundleRecord \<Rightarrow> bool" where
  "fenced now s r \<longleftrightarrow> bd_ShardID r \<noteq> [] \<and>
     (case gm_get (ms_authority s) (bd_ShardID r) of
        None \<Rightarrow> True
      | Some a \<Rightarrow> au_ShardID a = [] \<or> au_LeaseID a = [] \<or> au_ExpiresAt a \<le> now \<or> bd_LeaseID r \<noteq> [] \<and> bd_LeaseID r \<noteq> au_LeaseID a \<or>
          bd_LeaseEpoch r \<noteq> 0 \<and> bd_LeaseEpoch r \<noteq> au_Epoch a \<or>
          bd_FenceToken r \<noteq> 0 \<and> bd_FenceToken r \<noteq> au_FenceToken a)"

lemma fenced_iff: "now \<noteq> 0 \<Longrightarrow> validateAuthorityLocked now s r = (if fenced now s r then Some ErrStaleAuthority else None)"
  by (auto simp: fenced_def validateAuthorityLocked_def Valid_def now_or_def time_is_zero_def split: option.splits)

text \<open>
  C20: fencing goes by the stamp of the record. If the lease a bundle was stamped with has expired or was
  replaced (another lease, epoch or fencing token, or none), every method that changes the record refuses with
  \<open>ErrStaleAuthority\<close> and leaves the store as it was; otherwise each of them makes its change. The methods do not say who
  calls them: a process that has lost its lease can still change a bundle that is stamped with the current one.
\<close>

theorem stale_record_is_fenced:
  assumes "GetBundle bid s = Some r" and "clk 0 \<noteq> 0" and "CanTransition (bd_State r) to"
  shows "if fenced (clk 0) s r
   then TransitionBundle clk bid (bd_State r) to reason s = (Inl ErrStaleAuthority, s) \<and>
     UpdateRetryCount clk bid n s = (Inl ErrStaleAuthority, s) \<and>
     UpdateResult clk bid score profit reason s = (Inl ErrStaleAuthority, s)
   else (let r1 = transition_record (clk 1) to reason r;
             r2 = r\<lparr> bd_RetryCount := n, bd_Version := bd_Version r + 1, bd_UpdatedAt := clk 1 \<rparr>;
             r3 = r\<lparr> bd_Score := score, bd_ProfitEth := profit, bd_Reason := reason,
               bd_Version := bd_Version r + 1, bd_UpdatedAt := clk 1 \<rparr>
         in TransitionBundle clk bid (bd_State r) to reason s = (Inr r1, put_record bid r1 s) \<and>
            UpdateRetryCount clk bid n s = (Inr r2, put_record bid r2 s) \<and>
            UpdateResult clk bid score profit reason s = (Inr r3, put_record bid r3 s))"
  using assms fenced_iff [OF assms(2), of s r]
  by (simp add: TransitionBundle_def ValidateTransition_def UpdateRetryCount_def UpdateResult_def
      guarded_record_def GetBundle_def Let_def)

theorem stale_record_is_fenced_witness:
  "TransitionBundle (\<lambda>i. 200) ''h:1'' (bd_State demo_bundle) StateValidated ''x'' demo_store =
     (Inl ErrStaleAuthority, demo_store) \<and>
   UpdateRetryCount (\<lambda>i. 200) ''h:1'' 1 demo_store = (Inl ErrStaleAuthority, demo_store) \<and>
   UpdateResult (\<lambda>i. 200) ''h:1'' FNaN FNaN ''x'' demo_store = (Inl ErrStaleAuthority, demo_store)"
proof -
  have get: "GetBundle ''h:1'' demo_store = Some demo_bundle"
    using demo_store_records by (simp add: GetBundle_def gm_get_def)
  have old: "fenced 200 demo_store demo_bundle"
    using demo_store_records by (simp add: fenced_def gm_get_def demo_auth_def demo_bundle_def)
  have "CanTransition (bd_State demo_bundle) StateValidated"
    by (simp add: demo_bundle_def zero_bundle_def CanTransition_def)
  from stale_record_is_fenced [OF get _ this, of "\<lambda>i. 200" "''x''" 1 FNaN FNaN] old show ?thesis by simp
qed

text \<open>
  A reservation counts exactly one more bundle for that client and never exceeds the limit it
  was asked for, other clients are not affected, and releasing it restores the counter.
\<close>

theorem inflight_reserve_release:
  assumes "store_inv s" and "ReserveInflight c limit s = (Inr n, s')"
  shows "n = GetInflight c s + 1 \<and> n \<le> limit \<and> GetInflight c s' = n \<and>
    (\<forall>d. d \<noteq> c \<longrightarrow> GetInflight d s' = GetInflight d s) \<and>
    GetInflight c (snd (ReleaseInflight c s')) = GetInflight c s"
proof -
  let ?cur = "GetInflight c s"
  have cur: "0 \<le> ?cur" using inflight_nonneg [OF assms(1)] by (simp add: GetInflight_def)
  have s': "n = ?cur + 1" "?cur < limit" "s' = s\<lparr> ms_inflight := gm_set (ms_inflight s) c (?cur + 1) \<rparr>"
    using assms(2) by (auto simp: ReserveInflight_def GetInflight_def Let_def split: if_splits)
  show ?thesis
    using cur s'(1,2) unfolding s'(3)
    by (simp add: GetInflight_def ReleaseInflight_def gm_get0_def Let_def)
qed

theorem inflight_reserve_release_witness:
  "\<exists>n s'. ReserveInflight ''c'' 2 demo_store = (Inr n, s') \<and> n = GetInflight ''c'' demo_store + 1 \<and> n \<le> 2 \<and>
     GetInflight ''c'' s' = n \<and> GetInflight ''c'' (snd (ReleaseInflight ''c'' s')) = GetInflight ''c'' demo_store"
proof -
  have "ms_inflight demo_store = [] \<and> ms_limit demo_store = 256"
    by (simp add: demo_store_def demo_ops_def SetAuthority_def demo_auth_def New_MemStore_def demo_bundle_def
        zero_bundle_def CreateBundle_def validateAuthorityLocked_def Valid_def now_or_def time_is_zero_def
        ms_pruneLocked_def gm_set_def gm_len_def gm_get_def)
  then obtain n s' where r: "ReserveInflight ''c'' 2 demo_store = (Inr n, s')"
    by (simp add: ReserveInflight_def gm_get0_def gm_len_def)
  show ?thesis using r inflight_reserve_release [OF demo_store_inv r] by blast
qed

text \<open>
  a claim of due retries returns at most the requested number, each at most once and each
  due, removes exactly those from the schedule, and leaves a due one behind only when the
  number was reached.
\<close>

theorem claim_due_retries:
  assumes "is_order ord" and "store_inv s" and "\<not> ms_closed s" and "0 \<le> limit"
  shows "\<exists>ids s'. ClaimDueRetries ord now limit s = (Inr ids, s') \<and> int (length ids) \<le> limit \<and> distinct ids \<and>
    (\<forall>k. gm_get (ms_retries s') k = (if k \<in> set ids then None else gm_get (ms_retries s) k)) \<and>
    (\<forall>k \<in> set ids. \<exists>due. gm_get (ms_retries s) k = Some due \<and> due \<le> now) \<and>
    (int (length ids) < limit \<longrightarrow> (\<forall>k due. gm_get (ms_retries s') k = Some due \<longrightarrow> now < due))"
proof -
  let ?m = "ms_retries s"
  obtain ids m' where c: "claim_loop now limit (ord ?m) [] ?m = (ids, m')"
    by (cases "claim_loop now limit (ord ?m) [] ?m")
  have ok: "gm_ok ?m" using assms(2) by (simp add: store_inv_def bounded_def)
  have mem: "(k, t) \<in> set (ord ?m) \<longleftrightarrow> gm_get ?m k = Some t" for k t
    using is_order_set [OF assms(1), of ?m] gm_get_in [OF ok, of k t] by simp
  have d: "distinct (map fst (ord ?m))"
    using ok mset_eq_imp_distinct_iff [OF is_order_mset_map [OF assms(1)], of fst ?m] by (simp add: gm_ok_def)
  have due: "k \<in> due_keys now (ord ?m) \<longleftrightarrow> (\<exists>t. gm_get ?m k = Some t \<and> t \<le> now)" for k
    using mem by (force simp: due_keys_def)
  have res: "m' = foldl gm_del ?m ids" "set ids \<subseteq> due_keys now (ord ?m)"
      "int (length ids) \<le> limit" "distinct ids"
      "int (length ids) < limit \<Longrightarrow> due_keys now (ord ?m) \<subseteq> set ids"
    using claim_loop_result [OF c] d assms(4) by auto
  have get: "gm_get m' k = (if k \<in> set ids then None else gm_get ?m k)" for k
    unfolding res(1) by (rule gm_get_foldl_del)
  have left: "now < due" if "int (length ids) < limit" "gm_get m' k = Some due" for k due
  proof (rule ccontr)
    assume "\<not> now < due"
    moreover have k: "k \<notin> set ids" "gm_get ?m k = Some due" using that(2) get [of k] by (auto split: if_splits)
    ultimately show False using that(1) res(5) due [of k] by auto
  qed
  have "ClaimDueRetries ord now limit s = (Inr ids, s\<lparr> ms_retries := m' \<rparr>)"
    using c assms(3) by (simp add: ClaimDueRetries_def)
  moreover have "\<exists>t. gm_get ?m k = Some t \<and> t \<le> now" if "k \<in> set ids" for k
    using that res(2) due by blast
  ultimately show ?thesis using res(3,4) get left by auto
qed

theorem claim_due_retries_witness:
  "\<exists>ids s'. ClaimDueRetries rev 10 1 (New_MemStore\<lparr> ms_retries := [(''a'', 5), (''b'', 7)] \<rparr>) = (Inr ids, s') \<and>
    int (length ids) \<le> 1 \<and> distinct ids"
proof -
  have "store_inv (New_MemStore\<lparr> ms_retries := [(''a'', 5), (''b'', 7)] \<rparr>)"
    using store_inv_new by (simp add: store_inv_def bounded_def gm_ok_def gm_len_def New_MemStore_def)
  from claim_due_retries [OF is_order_rev this, of 1 10] show ?thesis
    by (auto simp: New_MemStore_def)
qed

end
