(* ===== verification/Relay_Service.thy ===== *)
theory Relay_Service
  imports Relay_Policy Relay_Backends Relay_Wal Relay_Merkle Relay_Store_Inv
begin

text \<open>
  The relay service of \<^verbatim>\<open>mev/relay/v3/internal/relay\<close>: submission (\<^verbatim>\<open>service.go\<close>), the worker and the
  retries (\<^verbatim>\<open>processing.go\<close>), the event trail and the terminal states (\<^verbatim>\<open>persistence.go\<close>,
  \<^verbatim>\<open>terminal.go\<close>), with the in-memory store, broker, checkpoint store and policy store.

  A method is an action on the service state that returns a value or an error. The record
  \<open>SvcEnv\<close> holds what is outside the program: the clock (\<open>sv_tick\<close> counts its readings), the
  order in which maps are ranged over, SHA-256, the JSON encoders, the file system and the
  simulation backend. Tracing spans have no effect on the state and are left out. An action is one goroutine's run of the
  method; the store's own invariant covers every interleaving of its calls.
\<close>

section \<open>State and environment\<close>

record SvcEnv =
  en_clk :: "nat \<Rightarrow> gtime"
  en_sha :: "string \<Rightarrow> string"
  en_ordB :: "(string \<times> BundleRecord) list \<Rightarrow> (string \<times> BundleRecord) list"
  en_ordR :: "(string \<times> gtime) list \<Rightarrow> (string \<times> gtime) list"
  en_ordC :: "(string \<times> CheckpointRecord) list \<Rightarrow> (string \<times> CheckpointRecord) list"
  en_evJSON :: "EventRecord \<Rightarrow> string"
  en_cpJSON :: "CheckpointRecord \<Rightarrow> string"
  en_io :: io_oracle
  en_enc :: "WalEntry \<Rightarrow> string"
  en_dec :: "string \<Rightarrow> dec_result"
  en_log1p :: "f64 \<Rightarrow> f64"
  en_simulate :: "nat \<Rightarrow> BundleRecord \<Rightarrow> (bool \<times> string) + SimResult"
  en_ping :: "nat \<Rightarrow> string option"

record Service =
  sv_cfg :: RelayConfig
  sv_broker :: MemBroker
  sv_checkpts :: CheckpointStore
  sv_policyStore :: policyMemoryStore
  sv_wal :: WAL
  sv_state :: MemStore
  sv_queue :: Queue
  sv_metrics :: Metrics
  sv_policy :: ControlPolicy
  sv_recovery :: RecoverySnapshot
  sv_rollout :: RolloutSnapshot
  sv_routing :: Routing
  sv_draining :: bool
  sv_auth :: Authority
  sv_tick :: nat

type_synonym ('e, 'a) act = "Service \<Rightarrow> ('e + 'a) \<times> Service"

section \<open>Actions\<close>

definition ret :: "'a \<Rightarrow> ('e, 'a) act" where
  "ret x s = (Inr x, s)"

definition raise :: "'e \<Rightarrow> ('e, 'a) act" where
  "raise e s = (Inl e, s)"

definition bnd :: "('e, 'a) act \<Rightarrow> ('a \<Rightarrow> ('e, 'b) act) \<Rightarrow> ('e, 'b) act" where
  "bnd m f s = (case m s of (Inl e, s1) \<Rightarrow> (Inl e, s1) | (Inr x, s1) \<Rightarrow> f x s1)"

text \<open>Going on whatever the outcome (\<open>either\<close>), dropping it (\<open>ignore\<close>), and renaming an error.\<close>

definition either :: "('e, 'a) act \<Rightarrow> ('e + 'a \<Rightarrow> ('f, 'b) act) \<Rightarrow> ('f, 'b) act" where
  "either m f s = (case m s of (r, s1) \<Rightarrow> f r s1)"

definition ignore :: "('e, 'a) act \<Rightarrow> ('f, unit) act" where
  "ignore m = either m (\<lambda>_. ret ())"

definition tag :: "'t \<Rightarrow> ('e, 'a) act \<Rightarrow> ('e \<times> 't, 'a) act" where
  "tag t m = either m (\<lambda>r. case r of Inl e \<Rightarrow> raise (e, t) | Inr x \<Rightarrow> ret x)"

definition upd :: "(Service \<Rightarrow> Service) \<Rightarrow> ('e, unit) act" where
  "upd f s = (Inr (), f s)"

definition asks :: "(Service \<Rightarrow> 'a) \<Rightarrow> ('e, 'a) act" where
  "asks f s = (Inr (f s), s)"

definition metric :: "(Metrics \<Rightarrow> Metrics) \<Rightarrow> ('e, unit) act" where
  "metric f = upd (\<lambda>s. s\<lparr> sv_metrics := f (sv_metrics s) \<rparr>)"

definition on_err :: "(Metrics \<Rightarrow> Metrics) \<Rightarrow> ('e, 'a) act \<Rightarrow> ('e, 'a) act" where
  "on_err f m = either m (\<lambda>r. case r of Inl e \<Rightarrow> bnd (metric f) (\<lambda>_. raise e) | Inr x \<Rightarrow> ret x)"

definition doif :: "bool \<Rightarrow> ('e, unit) act \<Rightarrow> ('e, unit) act" where
  "doif c m = (if c then m else ret ())"

definition clock :: "SvcEnv \<Rightarrow> ('e, gtime) act" where
  "clock en s = (Inr (en_clk en (sv_tick s)), s\<lparr> sv_tick := sv_tick s + 1 \<rparr>)"

text \<open>A call of the store, of which the readings of the clock are the next three.\<close>

definition store_call :: "SvcEnv \<Rightarrow> ((nat \<Rightarrow> gtime) \<Rightarrow> MemStore \<Rightarrow> 'r \<times> MemStore) \<Rightarrow> ('e, 'r) act" where
  "store_call en f s = (case f (\<lambda>i. en_clk en (sv_tick s + i)) (sv_state s) of
     (r, st) \<Rightarrow> (Inr r, s\<lparr> sv_state := st, sv_tick := sv_tick s + 3 \<rparr>))"

definition store_try :: "SvcEnv \<Rightarrow> ((nat \<Rightarrow> gtime) \<Rightarrow> MemStore \<Rightarrow> (store_error + 'r) \<times> MemStore) \<Rightarrow> (relay_error, 'r) act" where
  "store_try en f = bnd (store_call en f) (\<lambda>r. case r of Inl e \<Rightarrow> raise (StoreErr e) | Inr x \<Rightarrow> ret x)"

definition transition :: "SvcEnv \<Rightarrow> string \<Rightarrow> BundleState \<Rightarrow> BundleState \<Rightarrow> string \<Rightarrow> (relay_error, BundleRecord) act" where
  "transition en bid from to reason = store_try en (\<lambda>clk. TransitionBundle clk bid from to reason)"

definition wal_append :: "SvcEnv \<Rightarrow> string \<Rightarrow> string \<Rightarrow> (relay_error, unit) act" where
  "wal_append en kind body = bnd (clock en) (\<lambda>t s.
     case AppendEncoded (en_io en) (en_enc en) (en_dec en) t kind body (sv_wal s) of
       (Inl e, w) \<Rightarrow> (Inl (OtherErr e), s\<lparr> sv_wal := w \<rparr>)
     | (Inr _, w) \<Rightarrow> (Inr (), s\<lparr> sv_wal := w \<rparr>))"

definition publish :: "Message \<Rightarrow> (relay_error, unit) act" where
  "publish msg s = (case Publish msg (sv_broker s) of
       (Some e, b) \<Rightarrow> (Inl (OtherErr e), s\<lparr> sv_broker := b \<rparr>)
     | (None, b) \<Rightarrow> (Inr (), s\<lparr> sv_broker := b \<rparr>))"

text \<open>Reading the clock before and after a call and storing the difference.\<close>

definition since :: "SvcEnv \<Rightarrow> (duration \<Rightarrow> Metrics \<Rightarrow> Metrics) \<Rightarrow> gtime \<Rightarrow> ('e, unit) act" where
  "since en observe start = bnd (clock en) (\<lambda>t. metric (observe (time_sub t start)))"

section \<open>Events\<close>

definition event_of :: "gtime \<Rightarrow> Authority \<Rightarrow> BundleRecord \<Rightarrow> BundleState \<Rightarrow> BundleState \<Rightarrow> string \<Rightarrow> EventRecord" where
  "event_of t auth rec from to reason =
     \<lparr> ev_Time = t, ev_BundleID = bd_ID rec, ev_BundleHash = bd_BundleHash rec, ev_From = from, ev_To = to,
        ev_Reason = reason, ev_Version = bd_Version rec, ev_Sequence = bd_Sequence rec, ev_ClientID = bd_ClientID rec,
        ev_RegionID = bd_RegionID rec, ev_ShardID = bd_ShardID rec, ev_LeaseID = au_LeaseID auth,
        ev_LeaseEpoch = au_Epoch auth, ev_FenceToken = au_FenceToken auth \<rparr>"

definition emitTransition ::
  "SvcEnv \<Rightarrow> BundleRecord \<Rightarrow> BundleState \<Rightarrow> BundleState \<Rightarrow> string \<Rightarrow> (relay_error, unit) act" where
  "emitTransition en rec from to reason =
     (bnd (asks sv_auth) (\<lambda>auth.
       bnd (clock en) (\<lambda>t.
       let ev = event_of t auth rec from to reason; body = en_evJSON en ev in
       bnd (clock en) (\<lambda>start.
       bnd (store_call en (\<lambda>_ st. ((), AppendEvent ev st))) (\<lambda>_.
       bnd (since en ObserveStateLatency start) (\<lambda>_.
       bnd (clock en) (\<lambda>start.
       bnd (on_err IncWALError (wal_append en ''event'' body)) (\<lambda>_.
       bnd (since en ObserveWALLatency start) (\<lambda>_.
       bnd (clock en) (\<lambda>start.
       bnd (asks (\<lambda>s. rc_BrokerTopic (sv_cfg s))) (\<lambda>topic.
       either (publish \<lparr> mg_Topic = topic @ ''.event'', mg_Key = bd_ID rec, mg_Sequence = ev_Sequence ev,
           mg_Timestamp = ev_Time ev, mg_Headers = [(''kind'', ''event'')], mg_Payload = body \<rparr>)
         (\<lambda>r. (bnd (since en ObserveBrokerLatency start) (\<lambda>_.
         case r of Inl e \<Rightarrow> raise e | Inr _ \<Rightarrow> ret ()))))))))))))))"

section \<open>Terminal states\<close>

definition signature :: "SvcEnv \<Rightarrow> string \<Rightarrow> BundleRecord \<Rightarrow> Authority \<Rightarrow> string" where
  "signature en rt rec auth =
     en_sha en (rt @ bd_ID rec @ bd_RegionID rec @ bd_ShardID rec @ au_LeaseID auth @ au_ShardID auth @
       show_nat 10 (unat (au_Epoch auth)) @ '':'' @ show_nat 10 (unat (au_FenceToken auth)))"

definition checkpoint_of :: "SvcEnv \<Rightarrow> gtime \<Rightarrow> Authority \<Rightarrow> BundleRecord \<Rightarrow> EventRecord list \<Rightarrow> CheckpointRecord" where
  "checkpoint_of en t auth rec events =
     (let rt = Root (en_sha en) (map (en_evJSON en) events) in
      \<lparr> cp_BatchID = checkpointID (bd_ID rec) (bd_Sequence rec), cp_BundleID = bd_ID rec, cp_ShardID = bd_ShardID rec,
        cp_ObjectKey = checkpointObjectKey (bd_ShardID rec) (bd_ID rec) (bd_Sequence rec), cp_Epoch = au_Epoch auth,
        cp_Root = EncodeToString rt, cp_EventCount = length events, cp_LastOffset = bd_Sequence rec,
        cp_RegionID = bd_RegionID rec, cp_SignedBy = ''relay'', cp_Signature = EncodeToString (signature en rt rec auth),
        cp_Time = t, cp_Version = bd_Version rec \<rparr>)"

definition put_checkpoint :: "CheckpointRecord \<Rightarrow> string \<Rightarrow> (relay_error, unit) act" where
  "put_checkpoint cp body s = (case cs_Put cp body (sv_checkpts s) of
       (Inl e, c) \<Rightarrow> (Inl (OtherErr e), s\<lparr> sv_checkpts := c \<rparr>)
     | (Inr _, c) \<Rightarrow> (Inr (), s\<lparr> sv_checkpts := c \<rparr>))"

text \<open>The metric counted for a bundle that reached its terminal state.\<close>

definition count_terminal :: "BundleState \<Rightarrow> Metrics \<Rightarrow> Metrics" where
  "count_terminal terminal =
     (if terminal = StateRejected then IncRejected else if terminal = StateDeadLetter then IncDeadLetter
      else if terminal = StateForwarded then IncForwarded else (\<lambda>m. m))"

text \<open>The part of \<^verbatim>\<open>finishTerminal\<close> that commits to the events of the completed bundle.\<close>

definition commit_checkpoint :: "SvcEnv \<Rightarrow> BundleRecord \<Rightarrow> (relay_error, unit) act" where
  "commit_checkpoint en rec =
     (bnd (asks (\<lambda>s. rc_HistoryLimit (sv_cfg s))) (\<lambda>limit.
       bnd (asks (\<lambda>s. ListEvents (bd_ID rec) limit (sv_state s))) (\<lambda>events.
       bnd (asks sv_auth) (\<lambda>auth.
       bnd (clock en) (\<lambda>t.
       let cp = checkpoint_of en t auth rec events; cpBody = en_cpJSON en cp in
       bnd (clock en) (\<lambda>start.
       bnd (on_err IncCheckpointError (put_checkpoint cp cpBody)) (\<lambda>_.
       bnd (since en ObserveCheckpointLatency start) (\<lambda>_.
       bnd (clock en) (\<lambda>start.
       bnd (store_call en (\<lambda>_ st. ((), PutCheckpoint (en_ordC en) cp st))) (\<lambda>_.
       bnd (since en ObserveStateLatency start) (\<lambda>_.
       bnd (clock en) (\<lambda>start.
       bnd (on_err IncWALError (wal_append en ''checkpoint'' cpBody)) (\<lambda>_.
       bnd (since en ObserveWALLatency start) (\<lambda>_.
       bnd (clock en) (\<lambda>start.
       bnd (asks (\<lambda>s. rc_BrokerTopic (sv_cfg s))) (\<lambda>topic.
       bnd (on_err IncBrokerError (publish \<lparr> mg_Topic = topic @ ''.checkpoint'', mg_Key = bd_ID rec,
         mg_Sequence = word_of_int (cp_Version cp), mg_Timestamp = cp_Time cp,
         mg_Headers = [(''kind'', ''checkpoint'')], mg_Payload = cpBody \<rparr>)) (\<lambda>_.
       bnd (since en ObserveBrokerLatency start) (\<lambda>_.
       store_call en (\<lambda>_ st. ((), DeleteEvents (bd_ID rec) st))))))))))))))))))))"

text \<open>
  The body of \<^verbatim>\<open>finishTerminal\<close>. Its error carries the value the variable \<^verbatim>\<open>rec\<close> has when the method
  returns, because the deferred release reads it: after a failed transition that is the zero
  record.
\<close>

definition finish_body ::
  "SvcEnv \<Rightarrow> BundleRecord \<Rightarrow> BundleState \<Rightarrow> string \<Rightarrow> (relay_error \<times> BundleRecord, BundleRecord) act" where
  "finish_body en rec0 terminal reason =
     (bnd (tag zero_bundle (on_err IncTerminalError (transition en (bd_ID rec0) terminal StatePersisted reason))) (\<lambda>rec.
       bnd (tag rec (on_err IncBrokerError (emitTransition en rec terminal StatePersisted ''persisted''))) (\<lambda>_.
       bnd (tag zero_bundle (on_err IncTerminalError (transition en (bd_ID rec) StatePersisted StateCompleted ''completed''))) (\<lambda>rec2.
       bnd (tag rec2 (on_err IncBrokerError (emitTransition en rec2 StatePersisted StateCompleted ''completed''))) (\<lambda>_.
       bnd (tag rec2 (commit_checkpoint en rec2)) (\<lambda>_.
       bnd (metric (count_terminal terminal)) (\<lambda>_.
       ret rec2)))))))"

definition release :: "SvcEnv \<Rightarrow> string \<Rightarrow> ('e, int) act" where
  "release en clientID = store_call en (\<lambda>_. ReleaseInflight clientID)"

definition finishTerminal ::
  "SvcEnv \<Rightarrow> BundleRecord \<Rightarrow> BundleState \<Rightarrow> string \<Rightarrow> (relay_error, BundleRecord) act" where
  "finishTerminal en rec terminal reason =
     (if bd_ID rec = [] then raise (OtherErr ''bundle not found'')
      else either (finish_body en rec terminal reason)
        (\<lambda>r. case r of
            Inl (e, cur) \<Rightarrow> (bnd (release en (bd_ClientID cur)) (\<lambda>_.
       raise e))
          | Inr cur \<Rightarrow> (bnd (release en (bd_ClientID cur)) (\<lambda>_.
       ret cur))))"

definition settleBundle ::
  "SvcEnv \<Rightarrow> string \<Rightarrow> BundleState \<Rightarrow> BundleState \<Rightarrow> string \<Rightarrow> (relay_error, BundleRecord) act" where
  "settleBundle en bid from terminal reason =
     (bnd (transition en bid from terminal reason) (\<lambda>rec.
       bnd (emitTransition en rec from terminal reason) (\<lambda>_.
       finishTerminal en rec terminal reason)))"

definition rejectBundle :: "SvcEnv \<Rightarrow> string \<Rightarrow> BundleState \<Rightarrow> string \<Rightarrow> (relay_error, BundleRecord) act" where
  "rejectBundle en bid from reason = settleBundle en bid from StateRejected reason"

definition deadLetterBundle :: "SvcEnv \<Rightarrow> string \<Rightarrow> BundleState \<Rightarrow> string \<Rightarrow> (relay_error, BundleRecord) act" where
  "deadLetterBundle en bid from reason = settleBundle en bid from StateDeadLetter reason"

text \<open>The backoff multiplication wraps around like any \<^verbatim>\<open>time.Duration\<close>.\<close>

definition scheduleRetry :: "SvcEnv \<Rightarrow> string \<Rightarrow> int \<Rightarrow> (relay_error, unit) act" where
  "scheduleRetry en bid retryCount =
     (bnd (asks (\<lambda>s. pol_RetryBackoff (sv_policy s))) (\<lambda>backoff.
       bnd (clock en) (\<lambda>t.
       let delay = wrap64 (backoff * retryCount) in
       bnd (store_call en (\<lambda>_. ScheduleRetry (en_ordR en) bid (t + delay))) (\<lambda>r.
       case r of Some e \<Rightarrow> raise (StoreErr e) | None \<Rightarrow> ret ()))))"

section \<open>Submission\<close>

definition record_of ::
  "string \<Rightarrow> int \<Rightarrow> BundleRequest \<Rightarrow> string \<Rightarrow> string \<Rightarrow> string \<Rightarrow> Authority \<Rightarrow> gtime \<Rightarrow> gtime \<Rightarrow> admissionDecision \<Rightarrow>
   BundleRecord" where
  "record_of hash rid p clientID regionID shardID auth created updated d = zero_bundle\<lparr>
     bd_ID := bundleID hash rid, bd_BundleHash := hash, bd_Request := p, bd_ClientID := clientID, bd_RegionID := regionID,
     bd_ShardID := shardID, bd_LeaseID := au_LeaseID auth, bd_LeaseEpoch := au_Epoch auth, bd_FenceToken := au_FenceToken auth,
     bd_State := StateReceived, bd_Reason := ''received'', bd_Version := 1, bd_Sequence := 1, bd_CreatedAt := created,
     bd_UpdatedAt := updated, bd_DeadlineAt := ad_deadline d, bd_ExpectedValue := ad_value d, bd_ExpectedCost := ad_cost d,
     bd_ExpectedServiceMS := ad_serviceMS d, bd_Priority := ad_priority d \<rparr>"

definition item_of :: "gtime \<Rightarrow> string \<Rightarrow> string \<Rightarrow> BundleRecord \<Rightarrow> Item" where
  "item_of t bid reason rec =
     \<lparr> it_ID = bid, it_Priority = bd_Priority rec, it_DeadlineAt = bd_DeadlineAt rec, it_EnqueuedAt = t,
        it_ExpectedValue = bd_ExpectedValue rec, it_ExpectedCost = bd_ExpectedCost rec,
        it_ExpectedServiceMS = bd_ExpectedServiceMS rec, it_Reason = reason \<rparr>"

text \<open>
  A call of \<^verbatim>\<open>queue.Push\<close>. The result \<open>PushBlocked\<close>, a push that would wait for ever, is handled like
  a refusal; the scheduler's invariant excludes it.
\<close>

definition push :: "SvcEnv \<Rightarrow> Item \<Rightarrow> ('e, push_result) act" where
  "push en item = (bnd (clock en) (\<lambda>t.
       (\<lambda>s. case q_Push t item (sv_queue s) of (r, q) \<Rightarrow> (Inr r, s\<lparr> sv_queue := q \<rparr>))))"

text \<open>What \<^verbatim>\<open>submitWithIdentity\<close> does with an item its push evicted.\<close>

definition evict_queued :: "SvcEnv \<Rightarrow> Item option \<Rightarrow> (relay_error, unit) act" where
  "evict_queued en evicted = (case evicted of
       None \<Rightarrow> ret ()
     | Some it \<Rightarrow> (bnd (asks (\<lambda>s. GetBundle (it_ID it) (sv_state s))) (\<lambda>found.
       case found of
           None \<Rightarrow> ret ()
         | Some evictedRec \<Rightarrow> doif (bd_State evictedRec = StateQueued)
             (ignore (bnd (transition en (it_ID it) StateQueued StateRejected ''priority eviction'') (\<lambda>rec.
         bnd (emitTransition en rec StateQueued StateRejected ''priority eviction'') (\<lambda>_.
         finishTerminal en rec StateRejected ''priority eviction'')))))))"

text \<open>The guards of a submission, in the order of the code; they return the request.\<close>

definition submit_guards :: "SvcEnv \<Rightarrow> JSONRPCRequest \<Rightarrow> (relay_error, BundleRequest) act" where
  "submit_guards en req =
     (bnd (metric IncSubmitted) (\<lambda>_.
       bnd (asks (\<lambda>s. s)) (\<lambda>s.
       if sv_draining s then raise RErrQueueDisabled
     else if \<not> rollout_AllowWrites (sv_rollout s) then raise ErrRolloutBlocked
     else if \<not> recovery_AllowWrites (sv_recovery s) then raise ErrQuarantined
     else case validateBundleRequest req of
         Some e \<Rightarrow> raise e
       | None \<Rightarrow> (let p = hd (jr_Params req);
                      route = Route (en_sha en) (sv_routing s) (bundleKey (en_sha en) p (rc_NetworkID (sv_cfg s)))
                 in if route \<noteq> [] \<and> route \<noteq> rc_ShardID (sv_cfg s)
                    then (bnd (metric IncWrongShard) (\<lambda>_.
         raise ErrWrongShard))
                    else (bnd (clock en) (\<lambda>t.
         if \<not> Valid t (sv_auth s) t
                        then (bnd (metric IncStaleAuthority) (\<lambda>_.
         raise RErrStaleAuthority))
                        else let policy = pol_Snapshot (sv_policy s) in
                          if f_lt (ps_Confidence policy) (f_mul (ps_ConfidenceFloor policy) (FFin (1 / 2)))
                          then (bnd (metric IncRejected) (\<lambda>_.
         raise ErrLowControlConfidence))
                          else ret p))))))"

definition admit :: "SvcEnv \<Rightarrow> BundleRequest \<Rightarrow> (relay_error, admissionDecision) act" where
  "admit en p = (bnd (clock en) (\<lambda>t1.
       bnd (clock en) (\<lambda>t2.
       asks (\<lambda>s. scoreAdmission (en_log1p en) t1 t2 (sv_cfg s) (pol_Snapshot (sv_policy s)) p))))"

definition create :: "SvcEnv \<Rightarrow> BundleRecord \<Rightarrow> (relay_error, BundleRecord) act" where
  "create en rec =
     (bnd (store_call en (\<lambda>clk. CreateBundle (en_ordB en) (clk 0) rec)) (\<lambda>r.
       case r of
       Inl (e, _) \<Rightarrow> (bnd (doif (e = ErrDuplicateBundle) (metric IncDuplicate)) (\<lambda>_.
         raise (StoreErr e)))
     | Inr rec \<Rightarrow> ret rec))"

text \<open>What follows the reservation of an in-flight slot.\<close>

definition enqueue :: "SvcEnv \<Rightarrow> BundleRecord \<Rightarrow> (relay_error, BundleRecord) act" where
  "enqueue en rec =
     (bnd (clock en) (\<lambda>t.
       bnd (push en (item_of t (bd_ID rec) ''admitted'' rec)) (\<lambda>r.
       case r of
       Pushed evicted \<Rightarrow>
         (bnd (metric IncAccepted) (\<lambda>_.
         bnd (evict_queued en evicted) (\<lambda>_.
         bnd (transition en (bd_ID rec) StateValidated StateQueued ''queued'') (\<lambda>rec2.
         bnd (emitTransition en rec2 StateValidated StateQueued ''queued'') (\<lambda>_.
         ret rec2)))))
     | _ \<Rightarrow> (bnd (metric IncQueueOverflow) (\<lambda>_.
         rejectBundle en (bd_ID rec) StateValidated ''queue overflow'')))))"

definition submitWithIdentity ::
  "SvcEnv \<Rightarrow> JSONRPCRequest \<Rightarrow> string \<Rightarrow> string \<Rightarrow> (relay_error, BundleRecord) act" where
  "submitWithIdentity en req clientID regionID =
     (bnd (submit_guards en req) (\<lambda>p.
       bnd (asks sv_auth) (\<lambda>auth.
       bnd (asks sv_cfg) (\<lambda>cfg.
       bnd (admit en p) (\<lambda>decision.
       bnd (clock en) (\<lambda>created.
       bnd (clock en) (\<lambda>updated.
       bnd (create en (record_of (bundleHash (en_sha en) p) (jr_ID req) p clientID regionID (rc_ShardID cfg) auth
               created updated decision)) (\<lambda>rec0.
       bnd (transition en (bd_ID rec0) StateReceived StateValidated ''validated'') (\<lambda>rec.
       bnd (emitTransition en rec StateReceived StateValidated ''validated'') (\<lambda>_.
       if \<not> ad_accepted decision
     then (bnd (metric IncRejected) (\<lambda>_.
         rejectBundle en (bd_ID rec) StateValidated (ad_reason decision)))
     else (bnd (store_call en (\<lambda>_. ReserveInflight clientID (rc_MaxInFlightPerClient cfg))) (\<lambda>r.
         case r of
           Inl _ \<Rightarrow> (bnd (metric IncInflightLimit) (\<lambda>_.
         rejectBundle en (bd_ID rec) StateValidated ''client inflight limit''))
         | Inr _ \<Rightarrow> enqueue en rec))))))))))))"

definition Submit :: "SvcEnv \<Rightarrow> JSONRPCRequest \<Rightarrow> (relay_error, BundleRecord) act" where
  "Submit en req = (bnd (asks (\<lambda>s. rc_RegionID (sv_cfg s))) (\<lambda>region.
       submitWithIdentity en req ''anonymous'' region))"

section \<open>Workers\<close>

text \<open>A failed simulation: retry it while the budget lasts, else give the bundle up.\<close>

definition retry_or_drop :: "SvcEnv \<Rightarrow> bool \<Rightarrow> string \<Rightarrow> BundleRecord \<Rightarrow> (relay_error, unit) act" where
  "retry_or_drop en retryable msg rec =
     (bnd (metric IncBackendError) (\<lambda>_.
       bnd (asks (\<lambda>s. rc_MaxRetries (sv_cfg s))) (\<lambda>maxRetries.
       if retryable \<and> bd_RetryCount rec + 1 \<le> maxRetries
     then (bnd (transition en (bd_ID rec) StateSimulating StateRetryPending ''transient failure'') (\<lambda>rec1.
         bnd (emitTransition en rec1 StateSimulating StateRetryPending ''transient failure'') (\<lambda>_.
         bnd (store_try en (\<lambda>clk. UpdateRetryCount clk (bd_ID rec1) (bd_RetryCount rec1 + 1))) (\<lambda>rec2.
         bnd (metric IncRetryPending) (\<lambda>_.
         bnd (metric IncRetryScheduled) (\<lambda>_.
         either (scheduleRetry en (bd_ID rec2) (bd_RetryCount rec2)) (\<lambda>r. case r of
             Inl e \<Rightarrow> (bnd (metric IncTerminalError) (\<lambda>_.
         ignore (deadLetterBundle en (bd_ID rec2) StateRetryPending ''retry schedule failed'')))
           | Inr _ \<Rightarrow> ret ())))))))
     else ignore (deadLetterBundle en (bd_ID rec) StateSimulating msg))))"

text \<open>A successful simulation: score it and finish.\<close>

definition conclude :: "SvcEnv \<Rightarrow> SimResult \<Rightarrow> BundleRecord \<Rightarrow> (relay_error, unit) act" where
  "conclude en result rec =
     (bnd (transition en (bd_ID rec) StateSimulating StateSimulated (si_Reason result)) (\<lambda>rec1.
       bnd (emitTransition en rec1 StateSimulating StateSimulated (si_Reason result)) (\<lambda>_.
       bnd (transition en (bd_ID rec1) StateSimulated StateScored ''scored'') (\<lambda>rec2.
       bnd (emitTransition en rec2 StateSimulated StateScored ''scored'') (\<lambda>_.
       let action = (if si_Success result then StateForwarded else StateRejected);
         terminalReason = (if si_Success result then ''score accepted'' else ''score below threshold'') in
       bnd (transition en (bd_ID rec2) StateScored action terminalReason) (\<lambda>rec3.
       bnd (emitTransition en rec3 StateScored action terminalReason) (\<lambda>_.
       bnd (store_try en (\<lambda>clk. UpdateResult clk (bd_ID rec3) (si_Score result) (si_ProfitEth result) terminalReason)) (\<lambda>rec4.
       bnd (finishTerminal en rec4 action terminalReason) (\<lambda>_.
       ret ())))))))))"

definition simulate :: "SvcEnv \<Rightarrow> BundleRecord \<Rightarrow> (relay_error, (bool \<times> string) + SimResult) act" where
  "simulate en rec s = (Inr (en_simulate en (sv_tick s) rec), s\<lparr> sv_tick := sv_tick s + 1 \<rparr>)"

text \<open>Picking a bundle whose checks passed.\<close>

definition pick :: "SvcEnv \<Rightarrow> BundleRecord \<Rightarrow> (relay_error, unit) act" where
  "pick en rec0 =
     (bnd (transition en (bd_ID rec0) StateQueued StateSimulating ''picked'') (\<lambda>rec.
       bnd (emitTransition en rec StateQueued StateSimulating ''picked'') (\<lambda>_.
       bnd (simulate en rec) (\<lambda>r.
       case r of
       Inl (retryable, msg) \<Rightarrow> retry_or_drop en retryable msg rec
     | Inr result \<Rightarrow> conclude en result rec))))"

definition process :: "SvcEnv \<Rightarrow> Item \<Rightarrow> (relay_error, unit) act" where
  "process en item =
     (bnd (clock en) (\<lambda>t0.
       bnd (asks (\<lambda>s. s)) (\<lambda>s.
       if \<not> Valid t0 (sv_auth s) t0 then metric IncStaleAuthority
     else case GetBundle (it_ID item) (sv_state s) of
       None \<Rightarrow> ret ()
     | Some rec \<Rightarrow>
         if bd_ShardID rec \<noteq> rc_ShardID (sv_cfg s) then metric IncWrongShard
         else (bnd (clock en) (\<lambda>t1.
         if \<not> time_is_zero (bd_DeadlineAt rec) \<and> t1 > bd_DeadlineAt rec
             then ignore (rejectBundle en (bd_ID rec) StateQueued ''expired in queue'')
             else if \<not> time_is_zero (bd_QueuedAt rec) \<and> time_sub t1 (bd_QueuedAt rec) > pol_MaxQueueAge (sv_policy s)
             then ignore (rejectBundle en (bd_ID rec) StateQueued ''queue age exceeded'')
             else if f_lt (f_sub (bd_ExpectedValue rec) (bd_ExpectedCost rec)) (pc_minNetValue (sv_policy s))
             then ignore (rejectBundle en (bd_ID rec) StateQueued ''insufficient priority'')
             else (bnd ((if time_is_zero (bd_DeadlineAt rec) then ret 0 else clock en)) (\<lambda>t2.
         if \<not> time_is_zero (bd_DeadlineAt rec) \<and>
                  wrap64 (bd_ExpectedServiceMS rec * millisecond) > time_sub (bd_DeadlineAt rec) t2
               then ignore (rejectBundle en (bd_ID rec) StateQueued ''insufficient slack'')
               else pick en rec)))))))"

section \<open>Retries\<close>

definition processRetry :: "SvcEnv \<Rightarrow> string \<Rightarrow> (relay_error, unit) act" where
  "processRetry en bid =
     (bnd (asks (\<lambda>s. s)) (\<lambda>s.
       case GetBundle bid (sv_state s) of
       None \<Rightarrow> ret ()
     | Some rec0 \<Rightarrow>
         if bd_ShardID rec0 \<noteq> rc_ShardID (sv_cfg s) then metric IncWrongShard
         else if bd_State rec0 \<noteq> StateRetryPending then ret ()
         else if bd_RetryCount rec0 \<ge> rc_MaxRetries (sv_cfg s)
         then ignore (deadLetterBundle en bid StateRetryPending ''retry exhausted'')
         else (bnd (transition en bid StateRetryPending StateQueued ''retry queued'') (\<lambda>rec.
         bnd (emitTransition en rec StateRetryPending StateQueued ''retry queued'') (\<lambda>_.
         bnd (clock en) (\<lambda>t.
         if \<not> time_is_zero (bd_DeadlineAt rec) \<and> t > bd_DeadlineAt rec
             then ignore (deadLetterBundle en bid StateQueued ''retry expired'')
             else (bnd (asks (\<lambda>s. pc_minNetValue (sv_policy s))) (\<lambda>minNet.
         if f_lt (f_sub (bd_ExpectedValue rec) (bd_ExpectedCost rec)) minNet
               then ignore (deadLetterBundle en bid StateQueued ''retry uneconomic'')
               else (bnd (clock en) (\<lambda>t2.
         bnd (push en (item_of t2 bid ''retry queued'' rec)) (\<lambda>r.
         case r of
                   Pushed None \<Rightarrow> ret ()
                 | Pushed (Some ev) \<Rightarrow> ignore (rejectBundle en (it_ID ev) StateQueued ''priority eviction'')
                 | _ \<Rightarrow> (bnd (metric IncQueueOverflow) (\<lambda>_.
         ignore (deadLetterBundle en bid StateQueued ''retry queue overflow''))))))))))))))"

fun process_retries :: "SvcEnv \<Rightarrow> string list \<Rightarrow> (relay_error, unit) act" where
  "process_retries en [] = ret ()"
| "process_retries en (bid # bids) = bnd (ignore (processRetry en bid)) (\<lambda>_. process_retries en bids)"

definition claim_due :: "SvcEnv \<Rightarrow> (relay_error, string list) act" where
  "claim_due en = (bnd (clock en) (\<lambda>t.
       store_try en (\<lambda>_. ClaimDueRetries (en_ordR en) t 256)))"

text \<open>
  The loop of \<^verbatim>\<open>drainRetries\<close>, with a bound on its rounds: \<open>None\<close> when they are used up. As many
  rounds as there are scheduled retries, and one more, are always enough.
\<close>

fun drain_loop :: "nat \<Rightarrow> SvcEnv \<Rightarrow> Service \<Rightarrow> Service option" where
  "drain_loop 0 en s = None"
| "drain_loop (Suc n) en s = (case claim_due en s of
        (Inl _, s1) \<Rightarrow> Some s1
      | (Inr bids, s1) \<Rightarrow> (if bids = [] then Some s1 else drain_loop n en (snd (process_retries en bids s1))))"

definition drainRetries :: "SvcEnv \<Rightarrow> Service \<Rightarrow> Service option" where
  "drainRetries en s = drain_loop (Suc (gm_len (ms_retries (sv_state s)))) en s"

section \<open>Authority, start, recovery\<close>

definition renewAuthority :: "SvcEnv \<Rightarrow> (relay_error, unit) act" where
  "renewAuthority en =
     (bnd (clock en) (\<lambda>t.
       bnd (upd (\<lambda>s. s\<lparr> sv_auth := Renew t (sv_auth s) (rc_LeaseTTL (sv_cfg s)) t \<rparr>)) (\<lambda>_.
       bnd (asks sv_auth) (\<lambda>auth.
       bnd (store_call en (\<lambda>_. SetAuthority auth)) (\<lambda>r.
       case r of Some _ \<Rightarrow> metric IncStaleAuthority | None \<Rightarrow> ret ())))))"

definition check :: "(Service \<Rightarrow> relay_error option) \<Rightarrow> (relay_error, unit) act" where
  "check f s = (case f s of Some e \<Rightarrow> (Inl e, s) | None \<Rightarrow> (Inr (), s))"

definition wal_check :: "SvcEnv \<Rightarrow> (relay_error, unit) act" where
  "wal_check en s = (case wal_Health (en_io en) (sv_wal s) of
       (Inl e, w) \<Rightarrow> (Inl (OtherErr e), s\<lparr> sv_wal := w \<rparr>)
     | (Inr _, w) \<Rightarrow> (Inr (), s\<lparr> sv_wal := w \<rparr>))"

definition recovery_upd :: "SvcEnv \<Rightarrow> (gtime \<Rightarrow> string \<Rightarrow> RecoverySnapshot \<Rightarrow> RecoverySnapshot) \<Rightarrow> string \<Rightarrow> (relay_error, unit) act" where
  "recovery_upd en f reason = (bnd (clock en) (\<lambda>t.
       upd (\<lambda>s. s\<lparr> sv_recovery := f t reason (sv_recovery s) \<rparr>)))"

definition New_Service :: "SvcEnv \<Rightarrow> RelayConfig \<Rightarrow> gtime \<Rightarrow> MemBroker \<Rightarrow> CheckpointStore \<Rightarrow> MemStore \<Rightarrow> WAL \<Rightarrow> Service" where
  "New_Service en cfg t br cps st wal =
     (let leaseID = rc_ShardID cfg @ ''-'' @ show_int 10 (wrap64 (t - 62135596800000000000));
          policy = NewControlPolicy cfg; seed = pol_Snapshot policy
      in \<lparr> sv_cfg = cfg, sv_broker = br, sv_checkpts = cps, sv_policyStore = newPolicyMemoryStore, sv_wal = wal,
           sv_state = st, sv_queue = New_Queue (rc_QueueDepth cfg),
           sv_metrics = SetPolicy (ps_Revision seed) (ps_Pressure seed) (ps_Confidence seed) New_Metrics,
           sv_policy = policy, sv_recovery = NewRecoveryController, sv_rollout = NewRolloutController ''v3'',
           sv_routing = NewRouting (rc_ShardSet cfg), sv_draining = False,
           sv_auth = NewAuthority t (rc_ShardID cfg) leaseID 1 (rc_LeaseTTL cfg) t, sv_tick = 0 \<rparr>)"

definition Bootstrap :: "SvcEnv \<Rightarrow> (relay_error, unit) act" where
  "Bootstrap en =
     (bnd (check (\<lambda>s. map_option OtherErr (en_ping en (sv_tick s)))) (\<lambda>_.
       bnd (check (\<lambda>s. map_option StoreErr (ms_Health (sv_state s)))) (\<lambda>_.
       bnd (wal_check en) (\<lambda>_.
       bnd (check (\<lambda>s. map_option OtherErr (cs_Health (sv_checkpts s)))) (\<lambda>_.
       bnd (check (\<lambda>s. map_option OtherErr (policy_Health (sv_policyStore s)))) (\<lambda>_.
       bnd (asks sv_auth) (\<lambda>auth.
       bnd (store_call en (\<lambda>_. SetAuthority auth)) (\<lambda>r.
       case r of
       Some e \<Rightarrow> raise (StoreErr e)
     | None \<Rightarrow> (bnd (recovery_upd en recovery_Validate ''bootstrap complete'') (\<lambda>_.
         bnd (asks (\<lambda>s. policy_Load (rc_ShardID (sv_cfg s)) (sv_policyStore s))) (\<lambda>l.
         case l of
             Inl e \<Rightarrow> raise (OtherErr e)
           | Inr None \<Rightarrow> ret ()
           | Inr (Some snap) \<Rightarrow> (bnd (upd (\<lambda>s. s\<lparr> sv_policy := ApplySnapshot snap (sv_policy s) \<rparr>)) (\<lambda>_.
         metric (SetPolicy (ps_Revision snap) (ps_Pressure snap) (ps_Confidence snap)))))))))))))))"

definition Drain :: "SvcEnv \<Rightarrow> (relay_error, unit) act" where
  "Drain en = (bnd (clock en) (\<lambda>t.
       upd (\<lambda>s. s\<lparr> sv_draining := True, sv_rollout := BeginDrain t ''operator drain'' (sv_rollout s) \<rparr>)))"

text \<open>The first call of \<^verbatim>\<open>Stop\<close>; \<^verbatim>\<open>stopOnce\<close> makes later ones only close the policy store again.\<close>

definition Stop :: "SvcEnv \<Rightarrow> (relay_error, unit) act" where
  "Stop en = (bnd (clock en) (\<lambda>t.
       upd (\<lambda>s. s\<lparr> sv_draining := True, sv_rollout := BeginDrain t ''shutdown'' (sv_rollout s), sv_queue := q_Close (sv_queue s),
        sv_policyStore := policy_Close (sv_policyStore s) \<rparr>)))"

definition Get :: "string \<Rightarrow> Service \<Rightarrow> BundleRecord option" where
  "Get bid s = GetBundle bid (sv_state s)"

definition svc_Snapshot :: "SvcEnv \<Rightarrow> Service \<Rightarrow> BundleRecord list \<times> CheckpointRecord list" where
  "svc_Snapshot en s = (ListBundles (en_ordB en) (rc_HistoryLimit (sv_cfg s)) (sv_state s),
     ListCheckpoints (en_ordC en) (rc_HistoryLimit (sv_cfg s)) (sv_state s))"

definition Recover :: "SvcEnv \<Rightarrow> (relay_error, unit) act" where
  "Recover en =
     (bnd (recovery_upd en BeginReplay ''operator requested recovery'') (\<lambda>_.
       bnd (asks (svc_Snapshot en)) (\<lambda>rc.
       bnd (asks sv_cfg) (\<lambda>cfg.
       if fst rc = [] \<and> snd rc = [] then recovery_upd en recovery_Validate ''empty store''
     else if snd rc = [] then (bnd (recovery_upd en Quarantine ''checkpoint missing'') (\<lambda>_.
         raise ErrQuarantined))
     else let lst = last (snd rc) in
       if cp_ShardID lst \<noteq> rc_ShardID cfg \<or> cp_Root lst = [] \<or> cp_BundleID lst = []
       then (bnd (recovery_upd en Quarantine ''checkpoint mismatch'') (\<lambda>_.
         raise ErrQuarantined))
       else (bnd (recovery_upd en BeginValidation ''checkpoint validated'') (\<lambda>_.
         recovery_upd en recovery_Validate ''rejoin complete''))))))"

end
