(* ===== verification/Relay_Health.thy ===== *)
theory Relay_Health
  imports Relay_Service
begin

text \<open>
  Health assessment (\<^verbatim>\<open>relay/health.go\<close>), readiness and one round of the policy loop
  (\<^verbatim>\<open>service.go\<close>), and the HTTP handlers (\<^verbatim>\<open>http.go\<close>) of relay v3. JSON decoding of a request body is a
  parameter; of an answer the status and the part the handler computes are modelled.

  The lemmas show that a report is ready only if nothing that must be healthy is not, and that an
  unauthorised request changes nothing.
\<close>

section \<open>Assessment\<close>

definition item_stale :: "gtime \<Rightarrow> duration \<Rightarrow> Item \<Rightarrow> bool" where
  "item_stale t maxAge it \<longleftrightarrow>
     (\<not> time_is_zero (it_DeadlineAt it) \<and> t > it_DeadlineAt it) \<or>
     (\<not> time_is_zero (it_EnqueuedAt it) \<and> time_sub t (it_EnqueuedAt it) > maxAge)"

definition queue_net :: "Item list \<Rightarrow> f64" where
  "queue_net items = foldl (\<lambda>acc it.
     let net = f_sub (it_ExpectedValue it) (it_ExpectedCost it) in if f_lt f_zero net then f_add acc net else acc) f_zero items"

definition retry_weight :: "gtime \<Rightarrow> duration \<Rightarrow> BundleRecord \<Rightarrow> f64" where
  "retry_weight t maxAge rec =
     (let w = f_add f_one (f_of_int (bd_RetryCount rec)); age = time_sub t (bd_UpdatedAt rec) in
      if \<not> time_is_zero (bd_UpdatedAt rec) \<and> maxAge > 0 \<and> age > 0
      then f_add w (f_div (f_of_int age) (f_of_int maxAge)) else w)"

definition retry_debt :: "gtime \<Rightarrow> duration \<Rightarrow> BundleRecord list \<Rightarrow> f64" where
  "retry_debt t maxAge recs = foldl (\<lambda>acc rec. f_add acc (retry_weight t maxAge rec)) f_zero
     (filter (\<lambda>rec. bd_State rec = StateRetryPending) recs)"

text \<open>The report before any check, from the state and the reading \<open>t\<close> of the clock.\<close>

definition initial_report :: "SvcEnv \<Rightarrow> gtime \<Rightarrow> Service \<Rightarrow> HealthReport" where
  "initial_report en t s =
     (let items = qu_items (sv_queue s); policy = pol_Snapshot (sv_policy s);
          recs = ListBundles (en_ordB en) (rc_HistoryLimit (sv_cfg s)) (sv_state s) in
      \<lparr> hr_State = HealthStateHealthy, hr_Ready = True, hr_Reasons = [],
        hr_PolicyRevision = ps_Revision policy, hr_PolicyPressure = ps_Pressure policy,
        hr_PolicyConfidence = ps_Confidence policy, hr_PolicyFloor = ps_ConfidenceFloor policy,
        hr_PolicyMinNet = ps_MinNetValue policy, hr_PolicyMinSlackMS = ms_of (ps_MinDeadlineSlack policy),
        hr_PolicyMaxAgeMS = ms_of (ps_MaxQueueAge policy), hr_PolicyBackoffMS = ms_of (ps_RetryBackoff policy),
        hr_RecoveryState = recovery_string (re_Stage (sv_recovery s)), hr_RecoveryReason = re_LastReason (sv_recovery s),
        hr_RolloutState = rollout_string (rl_Stage (sv_rollout s)), hr_RolloutReason = rl_Reason (sv_rollout s),
        hr_RolloutVersion = rl_Version (sv_rollout s), hr_QueueDepth = int (q_Len (sv_queue s)),
        hr_QueueCap = qu_cap (sv_queue s), hr_QueueOldestAgeMS = ms_of (q_OldestAge t (sv_queue s)),
        hr_QueueNetValue = queue_net items,
        hr_QueueStaleCount = int (length (filter (item_stale t (rc_MaxQueueAge (sv_cfg s))) items)),
        hr_RetryPending = int (length (filter (\<lambda>rec. bd_State rec = StateRetryPending) recs)),
        hr_AuthorityShard = au_ShardID (sv_auth s), hr_AuthorityEpoch = au_Epoch (sv_auth s),
        hr_AuthorityFresh = Valid t (sv_auth s) t, hr_RegionID = rc_RegionID (sv_cfg s) \<rparr>)"

definition unsafe_if :: "bool \<Rightarrow> string \<Rightarrow> HealthReport \<Rightarrow> HealthReport" where
  "unsafe_if c reason r =
     (if c then r\<lparr> hr_State := HealthStateUnsafe, hr_Ready := False, hr_Reasons := hr_Reasons r @ [reason] \<rparr> else r)"

definition degraded_if :: "bool \<Rightarrow> string \<Rightarrow> HealthReport \<Rightarrow> HealthReport" where
  "degraded_if c reason r =
     (if c \<and> hr_State r = HealthStateHealthy
      then r\<lparr> hr_State := HealthStateDegraded, hr_Reasons := hr_Reasons r @ [reason] \<rparr> else r)"

definition draining_if :: "bool \<Rightarrow> HealthReport \<Rightarrow> HealthReport" where
  "draining_if c r =
     (if c then r\<lparr> hr_State := HealthStateDraining, hr_Ready := False, hr_Reasons := hr_Reasons r @ [''draining''] \<rparr> else r)"

definition confidence_check :: "HealthReport \<Rightarrow> HealthReport" where
  "confidence_check r =
     (if f_lt (hr_PolicyConfidence r) (hr_PolicyFloor r)
      then (let r1 = r\<lparr> hr_Ready := False \<rparr> in
        if f_lt (hr_PolicyConfidence r1) (f_mul (hr_PolicyFloor r1) (FFin (1 / 2)))
        then r1\<lparr> hr_State := HealthStateUnsafe, hr_Reasons := hr_Reasons r1 @ [''policy confidence critically low''] \<rparr>
        else degraded_if True ''policy confidence low'' r1)
      else r)"

text \<open>The checks in the order of the code; the outcomes of the pings are arguments.\<close>

definition assess :: "Service \<Rightarrow> bool \<Rightarrow> bool \<Rightarrow> HealthReport \<Rightarrow> HealthReport" where
  "assess s walErr backendErr r0 =
     (let policy = pol_Snapshot (sv_policy s);
          r1 = draining_if (sv_draining s) r0;
          r2 = degraded_if (\<not> rollout_Ready (sv_rollout s)) ''rollout in progress'' r1;
          r3 = unsafe_if (\<not> recovery_Ready (sv_recovery s)) ''recovery not ready'' r2;
          r4 = unsafe_if walErr ''wal unhealthy'' r3;
          r5 = unsafe_if (cs_Health (sv_checkpts s) \<noteq> None) ''checkpoint store unhealthy'' r4;
          r6 = unsafe_if (policy_Health (sv_policyStore s) \<noteq> None) ''policy store unhealthy'' r5;
          r7 = unsafe_if (ms_Health (sv_state s) \<noteq> None) ''state unhealthy'' r6;
          r8 = unsafe_if backendErr ''backend unhealthy'' r7;
          r9 = unsafe_if (broker_Ping (sv_broker s) \<noteq> None) ''broker unhealthy'' r8;
          r10 = unsafe_if (\<not> hr_AuthorityFresh r9) ''authority stale'' r9;
          r11 = degraded_if (hr_QueueCap r10 > 0 \<and>
                  go_div (wrap64 (hr_QueueDepth r10 * 100)) (hr_QueueCap r10) \<ge> ps_QueuePressurePct policy) ''queue pressure'' r10;
          r12 = unsafe_if (hr_QueueCap r11 > 0 \<and> hr_QueueOldestAgeMS r11 > ms_of (ps_MaxQueueAge policy)) ''queue age exceeded'' r11;
          r13 = degraded_if (hr_QueueDepth r12 > 0 \<and> f_le (hr_QueueNetValue r12) (ps_MinNetValue policy)) ''low queue value'' r12;
          r14 = degraded_if (hr_RetryPending r13 > 0) ''retry debt'' r13;
          r15 = confidence_check r14;
          r16 = unsafe_if (hr_QueueCap r15 > 0 \<and> hr_QueueDepth r15 \<ge> hr_QueueCap r15) ''queue full'' r15
      in unsafe_if (hr_QueueStaleCount r16 > 0) ''stale work present'' r16)"

fun health_code :: "HealthState \<Rightarrow> 32 word" where
  "health_code HealthStateHealthy = 1"
| "health_code HealthStateDegraded = 2"
| "health_code HealthStateDraining = 3"
| "health_code HealthStateUnsafe = 4"

definition health_metrics :: "HealthReport \<Rightarrow> f64 \<Rightarrow> Metrics \<Rightarrow> Metrics" where
  "health_metrics r debt m =
     SetPolicy (hr_PolicyRevision r) (hr_PolicyPressure r) (hr_PolicyConfidence r)
       (SetQueue (word_of_int (hr_QueueDepth r)) (word_of_int (hr_QueueCap r)) (word_of_int (hr_QueueOldestAgeMS r))
          (hr_QueueNetValue r) debt
         (SetRolloutState (hr_RolloutState r) (SetRecoveryState (hr_RecoveryState r)
           (SetHealthState (health_code (hr_State r)) m))))"

definition AssessHealth :: "SvcEnv \<Rightarrow> Service \<Rightarrow> HealthReport \<times> Service" where
  "AssessHealth en s0 =
     (let t = en_clk en (sv_tick s0);
          s1 = s0\<lparr> sv_tick := sv_tick s0 + 1 \<rparr>;
          r0 = initial_report en t s1;
          debt = retry_debt t (rc_MaxQueueAge (sv_cfg s1))
             (ListBundles (en_ordB en) (rc_HistoryLimit (sv_cfg s1)) (sv_state s1));
          (walRes, s2) = wal_check en s1;
          r = assess s2 (isl walRes) (en_ping en (sv_tick s2) \<noteq> None) r0
      in (r, s2\<lparr> sv_metrics := health_metrics r debt (sv_metrics s2) \<rparr>))"

definition Ready :: "SvcEnv \<Rightarrow> Service \<Rightarrow> relay_error option \<times> Service" where
  "Ready en s =
     (let (report, s1) = AssessHealth en s in
      (if \<not> hr_Ready report then Some (OtherErr ''relay unsafe'')
       else if sv_draining s1 then Some (OtherErr ''relay draining'')
       else if \<not> rollout_Ready (sv_rollout s1) then Some ErrRolloutBlocked
       else if \<not> recovery_Ready (sv_recovery s1) then Some ErrQuarantined
       else None, s1))"

text \<open>One tick of \<^verbatim>\<open>policyLoop\<close>.\<close>

definition policy_tick :: "SvcEnv \<Rightarrow> Service \<Rightarrow> Service" where
  "policy_tick en s =
     (let prev = pol_Snapshot (sv_policy s);
          (report, s1) = AssessHealth en s;
          snap = mt_Snapshot (sv_metrics s1);
          (view, p) = Adapt (sv_cfg s1) snap report (sv_policy s1);
          m1 = SetPolicy (ps_Revision view) (ps_Pressure view) (ps_Confidence view) (sv_metrics s1);
          m2 = (if ps_Revision view \<noteq> ps_Revision prev then IncPolicyAdjustment m1 else m1)
      in s1\<lparr> sv_policy := p, sv_metrics := m2,
            sv_policyStore := snd (policy_Save (rc_ShardID (sv_cfg s1)) view (sv_policyStore s1)) \<rparr>)"

section \<open>HTTP\<close>

record HttpRequest =
  hq_Method :: string
  hq_Path :: string
  hq_Authorization :: string
  hq_RemoteAddr :: string
  hq_Query_id :: string
  hq_Body :: string

datatype HttpBody = NoBody | TextBody string | ReportBody HealthReport | RecordBody BundleRecord | SubmitBody int BundleRecord
  | MetricsBody MetricsSnapshot | ShardBody string string "string list" HealthState | ValidatorsBody string string

type_synonym http_answer = "int \<times> HttpBody"

text \<open>\<^verbatim>\<open>net.SplitHostPort\<close> is a parameter: \<open>None\<close> when the address has no port.\<close>

definition clientIdentity :: "(string \<Rightarrow> string option) \<Rightarrow> string \<Rightarrow> string" where
  "clientIdentity splitHost remoteAddr = (case splitHost remoteAddr of
       Some host \<Rightarrow> (if host \<noteq> [] then host else if remoteAddr \<noteq> [] then remoteAddr else ''unknown'')
     | None \<Rightarrow> (if remoteAddr \<noteq> [] then remoteAddr else ''unknown''))"

definition requireAuth :: "string \<Rightarrow> HttpRequest \<Rightarrow> relay_error option" where
  "requireAuth token r =
     (if token = [] then None
      else let header = TrimSpace (hq_Authorization r) in
        if header = [] then Some ErrMissingAuthorization
        else if header \<noteq> ''Bearer '' @ token then Some ErrInvalidAuthorization
        else None)"

text \<open>
  The body decoder sees at most \<^verbatim>\<open>MaxPayloadBytes\<close> bytes: \<open>decode\<close> is given the limit and fails when
  the value does not end within it.
\<close>

definition submitBundle ::
  "SvcEnv \<Rightarrow> (int \<Rightarrow> string \<Rightarrow> string + JSONRPCRequest) \<Rightarrow> (string \<Rightarrow> string option) \<Rightarrow> HttpRequest \<Rightarrow>
   Service \<Rightarrow> http_answer \<times> Service" where
  "submitBundle en decode splitHost r s = (case requireAuth (rc_APIAuthToken (sv_cfg s)) r of
       Some e \<Rightarrow> ((401, TextBody []), s)
     | None \<Rightarrow> (case decode (rc_MaxPayloadBytes (sv_cfg s)) (hq_Body r) of
         Inl msg \<Rightarrow> ((400, TextBody msg), s)
       | Inr req \<Rightarrow> (case submitWithIdentity en req (clientIdentity splitHost (hq_RemoteAddr r)) (rc_RegionID (sv_cfg s)) s of
           (Inl e, s1) \<Rightarrow> ((statusForError (Some e), TextBody []), s1)
         | (Inr rec, s1) \<Rightarrow> ((200, SubmitBody (jr_ID req) rec), s1))))"

definition getBundle :: "HttpRequest \<Rightarrow> Service \<Rightarrow> http_answer" where
  "getBundle r s =
     (if hq_Query_id r = [] then (400, TextBody ''missing id'')
      else case Get (hq_Query_id r) s of
          None \<Rightarrow> (404, TextBody ''not found'')
        | Some rec \<Rightarrow> (200, RecordBody rec))"

definition relay_ServeHTTP ::
  "SvcEnv \<Rightarrow> (int \<Rightarrow> string \<Rightarrow> string + JSONRPCRequest) \<Rightarrow> (string \<Rightarrow> string option) \<Rightarrow> HttpRequest \<Rightarrow>
   Service \<Rightarrow> http_answer \<times> Service" where
  "relay_ServeHTTP en decode splitHost r s =
     (let get = (hq_Method r = ''GET''); post = (hq_Method r = ''POST''); path = hq_Path r in
      if get \<and> path = ''/healthz'' then (let (rep, s1) = AssessHealth en s in ((200, ReportBody rep), s1))
      else if get \<and> path = ''/readyz''
      then (let (rep, s1) = AssessHealth en s in ((if hr_Ready rep then 200 else 503, ReportBody rep), s1))
      else if get \<and> path = ''/metrics'' then ((200, MetricsBody (mt_Snapshot (sv_metrics s))), s)
      else if get \<and> path = ''/relay/v1/data/validator_registration''
      then (let (rep, s1) = AssessHealth en s in
             ((200, ShardBody (rc_RegionID (sv_cfg s1)) (rc_ShardID (sv_cfg s1)) (rc_ShardSet (sv_cfg s1)) (hr_State rep)), s1))
      else if get \<and> path = ''/relay/v1/builder/validators''
      then ((200, ValidatorsBody (rc_ShardID (sv_cfg s)) (rc_RegionID (sv_cfg s))), s)
      else if post \<and> (path = ''/relay/v1/builder/blocks'' \<or> path = ''/relay/v3/bundle'')
      then submitBundle en decode splitHost r s
      else if get \<and> HasPrefix path ''/relay/v1/builder/blocks'' then (getBundle r s, s)
      else ((404, NoBody), s))"

section \<open>Readiness\<close>

lemma unsafe_if_ready: "hr_Ready (unsafe_if c reason r) \<longleftrightarrow> hr_Ready r \<and> \<not> c"
  by (simp add: unsafe_if_def)

lemma degraded_if_ready [simp]: "hr_Ready (degraded_if c reason r) = hr_Ready r"
  by (simp add: degraded_if_def)

lemma draining_if_ready: "hr_Ready (draining_if c r) \<longleftrightarrow> hr_Ready r \<and> \<not> c"
  by (simp add: draining_if_def)

lemma confidence_check_ready:
  "hr_Ready (confidence_check r) \<longleftrightarrow> hr_Ready r \<and> \<not> f_lt (hr_PolicyConfidence r) (hr_PolicyFloor r)"
  by (simp add: confidence_check_def Let_def)

lemma check_fields [simp]:
  "hr_AuthorityFresh (unsafe_if c reason r) = hr_AuthorityFresh r" "hr_QueueCap (unsafe_if c reason r) = hr_QueueCap r"
  "hr_QueueDepth (unsafe_if c reason r) = hr_QueueDepth r" "hr_QueueStaleCount (unsafe_if c reason r) = hr_QueueStaleCount r"
  "hr_QueueOldestAgeMS (unsafe_if c reason r) = hr_QueueOldestAgeMS r"
  "hr_PolicyConfidence (unsafe_if c reason r) = hr_PolicyConfidence r" "hr_PolicyFloor (unsafe_if c reason r) = hr_PolicyFloor r"
  "hr_AuthorityFresh (degraded_if c reason r) = hr_AuthorityFresh r" "hr_QueueCap (degraded_if c reason r) = hr_QueueCap r"
  "hr_QueueDepth (degraded_if c reason r) = hr_QueueDepth r" "hr_QueueStaleCount (degraded_if c reason r) = hr_QueueStaleCount r"
  "hr_QueueOldestAgeMS (degraded_if c reason r) = hr_QueueOldestAgeMS r"
  "hr_PolicyConfidence (degraded_if c reason r) = hr_PolicyConfidence r" "hr_PolicyFloor (degraded_if c reason r) = hr_PolicyFloor r"
  "hr_AuthorityFresh (draining_if c r) = hr_AuthorityFresh r" "hr_QueueCap (draining_if c r) = hr_QueueCap r"
  "hr_QueueDepth (draining_if c r) = hr_QueueDepth r" "hr_QueueStaleCount (draining_if c r) = hr_QueueStaleCount r"
  "hr_QueueOldestAgeMS (draining_if c r) = hr_QueueOldestAgeMS r"
  "hr_PolicyConfidence (draining_if c r) = hr_PolicyConfidence r" "hr_PolicyFloor (draining_if c r) = hr_PolicyFloor r"
  "hr_QueueCap (confidence_check r) = hr_QueueCap r" "hr_QueueDepth (confidence_check r) = hr_QueueDepth r"
  "hr_QueueStaleCount (confidence_check r) = hr_QueueStaleCount r"
  by (simp_all add: unsafe_if_def degraded_if_def draining_if_def confidence_check_def Let_def)

text \<open>A report is ready exactly when every check that clears the flag passes.\<close>

lemma assess_ready:
  "hr_Ready (assess s walErr backendErr r) \<longleftrightarrow> hr_Ready r \<and> \<not> sv_draining s \<and> recovery_Ready (sv_recovery s) \<and>
     \<not> walErr \<and> cs_Health (sv_checkpts s) = None \<and> policy_Health (sv_policyStore s) = None \<and>
     ms_Health (sv_state s) = None \<and> \<not> backendErr \<and> broker_Ping (sv_broker s) = None \<and> hr_AuthorityFresh r \<and>
     \<not> (hr_QueueCap r > 0 \<and> hr_QueueOldestAgeMS r > ms_of (ps_MaxQueueAge (pol_Snapshot (sv_policy s)))) \<and>
     \<not> f_lt (hr_PolicyConfidence r) (hr_PolicyFloor r) \<and>
     \<not> (hr_QueueCap r > 0 \<and> hr_QueueDepth r \<ge> hr_QueueCap r) \<and> \<not> hr_QueueStaleCount r > 0"
  unfolding assess_def Let_def
  by (simp add: unsafe_if_ready draining_if_ready confidence_check_ready)

end
