(* ===== verification/Relay_Service_Inv.thy ===== *)
theory Relay_Service_Inv
  imports Relay_Health
begin

text \<open>
  What the methods of the service do to the store: every one of them is a sequence of store
  calls that meet the callers' side of the store's contract. The rules in \<open>runs\<close> derive this from the
  shape of an action; bundle identifiers contain their hash, so that a new bundle never takes
  the identifier of another one (\<open>ids_ok\<close>).
\<close>

section \<open>Identifiers\<close>

definition id_ok :: "string \<Rightarrow> BundleRecord \<Rightarrow> bool" where
  "id_ok bid rec \<longleftrightarrow> CHR '':'' \<notin> set (bd_BundleHash rec) \<and> (\<exists>n. bid = bundleID (bd_BundleHash rec) n)"

definition ids_ok :: "MemStore \<Rightarrow> bool" where
  "ids_ok st \<longleftrightarrow> (\<forall>bid r. GetBundle bid st = Some r \<longrightarrow> id_ok bid r)"

lemma split_at_colon:
  "CHR '':'' \<notin> set a \<Longrightarrow> CHR '':'' \<notin> set b \<Longrightarrow> a @ CHR '':'' # c = b @ CHR '':'' # d \<Longrightarrow> a = b"
proof (induction a arbitrary: b)
  case Nil
  then show ?case by (cases b) auto
next
  case (Cons x a)
  then show ?case by (cases b) auto
qed

lemma id_ok_hash: "id_ok bid r \<Longrightarrow> id_ok bid r' \<Longrightarrow> bd_BundleHash r = bd_BundleHash r'"
  by (auto simp: id_ok_def bundleID_def dest: split_at_colon)

lemma digit_char_not_colon: "n < 16 \<Longrightarrow> CHR '':'' \<noteq> digit_char n"
proof
  assume n: "n < 16" and "CHR '':'' = digit_char n"
  then have "digit_val CHR '':'' = Some n" using digit_val_char by simp
  then show False by (simp add: digit_val_def Let_def)
qed

lemma hex_no_colon: "CHR '':'' \<notin> set (EncodeToString bs)"
proof -
  have "CHR '':'' \<notin> set (hex_byte c)" for c
    using digit_char_not_colon [of "of_char c div 16"] digit_char_not_colon [of "of_char c mod 16"]
    by (simp add: hex_byte_def div_less_iff_less_mult)
  then show ?thesis by (auto simp: EncodeToString_def)
qed

section \<open>Store calls of the service\<close>

fun svc_op_ok :: "mem_op \<Rightarrow> bool" where
  "svc_op_ok (OpCreate ord t rec) = (is_order ord \<and> id_ok (bd_ID rec) rec)"
| "svc_op_ok (OpScheduleRetry ord bid due) = is_order ord"
| "svc_op_ok (OpClaim ord t limit) = is_order ord"
| "svc_op_ok (OpPutCheckpoint ord cp) = is_order ord"
| "svc_op_ok _ = True"

lemma id_ok_nonempty: "id_ok bid r \<Longrightarrow> bid \<noteq> []"
  by (auto simp: id_ok_def bundleID_def)

lemma svc_op_ok_mem: "svc_op_ok op \<Longrightarrow> ids_ok st \<Longrightarrow> ok_mem op st"
proof (cases op)
  case (OpCreate ord t rec)
  assume "svc_op_ok op" and "ids_ok st"
  then have op: "is_order ord" "id_ok (bd_ID rec) rec" using OpCreate by simp_all
  have "bd_BundleHash r = bd_BundleHash rec" if "gm_get (ms_records st) (bd_ID rec) = Some r" for r
    using \<open>ids_ok st\<close> that op(2) id_ok_hash unfolding ids_ok_def GetBundle_def by blast
  then show ?thesis using OpCreate op id_ok_nonempty [OF op(2)] by (simp split: option.split)
qed simp_all

lemma GetBundle_create:
  "GetBundle bid (snd (CreateBundle ord t rec st)) = Some r \<Longrightarrow>
   GetBundle bid st = Some r \<or> bid = bd_ID rec \<and> r = rec"
  by (auto simp: CreateBundle_def ms_pruneLocked_def GetBundle_def Let_def split: if_splits option.splits)

lemma run_mem_new:
  assumes "GetBundle bid st = None" and "GetBundle bid (run_mem op st) = Some r"
  shows "\<exists>ord t rec. op = OpCreate ord t rec"
proof (cases op)
  case (OpTransition clk b f t reason)
  then show ?thesis using assms TransitionBundle_cases [of clk b f t reason st]
    by (auto simp: GetBundle_def put_record_def split: if_splits)
next
  case (OpUpdateRetryCount clk b n)
  then show ?thesis using assms
    by (auto simp: UpdateRetryCount_def GetBundle_def put_record_def Let_def dest!: guarded_record_Inr split: sum.splits if_splits)
next
  case (OpUpdateResult clk b sc pr reason)
  then show ?thesis using assms
    by (auto simp: UpdateResult_def GetBundle_def put_record_def Let_def dest!: guarded_record_Inr split: sum.splits if_splits)
qed (use assms in \<open>auto simp: GetBundle_def other_ops_defs Let_def split: if_splits prod.splits\<close>)

lemma ids_ok_run:
  assumes "ids_ok st" and "store_inv st" and "svc_op_ok op"
  shows "ids_ok (run_mem op st)"
  unfolding ids_ok_def
proof (intro allI impI)
  fix bid r assume r: "GetBundle bid (run_mem op st) = Some r"
  have step: "record_step (GetBundle bid st) (GetBundle bid (run_mem op st))"
    using run_mem_step [OF assms(2) svc_op_ok_mem [OF assms(3,1)]] .
  show "id_ok bid r"
  proof (cases "GetBundle bid st")
    case (Some r0)
    then have "bd_BundleHash r = bd_BundleHash r0" using step r by (simp add: record_step_Some)
    moreover have "id_ok bid r0" using assms(1) Some by (simp add: ids_ok_def)
    ultimately show ?thesis by (simp add: id_ok_def)
  next
    case None
    from run_mem_new [OF None r] obtain ord t rec where op: "op = OpCreate ord t rec" by blast
    then have "bid = bd_ID rec \<and> r = rec" using r GetBundle_create [of bid ord t rec st r] None by simp
    then show ?thesis using assms(3) op by simp
  qed
qed

text \<open>The store seen through the service: a second instance of the store's interface.\<close>

interpretation svc: bundle_store "\<lambda>st. store_inv st \<and> ids_ok st" "\<lambda>op _. svc_op_ok op" GetBundle run_mem
  by unfold_locales (auto intro: run_mem_inv run_mem_step ids_ok_run svc_op_ok_mem)

lemma ok_all_list: "svc.ok_all ops st \<longleftrightarrow> list_all svc_op_ok ops"
  by (induction ops arbitrary: st) simp_all

lemma run_all_append: "svc.run_all (xs @ ys) st = svc.run_all ys (svc.run_all xs st)"
  by (induction xs arbitrary: st) simp_all

section \<open>What a method keeps\<close>

text \<open>
  A relation \<open>R\<close> between the states before and after, reflexive, transitive, and blind to everything but
  the store, the log and the broker. An action keeps to it when it holds of every run of the action. The
  rules in \<open>keeps\<close> derive this from the shape of the action.
\<close>

named_theorems keeps \<open>the actions that keep to a relation on states\<close>

definition env_ok :: "SvcEnv \<Rightarrow> bool" where
  "env_ok en \<longleftrightarrow> is_order (en_ordB en) \<and> is_order (en_ordR en) \<and> is_order (en_ordC en)"

lemma record_of_id: "id_ok (bd_ID (record_of (bundleHash sha p) rid q c r sh auth t1 t2 d)) (record_of (bundleHash sha p) rid q c r sh auth t1 t2 d)"
  by (auto simp: id_ok_def record_of_def bundleHash_def hex_no_colon)

locale action_relation =
  fixes R :: "Service \<Rightarrow> Service \<Rightarrow> bool"
  assumes R_frame: "sv_state s' = sv_state s \<Longrightarrow> sv_wal s' = sv_wal s \<Longrightarrow> sv_broker s' = sv_broker s \<Longrightarrow> R s s'"
    and R_trans: "R s1 s2 \<Longrightarrow> R s2 s3 \<Longrightarrow> R s1 s3"
begin

definition stays :: "('e, 'a) act \<Rightarrow> bool" where
  "stays m \<longleftrightarrow> (\<forall>s. R s (snd (m s)))"

lemma R_refl: "R s s"
  by (simp add: R_frame)

lemma stays_bnd [keeps]: "stays m \<Longrightarrow> (\<And>x. stays (f x)) \<Longrightarrow> stays (bnd m f)"
  unfolding stays_def
proof (intro allI)
  fix s assume m: "\<forall>s. R s (snd (m s))"
    and f: "\<And>x. \<forall>s. R s (snd (f x s))"
  obtain r s1 where ms: "m s = (r, s1)" by (cases "m s")
  have 1: "R s s1" using m [rule_format, of s] ms by simp
  show "R s (snd (bnd m f s))"
  proof (cases r)
    case (Inl e)
    then show ?thesis using ms 1 by (simp add: bnd_def)
  next
    case (Inr x)
    then show ?thesis using ms R_trans [OF 1 f [rule_format, of s1 x]] by (simp add: bnd_def)
  qed
qed

lemma stays_either [keeps]: "stays m \<Longrightarrow> (\<And>x. stays (f x)) \<Longrightarrow> stays (either m f)"
  unfolding stays_def
proof (intro allI)
  fix s assume m: "\<forall>s. R s (snd (m s))"
    and f: "\<And>x. \<forall>s. R s (snd (f x s))"
  obtain r s1 where ms: "m s = (r, s1)" by (cases "m s")
  have 1: "R s s1" using m [rule_format, of s] ms by simp
  show "R s (snd (either m f s))"
    using ms R_trans [OF 1 f [rule_format, of s1 r]] by (simp add: either_def)
qed

lemma stays_ret [keeps]: "stays (ret x)" and stays_raise [keeps]: "stays (raise e)" and stays_asks [keeps]: "stays (asks f)"
  by (simp_all add: stays_def ret_def raise_def asks_def R_refl)

lemma stays_clock [keeps]: "stays (clock en)" and stays_metric [keeps]: "stays (metric f)"
  by (simp_all add: stays_def clock_def metric_def upd_def R_frame)

lemma stays_upd:
  "(\<And>s. sv_state (f s) = sv_state s \<and> sv_wal (f s) = sv_wal s \<and> sv_broker (f s) = sv_broker s) \<Longrightarrow> stays (upd f)"
  by (simp add: stays_def upd_def R_frame)

lemma stays_if [keeps]: "stays a \<Longrightarrow> stays b \<Longrightarrow> stays (if c then a else b)"
  by simp

lemma stays_sum [keeps]: "(\<And>e. stays (f e)) \<Longrightarrow> (\<And>x. stays (g x)) \<Longrightarrow> stays (case r of Inl e \<Rightarrow> f e | Inr x \<Rightarrow> g x)"
  by (cases r) simp_all

lemma stays_option [keeps]: "stays a \<Longrightarrow> (\<And>x. stays (f x)) \<Longrightarrow> stays (case r of None \<Rightarrow> a | Some x \<Rightarrow> f x)"
  by (cases r) simp_all

lemma stays_prod [keeps]: "(\<And>x y. stays (f x y)) \<Longrightarrow> stays (case p of (x, y) \<Rightarrow> f x y)"
  by (cases p) simp

lemma stays_let [keeps]: "stays (f x) \<Longrightarrow> stays (let y = x in f y)"
  by simp

lemma stays_push_result [keeps]:
  "(\<And>e. stays (f e)) \<Longrightarrow> (\<And>x. stays (g x)) \<Longrightarrow> stays h \<Longrightarrow>
   stays (case r of PushErr e \<Rightarrow> f e | Pushed x \<Rightarrow> g x | PushBlocked \<Rightarrow> h)"
  by (cases r) simp_all

lemma stays_ignore [keeps]: "stays m \<Longrightarrow> stays (ignore m)"
  unfolding ignore_def by (intro keeps)

lemma stays_tag [keeps]: "stays m \<Longrightarrow> stays (tag t m)"
  unfolding tag_def by (intro keeps)

lemma stays_on_err [keeps]: "stays m \<Longrightarrow> stays (on_err f m)"
  unfolding on_err_def by (intro keeps)

lemma stays_doif [keeps]: "stays m \<Longrightarrow> stays (doif c m)"
  unfolding doif_def by (intro keeps)

lemma stays_since [keeps]: "stays (since en f t)"
  unfolding since_def by (intro keeps)

lemma stays_put_checkpoint [keeps]: "stays (put_checkpoint cp body)"
  by (auto simp: stays_def put_checkpoint_def R_frame split: prod.split sum.split)

lemma stays_push [keeps]: "stays (push en item)"
  by (auto simp: stays_def push_def bnd_def clock_def R_frame split: prod.split)

lemma stays_simulate [keeps]: "stays (simulate en rec)"
  by (simp add: stays_def simulate_def R_frame)

lemma stays_check [keeps]: "stays (check f)"
  by (simp add: stays_def check_def R_refl split: option.split)

lemma stays_recovery_upd [keeps]: "stays (recovery_upd en f reason)"
  unfolding recovery_upd_def by (intro keeps stays_upd) simp

lemma stays_store_call: "(\<And>clk s. R s (s\<lparr> sv_state := snd (f clk (sv_state s)) \<rparr>)) \<Longrightarrow> stays (store_call en f)"
  unfolding stays_def
proof (intro allI)
  fix s :: Service
  assume f: "\<And>clk s. R s (s\<lparr> sv_state := snd (f clk (sv_state s)) \<rparr>)"
  let ?s1 = "s\<lparr> sv_state := snd (f (\<lambda>i. en_clk en (sv_tick s + i)) (sv_state s)) \<rparr>"
  have "R ?s1 (?s1\<lparr> sv_tick := sv_tick s + 3 \<rparr>)" by (simp add: R_frame)
  from R_trans [OF f this] show "R s (snd (store_call en f s))" by (simp add: store_call_def split_beta)
qed

lemma stays_store_try: "(\<And>clk s. R s (s\<lparr> sv_state := snd (f clk (sv_state s)) \<rparr>)) \<Longrightarrow> stays (store_try en f)"
  unfolding store_try_def by (intro keeps stays_store_call)

end

text \<open>
  The interface of the service's methods: the calls of the store they make, the event trail
  (\<open>emitTransition\<close>), the commitment to a completed bundle (\<open>commit_checkpoint\<close>) and the check of the log.
\<close>

locale service_relation = action_relation +
  assumes R_wal_check: "stays (wal_check en)"
    and R_emit: "stays (emitTransition en rec from to reason)"
    and R_commit: "env_ok en \<Longrightarrow> stays (commit_checkpoint en rec)"
    and R_transition: "R s (s\<lparr> sv_state := snd (TransitionBundle clk bid from to reason (sv_state s)) \<rparr>)"
    and R_retry_count: "R s (s\<lparr> sv_state := snd (UpdateRetryCount clk bid n (sv_state s)) \<rparr>)"
    and R_result: "R s (s\<lparr> sv_state := snd (UpdateResult clk bid sc pr reason (sv_state s)) \<rparr>)"
    and R_release: "R s (s\<lparr> sv_state := snd (ReleaseInflight c (sv_state s)) \<rparr>)"
    and R_reserve: "R s (s\<lparr> sv_state := snd (ReserveInflight c limit (sv_state s)) \<rparr>)"
    and R_authority: "R s (s\<lparr> sv_state := snd (SetAuthority auth (sv_state s)) \<rparr>)"
begin

declare R_wal_check [keeps] R_emit [keeps] R_commit [keeps]

lemma stays_transition [keeps]: "stays (transition en bid from to reason)"
  unfolding transition_def by (intro stays_store_try R_transition)

lemma stays_counts [keeps]:
  "stays (store_try en (\<lambda>clk. UpdateRetryCount clk bid n))"
  "stays (store_try en (\<lambda>clk. UpdateResult clk bid sc pr reason))"
  by (intro stays_store_try R_retry_count R_result)+

lemma stays_inflight [keeps]:
  "stays (store_call en (\<lambda>_. ReserveInflight c n))" "stays (release en c)"
  unfolding release_def by (intro stays_store_call R_reserve R_release)+

lemma stays_authority [keeps]: "stays (store_call en (\<lambda>_. SetAuthority auth))"
  by (intro stays_store_call R_authority)

lemma stays_finish [keeps]: "env_ok en \<Longrightarrow> stays (finishTerminal en rec terminal reason)"
  unfolding finishTerminal_def finish_body_def by (intro keeps)

lemma stays_settle [keeps]:
  "env_ok en \<Longrightarrow> stays (rejectBundle en bid from reason)" "env_ok en \<Longrightarrow> stays (deadLetterBundle en bid from reason)"
  unfolding rejectBundle_def deadLetterBundle_def settleBundle_def by (intro keeps; assumption)+

lemma stays_evict [keeps]: "env_ok en \<Longrightarrow> stays (evict_queued en ev)"
  unfolding evict_queued_def by (intro keeps)

lemma stays_guards [keeps]: "stays (submit_guards en req)"
  unfolding submit_guards_def by (intro keeps)

lemma stays_admit [keeps]: "stays (admit en p)"
  unfolding admit_def by (intro keeps)

lemma stays_enqueue [keeps]: "env_ok en \<Longrightarrow> stays (enqueue en rec)"
  unfolding enqueue_def by (intro keeps)

lemma stays_conclude [keeps]: "env_ok en \<Longrightarrow> stays (conclude en result rec)"
  unfolding conclude_def by (intro keeps)

lemma stays_processRetry [keeps]: "env_ok en \<Longrightarrow> stays (processRetry en bid)"
  unfolding processRetry_def by (intro keeps)

lemma stays_process_retries [keeps]: "env_ok en \<Longrightarrow> stays (process_retries en bids)"
  by (induction bids) (simp_all add: keeps)

lemma stays_renew [keeps]: "stays (renewAuthority en)"
  unfolding renewAuthority_def by (intro keeps stays_upd) simp

lemma stays_bootstrap [keeps]: "stays (Bootstrap en)"
  unfolding Bootstrap_def by (intro keeps stays_upd) simp

lemma stays_recover [keeps]: "stays (Recover en)"
  unfolding Recover_def by (intro keeps)

lemma stays_drain_stop [keeps]: "stays (Drain en)" "stays (Stop en)"
  unfolding Drain_def Stop_def by (intro keeps stays_upd; simp)+

end

text \<open>The calls that create bundles and schedule or claim retries.\<close>

locale service_relation_all = service_relation +
  assumes R_create: "is_order ord \<Longrightarrow> id_ok (bd_ID rec) rec \<Longrightarrow> R s (s\<lparr> sv_state := snd (CreateBundle ord t rec (sv_state s)) \<rparr>)"
    and R_schedule: "is_order ord' \<Longrightarrow> R s (s\<lparr> sv_state := snd (ScheduleRetry ord' bid due (sv_state s)) \<rparr>)"
    and R_claim: "is_order ord' \<Longrightarrow> R s (s\<lparr> sv_state := snd (ClaimDueRetries ord' t n (sv_state s)) \<rparr>)"
begin

lemma stays_create [keeps]: "env_ok en \<Longrightarrow> id_ok (bd_ID rec) rec \<Longrightarrow> stays (create en rec)"
  unfolding create_def by (intro keeps stays_store_call R_create) (simp_all add: env_ok_def)

lemma stays_schedule [keeps]: "env_ok en \<Longrightarrow> stays (scheduleRetry en bid n)"
  unfolding scheduleRetry_def by (intro keeps stays_store_call R_schedule) (simp add: env_ok_def)

lemma stays_claim [keeps]: "env_ok en \<Longrightarrow> stays (claim_due en)"
  unfolding claim_due_def by (intro keeps stays_store_try R_claim) (simp add: env_ok_def)

lemma stays_submit [keeps]: "env_ok en \<Longrightarrow> stays (submitWithIdentity en req c region)"
  unfolding submitWithIdentity_def by (intro keeps record_of_id)

lemma stays_process [keeps]: "env_ok en \<Longrightarrow> stays (process en item)"
  unfolding process_def pick_def retry_or_drop_def by (intro keeps)

lemma stays_drain: "env_ok en \<Longrightarrow> drain_loop n en s = Some s' \<Longrightarrow> R s s'"
proof (induction n arbitrary: s)
  case (Suc n)
  obtain r s1 where c: "claim_due en s = (r, s1)" by (cases "claim_due en s")
  have R1: "R s s1" using stays_claim [OF Suc.prems(1)] c by (metis snd_conv stays_def)
  show ?case
  proof (cases "r = Inr [] \<or> isl r")
    case True
    then show ?thesis using Suc.prems c R1 by (auto split: sum.splits)
  next
    case False
    then obtain bids where r: "r = Inr bids" "bids \<noteq> []" by (cases r) auto
    have "R s1 (snd (process_retries en bids s1))"
      using stays_process_retries [OF Suc.prems(1)] by (simp add: stays_def)
    moreover have "R (snd (process_retries en bids s1)) s'"
      using Suc.IH [OF Suc.prems(1)] Suc.prems(2) c r by simp
    ultimately show ?thesis using R1 R_trans by blast
  qed
qed simp

end

text \<open>
  A relation between stores that the single calls keep to, which every method then keeps to.
\<close>

locale store_relation =
  fixes Q :: "MemStore \<Rightarrow> MemStore \<Rightarrow> bool"
  assumes Q_refl: "Q st st"
    and Q_trans: "Q st1 st2 \<Longrightarrow> Q st2 st3 \<Longrightarrow> Q st1 st3"
    and Q_transition: "Q st (snd (TransitionBundle clk bid from to reason st))"
    and Q_retry_count: "Q st (snd (UpdateRetryCount clk bid n st))"
    and Q_result: "Q st (snd (UpdateResult clk bid sc pr reason st))"
    and Q_release: "Q st (snd (ReleaseInflight c st))"
    and Q_reserve: "Q st (snd (ReserveInflight c limit st))"
    and Q_authority: "Q st (snd (SetAuthority auth st))"
    and Q_event: "Q st (AppendEvent ev st)"
    and Q_delete: "Q st (DeleteEvents bid st)"
    and Q_checkpoint: "is_order ord \<Longrightarrow> Q st (PutCheckpoint ord cp st)"
begin

definition on_store :: "Service \<Rightarrow> Service \<Rightarrow> bool" where
  "on_store s s' \<longleftrightarrow> Q (sv_state s) (sv_state s')"

end

sublocale store_relation \<subseteq> action_relation on_store
  by unfold_locales (auto simp: on_store_def Q_refl intro: Q_trans)

context store_relation
begin

lemma stays_events [keeps]:
  "stays (store_call en (\<lambda>_ st. ((), AppendEvent ev st)))"
  "stays (store_call en (\<lambda>_ st. ((), DeleteEvents bid st)))"
  by (intro stays_store_call; simp add: on_store_def Q_event Q_delete)+

lemma stays_put_checkpoint_call [keeps]:
  "env_ok en \<Longrightarrow> stays (store_call en (\<lambda>_ st. ((), PutCheckpoint (en_ordC en) cp st)))"
  by (intro stays_store_call) (simp add: on_store_def Q_checkpoint env_ok_def)

lemma stays_wal [keeps]: "stays (wal_append en kind body)" "stays (wal_check en)"
  by (auto simp: stays_def on_store_def wal_append_def wal_check_def bnd_def clock_def Q_refl split: prod.split sum.split)

lemma stays_publish [keeps]: "stays (publish msg)"
  by (auto simp: stays_def on_store_def publish_def Q_refl split: prod.split option.split)

lemma stays_emit: "stays (emitTransition en rec from to reason)"
  unfolding emitTransition_def by (intro keeps)

lemma stays_commit: "env_ok en \<Longrightarrow> stays (commit_checkpoint en rec)"
  unfolding commit_checkpoint_def by (intro keeps)

end

sublocale store_relation \<subseteq> service_relation on_store
  by unfold_locales (auto simp: on_store_def Q_transition Q_retry_count Q_result Q_release Q_reserve Q_authority
    intro: stays_wal stays_emit stays_commit)

locale store_relation_all = store_relation +
  assumes Q_create: "is_order ord \<Longrightarrow> id_ok (bd_ID rec) rec \<Longrightarrow> Q st (snd (CreateBundle ord t rec st))"
    and Q_schedule: "is_order ord' \<Longrightarrow> Q st (snd (ScheduleRetry ord' bid due st))"
    and Q_claim: "is_order ord' \<Longrightarrow> Q st (snd (ClaimDueRetries ord' t n st))"

sublocale store_relation_all \<subseteq> service_relation_all on_store
  by unfold_locales (simp_all add: on_store_def Q_create Q_schedule Q_claim)

section \<open>Instances\<close>

text \<open>Every method is a sequence of store calls that keep to the store's contract.\<close>

definition store_path :: "MemStore \<Rightarrow> MemStore \<Rightarrow> bool" where
  "store_path st st' \<longleftrightarrow> (\<exists>ops. list_all svc_op_ok ops \<and> st' = svc.run_all ops st)"

lemma store_path_trans: "store_path a b \<Longrightarrow> store_path b c \<Longrightarrow> store_path a c"
  unfolding store_path_def
proof (elim exE conjE)
  fix xs ys assume "list_all svc_op_ok xs" "b = svc.run_all xs a" "list_all svc_op_ok ys" "c = svc.run_all ys b"
  then show "\<exists>ops. list_all svc_op_ok ops \<and> c = svc.run_all ops a"
    by (intro exI [of _ "xs @ ys"]) (simp add: run_all_append)
qed

lemma store_path_op: "svc_op_ok op \<Longrightarrow> st' = run_mem op st \<Longrightarrow> store_path st st'"
  unfolding store_path_def by (rule exI [of _ "[op]"]) simp

interpretation path: store_relation_all store_path
proof unfold_locales
  show "store_path st st" for st unfolding store_path_def by (rule exI [of _ "[]"]) simp
  show "store_path a b \<Longrightarrow> store_path b c \<Longrightarrow> store_path a c" for a b c by (rule store_path_trans)
  show "store_path st (snd (TransitionBundle clk bid from to reason st))" for clk bid "from" to reason st
    by (rule store_path_op [of "OpTransition clk bid from to reason"]) simp_all
  show "store_path st (snd (UpdateRetryCount clk bid n st))" for clk bid n st
    by (rule store_path_op [of "OpUpdateRetryCount clk bid n"]) simp_all
  show "store_path st (snd (UpdateResult clk bid sc pr reason st))" for clk bid sc pr reason st
    by (rule store_path_op [of "OpUpdateResult clk bid sc pr reason"]) simp_all
  show "store_path st (AppendEvent ev st)" for ev st by (rule store_path_op [of "OpAppendEvent ev"]) simp_all
  show "store_path st (DeleteEvents bid st)" for bid st by (rule store_path_op [of "OpDeleteEvents bid"]) simp_all
  show "is_order ord \<Longrightarrow> store_path st (PutCheckpoint ord cp st)" for ord cp st
    by (rule store_path_op [of "OpPutCheckpoint ord cp"]) simp_all
  show "store_path st (snd (ReleaseInflight c st))" for c st by (rule store_path_op [of "OpRelease c"]) simp_all
  show "store_path st (snd (ReserveInflight c n st))" for c n st by (rule store_path_op [of "OpReserve c n"]) simp_all
  show "store_path st (snd (SetAuthority auth st))" for auth st by (rule store_path_op [of "OpSetAuthority auth"]) simp_all
  show "is_order ord \<Longrightarrow> id_ok (bd_ID rec) rec \<Longrightarrow> store_path st (snd (CreateBundle ord t rec st))" for ord rec t st
    by (rule store_path_op [of "OpCreate ord t rec"]) simp_all
  show "is_order ord \<Longrightarrow> store_path st (snd (ScheduleRetry ord bid due st))" for ord bid due st
    by (rule store_path_op [of "OpScheduleRetry ord bid due"]) simp_all
  show "is_order ord \<Longrightarrow> store_path st (snd (ClaimDueRetries ord t n st))" for ord t n st
    by (rule store_path_op [of "OpClaim ord t n"]) simp_all
qed

text \<open>Working on existing bundles schedules and claims no retries, and does not close the store.\<close>

interpretation retries: store_relation "\<lambda>st st'. ms_retries st' = ms_retries st \<and> ms_closed st' = ms_closed st"
  by unfold_locales
    (simp_all add: TransitionBundle_def UpdateRetryCount_def UpdateResult_def put_record_def AppendEvent_def DeleteEvents_def
      PutCheckpoint_def pruneCheckpointsLocked_def ReleaseInflight_def ReserveInflight_def SetAuthority_def Let_def
      split: option.split sum.split)

end
