(* ===== verification/Relay_Service_Props.thy ===== *)
theory Relay_Service_Props
  imports Relay_Service_Inv
begin

text \<open>
  The running service: the worker loop of \<^verbatim>\<open>processing.go\<close> and the step relation of all entry points,
  the retry loop, the write-ahead order of the event trail, and the commitment to a completed
  bundle.
\<close>

section \<open>The running service\<close>

text \<open>
  One round of \<^verbatim>\<open>worker\<close>: \<open>None\<close> while it waits in \<^verbatim>\<open>Pop\<close>, else whether it goes on, and the state. Only
  \<^verbatim>\<open>Stop\<close> closes the queue, together with \<^verbatim>\<open>stopCh\<close>, on which the worker drops its item.
\<close>

definition worker :: "SvcEnv \<Rightarrow> Service \<Rightarrow> (bool \<times> Service) option" where
  "worker en s = (case pop_receive (sv_queue s) of
       None \<Rightarrow> None
     | Some (False, q) \<Rightarrow> Some (False, s\<lparr> sv_queue := q \<rparr>)
     | Some (True, q) \<Rightarrow> (case pop_take q of
           (None, q1) \<Rightarrow> Some (True, s\<lparr> sv_queue := q1 \<rparr>)
         | (Some item, q1) \<Rightarrow> (let s1 = s\<lparr> sv_queue := q1 \<rparr> in
             if qu_closed q1 then Some (False, s1) else Some (True, snd (process en item s1)))))"

text \<open>The steps of the service: what the loops started by \<^verbatim>\<open>Start\<close> and the callers of its methods do.\<close>

inductive svc_step :: "SvcEnv \<Rightarrow> Service \<Rightarrow> Service \<Rightarrow> bool" for en where
  bootstrap: "svc_step en s (snd (Bootstrap en s))"
| submit: "svc_step en s (snd (submitWithIdentity en req clientID regionID s))"
| work: "worker en s = Some (goes_on, s') \<Longrightarrow> svc_step en s s'"
| retry: "drainRetries en s = Some s' \<Longrightarrow> svc_step en s s'"
| renew: "svc_step en s (snd (renewAuthority en s))"
| adapt: "svc_step en s (policy_tick en s)"
| ready: "svc_step en s (snd (Ready en s))"
| serve: "svc_step en s (snd (relay_ServeHTTP en decode splitHost r s))"
| recover: "svc_step en s (snd (Recover en s))"
| drain: "svc_step en s (snd (Drain en s))"
| stop: "svc_step en s (snd (Stop en s))"

text \<open>Every step keeps to a relation that the methods keep to.\<close>

context service_relation_all
begin

lemma R_assess: "R s (snd (AssessHealth en s))"
proof -
  let ?s1 = "s\<lparr> sv_tick := sv_tick s + 1 \<rparr>"
  obtain w s2 where w: "wal_check en ?s1 = (w, s2)" by (cases "wal_check en ?s1")
  have "R s ?s1" by (simp add: R_frame)
  moreover have "R ?s1 s2" using R_wal_check w by (metis snd_conv stays_def)
  moreover have "R s2 (snd (AssessHealth en s))" using w by (simp add: AssessHealth_def Let_def R_frame)
  ultimately show ?thesis using R_trans by blast
qed

lemma R_ready: "R s (snd (Ready en s))"
  using R_assess [of s en] by (simp add: Ready_def split_beta Let_def)

lemma R_policy_tick: "R s (policy_tick en s)"
proof -
  obtain r s1 where a: "AssessHealth en s = (r, s1)" by (cases "AssessHealth en s")
  have "R s1 (policy_tick en s)" using a by (simp add: policy_tick_def split_beta Let_def R_frame)
  then show ?thesis using R_assess [of s en] a R_trans by fastforce
qed

lemma R_serve: "env_ok en \<Longrightarrow> R s (snd (relay_ServeHTTP en decode splitHost r s))"
proof -
  assume en: "env_ok en"
  have "R s (snd (submitBundle en decode splitHost r s))"
  proof (cases "requireAuth (rc_APIAuthToken (sv_cfg s)) r")
    case None
    show ?thesis
    proof (cases "decode (rc_MaxPayloadBytes (sv_cfg s)) (hq_Body r)")
      case (Inr req)
      have "R s (snd (submitWithIdentity en req (clientIdentity splitHost (hq_RemoteAddr r)) (rc_RegionID (sv_cfg s)) s))"
        using stays_submit [OF en] by (simp add: stays_def)
      then show ?thesis using None Inr by (auto simp: submitBundle_def split: prod.split sum.split)
    qed (simp add: submitBundle_def None R_refl)
  qed (simp add: submitBundle_def R_refl)
  then show ?thesis using R_assess [of s en] by (simp add: relay_ServeHTTP_def split_beta Let_def R_refl)
qed

lemma R_worker: "env_ok en \<Longrightarrow> worker en s = Some (goes_on, s') \<Longrightarrow> R s s'"
proof -
  assume en: "env_ok en" and w: "worker en s = Some (goes_on, s')"
  have p: "R s (snd (process en item (s\<lparr> sv_queue := q \<rparr>)))" for item q
  proof -
    have "R s (s\<lparr> sv_queue := q \<rparr>)" by (simp add: R_frame)
    moreover have "R (s\<lparr> sv_queue := q \<rparr>) (snd (process en item (s\<lparr> sv_queue := q \<rparr>)))"
      using stays_process [OF en] by (simp add: stays_def)
    ultimately show ?thesis by (rule R_trans)
  qed
  show ?thesis using w p
    by (auto simp: worker_def Let_def R_frame split: option.splits prod.splits bool.splits if_splits)
qed

lemma R_step: "env_ok en \<Longrightarrow> svc_step en s s' \<Longrightarrow> R s s'"
proof -
  assume en: "env_ok en" and "svc_step en s s'"
  from this(2) show "R s s'"
  proof (cases rule: svc_step.cases)
    case bootstrap
    then show ?thesis using stays_bootstrap by (simp add: stays_def)
  next
    case (submit req clientID regionID)
    then show ?thesis using stays_submit [OF en] by (simp add: stays_def)
  next
    case (retry)
    then show ?thesis unfolding drainRetries_def by (rule stays_drain [OF en])
  next
    case renew
    then show ?thesis using stays_renew by (simp add: stays_def)
  next
    case recover
    then show ?thesis using stays_recover by (simp add: stays_def)
  next
    case drain
    then show ?thesis using stays_drain_stop by (simp add: stays_def)
  next
    case stop
    then show ?thesis using stays_drain_stop by (simp add: stays_def)
  qed (use en in \<open>simp_all add: R_worker R_policy_tick R_ready R_serve\<close>)
qed

lemma R_steps: "env_ok en \<Longrightarrow> (svc_step en)\<^sup>*\<^sup>* s s' \<Longrightarrow> R s s'"
proof -
  assume en: "env_ok en" and "(svc_step en)\<^sup>*\<^sup>* s s'"
  from this(2) show "R s s'"
    by (induction rule: rtranclp_induct) (auto intro: R_refl R_trans R_step [OF en])
qed

end

section \<open>The event trail\<close>

lemmas action_defs = bnd_def either_def asks_def clock_def store_call_def since_def metric_def upd_def on_err_def raise_def ret_def
  wal_append_def publish_def

text \<open>The message of an event and what becomes of it, by the outcome of the log.\<close>

definition event_message :: "SvcEnv \<Rightarrow> Service \<Rightarrow> BundleRecord \<Rightarrow> EventRecord \<Rightarrow> Message" where
  "event_message en s rec ev =
     \<lparr> mg_Topic = rc_BrokerTopic (sv_cfg s) @ ''.event'', mg_Key = bd_ID rec, mg_Sequence = ev_Sequence ev,
       mg_Timestamp = ev_Time ev, mg_Headers = [(''kind'', ''event'')], mg_Payload = en_evJSON en ev \<rparr>"

definition event_now :: "SvcEnv \<Rightarrow> Service \<Rightarrow> BundleRecord \<Rightarrow> BundleState \<Rightarrow> BundleState \<Rightarrow> string \<Rightarrow> EventRecord" where
  "event_now en s = event_of (en_clk en (sv_tick s)) (sv_auth s)"

definition log_event :: "SvcEnv \<Rightarrow> Service \<Rightarrow> EventRecord \<Rightarrow> (string + unit) \<times> WAL" where
  "log_event en s ev = AppendEncoded (en_io en) (en_enc en) (en_dec en) (en_clk en (7 + sv_tick s)) ''event'' (en_evJSON en ev) (sv_wal s)"

lemma emit_unlogged:
  assumes "event_now en s rec from to reason = ev" and "log_event en s ev = (Inl e, w)"
  shows "\<exists>s'. emitTransition en rec from to reason s = (Inl (OtherErr e), s') \<and>
    sv_state s' = AppendEvent ev (sv_state s) \<and> sv_wal s' = w \<and> sv_broker s' = sv_broker s"
  using assms
  by (simp add: emitTransition_def action_defs Let_def event_now_def log_event_def add.assoc del: One_nat_def)

lemma emit_logged:
  assumes "event_now en s rec from to reason = ev" and "log_event en s ev = (Inr (), w)"
    and "Publish (event_message en s rec ev) (sv_broker s) = (r, b)"
  shows "\<exists>s'. emitTransition en rec from to reason s = (case r of Some e \<Rightarrow> Inl (OtherErr e) | None \<Rightarrow> Inr (), s') \<and>
    sv_state s' = AppendEvent ev (sv_state s) \<and> sv_wal s' = w \<and> sv_broker s' = b \<and> sv_cfg s' = sv_cfg s \<and>
    sv_auth s' = sv_auth s \<and> sv_checkpts s' = sv_checkpts s"
  using assms
  by (cases r) (simp_all add: emitTransition_def action_defs Let_def event_now_def log_event_def event_message_def
    add.assoc del: One_nat_def)

section \<open>A dead log\<close>

text \<open>
  A log that is closed, or whose writer has failed once: \<^verbatim>\<open>bufio.Writer\<close> keeps its first error.
\<close>

definition wal_dead :: "WAL \<Rightarrow> bool" where
  "wal_dead w \<longleftrightarrow> \<not> wl_open w \<or> (case wl_writer w of None \<Rightarrow> True | Some b \<Rightarrow> bu_err b \<noteq> None)"

lemma append_dead: "wal_dead w \<Longrightarrow> \<exists>e. AppendEncoded io enc dec t kind body w = (Inl e, w)"
  by (cases "wl_open w"; cases "wl_writer w")
    (auto simp: wal_dead_def AppendEncoded_def seq_def wal_encode_def bufio_write_def)

lemma health_dead: "wal_dead w \<Longrightarrow> wal_dead (snd (wal_Health io w))"
  by (auto simp: wal_dead_def wal_Health_def file_op_def split: option.split)

definition dead_frame :: "Service \<Rightarrow> Service \<Rightarrow> bool" where
  "dead_frame s s' \<longleftrightarrow> (wal_dead (sv_wal s) \<longrightarrow> wal_dead (sv_wal s') \<and> sv_broker s' = sv_broker s)"

lemma emit_dead: "dead_frame s (snd (emitTransition en rec from to reason s))"
proof (cases "wal_dead (sv_wal s)")
  case True
  let ?ev = "event_now en s rec from to reason"
  obtain e where "log_event en s ?ev = (Inl e, sv_wal s)" using append_dead [OF True] unfolding log_event_def by blast
  from emit_unlogged [OF refl this] show ?thesis using True by (auto simp: dead_frame_def)
qed (simp add: dead_frame_def)

text \<open>The rest of a chain of actions is not reached when the log fails.\<close>

interpretation dead_act: action_relation dead_frame
  by unfold_locales (auto simp: dead_frame_def)

lemma bnd_dead:
  assumes "\<And>s. wal_dead (sv_wal s) \<Longrightarrow> dead_frame s (snd (m s)) \<and> isl (fst (m s))"
  shows "dead_act.stays (bnd m f)"
proof -
  have "dead_frame s (snd (bnd m f s))" for s
  proof (cases "wal_dead (sv_wal s)")
    case True
    then show ?thesis using assms [OF True] by (auto simp: bnd_def split: prod.split sum.split)
  qed (simp add: dead_frame_def)
  then show ?thesis by (simp add: dead_act.stays_def)
qed

lemma wal_append_dead:
  "wal_dead (sv_wal s) \<Longrightarrow> dead_frame s (snd (on_err g (wal_append en kind body) s)) \<and> isl (fst (on_err g (wal_append en kind body) s))"
proof -
  assume d: "wal_dead (sv_wal s)"
  obtain e where e: "AppendEncoded (en_io en) (en_enc en) (en_dec en) (en_clk en (sv_tick s)) kind body (sv_wal s) = (Inl e, sv_wal s)"
    using append_dead [OF d] by blast
  then show ?thesis using d by (simp add: action_defs dead_frame_def)
qed

lemma store_call_dead: "dead_act.stays (store_call en f)"
  by (rule dead_act.stays_store_call) (simp add: dead_frame_def)

lemma commit_dead: "dead_act.stays (commit_checkpoint en rec)"
  unfolding commit_checkpoint_def
  by (intro keeps store_call_dead bnd_dead [OF wal_append_dead])

interpretation dead: service_relation_all dead_frame
proof unfold_locales
  show "dead_act.stays (wal_check en)" for en
    by (auto simp: dead_act.stays_def wal_check_def dead_frame_def split: prod.split sum.split)
      (metis health_dead snd_conv)+
  show "dead_act.stays (emitTransition en rec from to reason)" for en rec "from" to reason
    by (simp add: dead_act.stays_def emit_dead)
  show "dead_act.stays (commit_checkpoint en rec)" for en rec by (rule commit_dead)
qed (simp_all add: dead_frame_def)

section \<open>The retry loop\<close>

lemma length_gm_del_le: "gm_len (foldl gm_del m ks) \<le> gm_len m"
proof (induction ks arbitrary: m)
  case (Cons k ks)
  have "gm_len (gm_del m k) \<le> gm_len m" by (simp add: gm_del_def gm_len_def AList.delete_eq)
  then show ?case using Cons [of "gm_del m k"] by simp
qed simp

lemma gm_del_shrinks: "k \<in> fst ` set m \<Longrightarrow> gm_len (gm_del m k) < gm_len m"
  unfolding gm_del_def gm_len_def AList.delete_eq by (auto intro: length_filter_less)

lemma claim_due_outcome:
  assumes "env_ok en" and "claim_due en s = (r, s')"
  shows "if ms_closed (sv_state s) then isl r
    else ms_closed (sv_state s') = ms_closed (sv_state s) \<and>
      (\<exists>ids. r = Inr ids \<and> (ids \<noteq> [] \<longrightarrow> gm_len (ms_retries (sv_state s')) < gm_len (ms_retries (sv_state s))) \<and>
       (ids = [] \<longrightarrow> (\<forall>bid due. gm_get (ms_retries (sv_state s')) bid = Some due \<longrightarrow> en_clk en (sv_tick s) < due)))"
proof (cases "ms_closed (sv_state s)")
  case True
  then show ?thesis using assms(2)
    by (auto simp: claim_due_def store_try_def ClaimDueRetries_def action_defs split: prod.splits sum.splits)
next
  case False
  let ?m = "ms_retries (sv_state s)" and ?t = "en_clk en (sv_tick s)"
  obtain ids m' where c: "claim_loop ?t 256 (en_ordR en ?m) [] ?m = (ids, m')"
    by (cases "claim_loop ?t 256 (en_ordR en ?m) [] ?m")
  have r: "r = Inr ids" "ms_retries (sv_state s') = m'" "ms_closed (sv_state s') = ms_closed (sv_state s)"
    using assms(2) False c by (auto simp: claim_due_def store_try_def ClaimDueRetries_def action_defs)
  have ord: "set (en_ordR en ?m) = set ?m" using assms(1) by (intro is_order_set) (simp add: env_ok_def)
  have res: "m' = foldl gm_del ?m ids" "set ids \<subseteq> due_keys ?t (en_ordR en ?m)"
      "int (length ids) < 256 \<Longrightarrow> due_keys ?t (en_ordR en ?m) \<subseteq> set ids"
    using claim_loop_result [OF c] by auto
  have "gm_len m' < gm_len ?m" if "ids \<noteq> []"
  proof -
    obtain b rest where ids: "ids = b # rest" using \<open>ids \<noteq> []\<close> by (cases ids) auto
    then have "b \<in> fst ` set ?m" using res(2) due_keys_subset [of ?t "en_ordR en ?m"] ord by auto
    from gm_del_shrinks [OF this] length_gm_del_le [of "gm_del ?m b" rest] show ?thesis by (simp add: res(1) ids)
  qed
  moreover have "?t < due" if "ids = []" and "gm_get m' bid = Some due" for bid due
  proof (rule ccontr)
    assume "\<not> ?t < due"
    moreover have "(bid, due) \<in> set ?m" using that res(1) by (auto simp: gm_get_def dest: map_of_SomeD)
    ultimately have "bid \<in> due_keys ?t (en_ordR en ?m)" unfolding due_keys_def ord by force
    then show False using res(3) that(1) by auto
  qed
  ultimately show ?thesis using r False by auto
qed

text \<open>A round that claims some retries and works on them.\<close>

definition retry_round :: "SvcEnv \<Rightarrow> Service \<Rightarrow> Service \<Rightarrow> bool" where
  "retry_round en s s' \<longleftrightarrow> (\<exists>ids s1. claim_due en s = (Inr ids, s1) \<and> ids \<noteq> [] \<and> s' = snd (process_retries en ids s1))"

lemma drain_loop_returns:
  assumes "env_ok en"
  shows "gm_len (ms_retries (sv_state s)) < n \<Longrightarrow> \<not> ms_closed (sv_state s) \<Longrightarrow>
    \<exists>s'. (\<forall>m \<ge> n. drain_loop m en s = Some s') \<and>
      (\<exists>s1. (retry_round en)\<^sup>*\<^sup>* s s1 \<and> claim_due en s1 = (Inr [], s') \<and>
        (\<forall>bid due. gm_get (ms_retries (sv_state s')) bid = Some due \<longrightarrow> en_clk en (sv_tick s1) < due))"
proof (induction n arbitrary: s)
  case (Suc n)
  obtain r s1 where c: "claim_due en s = (r, s1)" by (cases "claim_due en s")
  have unfold: "drain_loop m en s = (case r of Inl _ \<Rightarrow> Some s1
      | Inr ids \<Rightarrow> if ids = [] then Some s1 else drain_loop (m - 1) en (snd (process_retries en ids s1)))" if "m \<ge> Suc n" for m
    using c that by (cases m) (auto split: sum.split)
  have op: "ms_closed (sv_state s1) = ms_closed (sv_state s)" using claim_due_outcome [OF assms c] Suc.prems(2) by simp
  from claim_due_outcome [OF assms c] Suc.prems(2)
  consider (idle) "r = Inr []" "\<forall>bid due. gm_get (ms_retries (sv_state s1)) bid = Some due \<longrightarrow> en_clk en (sv_tick s) < due"
    | (more) ids where "r = Inr ids" "ids \<noteq> []" "gm_len (ms_retries (sv_state s1)) < gm_len (ms_retries (sv_state s))"
    by auto
  then show ?case
  proof cases
    case more
    let ?s2 = "snd (process_retries en ids s1)"
    have "ms_retries (sv_state ?s2) = ms_retries (sv_state s1) \<and> ms_closed (sv_state ?s2) = ms_closed (sv_state s1)"
      using retries.stays_process_retries [OF assms] by (simp add: retries.stays_def retries.on_store_def)
    then have "gm_len (ms_retries (sv_state ?s2)) < n" "\<not> ms_closed (sv_state ?s2)" using more(3) Suc.prems op by simp_all
    from Suc.IH [OF this] obtain s' s3 where s': "\<forall>m \<ge> n. drain_loop m en ?s2 = Some s'"
        "(retry_round en)\<^sup>*\<^sup>* ?s2 s3" "claim_due en s3 = (Inr [], s')"
        "\<forall>bid due. gm_get (ms_retries (sv_state s')) bid = Some due \<longrightarrow> en_clk en (sv_tick s3) < due"
      by blast
    have "drain_loop m en s = Some s'" if "m \<ge> Suc n" for m
      using unfold [OF that] more(1,2) s'(1) [rule_format, of "m - 1"] that by simp
    moreover have "retry_round en s ?s2" using c more(1,2) unfolding retry_round_def by blast
    then have "(retry_round en)\<^sup>*\<^sup>* s s3" using s'(2) by (rule converse_rtranclp_into_rtranclp)
    ultimately show ?thesis using s'(3,4) by blast
  next
    case idle
    then have "\<forall>m \<ge> Suc n. drain_loop m en s = Some s1" using unfold by simp
    then show ?thesis using idle c by blast
  qed
qed simp

section \<open>Successful runs\<close>

text \<open>What a successful run of an action tells about its parts.\<close>

lemma bnd_Inr: "bnd m f s = (Inr y, s') \<longleftrightarrow> (\<exists>x s1. m s = (Inr x, s1) \<and> f x s1 = (Inr y, s'))"
  by (auto simp: bnd_def split: prod.splits sum.splits)

lemma on_err_Inr: "on_err g m s = (Inr x, s') \<longleftrightarrow> m s = (Inr x, s')"
  by (auto simp: on_err_def either_def bnd_def metric_def upd_def raise_def ret_def split: prod.splits sum.splits)

lemma tag_Inr: "tag t m s = (Inr x, s') \<longleftrightarrow> m s = (Inr x, s')"
  by (auto simp: tag_def either_def raise_def ret_def split: prod.splits sum.splits)

text \<open>The parts of the state that the commitment reads.\<close>

definition same_view :: "Service \<Rightarrow> Service \<Rightarrow> bool" where
  "same_view s s' \<longleftrightarrow> sv_cfg s' = sv_cfg s \<and> sv_auth s' = sv_auth s \<and> sv_checkpts s' = sv_checkpts s"

lemma same_view_trans: "same_view a b \<Longrightarrow> same_view b c \<Longrightarrow> same_view a c"
  by (simp add: same_view_def)

lemma transition_ok:
  assumes "transition en bid from to reason s = (Inr rec, s')"
  shows "(\<exists>clk. TransitionBundle clk bid from to reason (sv_state s) = (Inr rec, sv_state s')) \<and> same_view s s'"
  using assms by (auto simp: transition_def store_try_def action_defs same_view_def split: prod.splits sum.splits)

lemma emit_ok:
  assumes "emitTransition en rec from to reason s = (Inr x, s')"
  shows "sv_state s' = AppendEvent (event_now en s rec from to reason) (sv_state s) \<and> same_view s s'"
proof -
  let ?ev = "event_now en s rec from to reason"
  obtain l w where l: "log_event en s ?ev = (l, w)" by (cases "log_event en s ?ev")
  obtain r b where p: "Publish (event_message en s rec ?ev) (sv_broker s) = (r, b)"
    by (cases "Publish (event_message en s rec ?ev) (sv_broker s)")
  show ?thesis
  proof (cases l)
    case (Inl e)
    then show ?thesis using emit_unlogged [OF refl l [unfolded Inl]] assms by simp
  next
    case (Inr u)
    then show ?thesis using emit_logged [OF refl _ p, of w] l assms by (auto simp: same_view_def)
  qed
qed

lemma store_call_ok: "store_call en f s = (Inr x, s') \<Longrightarrow> (\<exists>clk. f clk (sv_state s) = (x, sv_state s')) \<and> same_view s s'"
  by (auto simp: store_call_def same_view_def split: prod.splits)

lemma quiet_ok:
  "asks f s = (Inr x, s') \<Longrightarrow> x = f s \<and> s' = s"
  "clock en s = (Inr t, s') \<Longrightarrow> same_view s s' \<and> sv_state s' = sv_state s"
  "since en g t0 s = (Inr u, s') \<Longrightarrow> same_view s s' \<and> sv_state s' = sv_state s"
  "metric h s = (Inr u, s') \<Longrightarrow> same_view s s' \<and> sv_state s' = sv_state s"
  "wal_append en kind body s = (Inr u, s') \<Longrightarrow> same_view s s' \<and> sv_state s' = sv_state s"
  "publish msg s = (Inr u, s') \<Longrightarrow> same_view s s' \<and> sv_state s' = sv_state s"
  by (auto simp: action_defs same_view_def split: prod.splits sum.splits option.splits)

lemma put_checkpoint_ok:
  "put_checkpoint cp body s = (Inr u, s') \<Longrightarrow> sv_cfg s' = sv_cfg s \<and> sv_auth s' = sv_auth s \<and> sv_state s' = sv_state s \<and>
   (\<exists>key. cs_Put cp body (sv_checkpts s) = (Inr key, sv_checkpts s'))"
  by (auto simp: put_checkpoint_def split: prod.splits sum.splits)

lemma commit_ok:
  assumes "commit_checkpoint en rec s = (Inr u, s')"
  shows "\<exists>t key. let cp = checkpoint_of en t (sv_auth s) rec (ListEvents (bd_ID rec) (rc_HistoryLimit (sv_cfg s)) (sv_state s)) in
    sv_state s' = DeleteEvents (bd_ID rec) (PutCheckpoint (en_ordC en) cp (sv_state s)) \<and>
    cs_Put cp (en_cpJSON en cp) (sv_checkpts s) = (Inr key, sv_checkpts s')"
  using assms unfolding commit_checkpoint_def Let_def bnd_Inr on_err_Inr
  apply (elim exE conjE)
  apply (drule quiet_ok store_call_ok put_checkpoint_ok)+
  apply (clarsimp simp: same_view_def)
  apply (metis (no_types))
  done

lemma release_inflight:
  "0 \<le> GetInflight c st \<Longrightarrow> GetInflight c (snd (ReleaseInflight c st)) = max 0 (GetInflight c st - 1)"
  by (auto simp: GetInflight_def ReleaseInflight_def Let_def gm_get0_def max_def)

text \<open>The trail of a bundle, and what two more events make of it.\<close>

definition trail :: "string \<Rightarrow> MemStore \<Rightarrow> EventRecord list" where
  "trail bid st = gm_get0 [] (ms_events st) bid"

lemma keep_last: "0 \<le> n \<Longrightarrow> (if int (length xs) > n then drop (nat (int (length xs) - n)) xs else xs) = last_n (nat n) xs"
proof -
  assume "0 \<le> n"
  then have "nat (int (length xs) - n) = length xs - nat n" by linarith
  then show ?thesis using \<open>0 \<le> n\<close> by (auto simp: last_n_def)
qed

lemma AppendEvent_trail:
  assumes "0 \<le> ms_limit st" and "ev_BundleID ev = bid"
  shows "trail bid (AppendEvent ev st) = last_n (nat (ms_limit st)) (trail bid st @ [ev])"
proof -
  have "AppendEvent ev st = st\<lparr> ms_events := gm_set (ms_events st) bid (last_n (nat (ms_limit st)) (trail bid st @ [ev])) \<rparr>"
    unfolding AppendEvent_def Let_def keep_last [OF assms(1)] assms(2) trail_def ..
  then show ?thesis by (simp add: trail_def gm_get0_def)
qed

lemma AppendEvent_frame [simp]:
  "ms_records (AppendEvent ev st) = ms_records st" "ms_inflight (AppendEvent ev st) = ms_inflight st"
  "ms_limit (AppendEvent ev st) = ms_limit st"
  by (simp_all add: AppendEvent_def Let_def)

lemma put_record_frame [simp]:
  "ms_events (put_record bid r st) = ms_events st" "ms_inflight (put_record bid r st) = ms_inflight st"
  "ms_limit (put_record bid r st) = ms_limit st" "gm_get (ms_records (put_record bid r st)) bid = Some r"
  by (simp_all add: put_record_def)

lemma PutCheckpoint_frame [simp]:
  "ms_records (PutCheckpoint ord cp st) = ms_records st" "ms_inflight (PutCheckpoint ord cp st) = ms_inflight st"
  by (simp_all add: PutCheckpoint_def pruneCheckpointsLocked_def Let_def)

lemma DeleteEvents_frame [simp]:
  "ms_records (DeleteEvents bid st) = ms_records st" "ms_inflight (DeleteEvents bid st) = ms_inflight st"
  "trail bid (DeleteEvents bid st) = []"
  by (simp_all add: DeleteEvents_def trail_def gm_get0_def)

lemma ReleaseInflight_frame [simp]:
  "ms_records (snd (ReleaseInflight c st)) = ms_records st" "ms_events (snd (ReleaseInflight c st)) = ms_events st"
  by (simp_all add: ReleaseInflight_def Let_def)

lemma TransitionBundle_ok:
  assumes "TransitionBundle clk bid from to reason st = (Inr rec, st')"
  shows "\<exists>r t. gm_get (ms_records st) bid = Some r \<and> bd_State r = from \<and> rec = transition_record t to reason r \<and> st' = put_record bid rec st"
  using TransitionBundle_cases [of clk bid "from" to reason st] assms by auto

lemma finish_body_ok:
  assumes "finish_body en rec terminal reason s = (Inr rec', s')"
  obtains r1 :: BundleRecord and s1 s2 s3 s4 s5 :: Service and clk1 clk2 u where
    "TransitionBundle clk1 (bd_ID rec) terminal StatePersisted reason (sv_state s) = (Inr r1, sv_state s1)"
    and "sv_state s2 = AppendEvent (event_now en s1 r1 terminal StatePersisted ''persisted'') (sv_state s1)"
    and "TransitionBundle clk2 (bd_ID r1) StatePersisted StateCompleted ''completed'' (sv_state s2) = (Inr rec', sv_state s3)"
    and "sv_state s4 = AppendEvent (event_now en s3 rec' StatePersisted StateCompleted ''completed'') (sv_state s3)"
    and "same_view s s1" "same_view s s3" "same_view s s4" and "commit_checkpoint en rec' s4 = (Inr u, s5)"
    and "sv_state s' = sv_state s5" and "sv_checkpts s' = sv_checkpts s5"
proof -
  from assms obtain r1 s1 e1 s2 r2 s3 e2 s4 u s5 v s6 where steps:
    "transition en (bd_ID rec) terminal StatePersisted reason s = (Inr r1, s1)"
    "emitTransition en r1 terminal StatePersisted ''persisted'' s1 = (Inr e1, s2)"
    "transition en (bd_ID r1) StatePersisted StateCompleted ''completed'' s2 = (Inr r2, s3)"
    "emitTransition en r2 StatePersisted StateCompleted ''completed'' s3 = (Inr e2, s4)"
    "commit_checkpoint en r2 s4 = (Inr u, s5)" 
    "metric (count_terminal terminal) s5 = (Inr v :: relay_error \<times> BundleRecord + unit, s6)"
    "ret r2 s6 = (Inr rec' :: relay_error \<times> BundleRecord + BundleRecord, s')"
    unfolding finish_body_def bnd_Inr tag_Inr on_err_Inr by blast
  have last: "r2 = rec'" "sv_state s' = sv_state s5" "sv_checkpts s' = sv_checkpts s5"
    using steps(6,7) by (auto simp: metric_def upd_def ret_def)
  have "same_view s s1 \<and> same_view s s3 \<and> same_view s s4"
    using transition_ok [OF steps(1)] emit_ok [OF steps(2)] transition_ok [OF steps(3)] emit_ok [OF steps(4)]
    by (simp add: same_view_def)
  moreover obtain clk1 where t1: "TransitionBundle clk1 (bd_ID rec) terminal StatePersisted reason (sv_state s) = (Inr r1, sv_state s1)"
    using transition_ok [OF steps(1)] by blast
  moreover obtain clk2 where t2: "TransitionBundle clk2 (bd_ID r1) StatePersisted StateCompleted ''completed'' (sv_state s2) = (Inr rec', sv_state s3)"
    using transition_ok [OF steps(3)] last(1) by blast
  ultimately show ?thesis
    using that [of clk1 r1 s1 s2 clk2 s3 s4 u s5] emit_ok [OF steps(2)] emit_ok [OF steps(4)] steps(5) last by simp
qed

lemma cs_Put_Get: "cs_Put cp body c = (Inr key, c') \<Longrightarrow> cp_ObjectKey cp \<noteq> [] \<Longrightarrow> cs_Get (cp_ObjectKey cp) c' = Inr body"
  by (auto simp: cs_Put_def cs_Get_def Let_def split: if_splits)

lemma checkpoint_key: "cp_ObjectKey (checkpoint_of en t auth rec events) \<noteq> []"
  by (simp add: checkpoint_of_def checkpointObjectKey_def Let_def)

lemma last_n_snoc_last: "last_n n (last_n n xs @ [x]) = last_n n (xs @ [x])"
  by (cases "n \<le> length xs") (simp_all add: last_n_def Suc_diff_le)

lemma two_events:
  assumes "0 \<le> ms_limit st" and "ev_BundleID ev1 = bid" and "ev_BundleID ev2 = bid" and "ms_events st2 = ms_events (AppendEvent ev1 st)"
    and "ms_limit st2 = ms_limit st"
  shows "ListEvents bid limit (AppendEvent ev2 st2) = last_n (list_limit st limit) (trail bid st @ [ev1, ev2])"
proof -
  let ?n = "nat (ms_limit st)"
  have "trail bid st2 = last_n ?n (trail bid st @ [ev1])"
    using AppendEvent_trail [OF assms(1,2)] assms(4) by (simp add: trail_def)
  then have "trail bid (AppendEvent ev2 st2) = last_n ?n (trail bid st @ [ev1, ev2])"
    using AppendEvent_trail [of st2 ev2 bid] assms(1,3,5) last_n_snoc_last [of ?n "trail bid st @ [ev1]" ev2] by simp
  moreover have "list_limit (AppendEvent ev2 st2) limit = list_limit st limit" "list_limit st limit \<le> ?n"
    using assms(5) by (simp_all add: list_limit_def nat_le_eq_zle)
  ultimately show ?thesis by (simp add: ListEvents_def trail_def [symmetric] last_n_last_n min_absorb1)
qed

definition final_events :: "gtime \<Rightarrow> gtime \<Rightarrow> Authority \<Rightarrow> BundleRecord \<Rightarrow> BundleRecord \<Rightarrow> BundleState \<Rightarrow> Service \<Rightarrow> EventRecord list" where
  "final_events t1 t2 auth r1 r2 terminal s =
     last_n (list_limit (sv_state s) (rc_HistoryLimit (sv_cfg s)))
       (trail (bd_ID r2) (sv_state s) @ [event_of t1 auth r1 terminal StatePersisted ''persisted'',
          event_of t2 auth r2 StatePersisted StateCompleted ''completed''])"

lemma finish_body_effect:
  assumes "store_inv (sv_state s)" and "GetBundle (bd_ID rec) (sv_state s) = Some r0"
    and "finish_body en rec terminal reason s = (Inr rec', sb)"
  shows "bd_State r0 = terminal \<and> bd_State rec' = StateCompleted \<and> bd_Version rec' = bd_Version r0 + 2 \<and>
    bd_ClientID rec' = bd_ClientID r0 \<and> GetBundle (bd_ID rec) (sv_state sb) = Some rec' \<and>
    ms_inflight (sv_state sb) = ms_inflight (sv_state s) \<and> trail (bd_ID rec) (sv_state sb) = [] \<and>
    (\<exists>t1 t2 t3 r1. let cp = checkpoint_of en t3 (sv_auth s) rec' (final_events t1 t2 (sv_auth s) r1 rec' terminal s)
      in cs_Get (cp_ObjectKey cp) (sv_checkpts sb) = Inr (en_cpJSON en cp))"
proof -
  from assms(3) obtain r1 :: BundleRecord and s1 s2 s3 s4 s5 :: Service and clk1 clk2 u where
    t1: "TransitionBundle clk1 (bd_ID rec) terminal StatePersisted reason (sv_state s) = (Inr r1, sv_state s1)"
    and e1: "sv_state s2 = AppendEvent (event_now en s1 r1 terminal StatePersisted ''persisted'') (sv_state s1)"
    and t2: "TransitionBundle clk2 (bd_ID r1) StatePersisted StateCompleted ''completed'' (sv_state s2) = (Inr rec', sv_state s3)"
    and e2: "sv_state s4 = AppendEvent (event_now en s3 rec' StatePersisted StateCompleted ''completed'') (sv_state s3)"
    and v: "same_view s s1" "same_view s s3" "same_view s s4" and c: "commit_checkpoint en rec' s4 = (Inr u, s5)"
    and sb: "sv_state sb = sv_state s5" "sv_checkpts sb = sv_checkpts s5" by (rule finish_body_ok)
  have r1: "\<exists>t. r1 = transition_record t StatePersisted reason r0" "bd_State r0 = terminal"
      and st1: "sv_state s1 = put_record (bd_ID rec) r1 (sv_state s)"
    using TransitionBundle_ok [OF t1] assms(2) by (auto simp: GetBundle_def)
  have ids: "bd_ID r0 = bd_ID rec" using assms(1,2) by (simp add: store_inv_def index_ok_def GetBundle_def)
  then have id1: "bd_ID r1 = bd_ID rec" using r1 by auto
  have get2: "gm_get (ms_records (sv_state s2)) (bd_ID rec) = Some r1" by (simp add: e1 st1)
  have rec': "\<exists>t. rec' = transition_record t StateCompleted ''completed'' r1"
      and st3: "sv_state s3 = put_record (bd_ID rec) rec' (sv_state s2)"
    using TransitionBundle_ok [OF t2 [unfolded id1]] get2 by auto
  have id': "bd_ID rec' = bd_ID rec" "bd_ClientID rec' = bd_ClientID r0" "bd_Version rec' = bd_Version r0 + 2"
      "bd_State rec' = StateCompleted"
    using rec' r1 id1 by auto
  let ?ev1 = "event_now en s1 r1 terminal StatePersisted ''persisted''"
  let ?ev2 = "event_now en s3 rec' StatePersisted StateCompleted ''completed''"
  let ?lim = "rc_HistoryLimit (sv_cfg s)"
  let ?events = "final_events (en_clk en (sv_tick s1)) (en_clk en (sv_tick s3)) (sv_auth s) r1 rec' terminal s"
  have limits: "0 \<le> ms_limit (sv_state s1)" "list_limit (sv_state s1) ?lim = list_limit (sv_state s) ?lim"
      "trail (bd_ID rec) (sv_state s1) = trail (bd_ID rec) (sv_state s)"
    using assms(1) by (simp_all add: st1 store_inv_def list_limit_def trail_def)
  have evs: "ev_BundleID ?ev1 = bd_ID rec" "ev_BundleID ?ev2 = bd_ID rec"
    by (simp_all add: event_now_def event_of_def id1 id')
  have events: "ListEvents (bd_ID rec) ?lim (sv_state s4) = ?events"
    using two_events [OF limits(1) evs, of "sv_state s3" ?lim] v
    by (simp add: e2 st3 e1 limits final_events_def event_now_def same_view_def id')
  obtain t3 key where cp: "sv_state s5 = DeleteEvents (bd_ID rec) (PutCheckpoint (en_ordC en) (checkpoint_of en t3 (sv_auth s) rec' ?events) (sv_state s4))"
      "cs_Put (checkpoint_of en t3 (sv_auth s) rec' ?events) (en_cpJSON en (checkpoint_of en t3 (sv_auth s) rec' ?events)) (sv_checkpts s) = (Inr key, sv_checkpts s5)"
    using commit_ok [OF c] v events by (auto simp: Let_def id' same_view_def)
  have "cs_Get (cp_ObjectKey (checkpoint_of en t3 (sv_auth s) rec' ?events)) (sv_checkpts sb) =
      Inr (en_cpJSON en (checkpoint_of en t3 (sv_auth s) rec' ?events))"
    unfolding sb by (rule cs_Put_Get [OF cp(2) checkpoint_key])
  moreover have "trail (bd_ID rec) (sv_state sb) = []" by (simp add: sb cp(1))
  moreover have "GetBundle (bd_ID rec) (sv_state sb) = Some rec'" "ms_inflight (sv_state sb) = ms_inflight (sv_state s)"
    by (simp_all add: GetBundle_def sb cp(1) e2 st3 e1 st1)
  ultimately show ?thesis using r1(2) id' unfolding Let_def by blast
qed

section \<open>Total correctness of the terminal path\<close>

text \<open>
  An action that, started in a state with \<open>P\<close>, returns without an error in a state with \<open>Q\<close>. With a file
  system that does not fail and a codec that reads back what it wrote, the log accepts every
  entry of the service (\<open>append_holds\<close>); with the other back ends open, so does the whole trail.
\<close>

definition total :: "(Service \<Rightarrow> bool) \<Rightarrow> ('e, 'a) act \<Rightarrow> ('a \<Rightarrow> Service \<Rightarrow> bool) \<Rightarrow> bool" where
  "total P m Q \<longleftrightarrow> (\<forall>s. P s \<longrightarrow> (\<exists>x s'. m s = (Inr x, s') \<and> Q x s'))"

named_theorems totals \<open>actions that succeed\<close>

lemma total_bnd: "total P m Q \<Longrightarrow> (\<And>x. total (Q x) (f x) Q') \<Longrightarrow> total P (bnd m f) Q'"
  unfolding total_def bnd_def by fastforce

lemma total_bnd_inv [totals]: "total P m (\<lambda>_. P) \<Longrightarrow> (\<And>x. total P (f x) Q') \<Longrightarrow> total P (bnd m f) Q'"
  by (rule total_bnd)

lemma total_on_err [totals]: "total P m Q \<Longrightarrow> total P (on_err g m) Q"
  unfolding total_def on_err_Inr .

lemma total_tag: "total P m Q \<Longrightarrow> total P (tag t m) Q"
  unfolding total_def tag_Inr .

text \<open>Back ends that work, and a bundle of which the relay holds a valid lease.\<close>

definition log_ok :: "SvcEnv \<Rightarrow> (WalEntry \<Rightarrow> bool) \<Rightarrow> bool" where
  "log_ok en ok \<longleftrightarrow> en_io en = no_faults \<and> codec_ok (en_enc en) (en_dec en) ok \<and>
     (\<forall>k ev. ok (call_entry (en_clk en k, ''event'', en_evJSON en ev))) \<and>
     (\<forall>k cp. ok (call_entry (en_clk en k, ''checkpoint'', en_cpJSON en cp)))"

definition healthy :: "SvcEnv \<Rightarrow> (WalEntry \<Rightarrow> bool) \<Rightarrow> Service \<Rightarrow> bool" where
  "healthy en ok s \<longleftrightarrow> (\<exists>k hs cs. wal_holds (en_enc en) ok k (sv_wal s) hs cs) \<and> \<not> br_closed (sv_broker s) \<and> \<not> cs_closed (sv_checkpts s)"

definition holds_lease :: "SvcEnv \<Rightarrow> (WalEntry \<Rightarrow> bool) \<Rightarrow> string \<Rightarrow> BundleState \<Rightarrow> BundleRecord \<Rightarrow> Service \<Rightarrow> bool" where
  "holds_lease en ok bid state r s \<longleftrightarrow> healthy en ok s \<and> GetBundle bid (sv_state s) = Some r \<and> bd_ID r = bid \<and> bd_State r = state \<and>
     (\<forall>k. validateAuthorityLocked (en_clk en k) (sv_state s) r = None)"

lemma Publish_open: "\<not> br_closed b \<Longrightarrow> fst (Publish msg b) = None \<and> \<not> br_closed (snd (Publish msg b))"
proof -
  assume b: "\<not> br_closed b"
  have "br_closed (foldl (\<lambda>b ch. try_send msg ch b) b chs) = br_closed b" for chs
    by (induction chs arbitrary: b) (simp_all add: try_send_def Let_def)
  then show ?thesis using b by (simp add: Publish_def)
qed

lemma append_ok:
  assumes "log_ok en ok" and "wal_holds (en_enc en) ok k w hs cs"
  shows "\<exists>w' hs' cs'. AppendEncoded (en_io en) (en_enc en) (en_dec en) (en_clk en i) ''event'' (en_evJSON en ev) w = (Inr (), w') \<and> wal_holds (en_enc en) ok k w' hs' cs'"
    and "\<exists>w' hs' cs'. AppendEncoded (en_io en) (en_enc en) (en_dec en) (en_clk en i) ''checkpoint'' (en_cpJSON en cp) w = (Inr (), w') \<and> wal_holds (en_enc en) ok k w' hs' cs'"
  using append_holds [OF _ assms(2)] assms(1) unfolding log_ok_def by metis+

lemma healthy_quiet [totals]:
  "total (healthy en ok) (asks f) (\<lambda>_. healthy en ok)" "total (healthy en ok) (clock en') (\<lambda>_. healthy en ok)"
  "total (healthy en ok) (since en' g t) (\<lambda>_. healthy en ok)" "total (healthy en ok) (store_call en' h) (\<lambda>_. healthy en ok)"
  "total (healthy en ok) (put_checkpoint cp body) (\<lambda>_. healthy en ok)"
  by (simp_all add: total_def healthy_def action_defs put_checkpoint_def cs_Put_def Let_def split: prod.split)

lemma healthy_publish [totals]: "total (healthy en ok) (publish msg) (\<lambda>_. healthy en ok)"
  using Publish_open [of _ msg] by (force simp: total_def healthy_def publish_def split: prod.split option.split)

lemma healthy_wal [totals]:
  assumes "log_ok en ok"
  shows "total (healthy en ok) (wal_append en ''checkpoint'' (en_cpJSON en cp)) (\<lambda>_. healthy en ok)"
  unfolding total_def
proof (intro allI impI)
  fix s assume h: "healthy en ok s"
  then obtain k hs cs where "wal_holds (en_enc en) ok k (sv_wal s) hs cs" by (auto simp: healthy_def)
  from append_ok(2) [OF assms this, of "sv_tick s" cp] h
  show "\<exists>x s'. wal_append en ''checkpoint'' (en_cpJSON en cp) s = (Inr x, s') \<and> healthy en ok s'"
    by (auto simp: action_defs healthy_def) blast
qed

lemma total_let [totals]: "total P (f x) Q \<Longrightarrow> total P (let y = x in f y) Q"
  by simp

lemma commit_total: "log_ok en ok \<Longrightarrow> total (healthy en ok) (commit_checkpoint en rec) (\<lambda>_. healthy en ok)"
  unfolding commit_checkpoint_def by (intro totals)

lemma emit_total: "log_ok en ok \<Longrightarrow> total (holds_lease en ok bid state r) (emitTransition en rec from to reason) (\<lambda>_. holds_lease en ok bid state r)"
  unfolding total_def
proof (intro allI impI)
  fix s assume l: "log_ok en ok" and h: "holds_lease en ok bid state r s"
  let ?ev = "event_now en s rec from to reason"
  obtain k hs cs where "wal_holds (en_enc en) ok k (sv_wal s) hs cs" using h by (auto simp: holds_lease_def healthy_def)
  from append_ok(1) [OF l this, of "7 + sv_tick s" ?ev] obtain w hs' cs' where
    w: "log_event en s ?ev = (Inr (), w)" "wal_holds (en_enc en) ok k w hs' cs'" by (auto simp: log_event_def)
  have "\<not> br_closed (sv_broker s)" using h by (simp add: holds_lease_def healthy_def)
  from Publish_open [OF this, of "event_message en s rec ?ev"] obtain b where
    b: "Publish (event_message en s rec ?ev) (sv_broker s) = (None, b)" "\<not> br_closed b" by (metis prod.collapse)
  have frame: "validateAuthorityLocked t (AppendEvent ev st) r = validateAuthorityLocked t st r" for t ev st
    by (simp add: validateAuthorityLocked_def AppendEvent_def Let_def)
  from emit_logged [OF refl w(1) b(1)] obtain s' where s': "emitTransition en rec from to reason s = (Inr (), s')"
    "sv_state s' = AppendEvent ?ev (sv_state s)" "sv_wal s' = w" "sv_broker s' = b" "sv_checkpts s' = sv_checkpts s" by auto
  have "holds_lease en ok bid state r s'"
    using h w(2) b(2) by (auto simp: holds_lease_def healthy_def s'(2-) frame GetBundle_def)
  then show "\<exists>x s'. emitTransition en rec from to reason s = (Inr x, s') \<and> holds_lease en ok bid state r s'"
    using s'(1) by blast
qed

lemma transition_record_lease [simp]:
  "bd_LeaseID (transition_record t to reason r) = bd_LeaseID r" "bd_LeaseEpoch (transition_record t to reason r) = bd_LeaseEpoch r"
  "bd_FenceToken (transition_record t to reason r) = bd_FenceToken r"
  by (simp_all add: transition_record_def Let_def)

lemma transition_total:
  assumes "CanTransition from to"
  shows "total (holds_lease en ok bid from r) (transition en bid from to reason)
    (\<lambda>r' s. \<exists>t. r' = transition_record t to reason r \<and> holds_lease en ok bid to r' s)"
  unfolding total_def
proof (intro allI impI)
  fix s assume h: "holds_lease en ok bid from r s"
  let ?r = "transition_record (en_clk en (sv_tick s + 1)) to reason r"
  have "validateAuthorityLocked t (put_record bid ?r (sv_state s)) ?r = validateAuthorityLocked t (sv_state s) r" for t
    by (simp add: validateAuthorityLocked_def put_record_def split: option.split)
  moreover have "TransitionBundle (\<lambda>i. en_clk en (sv_tick s + i)) bid from to reason (sv_state s) = (Inr ?r, put_record bid ?r (sv_state s))"
    using h assms by (simp add: TransitionBundle_def ValidateTransition_None [THEN iffD2] holds_lease_def GetBundle_def Let_def)
  ultimately show "\<exists>x s'. transition en bid from to reason s = (Inr x, s') \<and>
      (\<exists>t. x = transition_record t to reason r \<and> holds_lease en ok bid to x s')"
    using h by (simp add: transition_def store_try_def action_defs holds_lease_def healthy_def GetBundle_def) blast
qed

lemma total_lease: "(bd_ID r = bid \<Longrightarrow> total (holds_lease en ok bid state r) m Q) \<Longrightarrow> total (holds_lease en ok bid state r) m Q"
  unfolding total_def holds_lease_def by blast

lemma total_healthy: "total (healthy en ok) m Q \<Longrightarrow> total (holds_lease en ok bid state r) m Q"
  unfolding total_def holds_lease_def by blast

lemma total_known: "total (P x) m Q \<Longrightarrow> total (\<lambda>s. \<exists>t. x = g t \<and> P x s) m Q"
  unfolding total_def by blast

lemma healthy_metric: "total (healthy en ok) (metric f) (\<lambda>_. healthy en ok)"
  by (simp add: total_def healthy_def action_defs)

text \<open>A bundle in a terminal state is completed when the back ends work and the lease lasts.\<close>

lemma finish_body_total:
  assumes "log_ok en ok" and "CanTransition terminal StatePersisted"
  shows "total (holds_lease en ok (bd_ID rec) terminal r0) (finish_body en rec terminal reason) (\<lambda>_ _. True)"
  unfolding finish_body_def
  apply (rule total_bnd [OF total_tag [OF total_on_err [OF transition_total [OF assms(2)]]]])
  apply (rule total_known)
  apply (rule total_bnd [OF total_tag [OF total_on_err [OF emit_total [OF assms(1)]]]])
  apply (rule total_lease)
  apply (simp only:)
  apply (rule total_bnd [OF total_tag [OF total_on_err [OF transition_total]]])
   apply (simp add: CanTransition_def)
  apply (rule total_known)
  apply (rule total_bnd [OF total_tag [OF total_on_err [OF emit_total [OF assms(1)]]]])
  apply (rule total_bnd [OF total_tag [OF total_healthy [OF commit_total [OF assms(1)]]]])
  apply (rule total_bnd [OF healthy_metric])
  apply (simp add: total_def ret_def)
  done

lemma finish_total:
  assumes "log_ok en ok" and "CanTransition terminal StatePersisted" and "holds_lease en ok (bd_ID rec) terminal r0 s" and "bd_ID rec \<noteq> []"
  shows "\<exists>rec' s'. finishTerminal en rec terminal reason s = (Inr rec', s')"
proof -
  obtain r s1 where "finish_body en rec terminal reason s = (Inr r, s1)"
    using finish_body_total [OF assms(1,2)] assms(3) unfolding total_def by blast
  then show ?thesis using assms(4) by (auto simp: finishTerminal_def release_def action_defs split: prod.split)
qed

text \<open>
  When its first transition fails, \<^verbatim>\<open>finishTerminal\<close> has already overwritten the record its deferred
  release reads: the slot of the client stays taken.
\<close>

lemma release_other: "c \<noteq> c' \<Longrightarrow> GetInflight c (snd (ReleaseInflight c' st)) = GetInflight c st"
  by (simp add: GetInflight_def ReleaseInflight_def gm_get0_def Let_def)

lemma failed_finish_keeps_slot:
  assumes "fst (TransitionBundle (\<lambda>i. en_clk en (sv_tick s + i)) (bd_ID rec) terminal StatePersisted reason (sv_state s)) = Inl e"
    and "bd_ID rec \<noteq> []" and "bd_ClientID rec \<noteq> []"
  shows "GetInflight (bd_ClientID rec) (sv_state (snd (finishTerminal en rec terminal reason s))) = GetInflight (bd_ClientID rec) (sv_state s)"
proof -
  have "TransitionBundle (\<lambda>i. en_clk en (sv_tick s + i)) (bd_ID rec) terminal StatePersisted reason (sv_state s) = (Inl e, sv_state s)"
    using TransitionBundle_cases [of "\<lambda>i. en_clk en (sv_tick s + i)" "bd_ID rec" terminal StatePersisted reason "sv_state s"] assms(1) by auto
  then obtain s1 where body: "finish_body en rec terminal reason s = (Inl (StoreErr e, zero_bundle), s1)" "sv_state s1 = sv_state s"
    by (simp add: finish_body_def tag_def transition_def store_try_def action_defs)
  have "bd_ClientID rec \<noteq> bd_ClientID zero_bundle" using assms(3) by (simp add: zero_bundle_def)
  from release_other [OF this] show ?thesis
    using assms(2) by (simp add: finishTerminal_def either_def body bnd_def release_def store_call_def raise_def split_beta)
qed

section \<open>A small instance\<close>

definition relay_env :: SvcEnv where
  "relay_env = \<lparr> en_clk = (\<lambda>_. 1), en_sha = (\<lambda>x. x), en_ordB = rev, en_ordR = rev, en_ordC = rev, en_evJSON = (\<lambda>_. []),
     en_cpJSON = (\<lambda>_. []), en_io = (\<lambda>_. None), en_enc = demo_enc, en_dec = demo_dec, en_log1p = (\<lambda>x. x),
     en_simulate = (\<lambda>_ _. Inl (True, ''busy'')), en_ping = (\<lambda>_. None) \<rparr>"

definition demo_wal :: WAL where
  "demo_wal = \<lparr> wl_path = ''wal'', wl_open = True, wl_disk = [], wl_writer = Some new_writer, wl_flushEvery = 8,
     wl_maxEntries = 8, wl_writes = 0, wl_io = 0 \<rparr>"

definition demo_rejected :: BundleRecord where
  "demo_rejected = demo_bundle\<lparr> bd_State := StateRejected \<rparr>"

definition demo_rejected_store :: MemStore where
  "demo_rejected_store = New_MemStore\<lparr> ms_records := [(''h:1'', demo_rejected)], ms_hashIndex := [(''h'', ''h:1'')],
     ms_inflight := [(''c'', 2)], ms_authority := [(''shard-0'', demo_auth)] \<rparr>"

definition demo_request :: JSONRPCRequest where
  "demo_request = \<lparr> jr_JSONRPC = ''2.0'', jr_ID = 1, jr_Method = ''eth_sendBundle'',
     jr_Params = [zero_request\<lparr> bq_Txs := [''0x01''], bq_BlockNumber := ''0x10'' \<rparr>] \<rparr>"

definition demo_service :: "MemStore \<Rightarrow> WAL \<Rightarrow> Service" where
  "demo_service = New_Service relay_env (relay_Load (\<lambda>_. None) (\<lambda>_. None) (\<lambda>_. None)) 5 (New_MemBroker 4) New_CheckpointStore"

lemma relay_env_ok: "env_ok relay_env"
  by (simp add: env_ok_def relay_env_def is_order_rev)

lemma demo_service_sel [simp]: "sv_state (demo_service st w) = st" "sv_wal (demo_service st w) = w" "sv_broker (demo_service st w) = New_MemBroker 4"
  "sv_checkpts (demo_service st w) = New_CheckpointStore"
  by (simp_all add: demo_service_def New_Service_def Let_def)

lemma demo_finish: "\<exists>rec' s'. finishTerminal relay_env demo_rejected StateRejected ''late'' (demo_service demo_rejected_store demo_wal) = (Inr rec', s')"
proof (rule finish_total)
  show "log_ok relay_env demo_wal_ok" using demo_codec by (simp add: log_ok_def relay_env_def no_faults_def demo_wal_ok_def)
  show "CanTransition StateRejected StatePersisted" by (simp add: CanTransition_def)
  have "wal_holds demo_enc demo_wal_ok 0 demo_wal [] []"
    using open_holds [of "''wal''" 8 8 demo_enc "[]" demo_wal demo_wal_ok]
    by (simp add: wal_Open_def demo_wal_def)
  then show "holds_lease relay_env demo_wal_ok (bd_ID demo_rejected) StateRejected demo_rejected (demo_service demo_rejected_store demo_wal)"
    by (auto simp: holds_lease_def healthy_def relay_env_def GetBundle_def demo_rejected_store_def demo_rejected_def demo_bundle_def
        gm_get_def validateAuthorityLocked_def demo_auth_def Valid_def now_or_def time_is_zero_def New_MemBroker_def New_CheckpointStore_def)
qed (simp add: demo_rejected_def demo_bundle_def)

section \<open>Properties\<close>

text \<open>
  C14: publication is write-ahead: once the log is dead, nothing the service does in whatever order
  ever changes what its subscribers receive, although bundles still change state in the store.
\<close>

theorem dead_log_publishes_nothing:
  assumes "env_ok en" and "wal_dead (sv_wal s)" and "(svc_step en)\<^sup>*\<^sup>* s s'"
  shows "sv_broker s' = sv_broker s \<and> wal_dead (sv_wal s')"
  using dead.R_steps [OF assms(1,3)] assms(2) by (simp add: dead_frame_def)

theorem dead_log_publishes_nothing_witness:
  "sv_broker (snd (Recover relay_env (snd (Submit relay_env demo_request (demo_service New_MemStore (demo_wal\<lparr> wl_open := False \<rparr>)))))) = New_MemBroker 4"
proof -
  let ?s = "demo_service New_MemStore (demo_wal\<lparr> wl_open := False \<rparr>)"
  have "svc_step relay_env ?s (snd (Submit relay_env demo_request ?s))"
    unfolding Submit_def bnd_def asks_def by (simp add: svc_step.submit)
  moreover have "svc_step relay_env s (snd (Recover relay_env s))" for s by (rule svc_step.recover)
  ultimately have "(svc_step relay_env)\<^sup>*\<^sup>* ?s (snd (Recover relay_env (snd (Submit relay_env demo_request ?s))))"
    by (meson converse_rtranclp_into_rtranclp r_into_rtranclp)
  from dead_log_publishes_nothing [OF relay_env_ok _ this] show ?thesis by (simp add: wal_dead_def)
qed


text \<open>
  C12: the loop over due retries always ends, within one round more than there were scheduled retries and
  with a result that does not depend on the bound. On an open store it ends with a claim that finds nothing: after some rounds
  that claimed retries and worked on them (ending in \<open>s1\<close>), the last claim, which reads the clock at \<open>sv_tick s1\<close>, returns
  none, and every retry that is left is due later than that reading. On a closed store the first claim fails and the loop ends at once,
  with whatever is scheduled left there.
\<close>

theorem retry_loop_ends:
  assumes "env_ok en"
  shows "\<exists>s'. drainRetries en s = Some s' \<and> (\<forall>n > gm_len (ms_retries (sv_state s)). drain_loop n en s = Some s') \<and>
    (if ms_closed (sv_state s) then \<exists>e. claim_due en s = (Inl e, s')
     else \<exists>s1. (retry_round en)\<^sup>*\<^sup>* s s1 \<and> claim_due en s1 = (Inr [], s') \<and>
       (\<forall>bid due. gm_get (ms_retries (sv_state s')) bid = Some due \<longrightarrow> en_clk en (sv_tick s1) < due))"
proof (cases "ms_closed (sv_state s)")
  case True
  obtain r s' where c: "claim_due en s = (r, s')" by (cases "claim_due en s")
  then obtain e where "r = Inl e" using claim_due_outcome [OF assms c] True by (auto simp: isl_def)
  then have "drain_loop n en s = Some s'" if "0 < n" for n using c that by (cases n) simp_all
  then show ?thesis using True c \<open>r = Inl e\<close> unfolding drainRetries_def by fastforce
next
  case False
  then show ?thesis
    using drain_loop_returns [OF assms, of s "Suc (gm_len (ms_retries (sv_state s)))"]
    by (auto simp del: drain_loop.simps simp: drainRetries_def Suc_le_eq)
qed

theorem retry_loop_ends_witness:
  "let s = demo_service (New_MemStore\<lparr> ms_retries := [(''a'', 0), (''b'', 5)] \<rparr>) demo_wal in
   \<exists>s' s1. drainRetries relay_env s = Some s' \<and> (retry_round relay_env)\<^sup>*\<^sup>* s s1 \<and> claim_due relay_env s1 = (Inr [], s') \<and>
     (\<forall>bid due. gm_get (ms_retries (sv_state s')) bid = Some due \<longrightarrow> en_clk relay_env (sv_tick s1) < due)"
proof -
  let ?s = "demo_service (New_MemStore\<lparr> ms_retries := [(''a'', 0), (''b'', 5)] \<rparr>) demo_wal"
  have "\<not> ms_closed (sv_state ?s)" by (simp add: New_MemStore_def)
  then show ?thesis using retry_loop_ends [OF relay_env_ok, of ?s] unfolding Let_def by (simp only: if_False) blast
qed


text \<open>
  C9: a bundle that \<^verbatim>\<open>finishTerminal\<close> reports as finished was in the terminal state, is now completed two
  versions later, has given its client's in-flight slot back, and the checkpoint store holds, under the
  bundle's key, a signed commitment to exactly the last events of its trail, the two last
  transitions included, which are then deleted.
\<close>

theorem finished_bundle_is_committed:
  assumes "store_inv (sv_state s)" and "GetBundle (bd_ID rec) (sv_state s) = Some r0"
    and "finishTerminal en rec terminal reason s = (Inr rec', s')"
  shows "bd_State r0 = terminal \<and> bd_State rec' = StateCompleted \<and> bd_Version rec' = bd_Version r0 + 2 \<and>
    Get (bd_ID rec) s' = Some rec' \<and>
    GetInflight (bd_ClientID r0) (sv_state s') = max 0 (GetInflight (bd_ClientID r0) (sv_state s) - 1) \<and>
    trail (bd_ID rec) (sv_state s') = [] \<and>
    (\<exists>t1 t2 t3 r1. let events = final_events t1 t2 (sv_auth s) r1 rec' terminal s;
        cp = checkpoint_of en t3 (sv_auth s) rec' events
      in cp_Root cp = EncodeToString (Root (en_sha en) (map (en_evJSON en) events)) \<and>
         cs_Get (cp_ObjectKey cp) (sv_checkpts s') = Inr (en_cpJSON en cp))"
proof -
  from assms(3) have "bd_ID rec \<noteq> []" by (auto simp: finishTerminal_def raise_def)
  with assms(3) obtain sb rc where body: "finish_body en rec terminal reason s = (Inr rec', sb)"
      and rel: "release en (bd_ClientID rec') sb = (Inr rc :: relay_error + int, s')"
    by (auto simp: finishTerminal_def either_def bnd_Inr raise_def ret_def bnd_def split: prod.splits sum.splits)
  note effect = finish_body_effect [OF assms(1,2) body]
  have s': "sv_state s' = snd (ReleaseInflight (bd_ClientID r0) (sv_state sb))" "sv_checkpts s' = sv_checkpts sb"
    using rel effect by (auto simp: release_def store_call_def split: prod.splits)
  have "GetInflight (bd_ClientID r0) (sv_state s') = max 0 (GetInflight (bd_ClientID r0) (sv_state s) - 1)"
    using release_inflight [of "bd_ClientID r0" "sv_state sb"] inflight_nonneg [OF assms(1), of "bd_ClientID r0"] effect
    by (simp add: s' GetInflight_def)
  moreover have "Get (bd_ID rec) s' = Some rec'" "trail (bd_ID rec) (sv_state s') = []"
    using effect by (simp_all add: Get_def GetBundle_def s' trail_def)
  moreover have "cp_Root (checkpoint_of en t auth r es) = EncodeToString (Root (en_sha en) (map (en_evJSON en) es))" for t auth r es
    by (simp add: checkpoint_of_def Let_def)
  ultimately show ?thesis using effect unfolding Let_def s'(2) by simp
qed

theorem finished_bundle_is_committed_witness:
  "\<exists>rec' s'. finishTerminal relay_env demo_rejected StateRejected ''late'' (demo_service demo_rejected_store demo_wal) = (Inr rec', s') \<and>
     bd_State rec' = StateCompleted \<and> bd_Version rec' = 3 \<and> Get ''h:1'' s' = Some rec' \<and> GetInflight ''c'' (sv_state s') = 1"
proof -
  let ?s = "demo_service demo_rejected_store demo_wal"
  obtain rec' s' where run: "finishTerminal relay_env demo_rejected StateRejected ''late'' ?s = (Inr rec', s')" using demo_finish by blast
  have inv: "store_inv (sv_state ?s)"
    by (simp add: store_inv_def demo_rejected_store_def New_MemStore_def demo_rejected_def demo_bundle_def index_ok_def bounded_def gm_ok_def
        gm_len_def gm_get_def)
  have get: "GetBundle (bd_ID demo_rejected) (sv_state ?s) = Some demo_rejected" and b: "bd_ID demo_rejected = ''h:1''"
      "bd_ClientID demo_rejected = ''c''" "bd_Version demo_rejected = 1" "GetInflight ''c'' demo_rejected_store = 2"
    by (simp_all add: GetBundle_def GetInflight_def demo_rejected_store_def demo_rejected_def demo_bundle_def gm_get_def gm_get0_def)
  from finished_bundle_is_committed [OF inv get run] run b show ?thesis by auto
qed


text \<open>
  C2: whatever the loops and the callers do from a fresh start, in whatever order, the store stays
  consistent and bounded, every bundle's identifier contains its hash, and between any two moments
  the store changed only by calls that keep to its contract, so that a bundle that stayed in it moved
  along the life cycle and kept its hash and its owner.
\<close>

theorem service_history:
  assumes "env_ok en" and "(svc_step en)\<^sup>*\<^sup>* (New_Service en cfg t br cps New_MemStore wal) s" and "(svc_step en)\<^sup>*\<^sup>* s s'"
  shows "store_inv (sv_state s) \<and> ids_ok (sv_state s) \<and>
    (\<exists>ops. list_all svc_op_ok ops \<and> sv_state s' = mem.run_all ops (sv_state s) \<and>
      (\<forall>bid r r'. mem.always_present bid ops (sv_state s) \<and> Get bid s = Some r \<and> Get bid s' = Some r' \<longrightarrow>
         CanTransition\<^sup>*\<^sup>* (bd_State r) (bd_State r') \<and> bd_Version r \<le> bd_Version r' \<and>
         bd_BundleHash r' = bd_BundleHash r \<and> bd_ClientID r' = bd_ClientID r))"
proof -
  have start: "store_inv (sv_state (New_Service en cfg t br cps New_MemStore wal)) \<and> ids_ok (sv_state (New_Service en cfg t br cps New_MemStore wal))"
    using store_inv_new by (simp add: New_Service_def Let_def ids_ok_def GetBundle_def New_MemStore_def)
  have inv: "store_inv (sv_state s) \<and> ids_ok (sv_state s)"
    using path.R_steps [OF assms(1,2)] svc.run_all_inv [OF start]
    by (auto simp: path.on_store_def store_path_def ok_all_list)
  obtain ops where ops: "list_all svc_op_ok ops" "sv_state s' = svc.run_all ops (sv_state s)"
    using path.R_steps [OF assms(1,3)] by (auto simp: path.on_store_def store_path_def)
  show ?thesis
    using inv ops svc.history [OF inv, of ops] by (auto simp: Get_def ok_all_list intro!: exI [of _ ops])
qed

theorem service_history_witness:
  "store_inv (sv_state (snd (Submit relay_env demo_request (demo_service New_MemStore demo_wal))))"
proof -
  let ?s = "demo_service New_MemStore demo_wal"
  have "svc_step relay_env ?s (snd (Submit relay_env demo_request ?s))"
    unfolding Submit_def bnd_def asks_def by (simp add: svc_step.submit)
  from service_history [OF relay_env_ok r_into_rtranclp rtranclp.rtrancl_refl, OF this [unfolded demo_service_def]]
  show ?thesis unfolding demo_service_def by simp
qed


end
