(* ===== verification/Relay_Flow.thy ===== *)
theory Relay_Flow
  imports Relay_Graph
begin

text \<open>
  \<^verbatim>\<open>MaxFlow\<close> and \<^verbatim>\<open>MinCut\<close> of \<^verbatim>\<open>mev/relay/v3/internal/graph/graph.go\<close>: augmenting paths found by
  breadth-first search in the residual network. The loop that augments may in principle run for ever;
  it is a partial function, \<open>None\<close> when it does not return. The lemmas show that it returns, that its
  result is the value of a flow, and that the cut found afterwards has the same capacity, so that
  the flow is maximal and the cut minimal.

  A flow is represented by its net value on each ordered pair of nodes.
\<close>

section \<open>Code\<close>

type_synonym FlowNetwork = "(string, (string, int) gomap) gomap"

type_synonym cap_order = "(string \<times> int) list \<Rightarrow> (string \<times> int) list"

text \<open>The index expression \<^verbatim>\<open>residual[u][v]\<close>.\<close>

definition res :: "FlowNetwork \<Rightarrow> string \<Rightarrow> string \<Rightarrow> int" where
  "res R u v = gm_get0 0 (gm_get0 [] R u) v"

definition cloneFlow ::
  "((string \<times> (string, int) gomap) list \<Rightarrow> (string \<times> (string, int) gomap) list) \<Rightarrow> cap_order \<Rightarrow> FlowNetwork \<Rightarrow> FlowNetwork" where
  "cloneFlow ordn ordc net =
     foldl (\<lambda>out (src, outs). gm_set out src (foldl (\<lambda>m (dst, c). gm_set m dst c) [] (ordc outs))) [] (ordn net)"

text \<open>The inner loop of \<^verbatim>\<open>bfsResidual\<close>: \<open>Inl\<close> the parents when the sink was found.\<close>

fun bfs_scan ::
  "string \<Rightarrow> string \<Rightarrow> (string, string) gomap \<Rightarrow> string list \<Rightarrow> string list \<Rightarrow> (string \<times> int) list \<Rightarrow>
   (string, string) gomap + ((string, string) gomap \<times> string list \<times> string list)" where
  "bfs_scan sink u parent seen queue [] = Inr (parent, seen, queue)"
| "bfs_scan sink u parent seen queue ((v, c) # rest) =
     (if c \<le> 0 then bfs_scan sink u parent seen queue rest
      else if v \<in> set seen then bfs_scan sink u parent seen queue rest
      else let parent' = gm_set parent v u in
        if v = sink then Inl parent'
        else bfs_scan sink u parent' (v # seen) (queue @ [v]) rest)"

definition flow_targets :: "FlowNetwork \<Rightarrow> string set" where
  "flow_targets R = (\<Union>(u, outs) \<in> set R. fst ` set outs)"

lemma finite_flow_targets: "finite (flow_targets R)"
  by (auto simp: flow_targets_def)

lemma res_targets: "(v, c) \<in> set (gm_get0 [] R u) \<Longrightarrow> v \<in> flow_targets R"
proof -
  assume "(v, c) \<in> set (gm_get0 [] R u)"
  then obtain outs where "gm_get R u = Some outs" "(v, c) \<in> set outs"
    by (cases "gm_get R u") (auto simp: gm_get0_def)
  then show ?thesis unfolding flow_targets_def gm_get_def by (force dest: map_of_SomeD)
qed

text \<open>What both searches have in common: the nodes a scan adds.\<close>

lemma bfs_scan_Inr:
  assumes "bfs_scan sink u parent seen queue xs = Inr (parent', seen', queue')"
  shows "\<exists>new. seen' = rev new @ seen \<and> queue' = queue @ new \<and> distinct new \<and> set new \<inter> set seen = {} \<and>
    sink \<notin> set new \<and> set new \<union> set seen = {v. \<exists>c. (v, c) \<in> set xs \<and> c > 0} \<union> set seen \<and>
    (\<forall>x. gm_get parent' x = (if x \<in> set new then Some u else gm_get parent x))"
  using assms
proof (induction sink u parent seen queue xs rule: bfs_scan.induct)
  case (2 sink u parent seen queue v c rest)
  show ?case
  proof (cases "c \<le> 0 \<or> v \<in> set seen")
    case True
    then obtain new where new: "seen' = rev new @ seen" "queue' = queue @ new" "distinct new" "set new \<inter> set seen = {}"
      "sink \<notin> set new" "set new \<union> set seen = {v. \<exists>c. (v, c) \<in> set rest \<and> c > 0} \<union> set seen"
      "\<forall>x. gm_get parent' x = (if x \<in> set new then Some u else gm_get parent x)"
      using "2.IH"(1,2) "2.prems" by (cases "c \<le> 0") auto
    show ?thesis using new True by (intro exI [of _ new]) auto
  next
    case False
    then have "v \<noteq> sink" using "2.prems" by (auto simp: Let_def)
    then obtain new where new: "seen' = rev new @ v # seen" "queue' = (queue @ [v]) @ new" "distinct new"
      "set new \<inter> set (v # seen) = {}" "sink \<notin> set new"
      "set new \<union> set (v # seen) = {v. \<exists>c. (v, c) \<in> set rest \<and> c > 0} \<union> set (v # seen)"
      "\<forall>x. gm_get parent' x = (if x \<in> set new then Some u else gm_get (gm_set parent v u) x)"
      using "2.IH"(3) [OF _ _ refl] "2.prems" False by (auto simp: Let_def)
    show ?thesis using new False \<open>v \<noteq> sink\<close> by (intro exI [of _ "v # new"]) auto
  qed
qed auto

definition bfs_work :: "FlowNetwork \<Rightarrow> string list \<Rightarrow> string list \<Rightarrow> nat" where
  "bfs_work R seen queue = 2 * card (flow_targets R - set seen) + length queue"

lemma bfs_work_less:
  assumes "set new \<inter> set seen = {}" and "distinct new" and "set new \<subseteq> flow_targets R"
  shows "bfs_work R (rev new @ seen) (queue @ new) < bfs_work R seen (u # queue)"
proof -
  let ?T = "flow_targets R - set seen"
  have sub: "set new \<subseteq> ?T" using assms by auto
  have "length new \<le> card ?T" using card_mono [OF _ sub] assms(2) finite_flow_targets [of R] by (simp add: distinct_card)
  moreover have "card (?T - set new) = card ?T - length new"
    using card_Diff_subset [OF _ sub] assms(2) by (simp add: distinct_card)
  moreover have "flow_targets R - set (rev new @ seen) = ?T - set new" by auto
  ultimately show ?thesis by (simp add: bfs_work_def)
qed

lemma bfs_scan_work:
  assumes "is_order ordc" and "bfs_scan sink u parent seen queue (ordc (gm_get0 [] R u)) = Inr (parent', seen', queue')"
  shows "bfs_work R seen' queue' < bfs_work R seen (u # queue)"
proof -
  obtain new where new: "seen' = rev new @ seen" "queue' = queue @ new" "distinct new" "set new \<inter> set seen = {}"
      "set new \<union> set seen = {v. \<exists>c. (v, c) \<in> set (ordc (gm_get0 [] R u)) \<and> c > 0} \<union> set seen"
    using bfs_scan_Inr [OF assms(2)] by blast
  have "set new \<subseteq> flow_targets R"
  proof
    fix v assume "v \<in> set new"
    then obtain c where "(v, c) \<in> set (ordc (gm_get0 [] R u))" using new(4,5) by blast
    then show "v \<in> flow_targets R" using res_targets is_order_set [OF assms(1)] by auto
  qed
  then show ?thesis unfolding new(1,2) by (rule bfs_work_less [OF new(4,3)])
qed

text \<open>The outer loop: \<open>Some None\<close> when the queue runs empty.\<close>

partial_function (option) bfs_loop ::
  "cap_order \<Rightarrow> FlowNetwork \<Rightarrow> string \<Rightarrow> (string, string) gomap \<Rightarrow> string list \<Rightarrow> string list \<Rightarrow>
   (string, string) gomap option option" where
  "bfs_loop ordc R sink parent seen queue = (case queue of
       [] \<Rightarrow> Some None
     | u # rest \<Rightarrow> (case bfs_scan sink u parent seen rest (ordc (gm_get0 [] R u)) of
           Inl found \<Rightarrow> Some (Some found)
         | Inr (parent', seen', queue') \<Rightarrow> bfs_loop ordc R sink parent' seen' queue'))"

definition bfsResidual :: "cap_order \<Rightarrow> FlowNetwork \<Rightarrow> string \<Rightarrow> string \<Rightarrow> (string, string) gomap option option" where
  "bfsResidual ordc R source sink = bfs_loop ordc R sink [] [source] [source]"

text \<open>The edges \<open>(u, v)\<close> the loops over \<^verbatim>\<open>v = parent[v]\<close> visit, from the sink back to the source.\<close>

partial_function (option) walk :: "(string, string) gomap \<Rightarrow> string \<Rightarrow> string \<Rightarrow> (string \<times> string) list option" where
  "walk parent source v =
     (if v = source then Some []
      else let u = gm_get0 [] parent v in
        Option.bind (walk parent source u) (\<lambda>es. Some ((u, v) # es)))"

definition bottleneck :: "FlowNetwork \<Rightarrow> (string \<times> string) list \<Rightarrow> int" where
  "bottleneck R es = foldl (\<lambda>b (u, v). let c = res R u v in if c < b then c else b) (2 ^ 63 - 1) es"

definition set_res :: "FlowNetwork \<Rightarrow> string \<Rightarrow> string \<Rightarrow> int \<Rightarrow> FlowNetwork" where
  "set_res R u v c = gm_set R u (gm_set (gm_get0 [] R u) v c)"

definition push_edge :: "int \<Rightarrow> FlowNetwork \<Rightarrow> string \<times> string \<Rightarrow> FlowNetwork" where
  "push_edge b R e = (case e of (u, v) \<Rightarrow>
     let R1 = set_res R u v (wrap64 (res R u v - b)) in set_res R1 v u (wrap64 (res R1 v u + b)))"

text \<open>The loop of \<^verbatim>\<open>MaxFlow\<close>, which is also that of \<^verbatim>\<open>MinCut\<close> except that the latter does not count.\<close>

partial_function (option) augment_loop :: "cap_order \<Rightarrow> string \<Rightarrow> string \<Rightarrow> FlowNetwork \<Rightarrow> int \<Rightarrow> (FlowNetwork \<times> int) option" where
  "augment_loop ordc source sink R flow = (case bfsResidual ordc R source sink of
       None \<Rightarrow> None
     | Some None \<Rightarrow> Some (R, flow)
     | Some (Some parent) \<Rightarrow> (case walk parent source sink of
           None \<Rightarrow> None
         | Some es \<Rightarrow> (let b = bottleneck R es in
             augment_loop ordc source sink (foldl (push_edge b) R es) (wrap64 (flow + b)))))"

definition MaxFlow ::
  "((string \<times> (string, int) gomap) list \<Rightarrow> (string \<times> (string, int) gomap) list) \<Rightarrow> cap_order \<Rightarrow> FlowNetwork \<Rightarrow>
   string \<Rightarrow> string \<Rightarrow> int option" where
  "MaxFlow ordn ordc net source sink = map_option snd (augment_loop ordc source sink (cloneFlow ordn ordc net) 0)"

text \<open>The search of \<^verbatim>\<open>MinCut\<close> in the final residual network.\<close>

fun cut_scan :: "string list \<Rightarrow> string list \<Rightarrow> (string \<times> int) list \<Rightarrow> string list \<times> string list" where
  "cut_scan seen queue [] = (seen, queue)"
| "cut_scan seen queue ((v, c) # rest) =
     (if c \<le> 0 then cut_scan seen queue rest
      else if v \<in> set seen then cut_scan seen queue rest
      else cut_scan (v # seen) (queue @ [v]) rest)"

partial_function (option) cut_loop :: "cap_order \<Rightarrow> FlowNetwork \<Rightarrow> string list \<Rightarrow> string list \<Rightarrow> string list option" where
  "cut_loop ordc R seen queue =
     (if queue = [] then Some seen
      else let next = cut_scan seen (tl queue) (ordc (gm_get0 [] R (hd queue))) in cut_loop ordc R (fst next) (snd next))"

definition MinCut ::
  "((string \<times> (string, int) gomap) list \<Rightarrow> (string \<times> (string, int) gomap) list) \<Rightarrow> cap_order \<Rightarrow> FlowNetwork \<Rightarrow>
   string \<Rightarrow> string \<Rightarrow> string set option" where
  "MinCut ordn ordc net source sink = (case augment_loop ordc source sink (cloneFlow ordn ordc net) 0 of
       None \<Rightarrow> None
     | Some (R, _) \<Rightarrow> map_option set (cut_loop ordc R [source] [source]))"

section \<open>The searches\<close>

definition redges :: "FlowNetwork \<Rightarrow> (string \<times> string) set" where
  "redges R = {(u, v). res R u v > 0}"

definition inner_ok :: "FlowNetwork \<Rightarrow> bool" where
  "inner_ok R \<longleftrightarrow> (\<forall>u. gm_ok (gm_get0 [] R u))"

lemma res_scan: "inner_ok R \<Longrightarrow> is_order ordc \<Longrightarrow> {v. \<exists>c. (v, c) \<in> set (ordc (gm_get0 [] R u)) \<and> c > 0} = redges R `` {u}"
proof -
  assume ok: "inner_ok R" and ord: "is_order ordc"
  have "(v, c) \<in> set (ordc (gm_get0 [] R u)) \<longleftrightarrow> gm_get (gm_get0 [] R u) v = Some c" for v c
    using ok gm_get_in [of "gm_get0 [] R u" v c] by (simp add: is_order_set [OF ord] inner_ok_def)
  then show ?thesis by (auto simp: redges_def res_def gm_get0_def [of 0] split: option.splits)
qed

lemma redges_targets: "redges R `` {u} \<subseteq> flow_targets R"
proof
  fix v assume "v \<in> redges R `` {u}"
  then have "gm_get (gm_get0 [] R u) v \<noteq> None" by (auto simp: redges_def res_def gm_get0_def [of 0] split: option.splits)
  then obtain c where "gm_get (gm_get0 [] R u) v = Some c" by blast
  then show "v \<in> flow_targets R" by (rule res_targets [OF gm_get_mem])
qed

text \<open>
  The parents form a tree: every node but the source was reached, by an edge of the residual network, from
  one that was seen before it. The list of seen nodes has the latest first.
\<close>

fun tree_ok :: "FlowNetwork \<Rightarrow> string \<Rightarrow> (string, string) gomap \<Rightarrow> string list \<Rightarrow> bool" where
  "tree_ok R s parent [] = False"
| "tree_ok R s parent (v # seen) =
     (if seen = [] then v = s
      else v \<notin> set seen \<and> (\<exists>u. gm_get parent v = Some u \<and> u \<in> set seen \<and> (u, v) \<in> redges R) \<and> tree_ok R s parent seen)"

lemma tree_ok_source: "tree_ok R s parent seen \<Longrightarrow> s \<in> set seen"
  by (induction seen) (auto split: if_splits)

lemma tree_ok_cong: "(\<And>x. x \<in> set seen \<Longrightarrow> gm_get p' x = gm_get p x) \<Longrightarrow> tree_ok R s p' seen = tree_ok R s p seen"
  by (induction seen) auto

lemma tree_ok_extend:
  assumes "tree_ok R s parent seen" and "u \<in> set seen" and "distinct new" and "set new \<inter> set seen = {}"
    and "\<And>v. v \<in> set new \<Longrightarrow> (u, v) \<in> redges R" and "\<forall>x. gm_get p' x = (if x \<in> set new then Some u else gm_get parent x)"
  shows "tree_ok R s p' (rev new @ seen)"
proof -
  have seen: "tree_ok R s p' seen" using tree_ok_cong [of seen p' parent R s] assms(1,4,6) by (metis disjoint_iff)
  have "set xs \<subseteq> set new \<Longrightarrow> distinct xs \<Longrightarrow> tree_ok R s p' (rev xs @ seen)" for xs
  proof (induction xs rule: rev_induct)
    case (snoc v xs)
    have "rev xs @ seen \<noteq> []" using assms(2) by auto
    then show ?case using snoc assms(2,4,5,6) by auto
  qed (simp add: seen)
  then show ?thesis using assms(3) by blast
qed

lemma bfs_scan_Inl:
  assumes "bfs_scan sink u parent seen queue xs = Inl found"
  shows "\<exists>new. sink \<in> set new \<and> distinct new \<and> set new \<inter> set seen = {} \<and> (\<forall>v \<in> set new. \<exists>c. (v, c) \<in> set xs \<and> c > 0) \<and>
    (\<forall>x. gm_get found x = (if x \<in> set new then Some u else gm_get parent x))"
  using assms
proof (induction sink u parent seen queue xs rule: bfs_scan.induct)
  case (2 sink u parent seen queue v c rest)
  show ?case
  proof (cases "c \<le> 0 \<or> v \<in> set seen")
    case True
    then obtain ns where "sink \<in> set ns" "distinct ns" "set ns \<inter> set seen = {}" "\<forall>v \<in> set ns. \<exists>c. (v, c) \<in> set rest \<and> c > 0"
        "\<forall>x. gm_get found x = (if x \<in> set ns then Some u else gm_get parent x)"
      using "2.IH"(1,2) "2.prems" by (cases "c \<le> 0") auto
    then show ?thesis by (intro exI [of _ ns]) auto
  next
    case new: False
    show ?thesis
    proof (cases "v = sink")
      case True
      then show ?thesis using "2.prems" new by (intro exI [of _ "[v]"]) (auto simp: Let_def)
    next
      case False
      then obtain ns where "sink \<in> set ns" "distinct ns" "set ns \<inter> set (v # seen) = {}"
          "\<forall>v \<in> set ns. \<exists>c. (v, c) \<in> set rest \<and> c > 0" "\<forall>x. gm_get found x = (if x \<in> set ns then Some u else gm_get (gm_set parent v u) x)"
        using "2.IH"(3) [OF _ _ refl] "2.prems" new by (auto simp: Let_def)
      then show ?thesis using new by (intro exI [of _ "v # ns"]) auto
    qed
  qed
qed simp

lemma bfs_loop_correct:
  assumes "inner_ok R" and "is_order ordc"
  shows "tree_ok R s parent seen \<Longrightarrow> set queue \<subseteq> set seen \<Longrightarrow> sink \<notin> set seen \<Longrightarrow> redges R `` (set seen - set queue) \<subseteq> set seen \<Longrightarrow>
    \<exists>r. bfs_loop ordc R sink parent seen queue = Some r \<and> (case r of
        None \<Rightarrow> (s, sink) \<notin> (redges R)\<^sup>*
      | Some p \<Rightarrow> \<exists>seen'. tree_ok R s p seen' \<and> sink \<in> set seen')"
proof (induction "bfs_work R seen queue" arbitrary: parent seen queue rule: less_induct)
  case less
  show ?case
  proof (cases queue)
    case Nil
    have "(s, sink) \<notin> (redges R)\<^sup>*"
      using Image_closed_trancl [of "redges R" "set seen"] less.prems Nil tree_ok_source [OF less.prems(1)] by auto
    then show ?thesis using Nil by (simp add: bfs_loop.simps)
  next
    case (Cons u rest)
    let ?xs = "ordc (gm_get0 [] R u)"
    have u: "u \<in> set seen" using less.prems Cons by simp
    have succ: "{v. \<exists>c. (v, c) \<in> set ?xs \<and> c > 0} = redges R `` {u}" by (rule res_scan [OF assms])
    show ?thesis
    proof (cases "bfs_scan sink u parent seen rest ?xs")
      case (Inl found)
      from bfs_scan_Inl [OF this] obtain new where new: "sink \<in> set new" "distinct new" "set new \<inter> set seen = {}"
        "\<forall>v \<in> set new. \<exists>c. (v, c) \<in> set ?xs \<and> c > 0" "\<forall>x. gm_get found x = (if x \<in> set new then Some u else gm_get parent x)" by blast
      have "tree_ok R s found (rev new @ seen)"
        using tree_ok_extend [OF less.prems(1) u new(2,3) _ new(5)] new(4) succ by blast
      then show ?thesis using new(1) Cons Inl by (auto simp: bfs_loop.simps intro!: exI [of _ "rev new @ seen"])
    next
      case (Inr r)
      then obtain p' seen' q' where r: "bfs_scan sink u parent seen rest ?xs = Inr (p', seen', q')" by (cases r) auto
      from bfs_scan_Inr [OF r] obtain new where new: "seen' = rev new @ seen" "q' = rest @ new" "distinct new"
        "set new \<inter> set seen = {}" "sink \<notin> set new" "set new \<union> set seen = redges R `` {u} \<union> set seen"
        "\<forall>x. gm_get p' x = (if x \<in> set new then Some u else gm_get parent x)" unfolding succ by blast
      have "tree_ok R s p' seen'"
        unfolding new(1) by (rule tree_ok_extend [OF less.prems(1) u new(3,4) _ new(7)]) (use new(4,6) in blast)
      moreover have "redges R `` (set seen' - set q') \<subseteq> set seen'" "set q' \<subseteq> set seen'" "sink \<notin> set seen'"
        using less.prems(2-4) new(1,2,5,6) Cons by auto
      ultimately show ?thesis
        using less.hyps [OF bfs_scan_work [OF assms(2) r, folded Cons]] Cons r by (simp add: bfs_loop.simps)
    qed
  qed
qed

text \<open>The way back from a node along its parents.\<close>

fun is_walk :: "string \<Rightarrow> string \<Rightarrow> (string \<times> string) list \<Rightarrow> bool" where
  "is_walk s v [] = (v = s)"
| "is_walk s v ((u, w) # es) = (w = v \<and> u \<noteq> w \<and> is_walk s u es)"

lemma walk_tree:
  "tree_ok R s p seen \<Longrightarrow> v \<in> set seen \<Longrightarrow>
   \<exists>es. walk p s v = Some es \<and> is_walk s v es \<and> set es \<subseteq> redges R \<and> distinct (map snd es) \<and> snd ` set es \<subseteq> set seen"
proof (induction seen arbitrary: v)
  case (Cons x seen)
  show ?case
  proof (cases "v \<in> set seen")
    case True
    then have "tree_ok R s p seen" using Cons.prems by (auto split: if_splits)
    then obtain es where "walk p s v = Some es" "is_walk s v es" "set es \<subseteq> redges R" "distinct (map snd es)" "snd ` set es \<subseteq> set seen"
      using Cons.IH True by blast
    then show ?thesis by (intro exI [of _ es]) auto
  next
    case False
    then have v: "v = x" using Cons.prems by simp
    show ?thesis
    proof (cases "seen = []")
      case True
      then show ?thesis using Cons.prems v by (intro exI [of _ "[]"]) (simp add: walk.simps)
    next
      case nonempty: False
      then obtain u where u: "gm_get p v = Some u" "u \<in> set seen" "(u, v) \<in> redges R" "v \<notin> set seen" "tree_ok R s p seen"
        using Cons.prems v by auto
      obtain es where es: "walk p s u = Some es" "is_walk s u es" "set es \<subseteq> redges R" "distinct (map snd es)" "snd ` set es \<subseteq> set seen"
        using Cons.IH [OF u(5,2)] by blast
      have "v \<noteq> s" using tree_ok_source [OF u(5)] u(4) by auto
      then have "walk p s v = Some ((u, v) # es)" using u(1) es(1) by (simp add: walk.simps [of p s v] gm_get0_def)
      moreover have "u \<noteq> v" "v \<notin> set (map snd es)" using u(2,4) es(5) by auto
      ultimately show ?thesis using es u(3) v by (intro exI [of _ "(u, v) # es"]) auto
    qed
  qed
qed simp

lemma cut_scan_result:
  assumes "cut_scan seen queue xs = (seen', queue')"
  shows "\<exists>new. seen' = rev new @ seen \<and> queue' = queue @ new \<and> distinct new \<and> set new \<inter> set seen = {} \<and>
    set new \<union> set seen = {v. \<exists>c. (v, c) \<in> set xs \<and> c > 0} \<union> set seen"
  using assms
proof (induction seen queue xs rule: cut_scan.induct)
  case (2 seen queue v c rest)
  show ?case
  proof (cases "c \<le> 0 \<or> v \<in> set seen")
    case True
    then obtain new where "seen' = rev new @ seen" "queue' = queue @ new" "distinct new" "set new \<inter> set seen = {}"
      "set new \<union> set seen = {v. \<exists>c. (v, c) \<in> set rest \<and> c > 0} \<union> set seen"
      using "2.IH"(1,2) "2.prems" by (cases "c \<le> 0") auto
    then show ?thesis using True by (intro exI [of _ new]) auto
  next
    case False
    then obtain new where "seen' = rev new @ v # seen" "queue' = (queue @ [v]) @ new" "distinct new" "set new \<inter> set (v # seen) = {}"
      "set new \<union> set (v # seen) = {v. \<exists>c. (v, c) \<in> set rest \<and> c > 0} \<union> set (v # seen)"
      using "2.IH"(3) "2.prems" by auto
    then show ?thesis using False by (intro exI [of _ "v # new"]) auto
  qed
qed auto

lemma cut_loop_correct:
  assumes "inner_ok R" and "is_order ordc"
  shows "s \<in> set seen \<Longrightarrow> set seen \<subseteq> (redges R)\<^sup>* `` {s} \<Longrightarrow> set queue \<subseteq> set seen \<Longrightarrow> redges R `` (set seen - set queue) \<subseteq> set seen \<Longrightarrow>
    \<exists>r. cut_loop ordc R seen queue = Some r \<and> set r = (redges R)\<^sup>* `` {s}"
proof (induction "bfs_work R seen queue" arbitrary: seen queue rule: less_induct)
  case less
  show ?case
  proof (cases queue)
    case Nil
    have "(redges R)\<^sup>* `` {s} \<subseteq> set seen"
      using Image_closed_trancl [of "redges R" "set seen"] less.prems Nil by auto
    then show ?thesis using Nil less.prems by (simp add: cut_loop.simps)
  next
    case (Cons u rest)
    let ?xs = "ordc (gm_get0 [] R u)"
    have u: "u \<in> set seen" using less.prems Cons by simp
    have succ: "{v. \<exists>c. (v, c) \<in> set ?xs \<and> c > 0} = redges R `` {u}" by (rule res_scan [OF assms])
    obtain seen' q' where r: "cut_scan seen rest ?xs = (seen', q')" by (cases "cut_scan seen rest ?xs")
    from cut_scan_result [OF r] obtain new where new: "seen' = rev new @ seen" "q' = rest @ new" "distinct new"
      "set new \<inter> set seen = {}" "set new \<union> set seen = redges R `` {u} \<union> set seen" unfolding succ by blast
    have "set new \<subseteq> redges R `` {u}" using new(4,5) by blast
    then have "set new \<subseteq> (redges R)\<^sup>* `` {s}" "set new \<subseteq> flow_targets R"
      using less.prems(2) u redges_targets [of R u] by (auto intro: rtrancl_into_rtrancl)
    moreover have "redges R `` (set seen' - set q') \<subseteq> set seen'" "set q' \<subseteq> set seen'"
      using less.prems(3,4) new(1,2,5) Cons by auto
    moreover have "bfs_work R seen' q' < bfs_work R seen queue"
      unfolding new(1,2) Cons by (rule bfs_work_less [OF new(4,3)]) (use calculation in blast)
    moreover have "cut_loop ordc R seen queue = cut_loop ordc R seen' q'" using r Cons by (simp add: cut_loop.simps [of ordc R seen])
    ultimately show ?thesis using less.hyps [of seen' q'] less.prems(1,2) new(1) by auto
  qed
qed

section \<open>Flows and cuts\<close>

text \<open>Flows, their values and cuts, over a finite set of nodes \<open>V\<close> and capacities \<open>c\<close>.\<close>

definition is_flow :: "('n \<Rightarrow> 'n \<Rightarrow> int) \<Rightarrow> 'n set \<Rightarrow> 'n \<Rightarrow> 'n \<Rightarrow> ('n \<Rightarrow> 'n \<Rightarrow> int) \<Rightarrow> bool" where
  "is_flow c V s t f \<longleftrightarrow> (\<forall>u v. f u v = - f v u) \<and> (\<forall>u v. f u v \<le> c u v) \<and> (\<forall>u \<in> V - {s, t}. (\<Sum>v\<in>V. f u v) = 0)"

definition flow_value :: "'n set \<Rightarrow> 'n \<Rightarrow> ('n \<Rightarrow> 'n \<Rightarrow> int) \<Rightarrow> int" where
  "flow_value V s f = (\<Sum>v\<in>V. f s v)"

definition cut_capacity :: "('n \<Rightarrow> 'n \<Rightarrow> int) \<Rightarrow> 'n set \<Rightarrow> 'n set \<Rightarrow> int" where
  "cut_capacity c V S = (\<Sum>u\<in>V \<inter> S. \<Sum>v\<in>V - S. c u v)"

lemma skew_sum: "(\<And>u v. f u v = - f v u) \<Longrightarrow> (\<Sum>u\<in>A. \<Sum>v\<in>A. f u v) = (0 :: int)"
proof -
  assume skew: "\<And>u v. f u v = - f v u"
  have "(\<Sum>u\<in>A. \<Sum>v\<in>A. f u v) = (\<Sum>v\<in>A. \<Sum>u\<in>A. f u v)" by (rule sum.swap)
  also have "\<dots> = (\<Sum>v\<in>A. \<Sum>u\<in>A. - f v u)" by (intro sum.cong refl skew)
  also have "\<dots> = - (\<Sum>v\<in>A. \<Sum>u\<in>A. f v u)" by (simp add: sum_negf)
  finally show ?thesis by simp
qed

lemma is_flowD:
  assumes "is_flow c V s t f"
  shows "f u v = - f v u" and "f u v \<le> c u v" and "u \<in> V - {s, t} \<Longrightarrow> (\<Sum>v\<in>V. f u v) = 0"
  using assms unfolding is_flow_def by blast+

lemma flow_across_cut:
  assumes "is_flow c V s t f" and "finite V" and "s \<in> V" and "s \<in> S" and "t \<notin> S"
  shows "flow_value V s f = (\<Sum>u\<in>V \<inter> S. \<Sum>v\<in>V - S. f u v)"
proof -
  let ?A = "V \<inter> S" and ?B = "V - S"
  have split: "(\<Sum>v\<in>V. f u v) = (\<Sum>v\<in>?A. f u v) + (\<Sum>v\<in>?B. f u v)" for u
    using sum.Int_Diff [OF assms(2), of "f u" S] .
  have "(\<Sum>u\<in>?A. \<Sum>v\<in>V. f u v) = (\<Sum>u\<in>?A. if u = s then flow_value V s f else 0)"
    using is_flowD(3) [OF assms(1)] assms(5) by (intro sum.cong refl) (auto simp: flow_value_def)
  also have "\<dots> = flow_value V s f" using assms(2-4) by simp
  finally have "flow_value V s f = (\<Sum>u\<in>?A. (\<Sum>v\<in>?A. f u v) + (\<Sum>v\<in>?B. f u v))" unfolding split ..
  also have "\<dots> = (\<Sum>u\<in>?A. \<Sum>v\<in>?A. f u v) + (\<Sum>u\<in>?A. \<Sum>v\<in>?B. f u v)" by (rule sum.distrib)
  also have "(\<Sum>u\<in>?A. \<Sum>v\<in>?A. f u v) = 0" by (intro skew_sum is_flowD(1) [OF assms(1)])
  finally show ?thesis by simp
qed

lemma flow_le_cut:
  assumes "is_flow c V s t f" and "finite V" and "s \<in> V" and "s \<in> S" and "t \<notin> S"
  shows "flow_value V s f \<le> cut_capacity c V S"
  unfolding flow_across_cut [OF assms] cut_capacity_def
  by (intro sum_mono is_flowD(2) [OF assms(1)])

section \<open>Augmenting\<close>

lemma res_set_res [simp]: "res (set_res R u v c) x y = (if x = u \<and> y = v then c else res R x y)"
  by (simp add: res_def set_res_def gm_get0_def)

lemma inner_ok_set_res [simp]: "inner_ok R \<Longrightarrow> inner_ok (set_res R u v c)"
  by (auto simp: inner_ok_def set_res_def gm_get0_def split: option.splits)

text \<open>
  A residual network of the capacities \<open>c\<close>: what is left in both directions between two nodes adds up to their
  capacities, which fit a machine integer.
\<close>

definition residual_ok :: "(string \<Rightarrow> string \<Rightarrow> int) \<Rightarrow> FlowNetwork \<Rightarrow> bool" where
  "residual_ok c R \<longleftrightarrow> inner_ok R \<and> (\<forall>u v. 0 \<le> res R u v) \<and> (\<forall>u v. res R u v + res R v u = c u v + c v u) \<and>
     (\<forall>u v. c u v + c v u < 2 ^ 63)"

definition excess :: "(string \<Rightarrow> string \<Rightarrow> int) \<Rightarrow> string set \<Rightarrow> FlowNetwork \<Rightarrow> string \<Rightarrow> int" where
  "excess c V R u = (\<Sum>v\<in>V. c u v - res R u v)"

lemma push_edge_res:
  assumes "residual_ok c R" and "u \<noteq> v" and "0 \<le> b" and "b \<le> res R u v"
  shows "res (push_edge b R (u, v)) x y =
    (if x = u \<and> y = v then res R u v - b else if x = v \<and> y = u then res R v u + b else res R x y)"
proof -
  have "res R u v + res R v u < 2 ^ 63" "0 \<le> res R v u" using assms(1) unfolding residual_ok_def by metis+
  then have "wrap64 (res R u v - b) = res R u v - b" "wrap64 (res R v u + b) = res R v u + b"
    using assms(3,4) by (simp_all add: wrap64_id min_int64_def max_int64_def)
  then show ?thesis using assms(2) by (simp add: push_edge_def Let_def)
qed

lemma push_edge_ok:
  assumes "residual_ok c R" and "u \<noteq> v" and "0 \<le> b" and "b \<le> res R u v"
  shows "residual_ok c (push_edge b R (u, v))"
proof -
  have "inner_ok (push_edge b R (u, v))" using assms(1) by (simp add: residual_ok_def push_edge_def Let_def)
  moreover have "0 \<le> res R v u" using assms(1) by (simp add: residual_ok_def)
  ultimately show ?thesis
    using assms unfolding residual_ok_def push_edge_res [OF assms] by auto
qed

lemma push_edge_excess:
  assumes "residual_ok c R" and "u \<noteq> v" and "0 \<le> b" and "b \<le> res R u v" and "finite V" and "u \<in> V" and "v \<in> V"
  shows "excess c V (push_edge b R (u, v)) x = excess c V R x + (if x = u then b else 0) - (if x = v then b else 0)"
proof -
  have "c x y - res (push_edge b R (u, v)) x y = (c x y - res R x y) + (if x = u \<and> y = v then b else 0) - (if x = v \<and> y = u then b else 0)" for y
    unfolding push_edge_res [OF assms(1-4)] using assms(2) by auto
  then have "excess c V (push_edge b R (u, v)) x =
      excess c V R x + (\<Sum>y\<in>V. if x = u \<and> y = v then b else 0) - (\<Sum>y\<in>V. if x = v \<and> y = u then b else 0)"
    unfolding excess_def by (simp only: sum.distrib sum_subtractf)
  then show ?thesis using assms(5-7) by (cases "x = u"; cases "x = v") auto
qed

text \<open>Augmenting along the whole way back moves \<open>b\<close> from the sink to the source.\<close>

lemma push_walk:
  assumes "residual_ok c R" and "is_walk s v es" and "distinct (map snd es)" and "\<forall>(x, y) \<in> set es. b \<le> res R x y" and "0 \<le> b"
    and "finite V" and "set es \<subseteq> V \<times> V"
  shows "residual_ok c (foldl (push_edge b) R es) \<and>
    (\<forall>x. excess c V (foldl (push_edge b) R es) x = excess c V R x + (if x = s then b else 0) - (if x = v then b else 0))"
  using assms(1-4,7)
proof (induction es arbitrary: R v)
  case (Cons e es)
  obtain u where e: "e = (u, v)" "u \<noteq> v" using Cons.prems(2) by (cases e) auto
  have b: "b \<le> res R u v" using Cons.prems(4) e by auto
  let ?R = "push_edge b R (u, v)"
  have ok: "residual_ok c ?R" by (rule push_edge_ok [OF Cons.prems(1) e(2) assms(5) b])
  have le: "b \<le> res ?R x y" if "(x, y) \<in> set es" for x y
  proof -
    have "y \<noteq> v" using that Cons.prems(3) e by force
    then show ?thesis
      using that Cons.prems(1,4) assms(5) unfolding push_edge_res [OF Cons.prems(1) e(2) assms(5) b] residual_ok_def by auto
  qed
  have all: "\<forall>(x, y) \<in> set es. b \<le> res ?R x y" using le by blast
  have walk: "is_walk s u es" and dist: "distinct (map snd es)" and sub: "set es \<subseteq> V \<times> V"
    using Cons.prems(2,3,5) e by simp_all
  have "residual_ok c (foldl (push_edge b) ?R es) \<and>
      (\<forall>x. excess c V (foldl (push_edge b) ?R es) x = excess c V ?R x + (if x = s then b else 0) - (if x = u then b else 0))"
    by (rule Cons.IH [OF ok walk dist all sub])
  then show ?case
    using push_edge_excess [OF Cons.prems(1) e(2) assms(5) b assms(6)] Cons.prems(5) e by simp
qed simp

lemma bottleneck_bounds:
  assumes "set es \<subseteq> redges R"
  shows "0 < bottleneck R es \<and> (\<forall>(x, y) \<in> set es. bottleneck R es \<le> res R x y)"
proof -
  have "set es \<subseteq> redges R \<Longrightarrow> 0 < b0 \<Longrightarrow>
      0 < foldl (\<lambda>b (u, v). let c = res R u v in if c < b then c else b) b0 es \<and>
      foldl (\<lambda>b (u, v). let c = res R u v in if c < b then c else b) b0 es \<le> b0 \<and>
      (\<forall>(x, y) \<in> set es. foldl (\<lambda>b (u, v). let c = res R u v in if c < b then c else b) b0 es \<le> res R x y)" for b0
  proof (induction es arbitrary: b0)
    case (Cons e es)
    obtain u v where e: "e = (u, v)" by (cases e)
    let ?b = "if res R u v < b0 then res R u v else b0"
    have "0 < ?b" using Cons.prems e by (auto simp: redges_def)
    from Cons.IH [OF _ this] show ?case using Cons.prems e by (auto simp: Let_def split: if_splits)
  qed simp
  then show ?thesis using assms by (simp add: bottleneck_def)
qed

text \<open>The loop invariant: the residual network of a flow of value \<open>F\<close>.\<close>

definition flow_inv :: "(string \<Rightarrow> string \<Rightarrow> int) \<Rightarrow> string set \<Rightarrow> string \<Rightarrow> string \<Rightarrow> FlowNetwork \<Rightarrow> int \<Rightarrow> bool" where
  "flow_inv c V s t R F \<longleftrightarrow> residual_ok c R \<and> (\<forall>u. u \<noteq> s \<and> u \<noteq> t \<longrightarrow> excess c V R u = 0) \<and> excess c V R s = F"

lemma flow_inv_flow:
  assumes "flow_inv c V s t R F"
  shows "is_flow c V s t (\<lambda>u v. c u v - res R u v) \<and> flow_value V s (\<lambda>u v. c u v - res R u v) = F"
proof -
  have R: "0 \<le> res R u v" "res R u v + res R v u = c u v + c v u" for u v
    using assms unfolding flow_inv_def residual_ok_def by blast+
  have "c u v - res R u v = - (c v u - res R v u)" for u v using R(2) [of u v] by linarith
  moreover have "c u v - res R u v \<le> c u v" for u v using R(1) [of u v] by linarith
  ultimately show ?thesis using assms unfolding is_flow_def flow_value_def flow_inv_def excess_def by blast
qed

lemma redges_nodes:
  assumes "residual_ok c R" and "\<And>u v. c u v \<noteq> 0 \<Longrightarrow> u \<in> V \<and> v \<in> V"
  shows "redges R \<subseteq> V \<times> V"
proof
  fix e assume "e \<in> redges R"
  then obtain u v where e: "e = (u, v)" "0 < res R u v" by (auto simp: redges_def)
  have "0 \<le> res R v u" "res R u v + res R v u = c u v + c v u" using assms(1) unfolding residual_ok_def by blast+
  then have "c u v \<noteq> 0 \<or> c v u \<noteq> 0" using e by linarith
  then show "e \<in> V \<times> V" using assms(2) e by auto
qed

text \<open>
  The loop ends: the value of the flow grows with every round and never exceeds what can leave the source.
\<close>

lemma flow_inv_bound:
  assumes "flow_inv c V s t R F" and "finite V" and "s \<in> V" and "s \<noteq> t" and "\<And>u v. 0 \<le> c u v"
  shows "F \<le> (\<Sum>v\<in>V. c s v)"
proof -
  have "F \<le> cut_capacity c V {s}"
    using flow_le_cut [of c V s t _ "{s}"] flow_inv_flow [OF assms(1)] assms(2-4) by auto
  also have "\<dots> = (\<Sum>v\<in>V - {s}. c s v)" using assms(3) by (simp add: cut_capacity_def)
  also have "\<dots> \<le> (\<Sum>v\<in>V. c s v)" by (rule sum_mono2) (use assms(2,5) in auto)
  finally show ?thesis .
qed

lemma augment_step:
  assumes "flow_inv c V s t R F" and "finite V" and "s \<noteq> t" and "tree_ok R s p seen" and "t \<in> set seen"
    and nodes: "\<And>u v. c u v \<noteq> 0 \<Longrightarrow> u \<in> V \<and> v \<in> V"
  shows "\<exists>es. walk p s t = Some es \<and> 0 < bottleneck R es \<and>
    flow_inv c V s t (foldl (push_edge (bottleneck R es)) R es) (F + bottleneck R es)"
proof -
  have R: "residual_ok c R" using assms(1) by (simp add: flow_inv_def)
  obtain es where es: "walk p s t = Some es" "is_walk s t es" "set es \<subseteq> redges R" "distinct (map snd es)"
    using walk_tree [OF assms(4,5)] by blast
  define b where "b = bottleneck R es"
  have b: "0 < b" and le: "\<forall>(x, y) \<in> set es. b \<le> res R x y" using bottleneck_bounds [OF es(3)] unfolding b_def by blast+
  have "set es \<subseteq> V \<times> V" using es(3) redges_nodes [OF R nodes] by blast
  from push_walk [OF R es(2,4) le less_imp_le [OF b] assms(2) this]
  have "flow_inv c V s t (foldl (push_edge b) R es) (F + b)"
    using assms(1,3) unfolding flow_inv_def by simp
  then show ?thesis using es(1) b unfolding b_def by blast
qed

lemma augment_loop_ends:
  assumes "finite V" and "s \<in> V" and "s \<noteq> t" and "\<And>u v. 0 \<le> c u v" and "(\<Sum>v\<in>V. c s v) < 2 ^ 63"
    and "\<And>u v. c u v \<noteq> 0 \<Longrightarrow> u \<in> V \<and> v \<in> V" and "is_order ordc"
  shows "flow_inv c V s t R F \<Longrightarrow> 0 \<le> F \<Longrightarrow>
    \<exists>R' F'. augment_loop ordc s t R F = Some (R', F') \<and> flow_inv c V s t R' F' \<and> (s, t) \<notin> (redges R')\<^sup>*"
proof (induction "nat ((\<Sum>v\<in>V. c s v) - F)" arbitrary: R F rule: less_induct)
  case less
  have ok: "inner_ok R" using less.prems(1) by (simp add: flow_inv_def residual_ok_def)
  have "\<exists>r. bfsResidual ordc R s t = Some r \<and> (case r of
        None \<Rightarrow> (s, t) \<notin> (redges R)\<^sup>* | Some p \<Rightarrow> \<exists>seen'. tree_ok R s p seen' \<and> t \<in> set seen')"
    unfolding bfsResidual_def using assms(3) by (intro bfs_loop_correct [OF ok assms(7)]) auto
  then obtain r where r: "bfsResidual ordc R s t = Some r"
    and post: "case r of None \<Rightarrow> (s, t) \<notin> (redges R)\<^sup>* | Some p \<Rightarrow> \<exists>seen'. tree_ok R s p seen' \<and> t \<in> set seen'" by blast
  show ?case
  proof (cases r)
    case None
    then show ?thesis using r post less.prems(1) by (simp add: augment_loop.simps [of ordc s t R])
  next
    case (Some p)
    then obtain seen' where "tree_ok R s p seen'" "t \<in> set seen'" using post by auto
    then obtain es where es: "walk p s t = Some es" "0 < bottleneck R es"
        "flow_inv c V s t (foldl (push_edge (bottleneck R es)) R es) (F + bottleneck R es)"
      using augment_step [OF less.prems(1) assms(1,3) _ _ assms(6)] by blast
    have le: "F + bottleneck R es \<le> (\<Sum>v\<in>V. c s v)" by (rule flow_inv_bound [OF es(3) assms(1-4)])
    then have "wrap64 (F + bottleneck R es) = F + bottleneck R es"
      using less.prems(2) es(2) assms(5) by (intro wrap64_id) (simp_all add: min_int64_def max_int64_def)
    then have "augment_loop ordc s t R F = augment_loop ordc s t (foldl (push_edge (bottleneck R es)) R es) (F + bottleneck R es)"
      using r Some es(1) by (simp add: augment_loop.simps [of ordc s t R] Let_def)
    moreover have "nat ((\<Sum>v\<in>V. c s v) - (F + bottleneck R es)) < nat ((\<Sum>v\<in>V. c s v) - F)" using es(2) le by simp
    ultimately show ?thesis using less.hyps [OF _ es(3)] less.prems(2) es(2) by simp
  qed
qed

section \<open>Results\<close>

lemma gm_ok_order: "is_order ord \<Longrightarrow> gm_ok m \<Longrightarrow> gm_ok (ord m)"
  unfolding gm_ok_def using mset_eq_imp_distinct_iff [OF is_order_mset_map [of ord fst m]] by simp

lemma gm_get_order: "is_order ord \<Longrightarrow> gm_ok m \<Longrightarrow> gm_get (ord m) k = gm_get m k"
  using gm_get_in [OF gm_ok_order [of ord m], of k] gm_get_in [of m k] by (simp add: is_order_set) (metis not_Some_eq)

lemma gm_get_copy:
  "gm_ok xs \<Longrightarrow> gm_get (foldl (\<lambda>m (k, v). gm_set m k (f v)) m0 xs) k =
     (case gm_get xs k of None \<Rightarrow> gm_get m0 k | Some v \<Rightarrow> Some (f v))"
proof (induction xs arbitrary: m0)
  case (Cons x xs)
  obtain a v where x: "x = (a, v)" by (cases x)
  then have "gm_get xs a = None" "gm_ok xs" using Cons.prems by (auto simp: gm_ok_def gm_get_None_iff)
  moreover have "gm_get ((a, v) # xs) k = (if k = a then Some v else gm_get xs k)" by (simp add: gm_get_def)
  ultimately show ?case using Cons.IH x by (simp split: option.splits)
qed simp

lemma gm_ok_copy: "gm_ok m0 \<Longrightarrow> gm_ok (foldl (\<lambda>m (k, v). gm_set m k (f v)) m0 xs)"
  by (induction xs arbitrary: m0) auto

text \<open>Networks: the capacities are not negative and small enough for the sums the code forms.\<close>

definition flow_nodes :: "FlowNetwork \<Rightarrow> string \<Rightarrow> string \<Rightarrow> string set" where
  "flow_nodes net s t = {s, t} \<union> fst ` set net \<union> flow_targets net"

definition net_ok :: "FlowNetwork \<Rightarrow> string \<Rightarrow> string \<Rightarrow> bool" where
  "net_ok net s t \<longleftrightarrow> gm_ok net \<and> (\<forall>(u, outs) \<in> set net. gm_ok outs \<and> (\<forall>(v, c) \<in> set outs. 0 \<le> c)) \<and>
     (\<forall>u \<in> flow_nodes net s t. \<forall>v \<in> flow_nodes net s t. res net u v + res net v u < 2 ^ 63) \<and>
     (\<Sum>v\<in>flow_nodes net s t. res net s v) < 2 ^ 63"

lemma finite_flow_nodes: "finite (flow_nodes net s t)"
  by (simp add: flow_nodes_def finite_flow_targets)

lemma res_nodes: "res net u v \<noteq> 0 \<Longrightarrow> u \<in> flow_nodes net s t \<and> v \<in> flow_nodes net s t"
proof -
  assume "res net u v \<noteq> 0"
  then obtain outs c where "gm_get net u = Some outs" "gm_get outs v = Some c"
    by (auto simp: res_def gm_get0_def split: option.splits)
  then have "(u, outs) \<in> set net" "(v, c) \<in> set outs" by (auto dest: gm_get_mem)
  then show ?thesis unfolding flow_nodes_def flow_targets_def by force
qed

lemma net_ok_res:
  assumes "net_ok net s t"
  shows "0 \<le> res net u v" and "res net u v + res net v u < 2 ^ 63"
proof -
  show "0 \<le> res net u v"
  proof (cases "gm_get net u")
    case (Some outs)
    then have "(u, outs) \<in> set net" by (rule gm_get_mem)
    then have "\<forall>(v, c) \<in> set outs. 0 \<le> c" using assms unfolding net_ok_def by blast
    then show ?thesis using Some by (auto simp: res_def gm_get0_def split: option.splits dest: gm_get_mem)
  qed (simp add: res_def gm_get0_def)
  show "res net u v + res net v u < 2 ^ 63"
  proof (cases "res net u v = 0 \<and> res net v u = 0")
    case False
    then have "u \<in> flow_nodes net s t \<and> v \<in> flow_nodes net s t" using res_nodes by blast
    then show ?thesis using assms unfolding net_ok_def by blast
  qed simp
qed

lemma cloneFlow_res:
  assumes "net_ok net s t" and "is_order ordn" and "is_order ordc"
  shows "res (cloneFlow ordn ordc net) u v = res net u v" and "inner_ok (cloneFlow ordn ordc net)"
proof -
  let ?copy = "\<lambda>outs. foldl (\<lambda>m (dst, c). gm_set m dst c) [] (ordc outs)"
  have net: "gm_ok net" using assms(1) by (simp add: net_ok_def)
  have get: "gm_get (cloneFlow ordn ordc net) u = map_option ?copy (gm_get net u)" for u
    unfolding cloneFlow_def gm_get_copy [OF gm_ok_order [OF assms(2) net]] gm_get_order [OF assms(2) net]
    by (simp split: option.splits)
  have copy_ok: "gm_ok (?copy outs)" for outs using gm_ok_copy [of "[]" "\<lambda>c. c"] by simp
  then show "inner_ok (cloneFlow ordn ordc net)"
    unfolding inner_ok_def gm_get0_def get by (simp split: option.splits)
  have "gm_get (?copy outs) v = gm_get outs v" if "gm_get net u = Some outs" for outs
  proof -
    have "gm_ok outs" using assms(1) gm_get_mem [OF that] unfolding net_ok_def by blast
    then show ?thesis
      using gm_get_copy [OF gm_ok_order [OF assms(3)], of outs "\<lambda>c. c" "[]" v] gm_get_order [OF assms(3)]
      by (simp split: option.splits)
  qed
  then show "res (cloneFlow ordn ordc net) u v = res net u v"
    unfolding res_def gm_get0_def get by (simp split: option.splits)
qed

lemma saturated_cut:
  assumes "flow_inv c V s t R F" and "finite V" and "s \<in> V" and "(s, t) \<notin> (redges R)\<^sup>*"
  shows "F = cut_capacity c V ((redges R)\<^sup>* `` {s})"
proof -
  let ?S = "(redges R)\<^sup>* `` {s}" and ?f = "\<lambda>u v. c u v - res R u v"
  have "res R u v = 0" if "u \<in> ?S" "v \<notin> ?S" for u v
  proof -
    have "(u, v) \<notin> redges R" using that by (auto intro: rtrancl_into_rtrancl)
    moreover have "0 \<le> res R u v" using assms(1) by (simp add: flow_inv_def residual_ok_def)
    ultimately show ?thesis by (simp add: redges_def)
  qed
  then have "(\<Sum>u\<in>V \<inter> ?S. \<Sum>v\<in>V - ?S. ?f u v) = cut_capacity c V ?S"
    unfolding cut_capacity_def by (intro sum.cong refl) simp
  moreover have "F = (\<Sum>u\<in>V \<inter> ?S. \<Sum>v\<in>V - ?S. ?f u v)"
    using flow_across_cut [of c V s t ?f ?S] flow_inv_flow [OF assms(1)] assms(2-4) by auto
  ultimately show ?thesis by simp
qed

text \<open>
  C5: On a network with a source distinct from the sink and capacities whose sums fit a machine integer, in
  whatever order the maps are ranged over, \<^verbatim>\<open>MaxFlow\<close> and \<^verbatim>\<open>MinCut\<close> return. The number is the value of a
  flow and no flow has a larger one; the set has the source and not the sink, its capacity is that number, and no
  cut has a smaller one.
\<close>

theorem max_flow_min_cut:
  assumes "net_ok net source sink" and "source \<noteq> sink" and "is_order ordn" and "is_order ordc"
  shows "\<exists>F S. MaxFlow ordn ordc net source sink = Some F \<and> MinCut ordn ordc net source sink = Some S \<and>
    source \<in> S \<and> sink \<notin> S \<and> F = cut_capacity (res net) (flow_nodes net source sink) S \<and>
    (\<exists>f. is_flow (res net) (flow_nodes net source sink) source sink f \<and> flow_value (flow_nodes net source sink) source f = F) \<and>
    (\<forall>f. is_flow (res net) (flow_nodes net source sink) source sink f \<longrightarrow> flow_value (flow_nodes net source sink) source f \<le> F) \<and>
    (\<forall>S'. source \<in> S' \<and> sink \<notin> S' \<longrightarrow> F \<le> cut_capacity (res net) (flow_nodes net source sink) S')"
proof -
  let ?V = "flow_nodes net source sink" and ?R = "cloneFlow ordn ordc net"
  note R = cloneFlow_res [OF assms(1,3,4)] and fin = finite_flow_nodes [of net source sink]
  have s: "source \<in> ?V" by (simp add: flow_nodes_def)
  have "flow_inv (res net) ?V source sink ?R 0"
    using R net_ok_res [OF assms(1)] by (simp add: flow_inv_def residual_ok_def excess_def)
  then obtain R' F where loop: "augment_loop ordc source sink ?R 0 = Some (R', F)"
      and inv: "flow_inv (res net) ?V source sink R' F" and stop: "(source, sink) \<notin> (redges R')\<^sup>*"
    using augment_loop_ends [where c = "res net" and F = 0, OF fin s assms(2) net_ok_res(1) [OF assms(1)] _ res_nodes assms(4)]
      assms(1) unfolding net_ok_def by blast
  have "inner_ok R'" using inv by (simp add: flow_inv_def residual_ok_def)
  then obtain r where cut: "cut_loop ordc R' [source] [source] = Some r" "set r = (redges R')\<^sup>* `` {source}"
    using cut_loop_correct [OF _ assms(4), of R' source "[source]" "[source]"] by auto
  have S: "source \<in> set r" "sink \<notin> set r" using cut(2) stop by auto
  have F: "F = cut_capacity (res net) ?V (set r)" unfolding cut(2) by (rule saturated_cut [OF inv fin s stop])
  note flow = flow_inv_flow [OF inv]
  have "F \<le> cut_capacity (res net) ?V S'" if "source \<in> S' \<and> sink \<notin> S'" for S'
    using flow_le_cut [OF conjunct1 [OF flow] fin s, of S'] flow that by simp
  moreover have "flow_value ?V source f \<le> F" if "is_flow (res net) ?V source sink f" for f
    unfolding F by (rule flow_le_cut [OF that fin s S])
  ultimately show ?thesis
    using loop cut(1) S F flow by (auto simp: MaxFlow_def MinCut_def)
qed

declare bfs_loop.simps [code] walk.simps [code] augment_loop.simps [code] cut_loop.simps [code]

definition demo_net :: FlowNetwork where
  "demo_net = [(''s'', [(''a'', 3), (''b'', 2)]), (''a'', [(''b'', 5), (''t'', 1)]), (''b'', [(''t'', 3)])]"

lemma demo_net_ok: "net_ok demo_net ''s'' ''t''"
  by code_simp

theorem max_flow_min_cut_witness:
  "MaxFlow rev rev demo_net ''s'' ''t'' = Some 4 \<and>
   (\<exists>S. MinCut rev rev demo_net ''s'' ''t'' = Some S \<and> ''s'' \<in> S \<and> ''t'' \<notin> S \<and>
     4 = cut_capacity (res demo_net) (flow_nodes demo_net ''s'' ''t'') S)"
proof -
  have "MaxFlow rev rev demo_net ''s'' ''t'' = Some 4" by code_simp
  then show ?thesis using max_flow_min_cut [OF demo_net_ok, of rev rev] by auto
qed

end
