(* ===== verification/Relay_Order.thy ===== *)
theory Relay_Order
  imports Relay_Graph
begin

text \<open>
  \<^verbatim>\<open>TopologicalSort\<close> of \<^verbatim>\<open>mev/relay/v3/internal/graph/graph.go\<close>: in-degrees, and a queue of the nodes none
  of whose predecessors is left, kept sorted. The loop is a partial function, \<open>None\<close> when it does not return;
  the lemmas show that it returns, that each node it emits is the least one available, and that it
  leaves a node out exactly when the graph has a cycle.

  In-degrees count the elements of slices, which fit a machine integer, and are unbounded here.
\<close>

section \<open>Code\<close>

type_synonym graph_order = "(string \<times> string list) list \<Rightarrow> (string \<times> string list) list"

fun degree_outs :: "string list \<Rightarrow> (string, int) gomap \<Rightarrow> string list \<Rightarrow> string list \<times> (string, int) gomap" where
  "degree_outs nodes deg [] = (nodes, deg)"
| "degree_outs nodes deg (dst # outs) = degree_outs (List.insert dst nodes) (gm_set deg dst (gm_get0 0 deg dst + 1)) outs"

definition degree_step :: "string list \<times> (string, int) gomap \<Rightarrow> string \<times> string list \<Rightarrow> string list \<times> (string, int) gomap" where
  "degree_step st e = (case st of (nodes, deg) \<Rightarrow> case e of (src, outs) \<Rightarrow>
     (case degree_outs (List.insert src nodes) deg outs of (nodes, deg) \<Rightarrow>
        (nodes, if gm_get deg src = None then gm_set deg src (gm_get0 0 deg src) else deg)))"

fun topo_outs :: "(string, int) gomap \<Rightarrow> string list \<Rightarrow> string list \<Rightarrow> (string, int) gomap \<times> string list" where
  "topo_outs deg queue [] = (deg, queue)"
| "topo_outs deg queue (dst # outs) =
     (let deg = gm_set deg dst (gm_get0 0 deg dst - 1) in
      if gm_get0 0 deg dst = 0 then topo_outs deg (sort (queue @ [dst])) outs else topo_outs deg queue outs)"

partial_function (option) topo_loop :: "Digraph \<Rightarrow> (string, int) gomap \<Rightarrow> string list \<Rightarrow> string list \<Rightarrow> string list option" where
  "topo_loop g deg queue order = (case queue of
       [] \<Rightarrow> Some order
     | n # rest \<Rightarrow> (case topo_outs deg rest (sort (gm_get0 [] g n)) of
           (deg', queue') \<Rightarrow> topo_loop g deg' queue' (order @ [n])))"

definition TopologicalSort :: "graph_order \<Rightarrow> (string list \<Rightarrow> string list) \<Rightarrow> Digraph \<Rightarrow> (string + string list) option" where
  "TopologicalSort ordg ordn g =
     (case foldl degree_step ([], []) (ordg g) of (nodes, deg) \<Rightarrow>
        let queue = sort (filter (\<lambda>n. gm_get0 0 deg n = 0) (ordn nodes)) in
        map_option (\<lambda>order. if length order \<noteq> length nodes then Inl ''graph contains a cycle'' else Inr order)
          (topo_loop g deg queue []))"

section \<open>Specification\<close>

definition graph_nodes :: "Digraph \<Rightarrow> string set" where
  "graph_nodes g = fst ` set g \<union> graph_targets g"

lemma finite_graph_nodes [simp]: "finite (graph_nodes g)"
  by (simp add: graph_nodes_def)

lemma edges_nodes: "(u, v) \<in> edges g \<Longrightarrow> u \<in> graph_nodes g \<and> v \<in> graph_nodes g"
proof -
  assume "(u, v) \<in> edges g"
  then obtain vs where "gm_get g u = Some vs" "v \<in> set vs" by (cases "gm_get g u") (auto simp: edges_def gm_get0_def)
  then have "(u, vs) \<in> set g" "v \<in> set vs" by (auto dest: gm_get_mem)
  then show ?thesis unfolding graph_nodes_def graph_targets_def by force
qed

text \<open>The nodes that may come next when those of \<open>S\<close> have been emitted.\<close>

definition available :: "Digraph \<Rightarrow> string set \<Rightarrow> string set" where
  "available g S = {v \<in> graph_nodes g - S. \<forall>u. (u, v) \<in> edges g \<longrightarrow> u \<in> S}"

definition least_first :: "Digraph \<Rightarrow> string list \<Rightarrow> bool" where
  "least_first g order \<longleftrightarrow> (\<forall>i < length order. order ! i \<in> available g (set (take i order)) \<and>
     (\<forall>w \<in> available g (set (take i order)). order ! i \<le> w))"

lemma least_first_Nil: "least_first g []"
  by (simp add: least_first_def)

lemma least_first_snoc:
  assumes "least_first g order" and "n \<in> available g (set order)" and "\<And>w. w \<in> available g (set order) \<Longrightarrow> n \<le> w"
  shows "least_first g (order @ [n])"
  using assms unfolding least_first_def by (auto simp: nth_append less_Suc_eq)

section \<open>In-degrees\<close>

lemma gm_get0_set: "gm_get0 z (gm_set m k v) k' = (if k' = k then v else gm_get0 z m k')"
  by (simp add: gm_get0_def)

text \<open>The edges into a node from the nodes outside \<open>S\<close>, with multiplicity.\<close>

definition pending :: "Digraph \<Rightarrow> string set \<Rightarrow> string \<Rightarrow> int" where
  "pending g S v = (\<Sum>u\<in>graph_nodes g - S. int (count_list (gm_get0 [] g u) v))"

lemma pending_zero: "pending g S v = 0 \<longleftrightarrow> (\<forall>u. (u, v) \<in> edges g \<longrightarrow> u \<in> S)"
proof -
  have "pending g S v = 0 \<longleftrightarrow> (\<forall>u \<in> graph_nodes g - S. count_list (gm_get0 [] g u) v = 0)"
    unfolding pending_def by (subst sum_nonneg_eq_0_iff) auto
  then show ?thesis using edges_nodes [of _ v g] by (auto simp: count_list_0_iff edges_def)
qed

lemma pending_nonneg: "0 \<le> pending g S v"
  by (simp add: pending_def sum_nonneg)

lemma pending_insert:
  "n \<in> graph_nodes g \<Longrightarrow> n \<notin> S \<Longrightarrow> pending g S v = pending g (insert n S) v + int (count_list (gm_get0 [] g n) v)"
proof -
  assume "n \<in> graph_nodes g" "n \<notin> S"
  then have split: "graph_nodes g - S = insert n (graph_nodes g - insert n S)" by auto
  show ?thesis unfolding pending_def by (subst split) simp
qed

lemma degree_outs_spec:
  assumes "degree_outs nodes deg outs = (nodes', deg')"
  shows "set nodes' = set nodes \<union> set outs \<and> (distinct nodes \<longrightarrow> distinct nodes') \<and>
    (\<forall>v. gm_get0 0 deg' v = gm_get0 0 deg v + int (count_list outs v))"
  using assms by (induction nodes deg outs rule: degree_outs.induct) (auto simp: gm_get0_def)

lemma degree_step_spec:
  assumes "degree_step (nodes, deg) (src, outs) = (nodes', deg')"
  shows "set nodes' = insert src (set nodes \<union> set outs) \<and> (distinct nodes \<longrightarrow> distinct nodes') \<and>
    (\<forall>v. gm_get0 0 deg' v = gm_get0 0 deg v + int (count_list outs v))"
proof -
  obtain n1 d1 where d: "degree_outs (List.insert src nodes) deg outs = (n1, d1)"
    by (cases "degree_outs (List.insert src nodes) deg outs")
  then have "nodes' = n1" "\<forall>v. gm_get0 0 deg' v = gm_get0 0 d1 v"
    using assms by (auto simp: degree_step_def gm_get0_def split: if_splits)
  then show ?thesis using degree_outs_spec [OF d] by auto
qed

lemma degree_fold_spec:
  "foldl degree_step (nodes, deg) es = (nodes', deg') \<Longrightarrow>
   set nodes' = set nodes \<union> (\<Union>(src, outs) \<in> set es. insert src (set outs)) \<and> (distinct nodes \<longrightarrow> distinct nodes') \<and>
   (\<forall>v. gm_get0 0 deg' v = gm_get0 0 deg v + (\<Sum>(src, outs)\<leftarrow>es. int (count_list outs v)))"
proof (induction es arbitrary: nodes deg)
  case (Cons e es)
  obtain src outs where e: "e = (src, outs)" by (cases e)
  obtain n1 d1 where s: "degree_step (nodes, deg) (src, outs) = (n1, d1)" by (cases "degree_step (nodes, deg) (src, outs)")
  then have "foldl degree_step (n1, d1) es = (nodes', deg')" using Cons.prems e by simp
  from Cons.IH [OF this] degree_step_spec [OF s] show ?case using e by auto
qed simp

lemma sum_over_nodes:
  assumes "gm_ok g"
  shows "(\<Sum>(src, outs)\<leftarrow>g. int (count_list outs v)) = pending g {} v"
proof -
  let ?h = "\<lambda>u. int (count_list (gm_get0 [] g u) v)"
  have "(\<Sum>(src, outs)\<leftarrow>g. int (count_list outs v)) = sum_list (map ?h (map fst g))"
  proof -
    have "map (\<lambda>(src, outs). int (count_list outs v)) g = map (?h \<circ> fst) g"
      by (intro map_cong refl) (auto simp: gm_get0_def gm_get_in [OF assms, THEN iffD2])
    then show ?thesis by (simp only: map_map)
  qed
  also have "\<dots> = sum ?h (fst ` set g)" using sum_list_distinct_conv_sum_set [of "map fst g" ?h] assms unfolding gm_ok_def by simp
  also have "\<dots> = pending g {} v"
    unfolding pending_def
    by (rule sum.mono_neutral_left) (auto simp: graph_nodes_def gm_get0_def gm_get_None_iff [THEN iffD2])
  finally show ?thesis .
qed

section \<open>The loop\<close>

text \<open>
  Between two edges of the node just emitted: \<open>S\<close> are the nodes emitted, \<open>outs\<close> the targets not yet counted down.
\<close>

definition topo_inv :: "Digraph \<Rightarrow> string set \<Rightarrow> string list \<Rightarrow> (string, int) gomap \<Rightarrow> string list \<Rightarrow> bool" where
  "topo_inv g S outs deg queue \<longleftrightarrow> sorted queue \<and> distinct queue \<and>
     (\<forall>v. gm_get0 0 deg v = pending g S v + int (count_list outs v)) \<and>
     set queue = {v \<in> graph_nodes g - S. gm_get0 0 deg v = 0}"

lemma topo_outs_inv:
  "topo_inv g S outs deg queue \<Longrightarrow> set outs \<subseteq> graph_nodes g \<Longrightarrow> (\<forall>v \<in> S. pending g S v = 0 \<and> v \<notin> set outs) \<Longrightarrow>
   topo_outs deg queue outs = (deg', queue') \<Longrightarrow> topo_inv g S [] deg' queue'"
proof (induction deg queue outs rule: topo_outs.induct)
  case (2 deg queue dst outs)
  define d where "d = gm_set deg dst (gm_get0 0 deg dst - 1)"
  have get: "gm_get0 0 d v = gm_get0 0 deg v - (if v = dst then 1 else 0)" for v by (simp add: d_def gm_get0_set)
  have cnt: "gm_get0 0 d v = pending g S v + int (count_list outs v)" for v
    using "2.prems"(1) unfolding get topo_inv_def by simp
  have q: "set queue = {v \<in> graph_nodes g - S. gm_get0 0 deg v = 0}" "sorted queue" "distinct queue"
    using "2.prems"(1) by (auto simp: topo_inv_def)
  have pos: "0 < gm_get0 0 deg dst"
    using "2.prems"(1) pending_nonneg [of g S dst] by (simp add: topo_inv_def)
  have dst: "dst \<in> graph_nodes g - S" "dst \<notin> set queue" using "2.prems"(2,3) pos q(1) by auto
  have rest: "set outs \<subseteq> graph_nodes g" "\<forall>v \<in> S. pending g S v = 0 \<and> v \<notin> set outs" using "2.prems"(2,3) by auto
  show ?case
  proof (cases "gm_get0 0 d dst = 0")
    case True
    have "set (sort (queue @ [dst])) = {v \<in> graph_nodes g - S. gm_get0 0 d v = 0}" using q(1) dst(1) True get by auto
    then have "topo_inv g S outs d (sort (queue @ [dst]))" unfolding topo_inv_def using cnt q(3) dst(2) by simp
    then show ?thesis using "2.IH"(1) [OF d_def True _ rest] "2.prems"(4) True by (simp add: d_def Let_def)
  next
    case False
    have "set queue = {v \<in> graph_nodes g - S. gm_get0 0 d v = 0}" using q(1) pos False get by auto
    then have "topo_inv g S outs d queue" unfolding topo_inv_def using cnt q(2,3) by blast
    then show ?thesis using "2.IH"(2) [OF d_def False _ rest] "2.prems"(4) False by (simp add: d_def Let_def)
  qed
qed simp

lemma topo_inv_available: "topo_inv g S [] deg queue \<Longrightarrow> set queue = available g S"
  unfolding topo_inv_def available_def by (auto simp: pending_zero)

lemma topo_loop_spec:
  "topo_inv g (set order) [] deg queue \<Longrightarrow> least_first g order \<Longrightarrow> distinct order \<Longrightarrow> set order \<subseteq> graph_nodes g \<Longrightarrow>
   (\<forall>v \<in> set order. pending g (set order) v = 0) \<Longrightarrow>
   \<exists>r. topo_loop g deg queue order = Some r \<and> least_first g r \<and> distinct r \<and> set r \<subseteq> graph_nodes g \<and> available g (set r) = {}"
proof (induction "card (graph_nodes g - set order)" arbitrary: deg queue order rule: less_induct)
  case less
  note avail = topo_inv_available [OF less.prems(1)]
  show ?case
  proof (cases queue)
    case Nil
    then show ?thesis using less.prems avail by (simp add: topo_loop.simps)
  next
    case (Cons n rest)
    let ?S = "insert n (set order)" and ?outs = "sort (gm_get0 [] g n)"
    have n: "n \<in> available g (set order)" "n \<in> graph_nodes g" "n \<notin> set order" "n \<notin> set rest"
      using avail Cons less.prems(1) by (auto simp: available_def topo_inv_def)
    have least: "n \<le> w" if "w \<in> available g (set order)" for w
      using that less.prems(1) Cons unfolding avail [symmetric] by (auto simp: topo_inv_def)
    have zero: "pending g ?S v = 0 \<and> v \<notin> set ?outs" if "v \<in> ?S" for v
    proof -
      have "pending g (set order) v = 0" using that less.prems(5) n(1) by (auto simp: available_def pending_zero)
      then have "\<forall>u. (u, v) \<in> edges g \<longrightarrow> u \<in> set order" by (simp add: pending_zero)
      then show ?thesis using n(3) by (auto simp: pending_zero edges_def)
    qed
    have cnt: "count_list ?outs v = count_list (gm_get0 [] g n) v" for v
      by (metis count_mset mset_sort)
    have inv: "topo_inv g ?S ?outs deg rest"
      using less.prems(1) pending_insert [OF n(2,3)] n(4) Cons unfolding topo_inv_def cnt by auto
    obtain deg' queue' where outs: "topo_outs deg rest ?outs = (deg', queue')" by (cases "topo_outs deg rest ?outs")
    have "set ?outs \<subseteq> graph_nodes g" using succ_targets [of g n] by (auto simp: graph_nodes_def)
    from topo_outs_inv [OF inv this _ outs] zero have "topo_inv g (set (order @ [n])) [] deg' queue'" by simp
    moreover have "least_first g (order @ [n])" by (rule least_first_snoc [OF less.prems(2) n(1) least])
    moreover have "card (graph_nodes g - set (order @ [n])) < card (graph_nodes g - set order)"
      using n(2,3) by (intro psubset_card_mono) auto
    moreover have "topo_loop g deg queue order = topo_loop g deg' queue' (order @ [n])"
      using outs Cons by (simp add: topo_loop.simps [of g deg])
    ultimately show ?thesis using less.hyps [of "order @ [n]" deg' queue'] less.prems(3,4) n(2,3) zero by simp
  qed
qed

section \<open>Cycles\<close>

lemma stuck_cycle:
  assumes "finite W" and "W \<noteq> {}" and "\<And>v. v \<in> W \<Longrightarrow> \<exists>u \<in> W. (u, v) \<in> r"
  shows "\<exists>v. (v, v) \<in> r\<^sup>+"
proof (rule ccontr)
  assume "\<nexists>v. (v, v) \<in> r\<^sup>+"
  then have "acyclic (r \<inter> W \<times> W)"
    unfolding acyclic_def using trancl_mono [of _ "r \<inter> W \<times> W" r] by blast
  moreover have "finite (r \<inter> W \<times> W)" using assms(1) by blast
  ultimately have "wf (r \<inter> W \<times> W)" by (rule finite_acyclic_wf [rotated])
  then obtain z where "z \<in> W" "\<And>y. (y, z) \<in> r \<inter> W \<times> W \<Longrightarrow> y \<notin> W"
    using assms(2) by (meson ex_in_conv wfE_min)
  then show False using assms(3) by blast
qed

lemma least_first_acyclic:
  assumes "least_first g order" and "set order = graph_nodes g" and "distinct order"
  shows "(v, v) \<notin> (edges g)\<^sup>+"
proof -
  let ?pos = "\<lambda>v. THE i. i < length order \<and> order ! i = v"
  have pos: "?pos (order ! i) = i" if "i < length order" for i
    using that assms(3) by (intro the_equality) (auto simp: nth_eq_iff_index_eq)
  have "?pos u < ?pos v" if e: "(u, v) \<in> edges g" for u v
  proof -
    obtain j where j: "j < length order" "order ! j = v"
      using edges_nodes [OF e] assms(2) by (metis in_set_conv_nth)
    then have "u \<in> set (take j order)" using assms(1) e unfolding least_first_def available_def by blast
    then obtain i where "i < j" "order ! i = u" "i < length order" using j(1) by (auto simp: in_set_conv_nth)
    then show ?thesis using pos [of i] pos [of j] j by simp
  qed
  then have "edges g \<subseteq> measure ?pos" by auto
  then have "wf (edges g)" by (rule wf_subset [OF wf_measure])
  then have "acyclic (edges g)" by (rule wf_acyclic)
  then show ?thesis by (simp add: acyclic_def)
qed

section \<open>Properties\<close>

lemma topo_start:
  assumes "gm_ok g" and "is_order ordg" and "is_order ordn" and "foldl degree_step ([], []) (ordg g) = (nodes, deg)"
  shows "topo_inv g {} [] deg (sort (filter (\<lambda>n. gm_get0 0 deg n = 0) (ordn nodes))) \<and> length nodes = card (graph_nodes g)"
proof -
  note fold = degree_fold_spec [OF assms(4)]
  have "set nodes = (\<Union>(src, outs) \<in> set g. insert src (set outs))" and dist: "distinct nodes"
    using fold by (simp_all add: is_order_set [OF assms(2)])
  then have nodes: "set nodes = graph_nodes g" unfolding graph_nodes_def graph_targets_def by force
  have "(\<Sum>(src, outs)\<leftarrow>ordg g. int (count_list outs v)) = (\<Sum>(src, outs)\<leftarrow>g. int (count_list outs v))" for v
    unfolding sum_mset_sum_list [symmetric] is_order_mset_map [OF assms(2)] ..
  then have "gm_get0 0 deg v = pending g {} v" for v
    using fold sum_over_nodes [OF assms(1)] by (simp add: gm_get0_def)
  moreover have "distinct (ordn nodes)"
    using dist mset_eq_imp_distinct_iff [OF is_order_mset [OF assms(3)]] by blast
  ultimately show ?thesis
    using nodes distinct_card [OF dist] by (simp add: topo_inv_def is_order_set [OF assms(3)])
qed

text \<open>
  C13: \<^verbatim>\<open>TopologicalSort\<close> returns for every graph, whatever order the maps are ranged over. When the graph has a
  cycle it is the error; otherwise the result lists every node once, each one being the least of those all of whose
  predecessors stand before it.
\<close>

theorem topological_sort_spec:
  assumes "gm_ok g" and "is_order ordg" and "is_order ordn"
  shows "if \<exists>v. (v, v) \<in> (edges g)\<^sup>+ then TopologicalSort ordg ordn g = Some (Inl ''graph contains a cycle'')
    else \<exists>order. TopologicalSort ordg ordn g = Some (Inr order) \<and> distinct order \<and> set order = graph_nodes g \<and> least_first g order"
proof -
  obtain nodes deg where fold: "foldl degree_step ([], []) (ordg g) = (nodes, deg)"
    by (cases "foldl degree_step ([], []) (ordg g)")
  note start = topo_start [OF assms fold]
  obtain r where r: "topo_loop g deg (sort (filter (\<lambda>n. gm_get0 0 deg n = 0) (ordn nodes))) [] = Some r"
      "least_first g r" "distinct r" "set r \<subseteq> graph_nodes g" "available g (set r) = {}"
    using topo_loop_spec [of g "[]" deg "sort (filter (\<lambda>n. gm_get0 0 deg n = 0) (ordn nodes))"] start least_first_Nil by auto
  have len: "length r = length nodes \<longleftrightarrow> set r = graph_nodes g"
    using start r(3,4) by (metis card_subset_eq distinct_card finite_graph_nodes)
  have "\<exists>v. (v, v) \<in> (edges g)\<^sup>+" if "set r \<noteq> graph_nodes g"
  proof (rule stuck_cycle [of "graph_nodes g - set r"])
    show "\<exists>u \<in> graph_nodes g - set r. (u, v) \<in> edges g" if "v \<in> graph_nodes g - set r" for v
      using that r(5) edges_nodes [of _ v g] unfolding available_def by blast
  qed (use that r(4) in auto)
  then have "(\<exists>v. (v, v) \<in> (edges g)\<^sup>+) \<longleftrightarrow> length r \<noteq> length nodes"
    using least_first_acyclic [OF r(2) _ r(3)] len by blast
  moreover have "TopologicalSort ordg ordn g = Some (if length r \<noteq> length nodes then Inl ''graph contains a cycle'' else Inr r)"
    using fold r(1) by (simp add: TopologicalSort_def Let_def)
  ultimately show ?thesis using r(2,3) len by auto
qed

declare topo_loop.simps [code]

theorem topological_sort_spec_witness:
  "TopologicalSort rev rev [(''a'', [''c'', ''c'']), (''b'', [''c'']), (''c'', [''d''])] = Some (Inr [''a'', ''b'', ''c'', ''d'']) \<and>
   least_first [(''a'', [''c'', ''c'']), (''b'', [''c'']), (''c'', [''d''])] [''a'', ''b'', ''c'', ''d'']"
proof -
  have "TopologicalSort rev rev [(''a'', [''c'', ''c'']), (''b'', [''c'']), (''c'', [''d''])] = Some (Inr [''a'', ''b'', ''c'', ''d''])"
    by code_simp
  then show ?thesis
    using topological_sort_spec [of "[(''a'', [''c'', ''c'']), (''b'', [''c'']), (''c'', [''d''])]" rev rev]
    by (auto simp: gm_ok_def split: if_splits)
qed

end
