(* ===== verification/Relay_Scc.thy ===== *)
theory Relay_Scc
  imports Relay_Order
begin

text \<open>
  \<^verbatim>\<open>SCC\<close> of \<^verbatim>\<open>mev/relay/v3/internal/graph/graph.go\<close>: two depth-first searches, the second one in the reversed
  graph and in the reverse of the order in which the first one left the nodes. The searches are partial functions
  over the list of the nodes still to be visited, \<open>None\<close> when they do not return. The lemmas show that they return,
  that a search from a node collects what can be reached around the nodes already seen, and that the
  components are the classes of mutual reachability.
\<close>

section \<open>Code\<close>

definition allNodes :: "graph_order \<Rightarrow> Digraph \<Rightarrow> string list" where
  "allNodes ordg g =
     foldl (\<lambda>nodes (src, outs). foldl (\<lambda>nodes dst. List.insert dst nodes) (List.insert src nodes) outs) [] (ordg g)"

definition reverse_outs :: "string \<Rightarrow> Digraph \<Rightarrow> string list \<Rightarrow> Digraph" where
  "reverse_outs src r outs = foldl (\<lambda>r dst. gm_set r dst (gm_get0 [] r dst @ [src])) r outs"

definition reverse_graph :: "graph_order \<Rightarrow> Digraph \<Rightarrow> Digraph" where
  "reverse_graph ordg g =
     foldl (\<lambda>r (src, outs). reverse_outs src (if gm_get r src = None then gm_set r src [] else r) outs) [] (ordg g)"

text \<open>The calls \<^verbatim>\<open>dfs1(n)\<close> for the nodes of a list, one after the other.\<close>

partial_function (option) dfs1 :: "Digraph \<Rightarrow> string list \<Rightarrow> string list \<Rightarrow> string list \<Rightarrow> (string list \<times> string list) option" where
  "dfs1 g ns seen order = (case ns of
       [] \<Rightarrow> Some (seen, order)
     | n # rest \<Rightarrow>
         if n \<in> set seen then dfs1 g rest seen order
         else Option.bind (dfs1 g (gm_get0 [] g n) (n # seen) order)
           (\<lambda>(seen', order'). dfs1 g rest seen' (order' @ [n])))"

partial_function (option) dfs2 :: "Digraph \<Rightarrow> string list \<Rightarrow> string list \<Rightarrow> string list \<Rightarrow> (string list \<times> string list) option" where
  "dfs2 r ns seen cmp = (case ns of
       [] \<Rightarrow> Some (seen, cmp)
     | n # rest \<Rightarrow>
         if n \<in> set seen then dfs2 r rest seen cmp
         else Option.bind (dfs2 r (gm_get0 [] r n) (n # seen) (cmp @ [n]))
           (\<lambda>(seen', cmp'). dfs2 r rest seen' cmp'))"

fun scc_loop :: "Digraph \<Rightarrow> string list \<Rightarrow> string list list \<Rightarrow> string list \<Rightarrow> string list list option" where
  "scc_loop r seen comps [] = Some comps"
| "scc_loop r seen comps (n # ns) =
     (if n \<in> set seen then scc_loop r seen comps ns
      else Option.bind (dfs2 r [n] seen []) (\<lambda>(seen', cmp). scc_loop r seen' (comps @ [sort cmp]) ns))"

definition comp_less :: "string list \<Rightarrow> string list \<Rightarrow> bool" where
  "comp_less a b = (if a = [] \<or> b = [] then length a < length b else hd a < hd b)"

definition SCC :: "graph_order \<Rightarrow> graph_order \<Rightarrow> (string list \<Rightarrow> string list) \<Rightarrow> Digraph \<Rightarrow> string list list option" where
  "SCC ordg ordr ordn g =
     Option.bind (dfs1 g (ordn (allNodes ordg g)) [] [])
       (\<lambda>(_, order). map_option (sort_by comp_less) (scc_loop (reverse_graph ordr g) [] [] (rev order)))"

section \<open>Reaching around the nodes already seen\<close>

definition around :: "Digraph \<Rightarrow> string set \<Rightarrow> (string \<times> string) set" where
  "around g A = {(u, v) \<in> edges g. u \<notin> A \<and> v \<notin> A}"

definition swept :: "Digraph \<Rightarrow> string list \<Rightarrow> string set \<Rightarrow> string set" where
  "swept g ns A = {v. \<exists>n \<in> set ns. n \<notin> A \<and> (n, v) \<in> (around g A)\<^sup>*}"

lemma around_empty [simp]: "around g {} = edges g"
  by (auto simp: around_def)

lemma around_mono: "A \<subseteq> B \<Longrightarrow> (x, y) \<in> (around g B)\<^sup>* \<Longrightarrow> (x, y) \<in> (around g A)\<^sup>*"
  using rtrancl_mono [of "around g B" "around g A"] by (auto simp: around_def)

lemma around_outside: "(x, y) \<in> (around g A)\<^sup>* \<Longrightarrow> x \<notin> A \<longleftrightarrow> y \<notin> A"
  by (induction rule: rtrancl_induct) (auto simp: around_def)

lemma swept_outside: "v \<in> swept g ns A \<Longrightarrow> v \<notin> A"
  using around_outside by (auto simp: swept_def)

lemma path_avoid:
  assumes "(m, v) \<in> (around g A)\<^sup>*" and "m \<notin> B"
  shows "(m, v) \<in> (around g (A \<union> B))\<^sup>* \<or> (\<exists>b \<in> B. (m, b) \<in> (around g A)\<^sup>* \<and> (b, v) \<in> (around g A)\<^sup>*)"
  using assms(1)
proof (induction rule: rtrancl_induct)
  case (step y z)
  show ?case
  proof (cases "(m, y) \<in> (around g (A \<union> B))\<^sup>* \<and> z \<notin> B")
    case True
    then have "y \<notin> B" using around_outside [of m y g "A \<union> B"] around_outside [OF step(1)] step(2) assms(2) by (auto simp: around_def)
    then have "(y, z) \<in> around g (A \<union> B)" using step(2) True by (auto simp: around_def)
    then show ?thesis using True by (meson rtrancl.rtrancl_into_rtrancl)
  next
    case False
    then show ?thesis using step rtrancl.rtrancl_into_rtrancl [OF step(1,2)] rtrancl.rtrancl_into_rtrancl [OF _ step(2)] by blast
  qed
qed simp

lemma swept_node:
  assumes "n \<notin> A"
  shows "(around g A)\<^sup>* `` {n} = insert n (swept g (gm_get0 [] g n) (insert n A))"
proof -
  have "v = n \<or> v \<in> swept g (gm_get0 [] g n) (insert n A)" if "(n, v) \<in> (around g A)\<^sup>*" for v
    using that
  proof (induction rule: rtrancl_induct)
    case (step y z)
    show ?case
    proof (cases "z = n")
      case False
      then have z: "z \<notin> insert n A" "(y, z) \<in> edges g" using step(2) by (auto simp: around_def)
      from step.IH show ?thesis
      proof
        assume "y = n"
        then have "z \<in> set (gm_get0 [] g n)" using z by (simp add: edges_def)
        then show ?thesis using z by (auto simp: swept_def)
      next
        assume y: "y \<in> swept g (gm_get0 [] g n) (insert n A)"
        then have "(y, z) \<in> around g (insert n A)" using z swept_outside [OF y] by (simp add: around_def)
        then show ?thesis using y by (auto simp: swept_def intro: rtrancl.rtrancl_into_rtrancl)
      qed
    qed simp
  qed simp
  moreover have "(n, v) \<in> (around g A)\<^sup>*" if v: "v \<in> swept g (gm_get0 [] g n) (insert n A)" for v
  proof -
    obtain m where m: "m \<in> set (gm_get0 [] g n)" "m \<notin> insert n A" "(m, v) \<in> (around g (insert n A))\<^sup>*"
      using v by (auto simp: swept_def)
    then have "(n, m) \<in> around g A" using assms by (simp add: around_def edges_def)
    then show ?thesis using around_mono [OF _ m(3), of A] by (meson converse_rtrancl_into_rtrancl subset_insertI)
  qed
  ultimately show ?thesis by auto
qed

lemma swept_Cons:
  assumes "n \<notin> A" and "W = (around g A)\<^sup>* `` {n}"
  shows "swept g (n # rest) A = W \<union> swept g rest (A \<union> W)"
proof -
  have "v \<in> W \<union> swept g rest (A \<union> W)" if "m \<in> set rest" "m \<notin> A" "(m, v) \<in> (around g A)\<^sup>*" for m v
  proof (cases "m \<in> W")
    case True
    then show ?thesis using that(3) assms(2) by (auto intro: rtrancl_trans)
  next
    case False
    from path_avoid [OF that(3) False] show ?thesis
      using that False assms(2) by (auto simp: swept_def intro: rtrancl_trans)
  qed
  moreover have "swept g rest (A \<union> W) \<subseteq> swept g rest A"
    using around_mono [of A "A \<union> W"] by (auto simp: swept_def)
  ultimately show ?thesis using assms by (auto simp: swept_def)
qed

lemma swept_seen: "n \<in> A \<Longrightarrow> swept g (n # rest) A = swept g rest A"
  by (auto simp: swept_def)

lemma swept_Nil [simp]: "swept g [] A = {}"
  by (simp add: swept_def)

section \<open>The first search\<close>

definition before :: "'a list \<Rightarrow> 'a \<Rightarrow> 'a \<Rightarrow> bool" where
  "before xs a b \<longleftrightarrow> (\<exists>ys zs. xs = ys @ zs \<and> a \<in> set ys \<and> b \<in> set zs)"

lemma before_append: "a \<in> set xs \<Longrightarrow> b \<in> set ys \<Longrightarrow> before (xs @ ys) a b"
  by (auto simp: before_def)

lemma before_left: "before xs a b \<Longrightarrow> before (xs @ ys) a b"
  unfolding before_def by force

lemma before_right: "before ys a b \<Longrightarrow> before (xs @ ys) a b"
  unfolding before_def by (metis Un_iff append.assoc set_append)

lemma before_last: "before (xs @ n # ys) n b \<Longrightarrow> distinct (xs @ n # ys) \<Longrightarrow> b \<in> set ys"
proof -
  assume "before (xs @ n # ys) n b" and d: "distinct (xs @ n # ys)"
  then obtain us vs where uv: "xs @ n # ys = us @ vs" "n \<in> set us" "b \<in> set vs" by (auto simp: before_def)
  then obtain k where k: "us = xs @ k \<and> k @ vs = n # ys \<or> us @ k = xs \<and> vs = k @ n # ys"
    by (metis append_eq_append_conv2)
  then show ?thesis using uv(2,3) d by (cases k) auto
qed

text \<open>
  What the order of leaving says: a node that can reach another one is reached back, or its class has a
  node that is left later than the other one.
\<close>

definition finish_ok :: "Digraph \<Rightarrow> string set \<Rightarrow> string list \<Rightarrow> bool" where
  "finish_ok g A new \<longleftrightarrow> (\<forall>m n. m \<in> set new \<and> (m, n) \<in> (around g A)\<^sup>* \<longrightarrow>
     (n, m) \<in> (around g A)\<^sup>* \<or> (\<exists>m'. (m, m') \<in> (around g A)\<^sup>* \<and> (m', m) \<in> (around g A)\<^sup>* \<and> before new n m'))"

lemma finish_okD:
  assumes "finish_ok g B new" and "m \<in> set new" and "(m, n) \<in> (around g B)\<^sup>*" and "A \<subseteq> B"
  shows "(n, m) \<in> (around g A)\<^sup>* \<or> (\<exists>m'. (m, m') \<in> (around g A)\<^sup>* \<and> (m', m) \<in> (around g A)\<^sup>* \<and> before new n m')"
  using assms around_mono [OF assms(4)] unfolding finish_ok_def by blast

lemma finish_ok_join:
  assumes "n \<notin> A" and W: "insert n (set new1) = (around g A)\<^sup>* `` {n}"
    and "finish_ok g (insert n A) new1" and "finish_ok g (A \<union> insert n (set new1)) new2"
    and "set new2 \<inter> insert n (set new1) = {}" and "n \<notin> set new1"
  shows "finish_ok g A (new1 @ [n] @ new2)"
  unfolding finish_ok_def
proof (intro allI impI, elim conjE)
  fix m v assume m: "m \<in> set (new1 @ [n] @ new2)" and mv: "(m, v) \<in> (around g A)\<^sup>*"
  let ?goal = "\<lambda>xs. (v, m) \<in> (around g A)\<^sup>* \<or> (\<exists>m'. (m, m') \<in> (around g A)\<^sup>* \<and> (m', m) \<in> (around g A)\<^sup>* \<and> before xs v m')"
  have from_n: "(n, x) \<in> (around g A)\<^sup>*" if "x \<in> insert n (set new1)" for x using that W by blast
  have closed: "y \<in> insert n (set new1)" if "x \<in> insert n (set new1)" "(x, y) \<in> (around g A)\<^sup>*" for x y
    using W that by (metis Image_singleton_iff rtrancl_trans)
  show "?goal (new1 @ [n] @ new2)"
  proof (cases "m \<in> set new2")
    case True
    then have mW: "m \<notin> insert n (set new1)" using assms(5) by blast
    show ?thesis
    proof (cases "v \<in> insert n (set new1)")
      case inW: True
      then have "before ((new1 @ [n]) @ new2) v m" using True by (intro before_append) auto
      then show ?thesis by auto
    next
      case False
      have "(m, v) \<in> (around g (A \<union> insert n (set new1)))\<^sup>*"
        using path_avoid [OF mv mW] False closed by blast
      then show ?thesis
        using finish_okD [OF assms(4) True _ Un_upper1] before_right [of new2 _ _ "new1 @ [n]"] by fastforce
    qed
  next
    case False
    then have mW: "m \<in> insert n (set new1)" using m by auto
    then have "v \<in> insert n (set new1)" by (rule closed [OF _ mv])
    show ?thesis
    proof (cases "(m, n) \<in> (around g A)\<^sup>*")
      case True
      show ?thesis
      proof (cases "v = n")
        case False
        then have "before (new1 @ [n] @ new2) v n" using \<open>v \<in> insert n (set new1)\<close> by (intro before_append) auto
        then show ?thesis using True from_n [OF mW] by blast
      qed (use from_n [OF mW] in simp)
    next
      case no: False
      then have "m \<in> set new1" "(m, v) \<in> (around g (insert n A))\<^sup>*"
        using mW path_avoid [OF mv, of "{n}"] by auto
      then show ?thesis using finish_okD [OF assms(3) _ _ subset_insertI] before_left [of new1 _ _ "[n] @ new2"] by blast
    qed
  qed
qed

lemma dfs1_spec:
  assumes "finite N" and "edges g \<subseteq> N \<times> N"
  shows "set ns \<subseteq> N \<Longrightarrow> \<exists>seen' new. dfs1 g ns seen order = Some (seen', order @ new) \<and> set seen' = set seen \<union> set new \<and>
     set new = swept g ns (set seen) \<and> distinct new \<and> finish_ok g (set seen) new"
proof (induction "card (N - set seen)" arbitrary: ns seen order rule: less_induct)
  case less
  show ?case using less.prems
  proof (induction ns)
    case (Cons n rest)
    show ?case
    proof (cases "n \<in> set seen")
      case True
      then show ?thesis using Cons by (simp add: dfs1.simps [of g "n # rest"] swept_seen)
    next
      case False
      let ?W = "(around g (set seen))\<^sup>* `` {n}"
      have succ: "set (gm_get0 [] g n) \<subseteq> N" using assms(2) by (auto simp: edges_def)
      have "card (N - set (n # seen)) < card (N - set seen)"
        using assms(1) Cons.prems False by (intro psubset_card_mono) auto
      from less.hyps [OF this succ, of order] obtain seen1 new1 where
        1: "dfs1 g (gm_get0 [] g n) (n # seen) order = Some (seen1, order @ new1)" "set seen1 = set (n # seen) \<union> set new1"
          "set new1 = swept g (gm_get0 [] g n) (insert n (set seen))" "distinct new1" "finish_ok g (insert n (set seen)) new1"
        by auto
      have W: "insert n (set new1) = ?W" unfolding 1(3) by (rule swept_node [OF False, symmetric])
      have n1: "n \<notin> set new1" using swept_outside [of n] unfolding 1(3) by blast
      have "card (N - set seen1) < card (N - set seen)"
        using assms(1) Cons.prems False 1(2) by (intro psubset_card_mono) auto
      from less.hyps [OF this, of rest "order @ new1 @ [n]"] Cons.prems obtain seen2 new2 where
        2: "dfs1 g rest seen1 (order @ new1 @ [n]) = Some (seen2, (order @ new1 @ [n]) @ new2)" "set seen2 = set seen1 \<union> set new2"
          "set new2 = swept g rest (set seen1)" "distinct new2" "finish_ok g (set seen1) new2" by auto
      have seen1: "set seen1 = set seen \<union> insert n (set new1)" using 1(2) by auto
      have disj: "set new2 \<inter> insert n (set new1) = {}" using swept_outside [of _ g rest "set seen1"] 2(3) seen1 by auto
      have "dfs1 g (n # rest) seen order = Some (seen2, order @ (new1 @ [n] @ new2))"
        using 1(1) 2(1) False by (simp add: dfs1.simps [of g "n # rest"])
      moreover have "set seen2 = set seen \<union> set (new1 @ [n] @ new2)" using 2(2) seen1 by auto
      moreover have "set (new1 @ [n] @ new2) = swept g (n # rest) (set seen)"
        unfolding swept_Cons [OF False W] using 2(3) seen1 by auto
      moreover have "distinct (new1 @ [n] @ new2)" using 1(4) 2(4) n1 disj by auto
      moreover have "finish_ok g (set seen) (new1 @ [n] @ new2)"
        by (rule finish_ok_join [OF False W 1(5) 2(5) [unfolded seen1] disj n1])
      ultimately show ?thesis by blast
    qed
  qed (simp add: dfs1.simps finish_ok_def)
qed

section \<open>The second search\<close>

lemma dfs2_spec:
  assumes "finite N" and "edges g \<subseteq> N \<times> N"
  shows "set ns \<subseteq> N \<Longrightarrow> \<exists>seen' new. dfs2 g ns seen cmp = Some (seen', cmp @ new) \<and> set seen' = set seen \<union> set new \<and>
     set new = swept g ns (set seen) \<and> distinct new"
proof (induction "card (N - set seen)" arbitrary: ns seen cmp rule: less_induct)
  case less
  show ?case using less.prems
  proof (induction ns)
    case (Cons n rest)
    show ?case
    proof (cases "n \<in> set seen")
      case True
      then show ?thesis using Cons by (simp add: dfs2.simps [of g "n # rest"] swept_seen)
    next
      case False
      have succ: "set (gm_get0 [] g n) \<subseteq> N" using assms(2) by (auto simp: edges_def)
      have "card (N - set (n # seen)) < card (N - set seen)"
        using assms(1) Cons.prems False by (intro psubset_card_mono) auto
      from less.hyps [OF this succ, of "cmp @ [n]"] obtain seen1 new1 where
        1: "dfs2 g (gm_get0 [] g n) (n # seen) (cmp @ [n]) = Some (seen1, cmp @ n # new1)" "set seen1 = set (n # seen) \<union> set new1"
          "set new1 = swept g (gm_get0 [] g n) (insert n (set seen))" "distinct new1" by auto
      have n1: "n \<notin> set new1" using swept_outside [of n] unfolding 1(3) by blast
      have "card (N - set seen1) < card (N - set seen)"
        using assms(1) Cons.prems False 1(2) by (intro psubset_card_mono) auto
      from less.hyps [OF this, of rest "cmp @ n # new1"] Cons.prems obtain seen2 new2 where
        2: "dfs2 g rest seen1 (cmp @ n # new1) = Some (seen2, (cmp @ n # new1) @ new2)" "set seen2 = set seen1 \<union> set new2"
          "set new2 = swept g rest (set seen1)" "distinct new2" by auto
      have seen1: "set seen1 = set seen \<union> insert n (set new1)" using 1(2) by auto
      have "dfs2 g (n # rest) seen cmp = Some (seen2, cmp @ (n # new1 @ new2))"
        using 1(1) 2(1) False by (simp add: dfs2.simps [of g "n # rest"])
      moreover have "set (n # new1 @ new2) = swept g (n # rest) (set seen)"
        using swept_Cons [OF False refl, of g rest] swept_node [OF False, of g] 1(3) 2(3) seen1 by auto
      moreover have "distinct (n # new1 @ new2)"
        using 1(4) 2(3,4) n1 seen1 swept_outside [of _ g rest "set seen1"] by auto
      moreover have "set seen2 = set seen \<union> set (n # new1 @ new2)" using 2(2) seen1 by auto
      ultimately show ?thesis by blast
    qed
  qed (simp add: dfs2.simps)
qed

section \<open>The components\<close>

definition scc_class :: "Digraph \<Rightarrow> string \<Rightarrow> string set" where
  "scc_class g v = {w. (v, w) \<in> (edges g)\<^sup>* \<and> (w, v) \<in> (edges g)\<^sup>*}"

lemma scc_class_self [simp]: "v \<in> scc_class g v"
  by (simp add: scc_class_def)

lemma scc_class_eq: "w \<in> scc_class g v \<Longrightarrow> scc_class g w = scc_class g v"
  by (auto simp: scc_class_def intro: rtrancl_trans)

text \<open>A union of classes contains with every node its class.\<close>

definition saturated :: "Digraph \<Rightarrow> string set \<Rightarrow> bool" where
  "saturated g A \<longleftrightarrow> (\<forall>v \<in> A. scc_class g v \<subseteq> A)"

lemma saturated_class: "saturated g A \<Longrightarrow> v \<notin> A \<Longrightarrow> w \<in> scc_class g v \<Longrightarrow> w \<notin> A"
  unfolding saturated_def by (metis scc_class_eq scc_class_self subsetD)

lemma saturated_Un: "saturated g A \<Longrightarrow> saturated g (A \<union> scc_class g v)"
  unfolding saturated_def by (auto dest: scc_class_eq)

lemma swept_class:
  assumes rev: "edges r = (edges g)\<inverse>" and "saturated g A" and "n \<notin> A"
    and fin: "finish_ok g {} (pre @ n # post)" and "distinct (pre @ n # post)" and "set post \<subseteq> A"
    and all: "\<And>v. (v, n) \<in> (edges g)\<^sup>* \<Longrightarrow> v \<in> set (pre @ n # post)"
  shows "swept r [n] A = scc_class g n"
proof
  show "swept r [n] A \<subseteq> scc_class g n"
  proof
    fix v assume v: "v \<in> swept r [n] A"
    then have "(n, v) \<in> (edges r)\<^sup>*" using around_mono [of "{}" A n v r] by (auto simp: swept_def)
    then have vn: "(v, n) \<in> (edges g)\<^sup>*" unfolding rev by (simp add: rtrancl_converse)
    have "\<not> ((v, m) \<in> (edges g)\<^sup>* \<and> (m, v) \<in> (edges g)\<^sup>* \<and> before (pre @ n # post) n m)" for m
    proof
      assume m: "(v, m) \<in> (edges g)\<^sup>* \<and> (m, v) \<in> (edges g)\<^sup>* \<and> before (pre @ n # post) n m"
      then have "m \<in> A" using before_last [OF _ assms(5)] assms(6) by blast
      then show False using saturated_class [OF assms(2) swept_outside [OF v], of m] m by (simp add: scc_class_def)
    qed
    then have "(n, v) \<in> (edges g)\<^sup>*" using fin all [OF vn] vn unfolding finish_ok_def by auto
    then show "v \<in> scc_class g n" using vn by (simp add: scc_class_def)
  qed
  show "scc_class g n \<subseteq> swept r [n] A"
  proof
    fix v assume "v \<in> scc_class g n"
    then have "(v, n) \<in> (edges g)\<^sup>*" "(n, v) \<in> (edges g)\<^sup>*" by (auto simp: scc_class_def)
    then have "(n, v) \<in> (around r A)\<^sup>*"
    proof (induction rule: converse_rtrancl_induct)
      case (step x y)
      have y: "(n, y) \<in> (edges g)\<^sup>*" using step(1,4) by (rule rtrancl.rtrancl_into_rtrancl [rotated])
      have "x \<in> scc_class g n" "y \<in> scc_class g n"
        using step y by (auto simp: scc_class_def intro: converse_rtrancl_into_rtrancl)
      then have "(y, x) \<in> around r A"
        using step(1) saturated_class [OF assms(2,3)] rev by (auto simp: around_def)
      then show ?case using step.IH [OF y] by (rule rtrancl.rtrancl_into_rtrancl [rotated])
    qed simp
    then show "v \<in> swept r [n] A" using assms(3) by (simp add: swept_def)
  qed
qed

text \<open>What the loop has collected: the classes of the nodes seen, each once and sorted.\<close>

definition comps_ok :: "Digraph \<Rightarrow> string set \<Rightarrow> string list list \<Rightarrow> bool" where
  "comps_ok g A comps \<longleftrightarrow> distinct (map set comps) \<and> (\<forall>c \<in> set comps. sorted c \<and> distinct c) \<and>
     set ` set comps = scc_class g ` A"

lemma comps_ok_snoc:
  assumes "comps_ok g A comps" and "saturated g A" and "n \<notin> A" and "set c = scc_class g n" and "sorted c" and "distinct c"
  shows "comps_ok g (A \<union> scc_class g n) (comps @ [c])"
proof -
  have "scc_class g n \<notin> scc_class g ` A"
    using saturated_class [OF assms(2,3)] assms(3) by (metis imageE scc_class_self)
  moreover have "scc_class g ` scc_class g n = {scc_class g n}" by (auto dest: scc_class_eq)
  ultimately show ?thesis using assms unfolding comps_ok_def by (auto simp: image_Un)
qed

lemma scc_loop_spec:
  assumes rev: "edges r = (edges g)\<inverse>" and "finite N" and "edges g \<subseteq> N \<times> N"
    and "finish_ok g {} order" and "distinct order" and "set order = N"
  shows "order = rev ns @ post \<Longrightarrow> set post \<subseteq> set seen \<Longrightarrow> set seen \<subseteq> N \<Longrightarrow> saturated g (set seen) \<Longrightarrow>
    comps_ok g (set seen) comps \<Longrightarrow> \<exists>cs. scc_loop r seen comps ns = Some cs \<and> comps_ok g N cs"
proof (induction ns arbitrary: post seen comps)
  case Nil
  then have "set seen = N" using assms(6) by auto
  then show ?case using Nil by simp
next
  case (Cons n ns)
  show ?case
  proof (cases "n \<in> set seen")
    case True
    then show ?thesis using Cons.IH [of "n # post" seen comps] Cons.prems by simp
  next
    case False
    have n: "n \<in> N" using Cons.prems(1) assms(6) by auto
    have into: "v \<in> N" if "(v, n) \<in> (edges g)\<^sup>*" for v
      using that n assms(3) by (induction rule: converse_rtrancl_induct) auto
    have "edges r \<subseteq> N \<times> N" using rev assms(3) by auto
    from dfs2_spec [OF assms(2) this, of "[n]" seen "[]"] n obtain seen' c where
      c: "dfs2 r [n] seen [] = Some (seen', c)" "set seen' = set seen \<union> set c" "set c = swept r [n] (set seen)" "distinct c"
      by auto
    have cls: "set c = scc_class g n"
      unfolding c(3)
      by (rule swept_class [of r g _ n "rev ns" post])
        (use rev False Cons.prems assms(4-6) into in auto)
    have "set seen' \<subseteq> N" using c(2) cls Cons.prems(3) into by (auto simp: scc_class_def)
    moreover have "saturated g (set seen')" unfolding c(2) cls by (rule saturated_Un [OF Cons.prems(4)])
    moreover have "comps_ok g (set seen') (comps @ [sort c])"
      unfolding c(2) cls by (rule comps_ok_snoc [OF Cons.prems(5,4) False]) (use cls c(4) in auto)
    moreover have "set (n # post) \<subseteq> set seen'" using Cons.prems(2) c(2) cls by auto
    ultimately show ?thesis using Cons.IH [of "n # post" seen' "comps @ [sort c]"] Cons.prems(1) c(1) False by simp
  qed
qed

section \<open>Nodes and the reversed graph\<close>

lemma set_allNodes: "is_order ordg \<Longrightarrow> set (allNodes ordg g) = graph_nodes g \<and> distinct (allNodes ordg g)"
proof -
  assume ord: "is_order ordg"
  let ?outs = "\<lambda>nodes outs. foldl (\<lambda>nodes dst. List.insert dst nodes) nodes outs"
  have outs: "set (?outs nodes outs) = set nodes \<union> set outs \<and> (distinct nodes \<longrightarrow> distinct (?outs nodes outs))" for nodes outs
    by (induction outs arbitrary: nodes) auto
  have "set (foldl (\<lambda>nodes (src, outs). ?outs (List.insert src nodes) outs) nodes es) =
      set nodes \<union> fst ` set es \<union> graph_targets es \<and>
      (distinct nodes \<longrightarrow> distinct (foldl (\<lambda>nodes (src, outs). ?outs (List.insert src nodes) outs) nodes es))" for nodes es
  proof (induction es arbitrary: nodes)
    case (Cons e es)
    obtain src os where e: "e = (src, os)" by (cases e)
    show ?case using Cons.IH [of "?outs (List.insert src nodes) os"] outs [of "List.insert src nodes" os] e
      by (auto simp: graph_targets_def)
  qed (simp add: graph_targets_def)
  from this [of "[]" "ordg g"] show ?thesis
    by (simp add: allNodes_def graph_nodes_def graph_targets_def is_order_set [OF ord])
qed

lemma reverse_outs_set:
  "set (gm_get0 [] (reverse_outs src r outs) v) = set (gm_get0 [] r v) \<union> (if v \<in> set outs then {src} else {})"
  unfolding reverse_outs_def by (induction outs arbitrary: r) (auto simp: gm_get0_set)

lemma edges_reverse:
  assumes "gm_ok g" and "is_order ordr"
  shows "edges (reverse_graph ordr g) = (edges g)\<inverse>"
proof -
  let ?step = "\<lambda>r (src, outs). reverse_outs src (if gm_get r src = None then gm_set r src [] else r) outs"
  have "set (gm_get0 [] (foldl ?step r es) v) = set (gm_get0 [] r v) \<union> {u. \<exists>outs. (u, outs) \<in> set es \<and> v \<in> set outs}" for r es v
  proof (induction es arbitrary: r)
    case (Cons e es)
    obtain src outs where e: "e = (src, outs)" by (cases e)
    have "gm_get0 [] (if gm_get r src = None then gm_set r src [] else r) v = gm_get0 [] r v" for v
      by (simp add: gm_get0_def)
    then show ?case using Cons.IH e by (auto simp: reverse_outs_set)
  qed simp
  from this [of "[]" "ordr g"] have "u \<in> set (gm_get0 [] (reverse_graph ordr g) v) \<longleftrightarrow> (\<exists>outs. gm_get g u = Some outs \<and> v \<in> set outs)" for u v
    by (simp add: reverse_graph_def is_order_set [OF assms(2)] gm_get_in [OF assms(1)] gm_get0_def)
  moreover have "v \<in> set (gm_get0 [] g u) \<longleftrightarrow> (\<exists>outs. gm_get g u = Some outs \<and> v \<in> set outs)" for u v
    by (cases "gm_get g u") (simp_all add: gm_get0_def)
  ultimately show ?thesis by (auto simp: edges_def)
qed

interpretation comp_order: weak_order_on comp_less "\<lambda>_. True"
  by unfold_locales (auto simp: comp_less_def split: if_splits)

section \<open>Properties\<close>

lemma comps_sorted: "[] \<notin> set comps \<Longrightarrow> sorted (map hd (sort_by comp_less comps))"
proof -
  assume ne: "[] \<notin> set comps"
  have "sorted_wrt (\<lambda>a b. \<not> comp_less b a) (sort_by comp_less comps)"
    by (rule comp_order.sorted_sort_by) (simp add: list_all_iff)
  then have "sorted_wrt (\<lambda>a b. hd a \<le> hd b) (sort_by comp_less comps)"
    by (rule sorted_wrt_mono_rel [rotated]) (use ne in \<open>auto simp: comp_less_def split: if_splits\<close>)
  then show ?thesis by (simp add: sorted_map)
qed

text \<open>
  C10: \<^verbatim>\<open>SCC\<close> returns for every graph, in whatever order the maps are ranged over, and what it returns are the
  classes of mutual reachability of the nodes: each class once, as the sorted list of its nodes, in the
  order of their first nodes.
\<close>

theorem scc_are_the_classes:
  assumes "gm_ok g" and "is_order ordg" and "is_order ordr" and "is_order ordn"
  shows "\<exists>comps. SCC ordg ordr ordn g = Some comps \<and> set ` set comps = scc_class g ` graph_nodes g \<and> distinct (map set comps) \<and>
    (\<forall>c \<in> set comps. sorted c \<and> distinct c) \<and> sorted (map hd comps)"
proof -
  let ?N = "graph_nodes g"
  have sub: "edges g \<subseteq> ?N \<times> ?N" using edges_nodes by auto
  have nodes: "set (ordn (allNodes ordg g)) = ?N" using set_allNodes [OF assms(2)] is_order_set [OF assms(4)] by auto
  obtain seen order where 1: "dfs1 g (ordn (allNodes ordg g)) [] [] = Some (seen, order)"
      "set order = swept g (ordn (allNodes ordg g)) {}" "distinct order" "finish_ok g {} order"
    using dfs1_spec [OF finite_graph_nodes sub, of "ordn (allNodes ordg g)" "[]" "[]"] nodes by auto
  have "v \<in> ?N" if "(n, v) \<in> (edges g)\<^sup>*" "n \<in> ?N" for n v
    using that sub by (induction rule: rtrancl_induct) auto
  then have order: "set order = ?N" unfolding 1(2) swept_def using nodes by auto
  obtain cs where cs: "scc_loop (reverse_graph ordr g) [] [] (rev order) = Some cs" "comps_ok g ?N cs"
    using scc_loop_spec [OF edges_reverse [OF assms(1,3)] finite_graph_nodes sub 1(4,3) order, of "rev order" "[]" "[]" "[]"]
    by (auto simp: saturated_def comps_ok_def)
  have "{} \<notin> set ` set cs" using cs(2) scc_class_self unfolding comps_ok_def by fastforce
  then have "[] \<notin> set cs" by force
  moreover have "distinct (map set (sort_by comp_less cs))"
    using cs(2) mset_eq_imp_distinct_iff [of "map set (sort_by comp_less cs)" "map set cs"] by (simp add: comps_ok_def)
  ultimately show ?thesis
    using 1(1) cs comps_sorted [of cs] by (auto simp: SCC_def comps_ok_def)
qed

declare dfs1.simps [code] dfs2.simps [code]

theorem scc_are_the_classes_witness:
  "SCC rev rev rev [(''a'', [''b'']), (''b'', [''a'', ''c'']), (''c'', [''d''])] = Some [[''a'', ''b''], [''c''], [''d'']] \<and>
   {{''a'', ''b''}, {''c''}, {''d''}} =
     scc_class [(''a'', [''b'']), (''b'', [''a'', ''c'']), (''c'', [''d''])] `
       graph_nodes [(''a'', [''b'']), (''b'', [''a'', ''c'']), (''c'', [''d''])]"
proof -
  have "SCC rev rev rev [(''a'', [''b'']), (''b'', [''a'', ''c'']), (''c'', [''d''])] = Some [[''a'', ''b''], [''c''], [''d'']]"
    by code_simp
  then show ?thesis
    using scc_are_the_classes [of "[(''a'', [''b'']), (''b'', [''a'', ''c'']), (''c'', [''d''])]" rev rev rev]
    by (simp add: gm_ok_def)
qed

end
