(* ===== verification/Relay_Valkey.thy ===== *)
theory Relay_Valkey
  imports Relay_Store Relay_Policy
begin

text \<open>
  The state store on a Valkey server, \<^verbatim>\<open>state/valkey/valkey.go\<close>, and the policy store on one,
  \<^verbatim>\<open>relay/policy_store_valkey.go\<close>. The server and its client are the parameter \<open>Kv\<close>: what a read command
  returns in a state of the database, and what a write command makes of it. The text encodings of
  requests, events, checkpoints, times and floating point numbers are the parameter \<open>Codec\<close>.

  A call meets the network through \<open>Net\<close>: before its \<open>i\<close>-th command other clients (and expiry) may have changed the
  database by \<open>nt_env net i\<close>, the command may fail with \<open>nt_fault net i\<close>, and a write that fails may have been
  executed all the same (\<open>nt_applied\<close>). An optimistic transaction is one function per attempt; its \<^verbatim>\<open>EXEC\<close> goes
  through when \<open>nt_commit\<close> holds. \<open>watch_loop\<close> repeats attempts, one \<open>Net\<close> for each, and is \<open>None\<close> when they are
  used up.
\<close>

section \<open>The server and its client\<close>

datatype kv_cmd =
    SET string string duration
  | HSET string "(string, string) gomap"
  | ZADD string f64 string
  | ZREM string "string list"
  | EXPIRE string duration
  | RPUSH string string
  | LTRIM string int int
  | DEL string

text \<open>
  \<^verbatim>\<open>GET\<close>, \<^verbatim>\<open>HGETALL\<close>, \<^verbatim>\<open>ZREVRANGE\<close>, \<^verbatim>\<open>ZRANGEBYSCORE -inf max LIMIT 0 n\<close>, \<^verbatim>\<open>LRANGE\<close>, and \<^verbatim>\<open>ZSCORE\<close> and
  \<^verbatim>\<open>TYPE\<close> (which the code does not use, but by which the others are described).
\<close>

record 'd Kv =
  kv_get :: "string \<Rightarrow> 'd \<Rightarrow> string option"
  kv_hgetall :: "string \<Rightarrow> 'd \<Rightarrow> (string, string) gomap"
  kv_zrevrange :: "string \<Rightarrow> int \<Rightarrow> int \<Rightarrow> 'd \<Rightarrow> string list"
  kv_zrangebyscore :: "string \<Rightarrow> f64 \<Rightarrow> int \<Rightarrow> 'd \<Rightarrow> string list"
  kv_lrange :: "string \<Rightarrow> int \<Rightarrow> int \<Rightarrow> 'd \<Rightarrow> string list"
  kv_zscore :: "string \<Rightarrow> string \<Rightarrow> 'd \<Rightarrow> f64 option"
  kv_type :: "string \<Rightarrow> 'd \<Rightarrow> string option"
  kv_exec :: "kv_cmd \<Rightarrow> 'd \<Rightarrow> 'd"

record 'd Net =
  nt_env :: "nat \<Rightarrow> 'd \<Rightarrow> 'd"
  nt_fault :: "nat \<Rightarrow> string option"
  nt_applied :: "nat \<Rightarrow> bool"
  nt_commit :: bool
  nt_clk :: "nat \<Rightarrow> gtime"

datatype vk_error = VkStore store_error | VkIO string

definition run_cmds :: "'d Kv \<Rightarrow> kv_cmd list \<Rightarrow> 'd \<Rightarrow> 'd" where
  "run_cmds kv cmds d = foldl (\<lambda>d c. kv_exec kv c d) d cmds"

definition kv_read :: "'d Net \<Rightarrow> nat \<Rightarrow> ('d \<Rightarrow> 'r) \<Rightarrow> 'd \<Rightarrow> (string + 'r) \<times> 'd" where
  "kv_read net i f d =
     (let d' = nt_env net i d in (case nt_fault net i of Some e \<Rightarrow> Inl e | None \<Rightarrow> Inr (f d'), d'))"

definition kv_script :: "'d Net \<Rightarrow> nat \<Rightarrow> ('d \<Rightarrow> (string + 'r) \<times> 'd) \<Rightarrow> 'd \<Rightarrow> (string + 'r) \<times> 'd" where
  "kv_script net i f d =
     (let d' = nt_env net i d in
      case nt_fault net i of
        Some e \<Rightarrow> (Inl e, if nt_applied net i then snd (f d') else d')
      | None \<Rightarrow> f d')"

definition kv_write :: "'d Kv \<Rightarrow> 'd Net \<Rightarrow> nat \<Rightarrow> kv_cmd \<Rightarrow> 'd \<Rightarrow> string option \<times> 'd" where
  "kv_write kv net i c d =
     (case kv_script net i (\<lambda>d. (Inr (), kv_exec kv c d)) d of
        (Inl e, d) \<Rightarrow> (Some e, d) | (Inr _, d) \<Rightarrow> (None, d))"

datatype ('e, 'r) tx_outcome = TxFailed | TxErr 'e | TxDone 'r

text \<open>\<^verbatim>\<open>TxPipelined\<close>: the queued commands run as one block, unless a watched key was changed.\<close>

definition tx_exec ::
  "'d Kv \<Rightarrow> 'd Net \<Rightarrow> nat \<Rightarrow> kv_cmd list \<Rightarrow> (string \<Rightarrow> 'e) \<Rightarrow> 'r \<Rightarrow> 'd \<Rightarrow> ('e, 'r) tx_outcome \<times> 'd" where
  "tx_exec kv net i cmds err r d =
     (let d' = nt_env net i d in
      case nt_fault net i of
        Some e \<Rightarrow> (TxErr (err e), if nt_applied net i \<and> nt_commit net then run_cmds kv cmds d' else d')
      | None \<Rightarrow> if nt_commit net then (TxDone r, run_cmds kv cmds d') else (TxFailed, d'))"

fun watch_loop ::
  "('d Net \<Rightarrow> 'd \<Rightarrow> ('e, 'r) tx_outcome \<times> 'd) \<Rightarrow> 'd Net list \<Rightarrow> 'd \<Rightarrow> ('e + 'r) option \<times> 'd" where
  "watch_loop attempt [] d = (None, d)"
| "watch_loop attempt (net # nets) d =
     (case attempt net d of
        (TxFailed, d) \<Rightarrow> watch_loop attempt nets d
      | (TxErr e, d) \<Rightarrow> (Some (Inl e), d)
      | (TxDone r, d) \<Rightarrow> (Some (Inr r), d))"

section \<open>Encodings\<close>

record Codec =
  vc_fmtTime :: "gtime \<Rightarrow> string"
  vc_parseTime :: "string \<Rightarrow> gtime"
  vc_fmtFloat :: "f64 \<Rightarrow> string"
  vc_parseFloat :: "string \<Rightarrow> f64"
  vc_marshalRequest :: "BundleRequest \<Rightarrow> string"
  vc_unmarshalRequest :: "string \<Rightarrow> string + BundleRequest"
  vc_marshalEvent :: "EventRecord \<Rightarrow> string + string"
  vc_unmarshalEvent :: "string \<Rightarrow> string + EventRecord"
  vc_marshalCheckpoint :: "CheckpointRecord \<Rightarrow> string + string"
  vc_unmarshalCheckpoint :: "string \<Rightarrow> string + CheckpointRecord"
  vc_marshalPolicy :: "PolicySnapshot \<Rightarrow> string + string"
  vc_unmarshalPolicy :: "string \<Rightarrow> string + PolicySnapshot"

text \<open>The loop of \<^verbatim>\<open>strconv.ParseUint\<close>: 0 on a character that is no digit, the largest value on overflow.\<close>

fun uint_loop :: "nat \<Rightarrow> string \<Rightarrow> nat" where
  "uint_loop n [] = n"
| "uint_loop n (c # cs) =
     (case digit_val c of
        None \<Rightarrow> 0
      | Some d \<Rightarrow> if 10 \<le> d then 0
                  else if 2 ^ 64 \<le> n * 10 + d then 2 ^ 64 - 1
                  else uint_loop (n * 10 + d) cs)"

definition mustUint64 :: "string \<Rightarrow> u64" where
  "mustUint64 v = of_nat (uint_loop 0 v)"

definition mustInt64 :: "string \<Rightarrow> int" where
  "mustInt64 v =
     (case v of
        [] \<Rightarrow> 0
      | c # cs \<Rightarrow>
          if c = CHR ''-'' then (let n = int (uint_loop 0 cs) in if n > 2 ^ 63 then min_int64 else - n)
          else let n = int (uint_loop 0 (if c = CHR ''+'' then cs else v)) in if n \<ge> 2 ^ 63 then max_int64 else n)"

definition mustInt :: "string \<Rightarrow> int" where
  "mustInt v = mustInt64 v"

definition mustTime :: "Codec \<Rightarrow> string \<Rightarrow> gtime" where
  "mustTime cd v = (if v = [] then 0 else vc_parseTime cd v)"

definition all_states :: "BundleState list" where
  "all_states = [StateReceived, StateValidated, StateQueued, StateSimulating, StateSimulated, StateScored,
     StateRetryPending, StateDeadLetter, StateForwarded, StateRejected, StatePersisted, StateCompleted]"

definition state_of_string :: "string \<Rightarrow> BundleState option" where
  "state_of_string v = map_of (map (\<lambda>s. (state_string s, s)) all_states) v"

definition recordToMap :: "Codec \<Rightarrow> BundleRecord \<Rightarrow> (string, string) gomap" where
  "recordToMap cd rec =
     [(''id'', bd_ID rec),
      (''bundle_hash'', bd_BundleHash rec),
      (''request'', vc_marshalRequest cd (bd_Request rec)),
      (''client_id'', bd_ClientID rec),
      (''region_id'', bd_RegionID rec),
      (''shard_id'', bd_ShardID rec),
      (''lease_id'', bd_LeaseID rec),
      (''lease_epoch'', show_nat 10 (unat (bd_LeaseEpoch rec))),
      (''fence_token'', show_nat 10 (unat (bd_FenceToken rec))),
      (''state'', state_string (bd_State rec)),
      (''retry_count'', show_int 10 (bd_RetryCount rec)),
      (''score'', vc_fmtFloat cd (bd_Score rec)),
      (''profit_eth'', vc_fmtFloat cd (bd_ProfitEth rec)),
      (''reason'', bd_Reason rec),
      (''terminal'', bd_Terminal rec),
      (''version'', show_int 10 (bd_Version rec)),
      (''sequence'', show_nat 10 (unat (bd_Sequence rec))),
      (''created_at'', vc_fmtTime cd (bd_CreatedAt rec)),
      (''updated_at'', vc_fmtTime cd (bd_UpdatedAt rec)),
      (''queued_at'', vc_fmtTime cd (bd_QueuedAt rec)),
      (''completed_at'', vc_fmtTime cd (bd_CompletedAt rec)),
      (''deadline_at'', vc_fmtTime cd (bd_DeadlineAt rec)),
      (''expected_value'', vc_fmtFloat cd (bd_ExpectedValue rec)),
      (''expected_cost'', vc_fmtFloat cd (bd_ExpectedCost rec)),
      (''expected_service_ms'', show_int 10 (bd_ExpectedServiceMS rec)),
      (''priority'', vc_fmtFloat cd (bd_Priority rec))]"

text \<open>
  \<open>Inr None\<close> for the empty map. A state that is not one of the constants, which the program never writes, has
  no counterpart in \<open>BundleState\<close> and counts as an error here.
\<close>

definition mapToRecord :: "Codec \<Rightarrow> (string, string) gomap \<Rightarrow> string + BundleRecord option" where
  "mapToRecord cd m =
     (if m = [] then Inr None
      else case state_of_string (gm_get0 [] m ''state'') of
        None \<Rightarrow> Inl ''state''
      | Some st \<Rightarrow>
        (let rec = \<lparr>
           bd_ID = gm_get0 [] m ''id'',
           bd_BundleHash = gm_get0 [] m ''bundle_hash'',
           bd_Request = zero_request,
           bd_ClientID = gm_get0 [] m ''client_id'',
           bd_RegionID = gm_get0 [] m ''region_id'',
           bd_ShardID = gm_get0 [] m ''shard_id'',
           bd_LeaseID = gm_get0 [] m ''lease_id'',
           bd_LeaseEpoch = mustUint64 (gm_get0 [] m ''lease_epoch''),
           bd_FenceToken = mustUint64 (gm_get0 [] m ''fence_token''),
           bd_State = st,
           bd_RetryCount = mustInt (gm_get0 [] m ''retry_count''),
           bd_Score = vc_parseFloat cd (gm_get0 [] m ''score''),
           bd_ProfitEth = vc_parseFloat cd (gm_get0 [] m ''profit_eth''),
           bd_Reason = gm_get0 [] m ''reason'',
           bd_Terminal = gm_get0 [] m ''terminal'',
           bd_Version = mustInt64 (gm_get0 [] m ''version''),
           bd_Sequence = of_int (mustInt64 (gm_get0 [] m ''sequence'')),
           bd_CreatedAt = mustTime cd (gm_get0 [] m ''created_at''),
           bd_UpdatedAt = mustTime cd (gm_get0 [] m ''updated_at''),
           bd_QueuedAt = mustTime cd (gm_get0 [] m ''queued_at''),
           bd_CompletedAt = mustTime cd (gm_get0 [] m ''completed_at''),
           bd_DeadlineAt = mustTime cd (gm_get0 [] m ''deadline_at''),
           bd_ExpectedValue = vc_parseFloat cd (gm_get0 [] m ''expected_value''),
           bd_ExpectedCost = vc_parseFloat cd (gm_get0 [] m ''expected_cost''),
           bd_ExpectedServiceMS = mustInt64 (gm_get0 [] m ''expected_service_ms''),
           bd_Priority = vc_parseFloat cd (gm_get0 [] m ''priority'') \<rparr>
         in if gm_get0 [] m ''request'' \<noteq> []
            then (case vc_unmarshalRequest cd (gm_get0 [] m ''request'') of
                    Inl e \<Rightarrow> Inl e
                  | Inr req \<Rightarrow> Inr (Some (rec\<lparr> bd_Request := req \<rparr>)))
            else Inr (Some rec)))"

definition authorityToMap :: "Codec \<Rightarrow> Authority \<Rightarrow> (string, string) gomap" where
  "authorityToMap cd auth =
     [(''shard_id'', au_ShardID auth),
      (''lease_id'', au_LeaseID auth),
      (''epoch'', show_nat 10 (unat (au_Epoch auth))),
      (''fence_token'', show_nat 10 (unat (au_FenceToken auth))),
      (''issued_at'', vc_fmtTime cd (au_IssuedAt auth)),
      (''expires_at'', vc_fmtTime cd (au_ExpiresAt auth))]"

definition authorityFromMap :: "Codec \<Rightarrow> (string, string) gomap \<Rightarrow> Authority option" where
  "authorityFromMap cd m =
     (if m = [] then None
      else Some \<lparr> au_ShardID = gm_get0 [] m ''shard_id'', au_LeaseID = gm_get0 [] m ''lease_id'',
        au_Epoch = mustUint64 (gm_get0 [] m ''epoch''), au_FenceToken = mustUint64 (gm_get0 [] m ''fence_token''),
        au_IssuedAt = mustTime cd (gm_get0 [] m ''issued_at''), au_ExpiresAt = mustTime cd (gm_get0 [] m ''expires_at'') \<rparr>)"

definition validateAuthority :: "gtime \<Rightarrow> BundleRecord \<Rightarrow> Authority \<Rightarrow> store_error option" where
  "validateAuthority now rec auth =
     (if bd_ShardID rec = [] then None
      else if \<not> Valid now auth now then Some ErrStaleAuthority
      else if au_ShardID auth \<noteq> bd_ShardID rec then Some ErrStaleAuthority
      else if bd_LeaseID rec \<noteq> [] \<and> bd_LeaseID rec \<noteq> au_LeaseID auth then Some ErrStaleAuthority
      else if bd_LeaseEpoch rec \<noteq> 0 \<and> bd_LeaseEpoch rec \<noteq> au_Epoch auth then Some ErrStaleAuthority
      else if bd_FenceToken rec \<noteq> 0 \<and> bd_FenceToken rec \<noteq> au_FenceToken auth then Some ErrStaleAuthority
      else None)"

text \<open>\<^verbatim>\<open>t.UTC().UnixNano()\<close>, whose result wraps outside the years 1678 to 2262.\<close>

definition UnixNano :: "gtime \<Rightarrow> int" where
  "UnixNano t = wrap64 (t - time_unix 0)"

section \<open>The store\<close>

record ValkeyStore =
  vs_prefix :: string
  vs_shardID :: string
  vs_retention :: duration
  vs_history :: int

definition New_ValkeyStore :: "(string \<Rightarrow> string option) \<Rightarrow> string \<Rightarrow> duration \<Rightarrow> int \<Rightarrow> string \<Rightarrow> string + ValkeyStore" where
  "New_ValkeyStore parseURL url retention history shardID =
     (case parseURL url of
        Some err \<Rightarrow> Inl err
      | None \<Rightarrow> Inr \<lparr> vs_prefix = ''mev:v3'', vs_shardID = shardID,
          vs_retention = (if retention \<le> 0 then 24 * 3600 * second else retention),
          vs_history = (if history \<le> 0 then 256 else history) \<rparr>)"

definition vk_key :: "ValkeyStore \<Rightarrow> string list \<Rightarrow> string" where
  "vk_key st parts = vs_prefix st @ '':'' @ Join parts '':''"

definition authorityKey :: "ValkeyStore \<Rightarrow> string \<Rightarrow> string" where
  "authorityKey st shardID = vk_key st [''authority'', if shardID = [] then vs_shardID st else shardID]"

fun touch_loop :: "'d Kv \<Rightarrow> ValkeyStore \<Rightarrow> 'd Net \<Rightarrow> nat \<Rightarrow> string list \<Rightarrow> 'd \<Rightarrow> string option \<times> 'd" where
  "touch_loop kv st net i [] d = (None, d)"
| "touch_loop kv st net i (k # ks) d =
     (case kv_write kv net i (EXPIRE k (vs_retention st)) d of
        (Some e, d) \<Rightarrow> (Some e, d)
      | (None, d) \<Rightarrow> touch_loop kv st net (i + 1) ks d)"

definition touch :: "'d Kv \<Rightarrow> ValkeyStore \<Rightarrow> 'd Net \<Rightarrow> nat \<Rightarrow> string list \<Rightarrow> 'd \<Rightarrow> string option \<times> 'd" where
  "touch kv st net i ks d = (if vs_retention st \<le> 0 then (None, d) else touch_loop kv st net i ks d)"

subsection \<open>Bundles\<close>

definition vk_GetBundle ::
  "Codec \<Rightarrow> 'd Kv \<Rightarrow> ValkeyStore \<Rightarrow> 'd Net \<Rightarrow> nat \<Rightarrow> string \<Rightarrow> 'd \<Rightarrow> (string + BundleRecord option) \<times> 'd" where
  "vk_GetBundle cd kv st net i bid d =
     (case kv_read net i (kv_hgetall kv (vk_key st [''bundle'', bid])) d of
        (Inl e, d) \<Rightarrow> (Inl e, d)
      | (Inr m, d) \<Rightarrow> if m = [] then (Inr None, d) else (mapToRecord cd m, d))"

definition create_cmds :: "Codec \<Rightarrow> ValkeyStore \<Rightarrow> BundleRecord \<Rightarrow> kv_cmd list" where
  "create_cmds cd st rec =
     (let hashKey = vk_key st [''hash'', bd_BundleHash rec];
          bundleKey = vk_key st [''bundle'', bd_ID rec];
          bundlesKey = vk_key st [''bundles''] in
      [SET hashKey (bd_ID rec) (vs_retention st),
       HSET bundleKey (recordToMap cd rec),
       ZADD bundlesKey (f_of_int (UnixNano (bd_CreatedAt rec))) (bd_ID rec),
       EXPIRE bundleKey (vs_retention st),
       EXPIRE bundlesKey (vs_retention st),
       EXPIRE hashKey (vs_retention st)])"

text \<open>
  One attempt of \<^verbatim>\<open>CreateBundle\<close>: \<^verbatim>\<open>WATCH\<close> is command 0, \<^verbatim>\<open>GET\<close> 1, \<^verbatim>\<open>HGETALL\<close> 2 (only with a shard), then \<^verbatim>\<open>EXEC\<close>; the record an existing
  bundle is answered with is read by command 2. An error of command 1 is not looked at.
\<close>

definition duplicate_of ::
  "Codec \<Rightarrow> 'd Kv \<Rightarrow> ValkeyStore \<Rightarrow> 'd Net \<Rightarrow> string \<Rightarrow> 'd \<Rightarrow> (vk_error \<times> BundleRecord, BundleRecord) tx_outcome \<times> 'd" where
  "duplicate_of cd kv st net existing d =
     (case vk_GetBundle cd kv st net 2 existing d of
        (Inr (Some r), d) \<Rightarrow> (TxErr (VkStore ErrDuplicateBundle, r), d)
      | (_, d) \<Rightarrow> (TxErr (VkStore ErrDuplicateBundle, zero_bundle), d))"

definition create_checked ::
  "Codec \<Rightarrow> 'd Kv \<Rightarrow> ValkeyStore \<Rightarrow> BundleRecord \<Rightarrow> 'd Net \<Rightarrow> 'd \<Rightarrow> (vk_error \<times> BundleRecord, BundleRecord) tx_outcome \<times> 'd" where
  "create_checked cd kv st rec net d =
     (let commit = (\<lambda>i. tx_exec kv net i (create_cmds cd st rec) (\<lambda>e. (VkIO e, zero_bundle)) rec) in
      if bd_ShardID rec = [] then commit 2 d
      else case kv_read net 2 (kv_hgetall kv (authorityKey st (bd_ShardID rec))) d of
             (Inl e, d) \<Rightarrow> (TxErr (VkIO e, zero_bundle), d)
           | (Inr m, d) \<Rightarrow>
               (case authorityFromMap cd m of
                  None \<Rightarrow> (TxErr (VkStore ErrStaleAuthority, zero_bundle), d)
                | Some auth \<Rightarrow>
                    if validateAuthority (nt_clk net 0) rec auth \<noteq> None
                    then (TxErr (VkStore ErrStaleAuthority, zero_bundle), d)
                    else commit 3 d))"

definition vk_create_tx ::
  "Codec \<Rightarrow> 'd Kv \<Rightarrow> ValkeyStore \<Rightarrow> BundleRecord \<Rightarrow> 'd Net \<Rightarrow> 'd \<Rightarrow> (vk_error \<times> BundleRecord, BundleRecord) tx_outcome \<times> 'd" where
  "vk_create_tx cd kv st rec net d =
     (case kv_read net 0 (\<lambda>_. ()) d of
        (Inl e, d) \<Rightarrow> (TxErr (VkIO e, zero_bundle), d)
      | (Inr _, d) \<Rightarrow>
          (case kv_read net 1 (kv_get kv (vk_key st [''hash'', bd_BundleHash rec])) d of
             (Inr (Some existing), d) \<Rightarrow>
               if existing \<noteq> [] then duplicate_of cd kv st net existing d
               else create_checked cd kv st rec net d
           | (_, d) \<Rightarrow> create_checked cd kv st rec net d))"

definition vk_CreateBundle ::
  "Codec \<Rightarrow> 'd Kv \<Rightarrow> ValkeyStore \<Rightarrow> BundleRecord \<Rightarrow> 'd Net list \<Rightarrow> 'd \<Rightarrow> ((vk_error \<times> BundleRecord) + BundleRecord) option \<times> 'd" where
  "vk_CreateBundle cd kv st rec nets d = watch_loop (vk_create_tx cd kv st rec) nets d"

definition currentAuthorityTx ::
  "Codec \<Rightarrow> 'd Kv \<Rightarrow> ValkeyStore \<Rightarrow> 'd Net \<Rightarrow> nat \<Rightarrow> string \<Rightarrow> 'd \<Rightarrow> (string + Authority option) \<times> 'd" where
  "currentAuthorityTx cd kv st net i shardID d =
     (case kv_read net i (kv_hgetall kv (vk_key st [''authority'', shardID])) d of
        (Inl e, d) \<Rightarrow> (Inl e, d)
      | (Inr m, d) \<Rightarrow> (Inr (authorityFromMap cd m), d))"

definition update_cmds :: "Codec \<Rightarrow> ValkeyStore \<Rightarrow> string \<Rightarrow> BundleRecord \<Rightarrow> kv_cmd list" where
  "update_cmds cd st bid rec =
     [HSET (vk_key st [''bundle'', bid]) (recordToMap cd rec),
      EXPIRE (vk_key st [''bundle'', bid]) (vs_retention st),
      EXPIRE (vk_key st [''hash'', bd_BundleHash rec]) (vs_retention st),
      EXPIRE (vk_key st [''bundles'']) (vs_retention st),
      EXPIRE (authorityKey st (vs_shardID st)) (vs_retention st)]"

text \<open>
  One attempt of a change of an existing bundle, which \<^verbatim>\<open>TransitionBundle\<close> and \<^verbatim>\<open>updateBundle\<close> share but for
  the check of the state (\<open>pre\<close>) and the change (\<open>f\<close>): \<^verbatim>\<open>WATCH\<close> 0, \<^verbatim>\<open>HGETALL\<close> of the bundle 1 and of the authority 2, \<^verbatim>\<open>EXEC\<close> 3.
\<close>

definition change_tx ::
  "Codec \<Rightarrow> 'd Kv \<Rightarrow> ValkeyStore \<Rightarrow> string \<Rightarrow> (BundleRecord \<Rightarrow> store_error option) \<Rightarrow> (gtime \<Rightarrow> BundleRecord \<Rightarrow> BundleRecord) \<Rightarrow>
   'd Net \<Rightarrow> 'd \<Rightarrow> (vk_error, BundleRecord) tx_outcome \<times> 'd" where
  "change_tx cd kv st bid pre f net d =
     (case kv_read net 0 (\<lambda>_. ()) d of
        (Inl e, d) \<Rightarrow> (TxErr (VkIO e), d)
      | (Inr _, d) \<Rightarrow>
          (case kv_read net 1 (kv_hgetall kv (vk_key st [''bundle'', bid])) d of
             (Inl e, d) \<Rightarrow> (TxErr (VkIO e), d)
           | (Inr m, d) \<Rightarrow>
               if m = [] then (TxErr (VkStore ErrBundleNotFound), d)
               else (case mapToRecord cd m of
                       Inl e \<Rightarrow> (TxErr (VkIO e), d)
                     | Inr None \<Rightarrow> (TxDone zero_bundle, d)
                     | Inr (Some rec) \<Rightarrow>
                         (case pre rec of
                            Some err \<Rightarrow> (TxErr (VkStore err), d)
                          | None \<Rightarrow>
                              (case currentAuthorityTx cd kv st net 2 (bd_ShardID rec) d of
                                 (Inl e, d) \<Rightarrow> (TxErr (VkIO e), d)
                               | (Inr None, d) \<Rightarrow> (TxErr (VkStore ErrStaleAuthority), d)
                               | (Inr (Some auth), d) \<Rightarrow>
                                   if validateAuthority (nt_clk net 0) rec auth \<noteq> None
                                   then (TxErr (VkStore ErrStaleAuthority), d)
                                   else (let rec' = f (nt_clk net 1) rec in
                                         tx_exec kv net 3 (update_cmds cd st bid rec') VkIO rec' d))))))"

definition vk_TransitionBundle ::
  "Codec \<Rightarrow> 'd Kv \<Rightarrow> ValkeyStore \<Rightarrow> string \<Rightarrow> BundleState \<Rightarrow> BundleState \<Rightarrow> string \<Rightarrow> 'd Net list \<Rightarrow> 'd \<Rightarrow>
   (vk_error + BundleRecord) option \<times> 'd" where
  "vk_TransitionBundle cd kv st bid from to reason nets d =
     (case ValidateTransition from to of
        Some err \<Rightarrow> (Some (Inl (VkStore (ErrIllegalTransition err))), d)
      | None \<Rightarrow>
          watch_loop (change_tx cd kv st bid (\<lambda>rec. if bd_State rec \<noteq> from then Some ErrStateMismatch else None)
            (\<lambda>now. transition_record now to reason)) nets d)"

definition updateBundle ::
  "Codec \<Rightarrow> 'd Kv \<Rightarrow> ValkeyStore \<Rightarrow> string \<Rightarrow> (BundleRecord \<Rightarrow> BundleRecord) \<Rightarrow> 'd Net list \<Rightarrow> 'd \<Rightarrow>
   (vk_error + BundleRecord) option \<times> 'd" where
  "updateBundle cd kv st bid fn nets d =
     watch_loop (change_tx cd kv st bid (\<lambda>_. None)
       (\<lambda>now rec. (fn rec)\<lparr> bd_Version := bd_Version (fn rec) + 1, bd_UpdatedAt := now \<rparr>)) nets d"

definition vk_UpdateRetryCount ::
  "Codec \<Rightarrow> 'd Kv \<Rightarrow> ValkeyStore \<Rightarrow> string \<Rightarrow> int \<Rightarrow> 'd Net list \<Rightarrow> 'd \<Rightarrow> (vk_error + BundleRecord) option \<times> 'd" where
  "vk_UpdateRetryCount cd kv st bid retryCount = updateBundle cd kv st bid (\<lambda>rec. rec\<lparr> bd_RetryCount := retryCount \<rparr>)"

definition vk_UpdateResult ::
  "Codec \<Rightarrow> 'd Kv \<Rightarrow> ValkeyStore \<Rightarrow> string \<Rightarrow> f64 \<Rightarrow> f64 \<Rightarrow> string \<Rightarrow> 'd Net list \<Rightarrow> 'd \<Rightarrow> (vk_error + BundleRecord) option \<times> 'd" where
  "vk_UpdateResult cd kv st bid score profit reason =
     updateBundle cd kv st bid (\<lambda>rec. rec\<lparr> bd_Score := score, bd_ProfitEth := profit, bd_Reason := reason \<rparr>)"

definition vk_limit :: "ValkeyStore \<Rightarrow> int \<Rightarrow> int" where
  "vk_limit st limit = (if limit \<le> 0 \<or> limit > vs_history st then vs_history st else limit)"

fun get_each ::
  "Codec \<Rightarrow> 'd Kv \<Rightarrow> ValkeyStore \<Rightarrow> 'd Net \<Rightarrow> nat \<Rightarrow> string list \<Rightarrow> BundleRecord list \<Rightarrow> 'd \<Rightarrow> (string + BundleRecord list) \<times> 'd" where
  "get_each cd kv st net i [] out d = (Inr out, d)"
| "get_each cd kv st net i (bid # ids) out d =
     (case vk_GetBundle cd kv st net i bid d of
        (Inl e, d) \<Rightarrow> (Inl e, d)
      | (Inr None, d) \<Rightarrow> get_each cd kv st net (i + 1) ids out d
      | (Inr (Some rec), d) \<Rightarrow> get_each cd kv st net (i + 1) ids (out @ [rec]) d)"

definition vk_ListBundles ::
  "Codec \<Rightarrow> 'd Kv \<Rightarrow> ValkeyStore \<Rightarrow> 'd Net \<Rightarrow> int \<Rightarrow> 'd \<Rightarrow> (string + BundleRecord list) \<times> 'd" where
  "vk_ListBundles cd kv st net limit d =
     (case kv_read net 0 (kv_zrevrange kv (vk_key st [''bundles'']) 0 (vk_limit st limit - 1)) d of
        (Inl e, d) \<Rightarrow> (Inl e, d)
      | (Inr ids, d) \<Rightarrow>
          (case get_each cd kv st net 1 ids [] d of
             (Inl e, d) \<Rightarrow> (Inl e, d)
           | (Inr out, d) \<Rightarrow> (Inr (sort_by (\<lambda>a b. bd_CreatedAt a < bd_CreatedAt b) out), d)))"

subsection \<open>In-flight counters\<close>

text \<open>
  The Lua scripts. \<^verbatim>\<open>tonumber\<close> of a decimal text is its value; the counters are far below the range in which a Lua
  number is no longer exact. A text that is no number makes the script fail.
\<close>

definition inflightKey :: "ValkeyStore \<Rightarrow> string \<Rightarrow> string" where
  "inflightKey st clientID = vk_key st [''client'', clientID, ''inflight'']"

definition current_number :: "'d Kv \<Rightarrow> string \<Rightarrow> 'd \<Rightarrow> int option" where
  "current_number kv key d = SetString 10 (case kv_get kv key d of None \<Rightarrow> ''0'' | Some v \<Rightarrow> v)"

definition reserve_script :: "'d Kv \<Rightarrow> string \<Rightarrow> int \<Rightarrow> 'd \<Rightarrow> (string + int) \<times> 'd" where
  "reserve_script kv key limit d =
     (case current_number kv key d of
        None \<Rightarrow> (Inl ''attempt to compare nil with number'', d)
      | Some current \<Rightarrow>
          if current \<ge> limit then (Inr (- 1), d)
          else (Inr (current + 1), kv_exec kv (SET key (show_int 10 (current + 1)) 0) d))"

definition release_script :: "'d Kv \<Rightarrow> string \<Rightarrow> 'd \<Rightarrow> (string + int) \<times> 'd" where
  "release_script kv key d =
     (case current_number kv key d of
        None \<Rightarrow> (Inl ''attempt to compare nil with number'', d)
      | Some current \<Rightarrow>
          if current \<le> 0 then (Inr 0, kv_exec kv (SET key ''0'' 0) d)
          else (Inr (current - 1), kv_exec kv (SET key (show_int 10 (current - 1)) 0) d))"

definition vk_GetInflight :: "'d Kv \<Rightarrow> ValkeyStore \<Rightarrow> 'd Net \<Rightarrow> nat \<Rightarrow> string \<Rightarrow> 'd \<Rightarrow> (string + int) \<times> 'd" where
  "vk_GetInflight kv st net i clientID d =
     (case kv_read net i (kv_get kv (inflightKey st clientID)) d of
        (Inl e, d) \<Rightarrow> (Inl e, d)
      | (Inr None, d) \<Rightarrow> (Inr 0, d)
      | (Inr (Some v), d) \<Rightarrow> (case SetString 10 v of None \<Rightarrow> (Inl ''invalid syntax'', d) | Some n \<Rightarrow> (Inr n, d)))"

text \<open>The error is paired with the number that is returned beside it.\<close>

definition vk_ReserveInflight ::
  "'d Kv \<Rightarrow> ValkeyStore \<Rightarrow> 'd Net \<Rightarrow> string \<Rightarrow> int \<Rightarrow> 'd \<Rightarrow> ((vk_error \<times> int) + int) \<times> 'd" where
  "vk_ReserveInflight kv st net clientID limit d =
     (case kv_script net 0 (reserve_script kv (inflightKey st clientID) limit) d of
        (Inl e, d) \<Rightarrow> (Inl (VkIO e, 0), d)
      | (Inr res, d) \<Rightarrow>
          if res < 0
          then (case vk_GetInflight kv st net 1 clientID d of
                  (Inl _, d) \<Rightarrow> (Inl (VkStore ErrClientInflight, 0), d)
                | (Inr cur, d) \<Rightarrow> (Inl (VkStore ErrClientInflight, cur), d))
          else (Inr res, snd (touch kv st net 1 [inflightKey st clientID] d)))"

definition vk_ReleaseInflight :: "'d Kv \<Rightarrow> ValkeyStore \<Rightarrow> 'd Net \<Rightarrow> string \<Rightarrow> 'd \<Rightarrow> (vk_error + int) \<times> 'd" where
  "vk_ReleaseInflight kv st net clientID d =
     (case kv_script net 0 (release_script kv (inflightKey st clientID)) d of
        (Inl e, d) \<Rightarrow> (Inl (VkIO e), snd (touch kv st net 1 [inflightKey st clientID] d))
      | (Inr res, d) \<Rightarrow> (Inr res, snd (touch kv st net 1 [inflightKey st clientID] d)))"

subsection \<open>Retries\<close>

definition vk_ScheduleRetry :: "'d Kv \<Rightarrow> ValkeyStore \<Rightarrow> 'd Net \<Rightarrow> string \<Rightarrow> gtime \<Rightarrow> 'd \<Rightarrow> string option \<times> 'd" where
  "vk_ScheduleRetry kv st net bid due d =
     (case kv_write kv net 0 (ZADD (vk_key st [''retries'']) (f_of_int (UnixNano due)) bid) d of
        (Some e, d) \<Rightarrow> (Some e, d)
      | (None, d) \<Rightarrow> touch kv st net 1 [vk_key st [''retries'']] d)"

definition claim_script :: "'d Kv \<Rightarrow> string \<Rightarrow> f64 \<Rightarrow> int \<Rightarrow> 'd \<Rightarrow> (string + string list) \<times> 'd" where
  "claim_script kv key now limit d =
     (let ids = kv_zrangebyscore kv key now limit d in
      (Inr ids, if ids \<noteq> [] then kv_exec kv (ZREM key ids) d else d))"

definition vk_ClaimDueRetries :: "'d Kv \<Rightarrow> ValkeyStore \<Rightarrow> 'd Net \<Rightarrow> gtime \<Rightarrow> int \<Rightarrow> 'd \<Rightarrow> (string + string list) \<times> 'd" where
  "vk_ClaimDueRetries kv st net now limit d =
     kv_script net 0 (claim_script kv (vk_key st [''retries'']) (f_of_int (UnixNano now)) limit) d"

subsection \<open>Events, checkpoints, authority\<close>

definition vk_AppendEvent :: "Codec \<Rightarrow> 'd Kv \<Rightarrow> ValkeyStore \<Rightarrow> 'd Net \<Rightarrow> EventRecord \<Rightarrow> 'd \<Rightarrow> string option \<times> 'd" where
  "vk_AppendEvent cd kv st net ev d =
     (case vc_marshalEvent cd ev of
        Inl e \<Rightarrow> (Some e, d)
      | Inr body \<Rightarrow>
          (let key = vk_key st [''events'', ev_BundleID ev] in
           case kv_write kv net 0 (RPUSH key body) d of
             (Some e, d) \<Rightarrow> (Some e, d)
           | (None, d) \<Rightarrow>
               (case kv_write kv net 1 (LTRIM key (- vs_history st) (- 1)) d of
                  (Some e, d) \<Rightarrow> (Some e, d)
                | (None, d) \<Rightarrow> touch kv st net 2 [key] d)))"

fun decode_all :: "('a \<Rightarrow> string + 'b) \<Rightarrow> 'b list \<Rightarrow> 'a list \<Rightarrow> string + 'b list" where
  "decode_all dec out [] = Inr out"
| "decode_all dec out (raw # vals) =
     (case dec raw of Inl e \<Rightarrow> Inl e | Inr v \<Rightarrow> decode_all dec (out @ [v]) vals)"

definition vk_ListEvents ::
  "Codec \<Rightarrow> 'd Kv \<Rightarrow> ValkeyStore \<Rightarrow> 'd Net \<Rightarrow> string \<Rightarrow> int \<Rightarrow> 'd \<Rightarrow> (string + EventRecord list) \<times> 'd" where
  "vk_ListEvents cd kv st net bundle limit d =
     (case kv_read net 0 (kv_lrange kv (vk_key st [''events'', bundle]) (- vk_limit st limit) (- 1)) d of
        (Inl e, d) \<Rightarrow> (Inl e, d)
      | (Inr vals, d) \<Rightarrow> (decode_all (vc_unmarshalEvent cd) [] vals, d))"

definition vk_PutCheckpoint :: "Codec \<Rightarrow> 'd Kv \<Rightarrow> ValkeyStore \<Rightarrow> 'd Net \<Rightarrow> CheckpointRecord \<Rightarrow> 'd \<Rightarrow> string option \<times> 'd" where
  "vk_PutCheckpoint cd kv st net cp d =
     (case vc_marshalCheckpoint cd cp of
        Inl e \<Rightarrow> (Some e, d)
      | Inr body \<Rightarrow>
          (case kv_write kv net 0 (SET (vk_key st [''checkpoint'', cp_BatchID cp]) body 0) d of
             (Some e, d) \<Rightarrow> (Some e, d)
           | (None, d) \<Rightarrow>
               (case kv_write kv net 1
                       (ZADD (vk_key st [''checkpoints'']) (f_of_int (UnixNano (cp_Time cp))) (cp_BatchID cp)) d of
                  (Some e, d) \<Rightarrow> (Some e, d)
                | (None, d) \<Rightarrow>
                    touch kv st net 2 [vk_key st [''checkpoint'', cp_BatchID cp], vk_key st [''checkpoints'']] d)))"

fun checkpoint_each ::
  "Codec \<Rightarrow> 'd Kv \<Rightarrow> ValkeyStore \<Rightarrow> 'd Net \<Rightarrow> nat \<Rightarrow> string list \<Rightarrow> CheckpointRecord list \<Rightarrow> 'd \<Rightarrow>
   (string + CheckpointRecord list) \<times> 'd" where
  "checkpoint_each cd kv st net i [] out d = (Inr out, d)"
| "checkpoint_each cd kv st net i (bid # ids) out d =
     (case kv_read net i (kv_get kv (vk_key st [''checkpoint'', bid])) d of
        (Inl e, d) \<Rightarrow> (Inl e, d)
      | (Inr None, d) \<Rightarrow> checkpoint_each cd kv st net (i + 1) ids out d
      | (Inr (Some raw), d) \<Rightarrow>
          (case vc_unmarshalCheckpoint cd raw of
             Inl e \<Rightarrow> (Inl e, d)
           | Inr cp \<Rightarrow> checkpoint_each cd kv st net (i + 1) ids (out @ [cp]) d))"

definition vk_ListCheckpoints ::
  "Codec \<Rightarrow> 'd Kv \<Rightarrow> ValkeyStore \<Rightarrow> 'd Net \<Rightarrow> int \<Rightarrow> 'd \<Rightarrow> (string + CheckpointRecord list) \<times> 'd" where
  "vk_ListCheckpoints cd kv st net limit d =
     (case kv_read net 0 (kv_zrevrange kv (vk_key st [''checkpoints'']) 0 (vk_limit st limit - 1)) d of
        (Inl e, d) \<Rightarrow> (Inl e, d)
      | (Inr ids, d) \<Rightarrow>
          (case checkpoint_each cd kv st net 1 ids [] d of
             (Inl e, d) \<Rightarrow> (Inl e, d)
           | (Inr out, d) \<Rightarrow> (Inr (sort_by (\<lambda>a b. cp_Time a < cp_Time b) out), d)))"

definition vk_DeleteEvents :: "'d Kv \<Rightarrow> ValkeyStore \<Rightarrow> 'd Net \<Rightarrow> string \<Rightarrow> 'd \<Rightarrow> string option \<times> 'd" where
  "vk_DeleteEvents kv st net bundle d = kv_write kv net 0 (DEL (vk_key st [''events'', bundle])) d"

definition vk_SetAuthority :: "Codec \<Rightarrow> 'd Kv \<Rightarrow> ValkeyStore \<Rightarrow> 'd Net \<Rightarrow> Authority \<Rightarrow> 'd \<Rightarrow> string option \<times> 'd" where
  "vk_SetAuthority cd kv st net auth d =
     (let key = vk_key st [''authority'', au_ShardID auth] in
      case kv_write kv net 0 (HSET key (authorityToMap cd auth)) d of
        (Some e, d) \<Rightarrow> (Some e, d)
      | (None, d) \<Rightarrow>
          (let ttl = time_sub (au_ExpiresAt auth) (nt_clk net 0) in
           kv_write kv net 1 (EXPIRE key (if ttl \<le> 0 then second else ttl)) d))"

definition vk_GetAuthority ::
  "Codec \<Rightarrow> 'd Kv \<Rightarrow> ValkeyStore \<Rightarrow> 'd Net \<Rightarrow> string \<Rightarrow> 'd \<Rightarrow> (string + Authority option) \<times> 'd" where
  "vk_GetAuthority cd kv st net shardID d =
     (case kv_read net 0 (kv_hgetall kv (vk_key st [''authority'', shardID])) d of
        (Inl e, d) \<Rightarrow> (Inl e, d)
      | (Inr m, d) \<Rightarrow> (Inr (if m = [] then None else authorityFromMap cd m), d))"

definition vk_Health :: "'d Net \<Rightarrow> 'd \<Rightarrow> string option \<times> 'd" where
  "vk_Health net d = (case kv_read net 0 (\<lambda>_. ()) d of (Inl e, d) \<Rightarrow> (Some e, d) | (Inr _, d) \<Rightarrow> (None, d))"

section \<open>The policy store\<close>

record policyValkeyStore =
  pv_prefix :: string
  pv_ttl :: duration

definition policyTTL :: "duration \<Rightarrow> duration" where
  "policyTTL d = (if d \<le> 0 then 24 * 3600 * second else d)"

definition newPolicyValkeyStore :: "(string \<Rightarrow> string option) \<Rightarrow> string \<Rightarrow> duration \<Rightarrow> string + policyValkeyStore" where
  "newPolicyValkeyStore parseURL url retention =
     (case parseURL url of
        Some err \<Rightarrow> Inl err
      | None \<Rightarrow> Inr \<lparr> pv_prefix = ''mev:v3:policy'', pv_ttl = policyTTL retention \<rparr>)"

text \<open>\<^verbatim>\<open>newPolicyStore\<close>: \<open>Inl\<close> the store in memory.\<close>

definition newPolicyStore :: "(string \<Rightarrow> string option) \<Rightarrow> RelayConfig \<Rightarrow> policyMemoryStore + policyValkeyStore" where
  "newPolicyStore parseURL cfg =
     (if rc_StateKind cfg = ''valkey''
      then (case newPolicyValkeyStore parseURL (rc_ValkeyURL cfg) (rc_StateRetention cfg) of
              Inr st \<Rightarrow> Inr st | Inl _ \<Rightarrow> Inl newPolicyMemoryStore)
      else Inl newPolicyMemoryStore)"

definition pv_key :: "policyValkeyStore \<Rightarrow> string \<Rightarrow> string" where
  "pv_key st shardID = pv_prefix st @ '':'' @ shardID"

definition pv_Load :: "Codec \<Rightarrow> 'd Kv \<Rightarrow> policyValkeyStore \<Rightarrow> 'd Net \<Rightarrow> string \<Rightarrow> 'd \<Rightarrow> (string + PolicySnapshot option) \<times> 'd" where
  "pv_Load cd kv st net shardID d =
     (case kv_read net 0 (kv_get kv (pv_key st shardID)) d of
        (Inl e, d) \<Rightarrow> (Inl e, d)
      | (Inr None, d) \<Rightarrow> (Inr None, d)
      | (Inr (Some raw), d) \<Rightarrow> (case vc_unmarshalPolicy cd raw of Inl e \<Rightarrow> (Inl e, d) | Inr snap \<Rightarrow> (Inr (Some snap), d)))"

definition pv_Save :: "Codec \<Rightarrow> 'd Kv \<Rightarrow> policyValkeyStore \<Rightarrow> 'd Net \<Rightarrow> string \<Rightarrow> PolicySnapshot \<Rightarrow> 'd \<Rightarrow> string option \<times> 'd" where
  "pv_Save cd kv st net shardID snap d =
     (case vc_marshalPolicy cd snap of
        Inl e \<Rightarrow> (Some e, d)
      | Inr body \<Rightarrow> kv_write kv net 0 (SET (pv_key st shardID) body (pv_ttl st)) d)"

end
