(* ===== verification/Relay_Valkey_Server.thy ===== *)
theory Relay_Valkey_Server
  imports Relay_Valkey
begin

text \<open>
  What the stores on a Valkey server require of the server and of the encoders, as named hypotheses: \<open>kv_laws\<close> and \<open>zset_laws\<close> are the
  documented behaviour of the commands on keys that are missing or of the command's type (on others the server answers
  \<^verbatim>\<open>WRONGTYPE\<close>), \<open>vcodec_ok\<close> that of the encoders on values of the Go types with valid UTF-8 text (\<^verbatim>\<open>encoding/json\<close> replaces
  what is not). A small server \<open>ref_kv\<close> and encoders \<open>ref_codec\<close> meet them.
\<close>

section \<open>Encoders the code relies on\<close>

text \<open>What the code relies on in the encoders: \<^verbatim>\<open>time.RFC3339Nano\<close> covers the years 1 to 9999.\<close>

definition rfc_time :: "gtime \<Rightarrow> bool" where
  "rfc_time t \<longleftrightarrow> 0 \<le> t \<and> t < 315537897600 * second"

definition int64_ok :: "int \<Rightarrow> bool" where
  "int64_ok i \<longleftrightarrow> min_int64 \<le> i \<and> i \<le> max_int64"

text \<open>The finite numbers a 64-bit floating point number can be: those that rounding leaves alone.\<close>

definition f64_ok :: "f64 \<Rightarrow> bool" where
  "f64_ok x \<longleftrightarrow> (case x of FFin q \<Rightarrow> f_round False q = x | _ \<Rightarrow> True)"

definition request_text :: "BundleRequest \<Rightarrow> bool" where
  "request_text q \<longleftrightarrow> list_all utf8_valid (bq_Txs q) \<and> utf8_valid (bq_BlockNumber q) \<and> (case bq_Replacement q of None \<Rightarrow> True | Some r \<Rightarrow> utf8_valid r)"

definition request_ok :: "BundleRequest \<Rightarrow> bool" where
  "request_ok q \<longleftrightarrow> request_text q \<and> int64_ok (bq_MinTimestamp q) \<and> int64_ok (bq_MaxTimestamp q)"

definition vcodec_ok :: "Codec \<Rightarrow> bool" where
  "vcodec_ok cd \<longleftrightarrow> (\<forall>t. rfc_time t \<longrightarrow> vc_fmtTime cd t \<noteq> [] \<and> vc_parseTime cd (vc_fmtTime cd t) = t) \<and>
     (\<forall>x. f64_ok x \<longrightarrow> vc_parseFloat cd (vc_fmtFloat cd x) = x) \<and>
     (\<forall>q. request_ok q \<longrightarrow> vc_marshalRequest cd q \<noteq> [] \<and> vc_unmarshalRequest cd (vc_marshalRequest cd q) = Inr q)"

section \<open>What the server does\<close>

fun cmd_key :: "kv_cmd \<Rightarrow> string" where
  "cmd_key (SET k v ttl) = k"
| "cmd_key (HSET k fs) = k"
| "cmd_key (ZADD k sc m) = k"
| "cmd_key (ZREM k ms) = k"
| "cmd_key (EXPIRE k ttl) = k"
| "cmd_key (RPUSH k v) = k"
| "cmd_key (LTRIM k a b) = k"
| "cmd_key (DEL k) = k"

text \<open>A key that is missing or of the type.\<close>

definition typed :: "'d Kv \<Rightarrow> string \<Rightarrow> string \<Rightarrow> 'd \<Rightarrow> bool" where
  "typed kv ty k d \<longleftrightarrow> kv_type kv k d = None \<or> kv_type kv k d = Some ty"

definition same :: "'d Kv \<Rightarrow> string \<Rightarrow> 'd \<Rightarrow> 'd \<Rightarrow> bool" where
  "same kv k d d' \<longleftrightarrow> kv_get kv k d = kv_get kv k d' \<and> kv_hgetall kv k d = kv_hgetall kv k d' \<and> kv_type kv k d = kv_type kv k d'"

text \<open>
  Strings and hashes: \<^verbatim>\<open>SET\<close> sets, whatever was there, \<^verbatim>\<open>HSET\<close> merges into a hash, a command keeps the type of its key, leaves other
  keys alone, and \<^verbatim>\<open>EXPIRE\<close> with a positive time does not change what is stored now.
\<close>

definition kv_laws :: "'d Kv \<Rightarrow> bool" where
  "kv_laws kv \<longleftrightarrow>
     (\<forall>k v ttl d. kv_get kv k (kv_exec kv (SET k v ttl) d) = Some v \<and> typed kv ''string'' k (kv_exec kv (SET k v ttl) d)) \<and>
     (\<forall>k fs d. typed kv ''hash'' k d \<longrightarrow> typed kv ''hash'' k (kv_exec kv (HSET k fs) d) \<and>
        (\<forall>f. gm_get (kv_hgetall kv k (kv_exec kv (HSET k fs) d)) f =
           (case gm_get fs f of None \<Rightarrow> gm_get (kv_hgetall kv k d) f | Some v \<Rightarrow> Some v))) \<and>
     (\<forall>k sc m d. typed kv ''zset'' k d \<longrightarrow> typed kv ''zset'' k (kv_exec kv (ZADD k sc m) d)) \<and>
     (\<forall>c k d. cmd_key c \<noteq> k \<longrightarrow> same kv k (kv_exec kv c d) d) \<and>
     (\<forall>k ttl d. 0 < ttl \<longrightarrow> same kv k (kv_exec kv (EXPIRE k ttl) d) d)"

lemma kv_same:
  assumes "kv_laws kv"
  shows "cmd_key c \<noteq> k \<Longrightarrow> same kv k (kv_exec kv c d) d" and "0 < t \<Longrightarrow> same kv k (kv_exec kv (EXPIRE k' t) d) d"
proof -
  note laws = assms [unfolded kv_laws_def]
  show other: "cmd_key c \<noteq> k \<Longrightarrow> same kv k (kv_exec kv c d) d" for c
    by (rule laws [THEN conjunct2, THEN conjunct2, THEN conjunct2, THEN conjunct1, rule_format])
  have "0 < t \<Longrightarrow> same kv k' (kv_exec kv (EXPIRE k' t) d) d"
    by (rule laws [THEN conjunct2, THEN conjunct2, THEN conjunct2, THEN conjunct2, rule_format])
  then show "0 < t \<Longrightarrow> same kv k (kv_exec kv (EXPIRE k' t) d) d"
    using other [of "EXPIRE k' t"] by (cases "k = k'") simp_all
qed

lemma kv_lawsD:
  assumes "kv_laws kv"
  shows "kv_get kv k (kv_exec kv (SET k v ttl) d) = Some v"
    and "typed kv ''hash'' k d \<Longrightarrow> gm_get (kv_hgetall kv k (kv_exec kv (HSET k fs) d)) f =
      (case gm_get fs f of None \<Rightarrow> gm_get (kv_hgetall kv k d) f | Some v \<Rightarrow> Some v)"
    and "cmd_key c \<noteq> k \<Longrightarrow> kv_get kv k (kv_exec kv c d) = kv_get kv k d"
    and "cmd_key c \<noteq> k \<Longrightarrow> kv_hgetall kv k (kv_exec kv c d) = kv_hgetall kv k d"
    and "0 < t \<Longrightarrow> kv_get kv k (kv_exec kv (EXPIRE k' t) d) = kv_get kv k d"
    and "0 < t \<Longrightarrow> kv_hgetall kv k (kv_exec kv (EXPIRE k' t) d) = kv_hgetall kv k d"
proof -
  note laws = assms [unfolded kv_laws_def] and kept = kv_same [OF assms, unfolded same_def]
  show "kv_get kv k (kv_exec kv (SET k v ttl) d) = Some v" by (rule laws [THEN conjunct1, rule_format, THEN conjunct1])
  show "typed kv ''hash'' k d \<Longrightarrow> gm_get (kv_hgetall kv k (kv_exec kv (HSET k fs) d)) f =
      (case gm_get fs f of None \<Rightarrow> gm_get (kv_hgetall kv k d) f | Some v \<Rightarrow> Some v)"
    by (rule laws [THEN conjunct2, THEN conjunct1, rule_format, THEN conjunct2, rule_format])
  show "cmd_key c \<noteq> k \<Longrightarrow> kv_get kv k (kv_exec kv c d) = kv_get kv k d"
    and "cmd_key c \<noteq> k \<Longrightarrow> kv_hgetall kv k (kv_exec kv c d) = kv_hgetall kv k d"
    and "0 < t \<Longrightarrow> kv_get kv k (kv_exec kv (EXPIRE k' t) d) = kv_get kv k d"
    and "0 < t \<Longrightarrow> kv_hgetall kv k (kv_exec kv (EXPIRE k' t) d) = kv_hgetall kv k d"
    using kept by simp_all
qed

lemma kv_typedD:
  assumes "kv_laws kv"
  shows "typed kv ''string'' k (kv_exec kv (SET k v ttl) d)"
    and "typed kv ''hash'' k d \<Longrightarrow> typed kv ''hash'' k (kv_exec kv (HSET k fs) d)"
    and "typed kv ''zset'' k d \<Longrightarrow> typed kv ''zset'' k (kv_exec kv (ZADD k sc m) d)"
    and "cmd_key c \<noteq> k \<Longrightarrow> typed kv ty k (kv_exec kv c d) = typed kv ty k d"
    and "0 < t \<Longrightarrow> typed kv ty k (kv_exec kv (EXPIRE k' t) d) = typed kv ty k d"
proof -
  note laws = assms [unfolded kv_laws_def] and kept = kv_same [OF assms, unfolded same_def]
  show "typed kv ''string'' k (kv_exec kv (SET k v ttl) d)" by (rule laws [THEN conjunct1, rule_format, THEN conjunct2])
  show "typed kv ''hash'' k d \<Longrightarrow> typed kv ''hash'' k (kv_exec kv (HSET k fs) d)"
    by (rule laws [THEN conjunct2, THEN conjunct1, rule_format, THEN conjunct1])
  show "typed kv ''zset'' k d \<Longrightarrow> typed kv ''zset'' k (kv_exec kv (ZADD k sc m) d)"
    by (rule laws [THEN conjunct2, THEN conjunct2, THEN conjunct1, rule_format])
  show "cmd_key c \<noteq> k \<Longrightarrow> typed kv ty k (kv_exec kv c d) = typed kv ty k d"
    and "0 < t \<Longrightarrow> typed kv ty k (kv_exec kv (EXPIRE k' t) d) = typed kv ty k d"
    using kept by (simp_all add: typed_def)
qed

definition zset_laws :: "'d Kv \<Rightarrow> bool" where
  "zset_laws kv \<longleftrightarrow>
     (\<forall>k m d sc x. typed kv ''zset'' k d \<and> \<not> is_nan sc \<longrightarrow>
        kv_zscore kv k m (kv_exec kv (ZADD k sc x) d) = (if m = x then Some sc else kv_zscore kv k m d)) \<and>
     (\<forall>k m d ms. typed kv ''zset'' k d \<longrightarrow>
        kv_zscore kv k m (kv_exec kv (ZREM k ms) d) = (if m \<in> set ms then None else kv_zscore kv k m d)) \<and>
     (\<forall>k m d t. 0 < t \<longrightarrow> kv_zscore kv k m (kv_exec kv (EXPIRE k t) d) = kv_zscore kv k m d) \<and>
     (\<forall>k mx n d. distinct (kv_zrangebyscore kv k mx n d) \<and> (0 \<le> n \<longrightarrow> int (length (kv_zrangebyscore kv k mx n d)) \<le> n) \<and>
        (\<forall>m \<in> set (kv_zrangebyscore kv k mx n d). \<exists>sc. kv_zscore kv k m d = Some sc \<and> f_le sc mx) \<and>
        (n < 0 \<or> int (length (kv_zrangebyscore kv k mx n d)) < n \<longrightarrow>
           (\<forall>m sc. kv_zscore kv k m d = Some sc \<and> f_le sc mx \<longrightarrow> m \<in> set (kv_zrangebyscore kv k mx n d))))"

section \<open>A server\<close>

datatype kvval = VStr string | VHash "(string, string) gomap" | VZset "(string, f64) gomap" | VList "string list"

type_synonym ref_db = "(string, kvval) gomap"

definition ref_hash :: "string \<Rightarrow> ref_db \<Rightarrow> (string, string) gomap" where
  "ref_hash k d = (case gm_get d k of Some (VHash h) \<Rightarrow> h | _ \<Rightarrow> [])"

definition ref_zset :: "string \<Rightarrow> ref_db \<Rightarrow> (string, f64) gomap" where
  "ref_zset k d = (case gm_get d k of Some (VZset z) \<Rightarrow> z | _ \<Rightarrow> [])"

definition ref_list :: "string \<Rightarrow> ref_db \<Rightarrow> string list" where
  "ref_list k d = (case gm_get d k of Some (VList l) \<Rightarrow> l | _ \<Rightarrow> [])"

definition ref_type :: "string \<Rightarrow> ref_db \<Rightarrow> string option" where
  "ref_type k d = map_option (\<lambda>v. case v of VStr _ \<Rightarrow> ''string'' | VHash _ \<Rightarrow> ''hash'' | VZset _ \<Rightarrow> ''zset'' | VList _ \<Rightarrow> ''list'') (gm_get d k)"

text \<open>A range of positions, counted from the end when negative, both ends included.\<close>

definition ref_slice :: "int \<Rightarrow> int \<Rightarrow> 'a list \<Rightarrow> 'a list" where
  "ref_slice a b xs =
     (let n = int (length xs); lo = max 0 (if a < 0 then n + a else a); hi = (if b < 0 then n + b else b)
      in take (nat (hi - lo + 1)) (drop (nat lo) xs))"

fun ref_exec :: "kv_cmd \<Rightarrow> ref_db \<Rightarrow> ref_db" where
  "ref_exec (SET k v ttl) d = gm_set d k (VStr v)"
| "ref_exec (HSET k fs) d = gm_set d k (VHash (foldr (\<lambda>(f, v) h. gm_set h f v) fs (ref_hash k d)))"
| "ref_exec (ZADD k sc m) d = gm_set d k (VZset (gm_set (ref_zset k d) m sc))"
| "ref_exec (ZREM k ms) d = gm_set d k (VZset (foldr (\<lambda>m z. gm_del z m) ms (ref_zset k d)))"
| "ref_exec (EXPIRE k ttl) d = (if ttl > 0 then d else gm_del d k)"
| "ref_exec (RPUSH k v) d = gm_set d k (VList (ref_list k d @ [v]))"
| "ref_exec (LTRIM k a b) d = gm_set d k (VList (ref_slice a b (ref_list k d)))"
| "ref_exec (DEL k) d = gm_del d k"

definition ref_members :: "string \<Rightarrow> ref_db \<Rightarrow> string list" where
  "ref_members k d =
     sort_by (\<lambda>a b. f_lt (gm_get0 FNaN (ref_zset k d) a) (gm_get0 FNaN (ref_zset k d) b)) (remdups (map fst (ref_zset k d)))"

definition ref_kv :: "ref_db Kv" where
  "ref_kv = \<lparr>
     kv_get = (\<lambda>k d. case gm_get d k of Some (VStr v) \<Rightarrow> Some v | _ \<Rightarrow> None),
     kv_hgetall = ref_hash,
     kv_zrevrange = (\<lambda>k a b d. ref_slice a b (rev (ref_members k d))),
     kv_zrangebyscore = (\<lambda>k mx n d.
       let ms = filter (\<lambda>m. f_le (gm_get0 FNaN (ref_zset k d) m) mx) (ref_members k d)
       in if n < 0 then ms else take (nat n) ms),
     kv_lrange = (\<lambda>k a b d. ref_slice a b (ref_list k d)),
     kv_zscore = (\<lambda>k m d. gm_get (ref_zset k d) m),
     kv_type = ref_type,
     kv_exec = ref_exec \<rparr>"

lemma gm_get_Cons: "gm_get ((a, v) # m) k = (if k = a then Some v else gm_get m k)"
  by (simp add: gm_get_def)

lemma gm_get_foldr_set: "gm_get (foldr (\<lambda>(f, v) h. gm_set h f v) fs h) f = (case gm_get fs f of None \<Rightarrow> gm_get h f | Some v \<Rightarrow> Some v)"
proof (induction fs)
  case (Cons x fs)
  then show ?case by (cases x) (simp add: gm_get_Cons)
qed simp

lemma ref_kv_laws: "kv_laws ref_kv"
proof -
  have other: "same ref_kv k (ref_exec c d) d" if "cmd_key c \<noteq> k" for c k d
    using that by (cases c) (auto simp: same_def ref_kv_def ref_hash_def ref_type_def)
  have ty: "typed ref_kv ''string'' k (ref_exec (SET k v ttl) d)" "typed ref_kv ''hash'' k (ref_exec (HSET k fs) d)"
      "typed ref_kv ''zset'' k (ref_exec (ZADD k sc m) d)" for k v ttl d fs sc m
    by (simp_all add: typed_def ref_kv_def ref_type_def)
  have set1: "kv_get ref_kv k (ref_exec (SET k v ttl) d) = Some v" for k v ttl d by (simp add: ref_kv_def)
  have set2: "gm_get (kv_hgetall ref_kv k (ref_exec (HSET k fs) d)) f =
      (case gm_get fs f of None \<Rightarrow> gm_get (kv_hgetall ref_kv k d) f | Some v \<Rightarrow> Some v)" for k fs d f
  proof -
    have h: "kv_hgetall ref_kv = ref_hash" by (simp add: ref_kv_def)
    show ?thesis unfolding h using gm_get_foldr_set [of fs "ref_hash k d" f] by (simp add: ref_hash_def [of k "gm_set _ _ _"])
  qed
  have exp: "0 < ttl \<Longrightarrow> same ref_kv k (ref_exec (EXPIRE k ttl) d) d" for k ttl d by (simp add: same_def)
  have "kv_exec ref_kv = ref_exec" by (simp add: ref_kv_def)
  then show ?thesis unfolding kv_laws_def using other set1 set2 exp ty by simp
qed

lemma gm_get_foldr_del: "gm_get (foldr (\<lambda>m z. gm_del z m) ms z) m = (if m \<in> set ms then None else gm_get z m)"
  by (induction ms) auto

lemma set_ref_members: "set (ref_members k d) = {m. gm_get (ref_zset k d) m \<noteq> None}"
  by (auto simp: ref_members_def gm_get_None_iff)

lemma ref_zset_laws: "zset_laws ref_kv"
proof -
  let ?ms = "\<lambda>k mx d. filter (\<lambda>m. f_le (gm_get0 FNaN (ref_zset k d) m) mx) (ref_members k d)"
  have range: "kv_zrangebyscore ref_kv k mx n d = (if n < 0 then ?ms k mx d else take (nat n) (?ms k mx d))" for k mx n d
    by (simp add: ref_kv_def Let_def)
  have mem: "m \<in> set (?ms k mx d) \<longleftrightarrow> (\<exists>sc. kv_zscore ref_kv k m d = Some sc \<and> f_le sc mx)" for m k mx d
    unfolding set_filter set_ref_members by (auto simp: ref_kv_def gm_get0_def)
  have dist: "distinct (?ms k mx d)" for k mx d by (simp add: ref_members_def)
  have r1: "distinct (kv_zrangebyscore ref_kv k mx n d)" for k mx n d using dist by (simp add: range)
  have r2: "0 \<le> n \<longrightarrow> int (length (kv_zrangebyscore ref_kv k mx n d)) \<le> n" for k mx n d
    by (auto simp: range min_def)
  have r3: "\<exists>sc. kv_zscore ref_kv k m d = Some sc \<and> f_le sc mx" if "m \<in> set (kv_zrangebyscore ref_kv k mx n d)" for k mx n d m
  proof -
    have "m \<in> set (?ms k mx d)" using that by (cases "n < 0") (auto simp: range dest: in_set_takeD)
    then show ?thesis by (simp only: mem)
  qed
  have r4: "m \<in> set (kv_zrangebyscore ref_kv k mx n d)"
    if "n < 0 \<or> int (length (kv_zrangebyscore ref_kv k mx n d)) < n" "kv_zscore ref_kv k m d = Some sc" "f_le sc mx" for k mx n d m sc
  proof -
    have m: "m \<in> set (?ms k mx d)" using that(2,3) mem by blast
    have "kv_zrangebyscore ref_kv k mx n d = ?ms k mx d" using that(1) unfolding range by (cases "n < 0") simp_all
    then show ?thesis using m by simp
  qed
  have r5: "kv_zscore ref_kv k m (kv_exec ref_kv (ZADD k sc x) d) = (if m = x then Some sc else kv_zscore ref_kv k m d)" for k m d sc x
    by (simp add: ref_kv_def ref_zset_def)
  have r6: "kv_zscore ref_kv k m (kv_exec ref_kv (ZREM k ms) d) = (if m \<in> set ms then None else kv_zscore ref_kv k m d)" for k m d ms
    using gm_get_foldr_del [of ms "ref_zset k d" m] by (simp add: ref_kv_def ref_zset_def [of k "gm_set _ _ _"])
  have r7: "0 < t \<longrightarrow> kv_zscore ref_kv k m (kv_exec ref_kv (EXPIRE k t) d) = kv_zscore ref_kv k m d" for k m d t
    by (simp add: ref_kv_def)
  have "(\<forall>m \<in> set (kv_zrangebyscore ref_kv k mx n d). \<exists>sc. kv_zscore ref_kv k m d = Some sc \<and> f_le sc mx) \<and>
      (n < 0 \<or> int (length (kv_zrangebyscore ref_kv k mx n d)) < n \<longrightarrow>
        (\<forall>m sc. kv_zscore ref_kv k m d = Some sc \<and> f_le sc mx \<longrightarrow> m \<in> set (kv_zrangebyscore ref_kv k mx n d)))" for k mx n d
    using r3 r4 by blast
  then show ?thesis unfolding zset_laws_def using r1 r2 r5 r6 r7 by simp
qed

section \<open>Encoders\<close>

text \<open>A text behind its length in unary.\<close>

definition enc :: "string \<Rightarrow> string" where
  "enc s = replicate (length s) (CHR ''1'') @ CHR ''0'' # s"

definition dec :: "string \<Rightarrow> string \<times> string" where
  "dec x = (let n = length (takeWhile (\<lambda>c. c = CHR ''1'') x) in (take n (drop (n + 1) x), drop (2 * n + 1) x))"

lemma takeWhile_run: "P c \<Longrightarrow> \<not> P e \<Longrightarrow> takeWhile P (replicate n c @ e # xs) = replicate n c"
  by (induction n) auto

lemma dec_enc [simp]: "dec (enc s @ rest) = (s, rest)"
proof -
  have "takeWhile (\<lambda>c. c = CHR ''1'') (enc s @ rest) = replicate (length s) (CHR ''1'')"
    unfolding enc_def by (simp add: takeWhile_run)
  then show ?thesis by (simp add: dec_def enc_def Let_def)
qed

lemma dec_enc_Nil [simp]: "dec (enc s) = (s, [])"
  using dec_enc [of s "[]"] by simp

lemma enc_nonempty [simp]: "enc s \<noteq> []"
  by (simp add: enc_def)

definition enc_int :: "int \<Rightarrow> string" where
  "enc_int i = enc (show_int 10 i)"

definition int_of :: "string \<Rightarrow> int" where
  "int_of s = (case SetString 10 s of None \<Rightarrow> 0 | Some i \<Rightarrow> i)"

lemma int_of_show [simp]: "int_of (show_int 10 i) = i"
  by (simp add: int_of_def SetString_show_int)

fun dec_list :: "nat \<Rightarrow> string \<Rightarrow> string list \<times> string" where
  "dec_list 0 x = ([], x)"
| "dec_list (Suc n) x = (let (s, x) = dec x; (ss, x) = dec_list n x in (s # ss, x))"

lemma dec_list_enc [simp]: "dec_list (length ss) (concat (map enc ss) @ rest) = (ss, rest)"
  by (induction ss) (simp_all add: Let_def)

definition enc_request :: "BundleRequest \<Rightarrow> string" where
  "enc_request q =
     enc_int (int (length (bq_Txs q))) @ concat (map enc (bq_Txs q)) @ enc (bq_BlockNumber q) @ enc_int (bq_MinTimestamp q) @
     enc_int (bq_MaxTimestamp q) @ (case bq_Replacement q of None \<Rightarrow> [] | Some r \<Rightarrow> enc r)"

definition dec_request :: "string \<Rightarrow> BundleRequest" where
  "dec_request x =
     (let (n, x) = dec x; (txs, x) = dec_list (nat (int_of n)) x; (b, x) = dec x; (mi, x) = dec x; (ma, x) = dec x
      in \<lparr> bq_Txs = txs, bq_BlockNumber = b, bq_MinTimestamp = int_of mi, bq_MaxTimestamp = int_of ma,
           bq_Replacement = (if x = [] then None else Some (fst (dec x))) \<rparr>)"

lemma dec_enc_request [simp]: "dec_request (enc_request q) = q"
  by (cases q) (simp add: dec_request_def enc_request_def enc_int_def Let_def split: option.splits)

definition enc_float :: "f64 \<Rightarrow> string" where
  "enc_float x = (case x of
       FNaN \<Rightarrow> ''NaN''
     | FInf neg \<Rightarrow> if neg then ''-Inf'' else ''+Inf''
     | FZero neg \<Rightarrow> if neg then ''-0'' else ''+0''
     | FFin q \<Rightarrow> ''q'' @ enc_int (fst (quotient_of q)) @ enc_int (snd (quotient_of q)))"

definition dec_float :: "string \<Rightarrow> f64" where
  "dec_float s =
     (if s = ''NaN'' then FNaN else if s = ''-Inf'' then FInf True else if s = ''+Inf'' then FInf False
      else if s = ''-0'' then FZero True else if s = ''+0'' then FZero False
      else let (n, x) = dec (tl s); (d, x) = dec x in FFin (of_int (int_of n) / of_int (int_of d)))"

lemma quotient_of_quotient: "of_int (fst (quotient_of q)) / of_int (snd (quotient_of q)) = q"
  using quotient_of_div [of q "fst (quotient_of q)" "snd (quotient_of q)"] by simp

lemma dec_enc_float [simp]: "dec_float (enc_float x) = x"
  by (cases x) (auto simp: dec_float_def enc_float_def enc_int_def Let_def quotient_of_quotient)

definition ref_codec :: Codec where
  "ref_codec = \<lparr>
     vc_fmtTime = show_int 10, vc_parseTime = int_of, vc_fmtFloat = enc_float, vc_parseFloat = dec_float,
     vc_marshalRequest = enc_request, vc_unmarshalRequest = (\<lambda>s. Inr (dec_request s)),
     vc_marshalEvent = (\<lambda>_. Inl ''unsupported''), vc_unmarshalEvent = (\<lambda>_. Inl ''unsupported''),
     vc_marshalCheckpoint = (\<lambda>_. Inl ''unsupported''), vc_unmarshalCheckpoint = (\<lambda>_. Inl ''unsupported''),
     vc_marshalPolicy = (\<lambda>_. Inl ''unsupported''), vc_unmarshalPolicy = (\<lambda>_. Inl ''unsupported'') \<rparr>"

lemma show_int10_nonempty [simp]: "show_int 10 i \<noteq> []"
  by (simp add: show_int_def)

lemma ref_codec_ok: "vcodec_ok ref_codec"
  by (simp add: vcodec_ok_def ref_codec_def) (simp add: enc_request_def enc_int_def)

end
