(* ===== verification/Go_Float_Mono.thy ===== *)
theory Go_Float_Mono
  imports Go_Float
begin

text \<open>
  Conversion of 64-bit integers to \<^verbatim>\<open>float64\<close> keeps their order: two integers may become the same number, but never
  change places.
\<close>

lemma round_even_mono:
  assumes "p \<le> q"
  shows "round_even p \<le> round_even q"
proof (cases "\<lfloor>p\<rfloor> = \<lfloor>q\<rfloor>")
  case True
  then show ?thesis using assms by (auto simp: round_even_def Let_def)
next
  case False
  then have "\<lfloor>p\<rfloor> + 1 \<le> \<lfloor>q\<rfloor>" using floor_mono [OF assms] by linarith
  moreover have "round_even p \<le> \<lfloor>p\<rfloor> + 1" by (simp add: round_even_def Let_def)
  ultimately show ?thesis using round_even_bounds(2) [of q] by linarith
qed

lemma round_even_of_int: "round_even (of_int n) = n"
  by (simp add: round_even_def Let_def)

lemma pow2_add_nat: "pow2 (e + int n) = 2 ^ n * pow2 e"
proof (induction n)
  case (Suc n)
  have "e + int (Suc n) = (e + int n) + 1" by simp
  then have "pow2 (e + int (Suc n)) = 2 * pow2 (e + int n)" by (simp only: pow2_Suc)
  then show ?case using Suc by simp
qed simp

lemma pow2_less: "e < e' \<Longrightarrow> 2 * pow2 e \<le> pow2 e'"
proof -
  assume "e < e'"
  then obtain n where "e' = e + int (Suc n)" by (metis zless_iff_Suc_zadd)
  then have "pow2 e' = 2 ^ Suc n * pow2 e" by (simp only: pow2_add_nat)
  moreover have "(2 :: rat) \<le> 2 ^ Suc n" by simp
  ultimately show ?thesis using pow2_pos [of e] mult_right_mono [of 2 "2 ^ Suc n" "pow2 e"] by simp
qed

lemma scale_up_spec:
  "2 ^ 52 \<le> q \<Longrightarrow> q < 2 ^ 53 * 2 ^ n \<Longrightarrow>
   2 ^ 52 * pow2 (scale_up n q e) \<le> q * pow2 e \<and> q * pow2 e < 2 ^ 53 * pow2 (scale_up n q e)"
proof (induction n arbitrary: q e)
  case (Suc n)
  show ?case
  proof (cases "q \<ge> 2 ^ 53")
    case True
    then have "2 ^ 52 * pow2 (scale_up n (q / 2) (e + 1)) \<le> q / 2 * pow2 (e + 1) \<and>
        q / 2 * pow2 (e + 1) < 2 ^ 53 * pow2 (scale_up n (q / 2) (e + 1))"
      using Suc.prems by (intro Suc.IH) simp_all
    then show ?thesis using True by (simp add: pow2_Suc)
  next
    case False
    then show ?thesis using Suc.prems pow2_pos [of e] by (simp add: not_le)
  qed
qed (simp add: not_le)

lemma scale_down_spec:
  "q < 2 ^ 53 \<Longrightarrow> 2 ^ 52 \<le> q * 2 ^ n \<Longrightarrow>
   2 ^ 52 * pow2 (scale_down n q e) \<le> q * pow2 e \<and> q * pow2 e < 2 ^ 53 * pow2 (scale_down n q e)"
proof (induction n arbitrary: q e)
  case (Suc n)
  show ?case
  proof (cases "q < 2 ^ 52")
    case True
    have "2 ^ 52 * pow2 (scale_down n (q * 2) (e - 1)) \<le> q * 2 * pow2 (e - 1) \<and>
        q * 2 * pow2 (e - 1) < 2 ^ 53 * pow2 (scale_down n (q * 2) (e - 1))"
      using Suc.prems True by (intro Suc.IH) simp_all
    then show ?thesis using True pow2_Suc [of "e - 1"] by simp
  next
    case False
    then show ?thesis using Suc.prems pow2_pos [of e] by (simp add: not_less)
  qed
qed simp

lemma ulp_spec:
  assumes "1 \<le> q" and "q < 2 ^ 64"
  shows "2 ^ 52 * pow2 (ulp_exp q) \<le> q \<and> q < 2 ^ 53 * pow2 (ulp_exp q)"
proof (cases "q \<ge> 2 ^ 53")
  case True
  have "q < 2 ^ 53 * 2 ^ 1100" using assms(2) by (rule less_le_trans) simp
  then show ?thesis using True scale_up_spec [of q 1100 0] by (simp add: ulp_exp_def pow2_def)
next
  case False
  have "(2 :: rat) ^ 52 \<le> 1 * 2 ^ 1074" by simp
  also have "\<dots> \<le> q * 2 ^ 1074" using assms(1) by (intro mult_right_mono) simp_all
  finally show ?thesis using False scale_down_spec [of q 1074 0] by (simp add: ulp_exp_def pow2_def)
qed

definition rounded :: "rat \<Rightarrow> rat" where
  "rounded q = of_int (round_even (q / pow2 (ulp_exp q))) * pow2 (ulp_exp q)"

lemma rounded_mono:
  assumes "1 \<le> p" and "p \<le> q" and "q < 2 ^ 64"
  shows "rounded p \<le> rounded q"
proof -
  let ?u = "pow2 (ulp_exp p)" and ?v = "pow2 (ulp_exp q)"
  have p: "2 ^ 52 * ?u \<le> p" "p < 2 ^ 53 * ?u" and q: "2 ^ 52 * ?v \<le> q" "q < 2 ^ 53 * ?v"
    using ulp_spec [of p] ulp_spec [of q] assms by simp_all
  have u: "0 < ?u" "0 < ?v" by simp_all
  show ?thesis
  proof (cases "ulp_exp p = ulp_exp q")
    case True
    have "round_even (p / ?v) \<le> round_even (q / ?v)" using assms(2) by (intro round_even_mono divide_right_mono) (simp_all add: less_imp_le)
    then show ?thesis using True u by (simp add: rounded_def)
  next
    case False
    have "ulp_exp p < ulp_exp q"
    proof (rule ccontr)
      assume "\<not> ulp_exp p < ulp_exp q"
      then have "2 * ?v \<le> ?u" using False by (intro pow2_less) simp
      moreover have "(2 ^ 53 :: rat) = 2 * 2 ^ 52" by simp
      ultimately have "q < 2 ^ 52 * ?u" using q(2) mult_left_mono [of "2 * ?v" ?u "2 ^ 52"] by simp
      then show False using p(1) assms(2) by linarith
    qed
    then have uv: "2 * ?u \<le> ?v" by (rule pow2_less)
    have "round_even (p / ?u) \<le> round_even (of_int (2 ^ 53))" using p(2) u by (intro round_even_mono) (simp add: divide_le_eq)
    then have "round_even (p / ?u) \<le> 2 ^ 53" by (simp only: round_even_of_int)
    then have "of_int (round_even (p / ?u)) \<le> (2 ^ 53 :: rat)" by (metis of_int_le_iff of_int_numeral of_int_power)
    then have "rounded p \<le> 2 ^ 53 * ?u" unfolding rounded_def by (intro mult_right_mono) (simp_all add: less_imp_le)
    moreover have "round_even (of_int (2 ^ 52)) \<le> round_even (q / ?v)" using q(1) u by (intro round_even_mono) (simp add: le_divide_eq)
    then have "2 ^ 52 \<le> round_even (q / ?v)" by (simp only: round_even_of_int)
    then have "(2 ^ 52 :: rat) \<le> of_int (round_even (q / ?v))" by (metis of_int_le_iff of_int_numeral of_int_power)
    then have "2 ^ 52 * ?v \<le> rounded q" unfolding rounded_def by (intro mult_right_mono) (simp_all add: less_imp_le)
    moreover have "2 ^ 53 * ?u \<le> 2 ^ 52 * ?v" using mult_left_mono [OF uv, of "2 ^ 52"] by simp
    ultimately show ?thesis by linarith
  qed
qed

lemma f_of_int_rounded: "1 \<le> n \<Longrightarrow> n \<le> max_int64 \<Longrightarrow> f_of_int n = FFin (rounded (of_int n))"
proof -
  assume n: "1 \<le> n" "n \<le> max_int64"
  then obtain r where "f_of_int n = FFin r" "r > 0" using f_of_int_pos by blast
  then show ?thesis
    using n(1) by (auto simp: f_of_int_def f_round_def f_round_mag_def Let_def rounded_def split: if_splits)
qed

lemma f_of_int_mono:
  assumes "1 \<le> i" and "i \<le> j" and "j \<le> max_int64"
  shows "f_le (f_of_int i) (f_of_int j)"
proof -
  have "(of_int j :: rat) < of_int (2 ^ 64)" using assms(3) unfolding of_int_less_iff by (simp add: max_int64_def)
  then have "rounded (of_int i) \<le> rounded (of_int j)" using assms by (intro rounded_mono) simp_all
  then show ?thesis
    using assms f_of_int_rounded [of i] f_of_int_rounded [of j] by (auto simp: f_le_def f_lt_def f_eq_def)
qed

end
