(* ===== verification/Relay_Valkey_Props.thy ===== *)
theory Relay_Valkey_Props
  imports Relay_Valkey_Server Relay_Store_Inv Go_Float_Mono
begin

text \<open>
  What the store on a Valkey server promises. The encoding of a record reads back (\<open>record_reads_back\<close>) as long as it
  fits (\<open>record_fits\<close>): its sequence number is below \<open>2\<^sup>6\<^sup>3\<close>, its times lie in the years 1 to 9999, its text is valid UTF-8. \<open>vk_sim\<close> relates a
  database to a state of the in-memory store; a transition of a bundle of the store's own shard, or a creation, that succeeds, whatever
  other clients do between its commands, is the in-memory store's at the instant of its \<^verbatim>\<open>EXEC\<close>. Claims of retries by several instances are disjoint.

  What is required of the server are the named hypotheses \<open>kv_laws\<close> and \<open>zset_laws\<close>, its documented behaviour
  for keys of the command's type, \<open>vk_types\<close>, which says that every key has the one type the program uses it with, and \<open>watch_ok\<close>: an \<^verbatim>\<open>EXEC\<close> goes through only when no
  watched key was changed since \<^verbatim>\<open>WATCH\<close>. \<open>ref_kv\<close> is a small server that meets them.
\<close>

section \<open>Encodings read back\<close>

lemma digits_value_ge: "digits_value base acc s = Some n \<Longrightarrow> 1 \<le> base \<Longrightarrow> acc \<le> n"
proof (induction base acc s rule: digits_value.induct)
  case (2 base acc c cs)
  then obtain d where "digits_value base (acc * base + d) cs = Some n" "digit_val c = Some d" "d < base"
    by (auto split: option.splits if_splits)
  then have "acc * base + d \<le> n" using "2.IH" "2.prems" by simp
  moreover have "acc \<le> acc * base" using "2.prems"(2) by simp
  ultimately show ?case by linarith
qed simp

lemma uint_loop_digits: "digits_value 10 acc s = Some n \<Longrightarrow> n < 2 ^ 64 \<Longrightarrow> uint_loop acc s = n"
proof (induction acc s rule: uint_loop.induct)
  case (2 acc c cs)
  then obtain d where d: "digits_value 10 (acc * 10 + d) cs = Some n" "digit_val c = Some d" "d < 10"
    by (auto split: option.splits if_splits)
  have "acc * 10 + d \<le> n" using digits_value_ge [OF d(1)] by simp
  then show ?case using d "2.IH" [OF d(2)] "2.prems"(2) by simp
qed simp

lemma uint_loop_show: "n < 2 ^ 64 \<Longrightarrow> uint_loop 0 (show_nat 10 n) = n"
  using uint_loop_digits [of 0 "show_nat 10 n" n] digits_value_show_nat [of 10 n] by simp

lemma mustUint64_show [simp]: "mustUint64 (show_nat 10 (unat w)) = w"
  proof -
  have "unat w < 2 ^ 64" using unsigned_less [of w] by simp
  then show ?thesis by (simp add: mustUint64_def uint_loop_show)
qed

lemma uint_loop_range: "n < 2 ^ 64 \<Longrightarrow> uint_loop n s < 2 ^ 64"
  by (induction n s rule: uint_loop.induct) (auto split: option.splits)

lemma show_nat_head: "show_nat 10 n = c # cs \<Longrightarrow> c \<noteq> CHR ''-'' \<and> c \<noteq> CHR ''+''"
  using show_nat_hex [of 10 c n] by (auto simp: is_hex_char_def)

lemma mustInt64_nat: "n < 2 ^ 63 \<Longrightarrow> mustInt64 (show_nat 10 n) = int n"
proof -
  assume "n < 2 ^ 63"
  moreover obtain c cs where "show_nat 10 n = c # cs" by (meson show_nat_nonempty list.exhaust)
  ultimately show ?thesis using show_nat_head [of n c cs] uint_loop_show [of n] by (simp add: mustInt64_def)
qed

lemma mustInt64_show: "min_int64 \<le> i \<Longrightarrow> i \<le> max_int64 \<Longrightarrow> mustInt64 (show_int 10 i) = i"
proof (cases "i < 0")
  case True
  assume "min_int64 \<le> i"
  then have "nat (- i) \<le> 2 ^ 63" by (simp add: min_int64_def)
  then show ?thesis using True uint_loop_show [of "nat (- i)"] by (simp add: show_int_def mustInt64_def)
next
  case False
  assume "i \<le> max_int64"
  then show ?thesis using False mustInt64_nat [of "nat i"] by (simp add: show_int_def max_int64_def nat_less_iff)
qed

lemma mustInt64_range: "min_int64 \<le> mustInt64 v \<and> mustInt64 v \<le> max_int64"
  using uint_loop_range [of 0 v] by (auto simp: mustInt64_def min_int64_def max_int64_def Let_def split: list.splits)

lemma state_of_string_string [simp]: "state_of_string (state_string s) = Some s"
  by (cases s) (simp_all add: state_of_string_def all_states_def)

definition numbers_fit :: "BundleRecord \<Rightarrow> bool" where
  "numbers_fit rec \<longleftrightarrow> int64_ok (bd_RetryCount rec) \<and> int64_ok (bd_Version rec) \<and> int64_ok (bd_ExpectedServiceMS rec)"

definition record_fits :: "BundleRecord \<Rightarrow> bool" where
  "record_fits rec \<longleftrightarrow> numbers_fit rec \<and> unat (bd_Sequence rec) < 2 ^ 63 \<and>
     rfc_time (bd_CreatedAt rec) \<and> rfc_time (bd_UpdatedAt rec) \<and> rfc_time (bd_QueuedAt rec) \<and>
     rfc_time (bd_CompletedAt rec) \<and> rfc_time (bd_DeadlineAt rec) \<and> request_ok (bd_Request rec) \<and>
     list_all f64_ok [bd_Score rec, bd_ProfitEth rec, bd_ExpectedValue rec, bd_ExpectedCost rec, bd_Priority rec]"

lemma mustTime_fmt: "vcodec_ok cd \<Longrightarrow> rfc_time t \<Longrightarrow> mustTime cd (vc_fmtTime cd t) = t"
  by (simp add: vcodec_ok_def mustTime_def)

text \<open>A hash that has the fields of a record, and perhaps others, reads as the record.\<close>

lemma mapToRecord_merged:
  assumes "vcodec_ok cd" and "record_fits rec"
    and merged: "\<And>f v. gm_get (recordToMap cd rec) f = Some v \<Longrightarrow> gm_get m f = Some v"
  shows "mapToRecord cd m = Inr (Some rec)"
proof -
  have get: "gm_get0 [] m f = v" if "gm_get (recordToMap cd rec) f = Some v" for f v
    using merged [OF that] by (simp add: gm_get0_def)
  note fields = get [unfolded recordToMap_def gm_get_def]
  have "gm_get m ''id'' = Some (bd_ID rec)" by (rule merged) (simp add: recordToMap_def gm_get_def)
  then have "m \<noteq> []" by auto
  moreover have "of_int (int (unat (bd_Sequence rec))) = bd_Sequence rec" by simp
  moreover have "vc_marshalRequest cd (bd_Request rec) \<noteq> []"
      "vc_unmarshalRequest cd (vc_marshalRequest cd (bd_Request rec)) = Inr (bd_Request rec)"
      "\<And>x. f64_ok x \<Longrightarrow> vc_parseFloat cd (vc_fmtFloat cd x) = x"
    using assms(1,2) by (simp_all add: vcodec_ok_def record_fits_def)
  ultimately show ?thesis
    using assms(1,2)
    by (simp add: mapToRecord_def fields mustInt_def mustInt64_show mustInt64_nat mustTime_fmt record_fits_def
        numbers_fit_def int64_ok_def)
qed

lemma zero_request_ok [simp]: "request_ok zero_request" "f64_ok f_zero"
  by (simp_all add: request_ok_def request_text_def zero_request_def utf8_valid_def int64_ok_def min_int64_def max_int64_def f64_ok_def)

lemma demo_bundle_fits: "record_fits demo_bundle"
  by (simp add: record_fits_def numbers_fit_def int64_ok_def min_int64_def max_int64_def rfc_time_def second_def demo_bundle_def zero_bundle_def)

text \<open>
  C15: what the store writes for a record it reads back as the same record, provided its sequence number is below
  \<open>2\<^sup>6\<^sup>3\<close>, its times lie in the years 1 to 9999, which the time format covers, the text of its request is valid UTF-8,
  which JSON keeps, and its numbers are values of their Go types.
\<close>

theorem record_reads_back:
  assumes "vcodec_ok cd" and "record_fits rec"
  shows "mapToRecord cd (recordToMap cd rec) = Inr (Some rec)"
  by (rule mapToRecord_merged [OF assms])

theorem record_reads_back_witness: "mapToRecord ref_codec (recordToMap ref_codec demo_bundle) = Inr (Some demo_bundle)"
  by (rule record_reads_back [OF ref_codec_ok demo_bundle_fits])

text \<open>
  Whatever text the fields of a hash hold, the numbers of the record that is read are in the range of their types,
  and its sequence number is that of a non-negative or a negated 64-bit integer: a number of \<open>2\<^sup>6\<^sup>3\<close> or more is read as \<open>2\<^sup>6\<^sup>3 - 1\<close>.
\<close>

theorem read_record_in_range:
  assumes "mapToRecord cd m = Inr (Some rec)"
  shows "numbers_fit rec \<and> (\<forall>n. 2 ^ 63 \<le> n \<and> n < 2 ^ 64 \<and> gm_get m ''sequence'' = Some (show_nat 10 n) \<longrightarrow>
    bd_Sequence rec = 2 ^ 63 - 1)"
proof
  have rec: "bd_RetryCount rec = mustInt64 (gm_get0 [] m ''retry_count'')" "bd_Version rec = mustInt64 (gm_get0 [] m ''version'')"
      "bd_ExpectedServiceMS rec = mustInt64 (gm_get0 [] m ''expected_service_ms'')"
      "bd_Sequence rec = of_int (mustInt64 (gm_get0 [] m ''sequence''))"
    using assms by (auto simp: mapToRecord_def Let_def mustInt_def split: if_splits option.splits sum.splits)
  then show "numbers_fit rec" using mustInt64_range by (simp add: numbers_fit_def int64_ok_def)
  show "\<forall>n. 2 ^ 63 \<le> n \<and> n < 2 ^ 64 \<and> gm_get m ''sequence'' = Some (show_nat 10 n) \<longrightarrow> bd_Sequence rec = 2 ^ 63 - 1"
  proof (intro allI impI, elim conjE)
    fix n :: nat
    assume n: "2 ^ 63 \<le> n" "n < 2 ^ 64" "gm_get m ''sequence'' = Some (show_nat 10 n)"
    obtain c cs where c: "show_nat 10 n = c # cs" by (meson show_nat_nonempty list.exhaust)
    have "mustInt64 (show_nat 10 n) = max_int64"
      using show_nat_head [OF c] uint_loop_show [OF n(2)] n(1) c by (simp add: mustInt64_def)
    then show "bd_Sequence rec = 2 ^ 63 - 1" using n(3) rec(4) by (simp add: gm_get0_def max_int64_def)
  qed
qed

theorem read_record_in_range_witness: "numbers_fit demo_bundle"
  using read_record_in_range [OF mapToRecord_merged [OF ref_codec_ok demo_bundle_fits], of "recordToMap ref_codec demo_bundle"] by blast

lemma authorityFromMap_merged:
  assumes "vcodec_ok cd" and "rfc_time (au_IssuedAt auth)" and "rfc_time (au_ExpiresAt auth)"
    and merged: "\<And>f v. gm_get (authorityToMap cd auth) f = Some v \<Longrightarrow> gm_get m f = Some v"
  shows "authorityFromMap cd m = Some auth"
proof -
  have get: "gm_get0 [] m f = v" if "gm_get (authorityToMap cd auth) f = Some v" for f v
    using merged [OF that] by (simp add: gm_get0_def)
  note fields = get [unfolded authorityToMap_def gm_get_def]
  have "gm_get m ''shard_id'' = Some (au_ShardID auth)" by (rule merged) (simp add: authorityToMap_def gm_get_def)
  then have "m \<noteq> []" by auto
  then show ?thesis using assms(1-3) by (simp add: authorityFromMap_def fields mustTime_fmt)
qed

section \<open>Optimistic transactions\<close>

text \<open>The database as the \<open>i\<close>-th command of an attempt finds it, and the promise of \<^verbatim>\<open>WATCH\<close>.\<close>

fun view :: "'d Net \<Rightarrow> 'd \<Rightarrow> nat \<Rightarrow> 'd" where
  "view net d 0 = nt_env net 0 d"
| "view net d (Suc i) = nt_env net (Suc i) (view net d i)"

definition watch_ok :: "'d Kv \<Rightarrow> string list \<Rightarrow> 'd Net \<Rightarrow> 'd \<Rightarrow> bool" where
  "watch_ok kv keys net d \<longleftrightarrow> (nt_commit net \<longrightarrow> (\<forall>k \<in> set keys. \<forall>i \<le> 3. same kv k (view net d i) (view net d 3)))"

fun watch_all ::
  "'d Kv \<Rightarrow> string list \<Rightarrow> ('d Net \<Rightarrow> 'd \<Rightarrow> ('e, 'r) tx_outcome \<times> 'd) \<Rightarrow> 'd Net list \<Rightarrow> 'd \<Rightarrow> bool" where
  "watch_all kv keys attempt [] d = True"
| "watch_all kv keys attempt (net # nets) d =
     (watch_ok kv keys net d \<and>
      (case attempt net d of (TxFailed, d1) \<Rightarrow> watch_all kv keys attempt nets d1 | _ \<Rightarrow> True))"

lemma watch_loop_done:
  "watch_loop attempt nets d = (Some (Inr r), d') \<Longrightarrow> watch_all kv keys attempt nets d \<Longrightarrow>
   \<exists>net \<in> set nets. \<exists>d0. watch_ok kv keys net d0 \<and> attempt net d0 = (TxDone r, d')"
proof (induction attempt nets d rule: watch_loop.induct)
  case (2 attempt net nets d)
  obtain out d1 where a: "attempt net d = (out, d1)" by (cases "attempt net d")
  show ?case
  proof (cases out)
    case TxFailed
    then show ?thesis using 2 a by auto
  next
    case (TxDone x)
    then show ?thesis using 2 a by (intro bexI [of _ net] exI [of _ d]) auto
  qed (use 2 a in auto)
qed simp

text \<open>A call during which nothing else happens.\<close>

definition quiet :: "gtime \<Rightarrow> 'd Net" where
  "quiet now = \<lparr> nt_env = (\<lambda>_ d. d), nt_fault = (\<lambda>_. None), nt_applied = (\<lambda>_. True), nt_commit = True, nt_clk = (\<lambda>_. now) \<rparr>"

lemma quiet_sel [simp]:
  "nt_env (quiet now) i d = d" "nt_fault (quiet now) i = None" "nt_commit (quiet now)" "nt_clk (quiet now) i = now"
  by (simp_all add: quiet_def)

lemma view_quiet [simp]: "view (quiet now) d i = d"
  by (induction i) simp_all

lemma watch_ok_quiet [simp]: "watch_ok kv keys (quiet now) d"
  by (simp add: watch_ok_def same_def)

section \<open>The database and the in-memory store\<close>

lemmas key_simps = vk_key_def authorityKey_def

text \<open>Every key the program uses is missing or of the type it uses it with.\<close>

definition vk_types :: "'d Kv \<Rightarrow> ValkeyStore \<Rightarrow> 'd \<Rightarrow> bool" where
  "vk_types kv st d \<longleftrightarrow> (\<forall>bid. typed kv ''hash'' (vk_key st [''bundle'', bid]) d) \<and>
     (\<forall>sh. typed kv ''hash'' (vk_key st [''authority'', sh]) d) \<and>
     (\<forall>h. typed kv ''string'' (vk_key st [''hash'', h]) d) \<and> typed kv ''zset'' (vk_key st [''bundles'']) d"

lemma hset_types:
  assumes "kv_laws kv" and "vk_types kv st d"
  shows "vk_types kv st (kv_exec kv (HSET (vk_key st [''bundle'', bid]) fs) d)"
proof -
  note ty = kv_typedD [OF assms(1)]
  have "typed kv ''hash'' (vk_key st [''bundle'', b]) (kv_exec kv (HSET (vk_key st [''bundle'', bid]) fs) d)" for b
    using assms(2) ty(2) ty(4) [of "HSET (vk_key st [''bundle'', bid]) fs" "vk_key st [''bundle'', b]"]
    by (cases "b = bid") (simp_all add: vk_types_def key_simps)
  then show ?thesis using assms(2) by (simp add: vk_types_def ty(4) key_simps)
qed

lemma set_types:
  assumes "kv_laws kv" and "vk_types kv st d"
  shows "vk_types kv st (kv_exec kv (SET (vk_key st [''hash'', h]) v t) d)"
proof -
  note ty = kv_typedD [OF assms(1)]
  have "typed kv ''string'' (vk_key st [''hash'', h']) (kv_exec kv (SET (vk_key st [''hash'', h]) v t) d)" for h'
    using assms(2) ty(1) ty(4) [of "SET (vk_key st [''hash'', h]) v t" "vk_key st [''hash'', h']"]
    by (cases "h' = h") (simp_all add: vk_types_def key_simps)
  then show ?thesis using assms(2) by (simp add: vk_types_def ty(4) key_simps)
qed

lemma zadd_types:
  assumes "kv_laws kv" and "vk_types kv st d"
  shows "vk_types kv st (kv_exec kv (ZADD (vk_key st [''bundles'']) sc m) d)"
  using assms(2) by (simp add: vk_types_def kv_typedD(3,4) [OF assms(1)] key_simps)

lemma expire_types: "kv_laws kv \<Longrightarrow> 0 < t \<Longrightarrow> vk_types kv st d \<Longrightarrow> vk_types kv st (kv_exec kv (EXPIRE k t) d)"
  by (simp add: vk_types_def kv_typedD(5))

definition vk_sim :: "Codec \<Rightarrow> 'd Kv \<Rightarrow> ValkeyStore \<Rightarrow> 'd \<Rightarrow> MemStore \<Rightarrow> bool" where
  "vk_sim cd kv st d s \<longleftrightarrow> \<not> ms_closed s \<and> vk_types kv st d \<and>
     (\<forall>bid. mapToRecord cd (kv_hgetall kv (vk_key st [''bundle'', bid]) d) = Inr (gm_get (ms_records s) bid)) \<and>
     (\<forall>h. (case kv_get kv (vk_key st [''hash'', h]) d of None \<Rightarrow> None | Some e \<Rightarrow> if e = [] then None else Some e) =
        gm_get (ms_hashIndex s) h) \<and>
     (\<forall>sh. sh \<noteq> [] \<longrightarrow> authorityFromMap cd (kv_hgetall kv (vk_key st [''authority'', sh]) d) = gm_get (ms_authority s) sh) \<and>
     (\<forall>sh a. gm_get (ms_authority s) sh = Some a \<longrightarrow> au_ShardID a = sh)"

lemma vk_simD:
  assumes "vk_sim cd kv st d s"
  shows "mapToRecord cd (kv_hgetall kv (vk_key st [''bundle'', bid]) d) = Inr (gm_get (ms_records s) bid)"
    and "sh \<noteq> [] \<Longrightarrow> authorityFromMap cd (kv_hgetall kv (vk_key st [''authority'', sh]) d) = gm_get (ms_authority s) sh"
    and "gm_get (ms_authority s) sh = Some a \<Longrightarrow> au_ShardID a = sh"
    and "(case kv_get kv (vk_key st [''hash'', h]) d of None \<Rightarrow> None | Some e \<Rightarrow> if e = [] then None else Some e) =
        gm_get (ms_hashIndex s) h"
    and "vk_types kv st d"
  using assms unfolding vk_sim_def by blast+

lemma mapToRecord_None: "mapToRecord cd m = Inr None \<longleftrightarrow> m = []"
  by (auto simp: mapToRecord_def Let_def split: option.splits sum.splits if_splits)

lemma validate_same:
  assumes "vk_sim cd kv st d s" and "bd_ShardID rec \<noteq> []"
  shows "validateAuthorityLocked now s rec =
    (case authorityFromMap cd (kv_hgetall kv (vk_key st [''authority'', bd_ShardID rec]) d) of
       None \<Rightarrow> Some ErrStaleAuthority | Some auth \<Rightarrow> validateAuthority now rec auth)"
  unfolding vk_simD(2) [OF assms] validateAuthorityLocked_def validateAuthority_def
  using vk_simD(3) [OF assms(1)] assms(2) by (auto split: option.splits)

lemma update_sim:
  assumes "kv_laws kv" and "vcodec_ok cd" and "0 < vs_retention st" and "vk_sim cd kv st d s" and "record_fits r"
  shows "vk_sim cd kv st (run_cmds kv (update_cmds cd st bid r) d) (put_record bid r s)"
proof -
  let ?d = "run_cmds kv (update_cmds cd st bid r) d" and ?k = "vk_key st [''bundle'', bid]"
  note laws = kv_lawsD [OF assms(1)]
  have hash: "kv_hgetall kv k ?d = kv_hgetall kv k (kv_exec kv (HSET ?k (recordToMap cd r)) d)" for k
    using assms(3) by (simp add: run_cmds_def update_cmds_def laws(6))
  have get: "kv_get kv k ?d = kv_get kv k (kv_exec kv (HSET ?k (recordToMap cd r)) d)" for k
    using assms(3) by (simp add: run_cmds_def update_cmds_def laws(5))
  have "mapToRecord cd (kv_hgetall kv ?k ?d) = Inr (Some r)"
    unfolding hash using vk_simD(5) [OF assms(4)]
    by (intro mapToRecord_merged [OF assms(2,5)]) (simp add: laws(2) vk_types_def)
  moreover have "kv_hgetall kv k ?d = kv_hgetall kv k d" if "k \<noteq> ?k" for k
    unfolding hash using that laws(4) [of "HSET ?k (recordToMap cd r)" k d] by simp
  moreover have "kv_get kv (vk_key st [''hash'', h]) ?d = kv_get kv (vk_key st [''hash'', h]) d" for h
    unfolding get using laws(3) [of "HSET ?k (recordToMap cd r)" "vk_key st [''hash'', h]" d] by (simp add: key_simps)
  moreover have "vk_types kv st ?d"
    using vk_simD(5) [OF assms(4)] assms(3)
    by (simp add: run_cmds_def update_cmds_def hset_types expire_types assms(1))
  ultimately show ?thesis
    using assms(4) unfolding vk_sim_def put_record_def by (auto simp: key_simps)
qed

section \<open>Changes of a bundle\<close>

lemma change_tx_done:
  assumes "change_tx cd kv st bid pre f net d = (TxDone r, d')"
  shows "\<exists>rec auth. mapToRecord cd (kv_hgetall kv (vk_key st [''bundle'', bid]) (view net d 1)) = Inr (Some rec) \<and> pre rec = None \<and>
    authorityFromMap cd (kv_hgetall kv (vk_key st [''authority'', bd_ShardID rec]) (view net d 2)) = Some auth \<and>
    validateAuthority (nt_clk net 0) rec auth = None \<and> r = f (nt_clk net 1) rec \<and> nt_commit net \<and>
    d' = run_cmds kv (update_cmds cd st bid r) (view net d 3)"
  using assms
  by (auto simp: change_tx_def kv_read_def currentAuthorityTx_def tx_exec_def Let_def mapToRecord_None numeral_3_eq_3 numeral_2_eq_2
      split: option.splits sum.splits if_splits)

text \<open>
  At the instant of its \<^verbatim>\<open>EXEC\<close> a change that goes through meets what it has read before, if the bundle belongs to
  the store's own shard, whose authority is the one that is watched.
\<close>

lemma change_tx_atomic:
  assumes "change_tx cd kv st bid pre f net d = (TxDone r, d')"
    and "watch_ok kv [vk_key st [''bundle'', bid], authorityKey st (vs_shardID st)] net d"
    and sim: "vk_sim cd kv st (view net d 3) s" and "vs_shardID st \<noteq> []"
    and own: "\<And>rec. gm_get (ms_records s) bid = Some rec \<Longrightarrow> bd_ShardID rec = vs_shardID st"
  shows "\<exists>rec. gm_get (ms_records s) bid = Some rec \<and> pre rec = None \<and> validateAuthorityLocked (nt_clk net 0) s rec = None \<and>
    r = f (nt_clk net 1) rec \<and> d' = run_cmds kv (update_cmds cd st bid r) (view net d 3)"
proof -
  obtain rec auth where tx: "mapToRecord cd (kv_hgetall kv (vk_key st [''bundle'', bid]) (view net d 1)) = Inr (Some rec)" "pre rec = None"
      "authorityFromMap cd (kv_hgetall kv (vk_key st [''authority'', bd_ShardID rec]) (view net d 2)) = Some auth"
      "validateAuthority (nt_clk net 0) rec auth = None" "r = f (nt_clk net 1) rec" "nt_commit net"
      "d' = run_cmds kv (update_cmds cd st bid r) (view net d 3)"
    using change_tx_done [OF assms(1)] by blast
  have same: "kv_hgetall kv k (view net d i) = kv_hgetall kv k (view net d 3)"
    if "k = vk_key st [''bundle'', bid] \<or> k = authorityKey st (vs_shardID st)" "i \<le> 3" for k i
    using assms(2) tx(6) that unfolding watch_ok_def same_def by auto
  have rec: "gm_get (ms_records s) bid = Some rec"
    using vk_simD(1) [OF sim, of bid] tx(1) same [of _ 1] by simp
  have shard: "bd_ShardID rec = vs_shardID st" by (rule own [OF rec])
  have "authorityFromMap cd (kv_hgetall kv (vk_key st [''authority'', bd_ShardID rec]) (view net d 3)) = Some auth"
    using tx(3) same [of "authorityKey st (vs_shardID st)" 2] shard assms(4) by (simp add: authorityKey_def)
  then have "validateAuthorityLocked (nt_clk net 0) s rec = None"
    using validate_same [OF sim, of rec] tx(4) shard assms(4) by simp
  then show ?thesis using rec tx by blast
qed

definition demo_vs :: ValkeyStore where
  "demo_vs = \<lparr> vs_prefix = ''mev:v3'', vs_shardID = ''shard-0'', vs_retention = second, vs_history = 256 \<rparr>"

definition lease_cmd :: kv_cmd where
  "lease_cmd = HSET (vk_key demo_vs [''authority'', ''shard-0'']) (authorityToMap ref_codec demo_auth)"

definition bundle_cmd :: kv_cmd where
  "bundle_cmd = HSET (vk_key demo_vs [''bundle'', ''h:1'']) (recordToMap ref_codec demo_bundle)"

definition demo_db :: ref_db where
  "demo_db = ref_exec bundle_cmd (ref_exec lease_cmd [])"

lemma ref_exec_kv: "ref_exec = kv_exec ref_kv"
  by (simp add: ref_kv_def)

lemma ref_typed_empty [simp]: "typed ref_kv ty k []"
  by (simp add: typed_def ref_kv_def ref_type_def gm_get_def)

lemma lease_read: "authorityFromMap ref_codec (kv_hgetall ref_kv (vk_key demo_vs [''authority'', ''shard-0'']) (ref_exec lease_cmd [])) = Some demo_auth"
  unfolding ref_exec_kv lease_cmd_def
  by (rule authorityFromMap_merged [OF ref_codec_ok])
    (simp_all add: kv_lawsD(2) [OF ref_kv_laws ref_typed_empty] rfc_time_def second_def demo_auth_def)

lemma demo_db_reads:
  "mapToRecord ref_codec (kv_hgetall ref_kv (vk_key demo_vs [''bundle'', ''h:1'']) demo_db) = Inr (Some demo_bundle)"
  "authorityFromMap ref_codec (kv_hgetall ref_kv (vk_key demo_vs [''authority'', ''shard-0'']) demo_db) = Some demo_auth"
proof -
  show "mapToRecord ref_codec (kv_hgetall ref_kv (vk_key demo_vs [''bundle'', ''h:1'']) demo_db) = Inr (Some demo_bundle)"
    unfolding demo_db_def ref_exec_kv bundle_cmd_def
  proof (rule mapToRecord_merged [OF ref_codec_ok demo_bundle_fits])
    have "typed ref_kv ''hash'' (vk_key demo_vs [''bundle'', ''h:1'']) (kv_exec ref_kv lease_cmd [])"
      using kv_typedD(4) [OF ref_kv_laws, of lease_cmd "vk_key demo_vs [''bundle'', ''h:1'']"] by (simp add: lease_cmd_def key_simps)
    from kv_lawsD(2) [OF ref_kv_laws this]
    show "gm_get (kv_hgetall ref_kv (vk_key demo_vs [''bundle'', ''h:1''])
        (kv_exec ref_kv (HSET (vk_key demo_vs [''bundle'', ''h:1'']) (recordToMap ref_codec demo_bundle)) (kv_exec ref_kv lease_cmd []))) f = Some v"
      if "gm_get (recordToMap ref_codec demo_bundle) f = Some v" for f v
      using that by simp
  qed
  have "kv_hgetall ref_kv (vk_key demo_vs [''authority'', ''shard-0'']) demo_db =
      kv_hgetall ref_kv (vk_key demo_vs [''authority'', ''shard-0'']) (ref_exec lease_cmd [])"
    unfolding demo_db_def ref_exec_kv by (rule kv_lawsD(4) [OF ref_kv_laws]) (simp add: bundle_cmd_def key_simps)
  then show "authorityFromMap ref_codec (kv_hgetall ref_kv (vk_key demo_vs [''authority'', ''shard-0'']) demo_db) = Some demo_auth"
    by (simp only: lease_read)
qed

lemma demo_valid: "validateAuthority 5 demo_bundle demo_auth = None"
  by (simp add: validateAuthority_def demo_bundle_def demo_auth_def Valid_def now_or_def time_is_zero_def)

lemma demo_change:
  assumes "pre demo_bundle = None"
  shows "change_tx ref_codec ref_kv demo_vs ''h:1'' pre f (quiet 5) demo_db =
    (TxDone (f 5 demo_bundle), run_cmds ref_kv (update_cmds ref_codec demo_vs ''h:1'' (f 5 demo_bundle)) demo_db)"
proof -
  have "kv_hgetall ref_kv (vk_key demo_vs [''bundle'', ''h:1'']) demo_db \<noteq> []"
    using demo_db_reads(1) by (metis mapToRecord_None Inr_inject option.distinct(1))
  moreover have "bd_ShardID demo_bundle = ''shard-0''" by (simp add: demo_bundle_def)
  ultimately show ?thesis
    using assms demo_db_reads demo_valid
    by (simp add: change_tx_def kv_read_def currentAuthorityTx_def tx_exec_def Let_def)
qed

text \<open>
  C4: a transition that succeeds, however many attempts it takes and whatever other clients do between its
  commands, is at the instant of its \<^verbatim>\<open>EXEC\<close> the transition the in-memory store makes, if the bundle then belongs to the
  store's own shard: the bundle was in the state given, its lease was valid, and the new record is the in-memory store's. The lease of
  another shard is not watched; \<open>unwatched_authority\<close> shows that the statement fails there. The record must fit its encoding
  (\<open>record_fits\<close>), and the server's keys have the types the program gives them (\<open>vk_types\<close>).
\<close>

theorem vk_transition_refines_memory:
  assumes "kv_laws kv" and "vcodec_ok cd" and "0 < vs_retention st" and "vs_shardID st \<noteq> []"
    and "vk_TransitionBundle cd kv st bid from to reason nets d = (Some (Inr r), d')"
    and "watch_all kv [vk_key st [''bundle'', bid], authorityKey st (vs_shardID st)]
      (change_tx cd kv st bid (\<lambda>rec. if bd_State rec \<noteq> from then Some ErrStateMismatch else None) (\<lambda>now. transition_record now to reason)) nets d"
    and "record_fits r"
  shows "\<exists>net \<in> set nets. \<exists>d1. d' = run_cmds kv (update_cmds cd st bid r) d1 \<and>
    (\<forall>s. vk_sim cd kv st d1 s \<and> (\<forall>rec. gm_get (ms_records s) bid = Some rec \<longrightarrow> bd_ShardID rec = vs_shardID st) \<longrightarrow>
       TransitionBundle (nt_clk net) bid from to reason s = (Inr r, put_record bid r s) \<and>
       vk_sim cd kv st d' (put_record bid r s))"
proof -
  let ?tx = "change_tx cd kv st bid (\<lambda>rec. if bd_State rec \<noteq> from then Some ErrStateMismatch else None)
    (\<lambda>now. transition_record now to reason)"
  have valid: "ValidateTransition from to = None" and loop: "watch_loop ?tx nets d = (Some (Inr r), d')"
    using assms(5) by (auto simp: vk_TransitionBundle_def split: option.splits)
  obtain net d0 where net: "net \<in> set nets" "watch_ok kv [vk_key st [''bundle'', bid], authorityKey st (vs_shardID st)] net d0"
      "?tx net d0 = (TxDone r, d')"
    using watch_loop_done [OF loop assms(6)] by blast
  have d': "d' = run_cmds kv (update_cmds cd st bid r) (view net d0 3)" using change_tx_done [OF net(3)] by blast
  have "TransitionBundle (nt_clk net) bid from to reason s = (Inr r, put_record bid r s) \<and> vk_sim cd kv st d' (put_record bid r s)"
    if sim: "vk_sim cd kv st (view net d0 3) s" and own: "\<And>rec. gm_get (ms_records s) bid = Some rec \<Longrightarrow> bd_ShardID rec = vs_shardID st" for s
  proof
    obtain rec where "gm_get (ms_records s) bid = Some rec" "bd_State rec = from" "validateAuthorityLocked (nt_clk net 0) s rec = None"
        "r = transition_record (nt_clk net 1) to reason rec"
      using change_tx_atomic [OF net(3,2) sim assms(4) own] by (auto split: if_splits)
    then show "TransitionBundle (nt_clk net) bid from to reason s = (Inr r, put_record bid r s)"
      using valid by (simp add: TransitionBundle_def Let_def)
    show "vk_sim cd kv st d' (put_record bid r s)" unfolding d' by (rule update_sim [OF assms(1-3) sim assms(7)])
  qed
  then show ?thesis using net(1) d' by blast
qed

theorem vk_transition_refines_memory_witness:
  "\<exists>r d'. vk_TransitionBundle ref_codec ref_kv demo_vs ''h:1'' StateReceived StateValidated ''ok'' [quiet 5] demo_db = (Some (Inr r), d') \<and>
    (\<exists>d1. d' = run_cmds ref_kv (update_cmds ref_codec demo_vs ''h:1'' r) d1 \<and>
      (\<forall>s. vk_sim ref_codec ref_kv demo_vs d1 s \<and> (\<forall>rec. gm_get (ms_records s) ''h:1'' = Some rec \<longrightarrow> bd_ShardID rec = vs_shardID demo_vs) \<longrightarrow>
         TransitionBundle (nt_clk (quiet 5 :: ref_db Net)) ''h:1'' StateReceived StateValidated ''ok'' s = (Inr r, put_record ''h:1'' r s) \<and>
         vk_sim ref_codec ref_kv demo_vs d' (put_record ''h:1'' r s)))"
proof -
  let ?pre = "\<lambda>rec. if bd_State rec \<noteq> StateReceived then Some ErrStateMismatch else None"
  let ?r = "transition_record 5 StateValidated ''ok'' demo_bundle"
  let ?d = "run_cmds ref_kv (update_cmds ref_codec demo_vs ''h:1'' ?r) demo_db"
  have "?pre demo_bundle = None" by (simp add: demo_bundle_def zero_bundle_def)
  from demo_change [of ?pre, OF this]
  have tx: "change_tx ref_codec ref_kv demo_vs ''h:1'' ?pre (\<lambda>now. transition_record now StateValidated ''ok'') (quiet 5) demo_db = (TxDone ?r, ?d)" .
  have run: "vk_TransitionBundle ref_codec ref_kv demo_vs ''h:1'' StateReceived StateValidated ''ok'' [quiet 5] demo_db = (Some (Inr ?r), ?d)"
    using tx by (simp add: vk_TransitionBundle_def ValidateTransition_def CanTransition_def)
  have fits: "record_fits ?r"
    by (simp add: transition_record_def record_fits_def numbers_fit_def int64_ok_def min_int64_def max_int64_def rfc_time_def second_def
        demo_bundle_def zero_bundle_def zero_request_ok Let_def)
  have st: "0 < vs_retention demo_vs" "vs_shardID demo_vs \<noteq> []" by (simp_all add: demo_vs_def second_def)
  have "watch_all ref_kv [vk_key demo_vs [''bundle'', ''h:1''], authorityKey demo_vs (vs_shardID demo_vs)]
      (change_tx ref_codec ref_kv demo_vs ''h:1'' ?pre (\<lambda>now. transition_record now StateValidated ''ok'')) [quiet 5] demo_db"
    using tx by simp
  from vk_transition_refines_memory [OF ref_kv_laws ref_codec_ok st run this fits] run show ?thesis by auto
qed

section \<open>Creation\<close>

lemma gm_len_set_le: "gm_len (gm_set m k v) \<le> Suc (gm_len m)"
  by (induction m) (auto simp: gm_len_def gm_set_def)

text \<open>All that a creation reads is watched, so it needs no condition on the shard.\<close>

definition create_at :: "BundleRecord \<Rightarrow> nat" where
  "create_at rec = (if bd_ShardID rec = [] then 2 else 3)"

lemma create_tx_done:
  assumes "vk_create_tx cd kv st rec net d = (TxDone r, d')" and "nt_fault net 1 = None"
  shows "r = rec \<and> nt_commit net \<and> d' = run_cmds kv (create_cmds cd st rec) (view net d (create_at rec)) \<and>
    (case kv_get kv (vk_key st [''hash'', bd_BundleHash rec]) (view net d 1) of None \<Rightarrow> True | Some e \<Rightarrow> e = []) \<and>
    (bd_ShardID rec \<noteq> [] \<longrightarrow>
       (\<exists>auth. authorityFromMap cd (kv_hgetall kv (vk_key st [''authority'', bd_ShardID rec]) (view net d 2)) = Some auth \<and>
          validateAuthority (nt_clk net 0) rec auth = None))"
  using assms
  by (auto simp: vk_create_tx_def create_checked_def duplicate_of_def vk_GetBundle_def kv_read_def tx_exec_def create_at_def
      authorityKey_def Let_def numeral_3_eq_3 numeral_2_eq_2 split: option.splits sum.splits if_splits)

lemma create_sim:
  assumes "kv_laws kv" and "vcodec_ok cd" and "0 < vs_retention st" and "vk_sim cd kv st d s" and "record_fits r" and "bd_ID r \<noteq> []"
  shows "vk_sim cd kv st (run_cmds kv (create_cmds cd st r) d)
    (s\<lparr> ms_records := gm_set (ms_records s) (bd_ID r) r, ms_hashIndex := gm_set (ms_hashIndex s) (bd_BundleHash r) (bd_ID r) \<rparr>)"
proof -
  let ?d = "run_cmds kv (create_cmds cd st r) d" and ?b = "vk_key st [''bundle'', bd_ID r]" and ?h = "vk_key st [''hash'', bd_BundleHash r]"
  note laws = kv_lawsD [OF assms(1)]
  have b: "kv_hgetall kv (vk_key st [''bundle'', bid]) ?d = kv_hgetall kv (vk_key st [''bundle'', bid])
      (kv_exec kv (HSET ?b (recordToMap cd r)) (kv_exec kv (SET ?h (bd_ID r) (vs_retention st)) d))" for bid
    using assms(3) by (simp add: run_cmds_def create_cmds_def Let_def laws(4,6) key_simps)
  have "mapToRecord cd (kv_hgetall kv ?b ?d) = Inr (Some r)"
    unfolding b using set_types [OF assms(1) vk_simD(5) [OF assms(4)]]
    by (intro mapToRecord_merged [OF assms(2,5)]) (simp add: laws(2) vk_types_def)
  moreover have "kv_hgetall kv (vk_key st [''bundle'', bid]) ?d = kv_hgetall kv (vk_key st [''bundle'', bid]) d" if "bid \<noteq> bd_ID r" for bid
    unfolding b using that by (simp add: laws(4) key_simps)
  moreover have "kv_hgetall kv (vk_key st [''authority'', sh]) ?d = kv_hgetall kv (vk_key st [''authority'', sh]) d" for sh
    using assms(3) by (simp add: run_cmds_def create_cmds_def Let_def laws(4,6) key_simps)
  moreover have "kv_get kv (vk_key st [''hash'', h]) ?d = kv_get kv (vk_key st [''hash'', h]) (kv_exec kv (SET ?h (bd_ID r) (vs_retention st)) d)" for h
    using assms(3) by (simp add: run_cmds_def create_cmds_def Let_def laws(3,5) key_simps)
  then have "kv_get kv (vk_key st [''hash'', h]) ?d = (if h = bd_BundleHash r then Some (bd_ID r) else kv_get kv (vk_key st [''hash'', h]) d)" for h
    using laws(1) laws(3) [of "SET ?h (bd_ID r) (vs_retention st)" "vk_key st [''hash'', h]" d] by (simp add: key_simps)
  moreover have "vk_types kv st ?d"
    using vk_simD(5) [OF assms(4)] assms(3)
    by (simp add: run_cmds_def create_cmds_def Let_def set_types hset_types zadd_types expire_types assms(1))
  ultimately show ?thesis using assms(4,6) unfolding vk_sim_def by auto
qed

text \<open>
  C16: a creation that succeeds, whatever other clients do meanwhile, is at the instant of its \<^verbatim>\<open>EXEC\<close> the creation the in-memory
  store makes: no bundle with the hash existed and the lease was valid. The conditions: the command that looks the hash up did not
  fail in any attempt (\<open>create_ignores_lookup_error\<close> shows what happens if it does), the in-memory store has room for one more record (the Valkey
  store has no limit), the record fits its encoding, and the server's keys have the types the program gives them.
\<close>

theorem vk_create_refines_memory:
  assumes "kv_laws kv" and "vcodec_ok cd" and "0 < vs_retention st" and "record_fits rec" and "bd_ID rec \<noteq> []"
    and "vk_CreateBundle cd kv st rec nets d = (Some (Inr r), d')" and "\<forall>net \<in> set nets. nt_fault net 1 = None"
    and "watch_all kv [vk_key st [''hash'', bd_BundleHash rec], vk_key st [''bundle'', bd_ID rec], vk_key st [''bundles''],
        authorityKey st (bd_ShardID rec)] (vk_create_tx cd kv st rec) nets d"
  shows "\<exists>net \<in> set nets. \<exists>d1. d' = run_cmds kv (create_cmds cd st rec) d1 \<and>
    (\<forall>s ord. vk_sim cd kv st d1 s \<and> int (gm_len (ms_records s)) < ms_limit s \<longrightarrow>
       (\<exists>s'. CreateBundle ord (nt_clk net 0) rec s = (Inr r, s') \<and> vk_sim cd kv st d' s'))"
proof -
  let ?keys = "[vk_key st [''hash'', bd_BundleHash rec], vk_key st [''bundle'', bd_ID rec], vk_key st [''bundles''], authorityKey st (bd_ShardID rec)]"
  obtain net d0 where net: "net \<in> set nets" "watch_ok kv ?keys net d0" "vk_create_tx cd kv st rec net d0 = (TxDone r, d')"
    using watch_loop_done [OF assms(6) [unfolded vk_CreateBundle_def] assms(8)] by blast
  note tx = create_tx_done [OF net(3)] 
  let ?d1 = "view net d0 (create_at rec)"
  have fault: "nt_fault net 1 = None" using assms(7) net(1) by blast
  have same: "same kv k (view net d0 i) ?d1" if "k \<in> set ?keys" "i \<le> 3" for k i
  proof -
    have "create_at rec \<le> 3" by (simp add: create_at_def)
    then have "same kv k (view net d0 i) (view net d0 3)" "same kv k ?d1 (view net d0 3)"
      using net(2) tx [OF fault] that unfolding watch_ok_def by blast+
    then show ?thesis by (simp add: same_def)
  qed
  have d': "d' = run_cmds kv (create_cmds cd st rec) ?d1" and r: "r = rec" using tx [OF fault] by blast+
  have "\<exists>s'. CreateBundle ord (nt_clk net 0) rec s = (Inr r, s') \<and> vk_sim cd kv st d' s'"
    if sim: "vk_sim cd kv st ?d1 s" and room: "int (gm_len (ms_records s)) < ms_limit s" for s ord
  proof -
    let ?s = "s\<lparr> ms_records := gm_set (ms_records s) (bd_ID rec) rec, ms_hashIndex := gm_set (ms_hashIndex s) (bd_BundleHash rec) (bd_ID rec) \<rparr>"
    have "kv_get kv (vk_key st [''hash'', bd_BundleHash rec]) ?d1 = kv_get kv (vk_key st [''hash'', bd_BundleHash rec]) (view net d0 1)"
      using same [of "vk_key st [''hash'', bd_BundleHash rec]" 1] by (simp add: same_def)
    then have hash: "gm_get (ms_hashIndex s) (bd_BundleHash rec) = None"
      using vk_simD(4) [OF sim, of "bd_BundleHash rec"] tx [OF fault] by (auto split: option.splits if_splits)
    have "validateAuthorityLocked (nt_clk net 0) s rec = None"
    proof (cases "bd_ShardID rec = []")
      case False
      then have "kv_hgetall kv (vk_key st [''authority'', bd_ShardID rec]) (view net d0 2) =
          kv_hgetall kv (vk_key st [''authority'', bd_ShardID rec]) ?d1"
        using same [of "authorityKey st (bd_ShardID rec)" 2] by (simp add: same_def authorityKey_def)
      then show ?thesis using validate_same [OF sim False] tx [OF fault] False by auto
    qed (simp add: validateAuthorityLocked_def)
    moreover have "\<not> ms_closed s" using sim by (simp add: vk_sim_def)
    moreover have "int (gm_len (gm_set (ms_records s) (bd_ID rec) rec)) \<le> ms_limit s" 
      using room gm_len_set_le [of "ms_records s" "bd_ID rec" rec] by linarith
    then have "ms_pruneLocked ord ?s = ?s" by (simp add: ms_pruneLocked_def)
    ultimately have "CreateBundle ord (nt_clk net 0) rec s = (Inr r, ?s)" using hash r by (simp add: CreateBundle_def)
    then show ?thesis unfolding d' using create_sim [OF assms(1-3) sim assms(4,5)] by blast
  qed
  then show ?thesis using net(1) d' by blast
qed

theorem vk_create_refines_memory_witness:
  "\<exists>d'. vk_CreateBundle ref_codec ref_kv demo_vs demo_bundle [quiet 5] (ref_exec lease_cmd []) = (Some (Inr demo_bundle), d') \<and>
    (\<exists>d1. d' = run_cmds ref_kv (create_cmds ref_codec demo_vs demo_bundle) d1 \<and>
      (\<forall>s ord. vk_sim ref_codec ref_kv demo_vs d1 s \<and> int (gm_len (ms_records s)) < ms_limit s \<longrightarrow>
         (\<exists>s'. CreateBundle ord (nt_clk (quiet 5 :: ref_db Net) 0) demo_bundle s = (Inr demo_bundle, s') \<and> vk_sim ref_codec ref_kv demo_vs d' s')))"
proof -
  let ?start = "ref_exec lease_cmd []"
  let ?d = "run_cmds ref_kv (create_cmds ref_codec demo_vs demo_bundle) ?start"
  have b: "bd_ShardID demo_bundle = ''shard-0''" "bd_ID demo_bundle \<noteq> []" by (simp_all add: demo_bundle_def)
  have "kv_get ref_kv (vk_key demo_vs [''hash'', bd_BundleHash demo_bundle]) ?start = None"
    unfolding ref_exec_kv using kv_lawsD(3) [OF ref_kv_laws, of lease_cmd "vk_key demo_vs [''hash'', bd_BundleHash demo_bundle]" "[]"]
    by (simp add: lease_cmd_def key_simps ref_kv_def)
  then have tx: "vk_create_tx ref_codec ref_kv demo_vs demo_bundle (quiet 5) ?start = (TxDone demo_bundle, ?d)"
    using b lease_read demo_valid
    by (simp add: vk_create_tx_def create_checked_def kv_read_def tx_exec_def Let_def authorityKey_def)
  have run: "vk_CreateBundle ref_codec ref_kv demo_vs demo_bundle [quiet 5] ?start = (Some (Inr demo_bundle), ?d)"
    using tx by (simp add: vk_CreateBundle_def)
  have st: "0 < vs_retention demo_vs" by (simp add: demo_vs_def second_def)
  have fault: "\<forall>net \<in> set [quiet 5 :: ref_db Net]. nt_fault net 1 = None" by simp
  have "watch_all ref_kv [vk_key demo_vs [''hash'', bd_BundleHash demo_bundle], vk_key demo_vs [''bundle'', bd_ID demo_bundle],
      vk_key demo_vs [''bundles''], authorityKey demo_vs (bd_ShardID demo_bundle)] (vk_create_tx ref_codec ref_kv demo_vs demo_bundle) [quiet 5] ?start"
    using tx by simp
  from vk_create_refines_memory [OF ref_kv_laws ref_codec_ok st demo_bundle_fits b(2) run fault this] run show ?thesis by auto
qed

section \<open>Retries\<close>

text \<open>A time from 1970 to 2262, where \<^verbatim>\<open>UnixNano\<close> does not wrap.\<close>

definition unix_range :: "gtime \<Rightarrow> bool" where
  "unix_range t \<longleftrightarrow> 1 \<le> t - time_unix 0 \<and> t - time_unix 0 \<le> max_int64"

lemma UnixNano_mono:
  assumes "unix_range t" and "unix_range u" and "t \<le> u"
  shows "f_le (f_of_int (UnixNano t)) (f_of_int (UnixNano u))"
proof -
  have "UnixNano t = t - time_unix 0" "UnixNano u = u - time_unix 0"
    using assms unfolding UnixNano_def unix_range_def by (simp_all add: wrap64_id min_int64_def max_int64_def)
  then show ?thesis using assms by (simp add: f_of_int_mono unix_range_def)
qed

text \<open>
  scores are floating point numbers, coarser than the times they stand for, but no due retry is missed: one that was scheduled
  for a time not later than the claim's, and that nobody else took, is claimed unless the claim reached its limit. A claim returns
  distinct bundles within its limit, removes exactly these, and so no other claim can return them.
\<close>

theorem vk_due_retry_is_claimed:
  assumes "zset_laws kv" and "0 < vs_retention st" and "unix_range due" and "unix_range now" and "due \<le> now"
    and "vk_ScheduleRetry kv st net bid due d = (None, d1)"
    and "\<And>d. kv_zscore kv (vk_key st [''retries'']) bid (nt_env net 1 d) = kv_zscore kv (vk_key st [''retries'']) bid d"
    and "kv_zscore kv (vk_key st [''retries'']) bid (nt_env net' 0 d1) = kv_zscore kv (vk_key st [''retries'']) bid d1"
    and "vk_ClaimDueRetries kv st net' now limit d1 = (Inr ids, d2)"
    and "typed kv ''zset'' (vk_key st [''retries'']) (nt_env net 0 d)" and "typed kv ''zset'' (vk_key st [''retries'']) (nt_env net' 0 d1)"
  shows "distinct ids \<and> (0 \<le> limit \<longrightarrow> int (length ids) \<le> limit) \<and>
    (\<forall>m. kv_zscore kv (vk_key st [''retries'']) m d2 =
       (if m \<in> set ids then None else kv_zscore kv (vk_key st [''retries'']) m (nt_env net' 0 d1))) \<and>
    (limit < 0 \<or> int (length ids) < limit \<longrightarrow> bid \<in> set ids)"
proof -
  let ?k = "vk_key st [''retries'']" and ?d = "nt_env net' 0 d1" and ?now = "f_of_int (UnixNano now)"
  have claim: "ids = kv_zrangebyscore kv ?k ?now limit ?d" "d2 = (if ids \<noteq> [] then kv_exec kv (ZREM ?k ids) ?d else ?d)"
    using assms(9) by (auto simp: vk_ClaimDueRetries_def kv_script_def claim_script_def Let_def split: option.splits)
  have "kv_zscore kv ?k bid d1 = Some (f_of_int (UnixNano due))"
    using assms(1,2,6,7,10) f_of_int_not_nan
    by (auto simp: vk_ScheduleRetry_def kv_write_def kv_script_def touch_def Let_def zset_laws_def split: option.splits sum.splits if_splits)
  then have "kv_zscore kv ?k bid ?d = Some (f_of_int (UnixNano due))" using assms(8) by simp
  moreover have "f_le (f_of_int (UnixNano due)) ?now" by (rule UnixNano_mono [OF assms(3-5)])
  ultimately have "limit < 0 \<or> int (length ids) < limit \<longrightarrow> bid \<in> set ids"
    using assms(1) unfolding zset_laws_def claim(1) by blast
  moreover have "distinct ids \<and> (0 \<le> limit \<longrightarrow> int (length ids) \<le> limit)"
    using assms(1) unfolding zset_laws_def claim(1) by blast
  moreover have "kv_zscore kv ?k m d2 = (if m \<in> set ids then None else kv_zscore kv ?k m ?d)" for m
    using assms(1,11) unfolding zset_laws_def claim(2) by simp
  ultimately show ?thesis by blast
qed

theorem vk_due_retry_is_claimed_witness:
  "\<exists>d1 ids d2. vk_ScheduleRetry ref_kv demo_vs (quiet 0) ''h:1'' (time_unix 7) [] = (None, d1) \<and>
     vk_ClaimDueRetries ref_kv demo_vs (quiet 0) (time_unix 8) (- 1) d1 = (Inr ids, d2) \<and> ''h:1'' \<in> set ids"
proof -
  let ?k = "vk_key demo_vs [''retries'']"
  let ?d1 = "kv_exec ref_kv (EXPIRE ?k second) (kv_exec ref_kv (ZADD ?k (f_of_int (UnixNano (time_unix 7))) ''h:1'') [])"
  let ?ids = "kv_zrangebyscore ref_kv ?k (f_of_int (UnixNano (time_unix 8))) (- 1) ?d1"
  let ?d2 = "if ?ids \<noteq> [] then kv_exec ref_kv (ZREM ?k ?ids) ?d1 else ?d1"
  have sched: "vk_ScheduleRetry ref_kv demo_vs (quiet 0) ''h:1'' (time_unix 7) [] = (None, ?d1)"
    by (simp add: vk_ScheduleRetry_def kv_write_def kv_script_def touch_def demo_vs_def second_def Let_def)
  have claim: "vk_ClaimDueRetries ref_kv demo_vs (quiet 0) (time_unix 8) (- 1) ?d1 = (Inr ?ids, ?d2)"
    by (simp add: vk_ClaimDueRetries_def kv_script_def claim_script_def Let_def)
  have times: "unix_range (time_unix 7)" "unix_range (time_unix 8)" "time_unix 7 \<le> time_unix 8" "0 < vs_retention demo_vs"
    by (simp_all add: unix_range_def time_unix_def wrap64_def max_int64_def demo_vs_def second_def)
  have typed: "typed ref_kv ''zset'' ?k ?d1"
    by (simp add: typed_def ref_kv_def ref_type_def demo_vs_def second_def)
  have "''h:1'' \<in> set ?ids"
    using vk_due_retry_is_claimed [OF ref_zset_laws times(4,1,2,3) sched _ _ claim] typed by simp
  then show ?thesis using sched claim by blast
qed

section \<open>Where the store differs\<close>

text \<open>
  When the command that looks the hash up fails, the creation goes on as if there were no bundle with the hash.
\<close>

lemma create_ignores_lookup_error:
  assumes "nt_fault net 0 = None" and "nt_fault net 1 = Some e" and "nt_fault net 2 = None" and "nt_commit net" and "bd_ShardID rec = []"
  shows "vk_create_tx cd kv st rec net d = (TxDone rec, run_cmds kv (create_cmds cd st rec) (view net d 2))"
  using assms by (simp add: vk_create_tx_def create_checked_def kv_read_def tx_exec_def Let_def numeral_2_eq_2)

text \<open>
  A bundle without a shard can be created in both stores; the in-memory store lets it change, this one never does, for lack of an authority
  under the empty name.
\<close>

lemma no_shard_never_changes:
  assumes "nt_fault net 0 = None" and "nt_fault net 1 = None" and "nt_fault net 2 = None" and "pre rec = None" and "bd_ShardID rec = []"
    and "mapToRecord cd (kv_hgetall kv (vk_key st [''bundle'', bid]) (view net d 1)) = Inr (Some rec)"
    and "kv_hgetall kv (vk_key st [''authority'', []]) (view net d 2) = []"
  shows "change_tx cd kv st bid pre f net d = (TxErr (VkStore ErrStaleAuthority), view net d 2) \<and> validateAuthorityLocked now s rec = None"
proof
  have "kv_hgetall kv (vk_key st [''bundle'', bid]) (view net d 1) \<noteq> []" using assms(6) by (metis mapToRecord_None Inr_inject option.distinct(1))
  then show "change_tx cd kv st bid pre f net d = (TxErr (VkStore ErrStaleAuthority), view net d 2)"
    using assms by (simp add: change_tx_def kv_read_def currentAuthorityTx_def authorityFromMap_def Let_def numeral_2_eq_2)
qed (simp add: validateAuthorityLocked_def assms(5))

text \<open>
  For a bundle of another shard the authority that is read is not the one that is watched: it may be replaced between the check and
  the \<^verbatim>\<open>EXEC\<close>, which goes through all the same.
\<close>

lemma unwatched_authority:
  assumes "kv_laws kv" and "bd_ShardID rec \<noteq> vs_shardID st" and "vs_shardID st \<noteq> []"
    and "nt_env net = (\<lambda>i. if i = 3 then kv_exec kv (HSET (vk_key st [''authority'', bd_ShardID rec]) fs) else (\<lambda>d. d))"
    and "nt_fault net = (\<lambda>_. None)" and "nt_commit net" and "pre rec = None"
    and "mapToRecord cd (kv_hgetall kv (vk_key st [''bundle'', bid]) d) = Inr (Some rec)"
    and "authorityFromMap cd (kv_hgetall kv (vk_key st [''authority'', bd_ShardID rec]) d) = Some auth"
    and "validateAuthority (nt_clk net 0) rec auth = None"
  shows "watch_ok kv [vk_key st [''bundle'', bid], authorityKey st (vs_shardID st)] net d \<and>
    (\<exists>d'. change_tx cd kv st bid pre f net d = (TxDone (f (nt_clk net 1) rec), d'))"
proof
  let ?d3 = "kv_exec kv (HSET (vk_key st [''authority'', bd_ShardID rec]) fs) d"
  have views: "view net d i = (if i < 3 then d else ?d3)" if "i \<le> 3" for i
    using that assms(4) by (auto simp: le_Suc_eq numeral_3_eq_3 less_Suc_eq_le)
  have "same kv k d ?d3" if "k \<in> {vk_key st [''bundle'', bid], authorityKey st (vs_shardID st)}" for k
    using that kv_same(1) [OF assms(1), of "HSET (vk_key st [''authority'', bd_ShardID rec]) fs" k d] assms(2,3)
    by (auto simp: same_def key_simps)
  then show "watch_ok kv [vk_key st [''bundle'', bid], authorityKey st (vs_shardID st)] net d"
    unfolding watch_ok_def using views by (auto simp: same_def)
  have "kv_hgetall kv (vk_key st [''bundle'', bid]) d \<noteq> []" using assms(8) by (metis mapToRecord_None Inr_inject option.distinct(1))
  then show "\<exists>d'. change_tx cd kv st bid pre f net d = (TxDone (f (nt_clk net 1) rec), d')"
    using assms by (simp add: change_tx_def kv_read_def currentAuthorityTx_def tx_exec_def Let_def)
qed

end
