(* ===== verification/Relay_Minio.thy ===== *)
theory Relay_Minio
  imports Relay_Backends
begin

text \<open>
  The checkpoint store on a MinIO server, \<^verbatim>\<open>checkpoint/minio/minio.go\<close>. The client library and the server are the
  parameter \<open>MinioApi\<close>: every call takes the state \<open>'d\<close> of the world outside and returns its result, an error included,
  with the state after it. \<^verbatim>\<open>GetObject\<close> only checks its arguments, the bytes (and the error of a missing object) come with
  reading, which is \<open>mi_ReadFrom\<close>.

  What the store relies on is \<open>minio_laws\<close>. The interface \<^verbatim>\<open>checkpoint.Store\<close> is the locale \<open>checkpoint_store\<close>, met by
  the in-memory store and by this one over every client with these laws: a checkpoint that was stored is read back until
  its key is written again.
\<close>

section \<open>The client\<close>

record 'd MinioApi =
  mi_New :: "string \<Rightarrow> string \<Rightarrow> string \<Rightarrow> bool \<Rightarrow> string option"
  mi_BucketExists :: "string \<Rightarrow> 'd \<Rightarrow> (string + bool) \<times> 'd"
  mi_MakeBucket :: "string \<Rightarrow> 'd \<Rightarrow> string option \<times> 'd"
  mi_PutObject :: "string \<Rightarrow> string \<Rightarrow> string \<Rightarrow> string \<Rightarrow> 'd \<Rightarrow> string option \<times> 'd"
  mi_GetObject :: "string \<Rightarrow> string \<Rightarrow> string option"
  mi_ReadFrom :: "string \<Rightarrow> string \<Rightarrow> 'd \<Rightarrow> (string + string) \<times> 'd"

section \<open>The store\<close>

record MinioStore =
  mn_bucket :: string
  mn_prefix :: string
  mn_closed :: bool

definition mn_key :: "MinioStore \<Rightarrow> string \<Rightarrow> string \<Rightarrow> string" where
  "mn_key s shardID batchID =
     (if shardID = [] then mn_prefix s @ ''/'' @ batchID @ ''.json''
      else mn_prefix s @ ''/'' @ shardID @ ''/'' @ batchID @ ''.json'')"

definition ensureBucket :: "'d MinioApi \<Rightarrow> MinioStore \<Rightarrow> 'd \<Rightarrow> string option \<times> 'd" where
  "ensureBucket api s d =
     (case mi_BucketExists api (mn_bucket s) d of
        (Inl e, d) \<Rightarrow> (Some e, d)
      | (Inr ok, d) \<Rightarrow> if ok then (None, d) else mi_MakeBucket api (mn_bucket s) d)"

definition New_Minio ::
  "'d MinioApi \<Rightarrow> string \<Rightarrow> string \<Rightarrow> string \<Rightarrow> string \<Rightarrow> bool \<Rightarrow> string \<Rightarrow> 'd \<Rightarrow> (string + MinioStore) \<times> 'd" where
  "New_Minio api endpoint accessKey secretKey bucket useSSL prefix0 d =
     (if endpoint = [] then (Inl ''empty minio endpoint'', d)
      else if bucket = [] then (Inl ''empty minio bucket'', d)
      else let prefix = (if prefix0 = [] then ''checkpoints'' else prefix0) in
           case mi_New api endpoint accessKey secretKey useSSL of
             Some e \<Rightarrow> (Inl e, d)
           | None \<Rightarrow> let s = \<lparr> mn_bucket = bucket, mn_prefix = prefix, mn_closed = False \<rparr> in
               case ensureBucket api s d of (Some e, d) \<Rightarrow> (Inl e, d) | (None, d) \<Rightarrow> (Inr s, d))"

definition mn_Put :: "'d MinioApi \<Rightarrow> CheckpointRecord \<Rightarrow> string \<Rightarrow> MinioStore \<times> 'd \<Rightarrow> (string + string) \<times> MinioStore \<times> 'd" where
  "mn_Put api cp body st =
     (case st of (s, d) \<Rightarrow>
      if mn_closed s then (Inl ''checkpoint store closed'', s, d)
      else let key = (if cp_ObjectKey cp = [] then mn_key s (cp_ShardID cp) (cp_BatchID cp) else cp_ObjectKey cp) in
           case mi_PutObject api (mn_bucket s) key body ''application/json'' d of
             (Some e, d) \<Rightarrow> (Inl e, s, d)
           | (None, d) \<Rightarrow> (Inr key, s, d))"

definition mn_Get :: "'d MinioApi \<Rightarrow> string \<Rightarrow> MinioStore \<times> 'd \<Rightarrow> (string + string) \<times> MinioStore \<times> 'd" where
  "mn_Get api key st =
     (case st of (s, d) \<Rightarrow>
      if mn_closed s then (Inl ''checkpoint store closed'', s, d)
      else case mi_GetObject api (mn_bucket s) key of
             Some e \<Rightarrow> (Inl e, s, d)
           | None \<Rightarrow> (case mi_ReadFrom api (mn_bucket s) key d of (r, d) \<Rightarrow> (r, s, d)))"

definition mn_Health :: "'d MinioApi \<Rightarrow> MinioStore \<times> 'd \<Rightarrow> string option \<times> MinioStore \<times> 'd" where
  "mn_Health api st =
     (case st of (s, d) \<Rightarrow>
      if mn_closed s then (Some ''checkpoint store closed'', s, d)
      else case mi_BucketExists api (mn_bucket s) d of
             (Inl e, d) \<Rightarrow> (Some e, s, d)
           | (Inr ok, d) \<Rightarrow> (if ok then None else Some (''bucket '' @ mn_bucket s @ '' missing''), s, d))"

definition mn_Close :: "MinioStore \<times> 'd \<Rightarrow> MinioStore \<times> 'd" where
  "mn_Close st = (case st of (s, d) \<Rightarrow> (s\<lparr> mn_closed := True \<rparr>, d))"

section \<open>What the store relies on\<close>

text \<open>
  \<open>obj b k d\<close> is the object under a key. A put that succeeds stores the bytes under its key and no other; one that fails may
  have stored them or not, and leaves the other keys alone. A read that succeeds returns the object. Reading, checking for a
  bucket and making one change no object.
\<close>

definition minio_laws :: "'d MinioApi \<Rightarrow> (string \<Rightarrow> string \<Rightarrow> 'd \<Rightarrow> string option) \<Rightarrow> bool" where
  "minio_laws api obj \<longleftrightarrow>
     (\<forall>b k body ty d. fst (mi_PutObject api b k body ty d) = None \<longrightarrow>
        obj b k (snd (mi_PutObject api b k body ty d)) = Some body) \<and>
     (\<forall>b k body ty d b' k'. (b', k') \<noteq> (b, k) \<longrightarrow> obj b' k' (snd (mi_PutObject api b k body ty d)) = obj b' k' d) \<and>
     (\<forall>b k d v. fst (mi_ReadFrom api b k d) = Inr v \<longrightarrow> obj b k d = Some v) \<and>
     (\<forall>b k d b' k'. obj b' k' (snd (mi_ReadFrom api b k d)) = obj b' k' d) \<and>
     (\<forall>b d b' k'. obj b' k' (snd (mi_BucketExists api b d)) = obj b' k' d) \<and>
     (\<forall>b d b' k'. obj b' k' (snd (mi_MakeBucket api b d)) = obj b' k' d)"

lemma minio_lawsD:
  assumes "minio_laws api obj"
  shows "mi_PutObject api b k body ty d = (None, d') \<Longrightarrow> obj b k d' = Some body"
    and "mi_PutObject api b k body ty d = (r, d') \<Longrightarrow> (b', k') \<noteq> (b, k) \<Longrightarrow> obj b' k' d' = obj b' k' d"
    and "mi_ReadFrom api b k d = (Inr v, d') \<Longrightarrow> obj b k d = Some v"
    and "mi_ReadFrom api b k d = (q, d') \<Longrightarrow> obj b' k' d' = obj b' k' d"
  using assms unfolding minio_laws_def by (metis fst_conv snd_conv)+

section \<open>The interface\<close>

datatype ck_op = CkPut CheckpointRecord string | CkGet string | CkClose

fun ck_step ::
  "(CheckpointRecord \<Rightarrow> string \<Rightarrow> 's \<Rightarrow> (string + string) \<times> 's) \<Rightarrow> (string \<Rightarrow> 's \<Rightarrow> (string + string) \<times> 's) \<Rightarrow> ('s \<Rightarrow> 's) \<Rightarrow> ck_op \<Rightarrow> 's \<Rightarrow> 's"
where
  "ck_step put get close (CkPut cp body) s = snd (put cp body s)"
| "ck_step put get close (CkGet key) s = snd (get key s)"
| "ck_step put get close CkClose s = close s"

text \<open>
  The contract of \<^verbatim>\<open>checkpoint.Store\<close>: \<open>key_of\<close> is the key a checkpoint goes under, \<open>content\<close> what is stored.
\<close>

locale checkpoint_store =
  fixes put :: "CheckpointRecord \<Rightarrow> string \<Rightarrow> 's \<Rightarrow> (string + string) \<times> 's"
    and get :: "string \<Rightarrow> 's \<Rightarrow> (string + string) \<times> 's"
    and close :: "'s \<Rightarrow> 's"
    and closed :: "'s \<Rightarrow> bool"
    and key_of :: "CheckpointRecord \<Rightarrow> 's \<Rightarrow> string"
    and content :: "string \<Rightarrow> 's \<Rightarrow> string option"
  assumes put_stores: "put cp body s = (Inr k, s') \<Longrightarrow> k = key_of cp s \<and> content k s' = Some body \<and> \<not> closed s"
    and put_frame: "put cp body s = (r, s') \<Longrightarrow> k \<noteq> key_of cp s \<Longrightarrow> content k s' = content k s"
    and put_keys: "put cp body s = (r, s') \<Longrightarrow> key_of cp' s' = key_of cp' s \<and> closed s' = closed s"
    and get_reads: "get k s = (Inr v, s') \<Longrightarrow> content k s = Some v"
    and get_frame: "get k s = (q, s') \<Longrightarrow> content k' s' = content k' s \<and> key_of cp s' = key_of cp s \<and> closed s' = closed s"
    and close_frame: "content k (close s) = content k s \<and> key_of cp (close s) = key_of cp s \<and> closed (close s)"
begin

lemma step_key: "key_of cp (ck_step put get close p s) = key_of cp s"
proof (cases p)
  case (CkPut cp' body) then show ?thesis using put_keys [of cp' body s "fst (put cp' body s)" "snd (put cp' body s)" cp] by simp
next
  case (CkGet k) then show ?thesis using get_frame [of k s "fst (get k s)" "snd (get k s)"] by simp
qed (simp add: close_frame)

lemma step_content:
  assumes "\<And>cp body. p = CkPut cp body \<Longrightarrow> key_of cp s \<noteq> k"
  shows "content k (ck_step put get close p s) = content k s"
proof (cases p)
  case (CkPut cp body) then show ?thesis using assms put_frame [of cp body s "fst (put cp body s)" "snd (put cp body s)" k] by auto
next
  case (CkGet k') then show ?thesis using get_frame [of k' s "fst (get k' s)" "snd (get k' s)"] by simp
qed (simp add: close_frame)

lemma run_content:
  assumes "\<And>cp body. CkPut cp body \<in> set ops \<Longrightarrow> key_of cp s \<noteq> k"
  shows "content k (fold (ck_step put get close) ops s) = content k s"
  using assms
proof (induction ops arbitrary: s)
  case (Cons p ops)
  have "content k (fold (ck_step put get close) ops (ck_step put get close p s)) = content k (ck_step put get close p s)"
    by (intro Cons.IH) (auto simp: step_key dest: Cons.prems [OF list.set_intros(2)])
  also have "\<dots> = content k s" using Cons.prems by (intro step_content) auto
  finally show ?case by simp
qed simp

lemma read_back:
  assumes "put cp body s = (Inr k, s')" and "\<And>cp' body'. CkPut cp' body' \<in> set ops \<Longrightarrow> key_of cp' s \<noteq> k"
    and "get k (fold (ck_step put get close) ops s') = (Inr v, s'')"
  shows "v = body"
proof -
  have "content k (fold (ck_step put get close) ops s') = content k s'"
    using assms(2) put_keys [OF assms(1)] by (intro run_content) simp
  with get_reads [OF assms(3)] put_stores [OF assms(1)] show ?thesis by auto
qed

lemma closed_stays: "closed s \<Longrightarrow> closed (fold (ck_step put get close) ops s)"
proof (induction ops arbitrary: s)
  case (Cons p ops)
  have "closed (ck_step put get close p s)"
  proof (cases p)
    case (CkPut cp body) then show ?thesis
      using Cons.prems put_keys [of cp body s "fst (put cp body s)" "snd (put cp body s)"] by simp
  next
    case (CkGet k) then show ?thesis using Cons.prems get_frame [of k s "fst (get k s)" "snd (get k s)"] by simp
  qed (simp add: close_frame)
  then show ?case by (simp add: Cons.IH)
qed simp

lemma nothing_stored_after_close:
  assumes "closed s" and "put cp body (fold (ck_step put get close) ops s) = (r, s')"
  shows "\<exists>e. r = Inl e"
  using closed_stays [OF assms(1), of ops] assms(2) put_stores [of cp body _ _ s'] by (cases r) blast+

end

section \<open>The two stores meet it\<close>

definition cs_key_of :: "CheckpointRecord \<Rightarrow> CheckpointStore \<Rightarrow> string" where
  "cs_key_of cp s = (if cp_ObjectKey cp = [] then cp_BatchID cp @ ''.json'' else cp_ObjectKey cp)"

definition cs_content :: "string \<Rightarrow> CheckpointStore \<Rightarrow> string option" where
  "cs_content k s = gm_get (cs_blobs s) k"

definition cs_get :: "string \<Rightarrow> CheckpointStore \<Rightarrow> (string + string) \<times> CheckpointStore" where
  "cs_get k s = (cs_Get k s, s)"

lemmas cs_defs = cs_Put_def cs_Get_def cs_get_def cs_Close_def cs_key_of_def cs_content_def Let_def

interpretation mem: checkpoint_store cs_Put cs_get cs_Close cs_closed cs_key_of cs_content
  by unfold_locales (auto simp: cs_defs split: if_splits option.splits)

definition mn_key_of :: "CheckpointRecord \<Rightarrow> MinioStore \<times> 'd \<Rightarrow> string" where
  "mn_key_of cp st = (if cp_ObjectKey cp = [] then mn_key (fst st) (cp_ShardID cp) (cp_BatchID cp) else cp_ObjectKey cp)"

definition mn_content :: "(string \<Rightarrow> string \<Rightarrow> 'd \<Rightarrow> string option) \<Rightarrow> string \<Rightarrow> MinioStore \<times> 'd \<Rightarrow> string option" where
  "mn_content obj k st = obj (mn_bucket (fst st)) k (snd st)"

lemmas mn_defs = mn_Put_def mn_Get_def mn_Close_def mn_key_of_def mn_content_def mn_key_def Let_def

lemma minio_is_checkpoint_store:
  assumes "minio_laws api obj"
  shows "checkpoint_store (mn_Put api) (mn_Get api) mn_Close (\<lambda>st. mn_closed (fst st)) mn_key_of (mn_content obj)"
  by unfold_locales
    (auto simp: mn_defs minio_lawsD [OF assms] split: if_splits option.splits prod.splits)

section \<open>Stored checkpoints are read back\<close>

text \<open>A client whose objects are a map, and whose keys \<open>down\<close> cannot be written.\<close>

definition ref_minio :: "(string \<Rightarrow> bool) \<Rightarrow> (string \<times> string, string) gomap MinioApi" where
  "ref_minio down = \<lparr>
     mi_New = (\<lambda>e a k t. None),
     mi_BucketExists = (\<lambda>b d. (Inr (b \<in> fst ` fst ` set d), d)),
     mi_MakeBucket = (\<lambda>b d. (None, d)),
     mi_PutObject = (\<lambda>b k body ty d. if down k then (Some ''unreachable'', d) else (None, gm_set d (b, k) body)),
     mi_GetObject = (\<lambda>b k. if k = [] then Some ''Object name cannot be empty'' else None),
     mi_ReadFrom = (\<lambda>b k d. case gm_get d (b, k) of
        None \<Rightarrow> (Inl ''The specified key does not exist.'', d) | Some v \<Rightarrow> (Inr v, d)) \<rparr>"

lemma ref_minio_laws: "minio_laws (ref_minio down) (\<lambda>b k d. gm_get d (b, k))"
  by (auto simp: minio_laws_def ref_minio_def split: option.splits if_splits)

definition cp_at :: "string \<Rightarrow> string \<Rightarrow> CheckpointRecord" where
  "cp_at shard key = \<lparr> cp_BatchID = ''b1'', cp_BundleID = ''x'', cp_ShardID = shard, cp_ObjectKey = key, cp_Epoch = 1, cp_Root = [],
     cp_EventCount = 0, cp_LastOffset = 0, cp_RegionID = [], cp_SignedBy = [], cp_Signature = [], cp_Time = 0, cp_Version = 1 \<rparr>"

text \<open>
  After a checkpoint was stored on the server, whatever the store does next -- other puts, failed ones among them, reads, closing
  -- a read of its key that succeeds returns its bytes, unless a put under the same key came in between.
\<close>

lemma minio_checkpoint_reads_back:
  assumes "minio_laws api obj" and "mn_Put api cp body st = (Inr k, st')"
    and "\<forall>cp' body'. CkPut cp' body' \<in> set ops \<longrightarrow> mn_key_of cp' st \<noteq> k"
    and "mn_Get api k (fold (ck_step (mn_Put api) (mn_Get api) mn_Close) ops st') = (Inr v, st'')"
  shows "v = body"
  using checkpoint_store.read_back [OF minio_is_checkpoint_store [OF assms(1)] assms(2) _ assms(4)] assms(3) by blast

lemma minio_checkpoint_reads_back_witness:
  "let put = mn_Put (ref_minio (\<lambda>k. k = ''down'')); get = mn_Get (ref_minio (\<lambda>k. k = ''down''));
       st = (\<lparr> mn_bucket = ''k'', mn_prefix = ''p'', mn_closed = False \<rparr>, []);
       ops = [CkPut (cp_at ''s2'' []) ''B'', CkPut (cp_at ''s1'' ''down'') ''C'', CkGet ''p/s2/b1.json'']
   in fst (get ''p/s1/b1.json'' (fold (ck_step put get mn_Close) ops (snd (put (cp_at ''s1'' []) ''A'' st)))) = Inr ''A''"
proof -
  define api where "api = ref_minio (\<lambda>k. k = ''down'')"
  define st :: "MinioStore \<times> (string \<times> string, string) gomap"
    where "st = (\<lparr> mn_bucket = ''k'', mn_prefix = ''p'', mn_closed = False \<rparr>, [])"
  define ops where "ops = [CkPut (cp_at ''s2'' []) ''B'', CkPut (cp_at ''s1'' ''down'') ''C'', CkGet ''p/s2/b1.json'']"
  have put: "mn_Put api (cp_at ''s1'' []) ''A'' st = (Inr ''p/s1/b1.json'', snd (mn_Put api (cp_at ''s1'' []) ''A'' st))"
    by (simp add: mn_defs ref_minio_def api_def st_def cp_at_def)
  have get: "\<exists>v st''. mn_Get api ''p/s1/b1.json'' (fold (ck_step (mn_Put api) (mn_Get api) mn_Close) ops (snd (mn_Put api (cp_at ''s1'' []) ''A'' st))) = (Inr v, st'')"
    by (simp add: mn_defs ref_minio_def api_def st_def cp_at_def ops_def)
  have laws: "minio_laws api (\<lambda>b k d. gm_get d (b, k))" unfolding api_def by (rule ref_minio_laws)
  have other: "\<forall>cp' body'. CkPut cp' body' \<in> set ops \<longrightarrow> mn_key_of cp' st \<noteq> ''p/s1/b1.json''"
    by (auto simp: ops_def mn_defs st_def cp_at_def)
  show ?thesis
    using get minio_checkpoint_reads_back [OF laws put other] unfolding Let_def api_def [symmetric] st_def [symmetric] ops_def [symmetric]
    by fastforce
qed

text \<open>
  The stores disagree on checkpoints without an object key: in memory the batches of two shards share a key, on the server
  they do not. A closed in-memory store still answers reads, a closed one on the server refuses them.
\<close>

lemma default_keys_differ:
  assumes "cp_ObjectKey c1 = []" and "cp_ObjectKey c2 = []" and "cp_BatchID c1 = cp_BatchID c2"
    and "cp_ShardID c1 \<noteq> cp_ShardID c2" and "cp_ShardID c1 \<noteq> []" and "cp_ShardID c2 \<noteq> []"
  shows "cs_key_of c1 m = cs_key_of c2 m" and "mn_key_of c1 st \<noteq> mn_key_of c2 st"
  using assms by (simp_all add: cs_key_of_def mn_key_of_def mn_key_def)

lemma closed_reads_differ:
  "cs_content k m = Some v \<Longrightarrow> cs_Get k (cs_Close m) = Inr v"
  "fst (mn_Get api k (mn_Close st)) = Inl ''checkpoint store closed''"
  by (simp_all add: cs_defs mn_defs split: prod.splits)

text \<open>A store is only handed out for a bucket that was there or could be made.\<close>

lemma New_Minio_Inr:
  assumes "New_Minio api e a k b t p d = (Inr s, d')"
  shows "mn_bucket s = b \<and> b \<noteq> [] \<and> e \<noteq> [] \<and> \<not> mn_closed s \<and> mn_prefix s \<noteq> [] \<and>
    (\<exists>d1. mi_BucketExists api b d = (Inr True, d1) \<and> d' = d1 \<or> mi_BucketExists api b d = (Inr False, d1) \<and> mi_MakeBucket api b d1 = (None, d'))"
  using assms by (auto simp: New_Minio_def ensureBucket_def Let_def split: if_splits option.splits prod.splits sum.splits)

end
