(* ===== verification/Go_Bufio.thy ===== *)
theory Go_Bufio
  imports Go_Strings "HOL-Library.Sublist"
begin

text \<open>
  The parts of Go's \<^verbatim>\<open>bufio\<close>, \<^verbatim>\<open>io\<close> and \<^verbatim>\<open>strings\<close> that a line protocol over a connection uses. A \<open>BufWriter\<close> holds what the
  connection took (\<open>bw_out\<close>), what is buffered, and the error that stops it for good. The connection is a parameter \<open>cw\<close>:
  given the bytes it took so far and the next ones it takes all of them (\<open>None\<close>) or the first \<open>n\<close> and fails; since a writer never
  writes after an error, a function of the bytes taken so far describes every connection. Every method returns the
  writer's error after it.

  The lemmas say that the bytes a writer let through are a prefix of the bytes written to it, all of them after a flush
  without error, and that a failed writer lets nothing through.
\<close>

section \<open>Writer\<close>

record BufWriter =
  bw_buf :: string
  bw_err :: "string option"
  bw_out :: string

type_synonym conn_writes = "string \<Rightarrow> string \<Rightarrow> (nat \<times> string) option"

text \<open>The size every writer of the program is made with.\<close>

definition bw_size :: nat where
  "bw_size = 2 ^ 20"

definition new_writer :: BufWriter where
  "new_writer = \<lparr> bw_buf = [], bw_err = None, bw_out = [] \<rparr>"

definition bw_avail :: "BufWriter \<Rightarrow> nat" where
  "bw_avail w = bw_size - length (bw_buf w)"

definition bw_Flush :: "conn_writes \<Rightarrow> BufWriter \<Rightarrow> BufWriter" where
  "bw_Flush cw w =
     (if bw_err w \<noteq> None \<or> bw_buf w = [] then w
      else case cw (bw_out w) (bw_buf w) of
             None \<Rightarrow> w\<lparr> bw_out := bw_out w @ bw_buf w, bw_buf := [] \<rparr>
           | Some (n, e) \<Rightarrow> w\<lparr> bw_out := bw_out w @ take n (bw_buf w), bw_buf := drop n (bw_buf w), bw_err := Some e \<rparr>)"

definition bw_fill :: "conn_writes \<Rightarrow> string \<Rightarrow> BufWriter \<Rightarrow> BufWriter" where
  "bw_fill cw s w = bw_Flush cw (w\<lparr> bw_buf := bw_buf w @ take (bw_avail w) s \<rparr>)"

lemma bw_fill_shrinks:
  assumes "bw_err w = None" and "bw_avail w < length s" and "bw_err (bw_fill cw s w) = None"
  shows "bw_buf (bw_fill cw s w) = []"
    and "length (drop (bw_avail w) s) < length s \<or> drop (bw_avail w) s = s \<and> bw_buf w \<noteq> []"
  using assms by (auto simp: bw_fill_def bw_Flush_def bw_avail_def bw_size_def split: if_splits option.splits)

function bw_WriteString :: "conn_writes \<Rightarrow> string \<Rightarrow> BufWriter \<Rightarrow> BufWriter" where
  "bw_WriteString cw s w =
     (if bw_err w \<noteq> None then w
      else if length s \<le> bw_avail w then w\<lparr> bw_buf := bw_buf w @ s \<rparr>
      else bw_WriteString cw (drop (bw_avail w) s) (bw_fill cw s w))"
  by pat_completeness auto
termination
proof (relation "measures [\<lambda>(cw, s, w). if bw_err w = None then 1 else 0, \<lambda>(cw, s, w). length s, \<lambda>(cw, s, w). length (bw_buf w)]", goal_cases)
  case (2 cw s w)
  then show ?case using bw_fill_shrinks [of w s cw] by (cases "bw_err (bw_fill cw s w)") auto
qed simp

text \<open>\<^verbatim>\<open>Write\<close> hands a large slice to the connection directly when nothing is buffered.\<close>

definition bw_direct :: "conn_writes \<Rightarrow> string \<Rightarrow> BufWriter \<Rightarrow> BufWriter" where
  "bw_direct cw s w =
     (case cw (bw_out w) s of
        None \<Rightarrow> w\<lparr> bw_out := bw_out w @ s \<rparr>
      | Some (n, e) \<Rightarrow> w\<lparr> bw_out := bw_out w @ take n s, bw_err := Some e \<rparr>)"

function bw_Write :: "conn_writes \<Rightarrow> string \<Rightarrow> BufWriter \<Rightarrow> BufWriter" where
  "bw_Write cw s w =
     (if bw_err w \<noteq> None then w
      else if length s \<le> bw_avail w then w\<lparr> bw_buf := bw_buf w @ s \<rparr>
      else if bw_buf w = [] then bw_direct cw s w
      else bw_Write cw (drop (bw_avail w) s) (bw_fill cw s w))"
  by pat_completeness auto
termination
proof (relation "measures [\<lambda>(cw, s, w). if bw_err w = None then 1 else 0, \<lambda>(cw, s, w). length s, \<lambda>(cw, s, w). length (bw_buf w)]", goal_cases)
  case (2 cw s w)
  then show ?case using bw_fill_shrinks [of w s cw] by (cases "bw_err (bw_fill cw s w)") auto
qed simp

declare bw_WriteString.simps [simp del] bw_Write.simps [simp del]

section \<open>What gets through\<close>

definition bw_sent :: "BufWriter \<Rightarrow> string" where
  "bw_sent w = bw_out w @ bw_buf w"

text \<open>\<open>writes cw s w w'\<close>: from \<open>w\<close> the bytes \<open>s\<close> were written, giving \<open>w'\<close>.\<close>

definition writes :: "string \<Rightarrow> BufWriter \<Rightarrow> BufWriter \<Rightarrow> bool" where
  "writes s w w' \<longleftrightarrow>
     (bw_err w \<noteq> None \<longrightarrow> w' = w) \<and> (bw_err w = None \<longrightarrow> prefix (bw_out w) (bw_out w') \<and> prefix (bw_out w') (bw_sent w @ s)) \<and>
     (bw_err w' = None \<longrightarrow> bw_err w = None \<and> bw_sent w' = bw_sent w @ s)"

lemma writes_refl [simp]: "writes [] w w"
  by (auto simp: writes_def bw_sent_def)

lemma writes_trans:
  assumes "writes s w w1" and "writes t w1 w2"
  shows "writes (s @ t) w w2"
proof (cases "bw_err w1 = None")
  case True
  with assms show ?thesis unfolding writes_def by (auto intro: prefix_order.trans)
next
  case False
  with assms have w2: "w2 = w1" by (simp add: writes_def)
  with assms(1) False show ?thesis unfolding writes_def
    by (auto intro: prefix_order.trans [of _ "bw_sent w @ s"])
qed

lemma writes_buffer: "bw_err w = None \<Longrightarrow> writes s w (w\<lparr> bw_buf := bw_buf w @ s \<rparr>)"
  by (simp add: writes_def bw_sent_def)

lemma writes_Flush: "writes [] w (bw_Flush cw w)"
  by (auto simp: writes_def bw_sent_def bw_Flush_def take_is_prefix split: option.splits)

lemma bw_Flush_empty: "bw_err (bw_Flush cw w) = None \<Longrightarrow> bw_buf (bw_Flush cw w) = []"
  by (auto simp: bw_Flush_def split: option.splits)

lemma writes_fill: "bw_err w = None \<Longrightarrow> writes (take (bw_avail w) s) w (bw_fill cw s w)"
  using writes_trans [OF writes_buffer writes_Flush] by (simp add: bw_fill_def)

lemma writes_direct: "bw_err w = None \<Longrightarrow> bw_buf w = [] \<Longrightarrow> writes s w (bw_direct cw s w)"
  by (auto simp: writes_def bw_sent_def bw_direct_def take_is_prefix split: option.splits)

lemma writes_failed: "bw_err w \<noteq> None \<Longrightarrow> writes s w w"
  by (auto simp: writes_def)

lemma writes_WriteString: "writes s w (bw_WriteString cw s w)"
proof (induction cw s w rule: bw_WriteString.induct)
  case (1 cw s w)
  show ?case
    using 1 writes_trans [OF writes_fill [of w s cw] 1] writes_failed [of w s] writes_buffer [of w s]
    by (subst bw_WriteString.simps) simp
qed

lemma writes_Write: "writes s w (bw_Write cw s w)"
proof (induction cw s w rule: bw_Write.induct)
  case (1 cw s w)
  show ?case
    using 1 writes_trans [OF writes_fill [of w s cw] 1] writes_failed [of w s] writes_buffer [of w s] writes_direct [of w s cw]
    by (subst bw_Write.simps) simp
qed

text \<open>A flushed frame.\<close>

lemma writes_flushed:
  assumes "writes s w w'" and "bw_buf w = []"
  shows "bw_err (bw_Flush cw w') = None \<Longrightarrow> bw_out (bw_Flush cw w') = bw_out w @ s \<and> bw_buf (bw_Flush cw w') = []"
    and "prefix (bw_out w) (bw_out (bw_Flush cw w'))"
    and "prefix (bw_out (bw_Flush cw w')) (bw_out w @ s)"
proof -
  have all: "writes s w (bw_Flush cw w')" using writes_trans [OF assms(1) writes_Flush] by simp
  then show "bw_err (bw_Flush cw w') = None \<Longrightarrow> bw_out (bw_Flush cw w') = bw_out w @ s \<and> bw_buf (bw_Flush cw w') = []"
    using bw_Flush_empty [of cw w'] assms(2) by (simp add: writes_def bw_sent_def)
  show "prefix (bw_out w) (bw_out (bw_Flush cw w'))" "prefix (bw_out (bw_Flush cw w')) (bw_out w @ s)"
    using all assms(2) by (auto simp: writes_def bw_sent_def)
qed

section \<open>Reader\<close>

text \<open>
  The bytes still to come of a connection, in order. \<^verbatim>\<open>ReadString('\n')\<close> is \<open>None\<close> when they end first.
\<close>

definition ReadString_nl :: "string \<Rightarrow> (string \<times> string) option" where
  "ReadString_nl s =
     (case dropWhile (\<lambda>c. c \<noteq> CHR 0x0A) s of
        [] \<Rightarrow> None | c # rest \<Rightarrow> Some (takeWhile (\<lambda>c. c \<noteq> CHR 0x0A) s @ [c], rest))"

definition TrimRight :: "string \<Rightarrow> string \<Rightarrow> string" where
  "TrimRight s cutset = rev (dropWhile (\<lambda>c. c \<in> set cutset) (rev s))"

lemma ReadString_nl_shorter: "ReadString_nl s = Some (l, r) \<Longrightarrow> length r < length s"
proof -
  assume a: "ReadString_nl s = Some (l, r)"
  then obtain c where "dropWhile (\<lambda>c. c \<noteq> CHR 0x0A) s = c # r" by (auto simp: ReadString_nl_def split: list.splits)
  moreover have "length (dropWhile (\<lambda>c. c \<noteq> CHR 0x0A) s) \<le> length s" by (rule length_dropWhile_le)
  ultimately show ?thesis by simp
qed

definition crlf :: string where
  "crlf = [CHR 0x0D, CHR 0x0A]"

lemma ReadString_nl_line:
  assumes "CHR 0x0A \<notin> set l"
  shows "ReadString_nl (l @ crlf @ rest) = Some (l @ crlf, rest)"
proof -
  have "dropWhile (\<lambda>c. c \<noteq> CHR 0x0A) (l @ crlf @ rest) = CHR 0x0A # rest"
    using assms by (subst dropWhile_append2) (auto simp: crlf_def)
  moreover have "takeWhile (\<lambda>c. c \<noteq> CHR 0x0A) (l @ crlf @ rest) = l @ [CHR 0x0D]"
    using assms by (subst takeWhile_append2) (auto simp: crlf_def)
  ultimately show ?thesis by (simp add: ReadString_nl_def crlf_def)
qed

lemma TrimRight_line: "l = [] \<or> last l \<notin> set crlf \<Longrightarrow> TrimRight (l @ crlf) crlf = l"
  by (cases l rule: rev_cases) (auto simp: TrimRight_def crlf_def)

section \<open>Fields\<close>

text \<open>\<^verbatim>\<open>strings.Fields\<close>: the parts between runs of white space.\<close>

function fields_from :: "string \<Rightarrow> string \<Rightarrow> string list" where
  "fields_from acc s =
     (case strip_one go_spaces s of
        Some r \<Rightarrow> (if acc = [] then fields_from [] r else acc # fields_from [] r)
      | None \<Rightarrow> (case s of [] \<Rightarrow> (if acc = [] then [] else [acc]) | c # cs \<Rightarrow> fields_from (acc @ [c]) cs))"
  by pat_completeness auto
termination
  by (relation "measure (\<lambda>(acc, s). length s)") (auto dest: strip_one_shorter)

declare fields_from.simps [simp del]

definition Fields :: "string \<Rightarrow> string list" where
  "Fields s = fields_from [] s"

lemma fields_from_plain:
  assumes "list_all plain_char t"
  shows "fields_from acc (t @ s) = fields_from (acc @ t) s"
  using assms
proof (induction t arbitrary: acc)
  case (Cons c t)
  then have "strip_one go_spaces (c # t @ s) = None" by (intro strip_one_None) (auto dest: go_spaces_head)
  with Cons show ?case by (subst fields_from.simps) simp
qed simp

lemma fields_from_blank: "fields_from acc (CHR 0x20 # s) = (if acc = [] then fields_from [] s else acc # fields_from [] s)"
  by (subst fields_from.simps) (simp add: go_spaces_def)

lemma fields_from_end: "fields_from acc [] = (if acc = [] then [] else [acc])"
  by (subst fields_from.simps) (simp add: go_spaces_def)

lemma Fields_words:
  assumes "\<forall>w \<in> set ws. w \<noteq> [] \<and> list_all plain_char w"
  shows "Fields (Join ws '' '') = ws"
  using assms unfolding Fields_def
proof (induction ws "'' '' :: string" rule: Join.induct)
  case (2 s)
  then show ?case using fields_from_plain [of s "[]" "[]"] by (simp add: fields_from_end)
next
  case (3 s t ss)
  then show ?case using fields_from_plain [of s "[]"] by (simp add: fields_from_blank)
qed (simp add: fields_from_end)

end
