(* ===== verification/Relay_Nats.thy ===== *)
theory Relay_Nats
  imports Go_Bufio Relay_Backends Relay_Config
begin

text \<open>
  The broker on a NATS server, \<^verbatim>\<open>broker/nats/nats.go\<close>: the line protocol it speaks over one connection, its subscriptions and
  its pings. The connection is the parameter \<open>cw\<close> (what it takes of the bytes written, see \<open>Go_Bufio\<close>) and \<open>nb_in\<close>, \<open>nb_end\<close>, the bytes
  that are still to arrive and the error after them. Consumers are numbered in the order they were made, as are the channels
  of pings.

  A step is one critical section or one receive of the code: \<^verbatim>\<open>handleMsg\<close> looks a consumer up under the lock (\<open>n_read\<close>) and sends to
  its channel after releasing it (\<open>n_send\<close>); a ping is started and later answered, cancelled or timed out. A step is \<open>None\<close> when it
  panics, which ends the process.
\<close>

section \<open>State\<close>

record NConsumer =
  nc_id :: int
  nc_ch :: "Message list"
  nc_chclosed :: bool
  nc_t :: string
  nc_g :: string
  nc_once :: bool

record NBroker =
  nb_w :: BufWriter
  nb_in :: string
  nb_end :: string
  nb_connclosed :: bool
  nb_subs :: "(int, nat) gomap"
  nb_cons :: "NConsumer list"
  nb_nextSID :: int
  nb_closed :: bool
  nb_pingWait :: "(string, nat) gomap"
  nb_waits :: "bool list"
  nb_reading :: bool
  nb_pend :: "(nat \<times> Message) option"

abbreviation nb_err :: "NBroker \<Rightarrow> string option" where
  "nb_err b \<equiv> bw_err (nb_w b)"

definition conn :: "conn_writes \<Rightarrow> NBroker \<Rightarrow> conn_writes" where
  "conn cw b = (if nb_connclosed b then (\<lambda>_ _. Some (0, ''use of closed network connection'')) else cw)"

definition n_flush :: "conn_writes \<Rightarrow> NBroker \<Rightarrow> NBroker" where
  "n_flush cw b = b\<lparr> nb_w := bw_Flush (conn cw b) (nb_w b) \<rparr>"

section \<open>Frames\<close>

definition parseNATSURL :: "string \<Rightarrow> string + string" where
  "parseNATSURL url =
     (if HasPrefix url ''nats://'' then Inr (drop (length ''nats://'') url)
      else if url \<noteq> [] then Inr url
      else Inl ''empty nats url'')"

definition writeLine :: "conn_writes \<Rightarrow> string \<Rightarrow> NBroker \<Rightarrow> NBroker" where
  "writeLine cw line b = b\<lparr> nb_w := bw_WriteString (conn cw b) (line @ crlf) (nb_w b) \<rparr>"

definition writePayload :: "conn_writes \<Rightarrow> string \<Rightarrow> NBroker \<Rightarrow> NBroker" where
  "writePayload cw payload b = b\<lparr> nb_w := bw_Write (conn cw b) payload (nb_w b) \<rparr>"

definition writeMsg :: "conn_writes \<Rightarrow> string \<Rightarrow> string \<Rightarrow> NBroker \<Rightarrow> NBroker" where
  "writeMsg cw subject payload b =
     (let b1 = writeLine cw (''PUB '' @ subject @ '' '' @ show_nat 10 (length payload)) b in
      if nb_err b1 \<noteq> None then b1
      else let b2 = writePayload cw payload b1 in
           if nb_err b2 \<noteq> None then b2 else writeLine cw [] b2)"

definition readLine :: "string \<Rightarrow> (string \<times> string) option" where
  "readLine input = (case ReadString_nl input of None \<Rightarrow> None | Some (line, rest) \<Rightarrow> Some (TrimRight line crlf, rest))"

lemma readLine_shorter: "readLine s = Some (l, r) \<Longrightarrow> length r < length s"
  by (auto simp: readLine_def split: option.splits dest: ReadString_nl_shorter)

section \<open>Opening a connection\<close>

definition connect_line :: string where
  "connect_line = ''CONNECT {'' @ [CHR 0x22] @ ''verbose'' @ [CHR 0x22] @ '':false,'' @ [CHR 0x22] @ ''pedantic'' @ [CHR 0x22] @ '':false,'' @
     [CHR 0x22] @ ''lang'' @ [CHR 0x22] @ '':'' @ [CHR 0x22] @ ''go'' @ [CHR 0x22] @ '','' @ [CHR 0x22] @ ''version'' @ [CHR 0x22] @ '':'' @
     [CHR 0x22] @ ''v3'' @ [CHR 0x22] @ '','' @ [CHR 0x22] @ ''echo'' @ [CHR 0x22] @ '':false}''"

text \<open>The loop of \<^verbatim>\<open>handshake\<close>: it ignores lines it does not know.\<close>

function handshake_loop :: "string \<Rightarrow> string \<Rightarrow> string option \<times> string" where
  "handshake_loop ending input =
     (case readLine input of
        None \<Rightarrow> (Some ending, [])
      | Some (line, rest) \<Rightarrow>
          if HasPrefix line ''INFO '' then handshake_loop ending rest
          else if line = ''PONG'' then (None, rest)
          else if HasPrefix line ''-ERR'' then (Some line, rest)
          else handshake_loop ending rest)"
  by pat_completeness auto
termination
  by (relation "measure (\<lambda>(e, s). length s)") (auto dest: readLine_shorter)

declare handshake_loop.simps [simp del]

definition handshake :: "conn_writes \<Rightarrow> NBroker \<Rightarrow> string option \<times> NBroker" where
  "handshake cw b =
     (let b1 = writeLine cw connect_line b in
      if nb_err b1 \<noteq> None then (nb_err b1, b1)
      else let b2 = writeLine cw ''PING'' b1 in
      if nb_err b2 \<noteq> None then (nb_err b2, b2)
      else let b3 = n_flush cw b2 in
      if nb_err b3 \<noteq> None then (nb_err b3, b3)
      else case handshake_loop (nb_end b3) (nb_in b3) of (e, rest) \<Rightarrow> (e, b3\<lparr> nb_in := rest \<rparr>))"

definition fresh_broker :: "string \<Rightarrow> string \<Rightarrow> NBroker" where
  "fresh_broker input ending =
     \<lparr> nb_w = new_writer, nb_in = input, nb_end = ending, nb_connclosed = False, nb_subs = [], nb_cons = [], nb_nextSID = 0,
       nb_closed = False, nb_pingWait = [], nb_waits = [], nb_reading = False, nb_pend = None \<rparr>"

text \<open>\<open>dial\<close> is \<^verbatim>\<open>net.DialTimeout\<close>: an error, or what the peer will send and how the connection will end.\<close>

definition New_Nats :: "(string \<Rightarrow> string + string \<times> string) \<Rightarrow> conn_writes \<Rightarrow> string \<Rightarrow> string + NBroker" where
  "New_Nats dial cw url =
     (case parseNATSURL url of
        Inl e \<Rightarrow> Inl e
      | Inr addr \<Rightarrow> (case dial addr of
           Inl e \<Rightarrow> Inl e
         | Inr (input, ending) \<Rightarrow> (case handshake cw (fresh_broker input ending) of
              (Some e, b) \<Rightarrow> Inl e
            | (None, b) \<Rightarrow> Inr (b\<lparr> nb_reading := True \<rparr>))))"

section \<open>Calls\<close>

definition n_Publish :: "conn_writes \<Rightarrow> string option \<Rightarrow> Message \<Rightarrow> NBroker \<Rightarrow> string option \<times> NBroker" where
  "n_Publish cw ctxErr msg b =
     (if nb_closed b then (Some ''broker closed'', b)
      else case ctxErr of
             Some e \<Rightarrow> (Some e, b)
           | None \<Rightarrow> let b1 = writeMsg cw (mg_Topic msg) (mg_Payload msg) b in
               if nb_err b1 \<noteq> None then (nb_err b1, b1)
               else let b2 = n_flush cw b1 in (nb_err b2, b2))"

definition sub_line :: "string \<Rightarrow> string \<Rightarrow> int \<Rightarrow> string" where
  "sub_line topic grp sid =
     (if grp \<noteq> [] then ''SUB '' @ topic @ '' '' @ grp else ''SUB '' @ topic) @ '' '' @ show_int 10 sid"

definition n_Subscribe :: "conn_writes \<Rightarrow> string \<Rightarrow> string \<Rightarrow> NBroker \<Rightarrow> (string + nat) \<times> NBroker" where
  "n_Subscribe cw topic grp b =
     (if nb_closed b then (Inl ''broker closed'', b)
      else let sid = nb_nextSID b; c = length (nb_cons b);
               b1 = b\<lparr> nb_nextSID := wrap64 (sid + 1),
                       nb_cons := nb_cons b @ [\<lparr> nc_id = sid, nc_ch = [], nc_chclosed = False, nc_t = topic, nc_g = grp, nc_once = False \<rparr>],
                       nb_subs := gm_set (nb_subs b) sid c \<rparr>;
               b2 = writeLine cw (sub_line topic grp sid) b1 in
           case nb_err b2 of
             Some e \<Rightarrow> (Inl e, b2\<lparr> nb_subs := gm_del (nb_subs b2) sid \<rparr>)
           | None \<Rightarrow> let b3 = n_flush cw b2 in
               (case nb_err b3 of
                  Some e \<Rightarrow> (Inl e, b3\<lparr> nb_subs := gm_del (nb_subs b3) sid \<rparr>)
                | None \<Rightarrow> (Inr c, b3)))"

definition ping_start :: "conn_writes \<Rightarrow> int \<Rightarrow> NBroker \<Rightarrow> (string + string \<times> nat) \<times> NBroker" where
  "ping_start cw now b =
     (let token = show_int 10 now; ch = length (nb_waits b) in
      if nb_closed b then (Inl ''broker closed'', b\<lparr> nb_waits := nb_waits b @ [False] \<rparr>)
      else let b1 = b\<lparr> nb_waits := nb_waits b @ [False], nb_pingWait := gm_set (nb_pingWait b) token ch \<rparr>;
               b2 = writeLine cw ''PING'' b1 in
           case nb_err b2 of
             Some e \<Rightarrow> (Inl e, b2\<lparr> nb_pingWait := gm_del (nb_pingWait b2) token \<rparr>)
           | None \<Rightarrow> let b3 = n_flush cw b2 in
               (case nb_err b3 of
                  Some e \<Rightarrow> (Inl e, b3\<lparr> nb_pingWait := gm_del (nb_pingWait b3) token \<rparr>)
                | None \<Rightarrow> (Inr (token, ch), b3)))"

text \<open>The \<^verbatim>\<open>select\<close> of \<^verbatim>\<open>Ping\<close>: \<open>None\<close> when the case is not ready.\<close>

datatype ping_event = PingAnswered | PingCancelled string | PingTimedOut

fun ping_end :: "string \<Rightarrow> nat \<Rightarrow> ping_event \<Rightarrow> NBroker \<Rightarrow> (string option \<times> NBroker) option" where
  "ping_end token ch PingAnswered b =
     (if ch < length (nb_waits b) \<and> nb_waits b ! ch
      then Some (None, b\<lparr> nb_waits := (nb_waits b)[ch := False], nb_pingWait := gm_del (nb_pingWait b) token \<rparr>) else None)"
| "ping_end token ch (PingCancelled e) b = Some (Some e, b\<lparr> nb_pingWait := gm_del (nb_pingWait b) token \<rparr>)"
| "ping_end token ch PingTimedOut b = Some (Some ''ping timeout'', b\<lparr> nb_pingWait := gm_del (nb_pingWait b) token \<rparr>)"

text \<open>Closing a channel twice panics.\<close>

definition close_ch :: "nat \<Rightarrow> NConsumer list \<Rightarrow> NConsumer list option" where
  "close_ch c cs = (if c < length cs \<and> \<not> nc_chclosed (cs ! c) then Some (cs[c := (cs ! c)\<lparr> nc_chclosed := True \<rparr>]) else None)"

fun close_all :: "nat list \<Rightarrow> NConsumer list \<Rightarrow> NConsumer list option" where
  "close_all [] cs = Some cs"
| "close_all (c # rest) cs = (case close_ch c cs of None \<Rightarrow> None | Some cs \<Rightarrow> close_all rest cs)"

text \<open>\<open>buffered\<close> is how much of what is to come the reader holds already: it is all that can still be read.\<close>

definition n_Close :: "string option \<Rightarrow> nat \<Rightarrow> NBroker \<Rightarrow> (string option \<times> NBroker) option" where
  "n_Close closeErr buffered b =
     (if nb_closed b then Some (None, b)
      else case close_all (map snd (nb_subs b)) (nb_cons b) of
             None \<Rightarrow> None
           | Some cs \<Rightarrow> Some (closeErr, b\<lparr> nb_closed := True, nb_cons := cs, nb_subs := [], nb_connclosed := True,
               nb_in := take buffered (nb_in b), nb_end := ''use of closed network connection'' \<rparr>))"

section \<open>Reading\<close>

text \<open>The largest allocation of the runtime on 64-bit systems; \<^verbatim>\<open>make\<close> panics above it and below 0.\<close>

definition max_alloc :: int where
  "max_alloc = 2 ^ 48"

datatype msg_frame = MsgErr string | MsgPanic | MsgOk int string string

text \<open>
  \<^verbatim>\<open>handleMsg\<close> up to its lookup: the subscription, the payload and what follows it, or that there was an error (the caller looks at
  no more of it) and what follows. \<^verbatim>\<open>payload[:size]\<close> panics for a negative size.
\<close>

definition parse_msg :: "string \<Rightarrow> string \<Rightarrow> msg_frame" where
  "parse_msg line input =
     (let parts = Fields line in
      if length parts < 4 then MsgErr input
      else case Atoi (parts ! 2) of
             None \<Rightarrow> MsgErr input
           | Some sid \<Rightarrow> (case Atoi (last parts) of
                None \<Rightarrow> MsgErr input
              | Some sz \<Rightarrow>
                  if wrap64 (sz + 2) < 0 \<or> max_alloc < wrap64 (sz + 2) then MsgPanic
                  else let n = nat (wrap64 (sz + 2)) in
                       if length input < n then MsgErr []
                       else if sz < 0 then MsgPanic
                       else MsgOk sid (take (nat sz) input) (drop n input)))"

definition n_stop :: "nat \<Rightarrow> NBroker \<Rightarrow> NBroker option" where
  "n_stop buffered b = (case n_Close None buffered b of None \<Rightarrow> None | Some (_, b) \<Rightarrow> Some (b\<lparr> nb_reading := False \<rparr>))"

definition n_answer :: "NBroker \<Rightarrow> NBroker" where
  "n_answer b = b\<lparr> nb_waits := map (\<lambda>i. nb_waits b ! i \<or> i \<in> snd ` set (nb_pingWait b)) [0..<length (nb_waits b)], nb_pingWait := [] \<rparr>"

text \<open>One round of \<^verbatim>\<open>readLoop\<close>, up to the send of \<^verbatim>\<open>handleMsg\<close>.\<close>

definition n_read :: "conn_writes \<Rightarrow> nat \<Rightarrow> NBroker \<Rightarrow> NBroker option" where
  "n_read cw buffered b =
     (case readLine (nb_in b) of
        None \<Rightarrow> let b1 = b\<lparr> nb_in := [] \<rparr> in
                if nb_end b \<noteq> ''EOF'' then n_stop buffered b1 else Some (b1\<lparr> nb_reading := False \<rparr>)
      | Some (line, rest) \<Rightarrow>
          let b1 = b\<lparr> nb_in := rest \<rparr> in
          if line = ''PING'' then Some (n_flush cw (writeLine cw ''PONG'' b1))
          else if line = ''PONG'' then Some (n_answer b1)
          else if HasPrefix line ''MSG ''
          then (case parse_msg line rest of
                  MsgPanic \<Rightarrow> None
                | MsgErr rest2 \<Rightarrow> n_stop buffered (b1\<lparr> nb_in := rest2 \<rparr>)
                | MsgOk sid payload rest2 \<Rightarrow>
                    Some (b1\<lparr> nb_in := rest2, nb_pend :=
                      (case gm_get (nb_subs b) sid of
                         None \<Rightarrow> None
                       | Some c \<Rightarrow> Some (c, \<lparr> mg_Topic = nc_t (nb_cons b ! c), mg_Key = [], mg_Sequence = 0, mg_Timestamp = 0,
                           mg_Headers = [], mg_Payload = payload \<rparr>)) \<rparr>))
          else if HasPrefix line ''-ERR'' then n_stop buffered b1
          else Some b1)"

text \<open>The send of \<^verbatim>\<open>handleMsg\<close>: a full channel drops the message, a closed one panics.\<close>

definition n_send :: "NBroker \<Rightarrow> NBroker option" where
  "n_send b =
     (case nb_pend b of
        None \<Rightarrow> Some b
      | Some (c, msg) \<Rightarrow>
          if nc_chclosed (nb_cons b ! c) then None
          else let q = nc_ch (nb_cons b ! c) in
               Some (b\<lparr> nb_pend := None,
                 nb_cons := (if length q < 1024 then (nb_cons b)[c := (nb_cons b ! c)\<lparr> nc_ch := q @ [msg] \<rparr>] else nb_cons b) \<rparr>))"

section \<open>Consumers\<close>

datatype n_received = NMsg Message | NConsumerClosed | NCancelled string

text \<open>\<^verbatim>\<open>Receive\<close>: \<open>None\<close> while it blocks; of two ready cases \<open>pickCtx\<close> picks the context's.\<close>

definition n_Receive :: "string option \<Rightarrow> bool \<Rightarrow> nat \<Rightarrow> NBroker \<Rightarrow> (n_received \<times> NBroker) option" where
  "n_Receive ctx pickCtx c b =
     (let k = nb_cons b ! c; ready = (nc_ch k \<noteq> [] \<or> nc_chclosed k) in
      if ctx \<noteq> None \<and> (pickCtx \<or> \<not> ready) then Some (NCancelled (the ctx), b)
      else case nc_ch k of
             m # rest \<Rightarrow> Some (NMsg m, b\<lparr> nb_cons := (nb_cons b)[c := k\<lparr> nc_ch := rest \<rparr>] \<rparr>)
           | [] \<Rightarrow> if nc_chclosed k then Some (NConsumerClosed, b) else None)"

definition n_consumer_Close :: "nat \<Rightarrow> NBroker \<Rightarrow> NBroker option" where
  "n_consumer_Close c b =
     (let k = nb_cons b ! c in
      if nc_once k then Some b
      else case close_ch c ((nb_cons b)[c := k\<lparr> nc_once := True \<rparr>]) of
             None \<Rightarrow> None
           | Some cs \<Rightarrow> Some (b\<lparr> nb_subs := gm_del (nb_subs b) (nc_id k), nb_cons := cs \<rparr>))"

section \<open>Histories\<close>

text \<open>
  What happens to a broker: the calls of its users, with what the outside contributes to each, and the rounds of its reader.
  A ping's end that is not ready and a receive that blocks are no steps.
\<close>

datatype nats_op =
    NPublish "string option" Message
  | NSubscribe string string
  | NPingStart int
  | NPingEnd string nat ping_event
  | NClose "string option" nat
  | NRead nat
  | NSend
  | NReceive "string option" bool nat
  | NConsumerClose nat

fun n_enabled :: "nats_op \<Rightarrow> NBroker \<Rightarrow> bool" where
  "n_enabled (NRead _) b = (nb_reading b \<and> nb_pend b = None)"
| "n_enabled NSend b = (nb_pend b \<noteq> None)"
| "n_enabled (NPingEnd token ch ev) b = (ping_end token ch ev b \<noteq> None)"
| "n_enabled (NReceive ctx pick c) b = (c < length (nb_cons b) \<and> n_Receive ctx pick c b \<noteq> None)"
| "n_enabled (NConsumerClose c) b = (c < length (nb_cons b))"
| "n_enabled _ b = True"

fun n_step :: "conn_writes \<Rightarrow> nats_op \<Rightarrow> NBroker \<Rightarrow> NBroker option" where
  "n_step cw (NPublish ctx msg) b = Some (snd (n_Publish cw ctx msg b))"
| "n_step cw (NSubscribe topic grp) b = Some (snd (n_Subscribe cw topic grp b))"
| "n_step cw (NPingStart now) b = Some (snd (ping_start cw now b))"
| "n_step cw (NPingEnd token ch ev) b = map_option snd (ping_end token ch ev b)"
| "n_step cw (NClose e n) b = map_option snd (n_Close e n b)"
| "n_step cw (NRead n) b = n_read cw n b"
| "n_step cw NSend b = n_send b"
| "n_step cw (NReceive ctx pick c) b = map_option snd (n_Receive ctx pick c b)"
| "n_step cw (NConsumerClose c) b = n_consumer_Close c b"

text \<open>The bytes a step means to put on the wire.\<close>

definition pub_frame :: "string \<Rightarrow> string \<Rightarrow> string" where
  "pub_frame topic payload = ''PUB '' @ topic @ '' '' @ show_nat 10 (length payload) @ crlf @ payload @ crlf"

fun n_frame :: "nats_op \<Rightarrow> NBroker \<Rightarrow> string" where
  "n_frame (NPublish ctx msg) b = (if nb_closed b \<or> ctx \<noteq> None then [] else pub_frame (mg_Topic msg) (mg_Payload msg))"
| "n_frame (NSubscribe topic grp) b = (if nb_closed b then [] else sub_line topic grp (nb_nextSID b) @ crlf)"
| "n_frame (NPingStart now) b = (if nb_closed b then [] else ''PING'' @ crlf)"
| "n_frame (NRead n) b = (case readLine (nb_in b) of Some (line, _) \<Rightarrow> (if line = ''PING'' then ''PONG'' @ crlf else []) | None \<Rightarrow> [])"
| "n_frame _ b = []"

text \<open>\<open>nats_steps cw b ops s b'\<close>: the steps \<open>ops\<close> lead from \<open>b\<close> to \<open>b'\<close>, and their frames are \<open>s\<close>.\<close>

inductive nats_steps :: "conn_writes \<Rightarrow> NBroker \<Rightarrow> nats_op list \<Rightarrow> string \<Rightarrow> NBroker \<Rightarrow> bool" for cw b where
  nats_refl: "nats_steps cw b [] [] b"
| nats_step: "nats_steps cw b ops s b1 \<Longrightarrow> n_enabled p b1 \<Longrightarrow> n_step cw p b1 = Some b2 \<Longrightarrow>
    nats_steps cw b (ops @ [p]) (s @ n_frame p b1) b2"

end
