(* ===== verification/Relay_Nats_Inv.thy ===== *)
theory Relay_Nats_Inv
  imports Relay_Nats
begin

text \<open>
  Lemmas on the NATS broker: what each step writes to the connection, the invariant of its subscriptions and channels, and how the reader takes a
  message of the server apart.
\<close>

section \<open>The wire\<close>

named_theorems wire_simps

lemma writeLine_frame [wire_simps]:
  "nb_subs (writeLine cw l b) = nb_subs b" "nb_cons (writeLine cw l b) = nb_cons b" "nb_closed (writeLine cw l b) = nb_closed b"
  "nb_in (writeLine cw l b) = nb_in b" "nb_end (writeLine cw l b) = nb_end b" "nb_pend (writeLine cw l b) = nb_pend b"
  "nb_reading (writeLine cw l b) = nb_reading b" "nb_connclosed (writeLine cw l b) = nb_connclosed b"
  "nb_waits (writeLine cw l b) = nb_waits b" "nb_pingWait (writeLine cw l b) = nb_pingWait b" "nb_nextSID (writeLine cw l b) = nb_nextSID b"
  by (simp_all add: writeLine_def)

lemma n_flush_frame [wire_simps]:
  "nb_subs (n_flush cw b) = nb_subs b" "nb_cons (n_flush cw b) = nb_cons b" "nb_closed (n_flush cw b) = nb_closed b"
  "nb_in (n_flush cw b) = nb_in b" "nb_end (n_flush cw b) = nb_end b" "nb_pend (n_flush cw b) = nb_pend b"
  "nb_reading (n_flush cw b) = nb_reading b" "nb_connclosed (n_flush cw b) = nb_connclosed b"
  "nb_waits (n_flush cw b) = nb_waits b" "nb_pingWait (n_flush cw b) = nb_pingWait b" "nb_nextSID (n_flush cw b) = nb_nextSID b"
  by (simp_all add: n_flush_def)

lemma writeMsg_frame [wire_simps]:
  "nb_subs (writeMsg cw l p b) = nb_subs b" "nb_cons (writeMsg cw l p b) = nb_cons b" "nb_closed (writeMsg cw l p b) = nb_closed b"
  "nb_in (writeMsg cw l p b) = nb_in b" "nb_end (writeMsg cw l p b) = nb_end b" "nb_pend (writeMsg cw l p b) = nb_pend b"
  "nb_reading (writeMsg cw l p b) = nb_reading b" "nb_connclosed (writeMsg cw l p b) = nb_connclosed b"
  "nb_waits (writeMsg cw l p b) = nb_waits b" "nb_pingWait (writeMsg cw l p b) = nb_pingWait b"
  by (simp_all add: writeMsg_def writePayload_def Let_def wire_simps)

text \<open>
  \<open>framed f b b'\<close>: from \<open>b\<close> to \<open>b'\<close> the frame \<open>f\<close> was written and flushed. \<open>wired s b\<close>: what the connection took is a prefix of \<open>s\<close>, all of
  it unless writing has failed.
\<close>

definition framed :: "string \<Rightarrow> NBroker \<Rightarrow> NBroker \<Rightarrow> bool" where
  "framed f b b' \<longleftrightarrow> writes f (nb_w b) (nb_w b') \<and> (nb_err b' = None \<and> bw_buf (nb_w b) = [] \<longrightarrow> bw_buf (nb_w b') = [])"

definition wired :: "string \<Rightarrow> NBroker \<Rightarrow> bool" where
  "wired s b \<longleftrightarrow> prefix (bw_out (nb_w b)) s \<and> (nb_err b = None \<longrightarrow> bw_out (nb_w b) = s \<and> bw_buf (nb_w b) = [])"

lemma wired_framed: "wired s b \<Longrightarrow> framed f b b' \<Longrightarrow> wired (s @ f) b'"
  by (cases "nb_err b = None") (auto simp: wired_def framed_def writes_def bw_sent_def)

lemma framed_same [simp]: "nb_w b' = nb_w b \<Longrightarrow> framed [] b b'"
  by (simp add: framed_def)

lemma framed_writes:
  assumes "writes f (nb_w b) (nb_w b1)" and "nb_w b2 = bw_Flush c (nb_w b1) \<or> nb_w b2 = nb_w b1 \<and> nb_err b1 \<noteq> None"
  shows "framed f b b2"
  using assms writes_trans [OF assms(1) writes_Flush [of _ c]] bw_Flush_empty [of c "nb_w b1"] by (auto simp: framed_def)

lemma writes_writeLine: "writes (l @ crlf) (nb_w b) (nb_w (writeLine cw l b))"
  by (simp add: writeLine_def writes_WriteString)

lemma writes_writeMsg: "writes (pub_frame topic payload) (nb_w b) (nb_w (writeMsg cw topic payload b))"
proof -
  define l where "l = ''PUB '' @ topic @ '' '' @ show_nat 10 (length payload)"
  define b1 where "b1 = writeLine cw l b"
  define b2 where "b2 = writePayload cw payload b1"
  have 1: "writes (l @ crlf) (nb_w b) (nb_w b1)" unfolding b1_def by (rule writes_writeLine)
  have 2: "writes payload (nb_w b1) (nb_w b2)" by (simp add: b2_def writePayload_def writes_Write)
  have 3: "writes crlf (nb_w b2) (nb_w (writeLine cw [] b2))" using writes_writeLine [of "[]"] by simp
  have frame: "pub_frame topic payload = (l @ crlf) @ payload @ crlf" by (simp add: pub_frame_def l_def)
  have msg: "writeMsg cw topic payload b = (if nb_err b1 \<noteq> None then b1 else if nb_err b2 \<noteq> None then b2 else writeLine cw [] b2)"
    by (simp add: writeMsg_def Let_def b1_def b2_def l_def)
  have b2: "nb_err b1 \<noteq> None \<Longrightarrow> nb_w b2 = nb_w b1" using 2 by (simp add: writes_def)
  have b3: "nb_err b2 \<noteq> None \<Longrightarrow> nb_w (writeLine cw [] b2) = nb_w b2" using 3 by (simp add: writes_def)
  have "nb_w (writeMsg cw topic payload b) = nb_w (writeLine cw [] b2)" using b2 b3 by (auto simp: msg)
  then show ?thesis using writes_trans [OF 1 writes_trans [OF 2 3]] by (simp add: frame)
qed

lemma flush_writer: "nb_w (n_flush cw b) = bw_Flush (conn cw b) (nb_w b)"
  by (simp add: n_flush_def)

lemma framed_Publish: "framed (n_frame (NPublish ctx msg) b) b (snd (n_Publish cw ctx msg b))"
  using framed_writes [OF writes_writeMsg [of "mg_Topic msg" "mg_Payload msg" b cw]]
  by (auto simp: n_Publish_def Let_def flush_writer split: option.splits)

lemma framed_line:
  assumes "nb_w b1 = nb_w b"
    and "nb_w b2 = bw_Flush c (nb_w (writeLine cw l b1)) \<or> nb_w b2 = nb_w (writeLine cw l b1) \<and> nb_err (writeLine cw l b1) \<noteq> None"
  shows "framed (l @ crlf) b b2"
  using framed_writes [OF writes_writeLine [of l b1 cw, unfolded assms(1)] assms(2)] .

lemma framed_Subscribe: "framed (n_frame (NSubscribe topic grp) b) b (snd (n_Subscribe cw topic grp b))"
proof -
  define b1 where "b1 = b\<lparr> nb_nextSID := wrap64 (nb_nextSID b + 1),
    nb_cons := nb_cons b @ [\<lparr> nc_id = nb_nextSID b, nc_ch = [], nc_chclosed = False, nc_t = topic, nc_g = grp, nc_once = False \<rparr>],
    nb_subs := gm_set (nb_subs b) (nb_nextSID b) (length (nb_cons b)) \<rparr>"
  have "nb_w b1 = nb_w b" by (simp add: b1_def)
  from framed_line [OF this, of _ _ cw "sub_line topic grp (nb_nextSID b)"] show ?thesis
    by (auto simp: n_Subscribe_def Let_def b1_def [symmetric] flush_writer split: option.splits)
qed

lemma framed_ping: "framed (n_frame (NPingStart now) b) b (snd (ping_start cw now b))"
proof -
  define b1 where "b1 = b\<lparr> nb_waits := nb_waits b @ [False], nb_pingWait := gm_set (nb_pingWait b) (show_int 10 now) (length (nb_waits b)) \<rparr>"
  have "nb_w b1 = nb_w b" by (simp add: b1_def)
  from framed_line [OF this, of _ _ cw "''PING''"] show ?thesis
    by (auto simp: ping_start_def Let_def b1_def [symmetric] flush_writer split: option.splits)
qed

lemma Close_writer: "n_Close e n b = Some (r, b') \<Longrightarrow> nb_w b' = nb_w b"
  by (auto simp: n_Close_def split: if_splits option.splits)

lemma stop_writer: "n_stop n b = Some b' \<Longrightarrow> nb_w b' = nb_w b"
  by (auto simp: n_stop_def dest: Close_writer split: option.splits prod.splits)

lemma framed_read:
  assumes "n_read cw n b = Some b'"
  shows "framed (n_frame (NRead n) b) b b'"
proof (cases "\<exists>rest. readLine (nb_in b) = Some (''PING'', rest)")
  case True
  then obtain rest where l: "readLine (nb_in b) = Some (''PING'', rest)" ..
  have "framed (''PONG'' @ crlf) b (n_flush cw (writeLine cw ''PONG'' (b\<lparr> nb_in := rest \<rparr>)))"
    by (rule framed_line [of "b\<lparr> nb_in := rest \<rparr>"]) (auto simp: flush_writer)
  then show ?thesis using assms l by (simp add: n_read_def)
next
  case False
  then have "nb_w b' = nb_w b"
    using assms by (auto simp: n_read_def n_answer_def Let_def dest!: stop_writer split: option.splits if_splits msg_frame.splits)
  moreover have "n_frame (NRead n) b = []" using False by (auto split: option.splits)
  ultimately show ?thesis by simp
qed

lemma framed_step:
  assumes "n_step cw p b = Some b'"
  shows "framed (n_frame p b) b b'"
proof (cases p)
  case (NPublish ctx msg) then show ?thesis using assms framed_Publish [of ctx msg b cw] by (simp del: n_frame.simps)
next
  case (NSubscribe t g) then show ?thesis using assms framed_Subscribe [of t g b cw] by (simp del: n_frame.simps)
next
  case (NPingStart now) then show ?thesis using assms framed_ping [of now b cw] by (simp del: n_frame.simps)
next
  case (NPingEnd token ch ev) then show ?thesis using assms by (cases ev) (auto split: if_splits)
next
  case (NRead n) then show ?thesis using assms framed_read [of cw n b b'] by (simp del: n_frame.simps)
qed (use assms in \<open>auto simp: n_send_def n_Receive_def n_consumer_Close_def Let_def dest: Close_writer
     split: option.splits prod.splits list.splits if_splits\<close>)

lemma wired_steps:
  assumes "nats_steps cw b ops s b'" and "wired s0 b"
  shows "wired (s0 @ s) b'"
  using assms
proof (induction rule: nats_steps.induct)
  case (nats_step ops s b1 p b2)
  then show ?case using wired_framed [OF _ framed_step, of "s0 @ s" b1 cw p b2] by simp
qed simp

definition hello :: string where
  "hello = connect_line @ crlf @ ''PING'' @ crlf"

lemma handshake_wired:
  assumes "handshake cw (fresh_broker input ending) = (None, b)"
  shows "wired hello b" and "\<exists>rest. handshake_loop ending input = (None, rest) \<and>
    b = (fresh_broker input ending)\<lparr> nb_in := rest, nb_w := nb_w b \<rparr>"
proof -
  define b0 where "b0 = fresh_broker input ending"
  define b1 where "b1 = writeLine cw connect_line b0"
  define b2 where "b2 = writeLine cw ''PING'' b1"
  define b3 where "b3 = n_flush cw b2"
  have h: "nb_err b3 = None" "handshake_loop (nb_end b3) (nb_in b3) = (None, nb_in b)" "b = b3\<lparr> nb_in := nb_in b \<rparr>"
    using assms by (auto simp: handshake_def Let_def b0_def [symmetric] b1_def [symmetric] b2_def [symmetric] b3_def [symmetric]
      split: if_splits prod.splits)
  have same: "b3 = b0\<lparr> nb_w := nb_w b3 \<rparr>"
    by (simp add: b3_def b2_def b1_def n_flush_def writeLine_def)
  have "writes (connect_line @ crlf) (nb_w b0) (nb_w b1)" "writes (''PING'' @ crlf) (nb_w b1) (nb_w b2)"
    unfolding b1_def b2_def by (rule writes_writeLine)+
  from writes_trans [OF this] have w: "writes hello (nb_w b0) (nb_w b2)" by (simp add: hello_def)
  have "wired [] b0" by (simp add: wired_def b0_def fresh_broker_def new_writer_def)
  from wired_framed [OF this framed_writes [OF w, of b3 "conn cw b2"]] have "wired hello b3" by (simp add: b3_def flush_writer)
  moreover have "nb_w b = nb_w b3" by (subst h(3)) simp
  ultimately show "wired hello b" by (simp add: wired_def)
  have "nb_end b3 = ending" "nb_in b3 = input"
    by (subst same, simp add: b0_def fresh_broker_def)+
  then show "\<exists>rest. handshake_loop ending input = (None, rest) \<and> b = (fresh_broker input ending)\<lparr> nb_in := rest, nb_w := nb_w b \<rparr>"
    using h(2) \<open>nb_w b = nb_w b3\<close> by (intro exI [of _ "nb_in b"]) (subst h(3), subst same, simp add: b0_def)
qed

lemma New_NatsD:
  assumes "New_Nats dial cw url = Inr b"
  obtains input ending rest where "b = (fresh_broker input ending)\<lparr> nb_in := rest, nb_w := nb_w b, nb_reading := True \<rparr>"
    and "wired hello b"
proof -
  from assms obtain input ending b0 where h: "handshake cw (fresh_broker input ending) = (None, b0)" and b: "b = b0\<lparr> nb_reading := True \<rparr>"
    by (auto simp: New_Nats_def split: sum.splits prod.splits option.splits)
  from handshake_wired [OF h] obtain rest where
    r: "wired hello b0" "b0 = (fresh_broker input ending)\<lparr> nb_in := rest, nb_w := nb_w b0 \<rparr>" by blast
  have "b = (fresh_broker input ending)\<lparr> nb_in := rest, nb_w := nb_w b, nb_reading := True \<rparr>"
    unfolding b by (subst r(2)) simp
  moreover have "wired hello b" using r(1) b by (simp add: wired_def)
  ultimately show thesis by (rule that)
qed

section \<open>Invariant\<close>

lemma set_gm_del: "x \<in> set (gm_del m k) \<longleftrightarrow> fst x \<noteq> k \<and> x \<in> set m"
  by (auto simp: gm_del_def AList.delete_eq)

text \<open>
  Subscriptions point to their own consumers, whose channels are open; a closed broker has none left; channels hold at most 1024 messages;
  a channel that is closed was closed by its consumer or by the broker.
\<close>

definition sub_ok :: "NBroker \<Rightarrow> int \<Rightarrow> nat \<Rightarrow> bool" where
  "sub_ok b sid c \<longleftrightarrow> c < length (nb_cons b) \<and> nc_id (nb_cons b ! c) = sid \<and> \<not> nc_chclosed (nb_cons b ! c)"

definition con_ok :: "bool \<Rightarrow> NConsumer \<Rightarrow> bool" where
  "con_ok cl k \<longleftrightarrow> length (nc_ch k) \<le> 1024 \<and> (nc_once k \<longrightarrow> nc_chclosed k) \<and> (nc_chclosed k \<longrightarrow> nc_once k \<or> cl)"

definition nats_inv :: "NBroker \<Rightarrow> bool" where
  "nats_inv b \<longleftrightarrow> gm_ok (nb_subs b) \<and> (\<forall>(sid, c) \<in> set (nb_subs b). sub_ok b sid c) \<and>
     (nb_closed b \<longrightarrow> nb_subs b = [] \<and> nb_connclosed b) \<and> (\<forall>c m. nb_pend b = Some (c, m) \<longrightarrow> c < length (nb_cons b)) \<and>
     (\<forall>k \<in> set (nb_cons b). con_ok (nb_closed b) k)"

lemma nats_invD:
  assumes "nats_inv b"
  shows "gm_ok (nb_subs b)" and "(sid, c) \<in> set (nb_subs b) \<Longrightarrow> sub_ok b sid c" and "nb_closed b \<Longrightarrow> nb_subs b = []"
    and "nb_closed b \<Longrightarrow> nb_connclosed b"
    and "nb_pend b = Some (c, m) \<Longrightarrow> c < length (nb_cons b)" and "i < length (nb_cons b) \<Longrightarrow> con_ok (nb_closed b) (nb_cons b ! i)"
  using assms by (auto simp: nats_inv_def)

lemma subs_distinct: "nats_inv b \<Longrightarrow> distinct (map snd (nb_subs b))"
proof -
  assume i: "nats_inv b"
  have eq: "map (\<lambda>c. nc_id (nb_cons b ! c)) (map snd (nb_subs b)) = map fst (nb_subs b)"
    using nats_invD(2) [OF i] by (auto simp: sub_ok_def)
  then have "distinct (map (\<lambda>c. nc_id (nb_cons b ! c)) (map snd (nb_subs b)))"
    using nats_invD(1) [OF i] eq by (simp only: gm_ok_def)
  then show ?thesis by (rule distinct_map [THEN iffD1, THEN conjunct1])
qed

lemma close_all_Some:
  assumes "distinct cs" and "\<forall>c \<in> set cs. c < length ks \<and> \<not> nc_chclosed (ks ! c)"
  shows "\<exists>ks'. close_all cs ks = Some ks' \<and> length ks' = length ks \<and>
    (\<forall>i < length ks. ks' ! i = (if i \<in> set cs then (ks ! i)\<lparr> nc_chclosed := True \<rparr> else ks ! i))"
  using assms
proof (induction cs arbitrary: ks)
  case (Cons c cs)
  define k1 where "k1 = ks[c := (ks ! c)\<lparr> nc_chclosed := True \<rparr>]"
  have c: "close_ch c ks = Some k1" using Cons.prems by (simp add: close_ch_def k1_def)
  have "\<forall>c' \<in> set cs. c' < length k1 \<and> \<not> nc_chclosed (k1 ! c')"
    using Cons.prems by (auto simp: k1_def nth_list_update)
  from Cons.IH [OF _ this] Cons.prems(1) obtain ks' where
    "close_all cs k1 = Some ks'" "length ks' = length k1"
    "\<forall>i < length k1. ks' ! i = (if i \<in> set cs then (k1 ! i)\<lparr> nc_chclosed := True \<rparr> else k1 ! i)" by auto
  then show ?case using c Cons.prems by (auto simp: k1_def nth_list_update)
qed simp

lemma Close_inv:
  assumes "nats_inv b"
  shows "\<exists>b'. n_Close e n b = Some (if nb_closed b then None else e, b') \<and> nats_inv b' \<and> nb_closed b' \<and> length (nb_cons b') = length (nb_cons b) \<and>
    nb_pend b' = nb_pend b"
proof (cases "nb_closed b")
  case True
  then show ?thesis using assms by (simp add: n_Close_def)
next
  case False
  have "\<forall>c \<in> set (map snd (nb_subs b)). c < length (nb_cons b) \<and> \<not> nc_chclosed (nb_cons b ! c)"
    using nats_invD(2) [OF assms] by (auto simp: sub_ok_def)
  from close_all_Some [OF subs_distinct [OF assms] this] obtain ks where
    ks: "close_all (map snd (nb_subs b)) (nb_cons b) = Some ks" "length ks = length (nb_cons b)"
    "\<And>i. i < length ks \<Longrightarrow> ks ! i = (if i \<in> set (map snd (nb_subs b)) then (nb_cons b ! i)\<lparr> nc_chclosed := True \<rparr> else nb_cons b ! i)"
    by auto
  have "con_ok True k" if k: "k \<in> set ks" for k
  proof -
    obtain i where "i < length ks" "k = ks ! i" using k by (auto simp: in_set_conv_nth)
    then show ?thesis using ks(2,3) nats_invD(6) [OF assms, of i] by (simp add: con_ok_def)
  qed
  moreover have "\<forall>c m. nb_pend b = Some (c, m) \<longrightarrow> c < length ks"
    using nats_invD(5) [OF assms] ks(2) by simp
  ultimately show ?thesis using False ks(1,2) by (auto simp: n_Close_def nats_inv_def)
qed

lemma stop_inv:
  assumes "nats_inv b"
  shows "\<exists>b'. n_stop n b = Some b' \<and> nats_inv b'"
proof -
  from Close_inv [OF assms, of None n] obtain b' where "n_Close None n b = Some (None, b')" "nats_inv b'" by auto
  then show ?thesis by (simp add: n_stop_def) (simp add: nats_inv_def sub_ok_def)
qed

lemma nats_inv_cong:
  assumes "nats_inv b" and "nb_subs b' = nb_subs b" "nb_cons b' = nb_cons b" "nb_closed b' = nb_closed b" "nb_connclosed b' = nb_connclosed b"
    and "nb_pend b' = nb_pend b \<or> nb_pend b' = None"
  shows "nats_inv b'"
  using assms by (auto simp: nats_inv_def sub_ok_def)

lemma read_inv:
  assumes "nats_inv b"
  shows "n_read cw n b = None \<longleftrightarrow> (\<exists>line rest. readLine (nb_in b) = Some (line, rest) \<and> HasPrefix line ''MSG '' \<and> parse_msg line rest = MsgPanic)"
    and "n_read cw n b = Some b' \<Longrightarrow> nats_inv b'"
proof -
  have in_inv: "nats_inv (b\<lparr> nb_in := i \<rparr>)" for i by (rule nats_inv_cong [OF assms]) simp_all
  note stop = stop_inv [OF in_inv, of n]
  have msg: "HasPrefix l ''MSG '' \<Longrightarrow> l \<noteq> ''PING'' \<and> l \<noteq> ''PONG''" for l by (auto simp: HasPrefix_def)
  show "n_read cw n b = None \<longleftrightarrow> (\<exists>line rest. readLine (nb_in b) = Some (line, rest) \<and> HasPrefix line ''MSG '' \<and> parse_msg line rest = MsgPanic)"
    using stop msg by (auto simp: n_read_def Let_def split: option.splits if_splits msg_frame.splits)
  have pend: "c < length (nb_cons b)" if "gm_get (nb_subs b) sid = Some c" for sid c
    using nats_invD(2) [OF assms gm_get_mem [OF that]] by (simp add: sub_ok_def)
  have ok: "nats_inv (b\<lparr> nb_in := i, nb_pend := case gm_get (nb_subs b) sid of None \<Rightarrow> None | Some c \<Rightarrow> Some (c, m c) \<rparr>)" for i sid m
    using assms pend by (auto simp: nats_inv_def sub_ok_def split: option.splits)
  show "nats_inv b'" if "n_read cw n b = Some b'"
  proof (cases "readLine (nb_in b)")
    case None
    then show ?thesis using that stop [of "[]"] by (auto simp: n_read_def Let_def intro: nats_inv_cong [OF assms] split: if_splits)
  next
    case (Some p)
    obtain line rest where p: "p = (line, rest)" by (cases p)
    have 1: "nats_inv (n_flush cw (writeLine cw ''PONG'' (b\<lparr> nb_in := rest \<rparr>)))"
      by (rule nats_inv_cong [OF assms]) (simp_all add: wire_simps)
    have 2: "nats_inv (n_answer (b\<lparr> nb_in := rest \<rparr>))" by (rule nats_inv_cong [OF assms]) (simp_all add: n_answer_def)
    have 3: "n_stop n (b\<lparr> nb_in := i \<rparr>) = Some b' \<Longrightarrow> nats_inv b'" for i using stop [of i] by auto
    show ?thesis using that 1 2 3 in_inv ok Some p
      by (auto simp: n_read_def Let_def split: if_splits msg_frame.splits)
  qed
qed

lemma Subscribe_inv:
  assumes "nats_inv b"
  shows "nats_inv (snd (n_Subscribe cw topic grp b))"
proof (cases "nb_closed b")
  case True
  then show ?thesis using assms by (simp add: n_Subscribe_def)
next
  case False
  define sid where "sid = nb_nextSID b"
  define b1 where "b1 = b\<lparr> nb_nextSID := wrap64 (sid + 1),
    nb_cons := nb_cons b @ [\<lparr> nc_id = sid, nc_ch = [], nc_chclosed = False, nc_t = topic, nc_g = grp, nc_once = False \<rparr>],
    nb_subs := gm_set (nb_subs b) sid (length (nb_cons b)) \<rparr>"
  have sub: "sub_ok b1 s c" if "(s, c) \<in> set (nb_subs b1)" for s c
  proof -
    have "gm_get (nb_subs b1) s = Some c"
      using that nats_invD(1) [OF assms] by (subst gm_get_in) (simp_all add: b1_def)
    then consider "s = sid" "c = length (nb_cons b)" | "(s, c) \<in> set (nb_subs b)"
      by (auto simp: b1_def dest: gm_get_mem split: if_splits)
    then show ?thesis using nats_invD(2) [OF assms, of s c] by cases (auto simp: sub_ok_def b1_def nth_append)
  qed
  have 1: "nats_inv b1"
    using sub assms False by (auto simp: nats_inv_def b1_def con_ok_def)
  have del: "nats_inv (b2\<lparr> nb_subs := gm_del (nb_subs b2) sid \<rparr>)"
    if "nb_subs b2 = nb_subs b1" "nb_cons b2 = nb_cons b1" "nb_closed b2 = nb_closed b1" "nb_connclosed b2 = nb_connclosed b1"
      "nb_pend b2 = nb_pend b1" for b2
  proof -
    have "gm_ok (gm_del (nb_subs b1) sid)" "set (gm_del (nb_subs b1) sid) \<subseteq> set (nb_subs b1)"
      using nats_invD(1) [OF 1] by (auto simp: set_gm_del)
    then show ?thesis using 1 False that by (auto simp: nats_inv_def sub_ok_def b1_def)
  qed
  have "nats_inv (n_flush cw (writeLine cw (sub_line topic grp sid) b1))"
    by (rule nats_inv_cong [OF 1]) (simp_all add: wire_simps)
  with False del [of "writeLine cw (sub_line topic grp sid) b1"] del [of "n_flush cw (writeLine cw (sub_line topic grp sid) b1)"]
  show ?thesis
    by (auto simp: n_Subscribe_def Let_def sid_def [symmetric] b1_def [symmetric] wire_simps split: option.splits)
qed

lemma cons_update_inv:
  assumes "nats_inv b" and "c < length (nb_cons b)" and "con_ok (nb_closed b) k" and "nc_id k = nc_id (nb_cons b ! c)"
    and "nc_chclosed k \<longleftrightarrow> nc_chclosed (nb_cons b ! c)" and "nb_pend b' = nb_pend b \<or> nb_pend b' = None"
    and "nb_subs b' = nb_subs b" "nb_cons b' = (nb_cons b)[c := k]" "nb_closed b' = nb_closed b" "nb_connclosed b' = nb_connclosed b"
  shows "nats_inv b'"
proof -
  have "sub_ok b' sid i" if "(sid, i) \<in> set (nb_subs b)" for sid i
    using nats_invD(2) [OF assms(1) that] assms(2-) by (cases "i = c") (simp_all add: sub_ok_def)
  moreover have "i < length (nb_cons b')" if "nb_pend b' = Some (i, m)" for i m
    using that assms(6,8) nats_invD(5) [OF assms(1), of i m] by (metis length_list_update option.distinct(1))
  moreover have "con_ok (nb_closed b') x" if "x \<in> set (nb_cons b')" for x
    using that assms(2,3,8,9) nats_invD(6) [OF assms(1)] by (auto simp: in_set_conv_nth nth_list_update)
  ultimately show ?thesis using assms(1,7,9,10) by (auto simp: nats_inv_def)
qed

lemma send_inv:
  assumes "nats_inv b" and "n_send b = Some b'"
  shows "nats_inv b'"
proof (cases "nb_pend b")
  case None
  then show ?thesis using assms by (simp add: n_send_def)
next
  case (Some p)
  obtain c m where p: "p = (c, m)" by (cases p)
  let ?k = "nb_cons b ! c"
  have c: "c < length (nb_cons b)" using nats_invD(5) [OF assms(1)] Some p by simp
  from nats_invD(6) [OF assms(1) c] have "con_ok (nb_closed b) (?k\<lparr> nc_ch := nc_ch ?k @ [m] \<rparr>)" if "length (nc_ch ?k) < 1024"
    using that by (simp add: con_ok_def)
  then show ?thesis
    using assms Some p cons_update_inv [OF assms(1) c, of "?k\<lparr> nc_ch := nc_ch ?k @ [m] \<rparr>" b'] nats_inv_cong [OF assms(1), of b']
    by (auto simp: n_send_def Let_def split: if_splits)
qed

lemma n_Receive_state:
  assumes "n_Receive ctx pick c b = Some (r, b')"
  shows "b' = b \<or> b' = b\<lparr> nb_cons := (nb_cons b)[c := (nb_cons b ! c)\<lparr> nc_ch := tl (nc_ch (nb_cons b ! c)) \<rparr>] \<rparr>"
  using assms by (cases "nc_ch (nb_cons b ! c)") (simp_all add: n_Receive_def Let_def split: if_splits)

lemma receive_inv:
  assumes "nats_inv b" and "c < length (nb_cons b)" and "n_Receive ctx pick c b = Some (r, b')"
  shows "nats_inv b'"
proof -
  let ?k = "nb_cons b ! c"
  have "con_ok (nb_closed b) (?k\<lparr> nc_ch := tl (nc_ch ?k) \<rparr>)"
    using nats_invD(6) [OF assms(1,2)] by (auto simp: con_ok_def)
  then have "nats_inv (b\<lparr> nb_cons := (nb_cons b)[c := ?k\<lparr> nc_ch := tl (nc_ch ?k) \<rparr>] \<rparr>)"
    by (rule cons_update_inv [OF assms(1,2)]) simp_all
  then show ?thesis using n_Receive_state [OF assms(3)] assms(1) by blast
qed

lemma consumer_Close_inv:
  assumes "nats_inv b" and "c < length (nb_cons b)"
  shows "n_consumer_Close c b = None \<longleftrightarrow> \<not> nc_once (nb_cons b ! c) \<and> nc_chclosed (nb_cons b ! c)"
    and "n_consumer_Close c b = Some b' \<Longrightarrow> nats_inv b'"
proof -
  let ?k = "nb_cons b ! c"
  define k' where "k' = ?k\<lparr> nc_once := True, nc_chclosed := True \<rparr>"
  show "n_consumer_Close c b = None \<longleftrightarrow> \<not> nc_once ?k \<and> nc_chclosed ?k"
    using assms(2) by (auto simp: n_consumer_Close_def close_ch_def Let_def)
  assume s: "n_consumer_Close c b = Some b'"
  show "nats_inv b'"
  proof (cases "nc_once ?k")
    case True
    then show ?thesis using s assms(1) by (simp add: n_consumer_Close_def Let_def)
  next
    case False
    then have b': "b' = b\<lparr> nb_subs := gm_del (nb_subs b) (nc_id ?k), nb_cons := (nb_cons b)[c := k'] \<rparr>"
      using s assms(2) by (auto simp: n_consumer_Close_def close_ch_def Let_def k'_def split: if_splits)
    have k': "con_ok (nb_closed b) k'" using nats_invD(6) [OF assms] by (simp add: con_ok_def k'_def)
    have "sub_ok b' sid i" if "(sid, i) \<in> set (gm_del (nb_subs b) (nc_id ?k))" for sid i
    proof -
      have "(sid, i) \<in> set (nb_subs b)" "sid \<noteq> nc_id ?k" using that by (auto simp: set_gm_del)
      then show ?thesis using nats_invD(2) [OF assms(1), of sid i] by (cases "i = c") (simp_all add: sub_ok_def b')
    qed
    moreover have "con_ok (nb_closed b) x" if "x \<in> set (nb_cons b')" for x
      using that k' assms(2) nats_invD(6) [OF assms(1)] by (auto simp: b' in_set_conv_nth nth_list_update)
    moreover have "nb_closed b \<Longrightarrow> gm_del (nb_subs b) (nc_id ?k) = [] \<and> nb_connclosed b"
      using nats_invD(3,4) [OF assms(1)] by (simp add: gm_del_def)
    ultimately show ?thesis using nats_invD(1,5) [OF assms(1)] by (auto simp: nats_inv_def b')
  qed
qed

lemma step_inv:
  assumes "nats_inv b" and "n_enabled p b" and "n_step cw p b = Some b'"
  shows "nats_inv b'"
proof (cases p)
  case (NPublish ctx msg)
  have "nats_inv (snd (n_Publish cw ctx msg b))"
    by (rule nats_inv_cong [OF assms(1)]) (simp_all add: n_Publish_def Let_def wire_simps split: option.splits)
  then show ?thesis using assms(3) NPublish by simp
next
  case (NSubscribe t g) then show ?thesis using assms Subscribe_inv by auto
next
  case (NPingStart now)
  have "nats_inv (snd (ping_start cw now b))"
    by (rule nats_inv_cong [OF assms(1)]) (simp_all add: ping_start_def Let_def wire_simps split: option.splits)
  then show ?thesis using assms(3) NPingStart by simp
next
  case (NPingEnd token ch ev)
  then show ?thesis using assms nats_inv_cong [OF assms(1), of b'] by (cases ev) (auto split: if_splits)
next
  case (NClose e n) then show ?thesis using assms(3) Close_inv [OF assms(1), of e n] by auto
next
  case (NRead n) then show ?thesis using assms(3) read_inv(2) [OF assms(1)] by auto
next
  case NSend then show ?thesis using assms send_inv by auto
next
  case (NReceive ctx pick c) then show ?thesis using assms receive_inv [OF assms(1)] by auto
next
  case (NConsumerClose c) then show ?thesis using assms consumer_Close_inv(2) [OF assms(1)] by auto
qed

lemma steps_inv:
  assumes "nats_steps cw b ops s b'" and "nats_inv b"
  shows "nats_inv b'"
  using assms by (induction rule: nats_steps.induct) (blast intro: step_inv)+

lemma New_Nats_inv: "New_Nats dial cw url = Inr b \<Longrightarrow> nats_inv b"
proof -
  assume "New_Nats dial cw url = Inr b"
  then obtain input ending rest where "b = (fresh_broker input ending)\<lparr> nb_in := rest, nb_w := nb_w b, nb_reading := True \<rparr>"
    by (rule New_NatsD)
  moreover have "nats_inv ((fresh_broker input ending)\<lparr> nb_in := rest, nb_w := w, nb_reading := True \<rparr>)" for w
    by (simp add: nats_inv_def fresh_broker_def)
  ultimately show ?thesis by metis
qed

section \<open>Messages from the server\<close>

record server_msg =
  sm_topic :: string
  sm_sid :: nat
  sm_reply :: "string list"
  sm_payload :: string

definition is_token :: "string \<Rightarrow> bool" where
  "is_token t \<longleftrightarrow> t \<noteq> [] \<and> list_all plain_char t"

text \<open>The \<^verbatim>\<open>MSG\<close> frame of the protocol: subject, subscription, optional reply subject, size, payload.\<close>

definition sm_line :: "server_msg \<Rightarrow> string" where
  "sm_line m = Join (''MSG'' # sm_topic m # show_nat 10 (sm_sid m) # sm_reply m @ [show_nat 10 (length (sm_payload m))]) '' ''"

definition sm_bytes :: "server_msg \<Rightarrow> string" where
  "sm_bytes m = sm_line m @ crlf @ sm_payload m @ crlf"

definition sm_ok :: "server_msg \<Rightarrow> bool" where
  "sm_ok m \<longleftrightarrow> is_token (sm_topic m) \<and> list_all is_token (sm_reply m) \<and> int (sm_sid m) \<le> max_int64 \<and> int (length (sm_payload m)) + 2 \<le> max_alloc"

lemma show_nat_token: "is_token (show_nat 10 n)"
  using show_nat_hex [of 10 _ n] is_hex_plain by (auto simp: is_token_def list_all_iff)

lemma Atoi_show_nat: "int n \<le> max_int64 \<Longrightarrow> Atoi (show_nat 10 n) = Some (int n)"
proof -
  assume n: "int n \<le> max_int64"
  obtain c cs where s: "show_nat 10 n = c # cs" by (meson show_nat_nonempty list.exhaust)
  then have "is_hex_char c" using show_nat_hex [of 10 c n] by simp
  then have "c \<noteq> CHR ''-''" "c \<noteq> CHR ''+''" by (auto simp: is_hex_char_def)
  then have "(case c # cs of CHR ''-'' # ds \<Rightarrow> (True, ds) | CHR ''+'' # ds \<Rightarrow> (False, ds) | _ \<Rightarrow> (False, c # cs)) = (False, c # cs)"
    by (auto split: list.splits char.splits bool.splits)
  moreover have "digits_value 10 0 (c # cs) = Some n" using digits_value_show_nat [of 10 n] s by simp
  ultimately show ?thesis using n s by (simp add: Atoi_def Let_def min_int64_def)
qed

lemma Join_chars: "c \<in> set (Join ws sep) \<Longrightarrow> c \<in> set sep \<or> (\<exists>w \<in> set ws. c \<in> set w)"
  by (induction ws sep rule: Join.induct) auto

lemma Join_last: "ws \<noteq> [] \<Longrightarrow> last ws \<noteq> [] \<Longrightarrow> Join ws sep \<noteq> [] \<and> last (Join ws sep) = last (last ws)"
  by (induction ws sep rule: Join.induct) auto

lemma sm_line_facts:
  assumes "sm_ok m"
  shows "CHR 0x0A \<notin> set (sm_line m)" and "sm_line m \<noteq> []" and "last (sm_line m) \<notin> set crlf" and "HasPrefix (sm_line m) ''MSG ''"
    and "Fields (sm_line m) = ''MSG'' # sm_topic m # show_nat 10 (sm_sid m) # sm_reply m @ [show_nat 10 (length (sm_payload m))]"
proof -
  let ?ws = "''MSG'' # sm_topic m # show_nat 10 (sm_sid m) # sm_reply m @ [show_nat 10 (length (sm_payload m))]"
  have "is_token ''MSG''" by (simp add: is_token_def plain_char_def)
  then have tok: "\<forall>w \<in> set ?ws. is_token w"
    using assms show_nat_token by (simp add: sm_ok_def list_all_iff)
  then have "\<forall>w \<in> set ?ws. w \<noteq> [] \<and> list_all plain_char w" by (simp only: is_token_def)
  then show "Fields (sm_line m) = ?ws" unfolding sm_line_def by (rule Fields_words)
  have plain: "c = CHR 0x20 \<or> plain_char c" if c: "c \<in> set (sm_line m)" for c
  proof -
    have "c \<in> set '' '' \<or> (\<exists>w \<in> set ?ws. c \<in> set w)" using c unfolding sm_line_def by (rule Join_chars)
    then show ?thesis
    proof
      assume "\<exists>w \<in> set ?ws. c \<in> set w"
      then obtain w where "w \<in> set ?ws" "c \<in> set w" ..
      with tok have "list_all plain_char w" "c \<in> set w" by (auto simp only: is_token_def)
      then show ?thesis by (simp add: list_all_iff)
    qed simp
  qed
  show "CHR 0x0A \<notin> set (sm_line m)" using plain [of "CHR 0x0A"] by (auto simp: plain_char_def)
  have "Join ?ws '' '' \<noteq> [] \<and> last (Join ?ws '' '') = last (last ?ws)" by (rule Join_last) simp_all
  then have l: "sm_line m \<noteq> []" "last (sm_line m) = last (show_nat 10 (length (sm_payload m)))" by (simp_all add: sm_line_def)
  then show "sm_line m \<noteq> []" by simp
  have "plain_char (last (sm_line m))" using show_nat_token [of "length (sm_payload m)"] l(2) by (auto simp: is_token_def list_all_iff)
  then show "last (sm_line m) \<notin> set crlf" by (auto simp: crlf_def plain_char_def)
  show "HasPrefix (sm_line m) ''MSG ''" by (simp add: sm_line_def HasPrefix_def)
qed

lemma parse_sm:
  assumes "sm_ok m"
  shows "parse_msg (sm_line m) (sm_payload m @ crlf @ rest) = MsgOk (int (sm_sid m)) (sm_payload m) rest"
proof -
  let ?n = "length (sm_payload m)"
  have n: "wrap64 (int ?n + 2) = int ?n + 2" "int ?n \<le> max_int64"
    using assms by (auto simp: sm_ok_def max_alloc_def max_int64_def min_int64_def intro!: wrap64_id)
  have "nat (int ?n + 2) = ?n + 2" by simp
  moreover have "length crlf = 2" by (simp add: crlf_def)
  ultimately show ?thesis
    using assms n sm_line_facts(5) [OF assms] Atoi_show_nat [of "sm_sid m"] Atoi_show_nat [OF n(2)]
    by (simp add: parse_msg_def Let_def sm_ok_def)
qed

definition delivered :: "NBroker \<Rightarrow> nat \<Rightarrow> string \<Rightarrow> Message" where
  "delivered b c payload = \<lparr> mg_Topic = nc_t (nb_cons b ! c), mg_Key = [], mg_Sequence = 0, mg_Timestamp = 0, mg_Headers = [], mg_Payload = payload \<rparr>"

lemma read_sm:
  assumes "sm_ok m" and "nb_in b = sm_bytes m @ rest"
  shows "n_read cw n b = Some (b\<lparr> nb_in := rest, nb_pend :=
    (case gm_get (nb_subs b) (int (sm_sid m)) of None \<Rightarrow> None | Some c \<Rightarrow> Some (c, delivered b c (sm_payload m))) \<rparr>)"
proof -
  note f = sm_line_facts [OF assms(1)]
  have "readLine (nb_in b) = Some (sm_line m, sm_payload m @ crlf @ rest)"
    using ReadString_nl_line [OF f(1)] TrimRight_line [of "sm_line m"] f(3)
    by (simp add: readLine_def assms(2) sm_bytes_def)
  moreover have "sm_line m \<noteq> ''PING''" "sm_line m \<noteq> ''PONG''" using f(4) by (auto simp: HasPrefix_def)
  ultimately show ?thesis using f(4) parse_sm [OF assms(1)]
    by (simp add: n_read_def delivered_def Let_def cong: option.case_cong)
qed

text \<open>The reader's work on the next \<open>n\<close> messages.\<close>

fun n_rounds :: "conn_writes \<Rightarrow> nat \<Rightarrow> NBroker \<Rightarrow> NBroker option" where
  "n_rounds cw 0 b = Some b"
| "n_rounds cw (Suc k) b = Option.bind (n_read cw 0 b) (\<lambda>b. Option.bind (n_send b) (n_rounds cw k))"

definition queue_of :: "NBroker \<Rightarrow> nat \<Rightarrow> string list" where
  "queue_of b c = map mg_Payload (nc_ch (nb_cons b ! c))"

lemma round_sm:
  assumes "nats_inv b" and "nb_pend b = None" and "sm_ok m" and "nb_in b = sm_bytes m @ rest"
  shows "\<exists>b1. Option.bind (n_read cw 0 b) n_send = Some b1 \<and> nats_inv b1 \<and> nb_pend b1 = None \<and> nb_in b1 = rest \<and> nb_subs b1 = nb_subs b \<and>
    (\<forall>sid c. gm_get (nb_subs b) sid = Some c \<longrightarrow> queue_of b1 c = take 1024 (queue_of b c @ (if sid = int (sm_sid m) then [sm_payload m] else [])))"
proof (cases "gm_get (nb_subs b) (int (sm_sid m))")
  case None
  have "nats_inv (b\<lparr> nb_in := rest, nb_pend := None \<rparr>)" by (rule nats_inv_cong [OF assms(1)]) simp_all
  moreover have "queue_of b c = take 1024 (queue_of b c)" if "gm_get (nb_subs b) sid = Some c" for sid c
    using nats_invD(2) [OF assms(1) gm_get_mem [OF that]] nats_invD(6) [OF assms(1), of c]
    by (simp add: sub_ok_def con_ok_def queue_of_def)
  ultimately show ?thesis using read_sm [OF assms(3,4), of cw 0] None by (auto simp: n_send_def queue_of_def)
next
  case (Some c0)
  let ?k = "nb_cons b ! c0"
  define q where "q = nc_ch ?k"
  define b1 where "b1 = b\<lparr> nb_in := rest, nb_pend := None,
    nb_cons := (if length q < 1024 then (nb_cons b)[c0 := ?k\<lparr> nc_ch := q @ [delivered b c0 (sm_payload m)] \<rparr>] else nb_cons b) \<rparr>"
  have c0: "c0 < length (nb_cons b)" "nc_id ?k = int (sm_sid m)" "\<not> nc_chclosed ?k"
    using nats_invD(2) [OF assms(1) gm_get_mem [OF Some]] by (simp_all add: sub_ok_def)
  have step: "Option.bind (n_read cw 0 b) n_send = Some b1"
    using read_sm [OF assms(3,4), of cw 0] Some c0(3) by (simp add: n_send_def b1_def q_def)
  have r: "nats_inv (b\<lparr> nb_in := rest, nb_pend := Some (c0, delivered b c0 (sm_payload m)) \<rparr>)"
    using assms(1) c0(1) by (auto simp: nats_inv_def sub_ok_def)
  have "nats_inv b1" using send_inv [OF r, of b1] c0(3) by (simp add: n_send_def b1_def q_def)
  moreover have "queue_of b1 c = take 1024 (queue_of b c @ (if sid = int (sm_sid m) then [sm_payload m] else []))"
    if g: "gm_get (nb_subs b) sid = Some c" for sid c
  proof -
    have c: "c < length (nb_cons b)" "nc_id (nb_cons b ! c) = sid"
      using nats_invD(2) [OF assms(1) gm_get_mem [OF g]] by (simp_all add: sub_ok_def)
    then have "length (nc_ch (nb_cons b ! c)) \<le> 1024" using nats_invD(6) [OF assms(1)] by (simp add: con_ok_def)
    moreover have "c = c0 \<longleftrightarrow> sid = int (sm_sid m)" using c c0 g Some by auto
    ultimately show ?thesis using c c0 by (auto simp: queue_of_def b1_def q_def delivered_def)
  qed
  ultimately show ?thesis using step by (auto simp: b1_def)
qed

lemma take_append_take: "take n (take n xs @ ys) = take n (xs @ ys)" if "length xs \<le> Suc n"
  by (cases "length xs \<le> n") simp_all

lemma nats_delivers_aux:
  assumes "nats_inv b" and "nb_pend b = None" and "list_all sm_ok ms" and "nb_in b = concat (map sm_bytes ms) @ rest"
  shows "\<exists>b'. n_rounds cw (length ms) b = Some b' \<and> nb_in b' = rest \<and>
    (\<forall>sid c. gm_get (nb_subs b) sid = Some c \<longrightarrow>
       queue_of b' c = take 1024 (queue_of b c @ map sm_payload (filter (\<lambda>m. int (sm_sid m) = sid) ms)))"
  using assms
proof (induction ms arbitrary: b)
  case Nil
  have "queue_of b c = take 1024 (queue_of b c)" if "gm_get (nb_subs b) sid = Some c" for sid c
    using nats_invD(2) [OF Nil.prems(1) gm_get_mem [OF that]] nats_invD(6) [OF Nil.prems(1), of c]
    by (simp add: sub_ok_def con_ok_def queue_of_def)
  with Nil show ?case by simp
next
  case (Cons m ms)
  obtain b1 where b1: "Option.bind (n_read cw 0 b) n_send = Some b1" "nats_inv b1" "nb_pend b1 = None"
    "nb_in b1 = concat (map sm_bytes ms) @ rest" "nb_subs b1 = nb_subs b"
    "\<And>sid c. gm_get (nb_subs b) sid = Some c \<Longrightarrow> queue_of b1 c = take 1024 (queue_of b c @ (if sid = int (sm_sid m) then [sm_payload m] else []))"
    using round_sm [OF Cons.prems(1,2), of m "concat (map sm_bytes ms) @ rest" cw] Cons.prems(3,4) by auto
  from Cons.IH [OF b1(2-3) _ b1(4)] Cons.prems(3) obtain b' where
    b': "n_rounds cw (length ms) b1 = Some b'" "nb_in b' = rest"
    "\<And>sid c. gm_get (nb_subs b) sid = Some c \<Longrightarrow>
       queue_of b' c = take 1024 (queue_of b1 c @ map sm_payload (filter (\<lambda>m. int (sm_sid m) = sid) ms))"
    using b1(5) by auto
  have "n_rounds cw (length (m # ms)) b = Some b'"
    using b1(1) b'(1) by (auto simp: bind_eq_Some_conv split: option.splits)
  moreover have "queue_of b' c = take 1024 (queue_of b c @ map sm_payload (filter (\<lambda>m. int (sm_sid m) = sid) (m # ms)))"
    if g: "gm_get (nb_subs b) sid = Some c" for sid c
  proof -
    have "length (queue_of b c) \<le> 1024"
      using nats_invD(2) [OF Cons.prems(1) gm_get_mem [OF g]] nats_invD(6) [OF Cons.prems(1), of c]
      by (simp add: sub_ok_def con_ok_def queue_of_def)
    then show ?thesis using b1(6) [OF g] b'(3) [OF g] by (auto simp: take_append_take simp del: take_append)
  qed
  ultimately show ?case using b'(2) by blast
qed

end
