(* ===== verification/Relay_Nats_Props.thy ===== *)
theory Relay_Nats_Props
  imports Relay_Nats_Inv
begin

text \<open>
  What the NATS broker puts on its connection, what it makes of the server's messages and the ways in which it panics, with concrete
  histories; how the panics come about, and that a connection the server ends leaves the broker open with nobody reading.
\<close>

section \<open>A broker to try things on\<close>

definition takes_all :: conn_writes where
  "takes_all = (\<lambda>_ _. None)"

text \<open>The server's greeting and then \<open>rest\<close>, after which it closes the connection.\<close>

definition greeting_dial :: "string \<Rightarrow> string \<Rightarrow> string + string \<times> string" where
  "greeting_dial rest addr = Inr (''INFO {}'' @ crlf @ ''PONG'' @ crlf @ rest, ''EOF'')"

definition greeted :: "string \<Rightarrow> NBroker" where
  "greeted rest = (fresh_broker rest ''EOF'')\<lparr> nb_w := \<lparr> bw_buf = [], bw_err = None, bw_out = hello \<rparr>, nb_reading := True \<rparr>"

lemma WriteString_fits:
  "bw_err w = None \<Longrightarrow> length (bw_buf w) + length s \<le> 1048576 \<Longrightarrow> bw_WriteString c s w = w\<lparr> bw_buf := bw_buf w @ s \<rparr>"
  by (subst bw_WriteString.simps) (simp add: bw_avail_def bw_size_def)

lemma writeLine_fits:
  "nb_err b = None \<Longrightarrow> length (bw_buf (nb_w b)) + length l + 2 \<le> 1048576 \<Longrightarrow>
   writeLine c l b = b\<lparr> nb_w := (nb_w b)\<lparr> bw_buf := bw_buf (nb_w b) @ l @ crlf \<rparr> \<rparr>"
  by (simp add: writeLine_def WriteString_fits crlf_def)

lemma flush_takes_all:
  "nb_err b = None \<Longrightarrow> \<not> nb_connclosed b \<Longrightarrow>
   n_flush takes_all b = b\<lparr> nb_w := (nb_w b)\<lparr> bw_out := bw_out (nb_w b) @ bw_buf (nb_w b), bw_buf := [] \<rparr> \<rparr>"
  by (simp add: n_flush_def bw_Flush_def conn_def takes_all_def)

lemma readLine_line: "CHR 0x0A \<notin> set l \<Longrightarrow> l = [] \<or> last l \<notin> set crlf \<Longrightarrow> readLine (l @ crlf @ rest) = Some (l, rest)"
  using ReadString_nl_line [of l rest] TrimRight_line [of l] by (simp add: readLine_def)

lemma greeted_handshake: "handshake_loop ''EOF'' (''INFO {}'' @ crlf @ ''PONG'' @ crlf @ rest) = (None, rest)"
proof -
  have 1: "readLine (''INFO {}'' @ crlf @ ''PONG'' @ crlf @ rest) = Some (''INFO {}'', ''PONG'' @ crlf @ rest)"
    by (rule readLine_line) (auto simp: crlf_def)
  have 2: "readLine (''PONG'' @ crlf @ rest) = Some (''PONG'', rest)" by (rule readLine_line) (auto simp: crlf_def)
  have 3: "handshake_loop ''EOF'' (''PONG'' @ crlf @ rest) = (None, rest)"
    by (subst handshake_loop.simps) (simp only: 2 option.case prod.case HasPrefix_def, simp)
  show ?thesis by (subst handshake_loop.simps) (simp only: 1 option.case prod.case HasPrefix_def, simp add: 3 [simplified])
qed

lemma New_greeted: "New_Nats (greeting_dial rest) takes_all ''nats://h:4222'' = Inr (greeted rest)"
proof -
  define b0 where "b0 = fresh_broker (''INFO {}'' @ crlf @ ''PONG'' @ crlf @ rest) ''EOF''"
  have "length connect_line = 82" by (simp add: connect_line_def)
  then have "handshake takes_all b0 = (None, (greeted rest)\<lparr> nb_reading := False \<rparr>)"
    using greeted_handshake [of rest]
    by (simp add: handshake_def b0_def writeLine_fits flush_takes_all fresh_broker_def new_writer_def greeted_def hello_def Let_def crlf_def)
  then show ?thesis by (simp add: New_Nats_def parseNATSURL_def HasPrefix_def greeting_dial_def b0_def greeted_def fresh_broker_def)
qed

definition subscribed :: "string \<Rightarrow> NBroker" where
  "subscribed rest = (greeted rest)\<lparr> nb_w := \<lparr> bw_buf = [], bw_err = None, bw_out = hello @ ''SUB t 0'' @ crlf \<rparr>,
     nb_subs := [(0, 0)], nb_nextSID := 1,
     nb_cons := [\<lparr> nc_id = 0, nc_ch = [], nc_chclosed = False, nc_t = ''t'', nc_g = [], nc_once = False \<rparr>] \<rparr>"

lemma show_int_0: "show_int 10 0 = ''0''"
  by code_simp

lemma subscribe_greeted: "n_Subscribe takes_all ''t'' [] (greeted rest) = (Inr 0, subscribed rest)"
proof -
  have "sub_line ''t'' [] 0 = ''SUB t 0''" by (simp add: sub_line_def show_int_0)
  moreover have "wrap64 1 = 1" by (simp add: wrap64_def)
  ultimately show ?thesis
    by (simp add: n_Subscribe_def greeted_def fresh_broker_def Let_def writeLine_fits flush_takes_all subscribed_def gm_set_def)
qed

lemma subscribed_steps: "nats_steps takes_all (greeted rest) [NSubscribe ''t'' []] (''SUB t 0'' @ crlf) (subscribed rest)"
proof -
  have "n_frame (NSubscribe ''t'' []) (greeted rest) = ''SUB t 0'' @ crlf"
    by (simp add: sub_line_def show_int_0 greeted_def fresh_broker_def)
  then show ?thesis
    using nats_step [OF nats_refl, of "NSubscribe ''t'' []" "greeted rest" takes_all "subscribed rest"] subscribe_greeted [of rest] by simp
qed

section \<open>The wire\<close>

text \<open>
  C17: (nats.go) The bytes on the connection of a broker are, in every history, a prefix of the whole frames of its calls in their order; they are all of
  them unless a write has failed, and then nothing follows the cut. A publish that reports success has put its frame on the connection.
\<close>

lemma nats_wire:
  assumes "New_Nats dial cw url = Inr b" and "nats_steps cw b ops s b'"
  shows "prefix (bw_out (nb_w b')) (hello @ s) \<and>
    (nb_err b' = None \<longrightarrow> bw_out (nb_w b') = hello @ s) \<and>
    (nb_err b' \<noteq> None \<longrightarrow> (\<forall>p b''. n_step cw p b' = Some b'' \<longrightarrow> nb_w b'' = nb_w b')) \<and>
    (\<forall>ctx msg b''. n_Publish cw ctx msg b' = (None, b'') \<longrightarrow>
       bw_out (nb_w b'') = hello @ s @ pub_frame (mg_Topic msg) (mg_Payload msg))"
proof -
  have w: "wired (hello @ s) b'" using assms(1) wired_steps [OF assms(2)] by (metis New_NatsD)
  have pub: "bw_out (nb_w b'') = hello @ s @ pub_frame (mg_Topic msg) (mg_Payload msg)"
    if p: "n_Publish cw ctx msg b' = (None, b'')" for ctx msg b''
  proof -
    have *: "\<not> nb_closed b'" "ctx = None" "nb_err b'' = None"
      using p by (auto simp: n_Publish_def Let_def split: if_splits option.splits)
    then show ?thesis using wired_framed [OF w framed_Publish [of ctx msg b' cw]] p by (simp add: wired_def)
  qed
  have "nb_w b'' = nb_w b'" if "nb_err b' \<noteq> None" and "n_step cw p b' = Some b''" for p b''
    using framed_step [OF that(2)] that(1) by (simp add: framed_def writes_def)
  with w pub show ?thesis by (auto simp: wired_def)
qed

lemma nats_wire_witness: "bw_out (nb_w (subscribed [])) = hello @ ''SUB t 0'' @ crlf"
proof -
  have "nb_err (subscribed []) = None" by (simp add: subscribed_def)
  with nats_wire [OF New_greeted subscribed_steps, of "[]"] show ?thesis by simp
qed

section \<open>Messages from the server\<close>

definition two_msgs :: "server_msg list" where
  "two_msgs = [\<lparr> sm_topic = ''t'', sm_sid = 0, sm_reply = [], sm_payload = ''a'' @ crlf @ ''PING'' @ crlf \<rparr>,
     \<lparr> sm_topic = ''u'', sm_sid = 7, sm_reply = [], sm_payload = ''x'' \<rparr>,
     \<lparr> sm_topic = ''t'', sm_sid = 0, sm_reply = [''r''], sm_payload = [] \<rparr>]"

text \<open>
  C18: (nats.go) Whatever a broker went through, when the server sends messages next, the reader takes in exactly their bytes, however the payloads look,
  without panicking, and each subscribed consumer finds the payloads of its own messages, in their order, behind what it had, up to 1024.
\<close>

lemma nats_delivers:
  assumes "New_Nats dial cw url = Inr b0" and "nats_steps cw b0 ops s b" and "nb_pend b = None"
    and "list_all sm_ok ms" and "nb_in b = concat (map sm_bytes ms) @ rest"
  shows "\<exists>b'. n_rounds cw (length ms) b = Some b' \<and> nb_in b' = rest \<and>
    (\<forall>sid c. gm_get (nb_subs b) sid = Some c \<longrightarrow>
       queue_of b' c = take 1024 (queue_of b c @ map sm_payload (filter (\<lambda>m. int (sm_sid m) = sid) ms)))"
  using nats_delivers_aux [OF steps_inv [OF assms(2) New_Nats_inv [OF assms(1)]] assms(3-)] .

lemma nats_delivers_witness:
  "\<exists>b'. n_rounds takes_all (length two_msgs) (subscribed (concat (map sm_bytes two_msgs))) = Some b' \<and> nb_in b' = [] \<and>
     queue_of b' 0 = [''a'' @ crlf @ ''PING'' @ crlf, []]"
proof -
  let ?b = "subscribed (concat (map sm_bytes two_msgs))"
  have ok: "list_all sm_ok two_msgs"
    by (simp add: two_msgs_def sm_ok_def is_token_def plain_char_def max_int64_def max_alloc_def crlf_def)
  have "nb_pend ?b = None" "nb_in ?b = concat (map sm_bytes two_msgs) @ []" "gm_get (nb_subs ?b) 0 = Some 0" "queue_of ?b 0 = []"
    by (simp_all add: subscribed_def greeted_def fresh_broker_def gm_get_def queue_of_def)
  with nats_delivers [OF New_greeted subscribed_steps _ ok, of "concat (map sm_bytes two_msgs)" "[]"] obtain b' where
    "n_rounds takes_all (length two_msgs) ?b = Some b'" "nb_in b' = []"
    "queue_of b' 0 = take 1024 (map sm_payload (filter (\<lambda>m. int (sm_sid m) = 0) two_msgs))"
    by (metis append_Nil)
  moreover have "take 1024 (map sm_payload (filter (\<lambda>m. int (sm_sid m) = 0) two_msgs)) = [''a'' @ crlf @ ''PING'' @ crlf, []]"
    by (simp add: two_msgs_def)
  ultimately show ?thesis by metis
qed

section \<open>Panics\<close>

text \<open>
  C30: (nats.go) In every reachable state a step panics exactly in one of three ways: the reader sends to a channel that was closed after it looked the consumer
  up; a consumer is closed after the broker was; the server announces a size no slice can have. No other call panics, closing the
  broker among them.
\<close>

lemma nats_panics_exactly:
  assumes "New_Nats dial cw url = Inr b" and "nats_steps cw b ops s b'" and "n_enabled p b'"
  shows "n_step cw p b' = None \<longleftrightarrow>
    (\<exists>c m. p = NSend \<and> nb_pend b' = Some (c, m) \<and> nc_chclosed (nb_cons b' ! c)) \<or>
    (\<exists>c. p = NConsumerClose c \<and> nb_closed b' \<and> nc_chclosed (nb_cons b' ! c) \<and> \<not> nc_once (nb_cons b' ! c)) \<or>
    (\<exists>n line rest. p = NRead n \<and> readLine (nb_in b') = Some (line, rest) \<and> HasPrefix line ''MSG '' \<and> parse_msg line rest = MsgPanic)"
proof -
  have inv: "nats_inv b'" using steps_inv [OF assms(2) New_Nats_inv [OF assms(1)]] .
  show ?thesis
  proof (cases p)
    case (NClose e n) then show ?thesis using Close_inv [OF inv, of e n] by auto
  next
    case (NRead n) then show ?thesis using read_inv(1) [OF inv] by simp
  next
    case NSend then show ?thesis by (auto simp: n_send_def Let_def split: option.splits)
  next
    case (NConsumerClose c)
    with assms(3) have c: "c < length (nb_cons b')" by simp
    show ?thesis using NConsumerClose consumer_Close_inv(1) [OF inv c] nats_invD(6) [OF inv c] by (auto simp: con_ok_def)
  qed (use assms(3) in auto)
qed

lemma nats_panics_exactly_witness: "n_step takes_all (NClose None 0) (subscribed []) \<noteq> None"
  using nats_panics_exactly [OF New_greeted subscribed_steps, of "NClose None 0" "[]"] by simp

text \<open>Closing a subscriber after the broker was closed panics: the broker has closed its channel.\<close>

lemma close_after_broker_panics:
  assumes "nats_inv b" and "n_Subscribe cw topic grp b = (Inr c, b1)" and "n_Close e n b1 = Some (r, b2)"
  shows "n_consumer_Close c b2 = None"
proof -
  have inv: "nats_inv b1" using Subscribe_inv [OF assms(1), of cw topic grp] assms(2) by simp
  have b1: "\<not> nb_closed b1" "c = length (nb_cons b)" "c < length (nb_cons b1)" "nb_cons b1 ! c = \<lparr> nc_id = nb_nextSID b, nc_ch = [], nc_chclosed = False, nc_t = topic, nc_g = grp, nc_once = False \<rparr>"
    "gm_get (nb_subs b1) (nb_nextSID b) = Some c"
    using assms(2) by (auto simp: n_Subscribe_def Let_def wire_simps split: if_splits option.splits)
  have "\<forall>c \<in> set (map snd (nb_subs b1)). c < length (nb_cons b1) \<and> \<not> nc_chclosed (nb_cons b1 ! c)"
    using nats_invD(2) [OF inv] by (auto simp: sub_ok_def)
  from close_all_Some [OF subs_distinct [OF inv] this] obtain ks where
    ks: "close_all (map snd (nb_subs b1)) (nb_cons b1) = Some ks" "length ks = length (nb_cons b1)"
    "\<forall>i < length (nb_cons b1). ks ! i = (if i \<in> set (map snd (nb_subs b1)) then (nb_cons b1 ! i)\<lparr> nc_chclosed := True \<rparr> else nb_cons b1 ! i)"
    by blast
  have "c \<in> set (map snd (nb_subs b1))" using gm_get_mem [OF b1(5)] by force
  then have "nc_chclosed (ks ! c)" "\<not> nc_once (ks ! c)" using ks(3) b1(3,4) by simp_all
  moreover have "nb_cons b2 = ks" using assms(3) ks(1) b1(1) by (auto simp: n_Close_def)
  ultimately show ?thesis by (simp add: n_consumer_Close_def close_ch_def Let_def nth_list_update)
qed

text \<open>Closing a consumer between the reader's lookup and its send makes the send panic.\<close>

lemma send_races_with_close:
  assumes "nb_pend b = Some (c, m)" and "c < length (nb_cons b)" and "n_consumer_Close c b = Some b'" and "\<not> nc_once (nb_cons b ! c)"
  shows "n_send b' = None"
  using assms by (auto simp: n_consumer_Close_def close_ch_def Let_def n_send_def split: if_splits)

text \<open>A negative size in a message of the server panics as soon as the bytes it asks for are there.\<close>

lemma negative_size_panics: "parse_msg ''MSG t 0 -1'' [c] = MsgPanic" "parse_msg ''MSG t 0 -3'' [] = MsgPanic"
proof -
  have f: "Fields ''MSG t 0 -1'' = [''MSG'', ''t'', ''0'', ''-1'']" "Fields ''MSG t 0 -3'' = [''MSG'', ''t'', ''0'', ''-3'']"
    using Fields_words [of "[''MSG'', ''t'', ''0'', ''-1'']"] Fields_words [of "[''MSG'', ''t'', ''0'', ''-3'']"] by (simp_all add: plain_char_def)
  have a: "Atoi ''0'' = Some 0" "Atoi ''-1'' = Some (-1)" "Atoi ''-3'' = Some (-3)"
    by (simp_all add: Atoi_def digit_val_def Let_def min_int64_def max_int64_def)
  have w: "wrap64 1 = 1" "wrap64 (-1) = -1" by (simp_all add: wrap64_def)
  show "parse_msg ''MSG t 0 -1'' [c] = MsgPanic" by (simp add: parse_msg_def f a w max_alloc_def Let_def)
  show "parse_msg ''MSG t 0 -3'' [] = MsgPanic" by (simp add: parse_msg_def f a w max_alloc_def Let_def)
qed

section \<open>The end of the connection\<close>

text \<open>When the server closes the connection the reader stops, and the broker stays open with its consumers waiting.\<close>

lemma eof_leaves_open:
  assumes "readLine (nb_in b) = None" and "nb_end b = ''EOF''"
  shows "n_read cw n b = Some (b\<lparr> nb_in := [], nb_reading := False \<rparr>)"
  using assms by (simp add: n_read_def Let_def)

text \<open>From then on nothing arrives: no consumer's queue grows, whatever is called.\<close>

definition chs :: "NBroker \<Rightarrow> Message list list" where
  "chs b = map nc_ch (nb_cons b)"

definition shrunk :: "'a list list \<Rightarrow> 'a list list \<Rightarrow> bool" where
  "shrunk xs ys \<longleftrightarrow> length xs \<le> length ys \<and> (\<forall>c < length ys. if c < length xs then suffix (ys ! c) (xs ! c) else ys ! c = [])"

lemma shrunk_refl [simp]: "shrunk xs xs"
  by (simp add: shrunk_def)

lemma shrunk_new: "shrunk xs (xs @ [[]])"
  by (simp add: shrunk_def nth_append)

lemma shrunk_tl: "shrunk xs (xs[c := tl (xs ! c)])"
proof -
  have "suffix (xs[c := tl (xs ! c)] ! i) (xs ! i)" if "i < length xs" for i
    using that by (cases "i = c") (simp_all add: suffix_tl)
  then show ?thesis by (simp add: shrunk_def)
qed

lemma shrunk_trans: "shrunk xs ys \<Longrightarrow> shrunk ys zs \<Longrightarrow> shrunk xs zs"
  unfolding shrunk_def by (smt (verit) le_trans less_le_trans suffix_Nil suffix_order.trans)

lemma chs_update [simp]: "c < length ks \<Longrightarrow> (map nc_ch ks)[c := nc_ch (ks ! c)] = map nc_ch ks"
  by (metis list_update_id nth_map)

lemma close_ch_chs: "close_ch c ks = Some ks' \<Longrightarrow> map nc_ch ks' = map nc_ch ks"
  by (auto simp: close_ch_def map_update split: if_splits)

lemma close_all_chs: "close_all cs ks = Some ks' \<Longrightarrow> map nc_ch ks' = map nc_ch ks"
  by (induction cs arbitrary: ks) (auto dest: close_ch_chs split: option.splits)

lemma Subscribe_chs: "chs (snd (n_Subscribe cw topic grp b)) = chs b \<or> chs (snd (n_Subscribe cw topic grp b)) = chs b @ [[]]"
  by (auto simp: n_Subscribe_def Let_def chs_def wire_simps split: option.splits)

lemma consumer_Close_chs: "n_consumer_Close c b = Some b' \<Longrightarrow> c < length (nb_cons b) \<Longrightarrow> chs b' = chs b"
  by (auto simp: n_consumer_Close_def Let_def chs_def map_update dest!: close_ch_chs split: if_splits option.splits)

lemma deaf_step:
  assumes "\<not> nb_reading b" and "nb_pend b = None" and "n_enabled p b" and "n_step cw p b = Some b'"
  shows "\<not> nb_reading b' \<and> nb_pend b' = None \<and> shrunk (chs b) (chs b')"
proof (cases p)
  case (NPublish ctx msg)
  moreover have "nb_reading (snd (n_Publish cw ctx msg b)) = nb_reading b" "nb_pend (snd (n_Publish cw ctx msg b)) = nb_pend b"
    "chs (snd (n_Publish cw ctx msg b)) = chs b"
    by (simp_all add: n_Publish_def Let_def wire_simps chs_def split: option.splits)
  ultimately show ?thesis using assms by auto
next
  case (NSubscribe t g)
  moreover have "nb_reading (snd (n_Subscribe cw t g b)) = nb_reading b" "nb_pend (snd (n_Subscribe cw t g b)) = nb_pend b"
    by (auto simp: n_Subscribe_def Let_def wire_simps split: option.splits)
  ultimately show ?thesis using assms Subscribe_chs [of cw t g b] by (auto simp: shrunk_new)
next
  case (NPingStart now)
  moreover have "nb_reading (snd (ping_start cw now b)) = nb_reading b" "nb_pend (snd (ping_start cw now b)) = nb_pend b"
    "chs (snd (ping_start cw now b)) = chs b"
    by (simp_all add: ping_start_def Let_def wire_simps chs_def split: option.splits)
  ultimately show ?thesis using assms by auto
next
  case (NPingEnd token ch ev)
  then show ?thesis using assms by (cases ev) (auto simp: chs_def split: if_splits)
next
  case (NClose e n)
  then show ?thesis using assms by (auto simp: n_Close_def chs_def dest!: close_all_chs split: if_splits option.splits)
next
  case (NReceive ctx pick c)
  then obtain r where "n_Receive ctx pick c b = Some (r, b')" using assms(4) by auto
  from n_Receive_state [OF this] show ?thesis
  proof
    assume "b' = b\<lparr> nb_cons := (nb_cons b)[c := (nb_cons b ! c)\<lparr> nc_ch := tl (nc_ch (nb_cons b ! c)) \<rparr>] \<rparr>"
    moreover have "c < length (nb_cons b)" using assms(3) NReceive by simp
    ultimately show ?thesis using assms(1,2) shrunk_tl [of "chs b" c] by (simp add: chs_def map_update)
  qed (use assms in simp)
next
  case (NConsumerClose c)
  moreover have "nb_reading b' = nb_reading b" "nb_pend b' = nb_pend b"
    using assms(4) NConsumerClose by (auto simp: n_consumer_Close_def Let_def split: if_splits option.splits)
  ultimately show ?thesis using assms consumer_Close_chs [of c b b'] by simp
qed (use assms in auto)

lemma nothing_arrives_after_eof:
  assumes "nats_steps cw b ops s b'" and "\<not> nb_reading b" and "nb_pend b = None"
  shows "\<not> nb_reading b' \<and> nb_pend b' = None \<and> shrunk (chs b) (chs b')"
  using assms
proof (induction rule: nats_steps.induct)
  case (nats_step ops s b1 p b2)
  then show ?case using deaf_step [of b1 p cw b2] by (auto intro: shrunk_trans)
qed simp

text \<open>One answer of the server ends every ping that waits.\<close>

lemma one_pong_answers_all:
  assumes "ch \<in> snd ` set (nb_pingWait b)" and "ch < length (nb_waits b)"
  shows "nb_waits (n_answer b) ! ch" and "nb_pingWait (n_answer b) = []"
  using assms by (simp_all add: n_answer_def)

end
