(* ===== verification/Relay_Prometheus.thy ===== *)
theory Relay_Prometheus
  imports Relay_Metrics
begin

text \<open>
  \<^verbatim>\<open>RenderPrometheus\<close> of \<^verbatim>\<open>telemetry/metrics.go\<close>: one line per counter and gauge. The text of a floating point number
  (\<^verbatim>\<open>%v\<close>) is a parameter. The lemma shows that the lines can be read back, whatever the values, so no metric hides another.
\<close>

definition newline :: char where
  "newline = CHR 0x0A"

definition prometheus_values :: "(f64 \<Rightarrow> string) \<Rightarrow> MetricsSnapshot \<Rightarrow> (string \<times> string) list" where
  "prometheus_values fmt s =
     (let d = (\<lambda>v :: u64. show_nat 10 (unat v)) in
      [(''mevrelay_submitted_total'', d (sn_Submitted s)),
       (''mevrelay_accepted_total'', d (sn_Accepted s)),
       (''mevrelay_rejected_total'', d (sn_Rejected s)),
       (''mevrelay_forwarded_total'', d (sn_Forwarded s)),
       (''mevrelay_dead_letters_total'', d (sn_DeadLetters s)),
       (''mevrelay_retry_pending_total'', d (sn_RetryPending s)),
       (''mevrelay_retry_scheduled_total'', d (sn_RetryScheduled s)),
       (''mevrelay_duplicates_total'', d (sn_Duplicates s)),
       (''mevrelay_queue_overflow_total'', d (sn_QueueOverflow s)),
       (''mevrelay_inflight_limit_total'', d (sn_InflightLimit s)),
       (''mevrelay_backend_errors_total'', d (sn_BackendErrors s)),
       (''mevrelay_state_errors_total'', d (sn_StateErrors s)),
       (''mevrelay_wal_errors_total'', d (sn_WALErrors s)),
       (''mevrelay_broker_errors_total'', d (sn_BrokerErrors s)),
       (''mevrelay_terminal_errors_total'', d (sn_TerminalErrors s)),
       (''mevrelay_stale_authority_total'', d (sn_StaleAuthority s)),
       (''mevrelay_wrong_shard_total'', d (sn_WrongShard s)),
       (''mevrelay_checkpoint_errors_total'', d (sn_CheckpointErrors s)),
       (''mevrelay_policy_adjustments_total'', d (sn_PolicyAdjustments s)),
       (''mevrelay_queue_depth'', d (sn_QueueDepth s)),
       (''mevrelay_queue_capacity'', d (sn_QueueCap s)),
       (''mevrelay_queue_oldest_age_ms'', d (sn_QueueOldestAgeMS s)),
       (''mevrelay_queue_net_value'', fmt (sn_QueueNetValue s)),
       (''mevrelay_retry_debt'', fmt (sn_RetryDebt s)),
       (''mevrelay_health_state'', show_nat 10 (unat (sn_HealthStateCode s))),
       (''mevrelay_recovery_state'', show_nat 10 (unat (sn_RecoveryStateCode s))),
       (''mevrelay_rollout_state'', show_nat 10 (unat (sn_RolloutStateCode s))),
       (''mevrelay_policy_revision'', d (sn_PolicyRevision s)),
       (''mevrelay_policy_pressure'', fmt (sn_PolicyPressure s)),
       (''mevrelay_policy_confidence'', fmt (sn_PolicyConfidence s)),
       (''mevrelay_backend_latency_ms'', d (sn_BackendLatencyMS s)),
       (''mevrelay_state_latency_ms'', d (sn_StateLatencyMS s)),
       (''mevrelay_broker_latency_ms'', d (sn_BrokerLatencyMS s)),
       (''mevrelay_wal_latency_ms'', d (sn_WALLatencyMS s)),
       (''mevrelay_checkpoint_latency_ms'', d (sn_CheckpointLatencyMS s))])"

definition render_line :: "string \<times> string \<Rightarrow> string" where
  "render_line e = fst e @ '' '' @ snd e @ [newline]"

definition RenderPrometheus :: "(f64 \<Rightarrow> string) \<Rightarrow> Metrics \<Rightarrow> string" where
  "RenderPrometheus fmt m = concat (map render_line (prometheus_values fmt (mt_Snapshot m)))"

section \<open>Reading the lines back\<close>

definition scrape :: "string \<Rightarrow> (string \<times> string) list" where
  "scrape text =
     map (\<lambda>l. (takeWhile (\<lambda>c. c \<noteq> CHR '' '') l, tl (dropWhile (\<lambda>c. c \<noteq> CHR '' '') l))) (butlast (Split1 newline text))"

lemma Split1_nonempty [simp]: "Split1 c s \<noteq> []"
  by (induction s) (auto split: list.splits)

lemma Split1_line: "c \<notin> set l \<Longrightarrow> Split1 c (l @ c # s) = l # Split1 c s"
  by (induction l) auto

lemma split_at_space:
  "CHR '' '' \<notin> set n \<Longrightarrow> takeWhile (\<lambda>c. c \<noteq> CHR '' '') (n @ CHR '' '' # v) = n \<and>
     tl (dropWhile (\<lambda>c. c \<noteq> CHR '' '') (n @ CHR '' '' # v)) = v"
  by (induction n) auto

lemma scrape_render:
  assumes "\<And>n v. (n, v) \<in> set es \<Longrightarrow> newline \<notin> set n \<and> CHR '' '' \<notin> set n \<and> newline \<notin> set v"
  shows "scrape (concat (map render_line es)) = es"
  using assms
proof (induction es)
  case (Cons e es)
  obtain n v where e: "e = (n, v)" by (cases e)
  then have nv: "newline \<notin> set n" "CHR '' '' \<notin> set n" "newline \<notin> set v" using Cons.prems by auto
  have "Split1 newline (concat (map render_line (e # es))) = (n @ '' '' @ v) # Split1 newline (concat (map render_line es))"
    using Split1_line [of newline "n @ '' '' @ v"] nv e by (simp add: render_line_def newline_def)
  moreover have "takeWhile (\<lambda>c. c \<noteq> CHR '' '') (n @ '' '' @ v) = n" "tl (dropWhile (\<lambda>c. c \<noteq> CHR '' '') (n @ '' '' @ v)) = v"
    using split_at_space [OF nv(2), of v] by simp_all
  moreover have "scrape (concat (map render_line es)) = es" by (rule Cons.IH) (use Cons.prems in auto)
  ultimately show ?case using e by (simp add: scrape_def)
qed (simp add: scrape_def)

lemma show_nat_no_newline: "newline \<notin> set (show_nat 10 n)"
  using show_nat_hex [of 10 newline n] by (auto simp: is_hex_char_def newline_def)

lemma prometheus_reads_back:
  assumes "\<And>x. newline \<notin> set (fmt x)"
  shows "scrape (RenderPrometheus fmt m) = prometheus_values fmt (mt_Snapshot m)"
  unfolding RenderPrometheus_def
proof (rule scrape_render)
  fix n v assume nv: "(n, v) \<in> set (prometheus_values fmt (mt_Snapshot m))"
  have "list_all (\<lambda>n. newline \<notin> set n \<and> CHR '' '' \<notin> set n) (map fst (prometheus_values fmt (mt_Snapshot m)))"
    by (simp add: prometheus_values_def Let_def newline_def)
  then have "newline \<notin> set n \<and> CHR '' '' \<notin> set n" using nv by (force simp: list_all_iff)
  moreover have "newline \<notin> set v"
    using nv assms by (auto simp: prometheus_values_def Let_def show_nat_no_newline)
  ultimately show "newline \<notin> set n \<and> CHR '' '' \<notin> set n \<and> newline \<notin> set v" by blast
qed

end
