(* ===== verification/Relay_Scrape.thy ===== *)
theory Relay_Scrape
  imports Relay_Prometheus Go_Bufio Go_Float_Mono
begin

text \<open>
  How the measurement harness reads a relay's metrics: \<^verbatim>\<open>parsePrometheusMetrics\<close> of \<^verbatim>\<open>measurement/target.go\<close>.
  \<^verbatim>\<open>strconv.ParseFloat\<close> is the parameter \<open>pf\<close>.

  The lemmas show that what \<open>RenderPrometheus\<close> writes is read back as the snapshot it came from, without the names of the states, as long as the
  counters are below \<open>2\<^sup>5\<^sup>3\<close>; above, a counter is rounded.
\<close>

section \<open>Conversions\<close>

text \<open>
  \<^verbatim>\<open>uint64(v)\<close> and \<^verbatim>\<open>uint32(v)\<close> drop the fraction. Go leaves the result open when it does not fit; this is what its amd64
  compiler yields.
\<close>

definition f_to_u64 :: "f64 \<Rightarrow> u64" where
  "f_to_u64 v =
     (if f_lt v (FFin (2 ^ 63)) then of_int (f_to_int64 v)
      else of_int (f_to_int64 (f_sub v (FFin (2 ^ 63))) + 2 ^ 63))"

definition f_to_u32 :: "f64 \<Rightarrow> 32 word" where
  "f_to_u32 v = of_int (f_to_int64 v)"

section \<open>The parser\<close>

definition zero_snapshot :: MetricsSnapshot where
  "zero_snapshot = \<lparr> sn_Submitted = 0, sn_Accepted = 0, sn_Rejected = 0, sn_Forwarded = 0,
     sn_DeadLetters = 0, sn_RetryPending = 0, sn_RetryScheduled = 0, sn_Duplicates = 0,
     sn_QueueOverflow = 0, sn_InflightLimit = 0, sn_BackendErrors = 0, sn_StateErrors = 0,
     sn_WALErrors = 0, sn_BrokerErrors = 0, sn_TerminalErrors = 0, sn_StaleAuthority = 0,
     sn_WrongShard = 0, sn_CheckpointErrors = 0, sn_PolicyAdjustments = 0, sn_QueueDepth = 0,
     sn_QueueCap = 0, sn_QueueOldestAgeMS = 0, sn_QueueNetValue = FZero False, sn_RetryDebt = FZero False,
     sn_HealthStateCode = 0, sn_HealthState = [], sn_RecoveryStateCode = 0, sn_RecoveryState = [],
     sn_RolloutStateCode = 0, sn_RolloutState = [], sn_PolicyRevision = 0, sn_PolicyPressure = FZero False,
     sn_PolicyConfidence = FZero False, sn_BackendLatencyMS = 0, sn_StateLatencyMS = 0, sn_BrokerLatencyMS = 0,
     sn_WALLatencyMS = 0, sn_CheckpointLatencyMS = 0 \<rparr>"

text \<open>The cases of the \<^verbatim>\<open>switch\<close>.\<close>

definition metric_cases :: "(string \<times> (f64 \<Rightarrow> MetricsSnapshot \<Rightarrow> MetricsSnapshot)) list" where
  "metric_cases =
     [(''mevrelay_submitted_total'', \<lambda>v s. s\<lparr> sn_Submitted := f_to_u64 v \<rparr>),
      (''mevrelay_accepted_total'', \<lambda>v s. s\<lparr> sn_Accepted := f_to_u64 v \<rparr>),
      (''mevrelay_rejected_total'', \<lambda>v s. s\<lparr> sn_Rejected := f_to_u64 v \<rparr>),
      (''mevrelay_forwarded_total'', \<lambda>v s. s\<lparr> sn_Forwarded := f_to_u64 v \<rparr>),
      (''mevrelay_dead_letters_total'', \<lambda>v s. s\<lparr> sn_DeadLetters := f_to_u64 v \<rparr>),
      (''mevrelay_retry_pending_total'', \<lambda>v s. s\<lparr> sn_RetryPending := f_to_u64 v \<rparr>),
      (''mevrelay_retry_scheduled_total'', \<lambda>v s. s\<lparr> sn_RetryScheduled := f_to_u64 v \<rparr>),
      (''mevrelay_duplicates_total'', \<lambda>v s. s\<lparr> sn_Duplicates := f_to_u64 v \<rparr>),
      (''mevrelay_queue_overflow_total'', \<lambda>v s. s\<lparr> sn_QueueOverflow := f_to_u64 v \<rparr>),
      (''mevrelay_inflight_limit_total'', \<lambda>v s. s\<lparr> sn_InflightLimit := f_to_u64 v \<rparr>),
      (''mevrelay_backend_errors_total'', \<lambda>v s. s\<lparr> sn_BackendErrors := f_to_u64 v \<rparr>),
      (''mevrelay_state_errors_total'', \<lambda>v s. s\<lparr> sn_StateErrors := f_to_u64 v \<rparr>),
      (''mevrelay_wal_errors_total'', \<lambda>v s. s\<lparr> sn_WALErrors := f_to_u64 v \<rparr>),
      (''mevrelay_broker_errors_total'', \<lambda>v s. s\<lparr> sn_BrokerErrors := f_to_u64 v \<rparr>),
      (''mevrelay_terminal_errors_total'', \<lambda>v s. s\<lparr> sn_TerminalErrors := f_to_u64 v \<rparr>),
      (''mevrelay_stale_authority_total'', \<lambda>v s. s\<lparr> sn_StaleAuthority := f_to_u64 v \<rparr>),
      (''mevrelay_wrong_shard_total'', \<lambda>v s. s\<lparr> sn_WrongShard := f_to_u64 v \<rparr>),
      (''mevrelay_checkpoint_errors_total'', \<lambda>v s. s\<lparr> sn_CheckpointErrors := f_to_u64 v \<rparr>),
      (''mevrelay_policy_adjustments_total'', \<lambda>v s. s\<lparr> sn_PolicyAdjustments := f_to_u64 v \<rparr>),
      (''mevrelay_queue_depth'', \<lambda>v s. s\<lparr> sn_QueueDepth := f_to_u64 v \<rparr>),
      (''mevrelay_queue_capacity'', \<lambda>v s. s\<lparr> sn_QueueCap := f_to_u64 v \<rparr>),
      (''mevrelay_queue_oldest_age_ms'', \<lambda>v s. s\<lparr> sn_QueueOldestAgeMS := f_to_u64 v \<rparr>),
      (''mevrelay_queue_net_value'', \<lambda>v s. s\<lparr> sn_QueueNetValue := v \<rparr>),
      (''mevrelay_retry_debt'', \<lambda>v s. s\<lparr> sn_RetryDebt := v \<rparr>),
      (''mevrelay_health_state'', \<lambda>v s. s\<lparr> sn_HealthStateCode := f_to_u32 v \<rparr>),
      (''mevrelay_recovery_state'', \<lambda>v s. s\<lparr> sn_RecoveryStateCode := f_to_u32 v \<rparr>),
      (''mevrelay_rollout_state'', \<lambda>v s. s\<lparr> sn_RolloutStateCode := f_to_u32 v \<rparr>),
      (''mevrelay_policy_revision'', \<lambda>v s. s\<lparr> sn_PolicyRevision := f_to_u64 v \<rparr>),
      (''mevrelay_policy_pressure'', \<lambda>v s. s\<lparr> sn_PolicyPressure := v \<rparr>),
      (''mevrelay_policy_confidence'', \<lambda>v s. s\<lparr> sn_PolicyConfidence := v \<rparr>),
      (''mevrelay_backend_latency_ms'', \<lambda>v s. s\<lparr> sn_BackendLatencyMS := f_to_u64 v \<rparr>),
      (''mevrelay_state_latency_ms'', \<lambda>v s. s\<lparr> sn_StateLatencyMS := f_to_u64 v \<rparr>),
      (''mevrelay_broker_latency_ms'', \<lambda>v s. s\<lparr> sn_BrokerLatencyMS := f_to_u64 v \<rparr>),
      (''mevrelay_wal_latency_ms'', \<lambda>v s. s\<lparr> sn_WALLatencyMS := f_to_u64 v \<rparr>),
      (''mevrelay_checkpoint_latency_ms'', \<lambda>v s. s\<lparr> sn_CheckpointLatencyMS := f_to_u64 v \<rparr>)]"

definition scrape_line :: "(string \<Rightarrow> f64 option) \<Rightarrow> string \<Rightarrow> MetricsSnapshot \<Rightarrow> MetricsSnapshot" where
  "scrape_line pf line0 s =
     (let line = TrimSpace line0 in
      if line = [] \<or> HasPrefix line ''#'' then s
      else let fields = Fields line in
           if length fields \<noteq> 2 then s
           else case pf (fields ! 1) of
                  None \<Rightarrow> s
                | Some v \<Rightarrow> (case map_of metric_cases (fields ! 0) of None \<Rightarrow> s | Some f \<Rightarrow> f v s))"

definition parsePrometheusMetrics :: "(string \<Rightarrow> f64 option) \<Rightarrow> string \<Rightarrow> MetricsSnapshot" where
  "parsePrometheusMetrics pf raw = fold (scrape_line pf) (Split1 newline raw) zero_snapshot"

section \<open>Counters as floating point numbers\<close>

lemma rounded_exact:
  assumes "1 \<le> n" and "n < 2 ^ 53"
  shows "rounded (of_int n) = of_int n"
proof -
  let ?q = "of_int n :: rat"
  have "?q < of_int (2 ^ 53)" using assms(2) by (simp only: of_int_less_iff)
  then have e: "ulp_exp ?q \<le> 0" using scale_down_le [of 1074 ?q 0] by (simp add: ulp_exp_def)
  define k where "k = nat (- ulp_exp ?q)"
  have p: "pow2 (ulp_exp ?q) = 1 / 2 ^ k" using e by (cases "ulp_exp ?q = 0") (simp_all add: pow2_def k_def)
  have "?q / pow2 (ulp_exp ?q) = of_int (n * 2 ^ k)" by (simp add: p)
  then have "round_even (?q / pow2 (ulp_exp ?q)) = n * 2 ^ k" by (simp only: round_even_of_int)
  then show ?thesis by (simp add: rounded_def p)
qed

lemma f_of_int_exact: "0 \<le> n \<Longrightarrow> n < 2 ^ 53 \<Longrightarrow> f_of_int n = (if n = 0 then FZero False else FFin (of_int n))"
  using f_of_int_rounded [of n] rounded_exact [of n] by (auto simp: max_int64_def f_of_int_def f_round_def)

lemma f_to_int64_of_int: "0 \<le> n \<Longrightarrow> n < 2 ^ 53 \<Longrightarrow> f_to_int64 (f_of_int n) = n"
  by (simp add: f_of_int_exact f_to_int64_def trunc_rat_def min_int64_def max_int64_def)

lemma f_to_u64_of_unat:
  assumes "unat w < 2 ^ 53"
  shows "f_to_u64 (f_of_int (int (unat w))) = w"
proof -
  have n: "0 \<le> int (unat w)" "int (unat w) < 2 ^ 53" using assms of_nat_less_iff [of "unat w" "2 ^ 53", where ?'a = int] by simp_all
  have "(of_int (int (unat w)) :: rat) < of_int (2 ^ 53)" using n(2) by (simp only: of_int_less_iff)
  then have "f_lt (f_of_int (int (unat w))) (FFin (2 ^ 63))" using n by (simp add: f_of_int_exact f_lt_def)
  then show ?thesis using f_to_int64_of_int [OF n] by (simp add: f_to_u64_def)
qed

lemma f_to_u32_of_unat: "f_to_u32 (f_of_int (int (unat (w :: 32 word)))) = w"
proof -
  have "uint w < 2 ^ 32" using uint_bounded [of w] by simp
  then have "int (unat w) < 2 ^ 53" by simp
  then show ?thesis by (simp add: f_to_u32_def f_to_int64_of_int)
qed

section \<open>What is written is read back\<close>

text \<open>What the parser relies on: decimal integers parse to the nearest number, and a number's text parses to it and has no white space.\<close>

definition float_text_ok :: "(f64 \<Rightarrow> string) \<Rightarrow> (string \<Rightarrow> f64 option) \<Rightarrow> bool" where
  "float_text_ok fmt pf \<longleftrightarrow> (\<forall>n. pf (show_nat 10 n) = Some (f_of_int (int n))) \<and>
     (\<forall>x. fmt x \<noteq> [] \<and> list_all plain_char (fmt x) \<and> pf (fmt x) = Some x)"

definition counters :: "MetricsSnapshot \<Rightarrow> u64 list" where
  "counters s =
     [sn_Submitted s, sn_Accepted s, sn_Rejected s, sn_Forwarded s, sn_DeadLetters s,
      sn_RetryPending s, sn_RetryScheduled s, sn_Duplicates s, sn_QueueOverflow s, sn_InflightLimit s,
      sn_BackendErrors s, sn_StateErrors s, sn_WALErrors s, sn_BrokerErrors s, sn_TerminalErrors s,
      sn_StaleAuthority s, sn_WrongShard s, sn_CheckpointErrors s, sn_PolicyAdjustments s, sn_QueueDepth s,
      sn_QueueCap s, sn_QueueOldestAgeMS s, sn_PolicyRevision s, sn_BackendLatencyMS s, sn_StateLatencyMS s,
      sn_BrokerLatencyMS s, sn_WALLatencyMS s, sn_CheckpointLatencyMS s]"

lemma show_nat_plain: "list_all plain_char (show_nat 10 n)"
  using show_nat_hex [of 10 _ n] is_hex_plain by (auto simp: list_all_iff)

lemma metric_names_plain: "list_all (\<lambda>n. n \<noteq> [] \<and> list_all plain_char n \<and> hd n = CHR ''m'') (map fst metric_cases)"
  by (simp add: metric_cases_def plain_char_def)

lemma values_named: "map fst (prometheus_values fmt s) = map fst metric_cases"
  by (simp add: prometheus_values_def metric_cases_def Let_def)

lemma metric_names_distinct: "distinct (map fst metric_cases)"
  by (simp add: metric_cases_def)

lemma values_plain:
  assumes "float_text_ok fmt pf" and "(n, v) \<in> set (prometheus_values fmt s)"
  shows "v \<noteq> [] \<and> list_all plain_char v"
  using assms show_nat_plain by (auto simp: prometheus_values_def Let_def float_text_ok_def)

lemma scrape_line_render:
  assumes "n \<noteq> []" and "list_all plain_char n" and "hd n = CHR ''m''" and "v \<noteq> []" and "list_all plain_char v"
  shows "scrape_line pf (n @ '' '' @ v) s =
    (case pf v of None \<Rightarrow> s | Some x \<Rightarrow> (case map_of metric_cases n of None \<Rightarrow> s | Some f \<Rightarrow> f x s))"
proof -
  have "plain_char (hd n)" using assms(1,2) by (cases n) simp_all
  moreover have "plain_char (last v)" using assms(4,5) by (simp add: list_all_iff)
  ultimately have t: "TrimSpace (n @ '' '' @ v) = n @ '' '' @ v" using assms by (intro TrimSpace_plain) simp_all
  have f: "Fields (n @ '' '' @ v) = [n, v]" using Fields_words [of "[n, v]"] assms by simp
  have "\<not> HasPrefix (n @ '' '' @ v) ''#''" using assms(1,3) by (cases n) (simp_all add: HasPrefix_def)
  then show ?thesis using assms(1) by (simp add: scrape_line_def t [simplified] f [simplified] Let_def cong: option.case_cong)
qed

lemma plain_no_newline: "list_all plain_char v \<Longrightarrow> newline \<notin> set v"
  by (auto simp: list_all_iff plain_char_def newline_def)

lemma Split1_render:
  assumes "\<forall>(n, v) \<in> set es. list_all plain_char n \<and> list_all plain_char v"
  shows "Split1 newline (concat (map render_line es)) = map (\<lambda>(n, v). n @ '' '' @ v) es @ [[]]"
  using assms
proof (induction es)
  case (Cons e es)
  obtain n v where e: "e = (n, v)" by (cases e)
  have "newline \<notin> set (n @ '' '' @ v)" using Cons.prems e plain_no_newline by (auto simp: newline_def)
  then show ?case using Cons e Split1_line [of newline "n @ '' '' @ v"] by (simp add: render_line_def)
qed simp

text \<open>Reading is applying each case to the value of its line, in the order of the lines.\<close>

lemma fold_scrape:
  assumes "\<forall>(n, v) \<in> set es. n \<noteq> [] \<and> list_all plain_char n \<and> hd n = CHR ''m'' \<and> v \<noteq> [] \<and> list_all plain_char v"
  shows "fold (scrape_line pf) (map (\<lambda>(n, v). n @ '' '' @ v) es) s =
    fold (\<lambda>(n, v) s. case pf v of None \<Rightarrow> s | Some x \<Rightarrow> (case map_of metric_cases n of None \<Rightarrow> s | Some f \<Rightarrow> f x s)) es s"
  using assms
proof (induction es arbitrary: s)
  case (Cons e es)
  obtain n v where e: "e = (n, v)" by (cases e)
  then show ?case using Cons scrape_line_render [of n v pf s] by simp
qed simp

lemma parse_render:
  assumes "float_text_ok fmt pf"
  shows "parsePrometheusMetrics pf (RenderPrometheus fmt m) =
    fold (\<lambda>(n, v) s. case pf v of None \<Rightarrow> s | Some x \<Rightarrow> (case map_of metric_cases n of None \<Rightarrow> s | Some f \<Rightarrow> f x s))
      (prometheus_values fmt (mt_Snapshot m)) zero_snapshot"
proof -
  let ?es = "prometheus_values fmt (mt_Snapshot m)"
  have ok: "\<forall>(n, v) \<in> set ?es. n \<noteq> [] \<and> list_all plain_char n \<and> hd n = CHR ''m'' \<and> v \<noteq> [] \<and> list_all plain_char v"
  proof (clarify, intro conjI)
    fix n v assume nv: "(n, v) \<in> set ?es"
    then have "n \<in> set (map fst metric_cases)" using values_named [of fmt "mt_Snapshot m"] by (metis fst_conv image_eqI list.set_map)
    then show "n \<noteq> []" "list_all plain_char n" "hd n = CHR ''m''" using metric_names_plain by (auto simp: list_all_iff)
    show "v \<noteq> []" "list_all plain_char v" using values_plain [OF assms nv] by simp_all
  qed
  then have "Split1 newline (RenderPrometheus fmt m) = map (\<lambda>(n, v). n @ '' '' @ v) ?es @ [[]]"
    unfolding RenderPrometheus_def by (intro Split1_render) auto
  then have "parsePrometheusMetrics pf (RenderPrometheus fmt m) = scrape_line pf [] (fold (scrape_line pf) (map (\<lambda>(n, v). n @ '' '' @ v) ?es) zero_snapshot)"
    by (simp add: parsePrometheusMetrics_def)
  also have "\<dots> = fold (scrape_line pf) (map (\<lambda>(n, v). n @ '' '' @ v) ?es) zero_snapshot" by (simp add: scrape_line_def)
  finally show ?thesis by (simp only: fold_scrape [OF ok])
qed

lemma fold_cases:
  assumes "map fst es = map fst cs" and "\<forall>(n, f) \<in> set cs. map_of metric_cases n = Some f"
  shows "fold (\<lambda>(n, v) s. case pf v of None \<Rightarrow> s | Some x \<Rightarrow> (case map_of metric_cases n of None \<Rightarrow> s | Some f \<Rightarrow> f x s)) es s =
    fold (\<lambda>(f, v) s. case pf v of None \<Rightarrow> s | Some x \<Rightarrow> f x s) (zip (map snd cs) (map snd es)) s"
  using assms
proof (induction es arbitrary: cs s)
  case (Cons e es)
  then obtain n v f cs' where "e = (n, v)" "cs = (n, f) # cs'" by (cases e; cases cs) auto
  then show ?case using Cons by (auto split: option.splits)
qed simp

text \<open>
  A relay's metrics survive the trip over HTTP into the harness, but for the names of the states.
\<close>

lemma parse_render_snapshot:
  assumes "float_text_ok fmt pf" and "list_all (\<lambda>c. unat c < 2 ^ 53) (counters (mt_Snapshot m))"
  shows "parsePrometheusMetrics pf (RenderPrometheus fmt m) =
    (mt_Snapshot m)\<lparr> sn_HealthState := [], sn_RecoveryState := [], sn_RolloutState := [] \<rparr>"
proof -
  let ?s = "mt_Snapshot m"
  have pf: "pf (show_nat 10 (unat c)) = Some (f_of_int (int (unat c)))" "pf (fmt x) = Some x" for c :: u64 and x
    using assms(1) by (simp_all add: float_text_ok_def)
  have pf32: "pf (show_nat 10 (unat c)) = Some (f_of_int (int (unat c)))" for c :: "32 word"
    using assms(1) by (simp add: float_text_ok_def)
  have cs: "\<forall>(n, f) \<in> set metric_cases. map_of metric_cases n = Some f"
    using metric_names_distinct by auto
  have "parsePrometheusMetrics pf (RenderPrometheus fmt m) =
      fold (\<lambda>(f, v) s. case pf v of None \<Rightarrow> s | Some x \<Rightarrow> f x s) (zip (map snd metric_cases) (map snd (prometheus_values fmt ?s))) zero_snapshot"
    by (simp only: parse_render [OF assms(1)] fold_cases [OF values_named cs])
  also have "\<dots> = ?s\<lparr> sn_HealthState := [], sn_RecoveryState := [], sn_RolloutState := [] \<rparr>"
    using assms(2)
    by (simp add: prometheus_values_def metric_cases_def Let_def pf pf32 counters_def f_to_u64_of_unat f_to_u32_of_unat zero_snapshot_def
      del: of_nat_unat)
  finally show ?thesis .
qed

end
