(* ===== verification/Relay_Measure.thy ===== *)
theory Relay_Measure
  imports Relay_Scrape Relay_Health
begin

text \<open>
  The measurement harness, \<^verbatim>\<open>internal/measurement\<close>: the relays it drives (\<^verbatim>\<open>target.go\<close>, \<^verbatim>\<open>fault.go\<close>), the load it makes and the figures it
  takes (\<^verbatim>\<open>runner.go\<close>), and the comparison with earlier figures (\<^verbatim>\<open>baseline.go\<close>).

  A \<open>Target\<close> works on a state \<open>'s\<close>: the service for an embedded relay, the world for one behind HTTP, whose client and JSON encoders are
  parameters. The jobs of a scenario are handed to the target one after the other in the order \<open>ord\<close> in which the workers take them; the readings of
  the clock are the parameter \<open>Clocks\<close>, by job. A panic is \<open>None\<close>.
\<close>

section \<open>Data\<close>

record Scenario =
  sc_Name :: string
  sc_Mode :: string
  sc_Duration :: duration
  sc_Warmup :: duration
  sc_Cooldown :: duration
  sc_Concurrency :: int
  sc_RatePerSecond :: int
  sc_Requests :: int
  sc_TxCount :: int
  sc_TxBytes :: int
  sc_DuplicateEvery :: int
  sc_ClientID :: string
  sc_RegionID :: string
  sc_ShardID :: string
  sc_Authorization :: string
  sc_CompareBaseline :: string

record PhaseStats =
  ph_Count :: int
  ph_Mean :: duration
  ph_P95 :: duration
  ph_P99 :: duration
  ph_Max :: duration

text \<open>\<open>None\<close> stands for the zero report of a health call that failed.\<close>

record MResult =
  mr_Scenario :: string
  mr_Mode :: string
  mr_StartedAt :: gtime
  mr_FinishedAt :: gtime
  mr_Duration :: duration
  mr_Requests :: int
  mr_Successes :: int
  mr_Failures :: int
  mr_Accepted :: int
  mr_Rejected :: int
  mr_MeanLatency :: duration
  mr_P95Latency :: duration
  mr_P99Latency :: duration
  mr_MaxLatency :: duration
  mr_HealthBefore :: "HealthReport option"
  mr_HealthAfter :: "HealthReport option"
  mr_MetricsBefore :: MetricsSnapshot
  mr_MetricsAfter :: MetricsSnapshot
  mr_Regression :: bool
  mr_RegressionWhy :: "string list"
  mr_PhaseStats :: "(string \<times> PhaseStats) list"

record MReport =
  rp_GeneratedAt :: gtime
  rp_Results :: "MResult list"

record Baseline =
  ba_Name :: string
  ba_Result :: MResult

section \<open>Targets\<close>

datatype target_error = RelayErr relay_error | TextErr string

text \<open>What the harness looks at of the record a submission returns; states are strings here.\<close>

record Submitted =
  su_ID :: string
  su_State :: string
  su_ShardID :: string

record 's Target =
  tg_Submit :: "JSONRPCRequest \<Rightarrow> string \<Rightarrow> string \<Rightarrow> 's \<Rightarrow> (target_error + Submitted) \<times> 's"
  tg_Health :: "'s \<Rightarrow> (target_error + HealthReport) \<times> 's"
  tg_Metrics :: "'s \<Rightarrow> (target_error + MetricsSnapshot) \<times> 's"

definition EmbeddedTarget :: "SvcEnv \<Rightarrow> Service Target" where
  "EmbeddedTarget en = \<lparr>
     tg_Submit = (\<lambda>req clientID regionID s. case submitWithIdentity en req clientID regionID s of
        (Inl e, s) \<Rightarrow> (Inl (RelayErr e), s)
      | (Inr rec, s) \<Rightarrow> (Inr \<lparr> su_ID = bd_ID rec, su_State = state_string (bd_State rec), su_ShardID = bd_ShardID rec \<rparr>, s)),
     tg_Health = (\<lambda>s. case AssessHealth en s of (r, s) \<Rightarrow> (Inr r, s)),
     tg_Metrics = (\<lambda>s. (Inr (mt_Snapshot (sv_metrics s)), s)) \<rparr>"

subsection \<open>Over HTTP\<close>

record HttpCall =
  ht_Method :: string
  ht_URL :: string
  ht_Header :: "(string \<times> string) list"
  ht_Body :: string

text \<open>A response: its body as far as it can be read, and the error after it if reading fails.\<close>

record HttpReply =
  re_Code :: int
  re_Status :: string
  re_Body :: string
  re_ReadErr :: "string option"

text \<open>\<^verbatim>\<open>http.NewRequestWithContext\<close> (its error for a URL), the client's \<^verbatim>\<open>Do\<close>, and the JSON encoders.\<close>

record 'w HttpApi =
  ha_BadURL :: "string \<Rightarrow> string option"
  ha_Do :: "HttpCall \<Rightarrow> 'w \<Rightarrow> (string + HttpReply) \<times> 'w"
  ha_Marshal :: "JSONRPCRequest \<Rightarrow> string + string"
  ha_DecodeSubmit :: "HttpReply \<Rightarrow> string + Submitted"
  ha_DecodeHealth :: "HttpReply \<Rightarrow> string + HealthReport"
  ha_ParseFloat :: "string \<Rightarrow> f64 option"

record HTTPTarget =
  hx_BaseURL :: string
  hx_Token :: string

definition target_url :: "HTTPTarget \<Rightarrow> string \<Rightarrow> string" where
  "target_url t path = TrimRight (hx_BaseURL t) ''/'' @ path"

definition http_Submit ::
  "'w HttpApi \<Rightarrow> HTTPTarget \<Rightarrow> JSONRPCRequest \<Rightarrow> string \<Rightarrow> string \<Rightarrow> 'w \<Rightarrow> (target_error + Submitted) \<times> 'w" where
  "http_Submit api t req clientID regionID w =
     (case ha_Marshal api req of
        Inl e \<Rightarrow> (Inl (TextErr e), w)
      | Inr body \<Rightarrow>
          let url = target_url t ''/relay/v3/bundle'' in
          case ha_BadURL api url of
            Some e \<Rightarrow> (Inl (TextErr e), w)
          | None \<Rightarrow>
              let hdr = [(''Content-Type'', ''application/json'')] @
                (if hx_Token t \<noteq> [] then [(''Authorization'', ''Bearer '' @ hx_Token t)] else []) @
                [(''X-Client-ID'', clientID), (''X-Region-ID'', regionID)] in
              case ha_Do api \<lparr> ht_Method = ''POST'', ht_URL = url, ht_Header = hdr, ht_Body = body \<rparr> w of
                (Inl e, w) \<Rightarrow> (Inl (TextErr e), w)
              | (Inr resp, w) \<Rightarrow>
                  if re_Code resp \<ge> 300
                  then (Inl (TextErr (''submit '' @ re_Status resp @ '': '' @ TrimSpace (take (8 * 1024) (re_Body resp)))), w)
                  else (case ha_DecodeSubmit api resp of Inl e \<Rightarrow> (Inl (TextErr e), w) | Inr out \<Rightarrow> (Inr out, w)))"

definition http_get :: "'w HttpApi \<Rightarrow> HTTPTarget \<Rightarrow> string \<Rightarrow> (HttpReply \<Rightarrow> string + 'r) \<Rightarrow> 'w \<Rightarrow> (target_error + 'r) \<times> 'w" where
  "http_get api t path decode w =
     (let url = target_url t path in
      case ha_BadURL api url of
        Some e \<Rightarrow> (Inl (TextErr e), w)
      | None \<Rightarrow> (case ha_Do api \<lparr> ht_Method = ''GET'', ht_URL = url, ht_Header = [], ht_Body = [] \<rparr> w of
           (Inl e, w) \<Rightarrow> (Inl (TextErr e), w)
         | (Inr resp, w) \<Rightarrow> (case decode resp of Inl e \<Rightarrow> (Inl (TextErr e), w) | Inr x \<Rightarrow> (Inr x, w))))"

definition http_Health :: "'w HttpApi \<Rightarrow> HTTPTarget \<Rightarrow> 'w \<Rightarrow> (target_error + HealthReport) \<times> 'w" where
  "http_Health api t = http_get api t ''/healthz'' (ha_DecodeHealth api)"

text \<open>At most a megabyte is read; an error of the connection counts when it comes before that.\<close>

definition http_Metrics :: "'w HttpApi \<Rightarrow> HTTPTarget \<Rightarrow> 'w \<Rightarrow> (target_error + MetricsSnapshot) \<times> 'w" where
  "http_Metrics api t = http_get api t ''/metrics'' (\<lambda>resp.
     case re_ReadErr resp of
       Some e \<Rightarrow> if length (re_Body resp) < 2 ^ 20 then Inl e
                 else Inr (parsePrometheusMetrics (ha_ParseFloat api) (take (2 ^ 20) (re_Body resp)))
     | None \<Rightarrow> Inr (parsePrometheusMetrics (ha_ParseFloat api) (take (2 ^ 20) (re_Body resp))))"

definition HTTP_Target :: "'w HttpApi \<Rightarrow> HTTPTarget \<Rightarrow> 'w Target" where
  "HTTP_Target api t = \<lparr> tg_Submit = http_Submit api t, tg_Health = http_Health api t, tg_Metrics = http_Metrics api t \<rparr>"

subsection \<open>With faults\<close>

record FaultPlan =
  fp_SubmitDelay :: duration
  fp_HealthDelay :: duration
  fp_MetricsDelay :: duration
  fp_SubmitErrorEvery :: int
  fp_HealthErrorEvery :: int
  fp_MetricsErrorEvery :: int

record FaultCounters =
  fc_submit :: u64
  fc_health :: u64
  fc_metrics :: u64

definition go_rem :: "int \<Rightarrow> int \<Rightarrow> int" where
  "go_rem a b = a - go_div a b * b"

text \<open>
  The methods have value receivers: each call counts in its own copy of the counters, and the counters \<open>fc\<close> of the target stay as they are.
  \<open>ctx\<close> is the error of the context when it ends during the delay.
\<close>

definition fault_call ::
  "u64 \<Rightarrow> int \<Rightarrow> string \<Rightarrow> duration \<Rightarrow> target_error option \<Rightarrow> ('s \<Rightarrow> (target_error + 'r) \<times> 's) \<Rightarrow> 's \<Rightarrow> (target_error + 'r) \<times> 's" where
  "fault_call counter every msg delay ctx call s =
     (let n = counter + 1 in
      if every > 0 \<and> go_rem (sint n) every = 0 then (Inl (TextErr msg), s)
      else if delay > 0 \<and> ctx \<noteq> None then (Inl (the ctx), s)
      else call s)"

definition FaultTarget :: "FaultPlan \<Rightarrow> FaultCounters \<Rightarrow> target_error option \<Rightarrow> 's Target \<Rightarrow> 's Target" where
  "FaultTarget plan fc ctx tg = \<lparr>
     tg_Submit = (\<lambda>req clientID regionID. fault_call (fc_submit fc) (fp_SubmitErrorEvery plan) ''injected submit failure''
        (fp_SubmitDelay plan) ctx (tg_Submit tg req clientID regionID)),
     tg_Health = fault_call (fc_health fc) (fp_HealthErrorEvery plan) ''injected health failure'' (fp_HealthDelay plan) ctx (tg_Health tg),
     tg_Metrics = fault_call (fc_metrics fc) (fp_MetricsErrorEvery plan) ''injected metrics failure'' (fp_MetricsDelay plan) ctx (tg_Metrics tg) \<rparr>"

section \<open>Load\<close>

text \<open>The loops of \<^verbatim>\<open>makeTxHex\<close>: \<open>n\<close> more bytes, the next of them from \<open>rest\<close>, a tail of the seed.\<close>

fun tx_fill :: "nat \<Rightarrow> string \<Rightarrow> string \<Rightarrow> string" where
  "tx_fill 0 seed rest = []"
| "tx_fill (Suc n) seed (c # rest) = c # tx_fill n seed rest"
| "tx_fill (Suc n) seed [] = (case seed of [] \<Rightarrow> [] | c # rest \<Rightarrow> c # tx_fill n seed rest)"

definition makeTxHex :: "int \<Rightarrow> string \<Rightarrow> int \<Rightarrow> int \<Rightarrow> string" where
  "makeTxHex targetBytes scenario reqID txIndex =
     (let n = nat (if targetBytes \<le> 0 then 64 else targetBytes);
          seed = scenario @ '':'' @ show_int 10 reqID @ '':'' @ show_int 10 txIndex @ '':''
      in ''0x'' @ tx_fill n seed seed)"

definition unix_seconds :: "gtime \<Rightarrow> int" where
  "unix_seconds t = t div second - 62135596800"

definition buildBundleRequest :: "gtime \<Rightarrow> gtime \<Rightarrow> Scenario \<Rightarrow> int \<Rightarrow> JSONRPCRequest" where
  "buildBundleRequest now1 now2 s rid =
     (let key = (if sc_DuplicateEvery s > 0 \<and> rid > 0 \<and> go_rem rid (sc_DuplicateEvery s) = 0 then rid - 1 else rid);
          txs = map (\<lambda>i. makeTxHex (sc_TxBytes s) (sc_Name s) key (int i)) [0..<nat (sc_TxCount s)]
      in \<lparr> jr_JSONRPC = ''2.0'', jr_ID = rid + 1, jr_Method = ''eth_sendBundle'',
           jr_Params = [\<lparr> bq_Txs = txs, bq_BlockNumber = ''0x1'', bq_MinTimestamp = unix_seconds now1,
              bq_MaxTimestamp = unix_seconds (now2 + 2 * second), bq_Replacement = None \<rparr>] \<rparr>)"

definition clientIDFor :: "Scenario \<Rightarrow> int \<Rightarrow> string \<Rightarrow> string" where
  "clientIDFor s n fallback =
     (if sc_ClientID s \<noteq> [] then sc_ClientID s
      else if fallback \<noteq> [] then fallback
      else ''client-'' @ show_int 10 (go_rem n 8))"

definition regionIDFor :: "Scenario \<Rightarrow> string \<Rightarrow> string" where
  "regionIDFor s fallback = (if sc_RegionID s \<noteq> [] then sc_RegionID s else if fallback \<noteq> [] then fallback else ''local'')"

section \<open>Figures\<close>

text \<open>\<^verbatim>\<open>math.Ceil\<close>.\<close>

definition f_math_ceil :: "f64 \<Rightarrow> f64" where
  "f_math_ceil a = (case a of
       FFin q \<Rightarrow> (if \<lceil>q\<rceil> = 0 then FZero (q < 0) else FFin (of_int \<lceil>q\<rceil>))
     | _ \<Rightarrow> a)"

definition percentile_index :: "nat \<Rightarrow> int \<Rightarrow> int" where
  "percentile_index len pct =
     (let idx = f_to_int64 (f_math_ceil (f_mul (f_div (f_of_int pct) (f_of_int 100)) (f_of_int (int len)))) - 1;
          idx = (if idx < 0 then 0 else idx)
      in if idx \<ge> int len then int len - 1 else idx)"

definition percentile :: "duration list \<Rightarrow> int \<Rightarrow> duration" where
  "percentile xs pct =
     (if xs = [] then 0
      else if pct \<le> 0 then xs ! 0
      else if pct \<ge> 100 then xs ! (length xs - 1)
      else xs ! nat (percentile_index (length xs) pct))"

definition maxDuration :: "duration \<Rightarrow> duration \<Rightarrow> duration" where
  "maxDuration a b = (if a > b then a else b)"

definition phaseStatsFromLatency :: "u64 \<Rightarrow> PhaseStats" where
  "phaseStatsFromLatency ms =
     (if ms = 0 then \<lparr> ph_Count = 0, ph_Mean = 0, ph_P95 = 0, ph_P99 = 0, ph_Max = 0 \<rparr>
      else let d = wrap64 (sint ms * millisecond)
           in \<lparr> ph_Count = 1, ph_Mean = d, ph_P95 = d, ph_P99 = d, ph_Max = d \<rparr>)"

section \<open>Running a scenario\<close>

text \<open>The defaults of \<^verbatim>\<open>runScenario\<close>: the scenario as it is run, the warm-up and the measured time.\<close>

definition normalise :: "Scenario \<Rightarrow> Scenario \<times> duration \<times> duration" where
  "normalise s0 =
     (let s1 = (if sc_Concurrency s0 \<le> 0 then s0\<lparr> sc_Concurrency := 1 \<rparr> else s0);
          s2 = (if sc_TxCount s1 \<le> 0 then s1\<lparr> sc_TxCount := 1 \<rparr> else s1);
          warmup = maxDuration 0 (sc_Warmup s2);
          dur = (if sc_Duration s2 \<le> 0 then 10 * second else sc_Duration s2);
          cooldown = maxDuration 0 (sc_Cooldown s2);
          window = wrap64 (wrap64 (warmup + dur) + cooldown);
          requests =
            (if sc_Requests s2 > 0 then sc_Requests s2
             else if sc_RatePerSecond s2 > 0
             then f_to_int64 (f_math_ceil (f_div (f_mul (f_of_int window) (f_of_int (sc_RatePerSecond s2))) (f_of_int second)))
             else let r = wrap64 (sc_Concurrency s2 * go_div window second)
                  in if r \<le> 0 then wrap64 (sc_Concurrency s2 * 100) else r)
      in (s2\<lparr> sc_Requests := requests \<rparr>, warmup, dur))"

record Clocks =
  cl_min :: "int \<Rightarrow> gtime"
  cl_max :: "int \<Rightarrow> gtime"
  cl_sent :: "int \<Rightarrow> gtime"
  cl_latency :: "int \<Rightarrow> duration"
  cl_start :: gtime
  cl_finish :: gtime

record Tally =
  ty_samples :: "duration list"
  ty_success :: int
  ty_failures :: int
  ty_accepted :: int
  ty_rejected :: int

definition no_calls :: Tally where
  "no_calls = \<lparr> ty_samples = [], ty_success = 0, ty_failures = 0, ty_accepted = 0, ty_rejected = 0 \<rparr>"

text \<open>What a worker does with the outcome of a call it sent at \<open>sentAt\<close>.\<close>

definition count_call :: "gtime \<Rightarrow> gtime \<Rightarrow> gtime \<Rightarrow> duration \<Rightarrow> target_error + Submitted \<Rightarrow> Tally \<Rightarrow> Tally" where
  "count_call activeStart activeEnd sentAt latency res t =
     (if sentAt < activeStart \<or> sentAt > activeEnd then t
      else let t1 = t\<lparr> ty_samples := ty_samples t @ [latency] \<rparr> in
           case res of
             Inl _ \<Rightarrow> t1\<lparr> ty_failures := ty_failures t1 + 1 \<rparr>
           | Inr rec \<Rightarrow> let t2 = t1\<lparr> ty_success := ty_success t1 + 1 \<rparr> in
               if su_State rec \<in> {state_string StateRejected, state_string StateDeadLetter}
               then t2\<lparr> ty_rejected := ty_rejected t2 + 1 \<rparr>
               else t2\<lparr> ty_accepted := ty_accepted t2 + 1 \<rparr>)"

definition run_job ::
  "'s Target \<Rightarrow> string \<Rightarrow> string \<Rightarrow> Scenario \<Rightarrow> Clocks \<Rightarrow> gtime \<Rightarrow> gtime \<Rightarrow> int \<Rightarrow> Tally \<times> 's \<Rightarrow> Tally \<times> 's" where
  "run_job tg clientID regionID sc ck activeStart activeEnd n ts =
     (case ts of (t, s) \<Rightarrow>
      let req = buildBundleRequest (cl_min ck n) (cl_max ck n) sc n in
      case tg_Submit tg req (clientIDFor sc n clientID) (regionIDFor sc regionID) s of
        (res, s) \<Rightarrow> (count_call activeStart activeEnd (cl_sent ck n) (cl_latency ck n) res t, s))"

definition value_of :: "(target_error + 'r) \<times> 's \<Rightarrow> 'r option \<times> 's" where
  "value_of p = (case p of (Inl _, s) \<Rightarrow> (None, s) | (Inr r, s) \<Rightarrow> (Some r, s))"

definition metrics_of :: "MetricsSnapshot option \<Rightarrow> MetricsSnapshot" where
  "metrics_of m = (case m of None \<Rightarrow> zero_snapshot | Some s \<Rightarrow> s)"

definition summarise ::
  "Scenario \<Rightarrow> Clocks \<Rightarrow> HealthReport option \<Rightarrow> HealthReport option \<Rightarrow> MetricsSnapshot \<Rightarrow> MetricsSnapshot \<Rightarrow> Tally \<Rightarrow> MResult" where
  "summarise sc ck h0 h1 m0 m1 t =
     (let samples = sort (ty_samples t) in
      \<lparr> mr_Scenario = sc_Name sc, mr_Mode = sc_Mode sc, mr_StartedAt = cl_start ck, mr_FinishedAt = cl_finish ck,
        mr_Duration = time_sub (cl_finish ck) (cl_start ck), mr_Requests = ty_success t + ty_failures t,
        mr_Successes = ty_success t, mr_Failures = ty_failures t, mr_Accepted = ty_accepted t, mr_Rejected = ty_rejected t,
        mr_MeanLatency = (if samples = [] then 0 else go_div (foldl (\<lambda>a v. wrap64 (a + v)) 0 samples) (int (length samples))),
        mr_P95Latency = (if samples = [] then 0 else percentile samples 95),
        mr_P99Latency = (if samples = [] then 0 else percentile samples 99),
        mr_MaxLatency = (if samples = [] then 0 else last samples),
        mr_HealthBefore = h0, mr_HealthAfter = h1, mr_MetricsBefore = m0, mr_MetricsAfter = m1,
        mr_Regression = False, mr_RegressionWhy = [],
        mr_PhaseStats =
          [(''backend'', phaseStatsFromLatency (sn_BackendLatencyMS m1)), (''state'', phaseStatsFromLatency (sn_StateLatencyMS m1)),
           (''broker'', phaseStatsFromLatency (sn_BrokerLatencyMS m1)), (''wal'', phaseStatsFromLatency (sn_WALLatencyMS m1)),
           (''checkpoint'', phaseStatsFromLatency (sn_CheckpointLatencyMS m1))] \<rparr>)"

text \<open>
  \<open>cancelled = Some (k, e)\<close>: the context ends with \<open>e\<close> after \<open>k\<close> jobs. \<^verbatim>\<open>make\<close> panics when the number of requests is negative.
\<close>

definition runScenario ::
  "(int list \<Rightarrow> int list) \<Rightarrow> Clocks \<Rightarrow> (nat \<times> target_error) option \<Rightarrow> 's Target \<Rightarrow> string \<Rightarrow> string \<Rightarrow> Scenario \<Rightarrow> 's \<Rightarrow>
   ((target_error + MResult) \<times> 's) option" where
  "runScenario ord ck cancelled tg clientID regionID sc0 s0 =
     (let (sc, warmup, dur) = normalise sc0;
          (h0, s1) = value_of (tg_Health tg s0);
          (m0, s2) = value_of (tg_Metrics tg s1);
          activeStart = cl_start ck + warmup;
          activeEnd = activeStart + dur
      in if sc_Requests sc < 0 then None
         else let jobs = ord (map int [0..<nat (sc_Requests sc)]) in
           case cancelled of
             Some (k, e) \<Rightarrow> Some (Inl e, snd (fold (run_job tg clientID regionID sc ck activeStart activeEnd) (take k jobs) (no_calls, s2)))
           | None \<Rightarrow>
               let (t, s3) = fold (run_job tg clientID regionID sc ck activeStart activeEnd) jobs (no_calls, s2);
                   (h1, s4) = value_of (tg_Health tg s3);
                   (m1, s5) = value_of (tg_Metrics tg s4)
               in Some (Inr (summarise sc ck h0 h1 (metrics_of m0) (metrics_of m1) t), s5))"

text \<open>\<^verbatim>\<open>Run\<close>: the scenarios in order, up to the first that fails; each has its own order, clocks and context.\<close>

type_synonym run_env = "nat \<Rightarrow> (int list \<Rightarrow> int list) \<times> Clocks \<times> (nat \<times> target_error) option"

fun run_scenarios ::
  "run_env \<Rightarrow> nat \<Rightarrow> 's Target \<Rightarrow> string \<Rightarrow> string \<Rightarrow> Scenario list \<Rightarrow> MResult list \<Rightarrow> 's \<Rightarrow> ((target_error + MResult list) \<times> 's) option" where
  "run_scenarios renv i tg clientID regionID [] acc s = Some (Inr acc, s)"
| "run_scenarios renv i tg clientID regionID (sc # scs) acc s =
     (case renv i of (ord, ck, ctx) \<Rightarrow>
      case runScenario ord ck ctx tg clientID regionID sc s of
        None \<Rightarrow> None
      | Some (Inl e, s) \<Rightarrow> Some (Inl e, s)
      | Some (Inr res, s) \<Rightarrow> run_scenarios renv (Suc i) tg clientID regionID scs (acc @ [res]) s)"

definition Runner_Run ::
  "gtime \<Rightarrow> run_env \<Rightarrow> 's Target option \<Rightarrow> string \<Rightarrow> string \<Rightarrow> Scenario list \<Rightarrow> 's \<Rightarrow> ((target_error + MReport) \<times> 's) option" where
  "Runner_Run now renv target clientID regionID scenarios s =
     (case target of
        None \<Rightarrow> Some (Inl (TextErr ''missing target''), s)
      | Some tg \<Rightarrow> (case run_scenarios renv 0 tg clientID regionID scenarios [] s of
           None \<Rightarrow> None
         | Some (Inl e, s) \<Rightarrow> Some (Inl e, s)
         | Some (Inr rs, s) \<Rightarrow> Some (Inr \<lparr> rp_GeneratedAt = now, rp_Results = rs \<rparr>, s)))"

section \<open>Baselines\<close>

definition Compare :: "MResult \<Rightarrow> Baseline \<Rightarrow> bool \<times> string list" where
  "Compare result baseline =
     (if ba_Name baseline = [] then (True, [])
      else let base = ba_Result baseline;
               ready = (\<lambda>h. case h of None \<Rightarrow> False | Some r \<Rightarrow> hr_Ready r);
               reasons =
                 (if mr_P99Latency base > 0 \<and> mr_P99Latency result > wrap64 (mr_P99Latency base + go_div (mr_P99Latency base) 5)
                  then [''p99 latency regressed''] else []) @
                 (if mr_Successes base > 0 \<and> mr_Successes result < mr_Successes base then [''success count regressed''] else []) @
                 (if mr_Rejected base > 0 \<and> mr_Rejected result > wrap64 (mr_Rejected base * 2) then [''rejection rate regressed''] else []) @
                 (if ready (mr_HealthAfter base) \<and> \<not> ready (mr_HealthAfter result) then [''ready state regressed''] else [])
           in (reasons = [], reasons))"

end
