(* ===== verification/Relay_Measure_Props.thy ===== *)
theory Relay_Measure_Props
  imports Relay_Measure Relay_Valkey_Server
begin

text \<open>
  What the figures of the measurement harness mean, and where it does not do what it sets out to do.
\<close>

section \<open>Counting\<close>

definition tally_ok :: "Tally \<Rightarrow> bool" where
  "tally_ok t \<longleftrightarrow> 0 \<le> ty_accepted t \<and> 0 \<le> ty_rejected t \<and> 0 \<le> ty_failures t \<and> ty_success t = ty_accepted t + ty_rejected t \<and>
     int (length (ty_samples t)) = ty_success t + ty_failures t"

lemma count_call_ok: "tally_ok t \<Longrightarrow> tally_ok (count_call a e sent lat res t)"
  by (auto simp: tally_ok_def count_call_def Let_def split: sum.splits)

definition measured :: "Clocks \<Rightarrow> gtime \<Rightarrow> gtime \<Rightarrow> int \<Rightarrow> bool" where
  "measured ck a e n \<longleftrightarrow> a \<le> cl_sent ck n \<and> cl_sent ck n \<le> e"

lemma run_jobs:
  "tally_ok t \<Longrightarrow> fold (run_job tg c r sc ck a e) jobs (t, s) = (t', s') \<Longrightarrow>
   tally_ok t' \<and> ty_samples t' = ty_samples t @ map (cl_latency ck) (filter (measured ck a e) jobs)"
proof (induction jobs arbitrary: t s)
  case (Cons n jobs)
  obtain res s1 where j: "tg_Submit tg (buildBundleRequest (cl_min ck n) (cl_max ck n) sc n) (clientIDFor sc n c) (regionIDFor sc r) s = (res, s1)"
    by fastforce
  let ?t1 = "count_call a e (cl_sent ck n) (cl_latency ck n) res t"
  have "run_job tg c r sc ck a e n (t, s) = (?t1, s1)" using j by (simp add: run_job_def)
  then have "fold (run_job tg c r sc ck a e) jobs (?t1, s1) = (t', s')" using Cons.prems(2) by simp
  from Cons.IH [OF count_call_ok [OF Cons.prems(1)] this]
  have "tally_ok t'" "ty_samples t' = ty_samples ?t1 @ map (cl_latency ck) (filter (measured ck a e) jobs)" by simp_all
  moreover have "ty_samples ?t1 = ty_samples t @ (if measured ck a e n then [cl_latency ck n] else [])"
    by (auto simp: count_call_def measured_def Let_def split: sum.splits)
  ultimately show ?case by simp
qed simp

lemma normalise_positive:
  assumes "normalise sc0 = (sc, w, d)"
  shows "1 \<le> sc_TxCount sc" and "0 \<le> w" and "0 < d" and "sc_Name sc = sc_Name sc0" and "sc_TxBytes sc = sc_TxBytes sc0"
proof -
  have sc: "sc = fst (normalise sc0)" and w: "w = fst (snd (normalise sc0))" and d: "d = snd (snd (normalise sc0))"
    using assms by simp_all
  show "1 \<le> sc_TxCount sc" unfolding sc normalise_def Let_def by simp
  show "0 \<le> w" unfolding w normalise_def Let_def by (simp add: maxDuration_def)
  show "0 < d" unfolding d normalise_def Let_def by (simp add: second_def)
  show "sc_Name sc = sc_Name sc0" unfolding sc normalise_def Let_def by simp
  show "sc_TxBytes sc = sc_TxBytes sc0" unfolding sc normalise_def Let_def by simp
qed

section \<open>Percentiles\<close>

lemma ulp_unique:
  assumes "2 ^ 52 * pow2 e \<le> q" "q < 2 ^ 53 * pow2 e" "2 ^ 52 * pow2 e' \<le> q" "q < 2 ^ 53 * pow2 e'"
  shows "e = e'"
proof (rule ccontr)
  have no: False if "a < b" "2 ^ 52 * pow2 b \<le> q" "q < 2 ^ 53 * pow2 a" for a b
    using pow2_less [OF that(1)] that(2,3) by simp
  assume "e \<noteq> e'"
  then show False using no assms by (metis linorder_neqE)
qed

lemma f_round_53:
  assumes "1 / 2 \<le> q" and "q < 1"
  shows "f_round s q = FFin (of_int (round_even (q * 2 ^ 53)) / 2 ^ 53)"
proof -
  have "2 ^ 52 * pow2 (ulp_exp q) \<le> q \<and> q < 2 ^ 53 * pow2 (ulp_exp q)"
  proof -
    have "(2 :: rat) ^ 52 \<le> 1 / 2 * 2 ^ 1074" by simp
    also have "\<dots> \<le> q * 2 ^ 1074" using assms(1) by (intro mult_right_mono) simp_all
    finally show ?thesis using assms(2) scale_down_spec [of q 1074 0] by (simp add: ulp_exp_def pow2_def)
  qed
  moreover have "2 ^ 52 * pow2 (- 53) \<le> q" "q < 2 ^ 53 * pow2 (- 53)" using assms by (simp_all add: pow2_def)
  ultimately have e: "ulp_exp q = - 53" using ulp_unique by blast
  have p: "pow2 (- 53) = 1 / 2 ^ 53" by (simp add: pow2_def)
  have r: "0 < round_even (q * 2 ^ 53)" "of_int (round_even (q * 2 ^ 53)) \<le> q * 2 ^ 53 + 1"
    using round_even_bounds [of "q * 2 ^ 53"] assms(1) by (linarith | simp)+
  have "of_int (round_even (q * 2 ^ 53)) / 2 ^ 53 \<le> max_finite" using r(2) assms(2) by (simp add: max_finite_def)
  then show ?thesis using assms r(1) by (simp add: f_round_def f_round_mag_def Let_def e p)
qed

lemma f_95: "f_div (f_of_int 95) (f_of_int 100) = FFin (4278419646001971 / 4503599627370496)"
proof -
  have "\<lfloor>42784196460019712 / 5 :: rat\<rfloor> = 8556839292003942" by (simp add: floor_eq_iff)
  then show ?thesis using f_round_53 [of "19 / 20" False]
    by (simp add: f_of_int_exact f_div_def f_is_zero_def round_even_def Let_def)
qed

lemma f_99: "f_div (f_of_int 99) (f_of_int 100) = FFin (4458563631096791 / 4503599627370496)"
proof -
  have "\<lfloor>222928181554839552 / 25 :: rat\<rfloor> = 8917127262193582" by (simp add: floor_eq_iff)
  then show ?thesis using f_round_53 [of "99 / 100" False]
    by (simp add: f_of_int_exact f_div_def f_is_zero_def round_even_def Let_def)
qed

text \<open>Multiples of \<open>1 / 128\<close> are numbers of their own.\<close>

lemma rounded_128:
  assumes "1 \<le> of_int m / (128 :: rat)" and "m < 2 ^ 53"
  shows "rounded (of_int m / 128) = of_int m / 128"
proof -
  let ?q = "of_int m / 128 :: rat"
  have "(of_int m :: rat) < of_int (2 ^ 53)" using assms(2) by (simp only: of_int_less_iff)
  then have q: "?q < 2 ^ 46" by simp
  then have "2 ^ 52 * pow2 (ulp_exp ?q) \<le> ?q" using ulp_spec [OF assms(1)] by simp
  with q have "2 ^ 52 * pow2 (ulp_exp ?q) < 2 ^ 46" by linarith
  then have small: "pow2 (ulp_exp ?q) < 1 / 64" by simp
  have e: "ulp_exp ?q \<le> - 7"
  proof (rule ccontr)
    assume "\<not> ulp_exp ?q \<le> - 7"
    then have "- 7 < ulp_exp ?q" by simp
    from pow2_less [OF this] small show False by (simp add: pow2_def)
  qed
  define k where "k = nat (- ulp_exp ?q - 7)"
  have "ulp_exp ?q = - int (k + 7)" using e by (simp add: k_def)
  then have p: "pow2 (ulp_exp ?q) = 1 / (2 ^ k * 128)" by (simp add: pow2_def nat_add_distrib power_add)
  have "?q / pow2 (ulp_exp ?q) = of_int (m * 2 ^ k)" by (simp add: p)
  then have "round_even (?q / pow2 (ulp_exp ?q)) = m * 2 ^ k" by (simp only: round_even_of_int)
  then show ?thesis by (simp add: rounded_def p)
qed

lemma ceil_rounded:
  fixes r :: rat
  assumes "2 \<le> n" and "n \<le> 2 ^ 40" and "r \<le> of_int p / 100" and "of_int p / 100 - r \<le> 1 / 2 ^ 54" and "90 \<le> p" and "p < 100"
  shows "\<lceil>rounded (r * of_int n)\<rceil> = (p * n + 99) div 100"
proof -
  define k where "k = (p * n + 99) div 100"
  have pn: "180 \<le> p * n" using mult_mono [of 90 p 2 n] assms(1,5) by simp
  have k: "p * n \<le> 100 * k" "100 * (k - 1) + 1 \<le> p * n" unfolding k_def by presburger+
  have "p * n \<le> 100 * n" using assms(1,6) by (intro mult_right_mono) simp_all
  from order_trans [OF k(2) this] have "100 * k \<le> 100 * n + 99" by simp
  moreover have "180 \<le> 100 * k" using pn k(1) by (rule order_trans)
  ultimately have kn: "2 \<le> k" "k \<le> n" by linarith+
  have kr: "of_int p * of_int n \<le> (100 * of_int k :: rat)" "100 * (of_int k - 1) + 1 \<le> (of_int p * of_int n :: rat)"
    using k of_int_le_iff [of "p * n" "100 * k", where ?'a = rat] of_int_le_iff [of "100 * (k - 1) + 1" "p * n", where ?'a = rat] by simp_all
  have nr: "(2 :: rat) \<le> of_int n" "(of_int n :: rat) \<le> 2 ^ 40"
    using assms(1,2) of_int_le_iff [of n "2 ^ 40", where ?'a = rat] by simp_all
  have up: "r * of_int n \<le> of_int k"
  proof -
    have "r * of_int n \<le> of_int p / 100 * of_int n" using assms(3) nr(1) by (intro mult_right_mono) simp_all
    also have "\<dots> \<le> of_int k" using kr(1) by simp
    finally show ?thesis .
  qed
  have "(of_int p / 100 - r) * of_int n \<le> 1 / 2 ^ 54 * 2 ^ 40"
    using assms(3,4) nr by (intro mult_mono) simp_all
  then have "of_int p * of_int n / 100 - r * of_int n \<le> 1 / 2 ^ 14" by (simp add: algebra_simps)
  then have low: "of_int (128 * (k - 1) + 1) / 128 \<le> r * of_int n" using kr(2) by (simp add: field_simps)
  have "(of_int n :: rat) < 2 ^ 64" using nr(2) by (rule le_less_trans) simp
  have k64: "(of_int k :: rat) < 2 ^ 64" using kn(2) of_int_le_iff [of k n, where ?'a = rat] \<open>of_int n < 2 ^ 64\<close> by linarith
  have one: "1 \<le> (of_int (128 * (k - 1) + 1) / 128 :: rat)" using kn(1) of_int_le_iff [of 2 k, where ?'a = rat] by simp
  have "rounded (r * of_int n) \<le> rounded (of_int k)" using one low up k64 by (intro rounded_mono) linarith+
  moreover have "rounded (of_int k) = of_int k" using kn assms(2) by (intro rounded_exact) simp_all
  moreover have "rounded (of_int (128 * (k - 1) + 1) / 128) \<le> rounded (r * of_int n)"
    using one low up k64 by (intro rounded_mono) linarith+
  moreover have "rounded (of_int (128 * (k - 1) + 1) / 128) = of_int (128 * (k - 1) + 1) / (128 :: rat)"
    using one kn assms(2) by (intro rounded_128) simp_all
  ultimately have "rounded (r * of_int n) \<le> of_int k" "of_int k - 1 < rounded (r * of_int n)" by simp_all
  then have "\<lceil>rounded (r * of_int n)\<rceil> = k" by (simp add: ceiling_eq_iff)
  then show ?thesis by (simp add: k_def)
qed

lemma f_round_rounded: "1 \<le> q \<Longrightarrow> q \<le> 2 ^ 40 \<Longrightarrow> f_round s q = FFin (rounded q)"
proof -
  assume q: "1 \<le> q" "q \<le> 2 ^ 40"
  have "2 * q \<le> 2 ^ 41" using q(2) by simp
  also have "(2 :: rat) ^ 41 \<le> max_finite" by (simp add: max_finite_def)
  finally obtain r where "f_round s q = FFin r" "r > 0" using f_round_pos [OF q(1)] by blast
  then show ?thesis using q(1) by (auto simp: f_round_def f_round_mag_def Let_def rounded_def split: if_splits)
qed

text \<open>The index the code computes in floating point is the nearest rank.\<close>

lemma percentile_index_rank:
  assumes "p = 95 \<or> p = 99" and "1 \<le> n" and "n \<le> 2 ^ 40"
  shows "percentile_index n p = (p * int n + 99) div 100 - 1"
proof (cases "n = 1")
  case True
  then show ?thesis using assms(1) by (auto simp: percentile_index_def Let_def)
next
  case False
  have "\<exists>r. f_div (f_of_int p) (f_of_int 100) = FFin r \<and> r \<le> of_int p / 100 \<and> of_int p / 100 - r \<le> 1 / 2 ^ 54 \<and> 9 / 10 \<le> r"
    using assms(1)
  proof
    assume "p = 95"
    then show ?thesis by (intro exI [of _ "4278419646001971 / 4503599627370496"]) (simp add: f_95)
  next
    assume "p = 99"
    then show ?thesis by (intro exI [of _ "4458563631096791 / 4503599627370496"]) (simp add: f_99)
  qed
  then obtain r where r: "f_div (f_of_int p) (f_of_int 100) = FFin r" "r \<le> of_int p / 100" "of_int p / 100 - r \<le> 1 / 2 ^ 54" "9 / 10 \<le> r"
    by blast
  have n: "2 \<le> int n" "int n \<le> 2 ^ 40" using False assms(2,3) of_nat_le_iff [of n "2 ^ 40", where ?'a = int] by simp_all
  then have nr: "2 \<le> (of_int (int n) :: rat)" "(of_int (int n) :: rat) \<le> 2 ^ 40"
    using of_int_le_iff [of "int n" "2 ^ 40", where ?'a = rat] of_int_le_iff [of 2 "int n", where ?'a = rat] by simp_all
  have "r \<le> 1" using r(2) assms(1) by auto
  then have q: "1 \<le> r * of_int (int n)" "r * of_int (int n) \<le> 2 ^ 40"
    using mult_mono [of "9 / 10" r 2 "of_int (int n)"] mult_mono [of r 1 "of_int (int n)" "2 ^ 40"] r(4) nr by simp_all
  let ?k = "(p * int n + 99) div 100"
  have k: "?k - 1 < int n" "1 \<le> ?k" "?k \<le> max_int64" using assms(1) n by (auto simp: max_int64_def)
  have fn: "f_of_int (int n) = FFin (of_int (int n))" using n f_of_int_exact [of "int n"] by simp
  have "f_mul (FFin r) (FFin (of_int (int n))) = f_round False (r * of_int (int n))"
    using r(4) nr(1) by (simp add: f_mul_def Let_def)
  also have "\<dots> = FFin (rounded (r * of_int (int n)))" using q by (rule f_round_rounded)
  finally have m: "f_mul (FFin r) (FFin (of_int (int n))) = FFin (rounded (r * of_int (int n)))" .
  have "\<lceil>rounded (r * of_int (int n))\<rceil> = ?k" using ceil_rounded [OF n r(2,3)] assms(1) by auto
  then have "f_to_int64 (f_math_ceil (FFin (rounded (r * of_int (int n))))) = ?k"
    using k by (auto simp: f_math_ceil_def f_to_int64_def trunc_rat_def min_int64_def)
  then show ?thesis using k by (simp add: percentile_index_def Let_def r(1) fn m del: of_int_of_nat_eq)
qed

section \<open>What a result says\<close>

text \<open>The latencies of the calls sent in the measured time.\<close>

definition scenario_samples :: "Scenario \<Rightarrow> Clocks \<Rightarrow> duration list" where
  "scenario_samples sc0 ck =
     (case normalise sc0 of (sc, warmup, dur) \<Rightarrow>
      let a = cl_start ck + warmup in
      map (cl_latency ck) (filter (measured ck a (a + dur)) (map int [0..<nat (sc_Requests sc)])))"

definition nearest_rank :: "int \<Rightarrow> duration list \<Rightarrow> duration" where
  "nearest_rank p xs = sort xs ! (nat ((p * int (length xs) + 99) div 100) - 1)"

lemma sort_Nil_iff: "sort xs = [] \<longleftrightarrow> xs = []"
  by (metis length_0_conv length_sort)

lemma last_sort: "xs \<noteq> [] \<Longrightarrow> last (sort xs) = Max (set xs)" for xs :: "duration list"
proof (rule Max_eqI [symmetric])
  fix y assume "xs \<noteq> []" "y \<in> set xs"
  then obtain i where "i < length xs" "y = sort xs ! i" by (metis in_set_conv_nth length_sort set_sort)
  then show "y \<le> last (sort xs)" using \<open>xs \<noteq> []\<close> by (subst last_conv_nth) (auto simp: sort_Nil_iff intro: sorted_nth_mono)
next
  assume "xs \<noteq> []"
  then show "last (sort xs) \<in> set xs" by (metis last_in_set set_sort sort_Nil_iff)
qed simp

lemma percentile_nearest_rank:
  assumes "p = 95 \<or> p = 99" and "xs \<noteq> []" and "length xs \<le> 2 ^ 40"
  shows "percentile (sort xs) p = nearest_rank p xs"
proof -
  have n: "1 \<le> length xs" using assms(2) by (cases xs) simp_all
  have "percentile (sort xs) p = sort xs ! nat (percentile_index (length xs) p)"
    using assms(1,2) by (auto simp: percentile_def sort_Nil_iff)
  also have "nat (percentile_index (length xs) p) = nat ((p * int (length xs) + 99) div 100) - 1"
    by (simp add: percentile_index_rank [OF assms(1) n assms(3)] nat_diff_distrib')
  finally show ?thesis by (simp add: nearest_rank_def)
qed

lemma rank_bounds:
  assumes "p = 95 \<or> p = 99" and "1 \<le> (n :: nat)"
  shows "nat ((p * int n + 99) div 100) - 1 < n"
proof -
  have "(p * int n + 99) div 100 \<le> int n" using assms by auto
  then show ?thesis using assms(2) by linarith
qed

lemma ranks_ordered:
  assumes "xs \<noteq> []"
  shows "nearest_rank 95 xs \<le> nearest_rank 99 xs" and "nearest_rank 99 xs \<le> last (sort xs)"
proof -
  have n: "1 \<le> length xs" using assms by (cases xs) simp_all
  have "nat ((95 * int (length xs) + 99) div 100) - 1 \<le> nat ((99 * int (length xs) + 99) div 100) - 1"
    by (intro diff_le_mono nat_mono zdiv_mono1) simp_all
  then show "nearest_rank 95 xs \<le> nearest_rank 99 xs"
    using rank_bounds [of 99 "length xs"] n unfolding nearest_rank_def by (intro sorted_nth_mono) simp_all
  have "last (sort xs) = sort xs ! (length xs - 1)" using assms by (subst last_conv_nth) (metis length_0_conv length_sort, simp)
  then show "nearest_rank 99 xs \<le> last (sort xs)"
    using rank_bounds [of 99 "length xs"] n unfolding nearest_rank_def by (simp, intro sorted_nth_mono) simp_all
qed

lemma wrapped_sum:
  "0 \<le> a \<Longrightarrow> \<forall>x \<in> set xs. 0 \<le> x \<Longrightarrow> a + sum_list xs \<le> max_int64 \<Longrightarrow> foldl (\<lambda>a v. wrap64 (a + v)) a xs = a + sum_list xs"
proof (induction xs arbitrary: a)
  case (Cons x xs)
  have "0 \<le> sum_list xs" using Cons.prems(2) by (intro sum_list_nonneg) simp
  then have "wrap64 (a + x) = a + x" using Cons.prems by (intro wrap64_id) (simp_all add: min_int64_def)
  then show ?case using Cons by simp
qed simp

text \<open>
  C19: (runner.go) The figures of a scenario that ran to its end describe the calls sent in the measured time, whatever the target did and in whatever order the
  workers took the jobs: they are counted once, as failed, accepted or rejected; the percentiles, computed in floating point, are the nearest ranks
  of the latencies, in order, the largest is the maximum and the mean is their sum over their number.
\<close>

lemma measured_figures:
  assumes "is_order ord" and "runScenario ord ck None tg c r sc0 s = Some (Inr res, s')"
    and "scenario_samples sc0 ck = L" and "\<forall>n. 0 \<le> cl_latency ck n" and "sum_list L \<le> max_int64" and "length L \<le> 2 ^ 40"
  shows "mr_Requests res = int (length L) \<and> mr_Requests res = mr_Successes res + mr_Failures res \<and>
    mr_Successes res = mr_Accepted res + mr_Rejected res \<and>
    (L \<noteq> [] \<longrightarrow> mr_P95Latency res = nearest_rank 95 L \<and> mr_P99Latency res = nearest_rank 99 L \<and> mr_MaxLatency res = Max (set L) \<and>
       mr_P95Latency res \<le> mr_P99Latency res \<and> mr_P99Latency res \<le> mr_MaxLatency res \<and>
       mr_MeanLatency res = sum_list L div int (length L))"
proof -
  obtain sc w d where norm: "normalise sc0 = (sc, w, d)" by (cases "normalise sc0") auto
  define a where "a = cl_start ck + w"
  define jobs where "jobs = map int [0..<nat (sc_Requests sc)]"
  obtain h0 s1 where h0: "value_of (tg_Health tg s) = (h0, s1)" by fastforce
  obtain m0 s2 where m0: "value_of (tg_Metrics tg s1) = (m0, s2)" by fastforce
  obtain t s3 where t: "fold (run_job tg c r sc ck a (a + d)) (ord jobs) (no_calls, s2) = (t, s3)" by fastforce
  obtain h1 m1 where res: "res = summarise sc ck h0 h1 (metrics_of m0) (metrics_of m1) t"
    using assms(2) unfolding runScenario_def
    by (auto simp: norm h0 m0 t a_def [symmetric] jobs_def [symmetric] Let_def split: if_splits prod.splits)
  have "tally_ok no_calls" by (simp add: tally_ok_def no_calls_def)
  from run_jobs [OF this t] have ok: "tally_ok t" and "ty_samples t = map (cl_latency ck) (filter (measured ck a (a + d)) (ord jobs))"
    by (simp_all add: no_calls_def)
  then have "mset (ty_samples t) = mset (map (cl_latency ck) (filter (measured ck a (a + d)) jobs))"
    using is_order_mset [OF assms(1), of jobs] by (simp add: mset_map)
  also have "\<dots> = mset L" using assms(3) norm by (simp add: scenario_samples_def Let_def a_def jobs_def)
  finally have ms: "mset (ty_samples t) = mset L" .
  have sort: "sort (ty_samples t) = sort L" using ms by (rule sort_perm)
  have len: "length (ty_samples t) = length L" using ms by (rule mset_eq_length)
  have pos: "\<forall>x \<in> set L. 0 \<le> x" using assms(3,4) norm by (auto simp: scenario_samples_def Let_def)
  have "sum_list (sort L) = sum_list L" by (metis mset_sort sum_mset_sum_list)
  then have sum: "foldl (\<lambda>a v. wrap64 (a + v)) 0 (sort L) = sum_list L" using wrapped_sum [of 0 "sort L"] pos assms(5) by simp
  have counts: "mr_Requests res = int (length L)" "mr_Requests res = mr_Successes res + mr_Failures res"
    "mr_Successes res = mr_Accepted res + mr_Rejected res"
    using ok len by (simp_all add: res summarise_def Let_def tally_ok_def)
  show ?thesis
  proof (cases "L = []")
    case False
    then have "mr_P95Latency res = nearest_rank 95 L" "mr_P99Latency res = nearest_rank 99 L" "mr_MaxLatency res = Max (set L)"
      using percentile_nearest_rank [OF _ False assms(6)] by (simp_all add: res summarise_def Let_def sort sort_Nil_iff last_sort)
    moreover have "mr_MeanLatency res = sum_list L div int (length L)"
      using False pos by (simp add: res summarise_def Let_def sort sort_Nil_iff sum go_div_nonneg sum_list_nonneg)
    ultimately show ?thesis using counts ranks_ordered [OF False] False by (simp add: last_sort)
  qed (use counts in simp)
qed

section \<open>A run to look at\<close>

text \<open>A target that fails every third call, with latencies \<open>(7 n) mod 10\<close> milliseconds.\<close>

definition demo_target :: "nat Target" where
  "demo_target = \<lparr>
     tg_Submit = (\<lambda>req c r k. (if k mod 3 = 2 then Inl (TextErr ''no'')
        else Inr \<lparr> su_ID = ''b'', su_State = (if even k then ''forwarded'' else ''rejected''), su_ShardID = ''s'' \<rparr>, k + 1)),
     tg_Health = (\<lambda>k. (Inl (TextErr ''down''), k)),
     tg_Metrics = (\<lambda>k. (Inr zero_snapshot, k)) \<rparr>"

definition demo_scenario :: Scenario where
  "demo_scenario = \<lparr> sc_Name = ''steady'', sc_Mode = ''steady'', sc_Duration = 100, sc_Warmup = 0, sc_Cooldown = 0, sc_Concurrency = 1,
     sc_RatePerSecond = 0, sc_Requests = 6, sc_TxCount = 1, sc_TxBytes = 8, sc_DuplicateEvery = 0, sc_ClientID = [], sc_RegionID = [],
     sc_ShardID = [], sc_Authorization = [], sc_CompareBaseline = [] \<rparr>"

definition demo_clocks :: Clocks where
  "demo_clocks = \<lparr> cl_min = (\<lambda>n. 0), cl_max = (\<lambda>n. 0), cl_sent = (\<lambda>n. 1000 + 25 * n), cl_latency = (\<lambda>n. (7 * n) mod 10), cl_start = 1000, cl_finish = 1200 \<rparr>"

lemma demo_norm: "normalise demo_scenario = (demo_scenario, 0, 100)"
  by (simp add: normalise_def demo_scenario_def maxDuration_def Let_def)

lemma demo_samples: "scenario_samples demo_scenario demo_clocks = [0, 7, 4, 1, 8]"
  by (simp add: scenario_samples_def demo_norm) (simp add: demo_scenario_def demo_clocks_def measured_def Let_def upt_rec)

lemma demo_fold: "snd (fold (run_job demo_target c r sc ck a e) jobs (t, k)) = k + length jobs"
proof (induction jobs arbitrary: t k)
  case (Cons n jobs)
  obtain t1 where "run_job demo_target c r sc ck a e n (t, k) = (t1, k + 1)" by (simp add: run_job_def demo_target_def)
  then show ?case using Cons.IH [of t1 "k + 1"] by simp
qed simp

lemma demo_run: "\<exists>res. runScenario rev demo_clocks None demo_target [] [] demo_scenario 0 = Some (Inr res, 6)"
proof -
  let ?jobs = "rev (map int [0..<nat (sc_Requests demo_scenario)])"
  obtain t s3 where t: "fold (run_job demo_target [] [] demo_scenario demo_clocks 1000 1100) ?jobs (no_calls, 0) = (t, s3)" by fastforce
  have "s3 = 6" using demo_fold [of "[]" "[]" demo_scenario demo_clocks 1000 1100 ?jobs no_calls 0] t by (simp add: demo_scenario_def)
  moreover have "value_of (tg_Health demo_target k) = (None, k)" "value_of (tg_Metrics demo_target k) = (Some zero_snapshot, k)" for k
    by (simp_all add: demo_target_def value_of_def)
  moreover have "cl_start demo_clocks = 1000" "0 \<le> sc_Requests demo_scenario" by (simp_all add: demo_clocks_def demo_scenario_def)
  ultimately show ?thesis using t by (simp add: runScenario_def demo_norm Let_def)
qed

lemma measured_figures_witness:
  "\<exists>res. runScenario rev demo_clocks None demo_target [] [] demo_scenario 0 = Some (Inr res, 6) \<and>
     mr_Requests res = 5 \<and> mr_MeanLatency res = 4 \<and> mr_P95Latency res = 8 \<and> mr_MaxLatency res = 8"
proof -
  obtain res where run: "runScenario rev demo_clocks None demo_target [] [] demo_scenario 0 = Some (Inr res, 6)" using demo_run by blast
  have "\<forall>n. 0 \<le> cl_latency demo_clocks n" by (simp add: demo_clocks_def)
  from measured_figures [OF is_order_rev run demo_samples this]
  have "mr_Requests res = 5" "mr_MeanLatency res = 4" "mr_MaxLatency res = 8" "mr_P95Latency res = nearest_rank 95 [0, 7, 4, 1, 8]"
    by (simp_all add: max_int64_def)
  then show ?thesis using run by (auto simp: nearest_rank_def)
qed

section \<open>Reading metrics over HTTP\<close>

text \<open>What \<^verbatim>\<open>handleMetrics\<close> of the relay answers, read by the harness: the snapshot of the running service without the names of its states.\<close>

lemma http_metrics_of_relay:
  assumes "float_text_ok fmt (ha_ParseFloat api)" and "ha_BadURL api (target_url t ''/metrics'') = None"
    and "ha_Do api \<lparr> ht_Method = ''GET'', ht_URL = target_url t ''/metrics'', ht_Header = [], ht_Body = [] \<rparr> w = (Inr resp, w')"
    and "re_Body resp = RenderPrometheus fmt m" and "re_ReadErr resp = None" and "length (re_Body resp) \<le> 2 ^ 20"
    and "list_all (\<lambda>c. unat c < 2 ^ 53) (counters (mt_Snapshot m))"
  shows "http_Metrics api t w = (Inr ((mt_Snapshot m)\<lparr> sn_HealthState := [], sn_RecoveryState := [], sn_RolloutState := [] \<rparr>), w')"
  using assms parse_render_snapshot [OF assms(1,7)] by (simp add: http_Metrics_def http_get_def Let_def)

text \<open>Text of numbers, for trying it: integers in decimal, other numbers as \<open>enc_float\<close> writes them.\<close>

definition ref_pf :: "string \<Rightarrow> f64 option" where
  "ref_pf s = (case digits_value 10 0 s of Some n \<Rightarrow> Some (f_of_int (int n)) | None \<Rightarrow> Some (dec_float s))"

lemma enc_int_chars: "c \<in> set (enc_int i) \<Longrightarrow> plain_char c"
proof -
  assume "c \<in> set (enc_int i)"
  then consider "c \<in> set (show_int 10 i)" | "c = CHR ''1''" | "c = CHR ''0''" by (auto simp: enc_int_def enc_def)
  then show ?thesis
  proof cases
    case 1
    then have "c = CHR ''-'' \<or> is_hex_char c" using show_nat_hex [of 10 c] by (auto simp: show_int_def split: if_splits)
    then show ?thesis using is_hex_plain by (auto simp: plain_char_def)
  qed (simp_all add: plain_char_def)
qed

lemma enc_float_text: "enc_float x \<noteq> []" "list_all plain_char (enc_float x)" "digits_value 10 0 (enc_float x) = None"
proof -
  show "enc_float x \<noteq> []" by (cases x) (simp_all add: enc_float_def)
  show "list_all plain_char (enc_float x)"
  proof (cases x)
    case (FFin q)
    have "list_all plain_char (enc_int i)" for i using enc_int_chars by (simp add: list_all_iff)
    then show ?thesis using FFin by (simp add: enc_float_def) (simp add: plain_char_def)
  qed (simp_all add: enc_float_def plain_char_def)
  show "digits_value 10 0 (enc_float x) = None" by (cases x) (simp_all add: enc_float_def digit_val_def Let_def)
qed

lemma ref_float_text_ok: "float_text_ok enc_float ref_pf"
  using enc_float_text by (simp add: float_text_ok_def ref_pf_def digits_value_show_nat)

text \<open>
  (target.go, metrics.go) The metrics a relay writes for scraping are read back by the harness as the snapshot they came from, but for the
  names of the states, as long as the counters are below \<open>2\<^sup>5\<^sup>3\<close>.
\<close>

lemma metrics_survive_scrape:
  assumes "float_text_ok fmt pf" and "list_all (\<lambda>c. unat c < 2 ^ 53) (counters (mt_Snapshot m))"
  shows "parsePrometheusMetrics pf (RenderPrometheus fmt m) =
    (mt_Snapshot m)\<lparr> sn_HealthState := [], sn_RecoveryState := [], sn_RolloutState := [] \<rparr>"
  using assms by (rule parse_render_snapshot)

lemma metrics_survive_scrape_witness:
  "sn_Submitted (parsePrometheusMetrics ref_pf (RenderPrometheus enc_float (IncSubmitted New_Metrics))) = 1"
proof -
  have "list_all (\<lambda>c. unat c < 2 ^ 53) (counters (mt_Snapshot (IncSubmitted New_Metrics)))"
    by (simp add: counters_def mt_Snapshot_def IncSubmitted_def New_Metrics_def)
  from metrics_survive_scrape [OF ref_float_text_ok this] show ?thesis
    by (simp add: mt_Snapshot_def IncSubmitted_def New_Metrics_def)
qed

section \<open>The load\<close>

lemma tx_fill_length: "seed \<noteq> [] \<Longrightarrow> length (tx_fill n seed rest) = n"
  by (induction n seed rest rule: tx_fill.induct) (auto split: list.splits)

lemma makeTxHex_length: "length (makeTxHex b name k i) = 2 + nat (if b \<le> 0 then 64 else b)"
  by (simp add: makeTxHex_def Let_def tx_fill_length)

text \<open>Every request of a scenario passes the relay's validation and has as many transactions as asked for.\<close>

lemma built_requests_are_valid:
  assumes "normalise sc0 = (sc, w, d)"
  shows "validateBundleRequest (buildBundleRequest t1 t2 sc n) = None"
    and "length (bq_Txs (hd (jr_Params (buildBundleRequest t1 t2 sc n)))) = nat (sc_TxCount sc)"
  using normalise_positive(1) [OF assms] by (auto simp: buildBundleRequest_def validateBundleRequest_def Let_def)

text \<open>
  The requests meant as duplicates have the transactions of the request before, but the identifier of a bundle ends in the
  request's number, so no two requests of a scenario name the same bundle, even with the same content.
\<close>

lemma duplicates_have_own_ids:
  assumes "i \<noteq> j"
  shows "Relay_Control.bundleID hash (jr_ID (buildBundleRequest t1 t2 sc i)) \<noteq> Relay_Control.bundleID hash (jr_ID (buildBundleRequest u1 u2 sc j))"
proof -
  have "show_int 10 (i + 1) \<noteq> show_int 10 (j + 1)" using assms SetString_show_int [of 10 "i + 1"] SetString_show_int [of 10 "j + 1"] by auto
  then show ?thesis by (simp add: Relay_Control.bundleID_def buildBundleRequest_def Let_def)
qed

section \<open>Faults\<close>

text \<open>
  Counting in a copy, every call is the first: a plan that asks for an error every \<open>k > 1\<close> calls injects none, and one with \<open>k = 1\<close> fails every call.
\<close>

lemma fault_call_first:
  "fault_call 0 every msg delay None call s = (if every = 1 then (Inl (TextErr msg), s) else call s)"
proof -
  have "go_rem 1 every = 0 \<longleftrightarrow> every = 1" if "every > 0"
  proof (cases "every = 1")
    case False
    then have "1 div every = 0" using that by simp
    then show ?thesis using that False by (simp add: go_rem_def go_div_def)
  qed (simp add: go_rem_def go_div_def)
  then show ?thesis by (auto simp: fault_call_def Let_def)
qed

lemma faults_are_never_injected:
  assumes "fp_SubmitErrorEvery plan \<noteq> 1" and "fp_HealthErrorEvery plan \<noteq> 1" and "fp_MetricsErrorEvery plan \<noteq> 1"
  shows "FaultTarget plan \<lparr> fc_submit = 0, fc_health = 0, fc_metrics = 0 \<rparr> None tg =
    \<lparr> tg_Submit = tg_Submit tg, tg_Health = tg_Health tg, tg_Metrics = tg_Metrics tg \<rparr>"
  using assms by (simp add: FaultTarget_def fault_call_first fun_eq_iff)

text \<open>A comparison fails exactly when it has a reason, and never against a baseline without a name.\<close>

lemma Compare_unnamed: "ba_Name b = [] \<Longrightarrow> Compare r b = (True, [])"
  by (simp add: Compare_def)

lemma Compare_self:
  assumes "ba_Result b = r" and "0 \<le> mr_P99Latency r" and "5 * mr_P99Latency r \<le> 4 * max_int64" and "2 * mr_Rejected r \<le> max_int64"
  shows "Compare r b = (True, [])"
proof -
  have "wrap64 (mr_P99Latency r + go_div (mr_P99Latency r) 5) = mr_P99Latency r + mr_P99Latency r div 5"
    using assms(2,3) by (simp add: go_div_nonneg, intro wrap64_id) (simp_all add: min_int64_def max_int64_def)
  moreover have "mr_Rejected r > 0 \<Longrightarrow> wrap64 (mr_Rejected r * 2) = mr_Rejected r * 2"
    using assms(4) by (intro wrap64_id) (simp_all add: min_int64_def)
  ultimately show ?thesis using assms(1,2) by (auto simp: Compare_def Let_def)
qed

end
