(* ===== verification/Relay_Runtime.thy ===== *)
theory Relay_Runtime
  imports Relay_Config
begin

text \<open>
  \<^verbatim>\<open>app/runtime.go\<close>: which implementations a configuration selects, in which order they are opened, and what is closed
  again when one of them cannot be. The constructors that can fail are the parameter \<open>Constructors\<close>, by their arguments.
\<close>

section \<open>Building\<close>

datatype resource = RWAL | RBackend | RState | RBroker | RCheckpoints

datatype rt_event = Opened resource | ClosedAgain resource

datatype state_kind = StateValkey | StateMemory
datatype broker_kind = BrokerNATS | BrokerMemory
datatype checkpoint_kind = CheckpointMinio | CheckpointMemory

record Constructors =
  ct_openWAL :: "string \<Rightarrow> int \<Rightarrow> int \<Rightarrow> string option"
  ct_newValkey :: "string \<Rightarrow> duration \<Rightarrow> int \<Rightarrow> string \<Rightarrow> string option"
  ct_newNATS :: "string \<Rightarrow> string option"
  ct_newMinio :: "string \<Rightarrow> string \<Rightarrow> string \<Rightarrow> string \<Rightarrow> bool \<Rightarrow> string \<Rightarrow> string option"

record Runtime =
  rt_State :: state_kind
  rt_Broker :: broker_kind
  rt_CP :: checkpoint_kind

definition state_of_config :: "RelayConfig \<Rightarrow> state_kind" where
  "state_of_config cfg = (if ToLower (rc_StateKind cfg) = ''valkey'' then StateValkey else StateMemory)"

definition broker_of_config :: "RelayConfig \<Rightarrow> broker_kind" where
  "broker_of_config cfg = (if ToLower (rc_BrokerKind cfg) = ''nats'' then BrokerNATS else BrokerMemory)"

definition checkpoint_of_config :: "RelayConfig \<Rightarrow> checkpoint_kind" where
  "checkpoint_of_config cfg = (if ToLower (rc_CheckpointKind cfg) = ''minio'' then CheckpointMinio else CheckpointMemory)"

definition new_state :: "Constructors \<Rightarrow> RelayConfig \<Rightarrow> string option" where
  "new_state ct cfg = (case state_of_config cfg of
       StateValkey \<Rightarrow> ct_newValkey ct (rc_ValkeyURL cfg) (rc_StateRetention cfg) (rc_HistoryLimit cfg) (rc_ShardID cfg)
     | StateMemory \<Rightarrow> None)"

definition new_broker :: "Constructors \<Rightarrow> RelayConfig \<Rightarrow> string option" where
  "new_broker ct cfg = (case broker_of_config cfg of BrokerNATS \<Rightarrow> ct_newNATS ct (rc_BrokerURL cfg) | BrokerMemory \<Rightarrow> None)"

definition new_checkpoints :: "Constructors \<Rightarrow> RelayConfig \<Rightarrow> string option" where
  "new_checkpoints ct cfg = (case checkpoint_of_config cfg of
       CheckpointMinio \<Rightarrow> ct_newMinio ct (rc_CheckpointEndpoint cfg) (rc_CheckpointAccessKey cfg) (rc_CheckpointSecretKey cfg)
         (rc_CheckpointBucket cfg) (rc_CheckpointUseSSL cfg) ''checkpoints''
     | CheckpointMemory \<Rightarrow> None)"

text \<open>\<^verbatim>\<open>Build\<close>, with what it opened and closed in order.\<close>

definition Build :: "Constructors \<Rightarrow> RelayConfig \<Rightarrow> (string + Runtime) \<times> rt_event list" where
  "Build ct cfg =
     (case ct_openWAL ct (rc_DataDir cfg @ ''/wal.jsonl'') (rc_AuditFlushEvery cfg) (rc_WALMaxEntries cfg) of
        Some e \<Rightarrow> (Inl e, [])
      | None \<Rightarrow>
          let tr = [Opened RWAL, Opened RBackend] in
          case new_state ct cfg of
            Some e \<Rightarrow> (Inl e, tr @ [ClosedAgain RWAL, ClosedAgain RBackend])
          | None \<Rightarrow>
              let tr = tr @ [Opened RState] in
              case new_broker ct cfg of
                Some e \<Rightarrow> (Inl e, tr @ [ClosedAgain RWAL, ClosedAgain RBackend, ClosedAgain RState])
              | None \<Rightarrow>
                  let tr = tr @ [Opened RBroker] in
                  case new_checkpoints ct cfg of
                    Some e \<Rightarrow> (Inl e, tr @ [ClosedAgain RWAL, ClosedAgain RBackend, ClosedAgain RState, ClosedAgain RBroker])
                  | None \<Rightarrow>
                      (Inr \<lparr> rt_State = state_of_config cfg, rt_Broker = broker_of_config cfg, rt_CP = checkpoint_of_config cfg \<rparr>,
                       tr @ [Opened RCheckpoints]))"

text \<open>The function \<^verbatim>\<open>Close\<close> of the runtime: it goes on when a part reports an error.\<close>

definition runtime_Close :: "rt_event list" where
  "runtime_Close = [ClosedAgain RCheckpoints, ClosedAgain RBroker, ClosedAgain RState, ClosedAgain RBackend, ClosedAgain RWAL]"

section \<open>Nothing is left open\<close>

fun opened :: "rt_event list \<Rightarrow> resource list" where
  "opened [] = []"
| "opened (Opened r # tr) = r # opened tr"
| "opened (ClosedAgain r # tr) = opened tr"

fun closed_again :: "rt_event list \<Rightarrow> resource list" where
  "closed_again [] = []"
| "closed_again (Opened r # tr) = closed_again tr"
| "closed_again (ClosedAgain r # tr) = r # closed_again tr"

text \<open>
  A build that fails has closed exactly what it had opened, each part once; one that succeeds has the five parts open, and closing the runtime closes
  each of them once, the parts opened last first.
\<close>

lemma build_leaves_nothing_open:
  "case Build ct cfg of
     (Inl e, tr) \<Rightarrow> mset (closed_again tr) = mset (opened tr) \<and> distinct (opened tr)
   | (Inr rt, tr) \<Rightarrow> closed_again tr = [] \<and> closed_again runtime_Close = rev (opened tr) \<and> opened tr = [RWAL, RBackend, RState, RBroker, RCheckpoints]"
  by (auto simp: Build_def Let_def runtime_Close_def split: option.splits)

text \<open>With in-memory parts only the event log can keep the relay from starting.\<close>

lemma memory_runtime_starts:
  assumes "ToLower (rc_StateKind cfg) \<noteq> ''valkey''" and "ToLower (rc_BrokerKind cfg) \<noteq> ''nats''" and "ToLower (rc_CheckpointKind cfg) \<noteq> ''minio''"
    and "ct_openWAL ct (rc_DataDir cfg @ ''/wal.jsonl'') (rc_AuditFlushEvery cfg) (rc_WALMaxEntries cfg) = None"
  shows "fst (Build ct cfg) = Inr \<lparr> rt_State = StateMemory, rt_Broker = BrokerMemory, rt_CP = CheckpointMemory \<rparr>"
  using assms by (simp add: Build_def new_state_def new_broker_def new_checkpoints_def state_of_config_def broker_of_config_def
    checkpoint_of_config_def Let_def)

end
