(* ===== verification/Relay1_Store.thy ===== *)
theory Relay1_Store
  imports Relay_Wal Relay_Valkey_Server
begin

text \<open>
  The first durable version of the relay, \<^verbatim>\<open>mev/relay/v1/internal\<close>: its records (\<^verbatim>\<open>model/model.go\<close>; requests and states
  are declared as in v3 and shared with \<open>Relay_Model\<close>), its life cycle (\<^verbatim>\<open>lifecycle/state.go\<close>) and its file-backed store
  (\<^verbatim>\<open>store/file_store.go\<close>).

  The store's directory is three files: the snapshot, the temporary file it is written to, and the audit log.
  The outcome of the \<open>n\<close>-th file operation is \<open>io n\<close>, as in \<open>Relay_Wal\<close>. The JSON encoders are the
  parameter \<open>Codec1\<close>; \<open>codec1_ok\<close> is what is documented of them: a value with valid UTF-8 text that could be encoded
  decodes to itself, and what the decoder returns is valid UTF-8.
\<close>

section \<open>Records\<close>

record BundleRecord1 =
  b1_ID :: string
  b1_BundleHash :: string
  b1_Request :: BundleRequest
  b1_ClientID :: string
  b1_State :: BundleState
  b1_RetryCount :: int
  b1_Score :: f64
  b1_ProfitEth :: f64
  b1_Reason :: string
  b1_Terminal :: string
  b1_Version :: int
  b1_CreatedAt :: gtime
  b1_UpdatedAt :: gtime
  b1_QueuedAt :: gtime
  b1_SimulatedAt :: gtime
  b1_CompletedAt :: gtime

text \<open>The origin of an event is left out when there is none.\<close>

record EventRecord1 =
  e1_Time :: gtime
  e1_BundleID :: string
  e1_From :: "BundleState option"
  e1_To :: BundleState
  e1_Reason :: string
  e1_Version :: int
  e1_ClientID :: string

section \<open>Life cycle\<close>

definition IsTerminal1 :: "BundleState \<Rightarrow> bool" where
  "IsTerminal1 s = (s \<in> {StateForwarded, StateRejected, StateDeadLetter, StateCompleted})"

fun allowedTransitions1 :: "BundleState \<Rightarrow> BundleState list" where
  "allowedTransitions1 StateReceived = [StateValidated, StateRejected]"
| "allowedTransitions1 StateValidated = [StateQueued, StateRejected]"
| "allowedTransitions1 StateQueued = [StateSimulating, StateRejected]"
| "allowedTransitions1 StateSimulating = [StateSimulated, StateRetryPending, StateRejected, StateDeadLetter]"
| "allowedTransitions1 StateSimulated = [StateScored, StateRejected]"
| "allowedTransitions1 StateScored = [StateForwarded, StateRejected]"
| "allowedTransitions1 StateRetryPending = [StateQueued, StateDeadLetter]"
| "allowedTransitions1 StateForwarded = [StatePersisted]"
| "allowedTransitions1 StateRejected = [StatePersisted]"
| "allowedTransitions1 StateDeadLetter = [StatePersisted]"
| "allowedTransitions1 StatePersisted = [StateCompleted]"
| "allowedTransitions1 StateCompleted = []"

definition CanTransition1 :: "BundleState \<Rightarrow> BundleState \<Rightarrow> bool" where
  "CanTransition1 src dst = (if src = dst then False else dst \<in> set (allowedTransitions1 src))"

definition ValidateTransition1 :: "BundleState \<Rightarrow> BundleState \<Rightarrow> string option" where
  "ValidateTransition1 src dst =
     (if \<not> CanTransition1 src dst
      then Some (''illegal transition '' @ state_string src @ '' -> '' @ state_string dst)
      else None)"

text \<open>The next version's life cycle adds the ways to the dead letters that this one lacks, and nothing else.\<close>

lemma lifecycle1_vs_v3:
  "CanTransition src dst \<longleftrightarrow> CanTransition1 src dst \<or>
     (dst = StateDeadLetter \<and> src \<in> {StateReceived, StateValidated, StateQueued, StateSimulated, StateScored})"
  by (cases src; cases dst) (simp_all add: CanTransition_def CanTransition1_def)

section \<open>Files\<close>

record Codec1 =
  cd_snapshot :: "(string, BundleRecord1) gomap \<Rightarrow> string + string"
  cd_unsnapshot :: "string \<Rightarrow> string + (string, BundleRecord1) gomap option"
  cd_event :: "EventRecord1 \<Rightarrow> string + string"

record Disk1 =
  dk_snap :: "string option"
  dk_tmp :: "string option"
  dk_audit :: "string option"
  dk_io :: nat

record FileStore1 =
  fs_root :: string
  fs_records :: "(string, BundleRecord1) gomap"
  fs_disk :: Disk1

text \<open>One call of the operating system: \<open>None\<close> when it succeeds, else an error and how many bytes a write wrote.\<close>

definition os_call :: "io_oracle \<Rightarrow> Disk1 \<Rightarrow> (nat \<times> string) option \<times> Disk1" where
  "os_call io d = (io (dk_io d), d\<lparr> dk_io := dk_io d + 1 \<rparr>)"

text \<open>\<^verbatim>\<open>os.WriteFile\<close> of the temporary file: it is truncated when it opens, then written.\<close>

definition write_tmp :: "io_oracle \<Rightarrow> string \<Rightarrow> Disk1 \<Rightarrow> string option \<times> Disk1" where
  "write_tmp io data d = (case os_call io d of
       (Some (_, e), d1) \<Rightarrow> (Some e, d1)
     | (None, d1) \<Rightarrow> (case os_call io d1 of
         (Some (n, e), d2) \<Rightarrow> (Some e, d2\<lparr> dk_tmp := Some (take n data) \<rparr>)
       | (None, d2) \<Rightarrow> (None, d2\<lparr> dk_tmp := Some data \<rparr>)))"

definition rename_tmp :: "io_oracle \<Rightarrow> Disk1 \<Rightarrow> string option \<times> Disk1" where
  "rename_tmp io d = (case os_call io d of
       (Some (_, e), d1) \<Rightarrow> (Some e, d1)
     | (None, d1) \<Rightarrow> (None, d1\<lparr> dk_snap := dk_tmp d1, dk_tmp := None \<rparr>))"

text \<open>\<^verbatim>\<open>os.OpenFile\<close> of the audit log with \<^verbatim>\<open>O_CREATE|O_APPEND\<close>.\<close>

definition open_audit :: "io_oracle \<Rightarrow> Disk1 \<Rightarrow> string option \<times> Disk1" where
  "open_audit io d = (case os_call io d of
       (Some (_, e), d1) \<Rightarrow> (Some e, d1)
     | (None, d1) \<Rightarrow> (None, d1\<lparr> dk_audit := Some (case dk_audit d1 of None \<Rightarrow> [] | Some a \<Rightarrow> a) \<rparr>))"

definition write_audit :: "io_oracle \<Rightarrow> string \<Rightarrow> Disk1 \<Rightarrow> string option \<times> Disk1" where
  "write_audit io data d =
     (let old = (case dk_audit d of None \<Rightarrow> [] | Some a \<Rightarrow> a) in
      case os_call io d of
        (Some (n, e), d1) \<Rightarrow> (Some e, d1\<lparr> dk_audit := Some (old @ take n data) \<rparr>)
      | (None, d1) \<Rightarrow> (None, d1\<lparr> dk_audit := Some (old @ data) \<rparr>))"

section \<open>The store\<close>

definition persistLocked :: "io_oracle \<Rightarrow> Codec1 \<Rightarrow> FileStore1 \<Rightarrow> string option \<times> FileStore1" where
  "persistLocked io cd fs = (case cd_snapshot cd (fs_records fs) of
       Inl e \<Rightarrow> (Some e, fs)
     | Inr data \<Rightarrow> (case write_tmp io data (fs_disk fs) of
         (Some e, d) \<Rightarrow> (Some e, fs\<lparr> fs_disk := d \<rparr>)
       | (None, d) \<Rightarrow> (let (err, d) = rename_tmp io d in (err, fs\<lparr> fs_disk := d \<rparr>))))"

definition appendEvent1 :: "io_oracle \<Rightarrow> Codec1 \<Rightarrow> EventRecord1 \<Rightarrow> FileStore1 \<Rightarrow> string option \<times> FileStore1" where
  "appendEvent1 io cd ev fs = (case cd_event cd ev of
       Inl e \<Rightarrow> (Some e, fs)
     | Inr data \<Rightarrow> (case open_audit io (fs_disk fs) of
         (Some e, d) \<Rightarrow> (Some e, fs\<lparr> fs_disk := d \<rparr>)
       | (None, d) \<Rightarrow> (let (err, d) = write_audit io (data @ [CHR 0x0A]) d;
                          (_, d) = os_call io d
                      in (err, fs\<lparr> fs_disk := d \<rparr>))))"

text \<open>How every update ends: the record goes to memory, then to the snapshot, then its event to the log.\<close>

definition commit1 ::
  "io_oracle \<Rightarrow> Codec1 \<Rightarrow> string \<Rightarrow> BundleRecord1 \<Rightarrow> EventRecord1 \<Rightarrow> FileStore1 \<Rightarrow> (string + BundleRecord1) \<times> FileStore1" where
  "commit1 io cd k rec ev fs = (case persistLocked io cd (fs\<lparr> fs_records := gm_set (fs_records fs) k rec \<rparr>) of
       (Some e, fs) \<Rightarrow> (Inl e, fs)
     | (None, fs) \<Rightarrow> (case appendEvent1 io cd ev fs of
         (Some e, fs) \<Rightarrow> (Inl e, fs)
       | (None, fs) \<Rightarrow> (Inr rec, fs)))"

definition store1_Create :: "io_oracle \<Rightarrow> Codec1 \<Rightarrow> gtime \<Rightarrow> BundleRecord1 \<Rightarrow> FileStore1 \<Rightarrow> (string + BundleRecord1) \<times> FileStore1" where
  "store1_Create io cd now rec fs =
     (if gm_get (fs_records fs) (b1_ID rec) \<noteq> None then (Inl ''bundle already exists'', fs)
      else let rec = rec\<lparr> b1_CreatedAt := now, b1_UpdatedAt := now, b1_Version := 1 \<rparr> in
        commit1 io cd (b1_ID rec) rec
          \<lparr> e1_Time = now, e1_BundleID = b1_ID rec, e1_From = None, e1_To = b1_State rec, e1_Reason = [],
            e1_Version = b1_Version rec, e1_ClientID = b1_ClientID rec \<rparr> fs)"

definition store1_Get :: "string \<Rightarrow> FileStore1 \<Rightarrow> BundleRecord1 option" where
  "store1_Get k fs = gm_get (fs_records fs) k"

definition stamp1 :: "BundleState \<Rightarrow> BundleRecord1 \<Rightarrow> BundleRecord1" where
  "stamp1 dst rec = (case dst of
       StateQueued \<Rightarrow> rec\<lparr> b1_QueuedAt := b1_UpdatedAt rec \<rparr>
     | StateSimulated \<Rightarrow> rec\<lparr> b1_SimulatedAt := b1_UpdatedAt rec \<rparr>
     | StateCompleted \<Rightarrow> rec\<lparr> b1_CompletedAt := b1_UpdatedAt rec \<rparr>
     | _ \<Rightarrow> rec)"

definition store1_Transition ::
  "io_oracle \<Rightarrow> Codec1 \<Rightarrow> gtime \<Rightarrow> string \<Rightarrow> BundleState \<Rightarrow> BundleState \<Rightarrow> string \<Rightarrow> FileStore1 \<Rightarrow>
   (string + BundleRecord1) \<times> FileStore1" where
  "store1_Transition io cd now k src dst reason fs = (case gm_get (fs_records fs) k of
       None \<Rightarrow> (Inl ''bundle not found'', fs)
     | Some rec \<Rightarrow>
         if b1_State rec \<noteq> src
         then (Inl (''state mismatch: have '' @ state_string (b1_State rec) @ '' want '' @ state_string src), fs)
         else (case ValidateTransition1 src dst of
             Some e \<Rightarrow> (Inl e, fs)
           | None \<Rightarrow> (let rec = stamp1 dst (rec\<lparr> b1_State := dst, b1_Reason := reason, b1_Version := b1_Version rec + 1,
                          b1_UpdatedAt := now \<rparr>) in
               commit1 io cd k rec
                 \<lparr> e1_Time = b1_UpdatedAt rec, e1_BundleID = b1_ID rec, e1_From = Some src, e1_To = dst, e1_Reason = reason,
                   e1_Version = b1_Version rec, e1_ClientID = b1_ClientID rec \<rparr> fs)))"

definition store1_UpdateRetryCount ::
  "io_oracle \<Rightarrow> Codec1 \<Rightarrow> gtime \<Rightarrow> string \<Rightarrow> int \<Rightarrow> FileStore1 \<Rightarrow> (string + BundleRecord1) \<times> FileStore1" where
  "store1_UpdateRetryCount io cd now k retryCount fs = (case gm_get (fs_records fs) k of
       None \<Rightarrow> (Inl ''bundle not found'', fs)
     | Some rec \<Rightarrow>
         (let rec = rec\<lparr> b1_RetryCount := retryCount, b1_Version := b1_Version rec + 1, b1_UpdatedAt := now \<rparr> in
          commit1 io cd k rec
            \<lparr> e1_Time = b1_UpdatedAt rec, e1_BundleID = b1_ID rec, e1_From = None, e1_To = b1_State rec,
              e1_Reason = ''retry count '' @ show_int 10 retryCount, e1_Version = b1_Version rec,
              e1_ClientID = b1_ClientID rec \<rparr> fs))"

definition store1_UpdateResult ::
  "io_oracle \<Rightarrow> Codec1 \<Rightarrow> gtime \<Rightarrow> string \<Rightarrow> f64 \<Rightarrow> f64 \<Rightarrow> string \<Rightarrow> FileStore1 \<Rightarrow> (string + BundleRecord1) \<times> FileStore1" where
  "store1_UpdateResult io cd now k score profit reason fs = (case gm_get (fs_records fs) k of
       None \<Rightarrow> (Inl ''bundle not found'', fs)
     | Some rec \<Rightarrow>
         (let rec = rec\<lparr> b1_Score := score, b1_ProfitEth := profit, b1_Reason := reason, b1_Version := b1_Version rec + 1,
            b1_UpdatedAt := now \<rparr> in
          commit1 io cd k rec
            \<lparr> e1_Time = b1_UpdatedAt rec, e1_BundleID = b1_ID rec, e1_From = Some (b1_State rec), e1_To = b1_State rec,
              e1_Reason = ''result updated'', e1_Version = b1_Version rec, e1_ClientID = b1_ClientID rec \<rparr> fs))"

definition store1_List :: "((string \<times> BundleRecord1) list \<Rightarrow> (string \<times> BundleRecord1) list) \<Rightarrow> FileStore1 \<Rightarrow> BundleRecord1 list" where
  "store1_List ord fs = map snd (ord (fs_records fs))"

text \<open>\<^verbatim>\<open>Health\<close> opens and closes the log; the error of the close is returned.\<close>

definition store1_Health :: "io_oracle \<Rightarrow> FileStore1 \<Rightarrow> string option \<times> FileStore1" where
  "store1_Health io fs = (case open_audit io (fs_disk fs) of
       (Some e, d) \<Rightarrow> (Some e, fs\<lparr> fs_disk := d \<rparr>)
     | (None, d) \<Rightarrow> (let (r, d) = os_call io d in (map_option snd r, fs\<lparr> fs_disk := d \<rparr>)))"

definition store1_load :: "io_oracle \<Rightarrow> Codec1 \<Rightarrow> FileStore1 \<Rightarrow> string option \<times> FileStore1" where
  "store1_load io cd fs =
     (let (r, d) = os_call io (fs_disk fs); fs = fs\<lparr> fs_disk := d \<rparr> in
      case r of
        Some (_, e) \<Rightarrow> (Some e, fs)
      | None \<Rightarrow> (case dk_snap d of
          None \<Rightarrow> (None, fs)
        | Some data \<Rightarrow> (case cd_unsnapshot cd data of
            Inl e \<Rightarrow> (Some e, fs)
          | Inr None \<Rightarrow> (None, fs)
          | Inr (Some m) \<Rightarrow> (None, fs\<lparr> fs_records := m \<rparr>))))"

definition NewFileStore :: "io_oracle \<Rightarrow> Codec1 \<Rightarrow> string \<Rightarrow> Disk1 \<Rightarrow> (string + FileStore1) \<times> Disk1" where
  "NewFileStore io cd dir d =
     (let dir = (if dir = [] then ''data'' else dir) in
      case os_call io d of
        (Some (_, e), d) \<Rightarrow> (Inl e, d)
      | (None, d) \<Rightarrow> (case store1_load io cd \<lparr> fs_root = dir, fs_records = [], fs_disk = d \<rparr> of
          (Some e, fs) \<Rightarrow> (Inl e, fs_disk fs)
        | (None, fs) \<Rightarrow> (Inr fs, fs_disk fs)))"

end
