(* ===== verification/Relay1_Durable.thy ===== *)
theory Relay1_Durable
  imports Relay1_Store
begin

text \<open>
  What the file-backed store of relay v1 keeps. Any sequence of calls runs against a file system that may fail at
  any operation. \<open>spec_op\<close> is the store without its files: what a call makes of the records in memory and the event it
  stands for. The lemmas show that the calls do this to the memory whatever the files do (\<open>do_op_records\<close>), that the snapshot file
  always holds the records as they were after some earlier call and never loses a call that
  was acknowledged, that a bundle moves along the life cycle one version at a time, and that the audit log of a run
  without failures replays to the records.
\<close>

section \<open>Text\<close>

definition record_text :: "BundleRecord1 \<Rightarrow> bool" where
  "record_text r \<longleftrightarrow> list_all utf8_valid [b1_ID r, b1_BundleHash r, b1_ClientID r, b1_Reason r, b1_Terminal r] \<and> request_text (b1_Request r)"

definition records_text :: "(string, BundleRecord1) gomap \<Rightarrow> bool" where
  "records_text m \<longleftrightarrow> list_all (\<lambda>(k, r). utf8_valid k \<and> record_text r) m"

definition codec1_ok :: "Codec1 \<Rightarrow> bool" where
  "codec1_ok cd \<longleftrightarrow>
     (\<forall>m s. gm_ok m \<longrightarrow> records_text m \<longrightarrow> cd_snapshot cd m = Inr s \<longrightarrow>
       (\<exists>m'. cd_unsnapshot cd s = Inr (Some m') \<and> gm_get m' = gm_get m)) \<and>
     (\<forall>s m. cd_unsnapshot cd s = Inr (Some m) \<longrightarrow> gm_ok m \<and> records_text m)"

section \<open>The calls without their files\<close>

datatype store1_op = OpCreate BundleRecord1 | OpTransition string BundleState BundleState string
  | OpRetryCount string int | OpResult string f64 f64 string | OpHealth

fun do_op :: "io_oracle \<Rightarrow> Codec1 \<Rightarrow> gtime \<times> store1_op \<Rightarrow> FileStore1 \<Rightarrow> (string + BundleRecord1 option) \<times> FileStore1" where
  "do_op io cd (now, OpCreate rec) fs = (let (r, fs) = store1_Create io cd now rec fs in (map_sum id Some r, fs))"
| "do_op io cd (now, OpTransition k src dst reason) fs =
     (let (r, fs) = store1_Transition io cd now k src dst reason fs in (map_sum id Some r, fs))"
| "do_op io cd (now, OpRetryCount k n) fs = (let (r, fs) = store1_UpdateRetryCount io cd now k n fs in (map_sum id Some r, fs))"
| "do_op io cd (now, OpResult k score profit reason) fs =
     (let (r, fs) = store1_UpdateResult io cd now k score profit reason fs in (map_sum id Some r, fs))"
| "do_op io cd (now, OpHealth) fs =
     (let (r, fs) = store1_Health io fs in (case r of Some e \<Rightarrow> Inl e | None \<Rightarrow> Inr None, fs))"

fun run1 :: "io_oracle \<Rightarrow> Codec1 \<Rightarrow> (gtime \<times> store1_op) list \<Rightarrow> FileStore1 \<Rightarrow> (string + BundleRecord1 option) list \<times> FileStore1" where
  "run1 io cd [] fs = ([], fs)"
| "run1 io cd (op # ops) fs = (let (r, fs) = do_op io cd op fs; (rs, fs) = run1 io cd ops fs in (r # rs, fs))"

text \<open>An error, or the record and the event the call commits; \<^verbatim>\<open>Health\<close> commits nothing.\<close>

fun spec_op :: "gtime \<times> store1_op \<Rightarrow> (string, BundleRecord1) gomap \<Rightarrow> string + (string \<times> BundleRecord1 \<times> EventRecord1) option" where
  "spec_op (now, OpCreate rec) m =
     (if gm_get m (b1_ID rec) \<noteq> None then Inl ''bundle already exists''
      else Inr (Some (b1_ID rec, rec\<lparr> b1_CreatedAt := now, b1_UpdatedAt := now, b1_Version := 1 \<rparr>,
        \<lparr> e1_Time = now, e1_BundleID = b1_ID rec, e1_From = None, e1_To = b1_State rec, e1_Reason = [], e1_Version = 1,
          e1_ClientID = b1_ClientID rec \<rparr>)))"
| "spec_op (now, OpTransition k src dst reason) m = (case gm_get m k of
       None \<Rightarrow> Inl ''bundle not found''
     | Some rec \<Rightarrow>
         if b1_State rec \<noteq> src
         then Inl (''state mismatch: have '' @ state_string (b1_State rec) @ '' want '' @ state_string src)
         else if CanTransition1 src dst
         then Inr (Some (k, stamp1 dst (rec\<lparr> b1_State := dst, b1_Reason := reason, b1_Version := b1_Version rec + 1, b1_UpdatedAt := now \<rparr>),
           \<lparr> e1_Time = now, e1_BundleID = b1_ID rec, e1_From = Some src, e1_To = dst, e1_Reason = reason,
             e1_Version = b1_Version rec + 1, e1_ClientID = b1_ClientID rec \<rparr>))
         else Inl (''illegal transition '' @ state_string src @ '' -> '' @ state_string dst))"
| "spec_op (now, OpRetryCount k n) m = (case gm_get m k of
       None \<Rightarrow> Inl ''bundle not found''
     | Some rec \<Rightarrow> Inr (Some (k, rec\<lparr> b1_RetryCount := n, b1_Version := b1_Version rec + 1, b1_UpdatedAt := now \<rparr>,
         \<lparr> e1_Time = now, e1_BundleID = b1_ID rec, e1_From = None, e1_To = b1_State rec,
           e1_Reason = ''retry count '' @ show_int 10 n, e1_Version = b1_Version rec + 1, e1_ClientID = b1_ClientID rec \<rparr>)))"
| "spec_op (now, OpResult k score profit reason) m = (case gm_get m k of
       None \<Rightarrow> Inl ''bundle not found''
     | Some rec \<Rightarrow> Inr (Some (k, rec\<lparr> b1_Score := score, b1_ProfitEth := profit, b1_Reason := reason,
           b1_Version := b1_Version rec + 1, b1_UpdatedAt := now \<rparr>,
         \<lparr> e1_Time = now, e1_BundleID = b1_ID rec, e1_From = Some (b1_State rec), e1_To = b1_State rec,
           e1_Reason = ''result updated'', e1_Version = b1_Version rec + 1, e1_ClientID = b1_ClientID rec \<rparr>)))"
| "spec_op (now, OpHealth) m = Inr None"

definition spec_next :: "gtime \<times> store1_op \<Rightarrow> (string, BundleRecord1) gomap \<Rightarrow> (string, BundleRecord1) gomap" where
  "spec_next op m = (case spec_op op m of Inr (Some (k, rec, ev)) \<Rightarrow> gm_set m k rec | _ \<Rightarrow> m)"

lemma stamp1_fields [simp]:
  "b1_ID (stamp1 dst r) = b1_ID r" "b1_BundleHash (stamp1 dst r) = b1_BundleHash r" "b1_Request (stamp1 dst r) = b1_Request r"
  "b1_ClientID (stamp1 dst r) = b1_ClientID r" "b1_State (stamp1 dst r) = b1_State r" "b1_RetryCount (stamp1 dst r) = b1_RetryCount r"
  "b1_Reason (stamp1 dst r) = b1_Reason r" "b1_Terminal (stamp1 dst r) = b1_Terminal r" "b1_Version (stamp1 dst r) = b1_Version r"
  "b1_CreatedAt (stamp1 dst r) = b1_CreatedAt r" "b1_UpdatedAt (stamp1 dst r) = b1_UpdatedAt r"
  "b1_Score (stamp1 dst r) = b1_Score r" "b1_ProfitEth (stamp1 dst r) = b1_ProfitEth r"
  by (cases dst; simp add: stamp1_def)+

lemma do_op_spec:
  "do_op io cd op fs = (case spec_op op (fs_records fs) of
     Inl e \<Rightarrow> (Inl e, fs)
   | Inr (Some (k, rec, ev)) \<Rightarrow> (let (r, fs) = commit1 io cd k rec ev fs in (map_sum id Some r, fs))
   | Inr None \<Rightarrow> (let (r, fs) = store1_Health io fs in (case r of Some e \<Rightarrow> Inl e | None \<Rightarrow> Inr None, fs)))"
proof (cases op)
  case (Pair now q)
  then show ?thesis
    by (cases q) (simp_all add: store1_Create_def store1_Transition_def ValidateTransition1_def store1_UpdateRetryCount_def
        store1_UpdateResult_def Let_def split: option.splits)
qed

section \<open>One commit\<close>

abbreviation snap_of :: "FileStore1 \<Rightarrow> string option" where
  "snap_of fs \<equiv> dk_snap (fs_disk fs)"

definition audit_of :: "FileStore1 \<Rightarrow> string" where
  "audit_of fs = (case dk_audit (fs_disk fs) of None \<Rightarrow> [] | Some a \<Rightarrow> a)"

definition line_of :: "Codec1 \<Rightarrow> EventRecord1 \<Rightarrow> string" where
  "line_of cd ev = (case cd_event cd ev of Inl _ \<Rightarrow> [] | Inr data \<Rightarrow> data @ [CHR 0x0A])"

lemma persistLocked_cases:
  assumes "persistLocked io cd fs = (r, fs')"
  shows "fs_records fs' = fs_records fs" and "audit_of fs' = audit_of fs"
    and "r \<noteq> None \<and> snap_of fs' = snap_of fs \<or>
         r = None \<and> (\<exists>data. cd_snapshot cd (fs_records fs) = Inr data \<and> snap_of fs' = Some data)"
  using assms
  by (auto simp: persistLocked_def write_tmp_def rename_tmp_def os_call_def audit_of_def Let_def split: sum.splits option.splits prod.splits)

lemma appendEvent1_cases:
  assumes "appendEvent1 io cd ev fs = (r, fs')"
  shows "fs_records fs' = fs_records fs" and "snap_of fs' = snap_of fs"
    and "\<exists>p. audit_of fs' = audit_of fs @ p"
    and "r = None \<Longrightarrow> audit_of fs' = audit_of fs @ line_of cd ev"
  using assms
  by (auto simp: appendEvent1_def open_audit_def write_audit_def os_call_def audit_of_def line_of_def Let_def
      split: sum.splits option.splits prod.splits)

lemma commit1_cases:
  assumes "commit1 io cd k rec ev fs = (r, fs')"
  shows "fs_records fs' = gm_set (fs_records fs) k rec"
    and "snap_of fs' = snap_of fs \<and> (\<exists>e. r = Inl e) \<or> (\<exists>data. cd_snapshot cd (fs_records fs') = Inr data \<and> snap_of fs' = Some data)"
    and "\<exists>p. audit_of fs' = audit_of fs @ p"
    and "r = Inr rec' \<Longrightarrow> rec' = rec \<and> audit_of fs' = audit_of fs @ line_of cd ev"
proof -
  obtain p fs1 where p: "persistLocked io cd (fs\<lparr> fs_records := gm_set (fs_records fs) k rec \<rparr>) = (p, fs1)" by fastforce
  obtain q fs2 where q: "appendEvent1 io cd ev fs1 = (q, fs2)" by fastforce
  note P = persistLocked_cases [OF p] and Q = appendEvent1_cases [OF q]
  have a: "audit_of (fs\<lparr> fs_records := gm_set (fs_records fs) k rec \<rparr>) = audit_of fs" by (simp add: audit_of_def)
  show "fs_records fs' = gm_set (fs_records fs) k rec"
    using assms p q P(1) Q(1) by (auto simp: commit1_def split: option.splits)
  then show "snap_of fs' = snap_of fs \<and> (\<exists>e. r = Inl e) \<or> (\<exists>data. cd_snapshot cd (fs_records fs') = Inr data \<and> snap_of fs' = Some data)"
    using assms p q P(3) Q(2) by (auto simp: commit1_def split: option.splits)
  show "\<exists>p. audit_of fs' = audit_of fs @ p"
    using assms p q P(2) Q(3) a by (auto simp: commit1_def split: option.splits)
  show "rec' = rec \<and> audit_of fs' = audit_of fs @ line_of cd ev" if "r = Inr rec'"
    using that assms p q P(2) Q(4) a by (auto simp: commit1_def split: option.splits)
qed

lemma Health_cases:
  assumes "store1_Health io fs = (r, fs')"
  shows "fs_records fs' = fs_records fs" and "snap_of fs' = snap_of fs" and "audit_of fs' = audit_of fs"
  using assms by (auto simp: store1_Health_def open_audit_def os_call_def audit_of_def split: option.splits prod.splits)

section \<open>Memory\<close>

text \<open>A call does to the records in memory what it would do without files, whether or not it reports an error.\<close>

lemma do_op_records: "do_op io cd op fs = (r, fs') \<Longrightarrow> fs_records fs' = spec_next op (fs_records fs)"
  by (auto simp: do_op_spec spec_next_def Let_def split: sum.splits option.splits prod.splits
      dest: commit1_cases(1) Health_cases(1))

lemma run1_records: "run1 io cd ops fs = (rs, fs') \<Longrightarrow> fs_records fs' = foldl (\<lambda>m op. spec_next op m) (fs_records fs) ops"
proof (induction ops arbitrary: fs rs fs')
  case (Cons op ops)
  obtain r fs1 where 1: "do_op io cd op fs = (r, fs1)" by fastforce
  obtain rs1 fs2 where 2: "run1 io cd ops fs1 = (rs1, fs2)" by fastforce
  show ?case using Cons.prems Cons.IH [OF 2] do_op_records [OF 1] 1 2 by simp
qed simp

lemma run1_append:
  "run1 io cd (xs @ ys) fs = (let (rs, fs1) = run1 io cd xs fs; (ss, fs2) = run1 io cd ys fs1 in (rs @ ss, fs2))"
  by (induction xs arbitrary: fs) (simp_all add: Let_def split: prod.splits)

lemma run1_length: "run1 io cd ops fs = (rs, fs') \<Longrightarrow> length rs = length ops"
  by (induction ops arbitrary: fs rs fs') (auto split: prod.splits)

lemma run1_snoc:
  assumes "run1 io cd (ops @ [op]) fs = (rs, fs')"
  obtains rs1 fs1 r where "run1 io cd ops fs = (rs1, fs1)" and "do_op io cd op fs1 = (r, fs')" and "rs = rs1 @ [r]"
  using assms by (auto simp: run1_append split: prod.splits)

section \<open>What a restart finds\<close>

definition op_text :: "gtime \<times> store1_op \<Rightarrow> bool" where
  "op_text op = (case snd op of
       OpCreate rec \<Rightarrow> record_text rec
     | OpTransition k src dst reason \<Rightarrow> utf8_valid reason
     | OpResult k score profit reason \<Rightarrow> utf8_valid reason
     | _ \<Rightarrow> True)"

definition is_update :: "gtime \<times> store1_op \<Rightarrow> bool" where
  "is_update op \<longleftrightarrow> snd op \<noteq> OpHealth"

definition records_ok :: "(string, BundleRecord1) gomap \<Rightarrow> bool" where
  "records_ok m \<longleftrightarrow> gm_ok m \<and> records_text m"

lemma set_gm_set: "set (gm_set m k v) \<subseteq> insert (k, v) (set m)"
  unfolding gm_set_def by (induction m) auto

lemma records_ok_set: "records_ok m \<Longrightarrow> utf8_valid k \<Longrightarrow> record_text r \<Longrightarrow> records_ok (gm_set m k r)"
  using set_gm_set [of m k r] unfolding records_ok_def records_text_def list_all_iff
  by (intro conjI) (simp, blast)

lemma records_ok_get: "records_ok m \<Longrightarrow> gm_get m k = Some r \<Longrightarrow> utf8_valid k \<and> record_text r"
  unfolding records_ok_def records_text_def list_all_iff by (auto dest!: gm_get_mem)

lemma records_ok_next: "records_ok m \<Longrightarrow> op_text op \<Longrightarrow> records_ok (spec_next op m)"
proof (cases op)
  case (Pair now q)
  assume "records_ok m" and "op_text op"
  then show ?thesis
    unfolding Pair spec_next_def op_text_def
    by (cases q) (auto split: option.splits simp: record_text_def dest: records_ok_get intro!: records_ok_set)
qed

definition disk_holds :: "Codec1 \<Rightarrow> Disk1 \<Rightarrow> (string \<Rightarrow> BundleRecord1 option) \<Rightarrow> bool" where
  "disk_holds cd d m = (case dk_snap d of
       None \<Rightarrow> m = Map.empty
     | Some data \<Rightarrow> (case cd_unsnapshot cd data of
         Inl _ \<Rightarrow> False | Inr None \<Rightarrow> m = Map.empty | Inr (Some m') \<Rightarrow> m = gm_get m'))"

lemma gm_get_empty: "gm_get [] = Map.empty"
  by (simp add: fun_eq_iff)

lemma reload_disk:
  "disk_holds cd d m \<Longrightarrow> \<exists>s d'. NewFileStore no_faults cd dir d = (Inr s, d') \<and> gm_get (fs_records s) = m"
  by (auto simp: disk_holds_def NewFileStore_def store1_load_def os_call_def no_faults_def gm_get_empty Let_def
      split: option.splits sum.splits)

lemma loaded_store:
  assumes "NewFileStore io cd dir d = (Inr s, d')"
  shows "disk_holds cd (fs_disk s) (gm_get (fs_records s))" and "codec1_ok cd \<Longrightarrow> records_ok (fs_records s)"
  using assms
  by (auto simp: NewFileStore_def store1_load_def os_call_def disk_holds_def gm_get_empty codec1_ok_def records_ok_def records_text_def Let_def
      split: option.splits sum.splits prod.splits)

lemma disk_holds_commit:
  assumes "codec1_ok cd" and "records_ok (fs_records fs)" and "cd_snapshot cd (fs_records fs) = Inr data" and "snap_of fs = Some data"
  shows "disk_holds cd (fs_disk fs) (gm_get (fs_records fs))"
  using assms unfolding codec1_ok_def records_ok_def disk_holds_def by fastforce

lemma do_op_durable:
  assumes "codec1_ok cd" and "records_ok (fs_records fs)" and "op_text op" and "do_op io cd op fs = (r, fs')"
  shows "snap_of fs' = snap_of fs \<and> (is_update op \<longrightarrow> (\<exists>e. r = Inl e)) \<or> disk_holds cd (fs_disk fs') (gm_get (fs_records fs'))"
proof (cases "spec_op op (fs_records fs)")
  case (Inl e)
  then show ?thesis using assms(4) by (auto simp: do_op_spec)
next
  case (Inr c)
  have ok: "records_ok (fs_records fs')"
    using records_ok_next [OF assms(2,3)] do_op_records [OF assms(4)] by simp
  show ?thesis
  proof (cases c)
    case None
    then have "\<not> is_update op"
      using Inr by (cases op; cases "snd op") (auto simp: is_update_def split: option.splits if_splits)
    with None Inr assms(4) show ?thesis
      by (auto simp: do_op_spec Let_def split: prod.splits dest: Health_cases(2))
  next
    case (Some x)
    obtain k rec ev where x: "x = (k, rec, ev)" by (cases x)
    obtain q where q: "commit1 io cd k rec ev fs = (q, fs')" "r = map_sum id Some q"
      using assms(4) Inr Some x by (auto simp: do_op_spec Let_def split: prod.splits)
    then show ?thesis using commit1_cases(2) [OF q(1)] disk_holds_commit [OF assms(1) ok] by auto
  qed
qed

text \<open>
  C31: A restart of relay v1 loses no acknowledged call. After any run of calls on a store opened on any directory, with
  the file system failing at any operation, opening the directory again succeeds and finds the records exactly as they were after some prefix
  of the run, and every update after that prefix had been answered with an error.
\<close>

theorem restart_keeps_acknowledged:
  assumes "codec1_ok cd" and "NewFileStore io0 cd dir d = (Inr s0, d0)" and "list_all op_text ops"
    and "run1 io cd ops s0 = (rs, s)"
  shows "\<exists>n \<le> length ops. \<exists>s' d'. NewFileStore no_faults cd dir (fs_disk s) = (Inr s', d') \<and>
    gm_get (fs_records s') = gm_get (fs_records (snd (run1 io cd (take n ops) s0))) \<and>
    (\<forall>j. n \<le> j \<and> j < length ops \<and> is_update (ops ! j) \<longrightarrow> (\<exists>e. rs ! j = Inl e))"
proof -
  have "records_ok (fs_records s) \<and> (\<exists>n \<le> length ops. disk_holds cd (fs_disk s) (gm_get (fs_records (snd (run1 io cd (take n ops) s0)))) \<and>
    (\<forall>j. n \<le> j \<and> j < length ops \<and> is_update (ops ! j) \<longrightarrow> (\<exists>e. rs ! j = Inl e)))"
    using assms(3,4)
  proof (induction ops arbitrary: rs s rule: rev_induct)
    case Nil
    then show ?case using loaded_store [OF assms(2)] assms(1) by simp
  next
    case (snoc op ops)
    obtain rs1 s1 r where 1: "run1 io cd ops s0 = (rs1, s1)" and 2: "do_op io cd op s1 = (r, s)" and rs: "rs = rs1 @ [r]"
      using run1_snoc [OF snoc.prems(2)] .
    have tx: "list_all op_text ops" "op_text op" using snoc.prems(1) by simp_all
    from snoc.IH [OF tx(1) 1] obtain n where ok: "records_ok (fs_records s1)" and n: "n \<le> length ops"
        "disk_holds cd (fs_disk s1) (gm_get (fs_records (snd (run1 io cd (take n ops) s0))))"
        "\<forall>j. n \<le> j \<and> j < length ops \<and> is_update (ops ! j) \<longrightarrow> (\<exists>e. rs1 ! j = Inl e)"
      by blast
    have len: "length rs1 = length ops" by (rule run1_length [OF 1])
    have ok': "records_ok (fs_records s)" using records_ok_next [OF ok tx(2)] do_op_records [OF 2] by simp
    from do_op_durable [OF assms(1) ok tx(2) 2] show ?case
    proof
      assume h: "snap_of s = snap_of s1 \<and> (is_update op \<longrightarrow> (\<exists>e. r = Inl e))"
      then have "disk_holds cd (fs_disk s) (gm_get (fs_records (snd (run1 io cd (take n (ops @ [op])) s0))))"
        using n(1,2) by (simp add: disk_holds_def)
      moreover have "\<exists>e. rs ! j = Inl e" if "n \<le> j" "j < length (ops @ [op])" "is_update ((ops @ [op]) ! j)" for j
        using that n(3) h len rs by (cases "j < length ops") (auto simp: nth_append)
      ultimately show ?thesis using ok' n(1) by (intro conjI exI [of _ n]) auto
    next
      assume "disk_holds cd (fs_disk s) (gm_get (fs_records s))"
      then show ?thesis using ok' snoc.prems(2) by (intro conjI exI [of _ "length (ops @ [op])"]) auto
    qed
  qed
  then show ?thesis using reload_disk by meson
qed

section \<open>History of a bundle\<close>

definition record_step :: "BundleRecord1 \<Rightarrow> BundleRecord1 \<Rightarrow> bool" where
  "record_step r r' \<longleftrightarrow> b1_Version r' = b1_Version r + 1 \<and> (b1_State r' = b1_State r \<or> CanTransition1 (b1_State r) (b1_State r')) \<and>
     b1_ID r' = b1_ID r \<and> b1_BundleHash r' = b1_BundleHash r \<and> b1_Request r' = b1_Request r \<and> b1_ClientID r' = b1_ClientID r \<and>
     b1_CreatedAt r' = b1_CreatedAt r"

lemma spec_next_step:
  assumes "gm_get m k = Some r"
  shows "gm_get (spec_next op m) k = Some r \<or> (\<exists>r'. gm_get (spec_next op m) k = Some r' \<and> record_step r r')"
proof (cases op)
  case (Pair now q)
  then show ?thesis
    using assms by (cases q) (auto simp: spec_next_def record_step_def split: option.splits)
qed

lemma spec_history:
  "gm_get m k = Some r \<Longrightarrow> \<exists>r' n. gm_get (foldl (\<lambda>m op. spec_next op m) m ops) k = Some r' \<and> n \<le> length ops \<and> (record_step ^^ n) r r'"
proof (induction ops arbitrary: m r)
  case Nil
  then show ?case by (intro exI [of _ r] exI [of _ 0]) simp
next
  case (Cons op ops)
  show ?case
    using spec_next_step [OF Cons.prems, of op]
  proof (elim disjE exE conjE)
    assume "gm_get (spec_next op m) k = Some r"
    with Cons.IH [OF this] show ?thesis by (auto intro: le_SucI)
  next
    fix r1 assume r1: "gm_get (spec_next op m) k = Some r1" "record_step r r1"
    from Cons.IH [OF r1(1)] obtain r' n where "gm_get (foldl (\<lambda>m op. spec_next op m) (spec_next op m) ops) k = Some r'"
      "n \<le> length ops" "(record_step ^^ n) r1 r'" by blast
    then show ?thesis using relpowp_Suc_I2 [of record_step r r1 n r'] r1(2) by (metis Suc_le_mono foldl_Cons length_Cons)
  qed
qed

lemma record_steps_version: "(record_step ^^ n) r r' \<Longrightarrow> b1_Version r' = b1_Version r + int n \<and> b1_ID r' = b1_ID r \<and> b1_ClientID r' = b1_ClientID r"
  by (induction n arbitrary: r') (auto simp: record_step_def)

section \<open>The audit log\<close>

text \<open>The answers and the events of a run in which neither a file operation nor an encoder failed.\<close>

fun spec_results :: "(gtime \<times> store1_op) list \<Rightarrow> (string, BundleRecord1) gomap \<Rightarrow> (string + BundleRecord1 option) list" where
  "spec_results [] m = []"
| "spec_results (op # ops) m = map_sum id (map_option (\<lambda>(k, rec, ev). rec)) (spec_op op m) # spec_results ops (spec_next op m)"

definition spec_event :: "gtime \<times> store1_op \<Rightarrow> (string, BundleRecord1) gomap \<Rightarrow> EventRecord1 list" where
  "spec_event op m = (case spec_op op m of Inr (Some (k, rec, ev)) \<Rightarrow> [ev] | _ \<Rightarrow> [])"

fun spec_events :: "(gtime \<times> store1_op) list \<Rightarrow> (string, BundleRecord1) gomap \<Rightarrow> EventRecord1 list" where
  "spec_events [] m = []"
| "spec_events (op # ops) m = spec_event op m @ spec_events ops (spec_next op m)"

definition replay1 :: "(string \<Rightarrow> (BundleState \<times> int) option) \<Rightarrow> EventRecord1 list \<Rightarrow> string \<Rightarrow> (BundleState \<times> int) option" where
  "replay1 v evs = foldl (\<lambda>v ev. v(e1_BundleID ev \<mapsto> (e1_To ev, e1_Version ev))) v evs"

definition view1 :: "(string, BundleRecord1) gomap \<Rightarrow> string \<Rightarrow> (BundleState \<times> int) option" where
  "view1 m k = map_option (\<lambda>r. (b1_State r, b1_Version r)) (gm_get m k)"

definition keyed :: "(string, BundleRecord1) gomap \<Rightarrow> bool" where
  "keyed m \<longleftrightarrow> (\<forall>k r. gm_get m k = Some r \<longrightarrow> b1_ID r = k)"

abbreviation version1 :: "(string, BundleRecord1) gomap \<Rightarrow> string \<Rightarrow> int" where
  "version1 m k \<equiv> (case gm_get m k of None \<Rightarrow> 0 | Some r \<Rightarrow> b1_Version r)"

lemma keyed_next: "keyed m \<Longrightarrow> keyed (spec_next op m)"
proof (cases op)
  case (Pair now q)
  assume "keyed m"
  then show ?thesis unfolding Pair by (cases q) (auto simp: keyed_def spec_next_def split: option.splits)
qed

lemma view_next: "keyed m \<Longrightarrow> view1 (spec_next op m) = replay1 (view1 m) (spec_event op m)"
proof (cases op)
  case (Pair now q)
  assume "keyed m"
  then show ?thesis
    unfolding Pair by (cases q) (auto simp: keyed_def spec_next_def spec_event_def view1_def replay1_def fun_eq_iff split: option.splits)
qed

lemma version_next:
  assumes "keyed m"
  shows "map e1_Version (filter (\<lambda>e. e1_BundleID e = k) (spec_event op m)) = [version1 m k + 1..version1 (spec_next op m) k]"
proof (cases op)
  case (Pair now q)
  then show ?thesis
    using assms by (cases q) (auto simp: keyed_def spec_next_def spec_event_def split: option.splits)
qed

lemma version_next_mono: "version1 m k \<le> version1 (spec_next op m) k"
proof (cases op)
  case (Pair now q)
  then show ?thesis by (cases q) (auto simp: spec_next_def split: option.splits)
qed

lemma version_mono: "version1 m k \<le> version1 (foldl (\<lambda>m op. spec_next op m) m ops) k"
proof (induction ops arbitrary: m)
  case (Cons op ops)
  show ?case using order.trans [OF version_next_mono Cons.IH] by simp
qed simp

lemma replay1_append: "replay1 v (xs @ ys) = replay1 (replay1 v xs) ys"
  by (simp add: replay1_def)

lemma replay_run: "keyed m \<Longrightarrow> replay1 (view1 m) (spec_events ops m) = view1 (foldl (\<lambda>m op. spec_next op m) m ops)"
proof (induction ops arbitrary: m)
  case (Cons op ops)
  show ?case using Cons.IH [OF keyed_next [OF Cons.prems]] view_next [OF Cons.prems, of op, symmetric] by (simp add: replay1_append)
qed (simp add: replay1_def)

lemma upto_join: "a \<le> b + 1 \<Longrightarrow> b \<le> c \<Longrightarrow> [a..b] @ [b + 1..c] = [a..(c::int)]"
  using upto_split2 [of a b c] by (cases "a = b + 1") auto

lemma versions_run:
  "keyed m \<Longrightarrow> map e1_Version (filter (\<lambda>e. e1_BundleID e = k) (spec_events ops m)) =
     [version1 m k + 1..version1 (foldl (\<lambda>m op. spec_next op m) m ops) k]"
proof (induction ops arbitrary: m)
  case (Cons op ops)
  then show ?case
    using keyed_next [of m op] version_next [of m k op] upto_join version_next_mono [of m k op] version_mono [of "spec_next op m" k ops]
    by (simp add: add_increasing2)
qed simp

lemma do_op_audit:
  assumes "do_op io cd op fs = (r, fs')" and "r = map_sum id (map_option (\<lambda>(k, rec, ev). rec)) (spec_op op (fs_records fs))"
  shows "audit_of fs' = audit_of fs @ concat (map (line_of cd) (spec_event op (fs_records fs)))"
proof (cases "spec_op op (fs_records fs)")
  case (Inl e)
  then show ?thesis using assms(1) by (simp add: do_op_spec spec_event_def)
next
  case (Inr c)
  show ?thesis
  proof (cases c)
    case None
    then show ?thesis using Inr assms(1) by (auto simp: do_op_spec spec_event_def Let_def split: prod.splits dest: Health_cases(3))
  next
    case (Some x)
    obtain k rec ev where x: "x = (k, rec, ev)" by (cases x)
    obtain q where q: "commit1 io cd k rec ev fs = (q, fs')" "r = map_sum id Some q"
      using assms(1) Inr Some x by (auto simp: do_op_spec Let_def split: prod.splits)
    then have "q = Inr rec" using assms(2) Inr Some x by (cases q) auto
    then show ?thesis using commit1_cases(4) [OF q(1)] Inr Some x by (simp add: spec_event_def)
  qed
qed

lemma run1_audit:
  "run1 io cd ops fs = (rs, fs') \<Longrightarrow> rs = spec_results ops (fs_records fs) \<Longrightarrow>
   audit_of fs' = audit_of fs @ concat (map (line_of cd) (spec_events ops (fs_records fs)))"
proof (induction ops arbitrary: fs rs fs')
  case (Cons op ops)
  obtain r fs1 where 1: "do_op io cd op fs = (r, fs1)" by fastforce
  obtain rs1 fs2 where 2: "run1 io cd ops fs1 = (rs1, fs2)" by fastforce
  have m: "fs_records fs1 = spec_next op (fs_records fs)" by (rule do_op_records [OF 1])
  show ?case using Cons.IH [OF 2] do_op_audit [OF 1] Cons.prems 1 2 m by simp
qed simp

text \<open>
  C32: The audit log of relay v1 is the history of its records. On a new directory, while no file operation or encoding fails, the log is one line per accepted
  update, in order; for every bundle the lines carry the versions from 1 up to its version in memory without a gap, and replaying the
  lines gives the state and version of every record.
\<close>

theorem audit_log_replays:
  assumes "dk_snap d = None" and "dk_audit d = None" and "NewFileStore io0 cd dir d = (Inr s0, d0)"
    and "run1 io cd ops s0 = (rs, s)" and "rs = spec_results ops []"
  shows "audit_of s = concat (map (line_of cd) (spec_events ops [])) \<and>
    (\<forall>k. map e1_Version (filter (\<lambda>e. e1_BundleID e = k) (spec_events ops [])) = [1..version1 (fs_records s) k]) \<and>
    replay1 Map.empty (spec_events ops []) = view1 (fs_records s)"
proof -
  have s0: "fs_records s0 = []" "audit_of s0 = []"
    using assms(1-3) by (auto simp: NewFileStore_def store1_load_def os_call_def audit_of_def Let_def split: option.splits prod.splits)
  have k0: "keyed []" by (simp add: keyed_def)
  have fin: "fs_records s = foldl (\<lambda>m op. spec_next op m) [] ops" using run1_records [OF assms(4)] s0 by simp
  have "audit_of s = concat (map (line_of cd) (spec_events ops []))" using run1_audit [OF assms(4)] assms(5) s0 by simp
  moreover have "map e1_Version (filter (\<lambda>e. e1_BundleID e = k) (spec_events ops [])) = [1..version1 (fs_records s) k]" for k
    using versions_run [OF k0, of k ops] fin by simp
  moreover have "view1 [] = Map.empty" by (simp add: view1_def fun_eq_iff)
  then have "replay1 Map.empty (spec_events ops []) = view1 (fs_records s)" using replay_run [OF k0, of ops] fin by simp
  ultimately show ?thesis by blast
qed

section \<open>Encoders that meet the contract\<close>

fun dec_state1 :: "string \<Rightarrow> BundleState" where
  "dec_state1 s = (if s = ''received'' then StateReceived else if s = ''validated'' then StateValidated
     else if s = ''queued'' then StateQueued else if s = ''simulating'' then StateSimulating
     else if s = ''simulated'' then StateSimulated else if s = ''scored'' then StateScored
     else if s = ''retry_pending'' then StateRetryPending else if s = ''dead_letter'' then StateDeadLetter
     else if s = ''forwarded'' then StateForwarded else if s = ''rejected'' then StateRejected
     else if s = ''persisted'' then StatePersisted else StateCompleted)"

lemma dec_state_string [simp]: "dec_state1 (state_string s) = s"
  by (cases s) simp_all

declare dec_state1.simps [simp del]

definition enc_record1 :: "BundleRecord1 \<Rightarrow> string list" where
  "enc_record1 r = [b1_ID r, b1_BundleHash r, enc_request (b1_Request r), b1_ClientID r, state_string (b1_State r),
     show_int 10 (b1_RetryCount r), enc_float (b1_Score r), enc_float (b1_ProfitEth r), b1_Reason r, b1_Terminal r,
     show_int 10 (b1_Version r), show_int 10 (b1_CreatedAt r), show_int 10 (b1_UpdatedAt r), show_int 10 (b1_QueuedAt r),
     show_int 10 (b1_SimulatedAt r), show_int 10 (b1_CompletedAt r)]"

definition dec_record1 :: "string list \<Rightarrow> BundleRecord1" where
  "dec_record1 f = \<lparr> b1_ID = f ! 0, b1_BundleHash = f ! 1, b1_Request = dec_request (f ! 2), b1_ClientID = f ! 3,
     b1_State = dec_state1 (f ! 4), b1_RetryCount = int_of (f ! 5), b1_Score = dec_float (f ! 6), b1_ProfitEth = dec_float (f ! 7),
     b1_Reason = f ! 8, b1_Terminal = f ! 9, b1_Version = int_of (f ! 10), b1_CreatedAt = int_of (f ! 11),
     b1_UpdatedAt = int_of (f ! 12), b1_QueuedAt = int_of (f ! 13), b1_SimulatedAt = int_of (f ! 14), b1_CompletedAt = int_of (f ! 15) \<rparr>"

lemma dec_enc_record1 [simp]: "dec_record1 (enc_record1 r) = r"
  by (cases r) (simp add: dec_record1_def enc_record1_def)

lemma enc_record1_length: "length (enc_record1 r) = 16"
  by (simp add: enc_record1_def)

fun enc_map1 :: "(string, BundleRecord1) gomap \<Rightarrow> string" where
  "enc_map1 [] = []"
| "enc_map1 ((k, r) # m) = enc k @ concat (map enc (enc_record1 r)) @ enc_map1 m"

fun dec_map1 :: "nat \<Rightarrow> string \<Rightarrow> (string, BundleRecord1) gomap" where
  "dec_map1 0 x = []"
| "dec_map1 (Suc n) x = (let (k, x) = dec x; (f, x) = dec_list 16 x in (k, dec_record1 f) # dec_map1 n x)"

lemma dec_enc_map1: "dec_map1 (length m) (enc_map1 m) = m"
proof (induction m)
  case (Cons e m)
  obtain k r where "e = (k, r)" by (cases e)
  then show ?case using Cons dec_list_enc [of "enc_record1 r" "enc_map1 m"] by (simp add: enc_record1_length Let_def)
qed simp

definition ref_codec1 :: Codec1 where
  "ref_codec1 = \<lparr>
     cd_snapshot = (\<lambda>m. Inr (enc_int (int (length m)) @ enc_map1 m)),
     cd_unsnapshot = (\<lambda>s. let (n, x) = dec s; m = dec_map1 (nat (int_of n)) x in
        if records_ok m then Inr (Some m) else Inl ''malformed''),
     cd_event = (\<lambda>ev. Inr (concat (map enc [show_int 10 (e1_Time ev), e1_BundleID ev,
        (case e1_From ev of None \<Rightarrow> [] | Some s \<Rightarrow> state_string s), state_string (e1_To ev), e1_Reason ev, show_int 10 (e1_Version ev),
        e1_ClientID ev]))) \<rparr>"

lemma ref_codec1_ok: "codec1_ok ref_codec1"
  by (auto simp: codec1_ok_def ref_codec1_def records_ok_def enc_int_def dec_enc_map1 Let_def split: prod.splits if_splits)

definition empty_disk1 :: Disk1 where
  "empty_disk1 = \<lparr> dk_snap = None, dk_tmp = None, dk_audit = None, dk_io = 0 \<rparr>"

definition sample_record1 :: BundleRecord1 where
  "sample_record1 = \<lparr> b1_ID = ''b'', b1_BundleHash = ''h'', b1_Request = \<lparr> bq_Txs = [''t''], bq_BlockNumber = ''1'', bq_MinTimestamp = 0,
     bq_MaxTimestamp = 0, bq_Replacement = None \<rparr>, b1_ClientID = ''c'', b1_State = StateReceived, b1_RetryCount = 0,
     b1_Score = FZero False, b1_ProfitEth = FZero False, b1_Reason = ''received'', b1_Terminal = [], b1_Version = 0, b1_CreatedAt = 0,
     b1_UpdatedAt = 0, b1_QueuedAt = 0, b1_SimulatedAt = 0, b1_CompletedAt = 0 \<rparr>"

definition sample_ops1 :: "(gtime \<times> store1_op) list" where
  "sample_ops1 = [(5, OpCreate sample_record1), (6, OpTransition ''b'' StateReceived StateValidated ''validated'')]"

definition sample_store1 :: FileStore1 where
  "sample_store1 = \<lparr> fs_root = ''data'', fs_records = [], fs_disk = empty_disk1\<lparr> dk_io := 2 \<rparr> \<rparr>"

lemma sample_store1_opened: "NewFileStore no_faults cd [] empty_disk1 = (Inr sample_store1, empty_disk1\<lparr> dk_io := 2 \<rparr>)"
  by (simp add: NewFileStore_def store1_load_def os_call_def no_faults_def empty_disk1_def sample_store1_def)

text \<open>The disk fills up while the second snapshot is renamed.\<close>

definition full_disk :: io_oracle where
  "full_disk n = (if n = 10 then Some (3, ''no space left on device'') else None)"

lemma sample_ops1_text: "list_all op_text sample_ops1"
  by code_simp

lemma sample_ops1_length: "length sample_ops1 = 2"
  by (simp add: sample_ops1_def)

theorem restart_keeps_acknowledged_witness:
  "\<exists>n \<le> 2. \<exists>s' d'. NewFileStore no_faults ref_codec1 [] (fs_disk (snd (run1 full_disk ref_codec1 sample_ops1 sample_store1))) = (Inr s', d') \<and>
    gm_get (fs_records s') = gm_get (fs_records (snd (run1 full_disk ref_codec1 (take n sample_ops1) sample_store1))) \<and>
    (\<forall>j. n \<le> j \<and> j < 2 \<and> is_update (sample_ops1 ! j) \<longrightarrow> (\<exists>e. fst (run1 full_disk ref_codec1 sample_ops1 sample_store1) ! j = Inl e))"
  using restart_keeps_acknowledged [OF ref_codec1_ok sample_store1_opened sample_ops1_text prod.collapse [symmetric], of full_disk]
  by (simp only: sample_ops1_length)

lemma sample_run1_clean: "fst (run1 no_faults ref_codec1 sample_ops1 sample_store1) = spec_results sample_ops1 []"
  by (simp add: sample_ops1_def do_op_spec spec_next_def sample_store1_def commit1_def persistLocked_def appendEvent1_def write_tmp_def
      rename_tmp_def open_audit_def write_audit_def os_call_def no_faults_def ref_codec1_def empty_disk1_def sample_record1_def
      CanTransition1_def Let_def)

theorem audit_log_replays_witness:
  "audit_of (snd (run1 no_faults ref_codec1 sample_ops1 sample_store1)) = concat (map (line_of ref_codec1) (spec_events sample_ops1 [])) \<and>
   (\<forall>k. map e1_Version (filter (\<lambda>e. e1_BundleID e = k) (spec_events sample_ops1 [])) =
     [1..version1 (fs_records (snd (run1 no_faults ref_codec1 sample_ops1 sample_store1))) k]) \<and>
   replay1 Map.empty (spec_events sample_ops1 []) = view1 (fs_records (snd (run1 no_faults ref_codec1 sample_ops1 sample_store1)))"
  by (rule audit_log_replays [OF _ _ sample_store1_opened prod.collapse [symmetric] sample_run1_clean])
    (simp_all add: empty_disk1_def)

end
