(* ===== verification/Relay1_Service.thy ===== *)
theory Relay1_Service
  imports Relay1_Durable Relay_Control Relay_Config
begin

text \<open>
  The service of relay v1: \<^verbatim>\<open>relay/service.go\<close>, \<^verbatim>\<open>relay/health.go\<close>, \<^verbatim>\<open>relay/http.go\<close>, the decision (\<^verbatim>\<open>builder/builder.go\<close>), the
  simulation client (\<^verbatim>\<open>backend/anvil.go\<close>), the counters (\<^verbatim>\<open>metrics/metrics.go\<close>) and the configuration (\<^verbatim>\<open>config/config.go\<close>).

  The state holds the store, the channel of queued bundles, the per-client counters and the timers of the retries.
  A call of the store reads the clock once. The worker's \<^verbatim>\<open>process\<close> is \<open>process_pick\<close>, the call of the backend, and \<open>process_settle\<close>, so
  that other goroutines can run while a bundle is simulated.
\<close>

section \<open>Configuration and counters\<close>

record Config1 =
  c1_HTTPAddr :: string
  c1_RPCURL :: string
  c1_DataDir :: string
  c1_QueueDepth :: int
  c1_WorkerCount :: int
  c1_MaxRetries :: int
  c1_RetryBackoff :: duration
  c1_MaxPayloadBytes :: int
  c1_MaxInFlightPerClient :: int
  c1_RequestTimeout :: duration

definition env1 :: "(string \<Rightarrow> string option) \<Rightarrow> string \<Rightarrow> string \<Rightarrow> string" where
  "env1 lookup key fallback = (case lookup key of Some v \<Rightarrow> v | None \<Rightarrow> fallback)"

definition envInt1 :: "(string \<Rightarrow> string option) \<Rightarrow> string \<Rightarrow> int \<Rightarrow> int" where
  "envInt1 lookup key fallback = (case lookup key of
       Some v \<Rightarrow> (case Atoi v of Some n \<Rightarrow> n | None \<Rightarrow> fallback)
     | None \<Rightarrow> fallback)"

definition envDuration1 ::
  "(string \<Rightarrow> string option) \<Rightarrow> (string \<Rightarrow> duration option) \<Rightarrow> string \<Rightarrow> duration \<Rightarrow> duration" where
  "envDuration1 lookup parseDuration key fallback = (case lookup key of
       Some v \<Rightarrow> (case parseDuration v of Some d \<Rightarrow> d | None \<Rightarrow> fallback)
     | None \<Rightarrow> fallback)"

definition Load1 :: "(string \<Rightarrow> string option) \<Rightarrow> (string \<Rightarrow> duration option) \<Rightarrow> Config1" where
  "Load1 lookup parseDuration = \<lparr>
     c1_HTTPAddr = env1 lookup ''HTTP_ADDR'' '':8080'',
     c1_RPCURL = env1 lookup ''RPC_URL'' ''http://127.0.0.1:8545'',
     c1_DataDir = env1 lookup ''DATA_DIR'' ''data'',
     c1_QueueDepth = envInt1 lookup ''QUEUE_DEPTH'' 1024,
     c1_WorkerCount = envInt1 lookup ''WORKER_COUNT'' 4,
     c1_MaxRetries = envInt1 lookup ''MAX_RETRIES'' 3,
     c1_RetryBackoff = envDuration1 lookup parseDuration ''RETRY_BACKOFF'' (500 * millisecond),
     c1_MaxPayloadBytes = envInt1 lookup ''MAX_PAYLOAD_BYTES'' (256 * 1024),
     c1_MaxInFlightPerClient = envInt1 lookup ''MAX_INFLIGHT_PER_CLIENT'' 20,
     c1_RequestTimeout = envDuration1 lookup parseDuration ''REQUEST_TIMEOUT'' (2 * second) \<rparr>"

record Metrics1 =
  m1_Received :: int
  m1_Queued :: int
  m1_Simulated :: int
  m1_Forwarded :: int
  m1_Rejected :: int
  m1_DeadLettered :: int
  m1_RetryPending :: int
  m1_SimulationFail :: int
  m1_QueueRejects :: int

definition zero_metrics1 :: Metrics1 where
  "zero_metrics1 = \<lparr> m1_Received = 0, m1_Queued = 0, m1_Simulated = 0, m1_Forwarded = 0, m1_Rejected = 0, m1_DeadLettered = 0,
     m1_RetryPending = 0, m1_SimulationFail = 0, m1_QueueRejects = 0 \<rparr>"

definition Metrics1_Snapshot :: "Metrics1 \<Rightarrow> (string, int) gomap" where
  "Metrics1_Snapshot m = [
     (''received'', m1_Received m), (''queued'', m1_Queued m), (''simulated'', m1_Simulated m), (''forwarded'', m1_Forwarded m),
     (''rejected'', m1_Rejected m), (''dead_lettered'', m1_DeadLettered m), (''retry_pending'', m1_RetryPending m),
     (''simulation_fail'', m1_SimulationFail m), (''queue_rejects'', m1_QueueRejects m)]"

section \<open>Decision\<close>

record SimulationResult1 =
  r1_ProfitEth :: f64
  r1_LatencyMS :: int
  r1_Success :: bool
  r1_Reason :: string

record Decision1 =
  d1_Action :: string
  d1_Reason :: string
  d1_Score :: f64
  d1_ProfitEth :: f64
  d1_BlockHash :: string

definition blockHash1 :: "(string \<Rightarrow> string) \<Rightarrow> string \<Rightarrow> int \<Rightarrow> string" where
  "blockHash1 sha hash version = ''0x'' @ EncodeToString (take 8 (sha (hash @ '':'' @ show_int 10 version)))"

definition Decide1 :: "(string \<Rightarrow> string) \<Rightarrow> BundleRecord1 \<Rightarrow> SimulationResult1 \<Rightarrow> Decision1" where
  "Decide1 sha rec sim =
     (let score = r1_ProfitEth sim in
      if r1_Success sim \<and> f_lt (FZero False) score
      then \<lparr> d1_Action = ''forward'', d1_Reason = ''profitable'', d1_Score = score, d1_ProfitEth = r1_ProfitEth sim,
             d1_BlockHash = blockHash1 sha (b1_BundleHash rec) (b1_Version rec) \<rparr>
      else \<lparr> d1_Action = ''reject'', d1_Reason = r1_Reason sim, d1_Score = score, d1_ProfitEth = r1_ProfitEth sim,
             d1_BlockHash = [] \<rparr>)"

section \<open>Simulation backend\<close>

text \<open>
  An error carries whether it is the backend's retryable error. The HTTP client is a parameter: whether the request can be
  built for a URL, what the exchange returns, and the JSON decoder (the error message of the reply, if it has one).
\<close>

type_synonym sim_error = "bool \<times> string"

record Rpc1 =
  rp_newRequest :: "string \<Rightarrow> string option"
  rp_do :: "string \<Rightarrow> string + int \<times> string"
  rp_decode :: "string \<Rightarrow> string + string option"

definition retryable :: "sim_error \<Rightarrow> bool" where
  "retryable err = fst err"

definition Anvil_call :: "Rpc1 \<Rightarrow> string \<Rightarrow> sim_error + string" where
  "Anvil_call rp url =
     (if url = [] then Inl (True, ''missing rpc url'')
      else case rp_newRequest rp url of
          Some e \<Rightarrow> Inl (False, e)
        | None \<Rightarrow> (case rp_do rp url of
            Inl e \<Rightarrow> Inl (True, ''backend unavailable: '' @ e)
          | Inr (status, body) \<Rightarrow>
              (if status \<ge> 500 then Inl (True, ''backend status '' @ show_int 10 status) else Inr body)))"

definition Anvil_Simulate :: "Rpc1 \<Rightarrow> string \<Rightarrow> BundleRecord1 \<Rightarrow> sim_error + SimulationResult1" where
  "Anvil_Simulate rp url rec = (case Anvil_call rp url of
       Inl err \<Rightarrow> Inl err
     | Inr body \<Rightarrow> (case rp_decode rp body of
         Inl e \<Rightarrow> Inl (True, ''backend decode: '' @ e)
       | Inr (Some message) \<Rightarrow> Inl (True, message)
       | Inr None \<Rightarrow>
           (let txCount = int (length (bq_Txs (b1_Request rec))); success = (txCount > 0) in
            Inr \<lparr> r1_ProfitEth = f_mul (f_of_int txCount) (f_const 1 1000), r1_LatencyMS = 10 + txCount * 3, r1_Success = success,
                  r1_Reason = (if \<not> success then ''empty bundle'' else ''ok'') \<rparr>)))"

definition Anvil_Ping :: "Rpc1 \<Rightarrow> string \<Rightarrow> sim_error option" where
  "Anvil_Ping rp url = (case Anvil_call rp url of Inl err \<Rightarrow> Some err | Inr _ \<Rightarrow> None)"

section \<open>Per-client counters\<close>

definition Inc1 :: "string \<Rightarrow> int \<Rightarrow> (string, int) gomap \<Rightarrow> bool \<times> (string, int) gomap" where
  "Inc1 key limit m =
     (let n = gm_get0 0 m key + 1 in
      if n > limit then (False, gm_set m key (n - 1)) else (True, gm_set m key n))"

definition Dec1 :: "string \<Rightarrow> (string, int) gomap \<Rightarrow> (string, int) gomap" where
  "Dec1 key m = (case gm_get m key of Some v \<Rightarrow> gm_set m key (v - 1) | None \<Rightarrow> m)"

section \<open>Service\<close>

record En1 =
  n_io :: io_oracle
  n_cd :: Codec1
  n_sha :: "string \<Rightarrow> string"
  n_clk :: "nat \<Rightarrow> gtime"

text \<open>A pending retry: the bundle, its client, its retry count and the delay of its timer.\<close>

type_synonym timer1 = "string \<times> string \<times> int \<times> duration"

record Service1 =
  v_cfg :: Config1
  v_store :: FileStore1
  v_metrics :: Metrics1
  v_queue :: "string list"
  v_clients :: "(string, int) gomap"
  v_timers :: "timer1 list"
  v_ticks :: nat

text \<open>\<^verbatim>\<open>make(chan string, n)\<close> panics for a negative size.\<close>

definition New1 :: "Config1 \<Rightarrow> FileStore1 \<Rightarrow> Service1 option" where
  "New1 cfg st =
     (if c1_QueueDepth cfg < 0 then None
      else Some \<lparr> v_cfg = cfg, v_store = st, v_metrics = zero_metrics1, v_queue = [], v_clients = [], v_timers = [], v_ticks = 0 \<rparr>)"

definition bundleHash1 :: "(string \<Rightarrow> string) \<Rightarrow> BundleRequest \<Rightarrow> string" where
  "bundleHash1 sha p = ''0x'' @ EncodeToString (take 16 (sha
     (concat (bq_Txs p) @ bq_BlockNumber p @ (case bq_Replacement p of None \<Rightarrow> [] | Some r \<Rightarrow> r))))"

definition bundleID1 :: "(string \<Rightarrow> string) \<Rightarrow> string \<Rightarrow> int \<Rightarrow> string" where
  "bundleID1 sha hash reqID = ''0x'' @ EncodeToString (take 12 (sha (hash @ '':'' @ show_int 10 reqID)))"

text \<open>A call of the store with the time it reads.\<close>

definition on_store1 :: "En1 \<Rightarrow> (gtime \<Rightarrow> FileStore1 \<Rightarrow> 'r \<times> FileStore1) \<Rightarrow> Service1 \<Rightarrow> 'r \<times> Service1" where
  "on_store1 en f s = (let (r, fs) = f (n_clk en (v_ticks s)) (v_store s) in (r, s\<lparr> v_store := fs, v_ticks := v_ticks s + 1 \<rparr>))"

definition tr1 :: "En1 \<Rightarrow> string \<Rightarrow> BundleState \<Rightarrow> BundleState \<Rightarrow> string \<Rightarrow> Service1 \<Rightarrow> (string + BundleRecord1) \<times> Service1" where
  "tr1 en k src dst reason = on_store1 en (\<lambda>now. store1_Transition (n_io en) (n_cd en) now k src dst reason)"

definition count1 :: "(Metrics1 \<Rightarrow> Metrics1) \<Rightarrow> Service1 \<Rightarrow> Service1" where
  "count1 f s = s\<lparr> v_metrics := f (v_metrics s) \<rparr>"

definition free1 :: "string \<Rightarrow> Service1 \<Rightarrow> Service1" where
  "free1 clientID s = s\<lparr> v_clients := Dec1 clientID (v_clients s) \<rparr>"

text \<open>The \<^verbatim>\<open>select\<close> with a \<^verbatim>\<open>default\<close>: the send succeeds while the channel has room.\<close>

definition try_enqueue1 :: "string \<Rightarrow> Service1 \<Rightarrow> Service1 option" where
  "try_enqueue1 k s =
     (if int (length (v_queue s)) < c1_QueueDepth (v_cfg s) then Some (s\<lparr> v_queue := v_queue s @ [k] \<rparr>) else None)"

definition enqueue1 :: "En1 \<Rightarrow> BundleRecord1 \<Rightarrow> string \<Rightarrow> Service1 \<Rightarrow> (BundleRecord1 option \<times> string option) \<times> Service1" where
  "enqueue1 en rec clientID s = (case tr1 en (b1_ID rec) StateValidated StateQueued ''queued'' s of
       (Inl e, s) \<Rightarrow> ((None, Some e), free1 clientID s)
     | (Inr rec, s) \<Rightarrow> (case try_enqueue1 (b1_ID rec) s of
         Some s \<Rightarrow> ((Some rec, None), count1 (\<lambda>m. m\<lparr> m1_Queued := m1_Queued m + 1 \<rparr>) s)
       | None \<Rightarrow> (case tr1 en (b1_ID rec) StateQueued StateRejected ''queue overflow'' s of
           (Inl e, s) \<Rightarrow> ((None, Some e), free1 clientID s)
         | (Inr rec, s) \<Rightarrow> ((Some rec, Some ''queue overflow''),
             free1 clientID (count1 (\<lambda>m. m\<lparr> m1_QueueRejects := m1_QueueRejects m + 1, m1_Rejected := m1_Rejected m + 1 \<rparr>) s)))))"

definition admit1 :: "En1 \<Rightarrow> BundleRecord1 \<Rightarrow> string \<Rightarrow> Service1 \<Rightarrow> (BundleRecord1 option \<times> string option) \<times> Service1" where
  "admit1 en rec clientID s =
     (let (ok, m) = Inc1 clientID (c1_MaxInFlightPerClient (v_cfg s)) (v_clients s); s = s\<lparr> v_clients := m \<rparr> in
      if \<not> ok
      then (case tr1 en (b1_ID rec) StateValidated StateRejected ''client inflight limit'' s of
              (Inl e, s) \<Rightarrow> ((None, Some e), s)
            | (Inr rec, s) \<Rightarrow> ((Some rec, Some ''client inflight limit''),
                count1 (\<lambda>m. m\<lparr> m1_Rejected := m1_Rejected m + 1 \<rparr>) s))
      else enqueue1 en rec clientID s)"

definition new_record1 :: "(string \<Rightarrow> string) \<Rightarrow> BundleRequest \<Rightarrow> int \<Rightarrow> string \<Rightarrow> BundleRecord1" where
  "new_record1 sha p reqID clientID =
     (let hash = bundleHash1 sha p in
      \<lparr> b1_ID = bundleID1 sha hash reqID, b1_BundleHash = hash, b1_Request = p, b1_ClientID = clientID, b1_State = StateReceived,
        b1_RetryCount = 0, b1_Score = FZero False, b1_ProfitEth = FZero False, b1_Reason = ''received'', b1_Terminal = [],
        b1_Version = 0, b1_CreatedAt = 0, b1_UpdatedAt = 0, b1_QueuedAt = 0, b1_SimulatedAt = 0, b1_CompletedAt = 0 \<rparr>)"

definition accept1 :: "En1 \<Rightarrow> BundleRecord1 \<Rightarrow> string \<Rightarrow> Service1 \<Rightarrow> (BundleRecord1 option \<times> string option) \<times> Service1" where
  "accept1 en rec clientID s = (case on_store1 en (\<lambda>now. store1_Create (n_io en) (n_cd en) now rec) s of
       (Inl e, s) \<Rightarrow> ((None, Some e), s)
     | (Inr rec, s) \<Rightarrow> (case tr1 en (b1_ID rec) StateReceived StateValidated ''validated''
           (count1 (\<lambda>m. m\<lparr> m1_Received := m1_Received m + 1 \<rparr>) s) of
         (Inl e, s) \<Rightarrow> ((None, Some e), s)
       | (Inr rec, s) \<Rightarrow> admit1 en rec clientID s))"

definition submitWithIdentity1 ::
  "En1 \<Rightarrow> JSONRPCRequest \<Rightarrow> string \<Rightarrow> Service1 \<Rightarrow> (BundleRecord1 option \<times> string option) \<times> Service1" where
  "submitWithIdentity1 en req clientID s =
     (if jr_JSONRPC req \<noteq> [] \<and> jr_JSONRPC req \<noteq> ''2.0'' then ((None, Some ''invalid jsonrpc version''), s)
      else if jr_Method req \<noteq> [] \<and> jr_Method req \<noteq> ''eth_sendBundle'' then ((None, Some ''invalid method''), s)
      else case jr_Params req of
          [] \<Rightarrow> ((None, Some ''missing params''), s)
        | p # _ \<Rightarrow>
            (if bq_Txs p = [] then ((None, Some ''missing txs''), s)
             else accept1 en (new_record1 (n_sha en) p (jr_ID req) clientID) clientID s))"

definition Submit1 :: "En1 \<Rightarrow> JSONRPCRequest \<Rightarrow> Service1 \<Rightarrow> (BundleRecord1 option \<times> string option) \<times> Service1" where
  "Submit1 en req s = submitWithIdentity1 en req ''anonymous'' s"

definition Service1_Get :: "string \<Rightarrow> Service1 \<Rightarrow> BundleRecord1 option" where
  "Service1_Get k s = store1_Get k (v_store s)"

definition Service1_Snapshot ::
  "((string \<times> BundleRecord1) list \<Rightarrow> (string \<times> BundleRecord1) list) \<Rightarrow> Service1 \<Rightarrow> BundleRecord1 list \<times> (string, int) gomap" where
  "Service1_Snapshot ord s = (store1_List ord (v_store s), Metrics1_Snapshot (v_metrics s))"

section \<open>Workers and retries\<close>

text \<open>A bundle goes to the dead letters and is completed; its slot is freed whatever fails.\<close>

definition dead_letter1 :: "En1 \<Rightarrow> string \<Rightarrow> BundleState \<Rightarrow> string \<Rightarrow> string \<Rightarrow> Service1 \<Rightarrow> Service1" where
  "dead_letter1 en k src reason clientID s = (case tr1 en k src StateDeadLetter reason s of
       (Inl _, s) \<Rightarrow> free1 clientID s
     | (Inr _, s) \<Rightarrow> (case tr1 en k StateDeadLetter StatePersisted ''persisted dead letter'' s of
         (Inl _, s) \<Rightarrow> free1 clientID s
       | (Inr _, s) \<Rightarrow> (case tr1 en k StatePersisted StateCompleted ''completed'' s of
           (Inl _, s) \<Rightarrow> free1 clientID s
         | (Inr _, s) \<Rightarrow> free1 clientID (count1 (\<lambda>m. m\<lparr> m1_DeadLettered := m1_DeadLettered m + 1 \<rparr>) s))))"

definition schedule_timer1 :: "string \<Rightarrow> string \<Rightarrow> int \<Rightarrow> Service1 \<Rightarrow> Service1" where
  "schedule_timer1 k clientID retryCount s =
     s\<lparr> v_timers := v_timers s @ [(k, clientID, retryCount, wrap64 (c1_RetryBackoff (v_cfg s) * retryCount))] \<rparr>"

definition currentTerminalState1 :: "string \<Rightarrow> Service1 \<Rightarrow> BundleState" where
  "currentTerminalState1 k s = (case store1_Get k (v_store s) of
       None \<Rightarrow> StateRejected
     | Some rec \<Rightarrow> (if b1_State rec \<in> {StateForwarded, StateRejected, StateDeadLetter} then b1_State rec else StateRejected))"

text \<open>The first half of \<^verbatim>\<open>process\<close>: \<open>None\<close> when it returns without simulating.\<close>

definition process_pick :: "En1 \<Rightarrow> string \<Rightarrow> Service1 \<Rightarrow> BundleRecord1 option \<times> Service1" where
  "process_pick en k s = (case store1_Get k (v_store s) of
       None \<Rightarrow> (None, s)
     | Some rec \<Rightarrow> (case tr1 en (b1_ID rec) StateQueued StateSimulating ''picked'' s of
         (Inl _, s) \<Rightarrow> (None, s)
       | (Inr _, s) \<Rightarrow> (Some rec, s)))"

definition process_failed :: "En1 \<Rightarrow> string \<Rightarrow> BundleRecord1 \<Rightarrow> sim_error \<Rightarrow> Service1 \<Rightarrow> Service1" where
  "process_failed en k rec err s0 =
     (let s = count1 (\<lambda>m. m\<lparr> m1_SimulationFail := m1_SimulationFail m + 1 \<rparr>) s0; clientID = b1_ClientID rec in
      if retryable err \<and> b1_RetryCount rec < c1_MaxRetries (v_cfg s)
      then (case tr1 en k StateSimulating StateRetryPending ''transient failure'' s of
              (Inl _, s) \<Rightarrow> free1 clientID s
            | (Inr rec, s) \<Rightarrow>
                (case on_store1 en (\<lambda>now. store1_UpdateRetryCount (n_io en) (n_cd en) now k (b1_RetryCount rec + 1)) s of
                   (Inl _, s) \<Rightarrow> free1 clientID s
                 | (Inr rec, s) \<Rightarrow> schedule_timer1 (b1_ID rec) (b1_ClientID rec) (b1_RetryCount rec)
                     (count1 (\<lambda>m. m\<lparr> m1_RetryPending := m1_RetryPending m + 1 \<rparr>) s)))
      else dead_letter1 en k StateSimulating (snd err) clientID s)"

text \<open>The result is written, the bundle persisted and completed.\<close>

definition process_result :: "En1 \<Rightarrow> string \<Rightarrow> string \<Rightarrow> Decision1 \<Rightarrow> Service1 \<Rightarrow> Service1" where
  "process_result en k clientID d s =
     (case on_store1 en (\<lambda>now. store1_UpdateResult (n_io en) (n_cd en) now k (d1_Score d) (d1_ProfitEth d) (d1_Reason d)) s of
        (Inl _, s) \<Rightarrow> free1 clientID s
      | (Inr _, s) \<Rightarrow> (case tr1 en k (currentTerminalState1 k s) StatePersisted ''persisted'' s of
          (Inl _, s) \<Rightarrow> free1 clientID s
        | (Inr _, s) \<Rightarrow> (case tr1 en k StatePersisted StateCompleted ''completed'' s of
            (Inl _, s) \<Rightarrow> free1 clientID s
          | (Inr _, s) \<Rightarrow> free1 clientID (count1 (\<lambda>m. m\<lparr> m1_Simulated := m1_Simulated m + 1 \<rparr>) s))))"

definition process_decided :: "En1 \<Rightarrow> string \<Rightarrow> string \<Rightarrow> Decision1 \<Rightarrow> Service1 \<Rightarrow> Service1" where
  "process_decided en k clientID d s =
     (if d1_Action d = ''forward''
      then (case tr1 en k StateScored StateForwarded (d1_Reason d) s of
              (Inl _, s) \<Rightarrow> free1 clientID s
            | (Inr _, s) \<Rightarrow> process_result en k clientID d (count1 (\<lambda>m. m\<lparr> m1_Forwarded := m1_Forwarded m + 1 \<rparr>) s))
      else (case tr1 en k StateScored StateRejected (d1_Reason d) s of
              (Inl _, s) \<Rightarrow> free1 clientID s
            | (Inr _, s) \<Rightarrow> process_result en k clientID d (count1 (\<lambda>m. m\<lparr> m1_Rejected := m1_Rejected m + 1 \<rparr>) s)))"

definition process_settle :: "En1 \<Rightarrow> string \<Rightarrow> BundleRecord1 \<Rightarrow> sim_error + SimulationResult1 \<Rightarrow> Service1 \<Rightarrow> Service1" where
  "process_settle en k rec outcome s = (case outcome of
       Inl err \<Rightarrow> process_failed en k rec err s
     | Inr sim \<Rightarrow> (case tr1 en k StateSimulating StateSimulated (r1_Reason sim) s of
         (Inl _, s) \<Rightarrow> free1 (b1_ClientID rec) s
       | (Inr _, s) \<Rightarrow> (case tr1 en k StateSimulated StateScored ''scored'' s of
           (Inl _, s) \<Rightarrow> free1 (b1_ClientID rec) s
         | (Inr _, s) \<Rightarrow> process_decided en k (b1_ClientID rec) (Decide1 (n_sha en) rec sim) s)))"

definition process1 :: "En1 \<Rightarrow> (BundleRecord1 \<Rightarrow> sim_error + SimulationResult1) \<Rightarrow> string \<Rightarrow> Service1 \<Rightarrow> Service1" where
  "process1 en simulate k s = (case process_pick en k s of
       (None, s) \<Rightarrow> s
     | (Some rec, s) \<Rightarrow> process_settle en k rec (simulate rec) s)"

text \<open>The function the timer of \<^verbatim>\<open>scheduleRetry\<close> runs.\<close>

definition retry_fire :: "En1 \<Rightarrow> string \<Rightarrow> string \<Rightarrow> int \<Rightarrow> Service1 \<Rightarrow> Service1" where
  "retry_fire en k clientID retryCount s = (case store1_Get k (v_store s) of
       None \<Rightarrow> s
     | Some rec \<Rightarrow>
         if b1_State rec \<noteq> StateRetryPending then s
         else if retryCount > c1_MaxRetries (v_cfg s)
         then dead_letter1 en k StateRetryPending ''retry exhausted'' clientID s
         else (case tr1 en k StateRetryPending StateQueued ''retry queued'' s of
             (Inl _, s) \<Rightarrow> free1 clientID s
           | (Inr _, s) \<Rightarrow> (case try_enqueue1 k s of
               Some s \<Rightarrow> s
             | None \<Rightarrow> dead_letter1 en k StateQueued ''retry queue overflow'' clientID s)))"

end
