(* ===== verification/Relay1_Invariant.thy ===== *)
theory Relay1_Invariant
  imports Relay1_Service
begin

text \<open>
  The running relay v1: submissions, workers and retry timers in any order, on a file system and encoders that may fail at any
  call. A worker's simulation is apart from its other two steps, and timers fire whenever they like.

  \<open>quiet k\<close> relates states that differ at most in bundle \<open>k\<close>'s record, the clock and the counters; \<open>freed\<close> adds
  the release of one slot. Every method is summarised in these terms, and the invariant of the reachable states rests on the summaries alone.
\<close>

section \<open>Steps\<close>

record Sys1 =
  y_svc :: Service1
  y_running :: "(string \<times> BundleRecord1) list"

inductive sys1_step :: "En1 \<Rightarrow> Sys1 \<Rightarrow> Sys1 \<Rightarrow> bool" for en :: En1 where
  submit: "submitWithIdentity1 en req c (y_svc y) = (r, s') \<Longrightarrow> sys1_step en y (y\<lparr> y_svc := s' \<rparr>)"
| pick: "v_queue (y_svc y) = k # q \<Longrightarrow> process_pick en k ((y_svc y)\<lparr> v_queue := q \<rparr>) = (Some rec, s') \<Longrightarrow>
    int (length (y_running y)) < c1_WorkerCount (v_cfg (y_svc y)) \<Longrightarrow>
    sys1_step en y (y\<lparr> y_svc := s', y_running := y_running y @ [(k, rec)] \<rparr>)"
| drop: "v_queue (y_svc y) = k # q \<Longrightarrow> process_pick en k ((y_svc y)\<lparr> v_queue := q \<rparr>) = (None, s') \<Longrightarrow>
    int (length (y_running y)) < c1_WorkerCount (v_cfg (y_svc y)) \<Longrightarrow> sys1_step en y (y\<lparr> y_svc := s' \<rparr>)"
| settle: "y_running y = xs @ (k, rec) # zs \<Longrightarrow>
    sys1_step en y (y\<lparr> y_svc := process_settle en k rec outcome (y_svc y), y_running := xs @ zs \<rparr>)"
| fire: "v_timers (y_svc y) = xs @ (k, c, n, d) # zs \<Longrightarrow>
    sys1_step en y (y\<lparr> y_svc := retry_fire en k c n ((y_svc y)\<lparr> v_timers := xs @ zs \<rparr>) \<rparr>)"

inductive_cases sys1_stepE: "sys1_step en y y'"

definition start1 :: "Service1 \<Rightarrow> Sys1" where
  "start1 s = \<lparr> y_svc = s, y_running = [] \<rparr>"

section \<open>What a call changes\<close>

abbreviation recs1 :: "Service1 \<Rightarrow> string \<Rightarrow> BundleRecord1 option" where
  "recs1 s k \<equiv> gm_get (fs_records (v_store s)) k"

abbreviation cnt1 :: "Service1 \<Rightarrow> string \<Rightarrow> int" where
  "cnt1 s c \<equiv> gm_get0 0 (v_clients s) c"

definition quiet :: "string \<Rightarrow> Service1 \<Rightarrow> Service1 \<Rightarrow> bool" where
  "quiet k s s' \<longleftrightarrow> v_cfg s' = v_cfg s \<and> v_queue s' = v_queue s \<and> (\<forall>c. cnt1 s' c = cnt1 s c) \<and> v_timers s' = v_timers s \<and>
     (\<forall>j. j \<noteq> k \<longrightarrow> recs1 s' j = recs1 s j)"

definition freed :: "string \<Rightarrow> string \<Rightarrow> Service1 \<Rightarrow> Service1 \<Rightarrow> bool" where
  "freed k c s s' \<longleftrightarrow> (\<exists>t. quiet k s t \<and> s' = free1 c t)"

definition in_state :: "Service1 \<Rightarrow> string \<Rightarrow> BundleState \<Rightarrow> string \<Rightarrow> int \<Rightarrow> bool" where
  "in_state s k q c n \<longleftrightarrow> (\<exists>r. recs1 s k = Some r \<and> b1_State r = q \<and> b1_ID r = k \<and> b1_ClientID r = c \<and> b1_RetryCount r = n)"

lemma in_state_code [code]:
  "in_state s k q c n \<longleftrightarrow> (case recs1 s k of
     None \<Rightarrow> False
   | Some r \<Rightarrow> b1_State r = q \<and> b1_ID r = k \<and> b1_ClientID r = c \<and> b1_RetryCount r = n)"
  by (auto simp: in_state_def split: option.splits)

text \<open>No file operation and no encoder fails.\<close>

definition never_fails :: "En1 \<Rightarrow> bool" where
  "never_fails en \<longleftrightarrow> (\<forall>n. n_io en n = None) \<and> (\<forall>m. \<exists>s. cd_snapshot (n_cd en) m = Inr s) \<and> (\<forall>ev. \<exists>s. cd_event (n_cd en) ev = Inr s)"

lemma quiet_refl [simp, intro]: "quiet k s s"
  by (simp add: quiet_def)

lemma quiet_trans [trans]: "quiet k s t \<Longrightarrow> quiet k t u \<Longrightarrow> quiet k s u"
  by (simp add: quiet_def)

lemma quiet_freed [trans]: "quiet k s t \<Longrightarrow> freed k c t u \<Longrightarrow> freed k c s u"
  unfolding freed_def using quiet_trans by blast

lemma quiet_count [simp, intro]: "quiet k s t \<Longrightarrow> quiet k s (count1 f t)"
  by (simp add: quiet_def count1_def)

lemma recs_count [simp]: "v_store (count1 f s) = v_store s" "v_cfg (count1 f s) = v_cfg s" "v_queue (count1 f s) = v_queue s"
  "v_clients (count1 f s) = v_clients s" "v_timers (count1 f s) = v_timers s"
  by (simp_all add: count1_def)

lemma freedI [intro]: "quiet k s t \<Longrightarrow> freed k c s (free1 c t)"
  unfolding freed_def by blast

lemma commit1_quiet:
  assumes "commit1 io cd k rec ev fs = (r, fs')"
  shows "gm_get (fs_records fs') j = (if j = k then Some rec else gm_get (fs_records fs) j)"
  using commit1_cases(1) [OF assms] by simp

lemma commit1_result: "commit1 io cd k rec ev fs = (Inr rec', fs') \<Longrightarrow> rec' = rec"
  using commit1_cases(4) by blast

lemma commit1_never_fails:
  assumes "never_fails en"
  shows "\<exists>fs'. commit1 (n_io en) (n_cd en) k rec ev fs = (Inr rec, fs')"
proof -
  obtain s1 s2 where "cd_snapshot (n_cd en) (gm_set (fs_records fs) k rec) = Inr s1" "cd_event (n_cd en) ev = Inr s2"
    using assms unfolding never_fails_def by blast
  then show ?thesis
    using assms
    by (simp add: never_fails_def commit1_def persistLocked_def appendEvent1_def write_tmp_def rename_tmp_def open_audit_def write_audit_def
        os_call_def Let_def)
qed

lemma store1_Transition_cases:
  assumes "store1_Transition io cd now k src dst reason fs = (r, fs')"
  shows "j \<noteq> k \<Longrightarrow> gm_get (fs_records fs') j = gm_get (fs_records fs) j"
    and "r = Inr rec \<Longrightarrow> \<exists>old. gm_get (fs_records fs) k = Some old \<and> b1_State old = src \<and> CanTransition1 src dst \<and>
      gm_get (fs_records fs') k = Some rec \<and> b1_State rec = dst \<and> b1_ID rec = b1_ID old \<and> b1_ClientID rec = b1_ClientID old \<and>
      b1_RetryCount rec = b1_RetryCount old"
  using assms
  by (auto simp: store1_Transition_def ValidateTransition1_def Let_def commit1_quiet split: option.splits if_splits dest: commit1_result)

lemma tr1_quiet: "tr1 en k src dst reason s = (r, s') \<Longrightarrow> quiet k s s'"
  by (auto simp: tr1_def on_store1_def quiet_def split: prod.splits dest: store1_Transition_cases(1))

lemma tr1_store:
  "tr1 en k src dst reason s = (r, s') \<Longrightarrow>
   store1_Transition (n_io en) (n_cd en) (n_clk en (v_ticks s)) k src dst reason (v_store s) = (r, v_store s')"
  by (auto simp: tr1_def on_store1_def split: prod.splits)

lemma tr1_moved:
  assumes "tr1 en k src dst reason s = (Inr rec, s')" and "in_state s k q c n"
  shows "q = src \<and> in_state s' k dst c n \<and> b1_ID rec = k \<and> b1_ClientID rec = c \<and> b1_RetryCount rec = n"
proof -
  from assms(2) obtain r where "recs1 s k = Some r" "b1_State r = q" "b1_ID r = k" "b1_ClientID r = c" "b1_RetryCount r = n"
    unfolding in_state_def by blast
  with store1_Transition_cases(2) [OF tr1_store [OF assms(1)]] show ?thesis by (auto simp: in_state_def)
qed

lemma tr1_never_fails:
  assumes "never_fails en" and "in_state s k src c n" and "CanTransition1 src dst"
  shows "\<exists>rec s'. tr1 en k src dst reason s = (Inr rec, s')"
proof -
  from assms(2) obtain r where "recs1 s k = Some r" "b1_State r = src" unfolding in_state_def by blast
  then have "\<exists>rec fs'. store1_Transition (n_io en) (n_cd en) (n_clk en (v_ticks s)) k src dst reason (v_store s) = (Inr rec, fs')"
    using assms(3) commit1_never_fails [OF assms(1)] by (simp add: store1_Transition_def ValidateTransition1_def Let_def) blast
  then show ?thesis by (auto simp: tr1_def on_store1_def)
qed

text \<open>The two ways a call in the state the code expects can end.\<close>

lemma tr1_cases:
  assumes "in_state s k src c n"
  obtains (failed) e s' where "tr1 en k src dst reason s = (Inl e, s')" "quiet k s s'" "never_fails en \<Longrightarrow> \<not> CanTransition1 src dst"
  | (moved) rec s' where "tr1 en k src dst reason s = (Inr rec, s')" "quiet k s s'" "in_state s' k dst c n"
      "b1_ID rec = k" "b1_ClientID rec = c" "b1_RetryCount rec = n"
proof (cases "tr1 en k src dst reason s")
  case (Pair r s')
  show ?thesis
  proof (cases r)
    case (Inl e)
    have "never_fails en \<Longrightarrow> \<not> CanTransition1 src dst" using tr1_never_fails [OF _ assms, of en dst reason] Pair Inl by auto
    then show ?thesis using failed [of e s'] Pair Inl tr1_quiet [OF Pair] by blast
  next
    case (Inr rec)
    then show ?thesis using moved [of rec s'] Pair tr1_quiet [OF Pair] tr1_moved [OF Pair [unfolded Inr] assms] by blast
  qed
qed

section \<open>Summaries\<close>

lemma dead_letter1_freed: "freed k c s (dead_letter1 en k src reason c s)"
  unfolding dead_letter1_def
  by (auto split: sum.splits prod.splits dest!: tr1_quiet intro!: freedI quiet_count intro: quiet_trans)

lemma UpdateResult_quiet:
  "on_store1 en (\<lambda>now. store1_UpdateResult (n_io en) (n_cd en) now k x y z) s = (r, t) \<Longrightarrow> quiet k s t"
  by (auto simp: on_store1_def store1_UpdateResult_def quiet_def Let_def commit1_quiet split: prod.splits option.splits)

lemma process_result_freed: "freed k c s (process_result en k c d s)"
  unfolding process_result_def
  by (auto split: sum.splits prod.splits dest!: tr1_quiet UpdateResult_quiet intro!: freedI quiet_count intro: quiet_trans)

lemma process_decided_freed: "freed k c s (process_decided en k c d s)"
  unfolding process_decided_def
  by (auto split: sum.splits prod.splits dest!: tr1_quiet intro!: freedI intro: quiet_freed [OF _ process_result_freed])

lemma UpdateRetryCount_moved:
  assumes "on_store1 en (\<lambda>now. store1_UpdateRetryCount (n_io en) (n_cd en) now k i) s = (r, t)"
  shows "quiet k s t"
    and "in_state s k q c n \<Longrightarrow> r = Inr rec \<Longrightarrow> in_state t k q c i \<and> b1_ID rec = k \<and> b1_ClientID rec = c \<and> b1_RetryCount rec = i"
  using assms
  by (auto simp: on_store1_def store1_UpdateRetryCount_def quiet_def in_state_def Let_def commit1_quiet split: prod.splits option.splits
      dest: commit1_result)

lemma process_settle_summary:
  assumes "in_state s k StateSimulating (b1_ClientID rec) (b1_RetryCount rec)" and "process_settle en k rec outcome s = s'"
  obtains "freed k (b1_ClientID rec) s s'"
  | t d n where "quiet k s t" "in_state t k StateRetryPending (b1_ClientID rec) n" "n \<le> c1_MaxRetries (v_cfg s)"
      "s' = t\<lparr> v_timers := v_timers t @ [(k, b1_ClientID rec, n, d)] \<rparr>"
proof (cases outcome)
  case (Inr sim)
  then have "freed k (b1_ClientID rec) s s'"
    using assms(2) unfolding process_settle_def
    by (auto split: sum.splits prod.splits dest!: tr1_quiet intro!: freedI intro: quiet_freed [OF _ process_decided_freed] quiet_trans)
  then show ?thesis by (rule that(1))
next
  case (Inl err)
  let ?s = "count1 (\<lambda>m. m\<lparr> m1_SimulationFail := m1_SimulationFail m + 1 \<rparr>) s"
  have q0: "quiet k s ?s" and in0: "in_state ?s k StateSimulating (b1_ClientID rec) (b1_RetryCount rec)"
    using assms(1) by (auto simp: in_state_def)
  show ?thesis
  proof (cases "retryable err \<and> b1_RetryCount rec < c1_MaxRetries (v_cfg s)")
    case False
    then have "s' = dead_letter1 en k StateSimulating (snd err) (b1_ClientID rec) ?s"
      using assms(2) Inl by (auto simp: process_settle_def process_failed_def Let_def)
    then show ?thesis using quiet_freed [OF q0 dead_letter1_freed] that(1) by blast
  next
    case True
    obtain r1 s1 where 1: "tr1 en k StateSimulating StateRetryPending ''transient failure'' ?s = (r1, s1)" by fastforce
    show ?thesis
    proof (cases r1)
      case (Inl e)
      then have "s' = free1 (b1_ClientID rec) s1" using assms(2) \<open>outcome = Inl err\<close> True 1
        by (simp add: process_settle_def process_failed_def)
      then show ?thesis using that(1) quiet_trans [OF q0 tr1_quiet [OF 1]] by blast
    next
      case (Inr rec1)
      note m1 = tr1_moved [OF 1 [unfolded Inr] in0]
      obtain r2 s2 where 2: "on_store1 en (\<lambda>now. store1_UpdateRetryCount (n_io en) (n_cd en) now k (b1_RetryCount rec1 + 1)) s1 = (r2, s2)"
        by fastforce
      have q2: "quiet k s s2" using quiet_trans [OF quiet_trans [OF q0 tr1_quiet [OF 1]] UpdateRetryCount_moved(1) [OF 2]] .
      show ?thesis
      proof (cases r2)
        case (Inl e)
        then have "s' = free1 (b1_ClientID rec) s2" using assms(2) \<open>outcome = Inl err\<close> True 1 2 Inr
          by (simp add: process_settle_def process_failed_def)
        then show ?thesis using that(1) q2 by blast
      next
        case (Inr rec2)
        note m2 = UpdateRetryCount_moved(2) [OF 2 conjunct1 [OF conjunct2 [OF m1]] Inr]
        let ?t = "count1 (\<lambda>m. m\<lparr> m1_RetryPending := m1_RetryPending m + 1 \<rparr>) s2"
        have "s' = schedule_timer1 (b1_ID rec2) (b1_ClientID rec2) (b1_RetryCount rec2) ?t"
          using assms(2) \<open>outcome = Inl err\<close> True 1 2 Inr \<open>r1 = Inr rec1\<close>
          by (simp add: process_settle_def process_failed_def)
        then show ?thesis
          using that(2) [of ?t "b1_RetryCount rec2"] q2 m1 m2 True by (auto simp: schedule_timer1_def in_state_def)
      qed
    qed
  qed
qed

lemma retry_fire_summary:
  assumes "in_state s k StateRetryPending c n" and "n \<le> c1_MaxRetries (v_cfg s)" and "retry_fire en k c n s = s'"
  obtains "freed k c s s'"
  | t where "quiet k s t" "in_state t k StateQueued c n" "int (length (v_queue s)) < c1_QueueDepth (v_cfg s)"
      "s' = t\<lparr> v_queue := v_queue t @ [k] \<rparr>"
proof -
  have g: "\<exists>rec. store1_Get k (v_store s) = Some rec \<and> b1_State rec = StateRetryPending"
    using assms(1) by (auto simp: in_state_def store1_Get_def)
  show ?thesis
  proof (cases rule: tr1_cases [OF assms(1), where en = en and dst = StateQueued and reason = "''retry queued''", case_names failed moved])
    case (failed e t)
    then have "s' = free1 c t" using assms(2,3) g by (auto simp: retry_fire_def)
    then show ?thesis using failed(2) that(1) by blast
  next
    case (moved rec t)
    show ?thesis
    proof (cases "int (length (v_queue t)) < c1_QueueDepth (v_cfg t)")
      case True
      then have "s' = t\<lparr> v_queue := v_queue t @ [k] \<rparr>"
        using assms(2,3) g moved(1) by (auto simp: retry_fire_def try_enqueue1_def)
      then show ?thesis using that(2) moved True by (auto simp: quiet_def)
    next
      case False
      then have "s' = dead_letter1 en k StateQueued ''retry queue overflow'' c t"
        using assms(2,3) g moved(1) by (auto simp: retry_fire_def try_enqueue1_def)
      then show ?thesis using quiet_freed [OF moved(2) dead_letter1_freed] that(1) by blast
    qed
  qed
qed

lemma process_pick_summary:
  assumes "in_state s k StateQueued c n" and "process_pick en k s = (r, s')"
  obtains "r = None" "quiet k s s'" "\<not> never_fails en"
  | rec where "r = Some rec" "quiet k s s'" "in_state s' k StateSimulating c n" "b1_ClientID rec = c" "b1_RetryCount rec = n"
proof -
  obtain old where old: "store1_Get k (v_store s) = Some old" "b1_ID old = k" "b1_ClientID old = c" "b1_RetryCount old = n"
    using assms(1) by (auto simp: in_state_def store1_Get_def)
  have can: "CanTransition1 StateQueued StateSimulating" by (simp add: CanTransition1_def)
  show ?thesis
    by (cases rule: tr1_cases [OF assms(1), where en = en and dst = StateSimulating and reason = "''picked''"])
      (use assms(2) old that can in \<open>auto simp: process_pick_def\<close>)
qed

lemma Create_cases:
  assumes "on_store1 en (\<lambda>now. store1_Create (n_io en) (n_cd en) now rec) s = (r, t)"
  shows "quiet (b1_ID rec) s t"
    and "recs1 s (b1_ID rec) \<noteq> None \<Longrightarrow> (\<exists>e. r = Inl e) \<and> recs1 t (b1_ID rec) = recs1 s (b1_ID rec)"
    and "r = Inr rec' \<Longrightarrow> recs1 s (b1_ID rec) = None \<and> b1_ID rec' = b1_ID rec \<and>
      in_state t (b1_ID rec) (b1_State rec) (b1_ClientID rec) (b1_RetryCount rec)"
  using assms
  by (auto simp: on_store1_def store1_Create_def quiet_def in_state_def Let_def commit1_quiet split: prod.splits if_splits
      dest: commit1_result)

lemma cnt_free: "1 \<le> cnt1 s c \<Longrightarrow> cnt1 (free1 c s) c' = cnt1 s c' - (if c' = c then 1 else 0)"
  by (auto simp: free1_def Dec1_def gm_get0_def split: option.splits)

lemma free1_fields [simp]: "v_cfg (free1 c s) = v_cfg s" "v_queue (free1 c s) = v_queue s" "v_timers (free1 c s) = v_timers s"
  "v_store (free1 c s) = v_store s"
  by (simp_all add: free1_def)

text \<open>A submission puts its bundle in the channel and takes a slot, or changes nothing but the record of its own new bundle.\<close>

definition enqueued :: "string \<Rightarrow> string \<Rightarrow> Service1 \<Rightarrow> Service1 \<Rightarrow> bool" where
  "enqueued k c s s' \<longleftrightarrow> in_state s' k StateQueued c 0 \<and> int (length (v_queue s)) < c1_QueueDepth (v_cfg s) \<and>
     v_queue s' = v_queue s @ [k] \<and> v_timers s' = v_timers s \<and> v_cfg s' = v_cfg s \<and>
     cnt1 s c < c1_MaxInFlightPerClient (v_cfg s) \<and> (\<forall>c'. cnt1 s' c' = cnt1 s c' + (if c' = c then 1 else 0)) \<and>
     (\<forall>j. j \<noteq> k \<longrightarrow> recs1 s' j = recs1 s j)"

definition idle_from :: "int \<Rightarrow> string \<Rightarrow> string \<Rightarrow> Service1 \<Rightarrow> Service1 \<Rightarrow> bool" where
  "idle_from i k c s s' \<longleftrightarrow> v_queue s' = v_queue s \<and> v_timers s' = v_timers s \<and> v_cfg s' = v_cfg s \<and>
     (\<forall>c'. cnt1 s' c' = cnt1 s c' - (if c' = c then i else 0)) \<and> (\<forall>j. j \<noteq> k \<longrightarrow> recs1 s' j = recs1 s j)"

lemma idle_quiet: "idle_from 0 k c s s' \<longleftrightarrow> quiet k s s'"
  by (auto simp: idle_from_def quiet_def)

lemma freed_idle: "freed k c s s' \<Longrightarrow> 1 \<le> cnt1 s c \<Longrightarrow> idle_from 1 k c s s'"
  unfolding freed_def idle_from_def quiet_def by (auto simp: cnt_free)

lemma enqueue1_summary:
  assumes "in_state s k StateValidated c 0" and "b1_ID rec = k" and "enqueue1 en rec c s = (r, s')"
  obtains "freed k c s s'" "never_fails en \<Longrightarrow> in_state s' k StateRejected c 0"
  | t where "quiet k s t" "in_state t k StateQueued c 0" "int (length (v_queue s)) < c1_QueueDepth (v_cfg s)"
      "s' = count1 (\<lambda>m. m\<lparr> m1_Queued := m1_Queued m + 1 \<rparr>) (t\<lparr> v_queue := v_queue t @ [k] \<rparr>)"
proof -
  have can: "CanTransition1 StateValidated StateQueued" "CanTransition1 StateQueued StateRejected" by (simp_all add: CanTransition1_def)
  show ?thesis
  proof (cases rule: tr1_cases [OF assms(1), where en = en and dst = StateQueued and reason = "''queued''", case_names failed moved])
    case (failed e t)
    then have "s' = free1 c t" using assms(2,3) by (auto simp: enqueue1_def)
    then show ?thesis using failed(2,3) can(1) that(1) by blast
  next
    case (moved rec1 t)
    show ?thesis
    proof (cases "int (length (v_queue t)) < c1_QueueDepth (v_cfg t)")
      case True
      then show ?thesis using that(2) [of t] assms(2,3) moved by (auto simp: enqueue1_def try_enqueue1_def quiet_def)
    next
      case False
      then have full: "try_enqueue1 (b1_ID rec1) t = None" by (simp add: try_enqueue1_def)
      show ?thesis
      proof (cases rule: tr1_cases [OF moved(3), where en = en and dst = StateRejected and reason = "''queue overflow''", case_names failed moved2])
        case (failed e u)
        then have "s' = free1 c u" using assms(2,3) moved full by (auto simp: enqueue1_def)
        then show ?thesis using quiet_trans [OF moved(2) failed(2)] failed(3) can(2) that(1) by blast
      next
        case (moved2 rec2 u)
        then have "s' = free1 c (count1 (\<lambda>m. m\<lparr> m1_QueueRejects := m1_QueueRejects m + 1, m1_Rejected := m1_Rejected m + 1 \<rparr>) u)"
          using assms(2,3) moved full by (auto simp: enqueue1_def)
        moreover have "in_state s' k StateRejected c 0" using calculation moved2(3) by (simp add: in_state_def)
        ultimately show ?thesis using quiet_count [OF quiet_trans [OF moved(2) moved2(2)]] that(1) by blast
      qed
    qed
  qed
qed

lemma admit1_summary:
  assumes "in_state s k StateValidated c 0" and "b1_ID rec = k" and "admit1 en rec c s = (r, s')" and "0 \<le> cnt1 s c"
  obtains "idle_from 0 k c s s'" "never_fails en \<Longrightarrow> in_state s' k StateRejected c 0" | "enqueued k c s s'"
proof (cases "cnt1 s c + 1 > c1_MaxInFlightPerClient (v_cfg s)")
  case True
  let ?s = "s\<lparr> v_clients := gm_set (v_clients s) c (cnt1 s c) \<rparr>"
  have cnt: "gm_get0 0 (gm_set (v_clients s) c (cnt1 s c)) c' = cnt1 s c'" for c' by (simp add: gm_get0_def)
  have q: "quiet k s ?s" by (simp add: quiet_def cnt)
  have i: "in_state ?s k StateValidated c 0" using assms(1) by (simp add: in_state_def)
  have can: "CanTransition1 StateValidated StateRejected" by (simp add: CanTransition1_def)
  show ?thesis
  proof (cases rule: tr1_cases [OF i, where en = en and dst = StateRejected and reason = "''client inflight limit''", case_names failed moved])
    case (failed e t)
    then have "s' = t" using assms(2,3) True by (auto simp: admit1_def Inc1_def)
    then show ?thesis using quiet_trans [OF q failed(2)] failed(3) can that(1) by (auto simp: idle_quiet)
  next
    case (moved rec1 t)
    then have "s' = count1 (\<lambda>m. m\<lparr> m1_Rejected := m1_Rejected m + 1 \<rparr>) t"
      using assms(2,3) True by (auto simp: admit1_def Inc1_def)
    moreover have "in_state s' k StateRejected c 0" using calculation moved(3) by (simp add: in_state_def)
    ultimately show ?thesis using quiet_count [OF quiet_trans [OF q moved(2)]] that(1) by (simp add: idle_quiet)
  qed
next
  case False
  let ?s = "s\<lparr> v_clients := gm_set (v_clients s) c (cnt1 s c + 1) \<rparr>"
  have cnt: "gm_get0 0 (gm_set (v_clients s) c (cnt1 s c + 1)) c' = cnt1 s c' + (if c' = c then 1 else 0)" for c'
    by (simp add: gm_get0_def)
  have i: "in_state ?s k StateValidated c 0" using assms(1) by (simp add: in_state_def)
  have e: "enqueue1 en rec c ?s = (r, s')" using assms(3) False by (simp add: admit1_def Inc1_def)
  show ?thesis
  proof (cases rule: enqueue1_summary [OF i assms(2) e, case_names freed queued])
    case freed
    then have "idle_from 1 k c ?s s'" using freed_idle [OF freed(1)] assms(4) by (simp add: cnt)
    then have "idle_from 0 k c s s'" by (simp add: idle_from_def cnt)
    then show ?thesis using freed(2) that(1) by blast
  next
    case (queued t)
    then have "enqueued k c s s'" using False by (simp add: enqueued_def quiet_def in_state_def cnt)
    then show ?thesis by (rule that(2))
  qed
qed

lemma quiet_idle: "quiet k s t \<Longrightarrow> idle_from 0 k c t u \<Longrightarrow> idle_from 0 k c s u"
  by (auto simp: idle_from_def quiet_def)

lemma quiet_enqueued: "quiet k s t \<Longrightarrow> enqueued k c t u \<Longrightarrow> enqueued k c s u"
  by (auto simp: enqueued_def quiet_def)

lemma Create_never_fails:
  assumes "never_fails en" and "recs1 s (b1_ID rec) = None"
  shows "\<exists>rec' t. on_store1 en (\<lambda>now. store1_Create (n_io en) (n_cd en) now rec) s = (Inr rec', t)"
proof -
  have "\<exists>rec' fs'. store1_Create (n_io en) (n_cd en) (n_clk en (v_ticks s)) rec (v_store s) = (Inr rec', fs')"
    using assms(2) commit1_never_fails [OF assms(1)] by (simp add: store1_Create_def Let_def) blast
  then show ?thesis by (auto simp: on_store1_def)
qed

lemma accept1_summary:
  assumes "accept1 en rec c s = (r, s')" and "0 \<le> cnt1 s c" and "recs1 s (b1_ID rec) = None"
    and "b1_State rec = StateReceived" and "b1_ClientID rec = c" and "b1_RetryCount rec = 0"
  obtains "idle_from 0 (b1_ID rec) c s s'" "never_fails en \<Longrightarrow> in_state s' (b1_ID rec) StateRejected c 0"
  | "enqueued (b1_ID rec) c s s'"
proof -
  let ?k = "b1_ID rec"
  obtain q t where 1: "on_store1 en (\<lambda>now. store1_Create (n_io en) (n_cd en) now rec) s = (q, t)" by fastforce
  note C = Create_cases [OF 1]
  show ?thesis
  proof (cases q)
    case (Inl e)
    then have "s' = t" "\<not> never_fails en" using assms(1) 1 Create_never_fails [OF _ assms(3)] by (fastforce simp: accept1_def)+
    then show ?thesis using that(1) C(1) by (auto simp: idle_quiet)
  next
    case (Inr rec1)
    let ?t = "count1 (\<lambda>m. m\<lparr> m1_Received := m1_Received m + 1 \<rparr>) t"
    have qt: "quiet ?k s ?t" using C(1) by blast
    have i: "in_state ?t ?k StateReceived c 0" and rid: "b1_ID rec1 = ?k" using C(3) [OF Inr] assms(4-6) by (auto simp: in_state_def)
    have can: "CanTransition1 StateReceived StateValidated" by (simp add: CanTransition1_def)
    show ?thesis
    proof (cases rule: tr1_cases [OF i, where en = en and dst = StateValidated and reason = "''validated''", case_names failed moved])
      case (failed e u)
      then have "s' = u" using assms(1) 1 Inr rid by (auto simp: accept1_def)
      then show ?thesis using that(1) quiet_trans [OF qt failed(2)] failed(3) can by (auto simp: idle_quiet)
    next
      case (moved rec2 u)
      have qu: "quiet ?k s u" by (rule quiet_trans [OF qt moved(2)])
      have a: "admit1 en rec2 c u = (r, s')" using assms(1) 1 Inr rid moved(1) by (auto simp: accept1_def)
      have "0 \<le> cnt1 u c" using assms(2) qu by (simp add: quiet_def)
      from admit1_summary [OF moved(3,4) a this] show ?thesis
        using that quiet_idle [OF qu] quiet_enqueued [OF qu] by metis
    qed
  qed
qed

lemma submit1_summary:
  assumes "submitWithIdentity1 en req c s = (r, s')" and "0 \<le> cnt1 s c"
  obtains (unchanged) k where "idle_from 0 k c s s'" "recs1 s' k = recs1 s k"
  | (rejected) k where "recs1 s k = None" "idle_from 0 k c s s'" "never_fails en \<Longrightarrow> in_state s' k StateRejected c 0"
  | (queued) k where "recs1 s k = None" "enqueued k c s s'"
proof (cases "s' = s")
  case True
  then have "idle_from 0 [] c s s'" "recs1 s' [] = recs1 s []" by (simp_all add: idle_quiet)
  then show ?thesis by (rule unchanged)
next
  case False
  then obtain p where a: "accept1 en (new_record1 (n_sha en) p (jr_ID req) c) c s = (r, s')"
    using assms(1) by (auto simp: submitWithIdentity1_def split: if_splits list.splits)
  let ?rec = "new_record1 (n_sha en) p (jr_ID req) c"
  have f: "b1_State ?rec = StateReceived" "b1_ClientID ?rec = c" "b1_RetryCount ?rec = 0" by (simp_all add: new_record1_def Let_def)
  show ?thesis
  proof (cases "recs1 s (b1_ID ?rec)")
    case None
    from accept1_summary [OF a assms(2) None f] show ?thesis using rejected [OF None] queued [OF None] by metis
  next
    case (Some old)
    obtain q t where 1: "on_store1 en (\<lambda>now. store1_Create (n_io en) (n_cd en) now ?rec) s = (q, t)" by fastforce
    have "s' = t" using a 1 Create_cases(2) [OF 1] Some by (auto simp: accept1_def)
    then have "idle_from 0 (b1_ID ?rec) c s s'" "recs1 s' (b1_ID ?rec) = recs1 s (b1_ID ?rec)"
      using Create_cases(1,2) [OF 1] Some by (simp_all add: idle_quiet)
    then show ?thesis by (rule unchanged)
  qed
qed

end
