(* ===== verification/Relay1_Props.thy ===== *)
theory Relay1_Props
  imports Relay1_Invariant
begin

text \<open>
  Properties of the running relay v1. A bundle is active while it is in the channel, being simulated, or waiting for its retry timer.
  The invariant says where active bundles are and that each holds a slot of its client; from it follow the bounds,
  the fact that only active bundles ever move again, and what a bundle that is not active can be.
\<close>

section \<open>The invariant\<close>

definition ids1 :: "Sys1 \<Rightarrow> string list" where
  "ids1 y = v_queue (y_svc y) @ map fst (y_running y) @ map fst (v_timers (y_svc y))"

definition claimed :: "Service1 \<Rightarrow> string list \<Rightarrow> string \<Rightarrow> int" where
  "claimed s ks c = int (length (filter (\<lambda>k. map_option b1_ClientID (recs1 s k) = Some c) ks))"

definition inv1 :: "bool \<Rightarrow> Sys1 \<Rightarrow> bool" where
  "inv1 exact y \<longleftrightarrow> (let s = y_svc y in
     distinct (ids1 y) \<and>
     (\<forall>k \<in> set (v_queue s). \<exists>c n. in_state s k StateQueued c n) \<and>
     (\<forall>(k, rec) \<in> set (y_running y). in_state s k StateSimulating (b1_ClientID rec) (b1_RetryCount rec)) \<and>
     (\<forall>(k, c, n, d) \<in> set (v_timers s). in_state s k StateRetryPending c n \<and> n \<le> c1_MaxRetries (v_cfg s)) \<and>
     int (length (v_queue s)) \<le> c1_QueueDepth (v_cfg s) \<and>
     (\<forall>c. claimed s (ids1 y) c \<le> cnt1 s c \<and> (exact \<longrightarrow> cnt1 s c = claimed s (ids1 y) c) \<and>
       cnt1 s c \<le> max 0 (c1_MaxInFlightPerClient (v_cfg s))))"

lemma claimed_append [simp]: "claimed s (xs @ ys) c = claimed s xs c + claimed s ys c"
  by (simp add: claimed_def)

lemma claimed_Nil [simp]: "claimed s [] c = 0"
  by (simp add: claimed_def)

lemma claimed_Cons [simp]:
  "claimed s (k # ks) c = (if map_option b1_ClientID (recs1 s k) = Some c then 1 else 0) + claimed s ks c"
  by (simp add: claimed_def)

lemma claimed_nonneg [simp]: "0 \<le> claimed s ks c"
  by (simp add: claimed_def)

lemma in_state_client: "in_state s k q c n \<Longrightarrow> map_option b1_ClientID (recs1 s k) = Some c"
  by (auto simp: in_state_def)

lemma claimed_other: "\<forall>j. j \<noteq> k \<longrightarrow> recs1 s' j = recs1 s j \<Longrightarrow> k \<notin> set ks \<Longrightarrow> claimed s' ks c = claimed s ks c"
  unfolding claimed_def by (metis (mono_tags, lifting) filter_cong)

lemma in_state_other: "\<forall>j. j \<noteq> k \<longrightarrow> recs1 s' j = recs1 s j \<Longrightarrow> j \<noteq> k \<Longrightarrow> in_state s' j q c n = in_state s j q c n"
  by (simp add: in_state_def)

lemma inv1_ids: "inv1 ex y \<Longrightarrow> k \<in> set (ids1 y) \<Longrightarrow> recs1 (y_svc y) k \<noteq> None"
  unfolding inv1_def ids1_def Let_def by (fastforce simp: in_state_def)

lemma inv1_nonneg: "inv1 ex y \<Longrightarrow> 0 \<le> cnt1 (y_svc y) c"
  unfolding inv1_def Let_def by (meson claimed_nonneg order.trans)

text \<open>
  Bundle \<open>k\<close> leaves where it was and is put nowhere, or somewhere else; nothing else moves. \<open>i\<close> slots of \<open>c\<close> are freed.
\<close>

lemma inv1_move:
  assumes "inv1 ex y" and "\<forall>j. j \<noteq> k \<longrightarrow> recs1 s' j = recs1 (y_svc y) j" and "v_cfg s' = v_cfg (y_svc y)"
    and "set (v_queue s') \<subseteq> insert k (set (v_queue (y_svc y)))" and "set run \<subseteq> insert (k, rec) (set (y_running y))"
    and "set (v_timers s') \<subseteq> insert (k, c, n, d) (set (v_timers (y_svc y)))"
    and "k \<in> set (v_queue s') \<Longrightarrow> \<exists>c n. in_state s' k StateQueued c n"
    and "(k, rec) \<in> set run \<Longrightarrow> in_state s' k StateSimulating (b1_ClientID rec) (b1_RetryCount rec)"
    and "(k, c, n, d) \<in> set (v_timers s') \<Longrightarrow> in_state s' k StateRetryPending c n \<and> n \<le> c1_MaxRetries (v_cfg (y_svc y))"
    and "\<And>r. r \<noteq> rec \<Longrightarrow> (k, r) \<notin> set run" and "\<And>t. t \<noteq> (c, n, d) \<Longrightarrow> (k, t) \<notin> set (v_timers s')"
    and "distinct (ids1 \<lparr> y_svc = s', y_running = run \<rparr>)" and "int (length (v_queue s')) \<le> c1_QueueDepth (v_cfg (y_svc y))"
    and "\<And>c. claimed s' (ids1 \<lparr> y_svc = s', y_running = run \<rparr>) c \<le> cnt1 s' c \<and>
        (ex' \<longrightarrow> cnt1 s' c = claimed s' (ids1 \<lparr> y_svc = s', y_running = run \<rparr>) c) \<and>
        cnt1 s' c \<le> max 0 (c1_MaxInFlightPerClient (v_cfg (y_svc y)))"
  shows "inv1 ex' \<lparr> y_svc = s', y_running = run \<rparr>"
proof -
  note other = in_state_other [OF assms(2)]
  have "\<exists>c n. in_state s' j StateQueued c n" if "j \<in> set (v_queue s')" for j
    using that assms(1,4,7) other [of j] unfolding inv1_def Let_def by (cases "j = k") auto
  moreover have "in_state s' j StateSimulating (b1_ClientID r) (b1_RetryCount r)" if "(j, r) \<in> set run" for j r
    using that assms(1,5,8,10) other [of j] unfolding inv1_def Let_def by (cases "j = k"; cases "r = rec") auto
  moreover have "in_state s' j StateRetryPending c' n' \<and> n' \<le> c1_MaxRetries (v_cfg (y_svc y))" if "(j, c', n', d') \<in> set (v_timers s')" for j c' n' d'
    using that assms(1,6,9,11) other [of j] unfolding inv1_def Let_def by (cases "j = k"; cases "(c', n', d') = (c, n, d)") auto
  ultimately show ?thesis using assms(3,12-14) unfolding inv1_def Let_def by auto
qed

lemma inv1_same:
  assumes "inv1 ex y" and "idle_from 0 k c (y_svc y) s'" and "k \<in> set (ids1 y) \<Longrightarrow> recs1 s' k = recs1 (y_svc y) k"
  shows "inv1 ex (y\<lparr> y_svc := s' \<rparr>)"
proof -
  have same: "recs1 s' j = recs1 (y_svc y) j" if "j \<in> set (ids1 y)" for j
    using assms(2,3) that by (cases "j = k") (auto simp: idle_from_def)
  have st: "in_state s' j q c n = in_state (y_svc y) j q c n" if "j \<in> set (ids1 y)" for j q c n
    using same [OF that] by (simp add: in_state_def)
  have cl: "claimed s' (ids1 y) c = claimed (y_svc y) (ids1 y) c" for c
    unfolding claimed_def using same by (metis (mono_tags, lifting) filter_cong)
  have ids: "ids1 (y\<lparr> y_svc := s' \<rparr>) = ids1 y" using assms(2) by (simp add: ids1_def idle_from_def)
  have "set (v_queue (y_svc y)) \<subseteq> set (ids1 y)" "fst ` set (y_running y) \<subseteq> set (ids1 y)" "fst ` set (v_timers (y_svc y)) \<subseteq> set (ids1 y)"
    by (auto simp: ids1_def)
  then show ?thesis
    using assms(1,2) cl unfolding inv1_def Let_def ids by (fastforce simp: st idle_from_def)
qed

lemma inv1_enqueued:
  assumes "inv1 ex y" and "enqueued k c (y_svc y) s'" and "k \<notin> set (ids1 y)"
  shows "inv1 ex (y\<lparr> y_svc := s' \<rparr>)"
proof -
  let ?s = "y_svc y" and ?r = "y_running y"
  have e: "in_state s' k StateQueued c 0" "int (length (v_queue ?s)) < c1_QueueDepth (v_cfg ?s)" "v_queue s' = v_queue ?s @ [k]"
    "v_timers s' = v_timers ?s" "v_cfg s' = v_cfg ?s" "cnt1 ?s c < c1_MaxInFlightPerClient (v_cfg ?s)"
    "\<And>c'. cnt1 s' c' = cnt1 ?s c' + (if c' = c then 1 else 0)" and o: "\<forall>j. j \<noteq> k \<longrightarrow> recs1 s' j = recs1 ?s j"
    using assms(2) unfolding enqueued_def by blast+
  have cl: "claimed s' (ids1 \<lparr> y_svc = s', y_running = ?r \<rparr>) c' = claimed ?s (ids1 y) c' + (if c' = c then 1 else 0)" for c'
    using assms(3) e(3,4) claimed_other [OF o, of "v_queue ?s"] claimed_other [OF o, of "map fst ?r"] claimed_other [OF o, of "map fst (v_timers ?s)"]
    by (auto simp: ids1_def in_state_client [OF e(1)] simp del: map_option_eq_Some)
  have nk: "k \<notin> set (v_queue ?s)" "\<And>x. (k, x) \<notin> set ?r" "\<And>x. (k, x) \<notin> set (v_timers ?s)"
    using assms(3) by (force simp: ids1_def)+
  have d: "distinct (ids1 y)" "int (length (v_queue ?s)) \<le> c1_QueueDepth (v_cfg ?s)" using assms(1) by (simp_all add: inv1_def Let_def)
  have "inv1 ex \<lparr> y_svc = s', y_running = ?r \<rparr>"
  proof (rule inv1_move [OF assms(1) o e(5), where rec = undefined and c = undefined and n = undefined and d = undefined])
    show "claimed s' (ids1 \<lparr> y_svc = s', y_running = ?r \<rparr>) c' \<le> cnt1 s' c' \<and>
        (ex \<longrightarrow> cnt1 s' c' = claimed s' (ids1 \<lparr> y_svc = s', y_running = ?r \<rparr>) c') \<and>
        cnt1 s' c' \<le> max 0 (c1_MaxInFlightPerClient (v_cfg ?s))" for c'
      using assms(1) e(6) unfolding cl e(7) inv1_def Let_def by (cases "c' = c") auto
    show "distinct (ids1 \<lparr> y_svc = s', y_running = ?r \<rparr>)" using d(1) assms(3) e(3,4) by (auto simp: ids1_def)
    show "int (length (v_queue s')) \<le> c1_QueueDepth (v_cfg ?s)" using e(2,3) by simp
    show "\<exists>c n. in_state s' k StateQueued c n" using e(1) by blast
  qed (use nk e(3,4) in auto)
  then show ?thesis by (cases y) simp
qed

lemma inv1_facts:
  assumes "inv1 ex y"
  shows "distinct (ids1 y)" and "int (length (v_queue (y_svc y))) \<le> c1_QueueDepth (v_cfg (y_svc y))"
    and "claimed (y_svc y) (ids1 y) c \<le> cnt1 (y_svc y) c" and "ex \<Longrightarrow> cnt1 (y_svc y) c = claimed (y_svc y) (ids1 y) c"
    and "cnt1 (y_svc y) c \<le> max 0 (c1_MaxInFlightPerClient (v_cfg (y_svc y)))"
    and "k \<in> set (v_queue (y_svc y)) \<Longrightarrow> \<exists>c n. in_state (y_svc y) k StateQueued c n"
    and "(k, rec) \<in> set (y_running y) \<Longrightarrow> in_state (y_svc y) k StateSimulating (b1_ClientID rec) (b1_RetryCount rec)"
    and "(k, c', n, d) \<in> set (v_timers (y_svc y)) \<Longrightarrow> in_state (y_svc y) k StateRetryPending c' n \<and> n \<le> c1_MaxRetries (v_cfg (y_svc y))"
  using assms unfolding inv1_def Let_def by blast+

lemma not_fst: "k \<notin> set (map fst xs) \<Longrightarrow> (k, x) \<notin> set xs"
  by force

lemma inv1_settle:
  assumes "inv1 ex y" and run: "y_running y = xs @ (k, rec) # zs" and s': "process_settle en k rec outcome (y_svc y) = s'"
  shows "inv1 ex \<lparr> y_svc = s', y_running = xs @ zs \<rparr>"
proof -
  let ?s = "y_svc y" and ?c = "b1_ClientID rec" and ?y = "\<lparr> y_svc = s', y_running = xs @ zs \<rparr>"
  note F = inv1_facts [OF assms(1)]
  have i: "in_state ?s k StateSimulating ?c (b1_RetryCount rec)" using F(7) run by simp
  have d: "distinct (v_queue ?s @ map fst xs @ k # map fst zs @ map fst (v_timers ?s))" using F(1) run by (simp add: ids1_def)
  have m: "k \<notin> set (v_queue ?s)" "k \<notin> set (map fst xs)" "k \<notin> set (map fst zs)" "k \<notin> set (map fst (v_timers ?s))"
    using d by simp_all
  note nk = m not_fst [OF m(2)] not_fst [OF m(3)] not_fst [OF m(4)]
  have cl: "claimed ?s (ids1 y) c = claimed ?s (v_queue ?s) c + claimed ?s (map fst xs) c + claimed ?s (map fst zs) c +
      claimed ?s (map fst (v_timers ?s)) c + (if c = ?c then 1 else 0)" for c
    using run by (auto simp: ids1_def in_state_client [OF i] simp del: map_option_eq_Some)
  have "1 \<le> claimed ?s (ids1 y) ?c" unfolding cl by simp
  then have c1: "1 \<le> cnt1 ?s ?c" using F(3) [of ?c] by linarith
  from i s' show ?thesis
  proof (cases rule: process_settle_summary [case_names freed timer])
    case freed
    then have id: "idle_from 1 k ?c ?s s'" by (rule freed_idle [OF _ c1])
    then have o: "\<forall>j. j \<noteq> k \<longrightarrow> recs1 s' j = recs1 ?s j" and f: "v_queue s' = v_queue ?s" "v_timers s' = v_timers ?s" "v_cfg s' = v_cfg ?s"
      "\<And>c. cnt1 s' c = cnt1 ?s c - (if c = ?c then 1 else 0)" by (simp_all add: idle_from_def)
    have cl': "claimed s' (ids1 ?y) c = claimed ?s (ids1 y) c - (if c = ?c then 1 else 0)" for c
      unfolding cl using f(1,2) nk claimed_other [OF o] by (simp add: ids1_def)
    show ?thesis
    proof (rule inv1_move [OF assms(1) o f(3), where rec = rec and c = undefined and n = undefined and d = undefined])
      show "claimed s' (ids1 ?y) c \<le> cnt1 s' c \<and> (ex \<longrightarrow> cnt1 s' c = claimed s' (ids1 ?y) c) \<and>
          cnt1 s' c \<le> max 0 (c1_MaxInFlightPerClient (v_cfg ?s))" for c
        unfolding cl' f(4) using F(3-5) [of c] by auto
      show "distinct (ids1 ?y)" using d f(1,2) by (auto simp: ids1_def)
      show "int (length (v_queue s')) \<le> c1_QueueDepth (v_cfg ?s)" using F(2) f(1) by simp
    qed (use nk f(1,2) run in auto)
  next
    case (timer t d' n)
    have o: "\<forall>j. j \<noteq> k \<longrightarrow> recs1 s' j = recs1 ?s j" and f: "v_queue s' = v_queue ?s" "v_timers s' = v_timers ?s @ [(k, ?c, n, d')]"
      "v_cfg s' = v_cfg ?s" "\<And>c. cnt1 s' c = cnt1 ?s c" using timer(1,4) by (simp_all add: quiet_def)
    have i': "in_state s' k StateRetryPending ?c n" using timer(2,4) by (simp add: in_state_def)
    have cl': "claimed s' (ids1 ?y) c = claimed ?s (ids1 y) c" for c
      unfolding cl using f(1,2) nk claimed_other [OF o]
      by (auto simp: ids1_def in_state_client [OF i'] simp del: map_option_eq_Some set_map)
    show ?thesis
    proof (rule inv1_move [OF assms(1) o f(3), where rec = rec and c = ?c and n = n and d = d'])
      show "claimed s' (ids1 ?y) c \<le> cnt1 s' c \<and> (ex \<longrightarrow> cnt1 s' c = claimed s' (ids1 ?y) c) \<and>
          cnt1 s' c \<le> max 0 (c1_MaxInFlightPerClient (v_cfg ?s))" for c
        unfolding cl' f(4) using F(3-5) [of c] by auto
      show "distinct (ids1 ?y)" using d f(1,2) by (auto simp: ids1_def)
      show "int (length (v_queue s')) \<le> c1_QueueDepth (v_cfg ?s)" using F(2) f(1) by simp
      show "in_state s' k StateRetryPending ?c n \<and> n \<le> c1_MaxRetries (v_cfg ?s)" using i' timer(3) by blast
    qed (use nk f(1,2) run in auto)
  qed
qed

lemma inv1_fire:
  assumes "inv1 ex y" and tm: "v_timers (y_svc y) = xs @ (k, c0, n0, d0) # zs"
    and s': "retry_fire en k c0 n0 ((y_svc y)\<lparr> v_timers := xs @ zs \<rparr>) = s'"
  shows "inv1 ex (y\<lparr> y_svc := s' \<rparr>)"
proof -
  let ?s = "y_svc y" and ?u = "(y_svc y)\<lparr> v_timers := xs @ zs \<rparr>" and ?r = "y_running y"
  let ?y = "\<lparr> y_svc = s', y_running = ?r \<rparr>"
  note F = inv1_facts [OF assms(1)]
  have i: "in_state ?u k StateRetryPending c0 n0" and n0: "n0 \<le> c1_MaxRetries (v_cfg ?u)" using F(8) [of k c0 n0 d0] tm by (auto simp: in_state_def)
  then have iu: "in_state ?s k StateRetryPending c0 n0" by (simp add: in_state_def)
  have d: "distinct (v_queue ?s @ map fst ?r @ map fst xs @ k # map fst zs)" using F(1) tm by (simp add: ids1_def)
  have m: "k \<notin> set (v_queue ?s)" "k \<notin> set (map fst xs)" "k \<notin> set (map fst zs)" "k \<notin> set (map fst ?r)"
    using d by simp_all
  note nk = m not_fst [OF m(2)] not_fst [OF m(3)] not_fst [OF m(4)]
  have cl: "claimed ?s (ids1 y) c = claimed ?s (v_queue ?s) c + claimed ?s (map fst ?r) c + claimed ?s (map fst xs) c +
      claimed ?s (map fst zs) c + (if c = c0 then 1 else 0)" for c
    using tm by (auto simp: ids1_def in_state_client [OF iu] simp del: map_option_eq_Some)
  have "1 \<le> claimed ?s (ids1 y) c0" unfolding cl by simp
  then have c1: "1 \<le> cnt1 ?u c0" using F(3) [of c0] by simp
  have "inv1 ex ?y"
    using i n0 s'
  proof (cases rule: retry_fire_summary [case_names freed queued])
    case freed
    then have id: "idle_from 1 k c0 ?u s'" by (rule freed_idle [OF _ c1])
    then have o: "\<forall>j. j \<noteq> k \<longrightarrow> recs1 s' j = recs1 ?s j" and f: "v_queue s' = v_queue ?s" "v_timers s' = xs @ zs" "v_cfg s' = v_cfg ?s"
      "\<And>c. cnt1 s' c = cnt1 ?s c - (if c = c0 then 1 else 0)" by (simp_all add: idle_from_def)
    have cl': "claimed s' (ids1 ?y) c = claimed ?s (ids1 y) c - (if c = c0 then 1 else 0)" for c
      unfolding cl using f(1,2) nk claimed_other [OF o] by (simp add: ids1_def)
    show ?thesis
    proof (rule inv1_move [OF assms(1) o f(3), where rec = undefined and c = c0 and n = n0 and d = d0])
      show "claimed s' (ids1 ?y) c \<le> cnt1 s' c \<and> (ex \<longrightarrow> cnt1 s' c = claimed s' (ids1 ?y) c) \<and>
          cnt1 s' c \<le> max 0 (c1_MaxInFlightPerClient (v_cfg ?s))" for c
        unfolding cl' f(4) using F(3-5) [of c] by auto
      show "distinct (ids1 ?y)" using d f(1,2) by (auto simp: ids1_def)
      show "int (length (v_queue s')) \<le> c1_QueueDepth (v_cfg ?s)" using F(2) f(1) by simp
    qed (use nk f(1,2) tm in auto)
  next
    case (queued t)
    have o: "\<forall>j. j \<noteq> k \<longrightarrow> recs1 s' j = recs1 ?s j" and f: "v_queue s' = v_queue ?s @ [k]" "v_timers s' = xs @ zs"
      "v_cfg s' = v_cfg ?s" "\<And>c. cnt1 s' c = cnt1 ?s c" using queued(1,4) by (simp_all add: quiet_def)
    have i': "in_state s' k StateQueued c0 n0" using queued(2,4) by (simp add: in_state_def)
    have cl': "claimed s' (ids1 ?y) c = claimed ?s (ids1 y) c" for c
      unfolding cl using f(1,2) nk claimed_other [OF o]
      by (auto simp: ids1_def in_state_client [OF i'] simp del: map_option_eq_Some set_map)
    show ?thesis
    proof (rule inv1_move [OF assms(1) o f(3), where rec = undefined and c = c0 and n = n0 and d = d0])
      show "claimed s' (ids1 ?y) c \<le> cnt1 s' c \<and> (ex \<longrightarrow> cnt1 s' c = claimed s' (ids1 ?y) c) \<and>
          cnt1 s' c \<le> max 0 (c1_MaxInFlightPerClient (v_cfg ?s))" for c
        unfolding cl' f(4) using F(3-5) [of c] by auto
      show "distinct (ids1 ?y)" using d f(1,2) by (auto simp: ids1_def)
      show "int (length (v_queue s')) \<le> c1_QueueDepth (v_cfg ?s)" using queued(3) f(1) by simp
      show "\<exists>c n. in_state s' k StateQueued c n" using i' by blast
    qed (use nk f(1,2) tm in auto)
  qed
  then show ?thesis by (cases y) simp
qed

lemma inv1_pick:
  assumes "inv1 ex y" and qu: "v_queue (y_svc y) = k # q" and p: "process_pick en k ((y_svc y)\<lparr> v_queue := q \<rparr>) = (r, s')"
  shows "r = Some rec \<Longrightarrow> inv1 ex \<lparr> y_svc = s', y_running = y_running y @ [(k, rec)] \<rparr>"
    and "r = None \<Longrightarrow> \<not> never_fails en \<and> inv1 False (y\<lparr> y_svc := s' \<rparr>)"
proof -
  let ?s = "y_svc y" and ?u = "(y_svc y)\<lparr> v_queue := q \<rparr>" and ?r = "y_running y"
  note F = inv1_facts [OF assms(1)]
  obtain c0 n0 where iu: "in_state ?s k StateQueued c0 n0" using F(6) [of k] qu by auto
  then have i: "in_state ?u k StateQueued c0 n0" by (simp add: in_state_def)
  have d: "distinct (k # q @ map fst ?r @ map fst (v_timers ?s))" using F(1) qu by (simp add: ids1_def)
  have m: "k \<notin> set q" "k \<notin> set (map fst ?r)" "k \<notin> set (map fst (v_timers ?s))" using d by simp_all
  note nk = m not_fst [OF m(2)] not_fst [OF m(3)]
  have cl: "claimed ?s (ids1 y) c = claimed ?s q c + claimed ?s (map fst ?r) c + claimed ?s (map fst (v_timers ?s)) c + (if c = c0 then 1 else 0)" for c
    using qu by (auto simp: ids1_def in_state_client [OF iu] simp del: map_option_eq_Some)
  have fr: "(\<forall>j. j \<noteq> k \<longrightarrow> recs1 s' j = recs1 ?s j) \<and> v_queue s' = q \<and> v_timers s' = v_timers ?s \<and> v_cfg s' = v_cfg ?s \<and>
      (\<forall>c. cnt1 s' c = cnt1 ?s c)" if "quiet k ?u s'"
    using that by (simp add: quiet_def)
  show "inv1 ex \<lparr> y_svc = s', y_running = ?r @ [(k, rec)] \<rparr>" if "r = Some rec"
    using i p
  proof (cases rule: process_pick_summary [case_names none some])
    case none
    with that show ?thesis by simp
  next
    case (some rec')
    let ?y = "\<lparr> y_svc = s', y_running = ?r @ [(k, rec)] \<rparr>"
    have o: "\<forall>j. j \<noteq> k \<longrightarrow> recs1 s' j = recs1 ?s j" and f: "v_queue s' = q" "v_timers s' = v_timers ?s" "v_cfg s' = v_cfg ?s"
      "\<And>c. cnt1 s' c = cnt1 ?s c" using fr [OF some(2)] by blast+
    have cl': "claimed s' (ids1 ?y) c = claimed ?s (ids1 y) c" for c
      unfolding cl using f(1,2) nk claimed_other [OF o]
      by (auto simp: ids1_def in_state_client [OF some(3)] simp del: map_option_eq_Some set_map)
    show ?thesis
    proof (rule inv1_move [OF assms(1) o f(3), where rec = rec and c = undefined and n = undefined and d = undefined])
      show "claimed s' (ids1 ?y) c \<le> cnt1 s' c \<and> (ex \<longrightarrow> cnt1 s' c = claimed s' (ids1 ?y) c) \<and>
          cnt1 s' c \<le> max 0 (c1_MaxInFlightPerClient (v_cfg ?s))" for c
        unfolding cl' f(4) using F(3-5) [of c] by auto
      show "distinct (ids1 ?y)" using d f(1,2) by (auto simp: ids1_def)
      show "int (length (v_queue s')) \<le> c1_QueueDepth (v_cfg ?s)" using F(2) f(1) qu by simp
      show "in_state s' k StateSimulating (b1_ClientID rec) (b1_RetryCount rec)" using some that by simp
    qed (use nk f(1,2) qu in auto)
  qed
  show "\<not> never_fails en \<and> inv1 False (y\<lparr> y_svc := s' \<rparr>)" if "r = None"
    using i p
  proof (cases rule: process_pick_summary [case_names none some])
    case none
    let ?y = "\<lparr> y_svc = s', y_running = ?r \<rparr>"
    have o: "\<forall>j. j \<noteq> k \<longrightarrow> recs1 s' j = recs1 ?s j" and f: "v_queue s' = q" "v_timers s' = v_timers ?s" "v_cfg s' = v_cfg ?s"
      "\<And>c. cnt1 s' c = cnt1 ?s c" using fr [OF none(2)] by blast+
    have cl': "claimed s' (ids1 ?y) c \<le> claimed ?s (ids1 y) c" for c
      unfolding cl using f(1,2) nk claimed_other [OF o] by (simp add: ids1_def)
    have "inv1 False ?y"
    proof (rule inv1_move [OF assms(1) o f(3), where rec = undefined and c = undefined and n = undefined and d = undefined])
      show "claimed s' (ids1 ?y) c \<le> cnt1 s' c \<and> (False \<longrightarrow> cnt1 s' c = claimed s' (ids1 ?y) c) \<and>
          cnt1 s' c \<le> max 0 (c1_MaxInFlightPerClient (v_cfg ?s))" for c
        unfolding f(4) using F(3,5) [of c] cl' [of c] by auto
      show "distinct (ids1 ?y)" using d f(1,2) by (auto simp: ids1_def)
      show "int (length (v_queue s')) \<le> c1_QueueDepth (v_cfg ?s)" using F(2) f(1) qu by simp
    qed (use nk f(1,2) qu in auto)
    then show ?thesis using none(3) by (cases y) simp
  qed (use that in simp)
qed

lemma inv1_step:
  assumes "inv1 ex y" and "ex \<longrightarrow> never_fails en" and "sys1_step en y y'"
  shows "inv1 ex y'"
  using assms(3)
proof (cases rule: sys1_step.cases)
  case (submit req c r s')
  show ?thesis
    using submit(2) inv1_nonneg [OF assms(1)]
  proof (cases rule: submit1_summary)
    case (unchanged k)
    then show ?thesis using inv1_same [OF assms(1)] submit(1) by blast
  next
    case (rejected k)
    then show ?thesis using inv1_same [OF assms(1)] inv1_ids [OF assms(1), of k] submit(1) by blast
  next
    case (queued k)
    then show ?thesis using inv1_enqueued [OF assms(1)] inv1_ids [OF assms(1), of k] submit(1) by blast
  qed
next
  case (pick k q rec s')
  then show ?thesis using inv1_pick(1) [OF assms(1) pick(2,3)] by (cases y) simp
next
  case (drop k q s')
  then show ?thesis using inv1_pick(2) [OF assms(1) drop(2,3)] assms(2) by (cases ex) auto
next
  case (settle xs k rec zs outcome)
  then show ?thesis using inv1_settle [OF assms(1) settle(2) refl, of en outcome] by (cases y) simp
next
  case (fire xs k c n d zs)
  then show ?thesis using inv1_fire [OF assms(1) fire(2) refl] by simp
qed

lemma inv1_start: "New1 cfg st = Some s \<Longrightarrow> inv1 ex (start1 s)"
  by (auto simp: New1_def inv1_def start1_def ids1_def gm_get0_def split: if_splits)

lemma inv1_steps:
  "(sys1_step en)\<^sup>*\<^sup>* y y' \<Longrightarrow> inv1 ex y \<Longrightarrow> (ex \<longrightarrow> never_fails en) \<Longrightarrow> inv1 ex y'"
  by (induction rule: rtranclp_induct) (auto intro: inv1_step)

section \<open>Where bundles end\<close>

lemma tr1_ok:
  assumes "never_fails en" and "in_state s k src c n" and "CanTransition1 src dst"
  shows "\<exists>rec s'. tr1 en k src dst reason s = (Inr rec, s') \<and> in_state s' k dst c n"
  using tr1_cases [OF assms(2), of en dst reason] assms(1,3) by metis

lemma in_state_count [simp]: "in_state (count1 f s) k q c n = in_state s k q c n"
  by (simp add: in_state_def)

lemma in_state_free [simp]: "in_state (free1 c' s) k q c n = in_state s k q c n"
  by (simp add: in_state_def)

lemma dead_letter1_final:
  assumes "never_fails en" and "in_state s k StateSimulating c n"
  shows "in_state (dead_letter1 en k StateSimulating reason c s) k StateCompleted c n"
proof -
  have can: "CanTransition1 StateSimulating StateDeadLetter" "CanTransition1 StateDeadLetter StatePersisted"
    "CanTransition1 StatePersisted StateCompleted" by (simp_all add: CanTransition1_def)
  obtain r1 s1 where 1: "tr1 en k StateSimulating StateDeadLetter reason s = (Inr r1, s1)" "in_state s1 k StateDeadLetter c n"
    using tr1_ok [OF assms can(1)] by blast
  obtain r2 s2 where 2: "tr1 en k StateDeadLetter StatePersisted ''persisted dead letter'' s1 = (Inr r2, s2)" "in_state s2 k StatePersisted c n"
    using tr1_ok [OF assms(1) 1(2) can(2)] by blast
  obtain r3 s3 where 3: "tr1 en k StatePersisted StateCompleted ''completed'' s2 = (Inr r3, s3)" "in_state s3 k StateCompleted c n"
    using tr1_ok [OF assms(1) 2(2) can(3)] by blast
  show ?thesis using 1 2 3 by (simp add: dead_letter1_def)
qed

text \<open>The life cycle has no way from queued to the dead letters: the attempt fails, and the slot is freed.\<close>

lemma dead_letter1_from_queued:
  assumes "in_state s k StateQueued c n"
  shows "dead_letter1 en k StateQueued reason c' s = free1 c' (s\<lparr> v_ticks := v_ticks s + 1 \<rparr>)"
  using assms
  by (auto simp: dead_letter1_def tr1_def on_store1_def store1_Transition_def ValidateTransition1_def CanTransition1_def in_state_def)

lemma UpdateResult_never_fails:
  assumes "never_fails en" and "in_state s k q c n"
  shows "\<exists>rec s'. on_store1 en (\<lambda>now. store1_UpdateResult (n_io en) (n_cd en) now k x y z) s = (Inr rec, s') \<and> in_state s' k q c n"
proof -
  obtain r where r: "recs1 s k = Some r" "b1_State r = q" "b1_ID r = k" "b1_ClientID r = c" "b1_RetryCount r = n"
    using assms(2) by (auto simp: in_state_def)
  let ?now = "n_clk en (v_ticks s)"
  let ?r = "r\<lparr> b1_Score := x, b1_ProfitEth := y, b1_Reason := z, b1_Version := b1_Version r + 1, b1_UpdatedAt := ?now \<rparr>"
  obtain ev where "store1_UpdateResult (n_io en) (n_cd en) ?now k x y z (v_store s) = commit1 (n_io en) (n_cd en) k ?r ev (v_store s)"
    using r by (auto simp: store1_UpdateResult_def Let_def)
  moreover obtain fs' where "commit1 (n_io en) (n_cd en) k ?r ev (v_store s) = (Inr ?r, fs')"
    using commit1_never_fails [OF assms(1)] by blast
  ultimately show ?thesis using r commit1_quiet [of "n_io en" "n_cd en" k ?r ev "v_store s"] by (auto simp: on_store1_def in_state_def)
qed

lemma process_result_final:
  assumes "never_fails en" and "in_state s k q c n" and "q = StateForwarded \<or> q = StateRejected"
  shows "in_state (process_result en k c' d s) k StateCompleted c n"
proof -
  have can: "CanTransition1 q StatePersisted" "CanTransition1 StatePersisted StateCompleted" using assms(3) by (auto simp: CanTransition1_def)
  obtain r1 s1 where 1: "on_store1 en (\<lambda>now. store1_UpdateResult (n_io en) (n_cd en) now k (d1_Score d) (d1_ProfitEth d) (d1_Reason d)) s = (Inr r1, s1)"
      "in_state s1 k q c n"
    using UpdateResult_never_fails [OF assms(1,2)] by blast
  have cur: "currentTerminalState1 k s1 = q" using 1(2) assms(3) by (auto simp: currentTerminalState1_def store1_Get_def in_state_def)
  obtain r2 s2 where 2: "tr1 en k q StatePersisted ''persisted'' s1 = (Inr r2, s2)" "in_state s2 k StatePersisted c n"
    using tr1_ok [OF assms(1) 1(2) can(1)] by blast
  obtain r3 s3 where 3: "tr1 en k StatePersisted StateCompleted ''completed'' s2 = (Inr r3, s3)" "in_state s3 k StateCompleted c n"
    using tr1_ok [OF assms(1) 2(2) can(2)] by blast
  show ?thesis using 1 2 3 cur by (simp add: process_result_def)
qed

lemma process_decided_final:
  assumes "never_fails en" and "in_state s k StateScored c n"
  shows "in_state (process_decided en k c' d s) k StateCompleted c n"
proof -
  have can: "CanTransition1 StateScored StateForwarded" "CanTransition1 StateScored StateRejected" by (simp_all add: CanTransition1_def)
  obtain r1 s1 r2 s2 where 1: "tr1 en k StateScored StateForwarded (d1_Reason d) s = (Inr r1, s1)" "in_state s1 k StateForwarded c n"
      and 2: "tr1 en k StateScored StateRejected (d1_Reason d) s = (Inr r2, s2)" "in_state s2 k StateRejected c n"
    using tr1_ok [OF assms can(1)] tr1_ok [OF assms can(2)] by blast
  show ?thesis using 1 2 process_result_final [OF assms(1)] by (simp add: process_decided_def)
qed

lemma process_settle_final:
  assumes "never_fails en" and "in_state s k StateSimulating c n" and "b1_ClientID rec = c" and "b1_RetryCount rec = n"
  shows "in_state (process_settle en k rec outcome s) k StateCompleted c n \<or>
    k \<in> fst ` set (v_timers (process_settle en k rec outcome s))"
proof (cases outcome)
  case (Inr sim)
  have can: "CanTransition1 StateSimulating StateSimulated" "CanTransition1 StateSimulated StateScored" by (simp_all add: CanTransition1_def)
  obtain r1 s1 where 1: "tr1 en k StateSimulating StateSimulated (r1_Reason sim) s = (Inr r1, s1)" "in_state s1 k StateSimulated c n"
    using tr1_ok [OF assms(1,2) can(1)] by blast
  obtain r2 s2 where 2: "tr1 en k StateSimulated StateScored ''scored'' s1 = (Inr r2, s2)" "in_state s2 k StateScored c n"
    using tr1_ok [OF assms(1) 1(2) can(2)] by blast
  show ?thesis using Inr 1 2 process_decided_final [OF assms(1) 2(2)] by (simp add: process_settle_def)
next
  case (Inl err)
  let ?s = "count1 (\<lambda>m. m\<lparr> m1_SimulationFail := m1_SimulationFail m + 1 \<rparr>) s"
  have i: "in_state ?s k StateSimulating c n" using assms(2) by simp
  show ?thesis
  proof (cases "retryable err \<and> b1_RetryCount rec < c1_MaxRetries (v_cfg s)")
    case False
    then have "process_settle en k rec outcome s = dead_letter1 en k StateSimulating (snd err) (b1_ClientID rec) ?s"
      using Inl by (auto simp: process_settle_def process_failed_def Let_def)
    then show ?thesis using dead_letter1_final [OF assms(1) i] assms(3) by simp
  next
    case True
    have "CanTransition1 StateSimulating StateRetryPending" by (simp add: CanTransition1_def)
    then obtain r1 s1 where 1: "tr1 en k StateSimulating StateRetryPending ''transient failure'' ?s = (Inr r1, s1)" "in_state s1 k StateRetryPending c n"
      using tr1_ok [OF assms(1) i] by blast
    obtain r where r: "recs1 s1 k = Some r" using 1(2) by (auto simp: in_state_def)
    have "\<exists>rec2 fs'. store1_UpdateRetryCount (n_io en) (n_cd en) (n_clk en (v_ticks s1)) k (b1_RetryCount r1 + 1) (v_store s1) = (Inr rec2, fs')"
      using r commit1_never_fails [OF assms(1)] by (simp add: store1_UpdateRetryCount_def Let_def) blast
    then obtain rec2 s2 where 2: "on_store1 en (\<lambda>now. store1_UpdateRetryCount (n_io en) (n_cd en) now k (b1_RetryCount r1 + 1)) s1 = (Inr rec2, s2)"
      by (auto simp: on_store1_def)
    have "b1_ID rec2 = k" using UpdateRetryCount_moved(2) [OF 2 1(2) refl] by simp
    then show ?thesis using Inl True 1 2 by (simp add: process_settle_def process_failed_def schedule_timer1_def)
  qed
qed

lemma retry_fire_final:
  assumes "never_fails en" and "in_state s k StateRetryPending c n" and "n \<le> c1_MaxRetries (v_cfg s)"
  shows "in_state (retry_fire en k c n s) k StateQueued c n"
proof -
  have "CanTransition1 StateRetryPending StateQueued" by (simp add: CanTransition1_def)
  then obtain r1 s1 where 1: "tr1 en k StateRetryPending StateQueued ''retry queued'' s = (Inr r1, s1)" "in_state s1 k StateQueued c n"
    using tr1_ok [OF assms(1,2)] by blast
  have g: "\<exists>rec. store1_Get k (v_store s) = Some rec \<and> b1_State rec = StateRetryPending"
    using assms(2) by (auto simp: in_state_def store1_Get_def)
  show ?thesis
    using 1 g assms(3) dead_letter1_from_queued [OF 1(2)]
    by (auto simp: retry_fire_def try_enqueue1_def in_state_def)
qed

section \<open>Which bundles move\<close>

text \<open>A step touches one bundle: an active one, or one that did not exist.\<close>

definition touches :: "string \<Rightarrow> Sys1 \<Rightarrow> Sys1 \<Rightarrow> bool" where
  "touches k y y' \<longleftrightarrow> v_cfg (y_svc y') = v_cfg (y_svc y) \<and> (\<forall>j. j \<noteq> k \<longrightarrow> recs1 (y_svc y') j = recs1 (y_svc y) j \<and> (j \<in> set (ids1 y') \<longleftrightarrow> j \<in> set (ids1 y)))"

text \<open>Bundle \<open>k\<close> is active, or in a state it may keep.\<close>

definition at_rest :: "string \<Rightarrow> Sys1 \<Rightarrow> bool" where
  "at_rest k y \<longleftrightarrow> k \<in> set (ids1 y) \<or>
     (\<exists>q c n. in_state (y_svc y) k q c n \<and> q \<in> {StateRejected, StateCompleted, StateQueued})"

lemma at_rest_state: "in_state (y_svc y) k q c n \<Longrightarrow> q \<in> {StateRejected, StateCompleted, StateQueued} \<Longrightarrow> at_rest k y"
  unfolding at_rest_def by blast

lemma at_rest_timer: "k \<in> fst ` set (v_timers (y_svc y)) \<Longrightarrow> at_rest k y"
  by (simp add: at_rest_def ids1_def)

lemma step_touches:
  assumes "inv1 ex y" and "sys1_step en y y'"
  obtains (active) k where "touches k y y'" "k \<in> set (ids1 y)" "never_fails en \<Longrightarrow> at_rest k y'"
  | (new) k where "touches k y y'" "recs1 (y_svc y) k = None" "never_fails en \<Longrightarrow> at_rest k y'"
  | (none) "\<forall>j. recs1 (y_svc y') j = recs1 (y_svc y) j" "ids1 y' = ids1 y" "v_cfg (y_svc y') = v_cfg (y_svc y)"
  using assms(2)
proof (cases rule: sys1_step.cases)
  case (submit req c r s')
  have ids: "idle_from 0 k c (y_svc y) s' \<Longrightarrow> ids1 y' = ids1 y" for k using submit(1) by (simp add: idle_from_def ids1_def)
  show ?thesis
    using submit(2) inv1_nonneg [OF assms(1)]
  proof (cases rule: submit1_summary)
    case (unchanged k)
    then have "recs1 s' j = recs1 (y_svc y) j" for j by (cases "j = k") (auto simp: idle_from_def)
    then show ?thesis using none ids [OF unchanged(1)] submit(1) unchanged(1) by (simp add: idle_from_def)
  next
    case (rejected k)
    then have "touches k y y'" using ids [OF rejected(2)] submit(1) by (simp add: touches_def idle_from_def)
    moreover have "never_fails en \<Longrightarrow> at_rest k y'" using rejected(3) submit(1) by (auto simp: at_rest_def)
    ultimately show ?thesis using new rejected(1) by blast
  next
    case (queued k)
    then have "touches k y y'" using submit(1) by (auto simp: touches_def enqueued_def ids1_def)
    moreover have "at_rest k y'" using queued(2) submit(1) by (simp add: at_rest_def enqueued_def ids1_def)
    ultimately show ?thesis using new queued(1) by blast
  qed
next
  case (pick k q rec s')
  obtain c n where i: "in_state (y_svc y) k StateQueued c n" using inv1_facts(6) [OF assms(1), of k] pick(2) by auto
  then have "in_state ((y_svc y)\<lparr> v_queue := q \<rparr>) k StateQueued c n" by (simp add: in_state_def)
  from process_pick_summary [OF this pick(3)] have "quiet k ((y_svc y)\<lparr> v_queue := q \<rparr>) s'" by metis
  then have "touches k y y'" using pick(1,2) by (auto simp: touches_def quiet_def ids1_def)
  moreover have "at_rest k y'" using pick(1) by (simp add: at_rest_def ids1_def)
  ultimately show ?thesis using active [of k] pick(2) by (simp add: ids1_def)
next
  case (drop k q s')
  obtain c n where i: "in_state (y_svc y) k StateQueued c n" using inv1_facts(6) [OF assms(1), of k] drop(2) by auto
  then have "in_state ((y_svc y)\<lparr> v_queue := q \<rparr>) k StateQueued c n" by (simp add: in_state_def)
  from process_pick_summary [OF this drop(3)] have "quiet k ((y_svc y)\<lparr> v_queue := q \<rparr>) s'" and nf: "\<not> never_fails en"
    by (metis option.discI)+
  then have "touches k y y'" using drop(1,2) by (auto simp: touches_def quiet_def ids1_def)
  then show ?thesis using active [of k] drop(2) nf by (simp add: ids1_def)
next
  case (settle xs k rec zs outcome)
  then have i: "in_state (y_svc y) k StateSimulating (b1_ClientID rec) (b1_RetryCount rec)" using inv1_facts(7) [OF assms(1)] by simp
  let ?s' = "process_settle en k rec outcome (y_svc y)"
  have "touches k y y'"
    using i refl [of ?s']
  proof (cases rule: process_settle_summary [case_names freed timer])
    case freed
    then show ?thesis using settle(1,2) by (auto simp: touches_def freed_def quiet_def ids1_def)
  next
    case (timer t d n)
    then show ?thesis using settle(1,2) by (auto simp: touches_def quiet_def ids1_def)
  qed
  moreover have "at_rest k y'" if "never_fails en"
    using process_settle_final [OF that i refl refl, of outcome] settle(1) at_rest_state [of y' k StateCompleted] at_rest_timer [of k y'] by auto
  ultimately show ?thesis using active [of k] settle(2) by (simp add: ids1_def)
next
  case (fire xs k c n d zs)
  let ?u = "(y_svc y)\<lparr> v_timers := xs @ zs \<rparr>"
  have i: "in_state ?u k StateRetryPending c n" "n \<le> c1_MaxRetries (v_cfg ?u)"
    using inv1_facts(8) [OF assms(1), of k c n d] fire(2) by (auto simp: in_state_def)
  have "touches k y y'"
    using i refl [of "retry_fire en k c n ?u"]
  proof (cases rule: retry_fire_summary [case_names freed queued])
    case freed
    then obtain t where "quiet k ?u t" "retry_fire en k c n ?u = free1 c t" unfolding freed_def by blast
    then show ?thesis using fire(1,2) by (simp add: touches_def quiet_def ids1_def)
  next
    case (queued t)
    then show ?thesis using fire(1,2) by (simp add: touches_def quiet_def ids1_def)
  qed
  moreover have "at_rest k y'" if "never_fails en"
    using retry_fire_final [OF that i] fire(1) unfolding at_rest_def by auto
  ultimately show ?thesis using active [of k] fire(2) by (simp add: ids1_def)
qed

lemma inactive_step:
  assumes "inv1 ex y" and "sys1_step en y y'" and "recs1 (y_svc y) k = Some r" and "k \<notin> set (ids1 y)"
  shows "recs1 (y_svc y') k = Some r \<and> k \<notin> set (ids1 y')"
  using assms(1,2)
proof (cases rule: step_touches)
  case (active j)
  then have "k \<noteq> j" using assms(4) by blast
  then show ?thesis using active(1) assms(3,4) by (simp add: touches_def)
next
  case (new j)
  then have "k \<noteq> j" using assms(3) by auto
  then show ?thesis using new(1) assms(3,4) by (simp add: touches_def)
next
  case none
  then show ?thesis using assms(3,4) by simp
qed

lemma inactive_stays:
  assumes "(sys1_step en)\<^sup>*\<^sup>* y y'" and "inv1 False y" and "recs1 (y_svc y) k = Some r" and "k \<notin> set (ids1 y)"
  shows "recs1 (y_svc y') k = Some r \<and> k \<notin> set (ids1 y')"
  using assms(1)
proof (induction rule: rtranclp_induct)
  case base
  then show ?case using assms(3,4) by blast
next
  case (step y1 y2)
  have "inv1 False y1" using inv1_steps [OF step(1) assms(2)] by simp
  then show ?case using inactive_step [OF _ step(2)] step(3) by blast
qed

lemma steps_cfg: "(sys1_step en)\<^sup>*\<^sup>* y y' \<Longrightarrow> inv1 False y \<Longrightarrow> v_cfg (y_svc y') = v_cfg (y_svc y)"
proof (induction rule: rtranclp_induct)
  case (step y1 y2)
  have "inv1 False y1" using inv1_steps [OF step(1) step.prems] by simp
  from step_touches [OF this step(2)] have "v_cfg (y_svc y2) = v_cfg (y_svc y1)" by (metis touches_def)
  then show ?case using step by simp
qed simp

definition ended1 :: "FileStore1 \<Rightarrow> Sys1 \<Rightarrow> bool" where
  "ended1 st y \<longleftrightarrow> (\<forall>k r. recs1 (y_svc y) k = Some r \<longrightarrow> gm_get (fs_records st) k = None \<longrightarrow> at_rest k y)"

lemma at_rest_other: "touches k y y' \<Longrightarrow> j \<noteq> k \<Longrightarrow> at_rest j y' \<longleftrightarrow> at_rest j y"
  by (simp add: at_rest_def touches_def in_state_def)

lemma ended1_step:
  assumes "inv1 ex y" and "never_fails en" and "sys1_step en y y'" and "ended1 st y"
  shows "ended1 st y'"
  using assms(1,3)
proof (cases rule: step_touches)
  case (active k)
  then show ?thesis using assms(2,4) at_rest_other [OF active(1)] unfolding ended1_def touches_def by metis
next
  case (new k)
  then show ?thesis using assms(2,4) at_rest_other [OF new(1)] unfolding ended1_def touches_def by metis
next
  case none
  then have "at_rest k y' = at_rest k y" for k by (simp add: at_rest_def in_state_def)
  then show ?thesis using assms(4) none(1) unfolding ended1_def by metis
qed

lemma ended1_steps:
  "(sys1_step en)\<^sup>*\<^sup>* y y' \<Longrightarrow> never_fails en \<Longrightarrow> inv1 True y \<Longrightarrow> ended1 st y \<Longrightarrow> ended1 st y'"
proof (induction rule: rtranclp_induct)
  case (step y1 y2)
  have "inv1 True y1" using inv1_steps [OF step(1)] step.prems by simp
  then show ?case using ended1_step step by blast
qed

section \<open>Properties\<close>

text \<open>
  C33: In every reachable state of relay v1, whatever fails, no bundle is active twice; the channel stays within \<^verbatim>\<open>QueueDepth\<close>; every queued bundle is in state
  queued, every bundle under simulation in state simulating, every bundle with a timer in state retry_pending; and each client holds at least one
  slot for each of its active bundles and never more than \<^verbatim>\<open>MaxInFlightPerClient\<close>. While no file operation and no encoder fails the slots
  held are exactly the active bundles: none leaks.
\<close>

theorem v1_slots_cover_active_bundles:
  assumes "New1 cfg st = Some s0" and "(sys1_step en)\<^sup>*\<^sup>* (start1 s0) y"
  shows "distinct (ids1 y) \<and> int (length (v_queue (y_svc y))) \<le> c1_QueueDepth cfg \<and>
    (\<forall>k \<in> set (v_queue (y_svc y)). \<exists>c n. in_state (y_svc y) k StateQueued c n) \<and>
    (\<forall>(k, rec) \<in> set (y_running y). in_state (y_svc y) k StateSimulating (b1_ClientID rec) (b1_RetryCount rec)) \<and>
    (\<forall>(k, c, n, d) \<in> set (v_timers (y_svc y)). in_state (y_svc y) k StateRetryPending c n \<and> n \<le> c1_MaxRetries cfg) \<and>
    (\<forall>c. claimed (y_svc y) (ids1 y) c \<le> cnt1 (y_svc y) c \<and> cnt1 (y_svc y) c \<le> max 0 (c1_MaxInFlightPerClient cfg)) \<and>
    (never_fails en \<longrightarrow> (\<forall>c. cnt1 (y_svc y) c = claimed (y_svc y) (ids1 y) c))"
proof -
  have i: "inv1 (never_fails en) y" using inv1_steps [OF assms(2) inv1_start [OF assms(1)]] by simp
  have "v_cfg (y_svc y) = cfg"
    using steps_cfg [OF assms(2) inv1_start [OF assms(1)]] assms(1) by (auto simp: New1_def start1_def split: if_splits)
  then show ?thesis using i unfolding inv1_def Let_def by simp
qed

text \<open>
  C34: Only active bundles ever move. A record that exists and whose bundle is neither in the channel nor being simulated nor waiting for a timer
  is never changed again by any sequence of steps, and its bundle never becomes active again. In particular a restarted relay
  v1 leaves every record it loads as it was: a bundle that was queued, simulating or waiting for a retry when the process stopped stays so for ever.
\<close>

theorem v1_only_active_bundles_move:
  assumes "New1 cfg st = Some s0" and "(sys1_step en)\<^sup>*\<^sup>* (start1 s0) y" and "(sys1_step en)\<^sup>*\<^sup>* y y'"
    and "recs1 (y_svc y) k = Some r" and "k \<notin> set (ids1 y)"
  shows "recs1 (y_svc y') k = Some r \<and> k \<notin> set (ids1 y')"
proof -
  have "inv1 False y" using inv1_steps [OF assms(2) inv1_start [OF assms(1)]] by simp
  then show ?thesis by (rule inactive_stays [OF assms(3) _ assms(4,5)])
qed

lemma restart_strands:
  assumes "New1 cfg st = Some s0" and "(sys1_step en)\<^sup>*\<^sup>* (start1 s0) y" and "gm_get (fs_records st) k = Some r"
  shows "recs1 (y_svc y) k = Some r \<and> k \<notin> set (ids1 y)"
proof (rule inactive_stays [OF assms(2) inv1_start [OF assms(1)]])
  show "recs1 (y_svc (start1 s0)) k = Some r" "k \<notin> set (ids1 (start1 s0))"
    using assms(1,3) by (auto simp: New1_def start1_def ids1_def split: if_splits)
qed

text \<open>
  While no file operation and no encoder fails, a bundle accepted by relay v1 that is no longer active has been rejected or completed, or it
  was left in state queued although nothing will ever take it from there (its retry found the channel full: \<open>retry_overflow_strands\<close>).
\<close>

theorem v1_bundles_end:
  assumes "New1 cfg st = Some s0" and "(sys1_step en)\<^sup>*\<^sup>* (start1 s0) y" and "never_fails en"
    and "recs1 (y_svc y) k = Some r" and "gm_get (fs_records st) k = None"
  shows "k \<in> set (ids1 y) \<or> b1_State r \<in> {StateRejected, StateCompleted, StateQueued}"
proof -
  have "ended1 st (start1 s0)" using assms(1) by (auto simp: ended1_def New1_def start1_def split: if_splits)
  then have "at_rest k y" using ended1_steps [OF assms(2,3) inv1_start [OF assms(1)]] assms(4,5) unfolding ended1_def by blast
  then show ?thesis using assms(4) by (auto simp: at_rest_def in_state_def)
qed

text \<open>The retry of a bundle finds the channel full: its slot is freed and its record stays in state queued, outside the channel.\<close>

lemma retry_overflow_strands:
  assumes "in_state s k StateRetryPending c n" and "n \<le> c1_MaxRetries (v_cfg s)"
    and "tr1 en k StateRetryPending StateQueued ''retry queued'' s = (Inr rec, t)" and "c1_QueueDepth (v_cfg s) \<le> int (length (v_queue s))"
  shows "retry_fire en k c n s = free1 c (t\<lparr> v_ticks := v_ticks t + 1 \<rparr>) \<and> in_state t k StateQueued c n \<and> v_queue t = v_queue s \<and>
    v_metrics t = v_metrics s"
proof -
  have i: "in_state t k StateQueued c n" using tr1_moved [OF assms(3,1)] by blast
  have q: "v_queue t = v_queue s" "v_cfg t = v_cfg s" using tr1_quiet [OF assms(3)] by (simp_all add: quiet_def)
  have m: "v_metrics t = v_metrics s" using assms(3) by (auto simp: tr1_def on_store1_def split: prod.splits)
  have g: "\<exists>rec. store1_Get k (v_store s) = Some rec \<and> b1_State rec = StateRetryPending"
    using assms(1) by (auto simp: in_state_def store1_Get_def)
  show ?thesis
    using g i q m assms(2-4) dead_letter1_from_queued [OF i] by (auto simp: retry_fire_def try_enqueue1_def)
qed

text \<open>A worker that cannot move its bundle to simulating drops it and keeps the slot.\<close>

lemma failed_pick_leaks:
  assumes "in_state s k StateQueued c n" and "tr1 en k StateQueued StateSimulating ''picked'' s = (Inl e, t)"
  shows "process_pick en k s = (None, t) \<and> (\<forall>c. cnt1 t c = cnt1 s c)"
proof -
  obtain rec where "store1_Get k (v_store s) = Some rec" "b1_ID rec = k" using assms(1) by (auto simp: in_state_def store1_Get_def)
  then show ?thesis using assms(2) tr1_quiet [OF assms(2)] by (simp add: process_pick_def quiet_def)
qed

section \<open>A run\<close>

definition sample_cfg1 :: Config1 where
  "sample_cfg1 = (Load1 (\<lambda>_. None) (\<lambda>_. None))\<lparr> c1_QueueDepth := 1, c1_MaxInFlightPerClient := 2 \<rparr>"

definition sample_service1 :: "FileStore1 \<Rightarrow> Service1" where
  "sample_service1 st = \<lparr> v_cfg = sample_cfg1, v_store = st, v_metrics = zero_metrics1, v_queue = [], v_clients = [], v_timers = [], v_ticks = 0 \<rparr>"

definition sample_en1 :: En1 where
  "sample_en1 = \<lparr> n_io = no_faults, n_cd = ref_codec1, n_sha = (\<lambda>s. s), n_clk = int \<rparr>"

definition sample_req1 :: JSONRPCRequest where
  "sample_req1 = \<lparr> jr_JSONRPC = ''2.0'', jr_ID = 1, jr_Method = ''eth_sendBundle'', jr_Params = [b1_Request sample_record1] \<rparr>"

definition sample_id1 :: string where
  "sample_id1 = bundleID1 (\<lambda>s. s) (bundleHash1 (\<lambda>s. s) (b1_Request sample_record1)) 1"

definition sample_sys1 :: "FileStore1 \<Rightarrow> Sys1" where
  "sample_sys1 st = (start1 (sample_service1 st))\<lparr> y_svc := snd (submitWithIdentity1 sample_en1 sample_req1 ''c'' (sample_service1 st)) \<rparr>"

lemma sample_started: "New1 sample_cfg1 st = Some (sample_service1 st)"
  by (simp add: New1_def sample_service1_def sample_cfg1_def)

lemma sample_reached: "(sys1_step sample_en1)\<^sup>*\<^sup>* (start1 (sample_service1 st)) (sample_sys1 st)"
proof -
  have "submitWithIdentity1 sample_en1 sample_req1 ''c'' (y_svc (start1 (sample_service1 st))) =
      (fst (submitWithIdentity1 sample_en1 sample_req1 ''c'' (sample_service1 st)), snd (submitWithIdentity1 sample_en1 sample_req1 ''c'' (sample_service1 st)))"
    by (simp add: start1_def)
  from sys1_step.submit [OF this] show ?thesis unfolding sample_sys1_def by blast
qed

lemma sample_never_fails: "never_fails sample_en1"
  by (simp add: never_fails_def sample_en1_def no_faults_def ref_codec1_def)

lemma sample_accepted: "recs1 (y_svc (sample_sys1 sample_store1)) sample_id1 \<noteq> None \<and> v_queue (y_svc (sample_sys1 sample_store1)) = [sample_id1]"
  by code_simp

theorem v1_slots_cover_active_bundles_witness:
  "let s = y_svc (sample_sys1 sample_store1) in
    int (length (v_queue s)) \<le> 1 \<and> in_state s sample_id1 StateQueued ''c'' 0 \<and> cnt1 s ''c'' = claimed s (ids1 (sample_sys1 sample_store1)) ''c''"
proof -
  have "in_state (y_svc (sample_sys1 sample_store1)) sample_id1 StateQueued ''c'' 0" by code_simp
  then show ?thesis
    using v1_slots_cover_active_bundles [OF sample_started [of sample_store1] sample_reached] sample_never_fails sample_accepted
    by (simp add: Let_def)
qed

theorem v1_only_active_bundles_move_witness:
  "let st = sample_store1\<lparr> fs_records := [(''b'', sample_record1)] \<rparr> in
    recs1 (y_svc (sample_sys1 st)) ''b'' = Some sample_record1 \<and> ''b'' \<notin> set (ids1 (sample_sys1 st))"
  unfolding Let_def
proof (rule v1_only_active_bundles_move [OF sample_started rtranclp.rtrancl_refl sample_reached])
  let ?s = "start1 (sample_service1 (sample_store1\<lparr> fs_records := [(''b'', sample_record1)] \<rparr>))"
  show "recs1 (y_svc ?s) ''b'' = Some sample_record1" "''b'' \<notin> set (ids1 ?s)"
    by (simp_all add: start1_def sample_service1_def ids1_def gm_get_def)
qed

theorem v1_bundles_end_witness:
  "sample_id1 \<in> set (ids1 (sample_sys1 sample_store1)) \<or>
   b1_State (the (recs1 (y_svc (sample_sys1 sample_store1)) sample_id1)) \<in> {StateRejected, StateCompleted, StateQueued}"
proof -
  obtain r where "recs1 (y_svc (sample_sys1 sample_store1)) sample_id1 = Some r" using sample_accepted by auto
  then show ?thesis
    using v1_bundles_end [OF sample_started [of sample_store1] sample_reached sample_never_fails] by (simp add: sample_store1_def)
qed

end
