(* ===== verification/Relay1_Http.thy ===== *)
theory Relay1_Http
  imports Relay1_Props
begin

text \<open>
  The health report and the HTTP surface of relay v1 (\<^verbatim>\<open>relay/health.go\<close>, \<^verbatim>\<open>relay/http.go\<close>). The JSON decoder with its limit, \<^verbatim>\<open>net.SplitHostPort\<close>
  and \<^verbatim>\<open>netip.ParseAddr\<close> are parameters. The lemmas say when the relay is ready, and that a bundle the
  relay answers 202 for is in its channel.
\<close>

section \<open>Health\<close>

datatype HealthState1 = HealthStateHealthy1 | HealthStateDegraded1 | HealthStateUnsafe1

fun health_string1 :: "HealthState1 \<Rightarrow> string" where
  "health_string1 HealthStateHealthy1 = ''healthy''"
| "health_string1 HealthStateDegraded1 = ''degraded''"
| "health_string1 HealthStateUnsafe1 = ''unsafe''"

record HealthReport1 =
  h1_State :: HealthState1
  h1_Ready :: bool
  h1_StoreHealthy :: bool
  h1_BackendHealthy :: bool
  h1_QueueDepth :: int
  h1_QueueCapacity :: int
  h1_Reasons :: "string list"

definition store_check1 :: "string option \<Rightarrow> HealthReport1 \<Rightarrow> HealthReport1" where
  "store_check1 err r = (case err of
       None \<Rightarrow> r
     | Some e \<Rightarrow> r\<lparr> h1_StoreHealthy := False, h1_Ready := False, h1_State := HealthStateUnsafe1, h1_Reasons := h1_Reasons r @ [''store: '' @ e] \<rparr>)"

definition backend_check1 :: "sim_error option \<Rightarrow> HealthReport1 \<Rightarrow> HealthReport1" where
  "backend_check1 err r = (case err of
       None \<Rightarrow> r
     | Some e \<Rightarrow> r\<lparr> h1_BackendHealthy := False, h1_Ready := False, h1_State := HealthStateUnsafe1,
         h1_Reasons := h1_Reasons r @ [''backend: '' @ snd e] \<rparr>)"

definition queue_check1 :: "HealthReport1 \<Rightarrow> HealthReport1" where
  "queue_check1 r =
     (if h1_QueueCapacity r > 0
      then let fill = f_div (f_of_int (h1_QueueDepth r)) (f_of_int (h1_QueueCapacity r)) in
        if h1_QueueDepth r \<ge> h1_QueueCapacity r
        then r\<lparr> h1_Ready := False, h1_State := HealthStateUnsafe1, h1_Reasons := h1_Reasons r @ [''queue saturated''] \<rparr>
        else if f_le (f_const 8 10) fill \<and> h1_State r = HealthStateHealthy1
        then r\<lparr> h1_State := HealthStateDegraded1, h1_Reasons := h1_Reasons r @ [''queue pressure''] \<rparr>
        else r
      else r)"

text \<open>\<open>ping\<close> is what the backend's \<^verbatim>\<open>Ping\<close> returns.\<close>

definition AssessHealth1 :: "En1 \<Rightarrow> sim_error option \<Rightarrow> Service1 \<Rightarrow> HealthReport1 \<times> Service1" where
  "AssessHealth1 en ping s =
     (let r0 = \<lparr> h1_State = HealthStateHealthy1, h1_Ready = True, h1_StoreHealthy = True, h1_BackendHealthy = True,
                 h1_QueueDepth = int (length (v_queue s)), h1_QueueCapacity = c1_QueueDepth (v_cfg s), h1_Reasons = [] \<rparr>;
          (err, fs) = store1_Health (n_io en) (v_store s)
      in (queue_check1 (backend_check1 ping (store_check1 err r0)), s\<lparr> v_store := fs \<rparr>))"

definition Ready1 :: "En1 \<Rightarrow> sim_error option \<Rightarrow> Service1 \<Rightarrow> string option \<times> Service1" where
  "Ready1 en ping s =
     (let (report, s) = AssessHealth1 en ping s in
      (if \<not> h1_Ready report then Some (''relay unsafe: ['' @ Join (h1_Reasons report) '' '' @ '']'') else None, s))"

section \<open>HTTP\<close>

record HttpRequest1 =
  q1_Method :: string
  q1_Path :: string
  q1_RemoteAddr :: string
  q1_Query_id :: string
  q1_Body :: string

datatype HttpBody1 = ErrorBody1 string | NotFoundBody1 | RpcError1 int string | RpcResult1 int string string string gtime
  | ReportBody1 HealthReport1 | RecordBody1 BundleRecord1 | MetricsBody1 string

record Net1 =
  nt_decode :: "int \<Rightarrow> string \<Rightarrow> string + JSONRPCRequest"
  nt_splitHost :: "string \<Rightarrow> string option"
  nt_parseAddr :: "string \<Rightarrow> string option"

definition remoteIP :: "Net1 \<Rightarrow> string \<Rightarrow> string" where
  "remoteIP nt addr =
     (if addr = [] then []
      else case nt_splitHost nt addr of
          None \<Rightarrow> addr
        | Some host \<Rightarrow> (case nt_parseAddr nt host of Some ip \<Rightarrow> ip | None \<Rightarrow> host))"

definition clientIdentity1 :: "Net1 \<Rightarrow> string \<Rightarrow> string" where
  "clientIdentity1 nt remoteAddr = (let remote = remoteIP nt remoteAddr in if remote \<noteq> [] then remote else ''anonymous'')"

text \<open>\<^verbatim>\<open>strings.Contains\<close>.\<close>

fun Contains :: "string \<Rightarrow> string \<Rightarrow> bool" where
  "Contains [] sub = (sub = [])"
| "Contains (c # s) sub = (HasPrefix (c # s) sub \<or> Contains s sub)"

definition http1_submit :: "En1 \<Rightarrow> Net1 \<Rightarrow> HttpRequest1 \<Rightarrow> Service1 \<Rightarrow> (int \<times> HttpBody1) \<times> Service1" where
  "http1_submit en nt r s = (case nt_decode nt (c1_MaxPayloadBytes (v_cfg s)) (q1_Body r) of
       Inl _ \<Rightarrow> ((400, ErrorBody1 ''invalid json''), s)
     | Inr req \<Rightarrow> (case submitWithIdentity1 en req (clientIdentity1 nt (q1_RemoteAddr r)) s of
         ((q, err), s) \<Rightarrow> (case err of
           Some e \<Rightarrow>
             ((if Contains e ''queue overflow'' \<or> Contains e ''client inflight limit'' then 429 else 400, RpcError1 (jr_ID req) e), s)
         | None \<Rightarrow>
             (let (k, st, hash) = (case q of None \<Rightarrow> ([], [], []) | Some rec \<Rightarrow> (b1_ID rec, state_string (b1_State rec), b1_BundleHash rec)) in
              ((202, RpcResult1 (jr_ID req) k st hash (n_clk en (v_ticks s))), s\<lparr> v_ticks := v_ticks s + 1 \<rparr>)))))"

definition http1_ready :: "En1 \<Rightarrow> sim_error option \<Rightarrow> Service1 \<Rightarrow> (int \<times> HttpBody1) \<times> Service1" where
  "http1_ready en ping s =
     (let (report, s) = AssessHealth1 en ping s in ((if \<not> h1_Ready report then 503 else 200, ReportBody1 report), s))"

definition http1_health :: "En1 \<Rightarrow> sim_error option \<Rightarrow> Service1 \<Rightarrow> (int \<times> HttpBody1) \<times> Service1" where
  "http1_health en ping s =
     (let (report, s) = AssessHealth1 en ping s in
      ((if h1_State report = HealthStateUnsafe1 then 503 else 200, ReportBody1 report), s))"

definition http1_status :: "HttpRequest1 \<Rightarrow> Service1 \<Rightarrow> int \<times> HttpBody1" where
  "http1_status r s =
     (let k = (if q1_Query_id r = [] \<and> HasPrefix (q1_Path r) ''/relay/v1/bundle/'' then drop 17 (q1_Path r) else q1_Query_id r) in
      if k = [] then (400, ErrorBody1 ''missing id'')
      else case Service1_Get k s of
          None \<Rightarrow> (404, ErrorBody1 ''not found'')
        | Some rec \<Rightarrow> (200, RecordBody1 rec))"

definition http1_metrics ::
  "((string \<times> int) list \<Rightarrow> (string \<times> int) list) \<Rightarrow> ((string \<times> BundleRecord1) list \<Rightarrow> (string \<times> BundleRecord1) list) \<Rightarrow> Service1 \<Rightarrow>
   int \<times> HttpBody1" where
  "http1_metrics ordm ordr s =
     (let (recs, snap) = Service1_Snapshot ordr s in
      (200, MetricsBody1 (concat (map (\<lambda>(k, v). ''mev_relay_'' @ k @ '' '' @ show_int 10 v @ [CHR 0x0A]) (ordm snap)) @
        ''mev_relay_bundles '' @ show_int 10 (int (length recs)) @ [CHR 0x0A])))"

definition relay1_ServeHTTP ::
  "En1 \<Rightarrow> Net1 \<Rightarrow> sim_error option \<Rightarrow> ((string \<times> int) list \<Rightarrow> (string \<times> int) list) \<Rightarrow>
   ((string \<times> BundleRecord1) list \<Rightarrow> (string \<times> BundleRecord1) list) \<Rightarrow> HttpRequest1 \<Rightarrow> Service1 \<Rightarrow> (int \<times> HttpBody1) \<times> Service1" where
  "relay1_ServeHTTP en nt ping ordm ordr r s =
     (let get = (q1_Method r = ''GET''); post = (q1_Method r = ''POST''); path = q1_Path r in
      if post \<and> path = ''/relay/v1/bundle'' then http1_submit en nt r s
      else if get \<and> (path = ''/relay/v1/bundle'' \<or> HasPrefix path ''/relay/v1/bundle/'') then (http1_status r s, s)
      else if get \<and> path = ''/healthz'' then http1_health en ping s
      else if get \<and> path = ''/readyz'' then http1_ready en ping s
      else if get \<and> path = ''/metrics'' then (http1_metrics ordm ordr s, s)
      else ((404, NotFoundBody1), s))"

section \<open>Readiness\<close>

lemma check1_fields [simp]:
  "h1_QueueDepth (store_check1 e r) = h1_QueueDepth r" "h1_QueueCapacity (store_check1 e r) = h1_QueueCapacity r"
  "h1_QueueDepth (backend_check1 p r) = h1_QueueDepth r" "h1_QueueCapacity (backend_check1 p r) = h1_QueueCapacity r"
  by (simp_all add: store_check1_def backend_check1_def split: option.splits)

lemma check1_ready:
  "h1_Ready (store_check1 e r) \<longleftrightarrow> h1_Ready r \<and> e = None" "h1_Ready (backend_check1 p r) \<longleftrightarrow> h1_Ready r \<and> p = None"
  "h1_Ready (queue_check1 r) \<longleftrightarrow> h1_Ready r \<and> \<not> (0 < h1_QueueCapacity r \<and> h1_QueueCapacity r \<le> h1_QueueDepth r)"
  by (auto simp: store_check1_def backend_check1_def queue_check1_def Let_def split: option.splits)

lemma check1_state:
  "h1_State (store_check1 e r) = (if e = None then h1_State r else HealthStateUnsafe1)"
  "h1_State (backend_check1 p r) = (if p = None then h1_State r else HealthStateUnsafe1)"
  "h1_State (queue_check1 r) = HealthStateUnsafe1 \<longleftrightarrow>
     h1_State r = HealthStateUnsafe1 \<or> 0 < h1_QueueCapacity r \<and> h1_QueueCapacity r \<le> h1_QueueDepth r"
  by (auto simp: store_check1_def backend_check1_def queue_check1_def Let_def split: option.splits)

text \<open>Ready and not unsafe are the same: the store and the backend answer and the channel is not full.\<close>

lemma AssessHealth1_ready:
  assumes "AssessHealth1 en ping s = (r, s')"
  shows "h1_Ready r \<longleftrightarrow> fst (store1_Health (n_io en) (v_store s)) = None \<and> ping = None \<and>
      \<not> (0 < c1_QueueDepth (v_cfg s) \<and> c1_QueueDepth (v_cfg s) \<le> int (length (v_queue s)))"
    and "h1_State r \<noteq> HealthStateUnsafe1 \<longleftrightarrow> h1_Ready r"
  using assms by (auto simp: AssessHealth1_def Let_def check1_ready check1_state split: prod.splits if_splits)

section \<open>Acceptance\<close>

lemma enqueue1_ok:
  assumes "in_state s (b1_ID rec) StateValidated c 0" and "enqueue1 en rec c s = ((q, None), s')"
  shows "\<exists>rec'. q = Some rec' \<and> b1_ID rec' = b1_ID rec \<and> b1_State rec' = StateQueued \<and> v_queue s' = v_queue s @ [b1_ID rec] \<and>
    in_state s' (b1_ID rec) StateQueued c 0"
  using assms(1)
proof (cases rule: tr1_cases [where en = en and dst = StateQueued and reason = "''queued''", case_names failed moved])
  case (failed e t)
  then show ?thesis using assms(2) by (simp add: enqueue1_def)
next
  case (moved rec1 t)
  have "b1_State rec1 = StateQueued"
    using store1_Transition_cases(2) [OF tr1_store [OF moved(1)], of rec1] by auto
  then show ?thesis
    using moved assms(2)
    by (auto simp: enqueue1_def try_enqueue1_def quiet_def in_state_def split: if_splits sum.splits prod.splits)
qed

lemma submit1_ok:
  assumes "submitWithIdentity1 en req c s = ((q, None), s')"
  shows "\<exists>rec. q = Some rec \<and> recs1 s (b1_ID rec) = None \<and> v_queue s' = v_queue s @ [b1_ID rec] \<and> in_state s' (b1_ID rec) StateQueued c 0 \<and>
    b1_State rec = StateQueued"
proof -
  obtain p where a: "accept1 en (new_record1 (n_sha en) p (jr_ID req) c) c s = ((q, None), s')"
    using assms by (auto simp: submitWithIdentity1_def split: if_splits list.splits)
  let ?rec = "new_record1 (n_sha en) p (jr_ID req) c"
  obtain r1 t where 1: "on_store1 en (\<lambda>now. store1_Create (n_io en) (n_cd en) now ?rec) s = (r1, t)" by fastforce
  from a 1 obtain rec1 where r1: "r1 = Inr rec1" by (cases r1) (auto simp: accept1_def)
  note C = Create_cases(3) [OF 1 r1]
  let ?t = "count1 (\<lambda>m. m\<lparr> m1_Received := m1_Received m + 1 \<rparr>) t"
  have i: "in_state ?t (b1_ID rec1) StateReceived c 0" using C by (simp add: new_record1_def Let_def)
  have q1: "v_queue ?t = v_queue s" using Create_cases(1) [OF 1] by (simp add: quiet_def)
  show ?thesis
    using i
  proof (cases rule: tr1_cases [where en = en and dst = StateValidated and reason = "''validated''", case_names failed moved])
    case (failed e u)
    then show ?thesis using a 1 r1 by (simp add: accept1_def)
  next
    case (moved rec2 u)
    have adm: "admit1 en rec2 c u = ((q, None), s')" using a 1 r1 moved(1) by (simp add: accept1_def)
    let ?u = "u\<lparr> v_clients := gm_set (v_clients u) c (cnt1 u c + 1) \<rparr>"
    have e: "enqueue1 en rec2 c ?u = ((q, None), s')"
      using adm by (auto simp: admit1_def Inc1_def Let_def split: if_splits sum.splits prod.splits)
    have iu: "in_state ?u (b1_ID rec2) StateValidated c 0" using moved(3,4) by (simp add: in_state_def)
    have "v_queue u = v_queue s" using moved(2) q1 by (simp add: quiet_def)
    then show ?thesis using enqueue1_ok [OF iu e] moved(4) C by auto
  qed
qed

text \<open>
  C35: Relay v1 answers 202 to a submission exactly when it took the bundle: the answer names a bundle that did not exist before and is
  now the last one of the channel, in state queued; every other answer has status 400 or 429, and carries the error.
\<close>

theorem v1_accepted_is_queued:
  assumes "http1_submit en nt r s = ((status, body), s')"
  shows "(status = 202 \<longrightarrow> (\<exists>rid k hash now. body = RpcResult1 rid k ''queued'' hash now \<and> recs1 s k = None \<and>
      v_queue s' = v_queue s @ [k] \<and> in_state s' k StateQueued (clientIdentity1 nt (q1_RemoteAddr r)) 0)) \<and>
    (status \<noteq> 202 \<longrightarrow> status \<in> {400, 429} \<and> (\<exists>rid e. body \<in> {ErrorBody1 e, RpcError1 rid e}))"
proof (cases "nt_decode nt (c1_MaxPayloadBytes (v_cfg s)) (q1_Body r)")
  case (Inl e)
  then show ?thesis using assms by (auto simp: http1_submit_def)
next
  case (Inr req)
  obtain q err t where sub: "submitWithIdentity1 en req (clientIdentity1 nt (q1_RemoteAddr r)) s = ((q, err), t)" by (metis prod.collapse)
  show ?thesis
  proof (cases err)
    case (Some e)
    then show ?thesis using assms Inr sub by (auto simp: http1_submit_def split: if_splits)
  next
    case None
    from submit1_ok [OF sub [unfolded None]] obtain rec where "q = Some rec" "recs1 s (b1_ID rec) = None"
      "v_queue t = v_queue s @ [b1_ID rec]" "in_state t (b1_ID rec) StateQueued (clientIdentity1 nt (q1_RemoteAddr r)) 0" "b1_State rec = StateQueued"
      by blast
    then show ?thesis using assms Inr sub None by (auto simp: http1_submit_def in_state_def)
  qed
qed

definition sample_net1 :: Net1 where
  "sample_net1 = \<lparr> nt_decode = (\<lambda>_ _. Inr sample_req1), nt_splitHost = (\<lambda>_. None), nt_parseAddr = (\<lambda>_. None) \<rparr>"

definition sample_http1 :: HttpRequest1 where
  "sample_http1 = \<lparr> q1_Method = ''POST'', q1_Path = ''/relay/v1/bundle'', q1_RemoteAddr = ''c'', q1_Query_id = [], q1_Body = [] \<rparr>"

theorem v1_accepted_is_queued_witness:
  "let (a, s') = http1_submit sample_en1 sample_net1 sample_http1 (sample_service1 sample_store1) in
    fst a = 202 \<and> (\<exists>k. v_queue s' = [k] \<and> in_state s' k StateQueued ''c'' 0)"
proof -
  obtain status body s' where h: "http1_submit sample_en1 sample_net1 sample_http1 (sample_service1 sample_store1) = ((status, body), s')"
    by (metis prod.collapse)
  have "fst (fst (http1_submit sample_en1 sample_net1 sample_http1 (sample_service1 sample_store1))) = 202" by code_simp
  moreover have "clientIdentity1 sample_net1 (q1_RemoteAddr sample_http1) = ''c''" by code_simp
  moreover have "v_queue (sample_service1 sample_store1) = []" by code_simp
  ultimately show ?thesis using v1_accepted_is_queued [OF h] h by auto
qed

text \<open>
  The hash runs the transactions together: bundles that split the same bytes differently have the same identity, and the second
  one is refused as a duplicate.
\<close>

lemma hash1_joins_transactions:
  "bundleHash1 sha (p\<lparr> bq_Txs := [a @ b, c] \<rparr>) = bundleHash1 sha (p\<lparr> bq_Txs := [a, b @ c] \<rparr>)"
  by (simp add: bundleHash1_def)

lemma duplicate_refused1:
  assumes "recs1 s (b1_ID (new_record1 (n_sha en) p reqID c)) \<noteq> None"
  shows "\<exists>s'. accept1 en (new_record1 (n_sha en) p reqID c) c s = ((None, Some ''bundle already exists''), s')"
  using assms by (auto simp: accept1_def on_store1_def store1_Create_def split: prod.splits)

text \<open>A negative \<^verbatim>\<open>QUEUE_DEPTH\<close> is taken from the environment as it is and makes the constructor panic.\<close>

lemma negative_depth_panics:
  "lookup ''QUEUE_DEPTH'' = Some ''-1'' \<Longrightarrow> New1 (Load1 lookup parseDuration) st = None"
proof -
  have "Atoi ''-1'' = Some (- 1)" by code_simp
  then show "lookup ''QUEUE_DEPTH'' = Some ''-1'' \<Longrightarrow> ?thesis" by (simp add: New1_def Load1_def envInt1_def)
qed

end
