(* ===== verification/Tx1_Model.thy ===== *)
theory Tx1_Model
  imports Tx_Model
begin

text \<open>
  The first version of the block builder, \<^verbatim>\<open>txpool-builder/v1/internal\<close>, a command that takes one snapshot of the pool and
  writes one candidate: its records (\<^verbatim>\<open>model/model.go\<close>, \<^verbatim>\<open>run/types.go\<close>), the helpers of \<^verbatim>\<open>run/util.go\<close> and the decoding
  of one transaction (\<^verbatim>\<open>run/decode.go\<close>).

  A \<^verbatim>\<open>json.RawMessage\<close> inside a decoded document is a syntactically valid value, so it is a value of \<open>json\<close>; numbers keep their
  text. Unmarshalling it into a Go type is written out. The lemmas show what a decoded transaction satisfies.
\<close>

section \<open>Reason codes and records\<close>

datatype ReasonCode1 =
  R1None | R1ConfigError | R1RPCUnavailable | R1RPCTimeout | R1RPCSchemaError | R1RPCUnsupportedMethod
  | R1ChainIDMismatch | R1SyncingNode | R1SnapshotTooLarge | R1HeadDrift | R1ArtifactWriteFailed | R1TraceWriteFailed
  | R1InvariantFailure | R1Timeout | R1PanicRecovered
  | R1DecodeError | R1UnsupportedTxType | R1MissingField | R1InvalidHex | R1Overflow | R1InvalidAddress | R1InvalidNonce
  | R1NonceGap | R1DuplicateNonce | R1DuplicateTx | R1ReplacementConflict | R1InvalidGasLimit | R1ExceedsBlockGas
  | R1InvalidFeeModel | R1InsufficientEffectiveFee | R1PolicyRejected | R1CapacityExcluded | R1StaleSnapshot

fun reason1_string :: "ReasonCode1 \<Rightarrow> string" where
  "reason1_string R1None = ''''"
| "reason1_string R1ConfigError = ''CONFIG_ERROR''"
| "reason1_string R1RPCUnavailable = ''RPC_UNAVAILABLE''"
| "reason1_string R1RPCTimeout = ''RPC_TIMEOUT''"
| "reason1_string R1RPCSchemaError = ''RPC_SCHEMA_ERROR''"
| "reason1_string R1RPCUnsupportedMethod = ''RPC_UNSUPPORTED_METHOD''"
| "reason1_string R1ChainIDMismatch = ''CHAIN_ID_MISMATCH''"
| "reason1_string R1SyncingNode = ''SYNCING_NODE''"
| "reason1_string R1SnapshotTooLarge = ''SNAPSHOT_TOO_LARGE''"
| "reason1_string R1HeadDrift = ''HEAD_DRIFT''"
| "reason1_string R1ArtifactWriteFailed = ''ARTIFACT_WRITE_FAILED''"
| "reason1_string R1TraceWriteFailed = ''TRACE_WRITE_FAILED''"
| "reason1_string R1InvariantFailure = ''INVARIANT_FAILURE''"
| "reason1_string R1Timeout = ''TIMEOUT''"
| "reason1_string R1PanicRecovered = ''PANIC_RECOVERED''"
| "reason1_string R1DecodeError = ''DECODE_ERROR''"
| "reason1_string R1UnsupportedTxType = ''UNSUPPORTED_TX_TYPE''"
| "reason1_string R1MissingField = ''MISSING_FIELD''"
| "reason1_string R1InvalidHex = ''INVALID_HEX''"
| "reason1_string R1Overflow = ''OVERFLOW''"
| "reason1_string R1InvalidAddress = ''INVALID_ADDRESS''"
| "reason1_string R1InvalidNonce = ''INVALID_NONCE''"
| "reason1_string R1NonceGap = ''NONCE_GAP''"
| "reason1_string R1DuplicateNonce = ''DUPLICATE_NONCE''"
| "reason1_string R1DuplicateTx = ''DUPLICATE_TX''"
| "reason1_string R1ReplacementConflict = ''REPLACEMENT_CONFLICT''"
| "reason1_string R1InvalidGasLimit = ''INVALID_GAS_LIMIT''"
| "reason1_string R1ExceedsBlockGas = ''EXCEEDS_BLOCK_GAS''"
| "reason1_string R1InvalidFeeModel = ''INVALID_FEE_MODEL''"
| "reason1_string R1InsufficientEffectiveFee = ''INSUFFICIENT_EFFECTIVE_FEE''"
| "reason1_string R1PolicyRejected = ''POLICY_REJECTED''"
| "reason1_string R1CapacityExcluded = ''CAPACITY_EXCLUDED''"
| "reason1_string R1StaleSnapshot = ''STALE_SNAPSHOT''"

datatype json =
  JNull | JBool bool | JNum string | JStr string | JArr "json list" | JObj "(string \<times> json) list"

record Transaction1 =
  tx1_Hash :: string
  tx1_From :: string
  tx1_To :: "string option"
  tx1_Nonce :: u64
  tx1_TxType :: byte
  tx1_GasLimit :: u64
  tx1_MaxFeePerGas :: "int option"
  tx1_MaxPriorityFeePerGas :: "int option"
  tx1_GasPrice :: "int option"
  tx1_Value :: "int option"
  tx1_InputLen :: nat
  tx1_AccessList :: nat
  tx1_RawMetadata :: "(string, json) gomap option"
  tx1_IntrinsicGas :: u64
  tx1_Eligible :: bool
  tx1_ReasonCode :: ReasonCode1
  tx1_ReasonDetail :: string
  tx1_EffectivePriorityFee :: "int option"
  tx1_EffectiveGasPrice :: "int option"
  tx1_Score :: "int option"
  tx1_SenderNonceGroupSize :: int

definition zero_tx1 :: Transaction1 where
  "zero_tx1 = \<lparr> tx1_Hash = [], tx1_From = [], tx1_To = None, tx1_Nonce = 0, tx1_TxType = 0, tx1_GasLimit = 0,
     tx1_MaxFeePerGas = None, tx1_MaxPriorityFeePerGas = None, tx1_GasPrice = None, tx1_Value = None, tx1_InputLen = 0,
     tx1_AccessList = 0, tx1_RawMetadata = None, tx1_IntrinsicGas = 0, tx1_Eligible = False, tx1_ReasonCode = R1None,
     tx1_ReasonDetail = [], tx1_EffectivePriorityFee = None, tx1_EffectiveGasPrice = None, tx1_Score = None,
     tx1_SenderNonceGroupSize = 0 \<rparr>"

record TxDecision1 =
  td1_TxHash :: string
  td1_From :: string
  td1_Nonce :: u64
  td1_Accepted :: bool
  td1_PrimaryReason :: ReasonCode1
  td1_ReasonDetail :: string
  td1_Stage :: string
  td1_RankPosition :: int
  td1_SelectionPos :: int
  td1_GasLimit :: u64
  td1_Score :: string
  td1_EffectiveTip :: string
  td1_EffectivePrice :: string

text \<open>The literal of a rejection: the fields that are not named there are zero.\<close>

definition reject1 :: "string \<Rightarrow> string \<Rightarrow> u64 \<Rightarrow> ReasonCode1 \<Rightarrow> string \<Rightarrow> string \<Rightarrow> TxDecision1" where
  "reject1 hash sender nonce code detail stage =
     \<lparr> td1_TxHash = hash, td1_From = sender, td1_Nonce = nonce, td1_Accepted = False, td1_PrimaryReason = code,
       td1_ReasonDetail = detail, td1_Stage = stage, td1_RankPosition = 0, td1_SelectionPos = 0, td1_GasLimit = 0,
       td1_Score = [], td1_EffectiveTip = [], td1_EffectivePrice = [] \<rparr>"

text \<open>The literals that carry the numbers of the transaction.\<close>

definition scored_decision1 :: "Transaction1 \<Rightarrow> bool \<Rightarrow> ReasonCode1 \<Rightarrow> string \<Rightarrow> string \<Rightarrow> TxDecision1" where
  "scored_decision1 tx ok code detail stage =
     \<lparr> td1_TxHash = tx1_Hash tx, td1_From = tx1_From tx, td1_Nonce = tx1_Nonce tx, td1_Accepted = ok,
       td1_PrimaryReason = code, td1_ReasonDetail = detail, td1_Stage = stage, td1_RankPosition = 0,
       td1_SelectionPos = 0, td1_GasLimit = tx1_GasLimit tx, td1_Score = bigToString (tx1_Score tx),
       td1_EffectiveTip = bigToString (tx1_EffectivePriorityFee tx),
       td1_EffectivePrice = bigToString (tx1_EffectiveGasPrice tx) \<rparr>"

record TxConfig1 =
  tc1_ConfigPath :: string
  tc1_RPCURL :: string
  tc1_OutputPath :: string
  tc1_TraceOutputPath :: string
  tc1_SnapshotOutputPath :: string
  tc1_ReplaySnapshotPath :: string
  tc1_CompareCandidatePath :: string
  tc1_Timeout :: duration
  tc1_MaxTransactions :: int
  tc1_MaxGas :: u64
  tc1_MaxSnapshotTxs :: int
  tc1_MaxRawSnapshotBytes :: int
  tc1_MaxArtifactBytes :: int
  tc1_MaxTraceBytes :: int
  tc1_PolicyVersion :: string
  tc1_ChainID :: "int option"
  tc1_Strict :: bool
  tc1_RejectOnPartialDecode :: bool
  tc1_AllowHeadDrift :: bool
  tc1_IncludeQueued :: bool
  tc1_NoWrite :: bool
  tc1_DryRunConfig :: bool
  tc1_PrintConfig :: bool
  tc1_Version :: bool

definition zero_cfg1 :: TxConfig1 where
  "zero_cfg1 = \<lparr> tc1_ConfigPath = [], tc1_RPCURL = [], tc1_OutputPath = [], tc1_TraceOutputPath = [],
     tc1_SnapshotOutputPath = [], tc1_ReplaySnapshotPath = [], tc1_CompareCandidatePath = [], tc1_Timeout = 0,
     tc1_MaxTransactions = 0, tc1_MaxGas = 0, tc1_MaxSnapshotTxs = 0, tc1_MaxRawSnapshotBytes = 0,
     tc1_MaxArtifactBytes = 0, tc1_MaxTraceBytes = 0, tc1_PolicyVersion = [], tc1_ChainID = None, tc1_Strict = False,
     tc1_RejectOnPartialDecode = False, tc1_AllowHeadDrift = False, tc1_IncludeQueued = False, tc1_NoWrite = False,
     tc1_DryRunConfig = False, tc1_PrintConfig = False, tc1_Version = False \<rparr>"

record decisionBuckets =
  db_DecodeFailures :: "TxDecision1 list"
  db_ValidationFailures :: "TxDecision1 list"
  db_PolicyRejections :: "TxDecision1 list"
  db_CapacityExclusions :: "TxDecision1 list"
  db_Accepted :: "TxDecision1 list"

definition zero_buckets :: decisionBuckets where
  "zero_buckets = \<lparr> db_DecodeFailures = [], db_ValidationFailures = [], db_PolicyRejections = [],
     db_CapacityExclusions = [], db_Accepted = [] \<rparr>"

record canonicalSnapshot =
  cs1_SchemaVersion :: int
  cs1_SnapshotID :: string
  cs1_SourceEndpointLabel :: string
  cs1_CapturedAt :: gtime
  cs1_HeadBefore :: string
  cs1_HeadAfter :: string
  cs1_HeadDrift :: bool
  cs1_ChainID :: string
  cs1_ClientVersion :: string
  cs1_FetchDurationMS :: int
  cs1_RawPayloadDigest :: string
  cs1_RawPendingCount :: nat
  cs1_RawQueuedCount :: nat
  cs1_Pending :: "Transaction1 list"
  cs1_Queued :: "Transaction1 list"
  cs1_RawSnapshotPath :: string
  cs1_RawSnapshotSize :: int

record snapshotFingerprint1 =
  fp1_SchemaVersion :: int
  fp1_SourceEndpointLabel :: string
  fp1_HeadBefore :: string
  fp1_HeadAfter :: string
  fp1_HeadDrift :: bool
  fp1_ChainID :: string
  fp1_ClientVersion :: string
  fp1_RawPayloadDigest :: string
  fp1_RawPendingCount :: nat
  fp1_RawQueuedCount :: nat
  fp1_Pending :: "Transaction1 list"
  fp1_Queued :: "Transaction1 list"
  fp1_RawSnapshotSize :: int

record BlockCandidate1 =
  bc1_SchemaVersion :: int
  bc1_CandidateID :: string
  bc1_SnapshotID :: string
  bc1_PolicyVersion :: string
  bc1_BinaryVersion :: string
  bc1_ConfigDigest :: string
  bc1_SourceEndpointLabel :: string
  bc1_ChainID :: string
  bc1_SelectedTxs :: "Transaction1 list"
  bc1_SelectedTxHashes :: "string list"
  bc1_SelectedOrder :: "string list"
  bc1_TxCount :: nat
  bc1_TotalGas :: u64
  bc1_EstimatedPriorityRevenue :: string
  bc1_RejectedCount :: nat
  bc1_RejectionSummary :: "(string, nat) gomap"
  bc1_SelectionStopReason :: string
  bc1_BuildDurationMS :: int
  bc1_CreatedAt :: gtime
  bc1_TraceRef :: string
  bc1_IsExecutableBlock :: bool

record DecisionTrace1 =
  dt1_SchemaVersion :: int
  dt1_TraceID :: string
  dt1_SnapshotID :: string
  dt1_CandidateID :: string
  dt1_PolicyVersion :: string
  dt1_BinaryVersion :: string
  dt1_ConfigDigest :: string
  dt1_SourceEndpointLabel :: string
  dt1_ChainID :: string
  dt1_DecodeFailures :: "TxDecision1 list"
  dt1_ValidationFailures :: "TxDecision1 list"
  dt1_PolicyRejections :: "TxDecision1 list"
  dt1_CapacityExclusions :: "TxDecision1 list"
  dt1_Accepted :: "TxDecision1 list"
  dt1_RankingOrder :: "string list"
  dt1_SelectionOrder :: "string list"
  dt1_ReasonCodeSummary :: "(string, nat) gomap"
  dt1_SelectionStopReason :: string
  dt1_FinalSummary :: string
  dt1_CreatedAt :: gtime
  dt1_ReplayMode :: bool

record StartupError1 =
  se1_Code :: ReasonCode1
  se1_Stage :: string
  se1_Detail :: string
  se1_Err :: "string option"

text \<open>An error is a \<^verbatim>\<open>*StartupError\<close> or one of another type, known by its text.\<close>

datatype run_error = Startup1 StartupError1 | Plain1 string

text \<open>\<^verbatim>\<open>Error\<close> of a pointer that is not nil; the cause is kept as its text.\<close>

definition StartupError1_Error :: "StartupError1 \<Rightarrow> string" where
  "StartupError1_Error e =
     (case se1_Err e of
        Some err \<Rightarrow> reason1_string (se1_Code e) @ '': '' @ se1_Detail e @ '': '' @ err
      | None \<Rightarrow> reason1_string (se1_Code e) @ '': '' @ se1_Detail e)"

definition run_error_text :: "run_error \<Rightarrow> string" where
  "run_error_text e = (case e of Startup1 se \<Rightarrow> StartupError1_Error se | Plain1 t \<Rightarrow> t)"

abbreviation startup_error :: "ReasonCode1 \<Rightarrow> string \<Rightarrow> string \<Rightarrow> string option \<Rightarrow> run_error" where
  "startup_error code stage detail err \<equiv>
     Startup1 \<lparr> se1_Code = code, se1_Stage = stage, se1_Detail = detail, se1_Err = err \<rparr>"

section \<open>Helpers\<close>

definition deterministicID1 :: "(string \<Rightarrow> string) \<Rightarrow> string list \<Rightarrow> string" where
  "deterministicID1 sha256hex parts = sha256hex (concat (map (\<lambda>p. p @ [CHR 0x00]) parts))"

definition hashesOf1 :: "Transaction1 list \<Rightarrow> string list" where
  "hashesOf1 txs = map tx1_Hash txs"

definition parseString1 :: "(string, json) gomap \<Rightarrow> string \<Rightarrow> string" where
  "parseString1 m key = (case gm_get m key of
       None \<Rightarrow> [] | Some JNull \<Rightarrow> [] | Some (JStr s) \<Rightarrow> s | Some _ \<Rightarrow> [])"

definition parseNullableString1 :: "(string, json) gomap \<Rightarrow> string \<Rightarrow> string option" where
  "parseNullableString1 m key = (let s = parseString1 m key in if s = [] then None else Some s)"

definition parseUintString1 :: "string \<Rightarrow> u64 option" where
  "parseUintString1 s0 =
     (let s = TrimSpace s0 in
      if s = [] then None
      else if HasPrefix s ''0x'' \<or> HasPrefix s ''0X'' then ParseUint 16 (drop 2 s)
      else ParseUint 10 s)"

definition parseUint1 :: "(string, json) gomap \<Rightarrow> string \<Rightarrow> u64 option" where
  "parseUint1 m key = (case gm_get m key of
       None \<Rightarrow> None | Some JNull \<Rightarrow> None
     | Some (JStr s) \<Rightarrow> parseUintString1 s
     | Some (JNum num) \<Rightarrow> ParseUint 10 num
     | Some _ \<Rightarrow> None)"

definition parseHexBig :: "string \<Rightarrow> int option" where
  "parseHexBig s0 =
     (let s = TrimSpace s0 in
      if s = [] then None
      else if HasPrefix s ''0x'' \<or> HasPrefix s ''0X'' then SetString 16 (drop 2 s)
      else SetString 10 s)"

definition parseBig1 :: "(string, json) gomap \<Rightarrow> string \<Rightarrow> int option" where
  "parseBig1 m key = (case gm_get m key of
       None \<Rightarrow> None | Some JNull \<Rightarrow> None | Some (JStr s) \<Rightarrow> parseHexBig s | Some _ \<Rightarrow> None)"

text \<open>\<^verbatim>\<open>strconv.ParseUint\<close> with the text of its error; \<open>quote\<close> is \<^verbatim>\<open>strconv.Quote\<close>.\<close>

definition ParseUint_err :: "(string \<Rightarrow> string) \<Rightarrow> nat \<Rightarrow> string \<Rightarrow> string + u64" where
  "ParseUint_err quote base t =
     (case ParseUint base t of
        Some v \<Rightarrow> Inr v
      | None \<Rightarrow> Inl (''strconv.ParseUint: parsing '' @ quote t @
          (if t = [] \<or> digits_value base 0 t = None then '': invalid syntax'' else '': value out of range'')))"

definition parseHexUint64 :: "(string \<Rightarrow> string) \<Rightarrow> string \<Rightarrow> string + u64" where
  "parseHexUint64 quote s0 =
     (let s = TrimSpace s0 in
      if HasPrefix s ''0x'' \<or> HasPrefix s ''0X'' then ParseUint_err quote 16 (drop 2 s) else ParseUint_err quote 10 s)"

definition hex_char :: "char \<Rightarrow> bool" where
  "hex_char c = (case digit_val c of None \<Rightarrow> False | Some d \<Rightarrow> d < 16)"

definition isValidHexAddress :: "string \<Rightarrow> bool" where
  "isValidHexAddress s0 =
     (let s = TrimSpace s0 in
      if \<not> HasPrefix s ''0x'' \<or> length s \<noteq> 42 then False else list_all hex_char (drop 2 s))"

definition hasBlobFields :: "(string, json) gomap \<Rightarrow> bool" where
  "hasBlobFields obj = (gm_get obj ''blobVersionedHashes'' \<noteq> None)"

definition countPoolEntries :: "(string, (string, json) gomap) gomap \<Rightarrow> nat" where
  "countPoolEntries pool = sum_list (map (\<lambda>(_, nonces). gm_len nonces) pool)"

definition inc_reason :: "(string, nat) gomap \<Rightarrow> TxDecision1 \<Rightarrow> (string, nat) gomap" where
  "inc_reason out d =
     (let key0 = reason1_string (td1_PrimaryReason d); key = (if key0 = [] then ''unknown'' else key0)
      in gm_set out key (gm_get0 0 out key + 1))"

definition mergeReasonSummary :: "(string, nat) gomap \<Rightarrow> decisionBuckets \<Rightarrow> (string, nat) gomap" where
  "mergeReasonSummary base buckets =
     (let out = foldl (\<lambda>out (k, v). gm_set out k (gm_get0 0 out k + v)) [] base;
          out = foldl inc_reason out (db_DecodeFailures buckets);
          out = foldl inc_reason out (db_ValidationFailures buckets);
          out = foldl inc_reason out (db_PolicyRejections buckets)
      in foldl inc_reason out (db_CapacityExclusions buckets))"

definition mergeSelectionReasonSummary :: "(string, nat) gomap \<Rightarrow> (string, nat) gomap \<Rightarrow> (string, nat) gomap" where
  "mergeSelectionReasonSummary a b =
     (let add = (\<lambda>out (k, v). gm_set out k (gm_get0 0 out k + v)) in foldl add (foldl add [] a) b)"

section \<open>Decoding one transaction\<close>

text \<open>\<^verbatim>\<open>hex.DecodeString\<close>; an invalid byte is printed with the verb \<^verbatim>\<open>%#U\<close>.\<close>

definition upper_hex :: "nat \<Rightarrow> char" where
  "upper_hex d = (if d < 10 then char_of (48 + d) else char_of (55 + d))"

definition InvalidByteError :: "char \<Rightarrow> string" where
  "InvalidByteError c =
     (let n = of_char c :: nat;
          printable = (32 \<le> n \<and> n \<le> 126 \<or> 161 \<le> n \<and> n \<noteq> 173);
          utf8 = (if n < 128 then [c] else [char_of (192 + n div 64), char_of (128 + n mod 64)])
      in ''encoding/hex: invalid byte: U+00'' @ [upper_hex (n div 16), upper_hex (n mod 16)] @
         (if printable then [CHR '' '', CHR 0x27] @ utf8 @ [CHR 0x27] else []))"

fun hex_decode :: "string \<Rightarrow> string + byte list" where
  "hex_decode [] = Inr []"
| "hex_decode [p] = (if hex_char p then Inl ''encoding/hex: odd length hex string''
                     else Inl (InvalidByteError p))"
| "hex_decode (p # q # s) =
     (if \<not> hex_char p then Inl (InvalidByteError p)
      else if \<not> hex_char q then Inl (InvalidByteError q)
      else case hex_decode s of
             Inl e \<Rightarrow> Inl e
           | Inr bs \<Rightarrow> Inr (of_nat (the (digit_val p) * 16 + the (digit_val q)) # bs))"

fun data_gas :: "u64 \<Rightarrow> byte list \<Rightarrow> u64" where
  "data_gas gas [] = gas"
| "data_gas gas (b # bs) = data_gas (gas + (if b = 0 then 4 else 16)) bs"

definition computeIntrinsicGas :: "Transaction1 \<Rightarrow> byte list \<Rightarrow> u64" where
  "computeIntrinsicGas tx data =
     (let gas = 21000;
          gas = (if tx1_To tx = None then gas + 32000 else gas);
          gas = data_gas gas data
      in if tx1_AccessList tx > 0 then gas + 2400 + 1900 else gas)"

definition countAccessList :: "json option \<Rightarrow> nat" where
  "countAccessList raw = (case raw of None \<Rightarrow> 0 | Some JNull \<Rightarrow> 0 | Some (JArr arr) \<Rightarrow> length arr | Some _ \<Rightarrow> 0)"

text \<open>\<^verbatim>\<open>json.Unmarshal\<close> into a map: null leaves the map nil, which reads as an empty one.\<close>

definition json_object :: "json \<Rightarrow> string + (string, json) gomap" where
  "json_object raw =
     (let err = (\<lambda>v. Inl (''json: cannot unmarshal '' @ v @ '' into Go value of type map[string]json.RawMessage''))
      in case raw of
           JNull \<Rightarrow> Inr [] | JObj m \<Rightarrow> Inr m
         | JBool _ \<Rightarrow> err ''bool'' | JNum _ \<Rightarrow> err ''number'' | JStr _ \<Rightarrow> err ''string'' | JArr _ \<Rightarrow> err ''array'')"

text \<open>
  The stages of \<^verbatim>\<open>decodeTx\<close>; a rejection comes with the text of its error. The identity, the type and the gas limit:
\<close>

definition decode_fields ::
  "string \<Rightarrow> string \<Rightarrow> (string, json) gomap \<Rightarrow> u64 \<Rightarrow> string \<Rightarrow> TxDecision1 \<times> string + Transaction1" where
  "decode_fields sender nonceKey obj blockGasLimit stage =
     (let hash = parseString1 obj ''hash'';
          from0 = parseString1 obj ''from'';
          from1 = (if from0 = [] then sender else from0);
          fail = (\<lambda>code detail err. Inl (reject1 hash from1 0 code detail stage, err));
          nonce0 = (case parseUint1 obj ''nonce'' of Some n \<Rightarrow> Some n | None \<Rightarrow> parseUintString1 nonceKey);
          txType = (ucast (case parseUint1 obj ''type'' of Some t \<Rightarrow> t | None \<Rightarrow> 0) :: byte)
      in if hash = [] then Inl (reject1 [] sender 0 R1MissingField ''missing hash'' stage, ''missing hash'')
         else if \<not> isValidHexAddress from1 then fail R1InvalidAddress ''invalid sender'' ''invalid sender''
         else case nonce0 of
           None \<Rightarrow> fail R1MissingField ''missing nonce'' ''missing nonce''
         | Some nonce \<Rightarrow>
             if txType > 2 \<or> hasBlobFields obj then fail R1UnsupportedTxType ''unsupported tx type'' ''unsupported tx type''
             else case parseUint1 obj ''gas'' of
               None \<Rightarrow> fail R1InvalidGasLimit ''invalid gas limit'' ''invalid gas limit''
             | Some gas \<Rightarrow>
                 if gas = 0 then fail R1InvalidGasLimit ''invalid gas limit'' ''invalid gas limit''
                 else if blockGasLimit > 0 \<and> gas > blockGasLimit
                 then fail R1ExceedsBlockGas ''gas limit exceeds block limit'' ''gas limit exceeds block''
                 else Inr (zero_tx1\<lparr> tx1_Hash := hash, tx1_From := from1, tx1_To := parseNullableString1 obj ''to'',
                        tx1_Nonce := nonce, tx1_TxType := txType, tx1_GasLimit := gas, tx1_RawMetadata := Some [],
                        tx1_Value := Some 0 \<rparr>))"

text \<open>The fee fields of the type:\<close>

definition decode_fees ::
  "(string, json) gomap \<Rightarrow> int option \<Rightarrow> string \<Rightarrow> Transaction1 \<Rightarrow> TxDecision1 \<times> string + Transaction1" where
  "decode_fees obj baseFee stage tx =
     (let fail = (\<lambda>code detail err. Inl (reject1 (tx1_Hash tx) (tx1_From tx) 0 code detail stage, err)) in
      if tx1_TxType tx = 0 \<or> tx1_TxType tx = 1 then
        (case parseBig1 obj ''gasPrice'' of
           None \<Rightarrow> fail R1MissingField ''missing gasPrice'' ''missing gasPrice''
         | Some p \<Rightarrow> Inr (tx\<lparr> tx1_GasPrice := Some p \<rparr>))
      else if tx1_TxType tx = 2 then
        (case (parseBig1 obj ''maxFeePerGas'', parseBig1 obj ''maxPriorityFeePerGas'') of
           (Some maxFee, Some maxTip) \<Rightarrow>
             (case baseFee of
                None \<Rightarrow> fail R1InvalidFeeModel ''missing base fee for dynamic fee tx'' ''missing base fee''
              | Some base \<Rightarrow>
                  if maxFee < base
                  then fail R1InsufficientEffectiveFee ''maxFeePerGas below baseFee'' ''maxFeePerGas below baseFee''
                  else Inr (tx\<lparr> tx1_MaxFeePerGas := Some maxFee, tx1_MaxPriorityFeePerGas := Some maxTip \<rparr>))
         | _ \<Rightarrow> fail R1MissingField ''missing dynamic fee fields'' ''missing dynamic fee fields'')
      else Inr tx)"

text \<open>The value, the input, the access list and the intrinsic gas:\<close>

definition decode_input ::
  "(string, json) gomap \<Rightarrow> string \<Rightarrow> Transaction1 \<Rightarrow> TxDecision1 \<times> string + Transaction1" where
  "decode_input obj stage tx =
     (let fail = (\<lambda>code detail err. Inl (reject1 (tx1_Hash tx) (tx1_From tx) 0 code detail stage, err));
          value = (case parseBig1 obj ''value'' of Some v \<Rightarrow> v | None \<Rightarrow> 0);
          input0 = parseString1 obj ''input'';
          input = (if input0 = [] then parseString1 obj ''data'' else input0)
      in if \<not> HasPrefix input ''0x'' then fail R1InvalidHex ''invalid input hex'' ''invalid input hex''
         else case hex_decode (drop 2 input) of
           Inl err \<Rightarrow> fail R1InvalidHex err err
         | Inr data \<Rightarrow>
             (let tx = tx\<lparr> tx1_Value := Some value, tx1_InputLen := length data,
                           tx1_AccessList := countAccessList (gm_get obj ''accessList'') \<rparr>;
                  gas = computeIntrinsicGas tx data
              in if tx1_GasLimit tx < gas then fail R1InvalidGasLimit ''gas below intrinsic gas'' ''gas below intrinsic gas''
                 else Inr (tx\<lparr> tx1_IntrinsicGas := gas \<rparr>)))"

text \<open>The effective price and tip, and the score. A field that was checked before is dereferenced.\<close>

definition decode_effective :: "int option \<Rightarrow> string \<Rightarrow> Transaction1 \<Rightarrow> TxDecision1 \<times> string + Transaction1" where
  "decode_effective baseFee stage tx =
     (let fail = (\<lambda>detail. Inl (reject1 (tx1_Hash tx) (tx1_From tx) 0 R1InsufficientEffectiveFee detail stage, detail));
          score = (\<lambda>fee tx. Inr (tx\<lparr> tx1_EffectivePriorityFee := Some fee,
                                    tx1_Score := Some (fee * uint (tx1_GasLimit tx)) \<rparr>))
      in if tx1_TxType tx = 2 then
           (let base = the baseFee; maxFee = the (tx1_MaxFeePerGas tx); maxTip = the (tx1_MaxPriorityFeePerGas tx);
                tip = maxFee - base
            in if tip < 0 then fail ''maxFeePerGas below baseFee''
               else let tip = (if tip > maxTip then maxTip else tip)
                    in score tip (tx\<lparr> tx1_EffectiveGasPrice := Some (base + tip) \<rparr>))
         else
           (let price = the (tx1_GasPrice tx); tx = tx\<lparr> tx1_EffectiveGasPrice := Some price \<rparr>
            in case baseFee of
                 None \<Rightarrow> score price tx
               | Some base \<Rightarrow> if price - base < 0 then fail ''gas price below base fee'' else score (price - base) tx))"

definition decodeTx1 ::
  "string \<Rightarrow> string \<Rightarrow> json \<Rightarrow> int option \<Rightarrow> u64 \<Rightarrow> string \<Rightarrow> Transaction1 \<times> TxDecision1 option \<times> string option" where
  "decodeTx1 sender nonceKey raw baseFee blockGasLimit stage =
     (case json_object raw of
        Inl err \<Rightarrow> (zero_tx1, Some (reject1 [] sender 0 R1DecodeError err stage), Some err)
      | Inr obj \<Rightarrow>
          (case (case decode_fields sender nonceKey obj blockGasLimit stage of
                   Inl e \<Rightarrow> Inl e
                 | Inr tx \<Rightarrow> (case decode_fees obj baseFee stage tx of
                     Inl e \<Rightarrow> Inl e
                   | Inr tx \<Rightarrow> (case decode_input obj stage tx of
                       Inl e \<Rightarrow> Inl e | Inr tx \<Rightarrow> decode_effective baseFee stage tx))) of
             Inl (d, err) \<Rightarrow> (zero_tx1, Some d, Some err)
           | Inr tx \<Rightarrow> (tx, None, None)))"

section \<open>What decoding guarantees\<close>

lemma parse1_eq: "parseUintString1 = parseUintString" "parseHexBig = parseBigIntString"
  by (simp_all add: fun_eq_iff parseUintString1_def parseUintString_def parseHexBig_def parseBigIntString_def)

text \<open>A transaction whose input is within the gas it pays for, whose price covers the base fee and whose score is tip times gas.\<close>

definition decoded_ok :: "int option \<Rightarrow> u64 \<Rightarrow> Transaction1 \<Rightarrow> bool" where
  "decoded_ok baseFee blockGasLimit tx \<longleftrightarrow>
     tx1_Hash tx \<noteq> [] \<and> isValidHexAddress (tx1_From tx) \<and> tx1_TxType tx \<le> 2 \<and> 0 < tx1_GasLimit tx \<and>
     (0 < blockGasLimit \<longrightarrow> tx1_GasLimit tx \<le> blockGasLimit) \<and> tx1_IntrinsicGas tx \<le> tx1_GasLimit tx \<and>
     (\<exists>tip price. tx1_EffectivePriorityFee tx = Some tip \<and> tx1_EffectiveGasPrice tx = Some price \<and>
        tx1_Score tx = Some (tip * uint (tx1_GasLimit tx)) \<and>
        (case baseFee of None \<Rightarrow> tx1_TxType tx \<noteq> 2 \<and> tip = price | Some base \<Rightarrow> price = base + tip) \<and>
        (if tx1_TxType tx = 2
         then \<exists>maxFee maxTip. tx1_MaxFeePerGas tx = Some maxFee \<and> tx1_MaxPriorityFeePerGas tx = Some maxTip \<and>
                tip \<le> maxTip \<and> price \<le> maxFee \<and> (tip = maxTip \<or> price = maxFee)
         else tx1_GasPrice tx = Some price \<and> (baseFee \<noteq> None \<longrightarrow> 0 \<le> tip)))"

lemma decode_fields_ok:
  assumes "decode_fields sender key obj bg stage = Inr tx"
  shows "tx1_Hash tx \<noteq> [] \<and> isValidHexAddress (tx1_From tx) \<and> tx1_TxType tx \<le> 2 \<and> 0 < tx1_GasLimit tx \<and>
    (0 < bg \<longrightarrow> tx1_GasLimit tx \<le> bg)"
  using assms
  by (auto simp: decode_fields_def Let_def word_neq_0_conv not_less split: option.splits if_splits)

text \<open>The fields that the later stages leave alone.\<close>

definition same_identity :: "Transaction1 \<Rightarrow> Transaction1 \<Rightarrow> bool" where
  "same_identity tx tx' \<longleftrightarrow> tx1_Hash tx' = tx1_Hash tx \<and> tx1_From tx' = tx1_From tx \<and> tx1_Nonce tx' = tx1_Nonce tx \<and>
     tx1_TxType tx' = tx1_TxType tx \<and> tx1_GasLimit tx' = tx1_GasLimit tx"

lemma tx_type_cases: "(t :: byte) \<le> 2 \<Longrightarrow> t = 0 \<or> t = 1 \<or> t = 2"
  by (auto simp: word_le_nat_alt word_unat_eq_iff)

lemma decode_fees_ok:
  assumes "decode_fees obj baseFee stage tx = Inr tx'" and "tx1_TxType tx \<le> 2"
  shows "same_identity tx tx' \<and>
    (if tx1_TxType tx = 2 then \<exists>b f t. baseFee = Some b \<and> tx1_MaxFeePerGas tx' = Some f \<and> tx1_MaxPriorityFeePerGas tx' = Some t \<and> b \<le> f
     else \<exists>p. tx1_GasPrice tx' = Some p)"
  using tx_type_cases [OF assms(2)] assms(1)
  by (elim disjE) (auto simp: decode_fees_def same_identity_def Let_def not_less split: option.splits if_splits)

lemma decode_input_ok:
  assumes "decode_input obj stage tx = Inr tx'"
  shows "same_identity tx tx' \<and> tx1_IntrinsicGas tx' \<le> tx1_GasLimit tx' \<and> tx1_MaxFeePerGas tx' = tx1_MaxFeePerGas tx \<and>
    tx1_MaxPriorityFeePerGas tx' = tx1_MaxPriorityFeePerGas tx \<and> tx1_GasPrice tx' = tx1_GasPrice tx"
  using assms by (auto simp: decode_input_def same_identity_def Let_def not_less split: option.splits if_splits sum.splits)

lemma decode_effective_ok:
  assumes "decode_effective baseFee stage tx = Inr tx'"
    and "if tx1_TxType tx = 2 then \<exists>b f t. baseFee = Some b \<and> tx1_MaxFeePerGas tx = Some f \<and> tx1_MaxPriorityFeePerGas tx = Some t \<and> b \<le> f
         else \<exists>p. tx1_GasPrice tx = Some p"
    and "tx1_Hash tx \<noteq> []" "isValidHexAddress (tx1_From tx)" "tx1_TxType tx \<le> 2" "0 < tx1_GasLimit tx"
    and "0 < bg \<longrightarrow> tx1_GasLimit tx \<le> bg" and "tx1_IntrinsicGas tx \<le> tx1_GasLimit tx"
  shows "decoded_ok baseFee bg tx' \<and> same_identity tx tx'"
proof (cases "tx1_TxType tx = 2")
  case True
  then obtain b f t where "baseFee = Some b" "tx1_MaxFeePerGas tx = Some f" "tx1_MaxPriorityFeePerGas tx = Some t" "b \<le> f"
    using assms(2) by auto
  then show ?thesis
    using assms(1,3-8) True by (auto simp: decode_effective_def decoded_ok_def same_identity_def Let_def split: if_splits)
next
  case False
  then obtain p where "tx1_GasPrice tx = Some p" using assms(2) by auto
  then show ?thesis
    using assms(1,3-8) False
    by (auto simp: decode_effective_def decoded_ok_def same_identity_def Let_def split: if_splits option.splits)
qed

text \<open>Decoding either rejects with a reason and an error, or returns a transaction that meets \<open>decoded_ok\<close>.\<close>

lemma decodeTx1_ok:
  assumes "decodeTx1 sender key raw baseFee bg stage = (tx, d, err)"
  shows "err = None \<and> d = None \<and> decoded_ok baseFee bg tx \<or>
    (\<exists>dec e. err = Some e \<and> d = Some dec \<and> tx = zero_tx1)"
proof (cases "json_object raw")
  case (Inl e)
  then show ?thesis using assms by (auto simp: decodeTx1_def)
next
  case (Inr obj)
  show ?thesis
  proof (cases "decode_fields sender key obj bg stage")
    case (Inl e)
    then show ?thesis using assms Inr by (auto simp: decodeTx1_def split: prod.splits)
  next
    case f: (Inr tx1)
    note ok1 = decode_fields_ok [OF f]
    show ?thesis
    proof (cases "decode_fees obj baseFee stage tx1")
      case (Inl e)
      then show ?thesis using assms Inr f by (auto simp: decodeTx1_def split: prod.splits)
    next
      case g: (Inr tx2)
      note ok2 = decode_fees_ok [OF g]
      show ?thesis
      proof (cases "decode_input obj stage tx2")
        case (Inl e)
        then show ?thesis using assms Inr f g by (auto simp: decodeTx1_def split: prod.splits)
      next
        case h: (Inr tx3)
        note ok3 = decode_input_ok [OF h]
        show ?thesis
        proof (cases "decode_effective baseFee stage tx3")
          case (Inl e)
          then show ?thesis using assms Inr f g h by (auto simp: decodeTx1_def split: prod.splits)
        next
          case k: (Inr tx4)
          have "decoded_ok baseFee bg tx4"
            using decode_effective_ok [OF k, of bg] ok1 ok2 ok3 by (simp add: same_identity_def split: if_splits)
          then show ?thesis using assms Inr f g h k by (auto simp: decodeTx1_def)
        qed
      qed
    qed
  qed
qed

end
