(* ===== verification/Tx1_Pool.thy ===== *)
theory Tx1_Pool
  imports Tx1_Model Tx_Snapshot
begin

text \<open>
  Normalising one pool in the first version of the builder: \<^verbatim>\<open>run/snapshot.go\<close>. The transactions are grouped by the sender
  each one names, which need not be the one it is listed under. The comparison of nonce keys is declared as in the second
  version (\<open>nonce_key_less\<close>).

  A score is a pointer: comparing a nil one with another panics, comparing two nil ones does not. A stable sort whose
  comparator orders by score compares, among transactions that tie before the score, every two that end up next to each
  other, so that it panics exactly when some of them have a score and some have none (\<open>same_nil\<close>).

  The lemmas show that normalising never panics, and that the transactions it returns are decoded ones, in chains of consecutive nonces.
\<close>

section \<open>Blocks and pools\<close>

record BlockHeader1 =
  bh1_Number :: string
  bh1_GasLimit :: string
  bh1_BaseFeePerGas :: string

definition parseBlockHeader :: "(string \<Rightarrow> string) \<Rightarrow> BlockHeader1 \<Rightarrow> string + (int option \<times> u64)" where
  "parseBlockHeader quote header =
     (let base = bh1_BaseFeePerGas header; gas = bh1_GasLimit header;
          finish = (\<lambda>baseFee.
            if gas \<noteq> [] \<and> gas \<noteq> ''null''
            then (case parseHexUint64 quote gas of Inl e \<Rightarrow> Inl e | Inr v \<Rightarrow> Inr (baseFee, v))
            else Inr (baseFee, 0))
      in if base \<noteq> [] \<and> base \<noteq> ''null''
         then (case parseHexBig base of None \<Rightarrow> Inl ''invalid base fee'' | Some b \<Rightarrow> finish (Some b))
         else finish None)"

type_synonym json_pool = "(string, (string, json) gomap) gomap"

text \<open>What \<^verbatim>\<open>json.Unmarshal\<close> makes of the two members of the document, \<open>None\<close> for one that is missing or null.\<close>

definition decodePool1 :: "(string \<Rightarrow> string + (json_pool option \<times> json_pool option)) \<Rightarrow> string \<Rightarrow> string + (json_pool \<times> json_pool)" where
  "decodePool1 unmarshal raw =
     (case unmarshal raw of
        Inl err \<Rightarrow> Inl err
      | Inr (pending, queued) \<Rightarrow>
          Inr (case pending of None \<Rightarrow> [] | Some p \<Rightarrow> p, case queued of None \<Rightarrow> [] | Some q \<Rightarrow> q))"

section \<open>One sender\<close>

definition same_nil :: "Transaction1 list \<Rightarrow> bool" where
  "same_nil txs \<longleftrightarrow> list_all (\<lambda>t. tx1_Score t = None) txs \<or> list_all (\<lambda>t. tx1_Score t \<noteq> None) txs"

text \<open>\<^verbatim>\<open>a.Score.Cmp(b.Score)\<close> where it does not panic.\<close>

definition score_cmp :: "Transaction1 \<Rightarrow> Transaction1 \<Rightarrow> int" where
  "score_cmp a b = (case (tx1_Score a, tx1_Score b) of (Some x, Some y) \<Rightarrow> big_cmp x y | _ \<Rightarrow> 0)"

definition rival_less :: "Transaction1 \<Rightarrow> Transaction1 \<Rightarrow> bool" where
  "rival_less a b = (if score_cmp a b \<noteq> 0 then score_cmp a b > 0 else tx1_Hash a < tx1_Hash b)"

fun chains_loop ::
  "(u64, Transaction1 list) gomap \<Rightarrow> u64 \<Rightarrow> u64 list \<Rightarrow> u64 option \<Rightarrow> Transaction1 list \<Rightarrow> TxDecision1 list \<Rightarrow>
     (Transaction1 list \<times> TxDecision1 list) option" where
  "chains_loop groups blockGasLimit [] prev out rejections = Some (out, rejections)"
| "chains_loop groups blockGasLimit (nonce # nonces) prev out rejections =
     (let group0 = gm_get0 [] groups nonce in
      if \<not> same_nil group0 then None
      else case sort_by rival_less group0 of
        [] \<Rightarrow> None
      | best # rest \<Rightarrow>
          (let reject = (\<lambda>code detail tx. reject1 (tx1_Hash tx) (tx1_From tx) (tx1_Nonce tx) code detail ''policy'');
               rejections = rejections @ map (reject R1ReplacementConflict ''lower score same nonce'') rest
           in if (case prev of None \<Rightarrow> False | Some p \<Rightarrow> nonce > p + 1)
              then Some (out, rejections @ map (reject R1NonceGap ''nonce gap in sender chain'') (best # rest))
              else if tx1_GasLimit best > blockGasLimit \<and> blockGasLimit > 0
              then Some (out, rejections @ [reject R1ExceedsBlockGas ''gas limit exceeds block limit'' best])
              else chains_loop groups blockGasLimit nonces (Some nonce) (out @ [best]) rejections))"

definition normalizeSenderChains ::
  "((u64 \<times> Transaction1 list) list \<Rightarrow> (u64 \<times> Transaction1 list) list) \<Rightarrow> (u64, Transaction1 list) gomap \<Rightarrow> u64 \<Rightarrow>
     (Transaction1 list \<times> TxDecision1 list) option" where
  "normalizeSenderChains ord groups blockGasLimit =
     chains_loop groups blockGasLimit (sort_by (<) (map fst (ord groups))) None [] []"

section \<open>One pool\<close>

text \<open>The orders in which the maps of one call are ranged over, and \<^verbatim>\<open>strconv.Quote\<close>.\<close>

record pool_orders1 =
  po1_senders :: "(string \<times> (string, json) gomap) list \<Rightarrow> (string \<times> (string, json) gomap) list"
  po1_nonces :: "(string \<times> json) list \<Rightarrow> (string \<times> json) list"
  po1_grouped :: "(string \<times> (u64, Transaction1 list) gomap) list \<Rightarrow> (string \<times> (u64, Transaction1 list) gomap) list"
  po1_groups :: "(u64 \<times> Transaction1 list) list \<Rightarrow> (u64 \<times> Transaction1 list) list"
  po1_quote :: "string \<Rightarrow> string"

definition pool_orders1_ok :: "pool_orders1 \<Rightarrow> bool" where
  "pool_orders1_ok po \<longleftrightarrow> is_order (po1_senders po) \<and> is_order (po1_nonces po) \<and> is_order (po1_grouped po) \<and> is_order (po1_groups po)"

definition sortedPoolSenders1 :: "pool_orders1 \<Rightarrow> json_pool \<Rightarrow> string list" where
  "sortedPoolSenders1 po pool = sort (map fst (po1_senders po pool))"

definition sortedNonceKeys1 :: "pool_orders1 \<Rightarrow> (string, json) gomap \<Rightarrow> string list" where
  "sortedNonceKeys1 po nonces = sort_by nonce_key_less (map fst (po1_nonces po nonces))"

type_synonym tx_groups = "(string, (u64, Transaction1 list) gomap) gomap"

definition group_add :: "tx_groups \<Rightarrow> Transaction1 \<Rightarrow> tx_groups" where
  "group_add grouped tx =
     (let m = gm_get0 [] grouped (tx1_From tx)
      in gm_set grouped (tx1_From tx) (gm_set m (tx1_Nonce tx) (gm_get0 [] m (tx1_Nonce tx) @ [tx])))"

fun decode_keys ::
  "TxConfig1 \<Rightarrow> string \<Rightarrow> (string, json) gomap \<Rightarrow> int option \<Rightarrow> u64 \<Rightarrow> string \<Rightarrow> string list \<Rightarrow> tx_groups \<Rightarrow> decisionBuckets \<Rightarrow>
     string + (tx_groups \<times> decisionBuckets)" where
  "decode_keys cfg sender nonces baseFee bg stage [] grouped db = Inr (grouped, db)"
| "decode_keys cfg sender nonces baseFee bg stage (key # keys) grouped db =
     (case decodeTx1 sender key (gm_get0 JNull nonces key) baseFee bg stage of
        (tx, decision, Some err) \<Rightarrow>
          if tc1_RejectOnPartialDecode cfg
          then decode_keys cfg sender nonces baseFee bg stage keys grouped
                 (db\<lparr> db_DecodeFailures := db_DecodeFailures db @ [reject1 [] sender 0 R1DecodeError err stage] \<rparr>)
          else Inl err
      | (tx, decision, None) \<Rightarrow>
          decode_keys cfg sender nonces baseFee bg stage keys
            (case decision of None \<Rightarrow> group_add grouped tx
             | Some d \<Rightarrow> if td1_PrimaryReason d = R1None then group_add grouped tx else grouped)
            (let accept = db\<lparr> db_Accepted := db_Accepted db @ [scored_decision1 tx True R1None [] stage] \<rparr>
             in case decision of None \<Rightarrow> accept
                | Some d \<Rightarrow>
                    if td1_PrimaryReason d = R1None then accept
                    else if td1_PrimaryReason d = R1PolicyRejected
                    then db\<lparr> db_PolicyRejections := db_PolicyRejections db @ [d] \<rparr>
                    else if td1_PrimaryReason d = R1CapacityExcluded
                    then db\<lparr> db_CapacityExclusions := db_CapacityExclusions db @ [d] \<rparr>
                    else db\<lparr> db_ValidationFailures := db_ValidationFailures db @ [d] \<rparr>))"

fun decode_pool ::
  "pool_orders1 \<Rightarrow> TxConfig1 \<Rightarrow> json_pool \<Rightarrow> int option \<Rightarrow> u64 \<Rightarrow> string \<Rightarrow> string list \<Rightarrow> tx_groups \<Rightarrow> decisionBuckets \<Rightarrow>
     string + (tx_groups \<times> decisionBuckets)" where
  "decode_pool po cfg pool baseFee bg stage [] grouped db = Inr (grouped, db)"
| "decode_pool po cfg pool baseFee bg stage (sender # senders) grouped db =
     (let nonces = gm_get0 [] pool sender in
      case decode_keys cfg sender nonces baseFee bg stage (sortedNonceKeys1 po nonces) grouped db of
        Inl err \<Rightarrow> Inl err
      | Inr (grouped, db) \<Rightarrow> decode_pool po cfg pool baseFee bg stage senders grouped db)"

fun chain_senders ::
  "pool_orders1 \<Rightarrow> tx_groups \<Rightarrow> u64 \<Rightarrow> string list \<Rightarrow> Transaction1 list \<Rightarrow> decisionBuckets \<Rightarrow> (Transaction1 list \<times> decisionBuckets) option" where
  "chain_senders po grouped bg [] eligible db = Some (eligible, db)"
| "chain_senders po grouped bg (sender # senders) eligible db =
     (case normalizeSenderChains (po1_groups po) (gm_get0 [] grouped sender) bg of
        None \<Rightarrow> None
      | Some (txs, rejections) \<Rightarrow>
          chain_senders po grouped bg senders (eligible @ txs)
            (db\<lparr> db_PolicyRejections := db_PolicyRejections db @ rejections \<rparr>))"

definition normalizePool1 ::
  "pool_orders1 \<Rightarrow> json_pool \<Rightarrow> TxConfig1 \<Rightarrow> BlockHeader1 \<Rightarrow> string \<Rightarrow> (run_error + (Transaction1 list \<times> decisionBuckets)) option" where
  "normalizePool1 po pool cfg header stage =
     (case parseBlockHeader (po1_quote po) header of
        Inl err \<Rightarrow> Some (Inl (startup_error R1RPCSchemaError ''snapshot'' ''invalid block header'' (Some err)))
      | Inr (baseFee, bg) \<Rightarrow>
          (case decode_pool po cfg pool baseFee bg stage (sortedPoolSenders1 po pool) [] zero_buckets of
             Inl err \<Rightarrow> Some (Inl (Plain1 err))
           | Inr (grouped, db) \<Rightarrow>
               (case chain_senders po grouped bg (sort (map fst (po1_grouped po grouped))) [] db of
                  None \<Rightarrow> None
                | Some (eligible, db) \<Rightarrow> Some (Inr (eligible, db)))))"

section \<open>Groups stay well formed\<close>

definition nonce_group_ok :: "int option \<Rightarrow> u64 \<Rightarrow> string \<Rightarrow> u64 \<Rightarrow> Transaction1 list \<Rightarrow> bool" where
  "nonce_group_ok baseFee bg sender nonce txs \<longleftrightarrow> txs \<noteq> [] \<and>
     (\<forall>tx \<in> set txs. tx1_From tx = sender \<and> tx1_Nonce tx = nonce \<and> decoded_ok baseFee bg tx)"

definition sender_groups_ok :: "int option \<Rightarrow> u64 \<Rightarrow> string \<Rightarrow> (u64, Transaction1 list) gomap \<Rightarrow> bool" where
  "sender_groups_ok baseFee bg sender m \<longleftrightarrow> gm_ok m \<and> (\<forall>n txs. gm_get m n = Some txs \<longrightarrow> nonce_group_ok baseFee bg sender n txs)"

definition grouped_ok :: "int option \<Rightarrow> u64 \<Rightarrow> tx_groups \<Rightarrow> bool" where
  "grouped_ok baseFee bg grouped \<longleftrightarrow> gm_ok grouped \<and> (\<forall>s m. gm_get grouped s = Some m \<longrightarrow> sender_groups_ok baseFee bg s m)"

lemma sender_groups_get0: "grouped_ok baseFee bg grouped \<Longrightarrow> sender_groups_ok baseFee bg s (gm_get0 [] grouped s)"
  by (cases "gm_get grouped s") (auto simp: grouped_ok_def gm_get0_def sender_groups_ok_def)

lemma sender_groups_add:
  assumes "sender_groups_ok baseFee bg (tx1_From tx) m" and "decoded_ok baseFee bg tx"
  shows "sender_groups_ok baseFee bg (tx1_From tx) (gm_set m (tx1_Nonce tx) (gm_get0 [] m (tx1_Nonce tx) @ [tx]))"
proof -
  have "\<forall>t \<in> set (gm_get0 [] m (tx1_Nonce tx)). tx1_From t = tx1_From tx \<and> tx1_Nonce t = tx1_Nonce tx \<and> decoded_ok baseFee bg t"
    using assms(1) by (cases "gm_get m (tx1_Nonce tx)") (auto simp: gm_get0_def sender_groups_ok_def nonce_group_ok_def)
  then show ?thesis using assms by (auto simp: sender_groups_ok_def nonce_group_ok_def)
qed

lemma grouped_ok_add:
  assumes "grouped_ok baseFee bg grouped" and "decoded_ok baseFee bg tx"
  shows "grouped_ok baseFee bg (group_add grouped tx)"
  using assms sender_groups_add [OF sender_groups_get0 [OF assms(1)] assms(2)]
  by (auto simp: grouped_ok_def group_add_def Let_def)

lemma decode_keys_ok:
  "grouped_ok baseFee bg grouped \<Longrightarrow>
   decode_keys cfg sender nonces baseFee bg stage keys grouped db = Inr (grouped', db') \<Longrightarrow> grouped_ok baseFee bg grouped'"
proof (induction keys arbitrary: grouped db)
  case (Cons key keys)
  obtain tx d err where dec: "decodeTx1 sender key (gm_get0 JNull nonces key) baseFee bg stage = (tx, d, err)"
    by (cases "decodeTx1 sender key (gm_get0 JNull nonces key) baseFee bg stage")
  show ?case
  proof (cases err)
    case None
    then have "d = None" "decoded_ok baseFee bg tx" using decodeTx1_ok [OF dec] by auto
    then show ?thesis using Cons.IH [OF grouped_ok_add [OF Cons.prems(1)]] Cons.prems(2) dec None by simp
  next
    case (Some e)
    then show ?thesis using Cons dec by (simp split: if_splits)
  qed
qed simp

lemma decode_pool_ok:
  "grouped_ok baseFee bg grouped \<Longrightarrow>
   decode_pool po cfg pool baseFee bg stage senders grouped db = Inr (grouped', db') \<Longrightarrow> grouped_ok baseFee bg grouped'"
proof (induction senders arbitrary: grouped db)
  case (Cons sender senders)
  show ?case
  proof (cases "decode_keys cfg sender (gm_get0 [] pool sender) baseFee bg stage
      (sortedNonceKeys1 po (gm_get0 [] pool sender)) grouped db")
    case (Inr r)
    obtain g d where r: "r = (g, d)" by (cases r)
    then have "grouped_ok baseFee bg g" using decode_keys_ok Cons.prems(1) Inr by blast
    then show ?thesis using Cons.IH Cons.prems(2) Inr r by (simp add: Let_def)
  qed (use Cons in \<open>simp add: Let_def\<close>)
qed simp

lemma grouped_ok_nil [simp]: "grouped_ok baseFee bg []"
  by (simp add: grouped_ok_def)

section \<open>Chains\<close>

text \<open>Consecutive nonces, without wrap-around.\<close>

definition consecutive1 :: "Transaction1 list \<Rightarrow> bool" where
  "consecutive1 txs = successively (\<lambda>a b. tx1_Nonce a < tx1_Nonce b \<and> tx1_Nonce b = tx1_Nonce a + 1) txs"

text \<open>Of a nonce the transaction with the highest score, and of those the one with the least hash.\<close>

definition best_of_nonce :: "(u64, Transaction1 list) gomap \<Rightarrow> Transaction1 \<Rightarrow> bool" where
  "best_of_nonce m tx \<longleftrightarrow> tx \<in> set (gm_get0 [] m (tx1_Nonce tx)) \<and>
     (\<forall>other \<in> set (gm_get0 [] m (tx1_Nonce tx)). \<not> rival_less other tx)"

lemma rival_less_key:
  "tx1_Score a \<noteq> None \<Longrightarrow> tx1_Score b \<noteq> None \<Longrightarrow>
   rival_less a b \<longleftrightarrow> the (tx1_Score b) < the (tx1_Score a) \<or> the (tx1_Score a) = the (tx1_Score b) \<and> tx1_Hash a < tx1_Hash b"
  by (cases "the (tx1_Score a)" "the (tx1_Score b)" rule: linorder_cases) (auto simp: rival_less_def score_cmp_def big_cmp_def)

interpretation rival: weak_order_on rival_less "\<lambda>t. tx1_Score t \<noteq> None"
  by unfold_locales (auto simp: rival_less_key)

lemma decoded_ok_score: "decoded_ok baseFee bg tx \<Longrightarrow> tx1_Score tx \<noteq> None"
  by (auto simp: decoded_ok_def)

lemma chains_loop_ok:
  assumes "sender_groups_ok baseFee bg s m" and "sorted_wrt (<) nonces" and "set nonces \<subseteq> fst ` set m"
    and "consecutive1 out" and "\<forall>tx \<in> set out. tx1_From tx = s \<and> decoded_ok baseFee bg tx \<and> best_of_nonce m tx"
    and "prev = (if out = [] then None else Some (tx1_Nonce (last out)))" and "out \<noteq> [] \<longrightarrow> (\<forall>n \<in> set nonces. tx1_Nonce (last out) < n)"
  shows "\<exists>chain rej. chains_loop m bg nonces prev out rejections = Some (chain, rej) \<and> consecutive1 chain \<and>
    (\<forall>tx \<in> set chain. tx1_From tx = s \<and> decoded_ok baseFee bg tx \<and> best_of_nonce m tx)"
  using assms(2-)
proof (induction nonces arbitrary: prev out rejections)
  case Nil
  then show ?case by simp
next
  case (Cons n ns)
  let ?g = "gm_get0 [] m n"
  obtain txs where txs: "gm_get m n = Some txs" using Cons.prems(2) by (meson gm_get_dom list.set_intros(1) subsetD)
  then have g: "?g = txs" "nonce_group_ok baseFee bg s n txs" using assms(1) by (auto simp: gm_get0_def sender_groups_ok_def)
  then have sc: "list_all (\<lambda>t. tx1_Score t \<noteq> None) ?g"
    by (auto simp: nonce_group_ok_def list_all_iff dest: decoded_ok_score)
  obtain best rest where srt: "sort_by rival_less ?g = best # rest"
    using g by (metis nonce_group_ok_def sort_by_Nil list.exhaust)
  have "set (best # rest) = set ?g" using srt set_sort_by by metis
  then have b: "best \<in> set ?g" by auto
  then have bn: "tx1_Nonce best = n" "tx1_From best = s" "decoded_ok baseFee bg best" using g by (auto simp: nonce_group_ok_def)
  then have bb: "best_of_nonce m best"
    using b rival.sort_by_head_least [OF sc srt] by (auto simp: best_of_nonce_def)
  show ?case
  proof (cases "(case prev of None \<Rightarrow> False | Some p \<Rightarrow> n > p + 1) \<or> (tx1_GasLimit best > bg \<and> bg > 0)")
    case True
    then show ?thesis using srt Cons.prems sc by (auto simp: Let_def same_nil_def)
  next
    case False
    have "tx1_Nonce (last out) < n \<and> n = tx1_Nonce (last out) + 1" if "out \<noteq> []"
      using that False Cons.prems(5,6) word_succ_unique by auto
    then have "consecutive1 (out @ [best])"
      using Cons.prems(3) bn by (auto simp: consecutive1_def successively_append_iff)
    then have "\<exists>chain rej. chains_loop m bg ns (Some n) (out @ [best]) (rejections @ map (\<lambda>tx. reject1 (tx1_Hash tx) (tx1_From tx)
        (tx1_Nonce tx) R1ReplacementConflict ''lower score same nonce'' ''policy'') rest) = Some (chain, rej) \<and> consecutive1 chain \<and>
        (\<forall>tx \<in> set chain. tx1_From tx = s \<and> decoded_ok baseFee bg tx \<and> best_of_nonce m tx)"
      using Cons.prems bn bb by (intro Cons.IH) auto
    then show ?thesis using srt False sc by (auto simp: Let_def same_nil_def)
  qed
qed

lemma normalizeSenderChains_ok:
  assumes "sender_groups_ok baseFee bg s m" and "is_order ord"
  shows "\<exists>chain rej. normalizeSenderChains ord m bg = Some (chain, rej) \<and> consecutive1 chain \<and>
    (\<forall>tx \<in> set chain. tx1_From tx = s \<and> decoded_ok baseFee bg tx \<and> best_of_nonce m tx)"
proof -
  have "distinct (map fst (ord m))"
    using assms(1) mset_eq_imp_distinct_iff [OF is_order_mset_map [OF assms(2)], of fst m]
    by (simp add: sender_groups_ok_def gm_ok_def)
  then show ?thesis
    unfolding normalizeSenderChains_def using assms is_order_set [OF assms(2), of m]
    by (intro chains_loop_ok strict_sorted_sort_by) (auto simp: consecutive1_def)
qed

section \<open>Pools\<close>

text \<open>What a normalised pool is: decoded transactions, each sender's in one chain.\<close>

definition pool1_ok :: "int option \<Rightarrow> u64 \<Rightarrow> Transaction1 list \<Rightarrow> bool" where
  "pool1_ok baseFee bg txs \<longleftrightarrow> (\<forall>tx \<in> set txs. decoded_ok baseFee bg tx) \<and> (\<forall>s. consecutive1 (filter (\<lambda>tx. tx1_From tx = s) txs))"

lemma chain_senders_ok:
  assumes "pool_orders1_ok po" and "grouped_ok baseFee bg grouped" and "distinct senders"
    and "pool1_ok baseFee bg eligible" and "\<forall>tx \<in> set eligible. tx1_From tx \<notin> set senders"
  shows "\<exists>out db'. chain_senders po grouped bg senders eligible db = Some (out, db') \<and> pool1_ok baseFee bg out"
  using assms(3-)
proof (induction senders arbitrary: eligible db)
  case (Cons s senders)
  obtain chain rej where ch: "normalizeSenderChains (po1_groups po) (gm_get0 [] grouped s) bg = Some (chain, rej)"
      and c: "consecutive1 chain" and fr: "\<forall>tx \<in> set chain. tx1_From tx = s \<and> decoded_ok baseFee bg tx"
    using normalizeSenderChains_ok [OF sender_groups_get0 [OF assms(2)]] assms(1) unfolding pool_orders1_ok_def by blast
  have "consecutive1 (filter (\<lambda>tx. tx1_From tx = s') (eligible @ chain))" for s'
  proof (cases "s' = s")
    case True
    have "filter (\<lambda>tx. tx1_From tx = s) eligible = []" "filter (\<lambda>tx. tx1_From tx = s) chain = chain"
      using Cons.prems(3) fr by (auto simp: filter_empty_conv)
    then show ?thesis using True c by simp
  next
    case False
    then have "filter (\<lambda>tx. tx1_From tx = s') chain = []" using fr by (auto simp: filter_empty_conv)
    then show ?thesis using Cons.prems(2) by (simp add: pool1_ok_def)
  qed
  then have "pool1_ok baseFee bg (eligible @ chain)" using Cons.prems(2) fr by (auto simp: pool1_ok_def)
  moreover have "\<forall>tx \<in> set (eligible @ chain). tx1_From tx \<notin> set senders" using Cons.prems fr by auto
  ultimately show ?case using Cons.IH [of "eligible @ chain"] Cons.prems(1) ch by simp
qed (simp add: consecutive1_def)

lemma normalizePool1_total:
  assumes "pool_orders1_ok po"
  shows "\<exists>r. normalizePool1 po pool cfg header stage = Some r \<and>
    (\<forall>txs db. r = Inr (txs, db) \<longrightarrow> (\<exists>baseFee bg. parseBlockHeader (po1_quote po) header = Inr (baseFee, bg) \<and> pool1_ok baseFee bg txs))"
proof (cases "parseBlockHeader (po1_quote po) header")
  case (Inr h)
  obtain baseFee bg where h: "h = (baseFee, bg)" by (cases h)
  show ?thesis
  proof (cases "decode_pool po cfg pool baseFee bg stage (sortedPoolSenders1 po pool) [] zero_buckets")
    case (Inl e)
    then show ?thesis using Inr h by (simp add: normalizePool1_def)
  next
    case d: (Inr r)
    obtain grouped db where r: "r = (grouped, db)" by (cases r)
    have g: "grouped_ok baseFee bg grouped" using decode_pool_ok [OF grouped_ok_nil] d r by blast
    then have "distinct (map fst (po1_grouped po grouped))"
      using assms mset_eq_imp_distinct_iff [OF is_order_mset_map, of "po1_grouped po" fst grouped]
      by (simp add: grouped_ok_def gm_ok_def pool_orders1_ok_def)
    then obtain out db' where "chain_senders po grouped bg (sort (map fst (po1_grouped po grouped))) [] db = Some (out, db')"
        "pool1_ok baseFee bg out"
      using chain_senders_ok [OF assms g, of "sort (map fst (po1_grouped po grouped))" "[]" db]
      by (auto simp: pool1_ok_def consecutive1_def)
    then show ?thesis using Inr h d r by (simp add: normalizePool1_def)
  qed
qed (simp add: normalizePool1_def)

section \<open>Independence of the order of maps\<close>

lemma decode_pool_perm:
  assumes "pool_orders1_ok po" and "pool_orders1_ok po'"
  shows "decode_pool po cfg pool baseFee bg stage senders grouped db = decode_pool po' cfg pool baseFee bg stage senders grouped db"
proof (induction senders arbitrary: grouped db)
  case (Cons s senders)
  have "sortedNonceKeys1 po ns = sortedNonceKeys1 po' ns" for ns
    using assms unfolding sortedNonceKeys1_def pool_orders1_ok_def
    by (intro nonce_key_order.sort_by_perm) (simp_all add: is_order_mset list_all_iff)
  then show ?case using Cons by (simp add: Let_def split: sum.split)
qed simp

lemma chain_senders_perm:
  assumes "pool_orders1_ok po" and "pool_orders1_ok po'"
  shows "chain_senders po grouped bg senders eligible db = chain_senders po' grouped bg senders eligible db"
proof (induction senders arbitrary: eligible db)
  case (Cons s senders)
  have "sort_by (<) (map fst (po1_groups po m)) = sort_by (<) (map fst (po1_groups po' m))" for m
    using assms unfolding pool_orders1_ok_def by (intro word_lt.sort_by_perm) (simp_all add: is_order_mset list_all_iff)
  then show ?case using Cons by (simp add: normalizeSenderChains_def split: option.split prod.split)
qed simp

lemma normalizePool1_perm:
  assumes "pool_orders1_ok po" and "pool_orders1_ok po'" and "po1_quote po = po1_quote po'"
  shows "normalizePool1 po pool cfg header stage = normalizePool1 po' pool cfg header stage"
proof -
  have "sortedPoolSenders1 po pool = sortedPoolSenders1 po' pool"
    using assms unfolding sortedPoolSenders1_def pool_orders1_ok_def by (intro sort_perm) (simp add: is_order_mset)
  moreover have "sort (map fst (po1_grouped po m)) = sort (map fst (po1_grouped po' m))" for m
    using assms unfolding pool_orders1_ok_def by (intro sort_perm) (simp add: is_order_mset)
  ultimately show ?thesis
    using decode_pool_perm [OF assms(1,2)] chain_senders_perm [OF assms(1,2)] assms(3)
    unfolding normalizePool1_def by (simp split: sum.split prod.split option.split)
qed

end
