(* ===== verification/Tx1_Select.thy ===== *)
theory Tx1_Select
  imports Tx1_Pool
begin

text \<open>
  Selecting transactions in the first version of the builder: \<^verbatim>\<open>greedySelect\<close> and \<^verbatim>\<open>buildCandidate\<close> of \<^verbatim>\<open>run/build.go\<close>.

  The loop keeps an index into the chain of each sender, takes the best head, and closes a chain whose head does not fit.
  The lemmas show that it ends, that it panics on no list of scored transactions, and that it refines \<open>best_fit\<close>, which
  takes at every step the best of the heads that fit: closing a chain for good is right since the remaining gas only shrinks.
\<close>

section \<open>The code\<close>

record senderGroup =
  sg_Sender :: string
  sg_Txs :: "Transaction1 list"

record selectionResult =
  sr_Accepted :: "TxDecision1 list"
  sr_CapacityExclusions :: "TxDecision1 list"
  sr_ReasonSummary :: "(string, nat) gomap"

definition group_less :: "Transaction1 \<Rightarrow> Transaction1 \<Rightarrow> bool" where
  "group_less a b =
     (if tx1_Nonce a \<noteq> tx1_Nonce b then tx1_Nonce a < tx1_Nonce b
      else if score_cmp a b \<noteq> 0 then score_cmp a b > 0
      else tx1_Hash a < tx1_Hash b)"

definition cand_less :: "Transaction1 \<Rightarrow> Transaction1 \<Rightarrow> bool" where
  "cand_less a b =
     (if score_cmp a b \<noteq> 0 then score_cmp a b > 0
      else if tx1_Nonce a \<noteq> tx1_Nonce b then tx1_Nonce a < tx1_Nonce b
      else if tx1_From a \<noteq> tx1_From b then tx1_From a < tx1_From b
      else tx1_Hash a < tx1_Hash b)"

definition bySender :: "Transaction1 list \<Rightarrow> (string, Transaction1 list) gomap" where
  "bySender all1 = foldl (\<lambda>m tx. gm_set m (tx1_From tx) (gm_get0 [] m (tx1_From tx) @ [tx])) [] all1"

text \<open>Sorting a sender's transactions compares scores only of equal nonces.\<close>

definition nonces_same_nil :: "Transaction1 list \<Rightarrow> bool" where
  "nonces_same_nil txs = list_all (\<lambda>t. same_nil (filter (\<lambda>u. tx1_Nonce u = tx1_Nonce t) txs)) txs"

definition sender_groups ::
  "((string \<times> Transaction1 list) list \<Rightarrow> (string \<times> Transaction1 list) list) \<Rightarrow> Transaction1 list \<Rightarrow> senderGroup list option" where
  "sender_groups ord all1 =
     (let entries = ord (bySender all1) in
      if \<not> list_all (\<lambda>(_, txs). nonces_same_nil txs) entries then None
      else Some (sort_by (\<lambda>a b. sg_Sender a < sg_Sender b)
                   (map (\<lambda>(sender, txs). \<lparr> sg_Sender = sender, sg_Txs = sort_by group_less txs \<rparr>) entries)))"

definition head_candidates :: "senderGroup list \<Rightarrow> nat list \<Rightarrow> Transaction1 list" where
  "head_candidates groups heads =
     concat (map (\<lambda>(g, h). if h < length (sg_Txs g) then [sg_Txs g ! h] else []) (zip groups heads))"

definition close_heads :: "senderGroup list \<Rightarrow> nat list \<Rightarrow> string \<Rightarrow> nat list" where
  "close_heads groups heads hash =
     map (\<lambda>(g, h). if h < length (sg_Txs g) \<and> tx1_Hash (sg_Txs g ! h) = hash then length (sg_Txs g) else h) (zip groups heads)"

fun advance_head :: "senderGroup list \<Rightarrow> nat list \<Rightarrow> string \<Rightarrow> nat list" where
  "advance_head (g # gs) (h # hs) hash =
     (if h < length (sg_Txs g) \<and> tx1_Hash (sg_Txs g ! h) = hash then Suc h # hs else h # advance_head gs hs hash)"
| "advance_head gs hs hash = hs"

record sel_state1 =
  ss_selected :: "Transaction1 list"
  ss_accepted :: "TxDecision1 list"
  ss_excluded :: "TxDecision1 list"
  ss_summary :: "(string, nat) gomap"
  ss_gas :: u64
  ss_stop :: string
  ss_heads :: "nat list"

definition select_step1 :: "senderGroup list \<Rightarrow> Transaction1 \<Rightarrow> sel_state1 \<Rightarrow> sel_state1" where
  "select_step1 groups best s =
     (let inc = (\<lambda>key. gm_set (ss_summary s) key (gm_get0 0 (ss_summary s) key + 1)) in
      if tx1_GasLimit best > ss_gas s
      then s\<lparr> ss_excluded := ss_excluded s @
                [scored_decision1 best False R1CapacityExcluded ''does not fit remaining gas'' ''selection''],
              ss_summary := inc (reason1_string R1CapacityExcluded),
              ss_heads := close_heads groups (ss_heads s) (tx1_Hash best) \<rparr>
      else s\<lparr> ss_selected := ss_selected s @ [best],
              ss_accepted := ss_accepted s @ [scored_decision1 best True R1None [] ''selection''],
              ss_summary := inc ''SELECTED'',
              ss_gas := ss_gas s - tx1_GasLimit best,
              ss_heads := advance_head groups (ss_heads s) (tx1_Hash best),
              ss_stop := ''selection_complete'' \<rparr>)"

text \<open>The transactions still ahead; the measure of the loop.\<close>

definition ahead :: "senderGroup list \<Rightarrow> nat list \<Rightarrow> nat" where
  "ahead groups heads = sum_list (map (\<lambda>(g, h). length (sg_Txs g) - h) (zip groups heads))"

lemma ahead_close:
  "best \<in> set (head_candidates groups heads) \<Longrightarrow> ahead groups (close_heads groups heads (tx1_Hash best)) < ahead groups heads"
proof (induction groups heads rule: list_induct2')
  case (4 g gs h hs)
  have le: "ahead gs (close_heads gs hs (tx1_Hash best)) \<le> ahead gs hs"
    by (induction gs hs rule: list_induct2') (auto simp: ahead_def close_heads_def)
  show ?case
  proof (cases "best \<in> set (head_candidates gs hs)")
    case True
    then show ?thesis using "4.IH" by (auto simp: ahead_def close_heads_def)
  next
    case False
    then have "h < length (sg_Txs g)" "best = sg_Txs g ! h" using "4.prems" by (auto simp: head_candidates_def split: if_splits)
    then show ?thesis using le by (auto simp: ahead_def close_heads_def)
  qed
qed (simp_all add: head_candidates_def)

lemma ahead_advance:
  "best \<in> set (head_candidates groups heads) \<Longrightarrow> ahead groups (advance_head groups heads (tx1_Hash best)) < ahead groups heads"
  by (induction groups heads rule: list_induct2') (auto simp: head_candidates_def ahead_def split: if_splits)

lemma ahead_step:
  "best \<in> set (head_candidates groups (ss_heads s)) \<Longrightarrow> ahead groups (ss_heads (select_step1 groups best s)) < ahead groups (ss_heads s)"
  by (simp add: select_step1_def Let_def ahead_close ahead_advance)

lemma hd_sort_by_mem: "xs \<noteq> [] \<Longrightarrow> hd (sort_by lt xs) \<in> set xs"
  by (metis hd_in_set set_sort_by sort_by_Nil)

function select_loop :: "int \<Rightarrow> senderGroup list \<Rightarrow> sel_state1 \<Rightarrow> sel_state1 option" where
  "select_loop maxTx groups s =
     (if int (length (ss_selected s)) < maxTx then
        let candidates = head_candidates groups (ss_heads s) in
        if candidates = [] then Some s
        else if \<not> same_nil candidates then None
        else select_loop maxTx groups (select_step1 groups (hd (sort_by cand_less candidates)) s)
      else Some s)"
  by pat_completeness auto
termination
  by (relation "measure (\<lambda>(_, groups, s). ahead groups (ss_heads s))") (auto intro: ahead_step hd_sort_by_mem)

declare select_loop.simps [simp del]

definition greedySelect ::
  "((string \<times> Transaction1 list) list \<Rightarrow> (string \<times> Transaction1 list) list) \<Rightarrow> Transaction1 list \<Rightarrow> TxConfig1 \<Rightarrow>
     (Transaction1 list \<times> selectionResult \<times> string \<times> string list) option" where
  "greedySelect ord all1 cfg =
     (case sender_groups ord all1 of
        None \<Rightarrow> None
      | Some groups \<Rightarrow>
          if tc1_MaxTransactions cfg < 0 then None
          else case select_loop (tc1_MaxTransactions cfg) groups
                 \<lparr> ss_selected = [], ss_accepted = [], ss_excluded = [], ss_summary = [], ss_gas = tc1_MaxGas cfg,
                   ss_stop = ''no_eligible_candidate'', ss_heads = replicate (length groups) 0 \<rparr> of
            None \<Rightarrow> None
          | Some s \<Rightarrow>
              Some (ss_selected s,
                    \<lparr> sr_Accepted = ss_accepted s, sr_CapacityExclusions = ss_excluded s, sr_ReasonSummary = ss_summary s \<rparr>,
                    if ss_selected s = [] \<and> ss_excluded s \<noteq> [] then ''capacity_exhausted'' else ss_stop s,
                    hashesOf1 (ss_selected s)))"

section \<open>Bookkeeping of the loop\<close>

definition gas_sum :: "Transaction1 list \<Rightarrow> nat" where
  "gas_sum txs = sum_list (map (\<lambda>t. unat (tx1_GasLimit t)) txs)"

lemma gas_sum_simps [simp]: "gas_sum [] = 0" "gas_sum (t # ts) = unat (tx1_GasLimit t) + gas_sum ts"
    "gas_sum (ts @ us) = gas_sum ts + gas_sum us"
  by (simp_all add: gas_sum_def)

definition sel_inv1 :: "TxConfig1 \<Rightarrow> sel_state1 \<Rightarrow> bool" where
  "sel_inv1 cfg s \<longleftrightarrow>
     int (length (ss_selected s)) \<le> tc1_MaxTransactions cfg \<and>
     gas_sum (ss_selected s) + unat (ss_gas s) = unat (tc1_MaxGas cfg) \<and>
     ss_accepted s = map (\<lambda>t. scored_decision1 t True R1None [] ''selection'') (ss_selected s) \<and>
     (\<forall>d \<in> set (ss_excluded s). td1_PrimaryReason d = R1CapacityExcluded \<and> unat (ss_gas s) < unat (td1_GasLimit d)) \<and>
     gm_get0 0 (ss_summary s) ''SELECTED'' = length (ss_selected s) \<and>
     gm_get0 0 (ss_summary s) ''CAPACITY_EXCLUDED'' = length (ss_excluded s) \<and>
     ss_stop s = (if ss_selected s = [] then ''no_eligible_candidate'' else ''selection_complete'')"

lemma gm_get0_set1 [simp]: "gm_get0 z (gm_set m k v) k' = (if k' = k then v else gm_get0 z m k')"
  by (simp add: gm_get0_def)

lemma sel_inv1_step:
  assumes "sel_inv1 cfg s" and "int (length (ss_selected s)) < tc1_MaxTransactions cfg"
  shows "sel_inv1 cfg (select_step1 groups best s)"
proof (cases "tx1_GasLimit best > ss_gas s")
  case True
  then show ?thesis
    using assms by (auto simp: sel_inv1_def select_step1_def Let_def scored_decision1_def word_less_nat_alt)
next
  case False
  then have "unat (ss_gas s - tx1_GasLimit best) = unat (ss_gas s) - unat (tx1_GasLimit best)"
      "unat (tx1_GasLimit best) \<le> unat (ss_gas s)"
    by (simp_all add: unat_sub not_less word_le_nat_alt)
  then show ?thesis
    using assms False by (auto simp: sel_inv1_def select_step1_def Let_def)
qed

lemma select_loop1_inv:
  "sel_inv1 cfg s \<Longrightarrow> select_loop (tc1_MaxTransactions cfg) groups s = Some s' \<Longrightarrow> sel_inv1 cfg s'"
proof (induction "tc1_MaxTransactions cfg" groups s rule: select_loop.induct)
  case (1 groups s)
  show ?case
    using "1.prems"(1) "1.prems"(2) [unfolded select_loop.simps [of "tc1_MaxTransactions cfg" groups s]] "1.hyps" [OF _ refl]
      sel_inv1_step [OF "1.prems"(1)]
    by (auto simp: Let_def split: if_splits)
qed

text \<open>The exclusions: each is that of a transaction of the groups, with the reason and the stage of the selection.\<close>

definition exclusion1 :: "Transaction1 \<Rightarrow> TxDecision1" where
  "exclusion1 t = scored_decision1 t False R1CapacityExcluded ''does not fit remaining gas'' ''selection''"

definition excludes_of :: "Transaction1 set \<Rightarrow> sel_state1 \<Rightarrow> bool" where
  "excludes_of A s \<longleftrightarrow> set (ss_excluded s) \<subseteq> exclusion1 ` A"

lemma head_candidates_mem: "t \<in> set (head_candidates groups heads) \<Longrightarrow> \<exists>g \<in> set groups. t \<in> set (sg_Txs g)"
  by (force simp: head_candidates_def dest: set_zip_leftD split: if_splits)

lemma excludes_of_step: "excludes_of A s \<Longrightarrow> best \<in> A \<Longrightarrow> excludes_of A (select_step1 groups best s)"
  by (auto simp: excludes_of_def select_step1_def Let_def exclusion1_def)

lemma select_loop_excludes:
  "excludes_of (\<Union>g \<in> set groups. set (sg_Txs g)) s \<Longrightarrow> select_loop m groups s = Some s' \<Longrightarrow>
   excludes_of (\<Union>g \<in> set groups. set (sg_Txs g)) s'"
proof (induction m groups s rule: select_loop.induct)
  case (1 m groups s)
  let ?c = "head_candidates groups (ss_heads s)"
  have mem: "hd (sort_by cand_less ?c) \<in> (\<Union>g \<in> set groups. set (sg_Txs g))" if "?c \<noteq> []"
    using head_candidates_mem [OF hd_sort_by_mem [OF that]] by blast
  show ?case
  proof (cases "int (length (ss_selected s)) < m \<and> ?c \<noteq> [] \<and> same_nil ?c")
    case True
    then have c: "int (length (ss_selected s)) < m" "?c \<noteq> []" "same_nil ?c" by simp_all
    have "select_loop m groups (select_step1 groups (hd (sort_by cand_less ?c)) s) = Some s'"
      using "1.prems"(2) c unfolding select_loop.simps [of m groups s] by (simp add: Let_def)
    then show ?thesis
      using "1.IH" [OF c(1) refl c(2)] c(3) excludes_of_step [OF "1.prems"(1) mem [OF c(2)]] by simp
  qed (use "1.prems" in \<open>auto simp: select_loop.simps [of m groups s] Let_def split: if_splits\<close>)
qed

section \<open>The reference\<close>

text \<open>At every step the best of the heads that fit the remaining gas; \<open>f\<close> holds what is left of each sender's chain.\<close>

definition fits :: "u64 \<Rightarrow> Transaction1 \<Rightarrow> bool" where
  "fits gas t = (tx1_GasLimit t \<le> gas)"

fun best_fit :: "nat \<Rightarrow> u64 \<Rightarrow> string list \<Rightarrow> (string \<Rightarrow> Transaction1 list) \<Rightarrow> Transaction1 list" where
  "best_fit 0 gas senders f = []"
| "best_fit (Suc n) gas senders f =
     (case sort_by cand_less (filter (fits gas) (concat (map (\<lambda>s. take 1 (f s)) senders))) of
        [] \<Rightarrow> []
      | best # _ \<Rightarrow>
          best # best_fit n (gas - tx1_GasLimit best) senders (f(tx1_From best := tl (f (tx1_From best)))))"

text \<open>Chains as the pool has them: of their sender, scored, and no hash shared by two senders.\<close>

definition chains_ok :: "string list \<Rightarrow> (string \<Rightarrow> Transaction1 list) \<Rightarrow> bool" where
  "chains_ok senders f \<longleftrightarrow> distinct senders \<and> (\<forall>s \<in> set senders. \<forall>t \<in> set (f s). tx1_From t = s \<and> tx1_Score t \<noteq> None) \<and>
     (\<forall>s \<in> set senders. \<forall>s' \<in> set senders. \<forall>t \<in> set (f s). \<forall>u \<in> set (f s'). tx1_Hash t = tx1_Hash u \<longrightarrow> s = s')"

lemma chains_ok_tl: "chains_ok senders f \<Longrightarrow> chains_ok senders (f(s := tl (f s)))"
  unfolding chains_ok_def by (auto dest: list.set_sel(2) [rotated]) (metis list.sel(2) list.set_sel(2))+

lemma cand_less_key:
  assumes "tx1_Score a = Some x" and "tx1_Score b = Some y"
  shows "cand_less a b \<longleftrightarrow> y < x \<or> x = y \<and> (tx1_Nonce a < tx1_Nonce b \<or> tx1_Nonce a = tx1_Nonce b \<and>
    (tx1_From a < tx1_From b \<or> tx1_From a = tx1_From b \<and> tx1_Hash a < tx1_Hash b))"
  using assms by (auto simp: cand_less_def score_cmp_def big_cmp_def)

interpretation cand: weak_order_on cand_less "\<lambda>t. tx1_Score t \<noteq> None"
proof unfold_locales
  fix x y z :: Transaction1
  assume sc: "tx1_Score x \<noteq> None" "tx1_Score y \<noteq> None" "tx1_Score z \<noteq> None"
  show "cand_less x y \<Longrightarrow> cand_less y z \<Longrightarrow> cand_less x z"
    using sc by (auto simp: cand_less_key)
  show "cand_less x z \<Longrightarrow> cand_less x y \<or> cand_less y z"
    using sc by (auto simp: cand_less_key)
next
  fix x :: Transaction1
  assume "tx1_Score x \<noteq> None"
  then show "\<not> cand_less x x" by (auto simp: cand_less_key)
qed

context weak_order_on
begin

lemma insert_by_first: "(\<And>z. z \<in> set ys \<Longrightarrow> \<not> lt z x) \<Longrightarrow> insert_by lt x ys = x # ys"
  by (cases ys) auto

lemma insert_by_filter:
  assumes "ok x" and "list_all ok ys" and "sorted_wrt (\<lambda>a b. \<not> lt b a) ys"
  shows "filter P (insert_by lt x ys) = (if P x then insert_by lt x (filter P ys) else filter P ys)"
  using assms
proof (induction ys)
  case (Cons y ys)
  show ?case
  proof (cases "lt y x")
    case False
    have "\<not> lt z x" if "z \<in> set (y # ys)" for z
      using that False Cons.prems notlt_trans [of x y z] by (auto simp: list_all_iff)
    then have "insert_by lt x (filter P (y # ys)) = x # filter P (y # ys)" by (intro insert_by_first) (auto split: if_splits)
    then show ?thesis using False by simp
  qed (use Cons in auto)
qed simp

text \<open>Sorting keeps the order of what is kept.\<close>

lemma sort_by_filter: "list_all ok xs \<Longrightarrow> sort_by lt (filter P xs) = filter P (sort_by lt xs)"
proof (induction xs)
  case (Cons x xs)
  have "list_all ok (sort_by lt xs)" using Cons.prems by (simp add: list_all_iff)
  then show ?case using Cons insert_by_filter [OF _ _ sorted_sort_by] by simp
qed simp

end

section \<open>The loop refines the reference\<close>

definition remaining_of :: "senderGroup \<Rightarrow> nat \<Rightarrow> Transaction1 list" where
  "remaining_of g h = drop h (sg_Txs g)"

text \<open>A chain of the loop is that of the reference, or it was closed because its head does not fit.\<close>

definition same_or_closed :: "u64 \<Rightarrow> Transaction1 list \<Rightarrow> Transaction1 list \<Rightarrow> bool" where
  "same_or_closed gas r c \<longleftrightarrow> r = c \<or> r = [] \<and> c \<noteq> [] \<and> \<not> fits gas (hd c)"

definition refines_sel :: "u64 \<Rightarrow> senderGroup list \<Rightarrow> nat list \<Rightarrow> string list \<Rightarrow> (string \<Rightarrow> Transaction1 list) \<Rightarrow> bool" where
  "refines_sel gas groups heads senders f \<longleftrightarrow> length heads = length groups \<and> length senders = length groups \<and>
     (\<forall>i < length groups. same_or_closed gas (remaining_of (groups ! i) (heads ! i)) (f (senders ! i)))"

lemma refines_sel_Cons:
  "refines_sel gas (g # gs) (h # hs) (s # ss) f \<longleftrightarrow> same_or_closed gas (remaining_of g h) (f s) \<and> refines_sel gas gs hs ss f"
  by (auto simp: refines_sel_def All_less_Suc2)

lemma refines_sel_induct [consumes 1, case_names Nil Cons]:
  assumes "refines_sel gas groups heads senders f"
    and "P [] [] []"
    and "\<And>g gs h hs s ss. refines_sel gas gs hs ss f \<Longrightarrow> same_or_closed gas (remaining_of g h) (f s) \<Longrightarrow> P gs hs ss \<Longrightarrow>
           P (g # gs) (h # hs) (s # ss)"
  shows "P groups heads senders"
proof -
  have "length groups = length heads" "length heads = length senders" using assms(1) by (simp_all add: refines_sel_def)
  then show ?thesis using assms
    by (induction groups heads senders rule: list_induct3) (auto simp: refines_sel_Cons)
qed

lemma head_cand_drop: "(if h < length (sg_Txs g) then [sg_Txs g ! h] else []) = take 1 (remaining_of g h)"
  by (auto simp: remaining_of_def simp flip: hd_drop_conv_nth intro!: nth_equalityI)

lemma head_candidates_Cons [simp]: "head_candidates (g # gs) (h # hs) = take 1 (remaining_of g h) @ head_candidates gs hs"
  by (simp add: head_candidates_def head_cand_drop)

lemma head_candidates_Nil [simp]: "head_candidates [] [] = []"
  by (simp add: head_candidates_def)

lemma fitting_heads:
  "refines_sel gas groups heads senders f \<Longrightarrow>
   filter (fits gas) (head_candidates groups heads) = filter (fits gas) (concat (map (\<lambda>s. take 1 (f s)) senders))"
proof (induction rule: refines_sel_induct)
  case (Cons g gs h hs s ss)
  have "filter (fits gas) (take 1 (remaining_of g h)) = filter (fits gas) (take 1 (f s))"
    using Cons.hyps(2) by (cases "f s") (auto simp: same_or_closed_def)
  then show ?case using Cons.IH by simp
qed simp

lemma head_candidate_of:
  assumes "refines_sel gas groups heads senders f" and "t \<in> set (head_candidates groups heads)"
  shows "\<exists>s \<in> set senders. f s \<noteq> [] \<and> t = hd (f s)"
  using assms
proof (induction rule: refines_sel_induct)
  case (Cons g gs h hs s ss)
  show ?case
  proof (cases "t \<in> set (head_candidates gs hs)")
    case True
    then show ?thesis using Cons.IH by auto
  next
    case False
    then have "t \<in> set (take 1 (remaining_of g h))" using Cons.prems by simp
    then have "f s \<noteq> [] \<and> t = hd (f s)" using Cons.hyps(2) by (cases "f s") (auto simp: same_or_closed_def)
    then show ?thesis by auto
  qed
qed simp

text \<open>Closing the chain of a head that does not fit.\<close>

lemma remaining_closed [simp]: "remaining_of g (length (sg_Txs g)) = []"
  by (simp add: remaining_of_def)

lemma remaining_hd: "h < length (sg_Txs g) \<Longrightarrow> remaining_of g h \<noteq> [] \<and> hd (remaining_of g h) = sg_Txs g ! h"
  by (simp add: remaining_of_def hd_drop_conv_nth)

lemma close_heads_Cons [simp]:
  "close_heads (g # gs) (h # hs) hash =
     (if h < length (sg_Txs g) \<and> tx1_Hash (sg_Txs g ! h) = hash then length (sg_Txs g) else h) # close_heads gs hs hash"
  by (simp add: close_heads_def)

lemma close_refines:
  assumes "refines_sel gas groups heads senders f" and "\<not> fits gas best"
    and "\<And>s. s \<in> set senders \<Longrightarrow> f s \<noteq> [] \<Longrightarrow> tx1_Hash (hd (f s)) = tx1_Hash best \<Longrightarrow> hd (f s) = best"
  shows "refines_sel gas groups (close_heads groups heads (tx1_Hash best)) senders f"
  using assms(1,3)
proof (induction rule: refines_sel_induct)
  case (Cons g gs h hs s ss)
  have "same_or_closed gas (remaining_of g (if h < length (sg_Txs g) \<and> tx1_Hash (sg_Txs g ! h) = tx1_Hash best
      then length (sg_Txs g) else h)) (f s)"
    using Cons.hyps(2) Cons.prems [of s] assms(2) remaining_hd [of h g] by (auto simp: same_or_closed_def)
  then show ?case using Cons by (simp add: refines_sel_Cons)
qed (simp add: refines_sel_def close_heads_def)

text \<open>Advancing in the chain of the head that is taken.\<close>

lemma same_or_closed_less:
  "same_or_closed gas r c \<Longrightarrow> g \<le> gas \<Longrightarrow> same_or_closed (gas - g) r c"
  by (auto simp: same_or_closed_def fits_def not_le word_less_nat_alt word_le_nat_alt unat_sub)

lemma refines_sel_frame:
  "refines_sel gas groups heads senders f \<Longrightarrow> tx1_GasLimit best \<le> gas \<Longrightarrow> s0 \<notin> set senders \<Longrightarrow>
   refines_sel (gas - tx1_GasLimit best) groups heads senders (f(s0 := c))"
  by (induction rule: refines_sel_induct) (auto simp: refines_sel_Cons same_or_closed_less, simp add: refines_sel_def)

lemma advance_refines:
  assumes "refines_sel gas groups heads senders f" and "distinct senders" and "fits gas best"
    and "f s0 \<noteq> []" and "best = hd (f s0)" and "\<And>s. s \<in> set senders \<Longrightarrow> f s \<noteq> [] \<Longrightarrow> tx1_Hash (hd (f s)) = tx1_Hash best \<Longrightarrow> s = s0"
  shows "refines_sel (gas - tx1_GasLimit best) groups (advance_head groups heads (tx1_Hash best)) senders (f(s0 := tl (f s0)))"
  using assms(1,2,6)
proof (induction rule: refines_sel_induct)
  case Nil
  then show ?case by (simp add: refines_sel_def)
next
  case (Cons g gs h hs s ss)
  have gas: "tx1_GasLimit best \<le> gas" using assms(3) by (simp add: fits_def)
  show ?case
  proof (cases "h < length (sg_Txs g) \<and> tx1_Hash (sg_Txs g ! h) = tx1_Hash best")
    case True
    then have r: "remaining_of g h = f s" "f s \<noteq> []" "tx1_Hash (hd (f s)) = tx1_Hash best"
      using Cons.hyps(2) remaining_hd [of h g] by (auto simp: same_or_closed_def)
    then have s: "s = s0" using Cons.prems(2) by simp
    have "remaining_of g (Suc h) = tl (f s0)" using r s by (metis drop_Suc remaining_of_def tl_drop)
    then show ?thesis
      using True s refines_sel_frame [OF Cons.hyps(1) gas] Cons.prems(1)
      by (simp add: refines_sel_Cons same_or_closed_def fun_upd_def)
  next
    case False
    have "s \<noteq> s0"
    proof
      assume s: "s = s0"
      then have "remaining_of g h = f s0" using Cons.hyps(2) assms(3-5) by (auto simp: same_or_closed_def)
      moreover from this have "h < length (sg_Txs g)" using assms(4) by (metis drop_eq_Nil2 not_le remaining_of_def)
      ultimately show False using False remaining_hd [of h g] assms(5) by simp
    qed
    then show ?thesis
      using False Cons.IH Cons.prems same_or_closed_less [OF Cons.hyps(2) gas] by (auto simp: refines_sel_Cons)
  qed
qed

lemma head_hash_sender:
  assumes "chains_ok senders f" and "s \<in> set senders" "s0 \<in> set senders" "f s \<noteq> []" "f s0 \<noteq> []"
    and "tx1_Hash (hd (f s)) = tx1_Hash (hd (f s0))"
  shows "s = s0"
  using assms unfolding chains_ok_def by (meson hd_in_set)

lemma select_step1_closed:
  "\<not> fits (ss_gas st) best \<Longrightarrow> ss_gas (select_step1 groups best st) = ss_gas st \<and>
     ss_selected (select_step1 groups best st) = ss_selected st \<and>
     ss_heads (select_step1 groups best st) = close_heads groups (ss_heads st) (tx1_Hash best)"
  by (simp add: select_step1_def Let_def fits_def)

lemma select_step1_taken:
  "fits (ss_gas st) best \<Longrightarrow> ss_gas (select_step1 groups best st) = ss_gas st - tx1_GasLimit best \<and>
     ss_selected (select_step1 groups best st) = ss_selected st @ [best] \<and>
     ss_heads (select_step1 groups best st) = advance_head groups (ss_heads st) (tx1_Hash best)"
  by (simp add: select_step1_def Let_def fits_def not_less)

lemma select_loop_refines:
  assumes "chains_ok senders f" and "refines_sel (ss_gas st) groups (ss_heads st) senders f"
  shows "\<exists>st'. select_loop m groups st = Some st' \<and>
    ss_selected st' = ss_selected st @ best_fit (nat (m - int (length (ss_selected st)))) (ss_gas st) senders f"
  using assms
proof (induction m groups st arbitrary: f rule: select_loop.induct)
  case (1 m groups st)
  let ?c = "head_candidates groups (ss_heads st)" and ?best = "hd (sort_by cand_less (head_candidates groups (ss_heads st)))"
  note eq = select_loop.simps [of m groups st]
  show ?case
  proof (cases "int (length (ss_selected st)) < m")
    case False
    then show ?thesis by (simp add: eq)
  next
    case less: True
    define k where "k = nat (m - int (length (ss_selected st)) - 1)"
    have n: "nat (m - int (length (ss_selected st))) = Suc k" using less by (simp add: k_def)
    note fit = fitting_heads [OF "1.prems"(2)]
    show ?thesis
    proof (cases "?c = []")
      case True
      then show ?thesis using less fit n by (simp add: eq)
    next
      case ne: False
      have best_in: "?best \<in> set ?c" using hd_sort_by_mem [OF ne] .
      obtain s0 where s0: "s0 \<in> set senders" "f s0 \<noteq> []" "?best = hd (f s0)"
        using head_candidate_of [OF "1.prems"(2) best_in] by blast
      have scored: "list_all (\<lambda>t. tx1_Score t \<noteq> None) ?c"
        using head_candidate_of [OF "1.prems"(2)] "1.prems"(1) unfolding list_all_iff chains_ok_def by (metis hd_in_set)
      then have sn: "same_nil ?c" by (simp add: same_nil_def)
      have loop: "select_loop m groups st = select_loop m groups (select_step1 groups ?best st)"
        using less ne sn by (simp add: eq)
      have uniq: "s = s0" if "s \<in> set senders" "f s \<noteq> []" "tx1_Hash (hd (f s)) = tx1_Hash ?best" for s
        using head_hash_sender [OF "1.prems"(1) that(1) s0(1) that(2) s0(2)] that(3) s0(3) by simp
      note IH = "1.IH" [OF less refl ne]
      define best where "best = ?best"
      have next_step: "\<exists>st'. select_loop m groups st = Some st' \<and> ss_selected st' = ss_selected (select_step1 groups best st) @
          best_fit (nat (m - int (length (ss_selected (select_step1 groups best st))))) (ss_gas (select_step1 groups best st)) senders f'"
        if "chains_ok senders f'" "refines_sel (ss_gas (select_step1 groups best st)) groups (ss_heads (select_step1 groups best st)) senders f'" for f'
        using "1.IH" [OF less refl ne] sn loop that unfolding best_def by simp
      show ?thesis
      proof (cases "fits (ss_gas st) best")
        case False
        then have "refines_sel (ss_gas st) groups (close_heads groups (ss_heads st) (tx1_Hash best)) senders f"
          using close_refines [OF "1.prems"(2) False] uniq s0(3) unfolding best_def by metis
        then show ?thesis
          using next_step [OF "1.prems"(1)] unfolding select_step1_closed [OF False, THEN conjunct1]
            select_step1_closed [OF False, THEN conjunct2, THEN conjunct1] select_step1_closed [OF False, THEN conjunct2, THEN conjunct2]
          by blast
      next
        case True
        have from0: "tx1_From best = s0" using s0 "1.prems"(1) unfolding chains_ok_def best_def by (metis hd_in_set)
        have d: "distinct senders" using "1.prems"(1) by (simp add: chains_ok_def)
        have s0b: "best = hd (f s0)" and uniqb: "s \<in> set senders \<Longrightarrow> f s \<noteq> [] \<Longrightarrow> tx1_Hash (hd (f s)) = tx1_Hash best \<Longrightarrow> s = s0" for s
          using s0(3) uniq unfolding best_def by auto
        obtain rest where "sort_by cand_less ?c = best # rest" using ne unfolding best_def by (metis list.exhaust_sel sort_by_Nil)
        then have "sort_by cand_less (filter (fits (ss_gas st)) ?c) = best # filter (fits (ss_gas st)) rest"
          using cand.sort_by_filter [OF scored] True by (metis filter.simps(2))
        then have bf: "best_fit (Suc k) (ss_gas st) senders f =
            best # best_fit k (ss_gas st - tx1_GasLimit best) senders (f(s0 := tl (f s0)))"
          using fit from0 by simp
        note taken = select_step1_taken [OF True, of groups]
        have k: "nat (m - int (length (ss_selected (select_step1 groups best st)))) = k" using taken by (simp add: k_def)
        have "refines_sel (ss_gas (select_step1 groups best st)) groups (ss_heads (select_step1 groups best st)) senders (f(s0 := tl (f s0)))"
          using advance_refines [OF "1.prems"(2) d True s0(2) s0b uniqb] taken by metis
        then show ?thesis
          using next_step [OF chains_ok_tl [OF "1.prems"(1)]] taken k bf n by (metis append.assoc append_Cons append_Nil)
      qed
    qed
  qed
qed

section \<open>The groups\<close>

definition chain_of :: "Transaction1 list \<Rightarrow> string \<Rightarrow> Transaction1 list" where
  "chain_of all1 s = sort_by group_less (filter (\<lambda>t. tx1_From t = s) all1)"

definition senders_of :: "Transaction1 list \<Rightarrow> string list" where
  "senders_of all1 = sort (remdups (map tx1_From all1))"

lemma bySender_get:
  "gm_ok (bySender all1) \<and> (\<forall>s. gm_get (bySender all1) s =
     (if s \<in> tx1_From ` set all1 then Some (filter (\<lambda>t. tx1_From t = s) all1) else None))"
proof (induction all1 rule: rev_induct)
  case (snoc tx txs)
  have e: "bySender (txs @ [tx]) = gm_set (bySender txs) (tx1_From tx) (gm_get0 [] (bySender txs) (tx1_From tx) @ [tx])"
    by (simp add: bySender_def)
  have "gm_get0 [] (bySender txs) (tx1_From tx) = filter (\<lambda>t. tx1_From t = tx1_From tx) txs"
    using snoc by (cases "tx1_From tx \<in> tx1_From ` set txs") (auto simp: gm_get0_def image_iff intro!: filter_False [symmetric])
  then show ?case using snoc unfolding e by auto
qed (simp add: bySender_def)

interpretation string_lt: total_order_on "(<) :: string \<Rightarrow> string \<Rightarrow> bool" "\<lambda>_. True"
  by unfold_locales auto

lemma sort_by_string: "sort_by (<) (xs :: string list) = sort xs"
  using string_lt.sorted_sort_by [of xs] by (intro properties_for_sort [symmetric]) (simp_all add: list_all_iff not_less)

lemma sort_by_map:
  "(\<And>x. key (g x) = x) \<Longrightarrow> sort_by (\<lambda>a b. lt (key a) (key b)) (map g xs) = map g (sort_by lt xs)"
proof -
  assume k: "\<And>x. key (g x) = x"
  have "insert_by (\<lambda>a b. lt (key a) (key b)) (g x) (map g ys) = map g (insert_by lt x ys)" for x ys
    by (induction ys) (simp_all add: k)
  then show ?thesis by (induction xs) simp_all
qed

lemma same_nil_scored: "list_all (\<lambda>t. tx1_Score t \<noteq> None) txs \<Longrightarrow> same_nil (filter P txs)"
  by (auto simp: same_nil_def list_all_iff)

lemma sender_groups_scored:
  assumes "is_order ord" and "list_all (\<lambda>t. tx1_Score t \<noteq> None) all1"
  shows "sender_groups ord all1 = Some (map (\<lambda>s. \<lparr> sg_Sender = s, sg_Txs = chain_of all1 s \<rparr>) (senders_of all1))"
proof -
  let ?m = "bySender all1" and ?g = "\<lambda>s. \<lparr> sg_Sender = s, sg_Txs = chain_of all1 s \<rparr>"
  have ok: "gm_ok ?m" using bySender_get by blast
  have entry: "txs = filter (\<lambda>t. tx1_From t = s) all1" if "(s, txs) \<in> set (ord ?m)" for s txs
  proof -
    have "gm_get ?m s = Some txs" using that is_order_set [OF assms(1)] gm_get_in [OF ok] by simp
    then show ?thesis using bySender_get [of all1] by (simp split: if_splits)
  qed
  have keys: "mset (map fst (ord ?m)) = mset (remdups (map tx1_From all1))"
  proof -
    have "distinct (map fst (ord ?m))"
      using ok mset_eq_imp_distinct_iff [OF is_order_mset_map [OF assms(1)], of fst ?m] by (simp add: gm_ok_def)
    moreover have "fst ` set ?m = tx1_From ` set all1"
      using bySender_get [of all1] by (intro set_eqI) (simp add: gm_get_dom [symmetric])
    ultimately show ?thesis using is_order_set [OF assms(1)] by (intro set_eq_iff_mset_eq_distinct [THEN iffD1]) auto
  qed
  have "map (\<lambda>(s, txs). \<lparr> sg_Sender = s, sg_Txs = sort_by group_less txs \<rparr>) (ord ?m) = map ?g (map fst (ord ?m))"
    using entry by (auto simp: chain_of_def)
  moreover have "list_all (\<lambda>(_, txs). nonces_same_nil txs) (ord ?m)"
  proof -
    have "nonces_same_nil txs" if "(s, txs) \<in> set (ord ?m)" for s txs
      using entry [OF that] assms(2) by (auto simp: list_all_iff nonces_same_nil_def intro!: same_nil_scored)
    then show ?thesis by (auto simp: list_all_iff)
  qed
  moreover have "sort (map fst (ord ?m)) = senders_of all1" unfolding senders_of_def using keys by (rule sort_perm)
  ultimately show ?thesis
    using sort_by_map [of sg_Sender ?g "(<)" "map fst (ord ?m)"]
    by (simp add: sender_groups_def Let_def sort_by_string del: map_map)
qed

lemma chain_of_set [simp]: "set (chain_of all1 s) = {t \<in> set all1. tx1_From t = s}"
  by (simp add: chain_of_def)

text \<open>A hash names one sender.\<close>

definition hashes_apart :: "Transaction1 list \<Rightarrow> bool" where
  "hashes_apart all1 \<longleftrightarrow> (\<forall>t \<in> set all1. \<forall>u \<in> set all1. tx1_Hash t = tx1_Hash u \<longrightarrow> tx1_From t = tx1_From u)"

lemma chains_of_ok:
  assumes "list_all (\<lambda>t. tx1_Score t \<noteq> None) all1" and "hashes_apart all1"
  shows "chains_ok (senders_of all1) (chain_of all1)"
  unfolding chains_ok_def
proof (intro conjI ballI impI)
  show "distinct (senders_of all1)" by (simp add: senders_of_def)
next
  fix s t
  assume t: "t \<in> set (chain_of all1 s)"
  then show "tx1_From t = s" by simp
  show "tx1_Score t \<noteq> None" using t assms(1) unfolding list_all_iff chain_of_set by blast
next
  fix s s' t u
  assume "t \<in> set (chain_of all1 s)" "u \<in> set (chain_of all1 s')" "tx1_Hash t = tx1_Hash u"
  then show "s = s'" using assms(2) unfolding hashes_apart_def chain_of_set by blast
qed

text \<open>What the whole selection returns.\<close>

lemma greedySelect_eq:
  assumes "is_order ord" and "list_all (\<lambda>t. tx1_Score t \<noteq> None) all1" and "0 \<le> tc1_MaxTransactions cfg"
    and "hashes_apart all1"
  shows "\<exists>s. sel_inv1 cfg s \<and> excludes_of (set all1) s \<and>
    ss_selected s = best_fit (nat (tc1_MaxTransactions cfg)) (tc1_MaxGas cfg) (senders_of all1) (chain_of all1) \<and>
    greedySelect ord all1 cfg =
      Some (ss_selected s, \<lparr> sr_Accepted = ss_accepted s, sr_CapacityExclusions = ss_excluded s, sr_ReasonSummary = ss_summary s \<rparr>,
            if ss_selected s = [] \<and> ss_excluded s \<noteq> [] then ''capacity_exhausted'' else ss_stop s, hashesOf1 (ss_selected s))"
proof -
  let ?gs = "map (\<lambda>s. \<lparr> sg_Sender = s, sg_Txs = chain_of all1 s \<rparr>) (senders_of all1)"
  let ?s0 = "\<lparr> ss_selected = [], ss_accepted = [], ss_excluded = [], ss_summary = [], ss_gas = tc1_MaxGas cfg,
      ss_stop = ''no_eligible_candidate'', ss_heads = replicate (length ?gs) 0 \<rparr>"
  have "refines_sel (tc1_MaxGas cfg) ?gs (replicate (length ?gs) 0) (senders_of all1) (chain_of all1)"
    by (simp add: refines_sel_def same_or_closed_def remaining_of_def)
  then obtain s where s: "select_loop (tc1_MaxTransactions cfg) ?gs ?s0 = Some s"
      "ss_selected s = best_fit (nat (tc1_MaxTransactions cfg)) (tc1_MaxGas cfg) (senders_of all1) (chain_of all1)"
    using select_loop_refines [OF chains_of_ok [OF assms(2,4)], of ?s0 ?gs "tc1_MaxTransactions cfg"] by fastforce
  moreover have "sel_inv1 cfg ?s0" using assms(3) by (simp add: sel_inv1_def gm_get0_def)
  ultimately have "sel_inv1 cfg s" using select_loop1_inv by blast
  moreover have "excludes_of (set all1) s"
    using select_loop_excludes [OF _ s(1)] by (force simp: excludes_of_def)
  moreover have "greedySelect ord all1 cfg =
      Some (ss_selected s, \<lparr> sr_Accepted = ss_accepted s, sr_CapacityExclusions = ss_excluded s, sr_ReasonSummary = ss_summary s \<rparr>,
            if ss_selected s = [] \<and> ss_excluded s \<noteq> [] then ''capacity_exhausted'' else ss_stop s, hashesOf1 (ss_selected s))"
    unfolding greedySelect_def sender_groups_scored [OF assms(1,2)] using assms(3) s(1) by simp
  ultimately show ?thesis using s(2) by blast
qed

section \<open>What the reference selects\<close>

text \<open>Of each sender a prefix of its chain; and unless the count is used up, no sender's next transaction would still fit.\<close>

definition taken_from :: "string \<Rightarrow> Transaction1 list \<Rightarrow> Transaction1 list" where
  "taken_from s txs = filter (\<lambda>t. tx1_From t = s) txs"

lemma mem_concat_map: "s \<in> set ss \<Longrightarrow> x \<in> set (g s) \<Longrightarrow> x \<in> set (concat (map g ss))"
  by auto

lemma best_fit_sound:
  assumes "chains_ok senders f" and "s \<in> set senders"
  shows "taken_from s (best_fit n gas senders f) = take (length (taken_from s (best_fit n gas senders f))) (f s) \<and>
    (length (best_fit n gas senders f) < n \<longrightarrow> length (taken_from s (best_fit n gas senders f)) < length (f s) \<longrightarrow>
       unat gas < gas_sum (best_fit n gas senders f) + unat (tx1_GasLimit (f s ! length (taken_from s (best_fit n gas senders f)))))"
  using assms
proof (induction n gas senders f rule: best_fit.induct)
  case (2 n gas senders f)
  let ?fit = "filter (fits gas) (concat (map (\<lambda>s. take 1 (f s)) senders))"
  show ?case
  proof (cases "sort_by cand_less ?fit")
    case Nil
    then have no: "t \<notin> set ?fit" for t by simp
    have bf: "best_fit (Suc n) gas senders f = []" using Nil by simp
    have "\<not> fits gas (hd (f s))" if "f s \<noteq> []"
    proof -
      have "hd (f s) \<in> set (take 1 (f s))" using that by (cases "f s") simp_all
      then have "hd (f s) \<in> set (concat (map (\<lambda>s. take 1 (f s)) senders))"
        by (rule mem_concat_map [where g = "\<lambda>s. take 1 (f s)", OF "2.prems"(2)])
      then show ?thesis using no [of "hd (f s)"] unfolding set_filter by blast
    qed
    then show ?thesis unfolding bf by (cases "f s") (simp_all add: taken_from_def fits_def not_le word_less_nat_alt)
  next
    case (Cons best rest)
    then have "best \<in> set ?fit" using set_sort_by [of cand_less ?fit] by (metis list.set_intros(1))
    then obtain s0 where fit: "fits gas best" and s0: "s0 \<in> set senders" and m: "best \<in> set (take 1 (f s0))" by auto
    have hd0: "f s0 = best # tl (f s0)" using m by (cases "f s0") auto
    then have from0: "tx1_From best = s0" using s0 "2.prems"(1) unfolding chains_ok_def by (metis list.set_intros(1))
    have gas: "unat gas = unat (gas - tx1_GasLimit best) + unat (tx1_GasLimit best)"
      using fit by (simp add: fits_def unat_sub word_le_nat_alt)
    let ?f = "f(s0 := tl (f s0))" and ?rest = "best_fit n (gas - tx1_GasLimit best) senders (f(s0 := tl (f s0)))"
    have bf: "best_fit (Suc n) gas senders f = best # ?rest" using Cons from0 by simp
    have IH: "taken_from s ?rest = take (length (taken_from s ?rest)) (?f s) \<and>
        (length ?rest < n \<longrightarrow> length (taken_from s ?rest) < length (?f s) \<longrightarrow>
          unat (gas - tx1_GasLimit best) < gas_sum ?rest + unat (tx1_GasLimit (?f s ! length (taken_from s ?rest))))"
      using "2.IH" [OF Cons _ "2.prems"(2)] chains_ok_tl [OF "2.prems"(1), of s0] from0 by metis
    show ?thesis
    proof (cases "s = s0")
      case True
      then have t: "taken_from s (best # ?rest) = best # taken_from s ?rest" using from0 by (simp add: taken_from_def)
      obtain c where c: "f s = best # c" "?f s = c" using True hd0 by (cases "f s0") auto
      show ?thesis using IH gas unfolding bf t c(1) unfolding c(2) by simp
    next
      case False
      then have t: "taken_from s (best # ?rest) = taken_from s ?rest" using from0 by (simp add: taken_from_def)
      have c: "?f s = f s" using False by simp
      show ?thesis using IH gas unfolding bf t unfolding c by simp
    qed
  qed
qed (simp add: taken_from_def)

lemma best_fit_mem: "t \<in> set (best_fit n gas senders f) \<Longrightarrow> \<exists>s \<in> set senders. t \<in> set (f s)"
proof (induction n gas senders f rule: best_fit.induct)
  case (2 n gas senders f)
  let ?fit = "filter (fits gas) (concat (map (\<lambda>s. take 1 (f s)) senders))"
  show ?case
  proof (cases "sort_by cand_less ?fit")
    case (Cons best rest)
    then have "best \<in> set ?fit" using set_sort_by [of cand_less ?fit] by (metis list.set_intros(1))
    then have b: "\<exists>s \<in> set senders. best \<in> set (f s)" by (auto dest: in_set_takeD)
    have "\<exists>s \<in> set senders. t \<in> set (f s)"
      if "s \<in> set senders" "t \<in> set ((f(tx1_From best := tl (f (tx1_From best)))) s)" for s
      using that by (cases "s = tx1_From best") (auto dest: list.set_sel(2) [rotated], metis list.sel(2) list.set_sel(2))
    then show ?thesis using "2.IH" [OF Cons] "2.prems" Cons b by auto
  qed (use 2 in simp)
qed simp

section \<open>The candidate\<close>

definition tx1_BinaryVersion :: string where
  "tx1_BinaryVersion = ''v1-dev''"

text \<open>\<open>clk\<close> gives the readings of the clock in their order.\<close>

definition buildCandidate1 ::
  "(string \<Rightarrow> string) \<Rightarrow> ((string \<times> Transaction1 list) list \<Rightarrow> (string \<times> Transaction1 list) list) \<Rightarrow> (nat \<Rightarrow> gtime) \<Rightarrow>
     TxConfig1 \<Rightarrow> canonicalSnapshot \<Rightarrow> DecisionTrace1 \<Rightarrow> string \<Rightarrow> gtime \<Rightarrow> (BlockCandidate1 \<times> DecisionTrace1) option" where
  "buildCandidate1 sha256hex ord clk cfg snapshot trace cfgDigest start =
     (case greedySelect ord (cs1_Pending snapshot) cfg of
        None \<Rightarrow> None
      | Some (selected, selectionDecisions, stopReason, rankingOrder) \<Rightarrow>
          (let trace1 = trace\<lparr> dt1_SelectionStopReason := stopReason, dt1_RankingOrder := rankingOrder,
                 dt1_SelectionOrder := hashesOf1 selected,
                 dt1_CapacityExclusions := dt1_CapacityExclusions trace @ sr_CapacityExclusions selectionDecisions,
                 dt1_Accepted := dt1_Accepted trace @ sr_Accepted selectionDecisions,
                 dt1_ReasonCodeSummary := mergeSelectionReasonSummary (dt1_ReasonCodeSummary trace) (sr_ReasonSummary selectionDecisions) \<rparr>;
               rejectedCount = length (dt1_DecodeFailures trace1) + length (dt1_ValidationFailures trace1)
                 + length (dt1_PolicyRejections trace1) + length (dt1_CapacityExclusions trace1);
               totalGas = foldl (\<lambda>g tx. g + tx1_GasLimit tx) 0 selected;
               totalRevenue = foldl (\<lambda>r tx. case tx1_Score tx of Some x \<Rightarrow> r + x | None \<Rightarrow> r) 0 selected;
               selectedHashes = hashesOf1 selected;
               candidateID = deterministicID1 sha256hex [''candidate'', cs1_SnapshotID snapshot, tc1_PolicyVersion cfg,
                 tx1_BinaryVersion, cfgDigest, Join selectedHashes '','' ];
               traceID = deterministicID1 sha256hex [''trace'', cs1_SnapshotID snapshot, candidateID, tc1_PolicyVersion cfg, tx1_BinaryVersion];
               trace2 = trace1\<lparr> dt1_CandidateID := candidateID, dt1_TraceID := traceID, dt1_ConfigDigest := cfgDigest,
                 dt1_BinaryVersion := tx1_BinaryVersion, dt1_PolicyVersion := tc1_PolicyVersion cfg,
                 dt1_SourceEndpointLabel := cs1_SourceEndpointLabel snapshot, dt1_ChainID := cs1_ChainID snapshot,
                 dt1_ReplayMode := (dt1_ReplayMode trace \<or> cs1_RawSnapshotPath snapshot \<noteq> []),
                 dt1_FinalSummary := ''selected='' @ show_nat 10 (length selected) @ '' rejected='' @ show_nat 10 rejectedCount
                   @ '' stop='' @ stopReason,
                 dt1_CreatedAt := clk 0 \<rparr>
           in Some (\<lparr> bc1_SchemaVersion = 1, bc1_CandidateID = candidateID, bc1_SnapshotID = cs1_SnapshotID snapshot,
                 bc1_PolicyVersion = tc1_PolicyVersion cfg, bc1_BinaryVersion = tx1_BinaryVersion, bc1_ConfigDigest = cfgDigest,
                 bc1_SourceEndpointLabel = cs1_SourceEndpointLabel snapshot, bc1_ChainID = cs1_ChainID snapshot,
                 bc1_SelectedTxs = selected, bc1_SelectedTxHashes = selectedHashes, bc1_SelectedOrder = selectedHashes,
                 bc1_TxCount = length selected, bc1_TotalGas = totalGas,
                 bc1_EstimatedPriorityRevenue = show_int 10 totalRevenue, bc1_RejectedCount = rejectedCount,
                 bc1_RejectionSummary = dt1_ReasonCodeSummary trace1, bc1_SelectionStopReason = stopReason,
                 bc1_BuildDurationMS = go_div (time_sub (clk 1) start) millisecond, bc1_CreatedAt = clk 2,
                 bc1_TraceRef = traceID, bc1_IsExecutableBlock = False \<rparr>, trace2)))"

section \<open>Properties\<close>

definition demo_tx1 :: "string \<Rightarrow> string \<Rightarrow> u64 \<Rightarrow> int \<Rightarrow> Transaction1" where
  "demo_tx1 hash sender nonce score = zero_tx1\<lparr> tx1_Hash := hash, tx1_From := sender, tx1_Nonce := nonce,
     tx1_GasLimit := 21000, tx1_Score := Some score \<rparr>"

definition demo_cfg1 :: TxConfig1 where
  "demo_cfg1 = zero_cfg1\<lparr> tc1_MaxTransactions := 3, tc1_MaxGas := 50000 \<rparr>"

definition demo_txs1 :: "Transaction1 list" where
  "demo_txs1 = [demo_tx1 ''h1'' ''alice'' 4 5, demo_tx1 ''h2'' ''bob'' 0 9, demo_tx1 ''h3'' ''alice'' 5 12]"

lemma demo_txs1_ok: "list_all (\<lambda>t. tx1_Score t \<noteq> None) demo_txs1" "hashes_apart demo_txs1"
  by (simp_all add: demo_txs1_def demo_tx1_def hashes_apart_def)



text \<open>
  C37: For scored transactions of which each hash names one sender (\<open>hashes_apart\<close>; \<open>shared_hash_selected_twice\<close> shows what
  happens to others), what the first builder selects is within the count and the gas, is of each sender a prefix of its chain,
  and cannot be extended: unless the count is used up, the next transaction of every sender exceeds the gas that is left. The
  accepted decisions are those of the selected transactions in their order, each as of the selection and without a reason;
  each exclusion is the decision of a pending transaction that exceeds the gas that is left, refused in the selection as
  excluded for capacity with the detail that it does not fit; and the summary counts both.
\<close>

theorem v1_selection_sound:
  assumes "is_order ord" and "list_all (\<lambda>t. tx1_Score t \<noteq> None) all1" and "hashes_apart all1"
    and "greedySelect ord all1 cfg = Some (selected, res, stop, order)"
  shows "int (length selected) \<le> tc1_MaxTransactions cfg \<and> gas_sum selected \<le> unat (tc1_MaxGas cfg) \<and> set selected \<subseteq> set all1 \<and>
    (\<forall>s \<in> tx1_From ` set all1. let k = length (taken_from s selected) in taken_from s selected = take k (chain_of all1 s) \<and>
       (int (length selected) < tc1_MaxTransactions cfg \<and> k < length (chain_of all1 s) \<longrightarrow>
          unat (tc1_MaxGas cfg) < gas_sum selected + unat (tx1_GasLimit (chain_of all1 s ! k)))) \<and>
    sr_Accepted res = map (\<lambda>t. scored_decision1 t True R1None [] ''selection'') selected \<and>
    (\<forall>d \<in> set (sr_CapacityExclusions res). \<exists>t \<in> set all1.
       d = scored_decision1 t False R1CapacityExcluded ''does not fit remaining gas'' ''selection'' \<and>
       unat (tc1_MaxGas cfg) < gas_sum selected + unat (tx1_GasLimit t)) \<and>
    gm_get0 0 (sr_ReasonSummary res) ''SELECTED'' = length selected \<and>
    gm_get0 0 (sr_ReasonSummary res) ''CAPACITY_EXCLUDED'' = length (sr_CapacityExclusions res)"
proof -
  have m: "0 \<le> tc1_MaxTransactions cfg" using assms(4) by (auto simp: greedySelect_def split: option.splits if_splits)
  then obtain s where inv: "sel_inv1 cfg s" and exc: "excludes_of (set all1) s" and sel: "ss_selected s = selected"
      and bf: "selected = best_fit (nat (tc1_MaxTransactions cfg)) (tc1_MaxGas cfg) (senders_of all1) (chain_of all1)"
      and res: "res = \<lparr> sr_Accepted = ss_accepted s, sr_CapacityExclusions = ss_excluded s, sr_ReasonSummary = ss_summary s \<rparr>"
    using greedySelect_eq [OF assms(1,2) _ assms(3), of cfg] assms(4) by auto
  note sound = best_fit_sound [OF chains_of_ok [OF assms(2,3)], of _ "nat (tc1_MaxTransactions cfg)" "tc1_MaxGas cfg", folded bf]
  have "set selected \<subseteq> set all1" using best_fit_mem [of _ "nat (tc1_MaxTransactions cfg)"] unfolding bf by fastforce
  moreover have "\<exists>t \<in> set all1. d = scored_decision1 t False R1CapacityExcluded ''does not fit remaining gas'' ''selection'' \<and>
      unat (tc1_MaxGas cfg) < gas_sum selected + unat (tx1_GasLimit t)" if "d \<in> set (sr_CapacityExclusions res)" for d
  proof -
    have d: "d \<in> set (ss_excluded s)" using that res by simp
    then obtain t where t: "t \<in> set all1" "d = exclusion1 t" using exc unfolding excludes_of_def by blast
    have "unat (ss_gas s) < unat (td1_GasLimit d)" using d inv by (simp add: sel_inv1_def)
    then have "unat (tc1_MaxGas cfg) < gas_sum selected + unat (tx1_GasLimit t)"
      using inv sel t(2) by (simp add: sel_inv1_def exclusion1_def scored_decision1_def)
    then show ?thesis using t unfolding exclusion1_def by blast
  qed
  moreover have "int (length selected) < tc1_MaxTransactions cfg \<longleftrightarrow> length selected < nat (tc1_MaxTransactions cfg)" using m by linarith
  ultimately show ?thesis
    using inv sel res sound by (auto simp: sel_inv1_def senders_of_def Let_def)
qed

theorem v1_selection_sound_witness:
  "\<exists>selected res stop order. greedySelect rev demo_txs1 demo_cfg1 = Some (selected, res, stop, order) \<and>
    int (length selected) \<le> tc1_MaxTransactions demo_cfg1 \<and> gas_sum selected \<le> unat (tc1_MaxGas demo_cfg1) \<and>
    sr_Accepted res = map (\<lambda>t. scored_decision1 t True R1None [] ''selection'') selected"
proof -
  obtain selected res stop order where g: "greedySelect rev demo_txs1 demo_cfg1 = Some (selected, res, stop, order)"
    using greedySelect_eq [OF is_order_rev demo_txs1_ok(1) _ demo_txs1_ok(2), of demo_cfg1] by (auto simp: demo_cfg1_def zero_cfg1_def)
  then show ?thesis using v1_selection_sound [OF is_order_rev demo_txs1_ok g] by blast
qed

section \<open>Findings\<close>

text \<open>Two senders with the same hash: the transaction of the one is selected twice, the chain of the other is skipped.\<close>

lemma shared_hash_selected_twice:
  "map_option fst (greedySelect (\<lambda>xs. xs) [demo_tx1 ''h'' ''alice'' 0 5, demo_tx1 ''h'' ''bob'' 0 9]
     (demo_cfg1\<lparr> tc1_MaxGas := 100000 \<rparr>)) = Some [demo_tx1 ''h'' ''bob'' 0 9, demo_tx1 ''h'' ''bob'' 0 9]"
  by code_simp

end
