(* ===== verification/Tx1_Config.thy ===== *)
theory Tx1_Config
  imports Tx1_Model Tx_Config
begin

text \<open>
  The configuration of the first version of the builder, \<^verbatim>\<open>txpool-builder/v1/internal/config/config.go\<close>: a JSON file, then the
  environment, then the flags that were given, each overriding what came before; then the checks.

  Parameters are the reading of files, the JSON decoders, the package \<^verbatim>\<open>flag\<close>, the environment, the parser and printer of durations,
  \<^verbatim>\<open>filepath.Dir\<close> and \<^verbatim>\<open>os.MkdirAll\<close>. \<^verbatim>\<open>firstNonEmpty\<close> is declared as in the second version (\<open>cfg_firstNonEmpty\<close>).
\<close>

section \<open>Layers\<close>

record fileConfig =
  fc_RPCURL :: "string option"
  fc_OutputPath :: "string option"
  fc_TraceOutputPath :: "string option"
  fc_SnapshotOutputPath :: "string option"
  fc_ReplaySnapshotPath :: "string option"
  fc_CompareCandidatePath :: "string option"
  fc_Timeout :: "string option"
  fc_MaxTransactions :: "int option"
  fc_MaxGas :: "u64 option"
  fc_MaxSnapshotTxs :: "int option"
  fc_MaxRawSnapshotBytes :: "int option"
  fc_MaxArtifactBytes :: "int option"
  fc_MaxTraceBytes :: "int option"
  fc_PolicyVersion :: "string option"
  fc_ChainID :: "string option"
  fc_Strict :: "bool option"
  fc_RejectOnPartial :: "bool option"
  fc_AllowHeadDrift :: "bool option"
  fc_IncludeQueued :: "bool option"
  fc_NoWrite :: "bool option"
  fc_DryRunConfig :: "bool option"
  fc_PrintConfig :: "bool option"
  fc_Version :: "bool option"

text \<open>The command line as the package \<^verbatim>\<open>flag\<close> parses it: the value of each flag and the names of those that were given.\<close>

record TxFlags1 =
  fl_visited :: "string list"
  fl_config :: string
  fl_RPCURL :: "string"
  fl_OutputPath :: "string"
  fl_TraceOutputPath :: "string"
  fl_SnapshotOutputPath :: "string"
  fl_ReplaySnapshotPath :: "string"
  fl_CompareCandidatePath :: "string"
  fl_Timeout :: "duration"
  fl_MaxTransactions :: "int"
  fl_MaxGas :: "u64"
  fl_MaxSnapshotTxs :: "int"
  fl_MaxRawSnapshotBytes :: "int"
  fl_MaxArtifactBytes :: "int"
  fl_MaxTraceBytes :: "int"
  fl_PolicyVersion :: "string"
  fl_ChainID :: "string"
  fl_Strict :: "bool"
  fl_RejectOnPartial :: "bool"
  fl_AllowHeadDrift :: "bool"
  fl_IncludeQueued :: "bool"
  fl_NoWrite :: "bool"
  fl_DryRunConfig :: "bool"
  fl_PrintConfig :: "bool"
  fl_Version :: "bool"

text \<open>An assignment under a condition, and of an option that is there.\<close>

definition set_if :: "bool \<Rightarrow> ('c \<Rightarrow> 'c) \<Rightarrow> 'c \<Rightarrow> 'c" where
  "set_if b upd cfg = (if b then upd cfg else cfg)"

definition set_opt :: "'a option \<Rightarrow> ('a \<Rightarrow> 'c \<Rightarrow> 'c) \<Rightarrow> 'c \<Rightarrow> 'c" where
  "set_opt v upd cfg = (case v of Some x \<Rightarrow> upd x cfg | None \<Rightarrow> cfg)"

text \<open>The readers ignore the error; of a number that is out of range \<^verbatim>\<open>strconv\<close> returns the nearest one.\<close>

definition parseDuration1 :: "(string \<Rightarrow> duration option) \<Rightarrow> string \<Rightarrow> duration" where
  "parseDuration1 pd s = (case pd (TrimSpace s) of Some d \<Rightarrow> d | None \<Rightarrow> 0)"

definition parseInt1 :: "string \<Rightarrow> int" where
  "parseInt1 s = (case SetString 10 (TrimSpace s) of Some n \<Rightarrow> max min_int64 (min max_int64 n) | None \<Rightarrow> 0)"

definition parseInt64_1 :: "string \<Rightarrow> int" where
  "parseInt64_1 s = (case SetString 10 (TrimSpace s) of Some n \<Rightarrow> max min_int64 (min max_int64 n) | None \<Rightarrow> 0)"

definition parseUint64_1 :: "string \<Rightarrow> u64" where
  "parseUint64_1 s =
     (let t = TrimSpace s in
      if t = [] then 0
      else case digits_value 10 0 t of None \<Rightarrow> 0 | Some n \<Rightarrow> if n < 2 ^ 64 then of_nat n else - 1)"

text \<open>The text is trimmed for the first test only.\<close>

definition parseBigInt1 :: "string \<Rightarrow> int option" where
  "parseBigInt1 s =
     (if TrimSpace s = [] then None
      else if HasPrefix s ''0x'' \<or> HasPrefix s ''0X'' then SetString 16 (drop 2 s)
      else SetString 10 s)"

definition applyFileConfig :: "(string \<Rightarrow> duration option) \<Rightarrow> TxConfig1 \<Rightarrow> fileConfig \<Rightarrow> TxConfig1" where
  "applyFileConfig pd cfg fc =
     (let cfg = set_opt (fc_RPCURL fc) (\<lambda>v cfg. cfg\<lparr> tc1_RPCURL := v \<rparr>) cfg;
          cfg = set_opt (fc_OutputPath fc) (\<lambda>v cfg. cfg\<lparr> tc1_OutputPath := v \<rparr>) cfg;
          cfg = set_opt (fc_TraceOutputPath fc) (\<lambda>v cfg. cfg\<lparr> tc1_TraceOutputPath := v \<rparr>) cfg;
          cfg = set_opt (fc_SnapshotOutputPath fc) (\<lambda>v cfg. cfg\<lparr> tc1_SnapshotOutputPath := v \<rparr>) cfg;
          cfg = set_opt (fc_ReplaySnapshotPath fc) (\<lambda>v cfg. cfg\<lparr> tc1_ReplaySnapshotPath := v \<rparr>) cfg;
          cfg = set_opt (fc_CompareCandidatePath fc) (\<lambda>v cfg. cfg\<lparr> tc1_CompareCandidatePath := v \<rparr>) cfg;
          cfg = set_opt (fc_Timeout fc) (\<lambda>v cfg. cfg\<lparr> tc1_Timeout := parseDuration1 pd v \<rparr>) cfg;
          cfg = set_opt (fc_MaxTransactions fc) (\<lambda>v cfg. cfg\<lparr> tc1_MaxTransactions := v \<rparr>) cfg;
          cfg = set_opt (fc_MaxGas fc) (\<lambda>v cfg. cfg\<lparr> tc1_MaxGas := v \<rparr>) cfg;
          cfg = set_opt (fc_MaxSnapshotTxs fc) (\<lambda>v cfg. cfg\<lparr> tc1_MaxSnapshotTxs := v \<rparr>) cfg;
          cfg = set_opt (fc_MaxRawSnapshotBytes fc) (\<lambda>v cfg. cfg\<lparr> tc1_MaxRawSnapshotBytes := v \<rparr>) cfg;
          cfg = set_opt (fc_MaxArtifactBytes fc) (\<lambda>v cfg. cfg\<lparr> tc1_MaxArtifactBytes := v \<rparr>) cfg;
          cfg = set_opt (fc_MaxTraceBytes fc) (\<lambda>v cfg. cfg\<lparr> tc1_MaxTraceBytes := v \<rparr>) cfg;
          cfg = set_opt (fc_PolicyVersion fc) (\<lambda>v cfg. cfg\<lparr> tc1_PolicyVersion := v \<rparr>) cfg;
          cfg = set_opt (fc_ChainID fc) (\<lambda>v cfg. cfg\<lparr> tc1_ChainID := parseBigInt1 v \<rparr>) cfg;
          cfg = set_opt (fc_Strict fc) (\<lambda>v cfg. cfg\<lparr> tc1_Strict := v \<rparr>) cfg;
          cfg = set_opt (fc_RejectOnPartial fc) (\<lambda>v cfg. cfg\<lparr> tc1_RejectOnPartialDecode := v \<rparr>) cfg;
          cfg = set_opt (fc_AllowHeadDrift fc) (\<lambda>v cfg. cfg\<lparr> tc1_AllowHeadDrift := v \<rparr>) cfg;
          cfg = set_opt (fc_IncludeQueued fc) (\<lambda>v cfg. cfg\<lparr> tc1_IncludeQueued := v \<rparr>) cfg;
          cfg = set_opt (fc_NoWrite fc) (\<lambda>v cfg. cfg\<lparr> tc1_NoWrite := v \<rparr>) cfg;
          cfg = set_opt (fc_DryRunConfig fc) (\<lambda>v cfg. cfg\<lparr> tc1_DryRunConfig := v \<rparr>) cfg;
          cfg = set_opt (fc_PrintConfig fc) (\<lambda>v cfg. cfg\<lparr> tc1_PrintConfig := v \<rparr>) cfg;
          cfg = set_opt (fc_Version fc) (\<lambda>v cfg. cfg\<lparr> tc1_Version := v \<rparr>) cfg
      in cfg)"

definition overlayEnv :: "(string \<Rightarrow> duration option) \<Rightarrow> (string \<Rightarrow> string) \<Rightarrow> TxConfig1 \<Rightarrow> TxConfig1" where
  "overlayEnv pd getenv cfg =
     (let v = cfg_firstNonEmpty [getenv ''TXPOOL_BUILDER_RPC_URL'', getenv ''GETH_RPC_URL''];
          cfg = set_if (v \<noteq> []) (\<lambda>cfg. cfg\<lparr> tc1_RPCURL := v \<rparr>) cfg;
          v = getenv ''TXPOOL_BUILDER_OUTPUT'';
          cfg = set_if (v \<noteq> []) (\<lambda>cfg. cfg\<lparr> tc1_OutputPath := v \<rparr>) cfg;
          v = getenv ''TXPOOL_BUILDER_TRACE_OUTPUT'';
          cfg = set_if (v \<noteq> []) (\<lambda>cfg. cfg\<lparr> tc1_TraceOutputPath := v \<rparr>) cfg;
          v = getenv ''TXPOOL_BUILDER_SNAPSHOT_OUTPUT'';
          cfg = set_if (v \<noteq> []) (\<lambda>cfg. cfg\<lparr> tc1_SnapshotOutputPath := v \<rparr>) cfg;
          v = getenv ''TXPOOL_BUILDER_REPLAY_SNAPSHOT'';
          cfg = set_if (v \<noteq> []) (\<lambda>cfg. cfg\<lparr> tc1_ReplaySnapshotPath := v \<rparr>) cfg;
          v = getenv ''TXPOOL_BUILDER_COMPARE_CANDIDATE'';
          cfg = set_if (v \<noteq> []) (\<lambda>cfg. cfg\<lparr> tc1_CompareCandidatePath := v \<rparr>) cfg;
          v = getenv ''TXPOOL_BUILDER_TIMEOUT'';
          cfg = set_if (v \<noteq> []) (\<lambda>cfg. cfg\<lparr> tc1_Timeout := parseDuration1 pd v \<rparr>) cfg;
          v = getenv ''TXPOOL_BUILDER_MAX_TRANSACTIONS'';
          cfg = set_if (v \<noteq> []) (\<lambda>cfg. cfg\<lparr> tc1_MaxTransactions := parseInt1 v \<rparr>) cfg;
          v = getenv ''TXPOOL_BUILDER_MAX_GAS'';
          cfg = set_if (v \<noteq> []) (\<lambda>cfg. cfg\<lparr> tc1_MaxGas := parseUint64_1 v \<rparr>) cfg;
          v = getenv ''TXPOOL_BUILDER_MAX_SNAPSHOT_TXS'';
          cfg = set_if (v \<noteq> []) (\<lambda>cfg. cfg\<lparr> tc1_MaxSnapshotTxs := parseInt1 v \<rparr>) cfg;
          v = getenv ''TXPOOL_BUILDER_MAX_RAW_SNAPSHOT_BYTES'';
          cfg = set_if (v \<noteq> []) (\<lambda>cfg. cfg\<lparr> tc1_MaxRawSnapshotBytes := parseInt64_1 v \<rparr>) cfg;
          v = getenv ''TXPOOL_BUILDER_MAX_ARTIFACT_BYTES'';
          cfg = set_if (v \<noteq> []) (\<lambda>cfg. cfg\<lparr> tc1_MaxArtifactBytes := parseInt64_1 v \<rparr>) cfg;
          v = getenv ''TXPOOL_BUILDER_MAX_TRACE_BYTES'';
          cfg = set_if (v \<noteq> []) (\<lambda>cfg. cfg\<lparr> tc1_MaxTraceBytes := parseInt64_1 v \<rparr>) cfg;
          v = getenv ''TXPOOL_BUILDER_POLICY_VERSION'';
          cfg = set_if (v \<noteq> []) (\<lambda>cfg. cfg\<lparr> tc1_PolicyVersion := v \<rparr>) cfg;
          v = getenv ''TXPOOL_BUILDER_CHAIN_ID'';
          cfg = set_if (v \<noteq> []) (\<lambda>cfg. cfg\<lparr> tc1_ChainID := parseBigInt1 v \<rparr>) cfg
      in cfg)"

definition overlayFlags :: "TxConfig1 \<Rightarrow> TxFlags1 \<Rightarrow> TxConfig1" where
  "overlayFlags cfg fl =
     (let visited = (\<lambda>name. name \<in> set (fl_visited fl));
          cfg = set_if (visited ''rpc-url'') (\<lambda>cfg. cfg\<lparr> tc1_RPCURL := fl_RPCURL fl \<rparr>) cfg;
          cfg = set_if (visited ''output'') (\<lambda>cfg. cfg\<lparr> tc1_OutputPath := fl_OutputPath fl \<rparr>) cfg;
          cfg = set_if (visited ''trace-output'') (\<lambda>cfg. cfg\<lparr> tc1_TraceOutputPath := fl_TraceOutputPath fl \<rparr>) cfg;
          cfg = set_if (visited ''snapshot-output'') (\<lambda>cfg. cfg\<lparr> tc1_SnapshotOutputPath := fl_SnapshotOutputPath fl \<rparr>) cfg;
          cfg = set_if (visited ''replay-snapshot'') (\<lambda>cfg. cfg\<lparr> tc1_ReplaySnapshotPath := fl_ReplaySnapshotPath fl \<rparr>) cfg;
          cfg = set_if (visited ''compare-candidate'') (\<lambda>cfg. cfg\<lparr> tc1_CompareCandidatePath := fl_CompareCandidatePath fl \<rparr>) cfg;
          cfg = set_if (visited ''timeout'') (\<lambda>cfg. cfg\<lparr> tc1_Timeout := fl_Timeout fl \<rparr>) cfg;
          cfg = set_if (visited ''max-transactions'') (\<lambda>cfg. cfg\<lparr> tc1_MaxTransactions := fl_MaxTransactions fl \<rparr>) cfg;
          cfg = set_if (visited ''max-gas'') (\<lambda>cfg. cfg\<lparr> tc1_MaxGas := fl_MaxGas fl \<rparr>) cfg;
          cfg = set_if (visited ''max-snapshot-txs'') (\<lambda>cfg. cfg\<lparr> tc1_MaxSnapshotTxs := fl_MaxSnapshotTxs fl \<rparr>) cfg;
          cfg = set_if (visited ''max-raw-snapshot-bytes'') (\<lambda>cfg. cfg\<lparr> tc1_MaxRawSnapshotBytes := fl_MaxRawSnapshotBytes fl \<rparr>) cfg;
          cfg = set_if (visited ''max-artifact-bytes'') (\<lambda>cfg. cfg\<lparr> tc1_MaxArtifactBytes := fl_MaxArtifactBytes fl \<rparr>) cfg;
          cfg = set_if (visited ''max-trace-bytes'') (\<lambda>cfg. cfg\<lparr> tc1_MaxTraceBytes := fl_MaxTraceBytes fl \<rparr>) cfg;
          cfg = set_if (visited ''policy-version'') (\<lambda>cfg. cfg\<lparr> tc1_PolicyVersion := fl_PolicyVersion fl \<rparr>) cfg;
          cfg = set_if (visited ''chain-id'') (\<lambda>cfg. cfg\<lparr> tc1_ChainID := parseBigInt1 (fl_ChainID fl) \<rparr>) cfg;
          cfg = set_if (visited ''strict'') (\<lambda>cfg. cfg\<lparr> tc1_Strict := fl_Strict fl \<rparr>) cfg;
          cfg = set_if (visited ''reject-on-partial-decode'') (\<lambda>cfg. cfg\<lparr> tc1_RejectOnPartialDecode := fl_RejectOnPartial fl \<rparr>) cfg;
          cfg = set_if (visited ''allow-head-drift'') (\<lambda>cfg. cfg\<lparr> tc1_AllowHeadDrift := fl_AllowHeadDrift fl \<rparr>) cfg;
          cfg = set_if (visited ''include-queued'') (\<lambda>cfg. cfg\<lparr> tc1_IncludeQueued := fl_IncludeQueued fl \<rparr>) cfg;
          cfg = set_if (visited ''no-write'') (\<lambda>cfg. cfg\<lparr> tc1_NoWrite := fl_NoWrite fl \<rparr>) cfg;
          cfg = set_if (visited ''dry-run-config'') (\<lambda>cfg. cfg\<lparr> tc1_DryRunConfig := fl_DryRunConfig fl \<rparr>) cfg;
          cfg = set_if (visited ''print-config'') (\<lambda>cfg. cfg\<lparr> tc1_PrintConfig := fl_PrintConfig fl \<rparr>) cfg;
          cfg = set_if (visited ''version'') (\<lambda>cfg. cfg\<lparr> tc1_Version := fl_Version fl \<rparr>) cfg
      in cfg)"

section \<open>The file\<close>

record cfg_env1 =
  ce_readFile :: "string \<Rightarrow> string + string"
  ce_probeStrict :: "string \<Rightarrow> bool option"
  ce_keys :: "string \<Rightarrow> string + string list"
  ce_unmarshal :: "string \<Rightarrow> string + fileConfig"
  ce_quote :: "string \<Rightarrow> string"
  ce_getenv :: "string \<Rightarrow> string"
  ce_parseDuration :: "string \<Rightarrow> duration option"
  ce_dir :: "string \<Rightarrow> string"
  ce_mkdirAll :: "string \<Rightarrow> string option"

definition allowed_keys :: "string list" where
  "allowed_keys =
     [''rpc_url'', ''output_path'', ''trace_output_path'', ''snapshot_output_path'', ''replay_snapshot_path'',
      ''compare_candidate_path'', ''timeout'', ''max_transactions'', ''max_gas'', ''max_snapshot_txs'',
      ''max_raw_snapshot_bytes'', ''max_artifact_bytes'', ''max_trace_bytes'', ''policy_version'', ''chain_id'',
      ''strict'', ''reject_on_partial_decode'', ''allow_head_drift'', ''include_queued'', ''no_write'',
      ''dry_run_config'', ''print_config'', ''version'']"

text \<open>Of several unknown keys the one met first in the order of the map is named.\<close>

definition loadConfigFile :: "cfg_env1 \<Rightarrow> string \<Rightarrow> bool \<Rightarrow> bool \<Rightarrow> string + TxConfig1" where
  "loadConfigFile ce path strictFlag strictVisited =
     (if TrimSpace path = [] then Inr zero_cfg1
      else case ce_readFile ce path of
        Inl err \<Rightarrow> Inl err
      | Inr b \<Rightarrow>
          (let strict = (case ce_probeStrict ce b of
                 Some s \<Rightarrow> if strictVisited then strictFlag else s | None \<Rightarrow> strictFlag);
               load = (case ce_unmarshal ce b of
                 Inl err \<Rightarrow> Inl err | Inr fc \<Rightarrow> Inr (applyFileConfig (ce_parseDuration ce) zero_cfg1 fc))
           in if strict
              then (case ce_keys ce b of
                      Inl err \<Rightarrow> Inl err
                    | Inr keys \<Rightarrow>
                        (case find (\<lambda>k. k \<notin> set allowed_keys) keys of
                           Some k \<Rightarrow> Inl (''unknown config key '' @ ce_quote ce k) | None \<Rightarrow> load))
              else load))"

section \<open>Checks\<close>

definition validateParentDir :: "cfg_env1 \<Rightarrow> string \<Rightarrow> string option" where
  "validateParentDir ce path =
     (let dir = ce_dir ce path in if dir = ''.'' \<or> dir = [] then None else ce_mkdirAll ce dir)"

definition Validate1 :: "cfg_env1 \<Rightarrow> TxConfig1 \<Rightarrow> string option" where
  "Validate1 ce cfg =
     (if tc1_RPCURL cfg = [] \<and> tc1_ReplaySnapshotPath cfg = [] then Some ''missing RPC URL''
      else if tc1_OutputPath cfg = [] \<and> \<not> tc1_NoWrite cfg then Some ''missing output path''
      else if tc1_TraceOutputPath cfg = [] \<and> \<not> tc1_NoWrite cfg then Some ''missing trace output path''
      else if tc1_SnapshotOutputPath cfg = [] \<and> \<not> tc1_NoWrite cfg then Some ''missing snapshot output path''
      else if tc1_Timeout cfg \<le> 0 then Some ''missing or invalid timeout''
      else if tc1_MaxTransactions cfg \<le> 0 then Some ''missing or invalid max-transactions''
      else if tc1_MaxGas cfg = 0 then Some ''missing or invalid max-gas''
      else if tc1_MaxSnapshotTxs cfg \<le> 0 then Some ''missing or invalid max-snapshot-txs''
      else if tc1_MaxRawSnapshotBytes cfg \<le> 0 then Some ''missing or invalid max-raw-snapshot-bytes''
      else if tc1_MaxArtifactBytes cfg \<le> 0 then Some ''missing or invalid max-artifact-bytes''
      else if tc1_MaxTraceBytes cfg \<le> 0 then Some ''missing or invalid max-trace-bytes''
      else if tc1_PolicyVersion cfg = [] then Some ''missing policy version''
      else if tc1_ChainID cfg = None \<and> tc1_ReplaySnapshotPath cfg = [] then Some ''missing or invalid chain id''
      else if TrimSpace (tc1_RPCURL cfg) = [] then Some ''missing RPC URL''
      else case validateParentDir ce (tc1_OutputPath cfg) of
        Some err \<Rightarrow> Some err
      | None \<Rightarrow> (case validateParentDir ce (tc1_TraceOutputPath cfg) of
          Some err \<Rightarrow> Some err
        | None \<Rightarrow> (case validateParentDir ce (tc1_SnapshotOutputPath cfg) of
            Some err \<Rightarrow> Some err
          | None \<Rightarrow> validateParentDir ce (tc1_ReplaySnapshotPath cfg))))"

definition config_error :: "string \<Rightarrow> run_error" where
  "config_error err = startup_error R1ConfigError ''config'' err (Some err)"

text \<open>The layers above the file, and the paths that have more than one source.\<close>

definition merge_layers :: "cfg_env1 \<Rightarrow> TxFlags1 \<Rightarrow> string \<Rightarrow> TxConfig1 \<Rightarrow> TxConfig1" where
  "merge_layers ce fl configPath base =
     (let getenv = ce_getenv ce;
          cfg = overlayFlags (overlayEnv (ce_parseDuration ce) getenv (base\<lparr> tc1_ConfigPath := configPath \<rparr>)) fl;
          cfg = cfg\<lparr> tc1_ConfigPath := configPath,
            tc1_ReplaySnapshotPath := cfg_firstNonEmpty [tc1_ReplaySnapshotPath cfg, getenv ''TXPOOL_BUILDER_REPLAY_SNAPSHOT''],
            tc1_CompareCandidatePath := cfg_firstNonEmpty [fl_CompareCandidatePath fl, getenv ''TXPOOL_BUILDER_COMPARE_CANDIDATE''] \<rparr>
      in set_if (tc1_SnapshotOutputPath cfg = [] \<and> tc1_OutputPath cfg \<noteq> [])
           (\<lambda>c. c\<lparr> tc1_SnapshotOutputPath := tc1_OutputPath cfg @ ''.snapshot.json'' \<rparr>) cfg)"

definition Load1_cfg :: "cfg_env1 \<Rightarrow> string + TxFlags1 \<Rightarrow> run_error + TxConfig1" where
  "Load1_cfg ce parsed =
     (case parsed of
        Inl err \<Rightarrow> Inl (Plain1 err)
      | Inr fl \<Rightarrow>
          (let configPath = cfg_firstNonEmpty [fl_config fl, ce_getenv ce ''TXPOOL_BUILDER_CONFIG'']
           in case loadConfigFile ce configPath (fl_Strict fl) (''strict'' \<in> set (fl_visited fl)) of
                Inl err \<Rightarrow> Inl (config_error err)
              | Inr fileCfg \<Rightarrow>
                  (let cfg = merge_layers ce fl configPath fileCfg
                   in case Validate1 ce cfg of Some err \<Rightarrow> Inl (config_error err) | None \<Rightarrow> Inr cfg)))"

section \<open>The digest\<close>

record DigestConfig1 =
  dc_ConfigPath :: string
  dc_RPCURL :: string
  dc_OutputPath :: string
  dc_TraceOutputPath :: string
  dc_SnapshotOutputPath :: string
  dc_ReplaySnapshotPath :: string
  dc_CompareCandidatePath :: string
  dc_Timeout :: string
  dc_MaxTransactions :: int
  dc_MaxGas :: u64
  dc_MaxSnapshotTxs :: int
  dc_MaxRawSnapshotBytes :: int
  dc_MaxArtifactBytes :: int
  dc_MaxTraceBytes :: int
  dc_PolicyVersion :: string
  dc_ChainID :: string
  dc_Strict :: bool
  dc_RejectOnPartialDecode :: bool
  dc_AllowHeadDrift :: bool
  dc_IncludeQueued :: bool
  dc_NoWrite :: bool
  dc_DryRunConfig :: bool

definition chainIDString :: "int option \<Rightarrow> string" where
  "chainIDString v = (case v of None \<Rightarrow> [] | Some n \<Rightarrow> show_int 10 n)"

definition Digest1 :: "(string \<Rightarrow> string) \<Rightarrow> (DigestConfig1 \<Rightarrow> string) \<Rightarrow> (duration \<Rightarrow> string) \<Rightarrow> TxConfig1 \<Rightarrow> string" where
  "Digest1 sha256hex marshal durString cfg = sha256hex (marshal \<lparr>
      dc_ConfigPath = tc1_ConfigPath cfg, dc_RPCURL = tc1_RPCURL cfg, dc_OutputPath = tc1_OutputPath cfg,
      dc_TraceOutputPath = tc1_TraceOutputPath cfg, dc_SnapshotOutputPath = tc1_SnapshotOutputPath cfg,
      dc_ReplaySnapshotPath = tc1_ReplaySnapshotPath cfg, dc_CompareCandidatePath = tc1_CompareCandidatePath cfg,
      dc_Timeout = durString (tc1_Timeout cfg), dc_MaxTransactions = tc1_MaxTransactions cfg, dc_MaxGas = tc1_MaxGas cfg,
      dc_MaxSnapshotTxs = tc1_MaxSnapshotTxs cfg, dc_MaxRawSnapshotBytes = tc1_MaxRawSnapshotBytes cfg,
      dc_MaxArtifactBytes = tc1_MaxArtifactBytes cfg, dc_MaxTraceBytes = tc1_MaxTraceBytes cfg,
      dc_PolicyVersion = tc1_PolicyVersion cfg, dc_ChainID = chainIDString (tc1_ChainID cfg), dc_Strict = tc1_Strict cfg,
      dc_RejectOnPartialDecode = tc1_RejectOnPartialDecode cfg, dc_AllowHeadDrift = tc1_AllowHeadDrift cfg,
      dc_IncludeQueued = tc1_IncludeQueued cfg, dc_NoWrite = tc1_NoWrite cfg,
      dc_DryRunConfig = tc1_DryRunConfig cfg \<rparr>)"

section \<open>What a loaded configuration is\<close>

definition layer :: "bool \<Rightarrow> 'a \<Rightarrow> string \<Rightarrow> (string \<Rightarrow> 'a) \<Rightarrow> 'a \<Rightarrow> 'a" where
  "layer given flag env1 parse base = (if given then flag else if env1 \<noteq> [] then parse env1 else base)"

lemma set_if_other: "(\<And>c. sel (upd c) = sel c) \<Longrightarrow> sel (set_if b upd cfg) = sel cfg"
  by (simp add: set_if_def)

lemma set_if_same: "(\<And>c. sel (upd c) = v) \<Longrightarrow> sel (set_if b upd cfg) = (if b then v else sel cfg)"
  by (simp add: set_if_def)

lemmas set_if_other_fields =
  set_if_other [where sel = tc1_MaxTransactions]
  set_if_other [where sel = tc1_MaxGas]
  set_if_other [where sel = tc1_MaxSnapshotTxs]
  set_if_other [where sel = tc1_MaxRawSnapshotBytes]
  set_if_other [where sel = tc1_MaxArtifactBytes]
  set_if_other [where sel = tc1_MaxTraceBytes]
  set_if_other [where sel = tc1_Timeout]
  set_if_other [where sel = tc1_PolicyVersion]
  set_if_other [where sel = tc1_OutputPath]
  set_if_other [where sel = tc1_TraceOutputPath]
  set_if_other [where sel = tc1_ChainID]
  set_if_other [where sel = tc1_Strict]
  set_if_other [where sel = tc1_RejectOnPartialDecode]
  set_if_other [where sel = tc1_AllowHeadDrift]
  set_if_other [where sel = tc1_IncludeQueued]
  set_if_other [where sel = tc1_NoWrite]

lemmas set_if_same_fields =
  set_if_same [where sel = tc1_MaxTransactions]
  set_if_same [where sel = tc1_MaxGas]
  set_if_same [where sel = tc1_MaxSnapshotTxs]
  set_if_same [where sel = tc1_MaxRawSnapshotBytes]
  set_if_same [where sel = tc1_MaxArtifactBytes]
  set_if_same [where sel = tc1_MaxTraceBytes]
  set_if_same [where sel = tc1_Timeout]
  set_if_same [where sel = tc1_PolicyVersion]
  set_if_same [where sel = tc1_OutputPath]
  set_if_same [where sel = tc1_TraceOutputPath]
  set_if_same [where sel = tc1_ChainID]
  set_if_same [where sel = tc1_Strict]
  set_if_same [where sel = tc1_RejectOnPartialDecode]
  set_if_same [where sel = tc1_AllowHeadDrift]
  set_if_same [where sel = tc1_IncludeQueued]
  set_if_same [where sel = tc1_NoWrite]

lemma overlay_fields:
  fixes fl :: TxFlags1 and ce :: cfg_env1 and base :: TxConfig1 and path :: string
  defines "cfg \<equiv> overlayFlags (overlayEnv (ce_parseDuration ce) (ce_getenv ce) (base\<lparr> tc1_ConfigPath := path \<rparr>)) fl"
    and "given \<equiv> \<lambda>name. name \<in> set (fl_visited fl)" and "env \<equiv> \<lambda>key. ce_getenv ce (''TXPOOL_BUILDER_'' @ key)"
  shows "tc1_MaxTransactions cfg = layer (given ''max-transactions'') (fl_MaxTransactions fl) (env ''MAX_TRANSACTIONS'') parseInt1 (tc1_MaxTransactions base)"
    and "tc1_MaxGas cfg = layer (given ''max-gas'') (fl_MaxGas fl) (env ''MAX_GAS'') parseUint64_1 (tc1_MaxGas base)"
    and "tc1_MaxSnapshotTxs cfg = layer (given ''max-snapshot-txs'') (fl_MaxSnapshotTxs fl) (env ''MAX_SNAPSHOT_TXS'') parseInt1 (tc1_MaxSnapshotTxs base)"
    and "tc1_MaxRawSnapshotBytes cfg = layer (given ''max-raw-snapshot-bytes'') (fl_MaxRawSnapshotBytes fl) (env ''MAX_RAW_SNAPSHOT_BYTES'') parseInt64_1 (tc1_MaxRawSnapshotBytes base)"
    and "tc1_MaxArtifactBytes cfg = layer (given ''max-artifact-bytes'') (fl_MaxArtifactBytes fl) (env ''MAX_ARTIFACT_BYTES'') parseInt64_1 (tc1_MaxArtifactBytes base)"
    and "tc1_MaxTraceBytes cfg = layer (given ''max-trace-bytes'') (fl_MaxTraceBytes fl) (env ''MAX_TRACE_BYTES'') parseInt64_1 (tc1_MaxTraceBytes base)"
    and "tc1_Timeout cfg = layer (given ''timeout'') (fl_Timeout fl) (env ''TIMEOUT'') (parseDuration1 (ce_parseDuration ce)) (tc1_Timeout base)"
    and "tc1_PolicyVersion cfg = layer (given ''policy-version'') (fl_PolicyVersion fl) (env ''POLICY_VERSION'') (\<lambda>v. v) (tc1_PolicyVersion base)"
    and "tc1_OutputPath cfg = layer (given ''output'') (fl_OutputPath fl) (env ''OUTPUT'') (\<lambda>v. v) (tc1_OutputPath base)"
    and "tc1_TraceOutputPath cfg = layer (given ''trace-output'') (fl_TraceOutputPath fl) (env ''TRACE_OUTPUT'') (\<lambda>v. v) (tc1_TraceOutputPath base)"
    and "tc1_ChainID cfg = layer (given ''chain-id'') (parseBigInt1 (fl_ChainID fl)) (env ''CHAIN_ID'') parseBigInt1 (tc1_ChainID base)"
    and "tc1_Strict cfg = (if given ''strict'' then fl_Strict fl else tc1_Strict base)"
    and "tc1_RejectOnPartialDecode cfg = (if given ''reject-on-partial-decode'' then fl_RejectOnPartial fl else tc1_RejectOnPartialDecode base)"
    and "tc1_AllowHeadDrift cfg = (if given ''allow-head-drift'' then fl_AllowHeadDrift fl else tc1_AllowHeadDrift base)"
    and "tc1_IncludeQueued cfg = (if given ''include-queued'' then fl_IncludeQueued fl else tc1_IncludeQueued base)"
    and "tc1_NoWrite cfg = (if given ''no-write'' then fl_NoWrite fl else tc1_NoWrite base)"
  unfolding cfg_def given_def env_def overlayFlags_def overlayEnv_def layer_def Let_def
  by (simp_all add: set_if_other_fields set_if_same_fields)

definition cfg1_layers :: "cfg_env1 \<Rightarrow> TxFlags1 \<Rightarrow> TxConfig1 \<Rightarrow> TxConfig1 \<Rightarrow> bool" where
  "cfg1_layers ce fl base cfg \<longleftrightarrow>
     (let given = (\<lambda>name. name \<in> set (fl_visited fl)); env = (\<lambda>key. ce_getenv ce (''TXPOOL_BUILDER_'' @ key)) in
     tc1_MaxTransactions cfg = layer (given ''max-transactions'') (fl_MaxTransactions fl) (env ''MAX_TRANSACTIONS'') parseInt1 (tc1_MaxTransactions base) \<and>
     tc1_MaxGas cfg = layer (given ''max-gas'') (fl_MaxGas fl) (env ''MAX_GAS'') parseUint64_1 (tc1_MaxGas base) \<and>
     tc1_MaxSnapshotTxs cfg = layer (given ''max-snapshot-txs'') (fl_MaxSnapshotTxs fl) (env ''MAX_SNAPSHOT_TXS'') parseInt1 (tc1_MaxSnapshotTxs base) \<and>
     tc1_MaxRawSnapshotBytes cfg = layer (given ''max-raw-snapshot-bytes'') (fl_MaxRawSnapshotBytes fl) (env ''MAX_RAW_SNAPSHOT_BYTES'') parseInt64_1 (tc1_MaxRawSnapshotBytes base) \<and>
     tc1_MaxArtifactBytes cfg = layer (given ''max-artifact-bytes'') (fl_MaxArtifactBytes fl) (env ''MAX_ARTIFACT_BYTES'') parseInt64_1 (tc1_MaxArtifactBytes base) \<and>
     tc1_MaxTraceBytes cfg = layer (given ''max-trace-bytes'') (fl_MaxTraceBytes fl) (env ''MAX_TRACE_BYTES'') parseInt64_1 (tc1_MaxTraceBytes base) \<and>
     tc1_Timeout cfg = layer (given ''timeout'') (fl_Timeout fl) (env ''TIMEOUT'') (parseDuration1 (ce_parseDuration ce)) (tc1_Timeout base) \<and>
     tc1_PolicyVersion cfg = layer (given ''policy-version'') (fl_PolicyVersion fl) (env ''POLICY_VERSION'') (\<lambda>v. v) (tc1_PolicyVersion base) \<and>
     tc1_OutputPath cfg = layer (given ''output'') (fl_OutputPath fl) (env ''OUTPUT'') (\<lambda>v. v) (tc1_OutputPath base) \<and>
     tc1_TraceOutputPath cfg = layer (given ''trace-output'') (fl_TraceOutputPath fl) (env ''TRACE_OUTPUT'') (\<lambda>v. v) (tc1_TraceOutputPath base) \<and>
     tc1_ChainID cfg = layer (given ''chain-id'') (parseBigInt1 (fl_ChainID fl)) (env ''CHAIN_ID'') parseBigInt1 (tc1_ChainID base) \<and>
     tc1_Strict cfg = (if given ''strict'' then fl_Strict fl else tc1_Strict base) \<and>
     tc1_RejectOnPartialDecode cfg = (if given ''reject-on-partial-decode'' then fl_RejectOnPartial fl else tc1_RejectOnPartialDecode base) \<and>
     tc1_AllowHeadDrift cfg = (if given ''allow-head-drift'' then fl_AllowHeadDrift fl else tc1_AllowHeadDrift base) \<and>
     tc1_IncludeQueued cfg = (if given ''include-queued'' then fl_IncludeQueued fl else tc1_IncludeQueued base) \<and>
     tc1_NoWrite cfg = (if given ''no-write'' then fl_NoWrite fl else tc1_NoWrite base))"

text \<open>What the run relies on.\<close>

definition cfg1_ok :: "TxConfig1 \<Rightarrow> bool" where
  "cfg1_ok cfg \<longleftrightarrow> 0 < tc1_Timeout cfg \<and> 0 < tc1_MaxTransactions cfg \<and> 0 < tc1_MaxGas cfg \<and> 0 < tc1_MaxRawSnapshotBytes cfg \<and>
     0 < tc1_MaxArtifactBytes cfg \<and> 0 < tc1_MaxTraceBytes cfg \<and> tc1_PolicyVersion cfg \<noteq> [] \<and> TrimSpace (tc1_RPCURL cfg) \<noteq> [] \<and>
     (tc1_ReplaySnapshotPath cfg = [] \<longrightarrow> tc1_ChainID cfg \<noteq> None) \<and>
     (\<not> tc1_NoWrite cfg \<longrightarrow> tc1_OutputPath cfg \<noteq> [] \<and> tc1_TraceOutputPath cfg \<noteq> [] \<and> tc1_SnapshotOutputPath cfg \<noteq> [])"

lemma Validate1_ok: "Validate1 ce cfg = None \<Longrightarrow> cfg1_ok cfg"
  by (auto simp: Validate1_def cfg1_ok_def not_le word_neq_0_conv split: if_splits)

definition config_path :: "cfg_env1 \<Rightarrow> TxFlags1 \<Rightarrow> string" where
  "config_path ce fl = cfg_firstNonEmpty [fl_config fl, ce_getenv ce ''TXPOOL_BUILDER_CONFIG'']"

lemma Load1_cfg_fields:
  assumes "Load1_cfg ce (Inr fl) = Inr cfg"
  shows "cfg1_ok cfg \<and> (\<exists>base. loadConfigFile ce (config_path ce fl) (fl_Strict fl) (''strict'' \<in> set (fl_visited fl)) = Inr base \<and>
    cfg1_layers ce fl base cfg)"
proof -
  let ?load = "loadConfigFile ce (config_path ce fl) (fl_Strict fl) (''strict'' \<in> set (fl_visited fl))"
  obtain base where l: "?load = Inr base"
    using assms by (cases ?load) (simp_all add: Load1_cfg_def config_path_def)
  then have c: "cfg = merge_layers ce fl (config_path ce fl) base" and "Validate1 ce cfg = None"
    using assms unfolding Load1_cfg_def Let_def config_path_def [symmetric] by (simp_all split: option.splits)
  moreover have "cfg1_layers ce fl base cfg"
    using overlay_fields [where ce = ce and base = base and path = "config_path ce fl" and fl = fl]
    unfolding c cfg1_layers_def Let_def merge_layers_def by (simp add: set_if_other_fields)
  ultimately show ?thesis using l Validate1_ok by blast
qed

section \<open>Properties\<close>

definition demo_fl :: TxFlags1 where
  "demo_fl = \<lparr> fl_visited = [''rpc-url'', ''timeout'', ''max-transactions'', ''max-gas'', ''max-snapshot-txs'', ''max-raw-snapshot-bytes'',
       ''max-artifact-bytes'', ''max-trace-bytes'', ''policy-version'', ''chain-id'', ''no-write''],
     fl_config = [], fl_RPCURL = ''u'', fl_OutputPath = [], fl_TraceOutputPath = [], fl_SnapshotOutputPath = [],
     fl_ReplaySnapshotPath = [], fl_CompareCandidatePath = [], fl_Timeout = second, fl_MaxTransactions = 2, fl_MaxGas = 50000,
     fl_MaxSnapshotTxs = 9, fl_MaxRawSnapshotBytes = 100, fl_MaxArtifactBytes = 90, fl_MaxTraceBytes = 90, fl_PolicyVersion = ''v1'',
     fl_ChainID = ''0x1'', fl_Strict = True, fl_RejectOnPartial = True, fl_AllowHeadDrift = False, fl_IncludeQueued = False,
     fl_NoWrite = True, fl_DryRunConfig = False, fl_PrintConfig = False, fl_Version = False \<rparr>"

definition demo_ce :: cfg_env1 where
  "demo_ce = \<lparr> ce_readFile = (\<lambda>_. Inl ''no file''), ce_probeStrict = (\<lambda>_. None), ce_keys = (\<lambda>_. Inr []), ce_unmarshal = (\<lambda>_. Inl ''no file''),
     ce_quote = (\<lambda>s. s),
     ce_getenv = (\<lambda>_. []),
     ce_parseDuration = (\<lambda>_. None), ce_dir = (\<lambda>_. ''.''), ce_mkdirAll = (\<lambda>_. None) \<rparr>"

lemma demo_loads: "\<exists>cfg. Load1_cfg demo_ce (Inr demo_fl) = Inr cfg"
proof -
  have "\<not> isl (Load1_cfg demo_ce (Inr demo_fl))" by code_simp
  then show ?thesis by (cases "Load1_cfg demo_ce (Inr demo_fl)") auto
qed

text \<open>
  Every setting of a configuration that loads is that of the flag if the flag was given, else what the variable reads as if it
  is set, else that of the file, and a configuration that loads has the bounds, the endpoint, the chain and the paths that the run relies on.
\<close>

theorem v1_config_layers:
  assumes "Load1_cfg ce (Inr fl) = Inr cfg"
  shows "\<exists>base. loadConfigFile ce (config_path ce fl) (fl_Strict fl) (''strict'' \<in> set (fl_visited fl)) = Inr base \<and>
    cfg1_layers ce fl base cfg \<and> cfg1_ok cfg"
  using Load1_cfg_fields [OF assms] by blast

theorem v1_config_layers_witness:
  "\<exists>cfg base. Load1_cfg demo_ce (Inr demo_fl) = Inr cfg \<and> cfg1_layers demo_ce demo_fl base cfg \<and> cfg1_ok cfg"
  using demo_loads v1_config_layers by blast

section \<open>Findings\<close>

text \<open>Neither the strictness nor the tolerance of bad transactions is on by default, although their flags default to true.\<close>

lemma defaults_are_off:
  assumes "Load1_cfg ce (Inr fl) = Inr cfg" and "TrimSpace (config_path ce fl) = []"
    and "''strict'' \<notin> set (fl_visited fl)" and "''reject-on-partial-decode'' \<notin> set (fl_visited fl)"
  shows "\<not> tc1_Strict cfg \<and> \<not> tc1_RejectOnPartialDecode cfg"
  using Load1_cfg_fields [OF assms(1)] assms(2-4) by (auto simp: loadConfigFile_def cfg1_layers_def zero_cfg1_def Let_def)

text \<open>A replay needs the address of a node it never calls.\<close>

lemma replay_needs_an_endpoint:
  assumes "TrimSpace (tc1_RPCURL cfg) = []"
  shows "Validate1 ce cfg \<noteq> None"
  using assms Validate1_ok by (auto simp: cfg1_ok_def)

end
