(* ===== verification/Tx1_Run.thy ===== *)
theory Tx1_Run
  imports Tx1_Select Tx1_Config
begin

text \<open>
  A run of the first version of the builder: \<^verbatim>\<open>rpc/rpc.go\<close>, the capture of a snapshot and the run of \<^verbatim>\<open>run/execute.go\<close>, the files
  of \<^verbatim>\<open>run/io.go\<close>, and the exit code of \<^verbatim>\<open>cmd/builder/main.go\<close>.

  The node answers each call as it likes: the first argument of a field of \<open>rpc_caller1\<close> is the position of the call in the run.
  Every call of the file system may fail, as \<open>write_ops1\<close> says. The clock is read at fixed positions of a run.
\<close>

section \<open>The node\<close>

record rpc_caller1 =
  r1_string :: "nat \<Rightarrow> string \<Rightarrow> string + string"
  r1_raw :: "nat \<Rightarrow> string \<Rightarrow> string + string"
  r1_header :: "nat \<Rightarrow> string \<Rightarrow> string \<Rightarrow> string + BlockHeader1"

definition parseBigIntString1 :: "string \<Rightarrow> string + int" where
  "parseBigIntString1 s0 =
     (let s = TrimSpace s0 in
      if s = [] then Inl ''empty hex number''
      else if HasPrefix s ''0x'' \<or> HasPrefix s ''0X''
      then (case SetString 16 (drop 2 s) of None \<Rightarrow> Inl (''invalid hex number: '' @ s) | Some n \<Rightarrow> Inr n)
      else (case SetString 10 s of None \<Rightarrow> Inl (''invalid number: '' @ s) | Some n \<Rightarrow> Inr n))"

definition EndpointLabel1 :: "(string \<Rightarrow> string) \<Rightarrow> string \<Rightarrow> string" where
  "EndpointLabel1 sha256hex url = take 16 (sha256hex url)"

definition ChainID1 :: "rpc_caller1 \<Rightarrow> nat \<Rightarrow> string + int" where
  "ChainID1 c i = (case r1_string c i ''eth_chainId'' of Inl err \<Rightarrow> Inl err | Inr raw \<Rightarrow> parseBigIntString1 raw)"

definition BlockNumber1 :: "rpc_caller1 \<Rightarrow> nat \<Rightarrow> string + int" where
  "BlockNumber1 c i = (case r1_string c i ''eth_blockNumber'' of Inl err \<Rightarrow> Inl err | Inr raw \<Rightarrow> parseBigIntString1 raw)"

definition Syncing1 :: "rpc_caller1 \<Rightarrow> nat \<Rightarrow> string + bool" where
  "Syncing1 c i = (case r1_raw c i ''eth_syncing'' of
       Inl err \<Rightarrow> Inl err
     | Inr raw \<Rightarrow> if raw = [] \<or> raw = ''false'' then Inr False else if raw = ''true'' then Inr True else Inr True)"

definition ClientVersion1 :: "rpc_caller1 \<Rightarrow> nat \<Rightarrow> string + string" where
  "ClientVersion1 c i = r1_string c i ''web3_clientVersion''"

definition BlockHeaderByNumber1 :: "rpc_caller1 \<Rightarrow> nat \<Rightarrow> string \<Rightarrow> string + BlockHeader1" where
  "BlockHeaderByNumber1 c i number = r1_header c i ''eth_getBlockByNumber'' number"

section \<open>Files\<close>

type_synonym files1 = "(string, string) gomap"

text \<open>The outcome of each call that writes a file: the temporary file's path, and what a failing write left in it.\<close>

record write_ops1 =
  wo_mkdir :: "string option"
  wo_create :: "string + string"
  wo_write :: "(string \<times> string) option"
  wo_close :: "string option"
  wo_rename :: "string option"
  wo_remove :: bool

definition remove_tmp :: "write_ops1 \<Rightarrow> string \<Rightarrow> files1 \<Rightarrow> files1" where
  "remove_tmp wo tmp fs = (if wo_remove wo then gm_del fs tmp else fs)"

definition ensureWritable :: "write_ops1 \<Rightarrow> files1 \<Rightarrow> string option \<times> files1" where
  "ensureWritable wo fs =
     (case wo_mkdir wo of
        Some err \<Rightarrow> (Some err, fs)
      | None \<Rightarrow> (case wo_create wo of
          Inl err \<Rightarrow> (Some err, fs)
        | Inr name \<Rightarrow> (None, remove_tmp wo name (gm_set fs name []))))"

definition writeAtomic :: "write_ops1 \<Rightarrow> string \<Rightarrow> string + string \<Rightarrow> int \<Rightarrow> files1 \<Rightarrow> string option \<times> files1" where
  "writeAtomic wo path marshalled maxBytes fs =
     (case marshalled of
        Inl err \<Rightarrow> (Some err, fs)
      | Inr data \<Rightarrow>
          if maxBytes > 0 \<and> int (length data) > maxBytes then (Some ''artifact exceeds max bytes'', fs)
          else case wo_mkdir wo of
            Some err \<Rightarrow> (Some err, fs)
          | None \<Rightarrow> (case wo_create wo of
              Inl err \<Rightarrow> (Some err, fs)
            | Inr tmp \<Rightarrow> (case wo_write wo of
                Some (err, part) \<Rightarrow> (Some err, remove_tmp wo tmp (gm_set fs tmp part))
              | None \<Rightarrow> (case wo_close wo of
                  Some err \<Rightarrow> (Some err, remove_tmp wo tmp (gm_set fs tmp data))
                | None \<Rightarrow> (case wo_rename wo of
                    Some err \<Rightarrow> (Some err, remove_tmp wo tmp (gm_set fs tmp data))
                  | None \<Rightarrow> (None, gm_set (gm_del fs tmp) path data))))))"

definition writeSnapshot :: "write_ops1 \<Rightarrow> string \<Rightarrow> string + string \<Rightarrow> int \<Rightarrow> files1 \<Rightarrow> string option \<times> files1" where
  "writeSnapshot wo path marshalled maxBytes fs = writeAtomic wo path marshalled maxBytes fs"

definition validateLoadedSnapshot :: "canonicalSnapshot \<Rightarrow> string option" where
  "validateLoadedSnapshot snap =
     (if cs1_SchemaVersion snap \<noteq> 1 then Some ''unsupported snapshot schema version''
      else if cs1_SnapshotID snap = [] then Some ''missing snapshot id''
      else if cs1_SourceEndpointLabel snap = [] then Some ''missing source endpoint label''
      else if cs1_ChainID snap = [] then Some ''missing chain id''
      else if cs1_RawPayloadDigest snap = [] then Some ''missing raw payload digest''
      else if cs1_Pending snap = [] \<and> cs1_Queued snap = [] then Some ''empty replay snapshot''
      else None)"

text \<open>What a run takes from outside the model.\<close>

record run_env1 =
  re_rpc :: rpc_caller1
  re_sha :: "string \<Rightarrow> string"
  re_unmarshalPool :: "string \<Rightarrow> string + (json_pool option \<times> json_pool option)"
  re_orders :: pool_orders1
  re_bySender :: "(string \<times> Transaction1 list) list \<Rightarrow> (string \<times> Transaction1 list) list"
  re_marshalFingerprint :: "snapshotFingerprint1 \<Rightarrow> string"
  re_marshalConfig :: "DigestConfig1 \<Rightarrow> string"
  re_durString :: "duration \<Rightarrow> string"
  re_marshalSnapshot :: "canonicalSnapshot \<Rightarrow> string + string"
  re_unmarshalSnapshot :: "string \<Rightarrow> string + canonicalSnapshot"
  re_marshalCandidate :: "BlockCandidate1 \<Rightarrow> string + string"
  re_marshalTrace :: "DecisionTrace1 \<Rightarrow> string + string"
  re_read :: "string \<Rightarrow> string option"
  re_ops :: "nat \<Rightarrow> write_ops1"

text \<open>\<^verbatim>\<open>os.ReadFile\<close>: it may fail on a file that is there.\<close>

definition readFile1 :: "run_env1 \<Rightarrow> string \<Rightarrow> files1 \<Rightarrow> string + string" where
  "readFile1 ev path fs =
     (case re_read ev path of
        Some err \<Rightarrow> Inl err
      | None \<Rightarrow> (case gm_get fs path of None \<Rightarrow> Inl ''no such file or directory'' | Some b \<Rightarrow> Inr b))"

definition loadSnapshot :: "run_env1 \<Rightarrow> string \<Rightarrow> files1 \<Rightarrow> string + canonicalSnapshot" where
  "loadSnapshot ev path fs =
     (case readFile1 ev path fs of
        Inl err \<Rightarrow> Inl err
      | Inr b \<Rightarrow> (case re_unmarshalSnapshot ev b of
          Inl err \<Rightarrow> Inl err
        | Inr snap \<Rightarrow> (case validateLoadedSnapshot snap of Some err \<Rightarrow> Inl err | None \<Rightarrow> Inr snap)))"

section \<open>Capturing a snapshot\<close>

record StartupInfo1 =
  su1_EndpointLabel :: string
  su1_ChainID :: int
  su1_ClientVersion :: string
  su1_BlockNumber :: int
  su1_Syncing :: bool

text \<open>The outer \<open>None\<close> is the panic of comparing with a nil chain identifier.\<close>

definition startupChecks :: "run_env1 \<Rightarrow> TxConfig1 \<Rightarrow> (run_error + StartupInfo1) option" where
  "startupChecks ev cfg =
     (let c = re_rpc ev; fail = (\<lambda>code detail err. Some (Inl (startup_error code ''startup'' detail err))) in
      case ChainID1 c 0 of
        Inl err \<Rightarrow> fail R1RPCUnavailable ''failed to fetch chain id'' (Some err)
      | Inr chainID \<Rightarrow>
          (case tc1_ChainID cfg of
             None \<Rightarrow> None
           | Some want \<Rightarrow>
               if chainID \<noteq> want
               then fail R1ChainIDMismatch (''expected '' @ show_int 10 want @ '' got '' @ show_int 10 chainID) None
               else case Syncing1 c 1 of
                 Inl err \<Rightarrow> fail R1RPCUnavailable ''failed to fetch syncing status'' (Some err)
               | Inr syncing \<Rightarrow>
                   if syncing then fail R1SyncingNode ''node is syncing'' None
                   else case BlockNumber1 c 2 of
                     Inl err \<Rightarrow> fail R1RPCUnavailable ''failed to fetch block number'' (Some err)
                   | Inr blockNumber \<Rightarrow>
                       Some (Inr \<lparr> su1_EndpointLabel = EndpointLabel1 (re_sha ev) (tc1_RPCURL cfg), su1_ChainID = chainID,
                         su1_ClientVersion = (case ClientVersion1 c 3 of Inr v \<Rightarrow> v | Inl _ \<Rightarrow> []),
                         su1_BlockNumber = blockNumber, su1_Syncing = syncing \<rparr>)))"

definition snapshotFingerprintFrom1 :: "canonicalSnapshot \<Rightarrow> snapshotFingerprint1" where
  "snapshotFingerprintFrom1 s = \<lparr> fp1_SchemaVersion = cs1_SchemaVersion s, fp1_SourceEndpointLabel = cs1_SourceEndpointLabel s,
     fp1_HeadBefore = cs1_HeadBefore s, fp1_HeadAfter = cs1_HeadAfter s, fp1_HeadDrift = cs1_HeadDrift s, fp1_ChainID = cs1_ChainID s,
     fp1_ClientVersion = cs1_ClientVersion s, fp1_RawPayloadDigest = cs1_RawPayloadDigest s, fp1_RawPendingCount = cs1_RawPendingCount s,
     fp1_RawQueuedCount = cs1_RawQueuedCount s, fp1_Pending = cs1_Pending s, fp1_Queued = cs1_Queued s,
     fp1_RawSnapshotSize = cs1_RawSnapshotSize s \<rparr>"

definition digestBytes1 :: "(string \<Rightarrow> string) \<Rightarrow> string \<Rightarrow> string" where
  "digestBytes1 sha256hex raw = sha256hex raw"

definition digestCanonical1 :: "(string \<Rightarrow> string) \<Rightarrow> ('v \<Rightarrow> string) \<Rightarrow> 'v \<Rightarrow> string" where
  "digestCanonical1 sha256hex marshal v = sha256hex (marshal v)"

definition zero_trace1 :: DecisionTrace1 where
  "zero_trace1 = \<lparr> dt1_SchemaVersion = 0, dt1_TraceID = [], dt1_SnapshotID = [], dt1_CandidateID = [], dt1_PolicyVersion = [],
     dt1_BinaryVersion = [], dt1_ConfigDigest = [], dt1_SourceEndpointLabel = [], dt1_ChainID = [], dt1_DecodeFailures = [],
     dt1_ValidationFailures = [], dt1_PolicyRejections = [], dt1_CapacityExclusions = [], dt1_Accepted = [], dt1_RankingOrder = [],
     dt1_SelectionOrder = [], dt1_ReasonCodeSummary = [], dt1_SelectionStopReason = [], dt1_FinalSummary = [], dt1_CreatedAt = 0,
     dt1_ReplayMode = False \<rparr>"

definition traceFromSnapshot :: "(string \<Rightarrow> string) \<Rightarrow> gtime \<Rightarrow> canonicalSnapshot \<Rightarrow> string \<Rightarrow> DecisionTrace1" where
  "traceFromSnapshot sha256hex now snapshot cfgDigest = zero_trace1\<lparr> dt1_SchemaVersion := 1,
     dt1_TraceID := deterministicID1 sha256hex [''trace'', cs1_SnapshotID snapshot, cfgDigest, ''replay''],
     dt1_SnapshotID := cs1_SnapshotID snapshot, dt1_BinaryVersion := tx1_BinaryVersion, dt1_ConfigDigest := cfgDigest,
     dt1_SourceEndpointLabel := cs1_SourceEndpointLabel snapshot, dt1_ChainID := cs1_ChainID snapshot, dt1_CreatedAt := now,
     dt1_ReplayMode := True \<rparr>"

text \<open>The node's answers of one epoch: the header, the raw pool, the head after it.\<close>

definition fetch_epoch :: "run_env1 \<Rightarrow> TxConfig1 \<Rightarrow> StartupInfo1 \<Rightarrow> run_error + (BlockHeader1 \<times> string \<times> int)" where
  "fetch_epoch ev cfg startup =
     (let c = re_rpc ev; fail = (\<lambda>code detail err. Inl (startup_error code ''snapshot'' detail err)) in
      case BlockHeaderByNumber1 c 4 (hexNumber (Some (su1_BlockNumber startup))) of
        Inl err \<Rightarrow> fail R1RPCUnavailable ''failed to fetch latest block header'' (Some err)
      | Inr header \<Rightarrow> (case r1_raw c 5 ''txpool_content'' of
          Inl err \<Rightarrow> fail R1RPCUnsupportedMethod ''txpool_content failed'' (Some err)
        | Inr raw \<Rightarrow>
            if tc1_MaxRawSnapshotBytes cfg > 0 \<and> int (length raw) > tc1_MaxRawSnapshotBytes cfg
            then fail R1SnapshotTooLarge ''raw snapshot exceeds configured maximum'' None
            else case BlockNumber1 c 6 of
              Inl err \<Rightarrow> fail R1RPCUnavailable ''failed to fetch post-snapshot block number'' (Some err)
            | Inr headAfter \<Rightarrow>
                if su1_BlockNumber startup \<noteq> headAfter \<and> tc1_Strict cfg \<and> \<not> tc1_AllowHeadDrift cfg
                then fail R1HeadDrift ''head changed during snapshot fetch'' None
                else Inr (header, raw, headAfter)))"

text \<open>Both pools; the queued one only on request.\<close>

definition normalize_both ::
  "run_env1 \<Rightarrow> TxConfig1 \<Rightarrow> json_pool \<times> json_pool \<Rightarrow> BlockHeader1 \<Rightarrow>
     (run_error + ((Transaction1 list \<times> decisionBuckets) \<times> (Transaction1 list \<times> decisionBuckets))) option" where
  "normalize_both ev cfg pool header =
     (case normalizePool1 (re_orders ev) (fst pool) cfg header ''pending'' of
        None \<Rightarrow> None
      | Some (Inl err) \<Rightarrow> Some (Inl err)
      | Some (Inr pending) \<Rightarrow>
          if tc1_IncludeQueued cfg
          then (case normalizePool1 (re_orders ev) (snd pool) cfg header ''queued'' of
                  None \<Rightarrow> None
                | Some (Inl err) \<Rightarrow> Some (Inl err)
                | Some (Inr queued) \<Rightarrow> Some (Inr (pending, queued)))
          else Some (Inr (pending, ([], zero_buckets))))"

definition capture_trace :: "DecisionTrace1 \<Rightarrow> string \<Rightarrow> Transaction1 list \<times> decisionBuckets \<Rightarrow> Transaction1 list \<times> decisionBuckets \<Rightarrow> DecisionTrace1" where
  "capture_trace trace0 snapshotID pending queued =
     (let p = snd pending; q = snd queued;
          trace = trace0\<lparr> dt1_SnapshotID := snapshotID, dt1_DecodeFailures := db_DecodeFailures p,
            dt1_ValidationFailures := db_ValidationFailures p,
            dt1_PolicyRejections := db_PolicyRejections p @ db_PolicyRejections q,
            dt1_CapacityExclusions := db_CapacityExclusions p @ db_CapacityExclusions q,
            dt1_Accepted := db_Accepted p @ db_Accepted q,
            dt1_ReasonCodeSummary := mergeReasonSummary (mergeReasonSummary [] p) q \<rparr>;
          rejected = length (dt1_DecodeFailures trace) + length (dt1_ValidationFailures trace)
            + length (dt1_PolicyRejections trace) + length (dt1_CapacityExclusions trace)
      in trace\<lparr> dt1_FinalSummary := ''pending='' @ show_nat 10 (length (fst pending)) @ '' queued='' @ show_nat 10 (length (fst queued))
              @ '' accepted='' @ show_nat 10 (length (dt1_Accepted trace)) @ '' rejected='' @ show_nat 10 rejected,
            dt1_SelectionStopReason := ''pending-to-selection'' \<rparr>)"

definition captureSnapshot ::
  "run_env1 \<Rightarrow> (nat \<Rightarrow> gtime) \<Rightarrow> TxConfig1 \<Rightarrow> StartupInfo1 \<Rightarrow> string \<Rightarrow> (run_error + (canonicalSnapshot \<times> DecisionTrace1)) option" where
  "captureSnapshot ev clk cfg startup cfgDigest =
     (let trace0 = zero_trace1\<lparr> dt1_SchemaVersion := 1,
            dt1_TraceID := deterministicID1 (re_sha ev) [''trace'', cfgDigest, su1_EndpointLabel startup, show_int 10 (su1_BlockNumber startup)],
            dt1_PolicyVersion := tc1_PolicyVersion cfg, dt1_BinaryVersion := tx1_BinaryVersion, dt1_ConfigDigest := cfgDigest,
            dt1_SourceEndpointLabel := su1_EndpointLabel startup, dt1_ChainID := show_int 10 (su1_ChainID startup), dt1_CreatedAt := clk 1 \<rparr>
      in case fetch_epoch ev cfg startup of
           Inl err \<Rightarrow> Some (Inl err)
         | Inr (header, raw, headAfter) \<Rightarrow>
             (case decodePool1 (re_unmarshalPool ev) raw of
                Inl err \<Rightarrow> Some (Inl (startup_error R1RPCSchemaError ''decode'' ''failed to decode txpool_content'' (Some err)))
              | Inr pool \<Rightarrow> (case normalize_both ev cfg pool header of
                  None \<Rightarrow> None
                | Some (Inl err) \<Rightarrow> Some (Inl err)
                | Some (Inr (pending, queued)) \<Rightarrow>
                    (let snapshot0 = \<lparr> cs1_SchemaVersion = 1, cs1_SnapshotID = [], cs1_SourceEndpointLabel = su1_EndpointLabel startup,
                           cs1_CapturedAt = clk 4, cs1_HeadBefore = show_int 10 (su1_BlockNumber startup),
                           cs1_HeadAfter = show_int 10 headAfter, cs1_HeadDrift = (su1_BlockNumber startup \<noteq> headAfter),
                           cs1_ChainID = show_int 10 (su1_ChainID startup), cs1_ClientVersion = su1_ClientVersion startup,
                           cs1_FetchDurationMS = go_div (time_sub (clk 3) (clk 2)) millisecond,
                           cs1_RawPayloadDigest = digestBytes1 (re_sha ev) raw, cs1_RawPendingCount = countPoolEntries (fst pool),
                           cs1_RawQueuedCount = countPoolEntries (snd pool), cs1_Pending = fst pending, cs1_Queued = fst queued,
                           cs1_RawSnapshotPath = [], cs1_RawSnapshotSize = int (length raw) \<rparr>;
                         snapshot = snapshot0\<lparr> cs1_SnapshotID :=
                           digestCanonical1 (re_sha ev) (re_marshalFingerprint ev) (snapshotFingerprintFrom1 snapshot0) \<rparr>
                     in Some (Inr (snapshot, capture_trace trace0 (cs1_SnapshotID snapshot) pending queued))))))"

section \<open>The run\<close>

record Result1 =
  rs_ConfigDigest :: string
  rs_Candidate :: BlockCandidate1
  rs_Trace :: DecisionTrace1
  rs_Snapshot :: canonicalSnapshot
  rs_Replay :: bool

definition config_digest1 :: "run_env1 \<Rightarrow> TxConfig1 \<Rightarrow> string" where
  "config_digest1 ev cfg = Digest1 (re_sha ev) (re_marshalConfig ev) (re_durString ev) cfg"

text \<open>The paths are tried out before anything else.\<close>

definition check_outputs :: "run_env1 \<Rightarrow> TxConfig1 \<Rightarrow> files1 \<Rightarrow> run_error option \<times> files1" where
  "check_outputs ev cfg fs =
     (if tc1_NoWrite cfg then (None, fs)
      else case ensureWritable (re_ops ev 0) fs of
        (Some err, fs) \<Rightarrow> (Some (startup_error R1ArtifactWriteFailed ''startup'' ''candidate output path not writable'' (Some err)), fs)
      | (None, fs) \<Rightarrow> (case ensureWritable (re_ops ev 1) fs of
          (Some err, fs) \<Rightarrow> (Some (startup_error R1TraceWriteFailed ''startup'' ''trace output path not writable'' (Some err)), fs)
        | (None, fs) \<Rightarrow> (case ensureWritable (re_ops ev 2) fs of
            (Some err, fs) \<Rightarrow> (Some (startup_error R1SnapshotTooLarge ''startup'' ''snapshot output path not writable'' (Some err)), fs)
          | (None, fs) \<Rightarrow> (None, fs))))"

definition obtain_snapshot ::
  "run_env1 \<Rightarrow> (nat \<Rightarrow> gtime) \<Rightarrow> TxConfig1 \<Rightarrow> string \<Rightarrow> files1 \<Rightarrow> (run_error + (canonicalSnapshot \<times> DecisionTrace1 \<times> bool)) option" where
  "obtain_snapshot ev clk cfg cfgDigest fs =
     (if tc1_ReplaySnapshotPath cfg \<noteq> []
      then (case loadSnapshot ev (tc1_ReplaySnapshotPath cfg) fs of
              Inl err \<Rightarrow> Some (Inl (startup_error R1RPCSchemaError ''replay'' ''failed to load replay snapshot'' (Some err)))
            | Inr snap \<Rightarrow>
                (let snap = snap\<lparr> cs1_RawSnapshotPath := tc1_ReplaySnapshotPath cfg \<rparr>
                 in Some (Inr (snap, traceFromSnapshot (re_sha ev) (clk 1) snap cfgDigest, True))))
      else (case startupChecks ev cfg of
              None \<Rightarrow> None
            | Some (Inl err) \<Rightarrow> Some (Inl err)
            | Some (Inr startup) \<Rightarrow>
                (case captureSnapshot ev clk cfg startup cfgDigest of
                   None \<Rightarrow> None
                 | Some (Inl err) \<Rightarrow> Some (Inl err)
                 | Some (Inr (snap, trace)) \<Rightarrow> Some (Inr (snap, trace, False)))))"

definition persist_run ::
  "run_env1 \<Rightarrow> TxConfig1 \<Rightarrow> canonicalSnapshot \<Rightarrow> BlockCandidate1 \<Rightarrow> DecisionTrace1 \<Rightarrow> files1 \<Rightarrow> run_error option \<times> files1" where
  "persist_run ev cfg snapshot candidate trace fs =
     (case writeSnapshot (re_ops ev 3) (tc1_SnapshotOutputPath cfg) (re_marshalSnapshot ev snapshot) (tc1_MaxRawSnapshotBytes cfg) fs of
        (Some err, fs) \<Rightarrow> (Some (startup_error R1ArtifactWriteFailed ''persist'' ''snapshot write failed'' (Some err)), fs)
      | (None, fs) \<Rightarrow> (case writeAtomic (re_ops ev 4) (tc1_OutputPath cfg) (re_marshalCandidate ev candidate) (tc1_MaxArtifactBytes cfg) fs of
          (Some err, fs) \<Rightarrow> (Some (startup_error R1ArtifactWriteFailed ''persist'' ''candidate write failed'' (Some err)), fs)
        | (None, fs) \<Rightarrow> (case writeAtomic (re_ops ev 5) (tc1_TraceOutputPath cfg) (re_marshalTrace ev trace) (tc1_MaxTraceBytes cfg) fs of
            (Some err, fs) \<Rightarrow> (Some (startup_error R1TraceWriteFailed ''persist'' ''trace write failed'' (Some err)), fs)
          | (None, fs) \<Rightarrow> (None, fs))))"

text \<open>The first component is \<open>None\<close> when the run panics.\<close>

definition Execute :: "run_env1 \<Rightarrow> (nat \<Rightarrow> gtime) \<Rightarrow> TxConfig1 \<Rightarrow> files1 \<Rightarrow> (run_error + Result1) option \<times> files1" where
  "Execute ev clk cfg fs0 =
     (let cfgDigest = config_digest1 ev cfg in
      case check_outputs ev cfg fs0 of
        (Some err, fs) \<Rightarrow> (Some (Inl err), fs)
      | (None, fs) \<Rightarrow>
          (case obtain_snapshot ev clk cfg cfgDigest fs of
             None \<Rightarrow> (None, fs)
           | Some (Inl err) \<Rightarrow> (Some (Inl err), fs)
           | Some (Inr (snapshot, trace, replay)) \<Rightarrow>
               (case buildCandidate1 (re_sha ev) (re_bySender ev) (\<lambda>i. clk (5 + i)) cfg snapshot trace cfgDigest (clk 0) of
                  None \<Rightarrow> (None, fs)
                | Some (candidate, trace) \<Rightarrow>
                    (let result = (\<lambda>snapshot. \<lparr> rs_ConfigDigest = cfgDigest, rs_Candidate = candidate, rs_Trace = trace,
                           rs_Snapshot = snapshot, rs_Replay = replay \<rparr>)
                     in if tc1_NoWrite cfg then (Some (Inr (result snapshot)), fs)
                        else let snapshot = snapshot\<lparr> cs1_RawSnapshotPath := tc1_SnapshotOutputPath cfg \<rparr> in
                          case persist_run ev cfg snapshot candidate trace fs of
                            (Some err, fs) \<Rightarrow> (Some (Inl err), fs)
                          | (None, fs) \<Rightarrow> (Some (Inr (result snapshot)), fs)))))"

section \<open>Comparing candidates, exit codes\<close>

definition compareCandidates :: "BlockCandidate1 \<Rightarrow> BlockCandidate1 \<Rightarrow> string list" where
  "compareCandidates a b =
     concat (map (\<lambda>(name, differ). if differ then [name] else [])
       [(''snapshot_id'', bc1_SnapshotID a \<noteq> bc1_SnapshotID b),
        (''policy_version'', bc1_PolicyVersion a \<noteq> bc1_PolicyVersion b),
        (''binary_version'', bc1_BinaryVersion a \<noteq> bc1_BinaryVersion b),
        (''config_digest'', bc1_ConfigDigest a \<noteq> bc1_ConfigDigest b),
        (''tx_count'', bc1_TxCount a \<noteq> bc1_TxCount b),
        (''total_gas'', bc1_TotalGas a \<noteq> bc1_TotalGas b),
        (''estimated_priority_revenue'', bc1_EstimatedPriorityRevenue a \<noteq> bc1_EstimatedPriorityRevenue b),
        (''selection_stop_reason'', bc1_SelectionStopReason a \<noteq> bc1_SelectionStopReason b),
        (''selected_order'', Join (bc1_SelectedOrder a) '','' \<noteq> Join (bc1_SelectedOrder b) '',''),
        (''selected_tx_hashes'', Join (bc1_SelectedTxHashes a) '','' \<noteq> Join (bc1_SelectedTxHashes b) '','')])"

record ComparisonResult1 =
  cr_Match :: bool
  cr_Differences :: "string list"

definition CompareCandidateArtifact ::
  "run_env1 \<Rightarrow> (string \<Rightarrow> string + BlockCandidate1) \<Rightarrow> string \<Rightarrow> BlockCandidate1 \<Rightarrow> files1 \<Rightarrow> string + ComparisonResult1 option" where
  "CompareCandidateArtifact ev unmarshalCandidate path candidate fs =
     (if TrimSpace path = [] then Inr None
      else case readFile1 ev path fs of
        Inl err \<Rightarrow> Inl err
      | Inr b \<Rightarrow> (case unmarshalCandidate b of
          Inl err \<Rightarrow> Inl err
        | Inr other \<Rightarrow> (let diff = compareCandidates other candidate in Inr (Some \<lparr> cr_Match = (diff = []), cr_Differences = diff \<rparr>))))"

definition exitCode :: "run_error \<Rightarrow> nat" where
  "exitCode err =
     (let other = (if run_error_text err = ''context deadline exceeded'' then 3 else 1) in
      case err of
        Plain1 _ \<Rightarrow> other
      | Startup1 se \<Rightarrow>
          (let code = se1_Code se in
           if code = R1ConfigError then 2
           else if code \<in> {R1RPCUnavailable, R1RPCTimeout, R1RPCSchemaError, R1RPCUnsupportedMethod, R1ChainIDMismatch, R1SyncingNode, R1HeadDrift} then 3
           else if code \<in> {R1DecodeError, R1UnsupportedTxType, R1MissingField, R1InvalidHex, R1Overflow, R1InvalidAddress, R1InvalidNonce,
             R1NonceGap, R1DuplicateNonce, R1DuplicateTx, R1ReplacementConflict, R1InvalidGasLimit, R1ExceedsBlockGas, R1InvalidFeeModel,
             R1InsufficientEffectiveFee, R1PolicyRejected, R1CapacityExcluded, R1StaleSnapshot} then 4
           else if code \<in> {R1ArtifactWriteFailed, R1TraceWriteFailed} then 5
           else if code \<in> {R1InvariantFailure, R1PanicRecovered} then 6
           else other))"

text \<open>
  The command from the loaded configuration on, by its exit code: a panic is recovered and exits with 70. \<open>dial\<close> is the error of
  connecting to the node. What is printed has no part in it.
\<close>

definition main1 ::
  "run_env1 \<Rightarrow> (string \<Rightarrow> string + BlockCandidate1) \<Rightarrow> (nat \<Rightarrow> gtime) \<Rightarrow> run_error option \<Rightarrow> run_error + TxConfig1 \<Rightarrow> files1 \<Rightarrow> nat \<times> files1" where
  "main1 ev unmarshalCandidate clk dial loaded fs =
     (case loaded of
        Inl err \<Rightarrow> (exitCode err, fs)
      | Inr cfg \<Rightarrow>
          if tc1_Version cfg \<or> tc1_PrintConfig cfg \<or> tc1_DryRunConfig cfg then (0, fs)
          else if tc1_ReplaySnapshotPath cfg = [] \<and> dial \<noteq> None then (exitCode (the dial), fs)
          else case Execute ev clk cfg fs of
            (None, fs) \<Rightarrow> (70, fs)
          | (Some (Inl err), fs) \<Rightarrow> (exitCode err, fs)
          | (Some (Inr result), fs) \<Rightarrow>
              if tc1_CompareCandidatePath cfg = [] then (0, fs)
              else case CompareCandidateArtifact ev unmarshalCandidate (tc1_CompareCandidatePath cfg) (rs_Candidate result) fs of
                Inl err \<Rightarrow> (exitCode (Plain1 err), fs)
              | Inr None \<Rightarrow> (70, fs)
              | Inr (Some cr) \<Rightarrow> if cr_Match cr then (0, fs) else (1, fs))"

end
