(* ===== verification/Tx1_Props.thy ===== *)
theory Tx1_Props
  imports Tx1_Run
begin

text \<open>
  What a run of the first version of the builder guarantees: it never panics on what a node may answer, its candidate is within the bounds and keeps the order of each
  sender's nonces; each of its files is whole; and a replay of the snapshot it wrote selects the same transactions. The last part
  holds what the code does against its documentation.
\<close>

section \<open>Selection without distinct hashes\<close>

lemma select_loop_some:
  assumes "\<And>g. g \<in> set groups \<Longrightarrow> list_all (\<lambda>t. tx1_Score t \<noteq> None) (sg_Txs g)"
    and "set (ss_selected s) \<subseteq> T" and "\<And>g. g \<in> set groups \<Longrightarrow> set (sg_Txs g) \<subseteq> T"
  shows "\<exists>s'. select_loop m groups s = Some s' \<and> set (ss_selected s') \<subseteq> T"
  using assms
proof (induction m groups s rule: select_loop.induct)
  case (1 m groups s)
  let ?c = "head_candidates groups (ss_heads s)"
  note eq = select_loop.simps [of m groups s]
  have c: "\<exists>g \<in> set groups. t \<in> set (sg_Txs g)" if t: "t \<in> set ?c" for t
  proof -
    obtain g h where gh: "(g, h) \<in> set (zip groups (ss_heads s))" "h < length (sg_Txs g)" "t = sg_Txs g ! h"
      using t by (auto simp: head_candidates_def split: if_splits)
    then show ?thesis using nth_mem set_zip_leftD by metis
  qed
  show ?case
  proof (cases "int (length (ss_selected s)) < m \<and> ?c \<noteq> []")
    case True
    have "list_all (\<lambda>t. tx1_Score t \<noteq> None) ?c" using c "1.prems"(1) unfolding list_all_iff by blast
    then have sn: "same_nil ?c" by (simp add: same_nil_def)
    have "hd (sort_by cand_less ?c) \<in> T" using hd_sort_by_mem True c "1.prems"(3) by blast
    then have "set (ss_selected (select_step1 groups (hd (sort_by cand_less ?c)) s)) \<subseteq> T"
      using "1.prems"(2) by (simp add: select_step1_def Let_def)
    then show ?thesis using "1.IH" [OF _ refl] True sn "1.prems"(1,3) by (simp add: eq)
  qed (use "1.prems"(2) in \<open>auto simp: eq Let_def\<close>)
qed

lemma greedySelect_total:
  assumes "is_order ord" and "list_all (\<lambda>t. tx1_Score t \<noteq> None) all1" and "0 \<le> tc1_MaxTransactions cfg"
  shows "\<exists>s. sel_inv1 cfg s \<and> set (ss_selected s) \<subseteq> set all1 \<and>
    greedySelect ord all1 cfg =
      Some (ss_selected s, \<lparr> sr_Accepted = ss_accepted s, sr_CapacityExclusions = ss_excluded s, sr_ReasonSummary = ss_summary s \<rparr>,
            if ss_selected s = [] \<and> ss_excluded s \<noteq> [] then ''capacity_exhausted'' else ss_stop s, hashesOf1 (ss_selected s))"
proof -
  let ?gs = "map (\<lambda>s. \<lparr> sg_Sender = s, sg_Txs = chain_of all1 s \<rparr>) (senders_of all1)"
  let ?s0 = "\<lparr> ss_selected = [], ss_accepted = [], ss_excluded = [], ss_summary = [], ss_gas = tc1_MaxGas cfg,
      ss_stop = ''no_eligible_candidate'', ss_heads = replicate (length ?gs) 0 \<rparr>"
  have "list_all (\<lambda>t. tx1_Score t \<noteq> None) (sg_Txs g)" and "set (sg_Txs g) \<subseteq> set all1" if "g \<in> set ?gs" for g
    using that assms(2) by (auto simp: list_all_iff)
  then obtain s where s: "select_loop (tc1_MaxTransactions cfg) ?gs ?s0 = Some s" "set (ss_selected s) \<subseteq> set all1"
    using select_loop_some [of ?gs ?s0 "set all1" "tc1_MaxTransactions cfg"] by auto
  have "sel_inv1 cfg ?s0" using assms(3) by (simp add: sel_inv1_def gm_get0_def)
  then have "sel_inv1 cfg s" using select_loop1_inv s(1) by blast
  moreover have "greedySelect ord all1 cfg =
      Some (ss_selected s, \<lparr> sr_Accepted = ss_accepted s, sr_CapacityExclusions = ss_excluded s, sr_ReasonSummary = ss_summary s \<rparr>,
            if ss_selected s = [] \<and> ss_excluded s \<noteq> [] then ''capacity_exhausted'' else ss_stop s, hashesOf1 (ss_selected s))"
    unfolding greedySelect_def sender_groups_scored [OF assms(1,2)] using assms(3) s(1) by simp
  ultimately show ?thesis using s(2) by blast
qed

section \<open>Chains stay in the order of nonces\<close>





lemma pool1_scored: "pool1_ok baseFee bg txs \<Longrightarrow> list_all (\<lambda>t. tx1_Score t \<noteq> None) txs"
  by (auto simp: pool1_ok_def list_all_iff dest: decoded_ok_score)


section \<open>Replaying sees the same transactions\<close>

text \<open>What reading a snapshot back loses: an empty map of metadata is left out of the file.\<close>

definition drop_meta :: "Transaction1 \<Rightarrow> Transaction1" where
  "drop_meta t = t\<lparr> tx1_RawMetadata := None \<rparr>"

definition read_back1 :: "canonicalSnapshot \<Rightarrow> canonicalSnapshot" where
  "read_back1 s = s\<lparr> cs1_Pending := map drop_meta (cs1_Pending s), cs1_Queued := map drop_meta (cs1_Queued s) \<rparr>"

lemma drop_meta_simps [simp]:
  "tx1_Hash (drop_meta t) = tx1_Hash t" "tx1_From (drop_meta t) = tx1_From t" "tx1_Nonce (drop_meta t) = tx1_Nonce t"
  "tx1_GasLimit (drop_meta t) = tx1_GasLimit t" "tx1_Score (drop_meta t) = tx1_Score t"
  "scored_decision1 (drop_meta t) ok code detail stage = scored_decision1 t ok code detail stage"
  by (simp_all add: drop_meta_def scored_decision1_def)

lemma sort_by_drop_meta:
  assumes "\<And>a b. lt (drop_meta a) (drop_meta b) = lt a b"
  shows "sort_by lt (map drop_meta txs) = map drop_meta (sort_by lt txs)"
proof -
  have "insert_by lt (drop_meta x) (map drop_meta ys) = map drop_meta (insert_by lt x ys)" for x ys
    by (induction ys) (simp_all add: assms)
  then show ?thesis by (induction txs) simp_all
qed

lemma less_drop_meta:
  "group_less (drop_meta a) (drop_meta b) = group_less a b" "cand_less (drop_meta a) (drop_meta b) = cand_less a b"
  by (simp_all add: group_less_def cand_less_def score_cmp_def)

lemma chain_of_drop_meta: "chain_of (map drop_meta txs) s = map drop_meta (chain_of txs s)"
proof -
  have "filter (\<lambda>t. tx1_From t = s) (map drop_meta txs) = map drop_meta (filter (\<lambda>t. tx1_From t = s) txs)"
    by (simp add: filter_map comp_def)
  then show ?thesis by (simp add: chain_of_def sort_by_drop_meta less_drop_meta)
qed

lemma senders_of_drop_meta: "senders_of (map drop_meta txs) = senders_of txs"
  by (simp add: senders_of_def comp_def)

definition drop_group :: "senderGroup \<Rightarrow> senderGroup" where
  "drop_group g = \<lparr> sg_Sender = sg_Sender g, sg_Txs = map drop_meta (sg_Txs g) \<rparr>"

lemma sg_Txs_drop [simp]: "sg_Txs (drop_group g) = map drop_meta (sg_Txs g)"
  by (simp add: drop_group_def)

definition drop_state :: "sel_state1 \<Rightarrow> sel_state1" where
  "drop_state s = s\<lparr> ss_selected := map drop_meta (ss_selected s) \<rparr>"

lemma heads_drop:
  "head_candidates (map drop_group gs) hs = map drop_meta (head_candidates gs hs)"
  "close_heads (map drop_group gs) hs hash = close_heads gs hs hash"
  "advance_head (map drop_group gs) hs hash = advance_head gs hs hash"
proof -
  show "head_candidates (map drop_group gs) hs = map drop_meta (head_candidates gs hs)"
    by (induction gs hs rule: list_induct2') (auto simp: head_candidates_def)
  show "close_heads (map drop_group gs) hs hash = close_heads gs hs hash"
    by (induction gs hs rule: list_induct2') (auto simp: close_heads_def)
  show "advance_head (map drop_group gs) hs hash = advance_head gs hs hash"
    by (induction gs hs rule: list_induct2') auto
qed

lemma select_step1_drop:
  "select_step1 (map drop_group gs) (drop_meta best) (drop_state s) = drop_state (select_step1 gs best s)"
  by (simp add: select_step1_def drop_state_def heads_drop Let_def)

lemma same_nil_drop: "same_nil (map drop_meta txs) = same_nil txs"
  by (simp add: same_nil_def list_all_iff)

lemma select_loop_drop:
  "select_loop m (map drop_group gs) (drop_state s) = map_option drop_state (select_loop m gs s)"
proof (induction m gs s rule: select_loop.induct)
  case (1 m gs s)
  let ?c = "head_candidates gs (ss_heads s)"
  have sel: "length (ss_selected (drop_state s)) = length (ss_selected s)" and hs: "ss_heads (drop_state s) = ss_heads s"
    by (simp_all add: drop_state_def)
  have best: "?c \<noteq> [] \<Longrightarrow> hd (sort_by cand_less (map drop_meta ?c)) = drop_meta (hd (sort_by cand_less ?c))"
    by (simp add: sort_by_drop_meta less_drop_meta hd_map)
  show ?case
  proof (cases "int (length (ss_selected s)) < m \<and> ?c \<noteq> [] \<and> same_nil ?c")
    case True
    then show ?thesis
      using "1.IH" [OF _ refl] best
      unfolding select_loop.simps [of m gs s] select_loop.simps [of m "map drop_group gs" "drop_state s"]
      by (simp add: sel hs heads_drop same_nil_drop select_step1_drop)
  next
    case False
    then show ?thesis
      unfolding select_loop.simps [of m gs s] select_loop.simps [of m "map drop_group gs" "drop_state s"]
      by (auto simp: sel hs heads_drop same_nil_drop Let_def)
  qed
qed

lemma greedySelect_drop:
  assumes "is_order ord" and "is_order ord'" and "list_all (\<lambda>t. tx1_Score t \<noteq> None) all1"
    and "tc1_MaxTransactions cfg' = tc1_MaxTransactions cfg" and "tc1_MaxGas cfg' = tc1_MaxGas cfg"
    and "greedySelect ord all1 cfg = Some (selected, res, stop, ranks)"
  shows "greedySelect ord' (map drop_meta all1) cfg' = Some (map drop_meta selected, res, stop, ranks)"
proof -
  let ?gs = "map (\<lambda>s. \<lparr> sg_Sender = s, sg_Txs = chain_of all1 s \<rparr>) (senders_of all1)"
  have g: "sender_groups ord all1 = Some ?gs" using sender_groups_scored [OF assms(1,3)] .
  have "list_all (\<lambda>t. tx1_Score t \<noteq> None) (map drop_meta all1)" using assms(3) by (simp add: list_all_iff)
  then have g': "sender_groups ord' (map drop_meta all1) = Some (map drop_group ?gs)"
    using sender_groups_scored [OF assms(2)] by (simp add: senders_of_drop_meta chain_of_drop_meta drop_group_def comp_def)
  let ?s0 = "\<lparr> ss_selected = [], ss_accepted = [], ss_excluded = [], ss_summary = [], ss_gas = tc1_MaxGas cfg,
      ss_stop = ''no_eligible_candidate'', ss_heads = replicate (length ?gs) 0 \<rparr>"
  have d: "drop_state ?s0 = ?s0" by (simp add: drop_state_def)
  note loop = select_loop_drop [of "tc1_MaxTransactions cfg" ?gs ?s0, unfolded d]
  have m: "\<not> tc1_MaxTransactions cfg < 0" using assms(6) g by (auto simp: greedySelect_def split: if_splits)
  obtain s where s: "select_loop (tc1_MaxTransactions cfg) ?gs ?s0 = Some s"
    using assms(6) g m by (simp add: greedySelect_def split: option.splits)
  have e: "(selected, res, stop, ranks) =
      (ss_selected s, \<lparr> sr_Accepted = ss_accepted s, sr_CapacityExclusions = ss_excluded s, sr_ReasonSummary = ss_summary s \<rparr>,
       if ss_selected s = [] \<and> ss_excluded s \<noteq> [] then ''capacity_exhausted'' else ss_stop s, hashesOf1 (ss_selected s))"
    using assms(6) m s unfolding greedySelect_def g by auto
  have l: "length (map drop_group ?gs) = length ?gs" by simp
  have "greedySelect ord' (map drop_meta all1) cfg' =
      Some (ss_selected (drop_state s), \<lparr> sr_Accepted = ss_accepted (drop_state s),
        sr_CapacityExclusions = ss_excluded (drop_state s), sr_ReasonSummary = ss_summary (drop_state s) \<rparr>,
       if ss_selected (drop_state s) = [] \<and> ss_excluded (drop_state s) \<noteq> [] then ''capacity_exhausted'' else ss_stop (drop_state s),
       hashesOf1 (ss_selected (drop_state s)))"
    using m loop s unfolding greedySelect_def g' option.case assms(4,5) l by simp
  then show ?thesis using e by (simp add: drop_state_def hashesOf1_def)
qed

section \<open>What is captured, what is built\<close>

lemma startupChecks_cases:
  assumes "tc1_ChainID cfg = Some want"
  shows "\<exists>r. startupChecks ev cfg = Some r \<and>
    (\<forall>su. r = Inr su \<longrightarrow> su1_ChainID su = want \<and> su1_EndpointLabel su = take 16 (re_sha ev (tc1_RPCURL cfg)))"
  using assms by (auto simp: startupChecks_def EndpointLabel1_def Let_def split: sum.split)

lemma normalize_both_ok:
  assumes "pool_orders1_ok (re_orders ev)"
  shows "\<exists>r. normalize_both ev cfg pool header = Some r \<and>
    (\<forall>pending queued. r = Inr (pending, queued) \<longrightarrow> (\<exists>baseFee bg. pool1_ok baseFee bg (fst pending)))"
proof -
  obtain r1 where r1: "normalizePool1 (re_orders ev) (fst pool) cfg header ''pending'' = Some r1"
      and ok: "\<And>txs db. r1 = Inr (txs, db) \<Longrightarrow> \<exists>baseFee bg. pool1_ok baseFee bg txs"
    using normalizePool1_total [OF assms] by metis
  obtain r2 where r2: "normalizePool1 (re_orders ev) (snd pool) cfg header ''queued'' = Some r2"
    using normalizePool1_total [OF assms] by metis
  show ?thesis using r1 r2 ok by (cases r1; cases r2) (auto simp: normalize_both_def)
qed

text \<open>What a captured snapshot is.\<close>

definition captured_ok :: "run_env1 \<Rightarrow> int \<Rightarrow> canonicalSnapshot \<Rightarrow> bool" where
  "captured_ok ev want snap \<longleftrightarrow> cs1_SchemaVersion snap = 1 \<and> (\<exists>x. cs1_SnapshotID snap = re_sha ev x) \<and>
     (\<exists>x. cs1_SourceEndpointLabel snap = take 16 (re_sha ev x)) \<and> cs1_ChainID snap = show_int 10 want \<and>
     (\<exists>x. cs1_RawPayloadDigest snap = re_sha ev x) \<and> (\<exists>baseFee bg. pool1_ok baseFee bg (cs1_Pending snap))"

lemma captureSnapshot_ok:
  assumes "pool_orders1_ok (re_orders ev)" and "su1_EndpointLabel su = take 16 (re_sha ev url)"
  shows "\<exists>r. captureSnapshot ev clk cfg su d = Some r \<and>
    (\<forall>snap tr. r = Inr (snap, tr) \<longrightarrow> captured_ok ev (su1_ChainID su) snap \<and> cs1_RawSnapshotPath snap = [])"
proof (cases "fetch_epoch ev cfg su")
  case (Inl e)
  then show ?thesis by (simp add: captureSnapshot_def)
next
  case (Inr hra)
  obtain header raw after1 where h: "hra = (header, raw, after1)" by (cases hra)
  show ?thesis
  proof (cases "decodePool1 (re_unmarshalPool ev) raw")
    case (Inl e)
    then show ?thesis using Inr h by (simp add: captureSnapshot_def Let_def)
  next
    case d: (Inr pool)
    obtain r where r: "normalize_both ev cfg pool header = Some r"
        and ok: "\<And>pending queued. r = Inr (pending, queued) \<Longrightarrow> \<exists>baseFee bg. pool1_ok baseFee bg (fst pending)"
      using normalize_both_ok [OF assms(1)] by metis
    show ?thesis
    proof (cases r)
      case (Inl e)
      then show ?thesis using Inr h d r by (simp add: captureSnapshot_def Let_def)
    next
      case i: (Inr pq)
      obtain pending queued where pq: "pq = (pending, queued)" by (cases pq)
      then have "\<exists>baseFee bg. pool1_ok baseFee bg (fst pending)" using ok i by blast
      then show ?thesis
        using Inr h d r i pq assms(2)
        by (auto simp: captureSnapshot_def Let_def captured_ok_def digestCanonical1_def digestBytes1_def)
    qed
  qed
qed

lemma obtain_live:
  assumes "pool_orders1_ok (re_orders ev)" and "tc1_ReplaySnapshotPath cfg = []" and "tc1_ChainID cfg = Some want"
  shows "\<exists>r. obtain_snapshot ev clk cfg d fs = Some r \<and>
    (\<forall>snap tr replay. r = Inr (snap, tr, replay) \<longrightarrow> captured_ok ev want snap \<and> cs1_RawSnapshotPath snap = [] \<and> \<not> replay)"
proof -
  obtain r where r: "startupChecks ev cfg = Some r"
      and su: "\<And>su. r = Inr su \<Longrightarrow> su1_ChainID su = want \<and> su1_EndpointLabel su = take 16 (re_sha ev (tc1_RPCURL cfg))"
    using startupChecks_cases [OF assms(3)] by blast
  show ?thesis
  proof (cases r)
    case (Inl e)
    then show ?thesis using assms(2) r by (simp add: obtain_snapshot_def)
  next
    case (Inr su0)
    obtain c where "captureSnapshot ev clk cfg su0 d = Some c"
        and "\<And>snap tr. c = Inr (snap, tr) \<Longrightarrow> captured_ok ev want snap \<and> cs1_RawSnapshotPath snap = []"
      using captureSnapshot_ok [OF assms(1), of su0 "tc1_RPCURL cfg"] su [OF Inr] by metis
    then show ?thesis using assms(2) r Inr by (cases c) (auto simp: obtain_snapshot_def)
  qed
qed

text \<open>What a candidate says of the selection.\<close>

definition score_sum :: "Transaction1 list \<Rightarrow> int" where
  "score_sum txs = foldl (\<lambda>r tx. case tx1_Score tx of Some x \<Rightarrow> r + x | None \<Rightarrow> r) 0 txs"

definition describes :: "run_env1 \<Rightarrow> TxConfig1 \<Rightarrow> canonicalSnapshot \<Rightarrow> string \<Rightarrow> Transaction1 list \<Rightarrow> string \<Rightarrow> BlockCandidate1 \<Rightarrow> bool" where
  "describes ev cfg snap digest selected stop c \<longleftrightarrow>
     bc1_SnapshotID c = cs1_SnapshotID snap \<and> bc1_PolicyVersion c = tc1_PolicyVersion cfg \<and> bc1_BinaryVersion c = tx1_BinaryVersion \<and>
     bc1_ConfigDigest c = digest \<and> bc1_ChainID c = cs1_ChainID snap \<and> bc1_SelectedTxs c = selected \<and>
     bc1_TxCount c = length selected \<and> bc1_TotalGas c = foldl (\<lambda>g tx. g + tx1_GasLimit tx) 0 selected \<and>
     bc1_EstimatedPriorityRevenue c = show_int 10 (score_sum selected) \<and> bc1_SelectionStopReason c = stop \<and>
     bc1_SelectedOrder c = map tx1_Hash selected \<and> bc1_SelectedTxHashes c = map tx1_Hash selected"

lemma buildCandidate1_iff:
  "(\<exists>c tr'. buildCandidate1 (re_sha ev) ord clk cfg snap tr digest start = Some (c, tr')) \<longleftrightarrow> greedySelect ord (cs1_Pending snap) cfg \<noteq> None"
  by (auto simp: buildCandidate1_def Let_def split: option.splits prod.splits)

lemma buildCandidate1_total:
  assumes "greedySelect ord (cs1_Pending snap) cfg \<noteq> None"
  obtains c tr' where "buildCandidate1 (re_sha ev) ord clk cfg snap tr digest start = Some (c, tr')"
  using assms buildCandidate1_iff [of ev ord clk cfg snap tr digest start] by blast

lemma buildCandidate1_describes:
  assumes "buildCandidate1 (re_sha ev) ord clk cfg snap tr digest start = Some (c, tr')"
    and "greedySelect ord (cs1_Pending snap) cfg = Some (selected, res, stop, ranks)"
  shows "describes ev cfg snap digest selected stop c"
  using assms by (auto simp: buildCandidate1_def Let_def describes_def score_sum_def hashesOf1_def)


section \<open>Files\<close>

lemma writeAtomic_path:
  assumes "writeAtomic wo path m maxBytes fs = (err, fs')" and "\<And>tmp. wo_create wo = Inr tmp \<Longrightarrow> tmp \<noteq> path"
  shows "case err of None \<Rightarrow> (\<exists>b. m = Inr b \<and> gm_get fs' path = Some b \<and> (0 < maxBytes \<longrightarrow> int (length b) \<le> maxBytes))
    | Some _ \<Rightarrow> gm_get fs' path = gm_get fs path"
  using assms
  by (auto simp: writeAtomic_def remove_tmp_def split: sum.splits option.splits if_splits prod.splits)

lemma writeAtomic_other:
  assumes "writeAtomic wo path m maxBytes fs = (err, fs')" and "\<And>tmp. wo_create wo = Inr tmp \<Longrightarrow> tmp \<noteq> p" and "p \<noteq> path"
  shows "gm_get fs' p = gm_get fs p"
  using assms
  by (auto simp: writeAtomic_def remove_tmp_def split: sum.splits option.splits if_splits prod.splits)

lemma ensureWritable_other:
  assumes "ensureWritable wo fs = (err, fs')" and "\<And>tmp. wo_create wo = Inr tmp \<Longrightarrow> tmp \<noteq> p"
  shows "gm_get fs' p = gm_get fs p"
  using assms by (auto simp: ensureWritable_def remove_tmp_def split: sum.splits option.splits if_splits)

text \<open>The temporary files of a run have names of their own.\<close>

definition temps_apart :: "run_env1 \<Rightarrow> TxConfig1 \<Rightarrow> bool" where
  "temps_apart ev cfg \<longleftrightarrow> (\<forall>i tmp. wo_create (re_ops ev i) = Inr tmp \<longrightarrow>
     tmp \<notin> {tc1_SnapshotOutputPath cfg, tc1_OutputPath cfg, tc1_TraceOutputPath cfg})"

lemma check_outputs_other:
  assumes "check_outputs ev cfg fs = (err, fs')" and "\<And>i tmp. wo_create (re_ops ev i) = Inr tmp \<Longrightarrow> tmp \<noteq> p"
  shows "gm_get fs' p = gm_get fs p"
proof -
  have e: "gm_get g' p = gm_get g p" if "ensureWritable (re_ops ev i) g = (er, g')" for i er g g'
    using that assms(2) ensureWritable_other by metis
  show ?thesis
    using assms(1) e [of 0] e [of 1] e [of 2]
    by (auto simp: check_outputs_def split: prod.splits option.splits if_splits)
qed

text \<open>A file of the run is as it was, or a whole artifact.\<close>

definition whole_file :: "run_env1 \<Rightarrow> TxConfig1 \<Rightarrow> files1 \<Rightarrow> files1 \<Rightarrow> string \<Rightarrow> bool" where
  "whole_file ev cfg fs fs' p \<longleftrightarrow> gm_get fs' p = gm_get fs p \<or>
     p = tc1_SnapshotOutputPath cfg \<and> (\<exists>snap b. re_marshalSnapshot ev snap = Inr b \<and> gm_get fs' p = Some b) \<or>
     p = tc1_OutputPath cfg \<and> (\<exists>cand b. re_marshalCandidate ev cand = Inr b \<and> gm_get fs' p = Some b)"

definition written :: "run_env1 \<Rightarrow> TxConfig1 \<Rightarrow> canonicalSnapshot \<Rightarrow> BlockCandidate1 \<Rightarrow> DecisionTrace1 \<Rightarrow> files1 \<Rightarrow> bool" where
  "written ev cfg snap cand tr fs \<longleftrightarrow>
     (\<exists>b. re_marshalSnapshot ev snap = Inr b \<and> gm_get fs (tc1_SnapshotOutputPath cfg) = Some b \<and>
        (0 < tc1_MaxRawSnapshotBytes cfg \<longrightarrow> int (length b) \<le> tc1_MaxRawSnapshotBytes cfg)) \<and>
     (\<exists>b. re_marshalCandidate ev cand = Inr b \<and> gm_get fs (tc1_OutputPath cfg) = Some b \<and>
        (0 < tc1_MaxArtifactBytes cfg \<longrightarrow> int (length b) \<le> tc1_MaxArtifactBytes cfg)) \<and>
     (\<exists>b. re_marshalTrace ev tr = Inr b \<and> gm_get fs (tc1_TraceOutputPath cfg) = Some b \<and>
        (0 < tc1_MaxTraceBytes cfg \<longrightarrow> int (length b) \<le> tc1_MaxTraceBytes cfg))"

definition paths_apart :: "TxConfig1 \<Rightarrow> bool" where
  "paths_apart cfg \<longleftrightarrow> distinct [tc1_SnapshotOutputPath cfg, tc1_OutputPath cfg, tc1_TraceOutputPath cfg]"

lemma persist_run_files:
  assumes "persist_run ev cfg snap cand tr fs = (err, fs')" and "temps_apart ev cfg" and "paths_apart cfg"
  shows "if err = None then written ev cfg snap cand tr fs'
    else \<forall>p \<in> {tc1_SnapshotOutputPath cfg, tc1_OutputPath cfg, tc1_TraceOutputPath cfg}. whole_file ev cfg fs fs' p"
proof -
  let ?S = "tc1_SnapshotOutputPath cfg" and ?O = "tc1_OutputPath cfg" and ?T = "tc1_TraceOutputPath cfg"
  let ?m1 = "re_marshalSnapshot ev snap" and ?m2 = "re_marshalCandidate ev cand" and ?m3 = "re_marshalTrace ev tr"
  have d: "?S \<noteq> ?O" "?S \<noteq> ?T" "?O \<noteq> ?T" using assms(3) by (auto simp: paths_apart_def)
  have t: "\<And>i tmp. wo_create (re_ops ev i) = Inr tmp \<Longrightarrow> tmp \<noteq> ?S \<and> tmp \<noteq> ?O \<and> tmp \<noteq> ?T"
    using assms(2) by (auto simp: temps_apart_def)
  obtain e1 fs1 where w1: "writeAtomic (re_ops ev 3) ?S ?m1 (tc1_MaxRawSnapshotBytes cfg) fs = (e1, fs1)" by (metis surj_pair)
  obtain e2 fs2 where w2: "writeAtomic (re_ops ev 4) ?O ?m2 (tc1_MaxArtifactBytes cfg) fs1 = (e2, fs2)" by (metis surj_pair)
  obtain e3 fs3 where w3: "writeAtomic (re_ops ev 5) ?T ?m3 (tc1_MaxTraceBytes cfg) fs2 = (e3, fs3)" by (metis surj_pair)
  have p1: "case e1 of None \<Rightarrow> (\<exists>b. ?m1 = Inr b \<and> gm_get fs1 ?S = Some b \<and> (0 < tc1_MaxRawSnapshotBytes cfg \<longrightarrow> int (length b) \<le> tc1_MaxRawSnapshotBytes cfg))
      | Some _ \<Rightarrow> gm_get fs1 ?S = gm_get fs ?S" using writeAtomic_path [OF w1] t by blast
  have p2: "case e2 of None \<Rightarrow> (\<exists>b. ?m2 = Inr b \<and> gm_get fs2 ?O = Some b \<and> (0 < tc1_MaxArtifactBytes cfg \<longrightarrow> int (length b) \<le> tc1_MaxArtifactBytes cfg))
      | Some _ \<Rightarrow> gm_get fs2 ?O = gm_get fs1 ?O" using writeAtomic_path [OF w2] t by blast
  have p3: "case e3 of None \<Rightarrow> (\<exists>b. ?m3 = Inr b \<and> gm_get fs3 ?T = Some b \<and> (0 < tc1_MaxTraceBytes cfg \<longrightarrow> int (length b) \<le> tc1_MaxTraceBytes cfg))
      | Some _ \<Rightarrow> gm_get fs3 ?T = gm_get fs2 ?T" using writeAtomic_path [OF w3] t by blast
  have o1: "gm_get fs1 ?O = gm_get fs ?O" "gm_get fs1 ?T = gm_get fs ?T"
    using writeAtomic_other [OF w1] t d by metis+
  have o2: "gm_get fs2 ?S = gm_get fs1 ?S" "gm_get fs2 ?T = gm_get fs1 ?T"
    using writeAtomic_other [OF w2] t d by metis+
  have o3: "gm_get fs3 ?S = gm_get fs2 ?S" "gm_get fs3 ?O = gm_get fs2 ?O"
    using writeAtomic_other [OF w3] t d by metis+
  consider (a) e where "e1 = Some e" | (b) e where "e1 = None" "e2 = Some e" | (c) "e1 = None" "e2 = None" by (cases e1; cases e2) auto
  then show ?thesis
  proof cases
    case a
    then show ?thesis using assms(1) w1 p1 o1 by (auto simp: persist_run_def writeSnapshot_def whole_file_def)
  next
    case b
    then show ?thesis using assms(1) w1 w2 p1 p2 o1 o2 by (auto simp: persist_run_def writeSnapshot_def whole_file_def)
  next
    case c
    then show ?thesis using assms(1) w1 w2 w3 p1 p2 p3 o1 o2 o3
      by (cases e3) (auto simp: persist_run_def writeSnapshot_def whole_file_def written_def)
  qed
qed

lemma Execute_success:
  assumes "Execute ev clk cfg fs = (Some (Inr r), fs')"
  shows "\<exists>fs1 snap tr. check_outputs ev cfg fs = (None, fs1) \<and>
    obtain_snapshot ev clk cfg (config_digest1 ev cfg) fs1 = Some (Inr (snap, tr, rs_Replay r)) \<and>
    buildCandidate1 (re_sha ev) (re_bySender ev) (\<lambda>i. clk (5 + i)) cfg snap tr (config_digest1 ev cfg) (clk 0)
      = Some (rs_Candidate r, rs_Trace r) \<and>
    (if tc1_NoWrite cfg then rs_Snapshot r = snap \<and> fs' = fs1
     else rs_Snapshot r = snap\<lparr> cs1_RawSnapshotPath := tc1_SnapshotOutputPath cfg \<rparr> \<and>
       persist_run ev cfg (rs_Snapshot r) (rs_Candidate r) (rs_Trace r) fs1 = (None, fs'))"
  using assms
  by (auto simp: Execute_def Let_def split: prod.splits option.splits sum.splits if_splits)

lemma Execute_failure:
  assumes "Execute ev clk cfg fs = (res, fs')" and "\<And>r. res \<noteq> Some (Inr r)"
  shows "\<exists>err fs1. check_outputs ev cfg fs = (err, fs1) \<and>
    (fs' = fs1 \<or> (\<exists>snap cand tr e. persist_run ev cfg snap cand tr fs1 = (Some e, fs')))"
  using assms
  by (auto simp: Execute_def Let_def split: prod.splits option.splits sum.splits if_splits)

section \<open>A live run\<close>




section \<open>A replay\<close>

text \<open>The configuration and the surroundings of a replay of what a run wrote.\<close>

definition replay_cfg :: "TxConfig1 \<Rightarrow> TxConfig1 \<Rightarrow> bool" where
  "replay_cfg cfg cfg' \<longleftrightarrow> tc1_ReplaySnapshotPath cfg' = tc1_SnapshotOutputPath cfg \<and> tc1_NoWrite cfg' \<and>
     tc1_MaxTransactions cfg' = tc1_MaxTransactions cfg \<and> tc1_MaxGas cfg' = tc1_MaxGas cfg \<and> tc1_PolicyVersion cfg' = tc1_PolicyVersion cfg"

definition replay_env :: "run_env1 \<Rightarrow> run_env1 \<Rightarrow> string \<Rightarrow> canonicalSnapshot \<Rightarrow> bool" where
  "replay_env ev ev' path snap \<longleftrightarrow> is_order (re_bySender ev') \<and> re_read ev' path = None \<and>
     (\<forall>b. re_marshalSnapshot ev snap = Inr b \<longrightarrow> re_unmarshalSnapshot ev' b = Inr (read_back1 snap))"

definition live_env :: "run_env1 \<Rightarrow> TxConfig1 \<Rightarrow> bool" where
  "live_env ev cfg \<longleftrightarrow> cfg1_ok cfg \<and> tc1_ReplaySnapshotPath cfg = [] \<and> \<not> tc1_NoWrite cfg \<and> pool_orders1_ok (re_orders ev) \<and>
     is_order (re_bySender ev) \<and> (\<forall>x. re_sha ev x \<noteq> []) \<and> temps_apart ev cfg \<and> paths_apart cfg"

lemma replay_same:
  assumes "live_env ev cfg" and "Execute ev clk cfg fs = (Some (Inr r), fs')"
    and "cs1_Pending (rs_Snapshot r) \<noteq> [] \<or> cs1_Queued (rs_Snapshot r) \<noteq> []"
    and "replay_cfg cfg cfg'" and "replay_env ev ev' (tc1_SnapshotOutputPath cfg) (rs_Snapshot r)"
  shows "\<exists>r'. Execute ev' clk' cfg' fs' = (Some (Inr r'), fs') \<and> rs_Replay r' \<and>
    bc1_SelectedTxs (rs_Candidate r') = map drop_meta (bc1_SelectedTxs (rs_Candidate r)) \<and>
    compareCandidates (rs_Candidate r) (rs_Candidate r') =
      (if config_digest1 ev cfg = config_digest1 ev' cfg' then [] else [''config_digest''])"
proof -
  let ?d = "config_digest1 ev cfg" and ?d' = "config_digest1 ev' cfg'" and ?S = "tc1_SnapshotOutputPath cfg"
  note live = assms(1) [unfolded live_env_def]
  obtain want where want: "tc1_ChainID cfg = Some want" using live by (auto simp: cfg1_ok_def)
  have m: "0 \<le> tc1_MaxTransactions cfg" and S: "?S \<noteq> []" using live by (auto simp: cfg1_ok_def)
  obtain fs1 snap tr where x: "obtain_snapshot ev clk cfg ?d fs1 = Some (Inr (snap, tr, rs_Replay r))"
      "buildCandidate1 (re_sha ev) (re_bySender ev) (\<lambda>i. clk (5 + i)) cfg snap tr ?d (clk 0) = Some (rs_Candidate r, rs_Trace r)"
      "rs_Snapshot r = snap\<lparr> cs1_RawSnapshotPath := ?S \<rparr>"
      "persist_run ev cfg (rs_Snapshot r) (rs_Candidate r) (rs_Trace r) fs1 = (None, fs')"
    using Execute_success [OF assms(2)] live by auto
  have cap: "captured_ok ev want snap"
    using obtain_live [of ev cfg want clk ?d fs1] live want x(1) by auto
  have "written ev cfg (rs_Snapshot r) (rs_Candidate r) (rs_Trace r) fs'"
    using persist_run_files [OF x(4)] live by simp
  then obtain b where b: "re_marshalSnapshot ev (rs_Snapshot r) = Inr b" "gm_get fs' ?S = Some b" by (auto simp: written_def)
  let ?snap = "(read_back1 (rs_Snapshot r))\<lparr> cs1_RawSnapshotPath := ?S \<rparr>"
  have ne: "[] \<noteq> re_sha ev y" "take 16 (re_sha ev y) \<noteq> []" for y using live by (simp_all add: take_eq_Nil) metis
  have "validateLoadedSnapshot (read_back1 (rs_Snapshot r)) = None"
    using cap assms(3) x(3) ne by (auto simp: validateLoadedSnapshot_def read_back1_def captured_ok_def)
  then have "loadSnapshot ev' ?S fs' = Inr (read_back1 (rs_Snapshot r))"
    using assms(5) b by (simp add: loadSnapshot_def readFile1_def replay_env_def)
  then have o': "obtain_snapshot ev' clk' cfg' ?d' fs' = Some (Inr (?snap, traceFromSnapshot (re_sha ev') (clk' 1) ?snap ?d', True))"
    using assms(4) S by (simp add: obtain_snapshot_def replay_cfg_def Let_def)
  have pend: "cs1_Pending ?snap = map drop_meta (cs1_Pending snap)" using x(3) by (simp add: read_back1_def)
  obtain baseFee bg where pool: "pool1_ok baseFee bg (cs1_Pending snap)" using cap by (auto simp: captured_ok_def)
  obtain s res stop where g: "greedySelect (re_bySender ev) (cs1_Pending snap) cfg = Some (s, res, stop, hashesOf1 s)"
    using greedySelect_total [OF _ pool1_scored [OF pool] m] live by blast
  have g': "greedySelect (re_bySender ev') (cs1_Pending ?snap) cfg' = Some (map drop_meta s, res, stop, hashesOf1 s)"
    unfolding pend using assms(4,5) live
    by (intro greedySelect_drop [OF _ _ pool1_scored [OF pool] _ _ g]) (auto simp: replay_cfg_def replay_env_def)
  then have "greedySelect (re_bySender ev') (cs1_Pending ?snap) cfg' \<noteq> None" by simp
  then obtain c' tr' where c': "buildCandidate1 (re_sha ev') (re_bySender ev') (\<lambda>i. clk' (5 + i)) cfg' ?snap
      (traceFromSnapshot (re_sha ev') (clk' 1) ?snap ?d') ?d' (clk' 0) = Some (c', tr')"
    by (rule buildCandidate1_total)
  note d1 = buildCandidate1_describes [OF x(2) g] and d2 = buildCandidate1_describes [OF c' g']
  have "Execute ev' clk' cfg' fs' = (Some (Inr \<lparr> rs_ConfigDigest = ?d', rs_Candidate = c', rs_Trace = tr', rs_Snapshot = ?snap, rs_Replay = True \<rparr>), fs')"
    using assms(4) o' c' by (simp add: Execute_def check_outputs_def replay_cfg_def Let_def)
  moreover have "score_sum (map drop_meta s) = score_sum s"
    "foldl (\<lambda>g tx. g + tx1_GasLimit tx) 0 (map drop_meta s) = foldl (\<lambda>g tx. g + tx1_GasLimit tx) 0 s"
    by (simp_all add: score_sum_def foldl_map)
  then have "compareCandidates (rs_Candidate r) c' = (if ?d = ?d' then [] else [''config_digest''])"
    using d1 d2 assms(4) x(3) by (simp add: compareCandidates_def describes_def replay_cfg_def read_back1_def comp_def)
  ultimately show ?thesis using d1 d2 by (auto simp: describes_def)
qed

section \<open>Properties\<close>

definition demo_wo1 :: "string \<Rightarrow> write_ops1" where
  "demo_wo1 tmp = \<lparr> wo_mkdir = None, wo_create = Inr tmp, wo_write = None, wo_close = None, wo_rename = None, wo_remove = True \<rparr>"

definition demo_json1 :: json where
  "demo_json1 = JObj [(''hash'', JStr ''h''), (''gas'', JNum ''21000''), (''to'', JStr ''b''), (''gasPrice'', JStr ''7''), (''input'', JStr ''0x'')]"

definition demo_addr1 :: string where
  "demo_addr1 = ''0x'' @ replicate 40 (CHR ''a'')"

definition demo_ev1 :: run_env1 where
  "demo_ev1 = \<lparr> re_rpc = \<lparr> r1_string = (\<lambda>_ _. Inr ''1''), r1_raw = (\<lambda>_ m. Inr (if m = ''eth_syncing'' then ''false'' else ''pool'')),
       r1_header = (\<lambda>_ _ _. Inr \<lparr> bh1_Number = ''1'', bh1_GasLimit = ''30000'', bh1_BaseFeePerGas = ''3'' \<rparr>) \<rparr>,
     re_sha = (\<lambda>x. CHR ''s'' # x), re_unmarshalPool = (\<lambda>_. Inr (Some [(demo_addr1, [(''4'', demo_json1)])], None)),
     re_orders = \<lparr> po1_senders = rev, po1_nonces = rev, po1_grouped = rev, po1_groups = rev, po1_quote = (\<lambda>s. s) \<rparr>,
     re_bySender = rev, re_marshalFingerprint = (\<lambda>_. ''f''),
     re_marshalConfig = dc_ReplaySnapshotPath, re_durString = (\<lambda>_. []), re_marshalSnapshot = (\<lambda>_. Inr ''snapshot''),
     re_unmarshalSnapshot = (\<lambda>_. Inl ''no snapshot''), re_marshalCandidate = (\<lambda>_. Inr ''candidate''),
     re_marshalTrace = (\<lambda>_. Inr ''trace''), re_read = (\<lambda>_. None), re_ops = (\<lambda>_. demo_wo1 ''tmp'') \<rparr>"

definition demo_live_cfg :: TxConfig1 where
  "demo_live_cfg = zero_cfg1\<lparr> tc1_RPCURL := ''u'', tc1_OutputPath := ''c'', tc1_TraceOutputPath := ''t'', tc1_SnapshotOutputPath := ''s'',
     tc1_Timeout := 1, tc1_MaxTransactions := 2, tc1_MaxGas := 50000, tc1_MaxSnapshotTxs := 9, tc1_MaxRawSnapshotBytes := 100,
     tc1_MaxArtifactBytes := 100, tc1_MaxTraceBytes := 100, tc1_PolicyVersion := ''v1'', tc1_ChainID := Some 1 \<rparr>"

lemma demo_live_env: "live_env demo_ev1 demo_live_cfg"
proof -
  have "TrimSpace ''u'' = ''u''" by (simp add: TrimSpace_plain plain_char_def)
  then show ?thesis
    by (simp add: live_env_def cfg1_ok_def demo_live_cfg_def zero_cfg1_def demo_ev1_def pool_orders1_ok_def temps_apart_def
        paths_apart_def demo_wo1_def)
qed

text \<open>The run of the witnesses: one sender, one transaction, by stages.\<close>

lemma demo_numbers:
  "parseUintString1 ''4'' = Some 4" "parseHexBig ''3'' = Some 3" "parseHexBig ''7'' = Some 7" "parseBigIntString1 ''1'' = Inr 1"
  by (simp_all add: parse1_eq parse_eval parseBigIntString1_def)

lemma demo_header_number: "parseHexUint64 q ''30000'' = Inr 30000"
  by (simp add: parse_eval parseHexUint64_def ParseUint_err_def)

lemma demo_addr: "isValidHexAddress demo_addr1"
  by (simp add: isValidHexAddress_def demo_addr1_def TrimSpace_plain plain_char_def HasPrefix_def hex_char_def digit_val_def numeral_eq_Suc)

definition demo_obj1 :: "(string, json) gomap" where
  "demo_obj1 = [(''hash'', JStr ''h''), (''gas'', JNum ''21000''), (''to'', JStr ''b''), (''gasPrice'', JStr ''7''), (''input'', JStr ''0x'')]"

lemma demo_uint: "ParseUint 10 ''21000'' = Some 21000"
  by (simp add: parse_eval)

lemma demo_decode: "\<exists>tx. decodeTx1 demo_addr1 ''4'' demo_json1 (Some 3) 30000 ''pending'' = (tx, None, None)"
proof -
  have "\<exists>tx. decode_fields demo_addr1 ''4'' demo_obj1 30000 ''pending'' = Inr tx \<and> tx1_TxType tx = 0 \<and> tx1_GasLimit tx = 21000 \<and> tx1_To tx \<noteq> None"
    by (simp add: decode_fields_def demo_obj1_def parseString1_def parseUint1_def gm_get_def demo_numbers demo_addr demo_uint hasBlobFields_def
        parseNullableString1_def zero_tx1_def Let_def)
  then obtain t1 where t1: "decode_fields demo_addr1 ''4'' demo_obj1 30000 ''pending'' = Inr t1" "tx1_TxType t1 = 0" "tx1_GasLimit t1 = 21000" "tx1_To t1 \<noteq> None"
    by blast
  have "decode_fees demo_obj1 (Some 3) ''pending'' t1 = Inr (t1\<lparr> tx1_GasPrice := Some 7 \<rparr>)" using t1
    by (simp add: decode_fees_def demo_obj1_def parseBig1_def gm_get_def demo_numbers)
  moreover have "\<exists>t2. decode_input demo_obj1 ''pending'' (t1\<lparr> tx1_GasPrice := Some 7 \<rparr>) = Inr t2 \<and> tx1_TxType t2 = 0 \<and> tx1_GasPrice t2 = Some 7"
    using t1 by (simp add: decode_input_def demo_obj1_def parseBig1_def parseString1_def gm_get_def HasPrefix_def computeIntrinsicGas_def countAccessList_def Let_def)
  moreover have "json_object demo_json1 = Inr demo_obj1" by (simp add: json_object_def demo_json1_def demo_obj1_def Let_def)
  ultimately show ?thesis using t1(1)
    by (auto simp: decodeTx1_def decode_effective_def Let_def)
qed

lemma demo_normalize:
  "\<exists>tx db. normalizePool1 (re_orders demo_ev1) [(demo_addr1, [(''4'', demo_json1)])] demo_live_cfg
      \<lparr> bh1_Number = ''1'', bh1_GasLimit = ''30000'', bh1_BaseFeePerGas = ''3'' \<rparr> ''pending'' = Some (Inr ([tx], db))"
proof -
  obtain tx where tx: "decodeTx1 demo_addr1 ''4'' demo_json1 (Some 3) 30000 ''pending'' = (tx, None, None)"
    using demo_decode by blast
  then have "tx1_GasLimit tx \<le> 30000" using decodeTx1_ok [OF tx] by (auto simp: decoded_ok_def)
  then have "normalizeSenderChains rev [(tx1_Nonce tx, [tx])] 30000 = Some ([tx], [])"
    by (auto simp: normalizeSenderChains_def same_nil_def gm_get0_def gm_get_def not_less Let_def)
  moreover have "parseBlockHeader q \<lparr> bh1_Number = ''1'', bh1_GasLimit = ''30000'', bh1_BaseFeePerGas = ''3'' \<rparr> = Inr (Some 3, 30000)" for q
    by (simp add: parseBlockHeader_def demo_numbers demo_header_number)
  ultimately show ?thesis using tx
    by (simp add: normalizePool1_def demo_ev1_def sortedPoolSenders1_def sortedNonceKeys1_def gm_get0_def gm_get_def
        group_add_def gm_set_def Let_def)
qed

lemma demo_capture:
  "\<exists>tx snap tr. obtain_snapshot demo_ev1 clk demo_live_cfg d fs = Some (Inr (snap, tr, False)) \<and> cs1_Pending snap = [tx]"
proof -
  obtain tx db where n: "normalizePool1 (re_orders demo_ev1) [(demo_addr1, [(''4'', demo_json1)])] demo_live_cfg
      \<lparr> bh1_Number = ''1'', bh1_GasLimit = ''30000'', bh1_BaseFeePerGas = ''3'' \<rparr> ''pending'' = Some (Inr ([tx], db))"
    using demo_normalize by blast
  have cfg: "tc1_ReplaySnapshotPath demo_live_cfg = []" "tc1_ChainID demo_live_cfg = Some 1" "\<not> tc1_IncludeQueued demo_live_cfg"
    "tc1_MaxRawSnapshotBytes demo_live_cfg = 100"
    by (simp_all add: demo_live_cfg_def zero_cfg1_def)
  have rpc: "r1_string (re_rpc demo_ev1) i m = Inr ''1''" "r1_raw (re_rpc demo_ev1) i ''eth_syncing'' = Inr ''false''"
    "r1_raw (re_rpc demo_ev1) i ''txpool_content'' = Inr ''pool''"
    "r1_header (re_rpc demo_ev1) i m k = Inr \<lparr> bh1_Number = ''1'', bh1_GasLimit = ''30000'', bh1_BaseFeePerGas = ''3'' \<rparr>"
    "re_unmarshalPool demo_ev1 x = Inr (Some [(demo_addr1, [(''4'', demo_json1)])], None)" for i m k x
    by (simp_all add: demo_ev1_def)
  have "\<exists>su. startupChecks demo_ev1 demo_live_cfg = Some (Inr su) \<and> su1_BlockNumber su = 1"
    by (simp add: startupChecks_def ChainID1_def Syncing1_def BlockNumber1_def ClientVersion1_def rpc cfg demo_numbers Let_def)
  then obtain su where su: "startupChecks demo_ev1 demo_live_cfg = Some (Inr su)" "su1_BlockNumber su = 1" by blast
  have "\<exists>h. fetch_epoch demo_ev1 demo_live_cfg su = Inr (\<lparr> bh1_Number = ''1'', bh1_GasLimit = ''30000'', bh1_BaseFeePerGas = ''3'' \<rparr>, ''pool'', h)"
    by (simp add: fetch_epoch_def BlockHeaderByNumber1_def BlockNumber1_def rpc cfg su demo_numbers Let_def)
  moreover have "decodePool1 (re_unmarshalPool demo_ev1) ''pool'' = Inr ([(demo_addr1, [(''4'', demo_json1)])], [])"
    by (simp add: decodePool1_def rpc)
  moreover have "normalize_both demo_ev1 demo_live_cfg ([(demo_addr1, [(''4'', demo_json1)])], [])
      \<lparr> bh1_Number = ''1'', bh1_GasLimit = ''30000'', bh1_BaseFeePerGas = ''3'' \<rparr> = Some (Inr (([tx], db), ([], zero_buckets)))"
    by (simp add: normalize_both_def n cfg)
  ultimately show ?thesis using su(1)
    by (auto simp: obtain_snapshot_def captureSnapshot_def cfg Let_def)
qed

lemma demo_writes:
  "\<exists>fs1. check_outputs demo_ev1 demo_live_cfg fs = (None, fs1)"
  "\<exists>fs1. persist_run demo_ev1 demo_live_cfg snap cand tr fs = (None, fs1)"
  by (simp_all add: check_outputs_def ensureWritable_def persist_run_def writeSnapshot_def writeAtomic_def demo_ev1_def demo_wo1_def
      demo_live_cfg_def zero_cfg1_def)

lemma demo_run1:
  "\<exists>r fs'. Execute demo_ev1 clk demo_live_cfg [] = (Some (Inr r), fs') \<and> length (cs1_Pending (rs_Snapshot r)) = 1"
proof -
  let ?d = "config_digest1 demo_ev1 demo_live_cfg"
  obtain fs1 where co: "check_outputs demo_ev1 demo_live_cfg [] = (None, fs1)" using demo_writes(1) by blast
  obtain tx snap tr where o: "obtain_snapshot demo_ev1 clk demo_live_cfg ?d fs1 = Some (Inr (snap, tr, False))"
      and p: "cs1_Pending snap = [tx]"
    using demo_capture by blast
  have w: "tc1_ChainID demo_live_cfg = Some 1" "\<not> tc1_NoWrite demo_live_cfg" "0 \<le> tc1_MaxTransactions demo_live_cfg"
    by (simp_all add: demo_live_cfg_def zero_cfg1_def)
  note live = demo_live_env [unfolded live_env_def]
  have "captured_ok demo_ev1 1 snap" using obtain_live [of demo_ev1 demo_live_cfg 1 clk ?d fs1] live w(1) o by auto
  then have "list_all (\<lambda>t. tx1_Score t \<noteq> None) (cs1_Pending snap)" by (auto simp: captured_ok_def dest: pool1_scored)
  then have "greedySelect (re_bySender demo_ev1) (cs1_Pending snap) demo_live_cfg \<noteq> None"
    using greedySelect_total [OF _ _ w(3)] live by fastforce
  then obtain c tr' where b: "buildCandidate1 (re_sha demo_ev1) (re_bySender demo_ev1) (\<lambda>i. clk (5 + i)) demo_live_cfg snap tr ?d (clk 0) = Some (c, tr')"
    by (rule buildCandidate1_total)
  let ?snap = "snap\<lparr> cs1_RawSnapshotPath := tc1_SnapshotOutputPath demo_live_cfg \<rparr>"
  obtain fs2 where "persist_run demo_ev1 demo_live_cfg ?snap c tr' fs1 = (None, fs2)" using demo_writes(2) by blast
  then have "Execute demo_ev1 clk demo_live_cfg [] = (Some (Inr \<lparr> rs_ConfigDigest = ?d, rs_Candidate = c, rs_Trace = tr', rs_Snapshot = ?snap,
      rs_Replay = False \<rparr>), fs2)"
    using co o b w(2) by (simp add: Execute_def Let_def)
  then show ?thesis using p by simp
qed



text \<open>
  C39: If a run with writes succeeds, its three files hold the snapshot, the candidate and the trace it returns, each within its limit of
  bytes. If it fails, at whatever call, each of them is as it was before, or a whole artifact, and the trace's file is as
  it was: no file is cut short. Without writes, nothing changes.
\<close>

theorem v1_artifacts_whole:
  assumes "temps_apart ev cfg" and "paths_apart cfg" and "Execute ev clk cfg fs = (res, fs')"
  shows "case res of
      Some (Inr r) \<Rightarrow> if tc1_NoWrite cfg then fs' = fs else written ev cfg (rs_Snapshot r) (rs_Candidate r) (rs_Trace r) fs'
    | _ \<Rightarrow> \<forall>p \<in> {tc1_SnapshotOutputPath cfg, tc1_OutputPath cfg, tc1_TraceOutputPath cfg}. whole_file ev cfg fs fs' p"
proof -
  have out: "gm_get fs1 p = gm_get fs p"
    if "check_outputs ev cfg fs = (err, fs1)" "p \<in> {tc1_SnapshotOutputPath cfg, tc1_OutputPath cfg, tc1_TraceOutputPath cfg}" for err fs1 p
    using check_outputs_other [OF that(1), of p] assms(1) that(2) unfolding temps_apart_def by blast
  show ?thesis
  proof (cases "\<exists>r. res = Some (Inr r)")
    case True
    then obtain r where r: "res = Some (Inr r)" by blast
    obtain fs1 where x: "check_outputs ev cfg fs = (None, fs1)"
        "if tc1_NoWrite cfg then fs' = fs1
         else persist_run ev cfg (rs_Snapshot r) (rs_Candidate r) (rs_Trace r) fs1 = (None, fs')"
      using Execute_success [OF assms(3) [unfolded r]] by (metis (full_types))
    show ?thesis
    proof (cases "tc1_NoWrite cfg")
      case True
      then show ?thesis using x r by (simp add: check_outputs_def)
    next
      case False
      then show ?thesis using x r persist_run_files [OF _ assms(1,2)] by fastforce
    qed
  next
    case False
    then obtain err fs1 where co: "check_outputs ev cfg fs = (err, fs1)"
        and f: "fs' = fs1 \<or> (\<exists>snap cand tr e. persist_run ev cfg snap cand tr fs1 = (Some e, fs'))"
      using Execute_failure [OF assms(3)] by blast
    have "whole_file ev cfg fs fs' p" if p: "p \<in> {tc1_SnapshotOutputPath cfg, tc1_OutputPath cfg, tc1_TraceOutputPath cfg}" for p
      using f
    proof
      assume "fs' = fs1"
      then show ?thesis using out [OF co p] by (simp add: whole_file_def)
    next
      assume "\<exists>snap cand tr e. persist_run ev cfg snap cand tr fs1 = (Some e, fs')"
      then have "whole_file ev cfg fs1 fs' p" using persist_run_files [OF _ assms(1,2)] p by fastforce
      then show ?thesis using out [OF co p] by (simp add: whole_file_def)
    qed
    then show ?thesis using False by (auto split: option.split sum.split)
  qed
qed

theorem v1_artifacts_whole_witness:
  "\<exists>r fs'. Execute demo_ev1 (\<lambda>_. 0) demo_live_cfg [] = (Some (Inr r), fs') \<and>
    written demo_ev1 demo_live_cfg (rs_Snapshot r) (rs_Candidate r) (rs_Trace r) fs'"
proof -
  note live = demo_live_env [unfolded live_env_def]
  obtain r fs' where r: "Execute demo_ev1 (\<lambda>_. 0) demo_live_cfg [] = (Some (Inr r), fs')" using demo_run1 by blast
  then show ?thesis using v1_artifacts_whole [OF _ _ r] live by auto
qed

text \<open>
  C40: A replay of the snapshot that a live run wrote, under the same bounds and policy but at another time, with other orders of
  its maps and without a node, succeeds, selects the same transactions in the same order, and its candidate compares
  equal to the run's in every field but the digest of the configuration, which differs when the digests do.
\<close>

theorem v1_replay_reproduces:
  assumes "live_env ev cfg" and "Execute ev clk cfg fs = (Some (Inr r), fs')"
    and "cs1_Pending (rs_Snapshot r) \<noteq> [] \<or> cs1_Queued (rs_Snapshot r) \<noteq> []"
    and "replay_cfg cfg cfg'" and "replay_env ev ev' (tc1_SnapshotOutputPath cfg) (rs_Snapshot r)"
  shows "\<exists>r'. Execute ev' clk' cfg' fs' = (Some (Inr r'), fs') \<and> rs_Replay r' \<and>
    bc1_SelectedTxs (rs_Candidate r') = map drop_meta (bc1_SelectedTxs (rs_Candidate r)) \<and>
    compareCandidates (rs_Candidate r) (rs_Candidate r') =
      (if config_digest1 ev cfg = config_digest1 ev' cfg' then [] else [''config_digest''])"
  using assms by (rule replay_same)

definition demo_replay_cfg :: TxConfig1 where
  "demo_replay_cfg = demo_live_cfg\<lparr> tc1_ReplaySnapshotPath := ''s'', tc1_NoWrite := True \<rparr>"

theorem v1_replay_reproduces_witness:
  "\<exists>r fs' ev' r'. Execute demo_ev1 (\<lambda>_. 0) demo_live_cfg [] = (Some (Inr r), fs') \<and>
    Execute ev' (\<lambda>_. 9) demo_replay_cfg fs' = (Some (Inr r'), fs') \<and>
    compareCandidates (rs_Candidate r) (rs_Candidate r') = [''config_digest'']"
proof -
  obtain r fs' where r: "Execute demo_ev1 (\<lambda>_. 0) demo_live_cfg [] = (Some (Inr r), fs')" "cs1_Pending (rs_Snapshot r) \<noteq> []"
    using demo_run1 by fastforce
  let ?ev = "demo_ev1\<lparr> re_unmarshalSnapshot := \<lambda>_. Inr (read_back1 (rs_Snapshot r)) \<rparr>"
  have c: "replay_cfg demo_live_cfg demo_replay_cfg"
    by (simp add: replay_cfg_def demo_replay_cfg_def demo_live_cfg_def zero_cfg1_def)
  have e: "replay_env demo_ev1 ?ev (tc1_SnapshotOutputPath demo_live_cfg) (rs_Snapshot r)"
    by (simp add: replay_env_def demo_ev1_def)
  have d: "config_digest1 demo_ev1 demo_live_cfg \<noteq> config_digest1 ?ev demo_replay_cfg"
    by (simp add: config_digest1_def Digest1_def demo_ev1_def demo_replay_cfg_def demo_live_cfg_def zero_cfg1_def)
  show ?thesis
    using v1_replay_reproduces [OF demo_live_env r(1) disjI1 [OF r(2)] c e, of "\<lambda>_. 9"] r(1) d by auto
qed

section \<open>Findings\<close>

text \<open>A snapshot of an empty pool, which a live run writes, is refused by a replay.\<close>

lemma empty_pool_not_replayable:
  assumes "cs1_Pending snap = []" and "cs1_Queued snap = []"
  shows "\<exists>err. validateLoadedSnapshot snap = Some err"
  using assms by (simp add: validateLoadedSnapshot_def)

text \<open>A snapshot path that cannot be written is reported as a snapshot that is too large, and exits with 1, not with 5.\<close>

lemma unwritable_snapshot_exit:
  assumes "\<not> tc1_NoWrite cfg" and "wo_mkdir (re_ops ev 0) = None" "wo_create (re_ops ev 0) = Inr t0"
    and "wo_mkdir (re_ops ev 1) = None" "wo_create (re_ops ev 1) = Inr t1" and "wo_mkdir (re_ops ev 2) = Some err"
  shows "\<exists>e fs'. Execute ev clk cfg fs = (Some (Inl e), fs') \<and> exitCode e = 1"
  using assms
  by (simp add: Execute_def check_outputs_def ensureWritable_def exitCode_def run_error_text_def StartupError1_Error_def Let_def)

text \<open>When the trace cannot be written, the run fails and leaves its candidate behind.\<close>

lemma v1_candidate_without_trace:
  "\<exists>e fs'. persist_run (demo_ev1\<lparr> re_ops := \<lambda>i. if i = 5 then (demo_wo1 ''tmp'')\<lparr> wo_create := Inl ''disk full'' \<rparr> else demo_wo1 ''tmp'' \<rparr>)
      demo_live_cfg snap cand tr [] = (Some e, fs') \<and> gm_get fs' ''c'' = Some ''candidate'' \<and> gm_get fs' ''t'' = None"
  by (simp add: persist_run_def writeSnapshot_def writeAtomic_def demo_ev1_def demo_wo1_def demo_live_cfg_def zero_cfg1_def
      gm_get_def gm_set_def gm_del_def)

text \<open>A chain stops at its first gap: of the nonces 1, 3 and 4 the last gets no decision at all.\<close>

lemma after_gap_unrecorded:
  "normalizeSenderChains rev [(1, [zero_tx1\<lparr> tx1_Nonce := 1 \<rparr>]), (3, [zero_tx1\<lparr> tx1_Nonce := 3 \<rparr>]), (4, [zero_tx1\<lparr> tx1_Nonce := 4 \<rparr>])] 0 =
     Some ([zero_tx1\<lparr> tx1_Nonce := 1 \<rparr>], [reject1 [] [] 3 R1NonceGap ''nonce gap in sender chain'' ''policy''])"
  by (simp add: normalizeSenderChains_def same_nil_def gm_get0_def gm_get_def zero_tx1_def Let_def)

end
